(* ===== verification/Go_Prelude.thy ===== *)
theory Go_Prelude
  imports Main "HOL-Library.AList" "HOL-Library.Word" "HOL-Library.Multiset"
begin

text \<open>
  The prelude of the development: the parts of Go and of its standard library that the
  components use, and the generic lemmas they share.

  Strings are byte strings (\<^typ>\<open>string\<close>, one \<^typ>\<open>char\<close> per byte), as Go's are. Signed
  64-bit integers are \<^typ>\<open>int\<close> with the wrap-around written out by \<open>wrap64\<close> at every operation
  that can leave the range. Instants are nanoseconds on an unbounded time line. A Go \<open>map\<close> is an
  association list with distinct keys; the order of the list stands for Go's unspecified
  iteration order.

  \<open>strings.TrimSpace\<close> is exact on all byte strings, Unicode white space included.
  \<open>strings.ToUpper\<close>, \<open>strings.ToLower\<close> and \<open>strings.EqualFold\<close> are exact on ASCII and leave other
  bytes alone, where Go maps every Unicode letter: text outside ASCII is taken as having no other case.
\<close>

named_theorems go_simps "unfolding rules for the modelled library calls"

section \<open>Machine integers and instants\<close>

definition max_int64 :: int where
  "max_int64 = 9223372036854775807"

definition min_int64 :: int where
  "min_int64 = - 9223372036854775808"

definition int64_range :: "int \<Rightarrow> bool" where
  "int64_range x \<longleftrightarrow> min_int64 \<le> x \<and> x \<le> max_int64"

text \<open>Two's complement reduction of a mathematical result to 64 bits.\<close>

definition wrap64 :: "int \<Rightarrow> int" where
  "wrap64 x = (x + 9223372036854775808) mod 18446744073709551616 - 9223372036854775808"

lemma wrap64_range [simp]: "int64_range (wrap64 x)"
  by (simp add: int64_range_def wrap64_def min_int64_def max_int64_def)

lemma wrap64_id: "int64_range x \<Longrightarrow> wrap64 x = x"
  by (simp add: int64_range_def wrap64_def min_int64_def max_int64_def)

text \<open>Go's integer division and remainder truncate towards zero.\<close>

definition go_quot :: "int \<Rightarrow> int \<Rightarrow> int" where
  "go_quot a b = sgn a * sgn b * (\<bar>a\<bar> div \<bar>b\<bar>)"

definition go_rem :: "int \<Rightarrow> int \<Rightarrow> int" where
  "go_rem a b = sgn a * (\<bar>a\<bar> mod \<bar>b\<bar>)"

lemma go_quot_nonneg: "0 \<le> a \<Longrightarrow> 0 < b \<Longrightarrow> go_quot a b = a div b"
  by (cases "a = 0") (simp_all add: go_quot_def)

lemma go_rem_nonneg: "0 \<le> a \<Longrightarrow> 0 < b \<Longrightarrow> go_rem a b = a mod b"
  by (cases "a = 0") (simp_all add: go_rem_def)

type_synonym instant = int
type_synonym duration = int

text \<open>Durations are counted in nanoseconds; the zero \<open>time.Time\<close> is 1 January of year 1.\<close>

definition second :: duration where "second = 1000000000"
definition minute :: duration where "minute = 60 * second"
definition hour :: duration where "hour = 60 * minute"

definition zero_time :: instant where
  "zero_time = - 62135596800 * second"

definition is_zero_time :: "instant \<Rightarrow> bool" where
  "is_zero_time t \<longleftrightarrow> t = zero_time"

text \<open>\<open>Time.Sub\<close> saturates at the extreme durations.\<close>

definition time_sub :: "instant \<Rightarrow> instant \<Rightarrow> duration" where
  "time_sub t u = max min_int64 (min max_int64 (t - u))"

lemma time_sub_range [simp]: "int64_range (time_sub t u)"
  by (simp add: int64_range_def time_sub_def min_int64_def max_int64_def)

lemma time_sub_exact: "int64_range (t - u) \<Longrightarrow> time_sub t u = t - u"
  by (simp add: int64_range_def time_sub_def)

section \<open>Bytes and digits\<close>

abbreviation ord :: "char \<Rightarrow> nat" where
  "ord c \<equiv> of_char c"

definition is_digit :: "char \<Rightarrow> bool" where
  "is_digit c \<longleftrightarrow> 48 \<le> ord c \<and> ord c \<le> 57"

definition digit_val :: "char \<Rightarrow> nat" where
  "digit_val c = ord c - 48"

definition digit_char :: "nat \<Rightarrow> char" where
  "digit_char n = char_of (48 + n)"

lemma digit_char_simps:
  "digit_char 0 = CHR ''0''" "digit_char (Suc 0) = CHR ''1''" "digit_char 1 = CHR ''1''"
  "digit_char 2 = CHR ''2''" "digit_char 3 = CHR ''3''" "digit_char 4 = CHR ''4''"
  "digit_char 5 = CHR ''5''" "digit_char 6 = CHR ''6''" "digit_char 7 = CHR ''7''"
  "digit_char 8 = CHR ''8''" "digit_char 9 = CHR ''9''"
  by code_simp+

lemma ord_digit_char: "n < 10 \<Longrightarrow> ord (digit_char n) = 48 + n"
  by (simp add: digit_char_def)

lemma is_digit_digit_char [simp]: "n < 10 \<Longrightarrow> is_digit (digit_char n)"
  by (simp add: is_digit_def ord_digit_char)

lemma digit_val_digit_char [simp]: "n < 10 \<Longrightarrow> digit_val (digit_char n) = n"
  by (simp add: digit_val_def ord_digit_char)

lemma digit_val_less [simp]: "is_digit c \<Longrightarrow> digit_val c < 10"
  by (auto simp: is_digit_def digit_val_def)

lemma char_eq_ord: "c = d \<longleftrightarrow> ord c = ord d"
  by simp

lemma digit_val_eq_0: "is_digit c \<Longrightarrow> digit_val c = 0 \<longleftrightarrow> c = CHR ''0''"
  by (auto simp: is_digit_def digit_val_def char_eq_ord)

lemma digits_notin: "list_all is_digit s \<Longrightarrow> \<not> is_digit c \<Longrightarrow> c \<notin> set s"
  by (auto simp: list_all_iff)

fun nat_of_digits :: "string \<Rightarrow> nat" where
  "nat_of_digits [] = 0"
| "nat_of_digits (c # cs) = digit_val c * 10 ^ length cs + nat_of_digits cs"

lemma nat_of_digits_append:
  "nat_of_digits (xs @ ys) = nat_of_digits xs * 10 ^ length ys + nat_of_digits ys"
  by (induction xs) (simp_all add: power_add algebra_simps)

lemma nat_of_digits_bound: "list_all is_digit s \<Longrightarrow> nat_of_digits s < 10 ^ length s"
proof (induction s)
  case (Cons c cs)
  then have ih: "nat_of_digits cs < 10 ^ length cs" and c: "digit_val c \<le> 9"
    using digit_val_less [of c] by (auto simp: less_Suc_eq_le [symmetric])
  from c have "digit_val c * 10 ^ length cs \<le> 9 * 10 ^ length cs" by (rule mult_le_mono1)
  with ih show ?case unfolding nat_of_digits.simps length_Cons power_Suc by linarith
qed simp

lemma nat_of_digits_eq_0:
  "list_all is_digit s \<Longrightarrow> nat_of_digits s = 0 \<longleftrightarrow> list_all (\<lambda>c. c = CHR ''0'') s"
  by (induction s) (auto simp: digit_val_eq_0)

lemma digit_val_zero [simp]: "digit_val CHR ''0'' = 0"
  by (simp add: digit_val_def)

lemma is_digit_zero [simp]: "is_digit CHR ''0''"
  by (simp add: is_digit_def)

lemma nat_of_digits_zeros [simp]: "nat_of_digits (replicate n CHR ''0'') = 0"
  by (induction n) simp_all

lemma nat_of_digits_dropWhile_zero [simp]:
  "nat_of_digits (dropWhile (\<lambda>c. c = CHR ''0'') s) = nat_of_digits s"
  by (induction s) simp_all

fun show_nat :: "nat \<Rightarrow> string" where
  "show_nat n = (if n < 10 then [digit_char n] else show_nat (n div 10) @ [digit_char (n mod 10)])"

declare show_nat.simps [simp del]

lemma show_nat_digits [simp]: "list_all is_digit (show_nat n)"
proof (induction n rule: show_nat.induct)
  case (1 n)
  then show ?case by (subst show_nat.simps) simp
qed

lemma show_nat_nonempty [simp]: "show_nat n \<noteq> []"
  by (subst show_nat.simps) simp

lemma nat_of_digits_show_nat [simp]: "nat_of_digits (show_nat n) = n"
proof (induction n rule: show_nat.induct)
  case (1 n)
  then show ?case by (subst show_nat.simps) (simp add: nat_of_digits_append)
qed

lemma show_nat_inject [simp]: "show_nat m = show_nat n \<longleftrightarrow> m = n"
  by (metis nat_of_digits_show_nat)

lemma length_show_nat_le: "n < 10 ^ k \<Longrightarrow> 0 < k \<Longrightarrow> length (show_nat n) \<le> k"
proof (induction k arbitrary: n)
  case (Suc k)
  show ?case
  proof (cases "n < 10")
    case True
    then show ?thesis by (subst show_nat.simps) simp
  next
    case False
    with Suc.prems have "n div 10 < 10 ^ k" and "0 < k"
      by (auto simp: div_less_iff_less_mult mult.commute intro: Nat.gr0I)
    with Suc.IH [of "n div 10"] False show ?thesis by (subst show_nat.simps) simp
  qed
qed simp

definition FormatInt :: "int \<Rightarrow> string" where
  "FormatInt v = (if v < 0 then CHR ''-'' # show_nat (nat (- v)) else show_nat (nat v))"

text \<open>
  \<open>strconv.ParseInt(s, 10, 64)\<close>. The callers only distinguish success from failure, so the syntax
  and the range error are both \<^const>\<open>None\<close>.
\<close>

definition ParseInt :: "string \<Rightarrow> int option" where
  "ParseInt s =
     (let (neg, ds) = (case s of [] \<Rightarrow> (False, [])
                       | c # cs \<Rightarrow> if c = CHR ''-'' then (True, cs)
                                   else if c = CHR ''+'' then (False, cs) else (False, s))
      in if ds = [] \<or> \<not> list_all is_digit ds then None
         else let n = int (nat_of_digits ds); v = (if neg then - n else n)
              in if int64_range v then Some v else None)"

lemma not_is_digit_sign [simp]: "\<not> is_digit CHR ''-''" "\<not> is_digit CHR ''+''" "\<not> is_digit CHR ''.''"
  by (simp_all add: is_digit_def)

lemma ParseInt_digits:
  assumes "list_all is_digit ds" and "ds \<noteq> []"
  shows "ParseInt ds = (if int (nat_of_digits ds) \<le> max_int64 then Some (int (nat_of_digits ds)) else None)"
proof -
  obtain c cs where ds: "ds = c # cs" using assms(2) by (cases ds) auto
  with assms(1) have "is_digit c" by simp
  then have "c \<noteq> CHR ''-''" and "c \<noteq> CHR ''+''" by auto
  then have "ParseInt ds = (if int64_range (int (nat_of_digits ds))
      then Some (int (nat_of_digits ds)) else None)"
    using assms ds by (simp add: ParseInt_def Let_def del: nat_of_digits.simps)
  moreover have "int64_range (int (nat_of_digits ds)) \<longleftrightarrow> int (nat_of_digits ds) \<le> max_int64"
    by (simp add: int64_range_def min_int64_def del: nat_of_digits.simps)
  ultimately show ?thesis by simp
qed

lemma ParseInt_FormatInt [simp]: "int64_range v \<Longrightarrow> ParseInt (FormatInt v) = Some v"
  by (auto simp: FormatInt_def ParseInt_digits)
     (auto simp: ParseInt_def Let_def int64_range_def)

lemma ParseInt_range: "ParseInt s = Some v \<Longrightarrow> int64_range v"
  by (auto simp: ParseInt_def Let_def split: if_splits prod.splits)

lemma FormatInt_chars: "c \<in> set (FormatInt v) \<Longrightarrow> is_digit c \<or> c = CHR ''-''"
  using show_nat_digits by (auto simp: FormatInt_def list_all_iff split: if_splits)

lemma FormatInt_nonempty [simp]: "FormatInt v \<noteq> []"
  by (simp add: FormatInt_def)

lemma FormatInt_inject [simp]: "FormatInt u = FormatInt v \<longleftrightarrow> u = v"
proof
  assume eq: "FormatInt u = FormatInt v"
  have hd: "hd (show_nat n) \<noteq> CHR ''-''" for n
    using show_nat_digits [of n] show_nat_nonempty [of n]
    by (cases "show_nat n") auto
  then have "CHR ''-'' # xs \<noteq> show_nat n" for n xs
    by (metis list.sel(1))
  then have "show_nat n \<noteq> CHR ''-'' # xs" for n xs
    by metis
  with eq show "u = v"
    by (auto simp: FormatInt_def split: if_splits dest: sym)
qed simp

section \<open>The string library\<close>

text \<open>
  The white space of \<open>unicode.IsSpace\<close>, each rune as its UTF-8 bytes. A rune starts a string
  exactly when its bytes are a prefix of it, and ends it exactly when they are a suffix.
\<close>

definition space_runes :: "string list" where
  "space_runes =
     [[CHR 0x09], [CHR 0x0A], [CHR 0x0B], [CHR 0x0C], [CHR 0x0D], [CHR 0x20],
      [CHR 0xC2, CHR 0x85], [CHR 0xC2, CHR 0xA0], [CHR 0xE1, CHR 0x9A, CHR 0x80],
      [CHR 0xE2, CHR 0x80, CHR 0x80], [CHR 0xE2, CHR 0x80, CHR 0x81],
      [CHR 0xE2, CHR 0x80, CHR 0x82], [CHR 0xE2, CHR 0x80, CHR 0x83],
      [CHR 0xE2, CHR 0x80, CHR 0x84], [CHR 0xE2, CHR 0x80, CHR 0x85],
      [CHR 0xE2, CHR 0x80, CHR 0x86], [CHR 0xE2, CHR 0x80, CHR 0x87],
      [CHR 0xE2, CHR 0x80, CHR 0x88], [CHR 0xE2, CHR 0x80, CHR 0x89],
      [CHR 0xE2, CHR 0x80, CHR 0x8A], [CHR 0xE2, CHR 0x80, CHR 0xA8],
      [CHR 0xE2, CHR 0x80, CHR 0xA9], [CHR 0xE2, CHR 0x80, CHR 0xAF],
      [CHR 0xE2, CHR 0x81, CHR 0x9F], [CHR 0xE3, CHR 0x80, CHR 0x80]]"

fun starts_with :: "string \<Rightarrow> string \<Rightarrow> bool" where
  "starts_with [] s = True"
| "starts_with (p # ps) [] = False"
| "starts_with (p # ps) (c # cs) = (p = c \<and> starts_with ps cs)"

lemma starts_with_iff: "starts_with p s \<longleftrightarrow> (\<exists>t. s = p @ t)"
  by (induction p s rule: starts_with.induct) auto

lemma starts_with_length: "starts_with p s \<Longrightarrow> length p \<le> length s"
  by (auto simp: starts_with_iff)

lemma starts_with_append [simp]: "starts_with p (p @ t)"
  by (auto simp: starts_with_iff)

fun lead_len :: "string list \<Rightarrow> string \<Rightarrow> nat" where
  "lead_len [] s = 0"
| "lead_len (p # ps) s = (if starts_with p s then length p else lead_len ps s)"

lemma lead_len_le: "lead_len ps s \<le> length s"
  by (induction ps) (auto dest: starts_with_length)

function trim_lead :: "string list \<Rightarrow> string \<Rightarrow> string" where
  "trim_lead ps s = (let n = lead_len ps s in if n = 0 then s else trim_lead ps (drop n s))"
  by pat_completeness auto
termination
proof (relation "measure (\<lambda>(ps, s). length s)", goal_cases)
  case (2 ps s x)
  then show ?case using lead_len_le [of ps s] by simp
qed simp

declare trim_lead.simps [simp del]

definition TrimSpace :: "string \<Rightarrow> string" where
  "TrimSpace s = rev (trim_lead (map rev space_runes) (rev (trim_lead space_runes s)))"

text \<open>A visible ASCII byte neither starts nor ends a white-space rune.\<close>

definition visible :: "char \<Rightarrow> bool" where
  "visible c \<longleftrightarrow> 33 \<le> ord c \<and> ord c \<le> 126"

lemma lead_len_other:
  "list_all (\<lambda>p. p \<noteq> [] \<and> \<not> visible (hd p)) ps \<Longrightarrow> visible c \<Longrightarrow> lead_len ps (c # s) = 0"
proof (induction ps)
  case (Cons p ps)
  then show ?case by (cases p) auto
qed simp

lemma space_runes_not_visible:
  "list_all (\<lambda>p. p \<noteq> [] \<and> \<not> visible (hd p)) space_runes"
  "list_all (\<lambda>p. p \<noteq> [] \<and> \<not> visible (hd p)) (map rev space_runes)"
  by code_simp+

lemmas lead_len_visible =
  lead_len_other [OF space_runes_not_visible(1)] lead_len_other [OF space_runes_not_visible(2)]

lemma lead_len_Nil:
  "lead_len space_runes [] = 0" "lead_len (map rev space_runes) [] = 0"
  by (simp_all add: space_runes_def)

lemma trim_lead_none: "lead_len ps s = 0 \<Longrightarrow> trim_lead ps s = s"
  by (simp add: trim_lead.simps [of ps s])

lemma trim_lead_visible:
  assumes "s = [] \<or> visible (hd s)"
  shows "trim_lead space_runes s = s" and "trim_lead (map rev space_runes) s = s"
  using assms by (cases s; simp add: trim_lead_none lead_len_Nil lead_len_visible)+

lemma TrimSpace_visible:
  assumes "s = [] \<or> (visible (hd s) \<and> visible (last s))"
  shows "TrimSpace s = s"
proof -
  have "trim_lead (map rev space_runes) (rev s) = rev s"
    using assms by (intro trim_lead_visible) (auto simp: hd_rev)
  moreover have "trim_lead space_runes s = s"
    using assms by (intro trim_lead_visible) auto
  ultimately show ?thesis by (simp add: TrimSpace_def)
qed

lemma trim_lead_keeps:
  assumes "list_all (list_all (\<lambda>c. \<not> visible c)) ps" and "visible c" and "c \<in> set s"
  shows "c \<in> set (trim_lead ps s)"
  using assms(1,3)
proof (induction ps s rule: trim_lead.induct)
  case (1 ps s)
  have "\<not> visible d" if "d \<in> set (take (lead_len qs s) s)" "list_all (list_all (\<lambda>c. \<not> visible c)) qs" for d qs
    using that
  proof (induction qs)
    case (Cons q qs)
    show ?case
    proof (cases "starts_with q s")
      case True
      then have "take (lead_len (q # qs) s) s = q" by (auto simp: starts_with_iff)
      with Cons.prems show ?thesis by (simp add: list_all_iff)
    next
      case False
      with Cons show ?thesis by simp
    qed
  qed simp
  then have "c \<notin> set (take (lead_len ps s) s)" using "1.prems"(1) assms(2) by blast
  with "1.prems"(2) have "c \<in> set (drop (lead_len ps s) s)" by (metis UnE append_take_drop_id set_append)
  with 1 show ?case by (subst trim_lead.simps) (simp add: Let_def)
qed

lemma TrimSpace_empty:
  assumes "TrimSpace s = []" and "visible c"
  shows "c \<notin> set s"
proof
  assume "c \<in> set s"
  have v: "list_all (list_all (\<lambda>c. \<not> visible c)) space_runes"
    "list_all (list_all (\<lambda>c. \<not> visible c)) (map rev space_runes)" by code_simp+
  from trim_lead_keeps [OF v(1) assms(2) \<open>c \<in> set s\<close>]
  have "c \<in> set (rev (trim_lead space_runes s))" by simp
  from trim_lead_keeps [OF v(2) assms(2) this] assms(1) show False by (simp add: TrimSpace_def)
qed

lemma visible_digit: "is_digit c \<Longrightarrow> visible c"
  by (auto simp: is_digit_def visible_def)

lemma trim_lead_idem: "lead_len ps (trim_lead ps s) = 0"
proof (induction ps s rule: trim_lead.induct)
  case (1 ps s)
  then show ?case by (subst trim_lead.simps) (simp add: Let_def)
qed

lemma lead_len_eq_0:
  "list_all (\<lambda>p. p \<noteq> []) ps \<Longrightarrow> lead_len ps s = 0 \<longleftrightarrow> (\<forall>p \<in> set ps. \<not> starts_with p s)"
  by (induction ps) auto

lemma starts_with_appendI: "starts_with p s \<Longrightarrow> starts_with p (s @ t)"
  by (auto simp: starts_with_iff)

lemma trim_lead_suffix: "\<exists>u. s = u @ trim_lead ps s"
proof (induction ps s rule: trim_lead.induct)
  case (1 ps s)
  show ?case
  proof (cases "lead_len ps s = 0")
    case False
    with "1" obtain u where "drop (lead_len ps s) s = u @ trim_lead ps (drop (lead_len ps s) s)"
      by auto
    then have "s = (take (lead_len ps s) s @ u) @ trim_lead ps (drop (lead_len ps s) s)"
      by (metis append.assoc append_take_drop_id)
    moreover have "trim_lead ps s = trim_lead ps (drop (lead_len ps s) s)"
      using False by (simp add: trim_lead.simps [of ps s] Let_def)
    ultimately show ?thesis by metis
  qed (simp add: trim_lead_none)
qed

lemma space_runes_nonempty:
  "list_all (\<lambda>p. p \<noteq> []) space_runes" "list_all (\<lambda>p. p \<noteq> []) (map rev space_runes)"
  by (simp_all add: space_runes_def)

lemma TrimSpace_idem [simp]: "TrimSpace (TrimSpace s) = TrimSpace s"
proof -
  let ?l = "trim_lead space_runes s" and ?r = "map rev space_runes"
  let ?t = "trim_lead ?r (rev ?l)"
  obtain u where "rev ?l = u @ ?t" using trim_lead_suffix by blast
  then have l: "?l = rev ?t @ rev u" by (metis rev_append rev_rev_ident)
  have "lead_len space_runes (rev ?t) = 0"
    using trim_lead_idem [of space_runes s] l starts_with_appendI [of _ "rev ?t" "rev u"]
    by (simp add: lead_len_eq_0 space_runes_nonempty(1)) metis
  moreover have "lead_len ?r ?t = 0" by (rule trim_lead_idem)
  ultimately show ?thesis by (simp add: TrimSpace_def trim_lead_none)
qed

definition ToUpperByte :: "char \<Rightarrow> char" where
  "ToUpperByte c = (if 97 \<le> ord c \<and> ord c \<le> 122 then char_of (ord c - 32) else c)"

definition ToLowerByte :: "char \<Rightarrow> char" where
  "ToLowerByte c = (if 65 \<le> ord c \<and> ord c \<le> 90 then char_of (ord c + 32) else c)"

definition ToUpper :: "string \<Rightarrow> string" where "ToUpper s = map ToUpperByte s"
definition ToLower :: "string \<Rightarrow> string" where "ToLower s = map ToLowerByte s"

definition EqualFold :: "string \<Rightarrow> string \<Rightarrow> bool" where
  "EqualFold s t \<longleftrightarrow> ToLower s = ToLower t"

lemma ToUpperByte_idem [simp]: "ToUpperByte (ToUpperByte c) = ToUpperByte c"
proof (cases "97 \<le> ord c \<and> ord c \<le> 122")
  case True
  then have "ord c - 32 < 256" by linarith
  then have "ord (ToUpperByte c) = ord c - 32"
    using True unfolding ToUpperByte_def by (simp only: of_char_of if_True mod_less simp_thms)
  moreover from True have "\<not> 97 \<le> ord c - 32" by linarith
  ultimately show ?thesis by (simp add: ToUpperByte_def [of "ToUpperByte c"])
qed (auto simp: ToUpperByte_def)

lemma ToUpper_idem [simp]: "ToUpper (ToUpper s) = ToUpper s"
  by (simp add: ToUpper_def)

text \<open>Upper-casing neither makes nor removes white space.\<close>

lemma ToUpperByte_fixed: "ord c < 65 \<or> 122 < ord c \<Longrightarrow> ToUpperByte d = c \<longleftrightarrow> d = c"
proof (cases "97 \<le> ord d \<and> ord d \<le> 122")
  case True
  assume c: "ord c < 65 \<or> 122 < ord c"
  from True have "ord d - 32 < 256" by linarith
  with True have "ord (ToUpperByte d) = ord d - 32"
    unfolding ToUpperByte_def by (simp only: of_char_of if_True mod_less simp_thms)
  with True c show ?thesis by auto
qed (auto simp: ToUpperByte_def)

lemma starts_with_upper:
  "list_all (\<lambda>c. ord c < 65 \<or> 122 < ord c) p \<Longrightarrow> starts_with p (map ToUpperByte s) = starts_with p s"
proof (induction p s rule: starts_with.induct)
  case (3 p ps c cs)
  then show ?case using ToUpperByte_fixed [of p c] by auto
qed auto

lemma lead_len_upper:
  "list_all (list_all (\<lambda>c. ord c < 65 \<or> 122 < ord c)) ps \<Longrightarrow> lead_len ps (map ToUpperByte s) = lead_len ps s"
  by (induction ps) (auto simp: starts_with_upper)

lemma trim_lead_upper:
  assumes "list_all (list_all (\<lambda>c. ord c < 65 \<or> 122 < ord c)) ps"
  shows "trim_lead ps (map ToUpperByte s) = map ToUpperByte (trim_lead ps s)"
  using assms
proof (induction ps s rule: trim_lead.induct)
  case (1 ps s)
  then show ?case
    by (simp add: trim_lead.simps [of ps s] trim_lead.simps [of ps "map ToUpperByte s"]
        lead_len_upper Let_def flip: drop_map)
qed

lemma space_runes_caseless:
  "list_all (list_all (\<lambda>c. ord c < 65 \<or> 122 < ord c)) space_runes"
  "list_all (list_all (\<lambda>c. ord c < 65 \<or> 122 < ord c)) (map rev space_runes)"
  by code_simp+

lemma TrimSpace_ToUpper: "TrimSpace (ToUpper s) = ToUpper (TrimSpace s)"
  unfolding TrimSpace_def ToUpper_def
  by (simp add: trim_lead_upper space_runes_caseless rev_map)

definition TrimPrefix :: "string \<Rightarrow> string \<Rightarrow> string" where
  "TrimPrefix s p = (if starts_with p s then drop (length p) s else s)"

text \<open>\<open>strings.Cut\<close> and \<open>strings.Split\<close> at a single byte.\<close>

fun Cut :: "string \<Rightarrow> char \<Rightarrow> string \<times> string \<times> bool" where
  "Cut [] d = ([], [], False)"
| "Cut (c # cs) d =
     (if c = d then ([], cs, True) else let (a, b, f) = Cut cs d in (c # a, b, f))"

lemma Cut_found: "d \<notin> set a \<Longrightarrow> Cut (a @ d # b) d = (a, b, True)"
  by (induction a) auto

lemma Cut_absent: "d \<notin> set a \<Longrightarrow> Cut a d = (a, [], False)"
  by (induction a) auto

lemma Cut_cases:
  assumes "Cut s d = (a, b, f)"
  shows "d \<notin> set a \<and> (if f then s = a @ d # b else s = a \<and> b = [])"
  using assms
proof (induction s arbitrary: a)
  case (Cons c cs)
  then show ?case
    by (cases "Cut cs d") (auto split: if_splits)
qed simp

fun Split :: "string \<Rightarrow> char \<Rightarrow> string list" where
  "Split [] d = [[]]"
| "Split (c # cs) d =
     (if c = d then [] # Split cs d
      else case Split cs d of [] \<Rightarrow> [[c]] | p # ps \<Rightarrow> (c # p) # ps)"

lemma Split_nonempty [simp]: "Split s d \<noteq> []"
  by (induction s) (auto split: list.splits)

lemma Split_absent: "d \<notin> set a \<Longrightarrow> Split a d = [a]"
  by (induction a) auto

lemma Split_found: "d \<notin> set a \<Longrightarrow> Split (a @ d # b) d = a # Split b d"
  by (induction a) auto

definition TrimRight :: "string \<Rightarrow> char \<Rightarrow> string" where
  "TrimRight s d = rev (dropWhile (\<lambda>c. c = d) (rev s))"

definition TrimLeft :: "string \<Rightarrow> char \<Rightarrow> string" where
  "TrimLeft s d = dropWhile (\<lambda>c. c = d) s"

lemma TrimRight_decomp: "s = TrimRight s d @ replicate (length s - length (TrimRight s d)) d"
proof -
  let ?t = "takeWhile (\<lambda>c. c = d) (rev s)"
  have s: "s = TrimRight s d @ rev ?t"
    unfolding TrimRight_def by (metis rev_append rev_rev_ident takeWhile_dropWhile_id)
  have t: "rev ?t = replicate (length ?t) d"
    by (rule replicate_eqI) (auto dest: set_takeWhileD)
  from s have "length ?t = length s - length (TrimRight s d)"
    by (metis add_diff_cancel_left' length_append length_rev)
  with s t show ?thesis by metis
qed

lemma TrimRight_length_le:
  "length (TrimRight s d) \<le> n \<longleftrightarrow> list_all (\<lambda>c. c = d) (drop n s)"
proof (induction s rule: rev_induct)
  case (snoc x xs)
  show ?case
  proof (cases "x = d")
    case True
    then have "TrimRight (xs @ [x]) d = TrimRight xs d" by (simp add: TrimRight_def)
    with snoc True show ?thesis by (cases "n \<le> length xs") auto
  next
    case False
    then have "TrimRight (xs @ [x]) d = xs @ [x]" by (simp add: TrimRight_def)
    with False show ?thesis by (cases "n \<le> length xs") auto
  qed
qed (simp add: TrimRight_def)

text \<open>
  \<open>strings.ToValidUTF8(s, "")\<close>: bytes that are not part of a well-formed UTF-8 sequence are dropped.
  \<open>rune_len\<close> is the length of the well-formed sequence a string starts with, zero if there is none.
\<close>

definition in_bytes :: "nat \<Rightarrow> nat \<Rightarrow> string \<Rightarrow> nat \<Rightarrow> bool" where
  "in_bytes lo hi s i \<longleftrightarrow> i < length s \<and> lo \<le> ord (s ! i) \<and> ord (s ! i) \<le> hi"

definition rune_len :: "string \<Rightarrow> nat" where
  "rune_len s =
     (if in_bytes 0 127 s 0 then 1
      else if in_bytes 194 223 s 0 \<and> in_bytes 128 191 s 1 then 2
      else if ((in_bytes 224 224 s 0 \<and> in_bytes 160 191 s 1)
             \<or> ((in_bytes 225 236 s 0 \<or> in_bytes 238 239 s 0) \<and> in_bytes 128 191 s 1)
             \<or> (in_bytes 237 237 s 0 \<and> in_bytes 128 159 s 1)) \<and> in_bytes 128 191 s 2 then 3
      else if ((in_bytes 240 240 s 0 \<and> in_bytes 144 191 s 1)
             \<or> (in_bytes 241 243 s 0 \<and> in_bytes 128 191 s 1)
             \<or> (in_bytes 244 244 s 0 \<and> in_bytes 128 143 s 1))
             \<and> in_bytes 128 191 s 2 \<and> in_bytes 128 191 s 3 then 4
      else 0)"

function ToValidUTF8 :: "string \<Rightarrow> string" where
  "ToValidUTF8 s =
     (if s = [] then []
      else if rune_len s = 0 then ToValidUTF8 (tl s)
      else take (rune_len s) s @ ToValidUTF8 (drop (rune_len s) s))"
  by pat_completeness auto
termination
  by (relation "measure length") auto

declare ToValidUTF8.simps [simp del]

section \<open>Association lists\<close>

text \<open>
  Writing a key of a Go map is \<^const>\<open>AList.update\<close>, deleting it is \<^const>\<open>AList.delete\<close>; reading is
  \<^const>\<open>map_of\<close>. \<open>keys_distinct\<close> is what makes the list a map.
\<close>

abbreviation keys_distinct :: "('k \<times> 'v) list \<Rightarrow> bool" where
  "keys_distinct m \<equiv> distinct (map fst m)"

lemma map_of_update [simp]: "map_of (AList.update k v m) = (map_of m)(k \<mapsto> v)"
  by (rule update_conv')

lemma map_of_delete [simp]: "map_of (AList.delete k m) = (map_of m)(k := None)"
  by (rule delete_conv')

lemma keys_distinct_update [simp]: "keys_distinct m \<Longrightarrow> keys_distinct (AList.update k v m)"
  by (rule distinct_update)

lemma keys_distinct_delete [simp]: "keys_distinct m \<Longrightarrow> keys_distinct (AList.delete k m)"
  by (rule distinct_delete)

lemma in_set_map_of: "keys_distinct m \<Longrightarrow> (k, v) \<in> set m \<longleftrightarrow> map_of m k = Some v"
  by (simp add: map_of_eq_Some_iff)

section \<open>Hexadecimal\<close>

definition hexDigit :: "nat \<Rightarrow> char" where
  "hexDigit n = ''0123456789abcdef'' ! n"

definition hexByte :: "char \<Rightarrow> string" where
  "hexByte c = [hexDigit (ord c div 16), hexDigit (ord c mod 16)]"

definition hexEncode :: "string \<Rightarrow> string" where
  "hexEncode s = concat (map hexByte s)"

definition fromHexChar :: "char \<Rightarrow> nat option" where
  "fromHexChar c =
     (if is_digit c then Some (digit_val c)
      else if 97 \<le> ord c \<and> ord c \<le> 102 then Some (ord c - 97 + 10)
      else if 65 \<le> ord c \<and> ord c \<le> 70 then Some (ord c - 65 + 10)
      else None)"

fun hexDecode :: "string \<Rightarrow> string option" where
  "hexDecode [] = Some []"
| "hexDecode [_] = None"
| "hexDecode (c # d # s) =
     (case (fromHexChar c, fromHexChar d, hexDecode s) of
        (Some a, Some b, Some t) \<Rightarrow> Some (char_of (16 * a + b) # t)
      | _ \<Rightarrow> None)"

lemma hexDigit_inj: "m < 16 \<Longrightarrow> n < 16 \<Longrightarrow> hexDigit m = hexDigit n \<Longrightarrow> m = n"
  by (auto simp: hexDigit_def nth_eq_iff_index_eq)

lemma ord_div_16: "ord c div 16 < 16"
  using of_char_eq_iff [of c c] by (simp add: less_mult_imp_div_less)

lemma hexByte_inj: "hexByte c = hexByte d \<Longrightarrow> c = d"
proof -
  assume "hexByte c = hexByte d"
  then have "ord c div 16 = ord d div 16" "ord c mod 16 = ord d mod 16"
    by (auto simp: hexByte_def intro!: hexDigit_inj ord_div_16)
  then show "c = d" by (metis char_eq_ord div_mult_mod_eq)
qed

lemma hexEncode_inject: "hexEncode s = hexEncode t \<Longrightarrow> s = t"
proof (induction s arbitrary: t)
  case Nil
  then show ?case by (cases t) (auto simp: hexEncode_def hexByte_def)
next
  case (Cons c s)
  then obtain d u where t: "t = d # u" by (cases t) (auto simp: hexEncode_def hexByte_def)
  with Cons.prems have "hexByte c = hexByte d \<and> hexEncode s = hexEncode u"
    by (auto simp: hexEncode_def hexByte_def)
  with Cons.IH t show ?case by (blast dest: hexByte_inj)
qed

lemma hexDigit_cases: "n < 16 \<Longrightarrow> hexDigit n \<in> set ''0123456789abcdef''"
  unfolding hexDigit_def by (intro nth_mem) simp

lemma fromHexChar_hexDigit:
  assumes "n < 16"
  shows "fromHexChar (hexDigit n) = Some n"
proof -
  have "n \<in> set [0..<16]" using assms by simp
  moreover have "list_all (\<lambda>n. fromHexChar (hexDigit n) = Some n) [0..<16]"
    by (simp add: upt_rec hexDigit_def fromHexChar_def is_digit_def digit_val_def)
  ultimately show ?thesis by (simp only: list_all_iff)
qed

lemma hexDecode_hexEncode [simp]: "hexDecode (hexEncode s) = Some s"
proof (induction s)
  case (Cons c s)
  have "16 * (ord c div 16) + ord c mod 16 = ord c" by simp
  with Cons show ?case
    by (simp add: hexEncode_def hexByte_def fromHexChar_hexDigit ord_div_16)
qed (simp add: hexEncode_def)

lemma hexEncode_chars: "c \<in> set (hexEncode s) \<Longrightarrow> c \<in> set ''0123456789abcdef''"
proof -
  assume "c \<in> set (hexEncode s)"
  then obtain d where "c = hexDigit (ord d div 16) \<or> c = hexDigit (ord d mod 16)"
    by (auto simp: hexEncode_def hexByte_def)
  then show ?thesis using hexDigit_cases [OF ord_div_16] hexDigit_cases [of "ord d mod 16"] by fastforce
qed

section \<open>Machines and their invariants\<close>

text \<open>
  Several components are a state and a set of operations applied one at a time (each holds its lock
  for the whole operation). \<open>legal\<close> says that every operation of a sequence meets the guard of the
  component at the moment it is applied.
\<close>

fun legal :: "('s \<Rightarrow> 'o \<Rightarrow> bool) \<Rightarrow> ('s \<Rightarrow> 'o \<Rightarrow> 's) \<Rightarrow> 's \<Rightarrow> 'o list \<Rightarrow> bool" where
  "legal ok step s [] = True"
| "legal ok step s (x # xs) = (ok s x \<and> legal ok step (step s x) xs)"

lemma legal_always: "(\<And>s x. ok s x) \<Longrightarrow> legal ok step s xs"
  by (induction xs arbitrary: s) auto

lemma legal_append:
  "legal ok step s (xs @ ys) \<longleftrightarrow> legal ok step s xs \<and> legal ok step (foldl step s xs) ys"
  by (induction xs arbitrary: s) auto

locale machine =
  fixes step :: "'s \<Rightarrow> 'o \<Rightarrow> 's"
    and ok :: "'s \<Rightarrow> 'o \<Rightarrow> bool"
    and inv :: "'s \<Rightarrow> bool"
  assumes step_inv: "inv s \<Longrightarrow> ok s x \<Longrightarrow> inv (step s x)"
begin

lemma run_inv: "inv s \<Longrightarrow> legal ok step s xs \<Longrightarrow> inv (foldl step s xs)"
  by (induction xs arbitrary: s) (auto intro: step_inv)

lemma run_prefix_inv:
  "inv s \<Longrightarrow> legal ok step s (xs @ ys) \<Longrightarrow> inv (foldl step s xs)"
  by (induction xs arbitrary: s) (auto intro: step_inv)

end

end
