(* ===== verification/Amount.thy ===== *)
theory Amount
  imports Go_Prelude
begin

text \<open>
  Money: \<^verbatim>\<open>internal/domain/amount.go\<close>. Currency codes and their ISO 4217 exponents, the
  conversions between a provider's decimal text and integer minor units, and the theorems that the
  conversions are exact: no amount is rounded, and what is printed is read back.
\<close>

section \<open>Definitions\<close>

text \<open>Every error wraps \<open>ErrAmountUnrepresentable\<close>; the constructor keeps which message it carries.\<close>

datatype amount_error =
    AmountEmpty
  | AmountNoDigits
  | AmountNotPlainDecimal
  | AmountTooPrecise
  | AmountOverflows
  | AmountFractionalMinor
  | AmountNotInteger

definition minorUnitExponent :: "(string \<times> nat) list" where
  "minorUnitExponent =
    [(''NGN'', 2), (''USD'', 2), (''EUR'', 2), (''GBP'', 2), (''GHS'', 2), (''KES'', 2), (''ZAR'', 2),
     (''TZS'', 2), (''UGX'', 0), (''RWF'', 0), (''XOF'', 0), (''XAF'', 0), (''EGP'', 2), (''MAD'', 2),
     (''ZMW'', 2), (''CAD'', 2), (''AUD'', 2), (''CHF'', 2), (''CNY'', 2), (''INR'', 2), (''BRL'', 2),
     (''JPY'', 0), (''KRW'', 0), (''VND'', 0), (''CLP'', 0), (''ISK'', 0), (''PYG'', 0),
     (''BHD'', 3), (''IQD'', 3), (''JOD'', 3), (''KWD'', 3), (''LYD'', 3), (''OMR'', 3), (''TND'', 3)]"

definition NormaliseCurrency :: "string \<Rightarrow> string" where
  "NormaliseCurrency c = ToUpper (TrimSpace c)"

definition MinorUnitExponent :: "string \<Rightarrow> nat \<times> bool" where
  "MinorUnitExponent currency =
     (case map_of minorUnitExponent (NormaliseCurrency currency) of
        None \<Rightarrow> (2, False)
      | Some e \<Rightarrow> (e, True))"

definition ValidCurrency :: "string \<Rightarrow> bool" where
  "ValidCurrency c =
     (let c = NormaliseCurrency c
      in length c = 3 \<and> list_all (\<lambda>b. \<not> (ord b < 65 \<or> ord b > 90)) c)"

definition allDigits :: "string \<Rightarrow> bool" where
  "allDigits s = list_all is_digit s"

text \<open>The sign is split off before the digits are looked at.\<close>

definition cutSign :: "string \<Rightarrow> bool \<times> string" where
  "cutSign s =
     (case s of [] \<Rightarrow> (False, [])
      | c # cs \<Rightarrow> if c = CHR ''-'' then (True, cs)
                  else if c = CHR ''+'' then (False, cs) else (False, s))"

definition padRight :: "nat \<Rightarrow> string \<Rightarrow> string" where
  "padRight n s = s @ replicate (n - length s) CHR ''0''"

definition decimalToMinor :: "string \<Rightarrow> nat \<Rightarrow> amount_error + int" where
  "decimalToMinor amount exp =
     (let s = TrimSpace amount
      in if s = [] then Inl AmountEmpty
         else let (neg, s) = cutSign s;
                  (intPart, fracPart, hasFrac) = Cut s CHR ''.''
              in if intPart = [] \<and> \<not> hasFrac then Inl AmountNoDigits
                 else if \<not> allDigits intPart \<or> (hasFrac \<and> \<not> allDigits fracPart)
                 then Inl AmountNotPlainDecimal
                 else if length fracPart > exp \<and> length (TrimRight fracPart CHR ''0'') > exp
                 then Inl AmountTooPrecise
                 else let fracPart = (if length fracPart > exp then take exp fracPart else fracPart);
                          fracPart = padRight exp fracPart;
                          digits = TrimLeft (intPart @ fracPart) CHR ''0''
                      in if digits = [] then Inr 0
                         else case ParseInt digits of
                                None \<Rightarrow> Inl AmountOverflows
                              | Some v \<Rightarrow> Inr (if neg then wrap64 (- v) else v))"

definition MajorToMinor :: "string \<Rightarrow> string \<Rightarrow> amount_error + int" where
  "MajorToMinor amount currency = decimalToMinor amount (fst (MinorUnitExponent currency))"

text \<open>\<open>fmt.Sprintf("%0*d", w, n)\<close>: zero padding to width \<open>w\<close>, a sign counted in the width.\<close>

definition fmtPad :: "nat \<Rightarrow> int \<Rightarrow> string" where
  "fmtPad w n =
     (let ds = show_nat (nat \<bar>n\<bar>)
      in if n < 0 then CHR ''-'' # replicate (w - 1 - length ds) CHR ''0'' @ ds
         else replicate (w - length ds) CHR ''0'' @ ds)"

definition MinorToMajor :: "int \<Rightarrow> string \<Rightarrow> string" where
  "MinorToMajor minor currency =
     (let exp = fst (MinorUnitExponent currency)
      in if exp = 0 then FormatInt minor
         else let neg = minor < 0;
                  minor = (if neg then wrap64 (- minor) else minor);
                  scale = 10 ^ exp;
                  s = FormatInt (go_quot minor scale) @ ''.'' @ fmtPad exp (go_rem minor scale)
              in if neg then CHR ''-'' # s else s)"

definition ParseMinor :: "string \<Rightarrow> amount_error + int" where
  "ParseMinor amount =
     (let s = TrimSpace amount
      in if s = [] then Inl AmountEmpty
         else let (whole, frac, hasDot) = Cut s CHR ''.''
              in if hasDot \<and> TrimLeft (TrimRight frac CHR ''0'') CHR ''0'' \<noteq> []
                 then Inl AmountFractionalMinor
                 else case ParseInt (if hasDot then whole else s) of
                        None \<Rightarrow> Inl AmountNotInteger
                      | Some v \<Rightarrow> Inr v)"

section \<open>Reference semantics of a decimal text\<close>

text \<open>
  \<open>decimal s = Some (m, k)\<close>: the text denotes the number \<open>m / 10^k\<close>, read with no knowledge of any
  currency, rounding or machine width.
\<close>

definition decimal :: "string \<Rightarrow> (int \<times> nat) option" where
  "decimal s =
     (let (neg, s) = cutSign s; (ip, fp, dot) = Cut s CHR ''.''
      in if list_all is_digit (ip @ fp) \<and> (ip \<noteq> [] \<or> dot)
         then Some ((if neg then - 1 else 1) * int (nat_of_digits (ip @ fp)), length fp)
         else None)"

section \<open>Exactness\<close>

lemma padRight_value: "nat_of_digits (padRight n s) = nat_of_digits s * 10 ^ (n - length s)"
  by (simp add: padRight_def nat_of_digits_append)

lemma padRight_digits: "list_all is_digit (padRight n s) \<longleftrightarrow> list_all is_digit s"
  by (auto simp: padRight_def list_all_iff)

lemma nat_of_digits_split:
  "nat_of_digits (ip @ fp) = nat_of_digits (ip @ take e fp) * 10 ^ (length fp - e) + nat_of_digits (drop e fp)"
  using nat_of_digits_append [of "ip @ take e fp" "drop e fp"] by simp

text \<open>
  The fraction survives the fixed-width treatment exactly when nothing but zeros is cut off, which
  is the test on the trimmed length.
\<close>

lemma minor_digits_exact:
  assumes dig: "list_all is_digit (ip @ fp)" and ok: "length (TrimRight fp CHR ''0'') \<le> e"
  shows "nat_of_digits (ip @ padRight e (take e fp)) * 10 ^ length fp = nat_of_digits (ip @ fp) * 10 ^ e"
proof (cases "length fp \<le> e")
  case True
  then have "nat_of_digits (ip @ padRight e (take e fp)) = nat_of_digits (ip @ fp) * 10 ^ (e - length fp)"
    by (simp add: nat_of_digits_append padRight_def algebra_simps flip: power_add)
  with True show ?thesis by (simp add: algebra_simps flip: power_add)
next
  case False
  then have fp: "fp = take e fp @ drop e fp" and len: "length (drop e fp) = length fp - e" by simp_all
  from ok have "list_all (\<lambda>c. c = CHR ''0'') (drop e fp)" by (simp add: TrimRight_length_le)
  moreover have "list_all is_digit (drop e fp)" using dig by (auto simp: list_all_iff dest: in_set_dropD)
  ultimately have z: "nat_of_digits (drop e fp) = 0" by (simp add: nat_of_digits_eq_0)
  have "nat_of_digits (ip @ fp) = nat_of_digits (ip @ take e fp) * 10 ^ (length fp - e)"
    using nat_of_digits_split [of ip fp e] z by simp
  with False show ?thesis by (simp add: padRight_def mult.assoc flip: power_add)
qed

lemma minor_digits_inexact:
  assumes dig: "list_all is_digit (ip @ fp)" and bad: "e < length (TrimRight fp CHR ''0'')"
    and eq: "v * 10 ^ length fp = nat_of_digits (ip @ fp) * 10 ^ e"
  shows False
proof -
  have "\<not> list_all (\<lambda>c. c = CHR ''0'') (drop e fp)"
    using bad TrimRight_length_le [of fp "CHR ''0''" e] by simp
  then have ne: "drop e fp \<noteq> []" by auto
  then have lt: "e < length fp" by simp
  have d: "list_all is_digit (drop e fp)" using dig by (auto simp: list_all_iff dest: in_set_dropD)
  let ?r = "nat_of_digits (drop e fp)" and ?q = "nat_of_digits (ip @ take e fp)"
  have r: "0 < ?r" using \<open>\<not> list_all _ _\<close> nat_of_digits_eq_0 [OF d] by simp
  have rb: "?r < 10 ^ (length fp - e)" using nat_of_digits_bound [OF d] by simp
  have D: "nat_of_digits (ip @ fp) = ?q * 10 ^ (length fp - e) + ?r" by (rule nat_of_digits_split)
  have "(10::nat) ^ length fp = 10 ^ (length fp - e) * 10 ^ e"
    using lt by (simp flip: power_add)
  with eq have "v * 10 ^ (length fp - e) = nat_of_digits (ip @ fp)" by simp
  with D have "v * 10 ^ (length fp - e) = ?q * 10 ^ (length fp - e) + ?r" by simp
  then have "(10 ^ (length fp - e)) dvd ?r"
    by (metis dvd_add_right_iff dvd_triv_right)
  with r rb show False by (auto dest: dvd_imp_le)
qed

text \<open>What the last step makes of the digit string.\<close>

definition finishDigits :: "bool \<Rightarrow> string \<Rightarrow> amount_error + int" where
  "finishDigits neg ds =
     (if TrimLeft ds CHR ''0'' = [] then Inr 0
      else case ParseInt (TrimLeft ds CHR ''0'') of None \<Rightarrow> Inl AmountOverflows
           | Some v \<Rightarrow> Inr (if neg then wrap64 (- v) else v))"

lemma finishDigits_eq:
  assumes "list_all is_digit ds"
  shows "finishDigits neg ds =
     (if int (nat_of_digits ds) \<le> max_int64
      then Inr ((if neg then - 1 else 1) * int (nat_of_digits ds)) else Inl AmountOverflows)"
proof (cases "TrimLeft ds CHR ''0'' = []")
  case True
  then have "nat_of_digits ds = 0"
    using assms by (simp add: TrimLeft_def nat_of_digits_eq_0 list_all_iff)
  with True show ?thesis by (simp add: finishDigits_def max_int64_def)
next
  case False
  have val: "nat_of_digits (TrimLeft ds CHR ''0'') = nat_of_digits ds" by (simp add: TrimLeft_def)
  have dig: "list_all is_digit (TrimLeft ds CHR ''0'')"
    using assms by (auto simp: TrimLeft_def list_all_iff dest: set_dropWhileD)
  have "int (nat_of_digits ds) \<le> max_int64 \<Longrightarrow> int64_range (- int (nat_of_digits ds))"
    by (simp add: int64_range_def max_int64_def min_int64_def)
  with False ParseInt_digits [OF dig False] val show ?thesis
    by (auto simp: finishDigits_def wrap64_id)
qed

lemma decimalToMinor_unfold:
  assumes "TrimSpace amount = s" "s \<noteq> []" "cutSign s = (neg, t)" "Cut t CHR ''.'' = (ip, fp, dot)"
  shows "decimalToMinor amount e =
    (if ip = [] \<and> \<not> dot then Inl AmountNoDigits
     else if \<not> list_all is_digit (ip @ fp) then Inl AmountNotPlainDecimal
     else if e < length (TrimRight fp CHR ''0'') then Inl AmountTooPrecise
     else finishDigits neg (ip @ padRight e (take e fp)))"
proof -
  have "\<not> dot \<Longrightarrow> fp = []" using Cut_cases [OF assms(4)] by simp
  moreover have "length (TrimRight fp CHR ''0'') \<le> length fp"
    using TrimRight_length_le [of fp "CHR ''0''" "length fp"] by simp
  moreover have "(if length fp > e then take e fp else fp) = take e fp" by simp
  ultimately show ?thesis
    using assms by (auto simp: decimalToMinor_def Let_def allDigits_def finishDigits_def)
qed

lemma decimalToMinor_iff:
  "decimalToMinor amount e = Inr v \<longleftrightarrow>
     TrimSpace amount \<noteq> [] \<and>
     (\<exists>m k. decimal (TrimSpace amount) = Some (m, k) \<and> v * 10 ^ k = m * 10 ^ e \<and> \<bar>v\<bar> \<le> max_int64)"
proof (cases "TrimSpace amount = []")
  case True
  then show ?thesis by (simp add: decimalToMinor_def)
next
  case False
  obtain neg t where c: "cutSign (TrimSpace amount) = (neg, t)" by fastforce
  obtain ip fp dot where cut: "Cut t CHR ''.'' = (ip, fp, dot)" by (cases "Cut t CHR ''.''") auto
  note unf = decimalToMinor_unfold [OF refl False c cut]
  define sg :: int where "sg = (if neg then - 1 else 1)"
  have sg: "sg * sg = 1" "\<bar>sg\<bar> = 1" by (simp_all add: sg_def)
  have dec: "decimal (TrimSpace amount) =
      (if list_all is_digit (ip @ fp) \<and> (ip \<noteq> [] \<or> dot)
       then Some (sg * int (nat_of_digits (ip @ fp)), length fp) else None)"
    by (simp add: decimal_def c cut sg_def)
  show ?thesis
  proof (cases "list_all is_digit (ip @ fp) \<and> (ip \<noteq> [] \<or> dot)")
    case wf: True
    let ?D = "nat_of_digits (ip @ fp)" and ?N = "nat_of_digits (ip @ padRight e (take e fp))"
    have spec: "(v * 10 ^ length fp = sg * int ?D * 10 ^ e) \<longleftrightarrow> (sg * v) * 10 ^ length fp = int ?D * 10 ^ e"
      using sg(1) by (auto simp: algebra_simps sg_def)
    show ?thesis
    proof (cases "e < length (TrimRight fp CHR ''0'')")
      case True
      have "\<not> (sg * v) * 10 ^ length fp = int ?D * 10 ^ e"
      proof
        assume eq: "(sg * v) * 10 ^ length fp = int ?D * 10 ^ e"
        then have "0 * 10 ^ length fp \<le> (sg * v) * 10 ^ length fp" by simp
        then have "0 \<le> sg * v" by (rule mult_right_le_imp_le) simp
        then obtain w where w: "sg * v = int w" by (metis nonneg_int_cases)
        with eq have "int (w * 10 ^ length fp) = int (?D * 10 ^ e)" by simp
        then have "w * 10 ^ length fp = ?D * 10 ^ e" by (simp only: of_nat_eq_iff)
        with wf True show False using minor_digits_inexact by blast
      qed
      with False wf True show ?thesis by (simp add: unf dec spec)
    next
      case False': False
      then have ex: "?N * 10 ^ length fp = ?D * 10 ^ e"
        using wf by (intro minor_digits_exact) auto
      have dig: "list_all is_digit (ip @ padRight e (take e fp))"
        using wf by (auto simp: padRight_def list_all_iff dest: in_set_takeD)
      have "int ?N * 10 ^ length fp = int ?D * 10 ^ e" using ex by (metis of_nat_mult of_nat_numeral of_nat_power)
      then have "(sg * v) * 10 ^ length fp = int ?D * 10 ^ e \<longleftrightarrow> sg * v = int ?N"
        by (metis mult_cancel_right power_not_zero zero_neq_numeral)
      also have "\<dots> \<longleftrightarrow> v = sg * int ?N" by (auto simp: sg_def)
      finally have iff: "(v * 10 ^ length fp = sg * int ?D * 10 ^ e) \<longleftrightarrow> v = sg * int ?N"
        using spec by simp
      have "decimalToMinor amount e = (if int ?N \<le> max_int64 then Inr (sg * int ?N) else Inl AmountOverflows)"
        using wf False' finishDigits_eq [OF dig, of neg] by (auto simp: unf sg_def)
      with False wf iff show ?thesis by (auto simp: dec abs_mult sg(2))
    qed
  next
    case False': False
    with False show ?thesis by (auto simp: unf dec)
  qed
qed

section \<open>Round trips and agreement\<close>

lemma set_show_nat_digit: "c \<in> set (show_nat n) \<Longrightarrow> is_digit c"
  using show_nat_digits [of n] by (simp add: list_all_iff)

lemma fmtPad_nonneg:
  assumes "0 < w" and "n < 10 ^ w"
  shows "length (fmtPad w (int n)) = w" and "nat_of_digits (fmtPad w (int n)) = n"
    and "list_all is_digit (fmtPad w (int n))"
proof -
  have eq: "fmtPad w (int n) = replicate (w - length (show_nat n)) CHR ''0'' @ show_nat n"
    by (simp add: fmtPad_def Let_def)
  have "length (show_nat n) \<le> w" using assms by (rule length_show_nat_le [rotated 1])
  with eq show "length (fmtPad w (int n)) = w" by simp
  show "nat_of_digits (fmtPad w (int n)) = n" by (simp add: eq nat_of_digits_append)
  show "list_all is_digit (fmtPad w (int n))" by (auto simp: eq list_all_iff set_show_nat_digit)
qed

text \<open>A signed text of digits around at most one point is its own trimmed form, and its meaning is read off.\<close>

lemma decimal_of_parts:
  assumes dig: "list_all is_digit (ip @ fp)" and ip: "ip \<noteq> []"
  shows "decimal ((if neg then [CHR ''-''] else []) @ ip @ (if fp = [] then [] else CHR ''.'' # fp))
       = Some ((if neg then - 1 else 1) * int (nat_of_digits (ip @ fp)), length fp)"
    and "TrimSpace ((if neg then [CHR ''-''] else []) @ ip @ (if fp = [] then [] else CHR ''.'' # fp))
       = (if neg then [CHR ''-''] else []) @ ip @ (if fp = [] then [] else CHR ''.'' # fp)"
proof -
  let ?t = "ip @ (if fp = [] then [] else CHR ''.'' # fp)"
  let ?s = "(if neg then [CHR ''-''] else []) @ ?t"
  have nodot: "CHR ''.'' \<notin> set ip" using dig digits_notin [of ip "CHR ''.''"] by simp
  have hd: "is_digit (hd ip)" using dig ip by (simp add: list_all_iff)
  have "cutSign ?s = (neg, ?t)"
    using hd ip by (cases ip) (auto simp: cutSign_def)
  moreover have "Cut ?t CHR ''.'' = (ip, fp, fp \<noteq> [])"
    using nodot by (simp add: Cut_found Cut_absent)
  ultimately show "decimal ?s = Some ((if neg then - 1 else 1) * int (nat_of_digits (ip @ fp)), length fp)"
    using dig ip by (simp add: decimal_def)
  have "visible (hd ?s)" using hd ip by (auto simp: visible_def is_digit_def)
  moreover have "is_digit (last ?s)"
    using dig ip by (cases "fp = []") (auto simp: list_all_iff)
  ultimately show "TrimSpace ?s = ?s" by (intro TrimSpace_visible) (auto simp: visible_digit)
qed

lemma MinorToMajor_parts:
  assumes r: "int64_range v" and nm: "v \<noteq> min_int64"
  obtains ip fp where "MinorToMajor v c = (if v < 0 then [CHR ''-''] else []) @ ip @ (if fp = [] then [] else CHR ''.'' # fp)"
    and "list_all is_digit (ip @ fp)" and "ip \<noteq> []"
    and "length fp = fst (MinorUnitExponent c)" and "int (nat_of_digits (ip @ fp)) = \<bar>v\<bar>"
proof -
  define e where "e = fst (MinorUnitExponent c)"
  define a where "a = nat \<bar>v\<bar>"
  have a: "int a = \<bar>v\<bar>" by (simp add: a_def)
  have neg: "wrap64 (- v) = - v"
    using r nm by (intro wrap64_id) (auto simp: int64_range_def min_int64_def max_int64_def)
  show thesis
  proof (cases "e = 0")
    case True
    then have "MinorToMajor v c = (if v < 0 then [CHR ''-''] else []) @ show_nat a"
      by (auto simp: MinorToMajor_def Let_def FormatInt_def a_def simp flip: e_def)
    with True show thesis by (intro that [of "show_nat a" "[]"]) (simp_all add: a e_def)
  next
    case False
    let ?fp = "fmtPad e (int (a mod 10 ^ e))"
    have q: "go_quot (int a) (10 ^ e) = int (a div 10 ^ e)" "go_rem (int a) (10 ^ e) = int (a mod 10 ^ e)"
      by (simp_all add: go_quot_nonneg go_rem_nonneg zdiv_int zmod_int)
    have "MinorToMajor v c = (if v < 0 then [CHR ''-''] else []) @
        FormatInt (go_quot (int a) (10 ^ e)) @ ''.'' @ fmtPad e (go_rem (int a) (10 ^ e))"
      using False by (auto simp: MinorToMajor_def Let_def neg a simp flip: e_def)
    then have s: "MinorToMajor v c = (if v < 0 then [CHR ''-''] else []) @ show_nat (a div 10 ^ e) @ CHR ''.'' # ?fp"
      unfolding q by (simp add: FormatInt_def)
    have "a mod 10 ^ e < 10 ^ e" by simp
    with False have "0 < e" by simp
    note fp = fmtPad_nonneg [OF \<open>0 < e\<close> \<open>a mod 10 ^ e < 10 ^ e\<close>]
    then have "?fp \<noteq> []" using \<open>0 < e\<close> by auto
    have "int (a div 10 ^ e) * 10 ^ e + int (a mod 10 ^ e) = \<bar>v\<bar>"
      using arg_cong [OF div_mult_mod_eq [of a "10 ^ e"], of int] a by simp
    with fp have "int (nat_of_digits (show_nat (a div 10 ^ e) @ ?fp)) = \<bar>v\<bar>"
      by (simp add: nat_of_digits_append)
    with \<open>?fp \<noteq> []\<close> s fp show thesis
      by (intro that [of "show_nat (a div 10 ^ e)" ?fp]) (simp_all only: e_def [symmetric] if_False, simp_all)
  qed
qed

text \<open>
  C22: Reading back a printed amount gives the amount: for every currency and every 64-bit minor-unit
  value but the most negative one, \<open>MajorToMinor\<close> inverts \<open>MinorToMajor\<close>.
\<close>

theorem minor_major_roundtrip:
  assumes "int64_range v" and "v \<noteq> min_int64"
  shows "MajorToMinor (MinorToMajor v c) c = Inr v"
proof -
  obtain ip fp where s: "MinorToMajor v c = (if v < 0 then [CHR ''-''] else []) @ ip @ (if fp = [] then [] else CHR ''.'' # fp)"
    and dig: "list_all is_digit (ip @ fp)" and ip: "ip \<noteq> []"
    and len: "length fp = fst (MinorUnitExponent c)" and val: "int (nat_of_digits (ip @ fp)) = \<bar>v\<bar>"
    using MinorToMajor_parts [OF assms] by metis
  note parts = decimal_of_parts [OF dig ip, of "v < 0", folded s]
  have "MinorToMajor v c \<noteq> []" using s ip by auto
  moreover have "\<bar>v\<bar> \<le> max_int64"
    using assms by (auto simp: int64_range_def min_int64_def max_int64_def)
  ultimately show ?thesis
    unfolding MajorToMinor_def decimalToMinor_iff using parts val by (auto simp flip: len)
qed

theorem minor_major_roundtrip_witness:
  "MajorToMinor (MinorToMajor (- 813455) ''NGN'') ''NGN'' = Inr (- 813455)"
  by (rule minor_major_roundtrip) (simp_all add: int64_range_def min_int64_def max_int64_def)

text \<open>
  The conversion of a provider's major-unit text is exact and complete: it succeeds with \<open>v\<close>
  exactly when the trimmed text is a plain decimal \<open>m / 10^k\<close> whose value in the currency's minor
  unit is the integer \<open>v\<close> and \<open>v\<close> fits 64 bits. Nothing is ever rounded.
\<close>

theorem MajorToMinor_exact:
  "MajorToMinor amount currency = Inr v \<longleftrightarrow>
     TrimSpace amount \<noteq> [] \<and>
     (\<exists>m k. decimal (TrimSpace amount) = Some (m, k)
           \<and> v * 10 ^ k = m * 10 ^ fst (MinorUnitExponent currency) \<and> \<bar>v\<bar> \<le> max_int64)"
  unfolding MajorToMinor_def by (rule decimalToMinor_iff)

lemma ParseInt_SomeD:
  assumes "ParseInt s = Some v"
  obtains ds neg where "cutSign s = (neg, ds)" "ds \<noteq> []" "list_all is_digit ds"
    "v = (if neg then - 1 else 1) * int (nat_of_digits ds)"
  using assms by (auto simp: ParseInt_def cutSign_def Let_def split: if_splits prod.splits)

lemma cutSign_append: "cutSign s = (neg, ds) \<Longrightarrow> s \<noteq> [] \<Longrightarrow> cutSign (s @ t) = (neg, ds @ t)"
  by (cases s) (auto simp: cutSign_def split: if_splits)

lemma trim_both_empty: "TrimLeft (TrimRight s d) d = [] \<Longrightarrow> list_all (\<lambda>c. c = d) s"
  by (subst TrimRight_decomp [of s d]) (auto simp: TrimLeft_def list_all_iff)

text \<open>
  The two amount readers agree: whatever \<open>ParseMinor\<close> accepts, other than the most negative
  64-bit value, the decimal reader accepts with the same value at exponent zero, so a provider that
  sends \<^verbatim>\<open>5000\<close>, \<^verbatim>\<open>5000.00\<close> or a signed form is read as the same count of minor units.
\<close>

theorem ParseMinor_agrees:
  assumes p: "ParseMinor amount = Inr v" and nm: "v \<noteq> min_int64"
  shows "decimalToMinor amount 0 = Inr v"
proof -
  let ?s = "TrimSpace amount"
  obtain w fr dot where cut: "Cut ?s CHR ''.'' = (w, fr, dot)" by (cases "Cut ?s CHR ''.''") auto
  from p cut have ne: "?s \<noteq> []" and pi: "ParseInt w = Some v"
    and z: "dot \<Longrightarrow> TrimLeft (TrimRight fr CHR ''0'') CHR ''0'' = []"
    using Cut_cases [OF cut] by (auto simp: ParseMinor_def Let_def split: if_splits option.splits)
  from pi obtain ds neg where cs: "cutSign w = (neg, ds)" and ds: "ds \<noteq> []" "list_all is_digit ds"
    and v: "v = (if neg then - 1 else 1) * int (nat_of_digits ds)" by (rule ParseInt_SomeD)
  have frz: "list_all (\<lambda>c. c = CHR ''0'') fr"
    using z trim_both_empty [of fr "CHR ''0''"] Cut_cases [OF cut] by (cases dot) simp_all
  then have frd: "list_all is_digit fr" unfolding list_all_iff by (metis is_digit_zero)
  have fr0: "nat_of_digits fr = 0" using frz frd by (simp add: nat_of_digits_eq_0)
  have w: "w \<noteq> []" using pi by (auto simp: ParseInt_def)
  have "cutSign ?s = (neg, ds @ (if dot then CHR ''.'' # fr else []))"
    using Cut_cases [OF cut] cutSign_append [OF cs w] cs by (cases dot) auto
  moreover have "Cut (ds @ (if dot then CHR ''.'' # fr else [])) CHR ''.'' = (ds, fr, dot)"
    using ds(2) Cut_cases [OF cut] by (cases dot) (auto simp: Cut_found Cut_absent digits_notin)
  ultimately have dec: "decimal ?s = Some (v * 10 ^ length fr, length fr)"
    using ds frd fr0 by (simp add: decimal_def v nat_of_digits_append)
  have "\<bar>v\<bar> \<le> max_int64"
    using ParseInt_range [OF pi] nm by (auto simp: int64_range_def min_int64_def max_int64_def)
  with ne dec show ?thesis by (auto simp: decimalToMinor_iff)
qed

theorem ParseMinor_agrees_witness:
  "ParseMinor ''5000.00'' = Inr 5000 \<and> decimalToMinor ''5000.00'' 0 = Inr 5000"
proof -
  have "TrimSpace ''5000.00'' = ''5000.00''"
    by (rule TrimSpace_visible) (simp add: visible_def)
  then have "ParseMinor ''5000.00'' = Inr 5000"
    by (simp add: ParseMinor_def TrimRight_def TrimLeft_def ParseInt_def is_digit_def digit_val_def
        int64_range_def min_int64_def max_int64_def)
  then show ?thesis using ParseMinor_agrees [of "''5000.00''" 5000] by (simp add: min_int64_def)
qed

text \<open>
  At the most negative 64-bit value the printer is wrong: negating it wraps around, so the
  quotient and the remainder stay negative and the text carries three minus signs, which the reader
  refuses.
\<close>

theorem MinorToMajor_min_int64:
  "MinorToMajor min_int64 ''NGN'' = ''--92233720368547758.-8''
   \<and> MajorToMinor (MinorToMajor min_int64 ''NGN'') ''NGN'' = Inl AmountNotPlainDecimal"
proof -
  have "TrimSpace ''NGN'' = ''NGN''" by (rule TrimSpace_visible) (simp add: visible_def)
  then have e: "MinorUnitExponent ''NGN'' = (2, True)"
    by (simp add: MinorUnitExponent_def NormaliseCurrency_def ToUpper_def ToUpperByte_def minorUnitExponent_def)
  have w: "wrap64 (- min_int64) = min_int64" by (simp add: wrap64_def min_int64_def)
  have m: "MinorToMajor min_int64 ''NGN'' = ''--92233720368547758.-8''"
    by (simp add: MinorToMajor_def e w Let_def go_quot_def go_rem_def)
       (simp add: min_int64_def FormatInt_def fmtPad_def show_nat.simps digit_char_simps)
  have "TrimSpace ''--92233720368547758.-8'' = ''--92233720368547758.-8''"
    by (rule TrimSpace_visible) (simp add: visible_def)
  then have "decimalToMinor ''--92233720368547758.-8'' 2 = Inl AmountNotPlainDecimal"
    by (simp add: decimalToMinor_def cutSign_def allDigits_def is_digit_def)
  with m e show ?thesis by (simp add: MajorToMinor_def)
qed

end
