(* ===== verification/JsonPath.thy ===== *)
theory JsonPath
  imports Go_Prelude
begin

text \<open>
  Decoded JSON and the path language of declarative adapters: \<^verbatim>\<open>internal/jsonpath\<close>.
  \<open>json\<close> is what \<open>jsonpath.Decode\<close> returns: numbers keep their text (\<open>UseNumber\<close>), so the
  \<open>float64\<close> branches of the value helpers never apply and are left out. An object is an association
  list whose order stands for Go's iteration order.

  \<open>Compile\<close> is total (its loop consumes the text), accepts at most \<open>MaxDepth\<close> steps, and reads back
  every path printed by \<open>renderPath\<close>; \<open>Eval\<close> agrees with the step relation \<open>walks\<close>; \<open>Flatten\<close> is
  bounded.
\<close>

section \<open>Definitions\<close>

datatype json =
    JNull
  | JBool bool
  | JNumber string
  | JString string
  | JArray "json list"
  | JObject "(string \<times> json) list"

datatype path_error =
    ErrEmptyPath
  | ErrTooDeep
  | ErrTooLong
  | ErrMalformed
  | ErrUnbracket
  | ErrPathNotFound
  | ErrWrongShape

definition MaxDepth :: nat where "MaxDepth = 10"
definition MaxPathLength :: nat where "MaxPathLength = 256"

datatype step = Key string | Index int

record path =
  path_raw :: string
  path_steps :: "step list"

definition Depth :: "path \<Rightarrow> nat" where
  "Depth p = length (path_steps p)"

definition quoted :: "string \<Rightarrow> bool" where
  "quoted inner \<longleftrightarrow> 2 \<le> length inner \<and> (hd inner = CHR 0x27 \<or> hd inner = CHR 0x22) \<and> last inner = hd inner"

definition name_end :: "char \<Rightarrow> bool" where
  "name_end c \<longleftrightarrow> c = CHR ''.'' \<or> c = CHR ''[''"

text \<open>
  One pass of the loop of \<open>Compile\<close>: the step read from a non-empty text, and the text left over.
\<close>

definition readStep :: "string \<Rightarrow> path_error + step \<times> string" where
  "readStep s =
     (if hd s = CHR ''['' then
        (let (before, after, found) = Cut s CHR '']'' in
         if \<not> found then Inl ErrUnbracket
         else let inner = tl before; rest = TrimPrefix after ''.'' in
              if quoted inner then Inr (Key (butlast (tl inner)), rest)
              else case ParseInt inner of
                     None \<Rightarrow> Inl ErrMalformed
                   | Some n \<Rightarrow> Inr (Index n, rest))
      else
        (let name = takeWhile (\<lambda>c. \<not> name_end c) s; rest = dropWhile (\<lambda>c. \<not> name_end c) s in
         if name = [] then Inl ErrMalformed
         else if \<exists>c \<in> set name. c = CHR ''*'' \<or> c = CHR ''?'' then Inl ErrMalformed
         else Inr (Key name, TrimPrefix rest ''.'')))"

lemma length_TrimPrefix: "length (TrimPrefix s p) \<le> length s"
  by (simp add: TrimPrefix_def)

lemma readStep_shorter: "s \<noteq> [] \<Longrightarrow> readStep s = Inr (st, rest) \<Longrightarrow> length rest < length s"
proof (cases "hd s = CHR ''[''")
  case True
  assume s: "s \<noteq> []" and r: "readStep s = Inr (st, rest)"
  obtain a b f where c: "Cut s CHR '']'' = (a, b, f)" by (cases "Cut s CHR '']''") auto
  with r True have f and "rest = TrimPrefix b ''.''"
    by (auto simp: readStep_def Let_def split: if_splits option.splits)
  with Cut_cases [OF c] length_TrimPrefix [of b "''.''"] show ?thesis by auto
next
  case False
  assume s: "s \<noteq> []" and r: "readStep s = Inr (st, rest)"
  let ?P = "\<lambda>c. \<not> name_end c"
  from r False have "takeWhile ?P s \<noteq> []" and rest: "rest = TrimPrefix (dropWhile ?P s) ''.''"
    by (auto simp: readStep_def Let_def split: if_splits)
  moreover have "length s = length (takeWhile ?P s) + length (dropWhile ?P s)"
    by (metis length_append takeWhile_dropWhile_id)
  ultimately have "length (dropWhile ?P s) < length s" by simp
  with rest length_TrimPrefix [of "dropWhile ?P s" "''.''"] show ?thesis by simp
qed

function compileLoop :: "string \<Rightarrow> step list \<Rightarrow> path_error + step list" where
  "compileLoop s steps =
     (if s = [] then (if length steps > MaxDepth then Inl ErrTooDeep else Inr steps)
      else if length steps > MaxDepth then Inl ErrTooDeep
      else case readStep s of
             Inl e \<Rightarrow> Inl e
           | Inr (st, rest) \<Rightarrow> compileLoop rest (steps @ [st]))"
  by pat_completeness auto
termination
  by (relation "measure (\<lambda>(s, steps). length s)") (auto dest: readStep_shorter)

declare compileLoop.simps [simp del]

definition Compile :: "string \<Rightarrow> path_error + path" where
  "Compile expr =
     (let raw = TrimSpace expr in
      if raw = [] then Inl ErrEmptyPath
      else if length raw > MaxPathLength then Inl ErrTooLong
      else let s = TrimPrefix (TrimPrefix raw ''$'') ''.'' in
           if s = [] then Inr \<lparr>path_raw = raw, path_steps = []\<rparr>
           else case compileLoop s [] of
                  Inl e \<Rightarrow> Inl e
                | Inr steps \<Rightarrow> Inr \<lparr>path_raw = raw, path_steps = steps\<rparr>)"

fun evalStep :: "step \<Rightarrow> json \<Rightarrow> path_error + json" where
  "evalStep (Index n) (JArray arr) =
     (let idx = (if n < 0 then n + int (length arr) else n) in
      if idx < 0 \<or> idx \<ge> int (length arr) then Inl ErrPathNotFound else Inr (arr ! nat idx))"
| "evalStep (Index n) _ = Inl ErrWrongShape"
| "evalStep (Key k) (JObject obj) =
     (case map_of obj k of None \<Rightarrow> Inl ErrPathNotFound | Some v \<Rightarrow> Inr v)"
| "evalStep (Key k) _ = Inl ErrWrongShape"

fun evalSteps :: "step list \<Rightarrow> json \<Rightarrow> path_error + json" where
  "evalSteps [] cur = Inr cur"
| "evalSteps (st # sts) cur =
     (case evalStep st cur of Inl e \<Rightarrow> Inl e | Inr v \<Rightarrow> evalSteps sts v)"

definition Eval :: "path \<Rightarrow> json \<Rightarrow> path_error + json" where
  "Eval p doc = evalSteps (path_steps p) doc"

fun Keys_of_steps :: "step list \<Rightarrow> string list" where
  "Keys_of_steps [] = []"
| "Keys_of_steps (Key k # sts) = k # Keys_of_steps sts"
| "Keys_of_steps (Index _ # sts) = Keys_of_steps sts"

definition Keys :: "path \<Rightarrow> string list" where
  "Keys p = Keys_of_steps (path_steps p)"

definition Root :: "path \<Rightarrow> string" where
  "Root p = (case path_steps p of Key k # _ \<Rightarrow> k | _ \<Rightarrow> [])"

text \<open>The value helpers of \<^verbatim>\<open>value.go\<close>; \<^const>\<open>None\<close> is the \<open>false\<close> of Go's second result.\<close>

fun StringValue :: "json \<Rightarrow> string option" where
  "StringValue (JString s) = Some s"
| "StringValue (JNumber n) = Some n"
| "StringValue (JBool b) = Some (if b then ''true'' else ''false'')"
| "StringValue JNull = None"
| "StringValue _ = None"

definition StringAt :: "json \<Rightarrow> path \<Rightarrow> path_error + string" where
  "StringAt doc p =
     (case Eval p doc of
        Inl e \<Rightarrow> Inl e
      | Inr v \<Rightarrow> (case StringValue v of None \<Rightarrow> Inl ErrWrongShape | Some s \<Rightarrow> Inr s))"

fun IntValue :: "json \<Rightarrow> int option" where
  "IntValue (JNumber n) = ParseInt n"
| "IntValue (JString t) =
     (let s = TrimSpace t; (whole, frac, dot) = Cut s CHR ''.'' in
      if dot \<and> TrimLeft (TrimRight frac CHR ''0'') CHR ''0'' \<noteq> [] then None
      else ParseInt (if dot then whole else s))"
| "IntValue _ = None"

definition ParseBool :: "string \<Rightarrow> bool option" where
  "ParseBool s =
     (if s \<in> {''1'', ''t'', ''T'', ''TRUE'', ''true'', ''True''} then Some True
      else if s \<in> {''0'', ''f'', ''F'', ''FALSE'', ''false'', ''False''} then Some False
      else None)"

fun BoolValue :: "json \<Rightarrow> bool option" where
  "BoolValue (JBool b) = Some b"
| "BoolValue (JString s) = ParseBool (TrimSpace s)"
| "BoolValue _ = None"

definition maxFlattenDepth :: nat where "maxFlattenDepth = 12"
definition maxFlattenKeys :: nat where "maxFlattenKeys = 512"

type_synonym flat = "(string \<times> json) list"

function flatten :: "string \<Rightarrow> json \<Rightarrow> flat \<Rightarrow> nat \<Rightarrow> flat"
and flattenObject :: "string \<Rightarrow> (string \<times> json) list \<Rightarrow> flat \<Rightarrow> nat \<Rightarrow> flat"
and flattenArray :: "string \<Rightarrow> json list \<Rightarrow> nat \<Rightarrow> flat \<Rightarrow> nat \<Rightarrow> flat" where
  "flatten prefix v out depth =
     (if depth > maxFlattenDepth \<or> length out \<ge> maxFlattenKeys then out
      else case v of
             JObject t \<Rightarrow> flattenObject prefix t out (Suc depth)
           | JArray t \<Rightarrow> flattenArray prefix t 0 out (Suc depth)
           | _ \<Rightarrow> if prefix \<noteq> [] then AList.update prefix v out else out)"
| "flattenObject prefix [] out depth = out"
| "flattenObject prefix ((k, child) # t) out depth =
     (let key = (if prefix \<noteq> [] then prefix @ ''.'' @ k else k)
      in flattenObject prefix t (flatten key child out depth) depth)"
| "flattenArray prefix [] i out depth = out"
| "flattenArray prefix (child # t) i out depth =
     flattenArray prefix t (Suc i) (flatten (prefix @ ''['' @ show_nat i @ '']'') child out depth) depth"
  by pat_completeness auto
termination
  by (relation "measure (\<lambda>x. case x of
        Inl (prefix, v, out, depth) \<Rightarrow> size v
      | Inr (Inl (prefix, t, out, depth)) \<Rightarrow> size_list (size_prod (\<lambda>_. 0) size) t
      | Inr (Inr (prefix, ts, i, out, depth)) \<Rightarrow> size_list size ts)") simp_all

declare flatten.simps [simp del]

definition Flatten :: "json \<Rightarrow> flat" where
  "Flatten doc = flatten [] doc [] 0"

section \<open>Bounds and totality\<close>

lemma compileLoop_depth: "compileLoop s steps = Inr sts \<Longrightarrow> length sts \<le> MaxDepth"
proof (induction s steps rule: compileLoop.induct)
  case (1 s steps)
  show ?case
  proof (cases "s = [] \<or> length steps > MaxDepth")
    case True
    with "1.prems" show ?thesis by (auto simp: compileLoop.simps [of s steps] split: if_splits)
  next
    case False
    with "1" show ?thesis
      by (auto simp: compileLoop.simps [of s steps] split: sum.splits prod.splits)
  qed
qed

text \<open>
  A compiled path is bounded: whatever text a customer uploads, \<open>Compile\<close> returns, and an accepted
  path takes at most ten steps and comes from at most 256 trimmed bytes.
\<close>

theorem Compile_bounds:
  assumes "Compile expr = Inr p"
  shows "Depth p \<le> MaxDepth \<and> length (path_raw p) \<le> MaxPathLength \<and> path_raw p = TrimSpace expr"
  using assms
  by (auto simp: Compile_def Depth_def Let_def split: if_splits sum.splits dest: compileLoop_depth)

lemma TrimSpace_lead: "s \<noteq> [] \<Longrightarrow> visible (hd s) \<Longrightarrow> visible (last s) \<Longrightarrow> TrimSpace s = s"
  by (rule TrimSpace_visible) simp

theorem Compile_bounds_witness:
  "Compile ''$.a'' = Inr \<lparr>path_raw = ''$.a'', path_steps = [Key ''a'']\<rparr>
   \<and> Depth \<lparr>path_raw = ''$.a'', path_steps = [Key ''a'']\<rparr> \<le> MaxDepth"
proof -
  have "TrimSpace ''$.a'' = ''$.a''" by (rule TrimSpace_lead) (simp_all add: visible_def)
  then have c: "Compile ''$.a'' = Inr \<lparr>path_raw = ''$.a'', path_steps = [Key ''a'']\<rparr>"
    by (simp add: Compile_def MaxPathLength_def MaxDepth_def TrimPrefix_def compileLoop.simps readStep_def name_end_def Let_def)
  with Compile_bounds [OF c] show ?thesis by simp
qed

section \<open>Evaluation\<close>

text \<open>What one step reaches, as a relation on documents.\<close>

inductive step_to :: "step \<Rightarrow> json \<Rightarrow> json \<Rightarrow> bool" where
  member: "map_of obj k = Some v \<Longrightarrow> step_to (Key k) (JObject obj) v"
| from_front: "i < length arr \<Longrightarrow> step_to (Index (int i)) (JArray arr) (arr ! i)"
| from_back: "0 < i \<Longrightarrow> i \<le> length arr \<Longrightarrow> step_to (Index (- int i)) (JArray arr) (arr ! (length arr - i))"

inductive walks :: "step list \<Rightarrow> json \<Rightarrow> json \<Rightarrow> bool" where
  here: "walks [] v v"
| there: "step_to st u v \<Longrightarrow> walks sts v w \<Longrightarrow> walks (st # sts) u w"

inductive_cases walks_NilE: "walks [] u w"
inductive_cases walks_ConsE: "walks (st # sts) u w"

lemma evalStep_iff: "evalStep st u = Inr v \<longleftrightarrow> step_to st u v"
proof
  assume "step_to st u v"
  then show "evalStep st u = Inr v"
    by induction (auto simp: Let_def nat_diff_distrib' of_nat_diff)
next
  assume eq: "evalStep st u = Inr v"
  show "step_to st u v"
  proof (cases st)
    case (Key k)
    with eq show ?thesis by (cases u) (auto split: option.splits intro: member)
  next
    case (Index n)
    with eq obtain arr where u: "u = JArray arr" by (cases u) auto
    show ?thesis
    proof (cases "n < 0")
      case True
      with eq Index u have "n + int (length arr) \<ge> 0" and v: "v = arr ! nat (n + int (length arr))"
        by (auto simp: Let_def split: if_splits)
      moreover have "nat (n + int (length arr)) = length arr - nat (- n)" using True by arith
      ultimately show ?thesis
        using True Index u from_back [of "nat (- n)" arr] by simp
    next
      case False
      with eq Index u show ?thesis
        using from_front [of "nat n" arr] by (auto simp: Let_def nat_less_iff split: if_splits)
    qed
  qed
qed

text \<open>
  C24: Evaluation follows the path and nothing else: \<open>Eval\<close> returns a value exactly when the document
  can be walked along the compiled steps, an array index counting from the front or, when negative,
  from the back; every other case is an error and never a default value.
\<close>

theorem Eval_iff_walks: "Eval p doc = Inr v \<longleftrightarrow> walks (path_steps p) doc v"
proof -
  have "evalSteps sts u = Inr w \<longleftrightarrow> walks sts u w" for sts u w
  proof (induction sts arbitrary: u)
    case Nil
    show ?case by (auto intro: walks.here elim: walks_NilE)
  next
    case (Cons st sts)
    show ?case
      by (cases "evalStep st u")
         (auto simp: Cons.IH evalStep_iff [symmetric] intro: walks.there elim!: walks_ConsE)
  qed
  then show ?thesis by (simp add: Eval_def)
qed

section \<open>Printing and reading back\<close>

definition plainKey :: "string \<Rightarrow> bool" where
  "plainKey k \<longleftrightarrow> k \<noteq> [] \<and>
     list_all (\<lambda>c. visible c \<and> c \<noteq> CHR ''.'' \<and> c \<noteq> CHR ''['' \<and> c \<noteq> CHR ''*'' \<and> c \<noteq> CHR ''?'') k"

fun renderStep :: "step \<Rightarrow> string" where
  "renderStep (Index n) = ''['' @ FormatInt n @ '']''"
| "renderStep (Key k) =
     (if plainKey k then CHR ''.'' # k else ''['' @ [CHR 0x27] @ k @ [CHR 0x27] @ '']'')"

definition renderPath :: "step list \<Rightarrow> string" where
  "renderPath sts = CHR ''$'' # concat (map renderStep sts)"

fun renderable :: "step \<Rightarrow> bool" where
  "renderable (Index n) = int64_range n"
| "renderable (Key k) = (plainKey k \<or> CHR '']'' \<notin> set k)"

abbreviation strip :: "string \<Rightarrow> string" where
  "strip s \<equiv> TrimPrefix s ''.''"

lemma strip_bracket [simp]: "strip (CHR ''['' # s) = CHR ''['' # s"
  by (simp add: TrimPrefix_def)

lemma strip_dot [simp]: "strip (CHR ''.'' # s) = s"
  by (simp add: TrimPrefix_def)

lemma rendered_tail: "concat (map renderStep sts) = [] \<or> name_end (hd (concat (map renderStep sts)))"
proof (cases sts)
  case (Cons st sts')
  then show ?thesis by (cases st) (auto simp: name_end_def)
qed simp

lemma FormatInt_no_bracket: "CHR '']'' \<notin> set (FormatInt n)"
  using FormatInt_chars by (fastforce simp: is_digit_def)

lemma not_quoted_FormatInt: "\<not> quoted (FormatInt n)"
proof -
  have "hd (FormatInt n) \<in> set (FormatInt n)" by (rule hd_in_set) simp
  then have "is_digit (hd (FormatInt n)) \<or> hd (FormatInt n) = CHR ''-''" by (rule FormatInt_chars)
  then show ?thesis by (auto simp: quoted_def is_digit_def)
qed

lemma readStep_name:
  assumes k: "plainKey k" and t: "t = [] \<or> name_end (hd t)"
  shows "readStep (k @ t) = Inr (Key k, strip t)"
proof -
  obtain c cs where kc: "k = c # cs" using k by (cases k) (auto simp: plainKey_def)
  have ne: "\<forall>c \<in> set k. \<not> name_end c" using k by (auto simp: plainKey_def list_all_iff name_end_def)
  then have "takeWhile (\<lambda>c. \<not> name_end c) (k @ t) = k @ takeWhile (\<lambda>c. \<not> name_end c) t"
    and "dropWhile (\<lambda>c. \<not> name_end c) (k @ t) = dropWhile (\<lambda>c. \<not> name_end c) t"
    by (simp_all add: takeWhile_append2 dropWhile_append2)
  moreover have "takeWhile (\<lambda>c. \<not> name_end c) t = []" "dropWhile (\<lambda>c. \<not> name_end c) t = t"
    using t by (cases t; simp)+
  moreover have "c \<noteq> CHR ''[''" using k kc by (simp add: plainKey_def)
  moreover have "\<not> (\<exists>c \<in> set k. c = CHR ''*'' \<or> c = CHR ''?'')"
    using k by (auto simp: plainKey_def list_all_iff)
  ultimately show ?thesis using kc by (simp add: readStep_def Let_def)
qed

lemma readStep_bracket:
  assumes "CHR '']'' \<notin> set inner"
  shows "readStep (CHR ''['' # inner @ CHR '']'' # t) =
    (if quoted inner then Inr (Key (butlast (tl inner)), strip t)
     else case ParseInt inner of None \<Rightarrow> Inl ErrMalformed | Some n \<Rightarrow> Inr (Index n, strip t))"
  using Cut_found [of "CHR '']''" "CHR ''['' # inner" t] assms by (simp add: readStep_def Let_def)

lemma readStep_rendered:
  assumes st: "renderable st" and t: "t = [] \<or> name_end (hd t)"
  shows "readStep (strip (renderStep st @ t)) = Inr (st, strip t)"
proof (cases st)
  case (Index n)
  then show ?thesis
    using readStep_bracket [OF FormatInt_no_bracket, of n t] st by (simp add: not_quoted_FormatInt)
next
  case (Key k)
  show ?thesis
  proof (cases "plainKey k")
    case True
    then show ?thesis using readStep_name [OF True t] Key by simp
  next
    case False
    with st Key have "CHR '']'' \<notin> set ([CHR 0x27] @ k @ [CHR 0x27])" by simp
    from readStep_bracket [OF this, of t] False Key show ?thesis
      by (simp add: quoted_def butlast_append)
  qed
qed

lemma strip_render_nonempty: "renderable st \<Longrightarrow> strip (renderStep st @ t) \<noteq> []"
  by (cases st) (auto simp: plainKey_def)

lemma compileLoop_rendered:
  assumes "list_all renderable sts" and "length acc + length sts \<le> MaxDepth"
  shows "compileLoop (strip (concat (map renderStep sts))) acc = Inr (acc @ sts)"
  using assms
proof (induction sts arbitrary: acc)
  case Nil
  then show ?case by (simp add: compileLoop.simps TrimPrefix_def)
next
  case (Cons st sts)
  let ?t = "concat (map renderStep sts)"
  have "readStep (strip (renderStep st @ ?t)) = Inr (st, strip ?t)"
    using Cons.prems rendered_tail by (intro readStep_rendered) auto
  moreover have "strip (renderStep st @ ?t) \<noteq> []"
    using Cons.prems by (intro strip_render_nonempty) simp
  ultimately have "compileLoop (strip (renderStep st @ ?t)) acc = compileLoop (strip ?t) (acc @ [st])"
    using Cons.prems by (simp add: compileLoop.simps [of "strip (renderStep st @ ?t)"])
  with Cons show ?case by simp
qed

lemma renderPath_last_visible: "list_all renderable sts \<Longrightarrow> visible (last (renderPath sts))"
proof (cases sts rule: rev_cases)
  case Nil
  then show ?thesis by (simp add: renderPath_def visible_def)
next
  case (snoc sts' st)
  then show ?thesis
    by (cases st) (auto simp: renderPath_def visible_def plainKey_def list_all_iff)
qed

text \<open>
  Paths print and read back: any list of at most ten steps whose keys the language can spell is
  recovered by compiling its printed form, so no two different paths share a spelling.
\<close>

theorem Compile_renderPath:
  assumes "list_all renderable sts" and "length sts \<le> MaxDepth" and "length (renderPath sts) \<le> MaxPathLength"
  shows "Compile (renderPath sts) = Inr \<lparr>path_raw = renderPath sts, path_steps = sts\<rparr>"
proof -
  have "TrimSpace (renderPath sts) = renderPath sts"
    using renderPath_last_visible [OF assms(1)]
    by (intro TrimSpace_lead) (auto simp: renderPath_def visible_def)
  moreover have "TrimPrefix (renderPath sts) ''$'' = concat (map renderStep sts)"
    by (simp add: renderPath_def TrimPrefix_def)
  moreover have "compileLoop (strip (concat (map renderStep sts))) [] = Inr sts"
    using compileLoop_rendered [of sts "[]"] assms by simp
  moreover have "strip (concat (map renderStep sts)) = [] \<Longrightarrow> sts = []"
    using assms(1) strip_render_nonempty by (cases sts) auto
  ultimately show ?thesis
    using assms(3) by (auto simp: Compile_def Let_def renderPath_def)
qed

theorem Compile_renderPath_witness:
  "Compile (renderPath [Key ''data'', Index (- 1), Key ''odd.key''])
   = Inr \<lparr>path_raw = renderPath [Key ''data'', Index (- 1), Key ''odd.key''],
          path_steps = [Key ''data'', Index (- 1), Key ''odd.key'']\<rparr>"
  by (rule Compile_renderPath)
     (simp_all add: renderPath_def plainKey_def visible_def int64_range_def min_int64_def max_int64_def
        MaxDepth_def MaxPathLength_def FormatInt_def show_nat.simps)

section \<open>Flatten\<close>

lemma length_update_le: "length (AList.update k v al) \<le> Suc (length al)"
  by (induction al) auto

lemma flatten_bound:
  "length out \<le> maxFlattenKeys \<Longrightarrow> length (flatten prefix v out depth) \<le> maxFlattenKeys"
  "length out \<le> maxFlattenKeys \<Longrightarrow> length (flattenObject prefix t out depth) \<le> maxFlattenKeys"
  "length out \<le> maxFlattenKeys \<Longrightarrow> length (flattenArray prefix ts i out depth) \<le> maxFlattenKeys"
proof (induction prefix v out depth and prefix t out depth and prefix ts i out depth
    rule: flatten_flattenObject_flattenArray.induct)
  case (1 prefix v out depth)
  have "length (AList.update prefix v out) \<le> maxFlattenKeys" if "\<not> maxFlattenKeys \<le> length out"
    using length_update_le [of prefix v out] that by linarith
  with "1" show ?case
    by (subst flatten.simps) (auto split: json.splits)
qed (auto simp: Let_def)

text \<open>
  Flattening an adversarial document is bounded: the result never holds more than 512 entries.
\<close>

theorem Flatten_bound: "length (Flatten doc) \<le> maxFlattenKeys"
  unfolding Flatten_def by (rule flatten_bound(1)) simp

end
