(* ===== verification/Domain_Model.thy ===== *)
theory Domain_Model
  imports Complex_Main Amount JsonPath
begin

text \<open>
  The vocabulary of \<^verbatim>\<open>internal/domain\<close>: statuses and event types (\<^verbatim>\<open>status.go\<close>), raw and canonical
  events (\<^verbatim>\<open>event.go\<close>), tenants, endpoints, destinations, filters and retry policies
  (\<^verbatim>\<open>config.go\<close>), deliveries and sharding (\<^verbatim>\<open>delivery.go\<close>) and identifier prefixes (\<^verbatim>\<open>id.go\<close>).

  \<open>Status\<close> and \<open>EventType\<close> are Go strings with a closed set of valid values, so they stay strings:
  the validity checks are real. The jitter fraction, a \<open>float64\<close>, is a rational.
\<close>

section \<open>Statuses and event types\<close>

type_synonym Status = string
type_synonym EventType = string

definition StatusPending :: Status where "StatusPending = ''pending''"
definition StatusSuccess :: Status where "StatusSuccess = ''success''"
definition StatusFailed :: Status where "StatusFailed = ''failed''"
definition StatusReversed :: Status where "StatusReversed = ''reversed''"
definition StatusAbandoned :: Status where "StatusAbandoned = ''abandoned''"
definition StatusUnknown :: Status where "StatusUnknown = ''unknown''"

lemmas status_defs = StatusPending_def StatusSuccess_def StatusFailed_def StatusReversed_def
  StatusAbandoned_def StatusUnknown_def

definition allStatuses :: "Status list" where
  "allStatuses = [StatusPending, StatusSuccess, StatusFailed, StatusReversed, StatusAbandoned, StatusUnknown]"

definition Status_Valid :: "Status \<Rightarrow> bool" where
  "Status_Valid s \<longleftrightarrow> s \<in> set allStatuses"

definition Status_IsTerminal :: "Status \<Rightarrow> bool" where
  "Status_IsTerminal s \<longleftrightarrow> s \<noteq> StatusPending \<and> s \<noteq> StatusUnknown"

definition ParseStatus :: "string \<Rightarrow> Status option" where
  "ParseStatus v = (if Status_Valid v then Some v else None)"

definition EventPaymentPending :: EventType where "EventPaymentPending = ''payment.pending''"
definition EventPaymentCompleted :: EventType where "EventPaymentCompleted = ''payment.completed''"
definition EventPaymentFailed :: EventType where "EventPaymentFailed = ''payment.failed''"
definition EventPaymentReversed :: EventType where "EventPaymentReversed = ''payment.reversed''"
definition EventPaymentAbandoned :: EventType where "EventPaymentAbandoned = ''payment.abandoned''"
definition EventTransferPending :: EventType where "EventTransferPending = ''transfer.pending''"
definition EventTransferCompleted :: EventType where "EventTransferCompleted = ''transfer.completed''"
definition EventTransferFailed :: EventType where "EventTransferFailed = ''transfer.failed''"
definition EventTransferReversed :: EventType where "EventTransferReversed = ''transfer.reversed''"
definition EventRefundCompleted :: EventType where "EventRefundCompleted = ''refund.completed''"
definition EventRefundFailed :: EventType where "EventRefundFailed = ''refund.failed''"
definition EventChargebackOpened :: EventType where "EventChargebackOpened = ''chargeback.opened''"
definition EventChargebackResolved :: EventType where "EventChargebackResolved = ''chargeback.resolved''"
definition EventUnknown :: EventType where "EventUnknown = ''unknown''"

lemmas event_type_defs = EventPaymentPending_def EventPaymentCompleted_def EventPaymentFailed_def
  EventPaymentReversed_def EventPaymentAbandoned_def EventTransferPending_def
  EventTransferCompleted_def EventTransferFailed_def EventTransferReversed_def
  EventRefundCompleted_def EventRefundFailed_def EventChargebackOpened_def
  EventChargebackResolved_def EventUnknown_def

definition allEventTypes :: "EventType list" where
  "allEventTypes =
    [EventPaymentPending, EventPaymentCompleted, EventPaymentFailed, EventPaymentReversed,
     EventPaymentAbandoned, EventTransferPending, EventTransferCompleted, EventTransferFailed,
     EventTransferReversed, EventRefundCompleted, EventRefundFailed, EventChargebackOpened,
     EventChargebackResolved, EventUnknown]"

definition EventType_Valid :: "EventType \<Rightarrow> bool" where
  "EventType_Valid t \<longleftrightarrow> t \<in> set allEventTypes"

definition Family :: "EventType \<Rightarrow> string" where
  "Family t = takeWhile (\<lambda>c. c \<noteq> CHR ''.'') t"

definition statusSuffix :: "Status \<Rightarrow> string option" where
  "statusSuffix s =
     (if s = StatusPending then Some ''pending''
      else if s = StatusSuccess then Some ''completed''
      else if s = StatusFailed then Some ''failed''
      else if s = StatusReversed then Some ''reversed''
      else if s = StatusAbandoned then Some ''abandoned''
      else None)"

definition EventTypeFor :: "string \<Rightarrow> Status \<Rightarrow> EventType" where
  "EventTypeFor family s =
     (if family = ''chargeback'' then
        (if s = StatusPending then EventChargebackOpened
         else if s = StatusSuccess \<or> s = StatusFailed \<or> s = StatusReversed then EventChargebackResolved
         else EventUnknown)
      else case statusSuffix s of
             None \<Rightarrow> EventUnknown
           | Some suffix \<Rightarrow>
               (let t = family @ ''.'' @ suffix
                in if EventType_Valid t then t else EventUnknown))"

section \<open>Events\<close>

datatype zone = UTC | Zone string

record gotime =
  gt_instant :: instant
  gt_zone :: zone

definition to_UTC :: "gotime \<Rightarrow> gotime" where
  "to_UTC t = t\<lparr>gt_zone := UTC\<rparr>"

abbreviation IsZero :: "gotime \<Rightarrow> bool" where
  "IsZero t \<equiv> is_zero_time (gt_instant t)"

record RawEvent =
  raw_ID :: string
  raw_TenantID :: string
  raw_EndpointID :: string
  raw_Provider :: string
  raw_Headers :: "(string \<times> string) list"
  raw_Body :: string
  raw_BodySHA256 :: string
  raw_Redacted :: bool
  raw_RedactionNote :: string
  raw_SourceIP :: "string option"
  raw_SignatureValid :: bool
  raw_SignatureError :: string
  raw_ReceivedAt :: gotime

record CanonicalEvent =
  ev_ID :: string
  ev_TenantID :: string
  ev_RawEventID :: string
  ev_Provider :: string
  ev_ProviderEventID :: string
  ev_EventType :: EventType
  ev_TransactionRef :: string
  ev_Status :: Status
  ev_AmountMinor :: int
  ev_Currency :: string
  ev_CustomerRefHash :: string
  ev_ProviderExtra :: "(string \<times> json) list option"
  ev_OccurredAt :: gotime
  ev_ReceivedAt :: gotime
  ev_NormalisedAt :: gotime
  ev_MappingComplete :: bool
  ev_UnmappedStatus :: string
  ev_Redacted :: bool

text \<open>The zero values of \<open>time.Time\<close> and of the event struct.\<close>

definition zeroTime :: gotime where
  "zeroTime = \<lparr>gt_instant = zero_time, gt_zone = UTC\<rparr>"

definition zeroEvent :: CanonicalEvent where
  "zeroEvent = \<lparr>ev_ID = [], ev_TenantID = [], ev_RawEventID = [], ev_Provider = [], ev_ProviderEventID = [],
     ev_EventType = [], ev_TransactionRef = [], ev_Status = [], ev_AmountMinor = 0, ev_Currency = [],
     ev_CustomerRefHash = [], ev_ProviderExtra = None, ev_OccurredAt = zeroTime, ev_ReceivedAt = zeroTime,
     ev_NormalisedAt = zeroTime, ev_MappingComplete = False, ev_UnmappedStatus = [], ev_Redacted = False\<rparr>"

datatype validation_error =
    ErrNoTenant
  | ErrNoTransactionRef
  | ErrBadStatus
  | ErrBadEventType
  | ErrBadCurrency
  | ErrNotUTC

definition Validate :: "CanonicalEvent \<Rightarrow> validation_error option" where
  "Validate e =
     (if ev_TenantID e = [] then Some ErrNoTenant
      else if ev_TransactionRef e = [] then Some ErrNoTransactionRef
      else if \<not> Status_Valid (ev_Status e) then Some ErrBadStatus
      else if \<not> EventType_Valid (ev_EventType e) then Some ErrBadEventType
      else if (ev_AmountMinor e \<noteq> 0 \<or> ev_Currency e \<noteq> []) \<and> \<not> ValidCurrency (ev_Currency e)
      then Some ErrBadCurrency
      else if \<not> IsZero (ev_OccurredAt e) \<and> gt_zone (ev_OccurredAt e) \<noteq> UTC then Some ErrNotUTC
      else None)"

definition Normalise :: "CanonicalEvent \<Rightarrow> CanonicalEvent" where
  "Normalise e =
     e\<lparr>ev_Currency := NormaliseCurrency (ev_Currency e),
       ev_OccurredAt := to_UTC (ev_OccurredAt e),
       ev_ReceivedAt := to_UTC (ev_ReceivedAt e),
       ev_NormalisedAt := to_UTC (ev_NormalisedAt e),
       ev_ProviderExtra := Some (case ev_ProviderExtra e of None \<Rightarrow> [] | Some x \<Rightarrow> x)\<rparr>"

definition DedupeKey :: "CanonicalEvent \<Rightarrow> string \<Rightarrow> string" where
  "DedupeKey e bodySHA256 =
     (if ev_ProviderEventID e \<noteq> [] then ev_Provider e @ '':'' @ ev_ProviderEventID e
      else ev_Provider e @ '':body:'' @ bodySHA256)"

section \<open>Tenants, endpoints and destinations\<close>

type_synonym Environment = string

definition EnvTest :: Environment where "EnvTest = ''test''"
definition EnvLive :: Environment where "EnvLive = ''live''"

definition Environment_Valid :: "Environment \<Rightarrow> bool" where
  "Environment_Valid e \<longleftrightarrow> e = EnvTest \<or> e = EnvLive"

record Tenant =
  ten_ID :: string
  ten_Slug :: string
  ten_Name :: string
  ten_CreatedAt :: instant

record Endpoint =
  ep_ID :: string
  ep_TenantID :: string
  ep_Provider :: string
  ep_Environment :: Environment
  ep_ReceiverToken :: string
  ep_SecretRef :: string
  ep_AdapterName :: string
  ep_AdapterConfig :: "string option"
  ep_AllowedSourceCIDRs :: "string list"
  ep_Enabled :: bool
  ep_CreatedAt :: instant
  ep_RotatedAt :: instant

definition ReceiverPath :: "Endpoint \<Rightarrow> string \<Rightarrow> string" where
  "ReceiverPath e tenantSlug =
     ''/v1/hooks/'' @ tenantSlug @ ''/'' @ ep_Provider e @ ''/'' @ ep_Environment e @ ''/'' @ ep_ReceiverToken e"

record RetryPolicy =
  pol_Backoff :: "duration list"
  pol_JitterFraction :: rat
  pol_Timeout :: duration

definition DefaultRetryPolicy :: RetryPolicy where
  "DefaultRetryPolicy =
     \<lparr>pol_Backoff = [0, 10 * second, minute, 5 * minute, 30 * minute, 2 * hour, 6 * hour],
      pol_JitterFraction = 1 / 5,
      pol_Timeout = 10 * second\<rparr>"

definition Attempts :: "RetryPolicy \<Rightarrow> nat" where
  "Attempts p = length (pol_Backoff p)"

datatype policy_error =
    PolicyNoAttempts
  | PolicyTooManyAttempts
  | PolicyBadJitter
  | PolicyBadTimeout
  | PolicyNegativeStep nat

fun firstNegative :: "nat \<Rightarrow> duration list \<Rightarrow> nat option" where
  "firstNegative i [] = None"
| "firstNegative i (d # ds) = (if d < 0 then Some i else firstNegative (Suc i) ds)"

definition RetryPolicy_Validate :: "RetryPolicy \<Rightarrow> policy_error option" where
  "RetryPolicy_Validate p =
     (if length (pol_Backoff p) = 0 then Some PolicyNoAttempts
      else if length (pol_Backoff p) > 20 then Some PolicyTooManyAttempts
      else if pol_JitterFraction p < 0 \<or> pol_JitterFraction p > 1 then Some PolicyBadJitter
      else if pol_Timeout p \<le> 0 \<or> pol_Timeout p > minute then Some PolicyBadTimeout
      else map_option PolicyNegativeStep (firstNegative 0 (pol_Backoff p)))"

record Filter =
  fil_Providers :: "string list"
  fil_EventTypes :: "EventType list"
  fil_Statuses :: "Status list"
  fil_MinAmountMinor :: int

fun containsFold :: "string list \<Rightarrow> string \<Rightarrow> bool" where
  "containsFold [] v = False"
| "containsFold (x # xs) v = (EqualFold x v \<or> containsFold xs v)"

fun contains :: "'a list \<Rightarrow> 'a \<Rightarrow> bool" where
  "contains [] v = False"
| "contains (x # xs) v = (x = v \<or> contains xs v)"

definition Matches :: "Filter \<Rightarrow> CanonicalEvent \<Rightarrow> bool" where
  "Matches f e =
     (if length (fil_Providers f) > 0 \<and> \<not> containsFold (fil_Providers f) (ev_Provider e) then False
      else if length (fil_EventTypes f) > 0 \<and> \<not> contains (fil_EventTypes f) (ev_EventType e) then False
      else if length (fil_Statuses f) > 0 \<and> \<not> contains (fil_Statuses f) (ev_Status e) then False
      else if fil_MinAmountMinor f > 0 \<and> ev_AmountMinor e < fil_MinAmountMinor f then False
      else True)"

datatype filter_error = FilterBadEventType EventType | FilterBadStatus Status | FilterNegativeMinimum

definition Filter_Validate :: "Filter \<Rightarrow> filter_error option" where
  "Filter_Validate f =
     (case find (\<lambda>t. \<not> EventType_Valid t) (fil_EventTypes f) of
        Some t \<Rightarrow> Some (FilterBadEventType t)
      | None \<Rightarrow>
          (case find (\<lambda>s. \<not> Status_Valid s) (fil_Statuses f) of
             Some s \<Rightarrow> Some (FilterBadStatus s)
           | None \<Rightarrow> if fil_MinAmountMinor f < 0 then Some FilterNegativeMinimum else None))"

record Destination =
  dst_ID :: string
  dst_TenantID :: string
  dst_Name :: string
  dst_URL :: string
  dst_SigningSecretRef :: string
  dst_Filter :: Filter
  dst_RetryPolicy :: RetryPolicy
  dst_IncludeRaw :: bool
  dst_SchemaVersion :: string
  dst_Enabled :: bool
  dst_CreatedAt :: instant

text \<open>
  What \<open>ValidateDestinationURL\<close> reads of a parsed URL. The parser of \<open>net/url\<close> is the parameter
  \<open>parse\<close>; \<^const>\<open>None\<close> is its error.
\<close>

record url =
  url_Scheme :: string
  url_Host :: string
  url_HasUser :: bool

datatype url_error = UrlNotAUrl | UrlNotHttps | UrlNoHost | UrlCredentials | UrlLineBreak

definition ValidateDestinationURL :: "(string \<Rightarrow> url option) \<Rightarrow> string \<Rightarrow> url_error option" where
  "ValidateDestinationURL parse raw =
     (case parse raw of
        None \<Rightarrow> Some UrlNotAUrl
      | Some u \<Rightarrow>
          if url_Scheme u \<noteq> ''https'' then Some UrlNotHttps
          else if url_Host u = [] then Some UrlNoHost
          else if url_HasUser u then Some UrlCredentials
          else if (\<exists>c \<in> set raw. c = CHR 0x0D \<or> c = CHR 0x0A) then Some UrlLineBreak
          else None)"

section \<open>Deliveries\<close>

datatype DeliveryStatus =
    DeliveryPending
  | DeliveryInFlight
  | DeliverySucceeded
  | DeliveryFailed
  | DeliveryDeadLetter

definition DeliveryStatus_IsTerminal :: "DeliveryStatus \<Rightarrow> bool" where
  "DeliveryStatus_IsTerminal s \<longleftrightarrow> s = DeliverySucceeded \<or> s = DeliveryDeadLetter"

record Delivery =
  del_ID :: int
  del_TenantID :: string
  del_EventID :: string
  del_DestinationID :: string
  del_TransactionRef :: string
  del_Shard :: int
  del_Sequence :: int
  del_Attempt :: int
  del_Status :: DeliveryStatus
  del_ResponseCode :: int
  del_ResponseBody :: string
  del_Error :: string
  del_DurationMS :: int
  del_IsReplay :: bool
  del_NextRetryAt :: instant
  del_CreatedAt :: instant
  del_UpdatedAt :: instant

definition DefaultShards :: int where "DefaultShards = 64"

text \<open>\<open>hash/fnv\<close>'s \<open>New32a\<close>.\<close>

unbundle bit_operations_syntax

definition fnv32a :: "string \<Rightarrow> 32 word" where
  "fnv32a s = fold (\<lambda>c h. (h XOR of_nat (ord c)) * 16777619) s 2166136261"

text \<open>
  \<open>shards\<close> is converted to \<open>uint32\<close> before the remainder is taken. A shard count that is a positive
  multiple of \<open>2\<^sup>32\<close> would divide by zero and is outside the model.
\<close>

definition ShardFor :: "string \<Rightarrow> int \<Rightarrow> int" where
  "ShardFor transactionRef shards =
     (let shards = (if shards \<le> 0 then DefaultShards else shards)
      in uint (fnv32a transactionRef) mod (shards mod 4294967296))"

definition ShouldRetry :: "int \<Rightarrow> bool" where
  "ShouldRetry code =
     (if code = 0 then True
      else if code = 408 \<or> code = 429 then True
      else if code \<ge> 500 then True
      else False)"

definition IsSuccess :: "int \<Rightarrow> bool" where
  "IsSuccess code \<longleftrightarrow> code \<ge> 200 \<and> code < 300"

definition HasPrefix :: "string \<Rightarrow> string \<Rightarrow> bool" where
  "HasPrefix i prefix \<longleftrightarrow> starts_with (prefix @ ''_'') i \<and> length i > length prefix + 1"

section \<open>Correctness\<close>

lemma statusSuffix_valid: "statusSuffix s = Some x \<Longrightarrow> Status_Valid s \<and> s \<noteq> StatusUnknown"
  by (auto simp: statusSuffix_def Status_Valid_def allStatuses_def status_defs split: if_splits)

lemma statusSuffix_no_dot: "statusSuffix s = Some x \<Longrightarrow> CHR ''.'' \<notin> set x"
  by (auto simp: statusSuffix_def split: if_splits)

lemma statusSuffix_inj: "statusSuffix s = Some x \<Longrightarrow> statusSuffix t = Some x \<Longrightarrow> s = t"
  by (auto simp: statusSuffix_def split: if_splits)

text \<open>Every canonical type but \<open>unknown\<close> is a family, one point and a suffix.\<close>

lemma valid_type_shape:
  "EventType_Valid t \<Longrightarrow> t = EventUnknown \<or> length (filter (\<lambda>c. c = CHR ''.'') t) = 1"
  by (auto simp: EventType_Valid_def allEventTypes_def event_type_defs)

lemma family_suffix_valid:
  assumes "EventType_Valid (family @ ''.'' @ suffix)" and "CHR ''.'' \<notin> set suffix"
  shows "CHR ''.'' \<notin> set family"
proof -
  have "family @ ''.'' @ suffix \<noteq> EventUnknown"
  proof
    assume "family @ ''.'' @ suffix = EventUnknown"
    then have "CHR ''.'' \<in> set EventUnknown" by (metis append_Cons in_set_conv_decomp)
    then show False by (simp add: EventUnknown_def)
  qed
  with valid_type_shape [OF assms(1)] have "filter (\<lambda>c. c = CHR ''.'') family = []"
    by (simp add: length_0_conv)
  then show ?thesis by (auto simp: filter_empty_conv)
qed

text \<open>
  The pairing rule never guesses: for every family and every status, even one outside the
  canonical set, the composed type is valid; it is \<open>unknown\<close> whenever the status is unknown or
  invalid; otherwise it stays in the family, and outside chargebacks it determines the status, so a
  success and a failure never share a type.
\<close>

theorem EventTypeFor_sound:
  "EventType_Valid (EventTypeFor family s)
   \<and> (s = StatusUnknown \<or> \<not> Status_Valid s \<longrightarrow> EventTypeFor family s = EventUnknown)
   \<and> (EventTypeFor family s \<noteq> EventUnknown \<longrightarrow> Family (EventTypeFor family s) = family)
   \<and> (EventTypeFor family s \<noteq> EventUnknown \<and> family \<noteq> ''chargeback''
        \<and> EventTypeFor family s = EventTypeFor family s' \<longrightarrow> s = s')"
proof (cases "family = ''chargeback''")
  case True
  then show ?thesis
    by (auto simp: EventTypeFor_def EventType_Valid_def allEventTypes_def event_type_defs Family_def
        Status_Valid_def allStatuses_def status_defs)
next
  case False
  have valid: "EventType_Valid (EventTypeFor family s)"
    using False by (auto simp: EventTypeFor_def EventType_Valid_def allEventTypes_def Let_def
        split: option.splits)
  have unk: "EventTypeFor family s = EventUnknown" if "s = StatusUnknown \<or> \<not> Status_Valid s"
    using False that statusSuffix_valid [of s] by (auto simp: EventTypeFor_def split: option.splits)
  have form: "\<exists>x. statusSuffix s = Some x \<and> EventTypeFor family s = family @ ''.'' @ x \<and> CHR ''.'' \<notin> set family"
    if "EventTypeFor family s \<noteq> EventUnknown" for s
  proof -
    from False that obtain x where x: "statusSuffix s = Some x"
      by (cases "statusSuffix s") (simp_all add: EventTypeFor_def)
    with False that have v: "EventType_Valid (family @ ''.'' @ x)"
      and eq: "EventTypeFor family s = family @ ''.'' @ x"
      by (simp_all add: EventTypeFor_def Let_def split: if_splits)
    from x v eq family_suffix_valid [OF v statusSuffix_no_dot [OF x]] show ?thesis by blast
  qed
  have fam: "Family (EventTypeFor family s) = family" if "EventTypeFor family s \<noteq> EventUnknown"
    using form [OF that] by (auto simp: Family_def takeWhile_tail takeWhile_append)
  have inj: "s = s'" if "EventTypeFor family s \<noteq> EventUnknown" "EventTypeFor family s = EventTypeFor family s'"
    using form [of s] form [of s'] that statusSuffix_inj by auto
  from valid unk fam inj show ?thesis by blast
qed

theorem EventTypeFor_sound_witness:
  "EventTypeFor ''payment'' StatusSuccess = EventPaymentCompleted
   \<and> Family (EventTypeFor ''payment'' StatusSuccess) = ''payment''"
proof -
  have "EventTypeFor ''payment'' StatusSuccess = EventPaymentCompleted"
    by (simp add: EventTypeFor_def statusSuffix_def status_defs event_type_defs EventType_Valid_def
        allEventTypes_def)
  moreover have "EventPaymentCompleted \<noteq> EventUnknown" by (simp add: event_type_defs)
  ultimately show ?thesis
    using EventTypeFor_sound [of "''payment''" StatusSuccess StatusSuccess] by metis
qed

lemma NormaliseCurrency_idem [simp]: "NormaliseCurrency (NormaliseCurrency c) = NormaliseCurrency c"
  by (simp add: NormaliseCurrency_def TrimSpace_ToUpper)

lemma ValidCurrency_normalised [simp]: "ValidCurrency (NormaliseCurrency c) = ValidCurrency c"
  by (simp add: ValidCurrency_def)

lemma ValidCurrency_nonempty: "ValidCurrency c \<Longrightarrow> NormaliseCurrency c \<noteq> []"
  by (auto simp: ValidCurrency_def Let_def)

text \<open>
  Normalising an event before it is validated is safe: it is idempotent, it removes the
  non-UTC error for good, it never turns a valid event into an invalid one, and it changes neither
  the reference, the status, the type nor the amount.
\<close>

theorem Normalise_safe:
  "Normalise (Normalise e) = Normalise e
   \<and> Validate (Normalise e) \<noteq> Some ErrNotUTC
   \<and> (Validate e = None \<longrightarrow> Validate (Normalise e) = None)
   \<and> ev_TransactionRef (Normalise e) = ev_TransactionRef e
   \<and> ev_Status (Normalise e) = ev_Status e
   \<and> ev_EventType (Normalise e) = ev_EventType e
   \<and> ev_AmountMinor (Normalise e) = ev_AmountMinor e"
proof -
  have blank: "NormaliseCurrency [] = []"
    by (simp add: NormaliseCurrency_def ToUpper_def TrimSpace_visible)
  have "Validate e = None \<Longrightarrow> Validate (Normalise e) = None"
    using blank by (auto simp: Validate_def Normalise_def to_UTC_def split: if_splits)
  moreover have "Validate (Normalise e) \<noteq> Some ErrNotUTC"
    by (simp add: Validate_def Normalise_def to_UTC_def)
  moreover have "Normalise (Normalise e) = Normalise e"
    by (simp add: Normalise_def to_UTC_def)
  ultimately show ?thesis by (simp add: Normalise_def)
qed

definition sampleEvent :: CanonicalEvent where
  "sampleEvent =
     \<lparr>ev_ID = ''sh_evt_1'', ev_TenantID = ''tnt_1'', ev_RawEventID = ''sh_raw_1'',
      ev_Provider = ''paystack'', ev_ProviderEventID = ''42'', ev_EventType = ''payment.completed'',
      ev_TransactionRef = ''ref-1'', ev_Status = ''success'', ev_AmountMinor = 813455,
      ev_Currency = ''ngn'', ev_CustomerRefHash = [], ev_ProviderExtra = None,
      ev_OccurredAt = \<lparr>gt_instant = 5, gt_zone = UTC\<rparr>,
      ev_ReceivedAt = \<lparr>gt_instant = 6, gt_zone = UTC\<rparr>,
      ev_NormalisedAt = \<lparr>gt_instant = 7, gt_zone = UTC\<rparr>,
      ev_MappingComplete = True, ev_UnmappedStatus = [], ev_Redacted = False\<rparr>"

lemma NormaliseCurrency_ngn: "NormaliseCurrency ''ngn'' = ''NGN''"
proof -
  have "TrimSpace ''ngn'' = ''ngn''" by (rule TrimSpace_visible) (simp add: visible_def)
  then show ?thesis by (simp add: NormaliseCurrency_def, code_simp)
qed

lemma sampleEvent_valid: "Validate sampleEvent = None"
proof -
  have "ValidCurrency ''ngn''"
    by (simp add: ValidCurrency_def NormaliseCurrency_ngn)
  then show ?thesis
    by (simp add: sampleEvent_def Validate_def Status_Valid_def allStatuses_def status_defs
        EventType_Valid_def allEventTypes_def event_type_defs)
qed

theorem Normalise_safe_witness:
  "Validate sampleEvent = None \<and> Validate (Normalise sampleEvent) = None"
  using Normalise_safe [of sampleEvent] sampleEvent_valid by simp

text \<open>
  Sharding is total and stays in range: for every reference and every shard count below \<open>2\<^sup>32\<close>
  (a non-positive one means the default of 64), the shard is one of the queues the worker visits.
\<close>

theorem ShardFor_range:
  assumes "shards < 4294967296"
  shows "0 \<le> ShardFor ref shards
       \<and> ShardFor ref shards < (if shards \<le> 0 then DefaultShards else shards)"
  using assms by (simp add: ShardFor_def DefaultShards_def Let_def)

theorem ShardFor_range_witness: "0 \<le> ShardFor ''ref-1'' 64 \<and> ShardFor ''ref-1'' 64 < 64"
  using ShardFor_range [of 64 "''ref-1''"] by simp

lemma firstNegative_None: "firstNegative i ds = None \<longleftrightarrow> list_all (\<lambda>d. 0 \<le> d) ds"
  by (induction ds arbitrary: i) auto

lemma RetryPolicy_Validate_None:
  "RetryPolicy_Validate p = None \<longleftrightarrow>
     0 < Attempts p \<and> Attempts p \<le> 20 \<and> 0 \<le> pol_JitterFraction p \<and> pol_JitterFraction p \<le> 1
     \<and> 0 < pol_Timeout p \<and> pol_Timeout p \<le> minute \<and> list_all (\<lambda>d. 0 \<le> d) (pol_Backoff p)"
  by (auto simp: RetryPolicy_Validate_def Attempts_def firstNegative_None)

lemma DefaultRetryPolicy_valid: "RetryPolicy_Validate DefaultRetryPolicy = None"
  by (simp add: RetryPolicy_Validate_None DefaultRetryPolicy_def Attempts_def second_def minute_def hour_def)

lemma contains_iff: "contains xs v \<longleftrightarrow> v \<in> set xs"
  by (induction xs) auto

lemma containsFold_iff: "containsFold xs v \<longleftrightarrow> (\<exists>x \<in> set xs. EqualFold x v)"
  by (induction xs) auto

lemma Matches_iff:
  "Matches f e \<longleftrightarrow>
     (fil_Providers f = [] \<or> (\<exists>x \<in> set (fil_Providers f). EqualFold x (ev_Provider e)))
   \<and> (fil_EventTypes f = [] \<or> ev_EventType e \<in> set (fil_EventTypes f))
   \<and> (fil_Statuses f = [] \<or> ev_Status e \<in> set (fil_Statuses f))
   \<and> (fil_MinAmountMinor f \<le> 0 \<or> fil_MinAmountMinor f \<le> ev_AmountMinor e)"
  by (auto simp: Matches_def contains_iff containsFold_iff)

end
