(* ===== verification/Redact.thy ===== *)
theory Redact
  imports Go_Prelude
begin

text \<open>
  Card-data redaction: \<^verbatim>\<open>internal/redact/redact.go\<close>. \<open>Scan\<close> walks the body from left to right. The
  loop index of the source is the split of the body into the bytes already passed (\<open>before\<close>, kept
  reversed so that \<open>body[i-1]\<close> and \<open>body[i-2]\<close> are its first two elements) and the bytes from the
  index on; the output buffer with its \<open>last\<close> mark is the text returned.

  The theorems: only card-number-shaped segments are replaced (\<open>redacts\<close>), and an isolated card
  number is replaced wherever it stands.
\<close>

section \<open>Definitions\<close>

record Result =
  res_Body :: string
  res_PANsFound :: nat
  res_Redacted :: bool

definition Placeholder :: string where
  "Placeholder = ''[redacted:pan]''"

definition isSeparator :: "char \<Rightarrow> bool" where
  "isSeparator b \<longleftrightarrow> b = CHR '' '' \<or> b = CHR ''-''"

text \<open>The pair is the number of bytes consumed and the digits among them; an over-long run is \<open>(0, [])\<close>.\<close>

fun scanCandidate :: "string \<Rightarrow> string \<Rightarrow> nat \<Rightarrow> nat \<times> string" where
  "scanCandidate [] digits n = (n, digits)"
| "scanCandidate (b # bs) digits n =
     (if is_digit b then
        (if length (digits @ [b]) > 19 then (0, []) else scanCandidate bs (digits @ [b]) (Suc n))
      else if isSeparator b \<and> bs \<noteq> [] \<and> is_digit (hd bs) \<and> digits \<noteq> [] then scanCandidate bs digits (Suc n)
      else (n, digits))"

fun luhnSum :: "bool \<Rightarrow> string \<Rightarrow> nat" where
  "luhnSum alt [] = 0"
| "luhnSum alt (c # cs) =
     (let d = digit_val c; d = (if alt then (if d * 2 > 9 then d * 2 - 9 else d * 2) else d)
      in d + luhnSum (\<not> alt) cs)"

definition luhn :: "string \<Rightarrow> bool" where
  "luhn digits \<longleftrightarrow> luhnSum False (rev digits) mod 10 = 0"

definition cardDigits :: "string \<Rightarrow> bool" where
  "cardDigits ds \<longleftrightarrow> \<not> (length ds < 13 \<or> length ds > 19 \<or> \<not> luhn ds)"

definition midNumber :: "string \<Rightarrow> bool" where
  "midNumber before \<longleftrightarrow>
     (before \<noteq> [] \<and> is_digit (hd before))
   \<or> (1 < length before \<and> isSeparator (hd before) \<and> is_digit (hd (tl before)))"

function scanLoop :: "string \<Rightarrow> string \<Rightarrow> string \<times> nat" where
  "scanLoop before [] = ([], 0)"
| "scanLoop before (b # bs) =
     (let (n, digits) = scanCandidate (b # bs) [] 0 in
      if \<not> is_digit b \<or> midNumber before \<or> \<not> cardDigits digits
      then (let (out, found) = scanLoop (b # before) bs in (b # out, found))
      else (let (out, found) = scanLoop (rev (take n (b # bs)) @ before) (drop n (b # bs))
            in (Placeholder @ out, Suc found)))"
  by pat_completeness auto

lemma scanCandidate_count: "scanCandidate bs ds n = (k, ds') \<Longrightarrow> cardDigits ds' \<Longrightarrow> n \<le> k"
proof (induction bs ds n rule: scanCandidate.induct)
  case (2 b bs digits n)
  then show ?case by (force simp: cardDigits_def split: if_splits)
qed simp

lemma scanCandidate_progress:
  "is_digit b \<Longrightarrow> scanCandidate (b # bs) [] 0 = (k, ds) \<Longrightarrow> cardDigits ds \<Longrightarrow> 0 < k"
  using scanCandidate_count [of bs "[b]" "Suc 0" k ds] by simp

termination scanLoop
proof (relation "measure (\<lambda>(before, bs). length bs)", goal_cases)
  case (3 before b bs x n digits)
  then have "0 < n" using scanCandidate_progress [of b bs n digits] by auto
  then show ?case by simp
qed auto

declare scanLoop.simps [simp del]

definition Scan :: "string \<Rightarrow> Result" where
  "Scan body =
     (if length body < 13 then \<lparr>res_Body = body, res_PANsFound = 0, res_Redacted = False\<rparr>
      else let (out, found) = scanLoop [] body in
           if found = 0 then \<lparr>res_Body = body, res_PANsFound = 0, res_Redacted = False\<rparr>
           else \<lparr>res_Body = out, res_PANsFound = found, res_Redacted = True\<rparr>)"

definition Describe :: "Result \<Rightarrow> string" where
  "Describe r =
     (if \<not> res_Redacted r then ''no card data found''
      else show_nat (res_PANsFound r) @ '' card-number-shaped value(s) replaced before storage'')"

section \<open>What a candidate is\<close>

text \<open>A separator inside a candidate follows a digit; \<open>prev\<close> says whether the byte before was one.\<close>

fun sepOK :: "bool \<Rightarrow> string \<Rightarrow> bool" where
  "sepOK prev [] = True"
| "sepOK prev (c # cs) = ((is_digit c \<and> sepOK True cs) \<or> (isSeparator c \<and> prev \<and> sepOK False cs))"

lemma isSeparator_not_digit: "isSeparator c \<Longrightarrow> \<not> is_digit c"
  by (auto simp: isSeparator_def is_digit_def)

lemma scanCandidate_segment:
  assumes "scanCandidate bs ds n = (k, ds')" and "cardDigits ds'" and "prev \<or> (bs \<noteq> [] \<and> is_digit (hd bs))"
  shows "\<exists>seg rest. bs = seg @ rest \<and> k = n + length seg \<and> ds' = ds @ filter is_digit seg \<and> sepOK prev seg"
  using assms
proof (induction bs ds n arbitrary: prev rule: scanCandidate.induct)
  case (1 digits n)
  then show ?case by auto
next
  case (2 b bs digits n)
  consider (digit) "is_digit b"
    | (sep) "\<not> is_digit b" "isSeparator b" "bs \<noteq> []" "is_digit (hd bs)" "digits \<noteq> []" "prev"
    | (stop) "\<not> is_digit b" "k = n" "ds' = digits"
    using "2.prems" by (auto split: if_splits)
  then show ?case
  proof cases
    case digit
    then have "\<not> 19 < length (digits @ [b])" using "2.prems" by (auto simp: cardDigits_def)
    with digit "2.prems" "2.IH"(1) [of True] obtain seg rest where
      "bs = seg @ rest" "k = Suc n + length seg" "ds' = (digits @ [b]) @ filter is_digit seg" "sepOK True seg"
      by auto
    with digit show ?thesis by (intro exI [of _ "b # seg"] exI [of _ rest]) auto
  next
    case sep
    with "2.prems" "2.IH"(2) [of False] obtain seg rest where
      "bs = seg @ rest" "k = Suc n + length seg" "ds' = digits @ filter is_digit seg" "sepOK False seg"
      by auto
    with sep show ?thesis by (intro exI [of _ "b # seg"] exI [of _ rest]) auto
  next
    case stop
    then show ?thesis by (intro exI [of _ "[]"] exI [of _ "b # bs"]) auto
  qed
qed

lemma sepOK_last:
  "sepOK prev (a @ b) \<Longrightarrow> a \<noteq> [] \<Longrightarrow>
     is_digit (last a) \<or> (isSeparator (last a) \<and>
       (if length a = 1 then prev else is_digit (last (butlast a))))"
proof (induction a arbitrary: prev)
  case (Cons c cs)
  show ?case
  proof (cases "cs = []")
    case True
    with Cons.prems show ?thesis by auto
  next
    case False
    have "sepOK (is_digit c) (cs @ b)" using Cons.prems isSeparator_not_digit by auto
    from Cons.IH [OF this False] have
      "is_digit (last cs) \<or> (isSeparator (last cs) \<and> (if length cs = 1 then is_digit c else is_digit (last (butlast cs))))" .
    with False show ?thesis by (cases cs) auto
  qed
qed simp

text \<open>A run of digits that the scanner reads to its end.\<close>

definition stopsAt :: "string \<Rightarrow> bool" where
  "stopsAt post \<longleftrightarrow> post = [] \<or> (\<not> is_digit (hd post)
     \<and> \<not> (isSeparator (hd post) \<and> tl post \<noteq> [] \<and> is_digit (hd (tl post))))"

lemma scanCandidate_run:
  "list_all is_digit pan \<Longrightarrow> length ds + length pan \<le> 19 \<Longrightarrow> stopsAt post \<Longrightarrow>
     scanCandidate (pan @ post) ds n = (n + length pan, ds @ pan)"
proof (induction pan arbitrary: ds n)
  case Nil
  then show ?case by (cases post) (auto simp: stopsAt_def)
qed simp

section \<open>Only card-shaped segments are replaced\<close>

definition cardSegment :: "string \<Rightarrow> bool" where
  "cardSegment seg \<longleftrightarrow> cardDigits (filter is_digit seg) \<and> sepOK False seg"

inductive redacts :: "string \<Rightarrow> string \<Rightarrow> nat \<Rightarrow> bool" where
  nothing: "redacts [] [] 0"
| keep: "redacts s t n \<Longrightarrow> redacts (c # s) (c # t) n"
| pan: "cardSegment seg \<Longrightarrow> redacts s t n \<Longrightarrow> redacts (seg @ s) (Placeholder @ t) (Suc n)"

lemma redacts_none: "redacts s t n \<Longrightarrow> n = 0 \<Longrightarrow> t = s"
  by (induction rule: redacts.induct) auto

text \<open>One turn of the loop: either the byte is copied, or a card-shaped segment is replaced.\<close>

lemma scanLoop_cases:
  obtains (copy) "scanLoop before (b # bs) = (b # fst (scanLoop (b # before) bs), snd (scanLoop (b # before) bs))"
  | (replace) seg rest where "b # bs = seg @ rest" "seg \<noteq> []" "cardSegment seg" "is_digit b" "\<not> midNumber before"
      "scanLoop before (b # bs) = (Placeholder @ fst (scanLoop (rev seg @ before) rest),
          Suc (snd (scanLoop (rev seg @ before) rest)))"
proof -
  obtain n ds where c: "scanCandidate (b # bs) [] 0 = (n, ds)" by fastforce
  show thesis
  proof (cases "\<not> is_digit b \<or> midNumber before \<or> \<not> cardDigits ds")
    case True
    with c show thesis
      by (intro copy) (simp add: scanLoop.simps Let_def case_prod_beta)
  next
    case False
    then have d: "is_digit b" and ok: "cardDigits ds" by auto
    from scanCandidate_segment [OF c ok, of False] d obtain seg rest where
      s: "b # bs = seg @ rest" "n = length seg" "ds = filter is_digit seg" "sepOK False seg" by auto
    have "take n (b # bs) = seg" "drop n (b # bs) = rest" unfolding s(1) s(2) by simp_all
    with False c have "scanLoop before (b # bs) = (Placeholder @ fst (scanLoop (rev seg @ before) rest),
          Suc (snd (scanLoop (rev seg @ before) rest)))"
      by (simp add: scanLoop.simps Let_def case_prod_beta)
    moreover have "seg \<noteq> []" using ok s(3) by (auto simp: cardDigits_def)
    ultimately show thesis using s ok False d by (intro replace) (auto simp: cardSegment_def)
  qed
qed

lemma scanLoop_redacts: "redacts bs (fst (scanLoop before bs)) (snd (scanLoop before bs))"
proof (induction "length bs" arbitrary: bs before rule: less_induct)
  case less
  show ?case
  proof (cases bs)
    case Nil
    then show ?thesis by (simp add: scanLoop.simps redacts.nothing)
  next
    case (Cons b bs')
    show ?thesis
    proof (cases rule: scanLoop_cases [of before b bs'])
      case copy
      with less [of bs' "b # before"] Cons show ?thesis by (auto intro: redacts.keep)
    next
      case (replace seg rest)
      then have "length rest < length bs" using Cons by (cases seg) auto
      with less [of rest "rev seg @ before"] replace Cons show ?thesis by (auto intro: redacts.pan)
    qed
  qed
qed

text \<open>
  Redaction changes nothing but card numbers: the stored body is the received one with exactly
  \<open>PANsFound\<close> disjoint segments replaced by the placeholder, each of them 13 to 19 Luhn-valid digits
  with single separators inside; and when none is found the body is stored unchanged.
\<close>

theorem Scan_redacts:
  "redacts body (res_Body (Scan body)) (res_PANsFound (Scan body))
   \<and> (res_Redacted (Scan body) \<longleftrightarrow> 0 < res_PANsFound (Scan body))
   \<and> (\<not> res_Redacted (Scan body) \<longrightarrow> res_Body (Scan body) = body)"
proof -
  have refl: "redacts s s 0" for s by (induction s) (auto intro: redacts.intros)
  show ?thesis
    using scanLoop_redacts [of body "[]"] refl by (auto simp: Scan_def case_prod_beta Let_def)
qed

theorem Scan_redacts_witness:
  "\<not> res_Redacted (Scan ''{}'') \<and> res_Body (Scan ''{}'') = ''{}''"
  using Scan_redacts [of "''{}''"] by (simp add: Scan_def)

section \<open>An isolated card number is always replaced\<close>

lemma midNumber_append: "midNumber (rev a @ before) \<longleftrightarrow>
   (case rev a of [] \<Rightarrow> midNumber before
    | [c] \<Rightarrow> is_digit c \<or> (isSeparator c \<and> before \<noteq> [] \<and> is_digit (hd before))
    | c # d # _ \<Rightarrow> is_digit c \<or> (isSeparator c \<and> is_digit d))"
  by (auto simp: midNumber_def split: list.splits)

lemma segment_stays_before:
  assumes "pre @ x # post = seg @ rest" and "sepOK False seg" and "\<not> midNumber (rev pre @ before)"
    and "pre \<noteq> []"
  shows "length seg \<le> length pre"
proof (rule ccontr)
  assume "\<not> length seg \<le> length pre"
  with assms(1) obtain t where "seg = pre @ t"
    using append_eq_append_conv2 [of seg rest pre "x # post"] by auto
  with assms(2,4) have "is_digit (last pre) \<or> (isSeparator (last pre) \<and>
       (if length pre = 1 then False else is_digit (last (butlast pre))))"
    using sepOK_last by blast
  with assms(3,4) show False
    by (cases pre rule: rev_cases; cases "butlast pre" rule: rev_cases)
       (auto simp: midNumber_def butlast_append split: if_splits)
qed

lemma scanLoop_isolated:
  assumes "list_all is_digit pan" "cardDigits pan" "\<not> midNumber (rev pre @ before)" "stopsAt post"
  shows "\<exists>a m. scanLoop before (pre @ pan @ post) =
      (a @ Placeholder @ fst (scanLoop (rev pan @ rev pre @ before) post),
       m + Suc (snd (scanLoop (rev pan @ rev pre @ before) post))) \<and> redacts pre a m"
  using assms(3)
proof (induction "length pre" arbitrary: pre before rule: less_induct)
  case less
  have pan: "pan \<noteq> []" "length pan \<le> 19" using assms(2) by (auto simp: cardDigits_def)
  then obtain p ps where pp: "pan = p # ps" by (cases pan) auto
  show ?case
  proof (cases pre)
    case Nil
    have "scanCandidate (pan @ post) [] 0 = (length pan, pan)"
      using scanCandidate_run [OF assms(1), of "[]" post 0] pan assms(4) by simp
    moreover have "is_digit p" using assms(1) pp by simp
    ultimately have "scanLoop before (pan @ post) =
        (Placeholder @ fst (scanLoop (rev pan @ before) post), Suc (snd (scanLoop (rev pan @ before) post)))"
      using less.prems Nil assms(2) pp
      by (simp add: scanLoop.simps(2) [of before p "ps @ post"] case_prod_beta Let_def)
    with Nil show ?thesis by (intro exI [of _ "[]"] exI [of _ 0]) (auto intro: redacts.nothing)
  next
    case (Cons b pre')
    show ?thesis
    proof (cases rule: scanLoop_cases [of before b "pre' @ pan @ post"])
      case copy
      from Cons less.prems less.hyps [of pre' "b # before"] obtain a m where
        "scanLoop (b # before) (pre' @ pan @ post) =
          (a @ Placeholder @ fst (scanLoop (rev pan @ rev pre' @ b # before) post),
           m + Suc (snd (scanLoop (rev pan @ rev pre' @ b # before) post)))" "redacts pre' a m"
        by auto
      with copy Cons show ?thesis
        by (intro exI [of _ "b # a"] exI [of _ m]) (auto intro: redacts.keep)
    next
      case (replace seg rest)
      have "length seg \<le> length pre"
        using replace less.prems Cons pp
        by (intro segment_stays_before [of pre p "ps @ post" seg rest before]) (auto simp: cardSegment_def)
      then obtain pre'' where pre: "pre = seg @ pre''" and rest: "rest = pre'' @ pan @ post"
        using replace(1) Cons append_eq_append_conv2 [of seg rest pre "pan @ post"] by (auto dest: sym)
      have "length pre'' < length pre" using pre replace(2) by simp
      with less.hyps [of pre'' "rev seg @ before"] less.prems pre obtain a m where
        rec: "scanLoop (rev seg @ before) rest =
          (a @ Placeholder @ fst (scanLoop (rev pan @ rev pre'' @ rev seg @ before) post),
           m + Suc (snd (scanLoop (rev pan @ rev pre'' @ rev seg @ before) post)))" "redacts pre'' a m"
        unfolding rest by auto
      have "scanLoop before (pre @ pan @ post) =
          (Placeholder @ fst (scanLoop (rev seg @ before) rest), Suc (snd (scanLoop (rev seg @ before) rest)))"
        using replace(6) Cons by simp
      moreover have "redacts pre (Placeholder @ a) (Suc m)"
        unfolding pre using replace(3) rec(2) by (rule redacts.pan)
      moreover have "rev pre = rev pre'' @ rev seg" by (simp add: pre)
      ultimately show ?thesis
        by (intro exI [of _ "Placeholder @ a"] exI [of _ "Suc m"]) (simp add: rec(1))
    qed
  qed
qed

text \<open>
  A card number does not reach storage: wherever a run of 13 to 19 Luhn-valid digits stands in a
  body, not preceded by another digit (or by a digit and a separator) and not followed by one, the
  stored body has the placeholder in its place.
\<close>

theorem Scan_removes_card:
  assumes "list_all is_digit pan" and "cardDigits pan" and "\<not> midNumber (rev pre)" and "stopsAt post"
  shows "res_Redacted (Scan (pre @ pan @ post))
       \<and> (\<exists>a b m n. res_Body (Scan (pre @ pan @ post)) = a @ Placeholder @ b \<and> redacts pre a m \<and> redacts post b n)"
proof -
  have "13 \<le> length (pre @ pan @ post)" using assms(2) by (simp add: cardDigits_def)
  moreover obtain a m where "scanLoop [] (pre @ pan @ post) =
      (a @ Placeholder @ fst (scanLoop (rev pan @ rev pre @ []) post),
       m + Suc (snd (scanLoop (rev pan @ rev pre @ []) post)))" "redacts pre a m"
    using scanLoop_isolated [OF assms(1,2) _ assms(4), of pre "[]"] assms(3) by auto
  ultimately show ?thesis
    using scanLoop_redacts [of post "rev pan @ rev pre @ []"] by (auto simp: Scan_def)
qed

lemma test_card: "cardDigits ''4111111111111111''"
  by (simp add: cardDigits_def luhn_def digit_val_def)

theorem Scan_removes_card_witness:
  "res_Redacted (Scan (''card '' @ ''4111111111111111'' @ '' paid''))"
  using Scan_removes_card [of "''4111111111111111''" "''card ''" "'' paid''"] test_card
  by (simp add: is_digit_def midNumber_def isSeparator_def stopsAt_def)

text \<open>
  The guarantee stops there. A Luhn-valid 16-digit run that follows a digit and one separator is
  stored as received: the two leading digits are read as part of the number, and the scanner never
  starts in the middle of one.
\<close>

theorem Scan_misses_grouped_card:
  "cardDigits ''4111111111111111''
   \<and> res_Body (Scan (''12 '' @ ''4111111111111111'')) = ''12 '' @ ''4111111111111111''
   \<and> \<not> res_Redacted (Scan (''12 '' @ ''4111111111111111''))"
  using test_card
  by (simp add: Scan_def scanLoop.simps is_digit_def midNumber_def isSeparator_def cardDigits_def luhn_def
      digit_val_def)

end
