(* ===== verification/RateLimit.thy ===== *)
theory RateLimit
  imports Complex_Main Go_Prelude
begin

text \<open>
  Backpressure: \<^verbatim>\<open>internal/ratelimit/ratelimit.go\<close>. The per-key token bucket \<open>Limiter\<close> and the
  counting semaphore \<open>Bounded\<close>. The clock is an argument of each operation. Token counts and rates,
  \<open>float64\<close> in the source, are rationals: rounding of the last bit is not modelled, so in the program the bounds
  hold up to that rounding.

  The theorems: token counts stay between zero and the capacity, the number of admitted requests in
  any window is at most the capacity plus the sustained rate times the window (with idle buckets swept at any
  moment), and a caller that waits as told is admitted.
\<close>

section \<open>The limiter\<close>

record bucket =
  bk_tokens :: rat
  bk_lastFill :: instant
  bk_lastSeen :: instant
  bk_refused :: int

record Limiter =
  lim_buckets :: "(string \<times> bucket) list"
  lim_rate :: rat
  lim_capacity :: rat
  lim_idleAfter :: duration

definition NewLimiter :: "rat \<Rightarrow> rat \<Rightarrow> duration \<Rightarrow> Limiter" where
  "NewLimiter perSecond burst idleAfter =
     (let rate = (if perSecond \<le> 0 then 1000 else perSecond)
      in \<lparr>lim_buckets = [], lim_rate = rate,
          lim_capacity = (if burst \<le> 0 then rate * 2 else burst),
          lim_idleAfter = (if idleAfter \<le> 0 then 10 * minute else idleAfter)\<rparr>)"

record Decision =
  dec_Allowed :: bool
  dec_RetryAfter :: duration
  dec_Remaining :: rat
  dec_Limit :: rat

definition Seconds :: "duration \<Rightarrow> rat" where
  "Seconds d = of_int d / 1000000000"

definition HeaderSeconds :: "Decision \<Rightarrow> int" where
  "HeaderSeconds d = (let s = \<lceil>Seconds (dec_RetryAfter d)\<rceil> in if s < 1 then 1 else s)"

definition Header :: "Decision \<Rightarrow> string" where
  "Header d = FormatInt (HeaderSeconds d)"

definition bucketFor :: "Limiter \<Rightarrow> instant \<Rightarrow> string \<Rightarrow> bucket" where
  "bucketFor l now key =
     (case map_of (lim_buckets l) key of
        Some b \<Rightarrow> b
      | None \<Rightarrow> \<lparr>bk_tokens = lim_capacity l, bk_lastFill = now, bk_lastSeen = zero_time, bk_refused = 0\<rparr>)"

definition refill :: "Limiter \<Rightarrow> instant \<Rightarrow> bucket \<Rightarrow> bucket" where
  "refill l now b =
     (let elapsed = Seconds (time_sub now (bk_lastFill b));
          b = (if elapsed > 0
               then b\<lparr>bk_tokens := min (lim_capacity l) (bk_tokens b + elapsed * lim_rate l),
                      bk_lastFill := now\<rparr>
               else b)
      in b\<lparr>bk_lastSeen := now\<rparr>)"

definition AllowN :: "Limiter \<Rightarrow> instant \<Rightarrow> string \<Rightarrow> rat \<Rightarrow> Limiter \<times> Decision" where
  "AllowN l now key n =
     (let b = refill l now (bucketFor l now key)
      in if bk_tokens b \<ge> n then
           (let b = b\<lparr>bk_tokens := bk_tokens b - n\<rparr>
            in (l\<lparr>lim_buckets := AList.update key b (lim_buckets l)\<rparr>,
                \<lparr>dec_Allowed = True, dec_RetryAfter = 0, dec_Remaining = bk_tokens b,
                 dec_Limit = lim_capacity l\<rparr>))
         else
           (let deficit = n - bk_tokens b; b = b\<lparr>bk_refused := wrap64 (bk_refused b + 1)\<rparr>
            in (l\<lparr>lim_buckets := AList.update key b (lim_buckets l)\<rparr>,
                \<lparr>dec_Allowed = False, dec_RetryAfter = \<lfloor>deficit / lim_rate l * 1000000000\<rfloor>,
                 dec_Remaining = 0, dec_Limit = lim_capacity l\<rparr>)))"

definition LimiterAllow :: "Limiter \<Rightarrow> instant \<Rightarrow> string \<Rightarrow> Limiter \<times> Decision" where
  "LimiterAllow l now key = AllowN l now key 1"

definition Refused :: "Limiter \<Rightarrow> string \<Rightarrow> int" where
  "Refused l key = (case map_of (lim_buckets l) key of Some b \<Rightarrow> bk_refused b | None \<Rightarrow> 0)"

definition idle :: "Limiter \<Rightarrow> instant \<Rightarrow> bucket \<Rightarrow> bool" where
  "idle l now b \<longleftrightarrow> bk_lastSeen b < now - lim_idleAfter l"

definition Sweep :: "Limiter \<Rightarrow> instant \<Rightarrow> Limiter \<times> nat" where
  "Sweep l now =
     (let kept = filter (\<lambda>(k, b). \<not> idle l now b) (lim_buckets l)
      in (l\<lparr>lim_buckets := kept\<rparr>, length (lim_buckets l) - length kept))"

definition Tracked :: "Limiter \<Rightarrow> nat" where
  "Tracked l = length (lim_buckets l)"

section \<open>The semaphore\<close>

record Bounded =
  bnd_inUse :: nat
  bnd_capacity :: nat
  bnd_name :: string

definition NewBounded :: "string \<Rightarrow> int \<Rightarrow> Bounded" where
  "NewBounded name sz = \<lparr>bnd_inUse = 0, bnd_capacity = (if sz \<le> 0 then 1 else nat sz), bnd_name = name\<rparr>"

definition TryAcquire :: "Bounded \<Rightarrow> Bounded \<times> bool" where
  "TryAcquire b =
     (if bnd_inUse b < bnd_capacity b then (b\<lparr>bnd_inUse := Suc (bnd_inUse b)\<rparr>, True) else (b, False))"

definition Release :: "Bounded \<Rightarrow> Bounded" where
  "Release b = (if 0 < bnd_inUse b then b\<lparr>bnd_inUse := bnd_inUse b - 1\<rparr> else b)"

datatype bounded_op = Acquire | Give

fun bounded_step :: "Bounded \<Rightarrow> bounded_op \<Rightarrow> Bounded" where
  "bounded_step b Acquire = fst (TryAcquire b)"
| "bounded_step b Give = Release b"

definition bounded_inv :: "nat \<Rightarrow> Bounded \<Rightarrow> bool" where
  "bounded_inv c b \<longleftrightarrow> bnd_capacity b = c \<and> bnd_inUse b \<le> c"

interpretation sem: machine bounded_step "\<lambda>_ _. True" "bounded_inv c" for c
proof
  fix b x
  assume "bounded_inv c b"
  then show "bounded_inv c (bounded_step b x)"
    by (cases x) (auto simp: bounded_inv_def TryAcquire_def Release_def)
qed

text \<open>
  The in-flight ceiling holds: whatever acquires and releases happen, in whatever order and
  however unbalanced, no more slots are held than the configured size (at least one), and a slot is
  refused only when all are held.
\<close>

theorem Bounded_ceiling:
  "let b = foldl bounded_step (NewBounded name sz) ops
   in bnd_inUse b \<le> max 1 (nat sz) \<and> bnd_capacity b = max 1 (nat sz)
      \<and> (snd (TryAcquire b) \<longleftrightarrow> bnd_inUse b < bnd_capacity b)"
proof -
  have "bounded_inv (max 1 (nat sz)) (NewBounded name sz)"
    by (auto simp: bounded_inv_def NewBounded_def)
  then have "bounded_inv (max 1 (nat sz)) (foldl bounded_step (NewBounded name sz) ops)"
    by (rule sem.run_inv) (simp add: legal_always)
  then show ?thesis by (simp add: bounded_inv_def TryAcquire_def Let_def)
qed

section \<open>Token counts\<close>

text \<open>
  The invariant of a limiter whose clock does not go backwards: the parameters are sensible, token
  counts are within the bucket, and every bucket was filled when it was last seen.
\<close>

definition bucket_ok :: "Limiter \<Rightarrow> instant \<Rightarrow> bucket \<Rightarrow> bool" where
  "bucket_ok l t b \<longleftrightarrow> 0 \<le> bk_tokens b \<and> bk_tokens b \<le> lim_capacity l
     \<and> bk_lastFill b = bk_lastSeen b \<and> bk_lastFill b \<le> t"

definition limiter_inv :: "Limiter \<Rightarrow> instant \<Rightarrow> bool" where
  "limiter_inv l t \<longleftrightarrow> 0 < lim_rate l \<and> 0 < lim_capacity l \<and> 0 < lim_idleAfter l
     \<and> lim_idleAfter l \<le> max_int64
     \<and> keys_distinct (lim_buckets l) \<and> (\<forall>(k, b) \<in> set (lim_buckets l). bucket_ok l t b)"

lemma limiter_inv_lookup: "limiter_inv l t \<Longrightarrow> map_of (lim_buckets l) key = Some b \<Longrightarrow> bucket_ok l t b"
  by (auto simp: limiter_inv_def dest: map_of_SomeD)

lemma Seconds_mono: "d \<le> e \<Longrightarrow> Seconds d \<le> Seconds e"
  by (simp add: Seconds_def divide_right_mono)

lemma Seconds_nonneg: "0 \<le> d \<Longrightarrow> 0 \<le> Seconds d"
  by (simp add: Seconds_def)

lemma Seconds_pos_iff: "0 < Seconds d \<longleftrightarrow> 0 < d"
  by (simp add: Seconds_def)

lemma Seconds_add: "Seconds (d + e) = Seconds d + Seconds e"
  by (simp add: Seconds_def add_divide_distrib)

lemma Seconds_zero [simp]: "Seconds 0 = 0"
  by (simp add: Seconds_def)

lemma time_sub_nonneg: "u \<le> t \<Longrightarrow> 0 \<le> time_sub t u"
  by (simp add: time_sub_def max_int64_def)

lemma time_sub_pos: "0 < time_sub t u \<longleftrightarrow> u < t"
  by (auto simp: time_sub_def max_int64_def min_int64_def)

lemma time_sub_grow: "t \<le> t' \<Longrightarrow> time_sub t' u \<le> time_sub t u + (t' - t)"
  by (auto simp: time_sub_def max_def min_def)

text \<open>What a key could spend at time \<open>t\<close>: the potential that admissions draw on.\<close>

definition available :: "Limiter \<Rightarrow> string \<Rightarrow> instant \<Rightarrow> rat" where
  "available l key t = bk_tokens (refill l t (bucketFor l t key))"

lemma refill_fields:
  assumes "bk_lastFill b \<le> t"
  shows "bk_tokens (refill l t b) = (if bk_lastFill b < t
           then min (lim_capacity l) (bk_tokens b + Seconds (time_sub t (bk_lastFill b)) * lim_rate l)
           else bk_tokens b)"
    and "bk_lastFill (refill l t b) = t" and "bk_lastSeen (refill l t b) = t"
  using assms by (auto simp: refill_def Let_def Seconds_pos_iff time_sub_pos)

lemma refill_tokens:
  assumes "limiter_inv l t0" and "bucket_ok l t0 b" and "t0 \<le> t"
  shows "bk_tokens (refill l t b) =
           min (lim_capacity l) (bk_tokens b + Seconds (time_sub t (bk_lastFill b)) * lim_rate l)"
proof -
  have le: "bk_lastFill b \<le> t" using assms by (auto simp: bucket_ok_def)
  have "time_sub t t = 0" by (simp add: time_sub_def min_int64_def max_int64_def)
  with assms le show ?thesis
    by (cases "bk_lastFill b = t") (auto simp: refill_fields bucket_ok_def)
qed

lemma available_None:
  "map_of (lim_buckets l) key = None \<Longrightarrow> available l key t = lim_capacity l"
proof -
  assume "map_of (lim_buckets l) key = None"
  moreover have "time_sub t t = 0" by (simp add: time_sub_def min_int64_def max_int64_def)
  ultimately show ?thesis by (simp add: available_def bucketFor_def refill_def)
qed

lemma available_Some:
  "limiter_inv l t0 \<Longrightarrow> t0 \<le> t \<Longrightarrow> map_of (lim_buckets l) key = Some b \<Longrightarrow>
   available l key t = min (lim_capacity l) (bk_tokens b + Seconds (time_sub t (bk_lastFill b)) * lim_rate l)"
  using refill_tokens limiter_inv_lookup by (simp add: available_def bucketFor_def)

lemma available_bounds:
  assumes "limiter_inv l t0" and "t0 \<le> t"
  shows "0 \<le> available l key t" and "available l key t \<le> lim_capacity l"
proof -
  have "0 \<le> available l key t \<and> available l key t \<le> lim_capacity l"
  proof (cases "map_of (lim_buckets l) key")
    case None
    with assms show ?thesis by (simp add: available_None limiter_inv_def)
  next
    case (Some b)
    with assms have ok: "bucket_ok l t0 b" by (blast intro: limiter_inv_lookup)
    with assms have "0 \<le> Seconds (time_sub t (bk_lastFill b)) * lim_rate l"
      by (intro mult_nonneg_nonneg Seconds_nonneg time_sub_nonneg) (auto simp: bucket_ok_def limiter_inv_def)
    with ok assms Some show ?thesis by (auto simp: available_Some bucket_ok_def limiter_inv_def)
  qed
  then show "0 \<le> available l key t" and "available l key t \<le> lim_capacity l" by auto
qed

lemma available_grows:
  assumes "limiter_inv l t0" and "t0 \<le> t" and "t \<le> t'"
  shows "available l key t' \<le> available l key t + Seconds (t' - t) * lim_rate l"
proof (cases "map_of (lim_buckets l) key")
  case None
  with assms show ?thesis
    by (simp add: available_None limiter_inv_def Seconds_nonneg)
next
  case (Some b)
  have r: "0 \<le> lim_rate l" using assms by (simp add: limiter_inv_def)
  have "Seconds (time_sub t' (bk_lastFill b)) \<le> Seconds (time_sub t (bk_lastFill b) + (t' - t))"
    using time_sub_grow [OF assms(3)] by (rule Seconds_mono)
  then have "Seconds (time_sub t' (bk_lastFill b)) * lim_rate l
      \<le> (Seconds (time_sub t (bk_lastFill b)) + Seconds (t' - t)) * lim_rate l"
    using r by (simp add: Seconds_add mult_right_mono)
  moreover have "0 \<le> Seconds (t' - t) * lim_rate l"
    using r assms by (intro mult_nonneg_nonneg Seconds_nonneg) auto
  ultimately show ?thesis
    using assms Some by (simp add: available_Some [of l t0] algebra_simps min_def)
qed

section \<open>Preservation\<close>

lemma AllowN_fields [simp]:
  "lim_rate (fst (AllowN l t key n)) = lim_rate l"
  "lim_capacity (fst (AllowN l t key n)) = lim_capacity l"
  "lim_idleAfter (fst (AllowN l t key n)) = lim_idleAfter l"
  by (simp_all add: AllowN_def Let_def)

lemma AllowN_lookup:
  "map_of (lim_buckets (fst (AllowN l t key n))) =
    (map_of (lim_buckets l))(key \<mapsto>
      (let b = refill l t (bucketFor l t key)
       in if bk_tokens b \<ge> n then b\<lparr>bk_tokens := bk_tokens b - n\<rparr>
          else b\<lparr>bk_refused := wrap64 (bk_refused b + 1)\<rparr>))"
  by (simp add: AllowN_def Let_def)

lemma AllowN_Allowed: "dec_Allowed (snd (AllowN l t key n)) \<longleftrightarrow> n \<le> available l key t"
  by (simp add: AllowN_def Let_def available_def)

lemma refill_times:
  assumes "limiter_inv l t0" and "t0 \<le> t"
  shows "bk_lastFill (refill l t (bucketFor l t key)) = t \<and> bk_lastSeen (refill l t (bucketFor l t key)) = t"
proof -
  have "bk_lastFill (bucketFor l t key) \<le> t"
  proof (cases "map_of (lim_buckets l) key")
    case (Some b)
    then have "bucket_ok l t0 b" by (rule limiter_inv_lookup [OF assms(1)])
    with Some assms(2) show ?thesis by (simp add: bucketFor_def bucket_ok_def)
  qed (simp add: bucketFor_def)
  then show ?thesis by (simp add: refill_fields)
qed

lemma AllowN_inv:
  assumes "limiter_inv l t0" and "t0 \<le> t" and "0 \<le> n"
  shows "limiter_inv (fst (AllowN l t key n)) t"
proof -
  let ?l = "fst (AllowN l t key n)"
  have d: "keys_distinct (lim_buckets ?l)"
    using assms(1) by (simp add: AllowN_def Let_def limiter_inv_def)
  have "bucket_ok ?l t b" if m: "map_of (lim_buckets ?l) k = Some b" for k b
  proof (cases "k = key")
    case False
    with m have "map_of (lim_buckets l) k = Some b" by (simp add: AllowN_lookup)
    then have "bucket_ok l t0 b" by (rule limiter_inv_lookup [OF assms(1)])
    with assms(2) show ?thesis by (simp add: bucket_ok_def)
  next
    case True
    with m assms refill_times [OF assms(1,2), of key] available_bounds [OF assms(1,2), of key] show ?thesis
      by (auto simp: AllowN_lookup bucket_ok_def available_def Let_def split: if_splits)
  qed
  with d assms(1) show ?thesis
    by (auto simp: limiter_inv_def in_set_map_of [symmetric])
qed

lemma available_AllowN:
  assumes "limiter_inv l t0" and "t0 \<le> t" and "0 \<le> n"
  shows "available (fst (AllowN l t key n)) k t =
    available l k t - (if k = key \<and> dec_Allowed (snd (AllowN l t key n)) then n else 0)"
proof -
  let ?l = "fst (AllowN l t key n)"
  have z: "time_sub t t = 0" by (simp add: time_sub_def min_int64_def max_int64_def)
  show ?thesis
  proof (cases "k = key")
    case True
    let ?b = "refill l t (bucketFor l t key)"
    have f: "bk_lastFill ?b = t" using refill_times [OF assms(1,2)] by simp
    have "available ?l key t = (if bk_tokens ?b \<ge> n then bk_tokens ?b - n else bk_tokens ?b)"
      using f z by (simp add: available_def bucketFor_def AllowN_lookup refill_def [of ?l] Let_def)
    with True show ?thesis by (auto simp: AllowN_Allowed available_def)
  next
    case False
    then have "bucketFor ?l t k = bucketFor l t k"
      by (cases "map_of (lim_buckets l) k") (simp_all add: bucketFor_def AllowN_lookup)
    with False show ?thesis by (simp add: available_def refill_def Let_def)
  qed
qed

lemma Sweep_fields [simp]:
  "lim_rate (fst (Sweep l t)) = lim_rate l" "lim_capacity (fst (Sweep l t)) = lim_capacity l"
  "lim_idleAfter (fst (Sweep l t)) = lim_idleAfter l"
  by (simp_all add: Sweep_def Let_def)

lemma map_of_filter_distinct:
  "keys_distinct m \<Longrightarrow> map_of (filter (\<lambda>(k, v). P v) m) k =
     (case map_of m k of None \<Rightarrow> None | Some v \<Rightarrow> if P v then Some v else None)"
  by (induction m) (auto simp: map_of_eq_None_iff image_iff split: option.splits)

lemma Sweep_lookup:
  "limiter_inv l t0 \<Longrightarrow> map_of (lim_buckets (fst (Sweep l t))) k =
     (case map_of (lim_buckets l) k of None \<Rightarrow> None | Some b \<Rightarrow> if idle l t b then None else Some b)"
  by (simp add: Sweep_def Let_def limiter_inv_def map_of_filter_distinct split: option.splits)

lemma distinct_map_filter_keys: "keys_distinct m \<Longrightarrow> keys_distinct (filter P m)"
  by (induction m) auto

lemma Sweep_inv:
  assumes "limiter_inv l t0" and "t0 \<le> t"
  shows "limiter_inv (fst (Sweep l t)) t"
proof -
  have "\<forall>(k, b) \<in> set (lim_buckets l). bucket_ok l t b"
    using assms by (auto simp: limiter_inv_def bucket_ok_def)
  with assms show ?thesis
    by (auto simp: limiter_inv_def Sweep_def Let_def distinct_map_filter_keys bucket_ok_def)
qed

section \<open>The admission bound\<close>

text \<open>
  A swept bucket comes back full. When the burst is more than what the rate refills in the idle
  period, a key can therefore spend one burst per idle period, and the rate it can sustain is the
  larger of the two.
\<close>

definition sustained :: "Limiter \<Rightarrow> rat" where
  "sustained l = max (lim_rate l) (lim_capacity l / Seconds (lim_idleAfter l))"

text \<open>What a key could have spent by now at the sustained rate: the potential admissions draw on.\<close>

definition potential :: "Limiter \<Rightarrow> string \<Rightarrow> instant \<Rightarrow> rat" where
  "potential l key t =
     (case map_of (lim_buckets l) key of
        None \<Rightarrow> lim_capacity l
      | Some b \<Rightarrow> min (lim_capacity l) (bk_tokens b + Seconds (time_sub t (bk_lastFill b)) * sustained l))"

lemma sustained_fields [simp]:
  "sustained (fst (AllowN l t key n)) = sustained l" "sustained (fst (Sweep l t)) = sustained l"
  by (simp_all add: sustained_def)

lemma sustained_facts:
  assumes "limiter_inv l t0"
  shows "0 < sustained l" and "lim_rate l \<le> sustained l"
    and "lim_capacity l \<le> Seconds (lim_idleAfter l) * sustained l"
    and "lim_capacity l \<le> lim_rate l * Seconds (lim_idleAfter l) \<Longrightarrow> sustained l = lim_rate l"
proof -
  have s: "0 < Seconds (lim_idleAfter l)" using assms by (simp add: limiter_inv_def Seconds_pos_iff)
  show "0 < sustained l" and "lim_rate l \<le> sustained l"
    using assms by (auto simp: sustained_def limiter_inv_def)
  have "lim_capacity l / Seconds (lim_idleAfter l) \<le> sustained l" by (simp add: sustained_def)
  with s show "lim_capacity l \<le> Seconds (lim_idleAfter l) * sustained l"
    by (simp add: divide_le_eq mult.commute)
  assume "lim_capacity l \<le> lim_rate l * Seconds (lim_idleAfter l)"
  with s show "sustained l = lim_rate l" by (simp add: sustained_def divide_le_eq)
qed

lemma available_le_potential:
  assumes "limiter_inv l t0" and "t0 \<le> t"
  shows "available l key t \<le> potential l key t"
proof (cases "map_of (lim_buckets l) key")
  case None
  then show ?thesis by (simp add: available_None potential_def)
next
  case (Some b)
  then have "bucket_ok l t0 b" by (rule limiter_inv_lookup [OF assms(1)])
  then have "0 \<le> Seconds (time_sub t (bk_lastFill b))"
    using assms by (intro Seconds_nonneg time_sub_nonneg) (auto simp: bucket_ok_def)
  then have "Seconds (time_sub t (bk_lastFill b)) * lim_rate l \<le> Seconds (time_sub t (bk_lastFill b)) * sustained l"
    using sustained_facts(2) [OF assms(1)] by (rule mult_left_mono [rotated])
  with Some show ?thesis by (auto simp: available_Some [OF assms] potential_def min_def)
qed

lemma potential_bounds:
  assumes "limiter_inv l t0" and "t0 \<le> t"
  shows "0 \<le> potential l key t" and "potential l key t \<le> lim_capacity l"
proof -
  show "0 \<le> potential l key t"
    using available_bounds(1) [OF assms, of key] available_le_potential [OF assms, of key] by simp
  show "potential l key t \<le> lim_capacity l" by (simp add: potential_def split: option.split)
qed

lemma potential_grows:
  assumes "limiter_inv l t0" and "t0 \<le> t" and "t \<le> t'"
  shows "potential l key t' \<le> potential l key t + Seconds (t' - t) * sustained l"
proof (cases "map_of (lim_buckets l) key")
  case None
  have "0 \<le> Seconds (t' - t) * sustained l"
    using sustained_facts(1) [OF assms(1)] assms(3) by (intro mult_nonneg_nonneg Seconds_nonneg) auto
  with None show ?thesis by (simp add: potential_def)
next
  case (Some b)
  have r: "0 \<le> sustained l" using sustained_facts(1) [OF assms(1)] by simp
  have "Seconds (time_sub t' (bk_lastFill b)) \<le> Seconds (time_sub t (bk_lastFill b) + (t' - t))"
    using time_sub_grow [OF assms(3)] by (rule Seconds_mono)
  then have "Seconds (time_sub t' (bk_lastFill b)) * sustained l
      \<le> (Seconds (time_sub t (bk_lastFill b)) + Seconds (t' - t)) * sustained l"
    using r by (simp add: Seconds_add mult_right_mono)
  moreover have "0 \<le> Seconds (t' - t) * sustained l"
    using r assms by (intro mult_nonneg_nonneg Seconds_nonneg) auto
  ultimately show ?thesis using Some by (simp add: potential_def algebra_simps min_def)
qed

lemma potential_AllowN:
  assumes "limiter_inv l t0" and "t0 \<le> t" and "0 \<le> n"
  shows "potential (fst (AllowN l t key n)) k t \<le>
    potential l k t - (if k = key \<and> dec_Allowed (snd (AllowN l t key n)) then n else 0)"
proof (cases "k = key")
  case True
  let ?l = "fst (AllowN l t key n)"
  have z: "time_sub t t = 0" by (simp add: time_sub_def min_int64_def max_int64_def)
  have "potential ?l key t \<le> available ?l key t"
    using refill_times [OF assms(1,2), of key] z
    by (auto simp: potential_def available_def bucketFor_def AllowN_lookup refill_def [of ?l] Let_def)
  then show ?thesis
    using True available_AllowN [OF assms, of key key] available_le_potential [OF assms(1,2), of key]
    by simp
next
  case False
  then show ?thesis by (simp add: potential_def AllowN_lookup split: option.split)
qed

lemma potential_Sweep:
  assumes inv: "limiter_inv l t0" and t: "t0 \<le> t"
  shows "potential (fst (Sweep l t)) k t = potential l k t"
proof (cases "\<exists>b. map_of (lim_buckets l) k = Some b \<and> idle l t b")
  case True
  then obtain b where b: "map_of (lim_buckets l) k = Some b" "idle l t b" by blast
  have ok: "bucket_ok l t0 b" using inv b(1) by (rule limiter_inv_lookup)
  have "lim_idleAfter l \<le> time_sub t (bk_lastFill b)"
    using ok b(2) inv by (auto simp: bucket_ok_def idle_def time_sub_def limiter_inv_def)
  then have "Seconds (lim_idleAfter l) * sustained l \<le> Seconds (time_sub t (bk_lastFill b)) * sustained l"
    using sustained_facts(1) [OF inv] by (intro mult_right_mono Seconds_mono) auto
  moreover have "0 \<le> bk_tokens b" using ok by (simp add: bucket_ok_def)
  ultimately have "lim_capacity l \<le> bk_tokens b + Seconds (time_sub t (bk_lastFill b)) * sustained l"
    using sustained_facts(3) [OF inv] by linarith
  with b show ?thesis by (simp add: potential_def Sweep_lookup [OF inv])
next
  case False
  then have "map_of (lim_buckets (fst (Sweep l t))) k = map_of (lim_buckets l) k"
    using Sweep_lookup [OF inv, of t k] by (auto split: option.splits)
  then show ?thesis by (simp add: potential_def split: option.split)
qed

text \<open>
  A history of the limiter: at each instant a key asks for some tokens (\<open>Some (key, n)\<close>) or the idle
  buckets are swept (\<open>None\<close>). \<open>runLimiter\<close> is the limiter after it and \<open>admitted key\<close> the tokens given
  to \<open>key\<close> during it.
\<close>

type_synonym limiter_event = "instant \<times> (string \<times> rat) option"

fun runLimiter :: "Limiter \<Rightarrow> limiter_event list \<Rightarrow> Limiter" where
  "runLimiter l [] = l"
| "runLimiter l ((t, None) # es) = runLimiter (fst (Sweep l t)) es"
| "runLimiter l ((t, Some (k, n)) # es) = runLimiter (fst (AllowN l t k n)) es"

fun admitted :: "string \<Rightarrow> Limiter \<Rightarrow> limiter_event list \<Rightarrow> rat" where
  "admitted key l [] = 0"
| "admitted key l ((t, None) # es) = admitted key (fst (Sweep l t)) es"
| "admitted key l ((t, Some (k, n)) # es) =
     (if k = key \<and> dec_Allowed (snd (AllowN l t k n)) then n else 0) + admitted key (fst (AllowN l t k n)) es"

definition amounts_ok :: "limiter_event list \<Rightarrow> bool" where
  "amounts_ok es \<longleftrightarrow> list_all (\<lambda>(t, r). case r of None \<Rightarrow> True | Some (k, n) \<Rightarrow> 0 \<le> n) es"

lemma amounts_ok_simps [simp]:
  "amounts_ok []" "amounts_ok ((t, None) # es) = amounts_ok es"
  "amounts_ok ((t, Some (k, n)) # es) \<longleftrightarrow> 0 \<le> n \<and> amounts_ok es"
  by (simp_all add: amounts_ok_def)

lemma runLimiter_fields [simp]:
  "lim_rate (runLimiter l es) = lim_rate l \<and> lim_capacity (runLimiter l es) = lim_capacity l
   \<and> lim_idleAfter (runLimiter l es) = lim_idleAfter l"
  by (induction l es rule: runLimiter.induct) simp_all

lemma runLimiter_inv:
  assumes "limiter_inv l t0" and "sorted (t0 # map fst es @ [t1])" and "amounts_ok es"
  shows "limiter_inv (runLimiter l es) t1"
  using assms
proof (induction l es arbitrary: t0 rule: runLimiter.induct)
  case (1 l)
  then show ?case by (auto simp: limiter_inv_def bucket_ok_def)
next
  case (2 l t es)
  then show ?case using Sweep_inv [of l t0 t] by auto
next
  case (3 l t k n es)
  then show ?case using AllowN_inv [of l t0 t n k] by auto
qed

lemma admitted_potential:
  assumes "limiter_inv l t0" and "sorted (t0 # map fst es @ [t1])" and "amounts_ok es"
  shows "admitted key l es \<le> potential l key t0 + Seconds (t1 - t0) * sustained l"
  using assms
proof (induction key l es arbitrary: t0 rule: admitted.induct)
  case (1 key l)
  have "0 \<le> Seconds (t1 - t0) * sustained l"
    using 1 sustained_facts(1) [of l t0] by (intro mult_nonneg_nonneg Seconds_nonneg) auto
  then show ?case using potential_bounds(1) [OF 1(1), of t0 key] by simp
next
  case (2 key l t es)
  then have le: "t0 \<le> t" and sorted: "sorted (t # map fst es @ [t1])" by auto
  have "admitted key (fst (Sweep l t)) es \<le> potential l key t + Seconds (t1 - t) * sustained l"
    using 2(1) [OF Sweep_inv [OF 2(2) le] sorted] 2(4) potential_Sweep [OF 2(2) le, of key] by simp
  then show ?case
    using potential_grows [OF 2(2) order.refl le, of key]
    by (simp add: algebra_simps Seconds_def diff_divide_distrib)
next
  case (3 key l t k n es)
  then have le: "t0 \<le> t" and sorted: "sorted (t # map fst es @ [t1])" and n: "0 \<le> n" by auto
  have "admitted key (fst (AllowN l t k n)) es
      \<le> potential (fst (AllowN l t k n)) key t + Seconds (t1 - t) * sustained l"
    using 3(1) [OF AllowN_inv [OF 3(2) le n] sorted] 3(4) by simp
  then have "admitted key l ((t, Some (k, n)) # es) \<le> potential l key t + Seconds (t1 - t) * sustained l"
    using potential_AllowN [OF 3(2) le n, of k key] by (auto split: if_splits)
  then show ?case
    using potential_grows [OF 3(2) order.refl le, of key]
    by (simp add: algebra_simps Seconds_def diff_divide_distrib)
qed

lemma NewLimiter_inv:
  "idleAfter \<le> max_int64 \<Longrightarrow> limiter_inv (NewLimiter perSecond burst idleAfter) t"
  by (auto simp: limiter_inv_def NewLimiter_def Let_def minute_def second_def max_int64_def)

text \<open>
  C23: The limiter limits: for a limiter built with any options, after any history of requests for any
  amounts by any keys and of sweeps, the tokens given to one key in a later window, while the clock
  does not go back, are at most the burst plus the window times the sustained rate. The sustained
  rate is the configured one when the rate refills the burst within the idle period, as with the
  receiver's defaults; otherwise it is one burst per idle period, since a sweep gives the key a full
  bucket.
\<close>

theorem Limiter_bound:
  assumes "idleAfter \<le> max_int64" and "amounts_ok (earlier @ window)"
    and "sorted (map fst earlier @ t0 # map fst window @ [t1])"
    and "l = runLimiter (NewLimiter perSecond burst idleAfter) earlier"
  shows "admitted key l window \<le>
      lim_capacity l + max (lim_rate l) (lim_capacity l / Seconds (lim_idleAfter l)) * Seconds (t1 - t0)
    \<and> (lim_capacity l \<le> lim_rate l * Seconds (lim_idleAfter l) \<longrightarrow>
         admitted key l window \<le> lim_capacity l + lim_rate l * Seconds (t1 - t0))"
proof -
  let ?s = "case earlier of [] \<Rightarrow> t0 | (t, _) # _ \<Rightarrow> t"
  have s: "sorted (?s # map fst earlier @ [t0])"
    using assms(3) by (cases earlier) (auto simp: sorted_append split_paired_all)
  have inv: "limiter_inv l t0"
    unfolding assms(4) using assms(2)
    by (intro runLimiter_inv [OF NewLimiter_inv [OF assms(1)] s]) (simp add: amounts_ok_def)
  have "admitted key l window \<le> potential l key t0 + Seconds (t1 - t0) * sustained l"
    using assms(2,3) by (intro admitted_potential [OF inv]) (auto simp: amounts_ok_def sorted_append)
  then have b: "admitted key l window \<le> lim_capacity l + sustained l * Seconds (t1 - t0)"
    using potential_bounds(2) [OF inv order.refl, of key] by (simp add: mult.commute)
  then show ?thesis using sustained_facts(4) [OF inv] by (auto simp: sustained_def)
qed

text \<open>
  The burst refilled by a sweep is real: at one token a second with a burst of a thousand, a sweep
  after the ten idle minutes lets a key spend two thousand tokens in 601 seconds, which the configured
  rate alone would not allow and the bound does.
\<close>

theorem Limiter_bound_witness:
  "let l = NewLimiter 1 1000 0;
       window = [(0, Some (''t'', 1000)), (601 * second, None), (601 * second, Some (''t'', 1000))]
   in admitted ''t'' l window = 2000
      \<and> \<not> admitted ''t'' l window \<le> lim_capacity l + lim_rate l * Seconds (601 * second)
      \<and> admitted ''t'' l window \<le>
          lim_capacity l + max (lim_rate l) (lim_capacity l / Seconds (lim_idleAfter l)) * Seconds (601 * second)"
proof -
  let ?l = "NewLimiter 1 1000 0"
  let ?w = "[(0, Some (''t'', 1000)), (601 * second, None), (601 * second, Some (''t'', 1000))]"
  have run: "?l = runLimiter ?l []" by simp
  have "admitted ''t'' ?l ?w \<le>
      lim_capacity ?l + max (lim_rate ?l) (lim_capacity ?l / Seconds (lim_idleAfter ?l)) * Seconds (601 * second - 0)"
    by (rule conjunct1 [OF Limiter_bound [OF _ _ _ run]]) (simp_all add: max_int64_def second_def)
  moreover have "admitted ''t'' ?l ?w = 2000 \<and>
      \<not> (2000::rat) \<le> lim_capacity ?l + lim_rate ?l * Seconds (601 * second)"
    by code_simp
  ultimately show ?thesis by (simp add: Let_def)
qed

text \<open>
  Retry-After is honoured: after a refusal of \<open>n\<close> tokens, no more than the capacity, the same
  request made later than the announced delay is admitted if nothing else drew on the bucket; and
  when \<open>n\<close> is no more than one second's rate, as for every call of the receiver, it is admitted after
  the whole seconds of the \<open>Retry-After\<close> header.
\<close>

theorem RetryAfter_honoured:
  assumes inv: "limiter_inv l t0" and t: "t0 \<le> t" and n: "0 < n" "n \<le> lim_capacity l"
    and ref: "\<not> dec_Allowed (snd (AllowN l t key n))"
    and later: "t + dec_RetryAfter (snd (AllowN l t key n)) < t'
              \<or> (n \<le> lim_rate l \<and> t + HeaderSeconds (snd (AllowN l t key n)) * 1000000000 \<le> t')"
    and range: "int64_range (t' - t)"
  shows "dec_Allowed (snd (AllowN (fst (AllowN l t key n)) t' key n))"
proof -
  let ?l = "fst (AllowN l t key n)" and ?d = "snd (AllowN l t key n)"
  let ?b = "refill l t (bucketFor l t key)"
  define tk where "tk = bk_tokens ?b"
  have rate: "0 < lim_rate l" using inv by (simp add: limiter_inv_def)
  have tk: "0 \<le> tk" "tk < n"
    using ref available_bounds [OF inv t, of key] AllowN_Allowed [of l t key n]
    by (auto simp: tk_def available_def)
  have ra: "dec_RetryAfter ?d = \<lfloor>(n - tk) / lim_rate l * 1000000000\<rfloor>"
    using tk by (simp add: AllowN_def Let_def tk_def)
  then have ra0: "0 \<le> dec_RetryAfter ?d" using tk rate by simp
  have hd1: "1 \<le> HeaderSeconds ?d" by (simp add: HeaderSeconds_def Let_def)
  then have tt: "t < t'" using later ra0 by auto
  have inv': "limiter_inv ?l t" using AllowN_inv [OF inv t] n by simp
  obtain b' where b': "map_of (lim_buckets ?l) key = Some b'" "bk_tokens b' = tk" "bk_lastFill b' = t"
    using tk refill_times [OF inv t, of key] by (simp add: AllowN_lookup tk_def Let_def)
  have "available ?l key t' = min (lim_capacity l) (tk + Seconds (t' - t) * lim_rate l)"
    using available_Some [OF inv' _ b'(1), of t'] tt b' range by (simp add: time_sub_exact)
  moreover have "n \<le> tk + Seconds (t' - t) * lim_rate l"
  proof (cases "t + dec_RetryAfter ?d < t'")
    case True
    then have "(n - tk) / lim_rate l * 1000000000 \<le> of_int (t' - t)"
      unfolding ra by linarith
    then have "(n - tk) / lim_rate l \<le> Seconds (t' - t)" by (simp add: Seconds_def)
    then show ?thesis using rate by (simp add: divide_le_eq)
  next
    case False
    with later have "n \<le> lim_rate l" and "1000000000 \<le> t' - t" using hd1 by auto
    then have "1 \<le> Seconds (t' - t)" by (simp add: Seconds_def)
    then have "1 * lim_rate l \<le> Seconds (t' - t) * lim_rate l" using rate by (intro mult_right_mono) auto
    with \<open>n \<le> lim_rate l\<close> tk show ?thesis by linarith
  qed
  ultimately show ?thesis using n by (simp add: AllowN_Allowed)
qed

theorem RetryAfter_honoured_witness:
  "let l = fst (AllowN (NewLimiter 2 1 0) 0 ''t'' 1)
   in \<not> dec_Allowed (snd (AllowN l 0 ''t'' 1))
      \<and> dec_Allowed (snd (AllowN (fst (AllowN l 0 ''t'' 1)) 1000000000 ''t'' 1))"
proof -
  let ?new = "NewLimiter 2 1 0"
  let ?l = "fst (AllowN ?new 0 ''t'' 1)"
  have i0: "limiter_inv ?new 0"
    by (simp add: limiter_inv_def NewLimiter_def Seconds_def minute_def second_def max_int64_def)
  then have inv: "limiter_inv ?l 0" using AllowN_inv [OF i0, of 0 1 "''t''"] by simp
  have a0: "available ?new ''t'' 0 = 1" by (simp add: available_None NewLimiter_def)
  then have "available ?l ''t'' 0 = 0"
    using available_AllowN [OF i0, of 0 1 "''t''" "''t''"] by (simp add: AllowN_Allowed)
  then have ref: "\<not> dec_Allowed (snd (AllowN ?l 0 ''t'' 1))"
    and ra: "dec_RetryAfter (snd (AllowN ?l 0 ''t'' 1)) = 500000000"
    by (simp_all add: AllowN_Allowed) (simp add: AllowN_def [of ?l] available_def Let_def, simp add: NewLimiter_def)
  have "dec_Allowed (snd (AllowN (fst (AllowN ?l 0 ''t'' 1)) 1000000000 ''t'' 1))"
    using RetryAfter_honoured [OF inv _ _ _ ref, of 1000000000] ra
    by (simp add: NewLimiter_def int64_range_def min_int64_def max_int64_def)
  with ref show ?thesis by (simp add: Let_def)
qed

end
