(* ===== verification/Circuit_Breaker.thy ===== *)
theory Circuit_Breaker
  imports Go_Prelude
begin

text \<open>
  The per-destination circuit breaker: \<^verbatim>\<open>internal/dispatch/breaker.go\<close>. Every method holds the mutex
  for its whole body, so the breaker is a machine whose operations are applied one at a time; the
  clock is an argument. \<open>Refusal\<close> is the reason \<open>BreakerAllow\<close> gives; \<open>refusalText\<close> renders it, with
  \<open>Duration.String\<close> as a parameter.
\<close>

section \<open>Definitions\<close>

datatype BreakerState = BreakerClosed | BreakerOpen | BreakerHalfOpen

record breakerEntry =
  be_state :: BreakerState
  be_consecutive :: int
  be_openedAt :: instant
  be_nextProbeAt :: instant
  be_cooldown :: duration
  be_probeInFlight :: bool
  be_lastError :: string
  be_trips :: int

record Breaker =
  brk_state :: "(string \<times> breakerEntry) list"
  brk_threshold :: int
  brk_cooldown :: duration
  brk_maxCooldown :: duration

definition NewBreaker :: "int \<Rightarrow> duration \<Rightarrow> duration \<Rightarrow> Breaker" where
  "NewBreaker threshold cooldown maxCooldown =
     \<lparr>brk_state = [],
      brk_threshold = (if threshold \<le> 0 then 5 else threshold),
      brk_cooldown = (if cooldown \<le> 0 then 30 * second else cooldown),
      brk_maxCooldown = (if maxCooldown \<le> 0 then 5 * minute else maxCooldown)\<rparr>"

definition maxResponseBody :: nat where "maxResponseBody = 1024"

definition truncateUTF8 :: "string \<Rightarrow> string" where
  "truncateUTF8 s = take maxResponseBody (ToValidUTF8 s)"

datatype Refusal = Failing int string duration | ProbeInFlight

text \<open>\<open>Duration.Round(time.Second)\<close>, half away from zero.\<close>

definition roundSecond :: "duration \<Rightarrow> duration" where
  "roundSecond d = sgn d * ((\<bar>d\<bar> + 500000000) div 1000000000) * 1000000000"

fun refusalText :: "(duration \<Rightarrow> string) \<Rightarrow> Refusal \<Rightarrow> string" where
  "refusalText fmtDuration (Failing n err wait) =
     ''destination has failed '' @ FormatInt n @ '' times consecutively ('' @ err @ ''); next probe in ''
       @ fmtDuration wait"
| "refusalText fmtDuration ProbeInFlight = ''a probe is already in flight for this destination''"

definition BreakerAllow :: "Breaker \<Rightarrow> instant \<Rightarrow> string \<Rightarrow> Breaker \<times> Refusal option" where
  "BreakerAllow b now destinationID =
     (case map_of (brk_state b) destinationID of
        None \<Rightarrow> (b, None)
      | Some e \<Rightarrow>
          if be_state e = BreakerClosed then (b, None)
          else if be_state e = BreakerOpen then
            (if now < be_nextProbeAt e
             then (b, Some (Failing (be_consecutive e) (be_lastError e)
                              (roundSecond (time_sub (be_nextProbeAt e) now))))
             else (b\<lparr>brk_state := AList.update destinationID
                       (e\<lparr>be_state := BreakerHalfOpen, be_probeInFlight := True\<rparr>) (brk_state b)\<rparr>, None))
          else if be_probeInFlight e then (b, Some ProbeInFlight)
          else (b\<lparr>brk_state := AList.update destinationID (e\<lparr>be_probeInFlight := True\<rparr>) (brk_state b)\<rparr>, None))"

definition Succeeded :: "Breaker \<Rightarrow> string \<Rightarrow> Breaker" where
  "Succeeded b destinationID =
     (case map_of (brk_state b) destinationID of
        None \<Rightarrow> b
      | Some e \<Rightarrow>
          b\<lparr>brk_state := AList.update destinationID
             (e\<lparr>be_state := BreakerClosed, be_consecutive := 0, be_probeInFlight := False,
                be_cooldown := 0, be_lastError := [], be_nextProbeAt := zero_time\<rparr>) (brk_state b)\<rparr>)"

definition newEntry :: breakerEntry where
  "newEntry = \<lparr>be_state = BreakerClosed, be_consecutive = 0, be_openedAt = zero_time,
     be_nextProbeAt = zero_time, be_cooldown = 0, be_probeInFlight = False, be_lastError = [], be_trips = 0\<rparr>"

definition failEntry :: "Breaker \<Rightarrow> instant \<Rightarrow> string \<Rightarrow> breakerEntry \<Rightarrow> breakerEntry" where
  "failEntry b now reason e =
     (let e = e\<lparr>be_consecutive := be_consecutive e + 1, be_lastError := truncateUTF8 reason,
                be_probeInFlight := False\<rparr>
      in if be_state e = BreakerHalfOpen then
           (let c = min (wrap64 (be_cooldown e * 2)) (brk_maxCooldown b);
                c = (if c = 0 then brk_cooldown b else c)
            in e\<lparr>be_state := BreakerOpen, be_cooldown := c, be_nextProbeAt := now + c\<rparr>)
         else if be_state e = BreakerClosed \<and> be_consecutive e \<ge> brk_threshold b then
           e\<lparr>be_state := BreakerOpen, be_openedAt := now, be_cooldown := brk_cooldown b,
             be_nextProbeAt := now + brk_cooldown b, be_trips := be_trips e + 1\<rparr>
         else e)"

definition Failed :: "Breaker \<Rightarrow> instant \<Rightarrow> string \<Rightarrow> string \<Rightarrow> Breaker \<times> BreakerState" where
  "Failed b now destinationID reason =
     (let e = (case map_of (brk_state b) destinationID of None \<Rightarrow> newEntry | Some e \<Rightarrow> e);
          e = failEntry b now reason e
      in (b\<lparr>brk_state := AList.update destinationID e (brk_state b)\<rparr>, be_state e))"

definition StateOf :: "Breaker \<Rightarrow> string \<Rightarrow> BreakerState" where
  "StateOf b destinationID =
     (case map_of (brk_state b) destinationID of Some e \<Rightarrow> be_state e | None \<Rightarrow> BreakerClosed)"

record Health =
  hl_DestinationID :: string
  hl_State :: BreakerState
  hl_ConsecutiveFailures :: int
  hl_LastError :: string
  hl_OpenedAt :: "instant option"
  hl_NextProbeIn :: duration
  hl_Trips :: int

definition Snapshot :: "Breaker \<Rightarrow> instant \<Rightarrow> Health list" where
  "Snapshot b now =
     map (\<lambda>(i, e). \<lparr>hl_DestinationID = i, hl_State = be_state e,
            hl_ConsecutiveFailures = be_consecutive e, hl_LastError = be_lastError e,
            hl_OpenedAt = (if is_zero_time (be_openedAt e) then None else Some (be_openedAt e)),
            hl_NextProbeIn = (if be_state e = BreakerOpen \<and> be_nextProbeAt e > now
                              then roundSecond (time_sub (be_nextProbeAt e) now) else 0),
            hl_Trips = be_trips e\<rparr>) (brk_state b)"

definition Reset :: "Breaker \<Rightarrow> string \<Rightarrow> Breaker" where
  "Reset b destinationID = b\<lparr>brk_state := AList.delete destinationID (brk_state b)\<rparr>"

section \<open>The machine and its invariant\<close>

datatype breaker_op =
    OpAllow instant string
  | OpSucceeded string
  | OpFailed instant string string
  | OpReset string

fun breaker_step :: "Breaker \<Rightarrow> breaker_op \<Rightarrow> Breaker" where
  "breaker_step b (OpAllow t d) = fst (BreakerAllow b t d)"
| "breaker_step b (OpSucceeded d) = Succeeded b d"
| "breaker_step b (OpFailed t d r) = fst (Failed b t d r)"
| "breaker_step b (OpReset d) = Reset b d"

text \<open>
  Closed entries have seen fewer failures than the threshold, others at least as many; a probe is in
  flight exactly when the entry is half open; the cooldown of an entry that is not closed is positive
  and no longer than the longer of the two configured ones.
\<close>

definition entry_inv :: "Breaker \<Rightarrow> breakerEntry \<Rightarrow> bool" where
  "entry_inv b e \<longleftrightarrow>
     0 \<le> be_consecutive e
   \<and> (be_state e = BreakerClosed \<longleftrightarrow> be_consecutive e < brk_threshold b)
   \<and> (be_probeInFlight e \<longleftrightarrow> be_state e = BreakerHalfOpen)
   \<and> (be_state e \<noteq> BreakerClosed \<longrightarrow>
        0 < be_cooldown e \<and> be_cooldown e \<le> max (brk_cooldown b) (brk_maxCooldown b))"

definition breaker_inv :: "int \<Rightarrow> duration \<Rightarrow> duration \<Rightarrow> Breaker \<Rightarrow> bool" where
  "breaker_inv th cd mx b \<longleftrightarrow>
     brk_threshold b = th \<and> brk_cooldown b = cd \<and> brk_maxCooldown b = mx
   \<and> 0 < th \<and> 0 < cd \<and> 0 < mx \<and> max cd mx < 4611686018427387904
   \<and> keys_distinct (brk_state b) \<and> (\<forall>e \<in> snd ` set (brk_state b). entry_inv b e)"

lemma breaker_inv_lookup:
  "breaker_inv th cd mx b \<Longrightarrow> map_of (brk_state b) d = Some e \<Longrightarrow> entry_inv b e"
  by (force simp: breaker_inv_def dest: map_of_SomeD)

lemma entry_inv_cong:
  "brk_threshold b = brk_threshold b' \<Longrightarrow> brk_cooldown b = brk_cooldown b' \<Longrightarrow>
   brk_maxCooldown b = brk_maxCooldown b' \<Longrightarrow> entry_inv b e = entry_inv b' e"
  by (simp add: entry_inv_def)

text \<open>Writing one well-formed entry keeps the invariant.\<close>

lemma breaker_inv_update:
  assumes "breaker_inv th cd mx b" and "entry_inv b e"
  shows "breaker_inv th cd mx (b\<lparr>brk_state := AList.update d e (brk_state b)\<rparr>)"
proof -
  let ?b = "b\<lparr>brk_state := AList.update d e (brk_state b)\<rparr>"
  have dist: "keys_distinct (AList.update d e (brk_state b))" using assms by (simp add: breaker_inv_def)
  have "entry_inv ?b e'" if "(k, e') \<in> set (AList.update d e (brk_state b))" for k e'
  proof -
    from that dist have "map_of (AList.update d e (brk_state b)) k = Some e'"
      by (metis in_set_map_of)
    then have "entry_inv b e'"
      using assms breaker_inv_lookup [OF assms(1)] by (auto split: if_splits)
    then show ?thesis by (simp add: entry_inv_def)
  qed
  with assms dist show ?thesis by (auto simp: breaker_inv_def)
qed

lemma BreakerAllow_cases:
  "BreakerAllow b t d = (b, snd (BreakerAllow b t d)) \<or>
   (\<exists>e. map_of (brk_state b) d = Some e \<and> be_state e \<noteq> BreakerClosed \<and>
      (be_state e = BreakerOpen \<and> be_nextProbeAt e \<le> t \<or> be_state e = BreakerHalfOpen \<and> \<not> be_probeInFlight e) \<and>
      BreakerAllow b t d = (b\<lparr>brk_state := AList.update d
         (e\<lparr>be_state := BreakerHalfOpen, be_probeInFlight := True\<rparr>) (brk_state b)\<rparr>, None))"
proof (cases "map_of (brk_state b) d")
  case (Some e)
  show ?thesis
  proof (cases "be_state e = BreakerHalfOpen")
    case True
    obtain c oa n k p l tr where e: "e = \<lparr>be_state = BreakerHalfOpen, be_consecutive = c, be_openedAt = oa,
        be_nextProbeAt = n, be_cooldown = k, be_probeInFlight = p, be_lastError = l, be_trips = tr\<rparr>"
      using True by (cases e) simp
    show ?thesis using Some by (simp add: BreakerAllow_def e)
  next
    case False
    with Some show ?thesis by (cases "be_state e") (auto simp: BreakerAllow_def)
  qed
qed (simp add: BreakerAllow_def)

lemma failEntry_inv:
  assumes inv: "breaker_inv th cd mx b" and e: "entry_inv b e"
  shows "entry_inv b (failEntry b t r e)"
proof (cases "be_state e")
  case BreakerHalfOpen
  let ?c = "min (wrap64 (be_cooldown e * 2)) (brk_maxCooldown b)"
  have c: "0 < be_cooldown e" "be_cooldown e \<le> max cd mx" and p: "0 < cd" "0 < mx" "max cd mx < 4611686018427387904"
    and f: "brk_cooldown b = cd" "brk_maxCooldown b = mx"
    using inv e BreakerHalfOpen by (auto simp: entry_inv_def breaker_inv_def)
  then have "wrap64 (be_cooldown e * 2) = be_cooldown e * 2"
    by (intro wrap64_id) (auto simp: int64_range_def min_int64_def max_int64_def)
  with c p f have "0 < ?c" "?c \<le> max cd mx" by auto
  with e inv f BreakerHalfOpen show ?thesis
    by (auto simp: failEntry_def entry_inv_def breaker_inv_def Let_def)
next
  case BreakerOpen
  with e show ?thesis by (auto simp: failEntry_def entry_inv_def Let_def)
next
  case BreakerClosed
  with e inv show ?thesis by (auto simp: failEntry_def entry_inv_def breaker_inv_def Let_def)
qed

lemma newEntry_inv: "breaker_inv th cd mx b \<Longrightarrow> entry_inv b newEntry"
  by (simp add: entry_inv_def newEntry_def breaker_inv_def)

interpretation brk: machine breaker_step "\<lambda>_ _. True" "breaker_inv th cd mx" for th cd mx
proof
  fix b x
  assume inv: "breaker_inv th cd mx b"
  show "breaker_inv th cd mx (breaker_step b x)"
  proof (cases x)
    case (OpAllow t d)
    from BreakerAllow_cases [of b t d] show ?thesis
    proof
      assume "BreakerAllow b t d = (b, snd (BreakerAllow b t d))"
      then have "fst (BreakerAllow b t d) = b" by (metis fst_conv)
      with inv OpAllow show ?thesis by simp
    next
      assume "\<exists>e. map_of (brk_state b) d = Some e \<and> be_state e \<noteq> BreakerClosed \<and>
        (be_state e = BreakerOpen \<and> be_nextProbeAt e \<le> t \<or> be_state e = BreakerHalfOpen \<and> \<not> be_probeInFlight e) \<and>
        BreakerAllow b t d = (b\<lparr>brk_state := AList.update d
           (e\<lparr>be_state := BreakerHalfOpen, be_probeInFlight := True\<rparr>) (brk_state b)\<rparr>, None)"
      then obtain e where e: "map_of (brk_state b) d = Some e" "be_state e \<noteq> BreakerClosed"
        "BreakerAllow b t d = (b\<lparr>brk_state := AList.update d
           (e\<lparr>be_state := BreakerHalfOpen, be_probeInFlight := True\<rparr>) (brk_state b)\<rparr>, None)" by blast
      have "entry_inv b (e\<lparr>be_state := BreakerHalfOpen, be_probeInFlight := True\<rparr>)"
        using breaker_inv_lookup [OF inv e(1)] e(2) by (auto simp: entry_inv_def)
      with OpAllow e(3) breaker_inv_update [OF inv] show ?thesis by simp
    qed
  next
    case (OpSucceeded d)
    show ?thesis
    proof (cases "map_of (brk_state b) d")
      case None
      with OpSucceeded inv show ?thesis by (simp add: Succeeded_def)
    next
      case (Some e)
      have "entry_inv b (e\<lparr>be_state := BreakerClosed, be_consecutive := 0, be_probeInFlight := False,
                be_cooldown := 0, be_lastError := [], be_nextProbeAt := zero_time\<rparr>)"
        using inv by (simp add: entry_inv_def breaker_inv_def)
      with OpSucceeded Some breaker_inv_update [OF inv] show ?thesis by (simp add: Succeeded_def)
    qed
  next
    case (OpFailed t d r)
    have "entry_inv b (case map_of (brk_state b) d of None \<Rightarrow> newEntry | Some e \<Rightarrow> e)"
      using breaker_inv_lookup [OF inv] newEntry_inv [OF inv] by (auto split: option.splits)
    with OpFailed show ?thesis
      by (simp add: Failed_def Let_def breaker_inv_update [OF inv] failEntry_inv [OF inv])
  next
    case (OpReset d)
    have "set (AList.delete d (brk_state b)) \<subseteq> set (brk_state b)"
      by (auto simp: AList.delete_eq)
    with OpReset inv show ?thesis by (auto simp: breaker_inv_def Reset_def entry_inv_def)
  qed
qed

lemma NewBreaker_inv:
  assumes "max cd mx < 4611686018427387904"
  shows "breaker_inv (brk_threshold (NewBreaker th cd mx)) (brk_cooldown (NewBreaker th cd mx))
           (brk_maxCooldown (NewBreaker th cd mx)) (NewBreaker th cd mx)"
  using assms by (auto simp: breaker_inv_def NewBreaker_def second_def minute_def)

section \<open>Behaviour\<close>

text \<open>
  The breaker's state is what its history says, in every state reachable by any interleaving of
  its operations: a destination is closed exactly when it has fewer consecutive failures than the
  threshold, a probe is outstanding exactly when it is half open, and the wait before the next probe
  never exceeds the longer configured cooldown.
\<close>

theorem Breaker_invariant:
  assumes "max cd mx < 4611686018427387904"
    and "b = foldl breaker_step (NewBreaker th cd mx) ops" and "map_of (brk_state b) d = Some e"
  shows "(StateOf b d = BreakerClosed \<longleftrightarrow> be_consecutive e < brk_threshold b)
       \<and> (be_probeInFlight e \<longleftrightarrow> StateOf b d = BreakerHalfOpen)
       \<and> (StateOf b d \<noteq> BreakerClosed \<longrightarrow>
            0 < be_cooldown e \<and> be_cooldown e \<le> max (brk_cooldown b) (brk_maxCooldown b))"
proof -
  let ?n = "NewBreaker th cd mx"
  have "breaker_inv (brk_threshold ?n) (brk_cooldown ?n) (brk_maxCooldown ?n) b"
    unfolding assms(2) by (rule brk.run_inv [OF NewBreaker_inv [OF assms(1)]]) (simp add: legal_always)
  then have "entry_inv b e" using assms(3) by (rule breaker_inv_lookup)
  then show ?thesis using assms(3) by (simp add: entry_inv_def StateOf_def)
qed

theorem Breaker_invariant_witness:
  "be_probeInFlight \<lparr>be_state = BreakerClosed, be_consecutive = 1, be_openedAt = zero_time,
     be_nextProbeAt = zero_time, be_cooldown = 0, be_probeInFlight = False, be_lastError = [], be_trips = 0\<rparr>
   \<longleftrightarrow> StateOf (foldl breaker_step (NewBreaker 0 0 0) [OpFailed 7 ''d'' []]) ''d'' = BreakerHalfOpen"
proof -
  have "map_of (brk_state (foldl breaker_step (NewBreaker 0 0 0) [OpFailed 7 ''d'' []])) ''d'' =
     Some \<lparr>be_state = BreakerClosed, be_consecutive = 1, be_openedAt = zero_time,
     be_nextProbeAt = zero_time, be_cooldown = 0, be_probeInFlight = False, be_lastError = [], be_trips = 0\<rparr>"
    by (simp add: Failed_def NewBreaker_def failEntry_def newEntry_def truncateUTF8_def ToValidUTF8.simps)
  from Breaker_invariant [OF _ refl this] show ?thesis by simp
qed

text \<open>Operations that tell the breaker something about a destination.\<close>

fun outcome_for :: "string \<Rightarrow> breaker_op \<Rightarrow> bool" where
  "outcome_for d (OpAllow _ _) = False"
| "outcome_for d (OpSucceeded d') = (d' = d)"
| "outcome_for d (OpFailed _ d' _) = (d' = d)"
| "outcome_for d (OpReset d') = (d' = d)"

lemma step_other_lookup:
  "\<not> outcome_for d x \<Longrightarrow> (\<forall>t. x \<noteq> OpAllow t d) \<Longrightarrow>
   map_of (brk_state (breaker_step b x)) d = map_of (brk_state b) d"
  by (cases x)
     (auto simp: BreakerAllow_def Succeeded_def Failed_def Reset_def Let_def split: option.splits if_splits)

lemma half_open_stays:
  assumes "map_of (brk_state b) d = Some e" "be_state e = BreakerHalfOpen" "be_probeInFlight e"
    and "list_all (\<lambda>x. \<not> outcome_for d x) xs"
  shows "map_of (brk_state (foldl breaker_step b xs)) d = Some e"
  using assms
proof (induction xs arbitrary: b)
  case (Cons x xs)
  have "map_of (brk_state (breaker_step b x)) d = Some e"
  proof (cases "\<exists>t. x = OpAllow t d")
    case True
    then show ?thesis using Cons.prems by (auto simp: BreakerAllow_def)
  next
    case False
    then show ?thesis using step_other_lookup [of d x b] Cons.prems by auto
  qed
  with Cons show ?case by simp
qed simp

text \<open>
  A half-open breaker moves only on an outcome. In every reachable state, once a probe is
  outstanding for a destination, every further attempt is refused, at any time however late, through
  any interleaving of other calls, until success, failure or a reset is reported for it.
\<close>

theorem HalfOpen_waits_for_outcome:
  assumes inv: "breaker_inv th cd mx b" and half: "StateOf b d = BreakerHalfOpen"
    and quiet: "list_all (\<lambda>x. \<not> outcome_for d x) xs"
  shows "snd (BreakerAllow (foldl breaker_step b xs) t d) = Some ProbeInFlight
       \<and> StateOf (foldl breaker_step b xs) d = BreakerHalfOpen"
proof -
  obtain e where e: "map_of (brk_state b) d = Some e" "be_state e = BreakerHalfOpen"
    using half by (auto simp: StateOf_def split: option.splits)
  then have p: "be_probeInFlight e" using breaker_inv_lookup [OF inv] by (auto simp: entry_inv_def)
  from half_open_stays [OF e p quiet] e p show ?thesis by (simp add: BreakerAllow_def StateOf_def)
qed

text \<open>A breaker whose only destination is half open, its probe outstanding.\<close>

definition halfOpenBreaker :: Breaker where
  "halfOpenBreaker = (NewBreaker 2 (30 * second) (5 * minute))\<lparr>brk_state :=
     [(''d'', \<lparr>be_state = BreakerHalfOpen, be_consecutive = 2, be_openedAt = 7, be_nextProbeAt = 7,
        be_cooldown = 30 * second, be_probeInFlight = True, be_lastError = [], be_trips = 1\<rparr>)]\<rparr>"

lemma halfOpenBreaker_inv: "breaker_inv 2 30000000000 300000000000 halfOpenBreaker"
  by (simp add: breaker_inv_def halfOpenBreaker_def NewBreaker_def entry_inv_def second_def minute_def)

theorem HalfOpen_waits_for_outcome_witness:
  "snd (BreakerAllow (foldl breaker_step halfOpenBreaker [OpAllow 9 ''d'', OpSucceeded ''x'']) 99 ''d'')
     = Some ProbeInFlight"
proof -
  have "StateOf halfOpenBreaker ''d'' = BreakerHalfOpen" by (simp add: StateOf_def halfOpenBreaker_def)
  from HalfOpen_waits_for_outcome [OF halfOpenBreaker_inv this,
      of "[OpAllow 9 ''d'', OpSucceeded ''x'']" 99] show ?thesis by simp
qed

definition probe_ready :: "Breaker \<Rightarrow> string \<Rightarrow> instant \<Rightarrow> bool" where
  "probe_ready b d t \<longleftrightarrow> (\<exists>e. map_of (brk_state b) d = Some e \<and> be_state e = BreakerOpen \<and> be_nextProbeAt e \<le> t)"

text \<open>
  What \<open>BreakerAllow\<close> answers, in every reachable state: a closed destination is always admitted and the
  breaker is left alone; an open one is refused before its probe time, and at or after it exactly one
  probe is admitted, which turns it half open; so of two attempts with no outcome between them at most
  one passes a breaker that is not closed.
\<close>

theorem BreakerAllow_spec:
  assumes inv: "breaker_inv th cd mx b"
  shows "(snd (BreakerAllow b t d) = None \<longleftrightarrow> StateOf b d = BreakerClosed \<or> probe_ready b d t)
       \<and> (StateOf b d = BreakerClosed \<longrightarrow> fst (BreakerAllow b t d) = b)
       \<and> (probe_ready b d t \<longrightarrow> StateOf (fst (BreakerAllow b t d)) d = BreakerHalfOpen
            \<and> snd (BreakerAllow (fst (BreakerAllow b t d)) t' d) = Some ProbeInFlight)"
proof (cases "map_of (brk_state b) d")
  case None
  then show ?thesis by (simp add: BreakerAllow_def StateOf_def probe_ready_def)
next
  case (Some e)
  then have "entry_inv b e" by (rule breaker_inv_lookup [OF inv])
  then have p: "be_probeInFlight e \<longleftrightarrow> be_state e = BreakerHalfOpen" by (simp add: entry_inv_def)
  show ?thesis
    using Some p by (cases "be_state e") (auto simp: BreakerAllow_def StateOf_def probe_ready_def)
qed

theorem BreakerAllow_spec_witness:
  "snd (BreakerAllow halfOpenBreaker 99 ''other'') = None
 \<and> snd (BreakerAllow halfOpenBreaker 99 ''d'') \<noteq> None"
  using BreakerAllow_spec [OF halfOpenBreaker_inv, of 99 "''other''" 0]
    BreakerAllow_spec [OF halfOpenBreaker_inv, of 99 "''d''" 0]
  by (simp add: StateOf_def probe_ready_def halfOpenBreaker_def)

end
