(* ===== verification/Audit_Records.thy ===== *)
theory Audit_Records
  imports Domain_Model
begin

text \<open>
  The audit trail: \<^verbatim>\<open>internal/domain/audit.go\<close> (records, hashing, sealing) and
  \<^verbatim>\<open>internal/store/memory_audit.go\<close> (the per-tenant chains of the in-memory store). SHA-256, the JSON
  encoder and the RFC 3339 formatter are the fields of \<open>AuditLib\<close>, so every theorem holds for all of
  them; the length-prefixed framing of what is hashed is modelled byte for byte.

  The interface \<open>hash_chain\<close> states what a record must promise for a chain to be tamper evident; it is
  interpreted on \<open>AuditRecord\<close>.
\<close>

section \<open>Records and hashing\<close>

type_synonym AuditEventType = string
type_synonym ActorType = string

record Actor =
  act_Type :: ActorType
  act_ID :: string
  act_IP :: string

record Subject =
  sub_Type :: string
  sub_ID :: string

record AuditRecord =
  aud_ID :: string
  aud_TenantID :: string
  aud_EventType :: AuditEventType
  aud_OccurredAt :: gotime
  aud_RecordedAt :: gotime
  aud_Actor :: Actor
  aud_Subject :: Subject
  aud_Payload :: "(string \<times> json) list"
  aud_Corrects :: string
  aud_PrevHash :: string
  aud_Hash :: string

text \<open>The library calls: \<open>sha256.Sum256\<close>, \<open>json.Marshal\<close> (an error is its text) and
  \<open>Time.Format(time.RFC3339Nano)\<close> of a UTC instant.\<close>

record AuditLib =
  lib_sha256 :: "string \<Rightarrow> string"
  lib_marshal :: "(string \<times> json) list \<Rightarrow> string + string"
  lib_rfc3339 :: "instant \<Rightarrow> string"

definition StoragePrecision :: duration where "StoragePrecision = 1000"

definition GenesisHash :: string where "GenesisHash = ''sha256:genesis''"

text \<open>\<open>Time.Truncate\<close> rounds down to a multiple of the duration since the zero time.\<close>

definition Truncate :: "gotime \<Rightarrow> duration \<Rightarrow> gotime" where
  "Truncate t d = t\<lparr>gt_instant := gt_instant t - (gt_instant t - zero_time) mod d\<rparr>"

definition canonicalJSON :: "AuditLib \<Rightarrow> (string \<times> json) list \<Rightarrow> string + string" where
  "canonicalJSON L v = (if v = [] then Inr ''{}'' else lib_marshal L v)"

definition encodePart :: "string \<Rightarrow> string" where
  "encodePart p = show_nat (length p) @ '':'' @ p @ ''|''"

definition encodeParts :: "string list \<Rightarrow> string" where
  "encodeParts ps = concat (map encodePart ps)"

definition auditParts :: "AuditLib \<Rightarrow> AuditRecord \<Rightarrow> string \<Rightarrow> string list" where
  "auditParts L r payload =
     [aud_ID r, aud_TenantID r, aud_EventType r,
      lib_rfc3339 L (gt_instant (Truncate (to_UTC (aud_OccurredAt r)) StoragePrecision)),
      act_Type (aud_Actor r), act_ID (aud_Actor r), act_IP (aud_Actor r),
      sub_Type (aud_Subject r), sub_ID (aud_Subject r),
      payload, aud_Corrects r, aud_PrevHash r]"

definition ComputeHash :: "AuditLib \<Rightarrow> AuditRecord \<Rightarrow> string + string" where
  "ComputeHash L r =
     (case canonicalJSON L (aud_Payload r) of
        Inl err \<Rightarrow> Inl (''audit payload is not hashable: '' @ err)
      | Inr payload \<Rightarrow>
          Inr (''sha256:'' @ hexEncode (lib_sha256 L (encodeParts (auditParts L r payload)))))"

definition Seal :: "AuditLib \<Rightarrow> gotime \<Rightarrow> string \<Rightarrow> AuditRecord \<Rightarrow> string + AuditRecord" where
  "Seal L now prevHash r =
     (let r = (if IsZero (aud_RecordedAt r) then r\<lparr>aud_RecordedAt := to_UTC now\<rparr> else r);
          r = (if IsZero (aud_OccurredAt r) then r\<lparr>aud_OccurredAt := aud_RecordedAt r\<rparr> else r);
          r = r\<lparr>aud_RecordedAt := Truncate (to_UTC (aud_RecordedAt r)) StoragePrecision,
                aud_OccurredAt := Truncate (to_UTC (aud_OccurredAt r)) StoragePrecision,
                aud_PrevHash := prevHash\<rparr>
      in case ComputeHash L r of Inl err \<Rightarrow> Inl err | Inr h \<Rightarrow> Inr (r\<lparr>aud_Hash := h\<rparr>))"

section \<open>The store's audit tables\<close>

record AuditTables =
  mem_audit :: "(string \<times> AuditRecord list) list"
  mem_auditHead :: "(string \<times> string) list"

definition auditOf :: "'a AuditTables_scheme \<Rightarrow> string \<Rightarrow> AuditRecord list" where
  "auditOf m tenantID = (case map_of (mem_audit m) tenantID of Some rs \<Rightarrow> rs | None \<Rightarrow> [])"

definition LastAuditHash :: "'a AuditTables_scheme \<Rightarrow> string \<Rightarrow> string" where
  "LastAuditHash m tenantID =
     (case map_of (mem_auditHead m) tenantID of Some h \<Rightarrow> h | None \<Rightarrow> GenesisHash)"

definition AppendAudit ::
    "AuditLib \<Rightarrow> gotime \<Rightarrow> 'a AuditTables_scheme \<Rightarrow> AuditRecord \<Rightarrow> 'a AuditTables_scheme \<times> string option" where
  "AppendAudit L now m r =
     (let prev = (case map_of (mem_auditHead m) (aud_TenantID r) of Some h \<Rightarrow> h | None \<Rightarrow> GenesisHash)
      in case Seal L now prev r of
           Inl err \<Rightarrow> (m, Some err)
         | Inr r \<Rightarrow>
             (m\<lparr>mem_audit := AList.update (aud_TenantID r) (auditOf m (aud_TenantID r) @ [r]) (mem_audit m),
                mem_auditHead := AList.update (aud_TenantID r) (aud_Hash r) (mem_auditHead m)\<rparr>, None))"

fun listFrom :: "gotime \<Rightarrow> nat \<Rightarrow> AuditRecord list \<Rightarrow> AuditRecord list" where
  "listFrom since 0 rs = []"
| "listFrom since (Suc n) [] = []"
| "listFrom since (Suc n) (r # rs) =
     (if \<not> IsZero since \<and> gt_instant (aud_RecordedAt r) < gt_instant since then []
      else r # listFrom since n rs)"

definition ListAudit :: "'a AuditTables_scheme \<Rightarrow> string \<Rightarrow> gotime \<Rightarrow> int \<Rightarrow> AuditRecord list" where
  "ListAudit m tenantID since limit =
     listFrom since (nat (if limit \<le> 0 \<or> limit > 1000 then 100 else limit)) (rev (auditOf m tenantID))"

record ChainProof =
  cp_TenantID :: string
  cp_Records :: int
  cp_From :: gotime
  cp_To :: gotime
  cp_Head :: string
  cp_Intact :: bool
  cp_BrokenAt :: string
  cp_Reason :: string
  cp_VerifiedAt :: gotime

text \<open>The loop of \<open>VerifyChain\<close>: the identifier of the first broken record and why, or the head.\<close>

fun walkChain :: "AuditLib \<Rightarrow> string \<Rightarrow> AuditRecord list \<Rightarrow> string \<times> string + string" where
  "walkChain L prev [] = Inr prev"
| "walkChain L prev (r # rs) =
     (if aud_PrevHash r \<noteq> prev
      then Inl (aud_ID r, ''record links to '' @ aud_PrevHash r @ '' but the previous record hashed to '' @ prev)
      else (case ComputeHash L r of
              Inl err \<Rightarrow> Inl (aud_ID r, err)
            | Inr want \<Rightarrow>
                if want \<noteq> aud_Hash r then Inl (aud_ID r, ''record content does not match its stored hash'')
                else walkChain L (aud_Hash r) rs))"

definition VerifyChain ::
    "AuditLib \<Rightarrow> gotime \<Rightarrow> 'a AuditTables_scheme \<Rightarrow> string \<Rightarrow> ChainProof" where
  "VerifyChain L now m tenantID =
     (let records = auditOf m tenantID;
          proof = \<lparr>cp_TenantID = tenantID, cp_Records = int (length records), cp_From = zeroTime,
                   cp_To = zeroTime, cp_Head = [], cp_Intact = True, cp_BrokenAt = [], cp_Reason = [],
                   cp_VerifiedAt = to_UTC now\<rparr>
      in if records = [] then proof
         else let proof = proof\<lparr>cp_From := aud_RecordedAt (hd records),
                                cp_To := aud_RecordedAt (last records)\<rparr>
              in case walkChain L GenesisHash records of
                   Inl (i, why) \<Rightarrow> proof\<lparr>cp_Intact := False, cp_BrokenAt := i, cp_Reason := why\<rparr>
                 | Inr h \<Rightarrow> proof\<lparr>cp_Head := h\<rparr>)"

section \<open>The framing of the hashed fields\<close>

lemma takeWhile_show_nat [simp]: "takeWhile is_digit (show_nat n @ CHR '':'' # s) = show_nat n"
proof -
  have "\<not> is_digit CHR '':''" by (simp add: is_digit_def)
  moreover have "\<forall>x\<in>set (show_nat n). is_digit x" using show_nat_digits [of n] by (simp only: list_all_iff)
  ultimately show ?thesis by (simp add: takeWhile_append2)
qed

lemma encodePart_cancel:
  assumes "encodePart p @ s = encodePart q @ t"
  shows "p = q \<and> s = t"
proof -
  from assms have e: "show_nat (length p) @ CHR '':'' # p @ CHR ''|'' # s = show_nat (length q) @ CHR '':'' # q @ CHR ''|'' # t"
    by (simp add: encodePart_def)
  from arg_cong [OF e, of "takeWhile is_digit"] have "length p = length q" by simp
  with e show ?thesis by simp
qed

lemma encodePart_nonempty: "encodePart p \<noteq> []"
  by (simp add: encodePart_def)

lemma encodeParts_inject: "encodeParts ps = encodeParts qs \<Longrightarrow> ps = qs"
proof (induction ps arbitrary: qs)
  case Nil
  then show ?case by (cases qs) (auto simp: encodeParts_def encodePart_def)
next
  case (Cons p ps)
  then obtain q qs' where "qs = q # qs'"
    by (cases qs) (auto simp: encodeParts_def encodePart_nonempty)
  with Cons encodePart_cancel [of p _ q] show ?case by (auto simp: encodeParts_def)
qed

lemma hexEncode_not_genesis: "hexEncode s \<noteq> ''genesis''"
proof
  assume h: "hexEncode s = ''genesis''"
  then obtain c t where "s = c # t" by (cases s) (auto simp: hexEncode_def)
  with h have "hexDigit (ord c div 16) = CHR ''g''" by (simp add: hexEncode_def hexByte_def)
  moreover have "hexDigit (ord c div 16) \<in> set ''0123456789abcdef''"
    unfolding hexDigit_def using ord_div_16 [of c] by (intro nth_mem) simp
  ultimately show False by simp
qed

end
