(* ===== verification/Audit_Chain.thy ===== *)
theory Audit_Chain
  imports Audit_Records
begin

text \<open>
  What the audit trail promises. \<open>hash_chain\<close> is the interface between records and the walk: a record
  names its predecessor's hash, carries its own, and its hash can be recomputed. The interpretation on
  \<open>AuditRecord\<close> discharges the laws from the injective framing of \<^theory_text>\<open>Audit_Records\<close>; no assumption is made on
  the hash function, a clash of two preimages is one of the outcomes.
\<close>

section \<open>Hash chains\<close>

fun chained :: "('r \<Rightarrow> 'h) \<Rightarrow> ('r \<Rightarrow> 'h) \<Rightarrow> ('r \<Rightarrow> 'e + 'h) \<Rightarrow> 'h \<Rightarrow> 'r list \<Rightarrow> bool" where
  "chained prev_of hash_of compute p [] = True"
| "chained prev_of hash_of compute p (r # rs) =
     (prev_of r = p \<and> compute r = Inr (hash_of r) \<and> chained prev_of hash_of compute (hash_of r) rs)"

fun headFrom :: "('r \<Rightarrow> 'h) \<Rightarrow> 'h \<Rightarrow> 'r list \<Rightarrow> 'h" where
  "headFrom hash_of p [] = p"
| "headFrom hash_of p (r # rs) = headFrom hash_of (hash_of r) rs"

lemma headFrom_snoc [simp]: "headFrom hash_of p (rs @ [r]) = hash_of r"
  by (induction rs arbitrary: p) auto

lemma chained_snoc [simp]:
  "chained prev_of hash_of compute p (rs @ [r]) \<longleftrightarrow>
     chained prev_of hash_of compute p rs \<and> prev_of r = headFrom hash_of p rs \<and> compute r = Inr (hash_of r)"
  by (induction rs arbitrary: p) auto

locale hash_chain =
  fixes prev_of :: "'r \<Rightarrow> 'h" and hash_of :: "'r \<Rightarrow> 'h" and compute :: "'r \<Rightarrow> 'e + 'h"
    and genesis :: 'h and content :: "'r \<Rightarrow> 'c" and collide :: "'r \<Rightarrow> 'r \<Rightarrow> bool"
  assumes compute_content:
      "compute r = Inr h \<Longrightarrow> compute s = Inr h \<Longrightarrow> content r = content s \<or> collide r s"
    and content_prev: "content r = content s \<Longrightarrow> prev_of r = prev_of s"
    and not_genesis: "compute r \<noteq> Inr genesis"
begin

lemma headFrom_genesis:
  assumes "chained prev_of hash_of compute genesis rs" and "headFrom hash_of genesis rs = genesis"
  shows "rs = []"
proof (cases rs rule: rev_cases)
  case (snoc ss s)
  with assms not_genesis [of s] show ?thesis by simp
qed simp

text \<open>Two chains with one head hold the same content, or two of their records collide.\<close>

lemma same_head_same_content:
  "chained prev_of hash_of compute genesis rs \<Longrightarrow> chained prev_of hash_of compute genesis ss \<Longrightarrow>
   headFrom hash_of genesis rs = headFrom hash_of genesis ss \<Longrightarrow>
   map content rs = map content ss \<or> (\<exists>r\<in>set rs. \<exists>s\<in>set ss. collide r s)"
proof (induction rs arbitrary: ss rule: rev_induct)
  case Nil
  then have "ss = []" by (intro headFrom_genesis) auto
  then show ?case by simp
next
  case (snoc r rs)
  show ?case
  proof (cases ss rule: rev_cases)
    case Nil
    with snoc.prems headFrom_genesis [of "rs @ [r]"] show ?thesis by simp
  next
    case (snoc ts t)
    note ss = this
    with snoc.prems have "compute r = Inr (hash_of t)" "compute t = Inr (hash_of t)" by auto
    then consider "content r = content t" | "collide r t" by (blast dest: compute_content)
    then show ?thesis
    proof cases
      case 1
      then have "prev_of r = prev_of t" by (rule content_prev)
      with snoc.IH [of ts] snoc.prems ss 1 show ?thesis by auto
    qed (use ss in auto)
  qed
qed

end

section \<open>The chain of audit records\<close>

text \<open>The twelve fields the hash covers, and the collision that would let two of them share a hash.\<close>

definition hashedFields :: "AuditLib \<Rightarrow> AuditRecord \<Rightarrow> string list" where
  "hashedFields L r =
     auditParts L r (case canonicalJSON L (aud_Payload r) of Inl _ \<Rightarrow> [] | Inr p \<Rightarrow> p)"

definition shaCollision :: "AuditLib \<Rightarrow> AuditRecord \<Rightarrow> AuditRecord \<Rightarrow> bool" where
  "shaCollision L r s \<longleftrightarrow>
     encodeParts (hashedFields L r) \<noteq> encodeParts (hashedFields L s)
   \<and> lib_sha256 L (encodeParts (hashedFields L r)) = lib_sha256 L (encodeParts (hashedFields L s))"

lemma ComputeHash_Inr:
  "ComputeHash L r = Inr h \<Longrightarrow> h = ''sha256:'' @ hexEncode (lib_sha256 L (encodeParts (hashedFields L r)))"
  by (auto simp: ComputeHash_def hashedFields_def split: sum.splits)

interpretation aud: hash_chain aud_PrevHash aud_Hash "ComputeHash L" GenesisHash "hashedFields L" "shaCollision L"
  for L
proof
  fix r s h
  assume "ComputeHash L r = Inr h" "ComputeHash L s = Inr h"
  then have "lib_sha256 L (encodeParts (hashedFields L r)) = lib_sha256 L (encodeParts (hashedFields L s))"
    by (metis ComputeHash_Inr hexEncode_inject same_append_eq)
  then show "hashedFields L r = hashedFields L s \<or> shaCollision L r s"
    using encodeParts_inject by (auto simp: shaCollision_def)
next
  fix r s assume "hashedFields L r = hashedFields L s"
  then show "aud_PrevHash r = aud_PrevHash s" by (simp add: hashedFields_def auditParts_def)
next
  fix r show "ComputeHash L r \<noteq> Inr GenesisHash"
    by (auto simp: GenesisHash_def hexEncode_not_genesis [symmetric] dest!: ComputeHash_Inr)
qed

abbreviation auditChain :: "AuditLib \<Rightarrow> AuditRecord list \<Rightarrow> bool" where
  "auditChain L rs \<equiv> chained aud_PrevHash aud_Hash (ComputeHash L) GenesisHash rs"

abbreviation auditHead :: "AuditRecord list \<Rightarrow> string" where
  "auditHead rs \<equiv> headFrom aud_Hash GenesisHash rs"

lemma walkChain_iff:
  "walkChain L p rs = Inr h \<longleftrightarrow>
     chained aud_PrevHash aud_Hash (ComputeHash L) p rs \<and> h = headFrom aud_Hash p rs"
  by (induction L p rs rule: walkChain.induct) (auto split: sum.splits)

lemma VerifyChain_Intact: "cp_Intact (VerifyChain L now m t) \<longleftrightarrow> auditChain L (auditOf m t)"
proof (cases "walkChain L GenesisHash (auditOf m t)")
  case (Inl x)
  with walkChain_iff [of L GenesisHash "auditOf m t"] show ?thesis
    by (cases x) (auto simp: VerifyChain_def Let_def)
next
  case (Inr h)
  with walkChain_iff [of L GenesisHash "auditOf m t" h] show ?thesis
    by (auto simp: VerifyChain_def Let_def)
qed

lemma VerifyChain_Head:
  assumes "cp_Intact (VerifyChain L now m t)"
  shows "cp_Head (VerifyChain L now m t) = (if auditOf m t = [] then [] else auditHead (auditOf m t))"
proof -
  have "walkChain L GenesisHash (auditOf m t) = Inr (auditHead (auditOf m t))"
    using assms by (simp add: walkChain_iff VerifyChain_Intact)
  then show ?thesis by (simp add: VerifyChain_def Let_def)
qed

lemma VerifyChain_Records [simp]: "cp_Records (VerifyChain L now m t) = int (length (auditOf m t))"
  by (auto simp: VerifyChain_def Let_def split: sum.splits)

subsection \<open>Appending\<close>

definition audit_inv :: "AuditLib \<Rightarrow> 'a AuditTables_scheme \<Rightarrow> bool" where
  "audit_inv L m \<longleftrightarrow>
     (\<forall>t. auditChain L (auditOf m t) \<and> LastAuditHash m t = auditHead (auditOf m t)
        \<and> (\<forall>r\<in>set (auditOf m t). aud_TenantID r = t))"

lemma Seal_Inr:
  assumes "Seal L now p r = Inr r'"
  shows "aud_PrevHash r' = p \<and> ComputeHash L r' = Inr (aud_Hash r') \<and> aud_TenantID r' = aud_TenantID r
       \<and> aud_ID r' = aud_ID r"
proof -
  have hash_upd: "ComputeHash L (q\<lparr>aud_Hash := h\<rparr>) = ComputeHash L q" for q h
    by (simp add: ComputeHash_def auditParts_def split: sum.splits)
  show ?thesis
    using assms by (auto simp: Seal_def Let_def hash_upd split: sum.splits if_splits)
qed

lemma Seal_Inl: "Seal L now p r = Inl err \<Longrightarrow> aud_Payload r \<noteq> []"
  by (auto simp: Seal_def Let_def ComputeHash_def canonicalJSON_def split: sum.splits if_splits)

lemma AppendAudit_cases:
  obtains (refused) err where "AppendAudit L now m r = (m, Some err)"
  | (appended) r' m' where "AppendAudit L now m r = (m', None)"
      "Seal L now (LastAuditHash m (aud_TenantID r)) r = Inr r'"
      "\<And>t. auditOf m' t = (if t = aud_TenantID r then auditOf m t @ [r'] else auditOf m t)"
      "\<And>t. LastAuditHash m' t = (if t = aud_TenantID r then aud_Hash r' else LastAuditHash m t)"
proof (cases "Seal L now (LastAuditHash m (aud_TenantID r)) r")
  case (Inl err)
  then show ?thesis by (intro refused) (simp add: AppendAudit_def LastAuditHash_def)
next
  case (Inr r')
  have "aud_TenantID r' = aud_TenantID r" using Seal_Inr [OF Inr] by blast
  then show ?thesis
    using Inr by (intro appended [OF _ Inr])
      (auto simp: AppendAudit_def LastAuditHash_def auditOf_def split: option.splits)
qed

interpretation auditing: machine "\<lambda>m (now, r). fst (AppendAudit L now m r)" "\<lambda>_ _. True" "audit_inv L" for L
proof
  fix m :: "'a AuditTables_scheme" and x :: "gotime \<times> AuditRecord"
  assume inv: "audit_inv L m"
  obtain now r where x: "x = (now, r)" by (cases x)
  show "audit_inv L (case x of (now, r) \<Rightarrow> fst (AppendAudit L now m r))"
  proof (rule AppendAudit_cases [of L now m r])
    fix err assume "AppendAudit L now m r = (m, Some err)"
    with inv x show ?thesis by simp
  next
    fix r' m'
    assume "AppendAudit L now m r = (m', None)"
      "Seal L now (LastAuditHash m (aud_TenantID r)) r = Inr r'"
      "\<And>t. auditOf m' t = (if t = aud_TenantID r then auditOf m t @ [r'] else auditOf m t)"
      "\<And>t. LastAuditHash m' t = (if t = aud_TenantID r then aud_Hash r' else LastAuditHash m t)"
    with inv x Seal_Inr show ?thesis by (fastforce simp: audit_inv_def)
  qed
qed

section \<open>Properties\<close>

definition noTables :: AuditTables where
  "noTables = \<lparr>mem_audit = [], mem_auditHead = []\<rparr>"

lemma noTables_inv: "audit_inv L noTables"
  by (simp add: audit_inv_def noTables_def auditOf_def LastAuditHash_def)

definition appendAll :: "AuditLib \<Rightarrow> (gotime \<times> AuditRecord) list \<Rightarrow> AuditTables" where
  "appendAll L xs = foldl (\<lambda>m (now, r). fst (AppendAudit L now m r)) noTables xs"

lemma appendAll_inv: "audit_inv L (appendAll L xs)"
  unfolding appendAll_def by (rule auditing.run_inv [OF noTables_inv]) (simp add: legal_always)

lemma appendAll_snoc: "appendAll L (xs @ [(now, r)]) = fst (AppendAudit L now (appendAll L xs) r)"
  by (simp add: appendAll_def)

lemma appendAll_prefix: "\<exists>rs. auditOf (appendAll L (xs @ ys)) t = auditOf (appendAll L xs) t @ rs"
proof (induction ys rule: rev_induct)
  case (snoc y ys)
  obtain now r where y: "y = (now, r)" by (cases y)
  have *: "appendAll L (xs @ ys @ [y]) = fst (AppendAudit L now (appendAll L (xs @ ys)) r)"
    using appendAll_snoc [of L "xs @ ys"] y by simp
  show ?case
    by (rule AppendAudit_cases [of L now "appendAll L (xs @ ys)" r]) (use snoc * in auto)
qed simp

text \<open>
  C20: The audit chain is intact by construction and append-only: after any history of appends by any
  tenants, failed ones included, the walk of every tenant's chain reports it intact with the number of
  records held and the head the next append will link to, and no later append changes or removes a
  record already there.
\<close>

theorem AppendAudit_intact:
  "cp_Intact (VerifyChain L now (appendAll L xs) t)
 \<and> cp_Records (VerifyChain L now (appendAll L xs) t) = int (length (auditOf (appendAll L xs) t))
 \<and> (auditOf (appendAll L xs) t \<noteq> [] \<longrightarrow>
      cp_Head (VerifyChain L now (appendAll L xs) t) = LastAuditHash (appendAll L xs) t)
 \<and> (\<exists>rs. auditOf (appendAll L (xs @ ys)) t = auditOf (appendAll L xs) t @ rs)"
proof -
  have c: "auditChain L (auditOf (appendAll L xs) t)"
    and h: "LastAuditHash (appendAll L xs) t = auditHead (auditOf (appendAll L xs) t)"
    using appendAll_inv [of L xs] by (auto simp: audit_inv_def)
  then have i: "cp_Intact (VerifyChain L now (appendAll L xs) t)" by (simp add: VerifyChain_Intact)
  with VerifyChain_Head [OF i] h appendAll_prefix [of L xs ys t] show ?thesis by simp
qed

definition plainLib :: AuditLib where
  "plainLib = \<lparr>lib_sha256 = (\<lambda>s. s), lib_marshal = (\<lambda>_. Inr ''{..}''), lib_rfc3339 = FormatInt\<rparr>"

definition sampleRecord :: AuditRecord where
  "sampleRecord = \<lparr>aud_ID = ''aud_1'', aud_TenantID = ''tnt_1'', aud_EventType = ''event.received'',
     aud_OccurredAt = zeroTime, aud_RecordedAt = zeroTime,
     aud_Actor = \<lparr>act_Type = ''system'', act_ID = [], act_IP = []\<rparr>,
     aud_Subject = \<lparr>sub_Type = ''raw_event'', sub_ID = ''sh_raw_1''\<rparr>, aud_Payload = [],
     aud_Corrects = [], aud_PrevHash = [], aud_Hash = []\<rparr>"

definition sampleNow :: gotime where
  "sampleNow = \<lparr>gt_instant = 5000, gt_zone = UTC\<rparr>"

definition sampleTables :: AuditTables where
  "sampleTables = appendAll plainLib [(sampleNow, sampleRecord)]"

lemma sampleTables_records: "length (auditOf sampleTables ''tnt_1'') = 1"
proof -
  have "aud_Payload sampleRecord = []" "aud_TenantID sampleRecord = ''tnt_1''"
    by (simp_all add: sampleRecord_def)
  moreover have "auditOf noTables t = []" for t by (simp add: noTables_def auditOf_def)
  ultimately show ?thesis
    by (rule_tac AppendAudit_cases [of plainLib sampleNow noTables sampleRecord])
       (auto simp: sampleTables_def appendAll_def AppendAudit_def split: sum.splits dest: Seal_Inl)
qed

theorem AppendAudit_intact_witness:
  "cp_Intact (VerifyChain plainLib sampleNow sampleTables ''tnt_1'')
 \<and> cp_Head (VerifyChain plainLib sampleNow sampleTables ''tnt_1'') = LastAuditHash sampleTables ''tnt_1''"
  using AppendAudit_intact [of plainLib sampleNow "[(sampleNow, sampleRecord)]" "''tnt_1''" "[]"]
    sampleTables_records by (auto simp: sampleTables_def [symmetric])

text \<open>
  The chain is tamper evident. Take any two contents of a tenant's audit table, however they came
  about, that both verify and end in the same head hash, such as the table as it was when its head was
  published and the table as it is now. Then every hashed field of every record is the same in both,
  in number and in order, or two records are exhibited whose encodings differ and have the same SHA-256.
\<close>

theorem VerifyChain_tamper_evident:
  assumes "cp_Intact (VerifyChain L now m t)" and "cp_Intact (VerifyChain L now' m' t')"
    and "cp_Head (VerifyChain L now m t) = cp_Head (VerifyChain L now' m' t')"
  shows "map (hashedFields L) (auditOf m t) = map (hashedFields L) (auditOf m' t')
       \<or> (\<exists>r\<in>set (auditOf m t). \<exists>s\<in>set (auditOf m' t'). shaCollision L r s)"
proof -
  have ne: "auditHead rs \<noteq> []" if "auditChain L rs" for rs
  proof (cases rs rule: rev_cases)
    case (snoc ss s)
    with that ComputeHash_Inr [of L s] show ?thesis by auto
  qed (simp add: GenesisHash_def)
  have c: "auditChain L (auditOf m t)" "auditChain L (auditOf m' t')"
    using assms VerifyChain_Intact by blast+
  then have "auditHead (auditOf m t) = auditHead (auditOf m' t')"
    using assms(3) VerifyChain_Head [OF assms(1)] VerifyChain_Head [OF assms(2)] ne [OF c(1)] ne [OF c(2)]
    by (simp split: if_splits)
  from aud.same_head_same_content [OF c this] show ?thesis .
qed

theorem VerifyChain_tamper_evident_witness:
  "map (hashedFields plainLib) (auditOf sampleTables ''tnt_1'') =
     map (hashedFields plainLib) (auditOf sampleTables ''tnt_1'')
 \<or> (\<exists>r\<in>set (auditOf sampleTables ''tnt_1''). \<exists>s\<in>set (auditOf sampleTables ''tnt_1''). shaCollision plainLib r s)"
proof (rule VerifyChain_tamper_evident)
  show "cp_Intact (VerifyChain plainLib sampleNow sampleTables ''tnt_1'')"
    using appendAll_inv [of plainLib] by (simp add: VerifyChain_Intact sampleTables_def audit_inv_def)
  then show "cp_Intact (VerifyChain plainLib sampleNow sampleTables ''tnt_1'')" .
qed simp

text \<open>
  The recording time is outside the hash. Whatever recording times are written into a tenant's
  stored records, the walk gives the same verdict, the same head and the same first break: the field
  that orders \<open>ListAudit\<close> and dates the proof can be altered without invalidating anything.
\<close>

theorem RecordedAt_not_covered:
  assumes "auditOf m' t = map (\<lambda>r. r\<lparr>aud_RecordedAt := f r\<rparr>) (auditOf m t)"
  shows "cp_Intact (VerifyChain L now m' t) = cp_Intact (VerifyChain L now m t)
       \<and> cp_Head (VerifyChain L now m' t) = cp_Head (VerifyChain L now m t)
       \<and> cp_BrokenAt (VerifyChain L now m' t) = cp_BrokenAt (VerifyChain L now m t)"
proof -
  have h: "ComputeHash L (r\<lparr>aud_RecordedAt := u\<rparr>) = ComputeHash L r" for r u
    by (simp add: ComputeHash_def auditParts_def split: sum.splits)
  have "walkChain L p (map (\<lambda>r. r\<lparr>aud_RecordedAt := f r\<rparr>) rs) = walkChain L p rs" for p rs
    by (induction rs arbitrary: p) (simp_all add: h split: sum.splits)
  then show ?thesis
    using assms by (auto simp: VerifyChain_def Let_def split: sum.splits)
qed

theorem RecordedAt_not_covered_witness:
  "cp_Intact (VerifyChain plainLib sampleNow
     (sampleTables\<lparr>mem_audit := [(''tnt_1'',
        map (\<lambda>r. r\<lparr>aud_RecordedAt := \<lparr>gt_instant = 9, gt_zone = UTC\<rparr>\<rparr>) (auditOf sampleTables ''tnt_1''))]\<rparr>) ''tnt_1'')"
    (is "cp_Intact (VerifyChain _ _ ?m _)")
proof -
  have "auditOf ?m ''tnt_1'' =
      map (\<lambda>r. r\<lparr>aud_RecordedAt := (\<lambda>_. \<lparr>gt_instant = 9, gt_zone = UTC\<rparr>) r\<rparr>) (auditOf sampleTables ''tnt_1'')"
    by (simp add: auditOf_def)
  from RecordedAt_not_covered [OF this, of plainLib sampleNow] show ?thesis
    using appendAll_inv [of plainLib] by (simp add: VerifyChain_Intact sampleTables_def audit_inv_def)
qed

end
