(* ===== verification/Store.thy ===== *)
theory Store
  imports Audit_Records "HOL-Library.List_Lexorder" "HOL-Library.Char_ord" "HOL-Library.Product_Lexorder"
begin

text \<open>
  The in-memory store: \<^verbatim>\<open>internal/store/memory.go\<close> and the query types and errors of
  \<^verbatim>\<open>internal/store/store.go\<close>. Every operation holds the store's lock for its whole body, so an operation
  is a function on \<open>Memory\<close>. A Go map is an association list with distinct keys; the order of the list
  stands for the order in which the runtime happens to iterate. The audit tables are those of
  \<^theory_text>\<open>Audit_Records\<close>, extended here; the delivery queue's operations are in \<open>Delivery_Queue\<close>. What the store promises is in
  \<open>Store_Spec\<close>.
\<close>

section \<open>State\<close>

text \<open>\<open>ErrDuplicate\<close> is wrapped with what is already held.\<close>

datatype store_error = StoreNotFound | StoreDuplicate string

record Memory = AuditTables +
  mem_tenants :: "(string \<times> Tenant) list"
  mem_tenantBySlug :: "(string \<times> string) list"
  mem_endpoints :: "(string \<times> Endpoint) list"
  mem_destinations :: "(string \<times> Destination) list"
  mem_rawEvents :: "(string \<times> RawEvent) list"
  mem_rawOrder :: "string list"
  mem_normalised :: "(string \<times> string) list"
  mem_failures :: "(string \<times> string) list"
  mem_events :: "(string \<times> CanonicalEvent) list"
  mem_eventKeys :: "(string \<times> string) list"
  mem_eventList :: "string list"
  mem_deliveries :: "(int \<times> Delivery) list"
  mem_deliveryIDs :: int
  mem_sequences :: "(string \<times> int) list"
  mem_leases :: "(int \<times> instant) list"

definition NewMemory :: Memory where
  "NewMemory = \<lparr>mem_audit = [], mem_auditHead = [], mem_tenants = [], mem_tenantBySlug = [],
     mem_endpoints = [], mem_destinations = [], mem_rawEvents = [], mem_rawOrder = [],
     mem_normalised = [], mem_failures = [], mem_events = [], mem_eventKeys = [], mem_eventList = [],
     mem_deliveries = [], mem_deliveryIDs = 0, mem_sequences = [], mem_leases = []\<rparr>"

text \<open>The zero values that reading a missing key of a Go map gives.\<close>

definition zeroTenant :: Tenant where
  "zeroTenant = \<lparr>ten_ID = [], ten_Slug = [], ten_Name = [], ten_CreatedAt = zero_time\<rparr>"

definition zeroRaw :: RawEvent where
  "zeroRaw = \<lparr>raw_ID = [], raw_TenantID = [], raw_EndpointID = [], raw_Provider = [], raw_Headers = [],
     raw_Body = [], raw_BodySHA256 = [], raw_Redacted = False, raw_RedactionNote = [],
     raw_SourceIP = None, raw_SignatureValid = False, raw_SignatureError = [], raw_ReceivedAt = zeroTime\<rparr>"

definition lookupOr :: "'v \<Rightarrow> ('k \<times> 'v) list \<Rightarrow> 'k \<Rightarrow> 'v" where
  "lookupOr z m k = (case map_of m k of Some v \<Rightarrow> v | None \<Rightarrow> z)"

text \<open>The loops that append to a result until a limit is reached.\<close>

fun collect :: "nat \<Rightarrow> ('a \<Rightarrow> bool) \<Rightarrow> 'a list \<Rightarrow> 'a list" where
  "collect n P [] = []"
| "collect n P (x # xs) =
     (if n = 0 then [] else if P x then x # collect (n - 1) P xs else collect n P xs)"

section \<open>Tenants\<close>

definition CreateTenant :: "Memory \<Rightarrow> Tenant \<Rightarrow> Memory \<times> store_error option" where
  "CreateTenant m t =
     (if map_of (mem_tenantBySlug m) (ten_Slug t) \<noteq> None
      then (m, Some (StoreDuplicate (ten_Slug t)))
      else (m\<lparr>mem_tenants := AList.update (ten_ID t) t (mem_tenants m),
              mem_tenantBySlug := AList.update (ten_Slug t) (ten_ID t) (mem_tenantBySlug m)\<rparr>, None))"

definition GetTenant :: "Memory \<Rightarrow> string \<Rightarrow> store_error + Tenant" where
  "GetTenant m tenantID = (case map_of (mem_tenants m) tenantID of None \<Rightarrow> Inl StoreNotFound | Some t \<Rightarrow> Inr t)"

definition GetTenantBySlug :: "Memory \<Rightarrow> string \<Rightarrow> store_error + Tenant" where
  "GetTenantBySlug m slug =
     (case map_of (mem_tenantBySlug m) slug of
        None \<Rightarrow> Inl StoreNotFound
      | Some i \<Rightarrow> Inr (lookupOr zeroTenant (mem_tenants m) i))"

definition ListTenants :: "Memory \<Rightarrow> Tenant list" where
  "ListTenants m = sort_key ten_Slug (map snd (mem_tenants m))"

section \<open>Endpoints\<close>

definition CreateEndpoint :: "Memory \<Rightarrow> Endpoint \<Rightarrow> Memory \<times> store_error option" where
  "CreateEndpoint m e =
     (if list_ex (\<lambda>existing. ep_ReceiverToken existing = ep_ReceiverToken e) (map snd (mem_endpoints m))
      then (m, Some (StoreDuplicate ''receiver token''))
      else (m\<lparr>mem_endpoints := AList.update (ep_ID e) e (mem_endpoints m)\<rparr>, None))"

definition GetEndpoint :: "Memory \<Rightarrow> string \<Rightarrow> string \<Rightarrow> store_error + Endpoint" where
  "GetEndpoint m tenantID endpointID =
     (case map_of (mem_endpoints m) endpointID of
        None \<Rightarrow> Inl StoreNotFound
      | Some e \<Rightarrow> if ep_TenantID e \<noteq> tenantID then Inl StoreNotFound else Inr e)"

definition ListEndpoints :: "Memory \<Rightarrow> string \<Rightarrow> Endpoint list" where
  "ListEndpoints m tenantID =
     sort_key ep_ID (filter (\<lambda>e. ep_TenantID e = tenantID) (map snd (mem_endpoints m)))"

definition UpdateEndpoint :: "Memory \<Rightarrow> string \<Rightarrow> Endpoint \<Rightarrow> Memory \<times> store_error option" where
  "UpdateEndpoint m tenantID e =
     (case map_of (mem_endpoints m) (ep_ID e) of
        None \<Rightarrow> (m, Some StoreNotFound)
      | Some existing \<Rightarrow>
          if ep_TenantID existing \<noteq> tenantID then (m, Some StoreNotFound)
          else (m\<lparr>mem_endpoints := AList.update (ep_ID e) (e\<lparr>ep_TenantID := tenantID\<rparr>) (mem_endpoints m)\<rparr>, None))"

definition DeleteEndpoint :: "Memory \<Rightarrow> string \<Rightarrow> string \<Rightarrow> Memory \<times> store_error option" where
  "DeleteEndpoint m tenantID endpointID =
     (case map_of (mem_endpoints m) endpointID of
        None \<Rightarrow> (m, Some StoreNotFound)
      | Some e \<Rightarrow>
          if ep_TenantID e \<noteq> tenantID then (m, Some StoreNotFound)
          else (m\<lparr>mem_endpoints := AList.delete endpointID (mem_endpoints m)\<rparr>, None))"

fun resolveLoop :: "string \<Rightarrow> string \<Rightarrow> string \<Rightarrow> string \<Rightarrow> Endpoint list \<Rightarrow> Endpoint option" where
  "resolveLoop tenantID provider env token [] = None"
| "resolveLoop tenantID provider env token (e # es) =
     (if ep_TenantID e \<noteq> tenantID \<or> ep_ReceiverToken e \<noteq> token
      then resolveLoop tenantID provider env token es
      else if ep_Provider e \<noteq> provider \<or> ep_Environment e \<noteq> env then None
      else Some e)"

definition ResolveReceiver ::
    "Memory \<Rightarrow> string \<Rightarrow> string \<Rightarrow> string \<Rightarrow> string \<Rightarrow> store_error + Endpoint \<times> Tenant" where
  "ResolveReceiver m tenantSlug provider env token =
     (case map_of (mem_tenantBySlug m) tenantSlug of
        None \<Rightarrow> Inl StoreNotFound
      | Some tenantID \<Rightarrow>
          (case resolveLoop tenantID provider env token (map snd (mem_endpoints m)) of
             None \<Rightarrow> Inl StoreNotFound
           | Some e \<Rightarrow> Inr (e, lookupOr zeroTenant (mem_tenants m) tenantID)))"

section \<open>Destinations\<close>

definition CreateDestination :: "Memory \<Rightarrow> Destination \<Rightarrow> Memory \<times> store_error option" where
  "CreateDestination m d = (m\<lparr>mem_destinations := AList.update (dst_ID d) d (mem_destinations m)\<rparr>, None)"

definition GetDestination :: "Memory \<Rightarrow> string \<Rightarrow> string \<Rightarrow> store_error + Destination" where
  "GetDestination m tenantID i =
     (case map_of (mem_destinations m) i of
        None \<Rightarrow> Inl StoreNotFound
      | Some d \<Rightarrow> if dst_TenantID d \<noteq> tenantID then Inl StoreNotFound else Inr d)"

definition ListDestinations :: "Memory \<Rightarrow> string \<Rightarrow> Destination list" where
  "ListDestinations m tenantID =
     sort_key dst_ID (filter (\<lambda>d. dst_TenantID d = tenantID) (map snd (mem_destinations m)))"

definition UpdateDestination :: "Memory \<Rightarrow> string \<Rightarrow> Destination \<Rightarrow> Memory \<times> store_error option" where
  "UpdateDestination m tenantID d =
     (case map_of (mem_destinations m) (dst_ID d) of
        None \<Rightarrow> (m, Some StoreNotFound)
      | Some existing \<Rightarrow>
          if dst_TenantID existing \<noteq> tenantID then (m, Some StoreNotFound)
          else (m\<lparr>mem_destinations :=
                   AList.update (dst_ID d) (d\<lparr>dst_TenantID := tenantID\<rparr>) (mem_destinations m)\<rparr>, None))"

definition DeleteDestination :: "Memory \<Rightarrow> string \<Rightarrow> string \<Rightarrow> Memory \<times> store_error option" where
  "DeleteDestination m tenantID i =
     (case map_of (mem_destinations m) i of
        None \<Rightarrow> (m, Some StoreNotFound)
      | Some d \<Rightarrow>
          if dst_TenantID d \<noteq> tenantID then (m, Some StoreNotFound)
          else (m\<lparr>mem_destinations := AList.delete i (mem_destinations m)\<rparr>, None))"

section \<open>Raw events\<close>

definition PutRawEvent :: "Memory \<Rightarrow> RawEvent \<Rightarrow> Memory \<times> store_error option" where
  "PutRawEvent m e =
     (if map_of (mem_rawEvents m) (raw_ID e) \<noteq> None then (m, Some (StoreDuplicate []))
      else (m\<lparr>mem_rawEvents := AList.update (raw_ID e) e (mem_rawEvents m),
              mem_rawOrder := mem_rawOrder m @ [raw_ID e]\<rparr>, None))"

definition GetRawEvent :: "Memory \<Rightarrow> string \<Rightarrow> string \<Rightarrow> store_error + RawEvent" where
  "GetRawEvent m tenantID i =
     (case map_of (mem_rawEvents m) i of
        None \<Rightarrow> Inl StoreNotFound
      | Some e \<Rightarrow> if raw_TenantID e \<noteq> tenantID then Inl StoreNotFound else Inr e)"

definition ListUnnormalised :: "Memory \<Rightarrow> int \<Rightarrow> RawEvent list" where
  "ListUnnormalised m limit =
     map (lookupOr zeroRaw (mem_rawEvents m))
       (collect (nat (if limit \<le> 0 then 100 else limit))
          (\<lambda>i. raw_SignatureValid (lookupOr zeroRaw (mem_rawEvents m) i)
             \<and> map_of (mem_normalised m) i = None \<and> map_of (mem_failures m) i = None)
          (mem_rawOrder m))"

definition ListSignatureFailures ::
    "Memory \<Rightarrow> string \<Rightarrow> string \<Rightarrow> gotime \<Rightarrow> int \<Rightarrow> RawEvent list" where
  "ListSignatureFailures m tenantID endpointID since limit =
     collect (nat (if limit \<le> 0 then 100 else limit))
       (\<lambda>e. raw_TenantID e = tenantID \<and> \<not> raw_SignatureValid e
          \<and> (endpointID = [] \<or> raw_EndpointID e = endpointID)
          \<and> (IsZero since \<or> \<not> gt_instant (raw_ReceivedAt e) < gt_instant since))
       (map (lookupOr zeroRaw (mem_rawEvents m)) (rev (mem_rawOrder m)))"

section \<open>Canonical events\<close>

definition eventKey :: "string \<Rightarrow> string \<Rightarrow> string \<Rightarrow> string" where
  "eventKey tenantID provider providerEventID = tenantID @ ''|'' @ provider @ ''|'' @ providerEventID"

definition PutCanonicalEvent :: "Memory \<Rightarrow> CanonicalEvent \<Rightarrow> Memory \<times> store_error option" where
  "PutCanonicalEvent m e =
     (let key = eventKey (ev_TenantID e) (ev_Provider e) (ev_ProviderEventID e)
      in case (if ev_ProviderEventID e \<noteq> [] then map_of (mem_eventKeys m) key else None) of
           Some existing \<Rightarrow> (m, Some (StoreDuplicate existing))
         | None \<Rightarrow>
             (m\<lparr>mem_eventKeys := (if ev_ProviderEventID e \<noteq> []
                                  then AList.update key (ev_ID e) (mem_eventKeys m) else mem_eventKeys m),
                mem_events := AList.update (ev_ID e) e (mem_events m),
                mem_eventList := mem_eventList m @ [ev_ID e],
                mem_normalised := (if ev_RawEventID e \<noteq> []
                                   then AList.update (ev_RawEventID e) (ev_ID e) (mem_normalised m)
                                   else mem_normalised m)\<rparr>, None))"

definition GetCanonicalEvent :: "Memory \<Rightarrow> string \<Rightarrow> string \<Rightarrow> store_error + CanonicalEvent" where
  "GetCanonicalEvent m tenantID i =
     (case map_of (mem_events m) i of
        None \<Rightarrow> Inl StoreNotFound
      | Some e \<Rightarrow> if ev_TenantID e \<noteq> tenantID then Inl StoreNotFound else Inr e)"

definition GetCanonicalEventByDedupeKey ::
    "Memory \<Rightarrow> string \<Rightarrow> string \<Rightarrow> string \<Rightarrow> store_error + CanonicalEvent" where
  "GetCanonicalEventByDedupeKey m tenantID provider providerEventID =
     (case map_of (mem_eventKeys m) (eventKey tenantID provider providerEventID) of
        None \<Rightarrow> Inl StoreNotFound
      | Some i \<Rightarrow> Inr (lookupOr zeroEvent (mem_events m) i))"

record EventQuery =
  q_Provider :: string
  q_Status :: Status
  q_EventType :: EventType
  q_TransactionRef :: string
  q_MappingComplete :: "bool option"
  q_From :: gotime
  q_To :: gotime
  q_Cursor :: string
  q_Limit :: int

definition matches :: "CanonicalEvent \<Rightarrow> EventQuery \<Rightarrow> bool" where
  "matches e q =
     (if q_Provider q \<noteq> [] \<and> \<not> EqualFold (ev_Provider e) (q_Provider q) then False
      else if q_Status q \<noteq> [] \<and> ev_Status e \<noteq> q_Status q then False
      else if q_EventType q \<noteq> [] \<and> ev_EventType e \<noteq> q_EventType q then False
      else if q_TransactionRef q \<noteq> [] \<and> ev_TransactionRef e \<noteq> q_TransactionRef q then False
      else if q_MappingComplete q \<noteq> None \<and> ev_MappingComplete e \<noteq> the (q_MappingComplete q) then False
      else if \<not> IsZero (q_From q) \<and> gt_instant (ev_OccurredAt e) < gt_instant (q_From q) then False
      else if \<not> IsZero (q_To q) \<and> gt_instant (ev_OccurredAt e) > gt_instant (q_To q) then False
      else True)"

definition QueryEvents :: "Memory \<Rightarrow> string \<Rightarrow> EventQuery \<Rightarrow> CanonicalEvent list" where
  "QueryEvents m tenantID q =
     collect (nat (if q_Limit q \<le> 0 \<or> q_Limit q > 500 then 100 else q_Limit q))
       (\<lambda>e. ev_TenantID e = tenantID \<and> matches e q \<and> (q_Cursor q = [] \<or> \<not> ev_ID e \<ge> q_Cursor q))
       (map (lookupOr zeroEvent (mem_events m)) (rev (mem_eventList m)))"

definition MarkNormalisationFailure ::
    "Memory \<Rightarrow> string \<Rightarrow> string \<Rightarrow> string \<Rightarrow> Memory \<times> store_error option" where
  "MarkNormalisationFailure m tenantID rawEventID reason =
     (case map_of (mem_rawEvents m) rawEventID of
        None \<Rightarrow> (m, Some StoreNotFound)
      | Some e \<Rightarrow>
          if raw_TenantID e \<noteq> tenantID then (m, Some StoreNotFound)
          else (m\<lparr>mem_failures := AList.update rawEventID reason (mem_failures m)\<rparr>, None))"

record UnknownStatus =
  us_Provider :: string
  us_RawValue :: string
  us_Count :: int
  us_FirstSeen :: gotime
  us_LastSeen :: gotime
  us_SampleEvent :: string

definition addUnknown ::
    "CanonicalEvent \<Rightarrow> (string \<times> UnknownStatus) list \<Rightarrow> (string \<times> UnknownStatus) list" where
  "addUnknown e agg =
     (let key = ev_Provider e @ ''|'' @ ev_UnmappedStatus e
      in case map_of agg key of
           None \<Rightarrow> AList.update key
             \<lparr>us_Provider = ev_Provider e, us_RawValue = ev_UnmappedStatus e, us_Count = 1,
              us_FirstSeen = ev_NormalisedAt e, us_LastSeen = ev_NormalisedAt e, us_SampleEvent = ev_ID e\<rparr> agg
         | Some u \<Rightarrow>
             AList.update key
               (u\<lparr>us_Count := us_Count u + 1,
                  us_FirstSeen := (if gt_instant (ev_NormalisedAt e) < gt_instant (us_FirstSeen u)
                                   then ev_NormalisedAt e else us_FirstSeen u),
                  us_LastSeen := (if gt_instant (ev_NormalisedAt e) > gt_instant (us_LastSeen u)
                                  then ev_NormalisedAt e else us_LastSeen u)\<rparr>) agg)"

definition unknownEvents :: "Memory \<Rightarrow> string \<Rightarrow> gotime \<Rightarrow> CanonicalEvent list" where
  "unknownEvents m tenantID since =
     filter (\<lambda>e. ev_TenantID e = tenantID \<and> ev_UnmappedStatus e \<noteq> []
               \<and> (IsZero since \<or> \<not> gt_instant (ev_NormalisedAt e) < gt_instant since))
       (map (lookupOr zeroEvent (mem_events m)) (mem_eventList m))"

definition UnknownStatuses :: "Memory \<Rightarrow> string \<Rightarrow> gotime \<Rightarrow> UnknownStatus list" where
  "UnknownStatuses m tenantID since =
     sort_key (\<lambda>u. (- us_Count u, us_RawValue u))
       (map snd (fold addUnknown (unknownEvents m tenantID since) []))"

end
