(* ===== verification/Store_Spec.thy ===== *)
theory Store_Spec
  imports Store
begin

text \<open>
  What the in-memory store promises. \<open>tenant_table\<close> is the interface of a tenant-scoped table: reading,
  listing, creating, updating and deleting rows that belong to tenants. It is interpreted on the
  endpoint and on the destination operations, and isolation between tenants is proved once, in the
  interface. The rest is the dedupe of canonical events, the pending-work query and the receiver's
  resolution of a URL.
\<close>

section \<open>Tenant-scoped tables\<close>

datatype 'e table_op = TCreate 'e | TUpdate string 'e | TDelete string string

fun tableStep ::
    "('s \<Rightarrow> 'e \<Rightarrow> 's \<times> store_error option) \<Rightarrow> ('s \<Rightarrow> string \<Rightarrow> 'e \<Rightarrow> 's \<times> store_error option) \<Rightarrow>
     ('s \<Rightarrow> string \<Rightarrow> string \<Rightarrow> 's \<times> store_error option) \<Rightarrow> 's \<Rightarrow> 'e table_op \<Rightarrow> 's" where
  "tableStep crt upd del s (TCreate e) = fst (crt s e)"
| "tableStep crt upd del s (TUpdate t e) = fst (upd s t e)"
| "tableStep crt upd del s (TDelete t i) = fst (del s t i)"

text \<open>An operation of a tenant other than \<open>t\<close>; a created row has an identifier not in use.\<close>

fun foreignOp ::
    "('e \<Rightarrow> string) \<Rightarrow> ('e \<Rightarrow> string) \<Rightarrow> ('s \<Rightarrow> string \<Rightarrow> bool) \<Rightarrow> string \<Rightarrow> 's \<Rightarrow> 'e table_op \<Rightarrow> bool" where
  "foreignOp tenant_of id_of fresh t s (TCreate e) = (tenant_of e \<noteq> t \<and> fresh s (id_of e))"
| "foreignOp tenant_of id_of fresh t s (TUpdate t' e) = (t' \<noteq> t)"
| "foreignOp tenant_of id_of fresh t s (TDelete t' i) = (t' \<noteq> t)"

locale tenant_table =
  fixes get :: "'s \<Rightarrow> string \<Rightarrow> string \<Rightarrow> store_error + 'e"
    and rows :: "'s \<Rightarrow> string \<Rightarrow> 'e list"
    and crt :: "'s \<Rightarrow> 'e \<Rightarrow> 's \<times> store_error option"
    and upd :: "'s \<Rightarrow> string \<Rightarrow> 'e \<Rightarrow> 's \<times> store_error option"
    and del :: "'s \<Rightarrow> string \<Rightarrow> string \<Rightarrow> 's \<times> store_error option"
    and id_of :: "'e \<Rightarrow> string" and tenant_of :: "'e \<Rightarrow> string"
    and own :: "string \<Rightarrow> 'e \<Rightarrow> 'e"
    and wf :: "'s \<Rightarrow> bool" and fresh :: "'s \<Rightarrow> string \<Rightarrow> bool"
  assumes get_owner: "wf s \<Longrightarrow> get s t i = Inr e \<Longrightarrow> tenant_of e = t \<and> id_of e = i"
    and get_error: "get s t i = Inl err \<Longrightarrow> err = StoreNotFound"
    and rows_get: "wf s \<Longrightarrow> e \<in> set (rows s t) \<longleftrightarrow> get s t (id_of e) = Inr e"
    and crt_get: "wf s \<Longrightarrow> fresh s (id_of e) \<Longrightarrow> crt s e = (s', None) \<Longrightarrow>
       get s' t i = (if i = id_of e \<and> t = tenant_of e then Inr e else get s t i)"
    and crt_error: "crt s e = (s', Some err) \<Longrightarrow> s' = s"
    and upd_get: "wf s \<Longrightarrow> upd s t e = (s', None) \<Longrightarrow>
       get s' t' i = (if i = id_of e \<and> t' = t then Inr (own t e) else get s t' i)"
    and upd_error: "snd (upd s t e) = None \<longleftrightarrow> (\<exists>old. get s t (id_of e) = Inr old)"
    and upd_frame: "upd s t e = (s', Some err) \<Longrightarrow> s' = s \<and> err = StoreNotFound"
    and del_get: "wf s \<Longrightarrow> del s t i = (s', None) \<Longrightarrow>
       get s' t' j = (if j = i then Inl StoreNotFound else get s t' j)"
    and del_error: "snd (del s t i) = None \<longleftrightarrow> (\<exists>old. get s t i = Inr old)"
    and del_frame: "del s t i = (s', Some err) \<Longrightarrow> s' = s \<and> err = StoreNotFound"
    and crt_wf: "wf s \<Longrightarrow> wf (fst (crt s e))"
    and upd_wf: "wf s \<Longrightarrow> wf (fst (upd s t e))"
    and del_wf: "wf s \<Longrightarrow> wf (fst (del s t i))"
    and owner_unique: "get s t i = Inr e \<Longrightarrow> get s t' i = Inr e' \<Longrightarrow> t = t'"
begin

lemma step_wf: "wf s \<Longrightarrow> wf (tableStep crt upd del s x)"
  by (cases x) (auto intro: crt_wf upd_wf del_wf)

lemma step_foreign:
  assumes "wf s" and "foreignOp tenant_of id_of fresh t s x"
  shows "get (tableStep crt upd del s x) t i = get s t i"
proof (cases x)
  case (TCreate e)
  show ?thesis
  proof (cases "snd (crt s e)")
    case None
    then have "crt s e = (fst (crt s e), None)" by (metis prod.collapse)
    with crt_get [OF assms(1) _ this] assms(2) TCreate show ?thesis by auto
  next
    case (Some err)
    then have "fst (crt s e) = s" by (metis crt_error prod.collapse)
    with TCreate show ?thesis by simp
  qed
next
  case (TUpdate t' e)
  show ?thesis
  proof (cases "snd (upd s t' e)")
    case None
    then have "upd s t' e = (fst (upd s t' e), None)" by (metis prod.collapse)
    with upd_get [OF assms(1) this] assms(2) TUpdate show ?thesis by auto
  next
    case (Some err)
    then have "fst (upd s t' e) = s" by (metis upd_frame prod.collapse)
    with TUpdate show ?thesis by simp
  qed
next
  case (TDelete t' j)
  show ?thesis
  proof (cases "snd (del s t' j)")
    case None
    then have d: "del s t' j = (fst (del s t' j), None)" by (metis prod.collapse)
    obtain old where old: "get s t' j = Inr old" using None del_error by blast
    show ?thesis
    proof (cases "i = j")
      case True
      then obtain err where "get s t i = Inl err"
        using old owner_unique [of s t' j old t] assms(2) TDelete by (cases "get s t i") auto
      with get_error True del_get [OF assms(1) d, of t i] TDelete show ?thesis by auto
    next
      case False
      with del_get [OF assms(1) d] TDelete show ?thesis by auto
    qed
  next
    case (Some err)
    then have "fst (del s t' j) = s" by (metis del_frame prod.collapse)
    with TDelete show ?thesis by simp
  qed
qed

text \<open>Whatever other tenants do, a tenant's rows stay as they are.\<close>

lemma isolation:
  assumes "wf s" and "legal (foreignOp tenant_of id_of fresh t) (tableStep crt upd del) s xs"
  shows "get (foldl (tableStep crt upd del) s xs) t i = get s t i
       \<and> set (rows (foldl (tableStep crt upd del) s xs) t) = set (rows s t)"
proof -
  have *: "wf (foldl (tableStep crt upd del) s xs) \<and> (\<forall>i. get (foldl (tableStep crt upd del) s xs) t i = get s t i)"
    using assms
  proof (induction xs arbitrary: s)
    case (Cons x xs)
    then show ?case using step_wf [of s x] step_foreign [of s t x] by auto
  qed simp
  with rows_get assms(1) show ?thesis by (auto simp: set_eq_iff)
qed

text \<open>A row of another tenant and a row that does not exist are the same to every operation.\<close>

lemma indistinguishable:
  assumes "get s t (id_of e) = Inl err"
  shows "get s t (id_of e) = Inl StoreNotFound \<and> upd s t e = (s, Some StoreNotFound)
       \<and> del s t (id_of e) = (s, Some StoreNotFound)"
proof -
  have "upd s t e = (s, Some StoreNotFound)"
  proof (cases "snd (upd s t e)")
    case None
    with upd_error assms show ?thesis by auto
  next
    case (Some x)
    then show ?thesis by (metis upd_frame prod.collapse)
  qed
  moreover have "del s t (id_of e) = (s, Some StoreNotFound)"
  proof (cases "snd (del s t (id_of e))")
    case None
    with del_error assms show ?thesis by auto
  next
    case (Some x)
    then show ?thesis by (metis del_frame prod.collapse)
  qed
  ultimately show ?thesis using assms get_error by auto
qed

end

section \<open>Endpoints and destinations\<close>

definition table_wf :: "('e \<Rightarrow> string) \<Rightarrow> (string \<times> 'e) list \<Rightarrow> bool" where
  "table_wf id_of m \<longleftrightarrow> keys_distinct m \<and> (\<forall>k e. map_of m k = Some e \<longrightarrow> id_of e = k)"

lemma table_wf_lookup: "table_wf f m \<Longrightarrow> map_of m k = Some e \<Longrightarrow> f e = k"
  by (simp add: table_wf_def)

lemma table_wf_member:
  assumes "table_wf f m"
  shows "e \<in> snd ` set m \<longleftrightarrow> map_of m (f e) = Some e"
proof
  assume "e \<in> snd ` set m"
  then obtain k where "(k, e) \<in> set m" by auto
  with assms have "map_of m k = Some e" by (simp add: table_wf_def)
  with assms show "map_of m (f e) = Some e" by (simp add: table_wf_def)
qed (force dest: map_of_SomeD)

lemma table_wf_update: "table_wf f m \<Longrightarrow> f e = k \<Longrightarrow> table_wf f (AList.update k e m)"
  by (simp add: table_wf_def)

lemma table_wf_delete: "table_wf f m \<Longrightarrow> table_wf f (AList.delete k m)"
  by (simp add: table_wf_def)

lemmas endpoint_ops = GetEndpoint_def CreateEndpoint_def UpdateEndpoint_def DeleteEndpoint_def
lemmas destination_ops =
  GetDestination_def CreateDestination_def UpdateDestination_def DeleteDestination_def

lemma ListEndpoints_get:
  assumes "table_wf ep_ID (mem_endpoints m)"
  shows "e \<in> set (ListEndpoints m t) \<longleftrightarrow> GetEndpoint m t (ep_ID e) = Inr e"
  using table_wf_member [OF assms, of e]
  by (auto simp: ListEndpoints_def GetEndpoint_def split: option.splits)

lemma ListDestinations_get:
  assumes "table_wf dst_ID (mem_destinations m)"
  shows "e \<in> set (ListDestinations m t) \<longleftrightarrow> GetDestination m t (dst_ID e) = Inr e"
  using table_wf_member [OF assms, of e]
  by (auto simp: ListDestinations_def GetDestination_def split: option.splits)

interpretation endpoints: tenant_table GetEndpoint ListEndpoints CreateEndpoint UpdateEndpoint DeleteEndpoint
    ep_ID ep_TenantID "\<lambda>t e. e\<lparr>ep_TenantID := t\<rparr>" "\<lambda>m. table_wf ep_ID (mem_endpoints m)"
    "\<lambda>m i. map_of (mem_endpoints m) i = None"
proof (unfold_locales, goal_cases)
  case 3
  then show ?case by (rule ListEndpoints_get)
next
  case 4
  then show ?case by (simp add: GetEndpoint_def CreateEndpoint_def split: if_splits) fastforce
next
  case (6 s t e s' t' i)
  then obtain old where "map_of (mem_endpoints s) (ep_ID e) = Some old" "ep_TenantID old = t"
      "s' = s\<lparr>mem_endpoints := AList.update (ep_ID e) (e\<lparr>ep_TenantID := t\<rparr>) (mem_endpoints s)\<rparr>"
    by (auto simp: UpdateEndpoint_def split: option.splits if_splits)
  then show ?case by (simp add: GetEndpoint_def)
next
  case (9 s t i s' t' j)
  then have "s' = s\<lparr>mem_endpoints := AList.delete i (mem_endpoints s)\<rparr>"
    by (auto simp: DeleteEndpoint_def split: option.splits if_splits)
  then show ?case by (simp add: GetEndpoint_def)
qed (auto simp: endpoint_ops table_wf_update table_wf_delete dest: table_wf_lookup split: option.splits if_splits)

interpretation destinations: tenant_table GetDestination ListDestinations CreateDestination UpdateDestination
    DeleteDestination dst_ID dst_TenantID "\<lambda>t d. d\<lparr>dst_TenantID := t\<rparr>" "\<lambda>m. table_wf dst_ID (mem_destinations m)"
    "\<lambda>m i. map_of (mem_destinations m) i = None"
proof (unfold_locales, goal_cases)
  case 3
  then show ?case by (rule ListDestinations_get)
next
  case 4
  then show ?case by (auto simp: GetDestination_def CreateDestination_def)
next
  case (6 s t e s' t' i)
  then obtain old where "map_of (mem_destinations s) (dst_ID e) = Some old" "dst_TenantID old = t"
      "s' = s\<lparr>mem_destinations := AList.update (dst_ID e) (e\<lparr>dst_TenantID := t\<rparr>) (mem_destinations s)\<rparr>"
    by (auto simp: UpdateDestination_def split: option.splits if_splits)
  then show ?case by (simp add: GetDestination_def)
next
  case (9 s t i s' t' j)
  then have "s' = s\<lparr>mem_destinations := AList.delete i (mem_destinations s)\<rparr>"
    by (auto simp: DeleteDestination_def split: option.splits if_splits)
  then show ?case by (simp add: GetDestination_def)
qed (auto simp: destination_ops table_wf_update table_wf_delete dest: table_wf_lookup split: option.splits if_splits)

section \<open>Tenancy\<close>

abbreviation endpointStep :: "Memory \<Rightarrow> Endpoint table_op \<Rightarrow> Memory" where
  "endpointStep \<equiv> tableStep CreateEndpoint UpdateEndpoint DeleteEndpoint"

abbreviation destinationStep :: "Memory \<Rightarrow> Destination table_op \<Rightarrow> Memory" where
  "destinationStep \<equiv> tableStep CreateDestination UpdateDestination DeleteDestination"

abbreviation foreignEndpointOp :: "string \<Rightarrow> Memory \<Rightarrow> Endpoint table_op \<Rightarrow> bool" where
  "foreignEndpointOp \<equiv> foreignOp ep_TenantID ep_ID (\<lambda>m i. map_of (mem_endpoints m) i = None)"

abbreviation foreignDestinationOp :: "string \<Rightarrow> Memory \<Rightarrow> Destination table_op \<Rightarrow> bool" where
  "foreignDestinationOp \<equiv> foreignOp dst_TenantID dst_ID (\<lambda>m i. map_of (mem_destinations m) i = None)"

text \<open>
  Tenants are isolated. Whatever sequence of creations, updates and deletions other tenants make,
  with whatever identifiers they name, a tenant's endpoints read and list exactly as before.
\<close>

theorem Endpoint_isolation:
  assumes "table_wf ep_ID (mem_endpoints m)" and "legal (foreignEndpointOp t) endpointStep m xs"
  shows "GetEndpoint (foldl endpointStep m xs) t i = GetEndpoint m t i
       \<and> set (ListEndpoints (foldl endpointStep m xs) t) = set (ListEndpoints m t)"
  using assms by (rule endpoints.isolation)

definition sampleEndpoint :: Endpoint where
  "sampleEndpoint = \<lparr>ep_ID = ''ep_1'', ep_TenantID = ''tnt_1'', ep_Provider = ''paystack'',
     ep_Environment = EnvLive, ep_ReceiverToken = ''tok'', ep_SecretRef = ''s'', ep_AdapterName = [],
     ep_AdapterConfig = None, ep_AllowedSourceCIDRs = [], ep_Enabled = True, ep_CreatedAt = 0, ep_RotatedAt = 0\<rparr>"

theorem Endpoint_isolation_witness:
  "GetEndpoint (foldl endpointStep (NewMemory\<lparr>mem_endpoints := [(''ep_1'', sampleEndpoint)]\<rparr>)
     [TUpdate ''tnt_2'' sampleEndpoint, TDelete ''tnt_2'' ''ep_1'']) ''tnt_1'' ''ep_1'' = Inr sampleEndpoint"
proof -
  let ?m = "NewMemory\<lparr>mem_endpoints := [(''ep_1'', sampleEndpoint)]\<rparr>"
  have "table_wf ep_ID (mem_endpoints ?m)" by (simp add: table_wf_def sampleEndpoint_def)
  from Endpoint_isolation [OF this, of "''tnt_1''" "[TUpdate ''tnt_2'' sampleEndpoint, TDelete ''tnt_2'' ''ep_1'']" "''ep_1''"]
  show ?thesis by (simp add: GetEndpoint_def) (simp add: sampleEndpoint_def)
qed

text \<open>
  A row that belongs to someone else is the row that does not exist: when a tenant cannot read a
  destination, reading, updating and deleting it all give the one not-found error and change nothing,
  whether the identifier is unused or another tenant's; and other tenants' operations never show.
\<close>

theorem Destination_isolation:
  "(GetDestination m t (dst_ID d) = Inl err \<longrightarrow>
      err = StoreNotFound \<and> UpdateDestination m t d = (m, Some StoreNotFound)
    \<and> DeleteDestination m t (dst_ID d) = (m, Some StoreNotFound))
 \<and> (table_wf dst_ID (mem_destinations m) \<and> legal (foreignDestinationOp t) destinationStep m xs \<longrightarrow>
      GetDestination (foldl destinationStep m xs) t i = GetDestination m t i
    \<and> set (ListDestinations (foldl destinationStep m xs) t) = set (ListDestinations m t))"
proof -
  have "err = StoreNotFound \<and> UpdateDestination m t d = (m, Some StoreNotFound)
    \<and> DeleteDestination m t (dst_ID d) = (m, Some StoreNotFound)"
    if "GetDestination m t (dst_ID d) = Inl err"
    using destinations.indistinguishable [OF that] that by simp
  then show ?thesis by (auto dest: destinations.isolation)
qed

definition sampleDestination :: Destination where
  "sampleDestination = \<lparr>dst_ID = ''dst_1'', dst_TenantID = ''tnt_1'', dst_Name = ''n'',
     dst_URL = ''https://example.test/hook'', dst_SigningSecretRef = ''s'',
     dst_Filter = \<lparr>fil_Providers = [], fil_EventTypes = [], fil_Statuses = [], fil_MinAmountMinor = 0\<rparr>,
     dst_RetryPolicy = DefaultRetryPolicy, dst_IncludeRaw = False, dst_SchemaVersion = ''v1'',
     dst_Enabled = True, dst_CreatedAt = 0\<rparr>"

theorem Destination_isolation_witness:
  "UpdateDestination (NewMemory\<lparr>mem_destinations := [(''dst_1'', sampleDestination)]\<rparr>) ''tnt_2'' sampleDestination
   = (NewMemory\<lparr>mem_destinations := [(''dst_1'', sampleDestination)]\<rparr>, Some StoreNotFound)"
  using Destination_isolation [of "NewMemory\<lparr>mem_destinations := [(''dst_1'', sampleDestination)]\<rparr>"
      "''tnt_2''" sampleDestination StoreNotFound "[]" "[]"]
  by (auto simp: GetDestination_def sampleDestination_def)

lemma ResolveReceiver_iff:
  assumes "distinct (map ep_ReceiverToken (map snd (mem_endpoints m)))"
  shows "ResolveReceiver m slug provider env token = Inr (e, ten) \<longleftrightarrow>
     (\<exists>tid. map_of (mem_tenantBySlug m) slug = Some tid \<and> ten = lookupOr zeroTenant (mem_tenants m) tid
        \<and> e \<in> snd ` set (mem_endpoints m) \<and> ep_TenantID e = tid \<and> ep_ReceiverToken e = token
        \<and> ep_Provider e = provider \<and> ep_Environment e = env)"
proof -
  have loop: "resolveLoop tid provider env token es = Some e \<longleftrightarrow>
      e \<in> set es \<and> ep_TenantID e = tid \<and> ep_ReceiverToken e = token \<and> ep_Provider e = provider \<and> ep_Environment e = env"
    if "distinct (map ep_ReceiverToken es)" for tid es
    using that by (induction es) auto
  show ?thesis
  proof (cases "map_of (mem_tenantBySlug m) slug")
    case (Some tid)
    then have "ResolveReceiver m slug provider env token = Inr (e, ten) \<longleftrightarrow>
        resolveLoop tid provider env token (map snd (mem_endpoints m)) = Some e
        \<and> ten = lookupOr zeroTenant (mem_tenants m) tid"
      by (cases "resolveLoop tid provider env token (map snd (mem_endpoints m))")
         (auto simp: ResolveReceiver_def)
    then show ?thesis using Some by (simp add: loop [OF assms] conj_ac)
  qed (simp add: ResolveReceiver_def)
qed

text \<open>
  A receiver URL resolves only to the endpoint it was issued for: the tenant behind the slug, the
  token, the provider and the environment all agree; and when tokens are distinct, the endpoint that
  agrees on all four is the one found, wherever it stands in the table.
\<close>

theorem ResolveReceiver_exact:
  assumes "distinct (map ep_ReceiverToken (map snd (mem_endpoints m)))"
  shows "ResolveReceiver m slug provider env token = Inr (e, ten) \<longleftrightarrow>
     (\<exists>tid. map_of (mem_tenantBySlug m) slug = Some tid \<and> ten = lookupOr zeroTenant (mem_tenants m) tid
        \<and> e \<in> snd ` set (mem_endpoints m) \<and> ep_TenantID e = tid \<and> ep_ReceiverToken e = token
        \<and> ep_Provider e = provider \<and> ep_Environment e = env)"
  using assms by (rule ResolveReceiver_iff)

theorem ResolveReceiver_exact_witness:
  "ResolveReceiver (NewMemory\<lparr>mem_endpoints := [(''ep_1'', sampleEndpoint)], mem_tenantBySlug := [(''acme'', ''tnt_1'')]\<rparr>)
     ''acme'' ''paystack'' EnvLive ''tok'' = Inr (sampleEndpoint, zeroTenant)"
proof -
  let ?m = "NewMemory\<lparr>mem_endpoints := [(''ep_1'', sampleEndpoint)], mem_tenantBySlug := [(''acme'', ''tnt_1'')]\<rparr>"
  have d: "distinct (map ep_ReceiverToken (map snd (mem_endpoints ?m)))" by simp
  have "mem_tenants ?m = []" by (simp add: NewMemory_def)
  then show ?thesis
    unfolding ResolveReceiver_exact [OF d] by (simp add: lookupOr_def) (simp add: sampleEndpoint_def)
qed

section \<open>Pending work and dedupe\<close>

lemma collect_take_filter: "collect n P xs = take n (filter P xs)"
  by (induction n P xs rule: collect.induct) (auto simp: take_Cons split: nat.splits)

text \<open>
  Pending work is exact: the normaliser is handed, oldest first and up to the limit, precisely the
  stored raw events whose signature verified and which are neither normalised nor marked failed. A
  forged event is never among them.
\<close>

theorem ListUnnormalised_exact:
  "ListUnnormalised m limit =
     take (nat (if limit \<le> 0 then 100 else limit))
       (map (lookupOr zeroRaw (mem_rawEvents m))
         (filter (\<lambda>i. raw_SignatureValid (lookupOr zeroRaw (mem_rawEvents m) i)
                    \<and> i \<notin> fst ` set (mem_normalised m) \<and> i \<notin> fst ` set (mem_failures m)) (mem_rawOrder m)))
 \<and> list_all raw_SignatureValid (ListUnnormalised m limit)"
  by (auto simp: ListUnnormalised_def collect_take_filter take_map map_of_eq_None_iff list_all_iff
      dest!: in_set_takeD)

text \<open>Dedupe: every stored event with a provider identifier is the one its key points at.\<close>

definition dedupe_inv :: "Memory \<Rightarrow> bool" where
  "dedupe_inv m \<longleftrightarrow>
     (\<forall>i e. map_of (mem_events m) i = Some e \<longrightarrow> ev_ID e = i \<and> (ev_ProviderEventID e \<noteq> [] \<longrightarrow>
        map_of (mem_eventKeys m) (eventKey (ev_TenantID e) (ev_Provider e) (ev_ProviderEventID e)) = Some i))"

lemma PutCanonicalEvent_Some:
  "snd (PutCanonicalEvent m e) = None \<Longrightarrow>
     mem_events (fst (PutCanonicalEvent m e)) = AList.update (ev_ID e) e (mem_events m)
   \<and> (ev_ProviderEventID e \<noteq> [] \<longrightarrow>
        map_of (mem_eventKeys m) (eventKey (ev_TenantID e) (ev_Provider e) (ev_ProviderEventID e)) = None
      \<and> mem_eventKeys (fst (PutCanonicalEvent m e)) = AList.update (eventKey (ev_TenantID e) (ev_Provider e) (ev_ProviderEventID e)) (ev_ID e) (mem_eventKeys m))
   \<and> (ev_ProviderEventID e = [] \<longrightarrow> mem_eventKeys (fst (PutCanonicalEvent m e)) = mem_eventKeys m)"
  by (cases "ev_ProviderEventID e = []";
      cases "map_of (mem_eventKeys m) (eventKey (ev_TenantID e) (ev_Provider e) (ev_ProviderEventID e))")
     (simp_all add: PutCanonicalEvent_def)

lemma PutCanonicalEvent_error: "snd (PutCanonicalEvent m e) = Some x \<Longrightarrow> fst (PutCanonicalEvent m e) = m"
  by (cases "if ev_ProviderEventID e \<noteq> []
        then map_of (mem_eventKeys m) (eventKey (ev_TenantID e) (ev_Provider e) (ev_ProviderEventID e)) else None")
     (simp_all add: PutCanonicalEvent_def Let_def)

interpretation putting: machine "\<lambda>m e. fst (PutCanonicalEvent m e)"
    "\<lambda>m e. map_of (mem_events m) (ev_ID e) = None" dedupe_inv
proof
  fix m and e :: CanonicalEvent
  assume inv: "dedupe_inv m" and fresh: "map_of (mem_events m) (ev_ID e) = None"
  show "dedupe_inv (fst (PutCanonicalEvent m e))"
  proof (cases "snd (PutCanonicalEvent m e)")
    case (Some x)
    with inv show ?thesis by (simp add: PutCanonicalEvent_error)
  next
    case None
    from PutCanonicalEvent_Some [OF None] inv fresh show ?thesis
      by (cases "ev_ProviderEventID e = []") (auto simp: dedupe_inv_def, metis option.distinct(1))
  qed
qed

text \<open>The keys in the store are those of the identified events put so far, each pointing at the first.\<close>

abbreviation evKey :: "CanonicalEvent \<Rightarrow> string" where
  "evKey e \<equiv> eventKey (ev_TenantID e) (ev_Provider e) (ev_ProviderEventID e)"

definition keys_follow :: "CanonicalEvent list \<Rightarrow> Memory \<Rightarrow> bool" where
  "keys_follow xs m \<longleftrightarrow>
     (\<forall>k i. map_of (mem_eventKeys m) k = Some i \<longrightarrow>
        (\<exists>f\<in>set xs. ev_ProviderEventID f \<noteq> [] \<and> evKey f = k \<and> map_of (mem_events m) i = Some f))
     \<and> (\<forall>f\<in>set xs. ev_ProviderEventID f \<noteq> [] \<longrightarrow> map_of (mem_eventKeys m) (evKey f) \<noteq> None)"

lemma keys_follow_put:
  assumes "keys_follow xs m" and "map_of (mem_events m) (ev_ID e) = None"
  shows "keys_follow (xs @ [e]) (fst (PutCanonicalEvent m e))"
proof (cases "snd (PutCanonicalEvent m e)")
  case None
  note p = PutCanonicalEvent_Some [OF None]
  show ?thesis
    unfolding keys_follow_def
  proof (intro conjI allI impI ballI, goal_cases)
    case (1 k i)
    show ?case
    proof (cases "ev_ProviderEventID e \<noteq> [] \<and> k = evKey e")
      case True
      with 1 p show ?thesis by (intro bexI [of _ e]) auto
    next
      case False
      with 1 p have "map_of (mem_eventKeys m) k = Some i" by (cases "ev_ProviderEventID e = []") auto
      with assms(1) obtain f where f: "f \<in> set xs" "ev_ProviderEventID f \<noteq> []" "evKey f = k" "map_of (mem_events m) i = Some f"
        unfolding keys_follow_def by blast
      with assms(2) p have "map_of (mem_events (fst (PutCanonicalEvent m e))) i = Some f" by auto
      with f show ?thesis by (intro bexI [of _ f]) auto
    qed
  next
    case (2 f)
    then show ?case using assms(1) p unfolding keys_follow_def by (cases "ev_ProviderEventID e = []") auto
  qed
next
  case (Some x)
  then have "fst (PutCanonicalEvent m e) = m" by (rule PutCanonicalEvent_error)
  moreover have "ev_ProviderEventID e \<noteq> [] \<longrightarrow> map_of (mem_eventKeys m) (evKey e) \<noteq> None"
    using Some by (auto simp: PutCanonicalEvent_def Let_def split: option.splits)
  ultimately show ?thesis using assms(1) unfolding keys_follow_def by auto
qed

lemma keys_follow_run:
  "legal (\<lambda>m e. map_of (mem_events m) (ev_ID e) = None) (\<lambda>m e. fst (PutCanonicalEvent m e)) NewMemory xs \<Longrightarrow>
   keys_follow xs (foldl (\<lambda>m e. fst (PutCanonicalEvent m e)) NewMemory xs)"
proof (induction xs rule: rev_induct)
  case Nil
  then show ?case by (simp add: keys_follow_def NewMemory_def)
next
  case (snoc e xs)
  then show ?case by (simp add: legal_append keys_follow_put)
qed



section \<open>Unknown statuses\<close>

definition unknownKey :: "CanonicalEvent \<Rightarrow> string" where
  "unknownKey e = ev_Provider e @ ''|'' @ ev_UnmappedStatus e"

lemma addUnknown_count:
  "map_option us_Count (map_of (addUnknown e agg) k) =
     (if k = unknownKey e then Some (1 + (case map_of agg k of None \<Rightarrow> 0 | Some u \<Rightarrow> us_Count u))
      else map_option us_Count (map_of agg k))"
  by (auto simp: addUnknown_def unknownKey_def Let_def split: option.splits)

lemma fold_addUnknown:
  "(case map_of (fold addUnknown es agg) k of None \<Rightarrow> 0 | Some u \<Rightarrow> us_Count u) =
     (case map_of agg k of None \<Rightarrow> 0 | Some u \<Rightarrow> us_Count u) + int (length (filter (\<lambda>e. unknownKey e = k) es))"
proof (induction es arbitrary: agg)
  case (Cons e es)
  have "(case map_of (addUnknown e agg) k of None \<Rightarrow> 0 | Some u \<Rightarrow> us_Count u) =
      (if k = unknownKey e then 1 else 0) + (case map_of agg k of None \<Rightarrow> 0 | Some u \<Rightarrow> us_Count u)"
    using addUnknown_count [of e agg k] by (auto split: option.splits if_splits)
  with Cons show ?case by simp
qed simp

definition agg_inv :: "(string \<times> UnknownStatus) list \<Rightarrow> bool" where
  "agg_inv agg \<longleftrightarrow> keys_distinct agg \<and> (\<forall>k u. map_of agg k = Some u \<longrightarrow>
     k = us_Provider u @ ''|'' @ us_RawValue u \<and> gt_instant (us_FirstSeen u) \<le> gt_instant (us_LastSeen u))"

lemma addUnknown_inv: "agg_inv agg \<Longrightarrow> agg_inv (addUnknown e agg)"
proof -
  assume inv: "agg_inv agg"
  show "agg_inv (addUnknown e agg)"
  proof (cases "map_of agg (ev_Provider e @ ''|'' @ ev_UnmappedStatus e)")
    case None
    with inv show ?thesis by (simp add: agg_inv_def addUnknown_def)
  next
    case (Some u)
    then have "ev_Provider e @ ''|'' @ ev_UnmappedStatus e = us_Provider u @ ''|'' @ us_RawValue u"
      "gt_instant (us_FirstSeen u) \<le> gt_instant (us_LastSeen u)"
      using inv unfolding agg_inv_def by blast+
    with Some inv show ?thesis by (simp add: agg_inv_def addUnknown_def)
  qed
qed

lemma fold_addUnknown_inv: "agg_inv agg \<Longrightarrow> agg_inv (fold addUnknown es agg)"
  by (induction es arbitrary: agg) (auto intro: addUnknown_inv)

text \<open>
  The mapping backlog counts right: every line of the unknown-status view carries the number of the
  tenant's events since the given time with that provider and value, the first sighting is not after
  the last, and every such event is on a line.
\<close>

theorem UnknownStatuses_counts:
  "(\<forall>u\<in>set (UnknownStatuses m t since).
      us_Count u = int (length (filter (\<lambda>e. unknownKey e = us_Provider u @ ''|'' @ us_RawValue u) (unknownEvents m t since)))
    \<and> gt_instant (us_FirstSeen u) \<le> gt_instant (us_LastSeen u))
 \<and> (\<forall>e\<in>set (unknownEvents m t since). \<exists>u\<in>set (UnknownStatuses m t since).
      us_Provider u @ ''|'' @ us_RawValue u = unknownKey e)"
proof -
  let ?es = "unknownEvents m t since" and ?agg = "fold addUnknown (unknownEvents m t since) []"
  have inv: "agg_inv ?agg" by (rule fold_addUnknown_inv) (simp add: agg_inv_def)
  have count: "(case map_of ?agg k of None \<Rightarrow> 0 | Some u \<Rightarrow> us_Count u) =
      int (length (filter (\<lambda>e. unknownKey e = k) ?es))" for k
    using fold_addUnknown [where k = k and es = ?es and agg = "[]"] by simp
  have mem: "u \<in> set (UnknownStatuses m t since) \<longleftrightarrow> (\<exists>k. map_of ?agg k = Some u)" for u
    using inv in_set_map_of [of ?agg] by (force simp: UnknownStatuses_def agg_inv_def)
  have "us_Count u = int (length (filter (\<lambda>e. unknownKey e = us_Provider u @ ''|'' @ us_RawValue u) ?es))
      \<and> gt_instant (us_FirstSeen u) \<le> gt_instant (us_LastSeen u)"
    if u: "u \<in> set (UnknownStatuses m t since)" for u
  proof -
    obtain k where k: "map_of ?agg k = Some u" using u mem by blast
    with inv have "k = us_Provider u @ ''|'' @ us_RawValue u" "gt_instant (us_FirstSeen u) \<le> gt_instant (us_LastSeen u)"
      unfolding agg_inv_def by blast+
    with k count [of k] show ?thesis by simp
  qed
  moreover have "\<exists>u\<in>set (UnknownStatuses m t since). us_Provider u @ ''|'' @ us_RawValue u = unknownKey e"
    if e: "e \<in> set ?es" for e
  proof -
    from e have "filter (\<lambda>f. unknownKey f = unknownKey e) ?es \<noteq> []" by (auto simp: filter_empty_conv)
    then obtain u where u: "map_of ?agg (unknownKey e) = Some u"
      using count [of "unknownKey e"] by (auto split: option.splits)
    with inv have "unknownKey e = us_Provider u @ ''|'' @ us_RawValue u" unfolding agg_inv_def by blast
    with u mem show ?thesis by metis
  qed
  ultimately show ?thesis by blast
qed

theorem UnknownStatuses_counts_witness:
  "\<exists>u. u \<in> set (UnknownStatuses (fst (PutCanonicalEvent NewMemory (zeroEvent\<lparr>ev_ID := ''a'', ev_UnmappedStatus := ''odd''\<rparr>))) [] zeroTime)
     \<and> us_Provider u @ ''|'' @ us_RawValue u = ''|odd''"
proof -
  let ?e = "zeroEvent\<lparr>ev_ID := ''a'', ev_UnmappedStatus := ''odd''\<rparr>"
  let ?m = "fst (PutCanonicalEvent NewMemory ?e)"
  have "?e \<in> set (unknownEvents ?m [] zeroTime)"
    by (simp add: unknownEvents_def PutCanonicalEvent_def NewMemory_def zeroEvent_def lookupOr_def
        zeroTime_def is_zero_time_def)
  moreover have "unknownKey ?e = ''|odd''" by (simp add: unknownKey_def zeroEvent_def)
  ultimately show ?thesis using UnknownStatuses_counts [of ?m "[]" zeroTime] by (metis (no_types, lifting))
qed

end
