(* ===== verification/Delivery_Queue.thy ===== *)
theory Delivery_Queue
  imports Store_Spec
begin

text \<open>
  The delivery queue: \<^verbatim>\<open>internal/store/memory_delivery.go\<close>. \<open>ClaimDue\<close> leases what a dispatcher may attempt
  now; it is the one place where ordering per transaction reference is enforced. Clock readings are
  arguments. Counters (\<open>Attempt\<close>, identifiers, sequences) are unbounded integers: wrapping one takes
  \<open>2\<^sup>63\<close> operations.
\<close>

section \<open>Operations\<close>

definition EnqueueDelivery :: "instant \<Rightarrow> Memory \<Rightarrow> Delivery \<Rightarrow> Memory \<times> int" where
  "EnqueueDelivery now m d =
     (let i = mem_deliveryIDs m + 1;
          d = d\<lparr>del_ID := i\<rparr>;
          d = (if del_TransactionRef d = []
               then (case map_of (mem_events m) (del_EventID d) of
                       Some e \<Rightarrow> d\<lparr>del_TransactionRef := ev_TransactionRef e\<rparr>
                     | None \<Rightarrow> d)
               else d);
          d = (if is_zero_time (del_CreatedAt d) then d\<lparr>del_CreatedAt := now\<rparr> else d);
          d = d\<lparr>del_UpdatedAt := del_CreatedAt d\<rparr>
      in (m\<lparr>mem_deliveryIDs := i, mem_deliveries := AList.update i d (mem_deliveries m)\<rparr>, i))"

definition NextSequence :: "Memory \<Rightarrow> string \<Rightarrow> string \<Rightarrow> Memory \<times> int" where
  "NextSequence m tenantID transactionRef =
     (let key = tenantID @ ''|'' @ transactionRef;
          n = lookupOr 0 (mem_sequences m) key + 1
      in (m\<lparr>mem_sequences := AList.update key n (mem_sequences m)\<rparr>, n))"

definition refFor :: "Memory \<Rightarrow> Delivery \<Rightarrow> string" where
  "refFor m d =
     (if del_TransactionRef d \<noteq> [] then del_TransactionRef d
      else case map_of (mem_events m) (del_EventID d) of
             Some e \<Rightarrow> ev_TransactionRef e
           | None \<Rightarrow> del_EventID d)"

definition deliveryKey :: "Memory \<Rightarrow> Delivery \<Rightarrow> string" where
  "deliveryKey m d = del_DestinationID d @ ''|'' @ refFor m d"

definition liveClaim :: "Memory \<Rightarrow> instant \<Rightarrow> Delivery \<Rightarrow> bool" where
  "liveClaim m now d \<longleftrightarrow>
     del_Status d = DeliveryInFlight
   \<and> \<not> (case map_of (mem_leases m) (del_ID d) of Some expiry \<Rightarrow> expiry < now | None \<Rightarrow> False)"

definition blockedKeys :: "Memory \<Rightarrow> instant \<Rightarrow> string list" where
  "blockedKeys m now = map (deliveryKey m) (filter (liveClaim m now) (map snd (mem_deliveries m)))"

definition candidate :: "Memory \<Rightarrow> int \<Rightarrow> instant \<Rightarrow> Delivery \<Rightarrow> bool" where
  "candidate m shard now d \<longleftrightarrow>
     del_Shard d = shard \<and> \<not> DeliveryStatus_IsTerminal (del_Status d)
   \<and> \<not> (del_Status d = DeliveryInFlight
        \<and> (case map_of (mem_leases m) (del_ID d) of Some expiry \<Rightarrow> expiry > now | None \<Rightarrow> False))
   \<and> \<not> (\<not> is_zero_time (del_NextRetryAt d) \<and> del_NextRetryAt d > now)"

definition claimOrder :: "Delivery \<Rightarrow> int \<times> int" where
  "claimOrder d = (del_Sequence d, del_ID d)"

definition candidates :: "Memory \<Rightarrow> int \<Rightarrow> instant \<Rightarrow> Delivery list" where
  "candidates m shard now = sort_key claimOrder (filter (candidate m shard now) (map snd (mem_deliveries m)))"

definition bump :: "instant \<Rightarrow> Delivery \<Rightarrow> Delivery" where
  "bump now d = d\<lparr>del_Status := DeliveryInFlight, del_Attempt := del_Attempt d + 1, del_UpdatedAt := now\<rparr>"

text \<open>The claiming loop: the room left, the keys taken, the store and the candidates still to look at.\<close>

fun claimLoop :: "instant \<Rightarrow> duration \<Rightarrow> nat \<Rightarrow> string list \<Rightarrow> Memory \<Rightarrow> Delivery list \<Rightarrow> Memory \<times> Delivery list" where
  "claimLoop now lease n blocked m [] = (m, [])"
| "claimLoop now lease n blocked m (d # ds) =
     (if n = 0 then (m, [])
      else let key = deliveryKey m d
           in if key \<in> set blocked then claimLoop now lease n blocked m ds
              else let d = bump now d;
                       m = m\<lparr>mem_deliveries := AList.update (del_ID d) d (mem_deliveries m),
                             mem_leases := AList.update (del_ID d) (now + lease) (mem_leases m)\<rparr>;
                       (m, claimed) = claimLoop now lease (n - 1) (key # blocked) m ds
                   in (m, d # claimed))"

definition ClaimDue :: "Memory \<Rightarrow> int \<Rightarrow> instant \<Rightarrow> int \<Rightarrow> duration \<Rightarrow> Memory \<times> Delivery list" where
  "ClaimDue m shard now limit lease =
     (let limit = (if limit \<le> 0 then 32 else limit);
          lease = (if lease \<le> 0 then minute else lease)
      in claimLoop now lease (nat limit) (blockedKeys m now) m (candidates m shard now))"

definition CompleteDelivery :: "instant \<Rightarrow> Memory \<Rightarrow> Delivery \<Rightarrow> Memory \<times> store_error option" where
  "CompleteDelivery now m d =
     (case map_of (mem_deliveries m) (del_ID d) of
        None \<Rightarrow> (m, Some StoreNotFound)
      | Some existing \<Rightarrow>
          if del_TenantID existing \<noteq> del_TenantID d then (m, Some StoreNotFound)
          else (m\<lparr>mem_deliveries := AList.update (del_ID d)
                    (d\<lparr>del_CreatedAt := del_CreatedAt existing, del_UpdatedAt := now\<rparr>) (mem_deliveries m),
                  mem_leases := AList.delete (del_ID d) (mem_leases m)\<rparr>, None))"

definition GetDelivery :: "Memory \<Rightarrow> string \<Rightarrow> int \<Rightarrow> store_error + Delivery" where
  "GetDelivery m tenantID i =
     (case map_of (mem_deliveries m) i of
        None \<Rightarrow> Inl StoreNotFound
      | Some d \<Rightarrow> if del_TenantID d \<noteq> tenantID then Inl StoreNotFound else Inr d)"

definition ListDeliveriesForEvent :: "Memory \<Rightarrow> string \<Rightarrow> string \<Rightarrow> Delivery list" where
  "ListDeliveriesForEvent m tenantID eventID =
     sort_key del_ID (filter (\<lambda>d. del_TenantID d = tenantID \<and> del_EventID d = eventID) (map snd (mem_deliveries m)))"

record DeliveryQuery =
  dq_DestinationID :: string
  dq_Status :: "DeliveryStatus option"
  dq_EventID :: string
  dq_From :: instant
  dq_To :: instant
  dq_Cursor :: int
  dq_Limit :: int

definition QueryDeliveries :: "Memory \<Rightarrow> string \<Rightarrow> DeliveryQuery \<Rightarrow> Delivery list" where
  "QueryDeliveries m tenantID q =
     collect (nat (if dq_Limit q \<le> 0 \<or> dq_Limit q > 500 then 100 else dq_Limit q))
       (\<lambda>d. del_TenantID d = tenantID
          \<and> (dq_DestinationID q = [] \<or> del_DestinationID d = dq_DestinationID q)
          \<and> (dq_Status q = None \<or> dq_Status q = Some (del_Status d))
          \<and> (dq_EventID q = [] \<or> del_EventID d = dq_EventID q)
          \<and> (is_zero_time (dq_From q) \<or> \<not> del_CreatedAt d < dq_From q)
          \<and> (is_zero_time (dq_To q) \<or> \<not> del_CreatedAt d > dq_To q)
          \<and> (dq_Cursor q = 0 \<or> \<not> del_ID d \<ge> dq_Cursor q))
       (rev (sort_key del_ID (map snd (mem_deliveries m))))"

definition QueueDepth :: "Memory \<Rightarrow> (int \<times> int) list" where
  "QueueDepth m =
     fold (\<lambda>d out. if DeliveryStatus_IsTerminal (del_Status d) then out
                   else AList.update (del_Shard d) (lookupOr 0 out (del_Shard d) + 1) out)
       (map snd (mem_deliveries m)) []"

definition OldestPending :: "Memory \<Rightarrow> (int \<times> instant) list" where
  "OldestPending m =
     fold (\<lambda>d out. if DeliveryStatus_IsTerminal (del_Status d) then out
                   else case map_of out (del_Shard d) of
                          Some cur \<Rightarrow> if del_CreatedAt d < cur
                                      then AList.update (del_Shard d) (del_CreatedAt d) out else out
                        | None \<Rightarrow> AList.update (del_Shard d) (del_CreatedAt d) out)
       (map snd (mem_deliveries m)) []"

section \<open>The selection behind the claim\<close>

fun selectDue :: "('d \<Rightarrow> 'k) \<Rightarrow> nat \<Rightarrow> 'k set \<Rightarrow> 'd list \<Rightarrow> 'd list" where
  "selectDue key n blocked [] = []"
| "selectDue key n blocked (d # ds) =
     (if n = 0 then []
      else if key d \<in> blocked then selectDue key n blocked ds
      else d # selectDue key (n - 1) (insert (key d) blocked) ds)"

lemma selectDue_subset: "set (selectDue key n b ds) \<subseteq> set ds"
  by (induction key n b ds rule: selectDue.induct) auto

lemma selectDue_length: "length (selectDue key n b ds) \<le> n"
  by (induction key n b ds rule: selectDue.induct) auto

lemma selectDue_sorted: "sorted_wrt R ds \<Longrightarrow> sorted_wrt R (selectDue key n b ds)"
  by (induction key n b ds rule: selectDue.induct) (auto dest: subsetD [OF selectDue_subset])

lemma selectDue_unblocked: "d \<in> set (selectDue key n b ds) \<Longrightarrow> key d \<notin> b"
  by (induction key n b ds rule: selectDue.induct) (auto split: if_splits)

lemma selectDue_distinct: "distinct (map key (selectDue key n b ds))"
  by (induction key n b ds rule: selectDue.induct) (auto dest: selectDue_unblocked)

text \<open>Whatever is not taken has its place taken by one no later, or found all places taken by ones no later.\<close>

lemma selectDue_complete:
  assumes "sorted_wrt R ds" and "d \<in> set ds" and "key d \<notin> b" and "\<And>x. R x x"
  shows "(\<exists>c\<in>set (selectDue key n b ds). key c = key d \<and> R c d)
    \<or> length (selectDue key n b ds) = n \<and> (\<forall>c\<in>set (selectDue key n b ds). R c d)"
  using assms(1-3)
proof (induction key n b ds rule: selectDue.induct)
  case (1 key n b)
  then show ?case by simp
next
  case (2 key n b c ds)
  show ?case
  proof (cases "n = 0")
    case False
    note n = this
    show ?thesis
    proof (cases "key c \<in> b")
      case True
      with 2(5) have "d \<noteq> c" by auto
      then show ?thesis using 2(1) [OF n True] 2(3-5) n True by simp
    next
      case free: False
      have cd: "R c d" using 2(3,4) assms(4) by auto
      show ?thesis
      proof (cases "key c = key d")
        case True
        then show ?thesis using cd n free by simp
      next
        case False
        then have "d \<in> set ds" "key d \<notin> insert (key c) b" using 2(4,5) by auto
        with 2(2) [OF n free] 2(3) have "(\<exists>e\<in>set (selectDue key (n - 1) (insert (key c) b) ds). key e = key d \<and> R e d)
          \<or> length (selectDue key (n - 1) (insert (key c) b) ds) = n - 1
            \<and> (\<forall>e\<in>set (selectDue key (n - 1) (insert (key c) b) ds). R e d)" by simp
        then show ?thesis using cd n free by auto
      qed
    qed
  qed simp
qed

definition applyClaims :: "instant \<Rightarrow> duration \<Rightarrow> Delivery list \<Rightarrow> Memory \<Rightarrow> Memory" where
  "applyClaims now lease ds m =
     m\<lparr>mem_deliveries := fold (\<lambda>d. AList.update (del_ID d) (bump now d)) ds (mem_deliveries m),
       mem_leases := fold (\<lambda>d. AList.update (del_ID d) (now + lease)) ds (mem_leases m)\<rparr>"

lemma del_ID_bump [simp]: "del_ID (bump now d) = del_ID d"
  by (simp add: bump_def)

lemma deliveryKey_cong: "mem_events m = mem_events m' \<Longrightarrow> deliveryKey m d = deliveryKey m' d"
  by (simp add: deliveryKey_def refFor_def)

lemma deliveryKey_bump [simp]: "deliveryKey m (bump now d) = deliveryKey m d"
  by (simp add: deliveryKey_def refFor_def bump_def split: option.split)

lemma claimOrder_bump [simp]: "claimOrder (bump now d) = claimOrder d"
  by (simp add: claimOrder_def bump_def)

lemma claimLoop_select:
  "claimLoop now lease n blocked m ds =
     (applyClaims now lease (selectDue (deliveryKey m) n (set blocked) ds) m,
      map (bump now) (selectDue (deliveryKey m) n (set blocked) ds))"
proof (induction ds arbitrary: n blocked m)
  case Nil
  show ?case by (simp add: applyClaims_def)
next
  case (Cons d ds)
  let ?m = "m\<lparr>mem_deliveries := AList.update (del_ID d) (bump now d) (mem_deliveries m),
              mem_leases := AList.update (del_ID d) (now + lease) (mem_leases m)\<rparr>"
  have "deliveryKey ?m = deliveryKey m" by (rule ext) (rule deliveryKey_cong, simp)
  then show ?case by (simp add: Cons.IH Let_def applyClaims_def)
qed

section \<open>Well-formed queues\<close>

definition queue_wf :: "Memory \<Rightarrow> bool" where
  "queue_wf m \<longleftrightarrow> keys_distinct (mem_deliveries m) \<and>
     (\<forall>i d. map_of (mem_deliveries m) i = Some d \<longrightarrow> del_ID d = i \<and> i \<le> mem_deliveryIDs m)"

lemma queue_wf_ID: "queue_wf m \<Longrightarrow> map_of (mem_deliveries m) i = Some d \<Longrightarrow> del_ID d = i"
  unfolding queue_wf_def by blast

lemma queue_wf_stored:
  assumes "queue_wf m"
  shows "d \<in> snd ` set (mem_deliveries m) \<longleftrightarrow> map_of (mem_deliveries m) (del_ID d) = Some d"
proof
  assume "d \<in> snd ` set (mem_deliveries m)"
  then obtain i where "(i, d) \<in> set (mem_deliveries m)" by auto
  with assms have "map_of (mem_deliveries m) i = Some d" by (simp add: queue_wf_def)
  with assms show "map_of (mem_deliveries m) (del_ID d) = Some d" by (simp add: queue_wf_ID)
qed (force dest: map_of_SomeD)

lemma candidates_iff:
  assumes "queue_wf m"
  shows "d \<in> set (candidates m shard now) \<longleftrightarrow>
     map_of (mem_deliveries m) (del_ID d) = Some d \<and> candidate m shard now d"
  using queue_wf_stored [OF assms, of d] by (auto simp: candidates_def)

lemma blockedKeys_iff:
  assumes "queue_wf m"
  shows "k \<in> set (blockedKeys m now) \<longleftrightarrow>
     (\<exists>i d. map_of (mem_deliveries m) i = Some d \<and> liveClaim m now d \<and> deliveryKey m d = k)"
proof
  assume "k \<in> set (blockedKeys m now)"
  then obtain d where "d \<in> snd ` set (mem_deliveries m)" "liveClaim m now d" "deliveryKey m d = k"
    by (auto simp: blockedKeys_def)
  then show "\<exists>i d. map_of (mem_deliveries m) i = Some d \<and> liveClaim m now d \<and> deliveryKey m d = k"
    using queue_wf_stored [OF assms] by blast
qed (force simp: blockedKeys_def dest: map_of_SomeD)

text \<open>What a claim selects, and the store it leaves.\<close>

definition claimed :: "Memory \<Rightarrow> int \<Rightarrow> instant \<Rightarrow> int \<Rightarrow> Delivery list" where
  "claimed m shard now limit =
     selectDue (deliveryKey m) (nat (if limit \<le> 0 then 32 else limit)) (set (blockedKeys m now))
       (candidates m shard now)"

lemma ClaimDue_eq:
  "ClaimDue m shard now limit lease =
     (applyClaims now (if lease \<le> 0 then minute else lease) (claimed m shard now limit) m,
      map (bump now) (claimed m shard now limit))"
  by (simp add: ClaimDue_def claimLoop_select claimed_def Let_def)

lemma map_of_fold_update_in:
  "distinct (map k ds) \<Longrightarrow> d \<in> set ds \<Longrightarrow> map_of (fold (\<lambda>d. AList.update (k d) (v d)) ds m) (k d) = Some (v d)"
  by (induction ds rule: rev_induct) (auto, metis imageI)

lemma map_of_fold_update_out:
  "i \<notin> k ` set ds \<Longrightarrow> map_of (fold (\<lambda>d. AList.update (k d) (v d)) ds m) i = map_of m i"
  by (induction ds rule: rev_induct) auto

lemma keys_distinct_fold_update:
  "keys_distinct m \<Longrightarrow> keys_distinct (fold (\<lambda>d. AList.update (k d) (v d)) ds m)"
  by (induction ds rule: rev_induct) auto

lemma candidates_sorted: "sorted_wrt (\<lambda>c d. claimOrder c \<le> claimOrder d) (candidates m shard now)"
  using sorted_sort_key [of claimOrder] by (simp add: candidates_def sorted_map)

lemma claimed_candidate: "d \<in> set (claimed m shard now limit) \<Longrightarrow> d \<in> set (candidates m shard now)"
  using selectDue_subset unfolding claimed_def by fast

lemma claimed_IDs: "queue_wf m \<Longrightarrow> distinct (map del_ID (claimed m shard now limit))"
proof -
  assume wf: "queue_wf m"
  have "distinct (claimed m shard now limit)"
    using selectDue_distinct unfolding claimed_def by (metis distinct_map)
  moreover have "inj_on del_ID (set (claimed m shard now limit))"
  proof (rule inj_onI)
    fix c d
    assume "c \<in> set (claimed m shard now limit)" "d \<in> set (claimed m shard now limit)" "del_ID c = del_ID d"
    then have "map_of (mem_deliveries m) (del_ID d) = Some c" "map_of (mem_deliveries m) (del_ID d) = Some d"
      using claimed_candidate candidates_iff [OF wf] by metis+
    then show "c = d" by simp
  qed
  ultimately show ?thesis by (simp add: distinct_map)
qed

lemma applyClaims_in:
  assumes "queue_wf m" and "d \<in> set (claimed m shard now limit)"
  shows "map_of (mem_deliveries (applyClaims now lease (claimed m shard now limit) m)) (del_ID d) = Some (bump now d)
       \<and> map_of (mem_leases (applyClaims now lease (claimed m shard now limit) m)) (del_ID d) = Some (now + lease)"
  by (simp add: applyClaims_def map_of_fold_update_in [OF claimed_IDs [OF assms(1)] assms(2)])

lemma applyClaims_out:
  assumes "i \<notin> del_ID ` set ds"
  shows "map_of (mem_deliveries (applyClaims now lease ds m)) i = map_of (mem_deliveries m) i
       \<and> map_of (mem_leases (applyClaims now lease ds m)) i = map_of (mem_leases m) i"
  by (simp add: applyClaims_def map_of_fold_update_out [OF assms])

lemma applyClaims_frame [simp]:
  "mem_events (applyClaims now lease ds m) = mem_events m"
  "mem_deliveryIDs (applyClaims now lease ds m) = mem_deliveryIDs m"
  by (simp_all add: applyClaims_def)

section \<open>What a claim returns\<close>

lemma ClaimDue_facts:
  assumes "queue_wf m" and "ClaimDue m shard now limit lease = (m', cs)"
  shows "length cs \<le> nat (if limit \<le> 0 then 32 else limit)"
    and "sorted_wrt (\<lambda>c d. claimOrder c \<le> claimOrder d) cs"
    and "distinct (map (deliveryKey m) cs)"
    and "\<forall>c\<in>set cs. \<exists>d. map_of (mem_deliveries m) (del_ID c) = Some d \<and> candidate m shard now d \<and> c = bump now d
           \<and> deliveryKey m c \<notin> set (blockedKeys m now)
           \<and> map_of (mem_deliveries m') (del_ID c) = Some c
           \<and> map_of (mem_leases m') (del_ID c) = Some (now + (if lease \<le> 0 then minute else lease))"
    and "\<forall>i. i \<notin> del_ID ` set cs \<longrightarrow> map_of (mem_deliveries m') i = map_of (mem_deliveries m) i"
proof -
  let ?sel = "claimed m shard now limit"
  have cs: "cs = map (bump now) ?sel" and m': "m' = applyClaims now (if lease \<le> 0 then minute else lease) ?sel m"
    using assms(2) by (simp_all add: ClaimDue_eq)
  show "length cs \<le> nat (if limit \<le> 0 then 32 else limit)"
    unfolding cs claimed_def length_map by (rule selectDue_length)
  show "sorted_wrt (\<lambda>c d. claimOrder c \<le> claimOrder d) cs"
    unfolding cs claimed_def sorted_wrt_map claimOrder_bump by (rule selectDue_sorted) (rule candidates_sorted)
  have "map (deliveryKey m) cs = map (deliveryKey m) ?sel" by (simp add: cs)
  then show "distinct (map (deliveryKey m) cs)" unfolding claimed_def by (simp add: selectDue_distinct)
  show "\<forall>c\<in>set cs. \<exists>d. map_of (mem_deliveries m) (del_ID c) = Some d \<and> candidate m shard now d \<and> c = bump now d
           \<and> deliveryKey m c \<notin> set (blockedKeys m now)
           \<and> map_of (mem_deliveries m') (del_ID c) = Some c
           \<and> map_of (mem_leases m') (del_ID c) = Some (now + (if lease \<le> 0 then minute else lease))"
  proof
    fix c assume "c \<in> set cs"
    then obtain d where d: "d \<in> set ?sel" and c: "c = bump now d" by (auto simp: cs)
    from d have "deliveryKey m d \<notin> set (blockedKeys m now)" unfolding claimed_def by (rule selectDue_unblocked)
    moreover have "map_of (mem_deliveries m) (del_ID d) = Some d" "candidate m shard now d"
      using claimed_candidate [OF d] candidates_iff [OF assms(1)] by auto
    moreover note applyClaims_in [OF assms(1) d, of "if lease \<le> 0 then minute else lease"]
    ultimately show "\<exists>d. map_of (mem_deliveries m) (del_ID c) = Some d \<and> candidate m shard now d \<and> c = bump now d
           \<and> deliveryKey m c \<notin> set (blockedKeys m now)
           \<and> map_of (mem_deliveries m') (del_ID c) = Some c
           \<and> map_of (mem_leases m') (del_ID c) = Some (now + (if lease \<le> 0 then minute else lease))"
      unfolding c m' by (intro exI [of _ d]) simp
  qed
  have "del_ID ` set cs = del_ID ` set ?sel" by (simp add: cs image_image)
  then show "\<forall>i. i \<notin> del_ID ` set cs \<longrightarrow> map_of (mem_deliveries m') i = map_of (mem_deliveries m) i"
    unfolding m' using applyClaims_out by simp
qed

text \<open>
  C12: A claim is sound. It returns at most the requested number of deliveries, in order of sequence and
  identifier, no two for the same destination and transaction reference and none for a pair that has a
  live claim. Each is a stored delivery of the shard that is due, with one more attempt counted, and it
  is stored in flight under a lease; every other delivery is left as it was.
\<close>

theorem ClaimDue_sound:
  assumes "queue_wf m" and "ClaimDue m shard now limit lease = (m', cs)"
  shows "length cs \<le> nat (if limit \<le> 0 then 32 else limit)
       \<and> sorted_wrt (\<lambda>c d. claimOrder c \<le> claimOrder d) cs
       \<and> distinct (map (deliveryKey m) cs)
       \<and> (\<forall>c\<in>set cs. \<exists>d. map_of (mem_deliveries m) (del_ID c) = Some d \<and> candidate m shard now d \<and> c = bump now d
            \<and> deliveryKey m c \<notin> set (blockedKeys m now)
            \<and> map_of (mem_deliveries m') (del_ID c) = Some c
            \<and> map_of (mem_leases m') (del_ID c) = Some (now + (if lease \<le> 0 then minute else lease)))
       \<and> (\<forall>i. i \<notin> del_ID ` set cs \<longrightarrow> map_of (mem_deliveries m') i = map_of (mem_deliveries m) i)"
  using ClaimDue_facts [OF assms] by blast

text \<open>
  C13: A claim strands nothing and never jumps the queue. For a delivery that is due and whose destination and
  reference have no live claim, one whose previous claim lapsed included, the call claims it or a due delivery of the
  same pair that is earlier by sequence and identifier; and when it does not, it has claimed as many as the limit
  allows and everything claimed is earlier in that order.
\<close>

theorem ClaimDue_complete:
  assumes "queue_wf m" and "ClaimDue m shard now limit lease = (m', cs)"
    and "map_of (mem_deliveries m) i = Some d" and "candidate m shard now d"
    and "deliveryKey m d \<notin> set (blockedKeys m now)"
  shows "(\<exists>c\<in>set cs. deliveryKey m c = deliveryKey m d \<and> claimOrder c \<le> claimOrder d)
    \<or> length cs = nat (if limit \<le> 0 then 32 else limit) \<and> (\<forall>c\<in>set cs. claimOrder c \<le> claimOrder d)"
proof -
  let ?sel = "claimed m shard now limit"
  have cs: "cs = map (bump now) ?sel" using assms(2) by (simp add: ClaimDue_eq)
  have "del_ID d = i" using queue_wf_ID [OF assms(1,3)] .
  then have "d \<in> set (candidates m shard now)" using candidates_iff [OF assms(1)] assms(3,4) by simp
  then have "(\<exists>c\<in>set ?sel. deliveryKey m c = deliveryKey m d \<and> claimOrder c \<le> claimOrder d)
    \<or> length ?sel = nat (if limit \<le> 0 then 32 else limit) \<and> (\<forall>c\<in>set ?sel. claimOrder c \<le> claimOrder d)"
    unfolding claimed_def using assms(5)
    by (intro selectDue_complete [where R = "\<lambda>c d. claimOrder c \<le> claimOrder d"] candidates_sorted) simp_all
  then show ?thesis by (auto simp: cs)
qed

text \<open>Two deliveries of one transaction to one destination, the second still pending.\<close>

definition sampleDelivery :: "int \<Rightarrow> int \<Rightarrow> DeliveryStatus \<Rightarrow> instant \<Rightarrow> Delivery" where
  "sampleDelivery i sequence status retryAt =
     \<lparr>del_ID = i, del_TenantID = ''tnt_1'', del_EventID = ''sh_evt_1'', del_DestinationID = ''dst_1'',
      del_TransactionRef = ''ref'', del_Shard = 7, del_Sequence = sequence, del_Attempt = 0, del_Status = status,
      del_ResponseCode = 0, del_ResponseBody = [], del_Error = [], del_DurationMS = 0, del_IsReplay = False,
      del_NextRetryAt = retryAt, del_CreatedAt = 0, del_UpdatedAt = 0\<rparr>"

definition sampleQueue :: "DeliveryStatus \<Rightarrow> instant \<Rightarrow> Memory" where
  "sampleQueue status retryAt = NewMemory\<lparr>mem_deliveryIDs := 2,
     mem_deliveries := [(1, sampleDelivery 1 1 status retryAt), (2, sampleDelivery 2 2 DeliveryPending 0)]\<rparr>"

lemma sampleQueue_wf: "queue_wf (sampleQueue status retryAt)"
  by (simp add: queue_wf_def sampleQueue_def sampleDelivery_def)

lemmas sampleQueue_simps = sampleQueue_def sampleDelivery_def ClaimDue_def candidates_def candidate_def blockedKeys_def
  liveClaim_def claimOrder_def deliveryKey_def refFor_def bump_def DeliveryStatus_IsTerminal_def NewMemory_def
  is_zero_time_def zero_time_def second_def

lemma sampleQueue_claim:
  "snd (ClaimDue (sampleQueue DeliveryPending 0) 7 100 10 0) = [bump 100 (sampleDelivery 1 1 DeliveryPending 0)]"
  by (simp add: sampleQueue_simps Let_def)

theorem ClaimDue_sound_witness:
  "distinct (map (deliveryKey (sampleQueue DeliveryPending 0)) (snd (ClaimDue (sampleQueue DeliveryPending 0) 7 100 10 0)))"
  using ClaimDue_sound [OF sampleQueue_wf prod.collapse [symmetric], of DeliveryPending 0 7 100 10 0] by blast

definition twoReady :: Memory where
  "twoReady = NewMemory\<lparr>mem_deliveryIDs := 2, mem_deliveries :=
     [(1, sampleDelivery 1 2 DeliveryPending 0), (2, (sampleDelivery 2 1 DeliveryPending 0)\<lparr>del_DestinationID := ''dst_2''\<rparr>)]\<rparr>"

text \<open>With a limit of one, only the earlier of two deliveries that are ready is claimed.\<close>

theorem ClaimDue_complete_witness:
  "length (snd (ClaimDue twoReady 7 100 1 0)) = 1
   \<and> list_all (\<lambda>c. claimOrder c \<le> claimOrder (sampleDelivery 1 2 DeliveryPending 0)) (snd (ClaimDue twoReady 7 100 1 0))
   \<and> (\<exists>c\<in>set (snd (ClaimDue (sampleQueue DeliveryPending 0) 7 100 10 0)).
        claimOrder c \<le> claimOrder (sampleDelivery 2 2 DeliveryPending 0))"
proof -
  let ?m = "twoReady" and ?d = "sampleDelivery 1 2 DeliveryPending 0"
  have cs: "snd (ClaimDue ?m 7 100 1 0) = [bump 100 ((sampleDelivery 2 1 DeliveryPending 0)\<lparr>del_DestinationID := ''dst_2''\<rparr>)]"
    by (simp add: twoReady_def sampleQueue_simps Let_def)
  have wf: "queue_wf ?m" by (simp add: queue_wf_def twoReady_def sampleDelivery_def)
  have "map_of (mem_deliveries ?m) 1 = Some ?d" "candidate ?m 7 100 ?d" "deliveryKey ?m ?d \<notin> set (blockedKeys ?m 100)"
    by (simp_all add: twoReady_def sampleQueue_simps)
  from ClaimDue_complete [OF wf prod.collapse [symmetric, of "ClaimDue ?m 7 100 1 0"] this] cs
  have one: "\<forall>c\<in>set (snd (ClaimDue ?m 7 100 1 0)). claimOrder c \<le> claimOrder ?d" by auto
  let ?m' = "sampleQueue DeliveryPending 0" and ?d' = "sampleDelivery 2 2 DeliveryPending 0"
  have "map_of (mem_deliveries ?m') 2 = Some ?d'" "candidate ?m' 7 100 ?d'"
      "deliveryKey ?m' ?d' \<notin> set (blockedKeys ?m' 100)"
    by (simp_all add: sampleQueue_simps)
  from ClaimDue_complete [OF sampleQueue_wf prod.collapse [symmetric, of "ClaimDue ?m' 7 100 10 0"] this]
  have "\<exists>c\<in>set (snd (ClaimDue ?m' 7 100 10 0)). claimOrder c \<le> claimOrder ?d'" by (simp add: sampleQueue_claim)
  with one cs show ?thesis by (simp add: list_all_iff)
qed

section \<open>Independence of map iteration order\<close>

lemma selectDue_cong: "selectDue key n b ds = selectDue key' n b ds" if "\<And>d. d \<in> set ds \<Longrightarrow> key d = key' d"
  using that by (induction key n b ds rule: selectDue.induct) auto

lemma claimOrder_inj: "queue_wf m \<Longrightarrow> inj_on claimOrder (snd ` set (mem_deliveries m))"
  using queue_wf_stored by (intro inj_onI) (metis claimOrder_def option.inject prod.inject)

lemma candidates_order:
  assumes "queue_wf m" "queue_wf m'" and same: "map_of (mem_deliveries m) = map_of (mem_deliveries m')"
    and "\<And>d. candidate m shard now d = candidate m' shard now d"
  shows "candidates m shard now = candidates m' shard now"
proof -
  have "set (mem_deliveries m) = set (mem_deliveries m')"
  proof (rule set_eqI)
    fix x
    have "keys_distinct (mem_deliveries m)" "keys_distinct (mem_deliveries m')"
      using assms(1,2) by (simp_all add: queue_wf_def)
    then show "x \<in> set (mem_deliveries m) \<longleftrightarrow> x \<in> set (mem_deliveries m')"
      using same by (cases x) (simp only: in_set_map_of)
  qed
  moreover have "distinct (mem_deliveries m)" "distinct (mem_deliveries m')"
    using assms(1,2) by (auto simp: queue_wf_def distinct_map)
  ultimately have ms: "mset (mem_deliveries m) = mset (mem_deliveries m')"
    by (simp add: set_eq_iff_mset_eq_distinct)
  have f: "candidate m' shard now = candidate m shard now" using assms(4) by blast
  show ?thesis
    unfolding candidates_def f
  proof (rule sort_key_inj_key_eq)
    show "mset (filter (candidate m shard now) (map snd (mem_deliveries m))) =
        mset (sort_key claimOrder (filter (candidate m shard now) (map snd (mem_deliveries m'))))"
      using ms by simp
    show "inj_on claimOrder (set (filter (candidate m shard now) (map snd (mem_deliveries m))))"
      using claimOrder_inj [OF assms(1)] by (rule inj_on_subset) auto
  qed simp
qed

text \<open>
  The runtime's random map order does not matter: two stores that hold the same deliveries, leases
  and events, whatever the order their maps are iterated in, hand out the same deliveries in the same
  order.
\<close>

theorem ClaimDue_order_independent:
  assumes "queue_wf m" "queue_wf m'" and "map_of (mem_deliveries m) = map_of (mem_deliveries m')"
    and "map_of (mem_leases m) = map_of (mem_leases m')" and "map_of (mem_events m) = map_of (mem_events m')"
  shows "snd (ClaimDue m shard now limit lease) = snd (ClaimDue m' shard now limit lease)"
proof -
  have key: "deliveryKey m = deliveryKey m'" using assms(5) by (simp add: deliveryKey_def refFor_def fun_eq_iff)
  have live: "liveClaim m now = liveClaim m' now" using assms(4) by (simp add: liveClaim_def fun_eq_iff)
  have "candidates m shard now = candidates m' shard now"
    by (rule candidates_order [OF assms(1-3)]) (simp add: candidate_def assms(4))
  moreover have "set (blockedKeys m now) = set (blockedKeys m' now)"
    by (simp add: set_eq_iff blockedKeys_iff [OF assms(1)] blockedKeys_iff [OF assms(2)] assms(3) key live)
  ultimately show ?thesis by (simp add: ClaimDue_eq claimed_def key)
qed

theorem ClaimDue_order_independent_witness:
  "snd (ClaimDue (sampleQueue DeliveryPending 0) 7 100 10 0) =
   snd (ClaimDue ((sampleQueue DeliveryPending 0)\<lparr>mem_deliveries := rev (mem_deliveries (sampleQueue DeliveryPending 0))\<rparr>) 7 100 10 0)"
    (is "_ = snd (ClaimDue ?m 7 100 10 0)")
proof (rule ClaimDue_order_independent [OF sampleQueue_wf])
  show "queue_wf ?m" by (simp add: queue_wf_def sampleQueue_def sampleDelivery_def)
  show "map_of (mem_deliveries (sampleQueue DeliveryPending 0)) = map_of (mem_deliveries ?m)"
    by (rule ext) (simp add: sampleQueue_def)
qed simp_all

section \<open>One claim at a time for each transaction\<close>

datatype queue_op =
    QEnqueue instant Delivery
  | QClaim int instant int duration
  | QComplete instant Delivery
  | QSequence instant string string

fun opTime :: "queue_op \<Rightarrow> instant" where
  "opTime (QEnqueue t _) = t"
| "opTime (QClaim _ t _ _) = t"
| "opTime (QComplete t _) = t"
| "opTime (QSequence t _ _) = t"

fun queueOp :: "Memory \<Rightarrow> queue_op \<Rightarrow> Memory" where
  "queueOp m (QEnqueue t d) = fst (EnqueueDelivery t m d)"
| "queueOp m (QClaim shard t limit lease) = fst (ClaimDue m shard t limit lease)"
| "queueOp m (QComplete t d) = fst (CompleteDelivery t m d)"
| "queueOp m (QSequence t tenant ref) = fst (NextSequence m tenant ref)"

text \<open>The state with the time of its last operation; the clock does not go backwards, and only a claim
  puts a delivery in flight.\<close>

definition queue_step :: "instant \<times> Memory \<Rightarrow> queue_op \<Rightarrow> instant \<times> Memory" where
  "queue_step s x = (opTime x, queueOp (snd s) x)"

fun queue_ok :: "instant \<times> Memory \<Rightarrow> queue_op \<Rightarrow> bool" where
  "queue_ok s (QEnqueue t d) = (fst s \<le> t \<and> del_Status d \<noteq> DeliveryInFlight)"
| "queue_ok s (QComplete t d) = (fst s \<le> t \<and> del_Status d \<noteq> DeliveryInFlight)"
| "queue_ok s x = (fst s \<le> opTime x)"

definition single_flight :: "instant \<Rightarrow> Memory \<Rightarrow> bool" where
  "single_flight clock m \<longleftrightarrow>
     (\<forall>now i j d e. clock \<le> now \<longrightarrow> map_of (mem_deliveries m) i = Some d \<longrightarrow> map_of (mem_deliveries m) j = Some e \<longrightarrow>
        liveClaim m now d \<longrightarrow> liveClaim m now e \<longrightarrow> deliveryKey m d = deliveryKey m e \<longrightarrow> i = j)"

definition queue_inv :: "instant \<times> Memory \<Rightarrow> bool" where
  "queue_inv s \<longleftrightarrow> queue_wf (snd s) \<and> single_flight (fst s) (snd s)"

lemma single_flightD:
  "single_flight clock m \<Longrightarrow> clock \<le> now \<Longrightarrow> map_of (mem_deliveries m) i = Some d \<Longrightarrow>
   map_of (mem_deliveries m) j = Some e \<Longrightarrow> liveClaim m now d \<Longrightarrow> liveClaim m now e \<Longrightarrow>
   deliveryKey m d = deliveryKey m e \<Longrightarrow> i = j"
  unfolding single_flight_def by blast

text \<open>Writing a delivery that is not in flight, and dropping its lease, keeps the rule.\<close>

lemma single_flight_write:
  assumes "single_flight clock m" and "clock \<le> t" and "del_Status d \<noteq> DeliveryInFlight"
    and "map_of (mem_deliveries m') = (map_of (mem_deliveries m))(i \<mapsto> d)"
    and "\<And>j. j \<noteq> i \<Longrightarrow> map_of (mem_leases m') j = map_of (mem_leases m) j"
    and "mem_events m' = mem_events m" and "queue_wf m"
  shows "single_flight t m'"
  unfolding single_flight_def
proof (intro allI impI)
  fix now j k e f
  assume now: "t \<le> now" and jk: "map_of (mem_deliveries m') j = Some e" "map_of (mem_deliveries m') k = Some f"
    and live: "liveClaim m' now e" "liveClaim m' now f" and key: "deliveryKey m' e = deliveryKey m' f"
  have "j \<noteq> i" "k \<noteq> i" using jk live assms(3,4) by (auto simp: liveClaim_def split: if_splits)
  then have m: "map_of (mem_deliveries m) j = Some e" "map_of (mem_deliveries m) k = Some f"
    using jk assms(4) by auto
  then have "del_ID e = j" "del_ID f = k" using queue_wf_ID [OF assms(7)] by auto
  then have "liveClaim m now e" "liveClaim m now f"
    using live assms(5) \<open>j \<noteq> i\<close> \<open>k \<noteq> i\<close> by (auto simp: liveClaim_def)
  moreover have "deliveryKey m e = deliveryKey m f" using key deliveryKey_cong [OF assms(6)] by simp
  ultimately show "j = k" using single_flightD [OF assms(1) _ m] order_trans [OF assms(2) now] by metis
qed

lemma liveClaim_earlier: "liveClaim m now d \<Longrightarrow> t \<le> now \<Longrightarrow> liveClaim m t d"
  by (auto simp: liveClaim_def split: option.splits)

lemma ClaimDue_wf: "queue_wf m \<Longrightarrow> queue_wf (fst (ClaimDue m shard t limit lease))"
proof -
  assume wf: "queue_wf m"
  let ?m = "fst (ClaimDue m shard t limit lease)" and ?cs = "snd (ClaimDue m shard t limit lease)"
  note facts = ClaimDue_facts [OF wf prod.collapse [symmetric], of shard t limit lease]
  have "del_ID d = i \<and> i \<le> mem_deliveryIDs m" if d: "map_of (mem_deliveries ?m) i = Some d" for i d
  proof (cases "i \<in> del_ID ` set ?cs")
    case True
    then obtain c where c: "c \<in> set ?cs" "del_ID c = i" by auto
    with facts(4) d have "d = c" "map_of (mem_deliveries m) i \<noteq> None" by auto
    with c wf show ?thesis by (auto simp: queue_wf_def)
  next
    case False
    with facts(5) d wf show ?thesis by (simp add: queue_wf_def)
  qed
  moreover have "keys_distinct (mem_deliveries ?m)" "mem_deliveryIDs ?m = mem_deliveryIDs m"
    using wf by (simp_all add: ClaimDue_eq applyClaims_def keys_distinct_fold_update queue_wf_def)
  ultimately show ?thesis by (simp add: queue_wf_def)
qed

lemma ClaimDue_single_flight:
  assumes wf: "queue_wf m" and sf: "single_flight clock m" and t: "clock \<le> t"
  shows "single_flight t (fst (ClaimDue m shard t limit lease))"
  unfolding single_flight_def
proof (intro allI impI)
  let ?m = "fst (ClaimDue m shard t limit lease)" and ?cs = "snd (ClaimDue m shard t limit lease)"
  note facts = ClaimDue_facts [OF wf prod.collapse [symmetric], of shard t limit lease]
  have keq: "deliveryKey ?m d = deliveryKey m d" for d by (rule deliveryKey_cong) (simp add: ClaimDue_eq)
  have old: "map_of (mem_deliveries m) j = Some e \<and> liveClaim m now e \<and> deliveryKey m e \<in> set (blockedKeys m t)"
    if "j \<notin> del_ID ` set ?cs" "map_of (mem_deliveries ?m) j = Some e" "liveClaim ?m now e" "t \<le> now" for j e now
  proof -
    have e: "map_of (mem_deliveries m) j = Some e" using facts(5) that by simp
    have "j \<notin> del_ID ` set (claimed m shard t limit)" using that(1) by (simp add: ClaimDue_eq image_image)
    from applyClaims_out [OF this] queue_wf_ID [OF wf e] that(3) have "liveClaim m now e"
      by (simp add: liveClaim_def ClaimDue_eq)
    with e liveClaim_earlier [OF _ that(4)] blockedKeys_iff [OF wf] show ?thesis by blast
  qed
  have new: "deliveryKey m e \<notin> set (blockedKeys m t) \<and> e \<in> set ?cs"
    if "j \<in> del_ID ` set ?cs" "map_of (mem_deliveries ?m) j = Some e" for j e
    using facts(4) that by auto
  fix now i j d e
  assume now: "t \<le> now" and ij: "map_of (mem_deliveries ?m) i = Some d" "map_of (mem_deliveries ?m) j = Some e"
    and live: "liveClaim ?m now d" "liveClaim ?m now e" and key: "deliveryKey ?m d = deliveryKey ?m e"
  have id: "del_ID d = i" "del_ID e = j" using queue_wf_ID [OF ClaimDue_wf [OF wf]] ij by auto
  have key': "deliveryKey m d = deliveryKey m e" using key keq by simp
  consider "i \<notin> del_ID ` set ?cs" "j \<notin> del_ID ` set ?cs" | "i \<in> del_ID ` set ?cs" "j \<in> del_ID ` set ?cs"
    | "(i \<in> del_ID ` set ?cs) \<noteq> (j \<in> del_ID ` set ?cs)" by blast
  then show "i = j"
  proof cases
    case 1
    then show ?thesis
      using single_flightD [OF sf _ _ _ _ _ key'] old ij live now order_trans [OF t now] by metis
  next
    case 2
    then have "d \<in> set ?cs" "e \<in> set ?cs" using new ij by blast+
    then have "d = e" using facts(3) key' by (simp add: distinct_map inj_on_def)
    then show ?thesis using id by simp
  next
    case 3
    then show ?thesis using new old ij live now key' by metis
  qed
qed

lemma Enqueue_deliveries:
  obtains d' where "map_of (mem_deliveries (fst (EnqueueDelivery t m d))) =
      (map_of (mem_deliveries m))(mem_deliveryIDs m + 1 \<mapsto> d')"
    "del_ID d' = mem_deliveryIDs m + 1" "del_Status d' = del_Status d"
proof -
  let ?d = "map_of (mem_deliveries (fst (EnqueueDelivery t m d))) (mem_deliveryIDs m + 1)"
  show ?thesis
    by (rule that [of "the ?d"])
       (auto simp: EnqueueDelivery_def Let_def fun_eq_iff split: option.split)
qed

lemma Enqueue_frame [simp]:
  "mem_events (fst (EnqueueDelivery t m d)) = mem_events m"
  "mem_leases (fst (EnqueueDelivery t m d)) = mem_leases m"
  "mem_deliveryIDs (fst (EnqueueDelivery t m d)) = mem_deliveryIDs m + 1"
  "keys_distinct (mem_deliveries m) \<Longrightarrow> keys_distinct (mem_deliveries (fst (EnqueueDelivery t m d)))"
  by (simp_all add: EnqueueDelivery_def Let_def)

lemma CompleteDelivery_cases:
  obtains (refused) "CompleteDelivery t m d = (m, Some StoreNotFound)"
  | (written) existing where "map_of (mem_deliveries m) (del_ID d) = Some existing"
      "del_TenantID existing = del_TenantID d"
      "CompleteDelivery t m d = (m\<lparr>mem_deliveries := AList.update (del_ID d)
          (d\<lparr>del_CreatedAt := del_CreatedAt existing, del_UpdatedAt := t\<rparr>) (mem_deliveries m),
        mem_leases := AList.delete (del_ID d) (mem_leases m)\<rparr>, None)"
proof (cases "map_of (mem_deliveries m) (del_ID d)")
  case None
  then show ?thesis by (intro refused) (simp add: CompleteDelivery_def)
next
  case (Some existing)
  then show ?thesis
    by (cases "del_TenantID existing = del_TenantID d")
       (simp_all add: refused written [OF Some] CompleteDelivery_def)
qed

interpretation queue: machine queue_step queue_ok queue_inv
proof
  fix s x
  assume inv: "queue_inv s" and ok: "queue_ok s x"
  then have wf: "queue_wf (snd s)" and sf: "single_flight (fst s) (snd s)" by (simp_all add: queue_inv_def)
  show "queue_inv (queue_step s x)"
  proof (cases x)
    case (QEnqueue t d)
    obtain d' where d': "map_of (mem_deliveries (fst (EnqueueDelivery t (snd s) d))) =
      (map_of (mem_deliveries (snd s)))(mem_deliveryIDs (snd s) + 1 \<mapsto> d')"
      "del_ID d' = mem_deliveryIDs (snd s) + 1" "del_Status d' = del_Status d" by (rule Enqueue_deliveries)
    have "queue_wf (fst (EnqueueDelivery t (snd s) d))"
      using wf d' by (fastforce simp: queue_wf_def)
    moreover have "single_flight t (fst (EnqueueDelivery t (snd s) d))"
      using ok QEnqueue d' by (intro single_flight_write [OF sf _ _ d'(1) _ _ wf]) auto
    ultimately show ?thesis using QEnqueue by (simp add: queue_inv_def queue_step_def)
  next
    case (QClaim shard t limit lease)
    with ok ClaimDue_wf [OF wf] ClaimDue_single_flight [OF wf sf] show ?thesis
      by (simp add: queue_inv_def queue_step_def)
  next
    case (QComplete t d)
    show ?thesis
    proof (rule CompleteDelivery_cases [of t "snd s" d])
      assume "CompleteDelivery t (snd s) d = (snd s, Some StoreNotFound)"
      moreover have "single_flight t (snd s)"
        using sf ok QComplete unfolding single_flight_def by (auto dest: order_trans)
      ultimately show ?thesis using QComplete wf by (simp add: queue_inv_def queue_step_def)
    next
      fix existing
      assume e: "map_of (mem_deliveries (snd s)) (del_ID d) = Some existing"
        and c: "CompleteDelivery t (snd s) d = ((snd s)\<lparr>mem_deliveries := AList.update (del_ID d)
          (d\<lparr>del_CreatedAt := del_CreatedAt existing, del_UpdatedAt := t\<rparr>) (mem_deliveries (snd s)),
        mem_leases := AList.delete (del_ID d) (mem_leases (snd s))\<rparr>, None)"
      have "queue_wf (fst (CompleteDelivery t (snd s) d))"
        using wf e unfolding c by (simp add: queue_wf_def)
      moreover have "single_flight t (fst (CompleteDelivery t (snd s) d))"
        using ok QComplete unfolding c
        by (intro single_flight_write [OF sf _ _ _ _ _ wf, where i = "del_ID d"
              and d = "d\<lparr>del_CreatedAt := del_CreatedAt existing, del_UpdatedAt := t\<rparr>"]) auto
      ultimately show ?thesis using QComplete by (simp add: queue_inv_def queue_step_def)
    qed
  next
    case (QSequence t tenant ref)
    have q: "mem_deliveries (fst (NextSequence (snd s) tenant ref)) = mem_deliveries (snd s)"
      "mem_leases (fst (NextSequence (snd s) tenant ref)) = mem_leases (snd s)"
      "mem_events (fst (NextSequence (snd s) tenant ref)) = mem_events (snd s)"
      "mem_deliveryIDs (fst (NextSequence (snd s) tenant ref)) = mem_deliveryIDs (snd s)"
      by (simp_all add: NextSequence_def Let_def)
    have "single_flight t (fst (NextSequence (snd s) tenant ref))"
      using sf ok QSequence order_trans [of "fst s" t]
      unfolding single_flight_def liveClaim_def deliveryKey_def refFor_def q by (metis opTime.simps(4) queue_ok.simps(4))
    then show ?thesis using wf QSequence by (simp add: queue_inv_def queue_step_def queue_wf_def q)
  qed
qed

text \<open>
  C4: Two events about one transaction are never in flight to one destination at once. In every state
  that any interleaving of enqueues, claims by any number of dispatchers and completions reaches, with a
  clock that does not go backwards, at any later moment at most one delivery for a destination and a
  transaction reference is in flight under a live lease.
\<close>

theorem one_in_flight:
  assumes "legal queue_ok queue_step (t0, NewMemory) xs"
    and "(clock, m) = foldl queue_step (t0, NewMemory) xs" and "clock \<le> now"
    and "map_of (mem_deliveries m) i = Some d" "liveClaim m now d"
    and "map_of (mem_deliveries m) j = Some e" "liveClaim m now e"
    and "del_DestinationID d = del_DestinationID e" "refFor m d = refFor m e"
  shows "i = j"
proof -
  have "queue_inv (clock, m)"
    unfolding assms(2)
    by (rule queue.run_inv [OF _ assms(1)]) (simp add: queue_inv_def queue_wf_def single_flight_def NewMemory_def)
  then have "single_flight clock m" by (simp add: queue_inv_def)
  from single_flightD [OF this assms(3,4,6,5,7)] assms(8,9) show ?thesis by (simp add: deliveryKey_def)
qed

text \<open>A run: two deliveries of one transaction, the first claimed at time 20.\<close>

definition sampleRun :: "queue_op list" where
  "sampleRun = [QEnqueue 10 (sampleDelivery 0 1 DeliveryPending 0), QEnqueue 11 (sampleDelivery 0 2 DeliveryPending 0),
     QClaim 7 20 10 0]"

lemma EnqueueDelivery_plain:
  "del_TransactionRef d \<noteq> [] \<Longrightarrow> \<not> is_zero_time (del_CreatedAt d) \<Longrightarrow>
   fst (EnqueueDelivery t m d) = m\<lparr>mem_deliveryIDs := mem_deliveryIDs m + 1, mem_deliveries :=
      AList.update (mem_deliveryIDs m + 1)
        (d\<lparr>del_ID := mem_deliveryIDs m + 1, del_UpdatedAt := del_CreatedAt d\<rparr>) (mem_deliveries m)\<rparr>"
  by (simp add: EnqueueDelivery_def Let_def)

lemma sampleDelivery_enqueue:
  "fst (EnqueueDelivery t m (sampleDelivery i sequence status r)) = m\<lparr>mem_deliveryIDs := mem_deliveryIDs m + 1,
     mem_deliveries := AList.update (mem_deliveryIDs m + 1)
       (sampleDelivery (mem_deliveryIDs m + 1) sequence status r) (mem_deliveries m)\<rparr>"
  by (subst EnqueueDelivery_plain) (simp_all add: sampleDelivery_def is_zero_time_def zero_time_def second_def)

lemma sampleQueue_leased:
  "fst (ClaimDue (sampleQueue DeliveryPending 0) 7 20 10 0) =
     NewMemory\<lparr>mem_deliveryIDs := 2,
        mem_deliveries := [(1, bump 20 (sampleDelivery 1 1 DeliveryPending 0)), (2, sampleDelivery 2 2 DeliveryPending 0)],
        mem_leases := [(1, 20 + minute)]\<rparr>"
proof -
  have "claimed (sampleQueue DeliveryPending 0) 7 20 10 = [sampleDelivery 1 1 DeliveryPending 0]"
    by (simp add: claimed_def sampleQueue_simps)
  moreover have "del_ID (sampleDelivery 1 1 DeliveryPending 0) = 1" "mem_leases NewMemory = []"
    by (simp_all add: sampleDelivery_def NewMemory_def)
  ultimately show ?thesis
    unfolding ClaimDue_eq applyClaims_def by (simp only: fst_conv) (simp add: sampleQueue_def)
qed

lemma sampleRun_state:
  "legal queue_ok queue_step (0, NewMemory) sampleRun"
  "foldl queue_step (0, NewMemory) sampleRun =
     (20, NewMemory\<lparr>mem_deliveryIDs := 2,
        mem_deliveries := [(1, bump 20 (sampleDelivery 1 1 DeliveryPending 0)), (2, sampleDelivery 2 2 DeliveryPending 0)],
        mem_leases := [(1, 20 + minute)]\<rparr>)"
proof -
  show "legal queue_ok queue_step (0, NewMemory) sampleRun"
    by (simp add: sampleRun_def queue_step_def) (simp add: sampleDelivery_def)
  have "mem_deliveryIDs NewMemory = 0" "mem_deliveries NewMemory = []" by (simp_all add: NewMemory_def)
  then have "foldl queue_step (0, NewMemory) (take 2 sampleRun) = (11, sampleQueue DeliveryPending 0)"
    by (simp add: sampleRun_def queue_step_def sampleDelivery_enqueue sampleQueue_def)
  then show "foldl queue_step (0, NewMemory) sampleRun =
     (20, NewMemory\<lparr>mem_deliveryIDs := 2,
        mem_deliveries := [(1, bump 20 (sampleDelivery 1 1 DeliveryPending 0)), (2, sampleDelivery 2 2 DeliveryPending 0)],
        mem_leases := [(1, 20 + minute)]\<rparr>)"
    by (simp add: sampleRun_def queue_step_def sampleQueue_leased)
qed

theorem one_in_flight_witness:
  "\<not> liveClaim (snd (foldl queue_step (0, NewMemory) sampleRun)) 30 (sampleDelivery 2 2 DeliveryPending 0)"
proof
  let ?s = "foldl queue_step (0, NewMemory) sampleRun"
  let ?d = "bump 20 (sampleDelivery 1 1 DeliveryPending 0)" and ?e = "sampleDelivery 2 2 DeliveryPending 0"
  assume live: "liveClaim (snd ?s) 30 ?e"
  have d: "map_of (mem_deliveries (snd ?s)) 1 = Some ?d" "liveClaim (snd ?s) 30 ?d" "fst ?s \<le> 30"
    and e: "map_of (mem_deliveries (snd ?s)) 2 = Some ?e"
    by (simp_all add: sampleRun_state liveClaim_def bump_def sampleDelivery_def minute_def second_def)
  have "(1 :: int) = 2"
    by (rule one_in_flight [OF sampleRun_state(1) prod.collapse d(3) d(1,2) e live])
       (simp_all add: bump_def sampleDelivery_def refFor_def)
  then show False by simp
qed

section \<open>Sequences\<close>

fun allocate :: "Memory \<Rightarrow> (string \<times> string) list \<Rightarrow> ((string \<times> string) \<times> int) list" where
  "allocate m [] = []"
| "allocate m ((t, r) # xs) = ((t, r), snd (NextSequence m t r)) # allocate (fst (NextSequence m t r)) xs"

lemma NextSequence_counter:
  "lookupOr 0 (mem_sequences (fst (NextSequence m t r))) k =
     (if k = t @ ''|'' @ r then snd (NextSequence m t r) else lookupOr 0 (mem_sequences m) k)"
  "snd (NextSequence m t r) = lookupOr 0 (mem_sequences m) (t @ ''|'' @ r) + 1"
  by (simp_all add: NextSequence_def Let_def lookupOr_def)

lemma allocate_above:
  "((t, r), n) \<in> set (allocate m xs) \<Longrightarrow> lookupOr 0 (mem_sequences m) (t @ ''|'' @ r) < n"
proof (induction m xs rule: allocate.induct)
  case (2 m t' r' xs)
  then show ?case
    using NextSequence_counter [of m t' r'] by (auto split: if_splits)
qed simp

text \<open>
  Sequence numbers order a transaction: whatever allocations are interleaved, the numbers handed out
  for one tenant and reference strictly increase.
\<close>

theorem NextSequence_increasing:
  "sorted_wrt (<) (map snd (filter (\<lambda>x. fst x = (t, r)) (allocate m xs)))"
proof (induction xs arbitrary: m)
  case (Cons x xs)
  obtain t' r' where x: "x = (t', r')" by (cases x)
  let ?m = "fst (NextSequence m t' r')"
  have "snd (NextSequence m t r) < n" if "((t, r), n) \<in> set (allocate ?m xs)" "(t', r') = (t, r)" for n
    using allocate_above [OF that(1)] that(2) NextSequence_counter(1) [of m t r "t @ ''|'' @ r"] by simp
  with Cons [of ?m] x show ?case by auto
qed simp

section \<open>Overtaking\<close>

text \<open>
  Serialised is not ordered. A reachable queue: the first event of a transaction was claimed, failed
  and waits for its retry; the second, enqueued after it with a higher sequence, is claimed and sent
  while the first is still undelivered. The retried attempt is overtaken by an event queued after it.
\<close>

theorem ClaimDue_overtakes:
  "\<exists>xs m first second.
     legal queue_ok queue_step (0, NewMemory) xs \<and> m = snd (foldl queue_step (0, NewMemory) xs)
   \<and> map_of (mem_deliveries m) (del_ID first) = Some first \<and> \<not> DeliveryStatus_IsTerminal (del_Status first)
   \<and> snd (ClaimDue m 7 30 10 0) = [second] \<and> deliveryKey m first = deliveryKey m second
   \<and> del_Sequence first < del_Sequence second"
proof -
  let ?xs = "sampleRun @ [QComplete 25 (sampleDelivery 1 1 DeliveryFailed 500)]"
  let ?first = "sampleDelivery 1 1 DeliveryFailed 500\<lparr>del_UpdatedAt := 25\<rparr>"
  let ?m = "NewMemory\<lparr>mem_deliveryIDs := 2,
    mem_deliveries := [(1, ?first), (2, sampleDelivery 2 2 DeliveryPending 0)], mem_leases := []\<rparr>"
  have "legal queue_ok queue_step (0, NewMemory) ?xs"
    by (simp add: legal_append sampleRun_state) (simp add: sampleDelivery_def)
  moreover have "?m = snd (foldl queue_step (0, NewMemory) ?xs)"
    by (simp add: sampleRun_state) (simp add: queue_step_def CompleteDelivery_def bump_def sampleDelivery_def)
  moreover have "snd (ClaimDue ?m 7 30 10 0) = [bump 30 (sampleDelivery 2 2 DeliveryPending 0)]"
    by (simp add: sampleQueue_simps Let_def)
  moreover have "map_of (mem_deliveries ?m) (del_ID ?first) = Some ?first"
    "\<not> DeliveryStatus_IsTerminal (del_Status ?first)"
    "deliveryKey ?m ?first = deliveryKey ?m (bump 30 (sampleDelivery 2 2 DeliveryPending 0))"
    "del_Sequence ?first < del_Sequence (bump 30 (sampleDelivery 2 2 DeliveryPending 0))"
    by (simp_all add: sampleQueue_simps)
  ultimately show ?thesis by blast
qed

end
