(* ===== verification/Checkpoint.thy ===== *)
theory Checkpoint
  imports Audit_Chain Store_Spec
begin

text \<open>
  Signed checkpoints of the audit chains: \<^verbatim>\<open>internal/audit/audit.go\<close>. Base64 and Ed25519 are the fields
  of \<open>SignLib\<close>; a signer is its public key and its signing function. Metrics and logging are left out.
  The store is the in-memory one, whose \<open>VerifyChain\<close> and \<open>ListTenants\<close> do not fail.
\<close>

section \<open>Checkpoints and signatures\<close>

record Checkpoint =
  ck_TenantID :: string
  ck_Records :: int
  ck_HeadHash :: string
  ck_Through :: gotime
  ck_VerifiedAt :: gotime
  ck_Signature :: string
  ck_PublicKey :: string
  ck_Intact :: bool
  ck_BrokenAt :: string
  ck_Reason :: string

record SignLib =
  sl_encode :: "string \<Rightarrow> string"
  sl_decode :: "string \<Rightarrow> string option"
  sl_verify :: "string \<Rightarrow> string \<Rightarrow> string \<Rightarrow> bool"

record Signer =
  sg_sign :: "string \<Rightarrow> string"
  sg_public :: string

definition formatBool :: "bool \<Rightarrow> string" where
  "formatBool b = (if b then ''true'' else ''false'')"

definition signedPayload :: "AuditLib \<Rightarrow> Checkpoint \<Rightarrow> string" where
  "signedPayload L c =
     ''statushub-checkpoint-v1|'' @ ck_TenantID c @ ''|'' @ FormatInt (ck_Records c) @ ''|'' @ ck_HeadHash c
       @ ''|'' @ lib_rfc3339 L (gt_instant (to_UTC (ck_Through c))) @ ''|'' @ formatBool (ck_Intact c)
       @ ''|'' @ ck_BrokenAt c"

definition PublicKey :: "SignLib \<Rightarrow> Signer \<Rightarrow> string" where
  "PublicKey S s = sl_encode S (sg_public s)"

definition SignCheckpoint :: "AuditLib \<Rightarrow> SignLib \<Rightarrow> Signer \<Rightarrow> Checkpoint \<Rightarrow> Checkpoint" where
  "SignCheckpoint L S s c =
     (let c = c\<lparr>ck_PublicKey := PublicKey S s\<rparr>
      in c\<lparr>ck_Signature := sl_encode S (sg_sign s (signedPayload L c))\<rparr>)"

datatype checkpoint_error = KeyNotBase64 | KeyWrongLength nat | SignatureNotBase64 | SignatureMismatch

definition VerifyCheckpoint :: "AuditLib \<Rightarrow> SignLib \<Rightarrow> Checkpoint \<Rightarrow> string \<Rightarrow> checkpoint_error option" where
  "VerifyCheckpoint L S c publicKeyB64 =
     (case sl_decode S publicKeyB64 of
        None \<Rightarrow> Some KeyNotBase64
      | Some pub \<Rightarrow>
          if length pub \<noteq> 32 then Some (KeyWrongLength (length pub))
          else (case sl_decode S (ck_Signature c) of
                  None \<Rightarrow> Some SignatureNotBase64
                | Some sig \<Rightarrow>
                    if \<not> sl_verify S pub (signedPayload L c) sig then Some SignatureMismatch else None))"

section \<open>The checkpoint store\<close>

type_synonym CheckpointStore = "(string \<times> Checkpoint list) list"

definition checkpointsOf :: "CheckpointStore \<Rightarrow> string \<Rightarrow> Checkpoint list" where
  "checkpointsOf s tenantID = lookupOr [] s tenantID"

definition PutCheckpoint :: "CheckpointStore \<Rightarrow> Checkpoint \<Rightarrow> CheckpointStore" where
  "PutCheckpoint s c = AList.update (ck_TenantID c) (checkpointsOf s (ck_TenantID c) @ [c]) s"

definition LatestCheckpoint :: "CheckpointStore \<Rightarrow> string \<Rightarrow> Checkpoint option" where
  "LatestCheckpoint s tenantID =
     (let all = checkpointsOf s tenantID in if all = [] then None else Some (last all))"

definition ListCheckpoints :: "CheckpointStore \<Rightarrow> string \<Rightarrow> int \<Rightarrow> Checkpoint list" where
  "ListCheckpoints s tenantID limit =
     (let all = checkpointsOf s tenantID;
          limit = (if limit \<le> 0 \<or> limit > int (length all) then int (length all) else limit)
      in take (nat limit) (rev all))"

section \<open>The verifier\<close>

text \<open>RFC 3339 without a fraction is the formatter at whole seconds.\<close>

definition removedText :: "AuditLib \<Rightarrow> int \<Rightarrow> Checkpoint \<Rightarrow> string" where
  "removedText L records prev =
     ''the chain has '' @ FormatInt records @ '' records but the checkpoint at ''
       @ lib_rfc3339 L (gt_instant (Truncate (ck_VerifiedAt prev) second)) @ '' recorded '' @ FormatInt (ck_Records prev)
       @ ''; records have been removed''"

definition VerifyTenant ::
    "AuditLib \<Rightarrow> SignLib \<Rightarrow> Signer option \<Rightarrow> gotime \<Rightarrow> 'a AuditTables_scheme \<Rightarrow> CheckpointStore \<Rightarrow> string
     \<Rightarrow> CheckpointStore \<times> Checkpoint" where
  "VerifyTenant L S signer now m checkpoints tenantID =
     (let chain = VerifyChain L now m tenantID;
          c = \<lparr>ck_TenantID = tenantID, ck_Records = cp_Records chain, ck_HeadHash = cp_Head chain,
               ck_Through = cp_To chain, ck_VerifiedAt = now, ck_Signature = [], ck_PublicKey = [],
               ck_Intact = cp_Intact chain, ck_BrokenAt = cp_BrokenAt chain, ck_Reason = cp_Reason chain\<rparr>;
          c = (case LatestCheckpoint checkpoints tenantID of
                 Some prev \<Rightarrow>
                   if ck_Intact prev \<and> cp_Records chain < ck_Records prev
                   then c\<lparr>ck_Intact := False, ck_Reason := removedText L (cp_Records chain) prev\<rparr>
                   else c
               | None \<Rightarrow> c);
          c = (case signer of Some s \<Rightarrow> SignCheckpoint L S s c | None \<Rightarrow> c)
      in (PutCheckpoint checkpoints c, c))"

record VerifyResult =
  vr_Tenants :: int
  vr_Broken :: "Checkpoint list"

fun verifyLoop ::
    "AuditLib \<Rightarrow> SignLib \<Rightarrow> Signer option \<Rightarrow> gotime \<Rightarrow> 'a AuditTables_scheme \<Rightarrow> CheckpointStore \<Rightarrow> string list
     \<Rightarrow> VerifyResult \<Rightarrow> CheckpointStore \<times> VerifyResult" where
  "verifyLoop L S signer now m checkpoints [] res = (checkpoints, res)"
| "verifyLoop L S signer now m checkpoints (t # ts) res =
     (let (checkpoints, c) = VerifyTenant L S signer now m checkpoints t;
          res = res\<lparr>vr_Tenants := vr_Tenants res + 1\<rparr>;
          res = (if \<not> ck_Intact c then res\<lparr>vr_Broken := vr_Broken res @ [c]\<rparr> else res)
      in verifyLoop L S signer now m checkpoints ts res)"

definition VerifyAll ::
    "AuditLib \<Rightarrow> SignLib \<Rightarrow> Signer option \<Rightarrow> gotime \<Rightarrow> Memory \<Rightarrow> CheckpointStore \<Rightarrow> CheckpointStore \<times> VerifyResult" where
  "VerifyAll L S signer now m checkpoints =
     verifyLoop L S signer now m checkpoints (map ten_ID (sort_key ten_ID (ListTenants m)))
       \<lparr>vr_Tenants = 0, vr_Broken = []\<rparr>"

section \<open>Lemmas\<close>

lemma SignCheckpoint_fields [simp]:
  "ck_TenantID (SignCheckpoint L S s c) = ck_TenantID c" "ck_Records (SignCheckpoint L S s c) = ck_Records c"
  "ck_Intact (SignCheckpoint L S s c) = ck_Intact c" "ck_HeadHash (SignCheckpoint L S s c) = ck_HeadHash c"
  "ck_BrokenAt (SignCheckpoint L S s c) = ck_BrokenAt c"
  by (simp_all add: SignCheckpoint_def Let_def)

lemma VerifyTenant_tenant [simp]: "ck_TenantID (snd (VerifyTenant L S sg now m s t)) = t"
  by (simp add: VerifyTenant_def Let_def split: option.split)

lemma VerifyTenant_records [simp]:
  "ck_Records (snd (VerifyTenant L S sg now m s t)) = int (length (auditOf m t))"
  by (simp add: VerifyTenant_def Let_def split: option.split)

lemma VerifyTenant_head [simp]:
  "ck_HeadHash (snd (VerifyTenant L S sg now m s t)) = cp_Head (VerifyChain L now m t)"
  by (simp add: VerifyTenant_def Let_def split: option.split)

lemma VerifyTenant_intact:
  "ck_Intact (snd (VerifyTenant L S sg now m s t)) \<longleftrightarrow>
     cp_Intact (VerifyChain L now m t)
   \<and> (\<forall>prev. LatestCheckpoint s t = Some prev \<and> ck_Intact prev \<longrightarrow> ck_Records prev \<le> int (length (auditOf m t)))"
  by (auto simp: VerifyTenant_def Let_def split: option.split)

lemma VerifyTenant_published:
  "fst (VerifyTenant L S sg now m s t) = PutCheckpoint s (snd (VerifyTenant L S sg now m s t))"
  by (simp add: VerifyTenant_def Let_def)

lemma LatestCheckpoint_put: "LatestCheckpoint (PutCheckpoint s c) t =
     (if t = ck_TenantID c then Some c else LatestCheckpoint s t)"
  by (simp add: LatestCheckpoint_def PutCheckpoint_def checkpointsOf_def lookupOr_def)

section \<open>Properties\<close>

text \<open>
  What a published checkpoint says: every walk publishes exactly one checkpoint for the tenant, an
  unfavourable one included; it is marked intact exactly when the chain verifies and has no fewer
  records than the last checkpoint, if that one was intact; and its head is the head of the walk.
\<close>

theorem VerifyTenant_spec:
  "checkpointsOf (fst (VerifyTenant L S sg now m s t)) t = checkpointsOf s t @ [snd (VerifyTenant L S sg now m s t)]
 \<and> (ck_Intact (snd (VerifyTenant L S sg now m s t)) \<longleftrightarrow>
      auditChain L (auditOf m t)
    \<and> (case LatestCheckpoint s t of
         None \<Rightarrow> True
       | Some prev \<Rightarrow> \<not> (ck_Intact prev \<and> int (length (auditOf m t)) < ck_Records prev)))
 \<and> ck_HeadHash (snd (VerifyTenant L S sg now m s t)) = cp_Head (VerifyChain L now m t)"
  by (auto simp: VerifyTenant_published PutCheckpoint_def checkpointsOf_def lookupOr_def
      VerifyTenant_intact VerifyChain_Intact split: option.split)

text \<open>
  A checkpoint the signer signed verifies under its published key, for any Base64 that decodes what
  it encoded and any signature scheme that accepts its own signatures.
\<close>

theorem VerifyCheckpoint_Sign:
  assumes base64: "\<And>x. sl_decode S (sl_encode S x) = Some x"
    and ed25519: "\<And>msg. sl_verify S (sg_public s) msg (sg_sign s msg)" and "length (sg_public s) = 32"
  shows "VerifyCheckpoint L S (SignCheckpoint L S s c) (PublicKey S s) = None"
  using assms by (simp add: VerifyCheckpoint_def SignCheckpoint_def PublicKey_def signedPayload_def Let_def)

theorem VerifyCheckpoint_Sign_witness:
  "VerifyCheckpoint plainLib \<lparr>sl_encode = (\<lambda>x. x), sl_decode = Some, sl_verify = (\<lambda>_ msg sig. sig = rev msg)\<rparr>
     (SignCheckpoint plainLib \<lparr>sl_encode = (\<lambda>x. x), sl_decode = Some, sl_verify = (\<lambda>_ msg sig. sig = rev msg)\<rparr>
        \<lparr>sg_sign = rev, sg_public = replicate 32 CHR ''k''\<rparr>
        \<lparr>ck_TenantID = ''t'', ck_Records = 1, ck_HeadHash = ''h'', ck_Through = zeroTime, ck_VerifiedAt = zeroTime,
         ck_Signature = [], ck_PublicKey = [], ck_Intact = True, ck_BrokenAt = [], ck_Reason = []\<rparr>)
     (replicate 32 CHR ''k'') = None"
  using VerifyCheckpoint_Sign [of "\<lparr>sl_encode = (\<lambda>x. x), sl_decode = Some, sl_verify = (\<lambda>_ msg sig. sig = rev msg)\<rparr>"
      "\<lparr>sg_sign = rev, sg_public = replicate 32 CHR ''k''\<rparr>" plainLib] by (simp add: PublicKey_def)

text \<open>
  A rewritten history passes. The continuity check looks only at the number of records: however the
  records were replaced between two walks, if what is there now verifies by itself and is not shorter
  than the last checkpoint said, the new checkpoint is published as intact, whatever the last
  checkpoint's head hash was.
\<close>

theorem VerifyTenant_misses_rewrite:
  assumes "LatestCheckpoint s t = Some prev" and "auditChain L (auditOf m t)"
    and "ck_Records prev \<le> int (length (auditOf m t))"
  shows "ck_Intact (snd (VerifyTenant L S sg now m s t))"
  using assms by (simp add: VerifyTenant_intact VerifyChain_Intact)

definition rewrittenTables :: AuditTables where
  "rewrittenTables = appendAll plainLib [(sampleNow, sampleRecord\<lparr>aud_ID := ''aud_2''\<rparr>)]"

definition noSigning :: SignLib where
  "noSigning = \<lparr>sl_encode = (\<lambda>x. x), sl_decode = Some, sl_verify = (\<lambda>_ _ _. False)\<rparr>"

lemma rewrittenTables_records: "length (auditOf rewrittenTables ''tnt_1'') = 1"
proof -
  let ?r = "sampleRecord\<lparr>aud_ID := ''aud_2''\<rparr>"
  have "aud_Payload ?r = []" "aud_TenantID ?r = ''tnt_1''" by (simp_all add: sampleRecord_def)
  moreover have "auditOf noTables t = []" for t by (simp add: noTables_def auditOf_def)
  ultimately show ?thesis
    by (rule_tac AppendAudit_cases [of plainLib sampleNow noTables ?r])
       (auto simp: rewrittenTables_def appendAll_def AppendAudit_def split: sum.splits dest: Seal_Inl)
qed

theorem VerifyTenant_misses_rewrite_witness:
  "ck_Intact (snd (VerifyTenant plainLib noSigning None sampleNow rewrittenTables
     (fst (VerifyTenant plainLib noSigning None sampleNow sampleTables [] ''tnt_1'')) ''tnt_1''))"
proof (rule VerifyTenant_misses_rewrite)
  show "LatestCheckpoint (fst (VerifyTenant plainLib noSigning None sampleNow sampleTables [] ''tnt_1'')) ''tnt_1'' =
      Some (snd (VerifyTenant plainLib noSigning None sampleNow sampleTables [] ''tnt_1''))"
    by (simp add: VerifyTenant_published LatestCheckpoint_put)
  show "auditChain plainLib (auditOf rewrittenTables ''tnt_1'')"
    using appendAll_inv [of plainLib] by (simp add: rewrittenTables_def audit_inv_def)
qed (simp add: sampleTables_records rewrittenTables_records)

text \<open>
  A truncation is reported once. When records have been removed from the end of a chain, the walk
  publishes a broken checkpoint, and the next walk of the same table publishes an intact one: a broken
  checkpoint is not a baseline, and the shorter chain verifies by itself.
\<close>

theorem VerifyTenant_forgets_truncation:
  assumes "LatestCheckpoint s t = Some prev" and "ck_Intact prev" and "auditChain L (auditOf m t)"
    and "int (length (auditOf m t)) < ck_Records prev"
  shows "\<not> ck_Intact (snd (VerifyTenant L S sg now m s t))
       \<and> ck_Intact (snd (VerifyTenant L S sg now' m (fst (VerifyTenant L S sg now m s t)) t))"
proof -
  have "\<not> ck_Intact (snd (VerifyTenant L S sg now m s t))" using assms by (auto simp: VerifyTenant_intact)
  moreover from this have "ck_Intact (snd (VerifyTenant L S sg now' m (fst (VerifyTenant L S sg now m s t)) t))"
    using assms(3) unfolding VerifyTenant_intact [of L S sg now' m]
    by (simp add: VerifyChain_Intact VerifyTenant_published [of L S sg now] LatestCheckpoint_put)
  ultimately show ?thesis ..
qed

theorem VerifyTenant_forgets_truncation_witness:
  "\<not> ck_Intact (snd (VerifyTenant plainLib noSigning None sampleNow noTables
       (fst (VerifyTenant plainLib noSigning None sampleNow sampleTables [] ''tnt_1'')) ''tnt_1''))"
proof -
  let ?s = "fst (VerifyTenant plainLib noSigning None sampleNow sampleTables [] ''tnt_1'')"
    and ?c = "snd (VerifyTenant plainLib noSigning None sampleNow sampleTables [] ''tnt_1'')"
  have l: "LatestCheckpoint ?s ''tnt_1'' = Some ?c" by (simp add: VerifyTenant_published LatestCheckpoint_put)
  have i: "ck_Intact ?c"
    using appendAll_inv [of plainLib]
    by (simp add: VerifyTenant_intact VerifyChain_Intact LatestCheckpoint_def checkpointsOf_def lookupOr_def
        sampleTables_def audit_inv_def)
  have n: "auditOf noTables ''tnt_1'' = []" by (simp add: noTables_def auditOf_def)
  show ?thesis
    using VerifyTenant_forgets_truncation [OF l i, of plainLib noTables noSigning None sampleNow sampleNow]
    by (simp add: n sampleTables_records)
qed

lemma verifyLoop_spec:
  assumes "verifyLoop L S sg now m s ts res = (s', res')" and "distinct ts"
  shows "(\<forall>t. checkpointsOf s' t = checkpointsOf s t @ (if t \<in> set ts then [snd (VerifyTenant L S sg now m s t)] else []))
       \<and> vr_Tenants res' = vr_Tenants res + int (length ts)
       \<and> vr_Broken res' = vr_Broken res @ filter (\<lambda>c. \<not> ck_Intact c) (map (\<lambda>t. snd (VerifyTenant L S sg now m s t)) ts)"
  using assms
proof (induction ts arbitrary: s res)
  case (Cons t ts)
  let ?v = "VerifyTenant L S sg now m s t"
  let ?res = "res\<lparr>vr_Tenants := vr_Tenants res + 1\<rparr>"
  let ?res' = "if \<not> ck_Intact (snd ?v) then ?res\<lparr>vr_Broken := vr_Broken ?res @ [snd ?v]\<rparr> else ?res"
  have run: "verifyLoop L S sg now m (fst ?v) ts ?res' = (s', res')"
    using Cons.prems(1) by (simp add: Let_def split: prod.splits if_splits)
  have put: "checkpointsOf (fst ?v) u = checkpointsOf s u @ (if u = t then [snd ?v] else [])" for u
    by (simp add: VerifyTenant_published PutCheckpoint_def checkpointsOf_def lookupOr_def)
  have other: "VerifyTenant L S sg now m (fst ?v) u = (PutCheckpoint (fst ?v) (snd (VerifyTenant L S sg now m s u)), snd (VerifyTenant L S sg now m s u))"
    if "u \<noteq> t" for u
  proof -
    have "LatestCheckpoint (fst ?v) u = LatestCheckpoint s u" using that by (simp add: LatestCheckpoint_def put)
    then show ?thesis by (simp add: VerifyTenant_def Let_def)
  qed
  have other': "snd (VerifyTenant L S sg now m (fst ?v) u) = snd (VerifyTenant L S sg now m s u)" if "u \<in> set ts" for u
    using other [of u] that Cons.prems(2) by (metis distinct.simps(2) snd_conv)
  have same: "map (\<lambda>u. snd (VerifyTenant L S sg now m (fst ?v) u)) ts = map (\<lambda>u. snd (VerifyTenant L S sg now m s u)) ts"
    by (simp add: other')
  have "(if u \<in> set ts then [snd (VerifyTenant L S sg now m (fst ?v) u)] else []) =
      (if u \<in> set ts then [snd (VerifyTenant L S sg now m s u)] else [])" for u
    by (simp add: other')
  with Cons.IH [OF run] Cons.prems(2) show ?case by (auto simp: put same)
qed simp

text \<open>
  The nightly run checks everyone: each tenant is walked exactly once, gets exactly one new
  checkpoint, and the run's list of broken chains is exactly the checkpoints that are not intact.
\<close>

theorem VerifyAll_covers:
  assumes "distinct (map ten_ID (ListTenants m))" and "VerifyAll L S sg now m s = (s', res)"
  shows "(\<forall>t\<in>set (ListTenants m). checkpointsOf s' (ten_ID t) =
            checkpointsOf s (ten_ID t) @ [snd (VerifyTenant L S sg now m s (ten_ID t))])
       \<and> vr_Tenants res = int (length (ListTenants m))
       \<and> set (vr_Broken res) = {c. \<exists>t\<in>set (ListTenants m). c = snd (VerifyTenant L S sg now m s (ten_ID t)) \<and> \<not> ck_Intact c}"
proof -
  have "distinct (map ten_ID (sort_key ten_ID (ListTenants m)))"
    using assms(1) by (simp add: distinct_map)
  from verifyLoop_spec [OF assms(2) [unfolded VerifyAll_def] this] show ?thesis by auto
qed

theorem VerifyAll_covers_witness:
  "vr_Tenants (snd (VerifyAll plainLib noSigning None sampleNow NewMemory [])) = 0"
  using VerifyAll_covers [OF _ prod.collapse [symmetric], of NewMemory plainLib noSigning None sampleNow "[]"]
  by (simp add: ListTenants_def NewMemory_def)

end
