(* ===== verification/Sign.thy ===== *)
theory Sign
  imports Go_Prelude
begin

text \<open>
  Outbound signatures: \<^verbatim>\<open>internal/dispatch/sign.go\<close> (the dispatcher signs, the server's reference
  verifier) and the verifier and signer of the Go client library, \<^verbatim>\<open>pkg/statushub/statushub.go\<close>.
  HMAC-SHA256 is the parameter \<open>mac\<close>, from secret and message to the raw digest; its documented digest
  length of 32 bytes is the only thing assumed of it. Header parsing, hexadecimal and the arithmetic of
  the time window, int64 wrap-around included, are modelled.
\<close>

section \<open>Signing\<close>

text \<open>\<open>Time.Unix\<close> and \<open>time.Unix\<close>. A \<open>Time\<close> counts seconds from year 1 in an int64, which wraps.\<close>

definition Unix :: "instant \<Rightarrow> int" where
  "Unix t = t div second"

definition fromUnix :: "int \<Rightarrow> instant" where
  "fromUnix ts = (wrap64 (ts + 62135596800) - 62135596800) * second"

definition signedBytes :: "int \<Rightarrow> string \<Rightarrow> string" where
  "signedBytes ts body = FormatInt ts @ ''.'' @ body"

definition Sign :: "(string \<Rightarrow> string \<Rightarrow> string) \<Rightarrow> string \<Rightarrow> string \<Rightarrow> instant \<Rightarrow> string" where
  "Sign mac secret body at =
     (let ts = Unix at
      in ''t='' @ FormatInt ts @ '',v1='' @ hexEncode (mac secret (signedBytes ts body)))"

definition SignWith :: "(string \<Rightarrow> string \<Rightarrow> string) \<Rightarrow> string list \<Rightarrow> string \<Rightarrow> instant \<Rightarrow> string" where
  "SignWith mac secrets body at =
     (if secrets = [] then []
      else let ts = Unix at
           in ''t='' @ FormatInt ts
                @ concat (map (\<lambda>s. '',v1='' @ hexEncode (mac s (signedBytes ts body))) secrets))"

section \<open>Verifying\<close>

datatype sig_error =
    SigNoHeader
  | SigBadTimestamp string
  | SigNoTimestamp
  | SigNoSignature
  | SigStale duration
  | SigMismatch

text \<open>The loop over the comma-separated elements: the timestamp and the signatures collected so far.\<close>

fun parseHeader :: "string list \<Rightarrow> int \<Rightarrow> string list \<Rightarrow> sig_error + int \<times> string list" where
  "parseHeader [] ts sigs = Inr (ts, sigs)"
| "parseHeader (part # parts) ts sigs =
     (case Cut (TrimSpace part) CHR ''='' of
        (k, v, ok) \<Rightarrow>
          if \<not> ok then parseHeader parts ts sigs
          else if k = ''t'' then
            (case ParseInt v of
               None \<Rightarrow> Inl (SigBadTimestamp v)
             | Some n \<Rightarrow> parseHeader parts n sigs)
          else if k = ''v1'' then parseHeader parts ts (if v \<noteq> [] then sigs @ [v] else sigs)
          else parseHeader parts ts sigs)"

text \<open>The distance from now; negating the most negative duration wraps to itself.\<close>

definition sigAge :: "instant \<Rightarrow> int \<Rightarrow> duration" where
  "sigAge now ts =
     (let age = time_sub now (fromUnix ts) in if age < 0 then wrap64 (- age) else age)"

definition decodeSig :: "string \<Rightarrow> string option" where
  "decodeSig s = hexDecode (ToLower (TrimSpace s))"

fun matchServer :: "string \<Rightarrow> string list \<Rightarrow> sig_error option" where
  "matchServer expected [] = Some SigMismatch"
| "matchServer expected (s # sigs) =
     (case (decodeSig s, hexDecode expected) of
        (Some presented, Some want) \<Rightarrow> if presented = want then None else matchServer expected sigs
      | _ \<Rightarrow> if s = expected then None else matchServer expected sigs)"

definition Verify ::
    "(string \<Rightarrow> string \<Rightarrow> string) \<Rightarrow> string \<Rightarrow> string \<Rightarrow> string \<Rightarrow> instant \<Rightarrow> duration \<Rightarrow> sig_error option" where
  "Verify mac secret body header now tolerance =
     (let tolerance = (if tolerance \<le> 0 then 5 * minute else tolerance)
      in case parseHeader (Split header CHR '','') 0 [] of
           Inl err \<Rightarrow> Some err
         | Inr (ts, sigs) \<Rightarrow>
             if ts = 0 then Some SigNoTimestamp
             else if sigs = [] then Some SigNoSignature
             else if sigAge now ts > tolerance then Some (SigStale (sigAge now ts))
             else matchServer (hexEncode (mac secret (signedBytes ts body))) sigs)"

fun matchClient :: "string \<Rightarrow> string list \<Rightarrow> sig_error option" where
  "matchClient expected [] = Some SigMismatch"
| "matchClient expected (s # sigs) =
     (case decodeSig s of
        None \<Rightarrow> matchClient expected sigs
      | Some presented \<Rightarrow> if presented = expected then None else matchClient expected sigs)"

definition DefaultTolerance :: duration where "DefaultTolerance = 5 * minute"

definition VerifyAt ::
    "(string \<Rightarrow> string \<Rightarrow> string) \<Rightarrow> string \<Rightarrow> string \<Rightarrow> string \<Rightarrow> instant \<Rightarrow> duration \<Rightarrow> sig_error option" where
  "VerifyAt mac body header secret now tolerance =
     (if TrimSpace header = [] then Some SigNoHeader
      else let tolerance = (if tolerance \<le> 0 then DefaultTolerance else tolerance)
           in case parseHeader (Split header CHR '','') 0 [] of
                Inl err \<Rightarrow> Some err
              | Inr (ts, sigs) \<Rightarrow>
                  if ts = 0 then Some SigNoTimestamp
                  else if sigs = [] then Some SigNoSignature
                  else if sigAge now ts > tolerance then Some (SigStale (sigAge now ts))
                  else matchClient (mac secret (signedBytes ts body)) sigs)"

definition ClientVerify :: "(string \<Rightarrow> string \<Rightarrow> string) \<Rightarrow> string \<Rightarrow> string \<Rightarrow> string \<Rightarrow> instant \<Rightarrow> sig_error option" where
  "ClientVerify mac body header secret now = VerifyAt mac body header secret now DefaultTolerance"

definition ClientSign :: "(string \<Rightarrow> string \<Rightarrow> string) \<Rightarrow> string \<Rightarrow> string \<Rightarrow> instant \<Rightarrow> string" where
  "ClientSign mac body secret at =
     (let ts = Unix at
      in ''t='' @ FormatInt ts @ '',v1='' @ hexEncode (mac secret (signedBytes ts body)))"

section \<open>What is signed\<close>

lemma FormatInt_no_dot: "CHR ''.'' \<notin> set (FormatInt v)"
  using FormatInt_chars [of "CHR ''.''" v] by auto

text \<open>
  Nothing can be moved across the signature: the signed bytes determine the timestamp and the body,
  so a captured delivery cannot be shifted in time, nor bytes between the timestamp and the body.
\<close>

theorem signedBytes_inject: "signedBytes ts body = signedBytes ts' body' \<longleftrightarrow> ts = ts' \<and> body = body'"
proof
  assume "signedBytes ts body = signedBytes ts' body'"
  then have "Cut (FormatInt ts @ CHR ''.'' # body) CHR ''.'' = Cut (FormatInt ts' @ CHR ''.'' # body') CHR ''.''"
    by (simp add: signedBytes_def)
  then show "ts = ts' \<and> body = body'" by (simp add: Cut_found FormatInt_no_dot)
qed simp

section \<open>Matching\<close>

lemma matchClient_iff: "matchClient d sigs = None \<longleftrightarrow> (\<exists>s\<in>set sigs. decodeSig s = Some d)"
  by (induction sigs) (auto split: option.splits)

lemma hexEncode_visible: "list_all visible (hexEncode s)"
  unfolding list_all_iff using hexEncode_chars by (fastforce simp: visible_def)

lemma TrimSpace_all_visible: "list_all visible s \<Longrightarrow> TrimSpace s = s"
  by (rule TrimSpace_visible) (auto simp: list_all_iff)

lemma ToLower_hexEncode: "ToLower (hexEncode s) = hexEncode s"
proof -
  have "ToLowerByte c = c" if "c \<in> set (hexEncode s)" for c
    using hexEncode_chars [OF that] by (auto simp: ToLowerByte_def)
  then show ?thesis by (simp add: ToLower_def map_idI)
qed

lemma decodeSig_hexEncode [simp]: "decodeSig (hexEncode d) = Some d"
  by (simp add: decodeSig_def TrimSpace_all_visible [OF hexEncode_visible] ToLower_hexEncode)

lemma matchServer_matchClient: "matchServer (hexEncode d) sigs = matchClient d sigs"
  by (induction sigs) (auto split: option.splits)

section \<open>Parsing what was signed\<close>

definition sigElement :: "string \<Rightarrow> string" where
  "sigElement d = ''v1='' @ hexEncode d"

lemma comma_free:
  "CHR '','' \<notin> set (''t='' @ FormatInt ts)" "CHR '','' \<notin> set (sigElement d)"
  using FormatInt_chars [of "CHR '',''" ts] hexEncode_chars [of "CHR '',''" d]
  by (auto simp: sigElement_def is_digit_def)

lemma element_parse:
  "parseHeader (sigElement d # parts) ts sigs =
     parseHeader parts ts (if d \<noteq> [] then sigs @ [hexEncode d] else sigs)"
proof -
  have "TrimSpace (sigElement d) = sigElement d"
    by (rule TrimSpace_all_visible) (simp add: sigElement_def hexEncode_visible visible_def)
  moreover have "Cut (sigElement d) CHR ''='' = (''v1'', hexEncode d, True)"
    unfolding sigElement_def using Cut_found [of "CHR ''=''" "''v1''" "hexEncode d"] by simp
  moreover have "hexEncode d = [] \<longleftrightarrow> d = []" by (cases d) (auto simp: hexEncode_def hexByte_def)
  ultimately show ?thesis by simp
qed

lemma timestamp_parse:
  assumes "int64_range ts"
  shows "parseHeader ((''t='' @ FormatInt ts) # parts) n sigs = parseHeader parts ts sigs"
proof -
  have "list_all visible (''t='' @ FormatInt ts)"
    unfolding list_all_iff using FormatInt_chars [of _ ts] visible_digit by (fastforce simp: visible_def)
  then have "TrimSpace (''t='' @ FormatInt ts) = ''t='' @ FormatInt ts" by (rule TrimSpace_all_visible)
  moreover have "Cut (''t='' @ FormatInt ts) CHR ''='' = (''t'', FormatInt ts, True)"
    using Cut_found [of "CHR ''=''" "''t''" "FormatInt ts"] by simp
  ultimately show ?thesis using assms by simp
qed

lemma Split_elements:
  "CHR '','' \<notin> set a \<Longrightarrow>
   Split (a @ concat (map (\<lambda>d. CHR '','' # sigElement d) ds)) CHR '','' = a # map sigElement ds"
proof (induction ds arbitrary: a)
  case Nil
  then show ?case by (simp add: Split_absent)
next
  case (Cons d ds)
  have "Split (a @ CHR '','' # (sigElement d @ concat (map (\<lambda>d. CHR '','' # sigElement d) ds))) CHR '','' =
      a # Split (sigElement d @ concat (map (\<lambda>d. CHR '','' # sigElement d) ds)) CHR '',''"
    using Cons.prems by (rule Split_found)
  then show ?case using Cons.IH [OF comma_free(2)] by simp
qed

lemma parse_elements:
  "parseHeader (map sigElement ds) ts sigs = Inr (ts, sigs @ map hexEncode (filter (\<lambda>d. d \<noteq> []) ds))"
  by (induction ds arbitrary: sigs) (simp_all add: element_parse del: parseHeader.simps(2))

lemma SignWith_elements:
  "secrets \<noteq> [] \<Longrightarrow> SignWith mac secrets body at =
     (''t='' @ FormatInt (Unix at))
       @ concat (map (\<lambda>d. CHR '','' # sigElement d) (map (\<lambda>s. mac s (signedBytes (Unix at) body)) secrets))"
  by (simp add: SignWith_def sigElement_def Let_def comp_def)

lemma parse_SignWith:
  assumes "secrets \<noteq> []" and "int64_range (Unix at)"
  shows "parseHeader (Split (SignWith mac secrets body at) CHR '','') 0 [] =
     Inr (Unix at, map hexEncode (filter (\<lambda>d. d \<noteq> []) (map (\<lambda>s. mac s (signedBytes (Unix at) body)) secrets)))"
  unfolding SignWith_elements [OF assms(1)] Split_elements [OF comma_free(1)] timestamp_parse [OF assms(2)]
    parse_elements by simp

lemma Sign_eq: "Sign mac secret body at = SignWith mac [secret] body at"
  "ClientSign mac body secret at = Sign mac secret body at"
  by (simp_all add: Sign_def ClientSign_def SignWith_def)

section \<open>Properties\<close>

definition acceptable :: "instant \<Rightarrow> int \<Rightarrow> duration \<Rightarrow> bool" where
  "acceptable now ts tolerance \<longleftrightarrow>
     \<bar>now - fromUnix ts\<bar> \<le> tolerance \<or> now - fromUnix ts \<le> min_int64"

lemma sigAge_le:
  assumes "0 < tolerance" and "tolerance < max_int64"
  shows "sigAge now ts \<le> tolerance \<longleftrightarrow> acceptable now ts tolerance"
proof -
  let ?d = "now - fromUnix ts"
  consider "?d \<le> min_int64" | "min_int64 < ?d" "?d < 0" | "0 \<le> ?d" "?d \<le> max_int64" | "max_int64 < ?d" by linarith
  then show ?thesis
  proof cases
    case 1
    then have "time_sub now (fromUnix ts) = min_int64" by (simp add: time_sub_def min_int64_def max_int64_def)
    moreover have "wrap64 (- min_int64) = min_int64" by (simp add: wrap64_def min_int64_def)
    ultimately show ?thesis using 1 assms by (simp add: sigAge_def acceptable_def min_int64_def)
  next
    case 2
    then have "time_sub now (fromUnix ts) = ?d" "wrap64 (- ?d) = - ?d"
      by (auto intro!: time_sub_exact wrap64_id simp: int64_range_def min_int64_def max_int64_def)
    then show ?thesis using 2 by (simp add: sigAge_def acceptable_def Let_def)
  next
    case 3
    then have "time_sub now (fromUnix ts) = ?d"
      by (intro time_sub_exact) (simp add: int64_range_def min_int64_def max_int64_def)
    then show ?thesis using 3 by (simp add: sigAge_def acceptable_def Let_def min_int64_def)
  next
    case 4
    then have "time_sub now (fromUnix ts) = max_int64" by (simp add: time_sub_def min_int64_def max_int64_def)
    then show ?thesis using 4 assms by (simp add: sigAge_def acceptable_def min_int64_def max_int64_def)
  qed
qed

lemma SignWith_accepted:
  assumes hmac: "\<And>k m. length (mac k m) = 32" and secret: "secret \<in> set secrets"
    and ts: "int64_range (Unix at)" "Unix at \<noteq> 0" and tol: "0 < tolerance" "tolerance < max_int64"
    and fresh: "\<bar>now - fromUnix (Unix at)\<bar> \<le> tolerance"
  shows "VerifyAt mac body (SignWith mac secrets body at) secret now tolerance = None
       \<and> Verify mac secret body (SignWith mac secrets body at) now tolerance = None"
proof -
  let ?ds = "map (\<lambda>s. mac s (signedBytes (Unix at) body)) secrets" and ?h = "SignWith mac secrets body at"
  have sne: "secrets \<noteq> []" using secret by auto
  have ne: "mac k m \<noteq> []" for k m using hmac [of k m] by auto
  then have "filter (\<lambda>d. d \<noteq> []) ?ds = ?ds" by (auto simp: filter_id_conv)
  then have parse: "parseHeader (Split ?h CHR '','') 0 [] = Inr (Unix at, map hexEncode ?ds)"
    using parse_SignWith [OF sne ts(1), of mac body] by simp
  have "CHR ''t'' \<in> set ?h" using sne by (simp add: SignWith_elements)
  then have "TrimSpace ?h \<noteq> []" using TrimSpace_empty [of ?h "CHR ''t''"] by (auto simp: visible_def)
  moreover have "matchClient (mac secret (signedBytes (Unix at) body)) (map hexEncode ?ds) = None"
    using secret by (auto simp: matchClient_iff)
  moreover have "sigAge now (Unix at) \<le> tolerance" using sigAge_le [OF tol] fresh by (simp add: acceptable_def)
  ultimately show ?thesis
    using parse ts(2) tol sne unfolding VerifyAt_def Verify_def matchServer_matchClient by simp
qed

definition plainMac :: "string \<Rightarrow> string \<Rightarrow> string" where
  "plainMac k m = take 32 (k @ m @ replicate 32 CHR ''.'')"

lemma plainMac_length: "length (plainMac k m) = 32"
  by (simp add: plainMac_def)

lemma sampleTime:
  "int64_range (Unix (1754903662 * second))" "Unix (1754903662 * second) \<noteq> 0"
  "\<bar>1754903662 * second - fromUnix (Unix (1754903662 * second))\<bar> \<le> minute" "0 < minute" "minute < max_int64"
  by (simp_all add: Unix_def fromUnix_def wrap64_def second_def minute_def int64_range_def min_int64_def max_int64_def)

text \<open>
  C18: A delivery signed by the dispatcher verifies, during a rotation too: whichever of the secrets in
  the header the customer has configured, the client library accepts the delivery while its timestamp is
  within the tolerance, and so does the server's reference verifier.
\<close>

theorem Verify_SignWith:
  assumes hmac: "\<And>k m. length (mac k m) = 32" and secret: "secret \<in> set secrets"
    and ts: "int64_range (Unix at)" "Unix at \<noteq> 0" and tol: "0 < tolerance" "tolerance < max_int64"
    and fresh: "\<bar>now - fromUnix (Unix at)\<bar> \<le> tolerance"
  shows "VerifyAt mac body (SignWith mac secrets body at) secret now tolerance = None
       \<and> Verify mac secret body (SignWith mac secrets body at) now tolerance = None"
  using assms by (rule SignWith_accepted)

theorem Verify_SignWith_witness:
  "VerifyAt plainMac ''{}'' (SignWith plainMac [''old'', ''new''] ''{}'' (1754903662 * second)) ''new''
     (1754903662 * second) minute = None"
  by (rule conjunct1 [OF Verify_SignWith [OF plainMac_length _ sampleTime(1,2,4,5,3)]]) simp

text \<open>
  What acceptance means. If the client library accepts a delivery, the header carries a timestamp
  and a signature that decodes to the HMAC, under the customer's secret, of exactly that timestamp and
  the received body; and the timestamp is within the tolerance of now, or the saturating subtraction hid
  that it lies more than 292 years ahead.
\<close>

theorem VerifyAt_sound:
  assumes "VerifyAt mac body header secret now tolerance = None" and "0 < tolerance" "tolerance < max_int64"
  shows "\<exists>ts sigs s. parseHeader (Split header CHR '','') 0 [] = Inr (ts, sigs) \<and> ts \<noteq> 0
       \<and> s \<in> set sigs \<and> decodeSig s = Some (mac secret (signedBytes ts body)) \<and> acceptable now ts tolerance"
proof -
  obtain ts sigs where p: "parseHeader (Split header CHR '','') 0 [] = Inr (ts, sigs)"
    and v: "ts \<noteq> 0" "sigAge now ts \<le> tolerance" "matchClient (mac secret (signedBytes ts body)) sigs = None"
    using assms by (auto simp: VerifyAt_def Let_def split: sum.splits prod.splits if_splits)
  from v(2) assms(2,3) have "acceptable now ts tolerance" by (simp add: sigAge_le)
  with p v show ?thesis by (auto simp: matchClient_iff)
qed

theorem VerifyAt_sound_witness:
  "\<exists>ts sigs s. parseHeader (Split (SignWith plainMac [''k''] ''{}'' (1754903662 * second)) CHR '','') 0 [] = Inr (ts, sigs)
     \<and> s \<in> set sigs \<and> decodeSig s = Some (plainMac ''k'' (signedBytes ts ''{}''))"
proof -
  have "VerifyAt plainMac ''{}'' (SignWith plainMac [''k''] ''{}'' (1754903662 * second)) ''k'' (1754903662 * second) minute = None"
    by (rule conjunct1 [OF SignWith_accepted [OF plainMac_length _ sampleTime(1,2,4,5,3)]]) simp
  from VerifyAt_sound [OF this sampleTime(4,5)] show ?thesis by blast
qed

text \<open>
  The client library and the server agree: for every secret, body, header, time and tolerance the
  two verifiers accept the same deliveries, although one compares decoded bytes only and the other falls
  back to comparing text.
\<close>

theorem Verify_equivalent:
  "VerifyAt mac body header secret now tolerance = None \<longleftrightarrow> Verify mac secret body header now tolerance = None"
proof (cases "TrimSpace header = []")
  case True
  have "CHR '','' \<notin> set header" using TrimSpace_empty [OF True, of "CHR '',''"] by (simp add: visible_def)
  then have "parseHeader (Split header CHR '','') 0 [] = Inr (0, [])" by (simp add: Split_absent True)
  with True show ?thesis by (simp add: VerifyAt_def Verify_def)
next
  case False
  then show ?thesis
    unfolding VerifyAt_def Verify_def matchServer_matchClient DefaultTolerance_def by simp
qed

text \<open>
  The window is open at the far end. A signature dated in the year 36812 is accepted today under
  every tolerance: the distance saturates at the most negative duration, negating it wraps to itself,
  and a negative age passes the check.
\<close>

theorem Verify_far_future:
  assumes "\<And>k m. length (mac k m) = 32"
  shows "Verify mac secret body (Sign mac secret body (2 ^ 40 * second)) 0 tolerance = None"
proof -
  have u: "Unix (2 ^ 40 * second) = 2 ^ 40" by (simp add: Unix_def second_def)
  have r: "int64_range (2 ^ 40)" by (simp add: int64_range_def min_int64_def max_int64_def)
  have ne: "mac k m \<noteq> []" for k m using assms [of k m] by auto
  have p: "parseHeader (Split (Sign mac secret body (2 ^ 40 * second)) CHR '','') 0 [] =
      Inr (2 ^ 40, [hexEncode (mac secret (signedBytes (2 ^ 40) body))])"
    unfolding Sign_eq(1) using parse_SignWith [of "[secret]" "2 ^ 40 * second" mac body] ne r u by simp
  have "fromUnix (2 ^ 40) = 2 ^ 40 * second"
    unfolding fromUnix_def by (subst wrap64_id) (simp_all add: int64_range_def min_int64_def max_int64_def)
  then have "sigAge 0 (2 ^ 40) < 0"
    by (simp add: sigAge_def time_sub_def wrap64_def second_def min_int64_def max_int64_def)
  moreover have "0 < (if tolerance \<le> 0 then 5 * minute else tolerance)"
    by (simp add: minute_def second_def)
  ultimately have "\<not> sigAge 0 (2 ^ 40) > (if tolerance \<le> 0 then 5 * minute else tolerance)" by simp
  with p show ?thesis by (simp only: Verify_def Let_def) (simp add: matchServer_matchClient)
qed

theorem Verify_far_future_witness:
  "Verify plainMac ''k'' ''{}'' (Sign plainMac ''k'' ''{}'' (2 ^ 40 * second)) 0 minute = None"
  by (rule Verify_far_future) (rule plainMac_length)

end
