(* ===== verification/Dispatch.thy ===== *)
theory Dispatch
  imports Delivery_Queue Circuit_Breaker Sign
begin

text \<open>
  The dispatcher: \<^verbatim>\<open>internal/dispatch/dispatcher.go\<close>, with the schema resolution of
  \<^verbatim>\<open>internal/dispatch/schema.go\<close> and the payload of \<^verbatim>\<open>internal/dispatch/payload.go\<close>. Its state is the store
  and the breaker. What lies outside is in \<open>DispatchEnv\<close>: the secret resolver, the JSON encoder, the MAC,
  the request constructor, the randomness of the jitter and the HTTP exchange itself, a function from
  the request to what came back. A call reads the clock several times; the model has two readings,
  \<open>start\<close> at entry and \<open>now\<close> for all that follow the exchange. Metrics, logging and the local listener
  are left out. One attempt is one step: what other goroutines do to the store and the breaker while the HTTP exchange
  runs falls before or after it, and the lease keeps the delivery itself with its worker.
\<close>

section \<open>Schema and payload\<close>

type_synonym SchemaVersion = string

definition SchemaV1 :: SchemaVersion where "SchemaV1 = ''2026-08-01''"

definition schemaVersions :: "SchemaVersion list" where "schemaVersions = [SchemaV1]"

definition ValidSchemaVersion :: "SchemaVersion \<Rightarrow> bool" where
  "ValidSchemaVersion v \<longleftrightarrow> v \<in> set schemaVersions"

definition ResolveSchema :: "SchemaVersion \<Rightarrow> SchemaVersion" where
  "ResolveSchema configured =
     (if configured = [] then SchemaV1
      else if \<not> ValidSchemaVersion configured then SchemaV1
      else configured)"

record Payload =
  pl_EventID :: string
  pl_EventType :: string
  pl_Provider :: string
  pl_ProviderEventID :: string
  pl_TransactionRef :: string
  pl_Status :: string
  pl_AmountMinor :: int
  pl_Currency :: string
  pl_OccurredAt :: string
  pl_ReceivedAt :: string
  pl_Customer :: "string option"
  pl_ProviderExtra :: "(string \<times> json) list option"
  pl_MappingComplete :: bool
  pl_UnmappedStatus :: string
  pl_Redacted :: bool
  pl_Raw :: "string option"

record Request =
  rq_URL :: string
  rq_Body :: string
  rq_Signature :: string
  rq_EventID :: string
  rq_Schema :: SchemaVersion
  rq_Replay :: bool
  rq_Attempt :: int
  rq_IdempotencyKey :: string

text \<open>What came back: a transport error, with whether it is the guard's private-address refusal, or a
  response.\<close>

datatype http_result = Transport string bool | Response int string

record DispatchEnv =
  de_audit :: AuditLib
  de_validJSON :: "string \<Rightarrow> bool"
  de_marshal :: "Payload \<Rightarrow> string + string"
  de_secrets :: "string \<Rightarrow> string + string list"
  de_mac :: "string \<Rightarrow> string \<Rightarrow> string"
  de_badRequest :: "string \<Rightarrow> string option"
  de_fmtDuration :: "duration \<Rightarrow> string"
  de_rand :: "int \<Rightarrow> int option"
  de_send :: "Request \<Rightarrow> http_result"
  de_shards :: int

definition BuildPayload :: "DispatchEnv \<Rightarrow> CanonicalEvent \<Rightarrow> string \<Rightarrow> Payload" where
  "BuildPayload E e raw =
     \<lparr>pl_EventID = ev_ID e, pl_EventType = ev_EventType e, pl_Provider = ev_Provider e,
      pl_ProviderEventID = ev_ProviderEventID e, pl_TransactionRef = ev_TransactionRef e,
      pl_Status = ev_Status e, pl_AmountMinor = ev_AmountMinor e, pl_Currency = ev_Currency e,
      pl_OccurredAt = lib_rfc3339 (de_audit E) (gt_instant (to_UTC (ev_OccurredAt e))),
      pl_ReceivedAt = lib_rfc3339 (de_audit E) (gt_instant (to_UTC (ev_ReceivedAt e))),
      pl_Customer = (if ev_CustomerRefHash e \<noteq> [] then Some (ev_CustomerRefHash e) else None),
      pl_ProviderExtra = ev_ProviderExtra e, pl_MappingComplete = ev_MappingComplete e,
      pl_UnmappedStatus = ev_UnmappedStatus e, pl_Redacted = ev_Redacted e,
      pl_Raw = (if raw \<noteq> [] \<and> de_validJSON E raw then Some raw else None)\<rparr>"

definition RenderPayload :: "DispatchEnv \<Rightarrow> SchemaVersion \<Rightarrow> CanonicalEvent \<Rightarrow> string \<Rightarrow> string + string" where
  "RenderPayload E v e raw =
     (if ResolveSchema v = SchemaV1 then de_marshal E (BuildPayload E e raw)
      else Inl (''no renderer for schema version '' @ v))"

section \<open>State and auditing\<close>

record Dispatcher =
  ds_store :: Memory
  ds_breaker :: Breaker

definition MaxOutageParking :: duration where "MaxOutageParking = 24 * hour"

definition systemActor :: Actor where
  "systemActor = \<lparr>act_Type = ''system'', act_ID = [], act_IP = []\<rparr>"

definition eventAudit :: "string \<Rightarrow> string \<Rightarrow> string \<Rightarrow> (string \<times> json) list \<Rightarrow> AuditRecord" where
  "eventAudit tenantID eventType eventID payload =
     \<lparr>aud_ID = [], aud_TenantID = tenantID, aud_EventType = eventType, aud_OccurredAt = zeroTime,
      aud_RecordedAt = zeroTime, aud_Actor = systemActor,
      aud_Subject = \<lparr>sub_Type = ''event'', sub_ID = eventID\<rparr>, aud_Payload = payload, aud_Corrects = [],
      aud_PrevHash = [], aud_Hash = []\<rparr>"

definition audit :: "DispatchEnv \<Rightarrow> instant \<Rightarrow> AuditRecord \<Rightarrow> Dispatcher \<Rightarrow> Dispatcher" where
  "audit E now rec s =
     s\<lparr>ds_store := fst (AppendAudit (de_audit E) \<lparr>gt_instant = now, gt_zone = UTC\<rparr> (ds_store s) rec)\<rparr>"

definition complete :: "instant \<Rightarrow> Delivery \<Rightarrow> Dispatcher \<Rightarrow> Dispatcher \<times> store_error option" where
  "complete now del s =
     (let (m, err) = CompleteDelivery now (ds_store s) del in (s\<lparr>ds_store := m\<rparr>, err))"

section \<open>Queueing\<close>

definition newDelivery :: "DispatchEnv \<Rightarrow> instant \<Rightarrow> CanonicalEvent \<Rightarrow> string \<Rightarrow> int \<Rightarrow> bool \<Rightarrow> Delivery" where
  "newDelivery E now e destinationID seq replay =
     \<lparr>del_ID = 0, del_TenantID = ev_TenantID e, del_EventID = ev_ID e, del_DestinationID = destinationID,
      del_TransactionRef = [], del_Shard = ShardFor (ev_TransactionRef e) (de_shards E), del_Sequence = seq,
      del_Attempt = 0, del_Status = DeliveryPending, del_ResponseCode = 0, del_ResponseBody = [],
      del_Error = [], del_DurationMS = 0, del_IsReplay = replay, del_NextRetryAt = zero_time,
      del_CreatedAt = now, del_UpdatedAt = zero_time\<rparr>"

fun enqueueLoop :: "DispatchEnv \<Rightarrow> instant \<Rightarrow> CanonicalEvent \<Rightarrow> int \<Rightarrow> Destination list \<Rightarrow> Memory \<Rightarrow> Memory" where
  "enqueueLoop E now e seq [] m = m"
| "enqueueLoop E now e seq (dest # dests) m =
     (if \<not> dst_Enabled dest \<or> \<not> Matches (dst_Filter dest) e then enqueueLoop E now e seq dests m
      else enqueueLoop E now e seq dests (fst (EnqueueDelivery now m (newDelivery E now e (dst_ID dest) seq False))))"

definition Enqueue :: "DispatchEnv \<Rightarrow> instant \<Rightarrow> CanonicalEvent \<Rightarrow> Dispatcher \<Rightarrow> Dispatcher" where
  "Enqueue E now e s =
     (let destinations = ListDestinations (ds_store s) (ev_TenantID e);
          (m, seq) = NextSequence (ds_store s) (ev_TenantID e) (ev_TransactionRef e)
      in s\<lparr>ds_store := enqueueLoop E now e seq destinations m\<rparr>)"

definition EnqueueReplay ::
    "DispatchEnv \<Rightarrow> instant \<Rightarrow> CanonicalEvent \<Rightarrow> string \<Rightarrow> Dispatcher \<Rightarrow> Dispatcher \<times> (store_error + int)" where
  "EnqueueReplay E now e destinationID s =
     (case GetDestination (ds_store s) (ev_TenantID e) destinationID of
        Inl err \<Rightarrow> (s, Inl err)
      | Inr dest \<Rightarrow>
          let (m, seq) = NextSequence (ds_store s) (ev_TenantID e) (ev_TransactionRef e);
              (m, i) = EnqueueDelivery now m (newDelivery E now e (dst_ID dest) seq True);
              s = audit E now (eventAudit (ev_TenantID e) ''event.replayed'' (ev_ID e)
                    [(''destination'', JString (dst_ID dest)), (''delivery'', JNumber (FormatInt i))])
                    (s\<lparr>ds_store := m\<rparr>)
          in (s, Inr i))"

section \<open>Outcomes of an attempt\<close>

definition durationMS :: "instant \<Rightarrow> instant \<Rightarrow> int" where
  "durationMS start now = go_quot (time_sub now start) 1000000"

definition effectivePolicy :: "Destination \<Rightarrow> RetryPolicy" where
  "effectivePolicy dest =
     (if pol_Backoff (dst_RetryPolicy dest) = [] then DefaultRetryPolicy else dst_RetryPolicy dest)"

text \<open>\<open>Duration(x)\<close> and \<open>int64(x)\<close> of a float truncate toward zero; here the argument is not negative. The product of
  the schedule and the fraction is exact, and a spread of more than half the range of \<open>int64\<close>, where Go's conversion is
  left to the machine and \<open>rand.Int\<close> may panic, is not modelled: with a fraction of at most one, as \<open>Validate\<close> wants
  it, that is a step of over a hundred years.\<close>

definition backoffFor :: "(int \<Rightarrow> int option) \<Rightarrow> RetryPolicy \<Rightarrow> int \<Rightarrow> duration" where
  "backoffFor rnd p attempt =
     (let idx = (if attempt \<ge> int (length (pol_Backoff p)) then int (length (pol_Backoff p)) - 1 else attempt);
          idx = (if idx < 0 then 0 else idx);
          base = pol_Backoff p ! nat idx
      in if base \<le> 0 \<or> pol_JitterFraction p \<le> 0 then base
         else let spread = of_int base * pol_JitterFraction p
              in case rnd (\<lfloor>2 * spread\<rfloor> + 1) of
                   None \<Rightarrow> base
                 | Some n \<Rightarrow> base + n - \<lfloor>spread\<rfloor>)"

definition breakerRetryDelay :: "Destination \<Rightarrow> duration" where
  "breakerRetryDelay dest =
     (let policy = effectivePolicy dest
      in if pol_Timeout policy > 0 \<and> pol_Timeout policy < 30 * second then pol_Timeout policy
         else 15 * second)"

definition park ::
    "DispatchEnv \<Rightarrow> instant \<Rightarrow> Delivery \<Rightarrow> Destination \<Rightarrow> string \<Rightarrow> Dispatcher \<Rightarrow> Dispatcher \<times> store_error option" where
  "park E now del dest why s =
     complete now
       (del\<lparr>del_Attempt := (if del_Attempt del > 0 then del_Attempt del - 1 else del_Attempt del),
            del_Status := DeliveryFailed,
            del_Error := truncateUTF8 (''parked: '' @ why),
            del_NextRetryAt := now + breakerRetryDelay dest\<rparr>) s"

definition recordBreaker :: "instant \<Rightarrow> string \<Rightarrow> bool \<Rightarrow> string \<Rightarrow> Dispatcher \<Rightarrow> Dispatcher" where
  "recordBreaker now destinationID ok reason s =
     s\<lparr>ds_breaker := (if ok then Succeeded (ds_breaker s) destinationID
                      else fst (Failed (ds_breaker s) now destinationID reason))\<rparr>"

definition succeed ::
    "DispatchEnv \<Rightarrow> instant \<Rightarrow> instant \<Rightarrow> Delivery \<Rightarrow> int \<Rightarrow> string \<Rightarrow> Dispatcher \<Rightarrow> Dispatcher \<times> store_error option" where
  "succeed E start now del code body s =
     (let del = del\<lparr>del_Status := DeliverySucceeded, del_ResponseCode := code,
                    del_ResponseBody := truncateUTF8 body, del_DurationMS := durationMS start now,
                    del_NextRetryAt := zero_time\<rparr>
      in complete now del
           (audit E now (eventAudit (del_TenantID del) ''event.forwarded'' (del_EventID del)
              [(''destination'', JString (del_DestinationID del)), (''attempt'', JNumber (FormatInt (del_Attempt del))),
               (''response_code'', JNumber (FormatInt code)), (''duration_ms'', JNumber (FormatInt (del_DurationMS del))),
               (''replay'', JBool (del_IsReplay del))]) s))"

fun stateName :: "BreakerState \<Rightarrow> string" where
  "stateName BreakerClosed = ''closed''"
| "stateName BreakerOpen = ''open''"
| "stateName BreakerHalfOpen = ''half_open''"

definition retry ::
    "DispatchEnv \<Rightarrow> instant \<Rightarrow> instant \<Rightarrow> Delivery \<Rightarrow> Destination \<Rightarrow> int \<Rightarrow> string \<Rightarrow> string \<Rightarrow> Dispatcher
     \<Rightarrow> Dispatcher \<times> store_error option" where
  "retry E start now del dest code body reason s =
     (let policy = effectivePolicy dest;
          del = del\<lparr>del_ResponseCode := code, del_ResponseBody := truncateUTF8 body,
                    del_Error := truncateUTF8 reason, del_DurationMS := durationMS start now\<rparr>
      in if del_Attempt del \<ge> int (Attempts policy) then
           (let state = StateOf (ds_breaker s) (dst_ID dest)
            in if state \<noteq> BreakerClosed \<and> time_sub now (del_CreatedAt del) < MaxOutageParking
               then park E now del dest
                      (''destination breaker is '' @ stateName state @
                       ''; the retry budget is not spent during a destination-wide outage'') s
               else complete now (del\<lparr>del_Status := DeliveryDeadLetter, del_NextRetryAt := zero_time\<rparr>)
                      (audit E now (eventAudit (del_TenantID del) ''event.dead_lettered'' (del_EventID del)
                         [(''destination'', JString (del_DestinationID del)),
                          (''attempts'', JNumber (FormatInt (del_Attempt del))),
                          (''response_code'', JNumber (FormatInt code)), (''reason'', JString reason)]) s))
         else complete now
                (del\<lparr>del_Status := DeliveryFailed,
                     del_NextRetryAt := now + backoffFor (de_rand E) policy (del_Attempt del)\<rparr>) s)"

definition fail ::
    "DispatchEnv \<Rightarrow> instant \<Rightarrow> instant \<Rightarrow> Delivery \<Rightarrow> int \<Rightarrow> string \<Rightarrow> string \<Rightarrow> Dispatcher
     \<Rightarrow> Dispatcher \<times> store_error option" where
  "fail E start now del code body reason s =
     (let del = del\<lparr>del_Status := DeliveryDeadLetter, del_ResponseCode := code,
                    del_ResponseBody := truncateUTF8 body, del_Error := truncateUTF8 reason,
                    del_DurationMS := durationMS start now, del_NextRetryAt := zero_time\<rparr>
      in complete now del
           (audit E now (eventAudit (del_TenantID del) ''event.dead_lettered'' (del_EventID del)
              [(''destination'', JString (del_DestinationID del)), (''reason'', JString reason),
               (''response_code'', JNumber (FormatInt code))]) s))"

section \<open>One attempt\<close>

definition rawFor :: "Memory \<Rightarrow> Delivery \<Rightarrow> Destination \<Rightarrow> CanonicalEvent \<Rightarrow> string" where
  "rawFor m del dest event =
     (if dst_IncludeRaw dest
      then (case GetRawEvent m (del_TenantID del) (ev_RawEventID event) of Inr r \<Rightarrow> raw_Body r | Inl _ \<Rightarrow> [])
      else [])"

definition buildRequest ::
    "DispatchEnv \<Rightarrow> instant \<Rightarrow> Delivery \<Rightarrow> Destination \<Rightarrow> CanonicalEvent \<Rightarrow> string list \<Rightarrow> string \<Rightarrow> Request" where
  "buildRequest E start del dest event secrets body =
     \<lparr>rq_URL = dst_URL dest, rq_Body = body, rq_Signature = SignWith (de_mac E) secrets body start,
      rq_EventID = ev_ID event, rq_Schema = ResolveSchema (dst_SchemaVersion dest),
      rq_Replay = del_IsReplay del, rq_Attempt = del_Attempt del, rq_IdempotencyKey = ev_ID event\<rparr>"

definition handleResponse ::
    "DispatchEnv \<Rightarrow> instant \<Rightarrow> instant \<Rightarrow> Delivery \<Rightarrow> Destination \<Rightarrow> int \<Rightarrow> string \<Rightarrow> Dispatcher
     \<Rightarrow> Dispatcher \<times> store_error option" where
  "handleResponse E start now del dest code respBody s =
     (if IsSuccess code then succeed E start now del code respBody (recordBreaker now (dst_ID dest) True [] s)
      else if code \<ge> 500 \<or> code = 429 then
        retry E start now del dest code respBody []
          (recordBreaker now (dst_ID dest) False (''destination returned '' @ FormatInt code) s)
      else if ShouldRetry code then retry E start now del dest code respBody [] s
      else fail E start now del code respBody
             (''destination returned '' @ FormatInt code @ '', which will not change on retry'') s)"

definition exchange ::
    "DispatchEnv \<Rightarrow> instant \<Rightarrow> instant \<Rightarrow> Delivery \<Rightarrow> Destination \<Rightarrow> Request \<Rightarrow> Dispatcher
     \<Rightarrow> Dispatcher \<times> store_error option" where
  "exchange E start now del dest req s =
     (case de_send E req of
        Transport reason private \<Rightarrow>
          let s = recordBreaker now (dst_ID dest) False reason s
          in if private then fail E start now del 0 [] reason s
             else retry E start now del dest 0 [] reason s
      | Response code body \<Rightarrow> handleResponse E start now del dest code (take maxResponseBody body) s)"

text \<open>\<open>DeliverOnce\<close>, with the request it sent, if it sent one.\<close>

definition DeliverOnce ::
    "DispatchEnv \<Rightarrow> instant \<Rightarrow> instant \<Rightarrow> Delivery \<Rightarrow> Dispatcher \<Rightarrow> (Dispatcher \<times> store_error option) \<times> Request option" where
  "DeliverOnce E start now del s =
     (case GetCanonicalEvent (ds_store s) (del_TenantID del) (del_EventID del) of
        Inl _ \<Rightarrow> (fail E start now del 0 [] ''event not found: not found'' s, None)
      | Inr event \<Rightarrow>
     (case GetDestination (ds_store s) (del_TenantID del) (del_DestinationID del) of
        Inl _ \<Rightarrow> (fail E start now del 0 [] ''destination not found: not found'' s, None)
      | Inr dest \<Rightarrow>
     (case BreakerAllow (ds_breaker s) start (dst_ID dest) of
        (b, Some why) \<Rightarrow> (park E now del dest (refusalText (de_fmtDuration E) why) (s\<lparr>ds_breaker := b\<rparr>), None)
      | (b, None) \<Rightarrow>
          let s = s\<lparr>ds_breaker := b\<rparr>;
              raw = rawFor (ds_store s) del dest event
          in case RenderPayload E (ResolveSchema (dst_SchemaVersion dest)) event raw of
               Inl err \<Rightarrow> (fail E start now del 0 [] (''payload could not be encoded: '' @ err) s, None)
             | Inr body \<Rightarrow>
          (case de_secrets E (dst_SigningSecretRef dest) of
             Inl err \<Rightarrow> (retry E start now del dest 0 [] (''signing secret did not resolve: '' @ err) s, None)
           | Inr secrets \<Rightarrow>
          (case de_badRequest E (dst_URL dest) of
             Some err \<Rightarrow> (fail E start now del 0 [] (''request could not be built: '' @ err) s, None)
           | None \<Rightarrow>
               let req = buildRequest E start del dest event secrets body
               in (exchange E start now del dest req s, Some req))))))"

section \<open>The worker\<close>

text \<open>Each attempt of a pass happens at times of its own, given by the delivery.\<close>

fun deliverBatch ::
    "DispatchEnv \<Rightarrow> (int \<Rightarrow> instant \<times> instant) \<Rightarrow> Delivery list \<Rightarrow> Dispatcher \<Rightarrow> Dispatcher \<times> Request list" where
  "deliverBatch E clock [] s = (s, [])"
| "deliverBatch E clock (del # dels) s =
     (let ((s, _), sent) = DeliverOnce E (fst (clock (del_ID del))) (snd (clock (del_ID del))) del s;
          (s, more) = deliverBatch E clock dels s
      in (s, (case sent of Some r \<Rightarrow> r # more | None \<Rightarrow> more)))"

fun passShards ::
    "DispatchEnv \<Rightarrow> (int \<Rightarrow> instant \<times> instant) \<Rightarrow> instant \<Rightarrow> int \<Rightarrow> duration \<Rightarrow> int list \<Rightarrow> Dispatcher
     \<Rightarrow> Dispatcher \<times> Request list" where
  "passShards E clock now batch lease [] s = (s, [])"
| "passShards E clock now batch lease (shard # shards) s =
     (let (m, claimed) = ClaimDue (ds_store s) shard now batch lease;
          (s, sent) = deliverBatch E clock claimed (s\<lparr>ds_store := m\<rparr>);
          (s, more) = passShards E clock now batch lease shards s
      in (s, sent @ more))"

definition pass ::
    "DispatchEnv \<Rightarrow> (int \<Rightarrow> instant \<times> instant) \<Rightarrow> instant \<Rightarrow> int \<Rightarrow> duration \<Rightarrow> Dispatcher \<Rightarrow> Dispatcher \<times> Request list" where
  "pass E clock now batch lease s =
     passShards E clock now (if batch \<le> 0 then 32 else batch) (if lease \<le> 0 then 2 * minute else lease)
       [0..de_shards E - 1] s"

end
