(* ===== verification/Dispatch_Spec.thy ===== *)
theory Dispatch_Spec
  imports Dispatch Audit_Chain
begin

text \<open>
  What the dispatcher promises: every attempt settles its delivery, success is recorded only for a 2xx
  answer, the retry budget holds, parking is free, one delivery is queued for each enabled matching
  destination, and the backoff stays in its band. Then two places where the code does not do what its
  comments say: an attempt that ends without an outcome for the breaker leaves a half-open breaker
  closed to traffic for good, and a secret manager outage spends the retry budget.
\<close>

section \<open>Settling a delivery\<close>

definition settles :: "Delivery \<Rightarrow> Dispatcher \<Rightarrow> Dispatcher \<times> store_error option \<Rightarrow> Delivery \<Rightarrow> bool" where
  "settles del s r d \<longleftrightarrow>
     snd r = None \<and> del_ID d = del_ID del
   \<and> map_of (mem_deliveries (ds_store (fst r))) = (map_of (mem_deliveries (ds_store s)))(del_ID del \<mapsto> d)
   \<and> map_of (mem_leases (ds_store (fst r))) = (map_of (mem_leases (ds_store s)))(del_ID del := None)"

definition held :: "Delivery \<Rightarrow> Dispatcher \<Rightarrow> bool" where
  "held del s \<longleftrightarrow>
     map_option del_TenantID (map_of (mem_deliveries (ds_store s)) (del_ID del)) = Some (del_TenantID del)"

definition written :: "instant \<Rightarrow> Delivery \<Rightarrow> Dispatcher \<Rightarrow> Delivery" where
  "written now del s =
     del\<lparr>del_CreatedAt := del_CreatedAt (the (map_of (mem_deliveries (ds_store s)) (del_ID del))),
         del_UpdatedAt := now\<rparr>"

lemma written_fields [simp]:
  "del_ID (written now del s) = del_ID del" "del_Status (written now del s) = del_Status del"
  "del_Attempt (written now del s) = del_Attempt del" "del_NextRetryAt (written now del s) = del_NextRetryAt del"
  by (simp_all add: written_def)

lemma complete_settles: "held del s \<Longrightarrow> settles del s (complete now del s) (written now del s)"
  by (auto simp: held_def settles_def complete_def CompleteDelivery_def written_def split: option.splits)

lemma complete_breaker [simp]: "ds_breaker (fst (complete now del s)) = ds_breaker s"
  by (simp add: complete_def split: prod.split)

lemma AppendAudit_frame [simp]:
  "mem_deliveries (fst (AppendAudit L t (m :: Memory) r)) = mem_deliveries m"
  "mem_leases (fst (AppendAudit L t m r)) = mem_leases m"
  "mem_events (fst (AppendAudit L t m r)) = mem_events m"
  "mem_destinations (fst (AppendAudit L t m r)) = mem_destinations m"
  by (simp_all add: AppendAudit_def Let_def split: sum.split)

lemma audit_frame [simp]:
  "mem_deliveries (ds_store (audit E now r s)) = mem_deliveries (ds_store s)"
  "mem_leases (ds_store (audit E now r s)) = mem_leases (ds_store s)"
  "mem_destinations (ds_store (audit E now r s)) = mem_destinations (ds_store s)"
  "ds_breaker (audit E now r s) = ds_breaker s"
  by (simp_all add: audit_def)

lemma held_cong:
  "mem_deliveries (ds_store s) = mem_deliveries (ds_store s') \<Longrightarrow> del_ID d = del_ID d' \<Longrightarrow>
   del_TenantID d = del_TenantID d' \<Longrightarrow> held d s = held d' s'"
  by (simp add: held_def)

lemma settles_cong:
  assumes "settles d s r x" and "del_ID d = del_ID d'"
    and "mem_deliveries (ds_store s) = mem_deliveries (ds_store s')" "mem_leases (ds_store s) = mem_leases (ds_store s')"
  shows "settles d' s' r x"
  using assms by (simp add: settles_def)

text \<open>The four ways an attempt ends.\<close>

lemma park_settles:
  assumes "held del s"
  obtains d where "settles del s (park E now del dest why s) d" "del_Status d = DeliveryFailed"
    "del_Attempt d = (if del_Attempt del > 0 then del_Attempt del - 1 else del_Attempt del)"
    "del_NextRetryAt d = now + breakerRetryDelay dest"
proof -
  let ?del = "del\<lparr>del_Attempt := (if del_Attempt del > 0 then del_Attempt del - 1 else del_Attempt del),
            del_Status := DeliveryFailed, del_Error := truncateUTF8 (''parked: '' @ why),
            del_NextRetryAt := now + breakerRetryDelay dest\<rparr>"
  have "held ?del s" using assms by (simp add: held_def)
  from complete_settles [OF this, of now] have "settles del s (park E now del dest why s) (written now ?del s)"
    by (simp add: park_def settles_def)
  then show ?thesis by (rule that) simp_all
qed

lemma succeed_settles:
  assumes "held del s"
  obtains d where "settles del s (succeed E start now del code body s) d" "del_Status d = DeliverySucceeded"
proof -
  let ?del = "del\<lparr>del_Status := DeliverySucceeded, del_ResponseCode := code,
                    del_ResponseBody := truncateUTF8 body, del_DurationMS := durationMS start now,
                    del_NextRetryAt := zero_time\<rparr>"
  define s' where "s' = audit E now (eventAudit (del_TenantID ?del) ''event.forwarded'' (del_EventID ?del)
              [(''destination'', JString (del_DestinationID ?del)), (''attempt'', JNumber (FormatInt (del_Attempt ?del))),
               (''response_code'', JNumber (FormatInt code)), (''duration_ms'', JNumber (FormatInt (del_DurationMS ?del))),
               (''replay'', JBool (del_IsReplay ?del))]) s"
  have "held ?del s'" using assms by (simp add: held_def s'_def)
  from settles_cong [OF complete_settles [OF this, of now], of del s]
  have "settles del s (succeed E start now del code body s) (written now ?del s')"
    unfolding succeed_def Let_def s'_def by simp
  then show ?thesis by (rule that) simp
qed

lemma fail_settles:
  assumes "held del s"
  obtains d where "settles del s (fail E start now del code body reason s) d" "del_Status d = DeliveryDeadLetter"
proof -
  let ?del = "del\<lparr>del_Status := DeliveryDeadLetter, del_ResponseCode := code,
                    del_ResponseBody := truncateUTF8 body, del_Error := truncateUTF8 reason,
                    del_DurationMS := durationMS start now, del_NextRetryAt := zero_time\<rparr>"
  define s' where "s' = audit E now (eventAudit (del_TenantID ?del) ''event.dead_lettered'' (del_EventID ?del)
              [(''destination'', JString (del_DestinationID ?del)), (''reason'', JString reason),
               (''response_code'', JNumber (FormatInt code))]) s"
  have "held ?del s'" using assms by (simp add: held_def s'_def)
  from settles_cong [OF complete_settles [OF this, of now], of del s]
  have "settles del s (fail E start now del code body reason s) (written now ?del s')"
    unfolding fail_def Let_def s'_def by simp
  then show ?thesis by (rule that) simp
qed

text \<open>How a retryable attempt is settled: the budget left decides, and the breaker when there is none.\<close>

definition outageParks :: "instant \<Rightarrow> Delivery \<Rightarrow> Destination \<Rightarrow> Dispatcher \<Rightarrow> bool" where
  "outageParks now del dest s \<longleftrightarrow>
     StateOf (ds_breaker s) (dst_ID dest) \<noteq> BreakerClosed \<and> time_sub now (del_CreatedAt del) < MaxOutageParking"

definition budgetLeft :: "Delivery \<Rightarrow> Destination \<Rightarrow> bool" where
  "budgetLeft del dest \<longleftrightarrow> del_Attempt del < int (Attempts (effectivePolicy dest))"

lemma retry_settles:
  assumes "held del s"
  obtains (again) d where "settles del s (retry E start now del dest code body reason s) d" "budgetLeft del dest"
      "del_Status d = DeliveryFailed" "del_Attempt d = del_Attempt del"
      "del_NextRetryAt d = now + backoffFor (de_rand E) (effectivePolicy dest) (del_Attempt del)"
  | (parked) d where "settles del s (retry E start now del dest code body reason s) d" "\<not> budgetLeft del dest"
      "outageParks now del dest s" "del_Status d = DeliveryFailed"
      "del_Attempt d = (if del_Attempt del > 0 then del_Attempt del - 1 else del_Attempt del)"
      "del_NextRetryAt d = now + breakerRetryDelay dest"
  | (dead) d where "settles del s (retry E start now del dest code body reason s) d" "\<not> budgetLeft del dest"
      "\<not> outageParks now del dest s" "del_Status d = DeliveryDeadLetter"
proof -
  let ?del = "del\<lparr>del_ResponseCode := code, del_ResponseBody := truncateUTF8 body,
                    del_Error := truncateUTF8 reason, del_DurationMS := durationMS start now\<rparr>"
  have h: "held ?del s" using assms by (simp add: held_def)
  show ?thesis
  proof (cases "budgetLeft del dest")
    case True
    let ?d = "?del\<lparr>del_Status := DeliveryFailed,
        del_NextRetryAt := now + backoffFor (de_rand E) (effectivePolicy dest) (del_Attempt del)\<rparr>"
    have "held ?d s" using assms by (simp add: held_def)
    from settles_cong [OF complete_settles [OF this, of now], of del s] True
    have "settles del s (retry E start now del dest code body reason s) (written now ?d s)"
      by (simp add: retry_def Let_def budgetLeft_def)
    then show ?thesis by (rule again) (simp_all add: True)
  next
    case nobudget: False
    show ?thesis
    proof (cases "outageParks now del dest s")
      case True
      obtain d where d: "settles ?del s (park E now ?del dest (''destination breaker is '' @
          stateName (StateOf (ds_breaker s) (dst_ID dest)) @
          ''; the retry budget is not spent during a destination-wide outage'') s) d" "del_Status d = DeliveryFailed"
        "del_Attempt d = (if del_Attempt ?del > 0 then del_Attempt ?del - 1 else del_Attempt ?del)"
        "del_NextRetryAt d = now + breakerRetryDelay dest" by (rule park_settles [OF h])
      have "settles del s (retry E start now del dest code body reason s) d"
        using settles_cong [OF d(1), of del s] nobudget True
        by (simp add: retry_def Let_def budgetLeft_def outageParks_def)
      then show ?thesis by (rule parked) (use d nobudget True in simp_all)
    next
      case False
      let ?d = "?del\<lparr>del_Status := DeliveryDeadLetter, del_NextRetryAt := zero_time\<rparr>"
      define s' where "s' = audit E now (eventAudit (del_TenantID ?del) ''event.dead_lettered'' (del_EventID ?del)
                         [(''destination'', JString (del_DestinationID ?del)),
                          (''attempts'', JNumber (FormatInt (del_Attempt ?del))),
                          (''response_code'', JNumber (FormatInt code)), (''reason'', JString reason)]) s"
      have "held ?d s'" using assms by (simp add: held_def s'_def)
      from settles_cong [OF complete_settles [OF this, of now], of del s]
      have "settles del s (complete now ?d s') (written now ?d s')" by (simp add: s'_def)
      then have "settles del s (retry E start now del dest code body reason s) (written now ?d s')"
        using nobudget False unfolding retry_def Let_def s'_def
        by (auto simp: budgetLeft_def outageParks_def)
      then show ?thesis by (rule dead) (simp_all add: nobudget False)
    qed
  qed
qed

section \<open>One attempt\<close>

lemma recordBreaker_store [simp]: "ds_store (recordBreaker now i ok reason s) = ds_store s"
  by (simp add: recordBreaker_def)

lemma held_store: "ds_store s = ds_store s' \<Longrightarrow> held del s = held del s'"
  by (simp add: held_def)

lemma settles_store: "ds_store s = ds_store s' \<Longrightarrow> settles del s r d = settles del s' r d"
  by (simp add: settles_def)

lemma settles_recordBreaker [simp]: "settles del (recordBreaker now i ok reason s) r d = settles del s r d"
  by (rule settles_store) simp

text \<open>What is known of a settled delivery, given what was sent and what came back.\<close>

definition outcomeOK :: "DispatchEnv \<Rightarrow> instant \<Rightarrow> Delivery \<Rightarrow> Request option \<Rightarrow> Delivery \<Rightarrow> bool" where
  "outcomeOK E now del sent d \<longleftrightarrow>
     (del_Status d = DeliverySucceeded \<longleftrightarrow>
        (\<exists>req code body. sent = Some req \<and> de_send E req = Response code body \<and> IsSuccess code))
   \<and> (\<forall>req code body. sent = Some req \<and> de_send E req = Response code body \<and> \<not> IsSuccess code \<and> \<not> ShouldRetry code
        \<longrightarrow> del_Status d = DeliveryDeadLetter)
   \<and> (\<forall>req reason. sent = Some req \<and> de_send E req = Transport reason True \<longrightarrow> del_Status d = DeliveryDeadLetter)
   \<and> del_Status d \<in> {DeliverySucceeded, DeliveryFailed, DeliveryDeadLetter}
   \<and> (del_Status d = DeliveryFailed \<longrightarrow> del_Attempt d \<in> {del_Attempt del, del_Attempt del - 1})"

lemma retry_outcome:
  assumes "held del s" and "\<And>req code body. sent = Some req \<Longrightarrow> de_send E req = Response code body \<Longrightarrow> \<not> IsSuccess code \<and> ShouldRetry code"
    and "\<And>req reason. sent = Some req \<Longrightarrow> de_send E req \<noteq> Transport reason True"
  shows "\<exists>d. settles del s (retry E start now del dest code body reason s) d \<and> outcomeOK E now del sent d"
proof -
  have ok: "outcomeOK E now del sent d"
    if "del_Status d = DeliveryFailed \<and> del_Attempt d \<in> {del_Attempt del, del_Attempt del - 1} \<or> del_Status d = DeliveryDeadLetter" for d
    using that assms(2,3) unfolding outcomeOK_def by auto
  show ?thesis
  proof (rule retry_settles [OF assms(1), of E start now dest code body reason])
    fix d
    assume d: "settles del s (retry E start now del dest code body reason s) d" "del_Status d = DeliveryFailed"
      "del_Attempt d = del_Attempt del"
    then have "outcomeOK E now del sent d" by (intro ok) simp
    with d show ?thesis by blast
  next
    fix d
    assume d: "settles del s (retry E start now del dest code body reason s) d" "del_Status d = DeliveryFailed"
      "del_Attempt d = (if del_Attempt del > 0 then del_Attempt del - 1 else del_Attempt del)"
    then have "outcomeOK E now del sent d" by (intro ok) simp
    with d show ?thesis by blast
  next
    fix d
    assume d: "settles del s (retry E start now del dest code body reason s) d" "del_Status d = DeliveryDeadLetter"
    then have "outcomeOK E now del sent d" by (intro ok) simp
    with d show ?thesis by blast
  qed
qed

lemma fail_outcome:
  assumes "held del s" and "\<And>req code body. sent = Some req \<Longrightarrow> de_send E req = Response code body \<Longrightarrow> \<not> IsSuccess code"
  shows "\<exists>d. settles del s (fail E start now del code body reason s) d \<and> outcomeOK E now del sent d"
proof -
  obtain d where d: "settles del s (fail E start now del code body reason s) d" "del_Status d = DeliveryDeadLetter"
    by (rule fail_settles [OF assms(1), of E start now code body reason])
  then have "outcomeOK E now del sent d" using assms(2) by (auto simp: outcomeOK_def)
  with d show ?thesis by blast
qed

lemma exchange_outcome:
  assumes h: "held del s"
  shows "\<exists>d. settles del s (exchange E start now del dest req s) d \<and> outcomeOK E now del (Some req) d"
proof (cases "de_send E req")
  case (Transport reason guarded)
  let ?s = "recordBreaker now (dst_ID dest) False reason s"
  have h': "held del ?s" using h by (simp add: held_def)
  have "\<exists>d. settles del ?s (exchange E start now del dest req s) d \<and> outcomeOK E now del (Some req) d"
  proof (cases guarded)
    case True
    with Transport have "exchange E start now del dest req s = fail E start now del 0 [] reason ?s"
      by (simp add: exchange_def Let_def)
    moreover have "\<exists>d. settles del ?s (fail E start now del 0 [] reason ?s) d \<and> outcomeOK E now del (Some req) d"
      using Transport by (intro fail_outcome [OF h']) auto
    ultimately show ?thesis by simp
  next
    case False
    with Transport have "exchange E start now del dest req s = retry E start now del dest 0 [] reason ?s"
      by (simp add: exchange_def Let_def)
    moreover have "\<exists>d. settles del ?s (retry E start now del dest 0 [] reason ?s) d \<and> outcomeOK E now del (Some req) d"
      using Transport False by (intro retry_outcome [OF h']) auto
    ultimately show ?thesis by simp
  qed
  then show ?thesis by simp
next
  case (Response code body)
  let ?body = "take maxResponseBody body"
  consider "IsSuccess code" | "\<not> IsSuccess code" "code \<ge> 500 \<or> code = 429"
    | "\<not> IsSuccess code" "\<not> (code \<ge> 500 \<or> code = 429)" "ShouldRetry code"
    | "\<not> IsSuccess code" "\<not> (code \<ge> 500 \<or> code = 429)" "\<not> ShouldRetry code" by blast
  then show ?thesis
  proof cases
    case 1
    let ?s = "recordBreaker now (dst_ID dest) True [] s"
    have "held del ?s" using h by (simp add: held_def)
    then obtain d where d: "settles del ?s (succeed E start now del code ?body ?s) d" "del_Status d = DeliverySucceeded"
      by (rule succeed_settles [of del ?s E start now code ?body])
    then have "outcomeOK E now del (Some req) d" using Response 1 by (auto simp: outcomeOK_def)
    with d 1 Response show ?thesis
      by (auto simp: exchange_def handleResponse_def)
  next
    case 2
    let ?s = "recordBreaker now (dst_ID dest) False (''destination returned '' @ FormatInt code) s"
    have "held del ?s" using h by (simp add: held_def)
    moreover have "ShouldRetry code" using 2 by (auto simp: ShouldRetry_def)
    ultimately have "\<exists>d. settles del ?s (retry E start now del dest code ?body [] ?s) d \<and> outcomeOK E now del (Some req) d"
      using 2 Response by (intro retry_outcome) auto
    with 2 Response show ?thesis by (simp add: exchange_def handleResponse_def)
  next
    case 3
    then have "exchange E start now del dest req s = retry E start now del dest code ?body [] s"
      using Response by (simp add: exchange_def handleResponse_def)
    moreover have "\<exists>d. settles del s (retry E start now del dest code ?body [] s) d \<and> outcomeOK E now del (Some req) d"
      using Response 3 by (intro retry_outcome [OF h]) auto
    ultimately show ?thesis by simp
  next
    case 4
    then have "exchange E start now del dest req s = fail E start now del code ?body
        (''destination returned '' @ FormatInt code @ '', which will not change on retry'') s"
      using Response by (simp add: exchange_def handleResponse_def)
    moreover have "\<exists>d. settles del s (fail E start now del code ?body
        (''destination returned '' @ FormatInt code @ '', which will not change on retry'') s) d \<and> outcomeOK E now del (Some req) d"
      using Response 4(1) by (intro fail_outcome [OF h]) auto
    ultimately show ?thesis by simp
  qed
qed

text \<open>The exits of an attempt, each with what it runs and what it sent.\<close>

lemma DeliverOnce_cases:
  obtains (failed) s' reason where "DeliverOnce E start now del s = (fail E start now del 0 [] reason s', None)"
      "ds_store s' = ds_store s"
  | (refused) s' dest why where "DeliverOnce E start now del s = (park E now del dest why s', None)"
      "ds_store s' = ds_store s" "GetDestination (ds_store s) (del_TenantID del) (del_DestinationID del) = Inr dest"
  | (nosecret) s' dest reason where "DeliverOnce E start now del s = (retry E start now del dest 0 [] reason s', None)"
      "ds_store s' = ds_store s" "GetDestination (ds_store s) (del_TenantID del) (del_DestinationID del) = Inr dest"
  | (sent) s' dest event secrets body where
      "DeliverOnce E start now del s = (exchange E start now del dest (buildRequest E start del dest event secrets body) s',
         Some (buildRequest E start del dest event secrets body))"
      "ds_store s' = ds_store s" "GetDestination (ds_store s) (del_TenantID del) (del_DestinationID del) = Inr dest"
      "GetCanonicalEvent (ds_store s) (del_TenantID del) (del_EventID del) = Inr event"
      "de_secrets E (dst_SigningSecretRef dest) = Inr secrets"
      "BreakerAllow (ds_breaker s) start (dst_ID dest) = (ds_breaker s', None)"
      "RenderPayload E (ResolveSchema (dst_SchemaVersion dest)) event (rawFor (ds_store s) del dest event) = Inr body"
proof (cases "GetCanonicalEvent (ds_store s) (del_TenantID del) (del_EventID del)")
  case (Inl x)
  then show ?thesis by (intro failed [of _ s]) (simp_all add: DeliverOnce_def)
next
  case (Inr event)
  note ev = this
  show ?thesis
  proof (cases "GetDestination (ds_store s) (del_TenantID del) (del_DestinationID del)")
    case (Inl x)
    with ev show ?thesis by (intro failed [of _ s]) (simp_all add: DeliverOnce_def)
  next
    case (Inr dest)
    obtain b ref where b: "BreakerAllow (ds_breaker s) start (dst_ID dest) = (b, ref)" by fastforce
    let ?s = "s\<lparr>ds_breaker := b\<rparr>"
    let ?raw = "rawFor (ds_store s) del dest event"
    consider why where "ref = Some why"
      | err where "ref = None" "RenderPayload E (ResolveSchema (dst_SchemaVersion dest)) event ?raw = Inl err"
      | body err where "ref = None" "RenderPayload E (ResolveSchema (dst_SchemaVersion dest)) event ?raw = Inr body"
          "de_secrets E (dst_SigningSecretRef dest) = Inl err"
      | body secrets err where "ref = None" "RenderPayload E (ResolveSchema (dst_SchemaVersion dest)) event ?raw = Inr body"
          "de_secrets E (dst_SigningSecretRef dest) = Inr secrets" "de_badRequest E (dst_URL dest) = Some err"
      | body secrets where "ref = None" "RenderPayload E (ResolveSchema (dst_SchemaVersion dest)) event ?raw = Inr body"
          "de_secrets E (dst_SigningSecretRef dest) = Inr secrets" "de_badRequest E (dst_URL dest) = None"
      by (metis not_None_eq sum.exhaust)
    then show ?thesis
    proof cases
      case 1
      with ev Inr b show ?thesis by (intro refused [of dest _ ?s]) (simp_all add: DeliverOnce_def)
    next
      case 2
      with ev Inr b show ?thesis by (intro failed [of _ ?s]) (simp_all add: DeliverOnce_def)
    next
      case 3
      with ev Inr b show ?thesis by (intro nosecret [of dest _ ?s]) (simp_all add: DeliverOnce_def)
    next
      case 4
      with ev Inr b show ?thesis by (intro failed [of _ ?s]) (simp_all add: DeliverOnce_def)
    next
      case 5
      with ev Inr b show ?thesis
        by (intro sent [of dest event secrets body ?s]) (simp_all add: DeliverOnce_def Let_def)
    qed
  qed
qed

text \<open>
  C3: Every attempt settles its delivery, on every path. Whatever the store, the breaker, the secret
  manager and the destination do, after one attempt the claimed delivery is stored as succeeded, failed
  or dead-lettered, its lease is released, no other delivery or lease is touched and no error is
  returned. It is recorded as succeeded exactly when a request was sent and answered with a 2xx; an
  answer that is neither a success nor retryable, and a private address, dead-letter it at once.
\<close>

theorem DeliverOnce_settles:
  assumes "held del s"
  shows "\<exists>d. settles del s (fst (DeliverOnce E start now del s)) d
           \<and> outcomeOK E now del (snd (DeliverOnce E start now del s)) d"
proof (rule DeliverOnce_cases [of E start now del s])
  fix s' reason
  assume a: "DeliverOnce E start now del s = (fail E start now del 0 [] reason s', None)" "ds_store s' = ds_store s"
  with assms fail_outcome [of del s' None E start now 0 "[]" reason] show ?thesis
    by (simp add: held_store [of s' s] settles_store [of s' s])
next
  fix s' dest why
  assume a: "DeliverOnce E start now del s = (park E now del dest why s', None)" "ds_store s' = ds_store s"
  have "held del s'" using assms a(2) by (simp add: held_def)
  then obtain d where d: "settles del s' (park E now del dest why s') d" "del_Status d = DeliveryFailed"
      "del_Attempt d = (if del_Attempt del > 0 then del_Attempt del - 1 else del_Attempt del)"
    by (rule park_settles [of del s' E now dest why])
  then have "outcomeOK E now del None d" by (simp add: outcomeOK_def)
  with a d(1) show ?thesis by (auto simp: settles_store [of s' s])
next
  fix s' dest reason
  assume a: "DeliverOnce E start now del s = (retry E start now del dest 0 [] reason s', None)" "ds_store s' = ds_store s"
  with assms retry_outcome [of del s' None E start now dest 0 "[]" reason] show ?thesis
    by (simp add: held_store [of s' s] settles_store [of s' s])
next
  fix s' dest event secrets body
  assume a: "DeliverOnce E start now del s = (exchange E start now del dest (buildRequest E start del dest event secrets body) s',
         Some (buildRequest E start del dest event secrets body))" "ds_store s' = ds_store s"
  with assms exchange_outcome [of del s' E start now dest "buildRequest E start del dest event secrets body"]
  show ?thesis by (simp add: held_store [of s' s] settles_store [of s' s])
qed

section \<open>A sample state\<close>

definition sampleEnv :: "http_result \<Rightarrow> DispatchEnv" where
  "sampleEnv answer = \<lparr>de_audit = plainLib, de_validJSON = (\<lambda>_. True), de_marshal = (\<lambda>_. Inr ''{}''),
     de_secrets = (\<lambda>_. Inr [''k'']), de_mac = plainMac, de_badRequest = (\<lambda>_. None), de_fmtDuration = (\<lambda>_. []),
     de_rand = (\<lambda>_. None), de_send = (\<lambda>_. answer), de_shards = 64\<rparr>"

definition sampleClaim :: Delivery where
  "sampleClaim = bump 20 (sampleDelivery 1 1 DeliveryPending 0)"

definition storedEvent :: CanonicalEvent where
  "storedEvent = zeroEvent\<lparr>ev_ID := ''sh_evt_1'', ev_TenantID := ''tnt_1''\<rparr>"

definition sampleStore :: Memory where
  "sampleStore = NewMemory\<lparr>mem_deliveryIDs := 1, mem_deliveries := [(1, sampleClaim)],
     mem_destinations := [(''dst_1'', sampleDestination)], mem_events := [(''sh_evt_1'', storedEvent)]\<rparr>"

definition sampleState :: "Breaker \<Rightarrow> Dispatcher" where
  "sampleState b = \<lparr>ds_store = sampleStore, ds_breaker = b\<rparr>"

lemma sampleClaim_fields [simp]:
  "del_ID sampleClaim = 1" "del_TenantID sampleClaim = ''tnt_1''" "del_EventID sampleClaim = ''sh_evt_1''"
  "del_DestinationID sampleClaim = ''dst_1''" "del_Attempt sampleClaim = 1"
  by (simp_all add: sampleClaim_def bump_def sampleDelivery_def)

lemma sampleState_held: "held sampleClaim (sampleState b)"
  by (simp add: held_def sampleState_def sampleStore_def)

lemma sampleState_event:
  "GetCanonicalEvent (ds_store (sampleState b)) (del_TenantID sampleClaim) (del_EventID sampleClaim) = Inr storedEvent"
  by (simp add: sampleState_def sampleStore_def GetCanonicalEvent_def) (simp add: storedEvent_def)

lemma sampleState_destination:
  "GetDestination (ds_store (sampleState b)) (del_TenantID sampleClaim) (del_DestinationID sampleClaim) = Inr sampleDestination"
  by (simp add: sampleState_def sampleStore_def GetDestination_def) (simp add: sampleDestination_def)

lemma sampleDestination_fields [simp]:
  "dst_ID sampleDestination = ''dst_1''" "effectivePolicy sampleDestination = DefaultRetryPolicy"
  "Attempts DefaultRetryPolicy = 7" "dst_SchemaVersion sampleDestination = ''v1''"
  by (simp_all add: sampleDestination_def effectivePolicy_def DefaultRetryPolicy_def Attempts_def)

lemma sampleState_wf: "table_wf dst_ID (mem_destinations (ds_store (sampleState b)))"
  by (simp add: table_wf_def sampleState_def sampleStore_def)

lemma sampleRender: "RenderPayload (sampleEnv answer) v event raw = Inr ''{}''"
proof -
  have "ResolveSchema v = SchemaV1" by (simp add: ResolveSchema_def ValidSchemaVersion_def schemaVersions_def)
  then show ?thesis by (simp add: RenderPayload_def sampleEnv_def)
qed

lemma sampleSent:
  assumes "BreakerAllow b t ''dst_1'' = (b', None)"
  shows "DeliverOnce (sampleEnv answer) t u sampleClaim (sampleState b) =
    (exchange (sampleEnv answer) t u sampleClaim sampleDestination
       (buildRequest (sampleEnv answer) t sampleClaim sampleDestination storedEvent [''k''] ''{}'') (sampleState b'),
     Some (buildRequest (sampleEnv answer) t sampleClaim sampleDestination storedEvent [''k''] ''{}''))"
proof -
  have "ds_breaker (sampleState b) = b" "(sampleState b)\<lparr>ds_breaker := b'\<rparr> = sampleState b'"
    "de_secrets (sampleEnv answer) (dst_SigningSecretRef sampleDestination) = Inr [''k'']"
    "de_badRequest (sampleEnv answer) (dst_URL sampleDestination) = None"
    by (simp_all add: sampleState_def sampleEnv_def)
  then show ?thesis
    using assms sampleState_event [of b] sampleState_destination [of b]
    by (simp add: DeliverOnce_def sampleRender Let_def)
qed

theorem DeliverOnce_settles_witness:
  "\<exists>d. settles sampleClaim (sampleState (NewBreaker 0 0 0))
     (fst (DeliverOnce (sampleEnv (Response 200 [])) 20 21 sampleClaim (sampleState (NewBreaker 0 0 0)))) d"
  using DeliverOnce_settles [OF sampleState_held] by blast

section \<open>The retry budget\<close>

lemma settles_unique: "settles del s r d \<Longrightarrow> settles del s r d' \<Longrightarrow> d = d'"
  unfolding settles_def by (metis fun_upd_same option.inject)

definition inBudget :: "Delivery \<Rightarrow> Destination \<Rightarrow> Delivery \<Rightarrow> bool" where
  "inBudget del dest d \<longleftrightarrow>
     (del_Status d = DeliveryFailed \<longrightarrow> 0 \<le> del_Attempt d \<and> del_Attempt d < int (Attempts (effectivePolicy dest)))"

lemma retry_budget:
  assumes "held del s" "1 \<le> del_Attempt del" "del_Attempt del \<le> int (Attempts (effectivePolicy dest))"
  shows "\<exists>d. settles del s (retry E start now del dest code body reason s) d \<and> inBudget del dest d"
  by (rule retry_settles [OF assms(1), of E start now dest code body reason])
     (use assms(2,3) in \<open>fastforce simp: inBudget_def budgetLeft_def\<close>)+

lemma park_budget:
  assumes "held del s" "1 \<le> del_Attempt del" "del_Attempt del \<le> int (Attempts (effectivePolicy dest))"
  shows "\<exists>d. settles del s (park E now del dest why s) d \<and> inBudget del dest d"
  by (rule park_settles [OF assms(1), of E now dest why]) (use assms(2,3) in \<open>fastforce simp: inBudget_def\<close>)

lemma dead_or_done_budget:
  assumes "settles del s r d" "del_Status d \<noteq> DeliveryFailed"
  shows "\<exists>d. settles del s r d \<and> inBudget del dest d"
  using assms by (auto simp: inBudget_def)

lemma exchange_budget:
  assumes "held del s" "1 \<le> del_Attempt del" "del_Attempt del \<le> int (Attempts (effectivePolicy dest))"
  shows "\<exists>d. settles del s (exchange E start now del dest req s) d \<and> inBudget del dest d"
proof -
  have h: "held del (recordBreaker now i ok reason s)" for i ok reason using assms(1) by (simp add: held_def)
  have f: "\<exists>d. settles del s' (fail E start now del code body reason s') d \<and> inBudget del dest d"
    if "held del s'" for s' code body reason
    by (rule fail_settles [OF that, of E start now code body reason]) (auto intro: dead_or_done_budget)
  have u: "\<exists>d. settles del s' (succeed E start now del code body s') d \<and> inBudget del dest d"
    if "held del s'" for s' code body
    by (rule succeed_settles [OF that, of E start now code body]) (auto intro: dead_or_done_budget)
  note r = retry_budget [OF _ assms(2,3)]
  have "\<exists>d. settles del s (handleResponse E start now del dest code body s) d \<and> inBudget del dest d" for code body
    using u [OF h, of "dst_ID dest" True "[]"]
      r [OF h, of "dst_ID dest" False "''destination returned '' @ FormatInt code"] r [OF assms(1)] f [OF assms(1)]
    unfolding handleResponse_def settles_recordBreaker by simp
  then show ?thesis
    using f [OF h, of "dst_ID dest" False] r [OF h, of "dst_ID dest" False]
    unfolding exchange_def Let_def settles_recordBreaker by (simp split: http_result.split)
qed

lemma retry_breaker [simp]: "ds_breaker (fst (retry E start now del dest code body reason s)) = ds_breaker s"
  by (simp add: retry_def Let_def park_def)

text \<open>The answers worth another attempt: no connection, unless the guard refused it, and the retryable statuses.\<close>

fun worthRetrying :: "http_result \<Rightarrow> bool" where
  "worthRetrying (Transport reason private) = (\<not> private)"
| "worthRetrying (Response code body) = (\<not> IsSuccess code \<and> ShouldRetry code)"

lemma exchange_retries:
  assumes "worthRetrying (de_send E req)"
  obtains s' code body reason where "exchange E start now del dest req s = retry E start now del dest code body reason s'"
    "ds_store s' = ds_store s"
proof (cases "de_send E req")
  case (Transport reason guarded)
  with assms show ?thesis by (intro that [of 0 "[]" reason "recordBreaker now (dst_ID dest) False reason s"]) (simp_all add: exchange_def Let_def recordBreaker_def)
next
  case (Response code body)
  with assms have c: "\<not> IsSuccess code" "ShouldRetry code" by simp_all
  show ?thesis
  proof (cases "code \<ge> 500 \<or> code = 429")
    case True
    with Response c show ?thesis
      by (intro that [of code "take maxResponseBody body" "[]"
             "recordBreaker now (dst_ID dest) False (''destination returned '' @ FormatInt code) s"])
         (auto simp: exchange_def handleResponse_def recordBreaker_def)
  next
    case False
    with Response c show ?thesis
      by (intro that [of code "take maxResponseBody body" "[]" s]) (auto simp: exchange_def handleResponse_def)
  qed
qed

text \<open>How a retry is settled, read off the state it leaves.\<close>

definition retrySettled :: "DispatchEnv \<Rightarrow> instant \<Rightarrow> Delivery \<Rightarrow> Destination \<Rightarrow> Dispatcher \<Rightarrow> Delivery \<Rightarrow> bool" where
  "retrySettled E now del dest s d \<longleftrightarrow>
     (if del_Attempt del < int (Attempts (effectivePolicy dest)) then
        del_Status d = DeliveryFailed \<and> del_Attempt d = del_Attempt del
        \<and> del_NextRetryAt d = now + backoffFor (de_rand E) (effectivePolicy dest) (del_Attempt del)
      else if StateOf (ds_breaker s) (dst_ID dest) \<noteq> BreakerClosed \<and> time_sub now (del_CreatedAt del) < MaxOutageParking then
        del_Status d = DeliveryFailed \<and> del_Attempt d = del_Attempt del - 1
        \<and> del_NextRetryAt d = now + breakerRetryDelay dest
      else del_Status d = DeliveryDeadLetter)"

lemma retry_settled:
  assumes "held del s" and "1 \<le> del_Attempt del"
  shows "\<exists>d. settles del s (retry E start now del dest code body reason s) d
    \<and> retrySettled E now del dest (fst (retry E start now del dest code body reason s)) d"
proof (rule retry_settles [OF assms(1), of E start now dest code body reason])
  fix d
  assume "settles del s (retry E start now del dest code body reason s) d" "budgetLeft del dest"
    "del_Status d = DeliveryFailed" "del_Attempt d = del_Attempt del"
    "del_NextRetryAt d = now + backoffFor (de_rand E) (effectivePolicy dest) (del_Attempt del)"
  then show ?thesis by (intro exI [of _ d]) (simp add: retrySettled_def budgetLeft_def)
next
  fix d
  assume "settles del s (retry E start now del dest code body reason s) d" "\<not> budgetLeft del dest"
    "outageParks now del dest s" "del_Status d = DeliveryFailed"
    "del_Attempt d = (if del_Attempt del > 0 then del_Attempt del - 1 else del_Attempt del)"
    "del_NextRetryAt d = now + breakerRetryDelay dest"
  then show ?thesis
    using assms(2) by (intro exI [of _ d]) (simp add: retrySettled_def budgetLeft_def outageParks_def)
next
  fix d
  assume "settles del s (retry E start now del dest code body reason s) d" "\<not> budgetLeft del dest"
    "\<not> outageParks now del dest s" "del_Status d = DeliveryDeadLetter"
  then show ?thesis by (intro exI [of _ d]) (simp add: retrySettled_def budgetLeft_def outageParks_def)
qed

text \<open>
  C11: The retry budget holds, and running out of it is final but for an outage. A claimed delivery whose attempt is
  within its destination's budget, the length of its backoff schedule, is after the attempt either finished or
  waiting with strictly fewer attempts counted than the budget. When the attempt was answered in a way that is worth
  retrying, it is waiting again for exactly the backoff step as long as there is budget left. With none left it is
  dead-lettered, unless the destination's breaker is not closed and the delivery is younger than a day: then
  the attempt is given back and the delivery parked for the short delay, the only way an attempt is not counted.
\<close>

theorem DeliverOnce_budget:
  assumes "held del s" and "1 \<le> del_Attempt del"
    and dest: "GetDestination (ds_store s) (del_TenantID del) (del_DestinationID del) = Inr dest"
    and d: "settles del s (fst (DeliverOnce E start now del s)) d"
  shows "(del_Attempt del \<le> int (Attempts (effectivePolicy dest)) \<and> del_Status d = DeliveryFailed \<longrightarrow>
            0 \<le> del_Attempt d \<and> del_Attempt d < int (Attempts (effectivePolicy dest)))
    \<and> (\<forall>req. snd (DeliverOnce E start now del s) = Some req \<and> worthRetrying (de_send E req) \<longrightarrow>
         (if del_Attempt del < int (Attempts (effectivePolicy dest)) then
            del_Status d = DeliveryFailed \<and> del_Attempt d = del_Attempt del
            \<and> del_NextRetryAt d = now + backoffFor (de_rand E) (effectivePolicy dest) (del_Attempt del)
          else if StateOf (ds_breaker (fst (fst (DeliverOnce E start now del s)))) (dst_ID dest) \<noteq> BreakerClosed
                  \<and> time_sub now (del_CreatedAt del) < MaxOutageParking then
            del_Status d = DeliveryFailed \<and> del_Attempt d = del_Attempt del - 1
            \<and> del_NextRetryAt d = now + breakerRetryDelay dest
          else del_Status d = DeliveryDeadLetter))"
proof -
  have "\<exists>d. settles del s (fst (DeliverOnce E start now del s)) d \<and> inBudget del dest d"
    if "del_Attempt del \<le> int (Attempts (effectivePolicy dest))"
  proof (rule DeliverOnce_cases [of E start now del s])
    fix s' reason
    assume a: "DeliverOnce E start now del s = (fail E start now del 0 [] reason s', None)" "ds_store s' = ds_store s"
    have "held del s'" using assms(1) a(2) by (simp add: held_def)
    then show ?thesis using a
      by (rule_tac fail_settles [of del s' E start now 0 "[]" reason])
         (auto simp: settles_store [of s' s] intro: dead_or_done_budget)
  next
    fix s' dest' why
    assume a: "DeliverOnce E start now del s = (park E now del dest' why s', None)" "ds_store s' = ds_store s"
      "GetDestination (ds_store s) (del_TenantID del) (del_DestinationID del) = Inr dest'"
    have "held del s'" using assms(1) a(2) by (simp add: held_def)
    from park_budget [OF this assms(2) that] a dest show ?thesis by (simp add: settles_store [of s' s])
  next
    fix s' dest' reason
    assume a: "DeliverOnce E start now del s = (retry E start now del dest' 0 [] reason s', None)" "ds_store s' = ds_store s"
      "GetDestination (ds_store s) (del_TenantID del) (del_DestinationID del) = Inr dest'"
    have "held del s'" using assms(1) a(2) by (simp add: held_def)
    from retry_budget [OF this assms(2) that] a dest show ?thesis by (simp add: settles_store [of s' s])
  next
    fix s' dest' event secrets body
    assume a: "DeliverOnce E start now del s = (exchange E start now del dest' (buildRequest E start del dest' event secrets body) s',
         Some (buildRequest E start del dest' event secrets body))" "ds_store s' = ds_store s"
      "GetDestination (ds_store s) (del_TenantID del) (del_DestinationID del) = Inr dest'"
    have "held del s'" using assms(1) a(2) by (simp add: held_def)
    from exchange_budget [OF this assms(2) that] a dest show ?thesis by (simp add: settles_store [of s' s])
  qed
  then have budget: "inBudget del dest d" if "del_Attempt del \<le> int (Attempts (effectivePolicy dest))"
    using settles_unique [OF d] that by blast
  have "retrySettled E now del dest (fst (fst (DeliverOnce E start now del s))) d"
    if "snd (DeliverOnce E start now del s) = Some req" and w: "worthRetrying (de_send E req)" for req
  proof (rule DeliverOnce_cases [of E start now del s])
    fix s' dest' event secrets body
    assume a: "DeliverOnce E start now del s = (exchange E start now del dest' (buildRequest E start del dest' event secrets body) s',
         Some (buildRequest E start del dest' event secrets body))" "ds_store s' = ds_store s"
      "GetDestination (ds_store s) (del_TenantID del) (del_DestinationID del) = Inr dest'"
    then have "req = buildRequest E start del dest' event secrets body" and "dest' = dest" using that(1) dest by auto
    with a(1) have e: "fst (DeliverOnce E start now del s) = exchange E start now del dest req s'" by simp
    obtain s'' code bdy reason where r: "exchange E start now del dest req s' = retry E start now del dest code bdy reason s''"
      "ds_store s'' = ds_store s'" by (rule exchange_retries [OF w])
    have "held del s''" using assms(1) a(2) r(2) by (simp add: held_def)
    from retry_settled [OF this assms(2), of E start now dest code bdy reason] obtain d' where
      d': "settles del s'' (fst (DeliverOnce E start now del s)) d'"
        "retrySettled E now del dest (fst (fst (DeliverOnce E start now del s))) d'" unfolding e r(1) by blast
    then have "settles del s (fst (DeliverOnce E start now del s)) d'" using a(2) r(2) by (simp add: settles_store [of s'' s])
    with settles_unique [OF d] d'(2) show ?thesis by blast
  qed (use that in simp_all)
  with budget show ?thesis unfolding inBudget_def retrySettled_def by blast
qed

lemma sampleSent7:
  assumes "BreakerAllow b t ''dst_1'' = (b', None)"
  shows "DeliverOnce (sampleEnv answer) t u (sampleClaim\<lparr>del_Attempt := 7\<rparr>) (sampleState b) =
    (exchange (sampleEnv answer) t u (sampleClaim\<lparr>del_Attempt := 7\<rparr>) sampleDestination
       (buildRequest (sampleEnv answer) t (sampleClaim\<lparr>del_Attempt := 7\<rparr>) sampleDestination storedEvent [''k''] ''{}'')
       (sampleState b'),
     Some (buildRequest (sampleEnv answer) t (sampleClaim\<lparr>del_Attempt := 7\<rparr>) sampleDestination storedEvent [''k''] ''{}''))"
proof -
  have "ds_breaker (sampleState b) = b" "(sampleState b)\<lparr>ds_breaker := b'\<rparr> = sampleState b'"
    "de_secrets (sampleEnv answer) (dst_SigningSecretRef sampleDestination) = Inr [''k'']"
    "de_badRequest (sampleEnv answer) (dst_URL sampleDestination) = None"
    by (simp_all add: sampleState_def sampleEnv_def)
  then show ?thesis
    using assms sampleState_event [of b] sampleState_destination [of b]
    by (simp add: DeliverOnce_def sampleRender Let_def)
qed

text \<open>The last of seven attempts, answered with a 408 while the breaker is closed, is dead-lettered.\<close>

theorem DeliverOnce_budget_witness:
  "\<exists>d. settles (sampleClaim\<lparr>del_Attempt := 7\<rparr>) (sampleState (NewBreaker 0 0 0))
     (fst (DeliverOnce (sampleEnv (Response 408 [])) 20 21 (sampleClaim\<lparr>del_Attempt := 7\<rparr>) (sampleState (NewBreaker 0 0 0)))) d
   \<and> del_Status d = DeliveryDeadLetter"
proof -
  let ?s = "sampleState (NewBreaker 0 0 0)" and ?E = "sampleEnv (Response 408 [])" and ?c = "sampleClaim\<lparr>del_Attempt := 7\<rparr>"
  let ?req = "buildRequest ?E 20 ?c sampleDestination storedEvent [''k''] ''{}''"
  have h: "held ?c ?s" using sampleState_held [of "NewBreaker 0 0 0"] by (simp add: held_def)
  have dest: "GetDestination (ds_store ?s) (del_TenantID ?c) (del_DestinationID ?c) = Inr sampleDestination"
    using sampleState_destination [of "NewBreaker 0 0 0"] by simp
  have "BreakerAllow (NewBreaker 0 0 0) 20 ''dst_1'' = (NewBreaker 0 0 0, None)"
    by (simp add: BreakerAllow_def NewBreaker_def)
  then have e: "DeliverOnce ?E 20 21 ?c ?s = (exchange ?E 20 21 ?c sampleDestination ?req ?s, Some ?req)"
    by (rule sampleSent7)
  moreover have x: "exchange ?E 20 21 ?c sampleDestination ?req ?s = retry ?E 20 21 ?c sampleDestination 408 [] [] ?s"
    by (simp add: exchange_def sampleEnv_def handleResponse_def IsSuccess_def ShouldRetry_def)
  moreover have b: "StateOf (ds_breaker (fst (fst (DeliverOnce ?E 20 21 ?c ?s)))) (dst_ID sampleDestination) = BreakerClosed"
    unfolding e x by (simp add: sampleState_def StateOf_def NewBreaker_def)
  moreover have w: "worthRetrying (de_send ?E ?req)" by (simp add: sampleEnv_def IsSuccess_def ShouldRetry_def)
  obtain d where d: "settles ?c ?s (fst (DeliverOnce ?E 20 21 ?c ?s)) d"
    using retry_settled [OF h, of ?E 20 21 sampleDestination 408 "[]" "[]"] e x by auto
  have "\<not> del_Attempt ?c < int (Attempts (effectivePolicy sampleDestination))"
    by (simp add: sampleDestination_def effectivePolicy_def DefaultRetryPolicy_def Attempts_def)
  with DeliverOnce_budget [OF h _ dest d] e w b d show ?thesis by auto
qed

text \<open>
  Parking is free. When the breaker refuses, nothing is sent, the attempt that the claim counted is
  given back, and the delivery waits a short, positive time: an outage of any length does not spend the
  retry budget of the events queued behind it.
\<close>

theorem refused_attempt_is_free:
  assumes "held del s" and "1 \<le> del_Attempt del"
    and "GetCanonicalEvent (ds_store s) (del_TenantID del) (del_EventID del) = Inr event"
    and "GetDestination (ds_store s) (del_TenantID del) (del_DestinationID del) = Inr dest"
    and refused: "snd (BreakerAllow (ds_breaker s) start (dst_ID dest)) = Some why"
  shows "snd (DeliverOnce E start now del s) = None
       \<and> (\<exists>d. settles del s (fst (DeliverOnce E start now del s)) d \<and> del_Status d = DeliveryFailed
            \<and> del_Attempt d = del_Attempt del - 1 \<and> now < del_NextRetryAt d \<and> del_NextRetryAt d \<le> now + 30 * second)"
proof -
  obtain b where b: "BreakerAllow (ds_breaker s) start (dst_ID dest) = (b, Some why)"
    using refused by (metis prod.collapse)
  let ?s = "s\<lparr>ds_breaker := b\<rparr>" and ?why = "refusalText (de_fmtDuration E) why"
  have e: "DeliverOnce E start now del s = (park E now del dest ?why ?s, None)"
    using assms(3,4) b by (simp add: DeliverOnce_def)
  have "held del ?s" using assms(1) by (simp add: held_def)
  then obtain d where d: "settles del ?s (park E now del dest ?why ?s) d" "del_Status d = DeliveryFailed"
      "del_Attempt d = (if del_Attempt del > 0 then del_Attempt del - 1 else del_Attempt del)"
      "del_NextRetryAt d = now + breakerRetryDelay dest"
    by (rule park_settles [of del ?s E now dest ?why])
  have "0 < breakerRetryDelay dest \<and> breakerRetryDelay dest \<le> 30 * second"
    by (simp add: breakerRetryDelay_def Let_def second_def)
  with e d assms(2) settles_store [of ?s s] show ?thesis by auto
qed

theorem refused_attempt_is_free_witness:
  "snd (DeliverOnce (sampleEnv (Response 200 [])) 20 21 sampleClaim
     (sampleState (NewBreaker 0 0 0\<lparr>brk_state := [(''dst_1'', newEntry\<lparr>be_state := BreakerOpen, be_nextProbeAt := 99\<rparr>)]\<rparr>))) = None"
proof -
  let ?b = "NewBreaker 0 0 0\<lparr>brk_state := [(''dst_1'', newEntry\<lparr>be_state := BreakerOpen, be_nextProbeAt := 99\<rparr>)]\<rparr>"
  have "snd (BreakerAllow (ds_breaker (sampleState ?b)) 20 (dst_ID sampleDestination)) =
      Some (Failing 0 [] (roundSecond (time_sub 99 20)))"
    by (simp add: sampleState_def BreakerAllow_def newEntry_def)
  from refused_attempt_is_free [OF sampleState_held _ sampleState_event sampleState_destination this]
  show ?thesis by simp
qed

section \<open>Backoff\<close>

text \<open>
  The backoff stays in its band: under a valid policy, whatever the random source returns in its
  range, the wait is not negative and differs from the policy's step by at most the jitter fraction of
  it, to the nanosecond above; past the last step the last step is used.
\<close>

theorem backoffFor_band:
  assumes "RetryPolicy_Validate p = None" and "0 \<le> attempt"
    and rnd: "\<And>bound n. rnd bound = Some n \<Longrightarrow> 0 \<le> n \<and> n < bound"
  shows "0 \<le> backoffFor rnd p attempt
       \<and> \<bar>of_int (backoffFor rnd p attempt - pol_Backoff p ! min (nat attempt) (Attempts p - 1))\<bar>
           \<le> pol_JitterFraction p * of_int (pol_Backoff p ! min (nat attempt) (Attempts p - 1)) + (1 :: rat)"
proof -
  let ?base = "pol_Backoff p ! min (nat attempt) (Attempts p - 1)"
  have p: "pol_Backoff p \<noteq> []" "0 \<le> pol_JitterFraction p" "pol_JitterFraction p \<le> 1"
    "list_all (\<lambda>d. 0 \<le> d) (pol_Backoff p)"
    using assms(1) by (auto simp: RetryPolicy_Validate_None Attempts_def)
  then have "min (nat attempt) (Attempts p - 1) < length (pol_Backoff p)"
    by (cases "pol_Backoff p") (auto simp: Attempts_def min_def)
  then have base: "0 \<le> ?base" using p(4) by (simp add: list_all_length)
  let ?spread = "of_int ?base * pol_JitterFraction p"
  have idx: "nat (let idx = (if attempt \<ge> int (length (pol_Backoff p)) then int (length (pol_Backoff p)) - 1 else attempt)
      in if idx < 0 then 0 else idx) = min (nat attempt) (Attempts p - 1)"
    using assms(2) p(1) by (cases "pol_Backoff p") (auto simp: Let_def Attempts_def min_def)
  have b: "backoffFor rnd p attempt = (if ?base \<le> 0 \<or> pol_JitterFraction p \<le> 0 then ?base
      else case rnd (\<lfloor>2 * ?spread\<rfloor> + 1) of None \<Rightarrow> ?base | Some n \<Rightarrow> ?base + n - \<lfloor>?spread\<rfloor>)"
    unfolding backoffFor_def Let_def idx [unfolded Let_def] by simp
  have s: "0 \<le> ?spread" "?spread \<le> of_int ?base"
    using base p(2,3) mult_left_mono [OF p(3), of "of_int ?base"] by simp_all
  have "backoffFor rnd p attempt = ?base \<or>
      (\<exists>n. backoffFor rnd p attempt = ?base + n - \<lfloor>?spread\<rfloor> \<and> 0 \<le> n \<and> n \<le> \<lfloor>2 * ?spread\<rfloor>)"
  proof (cases "?base \<le> 0 \<or> pol_JitterFraction p \<le> 0")
    case False
    show ?thesis
    proof (cases "rnd (\<lfloor>2 * ?spread\<rfloor> + 1)")
      case None
      with False show ?thesis unfolding b by simp
    next
      case (Some n)
      from rnd [OF this] have "0 \<le> n" "n \<le> \<lfloor>2 * ?spread\<rfloor>" by linarith+
      moreover have "backoffFor rnd p attempt = ?base + n - \<lfloor>?spread\<rfloor>" using Some False unfolding b by simp
      ultimately show ?thesis by blast
    qed
  qed (simp add: b)
  then consider "backoffFor rnd p attempt = ?base"
    | n where "backoffFor rnd p attempt = ?base + n - \<lfloor>?spread\<rfloor>" "0 \<le> n" "n \<le> \<lfloor>2 * ?spread\<rfloor>" by blast
  then show ?thesis
  proof cases
    case 1
    then show ?thesis using base s by (simp add: mult.commute)
  next
    case (2 n)
    have f: "\<lfloor>?spread\<rfloor> \<le> ?base" using s(2) by (simp add: floor_le_iff)
    have "of_int n \<le> 2 * ?spread" using 2(3) by (simp add: le_floor_iff)
    moreover have "?spread - 1 < of_int \<lfloor>?spread\<rfloor>" "of_int \<lfloor>?spread\<rfloor> \<le> ?spread" by linarith+
    moreover have "0 \<le> (of_int n :: rat)" using 2(2) by simp
    ultimately have "\<bar>of_int (n - \<lfloor>?spread\<rfloor>)\<bar> \<le> ?spread + 1"
      unfolding abs_le_iff of_int_diff by linarith
    with 2 f show ?thesis by (simp add: mult.commute)
  qed
qed

theorem backoffFor_band_witness:
  "0 \<le> backoffFor (\<lambda>bound. if bound > 0 then Some (bound - 1) else None) DefaultRetryPolicy 3"
  by (rule conjunct1 [OF backoffFor_band]) (simp_all add: DefaultRetryPolicy_valid split: if_splits)

section \<open>Queueing\<close>

lemma update_fresh: "k \<notin> fst ` set al \<Longrightarrow> AList.update k v al = al @ [(k, v)]"
  by (induction al) auto

definition queuedFor :: "DispatchEnv \<Rightarrow> CanonicalEvent \<Rightarrow> int \<Rightarrow> Destination \<Rightarrow> Delivery \<Rightarrow> bool" where
  "queuedFor E e seq dest d \<longleftrightarrow>
     del_DestinationID d = dst_ID dest \<and> del_TenantID d = ev_TenantID e \<and> del_EventID d = ev_ID e
   \<and> del_Sequence d = seq \<and> del_Shard d = ShardFor (ev_TransactionRef e) (de_shards E)
   \<and> del_Status d = DeliveryPending \<and> del_Attempt d = 0 \<and> \<not> del_IsReplay d"

lemma queue_wf_fresh:
  assumes "queue_wf m"
  shows "mem_deliveryIDs m + 1 \<notin> fst ` set (mem_deliveries m)"
proof
  assume "mem_deliveryIDs m + 1 \<in> fst ` set (mem_deliveries m)"
  then obtain d where "(mem_deliveryIDs m + 1, d) \<in> set (mem_deliveries m)" by auto
  with assms have "map_of (mem_deliveries m) (mem_deliveryIDs m + 1) = Some d" by (simp add: queue_wf_def)
  with assms have "mem_deliveryIDs m + 1 \<le> mem_deliveryIDs m" unfolding queue_wf_def by blast
  then show False by simp
qed

lemma EnqueueDelivery_new:
  assumes "queue_wf m"
  shows "\<exists>d. mem_deliveries (fst (EnqueueDelivery now m (newDelivery E now e (dst_ID dest) seq False))) =
           mem_deliveries m @ [(mem_deliveryIDs m + 1, d)] \<and> queuedFor E e seq dest d"
  using update_fresh [OF queue_wf_fresh [OF assms]]
  by (auto simp: EnqueueDelivery_def Let_def queuedFor_def newDelivery_def split: option.splits)

lemma Enqueue_wf:
  assumes "queue_wf m"
  shows "queue_wf (fst (EnqueueDelivery t m d))"
proof -
  obtain d' where "map_of (mem_deliveries (fst (EnqueueDelivery t m d))) =
      (map_of (mem_deliveries m))(mem_deliveryIDs m + 1 \<mapsto> d')" "del_ID d' = mem_deliveryIDs m + 1"
    by (rule Enqueue_deliveries [of t m d])
  with assms show ?thesis by (fastforce simp: queue_wf_def)
qed

lemma enqueueLoop_new:
  assumes "queue_wf m"
  shows "\<exists>new. mem_deliveries (enqueueLoop E now e seq dests m) = mem_deliveries m @ new
     \<and> list_all2 (\<lambda>dest (i, d). queuedFor E e seq dest d) (filter (\<lambda>dest. dst_Enabled dest \<and> Matches (dst_Filter dest) e) dests) new"
  using assms
proof (induction dests arbitrary: m)
  case (Cons dest dests)
  show ?case
  proof (cases "dst_Enabled dest \<and> Matches (dst_Filter dest) e")
    case True
    let ?m = "fst (EnqueueDelivery now m (newDelivery E now e (dst_ID dest) seq False))"
    obtain d where d: "mem_deliveries ?m = mem_deliveries m @ [(mem_deliveryIDs m + 1, d)]" "queuedFor E e seq dest d"
      using EnqueueDelivery_new [OF Cons.prems] by blast
    obtain new where "mem_deliveries (enqueueLoop E now e seq dests ?m) = mem_deliveries ?m @ new"
      "list_all2 (\<lambda>dest (i, d). queuedFor E e seq dest d) (filter (\<lambda>dest. dst_Enabled dest \<and> Matches (dst_Filter dest) e) dests) new"
      using Cons.IH [OF Enqueue_wf [OF Cons.prems]] by blast
    with True d show ?thesis by (intro exI [of _ "(mem_deliveryIDs m + 1, d) # new"]) simp
  next
    case False
    with Cons show ?thesis by auto
  qed
qed simp

text \<open>
  An event reaches everyone it should and no one else: queueing an event adds, after the deliveries
  already there and leaving them as they were, exactly one pending delivery for each of the tenant's
  enabled destinations whose filter matches, all on the shard of the event's transaction and with the
  one sequence number just allocated for it.
\<close>

theorem Enqueue_exact:
  assumes "queue_wf (ds_store s)"
  shows "\<exists>new. mem_deliveries (ds_store (Enqueue E now e s)) = mem_deliveries (ds_store s) @ new
     \<and> list_all2 (\<lambda>dest (i, d). queuedFor E e (snd (NextSequence (ds_store s) (ev_TenantID e) (ev_TransactionRef e))) dest d)
         (filter (\<lambda>dest. dst_Enabled dest \<and> Matches (dst_Filter dest) e) (ListDestinations (ds_store s) (ev_TenantID e))) new"
proof -
  let ?m = "fst (NextSequence (ds_store s) (ev_TenantID e) (ev_TransactionRef e))"
  have m: "mem_deliveries ?m = mem_deliveries (ds_store s)" "mem_deliveryIDs ?m = mem_deliveryIDs (ds_store s)"
    by (simp_all add: NextSequence_def Let_def)
  then have "queue_wf ?m" using assms by (simp add: queue_wf_def)
  from enqueueLoop_new [OF this] show ?thesis
    by (simp add: Enqueue_def m case_prod_beta)
qed

theorem Enqueue_exact_witness:
  "\<exists>new. mem_deliveries (ds_store (Enqueue (sampleEnv (Response 200 [])) 5 storedEvent (sampleState (NewBreaker 0 0 0))))
     = [(1, sampleClaim)] @ new"
proof -
  have "queue_wf (ds_store (sampleState (NewBreaker 0 0 0)))"
    by (simp add: queue_wf_def sampleState_def sampleStore_def)
  moreover have "mem_deliveries (ds_store (sampleState (NewBreaker 0 0 0))) = [(1, sampleClaim)]"
    by (simp add: sampleState_def sampleStore_def)
  ultimately show ?thesis using Enqueue_exact [of "sampleState (NewBreaker 0 0 0)"] by metis
qed

section \<open>A half-open breaker that never hears back\<close>

definition halfOpenProbe :: "Breaker \<Rightarrow> string \<Rightarrow> breakerEntry \<Rightarrow> bool" where
  "halfOpenProbe b i e \<longleftrightarrow>
     map_of (brk_state b) i = Some e \<and> be_state e = BreakerHalfOpen \<and> be_probeInFlight e"

lemma complete_store_breaker: "ds_breaker (fst (complete now del s)) = ds_breaker s" by simp

lemma outcomes_breaker [simp]:
  "ds_breaker (fst (park E now del dest why s)) = ds_breaker s"
  "ds_breaker (fst (succeed E start now del code body s)) = ds_breaker s"
  "ds_breaker (fst (fail E start now del code body reason s)) = ds_breaker s"
  "ds_breaker (fst (retry E start now del dest code body reason s)) = ds_breaker s"
  by (simp_all add: park_def succeed_def fail_def retry_def Let_def)

lemma exchange_breaker:
  "\<exists>ops. ds_breaker (fst (exchange E start now del dest req s)) = foldl breaker_step (ds_breaker s) ops
     \<and> (\<forall>i. i \<noteq> dst_ID dest \<longrightarrow> list_all (\<lambda>x. \<not> outcome_for i x) ops)"
proof -
  have r: "ds_breaker (recordBreaker now i ok reason s) =
      foldl breaker_step (ds_breaker s) [if ok then OpSucceeded i else OpFailed now i reason]" for i ok reason
    by (simp add: recordBreaker_def)
  have n: "ds_breaker s = foldl breaker_step (ds_breaker s) []" by simp
  have "(\<exists>ok reason. ds_breaker (fst (exchange E start now del dest req s)) = ds_breaker (recordBreaker now (dst_ID dest) ok reason s))
    \<or> ds_breaker (fst (exchange E start now del dest req s)) = ds_breaker s"
    by (cases "de_send E req") (auto simp: exchange_def handleResponse_def Let_def)
  then consider ok reason where "ds_breaker (fst (exchange E start now del dest req s)) = ds_breaker (recordBreaker now (dst_ID dest) ok reason s)"
    | "ds_breaker (fst (exchange E start now del dest req s)) = ds_breaker s" by blast
  then show ?thesis
  proof cases
    case (1 ok reason)
    then show ?thesis unfolding r by (intro exI [of _ "[if ok then OpSucceeded (dst_ID dest) else OpFailed now (dst_ID dest) reason]"]) simp
  next
    case 2
    then show ?thesis by (intro exI [of _ "[]"]) simp
  qed
qed

lemma BreakerAllow_other:
  "i \<noteq> j \<Longrightarrow> map_of (brk_state (fst (BreakerAllow b t j))) i = map_of (brk_state b) i"
  by (simp add: BreakerAllow_def split: option.split)

text \<open>One attempt, whoever it is for, neither moves a half-open breaker with its probe outstanding nor,
  if it is for that destination, sends anything.\<close>

lemma DeliverOnce_half_open:
  assumes wf: "table_wf dst_ID (mem_destinations (ds_store s))" and half: "halfOpenProbe (ds_breaker s) i e"
  shows "halfOpenProbe (ds_breaker (fst (fst (DeliverOnce E start now del s)))) i e
       \<and> (del_DestinationID del = i \<longrightarrow> snd (DeliverOnce E start now del s) = None)"
proof (cases "GetCanonicalEvent (ds_store s) (del_TenantID del) (del_EventID del)")
  case (Inl x)
  then have "DeliverOnce E start now del s = (fail E start now del 0 [] ''event not found: not found'' s, None)"
    by (simp add: DeliverOnce_def)
  then show ?thesis using half by simp
next
  case (Inr event)
  note ev = this
  show ?thesis
  proof (cases "GetDestination (ds_store s) (del_TenantID del) (del_DestinationID del)")
    case (Inl x)
    with ev have "DeliverOnce E start now del s = (fail E start now del 0 [] ''destination not found: not found'' s, None)"
      by (simp add: DeliverOnce_def)
    then show ?thesis using half by simp
  next
    case (Inr dest)
    have id: "dst_ID dest = del_DestinationID del" using destinations.get_owner [OF wf Inr] by simp
    obtain b ref where b: "BreakerAllow (ds_breaker s) start (dst_ID dest) = (b, ref)" by fastforce
    show ?thesis
    proof (cases "del_DestinationID del = i")
      case True
      have "BreakerAllow (ds_breaker s) start i = (ds_breaker s, Some ProbeInFlight)"
        using half by (simp add: halfOpenProbe_def BreakerAllow_def)
      with ev Inr True id have "DeliverOnce E start now del s =
          (park E now del dest (refusalText (de_fmtDuration E) ProbeInFlight) s, None)" by (simp add: DeliverOnce_def)
      then show ?thesis using half by simp
    next
      case False
      then have "map_of (brk_state b) i = map_of (brk_state (ds_breaker s)) i"
        using BreakerAllow_other [of i "dst_ID dest" "ds_breaker s" start] id b by simp
      then have hb: "halfOpenProbe b i e" using half by (simp add: halfOpenProbe_def)
      have ex: "halfOpenProbe (ds_breaker (fst (exchange E start now del dest req (s\<lparr>ds_breaker := b\<rparr>)))) i e" for req
      proof -
        obtain ops where ops: "ds_breaker (fst (exchange E start now del dest req (s\<lparr>ds_breaker := b\<rparr>))) = foldl breaker_step b ops"
          "\<forall>i. i \<noteq> dst_ID dest \<longrightarrow> list_all (\<lambda>x. \<not> outcome_for i x) ops"
          using exchange_breaker [of E start now del dest req "s\<lparr>ds_breaker := b\<rparr>"] by auto
        then show ?thesis using half_open_stays [of b i e ops] hb False id by (simp add: halfOpenProbe_def)
      qed
      show ?thesis
        using ev Inr b hb ex False
        by (simp add: DeliverOnce_def Let_def split: option.split sum.split)
    qed
  qed
qed

text \<open>A history of attempts, each at its own times, in its own environment and on the store as it is then.\<close>

fun attempts :: "Breaker \<Rightarrow> (DispatchEnv \<times> instant \<times> instant \<times> Delivery \<times> Memory) list \<Rightarrow> (Delivery \<times> Request option) list" where
  "attempts b [] = []"
| "attempts b ((E, start, now, del, m) # xs) =
     (let r = DeliverOnce E start now del \<lparr>ds_store = m, ds_breaker = b\<rparr>
      in (del, snd r) # attempts (ds_breaker (fst (fst r))) xs)"

lemma attempts_half_open:
  assumes "halfOpenProbe b i e" and "list_all (\<lambda>(E, start, now, del, m). table_wf dst_ID (mem_destinations m)) xs"
  shows "list_all (\<lambda>(del, sent). del_DestinationID del = i \<longrightarrow> sent = None) (attempts b xs)"
  using assms
proof (induction b xs rule: attempts.induct)
  case (2 b E start now del m xs)
  have "halfOpenProbe (ds_breaker (fst (fst (DeliverOnce E start now del \<lparr>ds_store = m, ds_breaker = b\<rparr>)))) i e
     \<and> (del_DestinationID del = i \<longrightarrow> snd (DeliverOnce E start now del \<lparr>ds_store = m, ds_breaker = b\<rparr>) = None)"
    using 2 by (intro DeliverOnce_half_open) simp_all
  with 2 show ?case by (simp add: Let_def)
qed simp

text \<open>
  A probe that the destination answers but that says nothing about its health wedges the breaker.
  When the probe of an open breaker is answered with a 4xx, say, nothing is reported to the breaker and
  it stays half open with its probe outstanding; then no attempt of any delivery to that destination,
  however late and in whatever company, sends anything: each is parked, and none is dead-lettered.
\<close>

theorem HalfOpen_wedge:
  assumes "breaker_inv th cd mx (ds_breaker s)" and "table_wf dst_ID (mem_destinations (ds_store s))"
    and "probe_ready (ds_breaker s) (del_DestinationID del) start"
    and sent: "snd (DeliverOnce E start now del s) = Some req"
    and answer: "de_send E req = Response code body" "400 \<le> code" "code < 500" "code \<noteq> 429"
    and later: "list_all (\<lambda>(E, start, now, del, m). table_wf dst_ID (mem_destinations m)) xs"
  shows "StateOf (ds_breaker (fst (fst (DeliverOnce E start now del s)))) (del_DestinationID del) = BreakerHalfOpen
       \<and> list_all (\<lambda>(d, sent). del_DestinationID d = del_DestinationID del \<longrightarrow> sent = None)
           (attempts (ds_breaker (fst (fst (DeliverOnce E start now del s)))) xs)"
proof (rule DeliverOnce_cases [of E start now del s])
  fix s' dest event secrets bdy
  assume a: "DeliverOnce E start now del s = (exchange E start now del dest (buildRequest E start del dest event secrets bdy) s',
         Some (buildRequest E start del dest event secrets bdy))"
    "GetDestination (ds_store s) (del_TenantID del) (del_DestinationID del) = Inr dest"
    "BreakerAllow (ds_breaker s) start (dst_ID dest) = (ds_breaker s', None)"
  have id: "dst_ID dest = del_DestinationID del" using destinations.get_owner [OF assms(2) a(2)] by simp
  obtain e where e: "map_of (brk_state (ds_breaker s)) (del_DestinationID del) = Some e"
      "be_state e = BreakerOpen" "be_nextProbeAt e \<le> start"
    using assms(3) by (auto simp: probe_ready_def)
  then have "ds_breaker s' = (ds_breaker s)\<lparr>brk_state := AList.update (del_DestinationID del)
      (e\<lparr>be_state := BreakerHalfOpen, be_probeInFlight := True\<rparr>) (brk_state (ds_breaker s))\<rparr>"
    using a(3) id by (simp add: BreakerAllow_def)
  then have "halfOpenProbe (ds_breaker s') (del_DestinationID del) (e\<lparr>be_state := BreakerHalfOpen, be_probeInFlight := True\<rparr>)"
    by (simp add: halfOpenProbe_def)
  moreover have "ds_breaker (fst (fst (DeliverOnce E start now del s))) = ds_breaker s'"
    using a(1) sent answer by (auto simp: exchange_def handleResponse_def IsSuccess_def)
  ultimately have h: "halfOpenProbe (ds_breaker (fst (fst (DeliverOnce E start now del s)))) (del_DestinationID del)
      (e\<lparr>be_state := BreakerHalfOpen, be_probeInFlight := True\<rparr>)" by simp
  then show ?thesis using attempts_half_open [OF h later] by (simp add: halfOpenProbe_def StateOf_def)
qed (use sent in simp_all)

theorem HalfOpen_wedge_witness:
  "let b = NewBreaker 1 second minute\<lparr>brk_state := [(''dst_1'', newEntry\<lparr>be_state := BreakerOpen, be_consecutive := 1,
             be_cooldown := second, be_nextProbeAt := 9\<rparr>)]\<rparr>;
       s = fst (fst (DeliverOnce (sampleEnv (Response 400 [])) 20 21 sampleClaim (sampleState b)))
   in StateOf (ds_breaker s) ''dst_1'' = BreakerHalfOpen
    \<and> attempts (ds_breaker s) [(sampleEnv (Response 200 []), 10 ^ 20, 10 ^ 20, sampleClaim, sampleStore)] = [(sampleClaim, None)]"
proof -
  let ?e = "newEntry\<lparr>be_state := BreakerOpen, be_consecutive := 1, be_cooldown := second, be_nextProbeAt := 9\<rparr>"
  let ?b = "NewBreaker 1 second minute\<lparr>brk_state := [(''dst_1'', ?e)]\<rparr>"
  let ?E = "sampleEnv (Response 400 [])" and ?s = "sampleState ?b"
  let ?xs = "[(sampleEnv (Response 200 []), 10 ^ 20, 10 ^ 20, sampleClaim, sampleStore)]"
  have inv: "breaker_inv 1 second minute (ds_breaker ?s)"
    by (simp add: breaker_inv_def sampleState_def NewBreaker_def entry_inv_def newEntry_def second_def minute_def)
  have ready: "probe_ready (ds_breaker ?s) (del_DestinationID sampleClaim) 20"
    by (simp add: probe_ready_def sampleState_def)
  let ?req = "buildRequest ?E 20 sampleClaim sampleDestination storedEvent [''k''] ''{}''"
  have "snd (BreakerAllow ?b 20 ''dst_1'') = None" by (simp add: BreakerAllow_def)
  then have sent: "snd (DeliverOnce ?E 20 21 sampleClaim ?s) = Some ?req"
    by (metis prod.collapse sampleSent snd_conv)
  have answer: "de_send ?E ?req = Response 400 []" by (simp add: sampleEnv_def)
  have later: "list_all (\<lambda>(E, start, now, del, m). table_wf dst_ID (mem_destinations m)) ?xs"
    using sampleState_wf [of ?b] by (simp add: sampleState_def)
  from HalfOpen_wedge [OF inv sampleState_wf ready sent answer _ _ _ later]
  show ?thesis by (simp add: Let_def)
qed

section \<open>A secret manager outage\<close>

text \<open>
  A secret manager outage spends the retry budget. When the signing secret does not resolve, nothing
  is sent, yet the attempt stays counted, and a delivery on its last attempt is dead-lettered without
  the destination ever having been called by it.
\<close>

theorem secret_outage_spends_budget:
  assumes "held del s"
    and "GetCanonicalEvent (ds_store s) (del_TenantID del) (del_EventID del) = Inr event"
    and "GetDestination (ds_store s) (del_TenantID del) (del_DestinationID del) = Inr dest"
    and closed: "StateOf (ds_breaker s) (dst_ID dest) = BreakerClosed"
    and "RenderPayload E (ResolveSchema (dst_SchemaVersion dest)) event (rawFor (ds_store s) del dest event) = Inr body"
    and "de_secrets E (dst_SigningSecretRef dest) = Inl err"
  shows "snd (DeliverOnce E start now del s) = None
       \<and> (\<exists>d. settles del s (fst (DeliverOnce E start now del s)) d
            \<and> (budgetLeft del dest \<longrightarrow> del_Status d = DeliveryFailed \<and> del_Attempt d = del_Attempt del)
            \<and> (\<not> budgetLeft del dest \<longrightarrow> del_Status d = DeliveryDeadLetter))"
proof -
  have b: "BreakerAllow (ds_breaker s) start (dst_ID dest) = (ds_breaker s, None)"
    using closed by (auto simp: BreakerAllow_def StateOf_def split: option.splits)
  let ?reason = "''signing secret did not resolve: '' @ err"
  have e: "DeliverOnce E start now del s = (retry E start now del dest 0 [] ?reason s, None)"
    using assms(2,3,5,6) b by (simp add: DeliverOnce_def)
  have "\<not> outageParks now del dest s" using closed by (simp add: outageParks_def)
  then have "\<exists>d. settles del s (retry E start now del dest 0 [] ?reason s) d
            \<and> (budgetLeft del dest \<longrightarrow> del_Status d = DeliveryFailed \<and> del_Attempt d = del_Attempt del)
            \<and> (\<not> budgetLeft del dest \<longrightarrow> del_Status d = DeliveryDeadLetter)"
    by (rule_tac retry_settles [OF assms(1), of E start now dest 0 "[]" ?reason]) blast+
  with e show ?thesis by simp
qed

theorem secret_outage_spends_budget_witness:
  "\<exists>d. settles (sampleClaim\<lparr>del_Attempt := 7\<rparr>) (sampleState (NewBreaker 0 0 0))
     (fst (DeliverOnce (sampleEnv (Response 200 [])\<lparr>de_secrets := (\<lambda>_. Inl ''timeout'')\<rparr>) 20 21
       (sampleClaim\<lparr>del_Attempt := 7\<rparr>) (sampleState (NewBreaker 0 0 0)))) d \<and> del_Status d = DeliveryDeadLetter"
proof -
  let ?s = "sampleState (NewBreaker 0 0 0)" and ?E = "sampleEnv (Response 200 [])\<lparr>de_secrets := (\<lambda>_. Inl ''timeout'')\<rparr>"
  let ?del = "sampleClaim\<lparr>del_Attempt := 7\<rparr>"
  have h: "held ?del ?s" using sampleState_held [of "NewBreaker 0 0 0"] by (simp add: held_def)
  have ev: "GetCanonicalEvent (ds_store ?s) (del_TenantID ?del) (del_EventID ?del) = Inr storedEvent"
    and dest: "GetDestination (ds_store ?s) (del_TenantID ?del) (del_DestinationID ?del) = Inr sampleDestination"
    using sampleState_event sampleState_destination by simp_all
  have c: "StateOf (ds_breaker ?s) (dst_ID sampleDestination) = BreakerClosed"
    by (simp add: StateOf_def sampleState_def NewBreaker_def)
  have r: "RenderPayload ?E (ResolveSchema (dst_SchemaVersion sampleDestination)) storedEvent
      (rawFor (ds_store ?s) ?del sampleDestination storedEvent) = Inr ''{}''"
    by (simp add: RenderPayload_def sampleEnv_def ResolveSchema_def ValidSchemaVersion_def schemaVersions_def)
  have "de_secrets ?E (dst_SigningSecretRef sampleDestination) = Inl ''timeout''" by simp
  from secret_outage_spends_budget [OF h ev dest c r this, of 20 21] show ?thesis
    by (auto simp: budgetLeft_def)
qed

end
