(* ===== verification/Replay.thy ===== *)
theory Replay
  imports Dispatch_Spec
begin

text \<open>
  Replay and recovery: \<^verbatim>\<open>internal/dispatch/replay.go\<close>. The paging loop of \<open>resolveEvents\<close> terminates
  because every page but the last adds events to a result that is capped.
\<close>

section \<open>Definitions\<close>

definition MaxBulkReplay :: nat where "MaxBulkReplay = 10000"

record ReplayRequest =
  rp_EventIDs :: "string list"
  rp_Filter :: "EventQuery option"
  rp_DestinationIDs :: "string list"
  rp_DryRun :: bool

record ReplayResult =
  rr_Matched :: int
  rr_Queued :: int
  rr_Destinations :: "string list"
  rr_DryRun :: bool
  rr_Truncated :: bool
  rr_Note :: string

datatype replay_error =
    ReplayNoDestination
  | ReplayDestination string
  | ReplayDisabled string
  | ReplayBothModes
  | ReplayNoMode
  | ReplayTooLarge
  | ReplayEvent string
  | ReplayQueueing store_error
  | ReplayNotDeadLetter DeliveryStatus

fun namedDestinations :: "Memory \<Rightarrow> string \<Rightarrow> string list \<Rightarrow> replay_error + Destination list" where
  "namedDestinations m tenantID [] = Inr []"
| "namedDestinations m tenantID (i # ids) =
     (case GetDestination m tenantID i of
        Inl _ \<Rightarrow> Inl (ReplayDestination i)
      | Inr dest \<Rightarrow>
          if \<not> dst_Enabled dest then Inl (ReplayDisabled i)
          else (case namedDestinations m tenantID ids of Inl err \<Rightarrow> Inl err | Inr ds \<Rightarrow> Inr (dest # ds)))"

definition resolveDestinations :: "Memory \<Rightarrow> string \<Rightarrow> string list \<Rightarrow> replay_error + Destination list" where
  "resolveDestinations m tenantID ids =
     (if ids \<noteq> [] then namedDestinations m tenantID ids
      else Inr (filter dst_Enabled (ListDestinations m tenantID)))"

fun namedEvents :: "Memory \<Rightarrow> string \<Rightarrow> string list \<Rightarrow> replay_error + CanonicalEvent list" where
  "namedEvents m tenantID [] = Inr []"
| "namedEvents m tenantID (i # ids) =
     (case GetCanonicalEvent m tenantID i of
        Inl _ \<Rightarrow> Inl (ReplayEvent i)
      | Inr ev \<Rightarrow> (case namedEvents m tenantID ids of Inl err \<Rightarrow> Inl err | Inr evs \<Rightarrow> Inr (ev # evs)))"

lemma page_progress: "xs \<noteq> [] \<Longrightarrow> length xs \<le> a - b \<Longrightarrow> a - (b + length xs) < a - (b :: nat)"
  by (cases xs) simp_all

function pageEvents :: "Memory \<Rightarrow> string \<Rightarrow> EventQuery \<Rightarrow> CanonicalEvent list \<Rightarrow> CanonicalEvent list \<times> bool" where
  "pageEvents m tenantID q out =
     (let page = QueryEvents m tenantID q;
          room = MaxBulkReplay - length out;
          truncated = length page > room
      in if page = [] then (out, False)
         else if truncated \<or> int (length page) < q_Limit q then (out @ take room page, truncated)
         else pageEvents m tenantID (q\<lparr>q_Cursor := ev_ID (last page)\<rparr>) (out @ take room page))"
  by pat_completeness auto
termination
  by (relation "measure (\<lambda>(m, t, q, out). MaxBulkReplay - length out)") (auto simp: not_less intro: page_progress)

declare pageEvents.simps [simp del]

definition resolveEvents :: "Memory \<Rightarrow> string \<Rightarrow> ReplayRequest \<Rightarrow> replay_error + CanonicalEvent list \<times> bool" where
  "resolveEvents m tenantID req =
     (if rp_EventIDs req \<noteq> [] \<and> rp_Filter req \<noteq> None then Inl ReplayBothModes
      else if rp_EventIDs req \<noteq> [] then
        (if length (rp_EventIDs req) > MaxBulkReplay then Inl ReplayTooLarge
         else case namedEvents m tenantID (rp_EventIDs req) of Inl err \<Rightarrow> Inl err | Inr evs \<Rightarrow> Inr (evs, False))
      else case rp_Filter req of
             None \<Rightarrow> Inl ReplayNoMode
           | Some q \<Rightarrow>
               Inr (pageEvents m tenantID (if q_Limit q \<le> 0 \<or> q_Limit q > 500 then q\<lparr>q_Limit := 500\<rparr> else q) []))"

fun replayTo ::
    "DispatchEnv \<Rightarrow> instant \<Rightarrow> CanonicalEvent \<Rightarrow> Destination list \<Rightarrow> Dispatcher \<times> int \<Rightarrow> (Dispatcher \<times> int) \<times> replay_error option" where
  "replayTo E now ev [] (s, n) = ((s, n), None)"
| "replayTo E now ev (dest # dests) (s, n) =
     (if \<not> Matches (dst_Filter dest) ev then replayTo E now ev dests (s, n)
      else case EnqueueReplay E now ev (dst_ID dest) s of
             (s, Inl err) \<Rightarrow> ((s, n), Some (ReplayQueueing err))
           | (s, Inr _) \<Rightarrow> replayTo E now ev dests (s, n + 1))"

fun replayEvents ::
    "DispatchEnv \<Rightarrow> instant \<Rightarrow> CanonicalEvent list \<Rightarrow> Destination list \<Rightarrow> Dispatcher \<times> int \<Rightarrow> (Dispatcher \<times> int) \<times> replay_error option" where
  "replayEvents E now [] dests sn = (sn, None)"
| "replayEvents E now (ev # evs) dests sn =
     (case replayTo E now ev dests sn of
        (sn, Some err) \<Rightarrow> (sn, Some err)
      | (sn, None) \<Rightarrow> replayEvents E now evs dests sn)"

definition Replay ::
    "DispatchEnv \<Rightarrow> instant \<Rightarrow> string \<Rightarrow> ReplayRequest \<Rightarrow> Dispatcher \<Rightarrow> Dispatcher \<times> ReplayResult \<times> replay_error option" where
  "Replay E now tenantID req s =
     (let res = \<lparr>rr_Matched = 0, rr_Queued = 0, rr_Destinations = [], rr_DryRun = rp_DryRun req, rr_Truncated = False,
                rr_Note = []\<rparr>
      in case resolveDestinations (ds_store s) tenantID (rp_DestinationIDs req) of
           Inl err \<Rightarrow> (s, res, Some err)
         | Inr dests \<Rightarrow>
      if dests = [] then (s, res, Some ReplayNoDestination)
      else let res = res\<lparr>rr_Destinations := map dst_ID dests\<rparr>
           in case resolveEvents (ds_store s) tenantID req of
                Inl err \<Rightarrow> (s, res, Some err)
              | Inr (evs, truncated) \<Rightarrow>
           let res = res\<lparr>rr_Matched := int (length evs), rr_Truncated := truncated,
                         rr_Note := (if truncated
                           then ''capped at 10000 events; narrow the time range and replay again'' else [])\<rparr>
           in if rp_DryRun req then (s, res, None)
              else let ((s, n), err) = replayEvents E now evs dests (s, 0)
                   in (s, res\<lparr>rr_Queued := n\<rparr>, err))"

definition RetryDeadLetter ::
    "DispatchEnv \<Rightarrow> instant \<Rightarrow> string \<Rightarrow> int \<Rightarrow> Dispatcher \<Rightarrow> Dispatcher \<times> (replay_error + int)" where
  "RetryDeadLetter E now tenantID deliveryID s =
     (case GetDelivery (ds_store s) tenantID deliveryID of
        Inl err \<Rightarrow> (s, Inl (ReplayQueueing err))
      | Inr del \<Rightarrow>
          if del_Status del \<noteq> DeliveryDeadLetter then (s, Inl (ReplayNotDeadLetter (del_Status del)))
          else case GetCanonicalEvent (ds_store s) tenantID (del_EventID del) of
                 Inl err \<Rightarrow> (s, Inl (ReplayQueueing err))
               | Inr ev \<Rightarrow>
                   (case EnqueueReplay E now ev (del_DestinationID del) s of
                      (s, Inl err) \<Rightarrow> (s, Inl (ReplayQueueing err))
                    | (s, Inr i) \<Rightarrow> (s, Inr i)))"

fun sweepLoop :: "DispatchEnv \<Rightarrow> instant \<Rightarrow> string \<Rightarrow> CanonicalEvent list \<Rightarrow> Dispatcher \<times> int \<Rightarrow> Dispatcher \<times> int" where
  "sweepLoop E now tenantID [] sn = sn"
| "sweepLoop E now tenantID (ev # evs) (s, n) =
     (if ListDeliveriesForEvent (ds_store s) tenantID (ev_ID ev) \<noteq> [] then sweepLoop E now tenantID evs (s, n)
      else sweepLoop E now tenantID evs (Enqueue E now ev s, n + 1))"

definition sweepQuery :: "gotime \<Rightarrow> int \<Rightarrow> EventQuery" where
  "sweepQuery since limit =
     \<lparr>q_Provider = [], q_Status = [], q_EventType = [], q_TransactionRef = [], q_MappingComplete = None,
      q_From = since, q_To = zeroTime, q_Cursor = [], q_Limit = (if limit \<le> 0 \<or> limit > 1000 then 200 else limit)\<rparr>"

definition SweepUndelivered ::
    "DispatchEnv \<Rightarrow> instant \<Rightarrow> string \<Rightarrow> gotime \<Rightarrow> int \<Rightarrow> Dispatcher \<Rightarrow> Dispatcher \<times> int" where
  "SweepUndelivered E now tenantID since limit s =
     sweepLoop E now tenantID (QueryEvents (ds_store s) tenantID (sweepQuery since limit)) (s, 0)"

section \<open>Bulk replay is bounded and tenant scoped\<close>

lemma QueryEvents_tenant: "e \<in> set (QueryEvents m t q) \<Longrightarrow> ev_TenantID e = t \<and> matches e q"
  by (auto simp: QueryEvents_def collect_take_filter dest!: in_set_takeD)

lemma matches_cursor: "matches e (q\<lparr>q_Cursor := c\<rparr>) = matches e q"
  by (simp add: matches_def)

lemma pageEvents_sound:
  "length out \<le> MaxBulkReplay \<Longrightarrow> (\<forall>e\<in>set out. ev_TenantID e = t \<and> matches e q) \<Longrightarrow>
   length (fst (pageEvents m t q out)) \<le> MaxBulkReplay
 \<and> (\<forall>e\<in>set (fst (pageEvents m t q out)). ev_TenantID e = t \<and> matches e q)"
proof (induction m t q out rule: pageEvents.induct)
  case (1 m t q out)
  let ?page = "QueryEvents m t q" and ?room = "MaxBulkReplay - length out"
  let ?out = "out @ take ?room ?page"
  have out: "length ?out \<le> MaxBulkReplay" "\<forall>e\<in>set ?out. ev_TenantID e = t \<and> matches e q"
    using "1.prems" QueryEvents_tenant by (auto dest!: in_set_takeD)
  show ?case
  proof (cases "?page = [] \<or> length ?page > ?room \<or> int (length ?page) < q_Limit q")
    case True
    then have "fst (pageEvents m t q out) \<in> {out, ?out}" by (subst pageEvents.simps) (auto simp: Let_def)
    with out "1.prems" show ?thesis by auto
  next
    case False
    let ?q = "q\<lparr>q_Cursor := ev_ID (last ?page)\<rparr>"
    have "pageEvents m t q out = pageEvents m t ?q ?out"
      using False by (subst pageEvents.simps) (simp add: Let_def)
    moreover have "length (fst (pageEvents m t ?q ?out)) \<le> MaxBulkReplay
        \<and> (\<forall>e\<in>set (fst (pageEvents m t ?q ?out)). ev_TenantID e = t \<and> matches e ?q)"
      using False out by (intro "1.IH") (auto simp: matches_cursor)
    ultimately show ?thesis by (simp add: matches_cursor)
  qed
qed

lemma GetCanonicalEvent_found:
  "GetCanonicalEvent m t i = Inr e \<Longrightarrow> map_of (mem_events m) i = Some e \<and> ev_TenantID e = t"
  by (simp add: GetCanonicalEvent_def split: option.splits if_splits)

lemma namedEvents_sound:
  "namedEvents m t ids = Inr evs \<Longrightarrow> length evs = length ids \<and> (\<forall>e\<in>set evs. ev_TenantID e = t)"
proof (induction ids arbitrary: evs)
  case (Cons i ids)
  then show ?case
    by (cases "GetCanonicalEvent m t i"; cases "namedEvents m t ids")
       (auto dest: GetCanonicalEvent_found)
qed simp

text \<open>
  A replay is bounded and stays with its tenant: whatever is asked for, by identifiers or by a
  filter, \<open>resolveEvents\<close> never returns more than ten thousand events or with an event of
  another tenant; selected by filter, every event matches it.
\<close>

theorem resolveEvents_bounded:
  assumes "resolveEvents m t req = Inr (evs, truncated)"
  shows "length evs \<le> MaxBulkReplay \<and> (\<forall>e\<in>set evs. ev_TenantID e = t)
       \<and> (\<forall>q. rp_Filter req = Some q \<longrightarrow> (\<forall>e\<in>set evs. matches e q))"
proof (cases "rp_EventIDs req = []")
  case False
  then show ?thesis
    using assms namedEvents_sound [of m t "rp_EventIDs req" evs]
    by (cases "rp_Filter req"; cases "namedEvents m t (rp_EventIDs req)") (simp_all add: resolveEvents_def split: if_splits)
next
  case True
  then obtain q where q: "rp_Filter req = Some q" using assms by (auto simp: resolveEvents_def split: option.splits)
  let ?q = "if q_Limit q \<le> 0 \<or> q_Limit q > 500 then q\<lparr>q_Limit := 500\<rparr> else q"
  have "evs = fst (pageEvents m t ?q [])" using True q assms by (simp add: resolveEvents_def)
  moreover have "matches e ?q = matches e q" for e by (simp add: matches_def)
  moreover have "length (fst (pageEvents m t ?q [])) \<le> MaxBulkReplay
      \<and> (\<forall>e\<in>set (fst (pageEvents m t ?q [])). ev_TenantID e = t \<and> matches e ?q)"
    by (rule pageEvents_sound) simp_all
  ultimately show ?thesis using q by auto
qed

theorem resolveEvents_bounded_witness:
  "let req = \<lparr>rp_EventIDs = [''sh_evt_1''], rp_Filter = None, rp_DestinationIDs = [], rp_DryRun = False\<rparr>
   in resolveEvents sampleStore ''tnt_1'' req = Inr ([storedEvent], False) \<and> length [storedEvent] \<le> MaxBulkReplay"
proof -
  let ?req = "\<lparr>rp_EventIDs = [''sh_evt_1''], rp_Filter = None, rp_DestinationIDs = [], rp_DryRun = False\<rparr>"
  have "resolveEvents sampleStore ''tnt_1'' ?req = Inr ([storedEvent], False)"
    by (simp add: resolveEvents_def GetCanonicalEvent_def sampleStore_def storedEvent_def MaxBulkReplay_def)
  with resolveEvents_bounded [OF this] show ?thesis unfolding Let_def by blast
qed

section \<open>Retrying a dead letter\<close>

lemma EnqueueReplay_deliveries:
  assumes "queue_wf (ds_store s)" and "EnqueueReplay E now e i s = (s', Inr k)"
  shows "\<exists>d. mem_deliveries (ds_store s') = mem_deliveries (ds_store s) @ [(k, d)] \<and> del_IsReplay d
           \<and> del_Status d = DeliveryPending \<and> del_EventID d = ev_ID e \<and> k = mem_deliveryIDs (ds_store s) + 1"
proof -
  let ?m = "fst (NextSequence (ds_store s) (ev_TenantID e) (ev_TransactionRef e))"
  have m: "mem_deliveries ?m = mem_deliveries (ds_store s)" "mem_deliveryIDs ?m = mem_deliveryIDs (ds_store s)"
    by (simp_all add: NextSequence_def Let_def)
  have fresh: "mem_deliveryIDs (ds_store s) + 1 \<notin> fst ` set (mem_deliveries (ds_store s))"
    by (rule queue_wf_fresh [OF assms(1)])
  show ?thesis
    using assms(2) update_fresh [OF fresh]
    by (auto simp: EnqueueReplay_def case_prod_beta Let_def EnqueueDelivery_def newDelivery_def m
        split: sum.splits option.splits)
qed

text \<open>
  A dead letter is evidence and stays. Retrying one adds a single new delivery of the same event,
  flagged as a replay, and leaves every existing delivery, the dead letter included, as it was; anything
  that is not a dead letter of the tenant is refused and nothing changes.
\<close>

theorem RetryDeadLetter_keeps_evidence:
  assumes "queue_wf (ds_store s)" and wf: "table_wf ev_ID (mem_events (ds_store s))" and "RetryDeadLetter E now t i s = (s', r)"
  shows "(\<exists>err. r = Inl err \<and> s' = s) \<or>
     (\<exists>k d del. r = Inr k \<and> map_of (mem_deliveries (ds_store s)) i = Some del \<and> del_TenantID del = t
        \<and> del_Status del = DeliveryDeadLetter \<and> mem_deliveries (ds_store s') = mem_deliveries (ds_store s) @ [(k, d)]
        \<and> del_IsReplay d \<and> del_EventID d = del_EventID del)"
proof (cases "GetDelivery (ds_store s) t i")
  case (Inl err)
  then show ?thesis using assms(3) by (auto simp: RetryDeadLetter_def)
next
  case (Inr del)
  then have del: "map_of (mem_deliveries (ds_store s)) i = Some del" "del_TenantID del = t"
    by (auto simp: GetDelivery_def split: option.splits if_splits)
  show ?thesis
  proof (cases "del_Status del = DeliveryDeadLetter")
    case False
    then show ?thesis using assms(3) Inr by (auto simp: RetryDeadLetter_def)
  next
    case dead: True
    show ?thesis
    proof (cases "GetCanonicalEvent (ds_store s) t (del_EventID del)")
      case (Inl err)
      then show ?thesis using assms(3) Inr dead by (auto simp: RetryDeadLetter_def)
    next
      case ev: (Inr ev)
      obtain s2 q where q: "EnqueueReplay E now ev (del_DestinationID del) s = (s2, q)" by fastforce
      show ?thesis
      proof (cases q)
        case (Inl err)
        have "s2 = s" using q Inl by (auto simp: EnqueueReplay_def case_prod_beta Let_def split: sum.splits)
        then show ?thesis using assms(3) Inr dead ev q Inl by (auto simp: RetryDeadLetter_def)
      next
        case k: (Inr k)
        then have "s' = s2" "r = Inr k" using assms(3) Inr dead ev q by (simp_all add: RetryDeadLetter_def)
        moreover have "ev_ID ev = del_EventID del"
          using GetCanonicalEvent_found [OF ev] table_wf_lookup [OF wf] by blast
        ultimately show ?thesis using EnqueueReplay_deliveries [OF assms(1)] q k del dead by metis
      qed
    qed
  qed
qed

theorem RetryDeadLetter_keeps_evidence_witness:
  "\<exists>k d. mem_deliveries (ds_store (fst (RetryDeadLetter (sampleEnv (Response 200 [])) 30 ''tnt_1'' 1
       \<lparr>ds_store = sampleStore\<lparr>mem_deliveries := [(1, sampleClaim\<lparr>del_Status := DeliveryDeadLetter\<rparr>)]\<rparr>,
        ds_breaker = NewBreaker 0 0 0\<rparr>)))
     = [(1, sampleClaim\<lparr>del_Status := DeliveryDeadLetter\<rparr>), (k, d)] \<and> del_IsReplay d"
proof -
  let ?del = "sampleClaim\<lparr>del_Status := DeliveryDeadLetter\<rparr>"
  let ?s = "\<lparr>ds_store = sampleStore\<lparr>mem_deliveries := [(1, ?del)]\<rparr>, ds_breaker = NewBreaker 0 0 0\<rparr>"
  let ?E = "sampleEnv (Response 200 [])"
  have wf: "queue_wf (ds_store ?s)" "table_wf ev_ID (mem_events (ds_store ?s))"
    by (simp_all add: queue_wf_def table_wf_def sampleStore_def storedEvent_def)
  have "GetDelivery (ds_store ?s) ''tnt_1'' 1 = Inr ?del" by (simp add: GetDelivery_def)
  moreover have "GetCanonicalEvent (ds_store ?s) ''tnt_1'' ''sh_evt_1'' = Inr storedEvent"
    by (simp add: GetCanonicalEvent_def sampleStore_def storedEvent_def)
  moreover have "GetDestination (ds_store ?s) (ev_TenantID storedEvent) ''dst_1'' = Inr sampleDestination"
    by (simp add: GetDestination_def sampleStore_def storedEvent_def sampleDestination_def)
  ultimately have "\<exists>k. snd (RetryDeadLetter ?E 30 ''tnt_1'' 1 ?s) = Inr k"
    by (simp add: RetryDeadLetter_def EnqueueReplay_def case_prod_beta Let_def)
  with RetryDeadLetter_keeps_evidence [OF wf prod.collapse [symmetric], of ?E 30 "''tnt_1''" 1]
  show ?thesis by auto
qed

section \<open>The safety net\<close>

definition wanted :: "Memory \<Rightarrow> CanonicalEvent \<Rightarrow> bool" where
  "wanted m e \<longleftrightarrow> (\<exists>dest\<in>set (ListDestinations m (ev_TenantID e)). dst_Enabled dest \<and> Matches (dst_Filter dest) e)"

lemma ListDeliveriesForEvent_empty:
  "ListDeliveriesForEvent m t i = [] \<longleftrightarrow> (\<forall>d\<in>snd ` set (mem_deliveries m). \<not> (del_TenantID d = t \<and> del_EventID d = i))"
proof -
  have "sort_key f xs = [] \<longleftrightarrow> xs = []" for f :: "Delivery \<Rightarrow> int" and xs by (metis length_0_conv length_sort)
  then show ?thesis by (auto simp: ListDeliveriesForEvent_def filter_empty_conv)
qed

lemma ListDeliveriesForEvent_grows:
  "mem_deliveries m' = mem_deliveries m @ new \<Longrightarrow> ListDeliveriesForEvent m t i \<noteq> [] \<Longrightarrow> ListDeliveriesForEvent m' t i \<noteq> []"
  by (auto simp: ListDeliveriesForEvent_empty)

lemma enqueueLoop_frame:
  "queue_wf m \<Longrightarrow> queue_wf (enqueueLoop E now e seq dests m)
     \<and> mem_destinations (enqueueLoop E now e seq dests m) = mem_destinations m"
proof (induction dests arbitrary: m)
  case (Cons dest dests)
  have "mem_destinations (fst (EnqueueDelivery now m d)) = mem_destinations m" for d
    by (simp add: EnqueueDelivery_def Let_def)
  with Cons show ?case by (simp add: Enqueue_wf)
qed simp

lemma Enqueue_facts:
  assumes "queue_wf (ds_store s)"
  shows "queue_wf (ds_store (Enqueue E now e s))"
    and "mem_destinations (ds_store (Enqueue E now e s)) = mem_destinations (ds_store s)"
    and "\<exists>new. mem_deliveries (ds_store (Enqueue E now e s)) = mem_deliveries (ds_store s) @ new
           \<and> (wanted (ds_store s) e \<longrightarrow> (\<exists>d\<in>snd ` set new. del_TenantID d = ev_TenantID e \<and> del_EventID d = ev_ID e))"
proof -
  obtain m seq where ns: "NextSequence (ds_store s) (ev_TenantID e) (ev_TransactionRef e) = (m, seq)" by fastforce
  then have m: "mem_deliveries m = mem_deliveries (ds_store s)" "mem_deliveryIDs m = mem_deliveryIDs (ds_store s)"
      "mem_destinations m = mem_destinations (ds_store s)"
    by (auto simp: NextSequence_def Let_def)
  let ?dests = "ListDestinations (ds_store s) (ev_TenantID e)"
  have e: "ds_store (Enqueue E now e s) = enqueueLoop E now e seq ?dests m" using ns by (simp add: Enqueue_def)
  have wf: "queue_wf m" using assms m by (simp add: queue_wf_def)
  from enqueueLoop_frame [OF wf] e m show "queue_wf (ds_store (Enqueue E now e s))"
    "mem_destinations (ds_store (Enqueue E now e s)) = mem_destinations (ds_store s)" by simp_all
  let ?hit = "filter (\<lambda>dest. dst_Enabled dest \<and> Matches (dst_Filter dest) e) ?dests"
  obtain new where new: "mem_deliveries (enqueueLoop E now e seq ?dests m) = mem_deliveries m @ new"
    "list_all2 (\<lambda>dest (i, d). queuedFor E e seq dest d) ?hit new"
    using enqueueLoop_new [OF wf] by blast
  have "\<exists>d\<in>snd ` set new. del_TenantID d = ev_TenantID e \<and> del_EventID d = ev_ID e" if "wanted (ds_store s) e"
  proof -
    have "?hit \<noteq> []" using that by (auto simp: wanted_def filter_empty_conv)
    with new(2) obtain dest i d rest where "new = (i, d) # rest" "queuedFor E e seq dest d"
      by (cases ?hit) (auto simp: list_all2_Cons1)
    then show ?thesis by (simp add: queuedFor_def)
  qed
  with new(1) e m show "\<exists>new. mem_deliveries (ds_store (Enqueue E now e s)) = mem_deliveries (ds_store s) @ new
           \<and> (wanted (ds_store s) e \<longrightarrow> (\<exists>d\<in>snd ` set new. del_TenantID d = ev_TenantID e \<and> del_EventID d = ev_ID e))"
    by auto
qed

lemma sweepLoop_covers:
  assumes "queue_wf (ds_store s)" and "\<forall>e\<in>set evs. ev_TenantID e = t"
  shows "\<exists>new. mem_deliveries (ds_store (fst (sweepLoop E now t evs (s, n)))) = mem_deliveries (ds_store s) @ new
     \<and> (\<forall>e\<in>set evs. wanted (ds_store s) e \<longrightarrow> ListDeliveriesForEvent (ds_store (fst (sweepLoop E now t evs (s, n)))) t (ev_ID e) \<noteq> [])"
  using assms
proof (induction evs arbitrary: s n)
  case (Cons e evs)
  let ?old = "ListDeliveriesForEvent (ds_store s) t (ev_ID e) \<noteq> []"
  let ?s = "if ?old then s else Enqueue E now e s" and ?n = "if ?old then n else n + 1"
  have step: "sweepLoop E now t (e # evs) (s, n) = sweepLoop E now t evs (?s, ?n)" by simp
  have wf: "queue_wf (ds_store ?s)" and dst: "mem_destinations (ds_store ?s) = mem_destinations (ds_store s)"
    using Cons.prems Enqueue_facts(1,2) [of s E now e] by simp_all
  have w: "wanted (ds_store ?s) x = wanted (ds_store s) x" for x
    using dst by (simp add: wanted_def ListDestinations_def)
  have "\<exists>more. mem_deliveries (ds_store ?s) = mem_deliveries (ds_store s) @ more
      \<and> (wanted (ds_store s) e \<longrightarrow> ListDeliveriesForEvent (ds_store ?s) t (ev_ID e) \<noteq> [])"
  proof (cases ?old)
    case False
    obtain more where m: "mem_deliveries (ds_store (Enqueue E now e s)) = mem_deliveries (ds_store s) @ more"
      "wanted (ds_store s) e \<longrightarrow> (\<exists>d\<in>snd ` set more. del_TenantID d = ev_TenantID e \<and> del_EventID d = ev_ID e)"
      using Enqueue_facts(3) [OF Cons.prems(1)] by blast
    have "ListDeliveriesForEvent (ds_store (Enqueue E now e s)) t (ev_ID e) \<noteq> []" if "wanted (ds_store s) e"
      using m that Cons.prems(2) unfolding ListDeliveriesForEvent_empty by fastforce
    with m False show ?thesis by simp
  qed simp
  then obtain more where more: "mem_deliveries (ds_store ?s) = mem_deliveries (ds_store s) @ more"
    "wanted (ds_store s) e \<Longrightarrow> ListDeliveriesForEvent (ds_store ?s) t (ev_ID e) \<noteq> []" by blast
  obtain new where new: "mem_deliveries (ds_store (fst (sweepLoop E now t evs (?s, ?n)))) = mem_deliveries (ds_store ?s) @ new"
    "\<forall>e\<in>set evs. wanted (ds_store s) e \<longrightarrow> ListDeliveriesForEvent (ds_store (fst (sweepLoop E now t evs (?s, ?n)))) t (ev_ID e) \<noteq> []"
    using Cons.IH [OF wf, of ?n] Cons.prems(2) unfolding w by (metis list.set_intros(2))
  have "ListDeliveriesForEvent (ds_store (fst (sweepLoop E now t evs (?s, ?n)))) t (ev_ID e) \<noteq> []" if "wanted (ds_store s) e"
    by (rule ListDeliveriesForEvent_grows [OF new(1) more(2) [OF that]])
  with new more(1) show ?case unfolding step by auto
qed simp

text \<open>
  The safety net holds: after \<open>SweepUndelivered\<close>, every event the sweep looked at that some enabled
  destination of the tenant wants has a delivery, and no delivery that was already there has changed.
\<close>

theorem SweepUndelivered_covers:
  assumes "queue_wf (ds_store s)"
  shows "(\<exists>new. mem_deliveries (ds_store (fst (SweepUndelivered E now t since limit s))) = mem_deliveries (ds_store s) @ new)
     \<and> (\<forall>e\<in>set (QueryEvents (ds_store s) t (sweepQuery since limit)). wanted (ds_store s) e \<longrightarrow>
          ListDeliveriesForEvent (ds_store (fst (SweepUndelivered E now t since limit s))) t (ev_ID e) \<noteq> [])"
proof -
  have "\<forall>e\<in>set (QueryEvents (ds_store s) t (sweepQuery since limit)). ev_TenantID e = t"
    using QueryEvents_tenant by blast
  from sweepLoop_covers [OF assms this] show ?thesis unfolding SweepUndelivered_def by blast
qed

theorem SweepUndelivered_covers_witness:
  "let s = \<lparr>ds_store = sampleStore\<lparr>mem_deliveries := [], mem_eventList := [''sh_evt_1'']\<rparr>, ds_breaker = NewBreaker 0 0 0\<rparr>
   in QueryEvents (ds_store s) ''tnt_1'' (sweepQuery zeroTime 10) = [storedEvent]
    \<and> ListDeliveriesForEvent (ds_store (fst (SweepUndelivered (sampleEnv (Response 200 [])) 30 ''tnt_1'' zeroTime 10 s)))
          ''tnt_1'' ''sh_evt_1'' \<noteq> []"
proof -
  let ?s = "\<lparr>ds_store = sampleStore\<lparr>mem_deliveries := [], mem_eventList := [''sh_evt_1'']\<rparr>, ds_breaker = NewBreaker 0 0 0\<rparr>"
  have wf: "queue_wf (ds_store ?s)" by (simp add: queue_wf_def)
  have q: "QueryEvents (ds_store ?s) ''tnt_1'' (sweepQuery zeroTime 10) = [storedEvent]"
    by (simp add: QueryEvents_def sweepQuery_def matches_def lookupOr_def sampleStore_def storedEvent_def
        zeroTime_def is_zero_time_def zero_time_def)
  have w: "wanted (ds_store ?s) storedEvent"
    by (simp add: wanted_def ListDestinations_def sampleStore_def storedEvent_def sampleDestination_def Matches_def)
  from SweepUndelivered_covers [OF wf, of "sampleEnv (Response 200 [])" 30 "''tnt_1''" zeroTime 10] q w
  show ?thesis by (simp add: Let_def) (simp add: storedEvent_def)
qed

text \<open>
  A limit between 501 and 1000 passes the sweep's own check and is then replaced by 100 in the store:
  asking for more sweeps less.
\<close>

lemma sweep_large_limit:
  assumes "500 < limit" "limit \<le> 1000"
  shows "length (QueryEvents m t (sweepQuery since limit)) \<le> 100"
  using assms by (simp add: QueryEvents_def sweepQuery_def collect_take_filter)

end
