(* ===== verification/Adapter_Core.thy ===== *)
theory Adapter_Core
  imports Domain_Model JsonPath Sign
begin

text \<open>
  What every provider integration shares: \<^verbatim>\<open>internal/adapter\<close> (the interface, the signature helpers, the
  timestamp reader) and the registry of \<^verbatim>\<open>internal/adapters/registry.go\<close>. An \<open>Adapter\<close> is the record of the
  methods of the Go interface; \<open>ad_AllowedSources\<close> is \<^const>\<open>None\<close> for a type that does not implement
  \<open>SourceRestricted\<close>. The fields of \<open>AdapterLib\<close> stand for the standard library's decoder, digests, base64,
  layout-driven time parser and \<open>%q\<close> formatting. The clock a \<open>Verify\<close> method reads is an argument.
\<close>

section \<open>Interface\<close>

type_synonym headers = "(string \<times> string list) list"

datatype verify_error =
    VerNoSignature
  | VerBadSignature string
  | VerMalformedHeader string
  | VerTimestampOutside string
  | VerSourceNotAllowed string

datatype parse_error =
    ParseUnparseable string
  | ParseNoTransaction string

definition withDetail :: "string \<Rightarrow> string \<Rightarrow> string" where
  "withDetail cause detail = (if detail = [] then cause else cause @ '': '' @ detail)"

fun verifyText :: "verify_error \<Rightarrow> string" where
  "verifyText VerNoSignature = ''request carries no signature header''"
| "verifyText (VerBadSignature d) = withDetail ''signature does not match the body'' d"
| "verifyText (VerMalformedHeader d) = withDetail ''signature header is malformed'' d"
| "verifyText (VerTimestampOutside d) = withDetail ''signature timestamp is outside the accepted window'' d"
| "verifyText (VerSourceNotAllowed d) = withDetail ''source address is not in the provider's published ranges'' d"

fun parseText :: "parse_error \<Rightarrow> string" where
  "parseText (ParseUnparseable d) = withDetail ''payload is not in the shape this adapter expects'' d"
| "parseText (ParseNoTransaction d) = withDetail ''payload carries no transaction reference'' d"

record Adapter =
  ad_Name :: string
  ad_Verify :: "instant \<Rightarrow> headers \<Rightarrow> string \<Rightarrow> string \<Rightarrow> verify_error option"
  ad_Parse :: "string \<Rightarrow> parse_error + CanonicalEvent"
  ad_DedupeKey :: "string \<Rightarrow> string option"
  ad_AllowedSources :: "string list option"

datatype Algorithm = SHA256 | SHA512

datatype Encoding = Hex | Base64

record AdapterLib =
  al_decode :: "string \<Rightarrow> string + json"
  al_hmac :: "Algorithm \<Rightarrow> string \<Rightarrow> string \<Rightarrow> string"
  al_b64encode :: "string \<Rightarrow> string"
  al_b64decode :: "string \<Rightarrow> string option"
  al_rawb64decode :: "string \<Rightarrow> string option"
  al_timeParse :: "string \<Rightarrow> string \<Rightarrow> gotime option"
  al_timeParseIn :: "string \<Rightarrow> string \<Rightarrow> zone \<Rightarrow> gotime option"
  al_loadLocation :: "string \<Rightarrow> zone option"
  al_rfc3339 :: "instant \<Rightarrow> string"
  al_quote :: "string \<Rightarrow> string"

section \<open>Signatures\<close>

definition ProviderSign :: "AdapterLib \<Rightarrow> Algorithm \<Rightarrow> Encoding \<Rightarrow> string \<Rightarrow> string \<Rightarrow> string" where
  "ProviderSign L alg enc secret payload =
     (let sum = al_hmac L alg secret payload
      in if enc = Base64 then al_b64encode L sum else hexEncode sum)"

definition decodeWith :: "AdapterLib \<Rightarrow> string \<Rightarrow> Encoding \<Rightarrow> string option" where
  "decodeWith L s enc =
     (if enc = Base64
      then (case al_b64decode L s of Some b \<Rightarrow> Some b | None \<Rightarrow> al_rawb64decode L s)
      else hexDecode (ToLower s))"

definition Equal :: "AdapterLib \<Rightarrow> string \<Rightarrow> string \<Rightarrow> Encoding \<Rightarrow> bool" where
  "Equal L presented expected enc =
     (case (decodeWith L (TrimSpace presented) enc, decodeWith L (TrimSpace expected) enc) of
        (Some p, Some e) \<Rightarrow> p = e
      | _ \<Rightarrow> presented = expected)"

definition VerifyHMAC ::
    "AdapterLib \<Rightarrow> Algorithm \<Rightarrow> Encoding \<Rightarrow> string \<Rightarrow> string \<Rightarrow> string \<Rightarrow> verify_error option" where
  "VerifyHMAC L alg enc secret body presented =
     (if presented = [] then Some VerNoSignature
      else if \<not> Equal L presented (ProviderSign L alg enc secret body) enc then Some (VerBadSignature [])
      else None)"

definition DefaultTimestampTolerance :: duration where "DefaultTimestampTolerance = 5 * minute"

definition CheckTimestamp :: "AdapterLib \<Rightarrow> instant \<Rightarrow> instant \<Rightarrow> duration \<Rightarrow> verify_error option" where
  "CheckTimestamp L signedAt now tolerance =
     (let tolerance = (if tolerance \<le> 0 then DefaultTimestampTolerance else tolerance);
          d = time_sub now signedAt;
          d = (if d < 0 then wrap64 (- d) else d)
      in if d > tolerance
         then Some (VerTimestampOutside (''signed at '' @ al_rfc3339 L signedAt @ '', now '' @ al_rfc3339 L now))
         else None)"

fun firstValue :: "string list \<Rightarrow> string option" where
  "firstValue [] = None"
| "firstValue (v # vs) = (if TrimSpace v \<noteq> [] then Some (TrimSpace v) else firstValue vs)"

fun headerNamed :: "headers \<Rightarrow> string \<Rightarrow> string option" where
  "headerNamed [] n = None"
| "headerNamed ((k, vs) # h) n =
     (if EqualFold k n then (case firstValue vs of Some v \<Rightarrow> Some v | None \<Rightarrow> headerNamed h n)
      else headerNamed h n)"

fun FirstHeader :: "headers \<Rightarrow> string list \<Rightarrow> string" where
  "FirstHeader h [] = []"
| "FirstHeader h (n # names) = (case headerNamed h n of Some v \<Rightarrow> v | None \<Rightarrow> FirstHeader h names)"

section \<open>Timestamps\<close>

datatype time_error = TimeUnparseable string | TimeNoTimezone string

definition zonedLayouts :: "string list" where
  "zonedLayouts =
     [''2006-01-02T15:04:05.999999999Z07:00'', ''2006-01-02T15:04:05Z07:00'',
      ''2006-01-02T15:04:05.999999999Z0700'', ''2006-01-02T15:04:05Z0700'',
      ''2006-01-02T15:04:05.999999999-07:00'', ''2006-01-02 15:04:05Z07:00'',
      ''2006-01-02 15:04:05 -0700'', ''Mon, 02 Jan 2006 15:04:05 -0700'', ''Mon, 02 Jan 2006 15:04:05 MST'']"

definition naiveLayouts :: "string list" where
  "naiveLayouts =
     [''2006-01-02T15:04:05.999999999'', ''2006-01-02T15:04:05'', ''2006-01-02 15:04:05.999999999'',
      ''2006-01-02 15:04:05'', ''2006-01-02T15:04'', ''2006-01-02 15:04'', ''02/01/2006 15:04:05'',
      ''2006-01-02'']"

definition utcTime :: "instant \<Rightarrow> gotime" where
  "utcTime t = \<lparr>gt_instant = t, gt_zone = UTC\<rparr>"

definition parseUnix :: "string \<Rightarrow> instant option" where
  "parseUnix s =
     (if length s < 9 \<or> length s > 19 then None
      else case ParseInt s of
             None \<Rightarrow> None
           | Some n \<Rightarrow>
               if n \<le> 0 then None
               else if n < 10 ^ 11 then Some (n * second)
               else if n < 10 ^ 14 then Some (n * 1000000)
               else if n < 10 ^ 17 then Some (n * 1000)
               else Some n)"

fun tryZoned :: "AdapterLib \<Rightarrow> string list \<Rightarrow> string \<Rightarrow> gotime option" where
  "tryZoned L [] s = None"
| "tryZoned L (layout # ls) s =
     (case al_timeParse L layout s of Some t \<Rightarrow> Some (to_UTC t) | None \<Rightarrow> tryZoned L ls s)"

fun tryNaive :: "AdapterLib \<Rightarrow> string list \<Rightarrow> string \<Rightarrow> zone option \<Rightarrow> time_error + gotime" where
  "tryNaive L [] s loc = Inl (TimeUnparseable (al_quote L s @ '' is not a recognised timestamp''))"
| "tryNaive L (layout # ls) s loc =
     (case al_timeParse L layout s of
        None \<Rightarrow> tryNaive L ls s loc
      | Some _ \<Rightarrow>
          (case loc of
             None \<Rightarrow> Inl (TimeNoTimezone (al_quote L s))
           | Some z \<Rightarrow>
               (case al_timeParseIn L layout s z of
                  None \<Rightarrow> tryNaive L ls s loc
                | Some t \<Rightarrow> Inr (to_UTC t))))"

definition ParseTime :: "AdapterLib \<Rightarrow> string \<Rightarrow> zone option \<Rightarrow> time_error + gotime" where
  "ParseTime L value loc =
     (let s = TrimSpace value
      in if s = [] then Inl (TimeUnparseable ''empty timestamp'')
         else case parseUnix s of
                Some t \<Rightarrow> Inr (utcTime t)
              | None \<Rightarrow>
                  (case tryZoned L zonedLayouts s of
                     Some t \<Rightarrow> Inr t
                   | None \<Rightarrow> tryNaive L naiveLayouts s loc))"

definition ParseTimeLayout :: "AdapterLib \<Rightarrow> string \<Rightarrow> string \<Rightarrow> zone option \<Rightarrow> time_error + gotime" where
  "ParseTimeLayout L value layout loc =
     (let s = TrimSpace value
      in if layout = [] then ParseTime L s loc
         else case (case loc of Some z \<Rightarrow> al_timeParseIn L layout s z | None \<Rightarrow> al_timeParse L layout s) of
                None \<Rightarrow> Inl (TimeUnparseable (al_quote L s @ '' against layout '' @ al_quote L layout))
              | Some t \<Rightarrow> Inr (to_UTC t))"

definition LoadLocation :: "AdapterLib \<Rightarrow> string \<Rightarrow> zone option" where
  "LoadLocation L name =
     (let n = TrimSpace name
      in if n = [] \<or> EqualFold n ''UTC'' then Some UTC else al_loadLocation L n)"

section \<open>Registry\<close>

record Registry =
  reg_builtin :: "(string \<times> Adapter) list"
  reg_declared :: "(string \<times> (string \<times> Adapter) list) list"

definition IsBuiltIn :: "Registry \<Rightarrow> string \<Rightarrow> bool" where
  "IsBuiltIn r name \<longleftrightarrow> map_of (reg_builtin r) name \<noteq> None"

definition declaredFor :: "Registry \<Rightarrow> string \<Rightarrow> (string \<times> Adapter) list" where
  "declaredFor r tenantID = (case map_of (reg_declared r) tenantID of Some m \<Rightarrow> m | None \<Rightarrow> [])"

definition GetAdapter :: "Registry \<Rightarrow> string \<Rightarrow> string \<Rightarrow> Adapter option" where
  "GetAdapter r tenantID name =
     (case map_of (declaredFor r tenantID) name of
        Some a \<Rightarrow> Some a
      | None \<Rightarrow> map_of (reg_builtin r) name)"

definition Register :: "Registry \<Rightarrow> string \<Rightarrow> Adapter \<Rightarrow> Registry \<times> string option" where
  "Register r tenantID a =
     (if map_of (reg_builtin r) (ad_Name a) \<noteq> None
      then (r, Some (''a built-in adapter name cannot be redefined: '' @ ad_Name a))
      else (r\<lparr>reg_declared :=
                  AList.update tenantID (AList.update (ad_Name a) a (declaredFor r tenantID)) (reg_declared r)\<rparr>, None))"

definition Unregister :: "Registry \<Rightarrow> string \<Rightarrow> string \<Rightarrow> Registry" where
  "Unregister r tenantID name =
     (case map_of (reg_declared r) tenantID of
        None \<Rightarrow> r
      | Some m \<Rightarrow> r\<lparr>reg_declared := AList.update tenantID (AList.delete name m) (reg_declared r)\<rparr>)"

section \<open>Times come back in UTC\<close>

lemma to_UTC_zone [simp]: "gt_zone (to_UTC t) = UTC"
  by (simp add: to_UTC_def)

lemma utcTime_zone [simp]: "gt_zone (utcTime t) = UTC" "gt_instant (utcTime t) = t"
  by (simp_all add: utcTime_def)

lemma tryZoned_utc: "tryZoned L ls s = Some t \<Longrightarrow> gt_zone t = UTC"
  by (induction ls) (auto split: option.splits)

lemma tryNaive_utc: "tryNaive L ls s loc = Inr t \<Longrightarrow> gt_zone t = UTC"
  by (induction ls) (auto split: option.splits)

lemma ParseTime_utc: "ParseTime L v loc = Inr t \<Longrightarrow> gt_zone t = UTC"
  by (auto simp: ParseTime_def Let_def tryZoned_utc tryNaive_utc split: if_splits option.splits)

lemma ParseTimeLayout_utc: "ParseTimeLayout L v layout loc = Inr t \<Longrightarrow> gt_zone t = UTC"
  by (auto simp: ParseTimeLayout_def Let_def dest: ParseTime_utc split: if_splits option.splits)

text \<open>
  A naive timestamp is never guessed at: with no zone configured, what is read was an epoch number or a
  layout that carries its own offset.
\<close>

lemma tryNaive_no_zone: "tryNaive L ls s None \<noteq> Inr t"
  by (induction ls) (auto split: option.splits)

lemma ParseTime_no_guess:
  assumes "ParseTime L v None = Inr t"
  shows "parseUnix (TrimSpace v) = Some (gt_instant t) \<or> tryZoned L zonedLayouts (TrimSpace v) = Some t"
  using assms tryNaive_no_zone by (auto simp: ParseTime_def Let_def split: if_splits option.splits)

section \<open>HMAC verification\<close>

lemma hex_ToLower:
  assumes "c \<in> set ''0123456789abcdef''"
  shows "ToLowerByte c = c"
proof -
  have "list_all (\<lambda>c. ToLowerByte c = c) ''0123456789abcdef''" by code_simp
  then show ?thesis using assms by (simp only: list_all_iff)
qed

declare ToLower_hexEncode [simp]

lemma hex_visible:
  assumes "c \<in> set ''0123456789abcdef''"
  shows "visible c"
proof -
  have "list_all visible ''0123456789abcdef''" by code_simp
  then show ?thesis using assms by (simp only: list_all_iff)
qed

lemma TrimSpace_hex: "TrimSpace (hexEncode s) = hexEncode s"
proof (cases "hexEncode s = []")
  case False
  then have "visible (hd (hexEncode s))" "visible (last (hexEncode s))"
    using hexEncode_chars hex_visible by (meson hd_in_set last_in_set)+
  with False show ?thesis by (intro TrimSpace_visible) auto
qed (simp add: TrimSpace_visible)

lemma Equal_hex:
  "Equal L presented (hexEncode mac) Hex \<longleftrightarrow>
     hexDecode (ToLower (TrimSpace presented)) = Some mac \<or> presented = hexEncode mac"
  by (auto simp: Equal_def decodeWith_def TrimSpace_hex split: option.splits)

lemma VerifyHMAC_hex:
  "VerifyHMAC L alg Hex secret body presented = None \<longleftrightarrow>
     presented \<noteq> [] \<and> (hexDecode (ToLower (TrimSpace presented)) = Some (al_hmac L alg secret body)
                     \<or> presented = hexEncode (al_hmac L alg secret body))"
  by (simp add: VerifyHMAC_def ProviderSign_def Equal_hex)

lemma VerifyHMAC_accepts:
  "VerifyHMAC L alg Hex secret body presented = None \<Longrightarrow>
   hexDecode (ToLower (TrimSpace presented)) = Some (al_hmac L alg secret body)"
  by (auto simp: VerifyHMAC_hex TrimSpace_hex)

section \<open>Registries keep tenants and built-in names apart\<close>

datatype registry_op = OpRegister string Adapter | OpUnregister string string

fun registry_step :: "Registry \<Rightarrow> registry_op \<Rightarrow> Registry" where
  "registry_step r (OpRegister t a) = fst (Register r t a)"
| "registry_step r (OpUnregister t n) = Unregister r t n"

fun registry_tenant :: "registry_op \<Rightarrow> string" where
  "registry_tenant (OpRegister t a) = t"
| "registry_tenant (OpUnregister t n) = t"

definition registry_inv :: "(string \<times> Adapter) list \<Rightarrow> Registry \<Rightarrow> bool" where
  "registry_inv b r \<longleftrightarrow> reg_builtin r = b
     \<and> (\<forall>t n. map_of (declaredFor r t) n \<noteq> None \<longrightarrow> map_of b n = None)"

lemma declaredFor_update [simp]:
  "declaredFor (r\<lparr>reg_declared := AList.update t m (reg_declared r)\<rparr>) u = (if u = t then m else declaredFor r u)"
  by (simp add: declaredFor_def update_conv')

lemma declaredFor_Unregister:
  "map_of (declaredFor (Unregister r t n) u) k =
     (if u = t \<and> k = n then None else map_of (declaredFor r u) k)"
  by (auto simp: Unregister_def delete_conv' declaredFor_def update_conv' split: option.splits)

lemma declaredFor_Register:
  "map_of (declaredFor (fst (Register r t a)) u) k =
     (if u = t \<and> k = ad_Name a \<and> map_of (reg_builtin r) k = None then Some a else map_of (declaredFor r u) k)"
  by (auto simp: Register_def update_conv')

lemma registry_builtin [simp]:
  "reg_builtin (fst (Register r t a)) = reg_builtin r" "reg_builtin (Unregister r t n) = reg_builtin r"
  by (auto simp: Register_def Unregister_def split: option.splits)

interpretation registry: machine registry_step "\<lambda>_ _. True" "registry_inv b"
proof
  fix r x
  assume "registry_inv b r"
  then show "registry_inv b (registry_step r x)"
    by (cases x) (auto simp: registry_inv_def declaredFor_Register declaredFor_Unregister split: if_splits)
qed

end
