(* ===== verification/Provider_Adapters.thy ===== *)
theory Provider_Adapters
  imports Adapter_Core
begin

text \<open>
  The six built-in integrations, \<^verbatim>\<open>internal/adapters/{paystack,flutterwave,nibss,monnify,interswitch,stripe}\<close>,
  and the registry that holds them. The reading idioms the Go packages repeat (a string that must not be
  empty, a status looked up in a table, an amount, a timestamp) are definitions of their own; each
  adapter's \<open>Parse\<close> composes them in the order of its source. The self-documentation of \<open>Describe\<close> is left
  out.
\<close>

section \<open>Reading a payload\<close>

text \<open>\<open>MustCompile\<close> panics at start-up when a path is malformed; \<open>builtin_paths_compile\<close> below shows that no
  built-in path is.\<close>

definition MustCompile :: "string \<Rightarrow> path" where
  "MustCompile expr = (case Compile expr of Inr p \<Rightarrow> p | Inl _ \<Rightarrow> \<lparr>path_raw = expr, path_steps = []\<rparr>)"

definition strAt :: "json \<Rightarrow> string \<Rightarrow> path_error + string" where
  "strAt doc expr = StringAt doc (MustCompile expr)"

definition strOr :: "json \<Rightarrow> string \<Rightarrow> string" where
  "strOr doc expr = (case strAt doc expr of Inr s \<Rightarrow> s | Inl _ \<Rightarrow> [])"

definition present :: "json \<Rightarrow> string \<Rightarrow> string option" where
  "present doc expr = (case strAt doc expr of Inr s \<Rightarrow> if s \<noteq> [] then Some s else None | Inl _ \<Rightarrow> None)"

fun firstPresent :: "json \<Rightarrow> string list \<Rightarrow> string option" where
  "firstPresent doc [] = None"
| "firstPresent doc (e # es) = (case present doc e of Some s \<Rightarrow> Some s | None \<Rightarrow> firstPresent doc es)"

definition valueAt :: "json \<Rightarrow> string \<Rightarrow> json option" where
  "valueAt doc expr = (case Eval (MustCompile expr) doc of Inr v \<Rightarrow> Some v | Inl _ \<Rightarrow> None)"

definition newEvent :: "string \<Rightarrow> CanonicalEvent" where
  "newEvent provider =
     zeroEvent\<lparr>ev_Provider := provider, ev_ProviderExtra := Some [], ev_MappingComplete := True\<rparr>"

definition incomplete :: "CanonicalEvent \<Rightarrow> CanonicalEvent" where
  "incomplete ev = ev\<lparr>ev_MappingComplete := False\<rparr>"

definition readStatus ::
    "(string \<times> Status) list \<Rightarrow> (string \<Rightarrow> string) \<Rightarrow> json \<Rightarrow> string \<Rightarrow> CanonicalEvent \<Rightarrow> CanonicalEvent" where
  "readStatus tbl key doc expr ev =
     (case strAt doc expr of
        Inl _ \<Rightarrow> ev\<lparr>ev_Status := StatusUnknown, ev_MappingComplete := False\<rparr>
      | Inr raw \<Rightarrow>
          (case map_of tbl (key raw) of
             Some s \<Rightarrow> ev\<lparr>ev_Status := s\<rparr>
           | None \<Rightarrow> ev\<lparr>ev_Status := StatusUnknown, ev_UnmappedStatus := raw, ev_MappingComplete := False\<rparr>))"

definition foldKey :: "string \<Rightarrow> string" where
  "foldKey raw = ToLower (TrimSpace raw)"

definition readEventID :: "json \<Rightarrow> string \<Rightarrow> CanonicalEvent \<Rightarrow> CanonicalEvent" where
  "readEventID doc expr ev = (case present doc expr of Some i \<Rightarrow> ev\<lparr>ev_ProviderEventID := i\<rparr> | None \<Rightarrow> ev)"

definition setMinor :: "amount_error + int \<Rightarrow> CanonicalEvent \<Rightarrow> CanonicalEvent" where
  "setMinor r ev = (case r of Inr n \<Rightarrow> ev\<lparr>ev_AmountMinor := n\<rparr> | Inl _ \<Rightarrow> incomplete ev)"

definition readIntAmount :: "json \<Rightarrow> string \<Rightarrow> CanonicalEvent \<Rightarrow> CanonicalEvent" where
  "readIntAmount doc expr ev =
     (case valueAt doc expr of
        None \<Rightarrow> ev
      | Some v \<Rightarrow> (case IntValue v of Some n \<Rightarrow> ev\<lparr>ev_AmountMinor := n\<rparr> | None \<Rightarrow> incomplete ev))"

definition readMajorAmount :: "json \<Rightarrow> string \<Rightarrow> string \<Rightarrow> CanonicalEvent \<Rightarrow> CanonicalEvent" where
  "readMajorAmount doc expr currency ev =
     (case valueAt doc expr of
        None \<Rightarrow> ev
      | Some v \<Rightarrow> (case StringValue v of Some s \<Rightarrow> setMinor (MajorToMinor s currency) ev | None \<Rightarrow> incomplete ev))"

definition readTime :: "AdapterLib \<Rightarrow> json \<Rightarrow> string \<Rightarrow> zone option \<Rightarrow> CanonicalEvent \<Rightarrow> CanonicalEvent" where
  "readTime L doc expr loc ev =
     (case present doc expr of
        None \<Rightarrow> ev
      | Some ts \<Rightarrow> (case ParseTime L ts loc of Inr t \<Rightarrow> ev\<lparr>ev_OccurredAt := t\<rparr> | Inl _ \<Rightarrow> incomplete ev))"

definition readCustomer :: "json \<Rightarrow> string list \<Rightarrow> CanonicalEvent \<Rightarrow> CanonicalEvent" where
  "readCustomer doc exprs ev =
     (case firstPresent doc exprs of Some c \<Rightarrow> ev\<lparr>ev_CustomerRefHash := c\<rparr> | None \<Rightarrow> ev)"

definition unclaimed :: "string list \<Rightarrow> json \<Rightarrow> flat" where
  "unclaimed claimed doc = filter (\<lambda>(k, v). k \<notin> set claimed) (Flatten doc)"

definition named :: "string \<Rightarrow> string \<Rightarrow> flat \<Rightarrow> flat" where
  "named k s m = (if s \<noteq> [] then AList.update k (JString s) m else m)"

definition lifted :: "json \<Rightarrow> string \<Rightarrow> string \<Rightarrow> flat \<Rightarrow> flat" where
  "lifted doc expr k m = (case strAt doc expr of Inr s \<Rightarrow> AList.update k (JString s) m | Inl _ \<Rightarrow> m)"

definition dedupeAt :: "AdapterLib \<Rightarrow> string \<Rightarrow> string \<Rightarrow> string option" where
  "dedupeAt L expr body = (case al_decode L body of Inl _ \<Rightarrow> None | Inr doc \<Rightarrow> present doc expr)"

definition lagos :: "AdapterLib \<Rightarrow> zone option" where
  "lagos L = LoadLocation L ''Africa/Lagos''"

fun HasSuffix :: "string \<Rightarrow> string \<Rightarrow> bool" where
  "HasSuffix s suffix = starts_with (rev suffix) (rev s)"

fun Contains :: "string \<Rightarrow> string \<Rightarrow> bool" where
  "Contains [] sub = (sub = [])"
| "Contains (c # s) sub = (starts_with sub (c # s) \<or> Contains s sub)"

section \<open>Paystack\<close>

definition paystackVerify :: "AdapterLib \<Rightarrow> headers \<Rightarrow> string \<Rightarrow> string \<Rightarrow> verify_error option" where
  "paystackVerify L h rawBody secret =
     (let presented = FirstHeader h [''x-paystack-signature'']
      in if presented = [] then Some VerNoSignature
         else VerifyHMAC L SHA512 Hex secret rawBody presented)"

definition paystackStatus :: "(string \<times> Status) list" where
  "paystackStatus =
     [(''success'', StatusSuccess), (''successful'', StatusSuccess), (''failed'', StatusFailed),
      (''pending'', StatusPending), (''ongoing'', StatusPending), (''processing'', StatusPending),
      (''queued'', StatusPending), (''abandoned'', StatusAbandoned), (''reversed'', StatusReversed),
      (''reversal'', StatusReversed)]"

definition paystackFamily :: "string \<Rightarrow> string" where
  "paystackFamily event =
     (if Contains event ''dispute'' \<or> Contains event ''chargeback'' then ''chargeback''
      else if starts_with ''charge.'' event then ''payment''
      else if starts_with ''transfer.'' event then ''transfer''
      else if starts_with ''refund.'' event then ''refund''
      else if starts_with ''paymentrequest.'' event \<or> starts_with ''invoice.'' event then ''payment''
      else if starts_with ''dispute.'' event then ''chargeback''
      else [])"

text \<open>An unrecognised family is forwarded as a payment and flagged.\<close>

definition orPayment :: "string \<Rightarrow> CanonicalEvent \<Rightarrow> string \<times> CanonicalEvent" where
  "orPayment family ev = (if family = [] then (''payment'', incomplete ev) else (family, ev))"

definition paystackClaimed :: "string list" where
  "paystackClaimed =
     [''event'', ''data.reference'', ''data.status'', ''data.amount'', ''data.currency'', ''data.paid_at'',
      ''data.created_at'', ''data.customer.email'', ''data.customer.customer_code'']"

definition paystackCurrency :: "json \<Rightarrow> CanonicalEvent \<Rightarrow> CanonicalEvent" where
  "paystackCurrency doc ev =
     (case strAt doc ''$.data.currency'' of
        Inr c \<Rightarrow> ev\<lparr>ev_Currency := NormaliseCurrency c\<rparr>
      | Inl _ \<Rightarrow> if ev_AmountMinor ev \<noteq> 0 then incomplete (ev\<lparr>ev_Currency := ''NGN''\<rparr>) else ev)"

definition paystackTime :: "AdapterLib \<Rightarrow> json \<Rightarrow> CanonicalEvent \<Rightarrow> CanonicalEvent" where
  "paystackTime L doc ev =
     (let ev = (if present doc ''$.data.paid_at'' = Some ''null'' then ev
                else readTime L doc ''$.data.paid_at'' None ev)
      in if IsZero (ev_OccurredAt ev) then readTime L doc ''$.data.created_at'' None ev else ev)"

definition paystackParse :: "AdapterLib \<Rightarrow> string \<Rightarrow> parse_error + CanonicalEvent" where
  "paystackParse L rawBody =
     (case al_decode L rawBody of
        Inl err \<Rightarrow> Inl (ParseUnparseable err)
      | Inr doc \<Rightarrow>
          let eventName = strOr doc ''$.event'';
              (family, ev) = orPayment (paystackFamily eventName) (newEvent ''paystack'')
          in case firstPresent doc [''$.data.reference'', ''$.data.transaction.reference'', ''$.data.transfer_code''] of
               None \<Rightarrow> Inl (ParseNoTransaction ''no data.reference'')
             | Some ref \<Rightarrow>
                 let ev = readStatus paystackStatus foldKey doc ''$.data.status'' (ev\<lparr>ev_TransactionRef := ref\<rparr>);
                     ev = ev\<lparr>ev_EventType := EventTypeFor family (ev_Status ev)\<rparr>;
                     ev = paystackCurrency doc (readIntAmount doc ''$.data.amount'' ev);
                     ev = paystackTime L doc ev;
                     ev = readCustomer doc [''$.data.customer.email'', ''$.data.customer.customer_code''] ev
                 in Inr (ev\<lparr>ev_ProviderExtra :=
                           Some (named ''paystack_event'' eventName (unclaimed paystackClaimed doc))\<rparr>))"

definition paystack :: "AdapterLib \<Rightarrow> Adapter" where
  "paystack L = \<lparr>ad_Name = ''paystack'', ad_Verify = (\<lambda>now. paystackVerify L), ad_Parse = paystackParse L,
     ad_DedupeKey = (\<lambda>_. None), ad_AllowedSources = None\<rparr>"

section \<open>Flutterwave\<close>

definition flutterwaveVerify :: "AdapterLib \<Rightarrow> headers \<Rightarrow> string \<Rightarrow> string \<Rightarrow> verify_error option" where
  "flutterwaveVerify L h rawBody secret =
     (let presented = FirstHeader h [''verif-hash'', ''verify-hash'']
      in if presented = [] then Some VerNoSignature
         else if secret = [] then Some (VerBadSignature ''endpoint has no configured secret hash'')
         else if \<not> Equal L presented secret Hex then Some (VerBadSignature [])
         else None)"

definition flutterwaveStatus :: "(string \<times> Status) list" where
  "flutterwaveStatus =
     [(''successful'', StatusSuccess), (''success'', StatusSuccess), (''completed'', StatusSuccess),
      (''failed'', StatusFailed), (''error'', StatusFailed), (''pending'', StatusPending),
      (''new'', StatusPending), (''processing'', StatusPending), (''abandoned'', StatusAbandoned),
      (''cancelled'', StatusAbandoned), (''reversed'', StatusReversed), (''refunded'', StatusReversed),
      (''reversal_saved'', StatusReversed)]"

definition flutterwaveFamily :: "string \<Rightarrow> string" where
  "flutterwaveFamily event =
     (let e = ToLower event
      in if starts_with ''charge.'' e \<or> e = ''charge.completed'' then ''payment''
         else if starts_with ''transfer.'' e then ''transfer''
         else if starts_with ''refund.'' e then ''refund''
         else if Contains e ''chargeback'' \<or> Contains e ''dispute'' then ''chargeback''
         else [])"

definition flutterwaveClaimed :: "string list" where
  "flutterwaveClaimed =
     [''event'', ''event.type'', ''data.id'', ''data.tx_ref'', ''data.reference'', ''data.status'', ''data.amount'',
      ''data.currency'', ''data.created_at'', ''data.customer.email'']"

text \<open>The reference, and whether it is only the provider's own.\<close>

definition flutterwaveRef :: "json \<Rightarrow> (string \<times> bool) option" where
  "flutterwaveRef doc =
     (case firstPresent doc [''$.data.tx_ref'', ''$.data.reference''] of
        Some r \<Rightarrow> Some (r, False)
      | None \<Rightarrow> map_option (\<lambda>r. (r, True)) (present doc ''$.data.flw_ref''))"

definition flutterwaveParse :: "AdapterLib \<Rightarrow> string \<Rightarrow> parse_error + CanonicalEvent" where
  "flutterwaveParse L rawBody =
     (case al_decode L rawBody of
        Inl err \<Rightarrow> Inl (ParseUnparseable err)
      | Inr doc \<Rightarrow>
          let eventName = (case strAt doc ''$.event'' of Inr s \<Rightarrow> s | Inl _ \<Rightarrow> strOr doc ''$.event.type'');
              (family, ev) = orPayment (flutterwaveFamily eventName) (newEvent ''flutterwave'')
          in case flutterwaveRef doc of
               None \<Rightarrow> Inl (ParseNoTransaction ''no data.tx_ref or data.flw_ref'')
             | Some (ref, ours) \<Rightarrow>
                 let ev = ev\<lparr>ev_TransactionRef := ref\<rparr>;
                     ev = readEventID doc ''$.data.id'' (if ours then incomplete ev else ev);
                     ev = readStatus flutterwaveStatus foldKey doc ''$.data.status'' ev;
                     ev = ev\<lparr>ev_EventType := EventTypeFor family (ev_Status ev)\<rparr>;
                     (currency, ev) = (case present doc ''$.data.currency'' of
                                         Some c \<Rightarrow> (NormaliseCurrency c, ev)
                                       | None \<Rightarrow> (''NGN'', incomplete ev));
                     ev = readMajorAmount doc ''$.data.amount'' currency (ev\<lparr>ev_Currency := currency\<rparr>);
                     ev = readCustomer doc [''$.data.customer.email''] (readTime L doc ''$.data.created_at'' None ev)
                 in Inr (ev\<lparr>ev_ProviderExtra :=
                           Some (named ''flutterwave_event'' eventName (unclaimed flutterwaveClaimed doc))\<rparr>))"

definition flutterwave :: "AdapterLib \<Rightarrow> Adapter" where
  "flutterwave L = \<lparr>ad_Name = ''flutterwave'', ad_Verify = (\<lambda>now. flutterwaveVerify L),
     ad_Parse = flutterwaveParse L, ad_DedupeKey = dedupeAt L ''$.data.id'', ad_AllowedSources = None\<rparr>"

section \<open>NIBSS\<close>

fun signedFields :: "json \<Rightarrow> (string \<times> string) list \<Rightarrow> verify_error + string" where
  "signedFields doc [] = Inr []"
| "signedFields doc ((expr, name) # fs) =
     (case strAt doc expr of
        Inl _ \<Rightarrow> Inl (VerBadSignature (''payload has no '' @ name @ '' to sign over''))
      | Inr s \<Rightarrow> (case signedFields doc fs of Inl err \<Rightarrow> Inl err | Inr rest \<Rightarrow> Inr (s @ rest)))"

definition notJSON :: verify_error where
  "notJSON = VerMalformedHeader ''payload is not JSON, so the signed fields cannot be read''"

definition nibssSigned :: "(string \<times> string) list" where
  "nibssSigned = [(''$.sessionId'', ''sessionId''), (''$.paymentReference'', ''paymentReference''), (''$.amount'', ''amount'')]"

definition nibssVerify :: "AdapterLib \<Rightarrow> headers \<Rightarrow> string \<Rightarrow> string \<Rightarrow> verify_error option" where
  "nibssVerify L h rawBody secret =
     (let presented = FirstHeader h [''x-nibss-signature'', ''nibss-signature'']
      in if presented = [] then Some VerNoSignature
         else case al_decode L rawBody of
                Inl _ \<Rightarrow> Some notJSON
              | Inr doc \<Rightarrow>
                  (case signedFields doc nibssSigned of
                     Inl err \<Rightarrow> Some err
                   | Inr payload \<Rightarrow> VerifyHMAC L SHA256 Hex secret payload presented))"

definition nibssCodes :: "(string \<times> Status) list" where
  "nibssCodes =
     [(''00'', StatusSuccess), (''01'', StatusPending), (''09'', StatusPending), (''25'', StatusFailed),
      (''03'', StatusFailed), (''05'', StatusFailed), (''06'', StatusFailed), (''07'', StatusFailed),
      (''08'', StatusFailed), (''12'', StatusFailed), (''13'', StatusFailed), (''21'', StatusFailed),
      (''26'', StatusFailed), (''34'', StatusFailed), (''51'', StatusFailed), (''57'', StatusFailed),
      (''61'', StatusFailed), (''91'', StatusPending), (''94'', StatusFailed), (''96'', StatusPending),
      (''97'', StatusPending), (''99'', StatusFailed)]"

definition padCode :: "string \<Rightarrow> string" where
  "padCode key = (if length key = 1 then ''0'' @ key else key)"

definition nibssClaimed :: "string list" where
  "nibssClaimed =
     [''sessionId'', ''paymentReference'', ''amount'', ''responseCode'', ''currency'', ''transactionDateTime'',
      ''originatorAccountName'']"

definition nibssRef :: "json \<Rightarrow> (string \<times> bool) option" where
  "nibssRef doc =
     (case present doc ''$.paymentReference'' of
        Some r \<Rightarrow> Some (r, False)
      | None \<Rightarrow> map_option (\<lambda>s. (s, True)) (present doc ''$.sessionId''))"

definition nibssExtras :: "json \<Rightarrow> flat" where
  "nibssExtras doc =
     lifted doc ''$.channelCode'' ''channel_code'' (lifted doc ''$.narration'' ''narration'' (unclaimed nibssClaimed doc))"

definition nibssParse :: "AdapterLib \<Rightarrow> string \<Rightarrow> parse_error + CanonicalEvent" where
  "nibssParse L rawBody =
     (case al_decode L rawBody of
        Inl err \<Rightarrow> Inl (ParseUnparseable err)
      | Inr doc \<Rightarrow>
          (case nibssRef doc of
             None \<Rightarrow> Inl (ParseNoTransaction ''no paymentReference or sessionId'')
           | Some (ref, ours) \<Rightarrow>
               let ev = (newEvent ''nibss'')\<lparr>ev_TransactionRef := ref\<rparr>;
                   ev = readEventID doc ''$.sessionId'' (if ours then incomplete ev else ev);
                   ev = readStatus nibssCodes (\<lambda>code. padCode (TrimSpace code)) doc ''$.responseCode'' ev;
                   ev = ev\<lparr>ev_EventType := EventTypeFor ''transfer'' (ev_Status ev)\<rparr>;
                   currency = (case present doc ''$.currency'' of Some c \<Rightarrow> NormaliseCurrency c | None \<Rightarrow> ''NGN'');
                   ev = ev\<lparr>ev_Currency := currency\<rparr>;
                   ev = (case present doc ''$.amount'' of
                           Some s \<Rightarrow> setMinor (MajorToMinor s currency) ev
                         | None \<Rightarrow> incomplete ev);
                   ev = readTime L doc ''$.transactionDateTime'' (lagos L) ev;
                   ev = readCustomer doc [''$.originatorAccountName''] ev
               in Inr (ev\<lparr>ev_ProviderExtra := Some (nibssExtras doc)\<rparr>)))"

definition nibss :: "AdapterLib \<Rightarrow> Adapter" where
  "nibss L = \<lparr>ad_Name = ''nibss'', ad_Verify = (\<lambda>now. nibssVerify L), ad_Parse = nibssParse L,
     ad_DedupeKey = dedupeAt L ''$.sessionId'',
     ad_AllowedSources = Some [''196.6.103.0/24'', ''197.253.19.0/24'', ''41.203.72.0/24'']\<rparr>"

section \<open>Monnify\<close>

definition monnifyVerify :: "AdapterLib \<Rightarrow> headers \<Rightarrow> string \<Rightarrow> string \<Rightarrow> verify_error option" where
  "monnifyVerify L h rawBody secret =
     (let presented = FirstHeader h [''monnify-signature'', ''x-monnify-signature'']
      in if presented = [] then Some VerNoSignature
         else VerifyHMAC L SHA512 Hex secret rawBody presented)"

definition monnifyStatus :: "(string \<times> Status) list" where
  "monnifyStatus =
     [(''paid'', StatusSuccess), (''overpaid'', StatusSuccess), (''partially_paid'', StatusUnknown),
      (''pending'', StatusPending), (''processing'', StatusPending), (''failed'', StatusFailed),
      (''cancelled'', StatusAbandoned), (''expired'', StatusAbandoned), (''abandoned'', StatusAbandoned),
      (''reversed'', StatusReversed), (''refunded'', StatusReversed)]"

definition deliberatelyUnknown :: "(string \<times> string) list" where
  "deliberatelyUnknown =
     [(''partially_paid'',
       ''the canonical status enum cannot express a part payment; compare amount_minor against your expected amount'')]"

definition monnifyFamily :: "string \<Rightarrow> string" where
  "monnifyFamily event =
     (let e = ToUpper (TrimSpace event)
      in if Contains e ''DISBURSEMENT'' \<or> Contains e ''TRANSFER'' then ''transfer''
         else if Contains e ''REFUND'' then ''refund''
         else if Contains e ''SETTLEMENT'' \<or> Contains e ''COLLECTION'' \<or> Contains e ''TRANSACTION'' then ''payment''
         else [])"

definition monnifyClaimed :: "string list" where
  "monnifyClaimed =
     [''eventType'', ''eventData.transactionReference'', ''eventData.paymentReference'', ''eventData.paymentStatus'',
      ''eventData.amountPaid'', ''eventData.currency'', ''eventData.paidOn'', ''eventData.customer.email'']"

text \<open>The note left for a status that is unknown on purpose.\<close>

definition monnifyNotes :: "json \<Rightarrow> flat" where
  "monnifyNotes doc =
     (case strAt doc ''$.eventData.paymentStatus'' of
        Inl _ \<Rightarrow> []
      | Inr raw \<Rightarrow>
          (case map_of deliberatelyUnknown (foldKey raw) of
             None \<Rightarrow> []
           | Some why \<Rightarrow> [(''statushub_note'', JString why), (''monnify_payment_status'', JString raw)]))"

definition monnifyAmount :: "json \<Rightarrow> string \<Rightarrow> CanonicalEvent \<Rightarrow> CanonicalEvent" where
  "monnifyAmount doc currency ev =
     (if valueAt doc ''$.eventData.amountPaid'' = None
      then readMajorAmount doc ''$.eventData.settlementAmount'' currency (incomplete ev)
      else readMajorAmount doc ''$.eventData.amountPaid'' currency ev)"

definition monnifyParse :: "AdapterLib \<Rightarrow> string \<Rightarrow> parse_error + CanonicalEvent" where
  "monnifyParse L rawBody =
     (case al_decode L rawBody of
        Inl err \<Rightarrow> Inl (ParseUnparseable err)
      | Inr doc \<Rightarrow>
          let eventName = strOr doc ''$.eventType'';
              (family, ev) = orPayment (monnifyFamily eventName) (newEvent ''monnify'')
          in case firstPresent doc [''$.eventData.paymentReference'', ''$.eventData.transactionReference''] of
               None \<Rightarrow> Inl (ParseNoTransaction ''no paymentReference or transactionReference'')
             | Some ref \<Rightarrow>
                 let ev = readEventID doc ''$.eventData.transactionReference'' (ev\<lparr>ev_TransactionRef := ref\<rparr>);
                     ev = readStatus monnifyStatus foldKey doc ''$.eventData.paymentStatus'' ev;
                     ev = ev\<lparr>ev_EventType := EventTypeFor family (ev_Status ev)\<rparr>;
                     currency = (case present doc ''$.eventData.currency'' of
                                   Some c \<Rightarrow> NormaliseCurrency c | None \<Rightarrow> ''NGN'');
                     ev = ev\<lparr>ev_Currency := currency\<rparr>;
                     ev = monnifyAmount doc currency ev;
                     ev = readTime L doc ''$.eventData.paidOn'' (lagos L) ev;
                     ev = readCustomer doc [''$.eventData.customer.email''] ev;
                     notes = monnifyNotes doc;
                     more = named ''monnify_event'' eventName (unclaimed monnifyClaimed doc)
                 in Inr (ev\<lparr>ev_ProviderExtra := Some (notes @ filter (\<lambda>(k, v). map_of notes k = None) more)\<rparr>))"

definition monnify :: "AdapterLib \<Rightarrow> Adapter" where
  "monnify L = \<lparr>ad_Name = ''monnify'', ad_Verify = (\<lambda>now. monnifyVerify L), ad_Parse = monnifyParse L,
     ad_DedupeKey = dedupeAt L ''$.eventData.transactionReference'', ad_AllowedSources = None\<rparr>"

section \<open>Interswitch\<close>

definition interswitchSigned :: "(string \<times> string) list" where
  "interswitchSigned =
     [(''$.transaction.transactionRef'', ''transactionRef''), (''$.transaction.amount'', ''amount''),
      (''$.transaction.responseCode'', ''responseCode'')]"

definition interswitchVerify :: "AdapterLib \<Rightarrow> headers \<Rightarrow> string \<Rightarrow> string \<Rightarrow> verify_error option" where
  "interswitchVerify L h rawBody secret =
     (let presented = FirstHeader h [''x-interswitch-signature'', ''interswitch-signature'']
      in if presented = [] then Some VerNoSignature
         else case al_decode L rawBody of
                Inl _ \<Rightarrow> Some notJSON
              | Inr doc \<Rightarrow>
                  (case signedFields doc interswitchSigned of
                     Inl err \<Rightarrow> Some err
                   | Inr payload \<Rightarrow> VerifyHMAC L SHA256 Base64 secret payload presented))"

definition interswitchCodes :: "(string \<times> Status) list" where
  "interswitchCodes =
     [(''00'', StatusSuccess), (''09'', StatusPending), (''10'', StatusPending), (''01'', StatusPending),
      (''05'', StatusFailed), (''06'', StatusFailed), (''12'', StatusFailed), (''13'', StatusFailed),
      (''14'', StatusFailed), (''51'', StatusFailed), (''54'', StatusFailed), (''55'', StatusFailed),
      (''57'', StatusFailed), (''61'', StatusFailed), (''91'', StatusPending), (''96'', StatusPending),
      (''Z1'', StatusFailed), (''Z6'', StatusFailed), (''20'', StatusReversed)]"

definition numericCurrencies :: "(string \<times> string) list" where
  "numericCurrencies =
     [(''566'', ''NGN''), (''840'', ''USD''), (''978'', ''EUR''), (''826'', ''GBP''), (''936'', ''GHS''), (''404'', ''KES''),
      (''710'', ''ZAR''), (''800'', ''UGX''), (''834'', ''TZS''), (''952'', ''XOF''), (''950'', ''XAF''), (''818'', ''EGP'')]"

definition numericToAlpha :: "string \<Rightarrow> string" where
  "numericToAlpha code =
     (let c = TrimSpace code
      in if length c = 3 \<and> 65 \<le> ord (hd c) \<and> ord (hd c) \<le> 90 then NormaliseCurrency c
         else case map_of numericCurrencies c of
                Some alpha \<Rightarrow> alpha
              | None \<Rightarrow> if ValidCurrency c then NormaliseCurrency c else [])"

definition interswitchClaimed :: "string list" where
  "interswitchClaimed =
     [''transaction.transactionRef'', ''transaction.paymentReference'', ''transaction.amount'',
      ''transaction.responseCode'', ''transaction.currencyCode'', ''transaction.transactionDate'', ''customer.email'',
      ''customer.customerId'']"

definition interswitchExtras :: "json \<Rightarrow> flat" where
  "interswitchExtras doc =
     lifted doc ''$.transaction.paymentChannel'' ''payment_channel''
       (lifted doc ''$.transaction.retrievalReferenceNumber'' ''retrieval_reference_number''
         (lifted doc ''$.transaction.responseDescription'' ''response_description'' (unclaimed interswitchClaimed doc)))"

definition interswitchCurrency :: "json \<Rightarrow> CanonicalEvent \<Rightarrow> CanonicalEvent" where
  "interswitchCurrency doc ev =
     (case present doc ''$.transaction.currencyCode'' of
        None \<Rightarrow> ev\<lparr>ev_Currency := ''NGN''\<rparr>
      | Some c \<Rightarrow>
          let currency = numericToAlpha c
          in if currency = [] then incomplete (ev\<lparr>ev_Currency := ''NGN''\<rparr>) else ev\<lparr>ev_Currency := currency\<rparr>)"

definition interswitchParse :: "AdapterLib \<Rightarrow> string \<Rightarrow> parse_error + CanonicalEvent" where
  "interswitchParse L rawBody =
     (case al_decode L rawBody of
        Inl err \<Rightarrow> Inl (ParseUnparseable err)
      | Inr doc \<Rightarrow>
          (case firstPresent doc [''$.transaction.paymentReference'', ''$.transaction.transactionRef''] of
             None \<Rightarrow> Inl (ParseNoTransaction ''no paymentReference or transactionRef'')
           | Some ref \<Rightarrow>
               let ev = (newEvent ''interswitch'')\<lparr>ev_TransactionRef := ref\<rparr>;
                   ev = readEventID doc ''$.transaction.transactionRef'' ev;
                   ev = readStatus interswitchCodes (\<lambda>code. padCode (ToUpper (TrimSpace code))) doc
                          ''$.transaction.responseCode'' ev;
                   ev = ev\<lparr>ev_EventType := EventTypeFor ''payment'' (ev_Status ev)\<rparr>;
                   ev = interswitchCurrency doc ev;
                   ev = (case present doc ''$.transaction.amount'' of
                           Some s \<Rightarrow> setMinor (ParseMinor s) ev
                         | None \<Rightarrow> incomplete ev);
                   ev = readTime L doc ''$.transaction.transactionDate'' (lagos L) ev;
                   ev = readCustomer doc [''$.customer.email'', ''$.customer.customerId''] ev
               in Inr (ev\<lparr>ev_ProviderExtra := Some (interswitchExtras doc)\<rparr>)))"

definition interswitch :: "AdapterLib \<Rightarrow> Adapter" where
  "interswitch L = \<lparr>ad_Name = ''interswitch'', ad_Verify = (\<lambda>now. interswitchVerify L),
     ad_Parse = interswitchParse L, ad_DedupeKey = dedupeAt L ''$.transaction.transactionRef'',
     ad_AllowedSources = None\<rparr>"

section \<open>Stripe\<close>

text \<open>The loop over the elements of the header: the timestamp read so far and the signatures.\<close>

fun stripeElements ::
    "AdapterLib \<Rightarrow> string list \<Rightarrow> instant \<Rightarrow> string list \<Rightarrow> verify_error + instant \<times> string list" where
  "stripeElements L [] ts sigs = Inr (ts, sigs)"
| "stripeElements L (part # parts) ts sigs =
     (let (k, v, ok) = Cut (TrimSpace part) CHR ''=''
      in if \<not> ok then stripeElements L parts ts sigs
         else if k = ''t'' then
           (case ParseInt v of
              None \<Rightarrow> Inl (VerMalformedHeader (''timestamp '' @ al_quote L v @ '' is not an integer''))
            | Some n \<Rightarrow> stripeElements L parts (fromUnix n) sigs)
         else if k = ''v1'' then stripeElements L parts ts (if v \<noteq> [] then sigs @ [v] else sigs)
         else stripeElements L parts ts sigs)"

definition stripeHeader :: "AdapterLib \<Rightarrow> string \<Rightarrow> verify_error + instant \<times> string list" where
  "stripeHeader L h =
     (case stripeElements L (Split h CHR '','') zero_time [] of
        Inl err \<Rightarrow> Inl err
      | Inr (ts, sigs) \<Rightarrow>
          if is_zero_time ts then Inl (VerMalformedHeader ''header carries no timestamp'') else Inr (ts, sigs))"

definition stripeVerify :: "AdapterLib \<Rightarrow> instant \<Rightarrow> headers \<Rightarrow> string \<Rightarrow> string \<Rightarrow> verify_error option" where
  "stripeVerify L now h rawBody secret =
     (let presented = FirstHeader h [''stripe-signature'']
      in if presented = [] then Some VerNoSignature
         else case stripeHeader L presented of
                Inl err \<Rightarrow> Some err
              | Inr (ts, sigs) \<Rightarrow>
                  if sigs = [] then Some (VerMalformedHeader ''header carries a timestamp but no v1 signature'')
                  else case CheckTimestamp L ts now DefaultTimestampTolerance of
                         Some err \<Rightarrow> Some err
                       | None \<Rightarrow>
                           let expected = ProviderSign L SHA256 Hex secret (signedBytes (Unix ts) rawBody)
                           in if list_ex (\<lambda>s. Equal L s expected Hex) sigs then None
                              else Some (VerBadSignature []))"

definition stripeStatus :: "(string \<times> Status) list" where
  "stripeStatus =
     [(''succeeded'', StatusSuccess), (''paid'', StatusSuccess), (''requires_payment_method'', StatusPending),
      (''requires_confirmation'', StatusPending), (''requires_action'', StatusPending),
      (''processing'', StatusPending), (''requires_capture'', StatusPending), (''pending'', StatusPending),
      (''failed'', StatusFailed), (''canceled'', StatusAbandoned), (''cancelled'', StatusAbandoned),
      (''refunded'', StatusReversed), (''reversed'', StatusReversed)]"

definition stripeFamily :: "string \<Rightarrow> string" where
  "stripeFamily event =
     (let e = ToLower event
      in if starts_with ''charge.dispute'' e \<or> starts_with ''issuing_dispute'' e then ''chargeback''
         else if starts_with ''charge.refund'' e \<or> starts_with ''refund.'' e then ''refund''
         else if starts_with ''payout.'' e \<or> starts_with ''transfer.'' e then ''transfer''
         else if starts_with ''payment_intent.'' e \<or> starts_with ''charge.'' e \<or> starts_with ''checkout.session.'' e
                 \<or> starts_with ''invoice.'' e then ''payment''
         else [])"

definition statusFromEventName :: "string \<Rightarrow> Status" where
  "statusFromEventName event =
     (let e = ToLower event
      in if HasSuffix e ''.succeeded'' \<or> HasSuffix e ''.paid'' \<or> HasSuffix e ''.closed'' then StatusSuccess
         else if HasSuffix e ''.failed'' \<or> HasSuffix e ''.payment_failed'' then StatusFailed
         else if HasSuffix e ''.created'' \<or> HasSuffix e ''.pending'' \<or> HasSuffix e ''.updated'' then StatusPending
         else if HasSuffix e ''.canceled'' \<or> HasSuffix e ''.cancelled'' \<or> HasSuffix e ''.expired'' then StatusAbandoned
         else if HasSuffix e ''.refunded'' \<or> HasSuffix e ''.reversed'' then StatusReversed
         else StatusUnknown)"

definition hasNumber :: "json \<Rightarrow> string \<Rightarrow> bool" where
  "hasNumber doc expr \<longleftrightarrow> (case valueAt doc expr of Some v \<Rightarrow> IntValue v \<noteq> None | None \<Rightarrow> False)"

definition stripeRef :: "json \<Rightarrow> string \<Rightarrow> string option" where
  "stripeRef doc family =
     (case present doc ''$.data.object.metadata.transaction_ref'' of
        Some r \<Rightarrow> Some r
      | None \<Rightarrow>
          (case (if family = ''refund'' then present doc ''$.data.object.payment_intent'' else None) of
             Some r \<Rightarrow> Some r
           | None \<Rightarrow> present doc ''$.data.object.id''))"

definition stripeReadStatus :: "json \<Rightarrow> string \<Rightarrow> CanonicalEvent \<Rightarrow> CanonicalEvent" where
  "stripeReadStatus doc eventName ev =
     (case strAt doc ''$.data.object.status'' of
        Inl _ \<Rightarrow>
          let ev = ev\<lparr>ev_Status := statusFromEventName eventName\<rparr>
          in if ev_Status ev = StatusUnknown then incomplete ev else ev
      | Inr _ \<Rightarrow> readStatus stripeStatus foldKey doc ''$.data.object.status'' ev)"

definition stripeTime :: "AdapterLib \<Rightarrow> json \<Rightarrow> CanonicalEvent \<Rightarrow> CanonicalEvent" where
  "stripeTime L doc ev =
     (case valueAt doc (if hasNumber doc ''$.data.object.created'' then ''$.data.object.created'' else ''$.created'') of
        None \<Rightarrow> ev
      | Some v \<Rightarrow>
          (case StringValue v of
             None \<Rightarrow> ev
           | Some s \<Rightarrow> (case ParseTime L s None of Inr t \<Rightarrow> ev\<lparr>ev_OccurredAt := t\<rparr> | Inl _ \<Rightarrow> incomplete ev)))"

definition stripeClaimed :: "string list" where
  "stripeClaimed =
     [''id'', ''type'', ''created'', ''data.object.id'', ''data.object.status'', ''data.object.amount'',
      ''data.object.amount_received'', ''data.object.currency'', ''data.object.created'',
      ''data.object.receipt_email'', ''data.object.metadata.transaction_ref'']"

definition stripeParse :: "AdapterLib \<Rightarrow> string \<Rightarrow> parse_error + CanonicalEvent" where
  "stripeParse L rawBody =
     (case al_decode L rawBody of
        Inl err \<Rightarrow> Inl (ParseUnparseable err)
      | Inr doc \<Rightarrow>
          let ev = (newEvent ''stripe'')\<lparr>ev_ProviderEventID := strOr doc ''$.id''\<rparr>;
              eventName = strOr doc ''$.type'';
              (family, ev) = orPayment (stripeFamily eventName) ev
          in case stripeRef doc family of
               None \<Rightarrow> Inl (ParseNoTransaction ''no data.object.id'')
             | Some ref \<Rightarrow>
                 let ev = stripeReadStatus doc eventName (ev\<lparr>ev_TransactionRef := ref\<rparr>);
                     ev = ev\<lparr>ev_EventType := EventTypeFor family (ev_Status ev)\<rparr>;
                     ev = (case present doc ''$.data.object.currency'' of
                             Some c \<Rightarrow> ev\<lparr>ev_Currency := NormaliseCurrency c\<rparr> | None \<Rightarrow> ev);
                     ev = readIntAmount doc (if hasNumber doc ''$.data.object.amount_received''
                                             then ''$.data.object.amount_received'' else ''$.data.object.amount'') ev;
                     ev = stripeTime L doc ev;
                     ev = readCustomer doc [''$.data.object.receipt_email'', ''$.data.object.customer''] ev
                 in Inr (ev\<lparr>ev_ProviderExtra :=
                           Some (named ''stripe_event'' eventName (unclaimed stripeClaimed doc))\<rparr>))"

definition stripe :: "AdapterLib \<Rightarrow> Adapter" where
  "stripe L = \<lparr>ad_Name = ''stripe'', ad_Verify = stripeVerify L, ad_Parse = stripeParse L,
     ad_DedupeKey = dedupeAt L ''$.id'', ad_AllowedSources = None\<rparr>"

section \<open>The built-in registry\<close>

definition builtins :: "AdapterLib \<Rightarrow> Adapter list" where
  "builtins L = [paystack L, flutterwave L, nibss L, monnify L, interswitch L, stripe L]"

definition NewRegistry :: "AdapterLib \<Rightarrow> Registry" where
  "NewRegistry L = \<lparr>reg_builtin = map (\<lambda>a. (ad_Name a, a)) (builtins L), reg_declared = []\<rparr>"

end
