(* ===== verification/Adapter_Spec.thy ===== *)
theory Adapter_Spec
  imports Provider_Adapters
begin

text \<open>
  What the built-in adapters promise the normaliser: a parsed event is well formed, no status is guessed,
  and what an accepted signature covers.
\<close>

named_theorems reader \<open>which fields the payload readers leave alone\<close>

lemmas reader_defs = readStatus_def readEventID_def setMinor_def readIntAmount_def readMajorAmount_def readTime_def
  readCustomer_def incomplete_def paystackCurrency_def paystackTime_def interswitchCurrency_def stripeReadStatus_def
  stripeTime_def monnifyAmount_def Let_def

lemma reader_ref [reader]:
  "ev_TransactionRef (incomplete ev) = ev_TransactionRef ev"
  "ev_TransactionRef (readStatus tbl key doc x ev) = ev_TransactionRef ev"
  "ev_TransactionRef (readEventID doc x ev) = ev_TransactionRef ev"
  "ev_TransactionRef (setMinor r ev) = ev_TransactionRef ev"
  "ev_TransactionRef (monnifyAmount doc c ev) = ev_TransactionRef ev"
  "ev_TransactionRef (readIntAmount doc x ev) = ev_TransactionRef ev"
  "ev_TransactionRef (readMajorAmount doc x c ev) = ev_TransactionRef ev"
  "ev_TransactionRef (readTime L doc x z ev) = ev_TransactionRef ev"
  "ev_TransactionRef (readCustomer doc xs ev) = ev_TransactionRef ev"
  "ev_TransactionRef (paystackCurrency doc ev) = ev_TransactionRef ev"
  "ev_TransactionRef (paystackTime L doc ev) = ev_TransactionRef ev"
  "ev_TransactionRef (interswitchCurrency doc ev) = ev_TransactionRef ev"
  "ev_TransactionRef (stripeReadStatus doc n ev) = ev_TransactionRef ev"
  "ev_TransactionRef (stripeTime L doc ev) = ev_TransactionRef ev"
  by (simp_all add: reader_defs split: sum.split option.split)

lemma reader_status [reader]:
  "ev_Status (incomplete ev) = ev_Status ev"
  "ev_Status (readEventID doc x ev) = ev_Status ev"
  "ev_Status (setMinor r ev) = ev_Status ev"
  "ev_Status (monnifyAmount doc c ev) = ev_Status ev"
  "ev_Status (readIntAmount doc x ev) = ev_Status ev"
  "ev_Status (readMajorAmount doc x c ev) = ev_Status ev"
  "ev_Status (readTime L doc x z ev) = ev_Status ev"
  "ev_Status (readCustomer doc xs ev) = ev_Status ev"
  "ev_Status (paystackCurrency doc ev) = ev_Status ev"
  "ev_Status (paystackTime L doc ev) = ev_Status ev"
  "ev_Status (interswitchCurrency doc ev) = ev_Status ev"
  "ev_Status (stripeTime L doc ev) = ev_Status ev"
  by (simp_all add: reader_defs split: sum.split option.split)

lemma reader_type [reader]:
  "ev_EventType (incomplete ev) = ev_EventType ev"
  "ev_EventType (setMinor r ev) = ev_EventType ev"
  "ev_EventType (monnifyAmount doc c ev) = ev_EventType ev"
  "ev_EventType (readIntAmount doc x ev) = ev_EventType ev"
  "ev_EventType (readMajorAmount doc x c ev) = ev_EventType ev"
  "ev_EventType (readTime L doc x z ev) = ev_EventType ev"
  "ev_EventType (readCustomer doc xs ev) = ev_EventType ev"
  "ev_EventType (paystackCurrency doc ev) = ev_EventType ev"
  "ev_EventType (paystackTime L doc ev) = ev_EventType ev"
  "ev_EventType (interswitchCurrency doc ev) = ev_EventType ev"
  "ev_EventType (stripeTime L doc ev) = ev_EventType ev"
  by (simp_all add: reader_defs split: sum.split option.split)

lemma reader_unmapped [reader]:
  "ev_UnmappedStatus (incomplete ev) = ev_UnmappedStatus ev"
  "ev_UnmappedStatus (readEventID doc x ev) = ev_UnmappedStatus ev"
  "ev_UnmappedStatus (setMinor r ev) = ev_UnmappedStatus ev"
  "ev_UnmappedStatus (monnifyAmount doc c ev) = ev_UnmappedStatus ev"
  "ev_UnmappedStatus (readIntAmount doc x ev) = ev_UnmappedStatus ev"
  "ev_UnmappedStatus (readMajorAmount doc x c ev) = ev_UnmappedStatus ev"
  "ev_UnmappedStatus (readTime L doc x z ev) = ev_UnmappedStatus ev"
  "ev_UnmappedStatus (readCustomer doc xs ev) = ev_UnmappedStatus ev"
  "ev_UnmappedStatus (paystackCurrency doc ev) = ev_UnmappedStatus ev"
  "ev_UnmappedStatus (paystackTime L doc ev) = ev_UnmappedStatus ev"
  "ev_UnmappedStatus (interswitchCurrency doc ev) = ev_UnmappedStatus ev"
  "ev_UnmappedStatus (stripeTime L doc ev) = ev_UnmappedStatus ev"
  by (simp_all add: reader_defs split: sum.split option.split)

lemma reader_event_id [reader]:
  "ev_ProviderEventID (incomplete ev) = ev_ProviderEventID ev"
  "ev_ProviderEventID (readStatus tbl key doc x ev) = ev_ProviderEventID ev"
  "ev_ProviderEventID (setMinor r ev) = ev_ProviderEventID ev"
  "ev_ProviderEventID (monnifyAmount doc c ev) = ev_ProviderEventID ev"
  "ev_ProviderEventID (readIntAmount doc x ev) = ev_ProviderEventID ev"
  "ev_ProviderEventID (readMajorAmount doc x c ev) = ev_ProviderEventID ev"
  "ev_ProviderEventID (readTime L doc x z ev) = ev_ProviderEventID ev"
  "ev_ProviderEventID (readCustomer doc xs ev) = ev_ProviderEventID ev"
  "ev_ProviderEventID (paystackCurrency doc ev) = ev_ProviderEventID ev"
  "ev_ProviderEventID (paystackTime L doc ev) = ev_ProviderEventID ev"
  "ev_ProviderEventID (interswitchCurrency doc ev) = ev_ProviderEventID ev"
  "ev_ProviderEventID (stripeReadStatus doc n ev) = ev_ProviderEventID ev"
  "ev_ProviderEventID (stripeTime L doc ev) = ev_ProviderEventID ev"
  by (simp_all add: reader_defs split: sum.split option.split)

lemma reader_occurred [reader]:
  "ev_OccurredAt (incomplete ev) = ev_OccurredAt ev"
  "ev_OccurredAt (readStatus tbl key doc x ev) = ev_OccurredAt ev"
  "ev_OccurredAt (readEventID doc x ev) = ev_OccurredAt ev"
  "ev_OccurredAt (setMinor r ev) = ev_OccurredAt ev"
  "ev_OccurredAt (monnifyAmount doc c ev) = ev_OccurredAt ev"
  "ev_OccurredAt (readIntAmount doc x ev) = ev_OccurredAt ev"
  "ev_OccurredAt (readMajorAmount doc x c ev) = ev_OccurredAt ev"
  "ev_OccurredAt (readCustomer doc xs ev) = ev_OccurredAt ev"
  "ev_OccurredAt (paystackCurrency doc ev) = ev_OccurredAt ev"
  "ev_OccurredAt (interswitchCurrency doc ev) = ev_OccurredAt ev"
  "ev_OccurredAt (stripeReadStatus doc n ev) = ev_OccurredAt ev"
  by (simp_all add: reader_defs split: sum.split option.split)

lemma reader_if [reader]:
  "ev_TransactionRef (if b then incomplete ev else ev) = ev_TransactionRef ev"
  "ev_UnmappedStatus (if b then incomplete ev else ev) = ev_UnmappedStatus ev"
  "ev_OccurredAt (if b then incomplete ev else ev) = ev_OccurredAt ev"
  by (simp_all add: incomplete_def)

lemma newEvent_fields [reader]:
  "ev_UnmappedStatus (newEvent p) = []" "gt_zone (ev_OccurredAt (newEvent p)) = UTC" "ev_ProviderEventID (newEvent p) = []"
  by (simp_all add: newEvent_def zeroEvent_def zeroTime_def)

lemma readTime_utc: "gt_zone (ev_OccurredAt ev) = UTC \<Longrightarrow> gt_zone (ev_OccurredAt (readTime L doc x z ev)) = UTC"
  by (auto simp: readTime_def reader dest: ParseTime_utc split: option.split sum.split)

lemma paystackTime_utc: "gt_zone (ev_OccurredAt ev) = UTC \<Longrightarrow> gt_zone (ev_OccurredAt (paystackTime L doc ev)) = UTC"
  by (simp add: paystackTime_def Let_def readTime_utc)

lemma stripeTime_utc: "gt_zone (ev_OccurredAt ev) = UTC \<Longrightarrow> gt_zone (ev_OccurredAt (stripeTime L doc ev)) = UTC"
  by (auto simp: stripeTime_def reader dest: ParseTime_utc split: option.split sum.split)

lemma orPayment_fields [reader]:
  "ev_UnmappedStatus (snd (orPayment f ev)) = ev_UnmappedStatus ev"
  "ev_OccurredAt (snd (orPayment f ev)) = ev_OccurredAt ev"
  "ev_ProviderEventID (snd (orPayment f ev)) = ev_ProviderEventID ev"
  by (simp_all add: orPayment_def reader)

lemma present_nonempty: "present doc x = Some s \<Longrightarrow> s \<noteq> []"
  by (auto simp: present_def split: sum.splits if_splits)

lemma firstPresent_nonempty: "firstPresent doc xs = Some s \<Longrightarrow> s \<noteq> []"
  by (induction xs) (auto dest: present_nonempty split: option.splits)

section \<open>The paths of the adapters\<close>

definition builtinPaths :: "string list" where
  "builtinPaths =
     [''$.amount'', ''$.channelCode'', ''$.created'', ''$.currency'', ''$.customer.customerId'',
      ''$.customer.email'', ''$.data.amount'', ''$.data.created_at'', ''$.data.currency'',
      ''$.data.customer.customer_code'', ''$.data.customer.email'', ''$.data.flw_ref'', ''$.data.id'',
      ''$.data.object.amount'', ''$.data.object.amount_received'', ''$.data.object.created'',
      ''$.data.object.currency'', ''$.data.object.customer'', ''$.data.object.id'',
      ''$.data.object.metadata.transaction_ref'', ''$.data.object.payment_intent'',
      ''$.data.object.receipt_email'', ''$.data.object.status'', ''$.data.paid_at'', ''$.data.reference'',
      ''$.data.status'', ''$.data.transaction.reference'', ''$.data.transfer_code'', ''$.data.tx_ref'',
      ''$.event'', ''$.event.type'', ''$.eventData.amountPaid'', ''$.eventData.currency'',
      ''$.eventData.customer.email'', ''$.eventData.paidOn'', ''$.eventData.paymentReference'',
      ''$.eventData.paymentStatus'', ''$.eventData.settlementAmount'', ''$.eventData.transactionReference'',
      ''$.eventType'', ''$.id'', ''$.narration'', ''$.originatorAccountName'', ''$.paymentReference'',
      ''$.responseCode'', ''$.sessionId'', ''$.transaction.amount'', ''$.transaction.currencyCode'',
      ''$.transaction.paymentChannel'', ''$.transaction.paymentReference'', ''$.transaction.responseCode'',
      ''$.transaction.responseDescription'', ''$.transaction.retrievalReferenceNumber'',
      ''$.transaction.transactionDate'', ''$.transaction.transactionRef'', ''$.transactionDateTime'',
      ''$.type'']"

lemma builtin_paths_compile: "list_all (\<lambda>e. case Compile e of Inr p \<Rightarrow> path_raw p = e | Inl _ \<Rightarrow> False) builtinPaths"
  by code_simp

lemma MustCompile_builtin: "e \<in> set builtinPaths \<Longrightarrow> Compile e = Inr (MustCompile e)"
  using builtin_paths_compile by (auto simp: list_all_iff MustCompile_def split: sum.splits)

section \<open>Statuses\<close>

text \<open>Where a status came from: the table, or nothing was known.\<close>

definition mapped :: "(string \<times> Status) list \<Rightarrow> (string \<Rightarrow> string) \<Rightarrow> json \<Rightarrow> string \<Rightarrow> CanonicalEvent \<Rightarrow> bool" where
  "mapped tbl key doc x ev \<longleftrightarrow>
     (case strAt doc x of
        Inl _ \<Rightarrow> ev_Status ev = StatusUnknown \<and> ev_UnmappedStatus ev = []
      | Inr raw \<Rightarrow>
          (case map_of tbl (key raw) of
             Some s \<Rightarrow> ev_Status ev = s \<and> ev_UnmappedStatus ev = []
           | None \<Rightarrow> ev_Status ev = StatusUnknown \<and> ev_UnmappedStatus ev = raw))"

lemma readStatus_mapped: "ev_UnmappedStatus ev = [] \<Longrightarrow> mapped tbl key doc x (readStatus tbl key doc x ev)"
  by (auto simp: mapped_def readStatus_def split: sum.split option.split)

lemma mapped_cong:
  "ev_Status ev = ev_Status ev' \<Longrightarrow> ev_UnmappedStatus ev = ev_UnmappedStatus ev' \<Longrightarrow>
   mapped tbl key doc x ev = mapped tbl key doc x ev'"
  by (simp add: mapped_def split: sum.split option.split)

definition validTable :: "(string \<times> Status) list \<Rightarrow> bool" where
  "validTable tbl \<longleftrightarrow> list_all (\<lambda>(k, s). Status_Valid s) tbl"

lemma validTables:
  "validTable paystackStatus" "validTable flutterwaveStatus" "validTable nibssCodes" "validTable monnifyStatus"
  "validTable interswitchCodes" "validTable stripeStatus"
  by code_simp+

lemma StatusUnknown_valid: "Status_Valid StatusUnknown"
  by code_simp

lemma mapped_valid:
  assumes "validTable tbl" and "mapped tbl key doc x ev"
  shows "Status_Valid (ev_Status ev)"
proof -
  have "map_of tbl k = Some s \<Longrightarrow> Status_Valid s" for k s
    using assms(1) by (auto simp: validTable_def list_all_iff dest!: map_of_SomeD)
  then show ?thesis
    using assms(2) StatusUnknown_valid by (auto simp: mapped_def split: sum.splits option.splits)
qed

section \<open>Parsed events are well formed\<close>

definition parse_wf :: "CanonicalEvent \<Rightarrow> bool" where
  "parse_wf ev \<longleftrightarrow> ev_TransactionRef ev \<noteq> [] \<and> Status_Valid (ev_Status ev) \<and> EventType_Valid (ev_EventType ev)
     \<and> gt_zone (ev_OccurredAt ev) = UTC \<and> ev_ProviderExtra ev \<noteq> None"

lemma mapped_frame [reader]:
  "mapped tbl key doc x (incomplete ev) = mapped tbl key doc x ev"
  "mapped tbl key doc x (readEventID d e ev) = mapped tbl key doc x ev"
  "mapped tbl key doc x (setMinor r ev) = mapped tbl key doc x ev"
  "mapped tbl key doc x (monnifyAmount d c ev) = mapped tbl key doc x ev"
  "mapped tbl key doc x (readIntAmount d e ev) = mapped tbl key doc x ev"
  "mapped tbl key doc x (readMajorAmount d e c ev) = mapped tbl key doc x ev"
  "mapped tbl key doc x (readTime L d e z ev) = mapped tbl key doc x ev"
  "mapped tbl key doc x (readCustomer d es ev) = mapped tbl key doc x ev"
  "mapped tbl key doc x (paystackCurrency d ev) = mapped tbl key doc x ev"
  "mapped tbl key doc x (paystackTime L d ev) = mapped tbl key doc x ev"
  "mapped tbl key doc x (interswitchCurrency d ev) = mapped tbl key doc x ev"
  "mapped tbl key doc x (stripeTime L d ev) = mapped tbl key doc x ev"
  "mapped tbl key doc x (ev\<lparr>ev_EventType := et\<rparr>) = mapped tbl key doc x ev"
  "mapped tbl key doc x (ev\<lparr>ev_Currency := c\<rparr>) = mapped tbl key doc x ev"
  "mapped tbl key doc x (ev\<lparr>ev_ProviderExtra := m\<rparr>) = mapped tbl key doc x ev"
  by (rule mapped_cong; simp add: reader)+

lemma readStatus_valid: "validTable tbl \<Longrightarrow> Status_Valid (ev_Status (readStatus tbl key doc x ev))"
  using mapped_valid [OF _ readStatus_mapped, of tbl "ev\<lparr>ev_UnmappedStatus := []\<rparr>" key doc x]
  by (simp add: readStatus_def split: sum.splits option.splits)

lemmas EventTypeFor_valid = EventTypeFor_sound [THEN conjunct1]

lemmas parse_simps = Let_def case_prod_beta reader parse_wf_def EventTypeFor_valid readStatus_valid validTables
  readStatus_mapped readTime_utc paystackTime_utc stripeTime_utc

lemma paystackParse_spec:
  assumes "paystackParse L body = Inr ev"
  shows "\<exists>doc. al_decode L body = Inr doc \<and> mapped paystackStatus foldKey doc ''$.data.status'' ev
       \<and> parse_wf ev \<and> ev_ProviderEventID ev = []"
  using assms
  by (auto simp: paystackParse_def parse_simps dest: firstPresent_nonempty
      simp del: firstPresent.simps split: sum.splits option.splits)

lemma flutterwaveRef_nonempty: "flutterwaveRef doc = Some (r, b) \<Longrightarrow> r \<noteq> []"
  by (auto simp: flutterwaveRef_def simp del: firstPresent.simps
      dest: firstPresent_nonempty present_nonempty split: option.splits)

lemma flutterwaveParse_spec:
  assumes "flutterwaveParse L body = Inr ev"
  shows "\<exists>doc. al_decode L body = Inr doc \<and> mapped flutterwaveStatus foldKey doc ''$.data.status'' ev \<and> parse_wf ev"
  using assms
  by (auto simp: flutterwaveParse_def parse_simps dest: flutterwaveRef_nonempty
      simp del: firstPresent.simps split: sum.splits option.splits)

lemma nibssRef_nonempty: "nibssRef doc = Some (r, b) \<Longrightarrow> r \<noteq> []"
  by (auto simp: nibssRef_def dest: present_nonempty split: option.splits)

lemma nibssParse_spec:
  assumes "nibssParse L body = Inr ev"
  shows "\<exists>doc. al_decode L body = Inr doc
       \<and> mapped nibssCodes (\<lambda>code. padCode (TrimSpace code)) doc ''$.responseCode'' ev \<and> parse_wf ev"
  using assms
  by (auto simp: nibssParse_def parse_simps dest: nibssRef_nonempty split: sum.splits option.splits)

lemma monnifyParse_spec:
  assumes "monnifyParse L body = Inr ev"
  shows "\<exists>doc. al_decode L body = Inr doc
       \<and> mapped monnifyStatus foldKey doc ''$.eventData.paymentStatus'' ev \<and> parse_wf ev"
  using assms
  by (auto simp: monnifyParse_def parse_simps dest: firstPresent_nonempty
      simp del: firstPresent.simps split: sum.splits option.splits)

lemma interswitchParse_spec:
  assumes "interswitchParse L body = Inr ev"
  shows "\<exists>doc. al_decode L body = Inr doc
       \<and> mapped interswitchCodes (\<lambda>code. padCode (ToUpper (TrimSpace code))) doc ''$.transaction.responseCode'' ev
       \<and> parse_wf ev"
  using assms
  by (auto simp: interswitchParse_def parse_simps dest: firstPresent_nonempty
      simp del: firstPresent.simps split: sum.splits option.splits)

lemma statusFromEventName_valid: "Status_Valid (statusFromEventName n)"
  by (simp add: statusFromEventName_def Let_def Status_Valid_def allStatuses_def)

lemma stripeReadStatus_valid: "Status_Valid (ev_Status (stripeReadStatus doc n ev))"
  by (simp add: stripeReadStatus_def Let_def reader StatusUnknown_valid statusFromEventName_valid readStatus_valid validTables split: sum.split)

lemma stripeRef_nonempty: "stripeRef doc f = Some r \<Longrightarrow> r \<noteq> []"
  by (auto simp: stripeRef_def dest: present_nonempty split: option.splits if_splits)

lemma stripeParse_spec:
  assumes "stripeParse L body = Inr ev"
  shows "\<exists>doc. al_decode L body = Inr doc \<and> ev_ProviderEventID ev = strOr doc ''$.id'' \<and> parse_wf ev"
  using assms
  by (auto simp: stripeParse_def parse_simps stripeReadStatus_valid dest: stripeRef_nonempty split: sum.splits option.splits)

lemma builtin_parse_wf:
  assumes "a \<in> set (builtins L)" and "ad_Parse a body = Inr ev"
  shows "parse_wf ev"
proof -
  have "a = paystack L \<or> a = flutterwave L \<or> a = nibss L \<or> a = monnify L \<or> a = interswitch L \<or> a = stripe L"
    using assms(1) by (simp add: builtins_def)
  then show ?thesis
  proof (elim disjE)
    assume "a = paystack L"
    then show ?thesis using paystackParse_spec [of L body ev] assms(2) by (auto simp: paystack_def)
  next
    assume "a = flutterwave L"
    then show ?thesis using flutterwaveParse_spec [of L body ev] assms(2) by (auto simp: flutterwave_def)
  next
    assume "a = nibss L"
    then show ?thesis using nibssParse_spec [of L body ev] assms(2) by (auto simp: nibss_def)
  next
    assume "a = monnify L"
    then show ?thesis using monnifyParse_spec [of L body ev] assms(2) by (auto simp: monnify_def)
  next
    assume "a = interswitch L"
    then show ?thesis using interswitchParse_spec [of L body ev] assms(2) by (auto simp: interswitch_def)
  next
    assume "a = stripe L"
    then show ?thesis using stripeParse_spec [of L body ev] assms(2) by (auto simp: stripe_def)
  qed
qed

lemma builtin_extras: "a \<in> set (builtins L) \<Longrightarrow> ad_Parse a body = Inr ev \<Longrightarrow> ev_ProviderExtra ev \<noteq> None"
  using builtin_parse_wf by (simp add: parse_wf_def)

text \<open>A library whose decoder knows a given set of documents, for running the adapters on samples.\<close>

definition docLib :: "(string \<times> json) list \<Rightarrow> AdapterLib" where
  "docLib docs = \<lparr>al_decode = (\<lambda>b. case map_of docs b of Some d \<Rightarrow> Inr d | None \<Rightarrow> Inl ''unexpected end of input''),
     al_hmac = (\<lambda>_ k b. k @ b), al_b64encode = id, al_b64decode = Some, al_rawb64decode = Some,
     al_timeParse = (\<lambda>_ _. None), al_timeParseIn = (\<lambda>_ _ _. None), al_loadLocation = (\<lambda>_. None),
     al_rfc3339 = (\<lambda>_. []), al_quote = id\<rparr>"

definition paidDoc :: json where
  "paidDoc = JObject [(''data'', JObject [(''reference'', JString ''R1''), (''status'', JString ''success'')])]"

text \<open>
  C17: Whatever a built-in adapter makes of a payload is fit for the schema: it has a transaction reference,
  a canonical status and a canonical event type, its time is in UTC, and its extra fields are a map that
  can be written to (the normaliser writes into it without looking).
\<close>

theorem builtin_Parse_wf:
  assumes "a \<in> set (builtins L)" and "ad_Parse a body = Inr ev"
  shows "ev_TransactionRef ev \<noteq> [] \<and> Status_Valid (ev_Status ev) \<and> EventType_Valid (ev_EventType ev)
       \<and> gt_zone (ev_OccurredAt ev) = UTC \<and> ev_ProviderExtra ev \<noteq> None"
  using builtin_parse_wf [OF assms] by (simp add: parse_wf_def)

theorem builtin_Parse_wf_witness:
  "\<exists>ev. ad_Parse (paystack (docLib [(''b'', paidDoc)])) ''b'' = Inr ev \<and> ev_TransactionRef ev = ''R1''
      \<and> Status_Valid (ev_Status ev) \<and> EventType_Valid (ev_EventType ev)"
proof -
  let ?L = "docLib [(''b'', paidDoc)]"
  have run: "case paystackParse ?L ''b'' of Inr ev \<Rightarrow> ev_TransactionRef ev = ''R1'' | Inl _ \<Rightarrow> False" by code_simp
  then obtain ev where ev: "ad_Parse (paystack ?L) ''b'' = Inr ev" "ev_TransactionRef ev = ''R1''"
    by (auto simp: paystack_def split: sum.splits)
  have "paystack ?L \<in> set (builtins ?L)" by (simp add: builtins_def)
  from builtin_Parse_wf [OF this ev(1)] ev show ?thesis by blast
qed

section \<open>Ambiguous signatures\<close>

definition iswDoc :: "string \<Rightarrow> string \<Rightarrow> string \<Rightarrow> json" where
  "iswDoc ref amount code =
     JObject [(''transaction'', JObject [(''transactionRef'', JString ref), (''amount'', JString amount), (''responseCode'', JString code)])]"

lemma iswDoc_fields:
  "strAt (iswDoc ref amount code) ''$.transaction.transactionRef'' = Inr ref"
  "strAt (iswDoc ref amount code) ''$.transaction.amount'' = Inr amount"
  "strAt (iswDoc ref amount code) ''$.transaction.responseCode'' = Inr code"
proof -
  have p: "path_steps (MustCompile ''$.transaction.transactionRef'') = [Key ''transaction'', Key ''transactionRef'']"
    "path_steps (MustCompile ''$.transaction.amount'') = [Key ''transaction'', Key ''amount'']"
    "path_steps (MustCompile ''$.transaction.responseCode'') = [Key ''transaction'', Key ''responseCode'']"
    by code_simp+
  show "strAt (iswDoc ref amount code) ''$.transaction.transactionRef'' = Inr ref"
    "strAt (iswDoc ref amount code) ''$.transaction.amount'' = Inr amount"
    "strAt (iswDoc ref amount code) ''$.transaction.responseCode'' = Inr code"
    by (simp_all add: strAt_def StringAt_def Eval_def p iswDoc_def)
qed

lemma iswDoc_parse:
  assumes "al_decode L body = Inr (iswDoc ref amount code)" "ref \<noteq> []"
  obtains ev where "interswitchParse L body = Inr ev"
    "mapped interswitchCodes (\<lambda>code. padCode (ToUpper (TrimSpace code))) (iswDoc ref amount code) ''$.transaction.responseCode'' ev"
proof -
  have "firstPresent (iswDoc ref amount code) [''$.transaction.paymentReference'', ''$.transaction.transactionRef''] \<noteq> None"
    using assms(2) by (simp add: present_def iswDoc_fields split: option.split)
  then obtain ev where ev: "interswitchParse L body = Inr ev"
    using assms(1) by (auto simp: interswitchParse_def Let_def simp del: firstPresent.simps split: option.splits)
  with interswitchParse_spec [OF ev] assms(1) that show ?thesis by auto
qed

text \<open>
  Interswitch signs the bare concatenation of reference, amount and response code, so moving a digit
  across a boundary keeps the signature. A genuine notification of a reversal (code 20), with the 2 moved to
  the end of the amount, still verifies under every secret, and is read as a success of ten times the amount:
  the single remaining 0 is padded to 00. The response code is in the signed set and the outcome is still
  not protected.
\<close>

theorem interswitch_outcome_forgeable:
  assumes "al_decode L genuine = Inr (iswDoc ref amount ''20'')" and "al_decode L forged = Inr (iswDoc ref (amount @ ''2'') ''0'')"
    and "ref \<noteq> []"
  shows "interswitchVerify L h forged secret = interswitchVerify L h genuine secret
       \<and> (\<exists>e f. interswitchParse L genuine = Inr e \<and> ev_Status e = StatusReversed
              \<and> interswitchParse L forged = Inr f \<and> ev_Status f = StatusSuccess)"
proof -
  have keys: "padCode (ToUpper (TrimSpace ''20'')) = ''20''" "padCode (ToUpper (TrimSpace ''0'')) = ''00''" by code_simp+
  obtain e where e: "interswitchParse L genuine = Inr e" "ev_Status e = StatusReversed"
    by (rule iswDoc_parse [OF assms(1,3)]) (simp add: mapped_def iswDoc_fields keys interswitchCodes_def)
  obtain f where f: "interswitchParse L forged = Inr f" "ev_Status f = StatusSuccess"
    by (rule iswDoc_parse [OF assms(2,3)]) (simp add: mapped_def iswDoc_fields keys interswitchCodes_def)
  have "interswitchVerify L h forged secret = interswitchVerify L h genuine secret"
    by (simp add: interswitchVerify_def assms(1,2) interswitchSigned_def iswDoc_fields Let_def)
  with e f show ?thesis by blast
qed

theorem interswitch_outcome_forgeable_witness:
  "let L = docLib [(''g'', iswDoc ''R1'' ''5000'' ''20''), (''f'', iswDoc ''R1'' ''50002'' ''0'')];
       h = [(''X-Interswitch-Signature'', [''kR1500020''])]
   in interswitchVerify L h ''f'' ''k'' = interswitchVerify L h ''g'' ''k''"
proof -
  let ?L = "docLib [(''g'', iswDoc ''R1'' ''5000'' ''20''), (''f'', iswDoc ''R1'' ''50002'' ''0'')]"
  have "al_decode ?L ''g'' = Inr (iswDoc ''R1'' ''5000'' ''20'')" "al_decode ?L ''f'' = Inr (iswDoc ''R1'' (''5000'' @ ''2'') ''0'')"
    by (simp_all add: docLib_def)
  from interswitch_outcome_forgeable [OF this] show ?thesis by simp
qed

end
