(* ===== verification/Normaliser.thy ===== *)
theory Normaliser
  imports Dispatch_Spec Adapter_Spec
begin

text \<open>
  From stored bytes to canonical events: \<^verbatim>\<open>internal/normalise\<close>. \<open>Process\<close> runs on the state it shares with the
  dispatcher, to which it hands each new event. The secret resolver and the HMAC are in \<open>NormaliseEnv\<close>; the
  identifier \<open>NewID\<close> draws for the event is an argument. Go's write to a nil map is the outcome \<open>ProcPanic\<close>.
\<close>

section \<open>Definitions\<close>

record NormaliseEnv =
  ne_registry :: Registry
  ne_resolve :: "string \<Rightarrow> string + string"
  ne_hmac256 :: "string \<Rightarrow> string \<Rightarrow> string"
  ne_quote :: "string \<Rightarrow> string"
  ne_dispatch :: DispatchEnv
  ne_enqueue :: bool

datatype process_result =
    ProcDone
  | ProcDuplicate
  | ProcNoRaw store_error
  | ProcForged
  | ProcNoEndpoint store_error
  | ProcNoAdapter
  | ProcUnparseable parse_error
  | ProcInvalid validation_error
  | ProcStore store_error
  | ProcPanic

text \<open>Which outcomes \<open>errors.Is\<close> finds \<open>ErrNotNormalisable\<close> in.\<close>

fun notNormalisable :: "process_result \<Rightarrow> bool" where
  "notNormalisable ProcForged = True"
| "notNormalisable (ProcUnparseable _) = True"
| "notNormalisable (ProcInvalid _) = True"
| "notNormalisable _ = False"

fun zoneName :: "zone \<Rightarrow> string" where
  "zoneName UTC = ''UTC''"
| "zoneName (Zone n) = n"

definition validationText :: "(string \<Rightarrow> string) \<Rightarrow> CanonicalEvent \<Rightarrow> validation_error \<Rightarrow> string" where
  "validationText quote e err =
     (case err of
        ErrNoTenant \<Rightarrow> ''event has no tenant''
      | ErrNoTransactionRef \<Rightarrow> ''event has no transaction reference''
      | ErrBadStatus \<Rightarrow> ''event status is not in the canonical set: '' @ quote (ev_Status e)
      | ErrBadEventType \<Rightarrow> ''event type is not in the canonical set: '' @ quote (ev_EventType e)
      | ErrBadCurrency \<Rightarrow> ''currency is not a three-letter ISO 4217 code: '' @ quote (ev_Currency e)
      | ErrNotUTC \<Rightarrow> ''timestamp is not UTC: occurred_at is '' @ zoneName (gt_zone (ev_OccurredAt e)))"

definition saltRef :: "string \<Rightarrow> string" where
  "saltRef tenantID = ''tenant-salt://'' @ tenantID"

definition pseudonymise :: "NormaliseEnv \<Rightarrow> string \<Rightarrow> string \<Rightarrow> string + string" where
  "pseudonymise E tenantID v =
     (case ne_resolve E (saltRef tenantID) of
        Inl err \<Rightarrow> Inl err
      | Inr salt \<Rightarrow> Inr (''sha256:'' @ hexEncode (ne_hmac256 E salt v)))"

definition reasonFor :: "parse_error \<Rightarrow> string" where
  "reasonFor err = (case err of ParseNoTransaction _ \<Rightarrow> ''no_transaction_ref'' | ParseUnparseable _ \<Rightarrow> ''unparseable'')"

text \<open>Filling in what the adapter does not know.\<close>

definition stamp :: "instant \<Rightarrow> string \<Rightarrow> string \<Rightarrow> RawEvent \<Rightarrow> Endpoint \<Rightarrow> CanonicalEvent \<Rightarrow> CanonicalEvent" where
  "stamp now newID tenantID raw endpoint ev =
     (let ev = ev\<lparr>ev_ID := newID, ev_TenantID := tenantID, ev_RawEventID := raw_ID raw,
                  ev_Provider := ep_Provider endpoint, ev_ReceivedAt := raw_ReceivedAt raw,
                  ev_NormalisedAt := utcTime now\<rparr>
      in if IsZero (ev_OccurredAt ev)
         then ev\<lparr>ev_OccurredAt := raw_ReceivedAt raw, ev_MappingComplete := False\<rparr> else ev)"

definition hashCustomer :: "NormaliseEnv \<Rightarrow> string \<Rightarrow> CanonicalEvent \<Rightarrow> CanonicalEvent" where
  "hashCustomer E tenantID ev =
     (if ev_CustomerRefHash ev = [] then ev
      else case pseudonymise E tenantID (ev_CustomerRefHash ev) of
             Inl _ \<Rightarrow> ev\<lparr>ev_CustomerRefHash := [], ev_MappingComplete := False\<rparr>
           | Inr hashed \<Rightarrow> ev\<lparr>ev_CustomerRefHash := hashed\<rparr>)"

definition noteRedaction :: "RawEvent \<Rightarrow> CanonicalEvent \<Rightarrow> CanonicalEvent option" where
  "noteRedaction raw ev =
     (let ev = ev\<lparr>ev_Redacted := raw_Redacted raw\<rparr>
      in if \<not> ev_Redacted ev then Some ev
         else case ev_ProviderExtra ev of
                None \<Rightarrow> None
              | Some m \<Rightarrow> Some (ev\<lparr>ev_ProviderExtra :=
                                 Some (AList.update ''statushub_redacted'' (JString (raw_RedactionNote raw)) m)\<rparr>))"

definition mark :: "string \<Rightarrow> string \<Rightarrow> string \<Rightarrow> Dispatcher \<Rightarrow> Dispatcher" where
  "mark tenantID rawEventID reason s =
     s\<lparr>ds_store := fst (MarkNormalisationFailure (ds_store s) tenantID rawEventID reason)\<rparr>"

definition normalisedAudit :: "RawEvent \<Rightarrow> Endpoint \<Rightarrow> CanonicalEvent \<Rightarrow> AuditRecord" where
  "normalisedAudit raw endpoint ev =
     eventAudit (ev_TenantID ev) ''event.normalised'' (ev_ID ev)
       [(''raw_event'', JString (raw_ID raw)), (''provider'', JString (ev_Provider ev)),
        (''adapter'', JString (ep_AdapterName endpoint)), (''transaction_ref'', JString (ev_TransactionRef ev)),
        (''status'', JString (ev_Status ev)), (''mapping_complete'', JBool (ev_MappingComplete ev))]"

text \<open>The second half of \<open>Process\<close>: storing a validated event, its audit record and its deliveries.\<close>

definition storeEvent ::
    "NormaliseEnv \<Rightarrow> instant \<Rightarrow> string \<Rightarrow> string \<Rightarrow> RawEvent \<Rightarrow> Endpoint \<Rightarrow> CanonicalEvent \<Rightarrow> Dispatcher
     \<Rightarrow> Dispatcher \<times> process_result" where
  "storeEvent E now rawEventID tenantID raw endpoint ev s =
     (case PutCanonicalEvent (ds_store s) ev of
        (m, Some (StoreDuplicate _)) \<Rightarrow>
          (mark tenantID rawEventID ''duplicate of an event already normalised'' s, ProcDuplicate)
      | (m, Some err) \<Rightarrow> (s, ProcStore err)
      | (m, None) \<Rightarrow>
          let s = audit (ne_dispatch E) now (normalisedAudit raw endpoint ev) (s\<lparr>ds_store := m\<rparr>)
          in (if ne_enqueue E then Enqueue (ne_dispatch E) now ev s else s, ProcDone))"

definition Process ::
    "NormaliseEnv \<Rightarrow> instant \<Rightarrow> string \<Rightarrow> string \<Rightarrow> string \<Rightarrow> Dispatcher \<Rightarrow> Dispatcher \<times> process_result" where
  "Process E now newID rawEventID tenantID s =
     (case GetRawEvent (ds_store s) tenantID rawEventID of
        Inl err \<Rightarrow> (s, ProcNoRaw err)
      | Inr raw \<Rightarrow>
     if \<not> raw_SignatureValid raw then (s, ProcForged)
     else case GetEndpoint (ds_store s) tenantID (raw_EndpointID raw) of
        Inl err \<Rightarrow> (s, ProcNoEndpoint err)
      | Inr endpoint \<Rightarrow>
     (case GetAdapter (ne_registry E) tenantID (ep_AdapterName endpoint) of
        None \<Rightarrow> (s, ProcNoAdapter)
      | Some a \<Rightarrow>
     (case ad_Parse a (raw_Body raw) of
        Inl err \<Rightarrow> (mark tenantID rawEventID (parseText err) s, ProcUnparseable err)
      | Inr ev \<Rightarrow>
     (case noteRedaction raw (hashCustomer E tenantID (stamp now newID tenantID raw endpoint ev)) of
        None \<Rightarrow> (s, ProcPanic)
      | Some ev \<Rightarrow>
          let ev = Normalise ev
          in case Validate ev of
               Some err \<Rightarrow> (mark tenantID rawEventID (validationText (ne_quote E) ev err) s, ProcInvalid err)
             | None \<Rightarrow> storeEvent E now rawEventID tenantID raw endpoint ev s))))"

text \<open>The sweep; \<open>draw\<close> gives the identifier drawn while a raw event is processed.\<close>

fun sweepRaws :: "NormaliseEnv \<Rightarrow> instant \<Rightarrow> (string \<Rightarrow> string) \<Rightarrow> RawEvent list \<Rightarrow> Dispatcher \<Rightarrow> Dispatcher" where
  "sweepRaws E now draw [] s = s"
| "sweepRaws E now draw (raw # raws) s =
     sweepRaws E now draw raws (fst (Process E now (draw (raw_ID raw)) (raw_ID raw) (raw_TenantID raw) s))"

definition sweep :: "NormaliseEnv \<Rightarrow> instant \<Rightarrow> (string \<Rightarrow> string) \<Rightarrow> int \<Rightarrow> Dispatcher \<Rightarrow> Dispatcher" where
  "sweep E now draw batch s =
     sweepRaws E now draw (ListUnnormalised (ds_store s) (if batch \<le> 0 then 100 else batch)) s"

text \<open>The notification channel: bounded, and lossy when full.\<close>

record NormWorker =
  nw_buffer :: nat
  nw_notifications :: "string list"

definition NewNormWorker :: "int \<Rightarrow> NormWorker" where
  "NewNormWorker buffer = \<lparr>nw_buffer = (if buffer \<le> 0 then 1024 else nat buffer), nw_notifications = []\<rparr>"

definition Notify :: "NormWorker \<Rightarrow> string \<Rightarrow> NormWorker" where
  "Notify w rawEventID =
     (if length (nw_notifications w) < nw_buffer w
      then w\<lparr>nw_notifications := nw_notifications w @ [rawEventID]\<rparr> else w)"

section \<open>What a step leaves alone\<close>

lemma enqueueLoop_store [simp]:
  "mem_events (enqueueLoop E now e seq dests m) = mem_events m"
  "mem_rawEvents (enqueueLoop E now e seq dests m) = mem_rawEvents m"
  "mem_rawOrder (enqueueLoop E now e seq dests m) = mem_rawOrder m"
  "mem_normalised (enqueueLoop E now e seq dests m) = mem_normalised m"
  "mem_failures (enqueueLoop E now e seq dests m) = mem_failures m"
  "mem_endpoints (enqueueLoop E now e seq dests m) = mem_endpoints m"
  "mem_eventKeys (enqueueLoop E now e seq dests m) = mem_eventKeys m"
  by (induction dests arbitrary: m) (simp_all add: EnqueueDelivery_def Let_def)

lemma NextSequence_store [simp]:
  "mem_events (fst (NextSequence m t r)) = mem_events m"
  "mem_rawEvents (fst (NextSequence m t r)) = mem_rawEvents m"
  "mem_rawOrder (fst (NextSequence m t r)) = mem_rawOrder m"
  "mem_normalised (fst (NextSequence m t r)) = mem_normalised m"
  "mem_failures (fst (NextSequence m t r)) = mem_failures m"
  "mem_endpoints (fst (NextSequence m t r)) = mem_endpoints m"
  "mem_eventKeys (fst (NextSequence m t r)) = mem_eventKeys m"
  by (simp_all add: NextSequence_def Let_def)

lemma AppendAudit_store [simp]:
  "mem_rawEvents (fst (AppendAudit L t (m :: Memory) r)) = mem_rawEvents m"
  "mem_rawOrder (fst (AppendAudit L t m r)) = mem_rawOrder m"
  "mem_normalised (fst (AppendAudit L t m r)) = mem_normalised m"
  "mem_failures (fst (AppendAudit L t m r)) = mem_failures m"
  "mem_endpoints (fst (AppendAudit L t m r)) = mem_endpoints m"
  "mem_eventKeys (fst (AppendAudit L t m r)) = mem_eventKeys m"
  by (simp_all add: AppendAudit_def Let_def split: sum.split)

lemma Enqueue_store [simp]:
  "mem_events (ds_store (Enqueue E now e s)) = mem_events (ds_store s)"
  "mem_rawEvents (ds_store (Enqueue E now e s)) = mem_rawEvents (ds_store s)"
  "mem_rawOrder (ds_store (Enqueue E now e s)) = mem_rawOrder (ds_store s)"
  "mem_normalised (ds_store (Enqueue E now e s)) = mem_normalised (ds_store s)"
  "mem_failures (ds_store (Enqueue E now e s)) = mem_failures (ds_store s)"
  "mem_endpoints (ds_store (Enqueue E now e s)) = mem_endpoints (ds_store s)"
  "mem_eventKeys (ds_store (Enqueue E now e s)) = mem_eventKeys (ds_store s)"
  by (simp_all add: Enqueue_def case_prod_beta)

lemma audit_store [simp]:
  "mem_events (ds_store (audit E now r s)) = mem_events (ds_store s)"
  "mem_rawEvents (ds_store (audit E now r s)) = mem_rawEvents (ds_store s)"
  "mem_rawOrder (ds_store (audit E now r s)) = mem_rawOrder (ds_store s)"
  "mem_normalised (ds_store (audit E now r s)) = mem_normalised (ds_store s)"
  "mem_failures (ds_store (audit E now r s)) = mem_failures (ds_store s)"
  "mem_endpoints (ds_store (audit E now r s)) = mem_endpoints (ds_store s)"
  "mem_eventKeys (ds_store (audit E now r s)) = mem_eventKeys (ds_store s)"
  by (simp_all add: audit_def)

end
