(* ===== verification/Normaliser_Spec.thy ===== *)
theory Normaliser_Spec
  imports Normaliser
begin

text \<open>
  What the normaliser promises: only authentic, valid, pseudonymised events are stored; a raw event it can
  process leaves the pending list; an event already held is recognised. Then where it falls short: a
  provider without event identifiers is not deduplicated, a later status of the same transaction is
  dropped, and events whose endpoint is gone block everything behind them.
\<close>

section \<open>The outcomes of one event\<close>

definition pseudonymous :: "CanonicalEvent \<Rightarrow> bool" where
  "pseudonymous e \<longleftrightarrow> ev_CustomerRefHash e = [] \<or> (\<exists>h. ev_CustomerRefHash e = ''sha256:'' @ hexEncode h)"

definition filled :: "string \<Rightarrow> string \<Rightarrow> RawEvent \<Rightarrow> Endpoint \<Rightarrow> CanonicalEvent \<Rightarrow> CanonicalEvent \<Rightarrow> bool" where
  "filled newID tenantID raw endpoint parsed e \<longleftrightarrow>
     ev_ID e = newID \<and> ev_TenantID e = tenantID \<and> ev_RawEventID e = raw_ID raw \<and> ev_Provider e = ep_Provider endpoint
   \<and> ev_ProviderEventID e = ev_ProviderEventID parsed \<and> ev_Status e = ev_Status parsed
   \<and> ev_TransactionRef e = ev_TransactionRef parsed \<and> pseudonymous e"

lemma hashCustomer_fields:
  "pseudonymous (hashCustomer E t ev)" "ev_ID (hashCustomer E t ev) = ev_ID ev"
  "ev_TenantID (hashCustomer E t ev) = ev_TenantID ev" "ev_RawEventID (hashCustomer E t ev) = ev_RawEventID ev"
  "ev_Provider (hashCustomer E t ev) = ev_Provider ev" "ev_ProviderEventID (hashCustomer E t ev) = ev_ProviderEventID ev"
  "ev_Status (hashCustomer E t ev) = ev_Status ev" "ev_TransactionRef (hashCustomer E t ev) = ev_TransactionRef ev"
  "ev_ProviderExtra (hashCustomer E t ev) = ev_ProviderExtra ev"
  by (auto simp: hashCustomer_def pseudonymous_def pseudonymise_def split: sum.split)

lemma noteRedaction_fields:
  assumes "noteRedaction raw ev = Some e"
  shows "ev_ID e = ev_ID ev \<and> ev_TenantID e = ev_TenantID ev \<and> ev_RawEventID e = ev_RawEventID ev
       \<and> ev_Provider e = ev_Provider ev \<and> ev_ProviderEventID e = ev_ProviderEventID ev \<and> ev_Status e = ev_Status ev
       \<and> ev_TransactionRef e = ev_TransactionRef ev \<and> ev_CustomerRefHash e = ev_CustomerRefHash ev"
  using assms by (auto simp: noteRedaction_def Let_def split: if_splits option.splits)

lemma stamp_fields:
  "ev_ID (stamp now i t raw ep ev) = i" "ev_TenantID (stamp now i t raw ep ev) = t"
  "ev_RawEventID (stamp now i t raw ep ev) = raw_ID raw" "ev_Provider (stamp now i t raw ep ev) = ep_Provider ep"
  "ev_ProviderEventID (stamp now i t raw ep ev) = ev_ProviderEventID ev" "ev_Status (stamp now i t raw ep ev) = ev_Status ev"
  "ev_TransactionRef (stamp now i t raw ep ev) = ev_TransactionRef ev"
  "ev_ProviderExtra (stamp now i t raw ep ev) = ev_ProviderExtra ev"
  by (simp_all add: stamp_def Let_def)

lemma filled_Normalise:
  assumes "noteRedaction raw (hashCustomer E t (stamp now i t raw ep parsed)) = Some e"
  shows "filled i t raw ep parsed (Normalise e)"
proof -
  have n: "ev_ID (Normalise e) = ev_ID e" "ev_TenantID (Normalise e) = ev_TenantID e"
    "ev_RawEventID (Normalise e) = ev_RawEventID e" "ev_Provider (Normalise e) = ev_Provider e"
    "ev_ProviderEventID (Normalise e) = ev_ProviderEventID e" "ev_Status (Normalise e) = ev_Status e"
    "ev_TransactionRef (Normalise e) = ev_TransactionRef e" "ev_CustomerRefHash (Normalise e) = ev_CustomerRefHash e"
    by (simp_all add: Normalise_def)
  have "pseudonymous (Normalise e)"
    using noteRedaction_fields [OF assms] hashCustomer_fields(1) [of E t "stamp now i t raw ep parsed"]
    by (simp add: pseudonymous_def n)
  with noteRedaction_fields [OF assms] show ?thesis
    by (simp add: filled_def n hashCustomer_fields stamp_fields)
qed

lemma PutCanonicalEvent_refusal:
  assumes "snd (PutCanonicalEvent m e) = Some err"
  shows "\<exists>i. err = StoreDuplicate i"
proof -
  let ?k = "if ev_ProviderEventID e \<noteq> []
        then map_of (mem_eventKeys m) (eventKey (ev_TenantID e) (ev_Provider e) (ev_ProviderEventID e)) else None"
  show ?thesis using assms by (cases ?k) (auto simp: PutCanonicalEvent_def Let_def)
qed

text \<open>The readable raw event, its endpoint and its adapter.\<close>

definition workable :: "NormaliseEnv \<Rightarrow> Memory \<Rightarrow> string \<Rightarrow> string \<Rightarrow> RawEvent \<Rightarrow> Endpoint \<Rightarrow> Adapter \<Rightarrow> bool" where
  "workable E m tenantID rawID raw endpoint a \<longleftrightarrow>
     GetRawEvent m tenantID rawID = Inr raw \<and> raw_SignatureValid raw
   \<and> GetEndpoint m tenantID (raw_EndpointID raw) = Inr endpoint
   \<and> GetAdapter (ne_registry E) tenantID (ep_AdapterName endpoint) = Some a"

definition stored :: "NormaliseEnv \<Rightarrow> instant \<Rightarrow> RawEvent \<Rightarrow> Endpoint \<Rightarrow> CanonicalEvent \<Rightarrow> Dispatcher \<Rightarrow> Dispatcher" where
  "stored E now raw endpoint e s =
     (let s = audit (ne_dispatch E) now (normalisedAudit raw endpoint e)
                (s\<lparr>ds_store := fst (PutCanonicalEvent (ds_store s) e)\<rparr>)
      in if ne_enqueue E then Enqueue (ne_dispatch E) now e s else s)"

lemma Process_cases:
  obtains (untouched) r where "Process E now i rawID t s = (s, r)"
      "(\<nexists>raw ep a. workable E (ds_store s) t rawID raw ep a) \<or> r = ProcPanic"
  | (marked) reason r raw ep a where "Process E now i rawID t s = (mark t rawID reason s, r)"
      "workable E (ds_store s) t rawID raw ep a" "r \<noteq> ProcDone"
  | (stored) raw ep a parsed e where "Process E now i rawID t s = (stored E now raw ep e s, ProcDone)"
      "workable E (ds_store s) t rawID raw ep a" "ad_Parse a (raw_Body raw) = Inr parsed"
      "filled i t raw ep parsed e" "Validate e = None" "snd (PutCanonicalEvent (ds_store s) e) = None"
      "\<exists>e0. noteRedaction raw (hashCustomer E t (stamp now i t raw ep parsed)) = Some e0 \<and> e = Normalise e0"
proof (cases "\<exists>raw ep a. workable E (ds_store s) t rawID raw ep a")
  case False
  then have "\<exists>r. Process E now i rawID t s = (s, r)"
    by (simp add: Process_def workable_def split: sum.split option.split)
  with False show ?thesis using untouched by blast
next
  case True
  then obtain raw ep a where w: "workable E (ds_store s) t rawID raw ep a" by blast
  show ?thesis
  proof (cases "ad_Parse a (raw_Body raw)")
    case (Inl err)
    with w show ?thesis by (intro marked [of _ "ProcUnparseable err", OF _ w]) (simp_all add: Process_def workable_def)
  next
    case (Inr parsed)
    note p = this
    show ?thesis
    proof (cases "noteRedaction raw (hashCustomer E t (stamp now i t raw ep parsed))")
      case None
      with w p show ?thesis by (intro untouched) (simp_all add: Process_def workable_def)
    next
      case (Some e)
      note f = filled_Normalise [OF this] and note0 = this
      have P: "Process E now i rawID t s =
          (case Validate (Normalise e) of
             Some err \<Rightarrow> (mark t rawID (validationText (ne_quote E) (Normalise e) err) s, ProcInvalid err)
           | None \<Rightarrow> storeEvent E now rawID t raw ep (Normalise e) s)"
        using w p Some by (simp add: Process_def workable_def Let_def)
      show ?thesis
      proof (cases "Validate (Normalise e)")
        case (Some err)
        with P show ?thesis by (intro marked [of _ "ProcInvalid err", OF _ w]) simp_all
      next
        case None
        obtain m r where put: "PutCanonicalEvent (ds_store s) (Normalise e) = (m, r)" by fastforce
        show ?thesis
        proof (cases r)
          case (Some err)
          then obtain k where "err = StoreDuplicate k"
            using PutCanonicalEvent_refusal [of "ds_store s" "Normalise e"] put by auto
          with P None put Some show ?thesis by (intro marked [of _ ProcDuplicate, OF _ w]) (simp_all add: storeEvent_def)
        next
          case ok: None
          with P None put w p f note0 show ?thesis by (intro stored [of raw ep "Normalise e" a parsed]) (simp_all add: storeEvent_def stored_def Let_def)
        qed
      qed
    qed
  qed
qed

lemma mark_store [simp]:
  "mem_events (ds_store (mark t i reason s)) = mem_events (ds_store s)"
  "mem_rawEvents (ds_store (mark t i reason s)) = mem_rawEvents (ds_store s)"
  "mem_rawOrder (ds_store (mark t i reason s)) = mem_rawOrder (ds_store s)"
  "mem_normalised (ds_store (mark t i reason s)) = mem_normalised (ds_store s)"
  "mem_endpoints (ds_store (mark t i reason s)) = mem_endpoints (ds_store s)"
  "mem_eventKeys (ds_store (mark t i reason s)) = mem_eventKeys (ds_store s)"
  by (simp_all add: mark_def MarkNormalisationFailure_def split: option.split)

lemma PutCanonicalEvent_store [simp]:
  "mem_rawEvents (fst (PutCanonicalEvent m e)) = mem_rawEvents m"
  "mem_rawOrder (fst (PutCanonicalEvent m e)) = mem_rawOrder m"
  "mem_failures (fst (PutCanonicalEvent m e)) = mem_failures m"
  "mem_endpoints (fst (PutCanonicalEvent m e)) = mem_endpoints m"
  by (simp_all add: PutCanonicalEvent_def Let_def split: option.split)

lemma stored_store [simp]:
  "mem_events (ds_store (stored E now raw ep e s)) = mem_events (fst (PutCanonicalEvent (ds_store s) e))"
  "mem_rawEvents (ds_store (stored E now raw ep e s)) = mem_rawEvents (ds_store s)"
  "mem_rawOrder (ds_store (stored E now raw ep e s)) = mem_rawOrder (ds_store s)"
  "mem_normalised (ds_store (stored E now raw ep e s)) = mem_normalised (fst (PutCanonicalEvent (ds_store s) e))"
  "mem_failures (ds_store (stored E now raw ep e s)) = mem_failures (ds_store s)"
  "mem_endpoints (ds_store (stored E now raw ep e s)) = mem_endpoints (ds_store s)"
  "mem_eventKeys (ds_store (stored E now raw ep e s)) = mem_eventKeys (fst (PutCanonicalEvent (ds_store s) e))"
  by (simp_all add: stored_def Let_def)

section \<open>Only authentic events\<close>

definition event_ok :: "Memory \<Rightarrow> CanonicalEvent \<Rightarrow> bool" where
  "event_ok m e \<longleftrightarrow> Validate e = None \<and> pseudonymous e
     \<and> (\<exists>raw. map_of (mem_rawEvents m) (ev_RawEventID e) = Some raw \<and> raw_SignatureValid raw
            \<and> raw_TenantID raw = ev_TenantID e)"

definition events_ok :: "Memory \<Rightarrow> bool" where
  "events_ok m \<longleftrightarrow> table_wf raw_ID (mem_rawEvents m)
     \<and> (\<forall>i e. map_of (mem_events m) i = Some e \<longrightarrow> ev_ID e = i \<and> event_ok m e)"

lemma GetRawEvent_found:
  "GetRawEvent m t i = Inr raw \<Longrightarrow> map_of (mem_rawEvents m) i = Some raw \<and> raw_TenantID raw = t"
  by (simp add: GetRawEvent_def split: option.splits if_splits)

lemma events_ok_frame:
  "mem_rawEvents m' = mem_rawEvents m \<Longrightarrow> mem_events m' = mem_events m \<Longrightarrow> events_ok m' = events_ok m"
  by (simp add: events_ok_def event_ok_def)

lemma Process_events_ok:
  assumes "events_ok (ds_store s)"
  shows "events_ok (ds_store (fst (Process E now i rawID t s)))"
proof (cases rule: Process_cases [of E now i rawID t s])
  case (untouched r)
  then show ?thesis using assms by simp
next
  case (marked reason r)
  with assms events_ok_frame [of "ds_store (mark t rawID reason s)" "ds_store s"] show ?thesis by simp
next
  case (stored raw ep a parsed e)
  have raw: "map_of (mem_rawEvents (ds_store s)) rawID = Some raw" "raw_TenantID raw = t" "raw_SignatureValid raw"
    using stored(2) GetRawEvent_found by (auto simp: workable_def)
  then have "raw_ID raw = rawID" using assms table_wf_lookup unfolding events_ok_def by metis
  then have "event_ok (ds_store s) e"
    using raw stored(4,5) by (simp add: event_ok_def filled_def)
  moreover have "mem_events (fst (PutCanonicalEvent (ds_store s) e)) = AList.update (ev_ID e) e (mem_events (ds_store s))"
    using PutCanonicalEvent_Some [OF stored(6)] by blast
  ultimately show ?thesis
    using assms by (simp add: stored(1) events_ok_def event_ok_def update_conv')
qed

section \<open>Pending work\<close>

definition pending :: "Memory \<Rightarrow> string \<Rightarrow> bool" where
  "pending m i \<longleftrightarrow> raw_SignatureValid (lookupOr zeroRaw (mem_rawEvents m) i)
     \<and> map_of (mem_normalised m) i = None \<and> map_of (mem_failures m) i = None"

lemma ListUnnormalised_pending:
  "ListUnnormalised m limit =
     map (lookupOr zeroRaw (mem_rawEvents m)) (take (nat (if limit \<le> 0 then 100 else limit)) (filter (pending m) (mem_rawOrder m)))"
proof -
  have "pending m = (\<lambda>i. raw_SignatureValid (lookupOr zeroRaw (mem_rawEvents m) i)
     \<and> map_of (mem_normalised m) i = None \<and> map_of (mem_failures m) i = None)"
    by (simp add: fun_eq_iff pending_def)
  then show ?thesis by (simp add: ListUnnormalised_def collect_take_filter)
qed

lemma ListUnnormalised_member:
  assumes "raw \<in> set (ListUnnormalised m limit)"
  obtains k where "map_of (mem_rawEvents m) k = Some raw" "pending m k"
proof -
  obtain k where k: "raw = lookupOr zeroRaw (mem_rawEvents m) k" "k \<in> set (filter (pending m) (mem_rawOrder m))"
    using assms unfolding ListUnnormalised_pending by (fastforce dest: in_set_takeD)
  then have "map_of (mem_rawEvents m) k = Some raw"
    by (auto simp: pending_def lookupOr_def zeroRaw_def split: option.splits)
  with k that show ?thesis by simp
qed

lemma mark_failures:
  "GetRawEvent (ds_store s) t i = Inr raw \<Longrightarrow>
   mem_failures (ds_store (mark t i reason s)) = AList.update i reason (mem_failures (ds_store s))"
  by (auto simp: mark_def MarkNormalisationFailure_def GetRawEvent_def split: option.splits if_splits)

lemma PutCanonicalEvent_normalised:
  assumes "snd (PutCanonicalEvent m e) = None"
  shows "mem_normalised (fst (PutCanonicalEvent m e)) =
     (if ev_RawEventID e \<noteq> [] then AList.update (ev_RawEventID e) (ev_ID e) (mem_normalised m) else mem_normalised m)"
proof -
  let ?k = "if ev_ProviderEventID e \<noteq> []
        then map_of (mem_eventKeys m) (eventKey (ev_TenantID e) (ev_Provider e) (ev_ProviderEventID e)) else None"
  show ?thesis using assms by (cases ?k) (auto simp: PutCanonicalEvent_def Let_def)
qed

text \<open>Processing any event never makes another one pending again.\<close>

lemma Process_keeps_done:
  assumes "\<not> pending (ds_store s) j"
  shows "\<not> pending (ds_store (fst (Process E now i rawID t s))) j"
proof (cases rule: Process_cases [of E now i rawID t s])
  case (untouched r)
  then show ?thesis using assms by simp
next
  case (marked reason r raw ep a)
  then have "GetRawEvent (ds_store s) t rawID = Inr raw" by (simp add: workable_def)
  with marked(1) assms mark_failures show ?thesis by (auto simp: pending_def update_conv')
next
  case (stored raw ep a parsed e)
  with assms PutCanonicalEvent_normalised [OF stored(6)] show ?thesis by (auto simp: pending_def update_conv')
qed

lemma Process_frame:
  "mem_rawEvents (ds_store (fst (Process E now i rawID t s))) = mem_rawEvents (ds_store s)"
  "mem_endpoints (ds_store (fst (Process E now i rawID t s))) = mem_endpoints (ds_store s)"
  "mem_rawOrder (ds_store (fst (Process E now i rawID t s))) = mem_rawOrder (ds_store s)"
  by (cases rule: Process_cases [of E now i rawID t s]; simp)+

text \<open>Adapters whose parsed events can be written to, as the built-in ones can.\<close>

definition registry_safe :: "Registry \<Rightarrow> bool" where
  "registry_safe r \<longleftrightarrow> (\<forall>t n a b ev. GetAdapter r t n = Some a \<longrightarrow> ad_Parse a b = Inr ev \<longrightarrow> ev_ProviderExtra ev \<noteq> None)"

lemma Process_no_panic:
  assumes "registry_safe (ne_registry E)"
  shows "snd (Process E now i rawID t s) \<noteq> ProcPanic"
proof -
  have n: False if "GetAdapter (ne_registry E) t n = Some a" "ad_Parse a (raw_Body raw) = Inr ev"
      "noteRedaction raw (hashCustomer E t (stamp now i t raw ep ev)) = None" for raw ep ev n a
  proof -
    have "ev_ProviderExtra ev \<noteq> None" using assms that unfolding registry_safe_def by blast
    with that(3) show ?thesis
      by (simp add: noteRedaction_def Let_def hashCustomer_fields stamp_fields split: if_splits option.splits)
  qed
  show ?thesis
    by (auto simp: Process_def Let_def storeEvent_def split: sum.split option.split prod.split store_error.split dest: n)
qed

lemma Process_progress:
  assumes "registry_safe (ne_registry E)" and "workable E (ds_store s) t rawID raw ep a" and "rawID \<noteq> []" "raw_ID raw = rawID"
  shows "\<not> pending (ds_store (fst (Process E now i rawID t s))) rawID"
proof (cases rule: Process_cases [of E now i rawID t s])
  case (untouched r)
  then show ?thesis using assms Process_no_panic [OF assms(1), of now i rawID t s] by auto
next
  case (marked reason r raw' ep' a')
  then have "GetRawEvent (ds_store s) t rawID = Inr raw'" by (simp add: workable_def)
  with marked(1) mark_failures show ?thesis by (simp add: pending_def)
next
  case (stored raw' ep' a' parsed e)
  then have "raw' = raw" using assms(2) by (simp add: workable_def)
  with stored assms PutCanonicalEvent_normalised [OF stored(6)] show ?thesis
    by (simp add: pending_def filled_def)
qed

lemma workable_frame:
  "workable E (ds_store (fst (Process E now i r u s))) t rawID raw ep a = workable E (ds_store s) t rawID raw ep a"
  by (simp add: workable_def GetRawEvent_def GetEndpoint_def Process_frame)

lemma sweepRaws_keeps_done: "\<not> pending (ds_store s) j \<Longrightarrow> \<not> pending (ds_store (sweepRaws E now draw raws s)) j"
  by (induction raws arbitrary: s) (simp_all add: Process_keeps_done)

lemma sweepRaws_progress:
  assumes "registry_safe (ne_registry E)" and "raw \<in> set raws" and "raw_ID raw \<noteq> []"
    and "workable E (ds_store s) (raw_TenantID raw) (raw_ID raw) raw ep a"
  shows "\<not> pending (ds_store (sweepRaws E now draw raws s)) (raw_ID raw)"
  using assms(2,4)
proof (induction raws arbitrary: s)
  case (Cons r raws)
  show ?case
  proof (cases "r = raw")
    case True
    have "\<not> pending (ds_store (fst (Process E now (draw (raw_ID raw)) (raw_ID raw) (raw_TenantID raw) s))) (raw_ID raw)"
      by (rule Process_progress [OF assms(1) Cons.prems(2) assms(3)]) simp
    with True show ?thesis by (simp add: sweepRaws_keeps_done)
  next
    case False
    with Cons show ?thesis by (simp add: workable_frame)
  qed
qed simp

text \<open>
  A sweep makes progress: every raw event it lists whose endpoint and adapter still exist is dealt with.
  Afterwards it is normalised or recorded as a failure and no later sweep will see it again.
\<close>

theorem sweep_progress:
  assumes "registry_safe (ne_registry E)"
    and "raw \<in> set (ListUnnormalised (ds_store s) (if batch \<le> 0 then 100 else batch))" "raw_ID raw \<noteq> []"
    and "workable E (ds_store s) (raw_TenantID raw) (raw_ID raw) raw ep a"
  shows "raw_ID raw \<in> fst ` set (mem_normalised (ds_store (sweep E now draw batch s)))
       \<or> raw_ID raw \<in> fst ` set (mem_failures (ds_store (sweep E now draw batch s)))"
proof -
  have "\<not> pending (ds_store (sweep E now draw batch s)) (raw_ID raw)"
    unfolding sweep_def by (rule sweepRaws_progress [OF assms])
  moreover have "mem_rawEvents (ds_store (sweepRaws E now draw raws s)) = mem_rawEvents (ds_store s)" for raws s
    by (induction raws arbitrary: s) (simp_all add: Process_frame)
  moreover have "lookupOr zeroRaw (mem_rawEvents (ds_store s)) (raw_ID raw) = raw" "raw_SignatureValid raw"
    using assms(4) GetRawEvent_found [of "ds_store s" "raw_TenantID raw" "raw_ID raw" raw]
    by (simp_all add: workable_def lookupOr_def)
  ultimately show ?thesis by (auto simp: pending_def sweep_def map_of_eq_None_iff)
qed

text \<open>Draining the backlog.\<close>

definition backlog :: "Memory \<Rightarrow> string list" where
  "backlog m = filter (pending m) (mem_rawOrder m)"

text \<open>A raw event can be processed when it is stored under its identifier and has its endpoint and adapter.\<close>

definition processable :: "NormaliseEnv \<Rightarrow> Memory \<Rightarrow> string \<Rightarrow> bool" where
  "processable E m i \<longleftrightarrow> i \<noteq> [] \<and> (\<exists>raw ep a. raw_ID raw = i \<and> workable E m (raw_TenantID raw) i raw ep a)"

lemma sweepRaws_frame:
  "mem_rawEvents (ds_store (sweepRaws E now draw raws s)) = mem_rawEvents (ds_store s)"
  "mem_endpoints (ds_store (sweepRaws E now draw raws s)) = mem_endpoints (ds_store s)"
  "mem_rawOrder (ds_store (sweepRaws E now draw raws s)) = mem_rawOrder (ds_store s)"
  by (induction raws arbitrary: s) (simp_all add: Process_frame)

lemma processable_sweep: "processable E (ds_store (sweep E now draw batch s)) i = processable E (ds_store s) i"
  by (simp add: processable_def workable_def GetRawEvent_def GetEndpoint_def sweep_def sweepRaws_frame)

lemma sweep_pending: "pending (ds_store (sweep E now draw batch s)) j \<Longrightarrow> pending (ds_store s) j"
  using sweepRaws_keeps_done unfolding sweep_def by blast

lemma backlog_sweep: "backlog (ds_store (sweep E now draw batch s)) = filter (pending (ds_store (sweep E now draw batch s))) (backlog (ds_store s))"
proof -
  have "mem_rawOrder (ds_store (sweep E now draw batch s)) = mem_rawOrder (ds_store s)" by (simp add: sweep_def sweepRaws_frame)
  then show ?thesis unfolding backlog_def by (auto simp: sweep_pending intro: filter_cong)
qed

lemma sweep_takes:
  assumes safe: "registry_safe (ne_registry E)" and "processable E (ds_store s) i"
    and "i \<in> set (take (nat (if batch \<le> 0 then 100 else batch)) (backlog (ds_store s)))"
  shows "\<not> pending (ds_store (sweep E now draw batch s)) i"
proof -
  let ?m = "ds_store s" and ?n = "if batch \<le> 0 then 100 else batch"
  obtain raw ep a where raw: "i \<noteq> []" "raw_ID raw = i" "workable E ?m (raw_TenantID raw) i raw ep a"
    using assms(2) unfolding processable_def by blast
  have "lookupOr zeroRaw (mem_rawEvents ?m) i = raw"
    using raw(3) GetRawEvent_found [of ?m "raw_TenantID raw" i raw] by (simp add: workable_def lookupOr_def)
  moreover have "lookupOr zeroRaw (mem_rawEvents ?m) i \<in> set (ListUnnormalised ?m ?n)"
    using imageI [OF assms(3), of "lookupOr zeroRaw (mem_rawEvents ?m)"]
    by (cases "batch \<le> 0") (simp_all add: ListUnnormalised_pending backlog_def)
  ultimately have listed: "raw \<in> set (ListUnnormalised ?m ?n)" by simp
  show ?thesis
    using sweepRaws_progress [OF safe listed, of s ep a now draw] raw unfolding sweep_def by simp
qed

text \<open>Either something that can be processed is in the batch, or as many events as the batch holds cannot be.\<close>

lemma backlog_sweep_less:
  assumes safe: "registry_safe (ne_registry E)" and i: "i \<in> set (backlog (ds_store s))" "processable E (ds_store s) i"
    and few: "length (filter (\<lambda>i. \<not> processable E (ds_store s) i) (backlog (ds_store s))) < nat (if batch \<le> 0 then 100 else batch)"
  shows "length (backlog (ds_store (sweep E now draw batch s))) < length (backlog (ds_store s))"
proof -
  let ?m = "ds_store s" and ?n = "nat (if batch \<le> 0 then 100 else batch)" and ?bad = "\<lambda>i. \<not> processable E (ds_store s) i"
  have "\<exists>j\<in>set (take ?n (backlog ?m)). \<not> ?bad j"
  proof (rule ccontr)
    assume "\<not> (\<exists>j\<in>set (take ?n (backlog ?m)). \<not> ?bad j)"
    then have bad: "\<forall>j\<in>set (take ?n (backlog ?m)). ?bad j" by blast
    then have "i \<notin> set (take ?n (backlog ?m))" using i(2) by blast
    then have "length (take ?n (backlog ?m)) = ?n" using i(1) by (metis length_take min.absorb2 nat_le_linear take_all)
    moreover have "length (filter ?bad (backlog ?m)) = length (filter ?bad (take ?n (backlog ?m))) + length (filter ?bad (drop ?n (backlog ?m)))"
      by (metis append_take_drop_id filter_append length_append)
    moreover have "filter ?bad (take ?n (backlog ?m)) = take ?n (backlog ?m)" using bad by simp
    ultimately show False using few by simp
  qed
  then obtain j where j: "j \<in> set (take ?n (backlog ?m))" "processable E ?m j" by blast
  have "\<not> pending (ds_store (sweep E now draw batch s)) j" by (rule sweep_takes [OF safe j(2,1)])
  moreover have "j \<in> set (backlog ?m)" using j(1) by (rule in_set_takeD)
  ultimately show ?thesis unfolding backlog_sweep [of E now draw batch s] by (intro length_filter_less)
qed

lemma length_filter_le_mono: "(\<And>x. P x \<Longrightarrow> Q x) \<Longrightarrow> length (filter P xs) \<le> length (filter Q xs)"
  by (induction xs) auto

lemma drained:
  assumes "registry_safe (ne_registry E)" and "length (backlog (ds_store s)) \<le> n"
    and "length (filter (\<lambda>i. \<not> processable E (ds_store s) i) (backlog (ds_store s))) < nat (if batch \<le> 0 then 100 else batch)"
  shows "set (backlog (ds_store (((\<lambda>s. sweep E now draw batch s) ^^ n) s)))
    \<subseteq> {i \<in> set (backlog (ds_store s)). \<not> processable E (ds_store s) i}"
  using assms(2,3)
proof (induction n arbitrary: s)
  case (Suc n)
  let ?s = "sweep E now draw batch s"
  have sub: "set (backlog (ds_store ?s)) \<subseteq> set (backlog (ds_store s))" by (auto simp: backlog_sweep)
  show ?case
  proof (cases "\<exists>i\<in>set (backlog (ds_store s)). processable E (ds_store s) i")
    case True
    then obtain i where i: "i \<in> set (backlog (ds_store s))" "processable E (ds_store s) i" by blast
    from backlog_sweep_less [OF assms(1) i Suc.prems(2), of now draw] Suc.prems(1)
    have "length (backlog (ds_store ?s)) \<le> n" by linarith
    moreover have "length (filter (\<lambda>i. \<not> processable E (ds_store ?s) i) (backlog (ds_store ?s)))
        \<le> length (filter (\<lambda>i. \<not> processable E (ds_store s) i) (backlog (ds_store s)))"
      unfolding processable_sweep backlog_sweep filter_filter by (rule length_filter_le_mono) simp
    ultimately have "set (backlog (ds_store (((\<lambda>s. sweep E now draw batch s) ^^ n) ?s)))
        \<subseteq> {i \<in> set (backlog (ds_store ?s)). \<not> processable E (ds_store ?s) i}"
      using Suc.prems(2) by (intro Suc.IH) simp_all
    with sub show ?thesis by (auto simp: processable_sweep funpow_Suc_right simp del: funpow.simps)
  next
    case False
    have "set (backlog (ds_store (((\<lambda>s. sweep E now draw batch s) ^^ k) s))) \<subseteq> set (backlog (ds_store s))" for k
      by (induction k) (auto simp: backlog_sweep)
    with False show ?thesis by blast
  qed
qed simp

text \<open>
  C16: The sweep finishes its work, as long as fewer events that cannot be processed wait than one batch takes. An
  event can be processed when its endpoint and its adapter are still there. Then, after as many sweeps as there were
  events waiting, however small the batch, the only ones still waiting are those that cannot be processed: every other is
  normalised or recorded as a failure, and when all could be processed nothing waits. The registry's adapters are those
  built in or declared, which answer with extra fields and so do not panic.
\<close>

theorem sweeps_drain:
  assumes "registry_safe (ne_registry E)" and "length (backlog (ds_store s)) \<le> n"
    and "length (filter (\<lambda>i. \<not> processable E (ds_store s) i) (backlog (ds_store s))) < nat (if batch \<le> 0 then 100 else batch)"
    and "m = ds_store (((\<lambda>s. sweep E now draw batch s) ^^ n) s)"
  shows "(\<forall>raw\<in>set (ListUnnormalised m limit). \<exists>i. raw = lookupOr zeroRaw (mem_rawEvents m) i \<and> \<not> processable E (ds_store s) i)
    \<and> ((\<forall>i\<in>set (backlog (ds_store s)). processable E (ds_store s) i) \<longrightarrow> ListUnnormalised m limit = [])"
proof -
  have left: "set (backlog m) \<subseteq> {i \<in> set (backlog (ds_store s)). \<not> processable E (ds_store s) i}"
    unfolding assms(4) by (rule drained [OF assms(1-3)])
  have list: "ListUnnormalised m limit =
      map (lookupOr zeroRaw (mem_rawEvents m)) (take (nat (if limit \<le> 0 then 100 else limit)) (backlog m))"
    by (simp add: ListUnnormalised_pending backlog_def)
  have "backlog m = []" if "\<forall>i\<in>set (backlog (ds_store s)). processable E (ds_store s) i"
    using left that by (cases "backlog m") auto
  with left list show ?thesis by (auto dest!: in_set_takeD)
qed

text \<open>
  Events whose endpoint is gone block everything behind them. If every raw event of a sweep's batch has
  no endpoint any more, as after an endpoint with a backlog is deleted, the sweep changes nothing, so the
  next one is handed the same batch: no event behind it, of any tenant, is ever normalised.
\<close>

theorem sweep_starves:
  assumes "\<forall>raw\<in>set (ListUnnormalised (ds_store s) (if batch \<le> 0 then 100 else batch)).
     \<exists>err. GetEndpoint (ds_store s) (raw_TenantID raw) (raw_EndpointID raw) = Inl err"
    and "table_wf raw_ID (mem_rawEvents (ds_store s))"
  shows "((\<lambda>s. sweep E now draw batch s) ^^ n) s = s"
proof -
  have "Process E now i (raw_ID raw) (raw_TenantID raw) s = (s, snd (Process E now i (raw_ID raw) (raw_TenantID raw) s))"
    if "raw \<in> set (ListUnnormalised (ds_store s) (if batch \<le> 0 then 100 else batch))" for i raw
  proof -
    obtain k where "map_of (mem_rawEvents (ds_store s)) k = Some raw"
      by (rule ListUnnormalised_member [OF \<open>raw \<in> _\<close>])
    then have "GetRawEvent (ds_store s) (raw_TenantID raw) (raw_ID raw) = Inr raw"
      using table_wf_lookup [OF assms(2)] by (simp add: GetRawEvent_def)
    with assms(1) that show ?thesis by (force simp: Process_def)
  qed
  then have "set raws \<subseteq> set (ListUnnormalised (ds_store s) (if batch \<le> 0 then 100 else batch)) \<Longrightarrow>
      sweepRaws E now draw raws s = s" for raws
    by (induction raws) (auto, metis fst_conv)
  then have "sweep E now draw batch s = s" unfolding sweep_def by blast
  then show ?thesis by (induction n) simp_all
qed

section \<open>Redelivery\<close>

lemma PutCanonicalEvent_known:
  "ev_ProviderEventID e \<noteq> [] \<Longrightarrow>
   map_of (mem_eventKeys m) (eventKey (ev_TenantID e) (ev_Provider e) (ev_ProviderEventID e)) = Some k \<Longrightarrow>
   PutCanonicalEvent m e = (m, Some (StoreDuplicate k))"
  by (simp add: PutCanonicalEvent_def Let_def)

text \<open>
  What is held is not stored again: once an event with a provider identifier is stored, every further
  raw event of that tenant and provider that parses to the same identifier is dropped, and the stored
  events stay as they were. It is dropped whatever it says: the comparison does not look at the status, so
  where an adapter takes the identifier of the transaction for that of the event, as those of NIBSS,
  Monnify and Interswitch do, the success that follows a pending notification is dropped too.
\<close>

theorem held_identifier_dropped:
  assumes "workable E (ds_store s) t rawID raw ep a" and "ad_Parse a (raw_Body raw) = Inr parsed"
    and "ev_ProviderEventID parsed \<noteq> []"
    and "map_of (mem_eventKeys (ds_store s)) (eventKey t (ep_Provider ep) (ev_ProviderEventID parsed)) = Some k"
  shows "mem_events (ds_store (fst (Process E now i rawID t s))) = mem_events (ds_store s)
       \<and> snd (Process E now i rawID t s) \<noteq> ProcDone"
proof (cases rule: Process_cases [of E now i rawID t s])
  case (untouched r)
  with assms(1) show ?thesis by auto
next
  case (marked reason r raw' ep' a')
  then show ?thesis by simp
next
  case (stored raw' ep' a' parsed' e)
  then have "raw' = raw" "ep' = ep" "parsed' = parsed" using assms(1,2) by (auto simp: workable_def)
  with stored(4) assms(3,4) PutCanonicalEvent_known [of e "ds_store s" k] have "snd (PutCanonicalEvent (ds_store s) e) \<noteq> None"
    by (simp add: filled_def)
  with stored(6) show ?thesis by simp
qed

text \<open>Validation looks only at what the adapter parsed.\<close>

lemma Validate_stamped:
  assumes "noteRedaction raw (hashCustomer E t (stamp now i t raw ep parsed)) = Some e"
    and "noteRedaction raw' (hashCustomer E t (stamp now' i' t raw' ep parsed)) = Some e'"
  shows "Validate (Normalise e) = Validate (Normalise e')"
proof -
  have f: "ev_TenantID x = t \<and> ev_TransactionRef x = ev_TransactionRef parsed \<and> ev_Status x = ev_Status parsed
      \<and> ev_EventType x = ev_EventType parsed \<and> ev_AmountMinor x = ev_AmountMinor parsed \<and> ev_Currency x = ev_Currency parsed"
    if "noteRedaction r (hashCustomer E t (stamp n j t r ep parsed)) = Some x" for r n j x
    using that by (auto simp: noteRedaction_def hashCustomer_def stamp_def Let_def split: if_splits option.splits sum.splits)
  from f [OF assms(1)] f [OF assms(2)] show ?thesis by (simp add: Validate_def Normalise_def)
qed

lemma noteRedaction_total:
  "ev_ProviderExtra parsed \<noteq> None \<Longrightarrow> \<exists>e. noteRedaction raw (hashCustomer E t (stamp now i t raw ep parsed)) = Some e"
  by (auto simp: noteRedaction_def Let_def hashCustomer_fields stamp_fields)

lemma Process_done:
  assumes "workable E (ds_store s) t rawID raw ep a" "ad_Parse a (raw_Body raw) = Inr parsed"
    and "noteRedaction raw (hashCustomer E t (stamp now i t raw ep parsed)) = Some e"
    and "Validate (Normalise e) = None" "snd (PutCanonicalEvent (ds_store s) (Normalise e)) = None"
  shows "Process E now i rawID t s = (stored E now raw ep (Normalise e) s, ProcDone)"
  using assms
  by (cases "PutCanonicalEvent (ds_store s) (Normalise e)")
     (simp add: Process_def workable_def Let_def storeEvent_def stored_def)

lemma PutCanonicalEvent_unkeyed: "ev_ProviderEventID e = [] \<Longrightarrow> snd (PutCanonicalEvent m e) = None"
  by (simp add: PutCanonicalEvent_def Let_def)

text \<open>
  There is no body-hash deduplication. Paystack sends no event identifier and its adapter relies on the
  body hash. When it redelivers the same bytes, the second delivery is normalised into a second event, with
  an identifier of its own, although \<open>DedupeKey\<close> gives the two the same key.
\<close>

theorem same_body_stored_twice:
  assumes "workable E (ds_store s) t r1 raw1 ep (paystack L)" "Process E now1 i1 r1 t s = (s1, ProcDone)"
    and "workable E (ds_store s1) t r2 raw2 ep (paystack L)" "raw_Body raw2 = raw_Body raw1" "i1 \<noteq> i2"
  shows "snd (Process E now2 i2 r2 t s1) = ProcDone
       \<and> (\<exists>e1 e2. map_of (mem_events (ds_store (fst (Process E now2 i2 r2 t s1)))) i1 = Some e1
            \<and> map_of (mem_events (ds_store (fst (Process E now2 i2 r2 t s1)))) i2 = Some e2
            \<and> DedupeKey e1 h = DedupeKey e2 h)"
proof (cases rule: Process_cases [of E now1 i1 r1 t s])
  case (stored raw' ep' a' parsed e1)
  have eq: "raw' = raw1" "ep' = ep" "a' = paystack L" using assms(1) stored(2) by (auto simp: workable_def)
  have p1: "paystackParse L (raw_Body raw1) = Inr parsed" using stored(3) eq by (simp add: paystack_def)
  have p: "ev_ProviderEventID parsed = []" "ev_ProviderExtra parsed \<noteq> None"
    using paystackParse_spec [OF p1] by (auto simp: parse_wf_def)
  obtain e0 where e0: "noteRedaction raw1 (hashCustomer E t (stamp now1 i1 t raw1 ep parsed)) = Some e0" "e1 = Normalise e0"
    using stored(7) eq by auto
  obtain e0' where e0': "noteRedaction raw2 (hashCustomer E t (stamp now2 i2 t raw2 ep parsed)) = Some e0'"
    using noteRedaction_total [OF p(2)] by blast
  let ?e2 = "Normalise e0'"
  have f: "filled i1 t raw1 ep parsed e1" "filled i2 t raw2 ep parsed ?e2"
    using stored(4) eq filled_Normalise [OF e0'] by simp_all
  have s1: "s1 = stored E now1 raw1 ep e1 s" using assms(2) stored(1) eq by simp
  have v: "Validate ?e2 = None" using stored(5) Validate_stamped [OF e0(1) e0'] e0(2) by simp
  have put: "snd (PutCanonicalEvent (ds_store s1) ?e2) = None"
    using f(2) p(1) by (intro PutCanonicalEvent_unkeyed) (simp add: filled_def)
  have "ad_Parse (paystack L) (raw_Body raw2) = Inr parsed" using p1 assms(4) by (simp add: paystack_def)
  from Process_done [OF assms(3) this e0' v put]
  have P: "Process E now2 i2 r2 t s1 = (stored E now2 raw2 ep ?e2 s1, ProcDone)" .
  have "mem_events (ds_store (stored E now2 raw2 ep ?e2 s1)) =
      AList.update i2 ?e2 (AList.update i1 e1 (mem_events (ds_store s)))"
    using f PutCanonicalEvent_Some [OF put] PutCanonicalEvent_Some [OF stored(6)] by (simp add: s1 filled_def)
  moreover have "DedupeKey e1 h = DedupeKey ?e2 h" using f p(1) by (simp add: filled_def DedupeKey_def)
  ultimately show ?thesis using assms(5) by (simp add: P update_conv')
qed (use assms(1,2) in auto)

section \<open>Sample runs\<close>

definition sampleNorm :: "(string \<times> json) list \<Rightarrow> NormaliseEnv" where
  "sampleNorm docs = \<lparr>ne_registry = NewRegistry (docLib docs), ne_resolve = (\<lambda>_. Inr ''salt''), ne_hmac256 = plainMac,
     ne_quote = id, ne_dispatch = sampleEnv (Response 200 []), ne_enqueue = True\<rparr>"

definition sampleRaw :: "string \<Rightarrow> string \<Rightarrow> RawEvent" where
  "sampleRaw i body = zeroRaw\<lparr>raw_ID := i, raw_TenantID := ''tnt_1'', raw_EndpointID := ''ep_1'', raw_Body := body,
     raw_SignatureValid := True\<rparr>"

definition sampleIntake :: "string \<Rightarrow> (string \<times> string) list \<Rightarrow> Dispatcher" where
  "sampleIntake adapter raws = \<lparr>ds_store = NewMemory\<lparr>
       mem_endpoints := [(''ep_1'', sampleEndpoint\<lparr>ep_AdapterName := adapter\<rparr>)],
       mem_rawEvents := map (\<lambda>(i, b). (i, sampleRaw i b)) raws, mem_rawOrder := map fst raws\<rparr>,
     ds_breaker = NewBreaker 0 0 0\<rparr>"

lemma sampleRaw_fields [simp]:
  "raw_ID (sampleRaw i b) = i" "raw_TenantID (sampleRaw i b) = ''tnt_1''" "raw_EndpointID (sampleRaw i b) = ''ep_1''"
  "raw_Body (sampleRaw i b) = b" "raw_SignatureValid (sampleRaw i b)"
  by (simp_all add: sampleRaw_def)

lemma NewRegistry_safe: "registry_safe (NewRegistry L)"
proof -
  have "a \<in> set (builtins L)" if "GetAdapter (NewRegistry L) t n = Some a" for t n a
    using that by (auto simp: GetAdapter_def NewRegistry_def declaredFor_def dest!: map_of_SomeD split: option.splits)
  then show ?thesis unfolding registry_safe_def using builtin_extras by blast
qed

lemma sample_raw: "map_of (mem_rawEvents (ds_store (sampleIntake n raws))) i = map_option (sampleRaw i) (map_of raws i)"
  by (induction raws) (auto simp: sampleIntake_def)

lemma sample_workable:
  assumes "map_of raws i = Some b" "GetAdapter (NewRegistry (docLib docs)) ''tnt_1'' n = Some a"
  shows "workable (sampleNorm docs) (ds_store (sampleIntake n raws)) ''tnt_1'' i (sampleRaw i b)
           (sampleEndpoint\<lparr>ep_AdapterName := n\<rparr>) a"
proof -
  have "mem_endpoints (ds_store (sampleIntake n raws)) = [(''ep_1'', sampleEndpoint\<lparr>ep_AdapterName := n\<rparr>)]"
    "ep_TenantID sampleEndpoint = ''tnt_1''"
    by (simp_all add: sampleIntake_def sampleEndpoint_def)
  with assms sample_raw [of n raws i] show ?thesis
    by (simp add: workable_def GetRawEvent_def GetEndpoint_def sampleNorm_def)
qed

lemma sample_adapters:
  "GetAdapter (NewRegistry L) t ''paystack'' = Some (paystack L)" "GetAdapter (NewRegistry L) t ''nibss'' = Some (nibss L)"
  by (simp_all add: GetAdapter_def NewRegistry_def declaredFor_def builtins_def paystack_def flutterwave_def nibss_def)

theorem sweep_progress_witness:
  "let s = sweep (sampleNorm [(''b'', paidDoc)]) 30 (\<lambda>_. ''sh_evt_1'') 0 (sampleIntake ''paystack'' [(''sh_raw_1'', ''b'')])
   in ''sh_raw_1'' \<in> fst ` set (mem_normalised (ds_store s)) \<or> ''sh_raw_1'' \<in> fst ` set (mem_failures (ds_store s))"
proof -
  let ?s = "sampleIntake ''paystack'' [(''sh_raw_1'', ''b'')]" and ?E = "sampleNorm [(''b'', paidDoc)]"
  have safe: "registry_safe (ne_registry ?E)" by (simp add: sampleNorm_def NewRegistry_safe)
  have listed: "sampleRaw ''sh_raw_1'' ''b'' \<in> set (ListUnnormalised (ds_store ?s) (if (0::int) \<le> 0 then 100 else 0))"
    by (simp add: sampleIntake_def NewMemory_def ListUnnormalised_pending pending_def lookupOr_def)
  have work: "workable ?E (ds_store ?s) (raw_TenantID (sampleRaw ''sh_raw_1'' ''b'')) (raw_ID (sampleRaw ''sh_raw_1'' ''b''))
      (sampleRaw ''sh_raw_1'' ''b'') (sampleEndpoint\<lparr>ep_AdapterName := ''paystack''\<rparr>) (paystack (docLib [(''b'', paidDoc)]))"
    using sample_workable [of "[(''sh_raw_1'', ''b'')]" "''sh_raw_1''" "''b''" "[(''b'', paidDoc)]" "''paystack''"]
    by (simp add: sample_adapters)
  from sweep_progress [OF safe listed _ work, of 30 "\<lambda>_. ''sh_evt_1''"] show ?thesis by simp
qed

text \<open>
  Three events wait; the endpoint of the first is gone. With a batch of one it would stay in the way of the others, as
  the next theorem shows; with a batch of two they are done after three sweeps.
\<close>

definition oneGone :: Dispatcher where
  "oneGone = (let s = sampleIntake ''paystack'' [(''sh_raw_1'', ''b''), (''sh_raw_2'', ''b''), (''sh_raw_3'', ''b'')]
     in s\<lparr>ds_store := ds_store s\<lparr>mem_rawEvents :=
          (''sh_raw_1'', (sampleRaw ''sh_raw_1'' ''b'')\<lparr>raw_EndpointID := ''ep_0''\<rparr>) # tl (mem_rawEvents (ds_store s))\<rparr>\<rparr>)"

lemma oneGone_tables:
  "mem_endpoints (ds_store oneGone) = [(''ep_1'', sampleEndpoint\<lparr>ep_AdapterName := ''paystack''\<rparr>)]"
  "mem_rawEvents (ds_store oneGone) =
     [(''sh_raw_1'', (sampleRaw ''sh_raw_1'' ''b'')\<lparr>raw_EndpointID := ''ep_0''\<rparr>),
      (''sh_raw_2'', sampleRaw ''sh_raw_2'' ''b''), (''sh_raw_3'', sampleRaw ''sh_raw_3'' ''b'')]"
  by (simp_all add: oneGone_def sampleIntake_def)

lemma oneGone_processable:
  "processable (sampleNorm [(''b'', paidDoc)]) (ds_store oneGone) i \<longleftrightarrow> i = ''sh_raw_2'' \<or> i = ''sh_raw_3''"
proof
  assume "processable (sampleNorm [(''b'', paidDoc)]) (ds_store oneGone) i"
  then obtain raw ep a where w: "workable (sampleNorm [(''b'', paidDoc)]) (ds_store oneGone) (raw_TenantID raw) i raw ep a"
    unfolding processable_def by blast
  then have "map_of (mem_rawEvents (ds_store oneGone)) i = Some raw"
    by (auto simp: workable_def GetRawEvent_def split: option.splits if_splits)
  then consider "i = ''sh_raw_2'' \<or> i = ''sh_raw_3''" | "raw = (sampleRaw ''sh_raw_1'' ''b'')\<lparr>raw_EndpointID := ''ep_0''\<rparr>"
    unfolding oneGone_tables by (auto split: if_splits)
  then show "i = ''sh_raw_2'' \<or> i = ''sh_raw_3''"
  proof cases
    case 2
    with w show ?thesis by (simp add: workable_def GetEndpoint_def oneGone_tables)
  qed
next
  assume i: "i = ''sh_raw_2'' \<or> i = ''sh_raw_3''"
  have "ep_TenantID sampleEndpoint = ''tnt_1''" by (simp add: sampleEndpoint_def)
  then have "workable (sampleNorm [(''b'', paidDoc)]) (ds_store oneGone) (raw_TenantID (sampleRaw i ''b'')) i (sampleRaw i ''b'')
      (sampleEndpoint\<lparr>ep_AdapterName := ''paystack''\<rparr>) (paystack (docLib [(''b'', paidDoc)]))"
    using i by (auto simp: workable_def GetRawEvent_def GetEndpoint_def oneGone_tables sampleNorm_def sample_adapters)
  moreover have "i \<noteq> []" using i by auto
  ultimately show "processable (sampleNorm [(''b'', paidDoc)]) (ds_store oneGone) i"
    unfolding processable_def by (intro conjI exI [of _ "sampleRaw i ''b''"] exI) simp_all
qed

lemma oneGone_backlog: "backlog (ds_store oneGone) = [''sh_raw_1'', ''sh_raw_2'', ''sh_raw_3'']"
  by (simp add: backlog_def oneGone_def sampleIntake_def NewMemory_def pending_def lookupOr_def)

theorem sweeps_drain_witness:
  "backlog (ds_store oneGone) = [''sh_raw_1'', ''sh_raw_2'', ''sh_raw_3'']
   \<and> list_all (\<lambda>raw. \<exists>i. raw = lookupOr zeroRaw (mem_rawEvents
        (ds_store (((\<lambda>s. sweep (sampleNorm [(''b'', paidDoc)]) 30 (\<lambda>_. ''sh_evt_1'') 2 s) ^^ 3) oneGone))) i
       \<and> i \<noteq> ''sh_raw_2'' \<and> i \<noteq> ''sh_raw_3'')
      (ListUnnormalised (ds_store (((\<lambda>s. sweep (sampleNorm [(''b'', paidDoc)]) 30 (\<lambda>_. ''sh_evt_1'') 2 s) ^^ 3) oneGone)) 10)"
proof -
  let ?E = "sampleNorm [(''b'', paidDoc)]"
  have safe: "registry_safe (ne_registry ?E)" by (simp add: sampleNorm_def NewRegistry_safe)
  have few: "length (filter (\<lambda>i. \<not> processable ?E (ds_store oneGone) i) (backlog (ds_store oneGone))) < nat (if (2::int) \<le> 0 then 100 else 2)"
    unfolding oneGone_processable oneGone_backlog by simp
  have three: "length (backlog (ds_store oneGone)) \<le> 3" unfolding oneGone_backlog by simp
  from conjunct1 [OF sweeps_drain [OF safe three few refl, of 30 "\<lambda>_. ''sh_evt_1''" 10]] oneGone_backlog show ?thesis
    unfolding oneGone_processable de_Morgan_disj list_all_iff by (intro conjI)
qed

theorem sweep_starves_witness:
  "let s = sampleIntake ''paystack'' [(''sh_raw_1'', ''b''), (''sh_raw_2'', ''b'')];
       s = s\<lparr>ds_store := ds_store s\<lparr>mem_rawEvents := (''sh_raw_1'', (sampleRaw ''sh_raw_1'' ''b'')\<lparr>raw_EndpointID := ''ep_0''\<rparr>) # tl (mem_rawEvents (ds_store s))\<rparr>\<rparr>
   in ((\<lambda>s. sweep (sampleNorm [(''b'', paidDoc)]) 30 (\<lambda>_. ''sh_evt_1'') 1 s) ^^ 1000) s = s
    \<and> map_of (mem_rawEvents (ds_store s)) ''sh_raw_2'' = Some (sampleRaw ''sh_raw_2'' ''b'')"
proof -
  let ?s0 = "sampleIntake ''paystack'' [(''sh_raw_1'', ''b''), (''sh_raw_2'', ''b'')]"
  let ?gone = "(sampleRaw ''sh_raw_1'' ''b'')\<lparr>raw_EndpointID := ''ep_0''\<rparr>"
  let ?s = "?s0\<lparr>ds_store := ds_store ?s0\<lparr>mem_rawEvents := (''sh_raw_1'', ?gone) # tl (mem_rawEvents (ds_store ?s0))\<rparr>\<rparr>"
  have "ListUnnormalised (ds_store ?s) 1 = [?gone]"
    by (simp add: sampleIntake_def NewMemory_def ListUnnormalised_pending pending_def lookupOr_def)
  then have gone: "\<forall>raw\<in>set (ListUnnormalised (ds_store ?s) (if (1::int) \<le> 0 then 100 else 1)).
     \<exists>err. GetEndpoint (ds_store ?s) (raw_TenantID raw) (raw_EndpointID raw) = Inl err"
    by (simp add: sampleIntake_def GetEndpoint_def)
  have "table_wf raw_ID (mem_rawEvents (ds_store ?s))" by (simp add: table_wf_def sampleIntake_def)
  from sweep_starves [OF gone this, of 1000 "sampleNorm [(''b'', paidDoc)]" 30 "\<lambda>_. ''sh_evt_1''"]
  show ?thesis by (simp add: Let_def) (simp add: sampleIntake_def)
qed

text \<open>The same NIBSS session, first in progress and then successful.\<close>

definition nibssDoc :: "string \<Rightarrow> json" where
  "nibssDoc code = JObject [(''sessionId'', JString ''S1''), (''paymentReference'', JString ''P1''), (''responseCode'', JString code)]"

theorem held_identifier_dropped_witness:
  "let E = sampleNorm [(''p'', nibssDoc ''09''), (''q'', nibssDoc ''00'')];
       s = fst (Process E 30 ''sh_evt_1'' ''sh_raw_1'' ''tnt_1'' (sampleIntake ''nibss'' [(''sh_raw_1'', ''p''), (''sh_raw_2'', ''q'')]))
   in map ev_Status (map snd (mem_events (ds_store s))) = [StatusPending]
    \<and> mem_events (ds_store (fst (Process E 40 ''sh_evt_2'' ''sh_raw_2'' ''tnt_1'' s))) = mem_events (ds_store s)"
proof -
  let ?docs = "[(''p'', nibssDoc ''09''), (''q'', nibssDoc ''00'')]" and ?raws = "[(''sh_raw_1'', ''p''), (''sh_raw_2'', ''q'')]"
  let ?E = "sampleNorm ?docs" and ?a = "nibss (docLib ?docs)" and ?ep = "sampleEndpoint\<lparr>ep_AdapterName := ''nibss''\<rparr>"
  let ?s = "fst (Process ?E 30 ''sh_evt_1'' ''sh_raw_1'' ''tnt_1'' (sampleIntake ''nibss'' ?raws))"
  have run: "map ev_Status (map snd (mem_events (ds_store ?s))) = [StatusPending]
      \<and> map_of (mem_eventKeys (ds_store ?s)) (eventKey ''tnt_1'' ''paystack'' ''S1'') = Some ''sh_evt_1''"
    by code_simp
  have "case nibssParse (docLib ?docs) ''q'' of Inr ev \<Rightarrow> ev_ProviderEventID ev = ''S1'' | Inl _ \<Rightarrow> False" by code_simp
  then obtain ev where ev: "ad_Parse ?a (raw_Body (sampleRaw ''sh_raw_2'' ''q'')) = Inr ev" "ev_ProviderEventID ev = ''S1''"
    by (auto simp: nibss_def split: sum.splits)
  have work: "workable ?E (ds_store ?s) ''tnt_1'' ''sh_raw_2'' (sampleRaw ''sh_raw_2'' ''q'') ?ep ?a"
    using sample_workable [of ?raws "''sh_raw_2''" "''q''" ?docs "''nibss''" ?a] by (simp add: workable_frame sample_adapters)
  have key: "map_of (mem_eventKeys (ds_store ?s)) (eventKey ''tnt_1'' (ep_Provider ?ep) (ev_ProviderEventID ev)) = Some ''sh_evt_1''"
    using run ev(2) by (simp add: sampleEndpoint_def)
  from held_identifier_dropped [OF work ev(1) _ key] ev(2) run show ?thesis by simp
qed

theorem same_body_stored_twice_witness:
  "let E = sampleNorm [(''b'', paidDoc)];
       s1 = fst (Process E 30 ''sh_evt_1'' ''sh_raw_1'' ''tnt_1'' (sampleIntake ''paystack'' [(''sh_raw_1'', ''b''), (''sh_raw_2'', ''b'')]))
   in snd (Process E 40 ''sh_evt_2'' ''sh_raw_2'' ''tnt_1'' s1) = ProcDone"
proof -
  let ?docs = "[(''b'', paidDoc)]" and ?raws = "[(''sh_raw_1'', ''b''), (''sh_raw_2'', ''b'')]"
  let ?E = "sampleNorm ?docs" and ?a = "paystack (docLib [(''b'', paidDoc)])" and ?s0 = "sampleIntake ''paystack'' [(''sh_raw_1'', ''b''), (''sh_raw_2'', ''b'')]"
  let ?s1 = "fst (Process ?E 30 ''sh_evt_1'' ''sh_raw_1'' ''tnt_1'' ?s0)"
  have "snd (Process ?E 30 ''sh_evt_1'' ''sh_raw_1'' ''tnt_1'' ?s0) = ProcDone" by code_simp
  then have done1: "Process ?E 30 ''sh_evt_1'' ''sh_raw_1'' ''tnt_1'' ?s0 = (?s1, ProcDone)" by (simp add: prod_eq_iff)
  have w: "workable ?E (ds_store ?s0) ''tnt_1'' i (sampleRaw i ''b'') (sampleEndpoint\<lparr>ep_AdapterName := ''paystack''\<rparr>) ?a"
    if "i = ''sh_raw_1'' \<or> i = ''sh_raw_2''" for i
    using that sample_workable [of ?raws i "''b''" ?docs "''paystack''" ?a] by (auto simp: sample_adapters)
  have "workable ?E (ds_store ?s1) ''tnt_1'' ''sh_raw_2'' (sampleRaw ''sh_raw_2'' ''b'')
      (sampleEndpoint\<lparr>ep_AdapterName := ''paystack''\<rparr>) ?a"
    by (simp add: workable_frame w)
  from same_body_stored_twice [OF w done1 this, of "''sh_evt_2''" 40 "''h''"] show ?thesis by simp
qed

end
