(* ===== verification/Net_Addr.thy ===== *)
theory Net_Addr
  imports Go_Prelude "HOL-Library.Word"
begin

text \<open>
  The part of Go's \<^verbatim>\<open>net/netip\<close> the receiver and the outbound guard rely on: IPv4 and IPv6 addresses as
  words, IPv6 zones, the address classes and prefix containment. Two details matter to the callers. A
  prefix never contains an address that carries a zone, and an IPv4 prefix never contains an IPv4-mapped
  IPv6 address. Text is parsed and printed by the library, which the fields of \<open>NetLib\<close> stand for.
\<close>

unbundle bit_operations_syntax

section \<open>Addresses\<close>

datatype Addr =
    AddrInvalid
  | Addr4 "32 word"
  | Addr6 "128 word" string

datatype Prefix =
    Prefix4 "32 word" nat
  | Prefix6 "128 word" nat

record NetLib =
  nl_ParseAddr :: "string \<Rightarrow> Addr option"
  nl_ParsePrefix :: "string \<Rightarrow> Prefix option"
  nl_String :: "Addr \<Rightarrow> string"
  nl_PrefixString :: "Prefix \<Rightarrow> string"
  nl_SplitHostPort :: "string \<Rightarrow> (string \<times> string) option"

fun IsValid :: "Addr \<Rightarrow> bool" where
  "IsValid AddrInvalid = False"
| "IsValid _ = True"

fun Is4 :: "Addr \<Rightarrow> bool" where
  "Is4 (Addr4 _) = True"
| "Is4 _ = False"

text \<open>The IPv4-mapped block is \<^verbatim>\<open>::ffff:0:0/96\<close>; unmapping forgets the zone.\<close>

fun Unmap :: "Addr \<Rightarrow> Addr" where
  "Unmap (Addr6 w z) = (if drop_bit 32 w = 0xffff then Addr4 (ucast w) else Addr6 w z)"
| "Unmap a = a"

definition v4byte :: "nat \<Rightarrow> 32 word \<Rightarrow> nat" where
  "v4byte i w = unat w div 2 ^ (24 - 8 * i) mod 256"

text \<open>The first sixteen bits of an IPv6 address.\<close>

definition v6head :: "128 word \<Rightarrow> nat" where
  "v6head w = unat w div 2 ^ 112"

fun loopback :: "Addr \<Rightarrow> bool" where
  "loopback (Addr4 w) = (v4byte 0 w = 127)"
| "loopback (Addr6 w z) = (w = 1)"
| "loopback AddrInvalid = False"

definition IsLoopback :: "Addr \<Rightarrow> bool" where "IsLoopback a = loopback (Unmap a)"

fun privateAddr :: "Addr \<Rightarrow> bool" where
  "privateAddr (Addr4 w) =
     (v4byte 0 w = 10 \<or> (v4byte 0 w = 172 \<and> v4byte 1 w AND 0xf0 = 16) \<or> (v4byte 0 w = 192 \<and> v4byte 1 w = 168))"
| "privateAddr (Addr6 w z) = (v6head w div 256 AND 0xfe = 0xfc)"
| "privateAddr AddrInvalid = False"

definition IsPrivate :: "Addr \<Rightarrow> bool" where "IsPrivate a = privateAddr (Unmap a)"

fun linkLocalUnicast :: "Addr \<Rightarrow> bool" where
  "linkLocalUnicast (Addr4 w) = (v4byte 0 w = 169 \<and> v4byte 1 w = 254)"
| "linkLocalUnicast (Addr6 w z) = (v6head w AND 0xffc0 = 0xfe80)"
| "linkLocalUnicast AddrInvalid = False"

definition IsLinkLocalUnicast :: "Addr \<Rightarrow> bool" where "IsLinkLocalUnicast a = linkLocalUnicast (Unmap a)"

fun linkLocalMulticast :: "Addr \<Rightarrow> bool" where
  "linkLocalMulticast (Addr4 w) = (v4byte 0 w = 224 \<and> v4byte 1 w = 0 \<and> v4byte 2 w = 0)"
| "linkLocalMulticast (Addr6 w z) = (v6head w AND 0xff0f = 0xff02)"
| "linkLocalMulticast AddrInvalid = False"

definition IsLinkLocalMulticast :: "Addr \<Rightarrow> bool" where "IsLinkLocalMulticast a = linkLocalMulticast (Unmap a)"

fun multicast :: "Addr \<Rightarrow> bool" where
  "multicast (Addr4 w) = (v4byte 0 w AND 0xf0 = 0xe0)"
| "multicast (Addr6 w z) = (v6head w div 256 = 0xff)"
| "multicast AddrInvalid = False"

definition IsMulticast :: "Addr \<Rightarrow> bool" where "IsMulticast a = multicast (Unmap a)"

fun interfaceLocalMulticast :: "Addr \<Rightarrow> bool" where
  "interfaceLocalMulticast (Addr6 w z) = (v6head w AND 0xff0f = 0xff01)"
| "interfaceLocalMulticast _ = False"

definition IsInterfaceLocalMulticast :: "Addr \<Rightarrow> bool" where
  "IsInterfaceLocalMulticast a = interfaceLocalMulticast (Unmap a)"

definition IsUnspecified :: "Addr \<Rightarrow> bool" where
  "IsUnspecified a \<longleftrightarrow> a = Addr4 0 \<or> a = Addr6 0 []"

fun PrefixContains :: "Prefix \<Rightarrow> Addr \<Rightarrow> bool" where
  "PrefixContains (Prefix4 p n) (Addr4 a) = (drop_bit (32 - n) (a XOR p) = 0)"
| "PrefixContains (Prefix6 p n) (Addr6 a z) = (z = [] \<and> drop_bit (128 - n) (a XOR p) = 0)"
| "PrefixContains _ _ = False"

section \<open>Containment as division\<close>

lemma XOR_eq_0: "a XOR b = 0 \<longleftrightarrow> a = (b :: 'a::len word)"
  by (metis xor.assoc xor.right_neutral xor_self_eq)

lemma drop_bit_XOR_eq_0:
  "drop_bit n (a XOR b) = 0 \<longleftrightarrow> drop_bit n a = drop_bit n (b :: 'a::len word)"
  by (simp only: drop_bit_xor XOR_eq_0)

lemma div_interval: "0 < k \<Longrightarrow> (a :: nat) div k = c \<longleftrightarrow> c * k \<le> a \<and> a < (c + 1) * k"
  by (metis Suc_eq_plus1 div_nat_eqI div_times_less_eq_dividend dividend_less_times_div mult.commute mult_Suc_right)

lemma PrefixContains_div:
  "PrefixContains (Prefix4 p n) (Addr4 a) \<longleftrightarrow> unat a div 2 ^ (32 - n) = unat p div 2 ^ (32 - n)"
  "PrefixContains (Prefix6 q n) (Addr6 b z) \<longleftrightarrow> z = [] \<and> unat b div 2 ^ (128 - n) = unat q div 2 ^ (128 - n)"
  unfolding PrefixContains.simps drop_bit_XOR_eq_0 unfolding word_unat_eq_iff unat_drop_bit_eq by (simp_all add: drop_bit_eq_div)

lemma PrefixContains_mixed:
  "\<not> PrefixContains (Prefix4 p n) (Addr6 a z)" "\<not> PrefixContains (Prefix6 q n) (Addr4 b)"
  by simp_all

section \<open>Masks\<close>

lemma and_high_mask:
  assumes "x < (2 :: nat) ^ (n + k)"
  shows "x AND push_bit n (mask k) = x div 2 ^ n * 2 ^ n"
proof -
  have len: "m < n + k" if "bit x m" for m
    using that assms by (metis bit_take_bit_iff take_bit_nat_eq_self)
  have "x AND push_bit n (mask k) = push_bit n (drop_bit n x)"
    by (rule bit_eqI) (auto simp: bit_simps dest: len)
  then show ?thesis by (simp add: push_bit_eq_mult drop_bit_eq_div)
qed

lemma byte_masks:
  assumes "x < (256 :: nat)"
  shows "x AND 0xf0 = 16 \<longleftrightarrow> x div 16 = 1" "x AND 0xf0 = 0xe0 \<longleftrightarrow> x div 16 = 14" "x AND 0xfe = 0xfc \<longleftrightarrow> x div 2 = 126"
  using and_high_mask [of x 4 4] and_high_mask [of x 1 7] assms
  by (simp_all add: mask_eq_exp_minus_1 push_bit_eq_mult)

lemma head_mask:
  assumes "x < (65536 :: nat)"
  shows "x AND 0xffc0 = 0xfe80 \<longleftrightarrow> x div 64 = 0x3fa"
  using and_high_mask [of x 6 10] assms by (simp add: mask_eq_exp_minus_1 push_bit_eq_mult)

lemma multicast_mask:
  assumes "x < (65536 :: nat)" "x AND 0xff0f = v" "v div 256 = 255"
  shows "x div 256 = 255"
proof -
  have "drop_bit 8 x AND 0xff = drop_bit 8 (x AND 0xff0f)" unfolding drop_bit_and by (simp add: drop_bit_eq_div)
  also have "\<dots> = 255" using assms(2,3) by (simp add: drop_bit_eq_div)
  finally have "drop_bit 8 x AND mask 8 = 255" by (simp add: mask_eq_exp_minus_1)
  moreover have "drop_bit 8 x < 2 ^ 8" using assms(1) by (simp add: drop_bit_eq_div)
  ultimately show ?thesis by (simp add: take_bit_nat_eq_self flip: take_bit_eq_mask) (simp add: drop_bit_eq_div)
qed

lemma unat_bounds: "unat (w :: 32 word) < 2 ^ 32" "unat (u :: 128 word) < 2 ^ 128"
  using unsigned_less [of w] unsigned_less [of u] by simp_all

lemma v4byte_0: "v4byte 0 w = unat w div 16777216"
  using unat_bounds(1) [of w] by (simp add: v4byte_def)

lemma v4byte_bound: "v4byte i w < 256"
  by (simp add: v4byte_def)

lemma v6head_bound: "v6head w < 65536"
  using unat_bounds(2) [of w] by (simp add: v6head_def less_mult_imp_div_less)

end
