(* ===== verification/Guard.thy ===== *)
theory Guard
  imports Net_Addr
begin

text \<open>
  The outbound address guard, \<^verbatim>\<open>internal/dispatch/ssrf.go\<close>: destination URLs are checked when they are
  registered and the address of every connection again when it is dialled. The URL parser, the resolver
  and the dialler are parameters. \<open>reserved4\<close> and \<open>reserved6\<close> restate, as address intervals, what must never be
  reached, and \<open>CheckAddr\<close> is compared with them.
\<close>

section \<open>Definitions\<close>

datatype guard_error =
    GuardNotURL string
  | GuardNotHTTPS
  | GuardNoHost
  | GuardNoAddress string string
  | GuardPrivate string
  | GuardBadCIDR string
  | GuardBadAddress
  | GuardDial string

record Guard =
  gd_extraBlocked :: "Prefix list"
  gd_allowPrivate :: bool

text \<open>What the checks call: \<open>url.Parse\<close> (scheme and host name), the resolver, and a connection attempt.\<close>

record GuardNet =
  gn_net :: NetLib
  gn_parseURL :: "string \<Rightarrow> string + string \<times> string"
  gn_lookup :: "string \<Rightarrow> string + Addr list"
  gn_dial :: "Addr \<Rightarrow> string \<Rightarrow> string option"

fun parseCIDRs :: "NetLib \<Rightarrow> string list \<Rightarrow> guard_error + Prefix list" where
  "parseCIDRs N [] = Inr []"
| "parseCIDRs N (c # cs) =
     (case nl_ParsePrefix N (TrimSpace c) of
        None \<Rightarrow> Inl (GuardBadCIDR c)
      | Some p \<Rightarrow> (case parseCIDRs N cs of Inl err \<Rightarrow> Inl err | Inr ps \<Rightarrow> Inr (p # ps)))"

definition NewGuard :: "NetLib \<Rightarrow> string list \<Rightarrow> bool \<Rightarrow> guard_error + Guard" where
  "NewGuard N blockedCIDRs allowPrivate =
     (case parseCIDRs N blockedCIDRs of
        Inl err \<Rightarrow> Inl err
      | Inr ps \<Rightarrow> Inr \<lparr>gd_extraBlocked = ps, gd_allowPrivate = allowPrivate\<rparr>)"

definition universallyBlocked :: "Prefix list" where
  "universallyBlocked =
     [Prefix4 0x00000000 8, Prefix4 0x64400000 10, Prefix4 0xC0000000 24, Prefix4 0xC0000200 24,
      Prefix4 0xC0586300 24, Prefix4 0xC6120000 15, Prefix4 0xC6336400 24, Prefix4 0xCB007100 24,
      Prefix4 0xF0000000 4, Prefix4 0xFFFFFFFF 32,
      Prefix6 0 128, Prefix6 0x0064FF9B000000000000000000000000 96, Prefix6 0x01000000000000000000000000000000 64,
      Prefix6 0x20010DB8000000000000000000000000 32, Prefix6 0xFC000000000000000000000000000000 7]"

fun blockedBy :: "Prefix list \<Rightarrow> Addr \<Rightarrow> Prefix option" where
  "blockedBy [] a = None"
| "blockedBy (p # ps) a = (if PrefixContains p a then Some p else blockedBy ps a)"

definition CheckAddr :: "NetLib \<Rightarrow> Guard \<Rightarrow> Addr \<Rightarrow> guard_error option" where
  "CheckAddr N g a =
     (if gd_allowPrivate g then None
      else if \<not> IsValid a then Some (GuardPrivate ''invalid address'')
      else
        let a = Unmap a
        in if IsLoopback a then Some (GuardPrivate (nl_String N a @ '' is loopback''))
           else if IsPrivate a then Some (GuardPrivate (nl_String N a @ '' is in a private range''))
           else if IsLinkLocalUnicast a \<or> IsLinkLocalMulticast a
                then Some (GuardPrivate (nl_String N a @ '' is link-local, which is where cloud metadata lives''))
           else if IsUnspecified a then Some (GuardPrivate (nl_String N a @ '' is unspecified''))
           else if IsMulticast a then Some (GuardPrivate (nl_String N a @ '' is multicast''))
           else if IsInterfaceLocalMulticast a then Some (GuardPrivate (nl_String N a @ '' is interface-local''))
           else case blockedBy (gd_extraBlocked g @ universallyBlocked) a of
                  Some p \<Rightarrow> Some (GuardPrivate (nl_String N a @ '' is in the blocked range '' @ nl_PrefixString N p))
                | None \<Rightarrow> None)"

fun checkAll :: "NetLib \<Rightarrow> Guard \<Rightarrow> Addr list \<Rightarrow> guard_error option" where
  "checkAll N g [] = None"
| "checkAll N g (a # as) = (case CheckAddr N g a of Some err \<Rightarrow> Some err | None \<Rightarrow> checkAll N g as)"

definition CheckURL :: "GuardNet \<Rightarrow> Guard \<Rightarrow> string \<Rightarrow> guard_error option" where
  "CheckURL G g raw =
     (case gn_parseURL G raw of
        Inl err \<Rightarrow> Some (GuardNotURL err)
      | Inr (scheme, host) \<Rightarrow>
          if scheme \<noteq> ''https'' then Some GuardNotHTTPS
          else if host = [] then Some GuardNoHost
          else case nl_ParseAddr (gn_net G) host of
                 Some a \<Rightarrow> CheckAddr (gn_net G) g a
               | None \<Rightarrow>
                   (case gn_lookup G host of
                      Inl err \<Rightarrow> Some (GuardNoAddress host err)
                    | Inr as \<Rightarrow> if as = [] then Some (GuardNoAddress host []) else checkAll (gn_net G) g as))"

text \<open>The dialler returns the address it connected to; \<open>gn_dial\<close> is \<^const>\<open>None\<close> when the connection succeeds.\<close>

fun dialFirst :: "GuardNet \<Rightarrow> string \<Rightarrow> Addr list \<Rightarrow> guard_error \<Rightarrow> guard_error + Addr" where
  "dialFirst G port [] err = Inl err"
| "dialFirst G port (a # as) err =
     (case gn_dial G a port of None \<Rightarrow> Inr a | Some e \<Rightarrow> dialFirst G port as (GuardDial e))"

definition DialContext :: "GuardNet \<Rightarrow> Guard \<Rightarrow> string \<Rightarrow> guard_error + Addr" where
  "DialContext G g address =
     (case nl_SplitHostPort (gn_net G) address of
        None \<Rightarrow> Inl GuardBadAddress
      | Some (host, port) \<Rightarrow>
          (case gn_lookup G host of
             Inl err \<Rightarrow> Inl (GuardNoAddress host err)
           | Inr as \<Rightarrow>
               (case checkAll (gn_net G) g as of
                  Some err \<Rightarrow> Inl err
                | None \<Rightarrow> dialFirst G port as (GuardNoAddress host []))))"

section \<open>The ranges as intervals\<close>

type_synonym interval = "nat \<times> nat"

definition within :: "interval list \<Rightarrow> nat \<Rightarrow> bool" where
  "within rs n \<longleftrightarrow> (\<exists>(lo, hi)\<in>set rs. lo \<le> n \<and> n < hi)"

definition quad :: "nat \<Rightarrow> nat \<Rightarrow> nat \<Rightarrow> nat \<Rightarrow> nat" where
  "quad a b c d = a * 16777216 + b * 65536 + c * 256 + d"

text \<open>This network, private, shared, loopback, link-local, protocol assignments, documentation, relay anycast,
  benchmarking, multicast and everything above it.\<close>

definition reserved4 :: "interval list" where
  "reserved4 =
     [(quad 0 0 0 0, quad 1 0 0 0), (quad 10 0 0 0, quad 11 0 0 0), (quad 100 64 0 0, quad 100 128 0 0),
      (quad 127 0 0 0, quad 128 0 0 0), (quad 169 254 0 0, quad 169 255 0 0), (quad 172 16 0 0, quad 172 32 0 0),
      (quad 192 0 0 0, quad 192 0 1 0), (quad 192 0 2 0, quad 192 0 3 0), (quad 192 88 99 0, quad 192 88 100 0),
      (quad 192 168 0 0, quad 192 169 0 0), (quad 198 18 0 0, quad 198 20 0 0), (quad 198 51 100 0, quad 198 51 101 0),
      (quad 203 0 113 0, quad 203 0 114 0), (quad 224 0 0 0, quad 256 0 0 0)]"

definition reserved6 :: "interval list" where
  "reserved6 =
     [(0, 2), (0x0064FF9B * 2 ^ 96, 0x0064FF9B * 2 ^ 96 + 2 ^ 32), (0x0100 * 2 ^ 112, 0x0100 * 2 ^ 112 + 2 ^ 64),
      (0x20010DB8 * 2 ^ 96, 0x20010DB9 * 2 ^ 96), (0xFC00 * 2 ^ 112, 0xFE00 * 2 ^ 112),
      (0xFE80 * 2 ^ 112, 0xFEC0 * 2 ^ 112), (0xFF00 * 2 ^ 112, 2 ^ 128)]"

lemma two_bytes:
  assumes "b < 256"
  shows "v4byte 0 w = a \<and> v4byte 1 w = b \<longleftrightarrow> unat w div 65536 = a * 256 + b"
proof -
  have "unat w div 16777216 = unat w div 65536 div 256" by (simp flip: div_mult2_eq)
  moreover have "y div 256 = a \<and> y mod 256 = b \<longleftrightarrow> y = a * 256 + b" for y :: nat
    using assms by (auto simp: mult.commute)
  ultimately show ?thesis unfolding v4byte_0 by (simp add: v4byte_def)
qed

lemma byte_and_half:
  assumes "b < 16"
  shows "v4byte 0 w = a \<and> v4byte 1 w div 16 = b \<longleftrightarrow> unat w div 1048576 = a * 16 + b"
proof -
  have "unat w div 16777216 = unat w div 1048576 div 16" by (simp flip: div_mult2_eq)
  moreover have "unat w div 65536 mod 256 div 16 = unat w div 1048576 mod 16"
    using drop_bit_take_bit [of 4 8 "unat w div 65536"]
    by (simp add: drop_bit_eq_div take_bit_eq_mod flip: div_mult2_eq)
  moreover have "y div 16 = a \<and> y mod 16 = b \<longleftrightarrow> y = a * 16 + b" for y :: nat
    using assms by (auto simp: mult.commute)
  ultimately show ?thesis unfolding v4byte_0 by (simp add: v4byte_def)
qed

lemma classes4:
  "IsLoopback (Addr4 w) \<longleftrightarrow> unat w div 16777216 = 127"
  "IsLinkLocalUnicast (Addr4 w) \<longleftrightarrow> unat w div 65536 = 43518"
  "IsMulticast (Addr4 w) \<longleftrightarrow> unat w div 268435456 = 14"
  "IsPrivate (Addr4 w) \<longleftrightarrow>
     unat w div 16777216 = 10 \<or> unat w div 1048576 = 2753 \<or> unat w div 65536 = 49320"
proof -
  have "unat w div 16777216 div 16 = unat w div 268435456" by (simp flip: div_mult2_eq)
  then show "IsMulticast (Addr4 w) \<longleftrightarrow> unat w div 268435456 = 14"
    using byte_masks(2) [OF v4byte_bound, of 0 w] by (simp add: IsMulticast_def v4byte_0)
  show "IsPrivate (Addr4 w) \<longleftrightarrow>
      unat w div 16777216 = 10 \<or> unat w div 1048576 = 2753 \<or> unat w div 65536 = 49320"
    using byte_and_half [of 1 w 172] two_bytes [of 168 w 192] byte_masks(1) [OF v4byte_bound, of 1 w]
    by (simp add: IsPrivate_def v4byte_0)
  show "IsLoopback (Addr4 w) \<longleftrightarrow> unat w div 16777216 = 127" by (simp add: IsLoopback_def v4byte_0)
  show "IsLinkLocalUnicast (Addr4 w) \<longleftrightarrow> unat w div 65536 = 43518"
    using two_bytes [of 254 w 169] by (simp add: IsLinkLocalUnicast_def)
qed

lemma blockedBy_None: "blockedBy ps a = None \<longleftrightarrow> (\<forall>p\<in>set ps. \<not> PrefixContains p a)"
  by (induction ps) auto

lemma Unmap_idem [simp]: "Unmap (Unmap a) = Unmap a"
  by (cases a) simp_all

lemma IsValid_Unmap [simp]: "IsValid (Unmap a) = IsValid a"
  by (cases a) simp_all

definition accepts :: "Guard \<Rightarrow> Addr \<Rightarrow> bool" where
  "accepts g a \<longleftrightarrow> \<not> (IsLoopback a \<or> IsPrivate a \<or> IsLinkLocalUnicast a \<or> IsLinkLocalMulticast a \<or> IsUnspecified a
     \<or> IsMulticast a \<or> IsInterfaceLocalMulticast a \<or> (\<exists>p\<in>set (gd_extraBlocked g @ universallyBlocked). PrefixContains p a))"

lemma CheckAddr_accepts:
  "\<not> gd_allowPrivate g \<Longrightarrow> CheckAddr N g a = None \<longleftrightarrow> IsValid a \<and> accepts g (Unmap a)"
  using blockedBy_None [of "gd_extraBlocked g @ universallyBlocked" "Unmap a"]
  by (cases "blockedBy (gd_extraBlocked g @ universallyBlocked) (Unmap a)") (auto simp: CheckAddr_def Let_def accepts_def)

lemma blocked4:
  "(\<exists>p\<in>set universallyBlocked. PrefixContains p (Addr4 w)) \<longleftrightarrow>
     unat w div 16777216 = 0 \<or> unat w div 4194304 = 401 \<or> unat w div 256 \<in> {12582912, 12582914, 12605539, 12989284, 13303921}
   \<or> unat w div 131072 = 25353 \<or> unat w div 268435456 = 15"
proof -
  have "unat w = 4294967295 \<Longrightarrow> unat w div 268435456 = 15" by simp
  moreover have "(\<exists>p\<in>set universallyBlocked. PrefixContains p (Addr4 w)) \<longleftrightarrow>
     unat w div 16777216 = 0 \<or> unat w div 4194304 = 401 \<or> unat w div 256 \<in> {12582912, 12582914, 12605539, 12989284, 13303921}
   \<or> unat w div 131072 = 25353 \<or> unat w div 268435456 = 15 \<or> unat w = 4294967295"
    unfolding universallyBlocked_def list.set bex_simps PrefixContains_div PrefixContains_mixed
    by (simp add: disj_ac)
  ultimately show ?thesis by blast
qed

lemma reserved4_div:
  assumes "n < 2 ^ 32"
  shows "within reserved4 n \<longleftrightarrow>
     n div 16777216 \<in> {0, 10, 127} \<or> n div 4194304 = 401 \<or> n div 1048576 = 2753 \<or> n div 65536 \<in> {43518, 49320}
   \<or> n div 256 \<in> {12582912, 12582914, 12605539, 12989284, 13303921} \<or> n div 131072 = 25353
   \<or> n div 268435456 \<in> {14, 15}"
proof -
  have "n div 268435456 \<in> {14, 15} \<longleftrightarrow> 3758096384 \<le> n" using assms by auto
  then show ?thesis using assms
    by (simp add: within_def reserved4_def quad_def div_interval) argo
qed

lemma accepts4:
  "accepts g (Addr4 w) \<longleftrightarrow> \<not> within reserved4 (unat w) \<and> (\<forall>p\<in>set (gd_extraBlocked g). \<not> PrefixContains p (Addr4 w))"
proof -
  have ll: "IsLinkLocalMulticast (Addr4 w) \<Longrightarrow> IsMulticast (Addr4 w)"
    by (simp add: IsLinkLocalMulticast_def IsMulticast_def)
  have un: "IsUnspecified (Addr4 w) \<Longrightarrow> unat w div 16777216 = 0" by (simp add: IsUnspecified_def)
  have "\<not> IsInterfaceLocalMulticast (Addr4 w)" by (simp add: IsInterfaceLocalMulticast_def)
  then have "accepts g (Addr4 w) \<longleftrightarrow> \<not> (IsLoopback (Addr4 w) \<or> IsPrivate (Addr4 w) \<or> IsLinkLocalUnicast (Addr4 w)
      \<or> IsMulticast (Addr4 w) \<or> (\<exists>p\<in>set universallyBlocked. PrefixContains p (Addr4 w)))
      \<and> (\<forall>p\<in>set (gd_extraBlocked g). \<not> PrefixContains p (Addr4 w))"
    using ll un blocked4 [of w] unfolding accepts_def set_append by blast
  moreover have "IsLoopback (Addr4 w) \<or> IsPrivate (Addr4 w) \<or> IsLinkLocalUnicast (Addr4 w) \<or> IsMulticast (Addr4 w)
      \<or> (\<exists>p\<in>set universallyBlocked. PrefixContains p (Addr4 w)) \<longleftrightarrow> within reserved4 (unat w)"
    unfolding blocked4 classes4 reserved4_div [OF unat_bounds(1)] by blast
  ultimately show ?thesis by simp
qed

section \<open>IPv6\<close>

lemma classes6:
  assumes "drop_bit 32 w \<noteq> 0xffff"
  shows "IsLoopback (Addr6 w z) \<longleftrightarrow> unat w = 1"
    "IsPrivate (Addr6 w z) \<longleftrightarrow> unat w div 2 ^ 121 = 126"
    "IsLinkLocalUnicast (Addr6 w z) \<longleftrightarrow> unat w div 2 ^ 118 = 0x3fa"
    "IsMulticast (Addr6 w z) \<longleftrightarrow> unat w div 2 ^ 120 = 255"
proof -
  have b: "v6head w div 256 < 256" using v6head_bound [of w] by simp
  have d: "v6head w div 256 = unat w div 2 ^ 120" "v6head w div 64 = unat w div 2 ^ 118" "v6head w div 256 div 2 = unat w div 2 ^ 121"
    unfolding v6head_def by (simp_all flip: div_mult2_eq)
  show "IsLoopback (Addr6 w z) \<longleftrightarrow> unat w = 1" using assms by (simp add: IsLoopback_def word_unat_eq_iff)
  show "IsPrivate (Addr6 w z) \<longleftrightarrow> unat w div 2 ^ 121 = 126"
    using assms byte_masks(3) [OF b] by (simp add: IsPrivate_def d(3))
  show "IsLinkLocalUnicast (Addr6 w z) \<longleftrightarrow> unat w div 2 ^ 118 = 0x3fa"
    using assms head_mask [OF v6head_bound [of w]] by (simp add: IsLinkLocalUnicast_def d(2))
  show "IsMulticast (Addr6 w z) \<longleftrightarrow> unat w div 2 ^ 120 = 255"
    using assms by (simp add: IsMulticast_def d(1))
qed

lemma blocked6:
  "(\<exists>p\<in>set universallyBlocked. PrefixContains p (Addr6 w [])) \<longleftrightarrow>
     unat w = 0 \<or> unat w div 2 ^ 32 = 0x0064FF9B * 2 ^ 64 \<or> unat w div 2 ^ 64 = 0x0100 * 2 ^ 48
   \<or> unat w div 2 ^ 96 = 0x20010DB8 \<or> unat w div 2 ^ 121 = 126"
  unfolding universallyBlocked_def list.set bex_simps PrefixContains_div PrefixContains_mixed by simp

lemma reserved6_div:
  assumes "n < 2 ^ 128"
  shows "within reserved6 n \<longleftrightarrow>
     n = 0 \<or> n = 1 \<or> n div 2 ^ 32 = 0x0064FF9B * 2 ^ 64 \<or> n div 2 ^ 64 = 0x0100 * 2 ^ 48
   \<or> n div 2 ^ 96 = 0x20010DB8 \<or> n div 2 ^ 121 = 126 \<or> n div 2 ^ 118 = 0x3fa \<or> n div 2 ^ 120 = 255"
proof -
  have "n = 0 \<or> n = 1 \<longleftrightarrow> n < 2" by auto
  then show ?thesis using assms
    by (simp add: within_def reserved6_def div_interval) argo
qed

lemma accepts6:
  assumes "drop_bit 32 w \<noteq> 0xffff"
  shows "accepts g (Addr6 w []) \<longleftrightarrow>
     \<not> within reserved6 (unat w) \<and> (\<forall>p\<in>set (gd_extraBlocked g). \<not> PrefixContains p (Addr6 w []))"
proof -
  let ?a = "Addr6 w []"
  have mc: "IsMulticast ?a" if "IsLinkLocalMulticast ?a \<or> IsInterfaceLocalMulticast ?a"
    using that assms multicast_mask [OF v6head_bound [of w]]
    by (auto simp: IsLinkLocalMulticast_def IsInterfaceLocalMulticast_def IsMulticast_def)
  have un: "IsUnspecified ?a \<Longrightarrow> unat w = 0" by (simp add: IsUnspecified_def)
  have "accepts g ?a \<longleftrightarrow> \<not> (IsLoopback ?a \<or> IsPrivate ?a \<or> IsLinkLocalUnicast ?a \<or> IsMulticast ?a
      \<or> (\<exists>p\<in>set universallyBlocked. PrefixContains p ?a)) \<and> (\<forall>p\<in>set (gd_extraBlocked g). \<not> PrefixContains p ?a)"
    using mc un blocked6 [of w] unfolding accepts_def set_append by blast
  moreover have "IsLoopback ?a \<or> IsPrivate ?a \<or> IsLinkLocalUnicast ?a \<or> IsMulticast ?a
      \<or> (\<exists>p\<in>set universallyBlocked. PrefixContains p ?a) \<longleftrightarrow> within reserved6 (unat w)"
    unfolding blocked6 classes6 [OF assms] reserved6_div [OF unat_bounds(2)] by blast
  ultimately show ?thesis by simp
qed

text \<open>With a zone no prefix matches, and what is left are the address classes.\<close>

definition reservedZoned :: "interval list" where
  "reservedZoned =
     [(1, 2), (0xFC00 * 2 ^ 112, 0xFE00 * 2 ^ 112), (0xFE80 * 2 ^ 112, 0xFEC0 * 2 ^ 112), (0xFF00 * 2 ^ 112, 2 ^ 128)]"

lemma reservedZoned_div:
  assumes "n < 2 ^ 128"
  shows "within reservedZoned n \<longleftrightarrow> n = 1 \<or> n div 2 ^ 121 = 126 \<or> n div 2 ^ 118 = 0x3fa \<or> n div 2 ^ 120 = 255"
proof -
  have "n = 1 \<longleftrightarrow> 1 \<le> n \<and> n < 2" by auto
  then show ?thesis using assms
    by (simp add: within_def reservedZoned_def div_interval)
qed

lemma PrefixContains_zoned: "z \<noteq> [] \<Longrightarrow> \<not> PrefixContains p (Addr6 w z)"
  by (cases p) simp_all

lemma accepts6_zoned:
  assumes "drop_bit 32 w \<noteq> 0xffff" and z: "z \<noteq> []"
  shows "accepts g (Addr6 w z) \<longleftrightarrow> \<not> within reservedZoned (unat w)"
proof -
  let ?a = "Addr6 w z"
  have mc: "IsMulticast ?a" if "IsLinkLocalMulticast ?a \<or> IsInterfaceLocalMulticast ?a"
    using that assms multicast_mask [OF v6head_bound [of w]]
    by (auto simp: IsLinkLocalMulticast_def IsInterfaceLocalMulticast_def IsMulticast_def)
  have "\<not> IsUnspecified ?a" using z by (simp add: IsUnspecified_def)
  then have "accepts g ?a \<longleftrightarrow> \<not> (IsLoopback ?a \<or> IsPrivate ?a \<or> IsLinkLocalUnicast ?a \<or> IsMulticast ?a)"
    using mc PrefixContains_zoned [OF z] unfolding accepts_def by blast
  then show ?thesis
    unfolding classes6 [OF assms(1)] reservedZoned_div [OF unat_bounds(2)] by blast
qed

section \<open>What the guard promises\<close>

fun reserved :: "Addr \<Rightarrow> bool" where
  "reserved AddrInvalid = True"
| "reserved (Addr4 w) = within reserved4 (unat w)"
| "reserved (Addr6 w z) = within reserved6 (unat w)"

fun zoneOf :: "Addr \<Rightarrow> string" where
  "zoneOf (Addr6 w z) = z"
| "zoneOf _ = []"

lemma Unmap_mapped: "Unmap a = Addr6 w z \<Longrightarrow> drop_bit 32 w \<noteq> 0xffff"
  by (cases a) (auto split: if_splits)

lemma CheckAddr_reserved:
  assumes "\<not> gd_allowPrivate g" "zoneOf (Unmap a) = []"
  shows "CheckAddr N g a = None \<longleftrightarrow>
     \<not> reserved (Unmap a) \<and> (\<forall>p\<in>set (gd_extraBlocked g). \<not> PrefixContains p (Unmap a))"
proof (cases "Unmap a")
  case AddrInvalid
  then have "\<not> IsValid a" using IsValid_Unmap [of a] by simp
  with assms(1) AddrInvalid show ?thesis by (simp add: CheckAddr_accepts)
next
  case (Addr4 w)
  then have "IsValid a" using IsValid_Unmap [of a] by simp
  with assms(1) Addr4 accepts4 [of g w] show ?thesis by (simp add: CheckAddr_accepts)
next
  case (Addr6 w z)
  then have "IsValid a" "z = []" using IsValid_Unmap [of a] assms(2) by simp_all
  with assms(1) Addr6 accepts6 [OF Unmap_mapped [OF Addr6], of g] show ?thesis by (simp add: CheckAddr_accepts)
qed

lemma checkAll_None: "checkAll N g as = None \<longleftrightarrow> (\<forall>a\<in>set as. CheckAddr N g a = None)"
  by (induction as) (auto split: option.split)

lemma dialFirst_member: "dialFirst G port as err = Inr a \<Longrightarrow> a \<in> set as"
  by (induction as arbitrary: err) (auto split: option.splits)

text \<open>
  C19: The address test agrees with the reserved ranges, for every guard and every address. A deployment that
  allows private networks accepts everything. Otherwise an invalid address is refused, and an address is read
  as the IPv4 address it may stand for: IPv4, or IPv6 without a zone, it passes exactly when it lies in none of
  the reserved intervals and in none of the deployment's own blocked ranges; with a zone it passes exactly when
  it is not the loopback address, unique-local, link-local or multicast, since no range matches it.
\<close>

theorem CheckAddr_exact:
  "CheckAddr N g a = None \<longleftrightarrow>
     gd_allowPrivate g
   \<or> (case Unmap a of
        AddrInvalid \<Rightarrow> False
      | Addr4 w \<Rightarrow>
          \<not> within reserved4 (unat w) \<and> (\<forall>p\<in>set (gd_extraBlocked g). \<not> PrefixContains p (Addr4 w))
      | Addr6 w z \<Rightarrow>
          if z = [] then
            \<not> within reserved6 (unat w) \<and> (\<forall>p\<in>set (gd_extraBlocked g). \<not> PrefixContains p (Addr6 w []))
          else \<not> within reservedZoned (unat w))"
proof (cases "gd_allowPrivate g")
  case True
  then show ?thesis by (simp add: CheckAddr_def)
next
  case open_world: False
  show ?thesis
  proof (cases "Unmap a")
    case AddrInvalid
    then have "\<not> IsValid a" using IsValid_Unmap [of a] by simp
    with open_world AddrInvalid show ?thesis by (simp add: CheckAddr_accepts)
  next
    case (Addr4 w)
    then have "IsValid a" using IsValid_Unmap [of a] by simp
    with open_world Addr4 accepts4 [of g w] show ?thesis by (simp add: CheckAddr_accepts)
  next
    case (Addr6 w z)
    then have "IsValid a" using IsValid_Unmap [of a] by simp
    with open_world Addr6 accepts6 [OF Unmap_mapped [OF Addr6], of g] accepts6_zoned [OF Unmap_mapped [OF Addr6], of z g]
    show ?thesis by (simp add: CheckAddr_accepts)
  qed
qed

definition noNet :: NetLib where
  "noNet = \<lparr>nl_ParseAddr = (\<lambda>_. None), nl_ParsePrefix = (\<lambda>_. None), nl_String = (\<lambda>_. []), nl_PrefixString = (\<lambda>_. []),
     nl_SplitHostPort = (\<lambda>_. None)\<rparr>"

theorem CheckAddr_exact_witness:
  "let g = \<lparr>gd_extraBlocked = [Prefix4 0x08000000 8], gd_allowPrivate = False\<rparr>
   in CheckAddr noNet g (Addr6 0xFFFFA9FEA9FE []) \<noteq> None \<and> CheckAddr noNet g (Addr4 0x08080808) \<noteq> None
    \<and> CheckAddr noNet g (Addr4 0x09090909) = None"
proof -
  let ?g = "\<lparr>gd_extraBlocked = [Prefix4 0x08000000 8], gd_allowPrivate = False\<rparr>"
  have "Unmap (Addr6 0xFFFFA9FEA9FE []) = Addr4 0xA9FEA9FE" by (simp add: drop_bit_eq_div)
  then show ?thesis
    using CheckAddr_exact [of noNet ?g "Addr6 0xFFFFA9FEA9FE []"] CheckAddr_exact [of noNet ?g "Addr4 0x08080808"]
      CheckAddr_exact [of noNet ?g "Addr4 0x09090909"]
    by (simp add: within_def reserved4_def quad_def PrefixContains_div del: PrefixContains.simps)
qed

text \<open>
  No connection is ever opened to a reserved address, whatever the resolver answers and however often
  its answers change: the address dialled is one of those just looked up and all of them passed. The
  resolver's answers carry no zone.
\<close>

theorem DialContext_safe:
  assumes "DialContext G g address = Inr a" and "\<not> gd_allowPrivate g"
    and "\<And>host as b. gn_lookup G host = Inr as \<Longrightarrow> b \<in> set as \<Longrightarrow> zoneOf b = []"
  shows "\<not> reserved (Unmap a) \<and> (\<forall>p\<in>set (gd_extraBlocked g). \<not> PrefixContains p (Unmap a))"
proof -
  obtain host port as where as: "gn_lookup G host = Inr as" "checkAll (gn_net G) g as = None"
      "dialFirst G port as (GuardNoAddress host []) = Inr a"
    using assms(1) by (auto simp: DialContext_def split: option.splits sum.splits)
  from dialFirst_member [OF as(3)] as(2) have a: "a \<in> set as" "CheckAddr (gn_net G) g a = None"
    by (simp_all add: checkAll_None)
  have "zoneOf (Unmap a) = []" using assms(3) [OF as(1) a(1)] by (cases a) simp_all
  with CheckAddr_reserved [OF assms(2)] a(2) show ?thesis by blast
qed

definition sampleGuardNet :: "Addr list \<Rightarrow> GuardNet" where
  "sampleGuardNet as = \<lparr>gn_net = noNet\<lparr>nl_SplitHostPort := (\<lambda>s. Some (s, ''443'')), nl_ParseAddr := (\<lambda>_. Some (hd as))\<rparr>,
     gn_parseURL = (\<lambda>s. Inr (''https'', s)), gn_lookup = (\<lambda>_. Inr (map (\<lambda>a. case a of Addr6 w z \<Rightarrow> Addr6 w [] | _ \<Rightarrow> a) as)),
     gn_dial = (\<lambda>_ _. None)\<rparr>"

theorem DialContext_safe_witness:
  "DialContext (sampleGuardNet [Addr4 0x08080808]) \<lparr>gd_extraBlocked = [], gd_allowPrivate = False\<rparr> ''h'' = Inr (Addr4 0x08080808)
 \<and> \<not> reserved (Unmap (Addr4 0x08080808))"
proof -
  let ?G = "sampleGuardNet [Addr4 0x08080808]" and ?g = "\<lparr>gd_extraBlocked = [], gd_allowPrivate = False\<rparr>"
  have "DialContext ?G ?g ''h'' = Inr (Addr4 0x08080808)"
    using CheckAddr_reserved [of ?g "Addr4 0x08080808" "gn_net ?G"]
    by (simp add: DialContext_def sampleGuardNet_def noNet_def within_def reserved4_def quad_def)
  moreover have "gn_lookup ?G host = Inr as \<Longrightarrow> b \<in> set as \<Longrightarrow> zoneOf b = []" for host as b
    by (auto simp: sampleGuardNet_def)
  ultimately show ?thesis using DialContext_safe [of ?G ?g "''h''"] by auto
qed

text \<open>
  A zone gets an address past the registration check. The prefix test fails for every address that
  carries a zone, so a URL whose host is a literal of a blocked IPv6 range with a zone, here the NAT64 address
  of the cloud metadata service, passes \<open>CheckURL\<close>; the dialler refuses it, because it looks the host up
  again and the answer has no zone.
\<close>

theorem CheckURL_zone_bypass:
  "let G = sampleGuardNet [Addr6 0x0064FF9B0000000000000000A9FEA9FE ''eth0''];
       g = \<lparr>gd_extraBlocked = [], gd_allowPrivate = False\<rparr>
   in CheckURL G g ''u'' = None \<and> reserved (Addr6 0x0064FF9B0000000000000000A9FEA9FE ''eth0'')
    \<and> (\<forall>a. DialContext G g ''u'' \<noteq> Inr a)"
proof -
  let ?w = "0x0064FF9B0000000000000000A9FEA9FE :: 128 word"
  let ?G = "sampleGuardNet [Addr6 ?w ''eth0'']" and ?g = "\<lparr>gd_extraBlocked = [], gd_allowPrivate = False\<rparr>"
  have nm: "drop_bit 32 ?w \<noteq> 0xffff" by (simp add: drop_bit_eq_div)
  have m: "\<not> IsMulticast (Addr6 ?w z)" for z unfolding classes6 [OF nm] by simp
  have "\<not> IsLinkLocalMulticast (Addr6 ?w z) \<and> \<not> IsInterfaceLocalMulticast (Addr6 ?w z)" for z
    using m [of z] multicast_mask [OF v6head_bound [of ?w]] nm
    by (auto simp: IsLinkLocalMulticast_def IsInterfaceLocalMulticast_def IsMulticast_def)
  then have "accepts ?g (Addr6 ?w ''eth0'')"
    unfolding accepts_def classes6 [OF nm] by (simp add: IsUnspecified_def universallyBlocked_def)
  then have "CheckURL ?G ?g ''u'' = None"
    using nm by (simp add: CheckURL_def sampleGuardNet_def CheckAddr_accepts)
  moreover have res: "within reserved6 (unat ?w)" by (simp add: within_def reserved6_def)
  moreover have "DialContext ?G ?g ''u'' \<noteq> Inr a" for a
    using CheckAddr_reserved [of ?g "Addr6 ?w []" "gn_net ?G"] nm res
    by (auto simp: DialContext_def sampleGuardNet_def split: option.splits)
  ultimately show ?thesis by simp
qed

end
