(* ===== verification/Receive.thy ===== *)
theory Receive
  imports Normaliser_Spec Redact RateLimit Net_Addr
begin

text \<open>
  The provider-facing receiver, \<^verbatim>\<open>internal/receive/receiver.go\<close>: one webhook from the first guard to the answer.
  The state is what the handler touches: the store, the tenants' buckets, the slots for requests in
  flight and the normaliser's notification channel. The clock readings of one request are a
  \<open>ReceiveClock\<close>, the identifier drawn for its raw event an argument; the registry, the secret resolver, the
  digest and the address parser are in \<open>ReceiveEnv\<close>. Metrics and logging are left out. A panic cannot occur in
  the handler, so the deferred release of its slot is the last thing each path does.
\<close>

section \<open>Definitions\<close>

record Webhook =
  rq_tenant :: string
  rq_provider :: string
  rq_env :: string
  rq_token :: string
  rq_Header :: headers
  rq_Body :: string
  rq_BodyFails :: bool
  rq_RemoteAddr :: string

record Answer =
  an_status :: nat
  an_retryAfter :: "string option"
  an_body :: json

record ReceiveEnv =
  re_registry :: Registry
  re_secrets :: "string \<Rightarrow> string + string list"
  re_audit :: AuditLib
  re_net :: NetLib
  re_quote :: "string \<Rightarrow> string"
  re_trustProxyHeaders :: bool

record Receiver =
  rc_store :: Memory
  rc_limiter :: Limiter
  rc_inFlight :: Bounded
  rc_notify :: "NormWorker option"

record ReceiveClock =
  ck_start :: instant
  ck_limit :: instant
  ck_verify :: instant
  ck_audit :: instant

definition NewReceiver :: "Memory \<Rightarrow> NormWorker option \<Rightarrow> rat \<Rightarrow> rat \<Rightarrow> int \<Rightarrow> Receiver" where
  "NewReceiver m notifier perTenantPerSecond burst maxInFlight =
     \<lparr>rc_store = m,
      rc_limiter = NewLimiter (if perTenantPerSecond \<le> 0 then 10000 else perTenantPerSecond)
                     (if burst \<le> 0 then 20000 else burst) 0,
      rc_inFlight = NewBounded ''receiver_in_flight'' (if maxInFlight \<le> 0 then 2048 else maxInFlight),
      rc_notify = notifier\<rparr>"

definition MaxBodyBytes :: nat where "MaxBodyBytes = 1048576"

datatype body_error = BodyTooLarge | BodyUnreadable | BodyEmpty

text \<open>\<open>rq_BodyFails\<close>: the connection breaks after the bytes of \<open>rq_Body\<close>. The limited reader stops one byte past
  the ceiling, so it does not notice what happens after that.\<close>

definition readBody :: "Webhook \<Rightarrow> body_error + string" where
  "readBody req =
     (let body = take (MaxBodyBytes + 1) (rq_Body req)
      in if rq_BodyFails req \<and> length (rq_Body req) < MaxBodyBytes + 1 then Inl BodyUnreadable
         else if length body > MaxBodyBytes then Inl BodyTooLarge
         else if length body = 0 then Inl BodyEmpty
         else Inr body)"

text \<open>The same without the unary count, for evaluating samples.\<close>

lemma readBody_code [code]:
  "readBody req =
     (let n = int (length (rq_Body req))
      in if rq_BodyFails req \<and> n < 1048577 then Inl BodyUnreadable
         else if n > 1048576 then Inl BodyTooLarge
         else if rq_Body req = [] then Inl BodyEmpty
         else Inr (rq_Body req))"
  by (auto simp: readBody_def MaxBodyBytes_def Let_def)

definition sensitiveHeaders :: "string list" where
  "sensitiveHeaders =
     [''authorization'', ''proxy-authorization'', ''cookie'', ''set-cookie'', ''x-paystack-signature'', ''verif-hash'',
      ''verify-hash'', ''stripe-signature'', ''x-monnify-signature'', ''x-interswitch-signature'',
      ''x-nibss-signature'', ''x-api-key'', ''x-auth-token'']"

definition stripCRLF :: "string \<Rightarrow> string" where
  "stripCRLF v = filter (\<lambda>c. c \<noteq> CHR 0x0D \<and> c \<noteq> CHR 0x0A) v"

fun sanitiseLoop :: "headers \<Rightarrow> (string \<times> string) list \<Rightarrow> (string \<times> string) list" where
  "sanitiseLoop [] out = out"
| "sanitiseLoop ((k, vs) # h) out =
     sanitiseLoop h
       (let lk = ToLower k
        in if lk \<in> set sensitiveHeaders then AList.update lk ''[redacted]'' out
           else case vs of [] \<Rightarrow> out | v # _ \<Rightarrow> AList.update lk (stripCRLF (take 1024 v)) out)"

definition sanitiseHeaders :: "headers \<Rightarrow> (string \<times> string) list" where
  "sanitiseHeaders h = sanitiseLoop h []"

definition headerGet :: "headers \<Rightarrow> string \<Rightarrow> string" where
  "headerGet h key = (case map_of h key of Some (v # _) \<Rightarrow> v | _ \<Rightarrow> [])"

definition remoteAddr :: "NetLib \<Rightarrow> string \<Rightarrow> Addr" where
  "remoteAddr N remote =
     (let host = (case nl_SplitHostPort N remote of Some (h, _) \<Rightarrow> h | None \<Rightarrow> remote)
      in case nl_ParseAddr N host of None \<Rightarrow> AddrInvalid | Some a \<Rightarrow> Unmap a)"

definition sourceAddr :: "ReceiveEnv \<Rightarrow> Webhook \<Rightarrow> Addr" where
  "sourceAddr E req =
     (let N = re_net E; xff = headerGet (rq_Header req) ''X-Forwarded-For''
      in if re_trustProxyHeaders E \<and> xff \<noteq> []
         then (case nl_ParseAddr N (TrimSpace (fst (Cut xff CHR '',''))) of
                 Some a \<Rightarrow> a
               | None \<Rightarrow> remoteAddr N (rq_RemoteAddr req))
         else remoteAddr N (rq_RemoteAddr req))"

definition classifyIP :: "Addr \<Rightarrow> string" where
  "classifyIP a =
     (if \<not> IsValid a then ''unknown''
      else if IsLoopback a then ''loopback''
      else if IsPrivate a then ''private''
      else if IsLinkLocalUnicast a \<or> IsLinkLocalMulticast a then ''link_local''
      else if Is4 a then ''public_v4''
      else ''public_v6'')"

datatype receive_error =
    RecvNoAdapter string
  | RecvVerify verify_error
  | RecvNoSecret string string

fun receiveText :: "(string \<Rightarrow> string) \<Rightarrow> receive_error \<Rightarrow> string" where
  "receiveText quote (RecvNoAdapter n) = ''adapter '' @ quote n @ '' is not available: unknown adapter: '' @ quote n"
| "receiveText quote (RecvVerify err) = verifyText err"
| "receiveText quote (RecvNoSecret ref err) = ''secret '' @ quote ref @ '' did not resolve: '' @ err"

definition allowedRanges :: "Endpoint \<Rightarrow> string list \<Rightarrow> string list" where
  "allowedRanges e published = (if ep_AllowedSourceCIDRs e \<noteq> [] then ep_AllowedSourceCIDRs e else published)"

fun inRanges :: "NetLib \<Rightarrow> Addr \<Rightarrow> string list \<Rightarrow> bool" where
  "inRanges N src [] = False"
| "inRanges N src (c # cs) =
     (case nl_ParsePrefix N (TrimSpace c) of
        None \<Rightarrow> inRanges N src cs
      | Some p \<Rightarrow> PrefixContains p src \<or> inRanges N src cs)"

definition checkSource :: "NetLib \<Rightarrow> Addr \<Rightarrow> string list \<Rightarrow> verify_error option" where
  "checkSource N src cidrs =
     (if \<not> IsValid src then Some (VerSourceNotAllowed ''no usable source address'')
      else if inRanges N src cidrs then None
      else Some (VerSourceNotAllowed (nl_String N src @ '' is not in the published ranges'')))"

fun trySecrets :: "(string \<Rightarrow> verify_error option) \<Rightarrow> string list \<Rightarrow> verify_error option \<Rightarrow> verify_error option" where
  "trySecrets check [] lastErr = Some (case lastErr of None \<Rightarrow> VerNoSignature | Some err \<Rightarrow> err)"
| "trySecrets check (s # ss) lastErr =
     (case check s of None \<Rightarrow> None | Some err \<Rightarrow> trySecrets check ss (Some err))"

definition verifyRequest ::
    "ReceiveEnv \<Rightarrow> instant \<Rightarrow> Endpoint \<Rightarrow> headers \<Rightarrow> string \<Rightarrow> Addr \<Rightarrow> receive_error option" where
  "verifyRequest E now e h body src =
     (case GetAdapter (re_registry E) (ep_TenantID e) (ep_AdapterName e) of
        None \<Rightarrow> Some (RecvNoAdapter (ep_AdapterName e))
      | Some a \<Rightarrow>
          (case (case ad_AllowedSources a of
                   None \<Rightarrow> None
                 | Some published \<Rightarrow> checkSource (re_net E) src (allowedRanges e published)) of
             Some err \<Rightarrow> Some (RecvVerify err)
           | None \<Rightarrow>
               (case re_secrets E (ep_SecretRef e) of
                  Inl err \<Rightarrow> Some (RecvNoSecret (ep_SecretRef e) err)
                | Inr secrets \<Rightarrow> map_option RecvVerify (trySecrets (ad_Verify a now h body) secrets None))))"

definition errorAnswer :: "nat \<Rightarrow> string option \<Rightarrow> string \<Rightarrow> Answer" where
  "errorAnswer status retryAfter reason =
     \<lparr>an_status = status, an_retryAfter = retryAfter, an_body = JObject [(''error'', JString reason)]\<rparr>"

definition receivedAnswer :: "string \<Rightarrow> Answer" where
  "receivedAnswer eventID =
     \<lparr>an_status = 200, an_retryAfter = None,
      an_body = JObject ((''received'', JBool True) # (if eventID = [] then [] else [(''event_id'', JString eventID)]))\<rparr>"

definition sourceText :: "NetLib \<Rightarrow> Addr \<Rightarrow> string" where
  "sourceText N a = (if IsValid a then nl_String N a else ''invalid IP'')"

definition rawAudit :: "string \<Rightarrow> string \<Rightarrow> string \<Rightarrow> string \<Rightarrow> (string \<times> json) list \<Rightarrow> AuditRecord" where
  "rawAudit tenantID eventType ip rawID payload =
     (eventAudit tenantID eventType rawID payload)
       \<lparr>aud_Actor := \<lparr>act_Type = ''system'', act_ID = [], act_IP = ip\<rparr>,
        aud_Subject := \<lparr>sub_Type = ''raw_event'', sub_ID = rawID\<rparr>\<rparr>"

definition receiverAudit :: "ReceiveEnv \<Rightarrow> instant \<Rightarrow> AuditRecord \<Rightarrow> Memory \<Rightarrow> Memory" where
  "receiverAudit E now rec m = fst (AppendAudit (re_audit E) (utcTime now) m rec)"

text \<open>The raw event a request becomes.\<close>

definition rawEvent :: "ReceiveEnv \<Rightarrow> ReceiveClock \<Rightarrow> string \<Rightarrow> Tenant \<Rightarrow> Endpoint \<Rightarrow> Webhook \<Rightarrow> string \<Rightarrow> RawEvent" where
  "rawEvent E ck newID tenant endpoint req body =
     (let src = sourceAddr E req; scan = Scan body;
          failure = verifyRequest E (ck_verify ck) endpoint (rq_Header req) body src
      in \<lparr>raw_ID = newID, raw_TenantID = ten_ID tenant, raw_EndpointID = ep_ID endpoint,
          raw_Provider = ep_Provider endpoint, raw_Headers = sanitiseHeaders (rq_Header req),
          raw_Body = res_Body scan, raw_BodySHA256 = hexEncode (lib_sha256 (re_audit E) body),
          raw_Redacted = res_Redacted scan, raw_RedactionNote = Describe scan,
          raw_SourceIP = (if IsValid src then Some (nl_String (re_net E) src) else None),
          raw_SignatureValid = (failure = None),
          raw_SignatureError = (case failure of None \<Rightarrow> [] | Some err \<Rightarrow> receiveText (re_quote E) err),
          raw_ReceivedAt = utcTime (ck_start ck)\<rparr>)"

text \<open>From the read body to the answer: storing, auditing, answering and notifying.\<close>

definition acceptRaw :: "ReceiveEnv \<Rightarrow> ReceiveClock \<Rightarrow> Tenant \<Rightarrow> Endpoint \<Rightarrow> RawEvent \<Rightarrow> nat \<Rightarrow> string \<Rightarrow> Receiver \<Rightarrow> Receiver \<times> Answer" where
  "acceptRaw E ck tenant endpoint raw bytes ip r =
     (case PutRawEvent (rc_store r) raw of
        (m, Some err) \<Rightarrow> (r, errorAnswer 500 None ''storage_unavailable'')
      | (m, None) \<Rightarrow>
          if \<not> raw_SignatureValid raw
          then (r\<lparr>rc_store := receiverAudit E (ck_audit ck)
                     (rawAudit (ten_ID tenant) ''signature.failed'' ip (raw_ID raw)
                        [(''provider'', JString (ep_Provider endpoint)), (''endpoint'', JString (ep_ID endpoint)),
                         (''reason'', JString (raw_SignatureError raw))]) m\<rparr>,
                errorAnswer 401 None ''signature_verification_failed'')
          else (r\<lparr>rc_store := receiverAudit E (ck_audit ck)
                     (rawAudit (ten_ID tenant) ''event.received'' ip (raw_ID raw)
                        [(''provider'', JString (ep_Provider endpoint)), (''endpoint'', JString (ep_ID endpoint)),
                         (''body_sha256'', JString (raw_BodySHA256 raw)), (''bytes'', JNumber (show_nat bytes))]) m,
                    rc_notify := map_option (\<lambda>w. Notify w (raw_ID raw)) (rc_notify r)\<rparr>,
                receivedAnswer (raw_ID raw)))"

definition serve :: "ReceiveEnv \<Rightarrow> ReceiveClock \<Rightarrow> string \<Rightarrow> Webhook \<Rightarrow> Receiver \<Rightarrow> Receiver \<times> Answer" where
  "serve E ck newID req r =
     (case ResolveReceiver (rc_store r) (rq_tenant req) (rq_provider req) (rq_env req) (rq_token req) of
        Inl _ \<Rightarrow> (r, errorAnswer 404 None ''not_found'')
      | Inr (endpoint, tenant) \<Rightarrow>
          if \<not> ep_Enabled endpoint then (r, errorAnswer 404 None ''not_found'')
          else
            let (l, d) = LimiterAllow (rc_limiter r) (ck_limit ck) (ten_ID tenant); r = r\<lparr>rc_limiter := l\<rparr>
            in if \<not> dec_Allowed d then (r, errorAnswer 429 (Some (Header d)) ''rate_limited'')
               else case readBody req of
                      Inl BodyTooLarge \<Rightarrow> (r, errorAnswer 413 None ''too_large'')
                    | Inl _ \<Rightarrow> (r, errorAnswer 400 None ''unreadable'')
                    | Inr body \<Rightarrow>
                        acceptRaw E ck tenant endpoint (rawEvent E ck newID tenant endpoint req body) (length body)
                          (sourceText (re_net E) (sourceAddr E req)) r)"

definition handleWebhook :: "ReceiveEnv \<Rightarrow> ReceiveClock \<Rightarrow> string \<Rightarrow> Webhook \<Rightarrow> Receiver \<Rightarrow> Receiver \<times> Answer" where
  "handleWebhook E ck newID req r =
     (let (b, got) = TryAcquire (rc_inFlight r)
      in if \<not> got then (r, errorAnswer 429 (Some ''1'') ''at_capacity'')
         else let (r, answer) = serve E ck newID req (r\<lparr>rc_inFlight := b\<rparr>)
              in (r\<lparr>rc_inFlight := Release (rc_inFlight r)\<rparr>, answer))"

end
