(* ===== verification/Receive_Spec.thy ===== *)
theory Receive_Spec
  imports Receive Guard
begin

text \<open>
  What the receiver promises the provider, the customer and the investigator: an accepted webhook is
  stored, verified and redacted before it is answered, a forged one is stored and flagged, everything else
  leaves no trace in the store; slots are given back; stored headers are harmless, but for the signature
  headers the list of sensitive names misses.
\<close>

section \<open>One request\<close>

lemma PutRawEvent_cases:
  obtains (fresh) "map_of (mem_rawEvents m) (raw_ID e) = None"
      "PutRawEvent m e = (m\<lparr>mem_rawEvents := AList.update (raw_ID e) e (mem_rawEvents m), mem_rawOrder := mem_rawOrder m @ [raw_ID e]\<rparr>, None)"
  | (known) "map_of (mem_rawEvents m) (raw_ID e) \<noteq> None" "PutRawEvent m e = (m, Some (StoreDuplicate []))"
  by (cases "map_of (mem_rawEvents m) (raw_ID e)") (simp_all add: PutRawEvent_def)

lemma receiverAudit_store [simp]:
  "mem_rawEvents (receiverAudit E now rec m) = mem_rawEvents m"
  "mem_rawOrder (receiverAudit E now rec m) = mem_rawOrder m"
  "mem_events (receiverAudit E now rec m) = mem_events m"
  "mem_normalised (receiverAudit E now rec m) = mem_normalised m"
  "mem_failures (receiverAudit E now rec m) = mem_failures m"
  "mem_endpoints (receiverAudit E now rec m) = mem_endpoints m"
  "mem_deliveries (receiverAudit E now rec m) = mem_deliveries m"
  "mem_destinations (receiverAudit E now rec m) = mem_destinations m"
  by (simp_all add: receiverAudit_def AppendAudit_def Let_def split: sum.split)

lemma rawEvent_fields [simp]:
  "raw_ID (rawEvent E ck i tenant ep req body) = i"
  "raw_TenantID (rawEvent E ck i tenant ep req body) = ten_ID tenant"
  by (simp_all add: rawEvent_def Let_def)

text \<open>A request that gets as far as being stored.\<close>

definition admitted :: "Webhook \<Rightarrow> Receiver \<Rightarrow> Endpoint \<Rightarrow> Tenant \<Rightarrow> string \<Rightarrow> bool" where
  "admitted req r endpoint tenant body \<longleftrightarrow>
     ResolveReceiver (rc_store r) (rq_tenant req) (rq_provider req) (rq_env req) (rq_token req) = Inr (endpoint, tenant)
   \<and> ep_Enabled endpoint \<and> readBody req = Inr body"

lemma acceptRaw_cases:
  obtains (lost) "acceptRaw E ck tenant ep raw n ip r = (r, errorAnswer 500 None ''storage_unavailable'')"
      "map_of (mem_rawEvents (rc_store r)) (raw_ID raw) \<noteq> None"
  | (kept) r' a where "acceptRaw E ck tenant ep raw n ip r = (r', a)" "an_status a = (if raw_SignatureValid raw then 200 else 401)"
      "map_of (mem_rawEvents (rc_store r)) (raw_ID raw) = None"
      "mem_rawEvents (rc_store r') = AList.update (raw_ID raw) raw (mem_rawEvents (rc_store r))"
      "mem_rawOrder (rc_store r') = mem_rawOrder (rc_store r) @ [raw_ID raw]"
      "mem_events (rc_store r') = mem_events (rc_store r)" "rc_inFlight r' = rc_inFlight r"
      "mem_deliveries (rc_store r') = mem_deliveries (rc_store r)" "mem_destinations (rc_store r') = mem_destinations (rc_store r)"
proof (cases rule: PutRawEvent_cases [of "rc_store r" raw])
  case fresh
  then show ?thesis
    by (intro kept [of "fst (acceptRaw E ck tenant ep raw n ip r)" "snd (acceptRaw E ck tenant ep raw n ip r)"])
       (simp_all add: acceptRaw_def errorAnswer_def receivedAnswer_def)
next
  case known
  then show ?thesis by (intro lost) (simp_all add: acceptRaw_def)
qed

lemma serve_cases:
  obtains (refused) r' a where "serve E ck i req r = (r', a)" "an_status a \<in> {400, 404, 413, 429, 500}" "rc_store r' = rc_store r"
      "rc_inFlight r' = rc_inFlight r"
  | (stored) r' a ep tenant body raw where "serve E ck i req r = (r', a)" "admitted req r ep tenant body"
      "raw = rawEvent E ck i tenant ep req body" "an_status a = (if raw_SignatureValid raw then 200 else 401)"
      "map_of (mem_rawEvents (rc_store r)) i = None"
      "mem_rawEvents (rc_store r') = AList.update i raw (mem_rawEvents (rc_store r))"
      "mem_rawOrder (rc_store r') = mem_rawOrder (rc_store r) @ [i]"
      "mem_events (rc_store r') = mem_events (rc_store r)" "rc_inFlight r' = rc_inFlight r"
      "mem_deliveries (rc_store r') = mem_deliveries (rc_store r)" "mem_destinations (rc_store r') = mem_destinations (rc_store r)"
proof (cases "ResolveReceiver (rc_store r) (rq_tenant req) (rq_provider req) (rq_env req) (rq_token req)")
  case (Inl err)
  then show ?thesis by (intro refused [of r "errorAnswer 404 None ''not_found''"]) (simp_all add: serve_def errorAnswer_def)
next
  case (Inr et)
  obtain ep tenant where et: "et = (ep, tenant)" by fastforce
  obtain l d where lim: "LimiterAllow (rc_limiter r) (ck_limit ck) (ten_ID tenant) = (l, d)" by fastforce
  let ?r = "r\<lparr>rc_limiter := l\<rparr>"
  show ?thesis
  proof (cases "ep_Enabled ep \<and> dec_Allowed d")
    case False
    then show ?thesis using Inr et lim
      by (intro refused [of "fst (serve E ck i req r)" "snd (serve E ck i req r)"]) (auto simp: serve_def errorAnswer_def Let_def)
  next
    case True
    show ?thesis
    proof (cases "readBody req")
      case (Inl err)
      with True Inr et lim show ?thesis
        by (intro refused [of "fst (serve E ck i req r)" "snd (serve E ck i req r)"])
           (cases err; simp add: serve_def errorAnswer_def Let_def)+
    next
      case body: (Inr body)
      let ?raw = "rawEvent E ck i tenant ep req body"
      have s: "serve E ck i req r = acceptRaw E ck tenant ep ?raw (length body) (sourceText (re_net E) (sourceAddr E req)) ?r"
        using True Inr et lim body by (simp add: serve_def Let_def)
      have ad: "admitted req r ep tenant body" using True Inr et body by (simp add: admitted_def)
      show ?thesis
      proof (cases rule: acceptRaw_cases [of E ck tenant ep ?raw "length body" "sourceText (re_net E) (sourceAddr E req)" ?r])
        case lost
        then show ?thesis using s by (intro refused [of ?r "errorAnswer 500 None ''storage_unavailable''"]) (simp_all add: errorAnswer_def)
      next
        case (kept r' a)
        then show ?thesis using s ad by (intro stored [of r' a ep tenant body ?raw]) simp_all
      qed
    qed
  qed
qed

text \<open>What the outcome of a request means for the store.\<close>

definition received :: "ReceiveEnv \<Rightarrow> ReceiveClock \<Rightarrow> string \<Rightarrow> Webhook \<Rightarrow> Receiver \<Rightarrow> Receiver \<Rightarrow> bool \<Rightarrow> bool" where
  "received E ck i req r r' valid \<longleftrightarrow>
     (\<exists>ep tenant body raw. admitted req r ep tenant body \<and> raw = rawEvent E ck i tenant ep req body
        \<and> raw_SignatureValid raw = valid \<and> map_of (mem_rawEvents (rc_store r)) i = None
        \<and> mem_rawEvents (rc_store r') = AList.update i raw (mem_rawEvents (rc_store r))
        \<and> mem_rawOrder (rc_store r') = mem_rawOrder (rc_store r) @ [i]
        \<and> mem_events (rc_store r') = mem_events (rc_store r))"

lemma Release_acquired: "TryAcquire b = (b', True) \<Longrightarrow> Release b' = b"
  by (auto simp: TryAcquire_def Release_def split: if_splits)

lemma handleWebhook_outcome:
  assumes "handleWebhook E ck i req r = (r', a)"
  shows "rc_inFlight r' = rc_inFlight r
       \<and> (an_status a = 200 \<and> received E ck i req r r' True \<or> an_status a = 401 \<and> received E ck i req r r' False
          \<or> an_status a \<in> {400, 404, 413, 429, 500} \<and> rc_store r' = rc_store r)"
proof -
  obtain b got where b: "TryAcquire (rc_inFlight r) = (b, got)" by fastforce
  show ?thesis
  proof (cases got)
    case False
    with assms b show ?thesis by (auto simp: handleWebhook_def errorAnswer_def)
  next
    case True
    let ?r = "r\<lparr>rc_inFlight := b\<rparr>"
    have rel: "Release b = rc_inFlight r" using b True by (simp add: Release_acquired)
    show ?thesis
    proof (cases rule: serve_cases [of E ck i req ?r])
      case (refused s a')
      with assms b True rel show ?thesis by (auto simp: handleWebhook_def)
    next
      case (stored s a' ep tenant body raw)
      then have "r' = s\<lparr>rc_inFlight := Release (rc_inFlight s)\<rparr>" "a = a'" using assms b True by (auto simp: handleWebhook_def)
      moreover have "received E ck i req r r' (raw_SignatureValid raw)"
        unfolding received_def using stored calculation
        by (intro exI [of _ ep] exI [of _ tenant] exI [of _ body] exI [of _ raw]) (simp add: admitted_def)
      ultimately show ?thesis using stored rel by (cases "raw_SignatureValid raw") simp_all
    qed
  qed
qed

section \<open>What is stored\<close>

lemma sanitiseLoop_sound:
  assumes "map_of (sanitiseLoop h out) lk = Some v" "map_of out lk \<noteq> Some v"
  shows "(\<exists>k vs. (k, vs) \<in> set h \<and> ToLower k = lk)
       \<and> (if lk \<in> set sensitiveHeaders then v = ''[redacted]''
          else length v \<le> 1024 \<and> CHR 0x0D \<notin> set v \<and> CHR 0x0A \<notin> set v)"
  using assms
proof (induction h arbitrary: out)
  case (Cons kv h)
  obtain k vs where kv: "kv = (k, vs)" by fastforce
  let ?out = "(let lk = ToLower k in if lk \<in> set sensitiveHeaders then AList.update lk ''[redacted]'' out
           else case vs of [] \<Rightarrow> out | v # _ \<Rightarrow> AList.update lk (stripCRLF (take 1024 v)) out)"
  have l: "map_of (sanitiseLoop h ?out) lk = Some v" using Cons.prems(1) by (simp add: kv)
  show ?case
  proof (cases "map_of ?out lk = Some v")
    case False
    from Cons.IH [OF l False] show ?thesis by (auto simp: kv)
  next
    case True
    have "length (filter P (take 1024 x)) \<le> 1024" for P and x :: string
      using length_filter_le [of P "take 1024 x"] by simp
    with True Cons.prems(2) show ?thesis
      by (auto simp: kv Let_def stripCRLF_def split: if_splits list.splits)
  qed
qed simp

lemma sanitiseLoop_stays:
  "lk \<in> set sensitiveHeaders \<Longrightarrow> map_of out lk = Some ''[redacted]'' \<Longrightarrow> map_of (sanitiseLoop h out) lk = Some ''[redacted]''"
proof (induction h arbitrary: out)
  case (Cons kv h)
  obtain k vs where kv: "kv = (k, vs)" by fastforce
  from Cons show ?case by (auto simp: kv Let_def intro!: Cons.IH split: list.split)
qed simp

lemma sanitiseLoop_sensitive:
  "(k, vs) \<in> set h \<Longrightarrow> ToLower k \<in> set sensitiveHeaders \<Longrightarrow> map_of (sanitiseLoop h out) (ToLower k) = Some ''[redacted]''"
proof (induction h arbitrary: out)
  case (Cons kv h)
  obtain k' vs' where kv: "kv = (k', vs')" by fastforce
  show ?case
  proof (cases "(k, vs) \<in> set h")
    case True
    with Cons show ?thesis by (simp add: kv)
  next
    case False
    with Cons.prems show ?thesis by (simp add: kv sanitiseLoop_stays)
  qed
qed simp

lemma sanitiseLoop_other: "lk \<notin> ToLower ` fst ` set h \<Longrightarrow> map_of (sanitiseLoop h out) lk = map_of out lk"
  by (induction h arbitrary: out) (auto simp: Let_def split: list.split)

lemma sanitiseLoop_plain:
  assumes "(k, v # vs) \<in> set h" "distinct (map (ToLower \<circ> fst) h)" "ToLower k \<notin> set sensitiveHeaders"
  shows "map_of (sanitiseLoop h out) (ToLower k) = Some (stripCRLF (take 1024 v))"
  using assms
proof (induction h arbitrary: out)
  case (Cons kv h)
  obtain k' vs' where kv: "kv = (k', vs')" by fastforce
  show ?case
  proof (cases "kv = (k, v # vs)")
    case True
    then have "ToLower k \<notin> ToLower ` fst ` set h" using Cons.prems(2) by (auto simp: image_image)
    with True Cons.prems(3) show ?thesis by (simp add: sanitiseLoop_other Let_def)
  next
    case False
    then have "(k, v # vs) \<in> set h" using Cons.prems(1) by auto
    with Cons show ?thesis by (simp add: kv)
  qed
qed simp

text \<open>
  What is kept of the request's headers: every sensitive header is recorded as present with its value
  gone, whatever its capitalisation; every other stored value is cut to a kilobyte and holds no line break.
\<close>

theorem sanitiseHeaders_safe:
  assumes "map_of (sanitiseHeaders h) lk = Some v"
  shows "(\<exists>k vs. (k, vs) \<in> set h \<and> ToLower k = lk)
       \<and> (if lk \<in> set sensitiveHeaders then v = ''[redacted]''
          else length v \<le> 1024 \<and> CHR 0x0D \<notin> set v \<and> CHR 0x0A \<notin> set v)"
  using sanitiseLoop_sound [of h "[]" lk v] assms by (simp add: sanitiseHeaders_def)

theorem sanitiseHeaders_safe_witness:
  "map_of (sanitiseHeaders [(''Cookie'', [''id=1'']), (''Host'', [''a'' @ [CHR 0x0A] @ ''b''])]) ''cookie'' = Some ''[redacted]''"
proof -
  let ?h = "[(''Cookie'', [''id=1'']), (''Host'', [''a'' @ [CHR 0x0A] @ ''b''])]"
  have "map_of (sanitiseHeaders ?h) ''cookie'' \<noteq> None" by code_simp
  then obtain v where "map_of (sanitiseHeaders ?h) ''cookie'' = Some v" by blast
  moreover from sanitiseHeaders_safe [OF this] have "v = ''[redacted]''" by (simp add: sensitiveHeaders_def split: if_splits)
  ultimately show ?thesis by simp
qed

lemma ToLower_idem: "ToLower (ToLower s) = ToLower s"
proof -
  have "ToLowerByte (ToLowerByte c) = ToLowerByte c" for c
  proof (cases "65 \<le> ord c \<and> ord c \<le> 90")
    case True
    then have "ord c + 32 < 256" by linarith
    then have "ord (ToLowerByte c) = ord c + 32"
      using True unfolding ToLowerByte_def by (simp only: of_char_of if_True mod_less simp_thms)
    moreover from True have "\<not> ord c + 32 \<le> 90" by linarith
    ultimately show ?thesis by (simp add: ToLowerByte_def [of "ToLowerByte c"])
  qed (auto simp: ToLowerByte_def)
  then show ?thesis by (simp add: ToLower_def)
qed

lemma sanitiseLoop_keys:
  "distinct (map fst out) \<Longrightarrow> (\<forall>k\<in>fst ` set out. ToLower k = k) \<Longrightarrow>
   distinct (map fst (sanitiseLoop h out)) \<and> (\<forall>k\<in>fst ` set (sanitiseLoop h out). ToLower k = k)"
proof (induction h arbitrary: out)
  case (Cons kv h)
  obtain k vs where kv: "kv = (k, vs)" by fastforce
  let ?ok = "\<lambda>out. distinct (map fst out) \<and> (\<forall>k\<in>fst ` set out. ToLower k = k)"
  have upd: "?ok (AList.update (ToLower k) x out)" for x
    using Cons.prems by (simp add: dom_update ToLower_idem)
  have old: "?ok out" using Cons.prems by blast
  define out' where "out' = (let lk = ToLower k in if lk \<in> set sensitiveHeaders then AList.update lk ''[redacted]'' out
           else case vs of [] \<Rightarrow> out | v # _ \<Rightarrow> AList.update lk (stripCRLF (take 1024 v)) out)"
  have "out' = out \<or> (\<exists>x. out' = AList.update (ToLower k) x out)"
    by (cases vs) (auto simp: out'_def Let_def)
  then have "?ok out'" using upd old by (elim disjE exE) simp_all
  moreover have "sanitiseLoop (kv # h) out = sanitiseLoop h out'" by (simp add: kv out'_def)
  ultimately show ?case using Cons.IH [of out'] by presburger
qed simp

text \<open>
  The signature headers of Monnify, NIBSS and Interswitch are stored in clear under the names without
  the \<^verbatim>\<open>x-\<close> prefix, which the adapters read and the list of sensitive headers does not have. The stored row is
  then a replay kit: the stored headers and the stored body, sent again, verify.
\<close>

theorem stored_row_replays:
  assumes "monnifyVerify L h body secret = None" and "(''Monnify-Signature'', v # vs) \<in> set h"
    and "distinct (map (ToLower \<circ> fst) h)" and "TrimSpace v \<noteq> []" "length v \<le> 1024" "stripCRLF v = v"
  shows "monnifyVerify L (map (\<lambda>(k, v). (k, [v])) (sanitiseHeaders h)) body secret = None"
proof -
  have low: "ToLower ''Monnify-Signature'' = ''monnify-signature''" "ToLower ''monnify-signature'' = ''monnify-signature''"
    by code_simp+
  have named: "headerNamed h' n = Some (TrimSpace v)"
    if "(k, v # ws) \<in> set h'" "distinct (map (ToLower \<circ> fst) h')" "ToLower k = ToLower n" for h' k n ws
    using that
  proof (induction h')
    case (Cons kv h')
    obtain k' vs' where kv: "kv = (k', vs')" by fastforce
    show ?case
    proof (cases "kv = (k, v # ws)")
      case False
      then have m: "(k, v # ws) \<in> set h'" using Cons.prems(1) by auto
      then have "ToLower k' \<noteq> ToLower n" using Cons.prems by (force simp: kv)
      with Cons m show ?thesis by (simp add: kv EqualFold_def)
    qed (use Cons.prems assms(4) in \<open>simp add: EqualFold_def\<close>)
  qed simp
  let ?s = "map (\<lambda>(k, v). (k, [v])) (sanitiseHeaders h)"
  have kept: "map_of (sanitiseHeaders h) ''monnify-signature'' = Some v"
    using sanitiseLoop_plain [OF assms(2,3), of "[]"] assms(5,6) low by (simp add: sanitiseHeaders_def sensitiveHeaders_def)
  then have "(''monnify-signature'', [v]) \<in> set ?s" by (force dest: map_of_SomeD)
  moreover have "distinct (map (ToLower \<circ> fst) ?s)"
  proof -
    have k: "distinct (map fst (sanitiseHeaders h))" "\<forall>k\<in>fst ` set (sanitiseHeaders h). ToLower k = k"
      using sanitiseLoop_keys [of "[]" h] by (simp_all add: sanitiseHeaders_def)
    have "map (ToLower \<circ> fst) ?s = map fst (sanitiseHeaders h)" using k(2) by auto
    with k(1) show ?thesis by (simp only:)
  qed
  ultimately have "FirstHeader ?s [''monnify-signature'', ''x-monnify-signature''] = TrimSpace v"
    using named [of "''monnify-signature''" "[]" ?s "''monnify-signature''"] by simp
  moreover have "FirstHeader h [''monnify-signature'', ''x-monnify-signature''] = TrimSpace v"
    using named [OF assms(2,3), of "''monnify-signature''"] low by simp
  ultimately show ?thesis using assms(1) by (simp add: monnifyVerify_def)
qed

theorem stored_row_replays_witness:
  "let h = [(''Monnify-Signature'', [hexEncode ''keybody'']), (''Cookie'', [''c''])]
   in monnifyVerify (docLib []) (map (\<lambda>(k, v). (k, [v])) (sanitiseHeaders h)) ''body'' ''key'' = None"
proof -
  let ?h = "[(''Monnify-Signature'', [hexEncode ''keybody'']), (''Cookie'', [''c''])]"
  have "monnifyVerify (docLib []) ?h ''body'' ''key'' = None \<and> distinct (map (ToLower \<circ> fst) ?h)
      \<and> TrimSpace (hexEncode ''keybody'') \<noteq> [] \<and> length (hexEncode ''keybody'') \<le> 1024
      \<and> stripCRLF (hexEncode ''keybody'') = hexEncode ''keybody''"
    by code_simp
  then show ?thesis using stored_row_replays [of "docLib []" ?h "''body''" "''key''" "hexEncode ''keybody''" "[]"] by simp
qed

section \<open>Authenticity\<close>

lemma trySecrets_None: "trySecrets check ss lastErr = None \<longleftrightarrow> (\<exists>s\<in>set ss. check s = None)"
  by (induction ss arbitrary: lastErr) (auto split: option.split)

lemma verifyRequest_accepts:
  assumes "verifyRequest E now e h body src = None"
  obtains a secrets s where "GetAdapter (re_registry E) (ep_TenantID e) (ep_AdapterName e) = Some a"
    "re_secrets E (ep_SecretRef e) = Inr secrets" "s \<in> set secrets" "ad_Verify a now h body s = None"
    "\<forall>published. ad_AllowedSources a = Some published \<longrightarrow> IsValid src \<and> inRanges (re_net E) src (allowedRanges e published)"
proof -
  obtain a where a: "GetAdapter (re_registry E) (ep_TenantID e) (ep_AdapterName e) = Some a"
    using assms by (auto simp: verifyRequest_def split: option.splits)
  have src: "\<forall>published. ad_AllowedSources a = Some published \<longrightarrow> IsValid src \<and> inRanges (re_net E) src (allowedRanges e published)"
    using assms a by (auto simp: verifyRequest_def checkSource_def split: option.splits if_splits)
  obtain secrets where "re_secrets E (ep_SecretRef e) = Inr secrets" "trySecrets (ad_Verify a now h body) secrets None = None"
    using assms a by (auto simp: verifyRequest_def split: option.splits sum.splits)
  with a src that show ?thesis unfolding trySecrets_None by blast
qed

text \<open>
  C10: Only an authentic webhook is acknowledged: when the answer is 200, the adapter of the endpoint the URL
  names accepted the bytes as they arrived under one of the endpoint's current secrets, and where the
  provider is restricted by address the request came from an allowed range. For a Paystack endpoint this
  means the header is the SHA-512 HMAC of the body.
\<close>

theorem accepted_is_authentic:
  assumes "handleWebhook E ck i req r = (r', answer)" and "an_status answer = 200"
  shows "\<exists>ep tenant body a secrets s. admitted req r ep tenant body
      \<and> GetAdapter (re_registry E) (ep_TenantID ep) (ep_AdapterName ep) = Some a
      \<and> re_secrets E (ep_SecretRef ep) = Inr secrets \<and> s \<in> set secrets
      \<and> ad_Verify a (ck_verify ck) (rq_Header req) body s = None
      \<and> (\<forall>published. ad_AllowedSources a = Some published \<longrightarrow>
            inRanges (re_net E) (sourceAddr E req) (allowedRanges ep published))
      \<and> (\<forall>L. a = paystack L \<longrightarrow>
            hexDecode (ToLower (TrimSpace (FirstHeader (rq_Header req) [''x-paystack-signature'']))) = Some (al_hmac L SHA512 s body))"
proof -
  have "received E ck i req r r' True" using handleWebhook_outcome [OF assms(1)] assms(2) by auto
  then obtain ep tenant body where ad: "admitted req r ep tenant body"
    and v: "raw_SignatureValid (rawEvent E ck i tenant ep req body)" by (auto simp: received_def)
  then have "verifyRequest E (ck_verify ck) ep (rq_Header req) body (sourceAddr E req) = None"
    by (simp add: rawEvent_def Let_def)
  then show ?thesis
  proof (rule verifyRequest_accepts)
    fix a secrets s
    assume a: "GetAdapter (re_registry E) (ep_TenantID ep) (ep_AdapterName ep) = Some a"
      "re_secrets E (ep_SecretRef ep) = Inr secrets" "s \<in> set secrets"
      "ad_Verify a (ck_verify ck) (rq_Header req) body s = None"
      "\<forall>published. ad_AllowedSources a = Some published \<longrightarrow>
         IsValid (sourceAddr E req) \<and> inRanges (re_net E) (sourceAddr E req) (allowedRanges ep published)"
    have "hexDecode (ToLower (TrimSpace (FirstHeader (rq_Header req) [''x-paystack-signature'']))) = Some (al_hmac L SHA512 s body)"
      if "a = paystack L" for L
    proof -
      have "VerifyHMAC L SHA512 Hex s body (FirstHeader (rq_Header req) [''x-paystack-signature'']) = None"
        using a(4) that by (simp add: paystack_def paystackVerify_def Let_def split: if_splits)
      then show ?thesis by (rule VerifyHMAC_accepts)
    qed
    with ad a show ?thesis by blast
  qed
qed

section \<open>A sample request\<close>

definition sampleReceiver :: Receiver where
  "sampleReceiver = NewReceiver (NewMemory\<lparr>mem_tenants := [(''tnt_1'', zeroTenant\<lparr>ten_ID := ''tnt_1'', ten_Slug := ''acme''\<rparr>)],
       mem_tenantBySlug := [(''acme'', ''tnt_1'')],
       mem_endpoints := [(''ep_1'', sampleEndpoint\<lparr>ep_AdapterName := ''paystack''\<rparr>)]\<rparr>) (Some (NewNormWorker 0)) 0 0 0"

definition sampleReceive :: ReceiveEnv where
  "sampleReceive = \<lparr>re_registry = NewRegistry (docLib [(''b'', paidDoc)]), re_secrets = (\<lambda>_. Inr [''old'', ''key'']), re_audit = plainLib,
     re_net = noNet, re_quote = id, re_trustProxyHeaders = False\<rparr>"

definition sampleClock :: ReceiveClock where
  "sampleClock = \<lparr>ck_start = 1, ck_limit = 2, ck_verify = 3, ck_audit = 4\<rparr>"

definition sampleWebhook :: "string \<Rightarrow> Webhook" where
  "sampleWebhook signature = \<lparr>rq_tenant = ''acme'', rq_provider = ''paystack'', rq_env = ''live'', rq_token = ''tok'',
     rq_Header = [(''X-Paystack-Signature'', [signature])], rq_Body = ''b'', rq_BodyFails = False, rq_RemoteAddr = []\<rparr>"

lemma sample_admitted:
  "admitted (sampleWebhook signature) sampleReceiver (sampleEndpoint\<lparr>ep_AdapterName := ''paystack''\<rparr>)
     (zeroTenant\<lparr>ten_ID := ''tnt_1'', ten_Slug := ''acme''\<rparr>) ''b''"
  by (simp add: admitted_def sampleReceiver_def NewReceiver_def sampleWebhook_def readBody_def MaxBodyBytes_def
      ResolveReceiver_def lookupOr_def sampleEndpoint_def EnvLive_def)

lemma sample_allowed: "dec_Allowed (snd (LimiterAllow (rc_limiter sampleReceiver) 2 ''tnt_1''))"
  by (simp add: sampleReceiver_def NewReceiver_def LimiterAllow_def AllowN_def NewLimiter_def bucketFor_def refill_def Let_def)

lemma sample_valid:
  "raw_SignatureValid (rawEvent sampleReceive sampleClock ''sh_raw_1'' (zeroTenant\<lparr>ten_ID := ''tnt_1'', ten_Slug := ''acme''\<rparr>)
     (sampleEndpoint\<lparr>ep_AdapterName := ''paystack''\<rparr>) (sampleWebhook (hexEncode ''keyb'')) ''b'')"
  by code_simp

lemma sample_received:
  "snd (handleWebhook sampleReceive sampleClock ''sh_raw_1'' (sampleWebhook (hexEncode ''keyb'')) sampleReceiver) = receivedAnswer ''sh_raw_1''"
proof -
  let ?req = "sampleWebhook (hexEncode ''keyb'')" and ?b = "fst (TryAcquire (rc_inFlight sampleReceiver))"
  have "snd (TryAcquire (rc_inFlight sampleReceiver))" by (simp add: TryAcquire_def sampleReceiver_def NewReceiver_def NewBounded_def)
  moreover have "map_of (mem_rawEvents (rc_store sampleReceiver)) ''sh_raw_1'' = None"
    by (simp add: sampleReceiver_def NewReceiver_def NewMemory_def)
  then have "snd (serve sampleReceive sampleClock ''sh_raw_1'' ?req (sampleReceiver\<lparr>rc_inFlight := ?b\<rparr>)) = receivedAnswer ''sh_raw_1''"
    using sample_admitted [of "hexEncode ''keyb''"] sample_allowed sample_valid
    by (simp add: serve_def admitted_def sampleClock_def case_prod_beta acceptRaw_def PutRawEvent_def)
  ultimately show ?thesis by (simp add: handleWebhook_def case_prod_beta)
qed

theorem accepted_is_authentic_witness:
  "\<exists>ep tenant body. admitted (sampleWebhook (hexEncode ''keyb'')) sampleReceiver ep tenant body"
proof -
  let ?run = "handleWebhook sampleReceive sampleClock ''sh_raw_1'' (sampleWebhook (hexEncode ''keyb'')) sampleReceiver"
  have "?run = (fst ?run, snd ?run)" by simp
  from accepted_is_authentic [OF this] sample_received show ?thesis by (auto simp: receivedAnswer_def)
qed

text \<open>
  C2: Store, then answer. A webhook answered 200 is in the store under the identifier in the answer, as a
  verified raw event with the redacted body and the digest of the original one; one answered 401 is in the
  store too, flagged as forged; every other answer leaves the store as it was. On every path the request's
  slot is given back and no canonical event is touched.
\<close>

theorem handleWebhook_stores:
  assumes "handleWebhook E ck i req r = (r', answer)"
  shows "rc_inFlight r' = rc_inFlight r
       \<and> (an_status answer = 200 \<and> received E ck i req r r' True
          \<or> an_status answer = 401 \<and> received E ck i req r r' False
          \<or> an_status answer \<in> {400, 404, 413, 429, 500} \<and> rc_store r' = rc_store r)"
  using assms by (rule handleWebhook_outcome)

theorem handleWebhook_stores_witness:
  "\<exists>r'. handleWebhook sampleReceive sampleClock ''sh_raw_1'' (sampleWebhook (hexEncode ''keyb'')) sampleReceiver = (r', receivedAnswer ''sh_raw_1'')
      \<and> received sampleReceive sampleClock ''sh_raw_1'' (sampleWebhook (hexEncode ''keyb'')) sampleReceiver r' True"
proof -
  let ?run = "handleWebhook sampleReceive sampleClock ''sh_raw_1'' (sampleWebhook (hexEncode ''keyb'')) sampleReceiver"
  have run: "?run = (fst ?run, receivedAnswer ''sh_raw_1'')" using sample_received by (simp add: prod_eq_iff)
  have "an_status (receivedAnswer ''sh_raw_1'') = 200" by (simp add: receivedAnswer_def)
  with handleWebhook_stores [OF run] run show ?thesis by auto
qed

end
