(* ===== verification/Shadow.thy ===== *)
theory Shadow
  imports Dispatch
begin

text \<open>
  Shadow mode, \<^verbatim>\<open>internal/dispatch/shadow.go\<close>: every event is posted to the customer's existing handler and to
  the new one, and the report says where they disagree. The two concurrent posts are given by their
  outcomes, in whichever order they end; the formatting of a rounded duration is a parameter. The terminal
  rendering \<open>Text\<close> is left out.
\<close>

section \<open>Definitions\<close>

record Divergence =
  dv_EventID :: string
  dv_Provider :: string
  dv_TransactionRef :: string
  dv_ObservedAt :: instant
  dv_ControlStatus :: int
  dv_CandidateStatus :: int
  dv_ControlDuration :: duration
  dv_CandidateDuration :: duration
  dv_Kind :: string
  dv_Detail :: string

definition DivergeCandidateRejected :: string where "DivergeCandidateRejected = ''candidate_rejected''"
definition DivergeControlRejected :: string where "DivergeControlRejected = ''control_rejected''"
definition DivergeBothRejected :: string where "DivergeBothRejected = ''both_rejected''"
definition DivergeCandidateSlower :: string where "DivergeCandidateSlower = ''candidate_slower''"

lemmas diverge_kinds = DivergeCandidateRejected_def DivergeControlRejected_def DivergeBothRejected_def
  DivergeCandidateSlower_def

definition slowerBy :: int where "slowerBy = 3"
definition slowestFloor :: duration where "slowestFloor = 250 * 1000000"

record Shadower =
  sd_compared :: int
  sd_agreed :: int
  sd_divergences :: "Divergence list"
  sd_maxRetained :: nat

definition NewShadower :: "int \<Rightarrow> Shadower" where
  "NewShadower maxRetained =
     \<lparr>sd_compared = 0, sd_agreed = 0, sd_divergences = [],
      sd_maxRetained = (if maxRetained \<le> 0 then 500 else nat maxRetained)\<rparr>"

text \<open>What one post came to.\<close>

record outcome =
  oc_status :: int
  oc_duration :: duration
  oc_err :: "string option"

record ShadowResult =
  sr_EventID :: string
  sr_Agreed :: bool
  sr_Divergence :: "Divergence option"
  sr_ControlErr :: "string option"
  sr_CandidateErr :: "string option"

definition recordShadow :: "bool \<Rightarrow> Divergence \<Rightarrow> Shadower \<Rightarrow> Shadower" where
  "recordShadow ok d s =
     (let s = s\<lparr>sd_compared := sd_compared s + 1\<rparr>
      in if ok then s\<lparr>sd_agreed := sd_agreed s + 1\<rparr>
         else if length (sd_divergences s) < sd_maxRetained s
              then s\<lparr>sd_divergences := sd_divergences s @ [d]\<rparr>
              else s)"

definition accepted :: "outcome \<Rightarrow> bool" where
  "accepted o1 \<longleftrightarrow> oc_err o1 = None \<and> IsSuccess (oc_status o1)"

text \<open>The kind of a disagreement, \<^const>\<open>None\<close> when the two handlers agree.\<close>

definition divergeKind :: "outcome \<Rightarrow> outcome \<Rightarrow> string option" where
  "divergeKind control cand =
     (if \<not> accepted control \<and> \<not> accepted cand then Some DivergeBothRejected
      else if accepted control \<and> \<not> accepted cand then Some DivergeCandidateRejected
      else if \<not> accepted control \<and> accepted cand then Some DivergeControlRejected
      else if oc_duration cand > slowestFloor \<and> oc_duration cand > wrap64 (oc_duration control * slowerBy)
           then Some DivergeCandidateSlower
      else None)"

definition divergeDetail :: "(duration \<Rightarrow> string) \<Rightarrow> outcome \<Rightarrow> outcome \<Rightarrow> string \<Rightarrow> string" where
  "divergeDetail roundedMS control cand kind =
     (if kind = DivergeBothRejected
      then ''both handlers rejected this event (control '' @ FormatInt (oc_status control) @ '', candidate ''
           @ FormatInt (oc_status cand) @ ''), ''
           @ ''which usually means the event is unusual rather than that either handler is wrong''
      else if kind = DivergeCandidateRejected
      then ''your existing handler accepted this event and the new one returned '' @ FormatInt (oc_status cand)
           @ ''. '' @ ''This is the case to investigate before switching.''
      else if kind = DivergeControlRejected
      then ''the new handler accepted this event and your existing one returned '' @ FormatInt (oc_status control)
           @ ''. '' @ ''Your current handler is dropping events like this today.''
      else ''the new handler took '' @ roundedMS (oc_duration cand) @ '' against the existing one's ''
           @ roundedMS (oc_duration control))"

definition Compare ::
    "DispatchEnv \<Rightarrow> (duration \<Rightarrow> string) \<Rightarrow> instant \<Rightarrow> CanonicalEvent \<Rightarrow> outcome \<Rightarrow> outcome \<Rightarrow> Shadower \<Rightarrow> Shadower \<times> ShadowResult" where
  "Compare E roundedMS now e control cand s =
     (let res = \<lparr>sr_EventID = ev_ID e, sr_Agreed = True, sr_Divergence = None, sr_ControlErr = None, sr_CandidateErr = None\<rparr>
      in case de_marshal E (BuildPayload E e []) of
           Inl err \<Rightarrow> (s, res\<lparr>sr_CandidateErr := Some err\<rparr>)
         | Inr _ \<Rightarrow>
             let res = res\<lparr>sr_ControlErr := oc_err control, sr_CandidateErr := oc_err cand\<rparr>;
                 d = \<lparr>dv_EventID = ev_ID e, dv_Provider = ev_Provider e, dv_TransactionRef = ev_TransactionRef e,
                      dv_ObservedAt = now, dv_ControlStatus = oc_status control, dv_CandidateStatus = oc_status cand,
                      dv_ControlDuration = oc_duration control, dv_CandidateDuration = oc_duration cand,
                      dv_Kind = [], dv_Detail = []\<rparr>
             in case divergeKind control cand of
                  None \<Rightarrow> (recordShadow True d s, res)
                | Some kind \<Rightarrow>
                    let d = d\<lparr>dv_Kind := kind, dv_Detail := divergeDetail roundedMS control cand kind\<rparr>
                    in (recordShadow False d s, res\<lparr>sr_Agreed := False, sr_Divergence := Some d\<rparr>))"

record Report =
  rep_Compared :: int
  rep_Agreed :: int
  rep_AgreementRate :: rat
  rep_ByKind :: "(string \<times> nat) list"
  rep_Divergences :: "Divergence list"
  rep_Truncated :: bool
  rep_Verdict :: string

fun countKinds :: "Divergence list \<Rightarrow> (string \<times> nat) list" where
  "countKinds [] = []"
| "countKinds (d # ds) =
     (let m = countKinds ds
      in AList.update (dv_Kind d) (Suc (case map_of m (dv_Kind d) of Some n \<Rightarrow> n | None \<Rightarrow> 0)) m)"

definition byKind :: "Report \<Rightarrow> string \<Rightarrow> nat" where
  "byKind r kind = (case map_of (rep_ByKind r) kind of Some n \<Rightarrow> n | None \<Rightarrow> 0)"

definition emDash :: string where "emDash = [CHR 0xE2, CHR 0x80, CHR 0x94]"

definition verdict :: "Report \<Rightarrow> string" where
  "verdict r =
     (if rep_Compared r = 0
      then ''no events compared yet. Leave shadow mode running until you have seen a normal week, ''
           @ ''including whatever your month-end looks like.''
      else if byKind r DivergeCandidateRejected > 0
      then show_nat (byKind r DivergeCandidateRejected)
           @ '' event(s) your existing handler accepted were rejected by the new one. ''
           @ ''Investigate those before switching '' @ emDash @ '' they are the only divergences that represent a regression.''
      else if byKind r DivergeControlRejected > 0
      then ''no regressions. '' @ show_nat (byKind r DivergeControlRejected)
           @ '' event(s) went the other way: your existing handler ''
           @ ''rejected events the new one accepted, which means those are being dropped today.''
      else if byKind r DivergeCandidateSlower > 0
      then ''no correctness divergences. '' @ show_nat (byKind r DivergeCandidateSlower)
           @ '' event(s) were materially slower against the new handler; check whether that matters at your volume.''
      else if rep_Compared r < 100
      then ''no divergences across '' @ FormatInt (rep_Compared r)
           @ '' events, which is a good sign and not yet a large sample. Keep it running.''
      else ''no divergences across '' @ FormatInt (rep_Compared r)
           @ '' events. The new handler agrees with your existing one on everything seen so far.'')"

definition ShadowReport :: "Shadower \<Rightarrow> Report" where
  "ShadowReport s =
     (let r = \<lparr>rep_Compared = sd_compared s, rep_Agreed = sd_agreed s,
               rep_AgreementRate = (if sd_compared s > 0 then of_int (sd_agreed s) / of_int (sd_compared s) else 0),
               rep_ByKind = countKinds (sd_divergences s),
               rep_Divergences = sort_key dv_ObservedAt (sd_divergences s),
               rep_Truncated = (int (length (sd_divergences s)) < sd_compared s - sd_agreed s),
               rep_Verdict = []\<rparr>
      in r\<lparr>rep_Verdict := verdict r\<rparr>)"

section \<open>The report is faithful until it is truncated\<close>

type_synonym comparison = "DispatchEnv \<times> (duration \<Rightarrow> string) \<times> instant \<times> CanonicalEvent \<times> outcome \<times> outcome"

fun shadowStep :: "Shadower \<Rightarrow> comparison \<Rightarrow> Shadower" where
  "shadowStep s (E, fmt, now, e, control, cand) = fst (Compare E fmt now e control cand s)"

text \<open>The disagreements a run really had, in order.\<close>

fun disagreement :: "comparison \<Rightarrow> string option" where
  "disagreement (E, fmt, now, e, control, cand) =
     (case de_marshal E (BuildPayload E e []) of Inl _ \<Rightarrow> None | Inr _ \<Rightarrow> divergeKind control cand)"

definition disagreements :: "comparison list \<Rightarrow> string list" where
  "disagreements xs = List.map_filter disagreement xs"

lemma disagreements_snoc:
  "disagreements (xs @ [x]) = disagreements xs @ (case disagreement x of None \<Rightarrow> [] | Some k \<Rightarrow> [k])"
  by (simp add: disagreements_def map_filter_def split: option.split)

lemma countKinds_lookup: "(case map_of (countKinds ds) k of Some n \<Rightarrow> n | None \<Rightarrow> 0) = count_list (map dv_Kind ds) k"
proof (induction ds)
  case (Cons d ds)
  then show ?case by (simp add: Let_def split: option.splits)
qed simp

lemma byKind_report: "byKind (ShadowReport s) k = count_list (map dv_Kind (sd_divergences s)) k"
  using countKinds_lookup [of "sd_divergences s" k] by (simp add: byKind_def ShadowReport_def Let_def)

definition shadow_inv :: "nat \<Rightarrow> comparison list \<Rightarrow> Shadower \<Rightarrow> bool" where
  "shadow_inv n xs s \<longleftrightarrow> sd_maxRetained s = n \<and> map dv_Kind (sd_divergences s) = take n (disagreements xs)
     \<and> sd_compared s - sd_agreed s = int (length (disagreements xs)) \<and> 0 \<le> sd_agreed s"

lemma shadowStep_inv:
  assumes "shadow_inv n xs s"
  shows "shadow_inv n (xs @ [x]) (shadowStep s x)"
proof -
  obtain E fmt now e control cand where x: "x = (E, fmt, now, e, control, cand)" by (cases x) auto
  have len: "length (sd_divergences s) = min n (length (disagreements xs))"
    using assms unfolding shadow_inv_def by (metis length_map length_take min.commute)
  show ?thesis
  proof (cases "disagreement x")
    case None
    then have "shadowStep s x = s \<or> (\<exists>d. shadowStep s x = recordShadow True d s)"
      by (auto simp: x Compare_def Let_def split: sum.splits)
    with assms None show ?thesis by (auto simp: shadow_inv_def disagreements_snoc recordShadow_def Let_def)
  next
    case (Some k)
    then obtain d where "shadowStep s x = recordShadow False d s" "dv_Kind d = k"
      by (auto simp: x Compare_def Let_def split: sum.splits)
    with assms Some len show ?thesis by (auto simp: shadow_inv_def disagreements_snoc recordShadow_def Let_def)
  qed
qed

lemma shadow_run: "shadow_inv (sd_maxRetained (NewShadower n)) xs (foldl shadowStep (NewShadower n) xs)"
proof (induction xs rule: rev_induct)
  case Nil
  then show ?case by (simp add: shadow_inv_def NewShadower_def disagreements_def map_filter_def)
next
  case (snoc x xs)
  then show ?case by (simp add: shadowStep_inv)
qed

text \<open>
  The shadow report counts what happened. After any run, compared minus agreed is the number of
  disagreements, the report keeps the first ones up to its bound and says it is truncated exactly when
  there were more; as long as it is not truncated, every kind is counted exactly, and the verdict speaks of a
  regression exactly when the new handler rejected an event the existing one accepted.
\<close>

theorem ShadowReport_faithful:
  fixes xs :: "comparison list" and n :: int
  defines "r \<equiv> ShadowReport (foldl shadowStep (NewShadower n) xs)" and "bound \<equiv> sd_maxRetained (NewShadower n)"
  shows "rep_Compared r - rep_Agreed r = int (length (disagreements xs))
       \<and> length (rep_Divergences r) = min bound (length (disagreements xs))
       \<and> (rep_Truncated r \<longleftrightarrow> bound < length (disagreements xs))
       \<and> (\<not> rep_Truncated r \<longrightarrow> byKind r k = count_list (disagreements xs) k
          \<and> (byKind r DivergeCandidateRejected > 0 \<longleftrightarrow> DivergeCandidateRejected \<in> set (disagreements xs)))"
proof -
  let ?s = "foldl shadowStep (NewShadower n) xs"
  have inv: "map dv_Kind (sd_divergences ?s) = take bound (disagreements xs)"
      "sd_compared ?s - sd_agreed ?s = int (length (disagreements xs))"
    using shadow_run [of n xs] by (simp_all add: shadow_inv_def bound_def)
  have len: "length (sd_divergences ?s) = min bound (length (disagreements xs))"
    using inv(1) by (metis length_map length_take min.commute)
  have r: "rep_Compared r = sd_compared ?s" "rep_Agreed r = sd_agreed ?s" "length (rep_Divergences r) = length (sd_divergences ?s)"
    "rep_Truncated r \<longleftrightarrow> int (length (sd_divergences ?s)) < sd_compared ?s - sd_agreed ?s"
    by (simp_all add: r_def ShadowReport_def Let_def)
  have trunc: "rep_Truncated r \<longleftrightarrow> bound < length (disagreements xs)" using r(4) inv(2) len by auto
  have "byKind r k = count_list (disagreements xs) k" if "\<not> rep_Truncated r" for k
    using that trunc inv(1) by (simp add: r_def byKind_report)
  moreover have "count_list ys k > 0 \<longleftrightarrow> k \<in> set ys" for ys :: "string list" and k
    using count_list_0_iff [of ys k] by auto
  ultimately show ?thesis using r(1-3) inv(2) len trunc by simp
qed

definition slowRun :: comparison where
  "slowRun = (\<lparr>de_audit = \<lparr>lib_sha256 = id, lib_marshal = (\<lambda>_. Inr []), lib_rfc3339 = (\<lambda>_. [])\<rparr>, de_validJSON = (\<lambda>_. True),
       de_marshal = (\<lambda>_. Inr []), de_secrets = (\<lambda>_. Inr []), de_mac = (\<lambda>_ _. []), de_badRequest = (\<lambda>_. None),
       de_fmtDuration = (\<lambda>_. []), de_rand = (\<lambda>_. None), de_send = (\<lambda>_. Response 200 []), de_shards = 64\<rparr>,
     (\<lambda>_. []), 0, zeroEvent, \<lparr>oc_status = 200, oc_duration = 1, oc_err = None\<rparr>,
     \<lparr>oc_status = 200, oc_duration = 10 ^ 9, oc_err = None\<rparr>)"

fun rejecting :: "comparison \<Rightarrow> comparison" where
  "rejecting (E, fmt, now, e, control, cand) = (E, fmt, now, e, control, cand\<lparr>oc_status := 500\<rparr>)"

lemma sample_disagreement: "disagreement slowRun = Some DivergeCandidateSlower" "disagreement (rejecting slowRun) = Some DivergeCandidateRejected"
  by (simp_all add: slowRun_def divergeKind_def accepted_def IsSuccess_def slowestFloor_def slowerBy_def wrap64_def)

theorem ShadowReport_faithful_witness:
  "byKind (ShadowReport (foldl shadowStep (NewShadower 0) [slowRun, rejecting slowRun])) DivergeCandidateRejected = 1"
proof -
  have d: "disagreements [slowRun, rejecting slowRun] = [DivergeCandidateSlower, DivergeCandidateRejected]"
    by (simp add: disagreements_def map_filter_def sample_disagreement)
  have "sd_maxRetained (NewShadower 0) = 500" by (simp add: NewShadower_def)
  with ShadowReport_faithful [of 0 "[slowRun, rejecting slowRun]" DivergeCandidateRejected] d show ?thesis
    by (simp add: diverge_kinds)
qed

text \<open>
  The verdict of a truncated report is about the retained disagreements only. Once the bound is reached
  without a regression, no later regression is ever counted, and the verdict goes on saying that there are
  none.
\<close>

theorem verdict_misses_regression:
  assumes "DivergeCandidateRejected \<notin> set (take (sd_maxRetained (NewShadower n)) (disagreements xs))"
  shows "byKind (ShadowReport (foldl shadowStep (NewShadower n) xs)) DivergeCandidateRejected = 0"
  using assms shadow_run [of n xs] by (simp add: byKind_report shadow_inv_def count_list_0_iff)

theorem verdict_misses_regression_witness:
  "byKind (ShadowReport (foldl shadowStep (NewShadower 1) [slowRun, rejecting slowRun])) DivergeCandidateRejected = 0"
proof (rule verdict_misses_regression)
  have "disagreements [slowRun, rejecting slowRun] = [DivergeCandidateSlower, DivergeCandidateRejected]"
    by (simp add: disagreements_def map_filter_def sample_disagreement)
  then show "DivergeCandidateRejected \<notin> set (take (sd_maxRetained (NewShadower 1)) (disagreements [slowRun, rejecting slowRun]))"
    by (simp add: NewShadower_def diverge_kinds)
qed

end
