(* ===== verification/Pipeline.thy ===== *)
theory Pipeline
  imports Receive_Spec Replay
begin

text \<open>
  The whole path of a payment event. A \<open>Hub\<close> is the state the receiver, the normaliser, the dispatcher, the
  replay service and the configuration API share; a history is any sequence of their operations, in any
  order and for any tenants, each with its own environment and clock. What leaves the hub is traced back to
  the webhook it came from.
\<close>

section \<open>Histories\<close>

record Hub =
  hub_core :: Dispatcher
  hub_limiter :: Limiter
  hub_inFlight :: Bounded
  hub_notify :: "NormWorker option"

definition receiverOf :: "Hub \<Rightarrow> Receiver" where
  "receiverOf h = \<lparr>rc_store = ds_store (hub_core h), rc_limiter = hub_limiter h, rc_inFlight = hub_inFlight h, rc_notify = hub_notify h\<rparr>"

definition withReceiver :: "Hub \<Rightarrow> Receiver \<Rightarrow> Hub" where
  "withReceiver h r = h\<lparr>hub_core := (hub_core h)\<lparr>ds_store := rc_store r\<rparr>, hub_limiter := rc_limiter r,
     hub_inFlight := rc_inFlight r, hub_notify := rc_notify r\<rparr>"

datatype hub_op =
    HubWebhook ReceiveEnv ReceiveClock string Webhook
  | HubNormalise NormaliseEnv instant string string string
  | HubSweep NormaliseEnv instant "string \<Rightarrow> string" int
  | HubClaim int instant int duration
  | HubDeliver DispatchEnv instant instant Delivery
  | HubReplay DispatchEnv instant string ReplayRequest
  | HubRetry DispatchEnv instant string int
  | HubRecover DispatchEnv instant string gotime int
  | HubTenant Tenant
  | HubCreateEndpoint Endpoint
  | HubUpdateEndpoint string Endpoint
  | HubDeleteEndpoint string string
  | HubCreateDestination Destination
  | HubUpdateDestination string Destination
  | HubDeleteDestination string string

definition onStore :: "(Memory \<Rightarrow> Memory) \<Rightarrow> Hub \<Rightarrow> Hub" where
  "onStore f h = h\<lparr>hub_core := (hub_core h)\<lparr>ds_store := f (ds_store (hub_core h))\<rparr>\<rparr>"

fun hub_step :: "Hub \<Rightarrow> hub_op \<Rightarrow> Hub" where
  "hub_step h (HubWebhook E ck i req) = withReceiver h (fst (handleWebhook E ck i req (receiverOf h)))"
| "hub_step h (HubNormalise E now i rawID t) = h\<lparr>hub_core := fst (Process E now i rawID t (hub_core h))\<rparr>"
| "hub_step h (HubSweep E now draw batch) = h\<lparr>hub_core := sweep E now draw batch (hub_core h)\<rparr>"
| "hub_step h (HubClaim shard now limit lease) = onStore (\<lambda>m. fst (ClaimDue m shard now limit lease)) h"
| "hub_step h (HubDeliver E start now del) = h\<lparr>hub_core := fst (fst (DeliverOnce E start now del (hub_core h)))\<rparr>"
| "hub_step h (HubReplay E now t req) = h\<lparr>hub_core := fst (Replay E now t req (hub_core h))\<rparr>"
| "hub_step h (HubRetry E now t i) = h\<lparr>hub_core := fst (RetryDeadLetter E now t i (hub_core h))\<rparr>"
| "hub_step h (HubRecover E now t since limit) = h\<lparr>hub_core := fst (SweepUndelivered E now t since limit (hub_core h))\<rparr>"
| "hub_step h (HubTenant t) = onStore (\<lambda>m. fst (CreateTenant m t)) h"
| "hub_step h (HubCreateEndpoint e) = onStore (\<lambda>m. fst (CreateEndpoint m e)) h"
| "hub_step h (HubUpdateEndpoint t e) = onStore (\<lambda>m. fst (UpdateEndpoint m t e)) h"
| "hub_step h (HubDeleteEndpoint t i) = onStore (\<lambda>m. fst (DeleteEndpoint m t i)) h"
| "hub_step h (HubCreateDestination d) = onStore (\<lambda>m. fst (CreateDestination m d)) h"
| "hub_step h (HubUpdateDestination t d) = onStore (\<lambda>m. fst (UpdateDestination m t d)) h"
| "hub_step h (HubDeleteDestination t i) = onStore (\<lambda>m. fst (DeleteDestination m t i)) h"

definition NewHub :: Hub where
  "NewHub = \<lparr>hub_core = \<lparr>ds_store = NewMemory, ds_breaker = NewBreaker 0 0 0\<rparr>, hub_limiter = NewLimiter 10000 20000 0,
     hub_inFlight = NewBounded ''receiver_in_flight'' 2048, hub_notify = Some (NewNormWorker 0)\<rparr>"

section \<open>What leaves the evidence alone\<close>

definition evidence :: "Memory \<Rightarrow> (string \<times> RawEvent) list \<times> (string \<times> CanonicalEvent) list" where
  "evidence m = (mem_rawEvents m, mem_events m)"

lemma CompleteDelivery_evidence: "evidence (fst (CompleteDelivery now m d)) = evidence m"
  by (simp add: evidence_def CompleteDelivery_def split: option.split)

lemma complete_evidence: "evidence (ds_store (fst (complete now del s))) = evidence (ds_store s)"
  using CompleteDelivery_evidence [of now "ds_store s" del] by (simp add: complete_def case_prod_beta)

lemma audit_evidence: "evidence (ds_store (audit E now r s)) = evidence (ds_store s)"
  by (simp add: evidence_def)

lemma park_evidence: "evidence (ds_store (fst (park E now del dest why s))) = evidence (ds_store s)"
  by (simp add: park_def complete_evidence)

lemma retry_evidence: "evidence (ds_store (fst (retry E start now del dest code body reason s))) = evidence (ds_store s)"
  by (simp add: retry_def Let_def complete_evidence park_evidence audit_evidence split: if_split)

lemma fail_evidence: "evidence (ds_store (fst (fail E start now del code body reason s))) = evidence (ds_store s)"
  by (simp add: fail_def Let_def complete_evidence audit_evidence)

lemma exchange_evidence: "evidence (ds_store (fst (exchange E start now del dest req s))) = evidence (ds_store s)"
  by (simp add: exchange_def handleResponse_def succeed_def Let_def recordBreaker_def complete_evidence retry_evidence
      fail_evidence audit_evidence split: http_result.split)

lemma DeliverOnce_evidence: "evidence (ds_store (fst (fst (DeliverOnce E start now del s)))) = evidence (ds_store s)"
  by (rule DeliverOnce_cases [of E start now del s])
     (simp_all add: fail_evidence park_evidence retry_evidence exchange_evidence)

lemma EnqueueReplay_evidence: "evidence (ds_store (fst (EnqueueReplay E now e i s))) = evidence (ds_store s)"
  by (simp add: EnqueueReplay_def evidence_def EnqueueDelivery_def case_prod_beta Let_def split: sum.split)

lemma replayTo_evidence: "evidence (ds_store (fst (fst (replayTo E now e dests sn)))) = evidence (ds_store (fst sn))"
proof (induction dests arbitrary: sn)
  case Nil
  then show ?case by (cases sn) simp
next
  case (Cons dest dests)
  obtain s n where sn: "sn = (s, n)" by fastforce
  obtain s' x where q: "EnqueueReplay E now e (dst_ID dest) s = (s', x)" by fastforce
  with EnqueueReplay_evidence [of E now e "dst_ID dest" s] have "evidence (ds_store s') = evidence (ds_store s)" by simp
  with Cons q show ?case by (simp add: sn split: sum.split)
qed

lemma replayEvents_evidence: "evidence (ds_store (fst (fst (replayEvents E now evs dests sn)))) = evidence (ds_store (fst sn))"
proof (induction evs arbitrary: sn)
  case (Cons e evs)
  obtain sn' x where q: "replayTo E now e dests sn = (sn', x)" by fastforce
  with replayTo_evidence [of E now e dests sn] have "evidence (ds_store (fst sn')) = evidence (ds_store (fst sn))" by simp
  with Cons q show ?case by (simp split: option.split)
qed simp

lemma Replay_evidence: "evidence (ds_store (fst (Replay E now t req s))) = evidence (ds_store s)"
  using replayEvents_evidence [of E now _ _ "(s, 0)"]
  by (auto simp: Replay_def Let_def case_prod_beta split: sum.split)

lemma RetryDeadLetter_evidence: "evidence (ds_store (fst (RetryDeadLetter E now t i s))) = evidence (ds_store s)"
proof (cases "GetDelivery (ds_store s) t i")
  case (Inr del)
  show ?thesis
  proof (cases "GetCanonicalEvent (ds_store s) t (del_EventID del)")
    case ev: (Inr e)
    obtain s' x where "EnqueueReplay E now e (del_DestinationID del) s = (s', x)" by fastforce
    moreover from this EnqueueReplay_evidence [of E now e "del_DestinationID del" s]
    have "evidence (ds_store s') = evidence (ds_store s)" by simp
    ultimately show ?thesis using Inr ev by (simp add: RetryDeadLetter_def split: sum.split)
  qed (simp add: Inr RetryDeadLetter_def)
qed (simp add: RetryDeadLetter_def)

lemma Enqueue_evidence: "evidence (ds_store (Enqueue E now e s)) = evidence (ds_store s)"
  by (simp add: evidence_def)

lemma sweepLoop_evidence: "evidence (ds_store (fst (sweepLoop E now t evs sn))) = evidence (ds_store (fst sn))"
proof (induction evs arbitrary: sn)
  case (Cons e evs)
  then show ?case by (cases sn) (simp add: Enqueue_evidence)
qed simp

lemma claimLoop_evidence: "evidence (fst (claimLoop now lease n blocked m ds)) = evidence m"
proof (induction ds arbitrary: n blocked m)
  case (Cons d ds)
  have "evidence (m\<lparr>mem_deliveries := x, mem_leases := y\<rparr>) = evidence m" for x y by (simp add: evidence_def)
  with Cons show ?case by (simp add: Let_def case_prod_beta)
qed simp

lemma config_evidence:
  "evidence (fst (CreateTenant m t)) = evidence m" "evidence (fst (CreateEndpoint m e)) = evidence m"
  "evidence (fst (UpdateEndpoint m i e)) = evidence m" "evidence (fst (DeleteEndpoint m i j)) = evidence m"
  "evidence (fst (CreateDestination m d)) = evidence m" "evidence (fst (UpdateDestination m i d)) = evidence m"
  "evidence (fst (DeleteDestination m i j)) = evidence m" "evidence (fst (ClaimDue m shard now limit lease)) = evidence m"
  by (simp_all add: CreateTenant_def CreateEndpoint_def UpdateEndpoint_def DeleteEndpoint_def CreateDestination_def
      UpdateDestination_def DeleteDestination_def ClaimDue_def Let_def claimLoop_evidence)
     (simp_all add: evidence_def split: option.split)

section \<open>Every event is traced to its webhook\<close>

text \<open>The raw event is what the receiver makes of a webhook of the history, in the state it arrived in.\<close>

definition arrived :: "hub_op list \<Rightarrow> string \<Rightarrow> RawEvent \<Rightarrow> bool" where
  "arrived xs i raw \<longleftrightarrow>
     (\<exists>ys zs E ck req ep tenant body. xs = ys @ HubWebhook E ck i req # zs
        \<and> admitted req (receiverOf (foldl hub_step NewHub ys)) ep tenant body \<and> raw = rawEvent E ck i tenant ep req body)"

text \<open>
  The event is what the normaliser makes of a raw event it reads from the store: the fields its endpoint's adapter
  reads, stamped, with the customer hashed and the redaction noted. \<open>normaliserOf\<close> gives the steps that normalise a raw
  event, with their clock and the identifier they draw.
\<close>

definition normalisedBy :: "NormaliseEnv \<Rightarrow> instant \<Rightarrow> string \<Rightarrow> Memory \<Rightarrow> RawEvent \<Rightarrow> CanonicalEvent \<Rightarrow> bool" where
  "normalisedBy E now newID m raw e \<longleftrightarrow>
     GetRawEvent m (raw_TenantID raw) (raw_ID raw) = Inr raw \<and> raw_SignatureValid raw
   \<and> (\<exists>endpoint a parsed e0. GetEndpoint m (raw_TenantID raw) (raw_EndpointID raw) = Inr endpoint
        \<and> GetAdapter (ne_registry E) (raw_TenantID raw) (ep_AdapterName endpoint) = Some a
        \<and> ad_Parse a (raw_Body raw) = Inr parsed
        \<and> noteRedaction raw (hashCustomer E (raw_TenantID raw) (stamp now newID (raw_TenantID raw) raw endpoint parsed)) = Some e0
        \<and> e = Normalise e0)"

fun normaliserOf :: "hub_op \<Rightarrow> RawEvent \<Rightarrow> (NormaliseEnv \<times> instant \<times> string) option" where
  "normaliserOf (HubNormalise E now i rawID t) raw =
     (if rawID = raw_ID raw \<and> t = raw_TenantID raw then Some (E, now, i) else None)"
| "normaliserOf (HubSweep E now draw batch) raw = Some (E, now, draw (raw_ID raw))"
| "normaliserOf _ raw = None"

definition hubStore :: "hub_op list \<Rightarrow> Memory" where
  "hubStore xs = ds_store (hub_core (foldl hub_step NewHub xs))"

definition madeFrom :: "hub_op list \<Rightarrow> RawEvent \<Rightarrow> CanonicalEvent \<Rightarrow> bool" where
  "madeFrom xs raw e \<longleftrightarrow>
     (\<exists>ys op zs E now newID. xs = ys @ op # zs \<and> normaliserOf op raw = Some (E, now, newID)
        \<and> normalisedBy E now newID (hubStore ys) raw e)"

definition traced :: "hub_op list \<Rightarrow> Memory \<Rightarrow> bool" where
  "traced xs m \<longleftrightarrow> events_ok m \<and> (\<forall>i raw. map_of (mem_rawEvents m) i = Some raw \<longrightarrow> arrived xs i raw)
     \<and> (\<forall>i e. map_of (mem_events m) i = Some e \<longrightarrow>
          (\<exists>raw. map_of (mem_rawEvents m) (ev_RawEventID e) = Some raw \<and> madeFrom xs raw e))"

lemma arrived_snoc: "arrived xs i raw \<Longrightarrow> arrived (xs @ [x]) i raw"
  unfolding arrived_def by (metis append_Cons append_assoc)

lemma madeFrom_snoc: "madeFrom xs raw e \<Longrightarrow> madeFrom (xs @ [x]) raw e"
  unfolding madeFrom_def by (metis append_Cons append_assoc)

lemma madeFrom_last:
  "normaliserOf x raw = Some (E, now, newID) \<Longrightarrow> normalisedBy E now newID (hubStore xs) raw e \<Longrightarrow> madeFrom (xs @ [x]) raw e"
  unfolding madeFrom_def by blast

lemma madeFrom_sweep:
  "normalisedBy E now (draw (raw_ID raw)) (hubStore xs) raw e \<Longrightarrow> madeFrom (xs @ [HubSweep E now draw batch]) raw e"
  by (rule madeFrom_last [rotated]) simp_all

lemma madeFrom_normalise:
  "normalisedBy E now i (hubStore xs) raw e \<Longrightarrow>
   madeFrom (xs @ [HubNormalise E now i (raw_ID raw) (raw_TenantID raw)]) raw e"
  by (rule madeFrom_last [rotated]) simp_all

lemma traced_evidence:
  assumes "traced xs m" "evidence m' = evidence m"
  shows "traced (xs @ [x]) m'"
proof -
  have f: "mem_rawEvents m' = mem_rawEvents m" "mem_events m' = mem_events m" using assms(2) by (simp_all add: evidence_def)
  have "\<exists>raw. map_of (mem_rawEvents m) (ev_RawEventID e) = Some raw \<and> madeFrom (xs @ [x]) raw e"
    if "map_of (mem_events m) i = Some e" for i e
    using that assms(1) madeFrom_snoc unfolding traced_def by blast
  with assms(1) f events_ok_frame [of m' m] show ?thesis by (simp add: traced_def arrived_snoc)
qed

lemma normalisedBy_frame:
  "mem_rawEvents m' = mem_rawEvents m \<Longrightarrow> mem_endpoints m' = mem_endpoints m \<Longrightarrow>
   normalisedBy E now newID m' raw e = normalisedBy E now newID m raw e"
  by (simp add: normalisedBy_def GetRawEvent_def GetEndpoint_def)

lemma Process_events:
  assumes "table_wf raw_ID (mem_rawEvents (ds_store s))"
    and "map_of (mem_events (ds_store (fst (Process E now i rawID t s)))) k = Some e"
  shows "map_of (mem_events (ds_store s)) k = Some e
    \<or> (\<exists>raw. map_of (mem_rawEvents (ds_store s)) (ev_RawEventID e) = Some raw \<and> raw_ID raw = rawID \<and> raw_TenantID raw = t
         \<and> normalisedBy E now i (ds_store s) raw e)"
proof (cases rule: Process_cases [of E now i rawID t s])
  case (untouched r)
  with assms(2) show ?thesis by simp
next
  case (marked reason r)
  with assms(2) show ?thesis by simp
next
  case (stored raw ep a parsed e')
  have g: "GetRawEvent (ds_store s) t rawID = Inr raw" using stored(2) by (simp add: workable_def)
  from GetRawEvent_found [OF g] have raw: "map_of (mem_rawEvents (ds_store s)) rawID = Some raw" "raw_TenantID raw = t"
    by simp_all
  then have "raw_ID raw = rawID" using table_wf_lookup [OF assms(1)] by blast
  with stored raw g have "normalisedBy E now i (ds_store s) raw e'"
    unfolding normalisedBy_def workable_def by blast
  moreover have "ev_RawEventID e' = rawID" using stored(4) \<open>raw_ID raw = rawID\<close> by (simp add: filled_def)
  moreover have "mem_events (ds_store (fst (Process E now i rawID t s))) = AList.update (ev_ID e') e' (mem_events (ds_store s))"
    using stored(1) PutCanonicalEvent_Some [OF stored(6)] by simp
  ultimately show ?thesis using assms(2) raw \<open>raw_ID raw = rawID\<close> by (auto simp: update_conv' split: if_splits)
qed

lemma sweepRaws_events:
  assumes "events_ok (ds_store s)"
    and "map_of (mem_events (ds_store (sweepRaws E now draw raws s))) k = Some e"
  shows "map_of (mem_events (ds_store s)) k = Some e
    \<or> (\<exists>raw. map_of (mem_rawEvents (ds_store s)) (ev_RawEventID e) = Some raw
         \<and> normalisedBy E now (draw (raw_ID raw)) (ds_store s) raw e)"
  using assms
proof (induction raws arbitrary: s)
  case (Cons raw raws)
  let ?s = "fst (Process E now (draw (raw_ID raw)) (raw_ID raw) (raw_TenantID raw) s)"
  have "map_of (mem_events (ds_store ?s)) k = Some e
    \<or> (\<exists>raw. map_of (mem_rawEvents (ds_store ?s)) (ev_RawEventID e) = Some raw
         \<and> normalisedBy E now (draw (raw_ID raw)) (ds_store ?s) raw e)"
    using Cons.IH [of ?s] Cons.prems Process_events_ok by simp
  then show ?case
  proof
    assume "map_of (mem_events (ds_store ?s)) k = Some e"
    from Process_events [OF _ this] Cons.prems(1) show ?thesis by (auto simp: events_ok_def)
  next
    assume "\<exists>raw. map_of (mem_rawEvents (ds_store ?s)) (ev_RawEventID e) = Some raw
         \<and> normalisedBy E now (draw (raw_ID raw)) (ds_store ?s) raw e"
    then show ?thesis
      using normalisedBy_frame [of "ds_store ?s" "ds_store s"] by (simp add: Process_frame)
  qed
qed simp

lemma traced_new:
  assumes t: "traced xs m" and ok: "events_ok m'" and raws: "mem_rawEvents m' = mem_rawEvents m"
    and new: "\<And>k e. map_of (mem_events m') k = Some e \<Longrightarrow> map_of (mem_events m) k = Some e
      \<or> (\<exists>raw. map_of (mem_rawEvents m) (ev_RawEventID e) = Some raw \<and> madeFrom (xs @ [x]) raw e)"
  shows "traced (xs @ [x]) m'"
  unfolding traced_def raws
proof (intro conjI allI impI)
  show "events_ok m'" by (rule ok)
  show "arrived (xs @ [x]) i raw" if "map_of (mem_rawEvents m) i = Some raw" for i raw
    using that t arrived_snoc unfolding traced_def by blast
  show "\<exists>raw. map_of (mem_rawEvents m) (ev_RawEventID e) = Some raw \<and> madeFrom (xs @ [x]) raw e"
    if "map_of (mem_events m') i = Some e" for i e
    using new [OF that] t madeFrom_snoc unfolding traced_def by blast
qed

lemma traced_normalise:
  assumes "traced xs (hubStore xs)" and s: "ds_store s = hubStore xs"
  shows "traced (xs @ [HubNormalise E now i rawID t]) (ds_store (fst (Process E now i rawID t s)))"
proof (rule traced_new [OF assms(1)])
  have ok: "events_ok (ds_store s)" using assms unfolding traced_def by simp
  then show "events_ok (ds_store (fst (Process E now i rawID t s)))" by (rule Process_events_ok)
  show "mem_rawEvents (ds_store (fst (Process E now i rawID t s))) = mem_rawEvents (hubStore xs)" by (simp add: Process_frame s)
  fix k e
  assume e: "map_of (mem_events (ds_store (fst (Process E now i rawID t s)))) k = Some e"
  have "table_wf raw_ID (mem_rawEvents (ds_store s))" using ok by (simp add: events_ok_def)
  from Process_events [OF this e] show "map_of (mem_events (hubStore xs)) k = Some e
      \<or> (\<exists>raw. map_of (mem_rawEvents (hubStore xs)) (ev_RawEventID e) = Some raw
           \<and> madeFrom (xs @ [HubNormalise E now i rawID t]) raw e)"
    unfolding s using madeFrom_normalise by blast
qed

lemma traced_sweep:
  assumes "traced xs (hubStore xs)" and s: "ds_store s = hubStore xs"
  shows "traced (xs @ [HubSweep E now draw batch]) (ds_store (sweep E now draw batch s))"
proof (rule traced_new [OF assms(1)])
  have ok: "events_ok (ds_store s)" using assms unfolding traced_def by simp
  have "events_ok (ds_store (sweepRaws E now draw raws s))" if "events_ok (ds_store s)" for raws s
    using that by (induction raws arbitrary: s) (simp_all add: Process_events_ok)
  with ok show "events_ok (ds_store (sweep E now draw batch s))" by (simp add: sweep_def)
  show "mem_rawEvents (ds_store (sweep E now draw batch s)) = mem_rawEvents (hubStore xs)"
    by (simp add: sweep_def sweepRaws_frame s)
  fix k e
  assume "map_of (mem_events (ds_store (sweep E now draw batch s))) k = Some e"
  from sweepRaws_events [OF ok this [unfolded sweep_def]] show "map_of (mem_events (hubStore xs)) k = Some e
      \<or> (\<exists>raw. map_of (mem_rawEvents (hubStore xs)) (ev_RawEventID e) = Some raw
           \<and> madeFrom (xs @ [HubSweep E now draw batch]) raw e)"
    unfolding s using madeFrom_sweep by blast
qed

lemma events_ok_raw:
  assumes "events_ok m" "map_of (mem_rawEvents m) i = None" "raw_ID raw = i"
    "mem_rawEvents m' = AList.update i raw (mem_rawEvents m)" "mem_events m' = mem_events m"
  shows "events_ok m'"
proof -
  have "table_wf raw_ID (mem_rawEvents m')" using assms by (simp add: events_ok_def table_wf_update)
  moreover have "event_ok m' e" if "event_ok m e" for e
    using that assms(2,4) by (auto simp: event_ok_def)
  ultimately show ?thesis using assms by (simp add: events_ok_def)
qed

lemma traced_webhook:
  assumes t: "traced xs (hubStore xs)" and "handleWebhook E ck i req (receiverOf (foldl hub_step NewHub xs)) = (r', a)"
  shows "traced (xs @ [HubWebhook E ck i req]) (rc_store r')"
proof (cases "rc_store r' = hubStore xs")
  case True
  then show ?thesis using traced_evidence [OF t, of "rc_store r'"] by simp
next
  case False
  let ?r = "receiverOf (foldl hub_step NewHub xs)"
  have store: "rc_store ?r = hubStore xs" by (simp add: receiverOf_def hubStore_def)
  obtain valid where "received E ck i req ?r r' valid" using handleWebhook_outcome [OF assms(2)] False store by auto
  then obtain ep tenant body raw where rec: "admitted req ?r ep tenant body" "raw = rawEvent E ck i tenant ep req body"
      "map_of (mem_rawEvents (hubStore xs)) i = None" "mem_rawEvents (rc_store r') = AList.update i raw (mem_rawEvents (hubStore xs))"
      "mem_events (rc_store r') = mem_events (hubStore xs)"
    by (auto simp: received_def store)
  have ok: "events_ok (hubStore xs)" using t unfolding traced_def by blast
  then have "events_ok (rc_store r')" by (rule events_ok_raw [OF _ rec(3) _ rec(4,5)]) (simp add: rec(2))
  moreover have "arrived (xs @ [HubWebhook E ck i req]) j raw'" if "map_of (mem_rawEvents (rc_store r')) j = Some raw'" for j raw'
  proof (cases "j = i")
    case True
    with that rec(4) have "raw' = raw" by simp
    with rec(1,2) True show ?thesis unfolding arrived_def by blast
  next
    case False
    with that rec(4) t show ?thesis unfolding traced_def by (auto intro: arrived_snoc)
  qed
  moreover have "\<exists>raw. map_of (mem_rawEvents (rc_store r')) (ev_RawEventID e) = Some raw
      \<and> madeFrom (xs @ [HubWebhook E ck i req]) raw e" if "map_of (mem_events (rc_store r')) k = Some e" for k e
  proof -
    have "map_of (mem_events (hubStore xs)) k = Some e" using that rec(5) by simp
    with t obtain raw' where r: "map_of (mem_rawEvents (hubStore xs)) (ev_RawEventID e) = Some raw'" "madeFrom xs raw' e"
      unfolding traced_def by blast
    with rec(3) have "ev_RawEventID e \<noteq> i" by auto
    with r show ?thesis by (auto simp: rec(4) intro: madeFrom_snoc)
  qed
  ultimately show ?thesis unfolding traced_def by blast
qed

lemma hub_traced: "traced xs (hubStore xs)"
proof (induction xs rule: rev_induct)
  case Nil
  then show ?case by (simp add: hubStore_def NewHub_def NewMemory_def traced_def events_ok_def table_wf_def)
next
  case (snoc x xs)
  let ?h = "foldl hub_step NewHub xs"
  have s: "ds_store (hub_core ?h) = hubStore xs" by (simp add: hubStore_def)
  have keep: "traced (xs @ [x]) m" if "evidence m = evidence (ds_store (hub_core ?h))" for m
    using traced_evidence [OF snoc] that s by simp
  have "traced (xs @ [x]) (ds_store (hub_core (hub_step ?h x)))"
  proof (cases x)
    case (HubWebhook E ck i req)
    obtain r' a where r: "handleWebhook E ck i req (receiverOf ?h) = (r', a)" by fastforce
    from traced_webhook [OF snoc r] show ?thesis using HubWebhook r by (simp add: withReceiver_def)
  next
    case (HubNormalise E now i rawID t)
    with traced_normalise [OF snoc s] show ?thesis by simp
  next
    case (HubSweep E now draw batch)
    with traced_sweep [OF snoc s] show ?thesis by simp
  next
    case (HubRecover E now t since limit)
    then show ?thesis by (intro keep) (simp add: SweepUndelivered_def sweepLoop_evidence)
  qed (rule keep, simp add: onStore_def config_evidence DeliverOnce_evidence Replay_evidence RetryDeadLetter_evidence)+
  then show ?case by (simp add: hubStore_def)
qed

section \<open>End to end\<close>

text \<open>
  C1: End-to-end authenticity. After any history of webhooks, normalisation, delivery attempts, replays and
  configuration changes, a request the dispatcher sends is the rendering, for the stored destination and signed with the
  destination's secrets, of the stored event of the delivery, under the event's identifier as idempotency key. That event
  is valid and pseudonymised, and it is what the normaliser made, at a step of the history, of the raw event in the
  store under its raw event identifier. That raw event is what the receiver made of the webhook at a step of
  the history whose receiver path was that of an enabled endpoint of the tenant at that step, and whose bytes, as they
  arrived, the endpoint's adapter verified under one of the endpoint's secrets. No forged webhook is ever forwarded.
\<close>

theorem delivered_is_authentic:
  assumes "m = hubStore xs"
    and "snd (DeliverOnce E start now del (hub_core (foldl hub_step NewHub xs))) = Some req"
  shows "\<exists>e dest keys raw ys zs E' ck hook ep tenant body a secrets s.
     GetCanonicalEvent m (del_TenantID del) (del_EventID del) = Inr e
   \<and> GetDestination m (del_TenantID del) (del_DestinationID del) = Inr dest
   \<and> de_secrets E (dst_SigningSecretRef dest) = Inr keys
   \<and> RenderPayload E (ResolveSchema (dst_SchemaVersion dest)) e (rawFor m del dest e) = Inr (Request.rq_Body req)
   \<and> req = buildRequest E start del dest e keys (Request.rq_Body req) \<and> rq_IdempotencyKey req = del_EventID del
   \<and> Validate e = None \<and> pseudonymous e
   \<and> GetRawEvent m (del_TenantID del) (ev_RawEventID e) = Inr raw \<and> madeFrom xs raw e
   \<and> xs = ys @ HubWebhook E' ck (ev_RawEventID e) hook # zs
   \<and> ResolveReceiver (hubStore ys) (rq_tenant hook) (rq_provider hook) (rq_env hook) (rq_token hook) = Inr (ep, tenant)
   \<and> ep_Enabled ep \<and> ten_ID tenant = del_TenantID del \<and> readBody hook = Inr body
   \<and> raw = rawEvent E' ck (ev_RawEventID e) tenant ep hook body
   \<and> GetAdapter (re_registry E') (ep_TenantID ep) (ep_AdapterName ep) = Some a
   \<and> re_secrets E' (ep_SecretRef ep) = Inr secrets \<and> s \<in> set secrets
   \<and> ad_Verify a (ck_verify ck) (Webhook.rq_Header hook) body s = None"
proof -
  have tr: "traced xs m" unfolding assms(1) by (rule hub_traced)
  have store: "ds_store (hub_core (foldl hub_step NewHub xs)) = m" by (simp add: assms(1) hubStore_def)
  obtain dest e keys body' where sent: "req = buildRequest E start del dest e keys body'"
      "GetCanonicalEvent m (del_TenantID del) (del_EventID del) = Inr e"
      "GetDestination m (del_TenantID del) (del_DestinationID del) = Inr dest"
      "de_secrets E (dst_SigningSecretRef dest) = Inr keys"
      "RenderPayload E (ResolveSchema (dst_SchemaVersion dest)) e (rawFor m del dest e) = Inr body'"
    using assms(2) unfolding store [symmetric]
    by (cases rule: DeliverOnce_cases [of E start now del "hub_core (foldl hub_step NewHub xs)"]) auto
  have body': "Request.rq_Body req = body'" by (simp add: sent(1) buildRequest_def)
  have ev: "map_of (mem_events m) (del_EventID del) = Some e" "ev_TenantID e = del_TenantID del"
    using sent(2) by (auto simp: GetCanonicalEvent_def split: option.splits if_splits)
  then have ok: "ev_ID e = del_EventID del" "event_ok m e" using tr unfolding traced_def events_ok_def by blast+
  obtain raw where raw: "map_of (mem_rawEvents m) (ev_RawEventID e) = Some raw" "madeFrom xs raw e"
    using tr ev(1) unfolding traced_def by blast
  with ok(2) have valid: "Validate e = None" "pseudonymous e" "raw_SignatureValid raw" "raw_TenantID raw = ev_TenantID e"
    by (auto simp: event_ok_def)
  have get: "GetRawEvent m (del_TenantID del) (ev_RawEventID e) = Inr raw"
    using raw(1) valid(4) ev(2) by (simp add: GetRawEvent_def)
  from raw(1) tr obtain ys zs E' ck hook ep tenant body where hook: "xs = ys @ HubWebhook E' ck (ev_RawEventID e) hook # zs"
      "admitted hook (receiverOf (foldl hub_step NewHub ys)) ep tenant body"
      "raw = rawEvent E' ck (ev_RawEventID e) tenant ep hook body"
    unfolding traced_def arrived_def by blast
  then have "verifyRequest E' (ck_verify ck) ep (Webhook.rq_Header hook) body (sourceAddr E' hook) = None" "ten_ID tenant = del_TenantID del"
    using valid(3,4) ev(2) by (simp_all add: rawEvent_def Let_def)
  note v = this
  obtain a secrets s where a: "GetAdapter (re_registry E') (ep_TenantID ep) (ep_AdapterName ep) = Some a"
      "re_secrets E' (ep_SecretRef ep) = Inr secrets" "s \<in> set secrets"
      "ad_Verify a (ck_verify ck) (Webhook.rq_Header hook) body s = None"
    using v(1) by (rule verifyRequest_accepts)
  have "ResolveReceiver (hubStore ys) (rq_tenant hook) (rq_provider hook) (rq_env hook) (rq_token hook) = Inr (ep, tenant)"
    "ep_Enabled ep" "readBody hook = Inr body"
    using hook(2) by (simp_all add: admitted_def receiverOf_def hubStore_def)
  moreover have "rq_IdempotencyKey req = del_EventID del" using sent(1) ok(1) by (simp add: buildRequest_def)
  ultimately show ?thesis using sent valid get raw(2) hook(1,3) v(2) a unfolding body' by blast
qed

text \<open>A payment on its way through, at an endpoint with an adapter of the tenant's own.\<close>

definition plainAdapter :: Adapter where
  "plainAdapter = \<lparr>ad_Name = ''plain'', ad_Verify = (\<lambda>now h body s. if s = ''key'' then None else Some (VerBadSignature [])),
     ad_Parse = (\<lambda>body. Inr ((newEvent ''plain'')\<lparr>ev_TransactionRef := body, ev_Status := StatusSuccess,
                                 ev_EventType := EventTypeFor ''payment'' StatusSuccess\<rparr>)),
     ad_DedupeKey = (\<lambda>_. None), ad_AllowedSources = None\<rparr>"

definition plainRegistry :: Registry where
  "plainRegistry = \<lparr>reg_builtin = [], reg_declared = [(''tnt_1'', [(''plain'', plainAdapter)])]\<rparr>"

text \<open>The audit trail is down throughout, which holds nothing up.\<close>

definition sampleDispatch :: DispatchEnv where
  "sampleDispatch = (sampleEnv (Response 200 []))\<lparr>de_audit := plainLib\<lparr>lib_marshal := (\<lambda>_. Inl ''down'')\<rparr>\<rparr>"

definition sampleHistory :: "hub_op list" where
  "sampleHistory =
     [HubTenant (zeroTenant\<lparr>ten_ID := ''tnt_1'', ten_Slug := ''acme''\<rparr>),
      HubCreateEndpoint (sampleEndpoint\<lparr>ep_AdapterName := ''plain''\<rparr>), HubCreateDestination sampleDestination,
      HubWebhook (sampleReceive\<lparr>re_registry := plainRegistry, re_audit := de_audit sampleDispatch\<rparr>) sampleClock ''sh_raw_1'' (sampleWebhook []),
      HubNormalise ((sampleNorm [])\<lparr>ne_registry := plainRegistry, ne_dispatch := sampleDispatch\<rparr>) 30 ''sh_evt_1'' ''sh_raw_1'' ''tnt_1'']"

theorem delivered_is_authentic_witness:
  "\<exists>req e raw. snd (DeliverOnce sampleDispatch 40 41 sampleClaim (hub_core (foldl hub_step NewHub sampleHistory))) = Some req
      \<and> rq_IdempotencyKey req = ''sh_evt_1''
      \<and> GetCanonicalEvent (hubStore sampleHistory) ''tnt_1'' ''sh_evt_1'' = Inr e \<and> Validate e = None
      \<and> GetRawEvent (hubStore sampleHistory) ''tnt_1'' (ev_RawEventID e) = Inr raw \<and> madeFrom sampleHistory raw e"
proof -
  let ?run = "snd (DeliverOnce sampleDispatch 40 41 sampleClaim (hub_core (foldl hub_step NewHub sampleHistory)))"
  have "?run \<noteq> None" by code_simp
  then obtain req where req: "?run = Some req" by blast
  from delivered_is_authentic [OF refl req] req show ?thesis by auto
qed

end
