(* ===== verification/Declarative.thy ===== *)
theory Declarative
  imports Provider_Adapters
begin

text \<open>
  Adapters a customer uploads as data: \<^verbatim>\<open>internal/adapters/declarative/{config,adapter,testrun}.go\<close>. A
  \<open>Config\<close> is validated, compiled into a \<open>DeclAdapter\<close> and run behind the same interface as the built-in
  integrations. The Go maps \<open>values\<close> and \<open>extra_fields\<close> are association lists whose order stands for the
  order in which a \<open>range\<close> visits them; the map of optional paths inside \<open>Validate\<close> is visited in source
  order, which only decides which of several malformed paths is named. The JSON decoder that reads an
  uploaded configuration is a parameter of \<open>ParseConfig\<close>.
\<close>

section \<open>Configuration\<close>

definition MaxStatusValues :: nat where "MaxStatusValues = 200"
definition MaxExtraFields :: nat where "MaxExtraFields = 50"
definition MaxNameLength :: nat where "MaxNameLength = 64"
definition MaxConfigBytes :: nat where "MaxConfigBytes = 64 * 1024"
definition MaxSignedFields :: nat where "MaxSignedFields = 8"
definition MaxSourceCIDRs :: nat where "MaxSourceCIDRs = 64"

record Verification =
  vf_Type :: string
  vf_Algorithm :: string
  vf_Encoding :: string
  vf_Header :: string
  vf_Source :: string
  vf_Fields :: "string list"
  vf_TimestampHeader :: string
  vf_ToleranceSecs :: int
  vf_AllowedSourceCIDRs :: "string list"

record TimeMapping =
  tm_Path :: string
  tm_Format :: string
  tm_Timezone :: string

record AmountMap =
  am_Path :: string
  am_Unit :: string
  am_CurrencyPath :: string
  am_DefaultCurrency :: string

record StatusMap =
  sm_Path :: string
  sm_Values :: "(string \<times> string) list"
  sm_Default :: string
  sm_CaseSensitive :: bool

record FieldMapping =
  mp_ProviderEventID :: string
  mp_TransactionRef :: string
  mp_EventFamily :: string
  mp_OccurredAt :: TimeMapping
  mp_Amount :: AmountMap
  mp_Status :: StatusMap
  mp_CustomerRef :: string
  mp_ExtraFields :: "(string \<times> string) list"

record Config =
  cf_Name :: string
  cf_Version :: int
  cf_DisplayName :: string
  cf_Notes :: string
  cf_Verification :: Verification
  cf_Mapping :: FieldMapping

datatype config_error =
    CfgNoName
  | CfgBadName string
  | CfgTooLarge nat nat
  | CfgNoTransactionRef
  | CfgNoStatus
  | CfgUnsafeDefault string
  | CfgNoAmountUnit string
  | CfgNoTimezone string
  | CfgTooManyValues nat
  | CfgBadVerification string
  | CfgPath string path_error
  | CfgDefaultCurrency string
  | CfgUnknownTimezone string
  | CfgStatusValue string string
  | CfgEventFamily string
  | CfgNotJSON string

text \<open>\<open>DisallowUnknownFields\<close> is part of what the decoder is asked to do.\<close>

definition ParseConfig :: "(string \<Rightarrow> string + Config) \<Rightarrow> string \<Rightarrow> config_error + Config" where
  "ParseConfig decode b =
     (if length b > MaxConfigBytes then Inl (CfgTooLarge (length b) MaxConfigBytes)
      else case decode b of
             Inl err \<Rightarrow> Inl (CfgNotJSON err)
           | Inr c \<Rightarrow> Inr c)"

definition validName :: "string \<Rightarrow> bool" where
  "validName s \<longleftrightarrow>
     list_all (\<lambda>c. 97 \<le> ord c \<and> ord c \<le> 122 \<or> is_digit c \<or> c = CHR ''-'') s
     \<and> hd s \<noteq> CHR ''-'' \<and> last s \<noteq> CHR ''-''"

definition formatCarriesZone :: "string \<Rightarrow> bool" where
  "formatCarriesZone layout = list_ex (Contains layout) [''Z07'', ''-07'', ''MST'', ''Z0700'', ''-0700'']"

fun checkPaths :: "(string \<times> string) list \<Rightarrow> config_error option" where
  "checkPaths [] = None"
| "checkPaths ((what, expr) # ps) =
     (case Compile expr of Inl e \<Rightarrow> Some (CfgPath what e) | Inr _ \<Rightarrow> checkPaths ps)"

definition optionalPaths :: "FieldMapping \<Rightarrow> (string \<times> string) list" where
  "optionalPaths m =
     filter (\<lambda>(what, expr). expr \<noteq> [])
       [(''provider_event_id'', mp_ProviderEventID m), (''customer_ref'', mp_CustomerRef m),
        (''occurred_at.path'', tm_Path (mp_OccurredAt m)), (''amount.path'', am_Path (mp_Amount m)),
        (''amount.currency_path'', am_CurrencyPath (mp_Amount m))]"

definition schemeCheck :: "Verification \<Rightarrow> config_error option" where
  "schemeCheck v =
     (if vf_Type v = ''hmac'' then
        if vf_Header v = [] then Some (CfgBadVerification ''hmac verification needs a header'')
        else if vf_Algorithm v \<notin> {[], ''sha256'', ''sha512''} then Some (CfgBadVerification ''algorithm'')
        else if vf_Encoding v \<notin> {[], ''hex'', ''base64''} then Some (CfgBadVerification ''encoding'')
        else if vf_Source v \<in> {[], ''raw_body''} then None
        else if vf_Source v = ''fields'' then
          if vf_Fields v = [] then Some (CfgBadVerification ''source is fields but none are listed'')
          else if length (vf_Fields v) > MaxSignedFields then Some (CfgBadVerification ''signed fields'')
          else checkPaths (map (Pair ''signed field'') (vf_Fields v))
        else Some (CfgBadVerification ''source'')
      else if vf_Type v = ''shared_secret'' then
        if vf_Header v = [] then Some (CfgBadVerification ''shared_secret verification needs a header'') else None
      else if vf_Type v = ''source_only'' then
        if vf_AllowedSourceCIDRs v = [] then Some (CfgBadVerification ''source_only verification needs at least one allowed CIDR'')
        else None
      else Some (CfgBadVerification ''type''))"

definition Verification_validate :: "Verification \<Rightarrow> config_error option" where
  "Verification_validate v =
     (case schemeCheck v of
        Some e \<Rightarrow> Some e
      | None \<Rightarrow>
          if length (vf_AllowedSourceCIDRs v) > MaxSourceCIDRs
          then Some (CfgTooLarge (length (vf_AllowedSourceCIDRs v)) MaxSourceCIDRs)
          else if vf_ToleranceSecs v < 0 \<or> vf_ToleranceSecs v > 3600 then Some (CfgBadVerification ''tolerance'')
          else None)"

definition TimeMapping_validate :: "AdapterLib \<Rightarrow> TimeMapping \<Rightarrow> config_error option" where
  "TimeMapping_validate L t =
     (if tm_Path t = [] then None
      else case Compile (tm_Path t) of
             Inl e \<Rightarrow> Some (CfgPath ''occurred_at.path'' e)
           | Inr _ \<Rightarrow>
               if tm_Timezone t \<noteq> [] \<and> LoadLocation L (tm_Timezone t) = None then Some (CfgUnknownTimezone (tm_Timezone t))
               else if tm_Format t \<noteq> [] \<and> \<not> formatCarriesZone (tm_Format t) \<and> tm_Timezone t = []
               then Some (CfgNoTimezone (tm_Format t))
               else None)"

definition amountCheck :: "AmountMap \<Rightarrow> config_error option" where
  "amountCheck a =
     (if am_Path a = [] then None
      else if am_Unit a \<noteq> ''minor'' \<and> am_Unit a \<noteq> ''major'' then Some (CfgNoAmountUnit (am_Unit a))
      else if am_DefaultCurrency a \<noteq> [] \<and> \<not> ValidCurrency (am_DefaultCurrency a)
      then Some (CfgDefaultCurrency (am_DefaultCurrency a))
      else None)"

fun checkStatuses :: "(string \<times> string) list \<Rightarrow> config_error option" where
  "checkStatuses [] = None"
| "checkStatuses ((raw, s) # vs) = (if \<not> Status_Valid s then Some (CfgStatusValue raw s) else checkStatuses vs)"

definition statusCheck :: "StatusMap \<Rightarrow> config_error option" where
  "statusCheck s =
     (if TrimSpace (sm_Path s) = [] then Some CfgNoStatus
      else case Compile (sm_Path s) of
             Inl e \<Rightarrow> Some (CfgPath ''status.path'' e)
           | Inr _ \<Rightarrow>
               if length (sm_Values s) > MaxStatusValues then Some (CfgTooManyValues (length (sm_Values s)))
               else case checkStatuses (sm_Values s) of
                      Some e \<Rightarrow> Some e
                    | None \<Rightarrow>
                        if sm_Default s \<noteq> [] \<and> sm_Default s \<noteq> StatusUnknown then Some (CfgUnsafeDefault (sm_Default s))
                        else None)"

fun firstError :: "config_error option list \<Rightarrow> config_error option" where
  "firstError [] = None"
| "firstError (None # es) = firstError es"
| "firstError (Some e # es) = Some e"

definition nameCheck :: "string \<Rightarrow> config_error option" where
  "nameCheck n =
     (if TrimSpace n = [] then Some CfgNoName
      else if length n > MaxNameLength then Some (CfgTooLarge (length n) MaxNameLength)
      else if \<not> validName n then Some (CfgBadName n)
      else None)"

definition extrasCheck :: "(string \<times> string) list \<Rightarrow> config_error option" where
  "extrasCheck xs = (if length xs > MaxExtraFields then Some (CfgTooLarge (length xs) MaxExtraFields) else checkPaths xs)"

definition Config_Validate :: "AdapterLib \<Rightarrow> Config \<Rightarrow> config_error option" where
  "Config_Validate L c =
     (let m = cf_Mapping c in
      firstError
        [nameCheck (cf_Name c),
         Verification_validate (cf_Verification c),
         if TrimSpace (mp_TransactionRef m) = [] then Some CfgNoTransactionRef else None,
         checkPaths [(''transaction_ref'', mp_TransactionRef m)],
         checkPaths (optionalPaths m),
         amountCheck (mp_Amount m),
         TimeMapping_validate L (mp_OccurredAt m),
         statusCheck (mp_Status m),
         extrasCheck (mp_ExtraFields m),
         if mp_EventFamily m \<notin> {[], ''payment'', ''transfer'', ''refund'', ''chargeback''}
         then Some (CfgEventFamily (mp_EventFamily m)) else None])"

definition ToleranceOf :: "Verification \<Rightarrow> duration" where
  "ToleranceOf v = (if vf_ToleranceSecs v > 0 then vf_ToleranceSecs v * second else DefaultTimestampTolerance)"

section \<open>The compiled adapter\<close>

record DeclAdapter =
  da_cfg :: Config
  da_loc :: "zone option"
  da_txnRef :: path
  da_eventID :: "path option"
  da_statusAt :: path
  da_occurred :: "path option"
  da_amount :: "path option"
  da_currency :: "path option"
  da_customer :: "path option"
  da_signed :: "path list"
  da_extras :: "(string \<times> path) list"
  da_statusMap :: "(string \<times> Status) list"
  da_claimed :: "string list"

definition compileOpt :: "string \<Rightarrow> path_error + path option" where
  "compileOpt src = (if src = [] then Inr None else case Compile src of Inl e \<Rightarrow> Inl e | Inr p \<Rightarrow> Inr (Some p))"

fun compileNamed :: "(string \<times> string) list \<Rightarrow> path_error + (string \<times> path) list" where
  "compileNamed [] = Inr []"
| "compileNamed ((name, src) # xs) =
     (case Compile src of
        Inl e \<Rightarrow> Inl e
      | Inr p \<Rightarrow> (case compileNamed xs of Inl e \<Rightarrow> Inl e | Inr ps \<Rightarrow> Inr ((name, p) # ps)))"

definition statusKey :: "bool \<Rightarrow> string \<Rightarrow> string" where
  "statusKey caseSensitive raw = (if caseSensitive then raw else ToLower (TrimSpace raw))"

fun buildStatusMap :: "bool \<Rightarrow> (string \<times> string) list \<Rightarrow> (string \<times> Status) list \<Rightarrow> (string \<times> Status) list" where
  "buildStatusMap cs [] m = m"
| "buildStatusMap cs ((raw, mapped) # vs) m = buildStatusMap cs vs (AList.update (statusKey cs raw) mapped m)"

definition claimKey :: "path \<Rightarrow> string" where
  "claimKey p = TrimPrefix (TrimPrefix (path_raw p) ''$'') ''.''"

definition optList :: "'a option \<Rightarrow> 'a list" where
  "optList x = (case x of None \<Rightarrow> [] | Some a \<Rightarrow> [a])"

definition CompileConfig :: "AdapterLib \<Rightarrow> Config \<Rightarrow> config_error + DeclAdapter" where
  "CompileConfig L cfg =
     (let m = cf_Mapping cfg; wrap = (\<lambda>what. Inl \<circ> CfgPath what) in
      case Config_Validate L cfg of
        Some e \<Rightarrow> Inl e
      | None \<Rightarrow>
     (case LoadLocation L (tm_Timezone (mp_OccurredAt m)) of
        None \<Rightarrow> Inl (CfgUnknownTimezone (tm_Timezone (mp_OccurredAt m)))
      | Some z \<Rightarrow>
     (case Compile (mp_TransactionRef m) of
        Inl e \<Rightarrow> wrap ''transaction_ref'' e
      | Inr txn \<Rightarrow>
     (case Compile (sm_Path (mp_Status m)) of
        Inl e \<Rightarrow> wrap ''status'' e
      | Inr statusAt \<Rightarrow>
     (case compileOpt (mp_ProviderEventID m) of
        Inl e \<Rightarrow> wrap ''provider_event_id'' e
      | Inr eventID \<Rightarrow>
     (case compileOpt (tm_Path (mp_OccurredAt m)) of
        Inl e \<Rightarrow> wrap ''occurred_at'' e
      | Inr occurred \<Rightarrow>
     (case compileOpt (am_Path (mp_Amount m)) of
        Inl e \<Rightarrow> wrap ''amount'' e
      | Inr amount \<Rightarrow>
     (case compileOpt (am_CurrencyPath (mp_Amount m)) of
        Inl e \<Rightarrow> wrap ''currency'' e
      | Inr currency \<Rightarrow>
     (case compileOpt (mp_CustomerRef m) of
        Inl e \<Rightarrow> wrap ''customer'' e
      | Inr customer \<Rightarrow>
     (case compileNamed (mp_ExtraFields m) of
        Inl e \<Rightarrow> wrap ''extra_fields'' e
      | Inr extras \<Rightarrow>
     (case compileNamed (map (Pair ''signed'') (vf_Fields (cf_Verification cfg))) of
        Inl e \<Rightarrow> wrap ''signed field'' e
      | Inr covered \<Rightarrow>
          Inr \<lparr>da_cfg = cfg,
               da_loc = (if tm_Timezone (mp_OccurredAt m) = [] then None else Some z),
               da_txnRef = txn, da_eventID = eventID, da_statusAt = statusAt, da_occurred = occurred,
               da_amount = amount, da_currency = currency, da_customer = customer,
               da_signed = map snd covered, da_extras = extras,
               da_statusMap = buildStatusMap (sm_CaseSensitive (mp_Status m)) (sm_Values (mp_Status m)) [],
               da_claimed = map claimKey
                 (txn # statusAt # concat (map optList [eventID, occurred, amount, currency, customer]))\<rparr>)))))))))))"

section \<open>Verification\<close>

definition algorithmOf :: "string \<Rightarrow> Algorithm" where
  "algorithmOf s = (if s = ''sha512'' then SHA512 else SHA256)"

definition encodingOf :: "string \<Rightarrow> Encoding" where
  "encodingOf s = (if s = ''base64'' then Base64 else Hex)"

fun declSignedFields :: "json \<Rightarrow> path list \<Rightarrow> verify_error + string" where
  "declSignedFields doc [] = Inr []"
| "declSignedFields doc (p # ps) =
     (case StringAt doc p of
        Inl _ \<Rightarrow> Inl (VerBadSignature (''signed field '' @ path_raw p @ '' is absent''))
      | Inr s \<Rightarrow> (case declSignedFields doc ps of Inl e \<Rightarrow> Inl e | Inr t \<Rightarrow> Inr (s @ t)))"

definition declSignedPayload :: "AdapterLib \<Rightarrow> DeclAdapter \<Rightarrow> string \<Rightarrow> verify_error + string" where
  "declSignedPayload L a rawBody =
     (if vf_Source (cf_Verification (da_cfg a)) \<noteq> ''fields'' then Inr rawBody
      else case al_decode L rawBody of
             Inl _ \<Rightarrow> Inl (VerMalformedHeader ''payload is not JSON, so the signed fields cannot be read'')
           | Inr doc \<Rightarrow> declSignedFields doc (da_signed a))"

definition declTimestamp :: "AdapterLib \<Rightarrow> Verification \<Rightarrow> instant \<Rightarrow> headers \<Rightarrow> verify_error option" where
  "declTimestamp L v now h =
     (if vf_TimestampHeader v = [] then None
      else let ts = FirstHeader h [vf_TimestampHeader v] in
           if ts = [] then Some (VerMalformedHeader (''timestamp header '' @ vf_TimestampHeader v @ '' is absent''))
           else case ParseTime L ts (Some UTC) of
                  Inl _ \<Rightarrow> Some (VerMalformedHeader ''timestamp header is not a timestamp'')
                | Inr signedAt \<Rightarrow> CheckTimestamp L (gt_instant signedAt) now (ToleranceOf v))"

definition declVerify ::
    "AdapterLib \<Rightarrow> DeclAdapter \<Rightarrow> instant \<Rightarrow> headers \<Rightarrow> string \<Rightarrow> string \<Rightarrow> verify_error option" where
  "declVerify L a now h rawBody secret =
     (let v = cf_Verification (da_cfg a) in
      if vf_Type v = ''source_only'' then None
      else if vf_Type v = ''shared_secret'' then
        (let presented = FirstHeader h [vf_Header v] in
         if presented = [] then Some VerNoSignature
         else if secret = [] then Some (VerBadSignature ''endpoint has no configured secret'')
         else if \<not> Equal L presented secret Hex then Some (VerBadSignature [])
         else None)
      else if vf_Type v = ''hmac'' then
        (let presented = FirstHeader h [vf_Header v] in
         if presented = [] then Some VerNoSignature
         else case declTimestamp L v now h of
                Some e \<Rightarrow> Some e
              | None \<Rightarrow>
                  (case declSignedPayload L a rawBody of
                     Inl e \<Rightarrow> Some e
                   | Inr payload \<Rightarrow>
                       VerifyHMAC L (algorithmOf (vf_Algorithm v)) (encodingOf (vf_Encoding v)) secret payload presented))
      else Some (VerBadSignature ''adapter has no usable verification type''))"

section \<open>Mapping\<close>

definition textAt :: "json \<Rightarrow> path option \<Rightarrow> string option" where
  "textAt doc p =
     (case p of
        None \<Rightarrow> None
      | Some q \<Rightarrow> (case StringAt doc q of Inr s \<Rightarrow> if s \<noteq> [] then Some s else None | Inl _ \<Rightarrow> None))"

definition declStatus :: "DeclAdapter \<Rightarrow> json \<Rightarrow> CanonicalEvent \<Rightarrow> CanonicalEvent" where
  "declStatus a doc ev =
     (case StringAt doc (da_statusAt a) of
        Inl _ \<Rightarrow> ev\<lparr>ev_Status := StatusUnknown, ev_MappingComplete := False\<rparr>
      | Inr raw \<Rightarrow>
          (case map_of (da_statusMap a) (statusKey (sm_CaseSensitive (mp_Status (cf_Mapping (da_cfg a)))) raw) of
             Some s \<Rightarrow> ev\<lparr>ev_Status := s\<rparr>
           | None \<Rightarrow> ev\<lparr>ev_Status := StatusUnknown, ev_UnmappedStatus := raw, ev_MappingComplete := False\<rparr>))"

definition declFamily :: "DeclAdapter \<Rightarrow> string" where
  "declFamily a = (let f = mp_EventFamily (cf_Mapping (da_cfg a)) in if f = [] then ''payment'' else f)"

definition declCurrency :: "DeclAdapter \<Rightarrow> json \<Rightarrow> CanonicalEvent \<Rightarrow> CanonicalEvent" where
  "declCurrency a doc ev =
     (let dflt = NormaliseCurrency (am_DefaultCurrency (mp_Amount (cf_Mapping (da_cfg a)))) in
      case da_currency a of
        None \<Rightarrow> ev\<lparr>ev_Currency := dflt\<rparr>
      | Some _ \<Rightarrow>
          (case textAt doc (da_currency a) of
             Some c \<Rightarrow> ev\<lparr>ev_Currency := NormaliseCurrency c\<rparr>
           | None \<Rightarrow> (if dflt = [] then incomplete ev else ev)\<lparr>ev_Currency := dflt\<rparr>))"

definition declAmount :: "DeclAdapter \<Rightarrow> json \<Rightarrow> CanonicalEvent \<Rightarrow> CanonicalEvent" where
  "declAmount a doc ev =
     (case da_amount a of
        None \<Rightarrow> ev
      | Some p \<Rightarrow>
          (case Eval p doc of
             Inl _ \<Rightarrow> incomplete ev
           | Inr v \<Rightarrow>
               (case StringValue v of
                  None \<Rightarrow> incomplete ev
                | Some s \<Rightarrow>
                    setMinor (if am_Unit (mp_Amount (cf_Mapping (da_cfg a))) = ''major''
                              then MajorToMinor s (ev_Currency ev) else ParseMinor s) ev)))"

definition declTime :: "AdapterLib \<Rightarrow> DeclAdapter \<Rightarrow> json \<Rightarrow> CanonicalEvent \<Rightarrow> CanonicalEvent" where
  "declTime L a doc ev =
     (case da_occurred a of
        None \<Rightarrow> ev
      | Some _ \<Rightarrow>
          (case textAt doc (da_occurred a) of
             None \<Rightarrow> incomplete ev
           | Some s \<Rightarrow>
               (case ParseTimeLayout L s (tm_Format (mp_OccurredAt (cf_Mapping (da_cfg a)))) (da_loc a) of
                  Inr t \<Rightarrow> ev\<lparr>ev_OccurredAt := t\<rparr>
                | Inl _ \<Rightarrow> incomplete ev)))"

definition declCustomer :: "DeclAdapter \<Rightarrow> json \<Rightarrow> CanonicalEvent \<Rightarrow> CanonicalEvent" where
  "declCustomer a doc ev =
     (case textAt doc (da_customer a) of Some c \<Rightarrow> ev\<lparr>ev_CustomerRefHash := c\<rparr> | None \<Rightarrow> ev)"

definition declEventID :: "DeclAdapter \<Rightarrow> json \<Rightarrow> CanonicalEvent \<Rightarrow> CanonicalEvent" where
  "declEventID a doc ev =
     (case textAt doc (da_eventID a) of Some i \<Rightarrow> ev\<lparr>ev_ProviderEventID := i\<rparr> | None \<Rightarrow> ev)"

fun namedExtras :: "json \<Rightarrow> (string \<times> path) list \<Rightarrow> flat \<Rightarrow> flat" where
  "namedExtras doc [] m = m"
| "namedExtras doc ((name, p) # xs) m =
     namedExtras doc xs (case Eval p doc of Inr v \<Rightarrow> AList.update name v m | Inl _ \<Rightarrow> m)"

fun carryOver :: "string list \<Rightarrow> flat \<Rightarrow> flat \<Rightarrow> flat" where
  "carryOver claimed [] m = m"
| "carryOver claimed ((k, v) # kvs) m =
     carryOver claimed kvs (if k \<in> set claimed \<or> map_of m k \<noteq> None then m else AList.update k v m)"

definition declExtra :: "DeclAdapter \<Rightarrow> json \<Rightarrow> flat" where
  "declExtra a doc = carryOver (da_claimed a) (Flatten doc) (namedExtras doc (da_extras a) [])"

definition declParse :: "AdapterLib \<Rightarrow> DeclAdapter \<Rightarrow> string \<Rightarrow> parse_error + CanonicalEvent" where
  "declParse L a rawBody =
     (case al_decode L rawBody of
        Inl err \<Rightarrow> Inl (ParseUnparseable err)
      | Inr doc \<Rightarrow>
          (case textAt doc (Some (da_txnRef a)) of
             None \<Rightarrow> Inl (ParseNoTransaction (path_raw (da_txnRef a) @ '' did not resolve''))
           | Some ref \<Rightarrow>
               (let ev = (newEvent (cf_Name (da_cfg a)))\<lparr>ev_TransactionRef := ref\<rparr>;
                    ev = declStatus a doc (declEventID a doc ev);
                    ev = ev\<lparr>ev_EventType := EventTypeFor (declFamily a) (ev_Status ev)\<rparr>;
                    ev = declAmount a doc (declCurrency a doc ev);
                    ev = declCustomer a doc (declTime L a doc ev)
                in Inr (ev\<lparr>ev_ProviderExtra := Some (declExtra a doc)\<rparr>))))"

definition declDedupeKey :: "AdapterLib \<Rightarrow> DeclAdapter \<Rightarrow> string \<Rightarrow> string option" where
  "declDedupeKey L a rawBody =
     (if da_eventID a = None then None
      else case al_decode L rawBody of Inl _ \<Rightarrow> None | Inr doc \<Rightarrow> textAt doc (da_eventID a))"

text \<open>\<open>AllowedSources\<close> is a method of every declarative adapter, whatever its scheme.\<close>

definition declAllowedSources :: "DeclAdapter \<Rightarrow> string list" where
  "declAllowedSources a = vf_AllowedSourceCIDRs (cf_Verification (da_cfg a))"

definition declarative :: "AdapterLib \<Rightarrow> DeclAdapter \<Rightarrow> Adapter" where
  "declarative L a =
     \<lparr>ad_Name = cf_Name (da_cfg a), ad_Verify = declVerify L a, ad_Parse = declParse L a,
      ad_DedupeKey = declDedupeKey L a, ad_AllowedSources = Some (declAllowedSources a)\<rparr>"

end
