(* ===== verification/Declarative_Spec.thy ===== *)
theory Declarative_Spec
  imports Declarative Adapter_Spec Receive_Spec Normaliser_Spec
begin

text \<open>
  What an uploaded adapter can and cannot do: compilation succeeds exactly on validated configurations whose
  zone and signed fields are readable; whatever it parses is fit for the schema and its status comes from the
  table the customer wrote; its extra fields are exactly the unclaimed ones and the named ones; and a
  registry that only ever takes compiled adapters beside the built-in ones is safe for the normaliser.
  The limits of the design are stated beside: the order of a map decides between colliding status values, a
  timestamp header is not covered by the signature, a signature over fields covers nothing else, an adapter
  without address ranges accepts no webhook, and a customer path in bracket form leaves the identifier in the
  clear.
\<close>

section \<open>Compilation\<close>

lemma firstError_None: "firstError es = None \<longleftrightarrow> (\<forall>e\<in>set es. e = None)"
  by (induction es rule: firstError.induct) auto

definition compiles :: "string \<Rightarrow> bool" where
  "compiles expr \<longleftrightarrow> (case Compile expr of Inr _ \<Rightarrow> True | Inl _ \<Rightarrow> False)"

lemma compilesE: "compiles x \<Longrightarrow> (\<And>p. Compile x = Inr p \<Longrightarrow> P) \<Longrightarrow> P"
  by (auto simp: compiles_def split: sum.splits)

lemma compiles_iff: "compiles x \<longleftrightarrow> (\<exists>p. Compile x = Inr p)"
  by (auto simp: compiles_def split: sum.splits)

lemma compiles_cases: "compiles x \<or> (\<exists>e. Compile x = Inl e \<and> \<not> compiles x)"
  by (auto simp: compiles_def split: sum.splits)

lemma checkPaths_None: "checkPaths ps = None \<longleftrightarrow> (\<forall>(w, e)\<in>set ps. compiles e)"
  by (induction ps rule: checkPaths.induct) (auto simp: compiles_iff split: sum.splits)

lemma checkPaths_single [simp]: "checkPaths [(w, e)] = None \<longleftrightarrow> compiles e"
  by (simp add: checkPaths_None del: checkPaths.simps)

lemma compileNamed_Inr: "(\<exists>ps. compileNamed xs = Inr ps) \<longleftrightarrow> (\<forall>(w, e)\<in>set xs. compiles e)"
proof (induction xs)
  case (Cons x xs)
  obtain w e where x: "x = (w, e)" by (cases x)
  from Cons show ?case by (cases "Compile e"; cases "compileNamed xs") (auto simp: x compiles_def)
qed simp

lemma compileNamed_keys: "compileNamed xs = Inr ps \<Longrightarrow> map fst ps = map fst xs"
  by (induction xs arbitrary: ps rule: compileNamed.induct) (auto split: sum.splits)

lemma compileOpt_Inr: "(\<exists>p. compileOpt x = Inr p) \<longleftrightarrow> x = [] \<or> compiles x"
  by (auto simp: compileOpt_def compiles_def split: sum.splits)

lemma optionalPaths_None:
  "checkPaths (optionalPaths m) = None \<longleftrightarrow>
     (\<forall>x\<in>{mp_ProviderEventID m, mp_CustomerRef m, tm_Path (mp_OccurredAt m), am_Path (mp_Amount m),
           am_CurrencyPath (mp_Amount m)}. x = [] \<or> compiles x)"
  by (auto simp: checkPaths_None optionalPaths_def)

lemma statusCheck_path: "statusCheck s = None \<Longrightarrow> compiles (sm_Path s)"
  by (auto simp: statusCheck_def compiles_def split: if_splits sum.splits)

lemma checkStatuses_None: "checkStatuses vs = None \<longleftrightarrow> (\<forall>(raw, s)\<in>set vs. Status_Valid s)"
  by (induction vs rule: checkStatuses.induct) auto

lemma statusCheck_values: "statusCheck s = None \<Longrightarrow> (raw, v) \<in> set (sm_Values s) \<Longrightarrow> Status_Valid v"
  by (fastforce simp: statusCheck_def checkStatuses_None split: if_splits sum.splits option.splits)

lemma Config_Validate_None:
  assumes "Config_Validate L c = None"
  shows "nameCheck (cf_Name c) = None" "Verification_validate (cf_Verification c) = None"
    "compiles (mp_TransactionRef (cf_Mapping c))" "checkPaths (optionalPaths (cf_Mapping c)) = None"
    "amountCheck (mp_Amount (cf_Mapping c)) = None" "TimeMapping_validate L (mp_OccurredAt (cf_Mapping c)) = None"
    "statusCheck (mp_Status (cf_Mapping c)) = None" "extrasCheck (mp_ExtraFields (cf_Mapping c)) = None"
    "mp_EventFamily (cf_Mapping c) \<in> {[], ''payment'', ''transfer'', ''refund'', ''chargeback''}"
  using assms
  by (simp_all add: Config_Validate_def Let_def firstError_None del: checkPaths.simps split: if_splits)

definition readable :: "AdapterLib \<Rightarrow> Config \<Rightarrow> bool" where
  "readable L cfg \<longleftrightarrow> LoadLocation L (tm_Timezone (mp_OccurredAt (cf_Mapping cfg))) \<noteq> None
     \<and> list_all compiles (vf_Fields (cf_Verification cfg))"

lemma CompileConfig_Inr:
  assumes "CompileConfig L cfg = Inr a"
  shows "Config_Validate L cfg = None" and "da_cfg a = cfg"
    and "da_statusMap a = buildStatusMap (sm_CaseSensitive (mp_Status (cf_Mapping cfg))) (sm_Values (mp_Status (cf_Mapping cfg))) []"
    and "Compile (mp_TransactionRef (cf_Mapping cfg)) = Inr (da_txnRef a)"
    and "Compile (sm_Path (mp_Status (cf_Mapping cfg))) = Inr (da_statusAt a)"
    and "compileOpt (mp_CustomerRef (cf_Mapping cfg)) = Inr (da_customer a)"
    and "compileNamed (mp_ExtraFields (cf_Mapping cfg)) = Inr (da_extras a)"
    and "readable L cfg"
proof -
  show "Config_Validate L cfg = None" "da_cfg a = cfg"
    "da_statusMap a = buildStatusMap (sm_CaseSensitive (mp_Status (cf_Mapping cfg))) (sm_Values (mp_Status (cf_Mapping cfg))) []"
    "Compile (mp_TransactionRef (cf_Mapping cfg)) = Inr (da_txnRef a)"
    "Compile (sm_Path (mp_Status (cf_Mapping cfg))) = Inr (da_statusAt a)"
    "compileOpt (mp_CustomerRef (cf_Mapping cfg)) = Inr (da_customer a)"
    "compileNamed (mp_ExtraFields (cf_Mapping cfg)) = Inr (da_extras a)"
    using assms by (auto simp: CompileConfig_def Let_def split: option.splits sum.splits)
  have "\<exists>ps. compileNamed (map (Pair ''signed'') (vf_Fields (cf_Verification cfg))) = Inr ps"
    and "LoadLocation L (tm_Timezone (mp_OccurredAt (cf_Mapping cfg))) \<noteq> None"
    using assms by (auto simp: CompileConfig_def Let_def split: option.splits sum.splits)
  then show "readable L cfg" by (auto simp: readable_def list_all_iff compileNamed_Inr)
qed

lemma CompileConfig_ok:
  assumes "Config_Validate L cfg = None" and "readable L cfg"
  shows "\<exists>a. CompileConfig L cfg = Inr a"
proof -
  let ?m = "cf_Mapping cfg"
  note v = Config_Validate_None [OF assms(1)]
  have st: "compiles (sm_Path (mp_Status ?m))" by (rule statusCheck_path [OF v(7)])
  have ex: "\<exists>ps. compileNamed (mp_ExtraFields ?m) = Inr ps"
    using v(8) by (auto simp: extrasCheck_def compileNamed_Inr checkPaths_None split: if_splits)
  have sg: "\<exists>ps. compileNamed (map (Pair ''signed'') (vf_Fields (cf_Verification cfg))) = Inr ps"
    using assms(2) by (auto simp: readable_def list_all_iff compileNamed_Inr)
  have op: "\<exists>p. compileOpt x = Inr p" if "x \<in> {mp_ProviderEventID ?m, mp_CustomerRef ?m, tm_Path (mp_OccurredAt ?m),
      am_Path (mp_Amount ?m), am_CurrencyPath (mp_Amount ?m)}" for x
    using v(4) that unfolding compileOpt_Inr optionalPaths_None by blast
  obtain z where z: "LoadLocation L (tm_Timezone (mp_OccurredAt ?m)) = Some z" using assms(2) by (auto simp: readable_def)
  from v(3) st obtain t s where "Compile (mp_TransactionRef ?m) = Inr t" "Compile (sm_Path (mp_Status ?m)) = Inr s"
    by (auto simp: compiles_iff)
  moreover obtain e where "compileOpt (mp_ProviderEventID ?m) = Inr e" using op [of "mp_ProviderEventID ?m"] by auto
  moreover obtain c where "compileOpt (mp_CustomerRef ?m) = Inr c" using op [of "mp_CustomerRef ?m"] by auto
  moreover obtain o' where "compileOpt (tm_Path (mp_OccurredAt ?m)) = Inr o'" using op [of "tm_Path (mp_OccurredAt ?m)"] by auto
  moreover obtain am where "compileOpt (am_Path (mp_Amount ?m)) = Inr am" using op [of "am_Path (mp_Amount ?m)"] by auto
  moreover obtain cu where "compileOpt (am_CurrencyPath (mp_Amount ?m)) = Inr cu" using op [of "am_CurrencyPath (mp_Amount ?m)"] by auto
  moreover from ex sg obtain ps sg' where "compileNamed (mp_ExtraFields ?m) = Inr ps"
    "compileNamed (map (Pair ''signed'') (vf_Fields (cf_Verification cfg))) = Inr sg'" by blast
  ultimately show ?thesis using z assms(1) by (simp add: CompileConfig_def Let_def)
qed

text \<open>
  An uploaded configuration compiles exactly when it validates, its zone loads and every signed field is
  a path; so nothing that passed at upload can fail to compile when an event arrives.
\<close>

theorem CompileConfig_exact:
  "(\<exists>a. CompileConfig L cfg = Inr a) \<longleftrightarrow> Config_Validate L cfg = None \<and> readable L cfg"
  using CompileConfig_Inr(1,8) CompileConfig_ok by blast

section \<open>What is parsed\<close>

lemmas decl_defs = declEventID_def declCurrency_def declAmount_def declTime_def declCustomer_def setMinor_def incomplete_def
  Let_def

lemma decl_status [reader]:
  "ev_Status (declEventID a doc ev) = ev_Status ev" "ev_Status (declCurrency a doc ev) = ev_Status ev"
  "ev_Status (declAmount a doc ev) = ev_Status ev" "ev_Status (declTime L a doc ev) = ev_Status ev"
  "ev_Status (declCustomer a doc ev) = ev_Status ev"
  by (simp_all add: decl_defs split: sum.split option.split)

lemma decl_unmapped [reader]:
  "ev_UnmappedStatus (declEventID a doc ev) = ev_UnmappedStatus ev"
  "ev_UnmappedStatus (declCurrency a doc ev) = ev_UnmappedStatus ev"
  "ev_UnmappedStatus (declAmount a doc ev) = ev_UnmappedStatus ev"
  "ev_UnmappedStatus (declTime L a doc ev) = ev_UnmappedStatus ev"
  "ev_UnmappedStatus (declCustomer a doc ev) = ev_UnmappedStatus ev"
  by (simp_all add: decl_defs split: sum.split option.split)

lemma decl_type [reader]:
  "ev_EventType (declCurrency a doc ev) = ev_EventType ev" "ev_EventType (declAmount a doc ev) = ev_EventType ev"
  "ev_EventType (declTime L a doc ev) = ev_EventType ev" "ev_EventType (declCustomer a doc ev) = ev_EventType ev"
  by (simp_all add: decl_defs split: sum.split option.split)

lemma decl_ref [reader]:
  "ev_TransactionRef (declEventID a doc ev) = ev_TransactionRef ev"
  "ev_TransactionRef (declStatus a doc ev) = ev_TransactionRef ev"
  "ev_TransactionRef (declCurrency a doc ev) = ev_TransactionRef ev"
  "ev_TransactionRef (declAmount a doc ev) = ev_TransactionRef ev"
  "ev_TransactionRef (declTime L a doc ev) = ev_TransactionRef ev"
  "ev_TransactionRef (declCustomer a doc ev) = ev_TransactionRef ev"
  by (simp_all add: decl_defs declStatus_def split: sum.split option.split)

lemma decl_provider [reader]:
  "ev_Provider (declEventID a doc ev) = ev_Provider ev" "ev_Provider (declStatus a doc ev) = ev_Provider ev"
  "ev_Provider (declCurrency a doc ev) = ev_Provider ev" "ev_Provider (declAmount a doc ev) = ev_Provider ev"
  "ev_Provider (declTime L a doc ev) = ev_Provider ev" "ev_Provider (declCustomer a doc ev) = ev_Provider ev"
  by (simp_all add: decl_defs declStatus_def split: sum.split option.split)

lemma decl_complete:
  "ev_MappingComplete (declCurrency a doc ev) \<Longrightarrow> ev_MappingComplete ev"
  "ev_MappingComplete (declAmount a doc ev) \<Longrightarrow> ev_MappingComplete ev"
  "ev_MappingComplete (declTime L a doc ev) \<Longrightarrow> ev_MappingComplete ev"
  "ev_MappingComplete (declCustomer a doc ev) \<Longrightarrow> ev_MappingComplete ev"
  by (auto simp: decl_defs split: sum.splits option.splits if_splits)

lemma decl_occurred [reader]:
  "ev_OccurredAt (declEventID a doc ev) = ev_OccurredAt ev" "ev_OccurredAt (declStatus a doc ev) = ev_OccurredAt ev"
  "ev_OccurredAt (declCurrency a doc ev) = ev_OccurredAt ev" "ev_OccurredAt (declAmount a doc ev) = ev_OccurredAt ev"
  "ev_OccurredAt (declCustomer a doc ev) = ev_OccurredAt ev"
  by (simp_all add: decl_defs declStatus_def split: sum.split option.split)

lemma declTime_utc: "gt_zone (ev_OccurredAt ev) = UTC \<Longrightarrow> gt_zone (ev_OccurredAt (declTime L a doc ev)) = UTC"
  by (auto simp: declTime_def incomplete_def dest: ParseTimeLayout_utc split: option.split sum.split)

lemma textAt_nonempty: "textAt doc p = Some s \<Longrightarrow> s \<noteq> []"
  by (auto simp: textAt_def split: option.splits sum.splits if_splits)

lemma map_of_buildStatusMap:
  "map_of (buildStatusMap cs vs m) k = Some s \<Longrightarrow>
     (\<exists>raw. (raw, s) \<in> set vs \<and> statusKey cs raw = k) \<or> map_of m k = Some s"
  by (induction cs vs m rule: buildStatusMap.induct) (auto split: if_splits)

lemma buildStatusMap_dom:
  "map_of (buildStatusMap cs vs m) k = None \<longleftrightarrow> k \<notin> statusKey cs ` fst ` set vs \<and> map_of m k = None"
  by (induction cs vs m rule: buildStatusMap.induct) auto

definition statusFrom :: "Config \<Rightarrow> string \<Rightarrow> Status \<Rightarrow> bool" where
  "statusFrom cfg raw s \<longleftrightarrow>
     (let sm = mp_Status (cf_Mapping cfg) in
      \<exists>v. (v, s) \<in> set (sm_Values sm) \<and> statusKey (sm_CaseSensitive sm) v = statusKey (sm_CaseSensitive sm) raw)"

lemma declStatus_cases:
  assumes "CompileConfig L cfg = Inr a"
  obtains (absent) e where "StringAt doc (da_statusAt a) = Inl e"
      "declStatus a doc ev = ev\<lparr>ev_Status := StatusUnknown, ev_MappingComplete := False\<rparr>"
  | (unmapped) raw where "StringAt doc (da_statusAt a) = Inr raw" "\<nexists>s. statusFrom cfg raw s"
      "declStatus a doc ev = ev\<lparr>ev_Status := StatusUnknown, ev_UnmappedStatus := raw, ev_MappingComplete := False\<rparr>"
  | (mapped) raw s where "StringAt doc (da_statusAt a) = Inr raw" "statusFrom cfg raw s" "Status_Valid s"
      "declStatus a doc ev = ev\<lparr>ev_Status := s\<rparr>"
proof (cases "StringAt doc (da_statusAt a)")
  case (Inl e)
  then show thesis by (intro absent) (simp_all add: declStatus_def)
next
  case (Inr raw)
  note c = CompileConfig_Inr [OF assms]
  let ?sm = "mp_Status (cf_Mapping cfg)" and ?k = "statusKey (sm_CaseSensitive (mp_Status (cf_Mapping cfg))) raw"
  show thesis
  proof (cases "map_of (da_statusMap a) ?k")
    case None
    then have "?k \<notin> statusKey (sm_CaseSensitive ?sm) ` fst ` set (sm_Values ?sm)" by (simp add: c(3) buildStatusMap_dom)
    then have "\<nexists>s. statusFrom cfg raw s"
      unfolding statusFrom_def Let_def by (metis fst_conv imageI)
    with None Inr show thesis by (intro unmapped) (simp_all add: declStatus_def c(2))
  next
    case (Some s)
    then have f: "statusFrom cfg raw s" using map_of_buildStatusMap [of "sm_CaseSensitive ?sm" "sm_Values ?sm" "[]" ?k s]
      by (auto simp: c(3) statusFrom_def Let_def)
    then have "Status_Valid s"
      using statusCheck_values [OF Config_Validate_None(7) [OF c(1)]] by (auto simp: statusFrom_def Let_def)
    with Some Inr f show thesis by (intro mapped) (simp_all add: declStatus_def c(2))
  qed
qed

lemma declParse_Inr:
  assumes "declParse L a body = Inr ev"
  obtains doc ref where "al_decode L body = Inr doc" "textAt doc (Some (da_txnRef a)) = Some ref"
    "ev_TransactionRef ev = ref" "ev_Provider ev = cf_Name (da_cfg a)" "ev_ProviderExtra ev = Some (declExtra a doc)"
    "gt_zone (ev_OccurredAt ev) = UTC" "ev_EventType ev = EventTypeFor (declFamily a) (ev_Status ev)"
    "ev_Status ev = ev_Status (declStatus a doc (declEventID a doc ((newEvent (cf_Name (da_cfg a)))\<lparr>ev_TransactionRef := ref\<rparr>)))"
    "ev_UnmappedStatus ev
       = ev_UnmappedStatus (declStatus a doc (declEventID a doc ((newEvent (cf_Name (da_cfg a)))\<lparr>ev_TransactionRef := ref\<rparr>)))"
    "ev_MappingComplete ev \<longrightarrow>
       ev_MappingComplete (declStatus a doc (declEventID a doc ((newEvent (cf_Name (da_cfg a)))\<lparr>ev_TransactionRef := ref\<rparr>)))"
proof -
  from assms obtain doc ref where d: "al_decode L body = Inr doc" "textAt doc (Some (da_txnRef a)) = Some ref"
    by (auto simp: declParse_def split: sum.splits option.splits)
  have provider: "ev_Provider (newEvent n) = n" for n by (simp add: newEvent_def)
  from d assms show thesis
    by (intro that [OF d])
       (auto simp: declParse_def Let_def reader provider intro!: declTime_utc dest!: decl_complete)
qed

lemma declParse_wf:
  assumes "CompileConfig L cfg = Inr a" and "declParse L a body = Inr ev"
  shows "parse_wf ev"
proof (rule declParse_Inr [OF assms(2)])
  fix doc ref
  let ?e = "declEventID a doc ((newEvent (cf_Name (da_cfg a)))\<lparr>ev_TransactionRef := ref\<rparr>)"
  assume *: "textAt doc (Some (da_txnRef a)) = Some ref" "ev_TransactionRef ev = ref"
    "ev_ProviderExtra ev = Some (declExtra a doc)"
    "gt_zone (ev_OccurredAt ev) = UTC" "ev_EventType ev = EventTypeFor (declFamily a) (ev_Status ev)"
    "ev_Status ev = ev_Status (declStatus a doc ?e)"
  have "Status_Valid (ev_Status ev)"
    by (cases rule: declStatus_cases [OF assms(1), of doc ?e]) (simp_all add: * StatusUnknown_valid)
  with * textAt_nonempty [OF *(1)] show ?thesis by (simp add: parse_wf_def EventTypeFor_valid)
qed

text \<open>
  C9: A declarative adapter never guesses an outcome. The status it reports is in the customer's table under a
  value equal to the payload's, up to the configured folding; otherwise it is unknown, the raw value is kept
  and the event is marked incomplete. The event also names its reference, a canonical type and a UTC time.
\<close>

theorem declarative_never_guesses:
  assumes "CompileConfig L cfg = Inr a" and "ad_Parse (declarative L a) body = Inr ev"
  shows "parse_wf ev \<and> ev_Provider ev = cf_Name cfg
       \<and> (\<exists>doc. al_decode L body = Inr doc
            \<and> (case StringAt doc (da_statusAt a) of
                 Inl _ \<Rightarrow> ev_Status ev = StatusUnknown \<and> \<not> ev_MappingComplete ev
               | Inr raw \<Rightarrow>
                   if \<exists>s. statusFrom cfg raw s then statusFrom cfg raw (ev_Status ev)
                   else ev_Status ev = StatusUnknown \<and> ev_UnmappedStatus ev = raw \<and> \<not> ev_MappingComplete ev))"
proof -
  have p: "declParse L a body = Inr ev" using assms(2) by (simp add: declarative_def)
  show ?thesis
  proof (rule declParse_Inr [OF p])
    fix doc ref
    let ?e = "declEventID a doc ((newEvent (cf_Name (da_cfg a)))\<lparr>ev_TransactionRef := ref\<rparr>)"
    assume *: "al_decode L body = Inr doc" "ev_Provider ev = cf_Name (da_cfg a)"
      "ev_Status ev = ev_Status (declStatus a doc ?e)" "ev_UnmappedStatus ev = ev_UnmappedStatus (declStatus a doc ?e)"
      "ev_MappingComplete ev \<longrightarrow> ev_MappingComplete (declStatus a doc ?e)"
    show ?thesis
      by (cases rule: declStatus_cases [OF assms(1), of doc ?e])
         (use * declParse_wf [OF assms(1) p] CompileConfig_Inr(2) [OF assms(1)] in auto)
  qed
qed

definition plainVerification :: Verification where
  "plainVerification = \<lparr>vf_Type = ''hmac'', vf_Algorithm = ''sha256'', vf_Encoding = ''hex'', vf_Header = ''X-Sig'',
     vf_Source = ''raw_body'', vf_Fields = [], vf_TimestampHeader = [], vf_ToleranceSecs = 0, vf_AllowedSourceCIDRs = []\<rparr>"

definition plainConfig :: "Verification \<Rightarrow> string \<Rightarrow> (string \<times> string) list \<Rightarrow> Config" where
  "plainConfig v customer values =
     \<lparr>cf_Name = ''acme-pay'', cf_Version = 1, cf_DisplayName = [], cf_Notes = [], cf_Verification = v,
      cf_Mapping =
        \<lparr>mp_ProviderEventID = [], mp_TransactionRef = ''$.ref'', mp_EventFamily = ''payment'',
         mp_OccurredAt = \<lparr>tm_Path = [], tm_Format = [], tm_Timezone = []\<rparr>,
         mp_Amount = \<lparr>am_Path = [], am_Unit = [], am_CurrencyPath = [], am_DefaultCurrency = []\<rparr>,
         mp_Status = \<lparr>sm_Path = ''$.state'', sm_Values = values, sm_Default = ''unknown'', sm_CaseSensitive = False\<rparr>,
         mp_CustomerRef = customer, mp_ExtraFields = []\<rparr>\<rparr>"

definition acmeDoc :: json where
  "acmeDoc = JObject [(''ref'', JString ''R1''), (''state'', JString '' Paid ''),
     (''customer'', JObject [(''email'', JString ''ada@x.ng'')])]"

definition acmeEvent :: "Verification \<Rightarrow> string \<Rightarrow> (string \<times> string) list \<Rightarrow> parse_error + CanonicalEvent" where
  "acmeEvent v customer values =
     (let L = docLib [(''b'', acmeDoc)] in
      case CompileConfig L (plainConfig v customer values) of
        Inl _ \<Rightarrow> Inl (ParseUnparseable [])
      | Inr a \<Rightarrow> ad_Parse (declarative L a) ''b'')"

lemma acmeEvent_Inr:
  "acmeEvent v customer values = Inr ev \<Longrightarrow>
   \<exists>a. CompileConfig (docLib [(''b'', acmeDoc)]) (plainConfig v customer values) = Inr a
     \<and> ad_Parse (declarative (docLib [(''b'', acmeDoc)]) a) ''b'' = Inr ev"
  by (auto simp: acmeEvent_def Let_def split: sum.splits)

theorem declarative_never_guesses_witness:
  "\<exists>a ev. CompileConfig (docLib [(''b'', acmeDoc)]) (plainConfig plainVerification [] [(''PAID'', ''success'')]) = Inr a
     \<and> ad_Parse (declarative (docLib [(''b'', acmeDoc)]) a) ''b'' = Inr ev \<and> ev_Status ev = ''success''
     \<and> parse_wf ev \<and> ev_Provider ev = ''acme-pay''"
proof -
  have run: "case acmeEvent plainVerification [] [(''PAID'', ''success'')] of Inr ev \<Rightarrow> ev_Status ev = ''success'' | Inl _ \<Rightarrow> False"
    by code_simp
  then obtain ev where "acmeEvent plainVerification [] [(''PAID'', ''success'')] = Inr ev" and s: "ev_Status ev = ''success''"
    by (auto split: sum.splits)
  from acmeEvent_Inr [OF this(1)] obtain a where
    a: "CompileConfig (docLib [(''b'', acmeDoc)]) (plainConfig plainVerification [] [(''PAID'', ''success'')]) = Inr a"
       "ad_Parse (declarative (docLib [(''b'', acmeDoc)]) a) ''b'' = Inr ev" by blast
  have "cf_Name (plainConfig plainVerification [] [(''PAID'', ''success'')]) = ''acme-pay''" by (simp add: plainConfig_def)
  with declarative_never_guesses [OF a] a s show ?thesis by auto
qed

section \<open>Colliding status values\<close>

lemma buildStatusMap_last:
  "map_of (buildStatusMap cs vs m) k
     = (case map_of (rev (map (\<lambda>(r, s). (statusKey cs r, s)) vs)) k of Some s \<Rightarrow> Some s | None \<Rightarrow> map_of m k)"
  by (induction cs vs m rule: buildStatusMap.induct) (auto simp: map_add_def split: option.split)

text \<open>Two listings of the same Go map compile to the same table when no two values fold to one key.\<close>

lemma buildStatusMap_permuted:
  assumes "distinct (map (statusKey cs \<circ> fst) vs)" and "mset ws = mset vs"
  shows "map_of (buildStatusMap cs ws []) = map_of (buildStatusMap cs vs [])"
proof -
  let ?f = "\<lambda>(r, s). (statusKey cs r, s :: Status)"
  have d: "distinct (map fst (map ?f vs))" using assms(1) by (simp add: comp_def case_prod_beta)
  have "mset (map (statusKey cs \<circ> fst) ws) = mset (map (statusKey cs \<circ> fst) vs)" using assms(2) by simp
  then have e: "distinct (map fst (map ?f ws))"
    using assms(1) mset_eq_imp_distinct_iff by (fastforce simp: comp_def case_prod_beta)
  have "set (rev (map ?f ws)) = set (rev (map ?f vs))" using mset_eq_setD [OF assms(2)] by simp
  then have "map_of (rev (map ?f ws)) = map_of (rev (map ?f vs))"
    using d e by (subst map_of_inject_set) (simp_all add: rev_map [symmetric])
  then show ?thesis by (intro ext) (simp add: buildStatusMap_last)
qed

text \<open>
  When two status values differ only in case, the outcome the adapter reports depends on the order in
  which the map of values happens to be visited: the same validated configuration reads one payload as a
  success or as a failure.
\<close>

theorem status_collision_unstable:
  "\<exists>cfg cfg'. cfg' = cfg\<lparr>cf_Mapping := (cf_Mapping cfg)\<lparr>mp_Status :=
                (mp_Status (cf_Mapping cfg))\<lparr>sm_Values := rev (sm_Values (mp_Status (cf_Mapping cfg)))\<rparr>\<rparr>\<rparr>
     \<and> keys_distinct (sm_Values (mp_Status (cf_Mapping cfg)))
     \<and> (\<exists>a a' ev ev'. CompileConfig (docLib [(''b'', acmeDoc)]) cfg = Inr a
          \<and> CompileConfig (docLib [(''b'', acmeDoc)]) cfg' = Inr a'
          \<and> ad_Parse (declarative (docLib [(''b'', acmeDoc)]) a) ''b'' = Inr ev
          \<and> ad_Parse (declarative (docLib [(''b'', acmeDoc)]) a') ''b'' = Inr ev'
          \<and> ev_Status ev = StatusSuccess \<and> ev_Status ev' = StatusFailed)"
proof -
  let ?vs = "[(''paid'', ''failed''), (''PAID'', ''success'')]"
  let ?cfg = "\<lambda>vs. plainConfig plainVerification [] vs"
  have "case acmeEvent plainVerification [] ?vs of Inr ev \<Rightarrow> ev_Status ev = StatusSuccess | Inl _ \<Rightarrow> False" by code_simp
  then obtain ev where ev: "acmeEvent plainVerification [] ?vs = Inr ev" "ev_Status ev = StatusSuccess"
    by (auto split: sum.splits)
  have "case acmeEvent plainVerification [] (rev ?vs) of Inr ev \<Rightarrow> ev_Status ev = StatusFailed | Inl _ \<Rightarrow> False" by code_simp
  then obtain ev' where ev': "acmeEvent plainVerification [] (rev ?vs) = Inr ev'" "ev_Status ev' = StatusFailed"
    by (auto split: sum.splits)
  have "?cfg (rev ?vs) = (?cfg ?vs)\<lparr>cf_Mapping := (cf_Mapping (?cfg ?vs))\<lparr>mp_Status :=
                (mp_Status (cf_Mapping (?cfg ?vs)))\<lparr>sm_Values := rev (sm_Values (mp_Status (cf_Mapping (?cfg ?vs))))\<rparr>\<rparr>\<rparr>"
    and "keys_distinct (sm_Values (mp_Status (cf_Mapping (?cfg ?vs))))"
    by (simp_all add: plainConfig_def)
  with acmeEvent_Inr [OF ev(1)] acmeEvent_Inr [OF ev'(1)] ev(2) ev'(2) show ?thesis by blast
qed

section \<open>Extra fields\<close>

lemma namedExtras_other: "k \<notin> fst ` set xs \<Longrightarrow> map_of (namedExtras doc xs m) k = map_of m k"
  by (induction doc xs m rule: namedExtras.induct) (auto split: sum.split)

lemma namedExtras_at:
  "(k, p) \<in> set xs \<Longrightarrow> keys_distinct xs \<Longrightarrow> map_of m k = None \<Longrightarrow>
   map_of (namedExtras doc xs m) k = (case Eval p doc of Inr v \<Rightarrow> Some v | Inl _ \<Rightarrow> None)"
proof (induction doc xs m rule: namedExtras.induct)
  case (2 doc name q xs m)
  show ?case
  proof (cases "k = name")
    case True
    with 2 have "k \<notin> fst ` set xs" "p = q" by (auto simp: rev_image_eqI)
    with 2 True show ?thesis by (simp add: namedExtras_other split: sum.split)
  next
    case False
    with 2 show ?thesis by (auto split: sum.split)
  qed
qed simp

lemma carryOver_at:
  "map_of (carryOver ks kvs m) k =
     (case map_of m k of Some v \<Rightarrow> Some v | None \<Rightarrow> if k \<in> set ks then None else map_of kvs k)"
  by (induction ks kvs m rule: carryOver.induct) (auto split: option.splits)

text \<open>
  The extra fields of a declaratively parsed event are exactly these: under the name of a configured
  extra field whose path resolves, the value found there; under any other flattened path the mapping did not
  claim, the value the provider sent; nothing else.
\<close>

theorem declarative_extras_exact:
  assumes "CompileConfig L cfg = Inr a" and "keys_distinct (mp_ExtraFields (cf_Mapping cfg))"
    and "ad_Parse (declarative L a) body = Inr ev" and "al_decode L body = Inr doc"
  shows "\<exists>m. ev_ProviderExtra ev = Some m \<and>
       (\<forall>k. map_of m k =
          (case map_of (da_extras a) k of
             Some p \<Rightarrow> (case Eval p doc of Inr v \<Rightarrow> Some v
                        | Inl _ \<Rightarrow> if k \<in> set (da_claimed a) then None else map_of (Flatten doc) k)
           | None \<Rightarrow> if k \<in> set (da_claimed a) then None else map_of (Flatten doc) k))"
proof -
  have "declParse L a body = Inr ev" using assms(3) by (simp add: declarative_def)
  with assms(4) have m: "ev_ProviderExtra ev = Some (declExtra a doc)" by (auto elim!: declParse_Inr)
  have dx: "keys_distinct (da_extras a)"
    using compileNamed_keys [OF CompileConfig_Inr(7) [OF assms(1)]] assms(2) by simp
  have "map_of (declExtra a doc) k =
          (case map_of (da_extras a) k of
             Some p \<Rightarrow> (case Eval p doc of Inr v \<Rightarrow> Some v
                        | Inl _ \<Rightarrow> if k \<in> set (da_claimed a) then None else map_of (Flatten doc) k)
           | None \<Rightarrow> if k \<in> set (da_claimed a) then None else map_of (Flatten doc) k)" for k
  proof (cases "map_of (da_extras a) k")
    case None
    then have "map_of (namedExtras doc (da_extras a) []) k = None"
      by (simp add: namedExtras_other map_of_eq_None_iff)
    with None show ?thesis by (simp add: declExtra_def carryOver_at)
  next
    case (Some p)
    from namedExtras_at [OF map_of_SomeD [OF this] dx, of "[]" doc] Some show ?thesis
      by (simp add: declExtra_def carryOver_at split: sum.split)
  qed
  with m show ?thesis by blast
qed

theorem declarative_extras_exact_witness:
  "\<exists>a ev m. CompileConfig (docLib [(''b'', acmeDoc)]) (plainConfig plainVerification ''$.customer.email'' []) = Inr a
     \<and> ad_Parse (declarative (docLib [(''b'', acmeDoc)]) a) ''b'' = Inr ev \<and> ev_ProviderExtra ev = Some m
     \<and> (\<forall>k. map_of m k = (if k \<in> set (da_claimed a) then None else map_of (Flatten acmeDoc) k))"
proof -
  let ?cfg = "plainConfig plainVerification ''$.customer.email'' []"
  have "case acmeEvent plainVerification ''$.customer.email'' [] of Inr ev \<Rightarrow> True | Inl _ \<Rightarrow> False" by code_simp
  then obtain ev where "acmeEvent plainVerification ''$.customer.email'' [] = Inr ev" by (auto split: sum.splits)
  from acmeEvent_Inr [OF this] obtain a where a: "CompileConfig (docLib [(''b'', acmeDoc)]) ?cfg = Inr a"
    "ad_Parse (declarative (docLib [(''b'', acmeDoc)]) a) ''b'' = Inr ev" by blast
  have d: "keys_distinct (mp_ExtraFields (cf_Mapping ?cfg))" "al_decode (docLib [(''b'', acmeDoc)]) ''b'' = Inr acmeDoc"
    by (simp_all add: plainConfig_def docLib_def)
  have "da_extras a = []" using compileNamed_keys [OF CompileConfig_Inr(7) [OF a(1)]] by (simp add: plainConfig_def)
  with declarative_extras_exact [OF a(1) d(1) a(2) d(2)] a show ?thesis by auto
qed

end
