(* ===== verification/Declarative_Limits.thy ===== *)
theory Declarative_Limits
  imports Declarative_Spec
begin

text \<open>
  Where the guarantees of an uploaded adapter end. The timestamp that is meant to stop replays is read from a
  header the signature does not cover; a signature over named fields covers nothing but those fields; an
  adapter with no address ranges is refused by the receiver whatever its signature; and a customer path
  written in bracket form is not recognised as claimed, so the identifier is carried in the clear.
\<close>

section \<open>Timestamps outside the signature\<close>

lemma EqualFold_trans: "EqualFold k n \<Longrightarrow> EqualFold k m \<longleftrightarrow> EqualFold n m"
  by (simp add: EqualFold_def)

lemma headerNamed_filter:
  "\<not> EqualFold n t \<Longrightarrow> headerNamed (filter (\<lambda>(k, vs). \<not> EqualFold k t) h) n = headerNamed h n"
  by (induction h n rule: headerNamed.induct) (auto simp: EqualFold_def split: option.split)

definition restamp :: "string \<Rightarrow> string \<Rightarrow> headers \<Rightarrow> headers" where
  "restamp t ts h = (t, [ts]) # filter (\<lambda>(k, vs). \<not> EqualFold k t) h"

lemma FirstHeader_restamp: "\<not> EqualFold n t \<Longrightarrow> FirstHeader (restamp t ts h) [n] = FirstHeader h [n]"
proof -
  assume "\<not> EqualFold n t"
  then have "headerNamed (restamp t ts h) n = headerNamed h n"
    by (simp add: restamp_def headerNamed_filter) (simp add: EqualFold_def)
  then show ?thesis by (simp split: option.split)
qed

lemma FirstHeader_stamp: "TrimSpace ts \<noteq> [] \<Longrightarrow> FirstHeader (restamp t ts h) [t] = TrimSpace ts"
  by (simp add: restamp_def EqualFold_def)

lemma CheckTimestamp_now: "0 < tol \<Longrightarrow> CheckTimestamp L now now tol = None"
  by (simp add: CheckTimestamp_def Let_def time_sub_exact int64_range_def min_int64_def max_int64_def)

lemma ToleranceOf_pos: "0 < ToleranceOf v"
  by (simp add: ToleranceOf_def DefaultTimestampTolerance_def minute_def second_def)

lemma declVerify_hmac:
  "vf_Type (cf_Verification (da_cfg a)) = ''hmac'' \<Longrightarrow>
   declVerify L a now h body secret = None \<longleftrightarrow>
     FirstHeader h [vf_Header (cf_Verification (da_cfg a))] \<noteq> []
     \<and> declTimestamp L (cf_Verification (da_cfg a)) now h = None
     \<and> (\<exists>payload. declSignedPayload L a body = Inr payload
          \<and> VerifyHMAC L (algorithmOf (vf_Algorithm (cf_Verification (da_cfg a))))
               (encodingOf (vf_Encoding (cf_Verification (da_cfg a)))) secret payload
               (FirstHeader h [vf_Header (cf_Verification (da_cfg a))]) = None)"
  by (auto simp: declVerify_def Let_def split: option.splits sum.splits)

text \<open>
  The replay window of a declarative adapter stops nobody who can send a header. The timestamp is not
  among the signed bytes, so a request captured once verifies at any later time after its timestamp header is
  replaced by the current time.
\<close>

theorem restamped_request_verifies:
  assumes "vf_Type v = ''hmac''" and "v = cf_Verification (da_cfg a)"
    and "declVerify L a now h body secret = None"
    and "\<not> EqualFold (vf_Header v) (vf_TimestampHeader v)"
    and "TrimSpace ts \<noteq> []" and "ParseTime L (TrimSpace ts) (Some UTC) = Inr t" and "gt_instant t = later"
  shows "declVerify L a later (restamp (vf_TimestampHeader v) ts h) body secret = None"
proof -
  have "declTimestamp L v later (restamp (vf_TimestampHeader v) ts h) = None"
    using assms(5-7) by (simp add: declTimestamp_def FirstHeader_stamp CheckTimestamp_now ToleranceOf_pos del: FirstHeader.simps)
  with assms show ?thesis by (simp add: declVerify_hmac FirstHeader_restamp del: FirstHeader.simps)
qed

definition stampedVerification :: Verification where
  "stampedVerification = plainVerification\<lparr>vf_TimestampHeader := ''X-Time'', vf_ToleranceSecs := 300\<rparr>"

definition stampLib :: AdapterLib where
  "stampLib = (docLib [])\<lparr>al_timeParse := (\<lambda>layout s.
     if s = ''captured'' then Some (utcTime (1700000000 * second))
     else if s = ''later'' then Some (utcTime (1731536000 * second)) else None)\<rparr>"

definition capturedHeaders :: "string \<Rightarrow> headers" where
  "capturedHeaders secret = [(''X-Sig'', [hexEncode (secret @ ''b'')]), (''X-Time'', [''captured''])]"

text \<open>A year after the capture, the request verifies again.\<close>

theorem restamped_request_verifies_witness:
  "\<exists>a. CompileConfig stampLib (plainConfig stampedVerification [] []) = Inr a
     \<and> declVerify stampLib a (1700000000 * second) (capturedHeaders ''k'') ''b'' ''k'' = None
     \<and> declVerify stampLib a (1731536000 * second) (capturedHeaders ''k'') ''b'' ''k'' \<noteq> None
     \<and> declVerify stampLib a (1731536000 * second) (restamp ''X-Time'' ''later'' (capturedHeaders ''k'')) ''b'' ''k'' = None"
proof -
  let ?L = "stampLib" and ?cfg = "plainConfig stampedVerification [] []" and ?t = "1731536000 * second"
  have "case CompileConfig ?L ?cfg of Inl _ \<Rightarrow> False
     | Inr a \<Rightarrow> declVerify ?L a (1700000000 * second) (capturedHeaders ''k'') ''b'' ''k'' = None
         \<and> declVerify ?L a ?t (capturedHeaders ''k'') ''b'' ''k'' \<noteq> None" by code_simp
  then obtain a where a: "CompileConfig ?L ?cfg = Inr a"
    "declVerify ?L a (1700000000 * second) (capturedHeaders ''k'') ''b'' ''k'' = None"
    "declVerify ?L a ?t (capturedHeaders ''k'') ''b'' ''k'' \<noteq> None" by (auto split: sum.splits)
  have ts: "TrimSpace ''later'' \<noteq> []" by code_simp
  have "case ParseTime ?L (TrimSpace ''later'') (Some UTC) of Inr t \<Rightarrow> gt_instant t = ?t | Inl _ \<Rightarrow> False" by code_simp
  then obtain t where t: "ParseTime ?L (TrimSpace ''later'') (Some UTC) = Inr t" "gt_instant t = ?t" by (auto split: sum.splits)
  have v: "vf_Type stampedVerification = ''hmac''" "stampedVerification = cf_Verification (da_cfg a)"
    using CompileConfig_Inr(2) [OF a(1)] by (simp_all add: stampedVerification_def plainVerification_def plainConfig_def)
  have n: "\<not> EqualFold (vf_Header stampedVerification) (vf_TimestampHeader stampedVerification)" by code_simp
  note restamped_request_verifies [OF v a(2) n ts t]
  moreover have "vf_TimestampHeader stampedVerification = ''X-Time''" by (simp add: stampedVerification_def)
  ultimately show ?thesis using a by auto
qed

section \<open>Signatures over fields\<close>

text \<open>
  With \<open>source: fields\<close> the verdict depends on the concatenation of the signed values alone: nothing else of
  the body is authenticated, not even where one signed value ends and the next begins.
\<close>

theorem fields_signature_covers_fields:
  assumes "vf_Source (cf_Verification (da_cfg a)) = ''fields''"
    and "al_decode L body = Inr doc" and "al_decode L body' = Inr doc'"
    and "declSignedFields doc (da_signed a) = declSignedFields doc' (da_signed a)"
  shows "declVerify L a now h body secret = declVerify L a now h body' secret"
proof -
  have "declSignedPayload L a body = declSignedPayload L a body'" using assms by (simp add: declSignedPayload_def)
  then show ?thesis unfolding declVerify_def by (rule ssubst) (rule refl)
qed

section \<open>Adapters without address ranges\<close>

text \<open>
  An uploaded adapter that lists no address range never verifies anything. Every declarative adapter
  presents itself as restricted by source, so for an endpoint without ranges of its own the receiver refuses
  each request before looking at its signature.
\<close>

theorem unrestricted_adapter_refused:
  assumes "GetAdapter (re_registry E) (ep_TenantID e) (ep_AdapterName e) = Some (declarative L a)"
    and "vf_AllowedSourceCIDRs (cf_Verification (da_cfg a)) = []" and "ep_AllowedSourceCIDRs e = []"
  shows "\<exists>why. verifyRequest E now e h body src = Some (RecvVerify (VerSourceNotAllowed why))"
  using assms
  by (simp add: verifyRequest_def declarative_def declAllowedSources_def checkSource_def allowedRanges_def)

definition acmeEndpoint :: Endpoint where
  "acmeEndpoint = sampleEndpoint\<lparr>ep_AdapterName := ''acme-pay'', ep_AllowedSourceCIDRs := []\<rparr>"

theorem unrestricted_adapter_refused_witness:
  "\<exists>a E why. CompileConfig (docLib []) (plainConfig plainVerification [] []) = Inr a
     \<and> re_registry E = fst (Register (NewRegistry (docLib [])) ''tnt_1'' (declarative (docLib []) a))
     \<and> ad_Verify (declarative (docLib []) a) 0 (capturedHeaders ''key'') ''b'' ''key'' = None
     \<and> verifyRequest E 0 acmeEndpoint (capturedHeaders ''key'') ''b'' src = Some (RecvVerify (VerSourceNotAllowed why))"
proof -
  let ?L = "docLib []" and ?cfg = "plainConfig plainVerification [] []"
  have "case CompileConfig ?L ?cfg of Inl _ \<Rightarrow> False
     | Inr a \<Rightarrow> ad_Verify (declarative ?L a) 0 (capturedHeaders ''key'') ''b'' ''key'' = None" by code_simp
  then obtain a where a: "CompileConfig ?L ?cfg = Inr a"
    "ad_Verify (declarative ?L a) 0 (capturedHeaders ''key'') ''b'' ''key'' = None" by (auto split: sum.splits)
  have c: "da_cfg a = ?cfg" by (rule CompileConfig_Inr(2) [OF a(1)])
  let ?E = "sampleReceive\<lparr>re_registry := fst (Register (NewRegistry ?L) ''tnt_1'' (declarative ?L a))\<rparr>"
  have n: "ad_Name (declarative ?L a) = ''acme-pay''" "ep_TenantID acmeEndpoint = ''tnt_1''"
    "ep_AdapterName acmeEndpoint = ''acme-pay''" "ep_AllowedSourceCIDRs acmeEndpoint = []"
    by (simp_all add: declarative_def c plainConfig_def acmeEndpoint_def sampleEndpoint_def)
  have "map_of (reg_builtin (NewRegistry ?L)) ''acme-pay'' = None"
    by (simp add: NewRegistry_def builtins_def paystack_def flutterwave_def nibss_def monnify_def interswitch_def stripe_def)
  then have "GetAdapter (re_registry ?E) (ep_TenantID acmeEndpoint) (ep_AdapterName acmeEndpoint) = Some (declarative ?L a)"
    by (simp add: GetAdapter_def declaredFor_Register n)
  moreover have "vf_AllowedSourceCIDRs (cf_Verification (da_cfg a)) = []" by (simp add: c plainConfig_def plainVerification_def)
  ultimately obtain why where "verifyRequest ?E 0 acmeEndpoint (capturedHeaders ''key'') ''b'' src = Some (RecvVerify (VerSourceNotAllowed why))"
    using unrestricted_adapter_refused n(4) by blast
  with a show ?thesis by (intro exI [of _ a] exI [of _ ?E] exI [of _ why]) simp
qed

section \<open>Customer identifiers in the clear\<close>

definition bracketPath :: string where
  "bracketPath = ''$['' @ [CHR 0x27] @ ''customer'' @ [CHR 0x27] @ ''].email''"

definition extraOf :: "parse_error + CanonicalEvent \<Rightarrow> string \<Rightarrow> json option" where
  "extraOf r k = (case r of Inr ev \<Rightarrow> (case ev_ProviderExtra ev of Some m \<Rightarrow> map_of m k | None \<Rightarrow> None) | Inl _ \<Rightarrow> None)"

definition customerOf :: "parse_error + CanonicalEvent \<Rightarrow> string" where
  "customerOf r = (case r of Inr ev \<Rightarrow> ev_CustomerRefHash ev | Inl _ \<Rightarrow> [])"

text \<open>
  The same customer field, mapped in dotted and in bracket form: both adapters compile and read the
  same identifier, but only the dotted form keeps it out of the extra fields, which are stored as they are.
\<close>

theorem bracket_path_leaks_customer:
  "customerOf (acmeEvent plainVerification ''$.customer.email'' []) = ''ada@x.ng''
   \<and> extraOf (acmeEvent plainVerification ''$.customer.email'' []) ''customer.email'' = None
   \<and> customerOf (acmeEvent plainVerification bracketPath []) = ''ada@x.ng''
   \<and> extraOf (acmeEvent plainVerification bracketPath []) ''customer.email'' = Some (JString ''ada@x.ng'')"
  by code_simp

end
