(* ===== verification/Infer.thy ===== *)
theory Infer
  imports Declarative "HOL-Library.List_Lexorder" "HOL-Library.Char_ord" "HOL-Library.Product_Lexorder"
begin

text \<open>
  Drafting an adapter from sample payloads and trying one out: \<^verbatim>\<open>internal/adapters/declarative/{infer,testrun}.go\<close>.
  The proposal keeps what the code decides (paths, confidences, the other candidates, warnings) and leaves
  out the explanatory prose. The map of common fields is an association list; \<open>sort.Slice\<close> is \<^const>\<open>sort\<close>
  over the triple its comparison looks at, which is a strict order on distinct paths, so stability does not
  matter.
\<close>

section \<open>Proposals\<close>

record Sample =
  sp_Name :: string
  sp_Body :: string
  sp_Headers :: "(string \<times> string) list"

record Guess =
  gs_Field :: string
  gs_Path :: string
  gs_Confidence :: string
  gs_Others :: "string list"

datatype infer_warning = WarnNoCurrency | WarnPlaceholderVerification | WarnTimestampFormat string

record Proposal =
  pr_Config :: Config
  pr_Guesses :: "Guess list"
  pr_StatusesSeen :: "string list"
  pr_Warnings :: "infer_warning list"

datatype infer_error = InferNoSamples | InferNotJSON nat string

definition refCandidates :: "string list" where
  "refCandidates = [''tx_ref'', ''txref'', ''transactionref'', ''paymentreference'', ''merchantreference'',
     ''reference'', ''orderid'', ''txid'']"

definition eventIDCandidates :: "string list" where
  "eventIDCandidates = [''eventid'', ''event_id'', ''notificationid'', ''sessionid'', ''id'']"

definition statusCandidates :: "string list" where
  "statusCandidates = [''paymentstatus'', ''transactionstatus'', ''responsecode'', ''status'', ''state'', ''result'']"

definition amountCandidates :: "string list" where
  "amountCandidates = [''amountpaid'', ''amount_paid'', ''transactionamount'', ''amount'', ''value'', ''total'']"

definition currencyCandidates :: "string list" where
  "currencyCandidates = [''currencycode'', ''currency'', ''ccy'']"

definition customerCandidates :: "string list" where
  "customerCandidates = [''customer.email'', ''email'', ''payeremail'', ''accountname'', ''customerid'', ''customer.id'']"

definition timeCandidates :: "string list" where
  "timeCandidates = [''paidat'', ''paid_at'', ''paidon'', ''completedat'', ''transactiondate'', ''transactiondatetime'',
     ''createdat'', ''created_at'', ''created'', ''timestamp'', ''date'']"

definition addGuess :: "string \<Rightarrow> string \<Rightarrow> string \<Rightarrow> string list \<Rightarrow> Proposal \<Rightarrow> Proposal" where
  "addGuess field path confidence others p =
     p\<lparr>pr_Guesses := pr_Guesses p @ [\<lparr>gs_Field = field, gs_Path = path, gs_Confidence = confidence, gs_Others = others\<rparr>]\<rparr>"

definition addWarning :: "infer_warning \<Rightarrow> Proposal \<Rightarrow> Proposal" where
  "addWarning w p = p\<lparr>pr_Warnings := pr_Warnings p @ [w]\<rparr>"

section \<open>Fields in every sample\<close>

fun keepCommon :: "(string \<times> json list) list \<Rightarrow> flat \<Rightarrow> (string \<times> json list) list" where
  "keepCommon [] kvs = []"
| "keepCommon ((k, vs) # out) kvs =
     (case map_of kvs k of None \<Rightarrow> keepCommon out kvs | Some v \<Rightarrow> (k, vs @ [v]) # keepCommon out kvs)"

fun commonFields :: "json list \<Rightarrow> (string \<times> json list) list" where
  "commonFields [] = []"
| "commonFields (d # ds) =
     foldl (\<lambda>out doc. keepCommon out (Flatten doc)) (map (\<lambda>(k, v). (k, [v])) (Flatten d)) ds"

section \<open>Choosing a path\<close>

definition dropUnderscores :: "string \<Rightarrow> string" where
  "dropUnderscores s = filter (\<lambda>c. c \<noteq> CHR ''_'') s"

fun firstRank :: "string \<Rightarrow> string list \<Rightarrow> nat \<Rightarrow> nat option" where
  "firstRank s [] n = None"
| "firstRank s (c # cs) n = (if HasSuffix s (dropUnderscores c) then Some n else firstRank s cs (Suc n))"

definition matchOf :: "string list \<Rightarrow> string \<Rightarrow> (nat \<times> nat \<times> string) option" where
  "matchOf candidates path =
     map_option (\<lambda>rank. (rank, count_list path CHR ''.'', path))
       (firstRank (ToLower (dropUnderscores path)) candidates 0)"

definition pickMatches :: "string list \<Rightarrow> string list \<Rightarrow> (nat \<times> nat \<times> string) list" where
  "pickMatches candidates paths = sort (List.map_filter (matchOf candidates) paths)"

definition pickPath :: "string \<Rightarrow> string list \<Rightarrow> string list \<Rightarrow> Proposal \<Rightarrow> string \<times> Proposal" where
  "pickPath field paths candidates p =
     (case pickMatches candidates paths of
        [] \<Rightarrow> ([], addGuess field [] ''none'' [] p)
      | m # ms \<Rightarrow>
          (let path = ''$.'' @ snd (snd m)
           in (path, addGuess field path (if ms = [] then ''high'' else ''low'')
                       (map (\<lambda>x. ''$.'' @ snd (snd x)) ms) p)))"

section \<open>Statuses\<close>

definition guessStatus :: "string \<Rightarrow> Status" where
  "guessStatus raw =
     (let v = ToLower (TrimSpace raw); has = list_ex (Contains v) in
      if v = ''00'' \<or> v = ''0'' then StatusSuccess
      else if has [''success'', ''complet'', ''paid'', ''approved''] \<or> v = ''true'' then StatusSuccess
      else if has [''revers'', ''refund''] then StatusReversed
      else if has [''pend'', ''progress'', ''process'', ''await'', ''queue''] then StatusPending
      else if has [''cancel'', ''abandon'', ''expire''] then StatusAbandoned
      else if has [''fail'', ''declin'', ''error'', ''reject''] \<or> v = ''false'' then StatusFailed
      else StatusUnknown)"

definition textsAt :: "json list \<Rightarrow> path \<Rightarrow> string list" where
  "textsAt docs p = List.map_filter (\<lambda>doc. textAt doc (Some p)) docs"

definition inferStatuses :: "json list \<Rightarrow> string \<Rightarrow> (string \<times> string) list \<times> string list" where
  "inferStatuses docs path =
     (case Compile path of
        Inl _ \<Rightarrow> ([], [])
      | Inr p \<Rightarrow>
          (let values = sort (remdups (textsAt docs p))
           in (map (\<lambda>raw. (raw, guessStatus raw)) values, values)))"

section \<open>Amounts and times\<close>

definition fractional :: "string \<Rightarrow> bool" where
  "fractional s =
     (case Cut s CHR ''.'' of (before, after, found) \<Rightarrow>
        found \<and> TrimLeft (TrimRight after CHR ''0'') CHR ''0'' \<noteq> [])"

definition amountTexts :: "json list \<Rightarrow> path \<Rightarrow> string list" where
  "amountTexts docs p =
     List.map_filter (\<lambda>doc. case Eval p doc of Inl _ \<Rightarrow> None | Inr v \<Rightarrow> StringValue v) docs"

definition inferAmountUnit :: "json list \<Rightarrow> string \<Rightarrow> Proposal \<Rightarrow> string \<times> Proposal" where
  "inferAmountUnit docs path p =
     (case Compile path of
        Inl _ \<Rightarrow> (''minor'', p)
      | Inr q \<Rightarrow>
          if list_ex fractional (amountTexts docs q)
          then (''major'', addGuess ''amount.unit'' ''major'' ''high'' [] p)
          else (''minor'', addGuess ''amount.unit'' ''minor'' ''low'' [] p))"

definition offsetLayouts :: "string list" where
  "offsetLayouts = [''2006-01-02T15:04:05.999999999Z07:00'', ''2006-01-02T15:04:05Z07:00'',
     ''2006-01-02T15:04:05.000Z'', ''2006-01-02T15:04:05Z'']"

definition zonelessLayouts :: "string list" where
  "zonelessLayouts = [''2006-01-02T15:04:05.000'', ''2006-01-02T15:04:05'', ''2006-01-02 15:04:05.000'',
     ''2006-01-02 15:04:05'', ''2006-01-02'']"

fun firstLayout :: "AdapterLib \<Rightarrow> string list \<Rightarrow> string \<Rightarrow> string option" where
  "firstLayout L [] s = None"
| "firstLayout L (l # ls) s = (if al_timeParse L l s \<noteq> None then Some l else firstLayout L ls s)"

definition inferTimeFormat :: "AdapterLib \<Rightarrow> json list \<Rightarrow> string \<Rightarrow> Proposal \<Rightarrow> (string \<times> string) \<times> Proposal" where
  "inferTimeFormat L docs path p =
     (case Compile path of
        Inl _ \<Rightarrow> (([], []), p)
      | Inr q \<Rightarrow>
          (case textsAt docs q of
             [] \<Rightarrow> (([], []), p)
           | sample # _ \<Rightarrow>
               (case firstLayout L offsetLayouts sample of
                  Some l \<Rightarrow> ((l, []), addGuess ''occurred_at.format'' l ''high'' [] p)
                | None \<Rightarrow>
                    (case firstLayout L zonelessLayouts sample of
                       Some l \<Rightarrow> ((l, ''Africa/Lagos''), addGuess ''occurred_at.format'' l ''high'' [] p)
                     | None \<Rightarrow>
                         if ParseInt sample \<noteq> None
                         then (([], []), addGuess ''occurred_at.format'' [] ''high'' [] p)
                         else (([], []), addWarning (WarnTimestampFormat sample) p)))))"

section \<open>The draft\<close>

fun decodeSamples :: "AdapterLib \<Rightarrow> nat \<Rightarrow> Sample list \<Rightarrow> infer_error + json list" where
  "decodeSamples L i [] = Inr []"
| "decodeSamples L i (s # ss) =
     (case al_decode L (sp_Body s) of
        Inl err \<Rightarrow> Inl (InferNotJSON (i + 1) err)
      | Inr doc \<Rightarrow> (case decodeSamples L (i + 1) ss of Inl e \<Rightarrow> Inl e | Inr docs \<Rightarrow> Inr (doc # docs)))"

definition inferAmount :: "json list \<Rightarrow> string list \<Rightarrow> Proposal \<Rightarrow> AmountMap \<times> Proposal" where
  "inferAmount docs paths p =
     (case pickPath ''amount'' paths amountCandidates p of
        (path, p) \<Rightarrow>
          if path = [] then (\<lparr>am_Path = [], am_Unit = [], am_CurrencyPath = [], am_DefaultCurrency = []\<rparr>, p)
          else case inferAmountUnit docs path p of
                 (unit, p) \<Rightarrow>
                   (case pickPath ''currency'' paths currencyCandidates p of
                      (cur, p) \<Rightarrow>
                        if cur = []
                        then (\<lparr>am_Path = path, am_Unit = unit, am_CurrencyPath = [], am_DefaultCurrency = ''NGN''\<rparr>,
                              addWarning WarnNoCurrency p)
                        else (\<lparr>am_Path = path, am_Unit = unit, am_CurrencyPath = cur, am_DefaultCurrency = []\<rparr>, p)))"

definition inferTime :: "AdapterLib \<Rightarrow> json list \<Rightarrow> string list \<Rightarrow> Proposal \<Rightarrow> TimeMapping \<times> Proposal" where
  "inferTime L docs paths p =
     (case pickPath ''occurred_at'' paths timeCandidates p of
        (path, p) \<Rightarrow>
          if path = [] then (\<lparr>tm_Path = [], tm_Format = [], tm_Timezone = []\<rparr>, p)
          else case inferTimeFormat L docs path p of
                 ((fmt, tz), p) \<Rightarrow> (\<lparr>tm_Path = path, tm_Format = fmt, tm_Timezone = tz\<rparr>, p))"

definition placeholderVerification :: "string \<Rightarrow> Verification" where
  "placeholderVerification name =
     \<lparr>vf_Type = ''hmac'', vf_Algorithm = ''sha256'', vf_Encoding = ''hex'', vf_Header = ''x-'' @ name @ ''-signature'',
      vf_Source = ''raw_body'', vf_Fields = [], vf_TimestampHeader = [], vf_ToleranceSecs = 0,
      vf_AllowedSourceCIDRs = []\<rparr>"

definition emptyMapping :: FieldMapping where
  "emptyMapping =
     \<lparr>mp_ProviderEventID = [], mp_TransactionRef = [], mp_EventFamily = [],
      mp_OccurredAt = \<lparr>tm_Path = [], tm_Format = [], tm_Timezone = []\<rparr>,
      mp_Amount = \<lparr>am_Path = [], am_Unit = [], am_CurrencyPath = [], am_DefaultCurrency = []\<rparr>,
      mp_Status = \<lparr>sm_Path = [], sm_Values = [], sm_Default = [], sm_CaseSensitive = False\<rparr>,
      mp_CustomerRef = [], mp_ExtraFields = []\<rparr>"

definition draftConfig :: "string \<Rightarrow> FieldMapping \<Rightarrow> Config" where
  "draftConfig name m =
     \<lparr>cf_Name = name, cf_Version = 1, cf_DisplayName = [], cf_Notes = [],
      cf_Verification = placeholderVerification name, cf_Mapping = m\<rparr>"

definition inferMapping :: "AdapterLib \<Rightarrow> json list \<Rightarrow> Proposal \<Rightarrow> FieldMapping \<times> Proposal" where
  "inferMapping L docs p =
     (let paths = map fst (commonFields docs) in
      case pickPath ''transaction_ref'' paths refCandidates p of (ref, p) \<Rightarrow>
      case pickPath ''provider_event_id'' paths eventIDCandidates p of (eventID, p) \<Rightarrow>
      case pickPath ''status'' paths statusCandidates p of (status, p) \<Rightarrow>
      case (if status = [] then ([], []) else inferStatuses docs status) of (values, seen) \<Rightarrow>
      case pickPath ''customer_ref'' paths customerCandidates (p\<lparr>pr_StatusesSeen := seen\<rparr>) of (customer, p) \<Rightarrow>
      case inferAmount docs paths p of (amount, p) \<Rightarrow>
      case inferTime L docs paths p of (occurred, p) \<Rightarrow>
        (\<lparr>mp_ProviderEventID = eventID, mp_TransactionRef = ref, mp_EventFamily = ''payment'',
          mp_OccurredAt = occurred, mp_Amount = amount,
          mp_Status = \<lparr>sm_Path = status, sm_Values = values, sm_Default = StatusUnknown, sm_CaseSensitive = False\<rparr>,
          mp_CustomerRef = customer, mp_ExtraFields = []\<rparr>, p))"

definition InferDraft :: "AdapterLib \<Rightarrow> string \<Rightarrow> Sample list \<Rightarrow> infer_error + Proposal" where
  "InferDraft L name samples =
     (if samples = [] then Inl InferNoSamples
      else case decodeSamples L 0 samples of
             Inl e \<Rightarrow> Inl e
           | Inr docs \<Rightarrow>
               (case inferMapping L docs
                       \<lparr>pr_Config = draftConfig name emptyMapping, pr_Guesses = [], pr_StatusesSeen = [], pr_Warnings = []\<rparr> of
                  (m, p) \<Rightarrow>
                    Inr (addWarning WarnPlaceholderVerification
                          (addGuess ''verification'' (vf_Header (placeholderVerification name)) ''none'' []
                            (p\<lparr>pr_Config := draftConfig name m\<rparr>)))))"

definition Proposal_Validate :: "AdapterLib \<Rightarrow> Proposal \<Rightarrow> config_error option" where
  "Proposal_Validate L p = (case CompileConfig L (pr_Config p) of Inl e \<Rightarrow> Some e | Inr _ \<Rightarrow> None)"

definition ProposalSummary :: "AdapterLib \<Rightarrow> Proposal \<Rightarrow> (nat \<times> nat \<times> nat) \<times> config_error option" where
  "ProposalSummary L p =
     (let n = (\<lambda>P. length (filter (\<lambda>g. P (gs_Confidence g)) (pr_Guesses p)))
      in ((n (\<lambda>c. c = ''high''), n (\<lambda>c. c = ''low''), n (\<lambda>c. c \<noteq> ''high'' \<and> c \<noteq> ''low'')), Proposal_Validate L p))"

section \<open>Trying an adapter on samples\<close>

datatype adapter_warning =
    WarnNoEventID
  | WarnNoOccurredAt
  | WarnNoAmount
  | WarnSourceOnly
  | WarnSharedSecret
  | WarnSignedFields nat
  | WarnNoTimestampHeader
  | WarnFewStatuses
  | WarnUnmapped "string list"

record SampleResult =
  sr_Name :: string
  sr_Parsed :: bool
  sr_Verified :: "bool option"
  sr_Error :: "parse_error option"
  sr_Event :: "CanonicalEvent option"
  sr_MissingFields :: "string list"
  sr_UnmappedStatus :: string

record TestResult =
  tr_Adapter :: string
  tr_Valid :: bool
  tr_Error :: "config_error option"
  tr_Samples :: "SampleResult list"
  tr_Warnings :: "adapter_warning list"

definition warningsFor :: "Config \<Rightarrow> adapter_warning list" where
  "warningsFor cfg =
     (let m = cf_Mapping cfg; v = cf_Verification cfg in
      (if mp_ProviderEventID m = [] then [WarnNoEventID] else [])
      @ (if tm_Path (mp_OccurredAt m) = [] then [WarnNoOccurredAt] else [])
      @ (if am_Path (mp_Amount m) = [] then [WarnNoAmount] else [])
      @ (if vf_Type v = ''source_only'' then [WarnSourceOnly] else [])
      @ (if vf_Type v = ''shared_secret'' then [WarnSharedSecret] else [])
      @ (if vf_Type v = ''hmac'' \<and> vf_Source v = ''fields'' then [WarnSignedFields (length (vf_Fields v))] else [])
      @ (if vf_Type v = ''hmac'' \<and> vf_TimestampHeader v = [] then [WarnNoTimestampHeader] else [])
      @ (if length (sm_Values (mp_Status m)) < 2 then [WarnFewStatuses] else []))"

definition missingFields :: "CanonicalEvent \<Rightarrow> string list" where
  "missingFields ev =
     (if ev_ProviderEventID ev = [] then [''provider_event_id''] else [])
     @ (if IsZero (ev_OccurredAt ev) then [''occurred_at''] else [])
     @ (if ev_AmountMinor ev = 0 then [''amount''] else [])
     @ (if ev_Currency ev = [] then [''currency''] else [])
     @ (if ev_CustomerRefHash ev = [] then [''customer_ref''] else [])"

definition tokenByte :: "char \<Rightarrow> bool" where
  "tokenByte c \<longleftrightarrow> is_digit c \<or> 65 \<le> ord c \<and> ord c \<le> 90 \<or> 97 \<le> ord c \<and> ord c \<le> 122
     \<or> c \<in> set ''!#$%&*+-.^_|~'' \<or> ord c = 39 \<or> ord c = 96"

fun canonicalLoop :: "bool \<Rightarrow> string \<Rightarrow> string" where
  "canonicalLoop upper [] = []"
| "canonicalLoop upper (c # s) = (if upper then ToUpperByte c else ToLowerByte c) # canonicalLoop (c = CHR ''-'') s"

definition CanonicalHeaderKey :: "string \<Rightarrow> string" where
  "CanonicalHeaderKey k = (if list_all tokenByte k then canonicalLoop True k else k)"

definition sampleHeaders :: "(string \<times> string) list \<Rightarrow> headers" where
  "sampleHeaders hs = fold (\<lambda>(k, v) h. AList.update (CanonicalHeaderKey k) [v] h) hs []"

definition runSample :: "AdapterLib \<Rightarrow> instant \<Rightarrow> DeclAdapter \<Rightarrow> Sample \<Rightarrow> string \<Rightarrow> SampleResult" where
  "runSample L now a s secret =
     (let verified = (if secret = [] then None
                      else Some (declVerify L a now (sampleHeaders (sp_Headers s)) (sp_Body s) secret = None)) in
      case declParse L a (sp_Body s) of
        Inl e \<Rightarrow> \<lparr>sr_Name = sp_Name s, sr_Parsed = False, sr_Verified = verified, sr_Error = Some e, sr_Event = None,
                  sr_MissingFields = [], sr_UnmappedStatus = []\<rparr>
      | Inr ev \<Rightarrow> \<lparr>sr_Name = sp_Name s, sr_Parsed = True, sr_Verified = verified, sr_Error = None,
                   sr_Event = Some (Normalise ev), sr_MissingFields = missingFields (Normalise ev),
                   sr_UnmappedStatus = ev_UnmappedStatus (Normalise ev)\<rparr>)"

fun dedupeLoop :: "string list \<Rightarrow> string list \<Rightarrow> string list" where
  "dedupeLoop [] out = out"
| "dedupeLoop (s # ss) out = dedupeLoop ss (if s \<in> set out then out else out @ [s])"

definition TestAdapter :: "AdapterLib \<Rightarrow> instant \<Rightarrow> Config \<Rightarrow> Sample list \<Rightarrow> string \<Rightarrow> TestResult" where
  "TestAdapter L now cfg payloads secret =
     (case CompileConfig L cfg of
        Inl e \<Rightarrow> \<lparr>tr_Adapter = cf_Name cfg, tr_Valid = False, tr_Error = Some e, tr_Samples = [], tr_Warnings = []\<rparr>
      | Inr a \<Rightarrow>
          (let samples = map (\<lambda>s. runSample L now a s secret) payloads;
               unmapped = filter (\<lambda>u. u \<noteq> []) (map sr_UnmappedStatus samples)
           in \<lparr>tr_Adapter = cf_Name cfg, tr_Valid = True, tr_Error = None, tr_Samples = samples,
               tr_Warnings = warningsFor cfg @ (if unmapped = [] then [] else [WarnUnmapped (dedupeLoop unmapped [])])\<rparr>))"

end
