(* ===== verification/Infer_Spec.thy ===== *)
theory Infer_Spec
  imports Infer Declarative_Spec
begin

text \<open>
  What a drafted adapter is worth. The path chosen for a field is the best match and does not depend on the
  order in which the map of common fields is visited; a draft whose paths are readable loads; once loaded it
  reports for every sample the status its table was guessed from. The guess itself looks for fragments of
  words, so a negated word is read as its opposite.
\<close>

section \<open>The chosen path\<close>

lemma map_filter_mset: "mset xs = mset ys \<Longrightarrow> mset (List.map_filter f xs) = mset (List.map_filter f ys)"
  by (simp add: map_filter_def mset_filter)

lemma pickMatches_mset: "mset xs = mset ys \<Longrightarrow> pickMatches cs xs = pickMatches cs ys"
  by (metis pickMatches_def map_filter_mset sorted_list_of_multiset_mset)

lemma pickMatches_set: "set (pickMatches cs paths) = {m. \<exists>x\<in>set paths. matchOf cs x = Some m}"
  by (force simp: pickMatches_def map_filter_def)

lemma pickMatches_Nil: "pickMatches cs paths = [] \<longleftrightarrow> (\<forall>x\<in>set paths. matchOf cs x = None)"
proof -
  have "pickMatches cs paths = [] \<longleftrightarrow> List.map_filter (matchOf cs) paths = []"
    by (metis pickMatches_def set_empty set_sort)
  then show ?thesis by (simp add: map_filter_def filter_empty_conv del: not_None_eq)
qed

lemma matchOf_path: "matchOf cs x = Some m \<Longrightarrow> snd (snd m) = x"
  by (auto simp: matchOf_def)

lemma pickMatches_best: "pickMatches cs paths = m # ms \<Longrightarrow> x \<in> set paths \<Longrightarrow> matchOf cs x = Some y \<Longrightarrow> m \<le> y"
proof -
  assume m: "pickMatches cs paths = m # ms" and x: "x \<in> set paths" "matchOf cs x = Some y"
  have "sorted (pickMatches cs paths)" by (simp add: pickMatches_def)
  moreover have "y \<in> set (pickMatches cs paths)" using x by (auto simp: pickMatches_set)
  ultimately show ?thesis using m by auto
qed

lemma pickPath_cases:
  obtains (none) "fst (pickPath f paths cs p) = []" "\<forall>x\<in>set paths. matchOf cs x = None"
  | (best) x r where "fst (pickPath f paths cs p) = ''$.'' @ x" "x \<in> set paths" "matchOf cs x = Some r"
      "\<forall>y\<in>set paths. \<forall>r'. matchOf cs y = Some r' \<longrightarrow> r \<le> r'"
proof (cases "pickMatches cs paths")
  case Nil
  then have "\<forall>x\<in>set paths. matchOf cs x = None" by (simp add: pickMatches_Nil)
  with Nil show thesis by (intro none) (simp_all add: pickPath_def)
next
  case (Cons m ms)
  then obtain x where x: "x \<in> set paths" "matchOf cs x = Some m" using pickMatches_set [of cs paths] by force
  with Cons matchOf_path [OF x(2)] pickMatches_best [OF Cons] show thesis
    by (intro best [of x m]) (auto simp: pickPath_def Let_def)
qed

text \<open>
  The path proposed for a field is a function of the set of fields all samples share: whatever order Go's
  map hands them over in, the choice is the field with the best candidate name, among those the shallowest,
  among those the first in byte order; and a path is proposed whenever some field matches.
\<close>

theorem pickPath_deterministic:
  "(\<forall>ys. mset ys = mset paths \<longrightarrow> pickPath f ys cs p = pickPath f paths cs p)
   \<and> (fst (pickPath f paths cs p) = [] \<longleftrightarrow> (\<forall>x\<in>set paths. matchOf cs x = None))
   \<and> (\<forall>x. fst (pickPath f paths cs p) = ''$.'' @ x \<longrightarrow>
        x \<in> set paths \<and> (\<exists>r. matchOf cs x = Some r \<and> (\<forall>y\<in>set paths. \<forall>r'. matchOf cs y = Some r' \<longrightarrow> r \<le> r')))"
proof -
  have "pickPath f ys cs p = pickPath f paths cs p" if "mset ys = mset paths" for ys
    unfolding pickPath_def pickMatches_mset [OF that] by (rule refl)
  moreover have "(fst (pickPath f paths cs p) = [] \<longleftrightarrow> (\<forall>x\<in>set paths. matchOf cs x = None))
     \<and> (\<forall>x. fst (pickPath f paths cs p) = ''$.'' @ x \<longrightarrow>
        x \<in> set paths \<and> (\<exists>r. matchOf cs x = Some r \<and> (\<forall>y\<in>set paths. \<forall>r'. matchOf cs y = Some r' \<longrightarrow> r \<le> r')))"
  proof (cases rule: pickPath_cases [of f paths cs p])
    case none
    then show ?thesis by simp
  next
    case (best x r)
    have e: "fst (pickPath f paths cs p) = ''$.'' @ y \<longleftrightarrow> y = x" for y using best(1) by auto
    have n: "fst (pickPath f paths cs p) \<noteq> []" using best(1) by simp
    have "\<exists>x\<in>set paths. matchOf cs x \<noteq> None" using best(2,3) by (intro bexI [of _ x]) simp_all
    with n have "fst (pickPath f paths cs p) = [] \<longleftrightarrow> (\<forall>x\<in>set paths. matchOf cs x = None)" by simp
    moreover have "x \<in> set paths \<and> (\<exists>r. matchOf cs x = Some r \<and> (\<forall>y\<in>set paths. \<forall>r'. matchOf cs y = Some r' \<longrightarrow> r \<le> r'))"
      using best(2-4) by (intro conjI exI [of _ r])
    ultimately show ?thesis unfolding e by simp
  qed
  ultimately show ?thesis by blast
qed

theorem pickPath_deterministic_witness:
  "pickPath ''f'' [''a.reference'', ''tx_ref'', ''orderId''] refCandidates p
     = pickPath ''f'' [''orderId'', ''a.reference'', ''tx_ref''] refCandidates p
   \<and> fst (pickPath ''f'' [''a.reference'', ''tx_ref'', ''orderId''] refCandidates p) = ''$.tx_ref''"
proof -
  have "mset [''a.reference'', ''tx_ref'', ''orderId''] = mset [''orderId'', ''a.reference'', ''tx_ref'']" by simp
  moreover have "map (\<lambda>m. snd (snd m)) (pickMatches refCandidates [''orderId'', ''a.reference'', ''tx_ref'']) = [''tx_ref'', ''a.reference'', ''orderId'']"
    by code_simp
  then have "fst (pickPath ''f'' [''orderId'', ''a.reference'', ''tx_ref''] refCandidates p) = ''$.tx_ref''"
    by (auto simp: pickPath_def Let_def split: list.split)
  ultimately show ?thesis using pickPath_deterministic [of "[''orderId'', ''a.reference'', ''tx_ref'']" "''f''" refCandidates p] by metis
qed

section \<open>The table of statuses\<close>

lemma guessStatus_key: "statusKey False a = statusKey False b \<Longrightarrow> guessStatus a = guessStatus b"
  by (simp add: guessStatus_def statusKey_def)

lemma statusKey_Nil: "statusKey False [] = []"
  by code_simp

lemma guessStatus_valid: "Status_Valid (guessStatus raw)"
proof -
  have "list_all Status_Valid [StatusSuccess, StatusReversed, StatusPending, StatusAbandoned, StatusFailed, StatusUnknown]" by code_simp
  then show ?thesis by (simp add: guessStatus_def Let_def)
qed

lemma guessStatus_empty: "statusKey False raw = [] \<Longrightarrow> guessStatus raw = StatusUnknown"
proof -
  assume "statusKey False raw = []"
  moreover have "guessStatus [] = StatusUnknown \<and> statusKey False [] = []" by code_simp
  ultimately show ?thesis using guessStatus_key by metis
qed

lemma inferMapping_status:
  assumes "inferMapping L docs p = (m, p')"
  shows "sm_CaseSensitive (mp_Status m) = False"
    and "sm_Path (mp_Status m) \<noteq> [] \<Longrightarrow> sm_Values (mp_Status m) = fst (inferStatuses docs (sm_Path (mp_Status m)))"
  using assms by (auto simp: inferMapping_def Let_def split: prod.splits if_splits)

lemma InferDraft_Inr:
  assumes "InferDraft L name samples = Inr p"
  obtains docs m p0 p1 where "decodeSamples L 0 samples = Inr docs" "inferMapping L docs p0 = (m, p1)"
    "pr_Config p = draftConfig name m"
  using assms by (auto simp: InferDraft_def addWarning_def addGuess_def split: if_splits sum.splits prod.splits)

lemma decodeSamples_docs:
  "decodeSamples L i ss = Inr docs \<Longrightarrow> s \<in> set ss \<Longrightarrow> \<exists>doc\<in>set docs. al_decode L (sp_Body s) = Inr doc"
proof (induction L i ss arbitrary: docs rule: decodeSamples.induct)
  case (2 L i t ts)
  from "2.prems"(1) obtain d ds where "al_decode L (sp_Body t) = Inr d" "decodeSamples L (i + 1) ts = Inr ds" "docs = d # ds"
    by (auto split: sum.splits)
  with 2 show ?case by (cases "s = t") auto
qed simp

lemma InferDraft_table:
  assumes "InferDraft L name samples = Inr p" and "CompileConfig L (pr_Config p) = Inr a"
    and "s \<in> set samples" and "al_decode L (sp_Body s) = Inr doc" and "StringAt doc (da_statusAt a) = Inr raw"
  shows "raw \<noteq> [] \<Longrightarrow> statusFrom (pr_Config p) raw (guessStatus raw)"
    and "statusFrom (pr_Config p) raw st \<Longrightarrow> st = guessStatus raw"
proof -
  from assms(1) obtain docs m p0 p1 where d: "decodeSamples L 0 samples = Inr docs"
    and m: "inferMapping L docs p0 = (m, p1)" and c: "pr_Config p = draftConfig name m" by (rule InferDraft_Inr)
  from decodeSamples_docs [OF d assms(3)] assms(4) have doc: "doc \<in> set docs" by auto
  have cm: "cf_Mapping (pr_Config p) = m" by (simp add: c draftConfig_def)
  have q: "Compile (sm_Path (mp_Status m)) = Inr (da_statusAt a)" using CompileConfig_Inr(5) [OF assms(2)] by (simp add: cm)
  moreover have "Compile [] = Inl ErrEmptyPath" by code_simp
  ultimately have "sm_Path (mp_Status m) \<noteq> []" by auto
  with inferMapping_status [OF m] q
  have v: "sm_Values (mp_Status m) = map (\<lambda>r. (r, guessStatus r)) (sort (remdups (textsAt docs (da_statusAt a))))"
    and cs: "sm_CaseSensitive (mp_Status m) = False" by (simp_all add: inferStatuses_def Let_def)
  { assume "raw \<noteq> []"
    with assms(5) doc have "raw \<in> set (textsAt docs (da_statusAt a))"
      by (force simp: textsAt_def map_filter_def textAt_def)
    then show "statusFrom (pr_Config p) raw (guessStatus raw)" by (auto simp: statusFrom_def cm v Let_def) }
  assume "statusFrom (pr_Config p) raw st"
  then show "st = guessStatus raw" by (auto simp: statusFrom_def cm v cs Let_def intro: guessStatus_key)
qed

text \<open>
  A draft that loads reads back the samples it was made from: the status of each parsed sample is the one
  guessed for the text the sample carries, and unknown where it carries none. No two entries of the drafted
  table disagree, whatever their case.
\<close>

theorem draft_reports_guess:
  assumes "InferDraft L name samples = Inr p" and "CompileConfig L (pr_Config p) = Inr a" and "s \<in> set samples"
    and "declParse L a (sp_Body s) = Inr ev"
  shows "\<exists>doc. al_decode L (sp_Body s) = Inr doc \<and>
       ev_Status ev = (case StringAt doc (da_statusAt a) of Inr raw \<Rightarrow> guessStatus raw | Inl _ \<Rightarrow> StatusUnknown)"
proof (rule declParse_Inr [OF assms(4)])
  fix doc ref
  let ?e = "declEventID a doc ((newEvent (cf_Name (da_cfg a)))\<lparr>ev_TransactionRef := ref\<rparr>)"
  assume doc: "al_decode L (sp_Body s) = Inr doc" and st: "ev_Status ev = ev_Status (declStatus a doc ?e)"
  note table = InferDraft_table [OF assms(1-3) doc]
  from assms(2) show ?thesis
  proof (cases rule: declStatus_cases [where doc = doc and ev = ?e])
    case (absent e)
    with doc st show ?thesis by simp
  next
    case (unmapped raw)
    then have "raw = []" using table(1) by blast
    then have "guessStatus raw = StatusUnknown" using guessStatus_empty [of "[]"] statusKey_Nil by simp
    with unmapped doc st show ?thesis by simp
  next
    case (mapped raw t)
    with table(2) have "t = guessStatus raw" by blast
    with mapped doc st show ?thesis by simp
  qed
qed

definition twoSamples :: "Sample list" where
  "twoSamples = [\<lparr>sp_Name = [], sp_Body = ''1'', sp_Headers = []\<rparr>, \<lparr>sp_Name = [], sp_Body = ''2'', sp_Headers = []\<rparr>]"

definition statusDoc :: "string \<Rightarrow> json" where
  "statusDoc s = JObject [(''reference'', JString ''R1''), (''status'', JString s)]"

definition draftLib :: "string \<Rightarrow> string \<Rightarrow> AdapterLib" where
  "draftLib s1 s2 = docLib [(''1'', statusDoc s1), (''2'', statusDoc s2)]"

definition draftRun :: "string \<Rightarrow> string \<Rightarrow> (infer_error + Proposal) \<times> (parse_error + CanonicalEvent) option" where
  "draftRun s1 s2 =
     (let L = draftLib s1 s2; r = InferDraft L ''acme'' twoSamples in
      (r, case r of Inl _ \<Rightarrow> None
          | Inr p \<Rightarrow> (case CompileConfig L (pr_Config p) of Inl _ \<Rightarrow> None | Inr a \<Rightarrow> Some (declParse L a ''1''))))"

lemma draftRun_Some:
  assumes "case snd (draftRun s1 s2) of Some (Inr ev) \<Rightarrow> P ev | _ \<Rightarrow> False"
  shows "\<exists>p a ev. InferDraft (draftLib s1 s2) ''acme'' twoSamples = Inr p \<and> CompileConfig (draftLib s1 s2) (pr_Config p) = Inr a
       \<and> declParse (draftLib s1 s2) a ''1'' = Inr ev \<and> P ev"
  using assms by (auto simp: draftRun_def Let_def split: sum.splits option.splits)

theorem draft_reports_guess_witness:
  "\<exists>p a ev doc. InferDraft (draftLib ''Paid'' ''failed'') ''acme'' twoSamples = Inr p
     \<and> CompileConfig (draftLib ''Paid'' ''failed'') (pr_Config p) = Inr a
     \<and> declParse (draftLib ''Paid'' ''failed'') a ''1'' = Inr ev \<and> ev_TransactionRef ev = ''R1''
     \<and> al_decode (draftLib ''Paid'' ''failed'') ''1'' = Inr doc
     \<and> ev_Status ev = (case StringAt doc (da_statusAt a) of Inr raw \<Rightarrow> guessStatus raw | Inl _ \<Rightarrow> StatusUnknown)"
proof -
  let ?L = "draftLib ''Paid'' ''failed''"
  have "case snd (draftRun ''Paid'' ''failed'') of Some (Inr ev) \<Rightarrow> ev_TransactionRef ev = ''R1'' | _ \<Rightarrow> False" by code_simp
  from draftRun_Some [OF this] obtain p a ev where r: "InferDraft ?L ''acme'' twoSamples = Inr p"
    "CompileConfig ?L (pr_Config p) = Inr a" "declParse ?L a ''1'' = Inr ev" "ev_TransactionRef ev = ''R1''" by blast
  have s: "\<lparr>sp_Name = [], sp_Body = ''1'', sp_Headers = []\<rparr> \<in> set twoSamples" by (simp add: twoSamples_def)
  from draft_reports_guess [OF r(1,2) s] r show ?thesis by auto
qed

text \<open>
  The guess is made on fragments of words. From samples whose status reads unsuccessful, the draft that
  loads reports a success for exactly such a payload, with a complete mapping and nothing left unmapped.
\<close>

theorem unsuccessful_drafted_as_success:
  "guessStatus ''unsuccessful'' = StatusSuccess \<and> guessStatus ''unpaid'' = StatusSuccess
   \<and> guessStatus ''incomplete'' = StatusSuccess \<and> guessStatus ''disapproved'' = StatusSuccess
   \<and> (\<exists>p a ev. InferDraft (draftLib ''unsuccessful'' ''pending'') ''acme'' twoSamples = Inr p
        \<and> CompileConfig (draftLib ''unsuccessful'' ''pending'') (pr_Config p) = Inr a
        \<and> declParse (draftLib ''unsuccessful'' ''pending'') a ''1'' = Inr ev
        \<and> ev_Status ev = StatusSuccess \<and> ev_EventType ev = EventPaymentCompleted
        \<and> ev_MappingComplete ev \<and> ev_UnmappedStatus ev = [])"
proof -
  have "guessStatus ''unsuccessful'' = StatusSuccess \<and> guessStatus ''unpaid'' = StatusSuccess
     \<and> guessStatus ''incomplete'' = StatusSuccess \<and> guessStatus ''disapproved'' = StatusSuccess" by code_simp
  moreover have "case snd (draftRun ''unsuccessful'' ''pending'') of
      Some (Inr ev) \<Rightarrow> ev_Status ev = StatusSuccess \<and> ev_EventType ev = EventPaymentCompleted \<and> ev_MappingComplete ev
        \<and> ev_UnmappedStatus ev = []
    | _ \<Rightarrow> False" by code_simp
  note draftRun_Some [OF this]
  ultimately show ?thesis by blast
qed

end
