(* ===== verification/Idempotency.thy ===== *)
theory Idempotency
  imports JsonPath "HOL-Library.Multiset" "HOL-Library.List_Lexorder" "HOL-Library.Char_ord"
begin

text \<open>
  Replaying management writes: \<^verbatim>\<open>internal/api/idempotency.go\<close>. The in-memory store is an association list from
  tenant and key to a record. The middleware is cut where the wrapped handler runs, because other requests
  run in between: \<open>idemEnter\<close> is everything up to the call of the handler, \<open>idemLeave\<close> everything after it,
  and a handler that panics never reaches the second part. \<open>IdemLib\<close> stands for \<open>encoding/json\<close> (into
  \<open>any\<close>, so with numbers as \<open>float64\<close>) and for the hex digest.
\<close>

section \<open>The store\<close>

definition IdempotencyWindow :: duration where "IdempotencyWindow = 24 * hour"
definition maxRecordedBody :: nat where "maxRecordedBody = 64 * 1024"

record IdemRecord =
  ir_Key :: string
  ir_TenantID :: string
  ir_Method :: string
  ir_Path :: string
  ir_RequestHash :: string
  ir_Status :: nat
  ir_Body :: string
  ir_InFlight :: bool
  ir_CreatedAt :: instant

type_synonym idem_store = "(string \<times> IdemRecord) list"

definition idempotencyKey :: "string \<Rightarrow> string \<Rightarrow> string" where
  "idempotencyKey tenantID key = tenantID @ ''|'' @ key"

definition IdemBegin :: "instant \<Rightarrow> IdemRecord \<Rightarrow> idem_store \<Rightarrow> idem_store \<times> IdemRecord option" where
  "IdemBegin now r s =
     (let k = idempotencyKey (ir_TenantID r) (ir_Key r);
          fresh = AList.update k (r\<lparr>ir_InFlight := True, ir_CreatedAt := now\<rparr>)
      in case map_of s k of
           Some e \<Rightarrow> if time_sub now (ir_CreatedAt e) < IdempotencyWindow then (s, Some e)
                     else (fresh (AList.delete k s), None)
         | None \<Rightarrow> (fresh s, None))"

definition IdemComplete :: "string \<Rightarrow> string \<Rightarrow> nat \<Rightarrow> string \<Rightarrow> idem_store \<Rightarrow> idem_store option" where
  "IdemComplete key tenantID status body s =
     (let k = idempotencyKey tenantID key in
      case map_of s k of
        None \<Rightarrow> None
      | Some r \<Rightarrow>
          (let r = r\<lparr>ir_InFlight := False, ir_Status := status\<rparr>
           in Some (AList.update k (if length body \<le> maxRecordedBody then r\<lparr>ir_Body := body\<rparr> else r) s)))"

definition IdemAbandon :: "string \<Rightarrow> string \<Rightarrow> idem_store \<Rightarrow> idem_store" where
  "IdemAbandon key tenantID s = AList.delete (idempotencyKey tenantID key) s"

definition IdemSweep :: "instant \<Rightarrow> idem_store \<Rightarrow> idem_store \<times> nat" where
  "IdemSweep now s =
     (let cutoff = now - IdempotencyWindow
      in (filter (\<lambda>(k, r). \<not> ir_CreatedAt r < cutoff) s, length (filter (\<lambda>(k, r). ir_CreatedAt r < cutoff) s)))"

section \<open>What a key stands for\<close>

record IdemLib =
  il_unmarshal :: "string \<Rightarrow> json option"
  il_marshal :: "json \<Rightarrow> string option"
  il_digest :: "string \<Rightarrow> string"

primrec sortedAny :: "json \<Rightarrow> json" where
  "sortedAny (JObject kvs) = JObject (sort_key fst (map (map_prod id sortedAny) kvs))"
| "sortedAny (JArray vs) = JArray (map sortedAny vs)"
| "sortedAny JNull = JNull"
| "sortedAny (JBool b) = JBool b"
| "sortedAny (JNumber n) = JNumber n"
| "sortedAny (JString s) = JString s"

definition canonicalRequestBody :: "IdemLib \<Rightarrow> string \<Rightarrow> string" where
  "canonicalRequestBody L body =
     (case il_unmarshal L body of
        None \<Rightarrow> body
      | Some v \<Rightarrow> (case il_marshal L (sortedAny v) of None \<Rightarrow> body | Some out \<Rightarrow> out))"

record IdemRequest =
  iq_Key :: string
  iq_Tenant :: string
  iq_Method :: string
  iq_Path :: string
  iq_Body :: string
  iq_BodyFails :: bool

definition requestHash :: "IdemLib \<Rightarrow> IdemRequest \<Rightarrow> string" where
  "requestHash L q =
     il_digest L (iq_Method q @ '' '' @ iq_Path q @ [CHR 0x0A] @ canonicalRequestBody L (take 1048576 (iq_Body q)))"

section \<open>The middleware\<close>

datatype idem_answer =
    IdemKeyTooLong
  | IdemUnauthorised
  | IdemUnreadable
  | IdemConflict
  | IdemStillRunning
  | IdemReplayed nat string

datatype idem_entry = IdemAnswer idem_answer | IdemExecute bool

fun idemStatus :: "idem_answer \<Rightarrow> nat" where
  "idemStatus IdemKeyTooLong = 400"
| "idemStatus IdemUnauthorised = 401"
| "idemStatus IdemUnreadable = 400"
| "idemStatus IdemConflict = 409"
| "idemStatus IdemStillRunning = 409"
| "idemStatus (IdemReplayed status body) = status"

text \<open>\<open>IdemExecute\<close> says whether the handler runs under a claimed key.\<close>

definition idemEnter :: "IdemLib \<Rightarrow> instant \<Rightarrow> IdemRequest \<Rightarrow> idem_store \<Rightarrow> idem_store \<times> idem_entry" where
  "idemEnter L now q s =
     (if iq_Key q = [] then (s, IdemExecute False)
      else if length (iq_Key q) > 255 then (s, IdemAnswer IdemKeyTooLong)
      else if iq_Tenant q = [] then (s, IdemAnswer IdemUnauthorised)
      else if iq_BodyFails q then (s, IdemAnswer IdemUnreadable)
      else
        (let hash = requestHash L q in
         case IdemBegin now
                \<lparr>ir_Key = iq_Key q, ir_TenantID = iq_Tenant q, ir_Method = iq_Method q, ir_Path = iq_Path q,
                 ir_RequestHash = hash, ir_Status = 0, ir_Body = [], ir_InFlight = False, ir_CreatedAt = zero_time\<rparr> s of
           (s', Some e) \<Rightarrow>
             (s', IdemAnswer (if ir_RequestHash e \<noteq> hash then IdemConflict
                              else if ir_InFlight e then IdemStillRunning
                              else IdemReplayed (ir_Status e) (ir_Body e)))
         | (s', None) \<Rightarrow> (s', IdemExecute True)))"

text \<open>\<open>recordingWriter\<close>: what is kept of the chunks a handler writes.\<close>

fun recorded :: "string list \<Rightarrow> string \<Rightarrow> string" where
  "recorded [] buf = buf"
| "recorded (b # bs) buf = recorded bs (if length buf + length b \<le> maxRecordedBody then buf @ b else buf)"

definition idemLeave :: "IdemRequest \<Rightarrow> nat \<Rightarrow> string list \<Rightarrow> idem_store \<Rightarrow> idem_store" where
  "idemLeave q status chunks s =
     (if 200 \<le> status \<and> status < 300
      then (case IdemComplete (iq_Key q) (iq_Tenant q) status (recorded chunks []) s of Some s' \<Rightarrow> s' | None \<Rightarrow> s)
      else IdemAbandon (iq_Key q) (iq_Tenant q) s)"

text \<open>A handler that runs to its end without another request in between.\<close>

definition idempotent ::
    "IdemLib \<Rightarrow> instant \<Rightarrow> ('s \<Rightarrow> 's \<times> nat \<times> string list) \<Rightarrow> IdemRequest \<Rightarrow> idem_store \<times> 's \<Rightarrow>
     (idem_store \<times> 's) \<times> (idem_answer + nat \<times> string list)" where
  "idempotent L now next q = (\<lambda>(s, w).
     (case idemEnter L now q s of
        (s', IdemAnswer a) \<Rightarrow> ((s', w), Inl a)
      | (s', IdemExecute claimed) \<Rightarrow>
          (case next w of
             (w', status, chunks) \<Rightarrow>
               ((if claimed then idemLeave q status chunks s' else s', w'), Inr (status, chunks)))))"

section \<open>Canonical bodies\<close>

lemma sortedAny_reorder:
  assumes "keys_distinct kvs" and "mset kvs' = mset kvs"
  shows "sortedAny (JObject kvs') = sortedAny (JObject kvs)"
proof -
  let ?f = "map (map_prod id sortedAny)"
  have "distinct (map fst (?f kvs))" using assms(1) by (simp add: comp_def)
  then have "inj_on fst (set (?f kvs))" by (simp only: distinct_map)
  then have "inj_on fst (set (?f kvs'))" using mset_eq_setD [OF assms(2)] by (simp only: set_map)
  moreover have "mset (?f kvs') = mset (sort_key fst (?f kvs))" using assms(2) by simp
  ultimately have "sort_key fst (?f kvs') = sort_key fst (?f kvs)"
    by (intro sort_key_inj_key_eq) simp_all
  then show ?thesis by simp
qed

end
