(* ===== verification/Idempotency_Spec.thy ===== *)
theory Idempotency_Spec
  imports Idempotency
begin

text \<open>
  What the idempotency key promises when many requests are in flight. The world is the store, the clock and a
  log of every execution the middleware let through under a key; its steps are arrivals, handlers finishing,
  handlers panicking, sweeps and restarts of the process, in any order. The store is in memory, so a restart
  empties it, and the log is that of the present process. A step that finishes a handler is legal while the
  handler is younger than the window: \<open>Complete\<close> and \<open>Abandon\<close> find their record by key alone, and
  \<open>late_failure_frees_key\<close> shows what a handler that outlives its record does.
\<close>

section \<open>Executions\<close>

datatype run_outcome = Running | Succeeded nat string | Abandoned | Panicked

record Execution =
  ex_request :: IdemRequest
  ex_start :: instant
  ex_outcome :: run_outcome

record IdemWorld =
  iw_store :: idem_store
  iw_clock :: instant
  iw_log :: "(nat \<times> Execution) list"

datatype idem_op =
    Arrive nat instant IdemRequest
  | Finish nat instant nat "string list"
  | Panic nat
  | SweepKeys instant
  | Restart instant

definition idem_start :: "instant \<Rightarrow> IdemWorld" where
  "idem_start t = \<lparr>iw_store = [], iw_clock = t, iw_log = []\<rparr>"

definition outcomeOf :: "nat \<Rightarrow> string list \<Rightarrow> run_outcome" where
  "outcomeOf status chunks = (if 200 \<le> status \<and> status < 300 then Succeeded status (recorded chunks []) else Abandoned)"

fun idem_step :: "IdemLib \<Rightarrow> IdemWorld \<Rightarrow> idem_op \<Rightarrow> IdemWorld" where
  "idem_step L w (Arrive rid now q) =
     (case idemEnter L now q (iw_store w) of
        (s, a) \<Rightarrow>
          w\<lparr>iw_store := s, iw_clock := now,
            iw_log := (if a = IdemExecute True
                       then (rid, \<lparr>ex_request = q, ex_start = now, ex_outcome = Running\<rparr>) # iw_log w else iw_log w)\<rparr>)"
| "idem_step L w (Finish rid now status chunks) =
     (case map_of (iw_log w) rid of
        None \<Rightarrow> w
      | Some e \<Rightarrow>
          w\<lparr>iw_store := idemLeave (ex_request e) status chunks (iw_store w), iw_clock := now,
            iw_log := AList.update rid (e\<lparr>ex_outcome := outcomeOf status chunks\<rparr>) (iw_log w)\<rparr>)"
| "idem_step L w (Panic rid) =
     (case map_of (iw_log w) rid of
        None \<Rightarrow> w
      | Some e \<Rightarrow> w\<lparr>iw_log := AList.update rid (e\<lparr>ex_outcome := Panicked\<rparr>) (iw_log w)\<rparr>)"
| "idem_step L w (SweepKeys now) = w\<lparr>iw_store := fst (IdemSweep now (iw_store w)), iw_clock := now\<rparr>"
| "idem_step L w (Restart now) = \<lparr>iw_store = [], iw_clock = now, iw_log = []\<rparr>"

definition running :: "IdemWorld \<Rightarrow> nat \<Rightarrow> bool" where
  "running w rid \<longleftrightarrow> (case map_of (iw_log w) rid of Some e \<Rightarrow> ex_outcome e = Running | None \<Rightarrow> False)"

fun idem_ok :: "IdemWorld \<Rightarrow> idem_op \<Rightarrow> bool" where
  "idem_ok w (Arrive rid now q) \<longleftrightarrow> iw_clock w \<le> now \<and> map_of (iw_log w) rid = None"
| "idem_ok w (Finish rid now status chunks) \<longleftrightarrow>
     iw_clock w \<le> now \<and> running w rid
     \<and> (case map_of (iw_log w) rid of Some e \<Rightarrow> now - ex_start e < IdempotencyWindow | None \<Rightarrow> False)"
| "idem_ok w (Panic rid) \<longleftrightarrow> running w rid"
| "idem_ok w (SweepKeys now) \<longleftrightarrow> iw_clock w \<le> now"
| "idem_ok w (Restart now) \<longleftrightarrow> iw_clock w \<le> now"

section \<open>The invariant\<close>

abbreviation keyOf :: "IdemRequest \<Rightarrow> string" where
  "keyOf q \<equiv> idempotencyKey (iq_Tenant q) (iq_Key q)"

definition holding :: "instant \<Rightarrow> Execution \<Rightarrow> bool" where
  "holding now e \<longleftrightarrow> ex_outcome e \<noteq> Abandoned \<and> now - ex_start e < IdempotencyWindow"

definition mirrors :: "IdemLib \<Rightarrow> Execution \<Rightarrow> IdemRecord \<Rightarrow> bool" where
  "mirrors L e r \<longleftrightarrow> ir_CreatedAt r = ex_start e \<and> ir_RequestHash r = requestHash L (ex_request e)
     \<and> (case ex_outcome e of
          Succeeded status body \<Rightarrow> \<not> ir_InFlight r \<and> ir_Status r = status \<and> ir_Body r = body
        | _ \<Rightarrow> ir_InFlight r)"

definition idem_inv :: "IdemLib \<Rightarrow> IdemWorld \<Rightarrow> bool" where
  "idem_inv L w \<longleftrightarrow> keys_distinct (iw_log w) \<and> keys_distinct (iw_store w)
     \<and> (\<forall>rid e. map_of (iw_log w) rid = Some e \<longrightarrow> ex_start e \<le> iw_clock w)
     \<and> (\<forall>rid e. map_of (iw_log w) rid = Some e \<and> holding (iw_clock w) e \<longrightarrow>
          (\<exists>r. map_of (iw_store w) (keyOf (ex_request e)) = Some r \<and> mirrors L e r))
     \<and> (\<forall>i j e f. map_of (iw_log w) i = Some e \<and> map_of (iw_log w) j = Some f \<and> holding (iw_clock w) e
          \<and> holding (iw_clock w) f \<and> keyOf (ex_request e) = keyOf (ex_request f) \<longrightarrow> i = j)"

lemma holding_antimono: "holding now' e \<Longrightarrow> now \<le> now' \<Longrightarrow> holding now e"
  by (auto simp: holding_def)

lemma window_bounds: "0 < IdempotencyWindow" "IdempotencyWindow < max_int64"
  by (simp_all add: IdempotencyWindow_def hour_def minute_def second_def max_int64_def)

lemma time_sub_window: "time_sub a b < IdempotencyWindow \<longleftrightarrow> a - b < IdempotencyWindow"
  using window_bounds by (auto simp: time_sub_def min_int64_def)

lemma length_recorded: "length buf \<le> maxRecordedBody \<Longrightarrow> length (recorded cs buf) \<le> maxRecordedBody"
  by (induction cs buf rule: recorded.induct) auto

lemma idemEnter_cases:
  obtains (answered) a where "idemEnter L now q s = (s, IdemAnswer a)"
  | (unkeyed) "idemEnter L now q s = (s, IdemExecute False)"
  | (claimed) s' r where "idemEnter L now q s = (s', IdemExecute True)"
      "map_of s (keyOf q) = None \<or> (\<exists>e. map_of s (keyOf q) = Some e \<and> \<not> now - ir_CreatedAt e < IdempotencyWindow)"
      "map_of s' = (map_of s)(keyOf q \<mapsto> r)" "keys_distinct s \<Longrightarrow> keys_distinct s'"
      "ir_CreatedAt r = now" "ir_RequestHash r = requestHash L q" "ir_InFlight r"
proof -
  consider "iq_Key q = [] \<or> length (iq_Key q) > 255 \<or> iq_Tenant q = [] \<or> iq_BodyFails q"
    | "iq_Key q \<noteq> []" "\<not> length (iq_Key q) > 255" "iq_Tenant q \<noteq> []" "\<not> iq_BodyFails q" by blast
  then show thesis
  proof cases
    case 1
    show thesis
    proof (cases "iq_Key q = []")
      case True
      then show thesis by (intro unkeyed) (simp add: idemEnter_def)
    next
      case False
      with 1 have "\<exists>a. idemEnter L now q s = (s, IdemAnswer a)" by (auto simp: idemEnter_def)
      then show thesis using answered by blast
    qed
  next
    case 2
    show thesis
    proof (cases "\<exists>e. map_of s (keyOf q) = Some e \<and> now - ir_CreatedAt e < IdempotencyWindow")
      case True
      with 2 have "\<exists>a. idemEnter L now q s = (s, IdemAnswer a)"
        by (auto simp: idemEnter_def IdemBegin_def Let_def time_sub_window)
      then show thesis using answered by blast
    next
      case False
      with 2 show thesis
        by (cases "map_of s (keyOf q)")
           (auto intro!: claimed simp: idemEnter_def IdemBegin_def Let_def time_sub_window)
    qed
  qed
qed

lemma idem_inv_start: "idem_inv L (idem_start t)"
  by (simp add: idem_inv_def idem_start_def)

lemma inv_log:
  assumes "idem_inv L w" and "map_of (iw_log w) rid = Some e" and "holding (iw_clock w) e"
  obtains r where "map_of (iw_store w) (keyOf (ex_request e)) = Some r" "mirrors L e r"
  using assms unfolding idem_inv_def by blast

lemma inv_log_ex:
  "idem_inv L w \<Longrightarrow> map_of (iw_log w) rid = Some e \<Longrightarrow> holding (iw_clock w) e \<Longrightarrow>
   \<exists>r. map_of (iw_store w) (keyOf (ex_request e)) = Some r \<and> mirrors L e r"
  by (erule (2) inv_log) blast

lemma unique_insert:
  assumes "\<And>i j e f. m i = Some e \<Longrightarrow> m j = Some f \<Longrightarrow> H e \<Longrightarrow> H f \<Longrightarrow> K e = K f \<Longrightarrow> i = j"
    and "\<And>i f. i \<noteq> a \<Longrightarrow> m i = Some f \<Longrightarrow> H f \<Longrightarrow> K f \<noteq> K x"
    and "(m(a \<mapsto> x)) i = Some e" "(m(a \<mapsto> x)) j = Some f" "H e" "H f" "K e = K f"
  shows "i = j"
proof (cases "i = a \<or> j = a")
  case True
  with assms(2) [of i e] assms(2) [of j f] assms(3-) show ?thesis by (auto split: if_splits)
next
  case False
  with assms(1) [of i e j f] assms(3-) show ?thesis by simp
qed

lemma inv_unique:
  assumes "idem_inv L w" and "map_of (iw_log w) i = Some e" "map_of (iw_log w) j = Some f"
    and "holding (iw_clock w) e" "holding (iw_clock w) f" "keyOf (ex_request e) = keyOf (ex_request f)"
  shows "i = j"
  using assms unfolding idem_inv_def by blast

lemma no_holder:
  assumes inv: "idem_inv L w" and now: "iw_clock w \<le> now"
    and free: "map_of (iw_store w) k = None
      \<or> (\<exists>e. map_of (iw_store w) k = Some e \<and> \<not> now - ir_CreatedAt e < IdempotencyWindow)"
    and f: "map_of (iw_log w) i = Some f" "holding now f"
  shows "keyOf (ex_request f) \<noteq> k"
proof
  assume k: "keyOf (ex_request f) = k"
  have "holding (iw_clock w) f" by (rule holding_antimono [OF f(2) now])
  from inv_log [OF inv f(1) this] obtain r where "map_of (iw_store w) k = Some r" "mirrors L f r" using k by metis
  with free f(2) show False by (auto simp: mirrors_def holding_def)
qed

lemma inv_clock:
  assumes inv: "idem_inv L w" and now: "iw_clock w \<le> now"
  shows "idem_inv L (w\<lparr>iw_clock := now\<rparr>)"
proof -
  have keep: "holding (iw_clock w) e" if "holding now e" for e using that now by (rule holding_antimono)
  show ?thesis
    unfolding idem_inv_def
  proof (intro conjI allI impI, goal_cases)
    case (3 i f) then show ?case using inv now by (fastforce simp: idem_inv_def)
  next
    case (4 i f) then show ?case using inv_log_ex [OF inv, of i f] keep by simp
  next
    case (5 i j f g) then show ?case using inv_unique [OF inv, of i f j g] keep by simp
  qed (use inv in \<open>simp_all add: idem_inv_def\<close>)
qed

lemma step_Arrive:
  assumes inv: "idem_inv L w" and ok: "idem_ok w (Arrive rid now q)"
  shows "idem_inv L (idem_step L w (Arrive rid now q))"
proof -
  have now: "iw_clock w \<le> now" and fresh: "map_of (iw_log w) rid = None" using ok by auto
  have keep: "holding (iw_clock w) e" if "holding now e" for e using that now by (rule holding_antimono)
  have unique: "i = j" if "map_of (iw_log w) i = Some e" "map_of (iw_log w) j = Some f" "holding now e" "holding now f"
      "keyOf (ex_request e) = keyOf (ex_request f)" for i j e f
    by (rule inv_unique [OF inv that(1,2) keep [OF that(3)] keep [OF that(4)] that(5)])
  show ?thesis
  proof (cases rule: idemEnter_cases [of L now q "iw_store w"])
    case (answered a)
    then have "idem_step L w (Arrive rid now q) = w\<lparr>iw_clock := now\<rparr>" by (cases w) simp
    with inv_clock [OF inv now] show ?thesis by simp
  next
    case unkeyed
    then have "idem_step L w (Arrive rid now q) = w\<lparr>iw_clock := now\<rparr>" by (cases w) simp
    with inv_clock [OF inv now] show ?thesis by simp
  next
    case (claimed s r)
    let ?e = "\<lparr>ex_request = q, ex_start = now, ex_outcome = Running\<rparr>"
    have w': "idem_step L w (Arrive rid now q) = w\<lparr>iw_store := s, iw_clock := now, iw_log := (rid, ?e) # iw_log w\<rparr>"
      using claimed(1) by simp
    have other: "keyOf (ex_request f) \<noteq> keyOf q" if "map_of (iw_log w) i = Some f" "holding now f" for i f
      using no_holder [OF inv now claimed(2) that] .
    have m: "mirrors L ?e r" using claimed by (simp add: mirrors_def)
    have old: "\<exists>r. map_of s (keyOf (ex_request f)) = Some r \<and> mirrors L f r"
      if "map_of (iw_log w) i = Some f" "holding now f" for i f
      using inv_log [OF inv that(1) keep [OF that(2)]] other [OF that] by (metis claimed(3) fun_upd_other)
    show ?thesis
      unfolding w' idem_inv_def
    proof (intro conjI allI impI, goal_cases)
      case 1 then show ?case using inv fresh by (simp add: idem_inv_def map_of_eq_None_iff)
    next
      case 2 then show ?case using inv claimed(4) by (simp add: idem_inv_def)
    next
      case (3 i f) then show ?case using inv now by (fastforce simp: idem_inv_def split: if_splits)
    next
      case (4 i f)
      then show ?case using old [of i f] m claimed(3) by (cases "i = rid") auto
    next
      case (5 i j f g)
      have o': "keyOf (ex_request f) \<noteq> keyOf (ex_request ?e)"
        if "i \<noteq> rid" "map_of (iw_log w) i = Some f" "holding now f" for i f using other [OF that(2,3)] by simp
      from 5 have a: "((map_of (iw_log w))(rid \<mapsto> ?e)) i = Some f" "((map_of (iw_log w))(rid \<mapsto> ?e)) j = Some g"
        "holding now f" "holding now g" "keyOf (ex_request f) = keyOf (ex_request g)" by simp_all
      show ?case by (rule unique_insert [OF _ _ a]) ((rule unique; assumption) | (rule o'; assumption))+
    qed
  qed
qed

lemma idemLeave_store:
  assumes "map_of s (keyOf q) = Some r"
  shows "map_of (idemLeave q status chunks s) =
     (if 200 \<le> status \<and> status < 300
      then (map_of s)(keyOf q \<mapsto> r\<lparr>ir_InFlight := False, ir_Status := status, ir_Body := recorded chunks []\<rparr>)
      else (map_of s)(keyOf q := None))"
  using assms length_recorded [of "[]" chunks]
  by (simp add: idemLeave_def IdemComplete_def IdemAbandon_def Let_def)

lemma idemLeave_distinct: "keys_distinct s \<Longrightarrow> keys_distinct (idemLeave q status chunks s)"
  by (auto simp: idemLeave_def IdemComplete_def IdemAbandon_def Let_def split: option.split)

lemma step_Finish:
  assumes inv: "idem_inv L w" and ok: "idem_ok w (Finish rid now status chunks)"
  shows "idem_inv L (idem_step L w (Finish rid now status chunks))"
proof -
  from ok obtain e where e: "map_of (iw_log w) rid = Some e" "ex_outcome e = Running"
      "now - ex_start e < IdempotencyWindow" and now: "iw_clock w \<le> now"
    by (auto simp: running_def split: option.splits)
  have keep: "holding (iw_clock w) f" if "holding now f" for f using that now by (rule holding_antimono)
  have unique: "i = j" if "map_of (iw_log w) i = Some e" "map_of (iw_log w) j = Some f" "holding now e" "holding now f"
      "keyOf (ex_request e) = keyOf (ex_request f)" for i j e f
    by (rule inv_unique [OF inv that(1,2) keep [OF that(3)] keep [OF that(4)] that(5)])
  have h: "holding now e" using e by (simp add: holding_def)
  from inv_log [OF inv e(1) keep [OF h]] obtain r where r: "map_of (iw_store w) (keyOf (ex_request e)) = Some r" "mirrors L e r" .
  let ?e = "e\<lparr>ex_outcome := outcomeOf status chunks\<rparr>"
  let ?s = "idemLeave (ex_request e) status chunks (iw_store w)"
  have w': "idem_step L w (Finish rid now status chunks)
      = w\<lparr>iw_store := ?s, iw_clock := now, iw_log := AList.update rid ?e (iw_log w)\<rparr>" using e(1) by simp
  note s = idemLeave_store [OF r(1), of status chunks]
  have other: "keyOf (ex_request f) \<noteq> keyOf (ex_request e)"
    if "map_of (iw_log w) i = Some f" "holding now f" "i \<noteq> rid" for i f
    using inv_unique [OF inv that(1) e(1) keep [OF that(2)] keep [OF h]] that(3) by blast
  have old: "\<exists>r. map_of ?s (keyOf (ex_request f)) = Some r \<and> mirrors L f r"
    if "map_of (iw_log w) i = Some f" "holding now f" "i \<noteq> rid" for i f
    using inv_log [OF inv that(1) keep [OF that(2)]] other [OF that] by (metis s fun_upd_other)
  have new: "\<exists>r. map_of ?s (keyOf (ex_request ?e)) = Some r \<and> mirrors L ?e r" if "holding now ?e"
    using that r(2) by (cases "200 \<le> status \<and> status < 300") (auto simp: s outcomeOf_def holding_def mirrors_def e(2))
  show ?thesis
    unfolding w' idem_inv_def
  proof (intro conjI allI impI, goal_cases)
    case 1 then show ?case using inv by (simp add: idem_inv_def)
  next
    case 2 then show ?case using inv by (simp add: idem_inv_def idemLeave_distinct)
  next
    case (3 i f) then show ?case using inv now e by (fastforce simp: idem_inv_def split: if_splits)
  next
    case (4 i f) then show ?case using old new by (cases "i = rid") auto
  next
    case (5 i j f g)
    have o': "keyOf (ex_request f) \<noteq> keyOf (ex_request ?e)"
      if "i \<noteq> rid" "map_of (iw_log w) i = Some f" "holding now f" for i f using other [OF that(2,3,1)] by simp
    from 5 have a: "((map_of (iw_log w))(rid \<mapsto> ?e)) i = Some f" "((map_of (iw_log w))(rid \<mapsto> ?e)) j = Some g"
      "holding now f" "holding now g" "keyOf (ex_request f) = keyOf (ex_request g)" by simp_all
    show ?case by (rule unique_insert [OF _ _ a]) ((rule unique; assumption) | (rule o'; assumption))+
  qed
qed

lemma step_Panic:
  assumes inv: "idem_inv L w" and ok: "idem_ok w (Panic rid)"
  shows "idem_inv L (idem_step L w (Panic rid))"
proof -
  from ok obtain e where e: "map_of (iw_log w) rid = Some e" "ex_outcome e = Running"
    by (auto simp: running_def split: option.splits)
  let ?e = "e\<lparr>ex_outcome := Panicked\<rparr>"
  have h: "holding t ?e = holding t e" for t by (simp add: holding_def e)
  have m: "mirrors L ?e r = mirrors L e r" for r by (simp add: mirrors_def e)
  have k: "ex_request ?e = ex_request e" "ex_start ?e = ex_start e" by simp_all
  have w': "idem_step L w (Panic rid) = w\<lparr>iw_log := AList.update rid ?e (iw_log w)\<rparr>" using e(1) by simp
  show ?thesis
    unfolding w' idem_inv_def
  proof (intro conjI allI impI, goal_cases)
    case (3 i f) then show ?case using inv e(1) by (fastforce simp: idem_inv_def split: if_splits)
  next
    case (4 i f) then show ?case using inv_log_ex [OF inv, of i] inv_log_ex [OF inv e(1)] e(1) h m k by (cases "i = rid") auto
  next
    case (5 i j f g)
    then show ?case using inv_unique [OF inv, of i _ j _] e(1) h k by (cases "i = rid"; cases "j = rid") auto
  qed (use inv in \<open>simp_all add: idem_inv_def\<close>)
qed

lemma IdemSweep_keeps:
  "keys_distinct s \<Longrightarrow> map_of s k = Some r \<Longrightarrow> \<not> ir_CreatedAt r < now - IdempotencyWindow \<Longrightarrow>
   map_of (fst (IdemSweep now s)) k = Some r"
  by (auto simp: IdemSweep_def Let_def in_set_map_of [symmetric] distinct_map_filter)

lemma step_Sweep:
  assumes inv: "idem_inv L w" and ok: "idem_ok w (SweepKeys now)"
  shows "idem_inv L (idem_step L w (SweepKeys now))"
proof -
  have now: "iw_clock w \<le> now" using ok by simp
  have keep: "holding (iw_clock w) f" if "holding now f" for f using that now by (rule holding_antimono)
  have d: "keys_distinct (iw_store w)" using inv by (simp add: idem_inv_def)
  have st: "\<exists>r. map_of (fst (IdemSweep now (iw_store w))) (keyOf (ex_request f)) = Some r \<and> mirrors L f r"
    if "map_of (iw_log w) i = Some f" "holding now f" for i f
  proof -
    from inv_log [OF inv that(1) keep [OF that(2)]] obtain r
      where r: "map_of (iw_store w) (keyOf (ex_request f)) = Some r" "mirrors L f r" .
    with that(2) have "\<not> ir_CreatedAt r < now - IdempotencyWindow" by (simp add: mirrors_def holding_def)
    with IdemSweep_keeps [OF d r(1)] r(2) show ?thesis by blast
  qed
  show ?thesis
    unfolding idem_inv_def idem_step.simps
  proof (intro conjI allI impI, goal_cases)
    case 2 then show ?case using d by (simp add: IdemSweep_def Let_def distinct_map_filter)
  next
    case (3 i f) then show ?case using inv now by (fastforce simp: idem_inv_def)
  next
    case (4 i f)
    then have "map_of (iw_log w) i = Some f" "holding now f" by simp_all
    from st [OF this] show ?case by simp
  next
    case (5 i j f g) then show ?case using inv_unique [OF inv, of i f j g] keep by simp
  qed (use inv in \<open>simp add: idem_inv_def\<close>)
qed

lemma step_Restart: "idem_inv L (idem_step L w (Restart now))"
  by (simp add: idem_inv_def)

interpretation idem: machine "idem_step L" idem_ok "idem_inv L" for L
proof
  fix w x
  assume "idem_inv L w" "idem_ok w x"
  then show "idem_inv L (idem_step L w x)"
    by (cases x) (blast intro: step_Arrive step_Finish step_Panic step_Sweep step_Restart)+
qed

text \<open>
  The other direction: every record is the trace of an execution that kept its key, and executions that kept
  the same key began at least a window apart.
\<close>

definition backed :: "IdemLib \<Rightarrow> IdemWorld \<Rightarrow> bool" where
  "backed L w \<longleftrightarrow>
     (\<forall>k r. map_of (iw_store w) k = Some r \<longrightarrow>
        (\<exists>i e. map_of (iw_log w) i = Some e \<and> ex_outcome e \<noteq> Abandoned \<and> keyOf (ex_request e) = k
           \<and> ir_CreatedAt r = ex_start e))
     \<and> (\<forall>i j e f. map_of (iw_log w) i = Some e \<and> map_of (iw_log w) j = Some f \<and> i \<noteq> j
          \<and> ex_outcome e \<noteq> Abandoned \<and> ex_outcome f \<noteq> Abandoned
          \<and> keyOf (ex_request e) = keyOf (ex_request f) \<longrightarrow> IdempotencyWindow \<le> \<bar>ex_start e - ex_start f\<bar>)"

lemma backedD:
  assumes "backed L w"
  shows "map_of (iw_store w) k = Some r \<Longrightarrow>
      \<exists>i e. map_of (iw_log w) i = Some e \<and> ex_outcome e \<noteq> Abandoned \<and> keyOf (ex_request e) = k
        \<and> ir_CreatedAt r = ex_start e"
    and "map_of (iw_log w) i = Some e \<Longrightarrow> map_of (iw_log w) j = Some f \<Longrightarrow> i \<noteq> j \<Longrightarrow> ex_outcome e \<noteq> Abandoned \<Longrightarrow>
      ex_outcome f \<noteq> Abandoned \<Longrightarrow> keyOf (ex_request e) = keyOf (ex_request f) \<Longrightarrow>
      IdempotencyWindow \<le> \<bar>ex_start e - ex_start f\<bar>"
  using assms unfolding backed_def by blast+

lemma backed_clock: "backed L (w\<lparr>iw_clock := now\<rparr>) = backed L w"
  by (simp add: backed_def)

lemma backed_Arrive:
  assumes inv: "idem_inv L w" and b: "backed L w" and ok: "idem_ok w (Arrive rid now q)"
  shows "backed L (idem_step L w (Arrive rid now q))"
proof (cases rule: idemEnter_cases [of L now q "iw_store w"])
  case (answered a)
  then have "idem_step L w (Arrive rid now q) = w\<lparr>iw_clock := now\<rparr>" by (cases w) simp
  with b show ?thesis by (simp add: backed_clock)
next
  case unkeyed
  then have "idem_step L w (Arrive rid now q) = w\<lparr>iw_clock := now\<rparr>" by (cases w) simp
  with b show ?thesis by (simp add: backed_clock)
next
  case (claimed s r)
  let ?e = "\<lparr>ex_request = q, ex_start = now, ex_outcome = Running\<rparr>"
  have now: "iw_clock w \<le> now" and fresh: "map_of (iw_log w) rid = None" using ok by auto
  have w': "idem_step L w (Arrive rid now q) = w\<lparr>iw_store := s, iw_clock := now, iw_log := (rid, ?e) # iw_log w\<rparr>"
    using claimed(1) by simp
  have far: "IdempotencyWindow \<le> now - ex_start f"
    if "map_of (iw_log w) i = Some f" "ex_outcome f \<noteq> Abandoned" "keyOf (ex_request f) = keyOf q" for i f
    using no_holder [OF inv now claimed(2) that(1)] that(2,3) by (fastforce simp: holding_def not_less)
  show ?thesis
    unfolding w' backed_def
  proof (intro conjI allI impI, goal_cases)
    case (1 k x)
    show ?case
    proof (cases "k = keyOf q")
      case True
      with 1 claimed(3,5) show ?thesis by (intro exI [of _ rid] exI [of _ ?e]) simp
    next
      case False
      with 1 claimed(3) have "map_of (iw_store w) k = Some x" by simp
      from backedD(1) [OF b this] obtain i e where "map_of (iw_log w) i = Some e" "ex_outcome e \<noteq> Abandoned"
        "keyOf (ex_request e) = k" "ir_CreatedAt x = ex_start e" by blast
      with fresh show ?thesis by (intro exI [of _ i] exI [of _ e]) auto
    qed
  next
    case (2 i j e f)
    then show ?case
      using backedD(2) [OF b, of i e j f] far [of i e] far [of j f] by (auto split: if_splits)
  qed
qed

lemma backed_log:
  assumes "backed L w" and "map_of (iw_log w) rid = Some e" and "ex_outcome e = Running"
    and "\<And>k r. map_of s k = Some r \<Longrightarrow>
      \<exists>i f. map_of (AList.update rid (e\<lparr>ex_outcome := out\<rparr>) (iw_log w)) i = Some f \<and> ex_outcome f \<noteq> Abandoned
        \<and> keyOf (ex_request f) = k \<and> ir_CreatedAt r = ex_start f"
  shows "backed L (w\<lparr>iw_store := s, iw_clock := now, iw_log := AList.update rid (e\<lparr>ex_outcome := out\<rparr>) (iw_log w)\<rparr>)"
  unfolding backed_def
proof (intro conjI allI impI, goal_cases)
  case (1 k r) then show ?case using assms(4) by simp
next
  case (2 i j f g)
  then show ?case
    using backedD(2) [OF assms(1), of i _ j _] assms(2,3) by (auto split: if_splits)
qed

lemma backed_Finish:
  assumes inv: "idem_inv L w" and b: "backed L w" and ok: "idem_ok w (Finish rid now status chunks)"
  shows "backed L (idem_step L w (Finish rid now status chunks))"
proof -
  from ok obtain e where e: "map_of (iw_log w) rid = Some e" "ex_outcome e = Running"
      "now - ex_start e < IdempotencyWindow" and now: "iw_clock w \<le> now"
    by (auto simp: running_def split: option.splits)
  from e now have "holding (iw_clock w) e" by (simp add: holding_def)
  from inv_log [OF inv e(1) this] obtain r
    where r: "map_of (iw_store w) (keyOf (ex_request e)) = Some r" "mirrors L e r" .
  note s = idemLeave_store [OF r(1), of status chunks]
  have "backed L (w\<lparr>iw_store := idemLeave (ex_request e) status chunks (iw_store w), iw_clock := now,
          iw_log := AList.update rid (e\<lparr>ex_outcome := outcomeOf status chunks\<rparr>) (iw_log w)\<rparr>)"
  proof (rule backed_log [OF b e(1,2)])
    fix k x
    assume x: "map_of (idemLeave (ex_request e) status chunks (iw_store w)) k = Some x"
    show "\<exists>i f. map_of (AList.update rid (e\<lparr>ex_outcome := outcomeOf status chunks\<rparr>) (iw_log w)) i = Some f
        \<and> ex_outcome f \<noteq> Abandoned \<and> keyOf (ex_request f) = k \<and> ir_CreatedAt x = ex_start f"
    proof (cases "k = keyOf (ex_request e)")
      case True
      with x r(2) show ?thesis
        by (intro exI [of _ rid]) (auto simp: s outcomeOf_def mirrors_def split: if_splits)
    next
      case False
      with x have "map_of (iw_store w) k = Some x" by (simp add: s split: if_splits)
      from backedD(1) [OF b this] obtain i f where f: "map_of (iw_log w) i = Some f" "ex_outcome f \<noteq> Abandoned"
        "keyOf (ex_request f) = k" "ir_CreatedAt x = ex_start f" by blast
      with False e(1) have "i \<noteq> rid" by auto
      with f show ?thesis by (intro exI [of _ i] exI [of _ f]) simp
    qed
  qed
  with e(1) show ?thesis by simp
qed

lemma backed_Panic:
  assumes b: "backed L w" and ok: "idem_ok w (Panic rid)"
  shows "backed L (idem_step L w (Panic rid))"
proof -
  from ok obtain e where e: "map_of (iw_log w) rid = Some e" "ex_outcome e = Running"
    by (auto simp: running_def split: option.splits)
  have "backed L (w\<lparr>iw_store := iw_store w, iw_clock := iw_clock w,
          iw_log := AList.update rid (e\<lparr>ex_outcome := Panicked\<rparr>) (iw_log w)\<rparr>)"
  proof (rule backed_log [OF b e])
    fix k r
    assume "map_of (iw_store w) k = Some r"
    from backedD(1) [OF b this] obtain i f where f: "map_of (iw_log w) i = Some f" "ex_outcome f \<noteq> Abandoned"
      "keyOf (ex_request f) = k" "ir_CreatedAt r = ex_start f" by blast
    with e(1) show "\<exists>i f. map_of (AList.update rid (e\<lparr>ex_outcome := Panicked\<rparr>) (iw_log w)) i = Some f
        \<and> ex_outcome f \<noteq> Abandoned \<and> keyOf (ex_request f) = k \<and> ir_CreatedAt r = ex_start f"
      by (intro exI [of _ i]) auto
  qed
  with e(1) show ?thesis by simp
qed

lemma backed_Sweep:
  assumes inv: "idem_inv L w" and b: "backed L w"
  shows "backed L (idem_step L w (SweepKeys now))"
proof -
  have d: "keys_distinct (iw_store w)" using inv by (simp add: idem_inv_def)
  have "map_of (iw_store w) k = Some r" if "map_of (fst (IdemSweep now (iw_store w))) k = Some r" for k r
    using map_of_SomeD [OF that] d by (auto simp: IdemSweep_def Let_def)
  note sub = this
  show ?thesis
    unfolding backed_def idem_step.simps
  proof (intro conjI allI impI, goal_cases)
    case (1 k r) then show ?case using backedD(1) [OF b sub, of k r] by simp
  next
    case (2 i j e f) then show ?case using backedD(2) [OF b, of i e j f] by simp
  qed
qed

interpretation idem2: machine "idem_step L" idem_ok "\<lambda>w. idem_inv L w \<and> backed L w" for L
proof
  fix w x
  assume a: "idem_inv L w \<and> backed L w" and ok: "idem_ok w x"
  have "backed L (idem_step L w x)"
    using a ok by (cases x) (auto simp del: idem_step.simps idem_ok.simps
        intro: backed_Arrive backed_Finish backed_Panic backed_Sweep, simp add: backed_def)
  with idem.step_inv [OF conjunct1 [OF a] ok] show "idem_inv L (idem_step L w x) \<and> backed L (idem_step L w x)" ..
qed

section \<open>At most once, and replayed\<close>

lemma idemEnter_known:
  assumes "iq_Key q \<noteq> []" "length (iq_Key q) \<le> 255" "iq_Tenant q \<noteq> []" "\<not> iq_BodyFails q"
    and "map_of s (keyOf q) = Some r" and "now - ir_CreatedAt r < IdempotencyWindow"
  shows "idemEnter L now q s =
    (s, IdemAnswer (if ir_RequestHash r \<noteq> requestHash L q then IdemConflict
                    else if ir_InFlight r then IdemStillRunning else IdemReplayed (ir_Status r) (ir_Body r)))"
  using assms by (simp add: idemEnter_def IdemBegin_def Let_def time_sub_window)

lemma execution_answers:
  assumes "legal idem_ok (idem_step L) (idem_start t) xs" and "w = foldl (idem_step L) (idem_start t) xs"
    and "(i, e) \<in> set (iw_log w)" and "iw_clock w \<le> now" and "holding now e" and "keyOf q = keyOf (ex_request e)"
    and "iq_Key q \<noteq> []" "length (iq_Key q) \<le> 255" "iq_Tenant q \<noteq> []" "\<not> iq_BodyFails q"
  shows "snd (idemEnter L now q (iw_store w)) =
     IdemAnswer (if requestHash L (ex_request e) \<noteq> requestHash L q then IdemConflict
                 else case ex_outcome e of Succeeded status body \<Rightarrow> IdemReplayed status body | _ \<Rightarrow> IdemStillRunning)"
proof -
  have inv: "idem_inv L w" using idem.run_inv [OF idem_inv_start assms(1)] assms(2) by simp
  have e: "map_of (iw_log w) i = Some e" using inv assms(3) by (simp add: idem_inv_def in_set_map_of [symmetric])
  from inv_log [OF inv e holding_antimono [OF assms(5,4)]] obtain r
    where r: "map_of (iw_store w) (keyOf q) = Some r" "mirrors L e r" using assms(6) by metis
  then have "now - ir_CreatedAt r < IdempotencyWindow" using assms(5) by (simp add: mirrors_def holding_def)
  from idemEnter_known [OF assms(7-10) r(1) this] r(2) show ?thesis
    by (cases "ex_outcome e") (auto simp: mirrors_def)
qed

lemma idemEnter_executes:
  assumes "iq_Key q \<noteq> []" "length (iq_Key q) \<le> 255" "iq_Tenant q \<noteq> []" "\<not> iq_BodyFails q"
    and "\<And>r. map_of s (keyOf q) = Some r \<Longrightarrow> \<not> now - ir_CreatedAt r < IdempotencyWindow"
  shows "snd (idemEnter L now q s) = IdemExecute True"
  using assms by (cases "map_of s (keyOf q)") (auto simp: idemEnter_def IdemBegin_def Let_def time_sub_window)

text \<open>
  C8: A management write that keeps its key runs at most once per key and window within one process. The
  handlers are those that finish within the window; they are interleaved in any way with arrivals, panics,
  sweeps and restarts. Executions under a key that are running, panicked or answered with a success began at
  least a day apart. A request with a key runs its handler exactly when no such execution began in the day
  before; otherwise it is answered without running: with the recorded status and body when the original
  succeeded, with a conflict when it asks for something else or the original has not finished. An execution
  answered with a failure gives its key back, and a restart forgets all keys: then the write runs again.
\<close>

theorem idempotent_at_most_once:
  assumes "legal idem_ok (idem_step L) (idem_start t) xs" and "w = foldl (idem_step L) (idem_start t) xs"
    and "iw_clock w \<le> now"
    and "iq_Key q \<noteq> []" "length (iq_Key q) \<le> 255" "iq_Tenant q \<noteq> []" "\<not> iq_BodyFails q"
    and "kept = (\<lambda>e. ex_outcome e \<noteq> Abandoned
      \<and> idempotencyKey (iq_Tenant (ex_request e)) (iq_Key (ex_request e)) = idempotencyKey (iq_Tenant q) (iq_Key q))"
  shows "(\<forall>(i, e) \<in> set (iw_log w). \<forall>(j, f) \<in> set (iw_log w). i \<noteq> j \<and> kept e \<and> kept f \<longrightarrow>
            IdempotencyWindow \<le> \<bar>ex_start e - ex_start f\<bar>)
    \<and> (snd (idemEnter L now q (iw_store w)) = IdemExecute True \<longleftrightarrow>
         \<not> (\<exists>(i, e) \<in> set (iw_log w). kept e \<and> now - ex_start e < IdempotencyWindow))
    \<and> (\<forall>(i, e) \<in> set (iw_log w). kept e \<and> now - ex_start e < IdempotencyWindow \<longrightarrow>
         snd (idemEnter L now q (iw_store w)) =
           IdemAnswer (if requestHash L (ex_request e) \<noteq> requestHash L q then IdemConflict
             else case ex_outcome e of Succeeded status body \<Rightarrow> IdemReplayed status body | _ \<Rightarrow> IdemStillRunning))"
proof -
  have inv: "idem_inv L w" and b: "backed L w"
    using idem2.run_inv [of L "idem_start t" xs] assms(1,2) idem_inv_start by (auto simp: backed_def idem_start_def)
  have look: "map_of (iw_log w) i = Some e \<longleftrightarrow> (i, e) \<in> set (iw_log w)" for i e
    using inv by (simp add: idem_inv_def)
  have spaced: "IdempotencyWindow \<le> \<bar>ex_start e - ex_start f\<bar>"
    if "(i, e) \<in> set (iw_log w)" "(j, f) \<in> set (iw_log w)" "i \<noteq> j" "kept e" "kept f" for i e j f
    using backedD(2) [OF b, of i e j f] that by (simp add: look assms(8))
  have known: "snd (idemEnter L now q (iw_store w)) =
      IdemAnswer (if requestHash L (ex_request e) \<noteq> requestHash L q then IdemConflict
        else case ex_outcome e of Succeeded status body \<Rightarrow> IdemReplayed status body | _ \<Rightarrow> IdemStillRunning)"
    if "(i, e) \<in> set (iw_log w)" "kept e" "now - ex_start e < IdempotencyWindow" for i e
    using execution_answers [OF assms(1,2) that(1) assms(3) _ _ assms(4-7)] that(2,3)
    by (simp add: holding_def assms(8))
  have runs: "snd (idemEnter L now q (iw_store w)) = IdemExecute True"
    if "\<forall>(i, e) \<in> set (iw_log w). \<not> (kept e \<and> now - ex_start e < IdempotencyWindow)"
  proof (rule idemEnter_executes [OF assms(4-7)])
    fix r
    assume "map_of (iw_store w) (keyOf q) = Some r"
    from backedD(1) [OF b this] obtain i e where "(i, e) \<in> set (iw_log w)" "ex_outcome e \<noteq> Abandoned"
      "keyOf (ex_request e) = keyOf q" "ir_CreatedAt r = ex_start e" unfolding look by blast
    with that show "\<not> now - ir_CreatedAt r < IdempotencyWindow" by (auto simp: assms(8))
  qed
  have "snd (idemEnter L now q (iw_store w)) = IdemExecute True \<longleftrightarrow>
      \<not> (\<exists>(i, e) \<in> set (iw_log w). kept e \<and> now - ex_start e < IdempotencyWindow)"
    using runs known by fastforce
  then show ?thesis using spaced known by (intro conjI) blast+
qed

definition plainIdem :: IdemLib where
  "plainIdem = \<lparr>il_unmarshal = (\<lambda>_. None), il_marshal = (\<lambda>_. None), il_digest = id\<rparr>"

definition createRequest :: IdemRequest where
  "createRequest = \<lparr>iq_Key = ''k1'', iq_Tenant = ''tnt_1'', iq_Method = ''POST'', iq_Path = ''/v1/endpoints'', iq_Body = ''{}'',
     iq_BodyFails = False\<rparr>"

lemmas idem_run_simps = idem_start_def createRequest_def idemEnter_def IdemBegin_def idempotencyKey_def Let_def
  idemLeave_def IdemComplete_def IdemSweep_def IdempotencyWindow_def hour_def minute_def second_def running_def
  outcomeOf_def maxRecordedBody_def time_sub_def max_int64_def min_int64_def

definition createRun :: "idem_op list" where
  "createRun = [Arrive 1 10 createRequest, Arrive 2 11 createRequest, Finish 1 12 201 [''{id}''], SweepKeys 13]"

lemma createRun_log:
  "legal idem_ok (idem_step plainIdem) (idem_start 0) createRun"
  "(1, \<lparr>ex_request = createRequest, ex_start = 10, ex_outcome = Succeeded 201 ''{id}''\<rparr>)
     \<in> set (iw_log (foldl (idem_step plainIdem) (idem_start 0) createRun))"
  "iw_clock (foldl (idem_step plainIdem) (idem_start 0) createRun) = 13"
  by (simp_all add: createRun_def idem_run_simps)

lemma createRun_log_only:
  "iw_log (foldl (idem_step plainIdem) (idem_start 0) createRun) =
     [(1, \<lparr>ex_request = createRequest, ex_start = 10, ex_outcome = Succeeded 201 ''{id}''\<rparr>)]"
  by (simp add: createRun_def idem_run_simps)

theorem idempotent_at_most_once_witness:
  "let w = foldl (idem_step plainIdem) (idem_start 0) createRun
   in snd (idemEnter plainIdem 20 createRequest (iw_store w)) = IdemAnswer (IdemReplayed 201 ''{id}'')
      \<and> snd (idemEnter plainIdem (25 * hour) createRequest (iw_store w)) = IdemExecute True
      \<and> snd (idemEnter plainIdem 20 createRequest (iw_store (idem_step plainIdem w (Restart 15)))) = IdemExecute True"
proof -
  let ?w = "foldl (idem_step plainIdem) (idem_start 0) createRun"
  have r: "legal idem_ok (idem_step plainIdem) (idem_start 0) (createRun @ [Restart 15])"
    by (simp add: createRun_def idem_run_simps)
  have n: "iq_Key createRequest \<noteq> []" "length (iq_Key createRequest) \<le> 255" "iq_Tenant createRequest \<noteq> []"
    "\<not> iq_BodyFails createRequest" by (simp_all add: createRequest_def)
  have "snd (idemEnter plainIdem 20 createRequest (iw_store ?w)) = IdemAnswer (IdemReplayed 201 ''{id}'')"
    using idempotent_at_most_once [OF createRun_log(1) refl _ n refl, of 20]
    by (simp add: createRun_log(3) createRun_log_only IdempotencyWindow_def hour_def minute_def second_def)
  moreover have "snd (idemEnter plainIdem (25 * hour) createRequest (iw_store ?w)) = IdemExecute True"
    using idempotent_at_most_once [OF createRun_log(1) refl _ n refl, of "25 * hour"]
    by (simp add: createRun_log(3) createRun_log_only IdempotencyWindow_def hour_def minute_def second_def)
  moreover have "snd (idemEnter plainIdem 20 createRequest (iw_store (idem_step plainIdem ?w (Restart 15)))) = IdemExecute True"
    using idempotent_at_most_once [OF r refl _ n refl, of 20] by simp
  ultimately show ?thesis by (simp add: Let_def)
qed

text \<open>
  A handler that panics keeps its key for a day. The panic is turned into an answer above the middleware,
  which therefore neither completes nor abandons the record, and every retry of the request is told that it
  is still in progress until the window has passed.
\<close>

theorem panic_holds_key:
  assumes "legal idem_ok (idem_step L) (idem_start t) xs" and "w = foldl (idem_step L) (idem_start t) xs"
    and "(i, e) \<in> set (iw_log w)" and "ex_outcome e = Panicked" and "iw_clock w \<le> now"
    and "now - ex_start e < IdempotencyWindow"
    and "iq_Key (ex_request e) \<noteq> []" "length (iq_Key (ex_request e)) \<le> 255" "iq_Tenant (ex_request e) \<noteq> []"
      "\<not> iq_BodyFails (ex_request e)"
  shows "snd (idemEnter L now (ex_request e) (iw_store w)) = IdemAnswer IdemStillRunning"
  using execution_answers [OF assms(1-3,5) _ refl assms(7-)] assms(4,6) by (simp add: holding_def)

definition panicRun :: "idem_op list" where
  "panicRun = [Arrive 1 10 createRequest, Panic 1]"

lemma panicRun_log:
  "legal idem_ok (idem_step plainIdem) (idem_start 0) panicRun"
  "(1, \<lparr>ex_request = createRequest, ex_start = 10, ex_outcome = Panicked\<rparr>)
     \<in> set (iw_log (foldl (idem_step plainIdem) (idem_start 0) panicRun))"
  "iw_clock (foldl (idem_step plainIdem) (idem_start 0) panicRun) = 10"
  by (simp_all add: panicRun_def idem_run_simps)

theorem panic_holds_key_witness:
  "snd (idemEnter plainIdem (23 * hour) createRequest (iw_store (foldl (idem_step plainIdem) (idem_start 0) panicRun)))
     = IdemAnswer IdemStillRunning"
  using panic_holds_key [OF panicRun_log(1) refl panicRun_log(2), of "23 * hour"]
  by (simp add: panicRun_log(3) createRequest_def IdempotencyWindow_def hour_def minute_def second_def)

text \<open>
  A handler that outlives its record acts on a later one. The first execution takes more than a day and then
  fails; by then the key stands for a second execution, still running, whose record the failure deletes, and
  a third request with the same key runs as well.
\<close>

definition lateRun :: "idem_op list" where
  "lateRun = [Arrive 1 0 createRequest, Arrive 2 (25 * hour) createRequest]"

lemma lateRun_store:
  "foldl (idem_step plainIdem) (idem_start 0) lateRun =
     \<lparr>iw_store = [(''tnt_1|k1'', \<lparr>ir_Key = ''k1'', ir_TenantID = ''tnt_1'', ir_Method = ''POST'',
          ir_Path = ''/v1/endpoints'', ir_RequestHash = requestHash plainIdem createRequest, ir_Status = 0, ir_Body = [],
          ir_InFlight = True, ir_CreatedAt = 25 * hour\<rparr>)],
      iw_clock = 25 * hour,
      iw_log = [(2, \<lparr>ex_request = createRequest, ex_start = 25 * hour, ex_outcome = Running\<rparr>),
                (1, \<lparr>ex_request = createRequest, ex_start = 0, ex_outcome = Running\<rparr>)]\<rparr>"
  by (simp add: lateRun_def idem_run_simps)

lemma lateRun_freed:
  "idem_step plainIdem (foldl (idem_step plainIdem) (idem_start 0) lateRun) (Finish 1 (26 * hour) 500 []) =
     \<lparr>iw_store = [], iw_clock = 26 * hour,
      iw_log = [(2, \<lparr>ex_request = createRequest, ex_start = 25 * hour, ex_outcome = Running\<rparr>),
                (1, \<lparr>ex_request = createRequest, ex_start = 0, ex_outcome = Abandoned\<rparr>)]\<rparr>"
  unfolding lateRun_store
  by (simp add: idemLeave_def IdemAbandon_def outcomeOf_def idempotencyKey_def createRequest_def)

lemma late_failure_frees_key:
  "let w = foldl (idem_step plainIdem) (idem_start 0) lateRun;
       w' = idem_step plainIdem w (Finish 1 (26 * hour) 500 [])
   in snd (idemEnter plainIdem (26 * hour) createRequest (iw_store w)) = IdemAnswer IdemStillRunning
      \<and> snd (idemEnter plainIdem (26 * hour) createRequest (iw_store w')) = IdemExecute True
      \<and> running w' 2"
  unfolding Let_def lateRun_freed unfolding lateRun_store by (simp add: idem_run_simps)

text \<open>
  A response that is too large to record is replayed with its status and an empty body.
\<close>

lemma oversized_response_replayed_empty:
  "maxRecordedBody < length b \<Longrightarrow> outcomeOf 200 [b] = Succeeded 200 []"
  by (simp add: outcomeOf_def)

end
