(* ===== verification/Auth.thy ===== *)
theory Auth
  imports Store JsonPath
begin

text \<open>
  API keys, roles and the authentication middleware: \<^verbatim>\<open>internal/auth/{key,store,context}.go\<close>,
  \<open>authenticate\<close> and \<open>requireRole\<close> of \<^verbatim>\<open>internal/api/middleware.go\<close>, and the role column of the route table in
  \<^verbatim>\<open>internal/api/routes.go\<close>. \<open>KeyLib\<close> stands for Argon2id (a third-party package), unpadded base64 and
  \<open>fmt.Sscanf\<close>; the random key body, salt and identifier are arguments of \<open>Issue\<close>.
\<close>

section \<open>Roles\<close>

type_synonym Role = string

definition RoleOwner :: Role where "RoleOwner = ''owner''"
definition RoleEngineer :: Role where "RoleEngineer = ''engineer''"
definition RoleSupport :: Role where "RoleSupport = ''support''"
definition RoleReadOnly :: Role where "RoleReadOnly = ''read_only''"

lemmas role_defs = RoleOwner_def RoleEngineer_def RoleSupport_def RoleReadOnly_def

definition roleRank :: "(Role \<times> nat) list" where
  "roleRank = [(RoleReadOnly, 1), (RoleSupport, 2), (RoleEngineer, 3), (RoleOwner, 4)]"

definition Role_Valid :: "Role \<Rightarrow> bool" where
  "Role_Valid r \<longleftrightarrow> map_of roleRank r \<noteq> None"

definition AtLeast :: "Role \<Rightarrow> Role \<Rightarrow> bool" where
  "AtLeast r need \<longleftrightarrow> lookupOr 0 roleRank r \<ge> lookupOr 0 roleRank need"

section \<open>Keys\<close>

record Key =
  key_ID :: string
  key_TenantID :: string
  key_Prefix :: string
  key_Hash :: string
  key_Environment :: Environment
  key_Role :: Role
  key_Name :: string
  key_CreatedAt :: instant
  key_ExpiresAt :: instant
  key_LastUsed :: instant
  key_RevokedAt :: instant

definition zeroKey :: Key where
  "zeroKey = \<lparr>key_ID = [], key_TenantID = [], key_Prefix = [], key_Hash = [], key_Environment = [], key_Role = [],
     key_Name = [], key_CreatedAt = zero_time, key_ExpiresAt = zero_time, key_LastUsed = zero_time,
     key_RevokedAt = zero_time\<rparr>"

definition Revoked :: "Key \<Rightarrow> bool" where
  "Revoked k \<longleftrightarrow> \<not> is_zero_time (key_RevokedAt k)"

definition KeyExpired :: "Key \<Rightarrow> instant \<Rightarrow> bool" where
  "KeyExpired k now \<longleftrightarrow> \<not> is_zero_time (key_ExpiresAt k) \<and> now > key_ExpiresAt k"

record KeyLib =
  kl_argon :: "string \<Rightarrow> string \<Rightarrow> nat \<Rightarrow> nat \<Rightarrow> nat \<Rightarrow> nat \<Rightarrow> string"
  kl_encode :: "string \<Rightarrow> string"
  kl_decode :: "string \<Rightarrow> string option"
  kl_scan :: "string \<Rightarrow> (nat \<times> nat \<times> nat) option"

definition argonParams :: string where "argonParams = ''m=65536,t=1,p=4''"

definition hashSecret :: "KeyLib \<Rightarrow> string \<Rightarrow> string \<Rightarrow> string" where
  "hashSecret L salt secret =
     ''argon2id$v=19$'' @ argonParams @ ''$'' @ kl_encode L salt @ ''$''
       @ kl_encode L (kl_argon L secret salt 1 65536 4 32)"

datatype key_error =
    KeyMissing
  | KeyMalformed
  | KeyUnknown
  | KeyIsRevoked
  | KeyHasExpired
  | KeyWrongEnv
  | KeyHashUnusable

definition verifySecret :: "KeyLib \<Rightarrow> string \<Rightarrow> string \<Rightarrow> bool option" where
  "verifySecret L secret encoded =
     (case Split encoded CHR ''$'' of
        [alg, version, params, salt64, digest64] \<Rightarrow>
          if alg \<noteq> ''argon2id'' then None
          else (case (kl_scan L params, kl_decode L salt64, kl_decode L digest64) of
                  (Some (memory, timeCost, threads), Some salt, Some want) \<Rightarrow>
                    if want = [] \<or> length want > 1024 then None
                    else Some (kl_argon L secret salt timeCost memory threads (length want) = want)
                | _ \<Rightarrow> None)
      | _ \<Rightarrow> None)"

definition PrefixAPIKey :: string where "PrefixAPIKey = ''sh''"
definition PrefixLength :: nat where "PrefixLength = 16"

definition prefixOf :: "string \<Rightarrow> string" where
  "prefixOf plaintext = (if length plaintext \<le> PrefixLength then plaintext else take PrefixLength plaintext)"

datatype issue_error = IssueBadEnvironment | IssueBadRole

record KeySeed =
  ks_body :: string
  ks_salt :: string
  ks_id :: string
  ks_now :: instant

definition Issue ::
    "KeyLib \<Rightarrow> KeySeed \<Rightarrow> string \<Rightarrow> Environment \<Rightarrow> Role \<Rightarrow> string \<Rightarrow> duration \<Rightarrow> issue_error + string \<times> Key" where
  "Issue L seed tenantID env role name ttl =
     (if \<not> Environment_Valid env then Inl IssueBadEnvironment
      else if \<not> Role_Valid role then Inl IssueBadRole
      else let plaintext = PrefixAPIKey @ ''_'' @ env @ ''_'' @ ks_body seed in
        Inr (plaintext,
          zeroKey\<lparr>key_ID := ks_id seed, key_TenantID := tenantID, key_Prefix := prefixOf plaintext,
            key_Hash := hashSecret L (ks_salt seed) (ks_body seed), key_Environment := env, key_Role := role,
            key_Name := name, key_CreatedAt := ks_now seed,
            key_ExpiresAt := (if ttl > 0 then ks_now seed + ttl else zero_time)\<rparr>))"

definition splitKey :: "string \<Rightarrow> (string \<times> string \<times> string) option" where
  "splitKey s =
     (case Cut s CHR ''_'' of (a, rest, found) \<Rightarrow>
        if \<not> found then None
        else case Cut rest CHR ''_'' of (b, c, found) \<Rightarrow> if \<not> found then None else Some (a, b, c))"

definition ParseKey :: "string \<Rightarrow> key_error + string \<times> string \<times> Environment" where
  "ParseKey presented =
     (let s = TrimSpace (TrimPrefix (TrimSpace presented) ''Bearer '') in
      if s = [] then Inl KeyMissing
      else case splitKey s of
             None \<Rightarrow> Inl KeyMalformed
           | Some (sh, env, secret) \<Rightarrow>
               if sh \<noteq> PrefixAPIKey \<or> secret = [] \<or> \<not> Environment_Valid env then Inl KeyMalformed
               else Inr (prefixOf s, secret, env))"

definition CheckKey :: "KeyLib \<Rightarrow> Key \<Rightarrow> string \<Rightarrow> instant \<Rightarrow> Environment \<Rightarrow> key_error option" where
  "CheckKey L k secret now env =
     (case verifySecret L secret (key_Hash k) of
        None \<Rightarrow> Some KeyHashUnusable
      | Some ok \<Rightarrow>
          if \<not> ok then Some KeyUnknown
          else if Revoked k then Some KeyIsRevoked
          else if KeyExpired k now then Some KeyHasExpired
          else if env \<noteq> [] \<and> key_Environment k \<noteq> env then Some KeyWrongEnv
          else None)"

section \<open>The key store\<close>

record KeyStore =
  st_byID :: "(string \<times> Key) list"
  st_byPrefix :: "(string \<times> string) list"

definition NewKeyStore :: KeyStore where "NewKeyStore = \<lparr>st_byID = [], st_byPrefix = []\<rparr>"

definition PutKey :: "Key \<Rightarrow> KeyStore \<Rightarrow> KeyStore \<times> bool" where
  "PutKey k s =
     (if map_of (st_byPrefix s) (key_Prefix k) \<noteq> None then (s, False)
      else (\<lparr>st_byID = AList.update (key_ID k) k (st_byID s),
             st_byPrefix = AList.update (key_Prefix k) (key_ID k) (st_byPrefix s)\<rparr>, True))"

definition GetKeyByPrefix :: "KeyStore \<Rightarrow> string \<Rightarrow> Key option" where
  "GetKeyByPrefix s prefix = map_option (lookupOr zeroKey (st_byID s)) (map_of (st_byPrefix s) prefix)"

definition ListKeys :: "KeyStore \<Rightarrow> string \<Rightarrow> Key list" where
  "ListKeys s tenantID = sort_key (\<lambda>k. - key_CreatedAt k) (filter (\<lambda>k. key_TenantID k = tenantID) (map snd (st_byID s)))"

definition RevokeKey :: "string \<Rightarrow> string \<Rightarrow> instant \<Rightarrow> KeyStore \<Rightarrow> KeyStore \<times> bool" where
  "RevokeKey tenantID keyID when s =
     (case map_of (st_byID s) keyID of
        None \<Rightarrow> (s, False)
      | Some k \<Rightarrow>
          if key_TenantID k \<noteq> tenantID then (s, False)
          else (s\<lparr>st_byID := AList.update keyID (k\<lparr>key_RevokedAt := when\<rparr>) (st_byID s)\<rparr>, True))"

definition TouchKey :: "string \<Rightarrow> instant \<Rightarrow> KeyStore \<Rightarrow> KeyStore \<times> bool" where
  "TouchKey keyID when s =
     (case map_of (st_byID s) keyID of
        None \<Rightarrow> (s, False)
      | Some k \<Rightarrow> (s\<lparr>st_byID := AList.update keyID (k\<lparr>key_LastUsed := when\<rparr>) (st_byID s)\<rparr>, True))"

definition Bootstrap :: "KeyLib \<Rightarrow> KeySeed \<Rightarrow> string \<Rightarrow> Environment \<Rightarrow> KeyStore \<Rightarrow> KeyStore \<times> string option" where
  "Bootstrap L seed tenantID env s =
     (case Issue L seed tenantID env RoleOwner ''bootstrap'' 0 of
        Inl _ \<Rightarrow> (s, None)
      | Inr (plaintext, key) \<Rightarrow> (case PutKey key s of (s', ok) \<Rightarrow> (s', if ok then Some plaintext else None)))"

section \<open>Identities\<close>

record Identity =
  id_TenantID :: string
  id_TenantSlug :: string
  id_KeyID :: string
  id_Role :: Role
  id_Environment :: Environment
  id_IP :: string

definition ActorAPIKey :: string where "ActorAPIKey = ''api_key''"

definition ActorOf :: "Identity \<Rightarrow> Actor" where
  "ActorOf i = \<lparr>act_Type = ActorAPIKey, act_ID = id_KeyID i, act_IP = id_IP i\<rparr>"

definition Can :: "Identity \<Rightarrow> Role \<Rightarrow> bool" where
  "Can i need = AtLeast (id_Role i) need"

text \<open>An identity without a tenant does not count as one.\<close>

definition FromContext :: "Identity option \<Rightarrow> Identity option" where
  "FromContext ctx = (case ctx of Some i \<Rightarrow> if id_TenantID i = [] then None else Some i | None \<Rightarrow> None)"

section \<open>The middleware\<close>

datatype auth_reason =
    ReasonMalformed
  | ReasonUnknown
  | ReasonRevoked
  | ReasonExpired
  | ReasonWrongEnvironment
  | ReasonBadSecret
  | ReasonTenantMissing

fun authReason :: "key_error \<Rightarrow> auth_reason" where
  "authReason KeyIsRevoked = ReasonRevoked"
| "authReason KeyHasExpired = ReasonExpired"
| "authReason KeyWrongEnv = ReasonWrongEnvironment"
| "authReason _ = ReasonBadSecret"

definition authenticate :: "KeyLib \<Rightarrow> Memory \<Rightarrow> KeyStore \<Rightarrow> instant \<Rightarrow> string \<Rightarrow> string \<Rightarrow> auth_reason + Identity" where
  "authenticate L m ks now authorization ip =
     (case ParseKey authorization of
        Inl _ \<Rightarrow> Inl ReasonMalformed
      | Inr (prefix, secret, env) \<Rightarrow>
          (case GetKeyByPrefix ks prefix of
             None \<Rightarrow> Inl ReasonUnknown
           | Some key \<Rightarrow>
               (case CheckKey L key secret now env of
                  Some err \<Rightarrow> Inl (authReason err)
                | None \<Rightarrow>
                    (case GetTenant m (key_TenantID key) of
                       Inl _ \<Rightarrow> Inl ReasonTenantMissing
                     | Inr tenant \<Rightarrow>
                         Inr \<lparr>id_TenantID = key_TenantID key, id_TenantSlug = ten_Slug tenant, id_KeyID = key_ID key,
                              id_Role = key_Role key, id_Environment = key_Environment key, id_IP = ip\<rparr>))))"

datatype gate = GateUnauthorised | GateForbidden | GateOpen Identity

definition requireRole :: "Role \<Rightarrow> Identity option \<Rightarrow> gate" where
  "requireRole need ctx =
     (case FromContext ctx of
        None \<Rightarrow> GateUnauthorised
      | Some i \<Rightarrow> if \<not> Can i need then GateForbidden else GateOpen i)"

text \<open>What a caller without a usable key, or without the role, is told; the reason goes to the log only.\<close>

definition guarded :: "KeyLib \<Rightarrow> Memory \<Rightarrow> KeyStore \<Rightarrow> instant \<Rightarrow> string \<Rightarrow> string \<Rightarrow> Role \<Rightarrow> gate" where
  "guarded L m ks now authorization ip need =
     (case authenticate L m ks now authorization ip of
        Inl _ \<Rightarrow> GateUnauthorised
      | Inr i \<Rightarrow> requireRole need (Some i))"

section \<open>The route table\<close>

record routeSpec =
  rt_Method :: string
  rt_Path :: string
  rt_Role :: Role
  rt_Public :: bool
  rt_Idempotent :: bool

definition openRoute :: "string \<Rightarrow> string \<Rightarrow> routeSpec" where
  "openRoute m p = \<lparr>rt_Method = m, rt_Path = p, rt_Role = [], rt_Public = True, rt_Idempotent = False\<rparr>"

definition keyedRoute :: "string \<Rightarrow> string \<Rightarrow> Role \<Rightarrow> bool \<Rightarrow> routeSpec" where
  "keyedRoute m p r i = \<lparr>rt_Method = m, rt_Path = p, rt_Role = r, rt_Public = False, rt_Idempotent = i\<rparr>"

definition routes :: "routeSpec list" where
  "routes =
     [openRoute ''GET'' ''/healthz'', openRoute ''GET'' ''/readyz'', openRoute ''GET'' ''/metrics'',
      keyedRoute ''POST'' ''/v1/endpoints'' RoleEngineer True,
      keyedRoute ''GET'' ''/v1/endpoints'' RoleReadOnly False,
      keyedRoute ''GET'' ''/v1/endpoints/{id}'' RoleReadOnly False,
      keyedRoute ''DELETE'' ''/v1/endpoints/{id}'' RoleEngineer False,
      keyedRoute ''POST'' ''/v1/endpoints/{id}/rotate-token'' RoleEngineer True,
      keyedRoute ''GET'' ''/v1/endpoints/{id}/signature-failures'' RoleSupport False,
      keyedRoute ''POST'' ''/v1/destinations'' RoleEngineer True,
      keyedRoute ''GET'' ''/v1/destinations'' RoleReadOnly False,
      keyedRoute ''GET'' ''/v1/destinations/{id}'' RoleReadOnly False,
      keyedRoute ''DELETE'' ''/v1/destinations/{id}'' RoleEngineer False,
      keyedRoute ''GET'' ''/v1/schema-versions'' RoleReadOnly False,
      keyedRoute ''GET'' ''/v1/adapters'' RoleReadOnly False,
      keyedRoute ''POST'' ''/v1/adapters'' RoleEngineer True,
      keyedRoute ''POST'' ''/v1/adapters/infer'' RoleEngineer False,
      keyedRoute ''POST'' ''/v1/adapters/{name}/test'' RoleEngineer False,
      keyedRoute ''DELETE'' ''/v1/adapters/{name}'' RoleEngineer False,
      keyedRoute ''GET'' ''/v1/events'' RoleReadOnly False,
      keyedRoute ''GET'' ''/v1/events/{id}'' RoleReadOnly False,
      keyedRoute ''GET'' ''/v1/events/{id}/raw'' RoleSupport False,
      keyedRoute ''POST'' ''/v1/events/{id}/replay'' RoleSupport True,
      keyedRoute ''POST'' ''/v1/events/replay'' RoleSupport True,
      keyedRoute ''GET'' ''/v1/deliveries'' RoleReadOnly False,
      keyedRoute ''POST'' ''/v1/deliveries/{id}/retry'' RoleSupport True,
      keyedRoute ''GET'' ''/v1/unknown-statuses'' RoleReadOnly False,
      keyedRoute ''POST'' ''/v1/listen'' RoleEngineer False,
      keyedRoute ''GET'' ''/v1/listen'' RoleReadOnly False,
      keyedRoute ''GET'' ''/v1/listen/{id}/poll'' RoleEngineer False,
      keyedRoute ''POST'' ''/v1/listen/{id}/report'' RoleEngineer False,
      keyedRoute ''DELETE'' ''/v1/listen/{id}'' RoleEngineer False,
      keyedRoute ''GET'' ''/v1/audit'' RoleReadOnly False,
      keyedRoute ''GET'' ''/v1/audit/verify'' RoleReadOnly False,
      keyedRoute ''POST'' ''/v1/keys'' RoleOwner True,
      keyedRoute ''GET'' ''/v1/keys'' RoleOwner False,
      keyedRoute ''DELETE'' ''/v1/keys/{id}'' RoleOwner False]"

end
