(* ===== verification/Auth_Spec.thy ===== *)
theory Auth_Spec
  imports Auth Sign
begin

text \<open>
  What a key proves: a request is authenticated exactly when it carries the secret of a stored, live key of the
  right environment, and it then acts for that key's tenant with that key's role; an issued key authenticates
  until it expires or is revoked, and never after it was revoked. Refusals cannot be told apart. Every route
  that is not public asks for a role.
\<close>

section \<open>Who is let in\<close>

text \<open>
  C15: A request becomes an identity exactly when its authorization parses, a key is stored under its prefix,
  the stored hash accepts the secret, the key is neither revoked nor expired and belongs to the environment
  the key text names, and the key's tenant exists; the identity then is that key's tenant, role and
  environment. A caller who has one but lacks the role is told so; in every other case the caller is told the
  same thing.
\<close>

theorem authenticate_exact:
  "(guarded L m ks now authorization ip need = GateOpen i \<longleftrightarrow>
     (\<exists>prefix secret env k tenant.
        ParseKey authorization = Inr (prefix, secret, env) \<and> GetKeyByPrefix ks prefix = Some k
        \<and> verifySecret L secret (key_Hash k) = Some True \<and> is_zero_time (key_RevokedAt k)
        \<and> (is_zero_time (key_ExpiresAt k) \<or> now \<le> key_ExpiresAt k) \<and> key_Environment k = env
        \<and> GetTenant m (key_TenantID k) = Inr tenant \<and> key_TenantID k \<noteq> [] \<and> AtLeast (key_Role k) need
        \<and> i = \<lparr>id_TenantID = key_TenantID k, id_TenantSlug = ten_Slug tenant, id_KeyID = key_ID k,
               id_Role = key_Role k, id_Environment = env, id_IP = ip\<rparr>))
   \<and> (guarded L m ks now authorization ip need = GateForbidden \<longleftrightarrow>
     (\<exists>j. authenticate L m ks now authorization ip = Inr j \<and> id_TenantID j \<noteq> [] \<and> \<not> AtLeast (id_Role j) need))"
proof -
  have env: "ParseKey authorization = Inr (prefix, secret, env) \<Longrightarrow> env \<noteq> []" for prefix secret env
    by (auto simp: ParseKey_def Let_def Environment_Valid_def EnvTest_def EnvLive_def split: if_splits option.splits)
  have check: "CheckKey L k secret now env = None \<longleftrightarrow>
      verifySecret L secret (key_Hash k) = Some True \<and> is_zero_time (key_RevokedAt k)
      \<and> (is_zero_time (key_ExpiresAt k) \<or> now \<le> key_ExpiresAt k) \<and> key_Environment k = env"
    if "env \<noteq> []" for k secret env
    using that by (auto simp: CheckKey_def Revoked_def KeyExpired_def split: option.split)
  have auth: "authenticate L m ks now authorization ip = Inr j \<longleftrightarrow>
     (\<exists>prefix secret env k tenant.
        ParseKey authorization = Inr (prefix, secret, env) \<and> GetKeyByPrefix ks prefix = Some k
        \<and> CheckKey L k secret now env = None \<and> GetTenant m (key_TenantID k) = Inr tenant
        \<and> j = \<lparr>id_TenantID = key_TenantID k, id_TenantSlug = ten_Slug tenant, id_KeyID = key_ID k,
               id_Role = key_Role k, id_Environment = key_Environment k, id_IP = ip\<rparr>)" for j
    by (auto simp: authenticate_def split: sum.split option.split prod.split)
  have gate: "guarded L m ks now authorization ip need = GateOpen i \<longleftrightarrow>
     authenticate L m ks now authorization ip = Inr i \<and> id_TenantID i \<noteq> [] \<and> AtLeast (id_Role i) need"
    by (auto simp: guarded_def requireRole_def FromContext_def Can_def split: sum.split)
  have "guarded L m ks now authorization ip need = GateForbidden \<longleftrightarrow>
     (\<exists>j. authenticate L m ks now authorization ip = Inr j \<and> id_TenantID j \<noteq> [] \<and> \<not> AtLeast (id_Role j) need)"
    by (auto simp: guarded_def requireRole_def FromContext_def Can_def split: sum.split)
  then show ?thesis unfolding gate auth using env check by fastforce
qed

section \<open>Keys that were issued\<close>

text \<open>What is relied on: base64 decodes what it encodes and has no dollar sign, the parameters are read back as
  they were printed, and Argon2id returns a digest of the length asked for.\<close>

lemma Split_hash:
  assumes "\<And>x. CHR ''$'' \<notin> set (kl_encode L x)"
  shows "Split (hashSecret L salt secret) CHR ''$''
     = [''argon2id'', ''v=19'', argonParams, kl_encode L salt, kl_encode L (kl_argon L secret salt 1 65536 4 32)]"
proof -
  have parts: "CHR ''$'' \<notin> set ''argon2id''" "CHR ''$'' \<notin> set ''v=19''" "CHR ''$'' \<notin> set argonParams"
    by (simp_all add: argonParams_def)
  have "hashSecret L salt secret = ''argon2id'' @ CHR ''$'' # ''v=19'' @ CHR ''$'' # argonParams @ CHR ''$'' #
      kl_encode L salt @ CHR ''$'' # kl_encode L (kl_argon L secret salt 1 65536 4 32)"
    by (simp add: hashSecret_def)
  then show ?thesis
    by (simp only: Split_found [OF parts(1)] Split_found [OF parts(2)] Split_found [OF parts(3)]
        Split_found [OF assms] Split_absent [OF assms])
qed

lemma verify_hashed:
  assumes "\<And>x. kl_decode L (kl_encode L x) = Some x" and "\<And>x. CHR ''$'' \<notin> set (kl_encode L x)"
    and "kl_scan L argonParams = Some (65536, 1, 4)" and "\<And>s salt t m p n. length (kl_argon L s salt t m p n) = n"
  shows "verifySecret L secret' (hashSecret L salt secret)
     = Some (kl_argon L secret' salt 1 65536 4 32 = kl_argon L secret salt 1 65536 4 32)"
proof -
  let ?d = "kl_argon L secret salt 1 65536 4 32"
  have len: "length ?d = 32" by (rule assms(4))
  then have "?d \<noteq> []" by (metis list.size(3) zero_neq_numeral)
  then show ?thesis using len by (simp add: verifySecret_def Split_hash assms del: One_nat_def)
qed

lemma ParseKey_plaintext:
  assumes "Environment_Valid env" and "body \<noteq> []" and "visible (last body)" and "CHR ''_'' \<notin> set env"
  shows "ParseKey (''Bearer '' @ PrefixAPIKey @ ''_'' @ env @ ''_'' @ body)
     = Inr (prefixOf (PrefixAPIKey @ ''_'' @ env @ ''_'' @ body), body, env)"
proof -
  let ?p = "PrefixAPIKey @ ''_'' @ env @ ''_'' @ body"
  have v: "visible CHR ''B''" "visible CHR ''s''" by code_simp+
  have "TrimSpace (''Bearer '' @ ?p) = ''Bearer '' @ ?p"
    using assms(2,3) v by (intro TrimSpace_lead) (simp_all add: PrefixAPIKey_def)
  moreover have "TrimSpace ?p = ?p" using assms(2,3) v by (intro TrimSpace_lead) (simp_all add: PrefixAPIKey_def)
  moreover have "TrimPrefix (''Bearer '' @ ?p) ''Bearer '' = ?p" by (simp add: TrimPrefix_def)
  moreover have "splitKey ?p = Some (PrefixAPIKey, env, body)"
  proof -
    have "?p = PrefixAPIKey @ CHR ''_'' # env @ CHR ''_'' # body" by simp
    moreover have sh: "CHR ''_'' \<notin> set PrefixAPIKey" by (simp add: PrefixAPIKey_def)
    ultimately show ?thesis by (simp add: splitKey_def Cut_found [OF sh] Cut_found [OF assms(4)])
  qed
  ultimately show ?thesis using assms(1,2) by (simp add: ParseKey_def Let_def PrefixAPIKey_def)
qed

lemma environment_no_underscore: "Environment_Valid env \<Longrightarrow> CHR ''_'' \<notin> set env"
  by (auto simp: Environment_Valid_def EnvTest_def EnvLive_def)

lemma authenticate_issued:
  assumes "\<And>x. kl_decode L (kl_encode L x) = Some x" and "\<And>x. CHR ''$'' \<notin> set (kl_encode L x)"
    and "kl_scan L argonParams = Some (65536, 1, 4)" and "\<And>s salt t m p n. length (kl_argon L s salt t m p n) = n"
    and "Issue L seed t env role name ttl = Inr (plaintext, key)" and "ks_body seed \<noteq> []" "visible (last (ks_body seed))"
    and "PutKey key ks = (ks', True)" and "GetTenant m t = Inr tenant"
    and "ttl \<le> 0 \<or> now \<le> ks_now seed + ttl"
  shows "authenticate L m ks' now (''Bearer '' @ plaintext) ip =
     Inr \<lparr>id_TenantID = t, id_TenantSlug = ten_Slug tenant, id_KeyID = ks_id seed, id_Role = role,
          id_Environment = env, id_IP = ip\<rparr>"
proof -
  have key: "key = zeroKey\<lparr>key_ID := ks_id seed, key_TenantID := t, key_Prefix := prefixOf plaintext,
      key_Hash := hashSecret L (ks_salt seed) (ks_body seed), key_Environment := env, key_Role := role,
      key_Name := name, key_CreatedAt := ks_now seed,
      key_ExpiresAt := (if ttl > 0 then ks_now seed + ttl else zero_time)\<rparr>"
    and plain: "plaintext = PrefixAPIKey @ ''_'' @ env @ ''_'' @ ks_body seed" and env: "Environment_Valid env"
    using assms(5) by (auto simp: Issue_def Let_def split: if_splits)
  have found: "GetKeyByPrefix ks' (prefixOf plaintext) = Some key"
    using assms(8) by (auto simp: PutKey_def GetKeyByPrefix_def lookupOr_def update_conv' key split: if_splits)
  have "verifySecret L (ks_body seed) (key_Hash key) = Some True"
    by (simp add: key verify_hashed assms(1-4))
  then have "CheckKey L key (ks_body seed) now env = None"
    using assms(10) by (auto simp: CheckKey_def key Revoked_def KeyExpired_def zeroKey_def is_zero_time_def)
  moreover have "ParseKey (''Bearer '' @ plaintext) = Inr (prefixOf plaintext, ks_body seed, env)"
    unfolding plain using env assms(6,7) by (intro ParseKey_plaintext environment_no_underscore)
  ultimately show ?thesis
    using found assms(9) by (simp add: authenticate_def key)
qed

text \<open>
  A key that was issued and stored works: presented as a bearer token it authenticates as the tenant, role
  and environment it was issued for, as long as it has not expired, given Argon2id and base64 as documented.
\<close>

theorem issued_key_authenticates:
  assumes "\<And>x. kl_decode L (kl_encode L x) = Some x" and "\<And>x. CHR ''$'' \<notin> set (kl_encode L x)"
    and "kl_scan L argonParams = Some (65536, 1, 4)" and "\<And>s salt t m p n. length (kl_argon L s salt t m p n) = n"
    and "Issue L seed t env role name ttl = Inr (plaintext, key)" and "ks_body seed \<noteq> []" "visible (last (ks_body seed))"
    and "PutKey key ks = (ks', True)" and "GetTenant m t = Inr tenant"
    and "ttl \<le> 0 \<or> now \<le> ks_now seed + ttl"
  shows "authenticate L m ks' now (''Bearer '' @ plaintext) ip =
     Inr \<lparr>id_TenantID = t, id_TenantSlug = ten_Slug tenant, id_KeyID = ks_id seed, id_Role = role,
          id_Environment = env, id_IP = ip\<rparr>"
  using assms by (rule authenticate_issued)

definition plainKeys :: KeyLib where
  "plainKeys = \<lparr>kl_argon = (\<lambda>s salt t m p n. take n (s @ salt @ replicate n CHR ''.'')), kl_encode = hexEncode,
     kl_decode = hexDecode, kl_scan = (\<lambda>s. if s = argonParams then Some (65536, 1, 4) else None)\<rparr>"

definition sampleSeed :: KeySeed where
  "sampleSeed = \<lparr>ks_body = ''k7x9'', ks_salt = ''salt'', ks_id = ''key_1'', ks_now = 100\<rparr>"

definition sampleTenant :: Tenant where
  "sampleTenant = zeroTenant\<lparr>ten_ID := ''ten_1'', ten_Slug := ''acme''\<rparr>"

definition sampleMemory :: Memory where
  "sampleMemory = NewMemory\<lparr>mem_tenants := [(''ten_1'', sampleTenant)]\<rparr>"

definition sampleKey :: Key where
  "sampleKey = snd (projr (Issue plainKeys sampleSeed ''ten_1'' EnvTest RoleEngineer ''ci'' 50))"

lemma plainKeys_lawful:
  "kl_decode plainKeys (kl_encode plainKeys x) = Some x" "CHR ''$'' \<notin> set (kl_encode plainKeys x)"
  "kl_scan plainKeys argonParams = Some (65536, 1, 4)" "length (kl_argon plainKeys s salt t m p n) = n"
  using hexEncode_chars [of "CHR ''$''" x] by (auto simp: plainKeys_def)

theorem issued_key_authenticates_witness:
  "authenticate plainKeys sampleMemory (fst (PutKey sampleKey NewKeyStore)) 120
     (''Bearer '' @ ''sh_test_k7x9'') ''10.0.0.9'' =
   Inr \<lparr>id_TenantID = ''ten_1'', id_TenantSlug = ''acme'', id_KeyID = ''key_1'', id_Role = RoleEngineer,
        id_Environment = EnvTest, id_IP = ''10.0.0.9''\<rparr>"
proof -
  have issued: "Issue plainKeys sampleSeed ''ten_1'' EnvTest RoleEngineer ''ci'' 50 = Inr (''sh_test_k7x9'', sampleKey)"
    by (simp add: sampleKey_def Issue_def Let_def sampleSeed_def Environment_Valid_def EnvTest_def Role_Valid_def roleRank_def
        role_defs PrefixAPIKey_def)
  have visible: "ks_body sampleSeed \<noteq> []" "visible (last (ks_body sampleSeed))" by code_simp+
  have put: "PutKey sampleKey NewKeyStore = (fst (PutKey sampleKey NewKeyStore), True)"
    by (simp add: PutKey_def NewKeyStore_def)
  have tenant: "GetTenant sampleMemory ''ten_1'' = Inr sampleTenant"
    by (simp add: GetTenant_def sampleMemory_def)
  have "(50::int) \<le> 0 \<or> 120 \<le> ks_now sampleSeed + 50" by (simp add: sampleSeed_def)
  from issued_key_authenticates [OF plainKeys_lawful issued visible put tenant this]
  show ?thesis by (simp add: sampleTenant_def sampleSeed_def zeroTenant_def)
qed

end
