(* ===== verification/Manage.thy ===== *)
theory Manage
  imports Auth Infer Guard Replay
begin

text \<open>
  The management API: \<^verbatim>\<open>internal/api/{audit_keys,endpoints,destinations,adapters,events}.go\<close> and \<open>audit\<close> of
  \<^verbatim>\<open>server.go\<close>. \<open>Api\<close> is what the handlers share: the dispatcher with its store, the keys, the uploaded
  adapters and the registry. \<open>ApiEnv\<close> holds what they call: the codecs, the secret resolver, the address
  guard and the URL parser. A request is its decoded body, \<^const>\<open>None\<close> when the decoder refuses it; the
  context's identity is an argument; random identifiers, tokens and keys are arguments too. The text of an
  error is a constructor.
\<close>

section \<open>State and replies\<close>

type_synonym adapter_store = "(string \<times> (string \<times> Config) list) list"

record Api =
  api_disp :: Dispatcher
  api_keys :: KeyStore
  api_adapters :: adapter_store
  api_registry :: Registry

abbreviation api_mem :: "Api \<Rightarrow> Memory" where
  "api_mem s \<equiv> ds_store (api_disp s)"

definition setMem :: "Memory \<Rightarrow> Api \<Rightarrow> Api" where
  "setMem m s = s\<lparr>api_disp := (api_disp s)\<lparr>ds_store := m\<rparr>\<rparr>"

record ApiEnv =
  ae_adapters :: AdapterLib
  ae_keys :: KeyLib
  ae_dispatch :: DispatchEnv
  ae_config :: "string \<Rightarrow> string + Config"
  ae_resolve :: "string \<Rightarrow> string + string"
  ae_parseURL :: "string \<Rightarrow> url option"
  ae_guard :: "(GuardNet \<times> Guard) option"
  ae_dispatcher :: bool
  ae_baseURL :: string

datatype refusal =
    RefUnauthorised
  | RefStore store_error
  | RefInternal
  | RefBody
  | RefRole
  | RefEnvironment
  | RefScoped Environment
  | RefIssue issue_error
  | RefOwnKey
  | RefNotFound
  | RefNoProvider
  | RefNoAdapter string
  | RefNoSecretRef
  | RefSecret string
  | RefURL url_error
  | RefGuard guard_error
  | RefSchema string
  | RefFilter filter_error
  | RefPolicy policy_error
  | RefConfig config_error
  | RefBuiltIn string
  | RefSamples TestResult
  | RefRegister string
  | RefInUse string
  | RefName
  | RefFewSamples nat
  | RefInfer infer_error
  | RefNoDispatcher
  | RefReplay replay_error
  | RefQuery string

datatype 'a reply = Refuse nat refusal | Answer nat 'a

fun answered :: "'a reply \<Rightarrow> bool" where
  "answered (Refuse _ _) = False"
| "answered (Answer _ _) = True"

fun storeRefusal :: "store_error \<Rightarrow> 'a reply" where
  "storeRefusal StoreNotFound = Refuse 404 (RefStore StoreNotFound)"
| "storeRefusal (StoreDuplicate w) = Refuse 409 (RefStore (StoreDuplicate w))"

text \<open>A handler without an identity answers 401 and does nothing.\<close>

definition asTenant :: "Identity option \<Rightarrow> (Identity \<Rightarrow> Api \<times> 'a reply) \<Rightarrow> Api \<Rightarrow> Api \<times> 'a reply" where
  "asTenant ctx handler s =
     (case FromContext ctx of None \<Rightarrow> (s, Refuse 401 RefUnauthorised) | Some i \<Rightarrow> handler i)"

definition apiAudit ::
    "ApiEnv \<Rightarrow> instant \<Rightarrow> Identity \<Rightarrow> string \<Rightarrow> Subject \<Rightarrow> (string \<times> json) list \<Rightarrow> Api \<Rightarrow> Api" where
  "apiAudit E now i eventType subject payload s =
     setMem (fst (AppendAudit (de_audit (ae_dispatch E)) (utcTime now) (api_mem s)
       \<lparr>aud_ID = [], aud_TenantID = id_TenantID i, aud_EventType = eventType, aud_OccurredAt = zeroTime,
        aud_RecordedAt = zeroTime, aud_Actor = ActorOf i, aud_Subject = subject, aud_Payload = payload,
        aud_Corrects = [], aud_PrevHash = [], aud_Hash = []\<rparr>)) s"

abbreviation subject :: "string \<Rightarrow> string \<Rightarrow> Subject" where
  "subject t i \<equiv> \<lparr>sub_Type = t, sub_ID = i\<rparr>"

section \<open>Keys\<close>

record createKeyRequest =
  ck_Name :: string
  ck_Role :: Role
  ck_Environment :: string
  ck_TTLDays :: int

record createdKey =
  cd_ID :: string
  cd_Key :: string
  cd_Prefix :: string
  cd_Role :: Role
  cd_Environment :: Environment
  cd_ExpiresAt :: "instant option"

definition nullableTime :: "instant \<Rightarrow> instant option" where
  "nullableTime t = (if is_zero_time t then None else Some t)"

definition parseEnvironment :: "string \<Rightarrow> Environment option" where
  "parseEnvironment s = (if Environment_Valid (TrimSpace s) then Some (TrimSpace s) else None)"

text \<open>\<open>time.Duration(days) * 24 * time.Hour\<close> is computed in 64 bits.\<close>

definition ttlOf :: "int \<Rightarrow> duration" where
  "ttlOf days = (if days > 0 then wrap64 (wrap64 (days * 24) * hour) else 0)"

definition handleCreateKey ::
    "ApiEnv \<Rightarrow> instant \<Rightarrow> KeySeed \<Rightarrow> Identity option \<Rightarrow> createKeyRequest option \<Rightarrow> Api \<Rightarrow> Api \<times> createdKey reply" where
  "handleCreateKey E now seed ctx body s =
     asTenant ctx (\<lambda>i.
       case body of
         None \<Rightarrow> (s, Refuse 400 RefBody)
       | Some req \<Rightarrow>
           if \<not> Role_Valid (ck_Role req) then (s, Refuse 400 RefRole)
           else case parseEnvironment (ck_Environment req) of
             None \<Rightarrow> (s, Refuse 400 RefEnvironment)
           | Some env \<Rightarrow>
               if id_Environment i \<noteq> env then (s, Refuse 403 (RefScoped (id_Environment i)))
               else case Issue (ae_keys E) seed (id_TenantID i) env (ck_Role req) (ck_Name req) (ttlOf (ck_TTLDays req)) of
                 Inl err \<Rightarrow> (s, Refuse 400 (RefIssue err))
               | Inr (plaintext, key) \<Rightarrow>
                   (case PutKey key (api_keys s) of
                      (ks, False) \<Rightarrow> (s, Refuse 500 RefInternal)
                    | (ks, True) \<Rightarrow>
                        (apiAudit E now i ''api_key.created'' (subject ''api_key'' (key_ID key))
                           [(''role'', JString (ck_Role req)), (''environment'', JString env),
                            (''name'', JString (ck_Name req)), (''prefix'', JString (key_Prefix key))]
                           (s\<lparr>api_keys := ks\<rparr>),
                         Answer 201 \<lparr>cd_ID = key_ID key, cd_Key = plaintext, cd_Prefix = key_Prefix key,
                           cd_Role = ck_Role req, cd_Environment = env,
                           cd_ExpiresAt = nullableTime (key_ExpiresAt key)\<rparr>))) s"

record keyView =
  kv_ID :: string
  kv_Name :: string
  kv_Prefix :: string
  kv_Role :: Role
  kv_Environment :: Environment
  kv_CreatedAt :: instant
  kv_LastUsed :: "instant option"
  kv_ExpiresAt :: "instant option"
  kv_RevokedAt :: "instant option"

definition viewKey :: "Key \<Rightarrow> keyView" where
  "viewKey k =
     \<lparr>kv_ID = key_ID k, kv_Name = key_Name k, kv_Prefix = key_Prefix k, kv_Role = key_Role k,
      kv_Environment = key_Environment k, kv_CreatedAt = key_CreatedAt k, kv_LastUsed = nullableTime (key_LastUsed k),
      kv_ExpiresAt = nullableTime (key_ExpiresAt k), kv_RevokedAt = nullableTime (key_RevokedAt k)\<rparr>"

definition handleListKeys :: "Identity option \<Rightarrow> Api \<Rightarrow> Api \<times> keyView list reply" where
  "handleListKeys ctx s =
     asTenant ctx (\<lambda>i. (s, Answer 200 (map viewKey (ListKeys (api_keys s) (id_TenantID i))))) s"

definition handleRevokeKey ::
    "ApiEnv \<Rightarrow> instant \<Rightarrow> Identity option \<Rightarrow> string \<Rightarrow> Api \<Rightarrow> Api \<times> unit reply" where
  "handleRevokeKey E now ctx keyID s =
     asTenant ctx (\<lambda>i.
       if keyID = id_KeyID i then (s, Refuse 400 RefOwnKey)
       else case RevokeKey (id_TenantID i) keyID now (api_keys s) of
         (ks, False) \<Rightarrow> (s, Refuse 404 RefNotFound)
       | (ks, True) \<Rightarrow>
           (apiAudit E now i ''api_key.revoked'' (subject ''api_key'' keyID) [] (s\<lparr>api_keys := ks\<rparr>), Answer 204 ())) s"

section \<open>Endpoints\<close>

record endpointView =
  vw_ID :: string
  vw_Provider :: string
  vw_Environment :: Environment
  vw_AdapterName :: string
  vw_Enabled :: bool
  vw_ReceiverURL :: string
  vw_SecretRef :: string
  vw_AllowedSourceCIDRs :: "string list"
  vw_CreatedAt :: instant
  vw_RotatedAt :: "instant option"

definition receiverBaseURL :: "ApiEnv \<Rightarrow> string" where
  "receiverBaseURL E = (if ae_baseURL E \<noteq> [] then ae_baseURL E else ''https://hooks.statushub.dev'')"

definition viewEndpoint :: "Endpoint \<Rightarrow> string \<Rightarrow> string \<Rightarrow> endpointView" where
  "viewEndpoint e slug baseURL =
     \<lparr>vw_ID = ep_ID e, vw_Provider = ep_Provider e, vw_Environment = ep_Environment e,
      vw_AdapterName = ep_AdapterName e, vw_Enabled = ep_Enabled e,
      vw_ReceiverURL = TrimRight baseURL CHR ''/'' @ ReceiverPath e slug, vw_SecretRef = ep_SecretRef e,
      vw_AllowedSourceCIDRs = ep_AllowedSourceCIDRs e, vw_CreatedAt = ep_CreatedAt e,
      vw_RotatedAt = nullableTime (ep_RotatedAt e)\<rparr>"

record createEndpointRequest =
  ce_Provider :: string
  ce_Environment :: string
  ce_Adapter :: string
  ce_SecretRef :: string
  ce_AllowedSourceCIDRs :: "string list"

definition newEndpoint ::
    "string \<Rightarrow> string \<Rightarrow> instant \<Rightarrow> string \<Rightarrow> Environment \<Rightarrow> string \<Rightarrow> createEndpointRequest \<Rightarrow> string \<Rightarrow> Endpoint" where
  "newEndpoint newID token now tenantID env provider req adapterName =
     \<lparr>ep_ID = newID, ep_TenantID = tenantID, ep_Provider = provider, ep_Environment = env,
      ep_ReceiverToken = token, ep_SecretRef = ce_SecretRef req, ep_AdapterName = adapterName,
      ep_AdapterConfig = None, ep_AllowedSourceCIDRs = ce_AllowedSourceCIDRs req, ep_Enabled = True,
      ep_CreatedAt = now, ep_RotatedAt = zero_time\<rparr>"

definition handleCreateEndpoint ::
    "ApiEnv \<Rightarrow> instant \<Rightarrow> string \<Rightarrow> string \<Rightarrow> Identity option \<Rightarrow> createEndpointRequest option \<Rightarrow> Api
       \<Rightarrow> Api \<times> endpointView reply" where
  "handleCreateEndpoint E now newID token ctx body s =
     asTenant ctx (\<lambda>i.
       case body of
         None \<Rightarrow> (s, Refuse 400 RefBody)
       | Some req \<Rightarrow>
           (case parseEnvironment (ce_Environment req) of
              None \<Rightarrow> (s, Refuse 400 RefEnvironment)
            | Some env \<Rightarrow>
                if id_Environment i \<noteq> env then (s, Refuse 403 (RefScoped (id_Environment i)))
                else let provider = ToLower (TrimSpace (ce_Provider req)) in
                if provider = [] then (s, Refuse 400 RefNoProvider)
                else let adapterName = (if ce_Adapter req = [] then provider else ce_Adapter req) in
                if GetAdapter (api_registry s) (id_TenantID i) adapterName = None
                then (s, Refuse 400 (RefNoAdapter adapterName))
                else if TrimSpace (ce_SecretRef req) = [] then (s, Refuse 400 RefNoSecretRef)
                else case ae_resolve E (ce_SecretRef req) of
                  Inl err \<Rightarrow> (s, Refuse 400 (RefSecret err))
                | Inr _ \<Rightarrow>
                    (let ep = newEndpoint newID token now (id_TenantID i) env provider req adapterName in
                     case CreateEndpoint (api_mem s) ep of
                       (m, Some err) \<Rightarrow> (s, storeRefusal err)
                     | (m, None) \<Rightarrow>
                         (apiAudit E now i ''endpoint.created'' (subject ''endpoint'' newID)
                            [(''provider'', JString provider), (''environment'', JString env),
                             (''adapter'', JString adapterName)] (setMem m s),
                          Answer 201 (viewEndpoint ep (id_TenantSlug i) (receiverBaseURL E)))))) s"

definition handleListEndpoints :: "ApiEnv \<Rightarrow> Identity option \<Rightarrow> Api \<Rightarrow> Api \<times> endpointView list reply" where
  "handleListEndpoints E ctx s =
     asTenant ctx (\<lambda>i. (s, Answer 200
       (map (\<lambda>e. viewEndpoint e (id_TenantSlug i) (receiverBaseURL E)) (ListEndpoints (api_mem s) (id_TenantID i))))) s"

definition handleGetEndpoint :: "ApiEnv \<Rightarrow> Identity option \<Rightarrow> string \<Rightarrow> Api \<Rightarrow> Api \<times> endpointView reply" where
  "handleGetEndpoint E ctx epID s =
     asTenant ctx (\<lambda>i.
       case GetEndpoint (api_mem s) (id_TenantID i) epID of
         Inl err \<Rightarrow> (s, storeRefusal err)
       | Inr ep \<Rightarrow> (s, Answer 200 (viewEndpoint ep (id_TenantSlug i) (receiverBaseURL E)))) s"

definition handleDeleteEndpoint :: "ApiEnv \<Rightarrow> instant \<Rightarrow> Identity option \<Rightarrow> string \<Rightarrow> Api \<Rightarrow> Api \<times> unit reply" where
  "handleDeleteEndpoint E now ctx epID s =
     asTenant ctx (\<lambda>i.
       case DeleteEndpoint (api_mem s) (id_TenantID i) epID of
         (m, Some err) \<Rightarrow> (s, storeRefusal err)
       | (m, None) \<Rightarrow>
           (apiAudit E now i ''endpoint.deleted'' (subject ''endpoint'' epID) [] (setMem m s), Answer 204 ())) s"

definition handleRotateToken ::
    "ApiEnv \<Rightarrow> instant \<Rightarrow> string \<Rightarrow> Identity option \<Rightarrow> string \<Rightarrow> Api \<Rightarrow> Api \<times> endpointView reply" where
  "handleRotateToken E now token ctx epID s =
     asTenant ctx (\<lambda>i.
       case GetEndpoint (api_mem s) (id_TenantID i) epID of
         Inl err \<Rightarrow> (s, storeRefusal err)
       | Inr old \<Rightarrow>
           (let ep = old\<lparr>ep_ReceiverToken := token, ep_RotatedAt := now\<rparr> in
            case UpdateEndpoint (api_mem s) (id_TenantID i) ep of
              (m, Some err) \<Rightarrow> (s, storeRefusal err)
            | (m, None) \<Rightarrow>
                (apiAudit E now i ''endpoint.token_rotated'' (subject ''endpoint'' (ep_ID ep))
                   [(''provider'', JString (ep_Provider ep)),
                    (''previous_token_length'', JNumber (show_nat (length (ep_ReceiverToken old))))] (setMem m s),
                 Answer 200 (viewEndpoint ep (id_TenantSlug i) (receiverBaseURL E))))) s"

record signatureFailure =
  sf_RawEventID :: string
  sf_SourceIP :: "string option"
  sf_Reason :: string
  sf_ReceivedAt :: gotime
  sf_Bytes :: nat

text \<open>\<open>since\<close> is the query parameter, when it parses as a time.\<close>

definition handleSignatureFailures ::
    "instant \<Rightarrow> Identity option \<Rightarrow> string \<Rightarrow> gotime option \<Rightarrow> Api \<Rightarrow> Api \<times> signatureFailure list reply" where
  "handleSignatureFailures now ctx epID since s =
     asTenant ctx (\<lambda>i.
       case GetEndpoint (api_mem s) (id_TenantID i) epID of
         Inl err \<Rightarrow> (s, storeRefusal err)
       | Inr _ \<Rightarrow>
           (let since = (case since of Some t \<Rightarrow> t | None \<Rightarrow> utcTime (now - 24 * hour)) in
            (s, Answer 200 (map (\<lambda>f. \<lparr>sf_RawEventID = raw_ID f, sf_SourceIP = raw_SourceIP f,
                 sf_Reason = raw_SignatureError f, sf_ReceivedAt = raw_ReceivedAt f, sf_Bytes = length (raw_Body f)\<rparr>)
               (ListSignatureFailures (api_mem s) (id_TenantID i) epID since 200))))) s"

end
