(* ===== verification/Manage_Config.thy ===== *)
theory Manage_Config
  imports Manage
begin

text \<open>
  The management API, second part: destinations (\<^verbatim>\<open>internal/api/destinations.go\<close>) and uploaded adapters
  (\<^verbatim>\<open>internal/api/adapters.go\<close>: the in-memory adapter store, the handlers, and \<open>LoadTenantAdapters\<close>, which
  fills the registry after a restart).
\<close>

section \<open>Destinations\<close>

record createDestinationRequest =
  cq_Name :: string
  cq_URL :: string
  cq_SigningSecretRef :: string
  cq_Filter :: Filter
  cq_IncludeRaw :: bool
  cq_SchemaVersion :: string
  cq_RetryBackoffSeconds :: "int list"
  cq_TimeoutSeconds :: int

record destinationView =
  dv_ID :: string
  dv_Name :: string
  dv_URL :: string
  dv_SigningSecretRef :: string
  dv_Filter :: Filter
  dv_RetrySchedule :: "string list"
  dv_IncludeRaw :: bool
  dv_SchemaVersion :: string
  dv_Enabled :: bool
  dv_CreatedAt :: instant

definition viewDestination :: "ApiEnv \<Rightarrow> Destination \<Rightarrow> destinationView" where
  "viewDestination E d =
     (let policy = (if pol_Backoff (dst_RetryPolicy d) = [] then DefaultRetryPolicy else dst_RetryPolicy d) in
      \<lparr>dv_ID = dst_ID d, dv_Name = dst_Name d, dv_URL = dst_URL d, dv_SigningSecretRef = dst_SigningSecretRef d,
       dv_Filter = dst_Filter d, dv_RetrySchedule = map (de_fmtDuration (ae_dispatch E)) (pol_Backoff policy),
       dv_IncludeRaw = dst_IncludeRaw d, dv_SchemaVersion = ResolveSchema (dst_SchemaVersion d),
       dv_Enabled = dst_Enabled d, dv_CreatedAt = dst_CreatedAt d\<rparr>)"

text \<open>The seconds of a request become durations in 64 bits.\<close>

definition secondsToDuration :: "int \<Rightarrow> duration" where
  "secondsToDuration n = wrap64 (n * second)"

definition requestedPolicy :: "createDestinationRequest \<Rightarrow> RetryPolicy" where
  "requestedPolicy req =
     (let p = DefaultRetryPolicy;
          p = (if length (cq_RetryBackoffSeconds req) > 0
               then p\<lparr>pol_Backoff := map secondsToDuration (cq_RetryBackoffSeconds req)\<rparr> else p)
      in if cq_TimeoutSeconds req > 0 then p\<lparr>pol_Timeout := secondsToDuration (cq_TimeoutSeconds req)\<rparr> else p)"

text \<open>The checks of \<open>handleCreateDestination\<close>, in its order, up to the destination it builds.\<close>

definition newDestination ::
    "ApiEnv \<Rightarrow> instant \<Rightarrow> string \<Rightarrow> string \<Rightarrow> createDestinationRequest \<Rightarrow> refusal + Destination" where
  "newDestination E now newID tenantID req =
     (case ValidateDestinationURL (ae_parseURL E) (cq_URL req) of
        Some err \<Rightarrow> Inl (RefURL err)
      | None \<Rightarrow>
     (case (case ae_guard E of None \<Rightarrow> None | Some (net, g) \<Rightarrow> CheckURL net g (cq_URL req)) of
        Some err \<Rightarrow> Inl (RefGuard err)
      | None \<Rightarrow>
     if TrimSpace (cq_SigningSecretRef req) = [] then Inl RefNoSecretRef
     else case ae_resolve E (cq_SigningSecretRef req) of
        Inl err \<Rightarrow> Inl (RefSecret err)
      | Inr _ \<Rightarrow>
     (let schema = (if cq_SchemaVersion req = [] then SchemaV1 else cq_SchemaVersion req);
          policy = requestedPolicy req in
      if \<not> ValidSchemaVersion schema then Inl (RefSchema (cq_SchemaVersion req))
      else case Filter_Validate (cq_Filter req) of
        Some err \<Rightarrow> Inl (RefFilter err)
      | None \<Rightarrow>
     (case RetryPolicy_Validate policy of
        Some err \<Rightarrow> Inl (RefPolicy err)
      | None \<Rightarrow>
          Inr \<lparr>dst_ID = newID, dst_TenantID = tenantID, dst_Name = cq_Name req, dst_URL = cq_URL req,
               dst_SigningSecretRef = cq_SigningSecretRef req, dst_Filter = cq_Filter req, dst_RetryPolicy = policy,
               dst_IncludeRaw = cq_IncludeRaw req, dst_SchemaVersion = schema, dst_Enabled = True,
               dst_CreatedAt = now\<rparr>))))"

definition handleCreateDestination ::
    "ApiEnv \<Rightarrow> instant \<Rightarrow> string \<Rightarrow> Identity option \<Rightarrow> createDestinationRequest option \<Rightarrow> Api
       \<Rightarrow> Api \<times> destinationView reply" where
  "handleCreateDestination E now newID ctx body s =
     asTenant ctx (\<lambda>i.
       case body of
         None \<Rightarrow> (s, Refuse 400 RefBody)
       | Some req \<Rightarrow>
           (case newDestination E now newID (id_TenantID i) req of
              Inl r \<Rightarrow> (s, Refuse 400 r)
            | Inr dest \<Rightarrow>
                (case CreateDestination (api_mem s) dest of
                   (m, Some err) \<Rightarrow> (s, storeRefusal err)
                 | (m, None) \<Rightarrow>
                     (apiAudit E now i ''destination.created'' (subject ''destination'' newID)
                        [(''url'', JString (dst_URL dest)), (''include_raw'', JBool (dst_IncludeRaw dest)),
                         (''schema_version'', JString (dst_SchemaVersion dest))] (setMem m s),
                      Answer 201 (viewDestination E dest))))) s"

definition handleListDestinations :: "ApiEnv \<Rightarrow> Identity option \<Rightarrow> Api \<Rightarrow> Api \<times> destinationView list reply" where
  "handleListDestinations E ctx s =
     asTenant ctx (\<lambda>i. (s, Answer 200 (map (viewDestination E) (ListDestinations (api_mem s) (id_TenantID i))))) s"

definition handleGetDestination :: "ApiEnv \<Rightarrow> Identity option \<Rightarrow> string \<Rightarrow> Api \<Rightarrow> Api \<times> destinationView reply" where
  "handleGetDestination E ctx destID s =
     asTenant ctx (\<lambda>i.
       case GetDestination (api_mem s) (id_TenantID i) destID of
         Inl err \<Rightarrow> (s, storeRefusal err)
       | Inr d \<Rightarrow> (s, Answer 200 (viewDestination E d))) s"

definition handleDeleteDestination :: "ApiEnv \<Rightarrow> instant \<Rightarrow> Identity option \<Rightarrow> string \<Rightarrow> Api \<Rightarrow> Api \<times> unit reply" where
  "handleDeleteDestination E now ctx destID s =
     asTenant ctx (\<lambda>i.
       case DeleteDestination (api_mem s) (id_TenantID i) destID of
         (m, Some err) \<Rightarrow> (s, storeRefusal err)
       | (m, None) \<Rightarrow>
           (apiAudit E now i ''destination.deleted'' (subject ''destination'' destID) [] (setMem m s), Answer 204 ())) s"

section \<open>The adapter store\<close>

definition tenantConfigs :: "adapter_store \<Rightarrow> string \<Rightarrow> (string \<times> Config) list" where
  "tenantConfigs a tenantID = lookupOr [] a tenantID"

definition PutAdapter :: "string \<Rightarrow> Config \<Rightarrow> adapter_store \<Rightarrow> adapter_store" where
  "PutAdapter tenantID cfg a = AList.update tenantID (AList.update (cf_Name cfg) cfg (tenantConfigs a tenantID)) a"

definition StoredAdapter :: "adapter_store \<Rightarrow> string \<Rightarrow> string \<Rightarrow> Config option" where
  "StoredAdapter a tenantID name = map_of (tenantConfigs a tenantID) name"

definition ListAdapters :: "adapter_store \<Rightarrow> string \<Rightarrow> Config list" where
  "ListAdapters a tenantID = sort_key cf_Name (map snd (tenantConfigs a tenantID))"

definition DeleteAdapter :: "string \<Rightarrow> string \<Rightarrow> adapter_store \<Rightarrow> adapter_store option" where
  "DeleteAdapter tenantID name a =
     (case StoredAdapter a tenantID name of
        None \<Rightarrow> None
      | Some _ \<Rightarrow> Some (AList.update tenantID (AList.delete name (tenantConfigs a tenantID)) a))"

section \<open>Adapter handlers\<close>

record uploadAdapterRequest =
  ua_Config :: string
  ua_Samples :: "Sample list"

text \<open>\<open>now\<close> of a dry run is the server's clock too.\<close>

definition handleUploadAdapter ::
    "ApiEnv \<Rightarrow> instant \<Rightarrow> Identity option \<Rightarrow> uploadAdapterRequest option \<Rightarrow> Api \<Rightarrow> Api \<times> (string \<times> TestResult) reply" where
  "handleUploadAdapter E now ctx body s =
     asTenant ctx (\<lambda>i.
       case body of
         None \<Rightarrow> (s, Refuse 400 RefBody)
       | Some req \<Rightarrow>
           (case ParseConfig (ae_config E) (ua_Config req) of
              Inl err \<Rightarrow> (s, Refuse 400 (RefConfig err))
            | Inr cfg \<Rightarrow>
                (case Config_Validate (ae_adapters E) cfg of
                   Some err \<Rightarrow> (s, Refuse 400 (RefConfig err))
                 | None \<Rightarrow>
                     if IsBuiltIn (api_registry s) (cf_Name cfg) then (s, Refuse 409 (RefBuiltIn (cf_Name cfg)))
                     else let result = TestAdapter (ae_adapters E) now cfg (ua_Samples req) [] in
                     if \<not> tr_Valid result
                     then (s, Refuse 400 (case tr_Error result of Some e \<Rightarrow> RefConfig e | None \<Rightarrow> RefInternal))
                     else if list_ex (\<lambda>sr. \<not> sr_Parsed sr) (tr_Samples result) then (s, Refuse 400 (RefSamples result))
                     else case CompileConfig (ae_adapters E) cfg of
                       Inl err \<Rightarrow> (s, Refuse 400 (RefConfig err))
                     | Inr compiled \<Rightarrow>
                         (let s' = s\<lparr>api_adapters := PutAdapter (id_TenantID i) cfg (api_adapters s)\<rparr> in
                          case Register (api_registry s') (id_TenantID i) (declarative (ae_adapters E) compiled) of
                            (r, Some err) \<Rightarrow> (s', Refuse 409 (RefRegister err))
                          | (r, None) \<Rightarrow>
                              (apiAudit E now i ''adapter.uploaded'' (subject ''adapter'' (cf_Name cfg))
                                 [(''version'', JNumber (FormatInt (cf_Version cfg))),
                                  (''verification'', JString (vf_Type (cf_Verification cfg))),
                                  (''status_values'', JNumber (show_nat (length (sm_Values (mp_Status (cf_Mapping cfg)))))),
                                  (''samples_run'', JNumber (show_nat (length (ua_Samples req))))]
                                 (s'\<lparr>api_registry := r\<rparr>),
                               Answer 201 (cf_Name cfg, result)))))) s"

record testAdapterRequest =
  ta_Config :: string
  ta_Payloads :: "Sample list"
  ta_Secret :: string

definition handleTestAdapter ::
    "ApiEnv \<Rightarrow> instant \<Rightarrow> Identity option \<Rightarrow> string \<Rightarrow> testAdapterRequest option \<Rightarrow> Api \<Rightarrow> Api \<times> TestResult reply" where
  "handleTestAdapter E now ctx name body s =
     asTenant ctx (\<lambda>i.
       case body of
         None \<Rightarrow> (s, Refuse 400 RefBody)
       | Some req \<Rightarrow>
           (let answer = (\<lambda>cfg. (s, Answer 200 (TestAdapter (ae_adapters E) now cfg (ta_Payloads req) (ta_Secret req)))) in
            if length (ta_Config req) > 0
            then (case ParseConfig (ae_config E) (ta_Config req) of
                    Inl err \<Rightarrow> (s, Refuse 400 (RefConfig err))
                  | Inr cfg \<Rightarrow> answer cfg)
            else (case StoredAdapter (api_adapters s) (id_TenantID i) name of
                    None \<Rightarrow> (s, Refuse 404 RefNotFound)
                  | Some cfg \<Rightarrow> answer cfg))) s"

definition handleInferAdapter ::
    "ApiEnv \<Rightarrow> instant \<Rightarrow> Identity option \<Rightarrow> (string \<times> Sample list) option \<Rightarrow> Api \<Rightarrow> Api \<times> (Proposal \<times> TestResult) reply" where
  "handleInferAdapter E now ctx body s =
     asTenant ctx (\<lambda>i.
       case body of
         None \<Rightarrow> (s, Refuse 400 RefBody)
       | Some (name, payloads) \<Rightarrow>
           if name = [] then (s, Refuse 400 RefName)
           else if length payloads < 2 then (s, Refuse 400 (RefFewSamples (length payloads)))
           else case InferDraft (ae_adapters E) name payloads of
             Inl err \<Rightarrow> (s, Refuse 400 (RefInfer err))
           | Inr proposal \<Rightarrow>
               (s, Answer 200 (proposal, TestAdapter (ae_adapters E) now (pr_Config proposal) payloads []))) s"

fun usedBy :: "string \<Rightarrow> Endpoint list \<Rightarrow> Endpoint option" where
  "usedBy name [] = None"
| "usedBy name (e # es) = (if ep_AdapterName e = name then Some e else usedBy name es)"

definition handleDeleteAdapter ::
    "ApiEnv \<Rightarrow> instant \<Rightarrow> Identity option \<Rightarrow> string \<Rightarrow> Api \<Rightarrow> Api \<times> unit reply" where
  "handleDeleteAdapter E now ctx name s =
     asTenant ctx (\<lambda>i.
       case usedBy name (ListEndpoints (api_mem s) (id_TenantID i)) of
         Some ep \<Rightarrow> (s, Refuse 409 (RefInUse (ep_ID ep)))
       | None \<Rightarrow>
           (case DeleteAdapter (id_TenantID i) name (api_adapters s) of
              None \<Rightarrow> (s, Refuse 404 RefNotFound)
            | Some a \<Rightarrow>
                (apiAudit E now i ''adapter.deleted'' (subject ''adapter'' name) []
                   (s\<lparr>api_adapters := a, api_registry := Unregister (api_registry s) (id_TenantID i) name\<rparr>),
                 Answer 204 ()))) s"

section \<open>After a restart\<close>

text \<open>A stored adapter that no longer compiles, or that the registry refuses, is skipped.\<close>

fun loadConfigs :: "AdapterLib \<Rightarrow> string \<Rightarrow> Config list \<Rightarrow> Registry \<Rightarrow> Registry" where
  "loadConfigs L tenantID [] r = r"
| "loadConfigs L tenantID (cfg # cfgs) r =
     loadConfigs L tenantID cfgs
       (case CompileConfig L cfg of Inl _ \<Rightarrow> r | Inr a \<Rightarrow> fst (Register r tenantID (declarative L a)))"

fun loadTenants :: "AdapterLib \<Rightarrow> adapter_store \<Rightarrow> Tenant list \<Rightarrow> Registry \<Rightarrow> Registry" where
  "loadTenants L a [] r = r"
| "loadTenants L a (t # ts) r = loadTenants L a ts (loadConfigs L (ten_ID t) (ListAdapters a (ten_ID t)) r)"

definition LoadTenantAdapters :: "AdapterLib \<Rightarrow> Memory \<Rightarrow> adapter_store \<Rightarrow> Registry \<Rightarrow> Registry" where
  "LoadTenantAdapters L m a r = loadTenants L a (ListTenants m) r"

end
