(* ===== verification/Manage_Events.thy ===== *)
theory Manage_Events
  imports Manage_Config
begin

text \<open>
  The management API, third part: events, replays, deliveries, unknown statuses (\<^verbatim>\<open>internal/api/events.go\<close>)
  and the audit trail (\<^verbatim>\<open>internal/api/audit_keys.go\<close>), then all state-changing routes as one operation type
  with the route they are reached by. Query parameters are strings, empty when absent, as \<open>url.Values.Get\<close>
  returns them.
\<close>

section \<open>Parameters\<close>

fun firstTime :: "AdapterLib \<Rightarrow> string list \<Rightarrow> string \<Rightarrow> gotime option" where
  "firstTime L [] s = None"
| "firstTime L (layout # ls) s = (case al_timeParse L layout s of Some t \<Rightarrow> Some (to_UTC t) | None \<Rightarrow> firstTime L ls s)"

definition apiLayouts :: "string list" where
  "apiLayouts = [''2006-01-02T15:04:05.999999999Z07:00'', ''2006-01-02T15:04:05Z07:00'', ''2006-01-02'']"

definition parseTimeParam :: "AdapterLib \<Rightarrow> string \<Rightarrow> gotime option" where
  "parseTimeParam L s = (if TrimSpace s = [] then None else firstTime L apiLayouts s)"

definition timeOr :: "gotime \<Rightarrow> AdapterLib \<Rightarrow> string \<Rightarrow> gotime" where
  "timeOr d L s = (case parseTimeParam L s of Some t \<Rightarrow> t | None \<Rightarrow> d)"

section \<open>Events\<close>

record eventParams =
  xp_provider :: string
  xp_transactionRef :: string
  xp_cursor :: string
  xp_status :: string
  xp_eventType :: string
  xp_mappingComplete :: string
  xp_from :: string
  xp_to :: string
  xp_limit :: string

definition eventQueryOf :: "AdapterLib \<Rightarrow> eventParams \<Rightarrow> string + EventQuery" where
  "eventQueryOf L p =
     (if xp_status p \<noteq> [] \<and> ParseStatus (xp_status p) = None then Inl ''status''
      else if xp_eventType p \<noteq> [] \<and> \<not> EventType_Valid (xp_eventType p) then Inl ''event_type''
      else if xp_mappingComplete p \<noteq> [] \<and> ParseBool (xp_mappingComplete p) = None then Inl ''mapping_complete''
      else case (if xp_limit p = [] then Some 0 else ParseInt (xp_limit p)) of
             None \<Rightarrow> Inl ''limit''
           | Some n \<Rightarrow>
               if xp_limit p \<noteq> [] \<and> n \<le> 0 then Inl ''limit''
               else Inr \<lparr>q_Provider = TrimSpace (xp_provider p), q_Status = xp_status p, q_EventType = xp_eventType p,
                      q_TransactionRef = TrimSpace (xp_transactionRef p),
                      q_MappingComplete = (if xp_mappingComplete p = [] then None else ParseBool (xp_mappingComplete p)),
                      q_From = timeOr zeroTime L (xp_from p), q_To = timeOr zeroTime L (xp_to p),
                      q_Cursor = TrimSpace (xp_cursor p), q_Limit = n\<rparr>)"

text \<open>The page and its cursor.\<close>

definition handleQueryEvents ::
    "ApiEnv \<Rightarrow> Identity option \<Rightarrow> eventParams \<Rightarrow> Api \<Rightarrow> Api \<times> (Payload list \<times> string option) reply" where
  "handleQueryEvents E ctx p s =
     asTenant ctx (\<lambda>i.
       case eventQueryOf (ae_adapters E) p of
         Inl what \<Rightarrow> (s, Refuse 400 (RefQuery what))
       | Inr q \<Rightarrow>
           (let events = QueryEvents (api_mem s) (id_TenantID i) q in
            (s, Answer 200 (map (\<lambda>e. BuildPayload (ae_dispatch E) e []) events,
                            if events = [] then None else Some (ev_ID (last events)))))) s"

definition handleGetEvent ::
    "ApiEnv \<Rightarrow> Identity option \<Rightarrow> string \<Rightarrow> Api \<Rightarrow> Api \<times> (Payload \<times> string \<times> Delivery list) reply" where
  "handleGetEvent E ctx evID s =
     asTenant ctx (\<lambda>i.
       case GetCanonicalEvent (api_mem s) (id_TenantID i) evID of
         Inl err \<Rightarrow> (s, storeRefusal err)
       | Inr ev \<Rightarrow> (s, Answer 200 (BuildPayload (ae_dispatch E) ev [], ev_RawEventID ev,
                        ListDeliveriesForEvent (api_mem s) (id_TenantID i) (ev_ID ev)))) s"

definition handleGetRawPayload ::
    "ApiEnv \<Rightarrow> instant \<Rightarrow> Identity option \<Rightarrow> string \<Rightarrow> Api \<Rightarrow> Api \<times> RawEvent reply" where
  "handleGetRawPayload E now ctx evID s =
     asTenant ctx (\<lambda>i.
       case GetCanonicalEvent (api_mem s) (id_TenantID i) evID of
         Inl err \<Rightarrow> (s, storeRefusal err)
       | Inr ev \<Rightarrow>
           (case GetRawEvent (api_mem s) (id_TenantID i) (ev_RawEventID ev) of
              Inl err \<Rightarrow> (s, storeRefusal err)
            | Inr raw \<Rightarrow>
                (apiAudit E now i ''raw_payload.read'' (subject ''raw_event'' (raw_ID raw))
                   [(''event'', JString (ev_ID ev)), (''provider'', JString (raw_Provider raw))] s,
                 Answer 200 raw))) s"

section \<open>Replays\<close>

fun replayRefusal :: "replay_error \<Rightarrow> 'a reply" where
  "replayRefusal (ReplayDestination i) = Refuse 404 (RefReplay (ReplayDestination i))"
| "replayRefusal (ReplayEvent i) = Refuse 404 (RefReplay (ReplayEvent i))"
| "replayRefusal (ReplayQueueing err) = storeRefusal err"
| "replayRefusal err = Refuse 500 (RefReplay err)"

text \<open>The body of a single replay is optional: \<^const>\<open>None\<close> is one that does not decode.\<close>

definition handleReplayEvent ::
    "ApiEnv \<Rightarrow> instant \<Rightarrow> Identity option \<Rightarrow> string \<Rightarrow> string list option \<Rightarrow> Api \<Rightarrow> Api \<times> ReplayResult reply" where
  "handleReplayEvent E now ctx evID body s =
     asTenant ctx (\<lambda>i.
       if \<not> ae_dispatcher E then (s, Refuse 503 RefNoDispatcher)
       else case body of
         None \<Rightarrow> (s, Refuse 400 RefBody)
       | Some destIDs \<Rightarrow>
           (case Replay (ae_dispatch E) now (id_TenantID i)
                   \<lparr>rp_EventIDs = [evID], rp_Filter = None, rp_DestinationIDs = destIDs, rp_DryRun = False\<rparr> (api_disp s) of
              (d, res, Some err) \<Rightarrow> (s\<lparr>api_disp := d\<rparr>, replayRefusal err)
            | (d, res, None) \<Rightarrow> (s\<lparr>api_disp := d\<rparr>, Answer 202 res))) s"

record bulkReplayRequest =
  br_EventIDs :: "string list"
  br_Provider :: string
  br_Status :: string
  br_TransactionRef :: string
  br_From :: string
  br_To :: string
  br_DestinationIDs :: "string list"
  br_DryRun :: bool

definition bulkRequest :: "AdapterLib \<Rightarrow> bulkReplayRequest \<Rightarrow> ReplayRequest option" where
  "bulkRequest L req =
     (let filter = (if br_EventIDs req = []
                    then Some \<lparr>q_Provider = br_Provider req, q_Status = br_Status req, q_EventType = [],
                               q_TransactionRef = br_TransactionRef req, q_MappingComplete = None,
                               q_From = timeOr zeroTime L (br_From req), q_To = timeOr zeroTime L (br_To req),
                               q_Cursor = [], q_Limit = 0\<rparr>
                    else None)
      in if br_EventIDs req = [] \<and> br_Status req \<noteq> [] \<and> ParseStatus (br_Status req) = None then None
         else Some \<lparr>rp_EventIDs = br_EventIDs req, rp_Filter = filter, rp_DestinationIDs = br_DestinationIDs req,
                    rp_DryRun = br_DryRun req\<rparr>)"

definition handleBulkReplay ::
    "ApiEnv \<Rightarrow> instant \<Rightarrow> Identity option \<Rightarrow> bulkReplayRequest option \<Rightarrow> Api \<Rightarrow> Api \<times> ReplayResult reply" where
  "handleBulkReplay E now ctx body s =
     asTenant ctx (\<lambda>i.
       if \<not> ae_dispatcher E then (s, Refuse 503 RefNoDispatcher)
       else case body of
         None \<Rightarrow> (s, Refuse 400 RefBody)
       | Some req \<Rightarrow>
           (case bulkRequest (ae_adapters E) req of
              None \<Rightarrow> (s, Refuse 400 (RefQuery ''status''))
            | Some rr \<Rightarrow>
                (case Replay (ae_dispatch E) now (id_TenantID i) rr (api_disp s) of
                   (d, res, Some err) \<Rightarrow> (s\<lparr>api_disp := d\<rparr>, Refuse 400 (RefReplay err))
                 | (d, res, None) \<Rightarrow>
                     (let s = s\<lparr>api_disp := d\<rparr> in
                      (if br_DryRun req then s
                       else apiAudit E now i ''event.replayed'' (subject ''tenant'' (id_TenantID i))
                              [(''matched'', JNumber (FormatInt (rr_Matched res))), (''queued'', JNumber (FormatInt (rr_Queued res))),
                               (''destinations'', JArray (map JString (rr_Destinations res)))] s,
                       Answer 202 res))))) s"

section \<open>Deliveries and statuses\<close>

record deliveryParams =
  dp_destinationID :: string
  dp_eventID :: string
  dp_status :: string
  dp_cursor :: string
  dp_limit :: string

definition deliveryStatuses :: "(string \<times> DeliveryStatus) list" where
  "deliveryStatuses =
     [(''pending'', DeliveryPending), (''in_flight'', DeliveryInFlight), (''succeeded'', DeliverySucceeded),
      (''failed'', DeliveryFailed), (''dead_letter'', DeliveryDeadLetter)]"

text \<open>A status that names none of the five is passed on and matches no delivery; a limit that is no number is
  zero, which asks for the default.\<close>

definition handleQueryDeliveries :: "Identity option \<Rightarrow> deliveryParams \<Rightarrow> Api \<Rightarrow> Api \<times> Delivery list reply" where
  "handleQueryDeliveries ctx p s =
     asTenant ctx (\<lambda>i.
       case (if dp_cursor p = [] then Some 0 else ParseInt (dp_cursor p)) of
         None \<Rightarrow> (s, Refuse 400 (RefQuery ''cursor''))
       | Some cursor \<Rightarrow>
           (s, Answer 200
             (if dp_status p \<noteq> [] \<and> map_of deliveryStatuses (dp_status p) = None then []
              else QueryDeliveries (api_mem s) (id_TenantID i)
                \<lparr>dq_DestinationID = TrimSpace (dp_destinationID p), dq_Status = map_of deliveryStatuses (dp_status p),
                 dq_EventID = TrimSpace (dp_eventID p), dq_From = zero_time, dq_To = zero_time, dq_Cursor = cursor,
                 dq_Limit = (case ParseInt (dp_limit p) of Some n \<Rightarrow> n | None \<Rightarrow> 0)\<rparr>))) s"

definition handleRetryDelivery :: "ApiEnv \<Rightarrow> instant \<Rightarrow> Identity option \<Rightarrow> string \<Rightarrow> Api \<Rightarrow> Api \<times> int reply" where
  "handleRetryDelivery E now ctx delID s =
     asTenant ctx (\<lambda>i.
       if \<not> ae_dispatcher E then (s, Refuse 503 RefNoDispatcher)
       else case ParseInt delID of
         None \<Rightarrow> (s, Refuse 400 (RefQuery ''id''))
       | Some n \<Rightarrow>
           (case RetryDeadLetter (ae_dispatch E) now (id_TenantID i) n (api_disp s) of
              (d, Inl err) \<Rightarrow> (s\<lparr>api_disp := d\<rparr>, replayRefusal err)
            | (d, Inr new) \<Rightarrow> (s\<lparr>api_disp := d\<rparr>, Answer 202 new))) s"

definition handleUnknownStatuses :: "ApiEnv \<Rightarrow> instant \<Rightarrow> Identity option \<Rightarrow> string \<Rightarrow> Api \<Rightarrow> Api \<times> UnknownStatus list reply" where
  "handleUnknownStatuses E now ctx since s =
     asTenant ctx (\<lambda>i. (s, Answer 200 (UnknownStatuses (api_mem s) (id_TenantID i)
       (timeOr (utcTime (now - 30 * (24 * hour))) (ae_adapters E) since)))) s"

section \<open>The audit trail\<close>

definition handleListAudit ::
    "ApiEnv \<Rightarrow> instant \<Rightarrow> Identity option \<Rightarrow> string \<Rightarrow> string \<Rightarrow> Api \<Rightarrow> Api \<times> AuditRecord list reply" where
  "handleListAudit E now ctx since limit s =
     asTenant ctx (\<lambda>i. (s, Answer 200 (ListAudit (api_mem s) (id_TenantID i)
       (timeOr (utcTime (now - 7 * (24 * hour))) (ae_adapters E) since)
       (case ParseInt limit of Some n \<Rightarrow> n | None \<Rightarrow> 100)))) s"

definition handleVerifyAudit :: "ApiEnv \<Rightarrow> instant \<Rightarrow> Identity option \<Rightarrow> Api \<Rightarrow> Api \<times> ChainProof reply" where
  "handleVerifyAudit E now ctx s =
     asTenant ctx (\<lambda>i.
       let proof = VerifyChain (de_audit (ae_dispatch E)) (utcTime now) (api_mem s) (id_TenantID i)
       in (s, Answer (if cp_Intact proof then 200 else 409) proof)) s"

section \<open>The routes that change state\<close>

datatype api_op =
    OpCreateKey KeySeed "createKeyRequest option"
  | OpRevokeKey string
  | OpCreateEndpoint string string "createEndpointRequest option"
  | OpDeleteEndpoint string
  | OpRotateToken string string
  | OpCreateDestination string "createDestinationRequest option"
  | OpDeleteDestination string
  | OpUploadAdapter "uploadAdapterRequest option"
  | OpDeleteAdapter string
  | OpReadRaw string
  | OpReplayEvent string "string list option"
  | OpBulkReplay "bulkReplayRequest option"
  | OpRetryDelivery string

fun routeOf :: "api_op \<Rightarrow> string \<times> string" where
  "routeOf (OpCreateKey _ _) = (''POST'', ''/v1/keys'')"
| "routeOf (OpRevokeKey _) = (''DELETE'', ''/v1/keys/{id}'')"
| "routeOf (OpCreateEndpoint _ _ _) = (''POST'', ''/v1/endpoints'')"
| "routeOf (OpDeleteEndpoint _) = (''DELETE'', ''/v1/endpoints/{id}'')"
| "routeOf (OpRotateToken _ _) = (''POST'', ''/v1/endpoints/{id}/rotate-token'')"
| "routeOf (OpCreateDestination _ _) = (''POST'', ''/v1/destinations'')"
| "routeOf (OpDeleteDestination _) = (''DELETE'', ''/v1/destinations/{id}'')"
| "routeOf (OpUploadAdapter _) = (''POST'', ''/v1/adapters'')"
| "routeOf (OpDeleteAdapter _) = (''DELETE'', ''/v1/adapters/{name}'')"
| "routeOf (OpReadRaw _) = (''GET'', ''/v1/events/{id}/raw'')"
| "routeOf (OpReplayEvent _ _) = (''POST'', ''/v1/events/{id}/replay'')"
| "routeOf (OpBulkReplay _) = (''POST'', ''/v1/events/replay'')"
| "routeOf (OpRetryDelivery _) = (''POST'', ''/v1/deliveries/{id}/retry'')"

definition findRoute :: "string \<times> string \<Rightarrow> routeSpec option" where
  "findRoute mp = List.find (\<lambda>r. (rt_Method r, rt_Path r) = mp) routes"

fun handle :: "ApiEnv \<Rightarrow> instant \<Rightarrow> Identity option \<Rightarrow> api_op \<Rightarrow> Api \<Rightarrow> Api" where
  "handle E now ctx (OpCreateKey seed b) s = fst (handleCreateKey E now seed ctx b s)"
| "handle E now ctx (OpRevokeKey k) s = fst (handleRevokeKey E now ctx k s)"
| "handle E now ctx (OpCreateEndpoint i t b) s = fst (handleCreateEndpoint E now i t ctx b s)"
| "handle E now ctx (OpDeleteEndpoint i) s = fst (handleDeleteEndpoint E now ctx i s)"
| "handle E now ctx (OpRotateToken t i) s = fst (handleRotateToken E now t ctx i s)"
| "handle E now ctx (OpCreateDestination i b) s = fst (handleCreateDestination E now i ctx b s)"
| "handle E now ctx (OpDeleteDestination i) s = fst (handleDeleteDestination E now ctx i s)"
| "handle E now ctx (OpUploadAdapter b) s = fst (handleUploadAdapter E now ctx b s)"
| "handle E now ctx (OpDeleteAdapter n) s = fst (handleDeleteAdapter E now ctx n s)"
| "handle E now ctx (OpReadRaw i) s = fst (handleGetRawPayload E now ctx i s)"
| "handle E now ctx (OpReplayEvent i b) s = fst (handleReplayEvent E now ctx i b s)"
| "handle E now ctx (OpBulkReplay b) s = fst (handleBulkReplay E now ctx b s)"
| "handle E now ctx (OpRetryDelivery i) s = fst (handleRetryDelivery E now ctx i s)"

text \<open>
  One request through \<open>Handler\<close>: authenticated, recorded as a use of the key, checked against the role of its
  route, and handled. Requests are served one at a time.
\<close>

record call =
  cl_now :: instant
  cl_auth :: string
  cl_ip :: string
  cl_op :: api_op

definition serveCall :: "ApiEnv \<Rightarrow> Api \<Rightarrow> call \<Rightarrow> Api" where
  "serveCall E s c =
     (case authenticate (ae_keys E) (api_mem s) (api_keys s) (cl_now c) (cl_auth c) (cl_ip c) of
        Inl _ \<Rightarrow> s
      | Inr i \<Rightarrow>
          (let s = s\<lparr>api_keys := fst (TouchKey (id_KeyID i) (cl_now c) (api_keys s))\<rparr> in
           case findRoute (routeOf (cl_op c)) of
             None \<Rightarrow> s
           | Some r \<Rightarrow>
               (case requireRole (rt_Role r) (Some i) of
                  GateOpen _ \<Rightarrow> handle E (cl_now c) (Some i) (cl_op c) s
                | _ \<Rightarrow> s)))"

end
