(* ===== verification/Manage_Adapters.thy ===== *)
theory Manage_Adapters
  imports Manage_Spec Normaliser_Spec
begin

text \<open>
  Uploaded adapters over any sequence of management calls: the registry holds exactly what the stored
  configurations compile to, every endpoint names an adapter its tenant has, a restart rebuilds the same
  registry, and no registered adapter can make the normaliser panic.
\<close>

section \<open>The invariant\<close>

definition compiledAs :: "AdapterLib \<Rightarrow> adapter_store \<Rightarrow> string \<Rightarrow> string \<Rightarrow> Adapter option" where
  "compiledAs L a t n =
     (case StoredAdapter a t n of
        None \<Rightarrow> None
      | Some cfg \<Rightarrow> (case CompileConfig L cfg of Inl _ \<Rightarrow> None | Inr x \<Rightarrow> Some (declarative L x)))"

definition stored_wf :: "(string \<times> Adapter) list \<Rightarrow> Memory \<Rightarrow> adapter_store \<Rightarrow> bool" where
  "stored_wf b m a \<longleftrightarrow> (\<forall>t. keys_distinct (tenantConfigs a t))
     \<and> (\<forall>t n cfg. StoredAdapter a t n = Some cfg \<longrightarrow> cf_Name cfg = n \<and> map_of b n = None \<and> map_of (mem_tenants m) t \<noteq> None)"

definition adapters_inv :: "AdapterLib \<Rightarrow> (string \<times> Adapter) list \<Rightarrow> Api \<Rightarrow> bool" where
  "adapters_inv L b s \<longleftrightarrow>
     reg_builtin (api_registry s) = b
     \<and> keys_wf (api_keys s)
     \<and> (\<forall>t x. map_of (mem_tenants (api_mem s)) t = Some x \<longrightarrow> ten_ID x = t)
     \<and> stored_wf b (api_mem s) (api_adapters s)
     \<and> (\<forall>t n. map_of (declaredFor (api_registry s) t) n = compiledAs L (api_adapters s) t n)
     \<and> (\<forall>e \<in> snd ` set (mem_endpoints (api_mem s)). GetAdapter (api_registry s) (ep_TenantID e) (ep_AdapterName e) \<noteq> None)"

section \<open>How a call changes endpoints and adapters\<close>

definition same_config :: "Api \<Rightarrow> Api \<Rightarrow> bool" where
  "same_config s s' \<longleftrightarrow> api_adapters s' = api_adapters s \<and> api_registry s' = api_registry s
     \<and> mem_tenants (api_mem s') = mem_tenants (api_mem s)"

definition same_setup :: "Api \<Rightarrow> Api \<Rightarrow> bool" where
  "same_setup s s' \<longleftrightarrow> same_config s s' \<and> mem_endpoints (api_mem s') = mem_endpoints (api_mem s)"

lemma same_refl [simp]: "same_config s s" "same_setup s s"
  by (simp_all add: same_config_def same_setup_def)

lemma table_ops:
  "CreateEndpoint m e = (m', None) \<Longrightarrow> m' = m\<lparr>mem_endpoints := AList.update (ep_ID e) e (mem_endpoints m)\<rparr>"
  "DeleteEndpoint m t i = (m', None) \<Longrightarrow> m' = m\<lparr>mem_endpoints := AList.delete i (mem_endpoints m)\<rparr>"
  "UpdateEndpoint m t e = (m', None) \<Longrightarrow>
     m' = m\<lparr>mem_endpoints := AList.update (ep_ID e) (e\<lparr>ep_TenantID := t\<rparr>) (mem_endpoints m)\<rparr>"
  "GetEndpoint m t i = Inr old \<Longrightarrow> old \<in> snd ` set (mem_endpoints m) \<and> ep_TenantID old = t"
  "CreateDestination m d = (m', r) \<Longrightarrow> mem_endpoints m' = mem_endpoints m \<and> mem_tenants m' = mem_tenants m"
  "DeleteDestination m t i = (m', r) \<Longrightarrow> mem_endpoints m' = mem_endpoints m \<and> mem_tenants m' = mem_tenants m"
  by (auto simp: CreateEndpoint_def DeleteEndpoint_def UpdateEndpoint_def GetEndpoint_def CreateDestination_def
      DeleteDestination_def dest!: map_of_SomeD split: option.splits if_splits intro: rev_image_eqI)

lemma set_delete_subset: "set (AList.delete k xs) \<subseteq> set xs"
  by (auto simp: AList.delete_eq)

lemma CreateEndpoint_setup:
  assumes "handleCreateEndpoint E now newID token (Some i) b s = (s', r)"
  shows "same_setup s s' \<or> same_config s s' \<and> (\<exists>e. mem_endpoints (api_mem s') = AList.update (ep_ID e) e (mem_endpoints (api_mem s))
     \<and> ep_TenantID e = id_TenantID i \<and> GetAdapter (api_registry s) (id_TenantID i) (ep_AdapterName e) \<noteq> None)"
proof -
  have new: "ep_TenantID (newEndpoint newID token now t env p req a) = t" "ep_AdapterName (newEndpoint newID token now t env p req a) = a"
    for t env p req a by (simp_all add: newEndpoint_def)
  have "s' = s \<or> (\<exists>req env a m p payload. GetAdapter (api_registry s) (id_TenantID i) a \<noteq> None
      \<and> CreateEndpoint (api_mem s) (newEndpoint newID token now (id_TenantID i) env p req a) = (m, None)
           \<and> s' = apiAudit E now i ''endpoint.created'' (subject ''endpoint'' newID) payload (setMem m s))"
    using assms unfolding handleCreateEndpoint_def asTenant_def Let_def
    by (auto split: option.splits if_splits sum.splits prod.splits) (metis option.distinct(1))+
  then show ?thesis
  proof (elim disjE exE conjE)
    fix req env a m p payload
    assume "CreateEndpoint (api_mem s) (newEndpoint newID token now (id_TenantID i) env p req a) = (m, None)"
      "s' = apiAudit E now i ''endpoint.created'' (subject ''endpoint'' newID) payload (setMem m s)"
      "GetAdapter (api_registry s) (id_TenantID i) a \<noteq> None"
    with table_ops(1) [OF this(1)] show ?thesis
      by (intro disjI2 conjI exI [of _ "newEndpoint newID token now (id_TenantID i) env p req a"])
        (simp_all add: same_config_def new)
  qed simp
qed

lemma DeleteEndpoint_setup:
  assumes "handleDeleteEndpoint E now (Some i) epID s = (s', r)"
  shows "same_config s s' \<and> set (mem_endpoints (api_mem s')) \<subseteq> set (mem_endpoints (api_mem s))"
  using assms subsetD [OF set_delete_subset]
  by (auto simp: handleDeleteEndpoint_def asTenant_def same_config_def dest!: table_ops(2)
      split: option.splits if_splits prod.splits)

lemma RotateToken_setup:
  assumes "handleRotateToken E now token (Some i) epID s = (s', r)"
  shows "same_setup s s' \<or> same_config s s' \<and> (\<exists>e old. mem_endpoints (api_mem s') = AList.update (ep_ID e) e (mem_endpoints (api_mem s))
     \<and> old \<in> snd ` set (mem_endpoints (api_mem s)) \<and> ep_TenantID e = ep_TenantID old \<and> ep_AdapterName e = ep_AdapterName old)"
proof -
  have "s' = s \<or> (\<exists>old e m payload. GetEndpoint (api_mem s) (id_TenantID i) epID = Inr old
      \<and> e = old\<lparr>ep_ReceiverToken := token, ep_RotatedAt := now\<rparr>
      \<and> UpdateEndpoint (api_mem s) (id_TenantID i) e = (m, None)
           \<and> s' = apiAudit E now i ''endpoint.token_rotated'' (subject ''endpoint'' (ep_ID e)) payload (setMem m s))"
    using assms unfolding handleRotateToken_def asTenant_def Let_def
    by (auto split: option.splits if_splits sum.splits prod.splits)
  then show ?thesis
  proof (elim disjE exE conjE)
    fix old e m payload
    assume g: "GetEndpoint (api_mem s) (id_TenantID i) epID = Inr old" and e: "e = old\<lparr>ep_ReceiverToken := token, ep_RotatedAt := now\<rparr>"
      and u: "UpdateEndpoint (api_mem s) (id_TenantID i) e = (m, None)"
      and s': "s' = apiAudit E now i ''endpoint.token_rotated'' (subject ''endpoint'' (ep_ID e)) payload (setMem m s)"
    from table_ops(4) [OF g] have "e\<lparr>ep_TenantID := id_TenantID i\<rparr> = e" using e by simp
    with table_ops(3) [OF u] have "m = (api_mem s)\<lparr>mem_endpoints := AList.update (ep_ID e) e (mem_endpoints (api_mem s))\<rparr>"
      by simp
    with s' table_ops(4) [OF g] e show ?thesis
      by (intro disjI2 conjI exI [of _ e] exI [of _ old]) (simp_all add: same_config_def)
  qed simp
qed

lemma rest_setup:
  "same_setup s (fst (handleCreateDestination E now i ctx cb s))"
  "same_setup s (fst (handleDeleteDestination E now ctx i s))"
  "same_setup s (fst (handleGetRawPayload E now ctx i s))"
  "same_setup s (fst (handleReplayEvent E now ctx i rb s))"
  "same_setup s (fst (handleBulkReplay E now ctx bb s))"
  "same_setup s (fst (handleRetryDelivery E now ctx i s))"
  by (auto simp: handleCreateDestination_def handleDeleteDestination_def handleGetRawPayload_def handleReplayEvent_def
      handleBulkReplay_def handleRetryDelivery_def asTenant_fst Let_def same_setup_def same_config_def
      dest!: table_ops(5,6) Replay_tables RetryDeadLetter_tables split: option.split sum.split prod.split)

section \<open>Uploading and deleting\<close>

lemma StoredAdapter_Put:
  "StoredAdapter (PutAdapter t cfg a) u n = (if u = t \<and> n = cf_Name cfg then Some cfg else StoredAdapter a u n)"
  by (auto simp: StoredAdapter_def PutAdapter_def tenantConfigs_def lookupOr_def update_conv')

lemma tenantConfigs_Put:
  "tenantConfigs (PutAdapter t cfg a) u
     = (if u = t then AList.update (cf_Name cfg) cfg (tenantConfigs a t) else tenantConfigs a u)"
  by (auto simp: PutAdapter_def tenantConfigs_def lookupOr_def update_conv')

lemma StoredAdapter_Delete:
  "DeleteAdapter t name a = Some a' \<Longrightarrow>
     StoredAdapter a' u n = (if u = t \<and> n = name then None else StoredAdapter a u n)
     \<and> tenantConfigs a' u = (if u = t then AList.delete name (tenantConfigs a t) else tenantConfigs a u)"
  by (auto simp: StoredAdapter_def DeleteAdapter_def tenantConfigs_def lookupOr_def update_conv' delete_conv'
      split: option.splits)

lemma declarative_name: "CompileConfig L cfg = Inr c \<Longrightarrow> ad_Name (declarative L c) = cf_Name cfg"
  by (simp add: declarative_def CompileConfig_Inr(2))

lemma UploadAdapter_setup:
  assumes "handleUploadAdapter E now (Some i) b s = (s', r)"
  shows "s' = s \<or> (\<exists>cfg c. map_of (reg_builtin (api_registry s)) (cf_Name cfg) = None \<and> CompileConfig (ae_adapters E) cfg = Inr c
     \<and> api_adapters s' = PutAdapter (id_TenantID i) cfg (api_adapters s)
     \<and> api_registry s' = fst (Register (api_registry s) (id_TenantID i) (declarative (ae_adapters E) c))
     \<and> mem_tenants (api_mem s') = mem_tenants (api_mem s) \<and> mem_endpoints (api_mem s') = mem_endpoints (api_mem s))"
proof -
  have reg: "map_of (reg_builtin r) (cf_Name cfg) = None \<Longrightarrow> CompileConfig (ae_adapters E) cfg = Inr c \<Longrightarrow>
      snd (Register r t (declarative (ae_adapters E) c)) = None" for r t cfg c
    by (simp add: Register_def declarative_name)
  have "s' = s
     \<or> (\<exists>cfg c r err. \<not> IsBuiltIn (api_registry s) (cf_Name cfg) \<and> CompileConfig (ae_adapters E) cfg = Inr c
          \<and> Register (api_registry s) (id_TenantID i) (declarative (ae_adapters E) c) = (r, Some err))
     \<or> (\<exists>cfg c r p. \<not> IsBuiltIn (api_registry s) (cf_Name cfg) \<and> CompileConfig (ae_adapters E) cfg = Inr c
          \<and> Register (api_registry s) (id_TenantID i) (declarative (ae_adapters E) c) = (r, None)
          \<and> s' = apiAudit E now i ''adapter.uploaded'' (subject ''adapter'' (cf_Name cfg)) p
               (s\<lparr>api_adapters := PutAdapter (id_TenantID i) cfg (api_adapters s), api_registry := r\<rparr>))"
    using assms unfolding handleUploadAdapter_def asTenant_def
    by (simp add: Let_def split: option.splits if_splits sum.splits prod.splits) blast+
  then show ?thesis
  proof (elim disjE exE conjE)
    fix cfg c r err
    assume "\<not> IsBuiltIn (api_registry s) (cf_Name cfg)" "CompileConfig (ae_adapters E) cfg = Inr c"
      "Register (api_registry s) (id_TenantID i) (declarative (ae_adapters E) c) = (r, Some err)"
    with reg [of "api_registry s" cfg c "id_TenantID i"] show ?thesis by (simp add: IsBuiltIn_def)
  next
    fix cfg c r p
    assume *: "\<not> IsBuiltIn (api_registry s) (cf_Name cfg)" "CompileConfig (ae_adapters E) cfg = Inr c"
      "Register (api_registry s) (id_TenantID i) (declarative (ae_adapters E) c) = (r, None)"
      "s' = apiAudit E now i ''adapter.uploaded'' (subject ''adapter'' (cf_Name cfg)) p
               (s\<lparr>api_adapters := PutAdapter (id_TenantID i) cfg (api_adapters s), api_registry := r\<rparr>)"
    then show ?thesis
      by (intro disjI2 exI [of _ cfg] exI [of _ c]) (simp add: IsBuiltIn_def)
  qed simp
qed

lemma usedBy_None: "usedBy n es = None \<longleftrightarrow> (\<forall>e \<in> set es. ep_AdapterName e \<noteq> n)"
  by (induction es) auto

lemma DeleteAdapter_setup:
  assumes "handleDeleteAdapter E now (Some i) name s = (s', r)"
  shows "s' = s \<or> (DeleteAdapter (id_TenantID i) name (api_adapters s) = Some (api_adapters s')
     \<and> api_registry s' = Unregister (api_registry s) (id_TenantID i) name
     \<and> mem_tenants (api_mem s') = mem_tenants (api_mem s) \<and> mem_endpoints (api_mem s') = mem_endpoints (api_mem s)
     \<and> (\<forall>e \<in> snd ` set (mem_endpoints (api_mem s)). ep_TenantID e = id_TenantID i \<longrightarrow> ep_AdapterName e \<noteq> name))"
  using assms
  by (auto simp: handleDeleteAdapter_def asTenant_def usedBy_None ListEndpoints_def
      split: option.splits if_splits sum.splits prod.splits)

section \<open>The invariant is kept\<close>

definition endpoints_served :: "Registry \<Rightarrow> (string \<times> Endpoint) list \<Rightarrow> bool" where
  "endpoints_served r es \<longleftrightarrow> (\<forall>e \<in> snd ` set es. GetAdapter r (ep_TenantID e) (ep_AdapterName e) \<noteq> None)"

definition config_inv :: "AdapterLib \<Rightarrow> (string \<times> Adapter) list \<Rightarrow> Api \<Rightarrow> bool" where
  "config_inv L b s \<longleftrightarrow> reg_builtin (api_registry s) = b \<and> stored_wf b (api_mem s) (api_adapters s)
     \<and> (\<forall>t n. map_of (declaredFor (api_registry s) t) n = compiledAs L (api_adapters s) t n)"

lemma adapters_inv_split:
  "adapters_inv L b s \<longleftrightarrow> keys_wf (api_keys s) \<and> (\<forall>t x. map_of (mem_tenants (api_mem s)) t = Some x \<longrightarrow> ten_ID x = t)
     \<and> config_inv L b s \<and> endpoints_served (api_registry s) (mem_endpoints (api_mem s))"
  by (auto simp: adapters_inv_def config_inv_def endpoints_served_def)

lemma config_inv_same: "config_inv L b s \<Longrightarrow> same_config s s' \<Longrightarrow> config_inv L b s'"
  by (simp add: config_inv_def same_config_def stored_wf_def)

lemma served_update:
  assumes "endpoints_served r es" and "GetAdapter r (ep_TenantID e) (ep_AdapterName e) \<noteq> None"
  shows "endpoints_served r (AList.update k e es)"
proof -
  have "snd ` set (AList.update k e es) \<subseteq> insert e (snd ` set es)"
    by (induction es) auto
  with assms show ?thesis unfolding endpoints_served_def by blast
qed

lemma config_inv_upload:
  assumes inv: "config_inv L b s" and tenant: "map_of (mem_tenants (api_mem s)) t \<noteq> None"
    and cfg: "map_of b (cf_Name cfg) = None" "CompileConfig L cfg = Inr c"
    and s': "api_adapters s' = PutAdapter t cfg (api_adapters s)"
      "api_registry s' = fst (Register (api_registry s) t (declarative L c))" "mem_tenants (api_mem s') = mem_tenants (api_mem s)"
  shows "config_inv L b s'"
  using assms
  by (auto simp: config_inv_def stored_wf_def StoredAdapter_Put tenantConfigs_Put declaredFor_Register declarative_name
      compiledAs_def)

lemma config_inv_delete:
  assumes inv: "config_inv L b s" and "DeleteAdapter t name (api_adapters s) = Some (api_adapters s')"
    and s': "api_registry s' = Unregister (api_registry s) t name" "mem_tenants (api_mem s') = mem_tenants (api_mem s)"
  shows "config_inv L b s'"
  using inv StoredAdapter_Delete [OF assms(2)] s'
  by (auto simp: config_inv_def stored_wf_def compiledAs_def declaredFor_Unregister)

lemma served_upload: "endpoints_served r es \<Longrightarrow> endpoints_served (fst (Register r t a)) es"
  by (fastforce simp: endpoints_served_def GetAdapter_def declaredFor_Register split: option.splits if_splits)

lemma served_delete:
  "endpoints_served r es \<Longrightarrow> \<forall>e \<in> snd ` set es. ep_TenantID e = t \<longrightarrow> ep_AdapterName e \<noteq> name \<Longrightarrow>
     endpoints_served (Unregister r t name) es"
  by (fastforce simp: endpoints_served_def GetAdapter_def declaredFor_Unregister split: option.splits if_splits)

text \<open>What every handler keeps: configurations and endpoints stay consistent and no tenant goes.\<close>

definition keeps :: "AdapterLib \<Rightarrow> (string \<times> Adapter) list \<Rightarrow> Api \<Rightarrow> bool" where
  "keeps L b s \<longleftrightarrow> config_inv L b s \<and> endpoints_served (api_registry s) (mem_endpoints (api_mem s))"

definition same_tenants :: "Api \<Rightarrow> Api \<Rightarrow> bool" where
  "same_tenants s s' \<longleftrightarrow> mem_tenants (api_mem s') = mem_tenants (api_mem s)"

lemma keeps_same: "keeps L b s \<Longrightarrow> same_setup s s' \<Longrightarrow> keeps L b s' \<and> same_tenants s s'"
  using config_inv_same by (auto simp: keeps_def same_setup_def same_config_def same_tenants_def)

lemma keeps_changed:
  "keeps L b s \<Longrightarrow> same_config s s' \<Longrightarrow> endpoints_served (api_registry s) (mem_endpoints (api_mem s')) \<Longrightarrow>
     keeps L b s' \<and> same_tenants s s'"
  using config_inv_same by (auto simp: keeps_def same_config_def same_tenants_def)

lemma keeps_keys:
  assumes "keeps L b s"
  shows "keeps L b (fst (handleCreateKey E now seed (Some i) body s)) \<and> same_tenants s (fst (handleCreateKey E now seed (Some i) body s))"
    "keeps L b (fst (handleRevokeKey E now (Some i) k s)) \<and> same_tenants s (fst (handleRevokeKey E now (Some i) k s))"
proof -
  have "same_setup s (fst (handleCreateKey E now seed (Some i) body s))"
    using CreateKey_cases [OF prod.collapse [symmetric], of E now seed i body s]
    by (auto simp: same_setup_def same_config_def)
  then show "keeps L b (fst (handleCreateKey E now seed (Some i) body s)) \<and> same_tenants s (fst (handleCreateKey E now seed (Some i) body s))"
    by (rule keeps_same [OF assms])
  have "same_setup s (fst (handleRevokeKey E now (Some i) k s))"
    by (simp add: handleRevokeKey_def asTenant_fst same_setup_def same_config_def split: option.split prod.split bool.split)
  then show "keeps L b (fst (handleRevokeKey E now (Some i) k s)) \<and> same_tenants s (fst (handleRevokeKey E now (Some i) k s))"
    by (rule keeps_same [OF assms])
qed

lemma keeps_create:
  assumes "keeps L b s" and h: "handleCreateEndpoint E now newID token (Some i) body s = (s', r)"
  shows "keeps L b s' \<and> same_tenants s s'"
  using CreateEndpoint_setup [OF h]
proof (elim disjE exE conjE)
  fix e
  assume *: "same_config s s'" "mem_endpoints (api_mem s') = AList.update (ep_ID e) e (mem_endpoints (api_mem s))"
    "ep_TenantID e = id_TenantID i" "GetAdapter (api_registry s) (id_TenantID i) (ep_AdapterName e) \<noteq> None"
  then have "endpoints_served (api_registry s) (mem_endpoints (api_mem s'))"
    using served_update assms(1) by (simp add: keeps_def)
  then show ?thesis by (rule keeps_changed [OF assms(1) *(1)])
qed (rule keeps_same [OF assms(1)])

lemma keeps_delete_endpoint:
  assumes "keeps L b s" and h: "handleDeleteEndpoint E now (Some i) epID s = (s', r)"
  shows "keeps L b s' \<and> same_tenants s s'"
proof (rule keeps_changed [OF assms(1)])
  from DeleteEndpoint_setup [OF h] show "same_config s s'" by simp
  from DeleteEndpoint_setup [OF h] assms(1) show "endpoints_served (api_registry s) (mem_endpoints (api_mem s'))"
    by (auto simp: keeps_def endpoints_served_def)
qed

lemma keeps_rotate:
  assumes "keeps L b s" and h: "handleRotateToken E now token (Some i) epID s = (s', r)"
  shows "keeps L b s' \<and> same_tenants s s'"
  using RotateToken_setup [OF h]
proof (elim disjE exE conjE)
  fix e old
  assume *: "same_config s s'" "mem_endpoints (api_mem s') = AList.update (ep_ID e) e (mem_endpoints (api_mem s))"
    "old \<in> snd ` set (mem_endpoints (api_mem s))" "ep_TenantID e = ep_TenantID old" "ep_AdapterName e = ep_AdapterName old"
  have "GetAdapter (api_registry s) (ep_TenantID old) (ep_AdapterName old) \<noteq> None"
    using *(3) assms(1) unfolding keeps_def endpoints_served_def by blast
  with * have "endpoints_served (api_registry s) (mem_endpoints (api_mem s'))"
    using served_update assms(1) by (simp add: keeps_def)
  then show ?thesis by (rule keeps_changed [OF assms(1) *(1)])
qed (rule keeps_same [OF assms(1)])

lemma keeps_upload:
  assumes "keeps (ae_adapters E) b s" and "map_of (mem_tenants (api_mem s)) (id_TenantID i) \<noteq> None"
    and h: "handleUploadAdapter E now (Some i) body s = (s', r)"
  shows "keeps (ae_adapters E) b s' \<and> same_tenants s s'"
  using UploadAdapter_setup [OF h]
proof (elim disjE exE conjE)
  fix cfg c
  assume *: "map_of (reg_builtin (api_registry s)) (cf_Name cfg) = None" "CompileConfig (ae_adapters E) cfg = Inr c"
    "api_adapters s' = PutAdapter (id_TenantID i) cfg (api_adapters s)"
    "api_registry s' = fst (Register (api_registry s) (id_TenantID i) (declarative (ae_adapters E) c))"
    "mem_tenants (api_mem s') = mem_tenants (api_mem s)" "mem_endpoints (api_mem s') = mem_endpoints (api_mem s)"
  have inv: "config_inv (ae_adapters E) b s" using assms(1) by (simp add: keeps_def)
  then have "map_of b (cf_Name cfg) = None" using *(1) by (simp add: config_inv_def)
  from config_inv_upload [OF inv assms(2) this *(2-5)] show ?thesis
    using * served_upload assms(1) by (simp add: keeps_def same_tenants_def)
qed (use assms(1) in \<open>simp add: same_tenants_def\<close>)

lemma keeps_delete_adapter:
  assumes "keeps L b s" and h: "handleDeleteAdapter E now (Some i) name s = (s', r)"
  shows "keeps L b s' \<and> same_tenants s s'"
  using DeleteAdapter_setup [OF h]
proof (elim disjE conjE)
  assume *: "DeleteAdapter (id_TenantID i) name (api_adapters s) = Some (api_adapters s')"
    "api_registry s' = Unregister (api_registry s) (id_TenantID i) name"
    "mem_tenants (api_mem s') = mem_tenants (api_mem s)" "mem_endpoints (api_mem s') = mem_endpoints (api_mem s)"
    "\<forall>e \<in> snd ` set (mem_endpoints (api_mem s)). ep_TenantID e = id_TenantID i \<longrightarrow> ep_AdapterName e \<noteq> name"
  from assms(1) have "config_inv L b s" "endpoints_served (api_registry s) (mem_endpoints (api_mem s))"
    by (simp_all add: keeps_def)
  with config_inv_delete [OF this(1) *(1-3)] served_delete [OF this(2) *(5)] * show ?thesis
    by (simp add: keeps_def same_tenants_def)
qed (use assms(1) in \<open>simp add: same_tenants_def\<close>)

lemma keeps_handle:
  assumes "keeps (ae_adapters E) b s" and "map_of (mem_tenants (api_mem s)) (id_TenantID i) \<noteq> None"
  shows "keeps (ae_adapters E) b (handle E now (Some i) op s) \<and> same_tenants s (handle E now (Some i) op s)"
  by (cases op)
    (simp_all add: keeps_keys [OF assms(1)] keeps_create [OF assms(1) prod.collapse [symmetric]]
      keeps_delete_endpoint [OF assms(1) prod.collapse [symmetric]] keeps_rotate [OF assms(1) prod.collapse [symmetric]]
      keeps_upload [OF assms prod.collapse [symmetric]] keeps_delete_adapter [OF assms(1) prod.collapse [symmetric]]
      keeps_same [OF assms(1) rest_setup(1)] keeps_same [OF assms(1) rest_setup(2)] keeps_same [OF assms(1) rest_setup(3)]
      keeps_same [OF assms(1) rest_setup(4)] keeps_same [OF assms(1) rest_setup(5)] keeps_same [OF assms(1) rest_setup(6)])

lemma keeps_call:
  assumes "keeps (ae_adapters E) b s" and "keys_wf (api_keys s)"
  shows "keeps (ae_adapters E) b (serveCall E s c) \<and> same_tenants s (serveCall E s c)"
proof (cases rule: call_cases [of E s c])
  case refused
  then show ?thesis using assms by (simp add: same_tenants_def)
next
  case (admitted i)
  let ?s = "s\<lparr>api_keys := fst (TouchKey (id_KeyID i) (cl_now c) (api_keys s))\<rparr>"
  have touched: "keeps (ae_adapters E) b ?s" "same_tenants s ?s"
    using assms(1) by (auto simp: keeps_def config_inv_def same_tenants_def)
  have "map_of (mem_tenants (api_mem ?s)) (id_TenantID i) \<noteq> None"
    by (cases rule: authenticate_key [OF assms(2) admitted(1)]) simp
  from keeps_handle [OF touched(1) this, of "cl_now c" "cl_op c"] touched admitted(2) show ?thesis
    by (auto simp: same_tenants_def)
qed

interpretation managed: machine "serveCall E" "\<lambda>_ _. True" "adapters_inv (ae_adapters E) b"
proof
  fix s :: Api and c
  assume "adapters_inv (ae_adapters E) b s"
  then have *: "keys_wf (api_keys s)" "keeps (ae_adapters E) b s"
    "\<forall>t x. map_of (mem_tenants (api_mem s)) t = Some x \<longrightarrow> ten_ID x = t"
    by (simp_all add: adapters_inv_split keeps_def)
  from keeps_call [OF *(2,1), of c] *(3) wf_call [OF *(1), of E c]
  show "adapters_inv (ae_adapters E) b (serveCall E s c)"
    by (simp add: adapters_inv_split keeps_def same_tenants_def)
qed

section \<open>Restarting\<close>

lemma declaredFor_fresh [simp]: "declaredFor \<lparr>reg_builtin = b, reg_declared = []\<rparr> t = []"
  by (simp add: declaredFor_def)

definition within_store :: "AdapterLib \<Rightarrow> (string \<times> Adapter) list \<Rightarrow> adapter_store \<Rightarrow> Registry \<Rightarrow> bool" where
  "within_store L b a r \<longleftrightarrow> reg_builtin r = b
     \<and> (\<forall>t n x. map_of (declaredFor r t) n = Some x \<longrightarrow> compiledAs L a t n = Some x)"

lemma config_stored:
  assumes "stored_wf b m a" and "cfg \<in> set (ListAdapters a t)"
  shows "StoredAdapter a t (cf_Name cfg) = Some cfg" "map_of b (cf_Name cfg) = None"
proof -
  from assms(2) obtain n where "(n, cfg) \<in> set (tenantConfigs a t)" by (auto simp: ListAdapters_def)
  then have "StoredAdapter a t n = Some cfg" using assms(1) by (simp add: stored_wf_def StoredAdapter_def)
  moreover from this have "cf_Name cfg = n" "map_of b n = None" using assms(1) by (auto simp: stored_wf_def)
  ultimately show "StoredAdapter a t (cf_Name cfg) = Some cfg" "map_of b (cf_Name cfg) = None" by simp_all
qed

lemma loadConfigs_within:
  assumes "stored_wf b m a" and "within_store L b a r" and "set cfgs \<subseteq> set (ListAdapters a t)"
  shows "within_store L b a (loadConfigs L t cfgs r)
    \<and> (\<forall>u n. map_of (declaredFor r u) n \<noteq> None \<longrightarrow> map_of (declaredFor (loadConfigs L t cfgs r) u) n = map_of (declaredFor r u) n)
    \<and> (\<forall>cfg \<in> set cfgs. compiledAs L a t (cf_Name cfg) = map_of (declaredFor (loadConfigs L t cfgs r) t) (cf_Name cfg))"
  using assms(2,3)
proof (induction cfgs arbitrary: r)
  case (Cons cfg cfgs)
  let ?r = "case CompileConfig L cfg of Inl _ \<Rightarrow> r | Inr c \<Rightarrow> fst (Register r t (declarative L c))"
  have st: "StoredAdapter a t (cf_Name cfg) = Some cfg" "map_of b (cf_Name cfg) = None"
    using config_stored [OF assms(1), of cfg t] Cons.prems(2) by simp_all
  have step: "map_of (declaredFor ?r u) n = (if u = t \<and> n = cf_Name cfg then
      (case CompileConfig L cfg of Inl _ \<Rightarrow> map_of (declaredFor r u) n | Inr c \<Rightarrow> Some (declarative L c))
      else map_of (declaredFor r u) n)" for u n
    using st Cons.prems(1) by (auto simp: declaredFor_Register declarative_name within_store_def split: sum.split)
  have want: "compiledAs L a t (cf_Name cfg) = (case CompileConfig L cfg of Inl _ \<Rightarrow> None | Inr c \<Rightarrow> Some (declarative L c))"
    using st by (simp add: compiledAs_def)
  have unread: "map_of (declaredFor r t) (cf_Name cfg) = None" if "CompileConfig L cfg = Inl err" for err
    using that want Cons.prems(1) unfolding within_store_def by (metis not_Some_eq old.sum.simps(5))
  have within: "within_store L b a ?r"
    using Cons.prems(1) step want unread unfolding within_store_def by (auto split: sum.splits if_splits)
  have got: "compiledAs L a t (cf_Name cfg) = map_of (declaredFor ?r t) (cf_Name cfg)"
    unfolding step want using unread by (auto split: sum.split)
  have kept: "map_of (declaredFor ?r u) n = map_of (declaredFor r u) n" if "map_of (declaredFor r u) n \<noteq> None" for u n
    using step [of u n] that want got Cons.prems(1) unfolding within_store_def by (metis not_Some_eq)
  have IH: "within_store L b a (loadConfigs L t cfgs ?r)"
    "\<And>u n. map_of (declaredFor ?r u) n \<noteq> None \<Longrightarrow> map_of (declaredFor (loadConfigs L t cfgs ?r) u) n = map_of (declaredFor ?r u) n"
    "\<And>cfg. cfg \<in> set cfgs \<Longrightarrow> compiledAs L a t (cf_Name cfg) = map_of (declaredFor (loadConfigs L t cfgs ?r) t) (cf_Name cfg)"
    using Cons.IH [OF within] Cons.prems(2) by auto
  have "compiledAs L a t (cf_Name cfg) = map_of (declaredFor (loadConfigs L t cfgs ?r) t) (cf_Name cfg)"
    using IH(1,2) got unfolding within_store_def by (metis not_Some_eq)
  then show ?case using IH kept by simp
qed simp

lemma loadTenants_within:
  assumes "stored_wf b m a" and "within_store L b a r"
  shows "within_store L b a (loadTenants L a ts r)
    \<and> (\<forall>u n. map_of (declaredFor r u) n \<noteq> None \<longrightarrow> map_of (declaredFor (loadTenants L a ts r) u) n = map_of (declaredFor r u) n)
    \<and> (\<forall>x \<in> set ts. \<forall>n. compiledAs L a (ten_ID x) n \<noteq> None \<longrightarrow>
          map_of (declaredFor (loadTenants L a ts r) (ten_ID x)) n = compiledAs L a (ten_ID x) n)"
  using assms(2)
proof (induction ts arbitrary: r)
  case (Cons x ts)
  let ?r = "loadConfigs L (ten_ID x) (ListAdapters a (ten_ID x)) r"
  note load = loadConfigs_within [OF assms(1) Cons.prems, of "ListAdapters a (ten_ID x)" "ten_ID x", simplified]
  have IH: "within_store L b a (loadTenants L a ts ?r)"
    "\<And>u n. map_of (declaredFor ?r u) n \<noteq> None \<Longrightarrow> map_of (declaredFor (loadTenants L a ts ?r) u) n = map_of (declaredFor ?r u) n"
    "\<And>y n. y \<in> set ts \<Longrightarrow> compiledAs L a (ten_ID y) n \<noteq> None \<Longrightarrow>
       map_of (declaredFor (loadTenants L a ts ?r) (ten_ID y)) n = compiledAs L a (ten_ID y) n"
    using Cons.IH [of ?r] load by auto
  have "map_of (declaredFor (loadTenants L a ts ?r) (ten_ID x)) n = compiledAs L a (ten_ID x) n"
    if "compiledAs L a (ten_ID x) n \<noteq> None" for n
  proof -
    from that obtain cfg where "StoredAdapter a (ten_ID x) n = Some cfg" by (auto simp: compiledAs_def split: option.splits)
    then have "cfg \<in> set (ListAdapters a (ten_ID x))" "cf_Name cfg = n"
      using assms(1) by (auto simp: StoredAdapter_def ListAdapters_def stored_wf_def dest: map_of_SomeD intro: rev_image_eqI)
    then have "compiledAs L a (ten_ID x) n = map_of (declaredFor ?r (ten_ID x)) n" using load by auto
    with that IH(2) show ?thesis by simp
  qed
  then show ?case using IH load by auto
qed simp

lemma LoadTenantAdapters_all:
  assumes "adapters_inv L b s"
  shows "map_of (declaredFor (LoadTenantAdapters L (api_mem s) (api_adapters s) \<lparr>reg_builtin = b, reg_declared = []\<rparr>) t) n
     = map_of (declaredFor (api_registry s) t) n"
    "reg_builtin (LoadTenantAdapters L (api_mem s) (api_adapters s) \<lparr>reg_builtin = b, reg_declared = []\<rparr>) = b"
proof -
  let ?r = "LoadTenantAdapters L (api_mem s) (api_adapters s) \<lparr>reg_builtin = b, reg_declared = []\<rparr>"
  have wf: "stored_wf b (api_mem s) (api_adapters s)" using assms by (simp add: adapters_inv_def)
  have start: "within_store L b (api_adapters s) \<lparr>reg_builtin = b, reg_declared = []\<rparr>" by (simp add: within_store_def)
  note all = loadTenants_within [OF wf start, of "ListTenants (api_mem s)", folded LoadTenantAdapters_def]
  show "reg_builtin ?r = b" using all by (simp add: within_store_def)
  have "map_of (declaredFor ?r t) n = compiledAs L (api_adapters s) t n"
  proof (cases "compiledAs L (api_adapters s) t n")
    case None
    with all show ?thesis unfolding within_store_def by (metis not_Some_eq)
  next
    case (Some x)
    then have "map_of (mem_tenants (api_mem s)) t \<noteq> None"
      using wf by (auto simp: compiledAs_def stored_wf_def split: option.splits)
    then obtain y where y: "map_of (mem_tenants (api_mem s)) t = Some y" by blast
    then have "ten_ID y = t" "y \<in> set (ListTenants (api_mem s))"
      using assms by (auto simp: adapters_inv_def ListTenants_def dest: map_of_SomeD intro: rev_image_eqI)
    with all Some show ?thesis by auto
  qed
  then show "map_of (declaredFor ?r t) n = map_of (declaredFor (api_registry s) t) n"
    using assms by (simp add: adapters_inv_def)
qed

text \<open>
  C7: Uploaded adapters and endpoints stay consistent whatever management calls are made: every endpoint names
  an adapter its tenant has, and loading the stored configurations into an empty registry, with an adapter store that
  has kept them, gives every tenant exactly the adapters it had before.
\<close>

theorem adapters_survive_restart:
  assumes "adapters_inv (ae_adapters E) b s" and "s' = foldl (serveCall E) s cs"
    and "e \<in> snd ` set (mem_endpoints (api_mem s'))"
  shows "GetAdapter (api_registry s') (ep_TenantID e) (ep_AdapterName e) \<noteq> None
    \<and> GetAdapter (LoadTenantAdapters (ae_adapters E) (api_mem s') (api_adapters s') \<lparr>reg_builtin = b, reg_declared = []\<rparr>) t n
        = GetAdapter (api_registry s') t n"
proof -
  have inv: "adapters_inv (ae_adapters E) b s'"
    unfolding assms(2) by (rule managed.run_inv [OF assms(1)]) (simp add: legal_always)
  then have b: "reg_builtin (api_registry s') = b"
    and served: "GetAdapter (api_registry s') (ep_TenantID e) (ep_AdapterName e) \<noteq> None"
    using assms(3) unfolding adapters_inv_def by blast+
  from served show ?thesis
    unfolding GetAdapter_def LoadTenantAdapters_all [OF inv] b by (rule conjI [OF _ refl])
qed

section \<open>Uploaded adapters and the normaliser\<close>

lemma compiled_writable:
  assumes "compiledAs L a t n = Some x" and "ad_Parse x body = Inr ev"
  shows "ev_ProviderExtra ev \<noteq> None"
proof -
  from assms(1) obtain cfg c where "CompileConfig L cfg = Inr c" "x = declarative L c"
    by (auto simp: compiledAs_def split: option.splits sum.splits)
  with declParse_wf assms(2) show ?thesis by (auto simp: declarative_def parse_wf_def)
qed

lemma adapters_inv_safe:
  assumes "adapters_inv L (reg_builtin (NewRegistry L)) s"
  shows "registry_safe (api_registry s)"
  unfolding registry_safe_def
proof (intro allI impI)
  fix t n a b ev
  assume get: "GetAdapter (api_registry s) t n = Some a" and p: "ad_Parse a b = Inr ev"
  have inv: "map_of (declaredFor (api_registry s) t) n = compiledAs L (api_adapters s) t n"
    "reg_builtin (api_registry s) = reg_builtin (NewRegistry L)" using assms by (simp_all add: adapters_inv_def)
  show "ev_ProviderExtra ev \<noteq> None"
  proof (cases "compiledAs L (api_adapters s) t n")
    case None
    then have "GetAdapter (NewRegistry L) t n = Some a"
      using get inv by (simp add: GetAdapter_def) (simp add: NewRegistry_def declaredFor_def)
    then show ?thesis using NewRegistry_safe p unfolding registry_safe_def by blast
  next
    case (Some x)
    then have "x = a" using get inv by (simp add: GetAdapter_def)
    with compiled_writable [OF Some] p show ?thesis by simp
  qed
qed

text \<open>
  C14: No upload can crash the normaliser: whatever adapters customers upload, in whatever order, processing a
  raw event with the registry that results does not panic.
\<close>

theorem uploads_never_panic:
  assumes "adapters_inv (ae_adapters E) (reg_builtin (NewRegistry (ae_adapters E))) s"
    and "ne_registry N = api_registry (foldl (serveCall E) s cs)"
  shows "snd (Normaliser.Process N now i rawID t d) \<noteq> ProcPanic"
proof (rule Process_no_panic)
  have "adapters_inv (ae_adapters E) (reg_builtin (NewRegistry (ae_adapters E))) (foldl (serveCall E) s cs)"
    by (rule managed.run_inv [OF assms(1)]) (simp add: legal_always)
  then show "registry_safe (ne_registry N)" unfolding assms(2) by (rule adapters_inv_safe)
qed

section \<open>A sample with an uploaded adapter\<close>

definition acmeConfig :: Config where
  "acmeConfig = plainConfig plainVerification [] []"

definition acmeAPI :: Api where
  "acmeAPI = (sampleApi RoleEngineer [(''ep_1'', sampleEndpoint\<lparr>ep_TenantID := ''ten_1'', ep_AdapterName := ''acme-pay''\<rparr>)])
     \<lparr>api_adapters := [(''ten_1'', [(''acme-pay'', acmeConfig)])],
      api_registry := fst (Register (NewRegistry (docLib [])) ''ten_1''
        (declarative (docLib []) (projr (CompileConfig (docLib []) acmeConfig))))\<rparr>"

lemma acme_compiles: "\<exists>a. CompileConfig (docLib []) acmeConfig = Inr a"
proof -
  have "case CompileConfig (docLib []) acmeConfig of Inl _ \<Rightarrow> False | Inr a \<Rightarrow> True" by code_simp
  then show ?thesis by (auto split: sum.splits)
qed

lemma acme_inv: "adapters_inv (ae_adapters bareEnv) (reg_builtin (NewRegistry (ae_adapters bareEnv))) acmeAPI"
proof -
  obtain a where a: "CompileConfig (docLib []) acmeConfig = Inr a" using acme_compiles by blast
  have name: "ad_Name (declarative (docLib []) a) = ''acme-pay''" "cf_Name acmeConfig = ''acme-pay''"
    using declarative_name [OF a] by (simp_all add: acmeConfig_def plainConfig_def)
  have valid: "Role_Valid RoleEngineer" by code_simp
  have free: "map_of (reg_builtin (NewRegistry (docLib []))) ''acme-pay'' = None"
    by (simp add: NewRegistry_def builtins_def paystack_def flutterwave_def nibss_def monnify_def interswitch_def stripe_def)
  have declared: "map_of (declaredFor (api_registry acmeAPI) t) n = compiledAs (docLib []) (api_adapters acmeAPI) t n" for t n
    using a free by (auto simp: acmeAPI_def declaredFor_Register name compiledAs_def StoredAdapter_def tenantConfigs_def
        lookupOr_def) (simp_all add: NewRegistry_def declaredFor_def)
  have stored: "stored_wf (reg_builtin (NewRegistry (docLib []))) (api_mem acmeAPI) (api_adapters acmeAPI)"
    using free name by (auto simp: stored_wf_def acmeAPI_def tenantConfigs_def StoredAdapter_def lookupOr_def sampleApi_def
        sampleMemory_def)
  have keys: "keys_wf (api_keys acmeAPI)" using sample_wf [OF valid] by (simp add: acmeAPI_def)
  have served: "GetAdapter (api_registry acmeAPI) ''ten_1'' ''acme-pay'' \<noteq> None"
    using a free by (simp add: acmeAPI_def GetAdapter_def declaredFor_Register name)
  show ?thesis
    unfolding adapters_inv_def using declared stored keys served
    by (auto simp: bareEnv_def acmeAPI_def sampleApi_def sampleMemory_def sampleTenant_def)
qed

theorem adapters_survive_restart_witness:
  "GetAdapter (LoadTenantAdapters (docLib []) (api_mem acmeAPI) (api_adapters acmeAPI)
     \<lparr>reg_builtin = reg_builtin (NewRegistry (docLib [])), reg_declared = []\<rparr>) ''ten_1'' ''acme-pay''
   = GetAdapter (api_registry acmeAPI) ''ten_1'' ''acme-pay''"
proof -
  have "(sampleEndpoint\<lparr>ep_TenantID := ''ten_1'', ep_AdapterName := ''acme-pay''\<rparr>) \<in> snd ` set (mem_endpoints (api_mem acmeAPI))"
    by (simp add: acmeAPI_def sampleApi_def)
  then have "(sampleEndpoint\<lparr>ep_TenantID := ''ten_1'', ep_AdapterName := ''acme-pay''\<rparr>)
      \<in> snd ` set (mem_endpoints (api_mem (foldl (serveCall bareEnv) acmeAPI [])))" by simp
  from conjunct2 [OF adapters_survive_restart [OF acme_inv refl this, of "''ten_1''" "''acme-pay''"]]
  show ?thesis by (simp add: bareEnv_def)
qed

theorem uploads_never_panic_witness:
  "snd (Normaliser.Process (sampleNorm []\<lparr>ne_registry := api_registry acmeAPI\<rparr>) 0 ''sh_1'' ''raw_1'' ''ten_1''
     (sampleIntake ''acme-pay'' [(''raw_1'', ''b'')])) \<noteq> ProcPanic"
  using uploads_never_panic [OF acme_inv, of "sampleNorm []\<lparr>ne_registry := api_registry acmeAPI\<rparr>" "[]"] by simp

end
