(* ===== verification/Manage_Limits.thy ===== *)
theory Manage_Limits
  imports Manage_Adapters Store_Spec
begin

text \<open>
  What the management API does not promise: keys of the test environment change live resources, lifetimes that
  leave 64 bits wrap around, and a replay window that cannot be read is no window. And one thing it does: a
  rotated receiver token is dead at once.
\<close>

section \<open>Environments\<close>

definition liveEndpoint :: Endpoint where
  "liveEndpoint = sampleEndpoint\<lparr>ep_TenantID := ''ten_1'', ep_Environment := EnvLive\<rparr>"

text \<open>
  A test key deletes a live endpoint: creating asks for the key's environment, deleting does not, so an
  engineer's key issued for the test environment removes the tenant's live receiver.
\<close>

theorem test_key_deletes_live_endpoint:
  "let s = sampleApi RoleEngineer [(''ep_1'', liveEndpoint)];
       s' = serveCall bareEnv s (sampleCall (OpDeleteEndpoint ''ep_1''))
   in key_Environment (issuedKey RoleEngineer) = EnvTest \<and> ep_Environment liveEndpoint = EnvLive
      \<and> GetEndpoint (api_mem s) ''ten_1'' ''ep_1'' = Inr liveEndpoint
      \<and> GetEndpoint (api_mem s') ''ten_1'' ''ep_1'' = Inl StoreNotFound"
proof -
  let ?s = "sampleApi RoleEngineer [(''ep_1'', liveEndpoint)]" and ?c = "sampleCall (OpDeleteEndpoint ''ep_1'')"
  have valid: "Role_Valid RoleEngineer" by code_simp
  have route: "findRoute (''DELETE'', ''/v1/endpoints/{id}'') = Some (keyedRoute ''DELETE'' ''/v1/endpoints/{id}'' RoleEngineer False)"
    "AtLeast RoleEngineer RoleEngineer" by code_simp+
  have fields: "ep_TenantID liveEndpoint = ''ten_1''" "ep_Environment liveEndpoint = EnvLive" by (simp_all add: liveEndpoint_def)
  have es: "mem_endpoints (api_mem ?s) = [(''ep_1'', liveEndpoint)]" by (simp add: sampleApi_def)
  obtain i where i: "authenticate plainKeys (api_mem ?s) (api_keys ?s) 200 (''Bearer '' @ ''sh_test_k7x9'') ''10.0.0.9'' = Inr i"
    "id_TenantID i = ''ten_1''" "id_Role i = RoleEngineer"
    using sample_authenticated [OF valid] by simp
  have "serveCall bareEnv ?s ?c = fst (handleDeleteEndpoint bareEnv 200 (Some i) ''ep_1''
      (?s\<lparr>api_keys := fst (TouchKey (id_KeyID i) 200 (api_keys ?s))\<rparr>))"
    using i route
    by (simp add: serveCall_def sampleCall_def bareEnv_def requireRole_def FromContext_def Can_def keyedRoute_def)
  then have "mem_endpoints (api_mem (serveCall bareEnv ?s ?c)) = []"
    using i(2) es by (simp add: handleDeleteEndpoint_def asTenant_def FromContext_def DeleteEndpoint_def fields)
  then show ?thesis using es fields issuedKey_fields [OF valid] by (simp add: GetEndpoint_def)
qed

section \<open>Lifetimes\<close>

text \<open>
  A key's lifetime in days is multiplied out in 64 bits: 106751 days are kept as they are, 106752 wrap to
  a negative duration and give a key that never expires, and 213504 days give one that expires within half an
  hour.
\<close>

theorem key_lifetime_wraps:
  "ttlOf 106751 = 106751 * 24 * hour
   \<and> key_ExpiresAt (snd (projr (Issue plainKeys sampleSeed ''ten_1'' EnvTest RoleOwner ''ci'' (ttlOf 106752)))) = zero_time
   \<and> 0 < ttlOf 213504 \<and> ttlOf 213504 < 30 * minute"
proof -
  have "ttlOf 106751 = 106751 * 24 * hour" "ttlOf 106752 \<le> 0" "0 < ttlOf 213504" "ttlOf 213504 < 30 * minute"
    by (simp_all add: ttlOf_def wrap64_def hour_def minute_def second_def)
  then show ?thesis
    by (simp add: Issue_def Let_def Environment_Valid_def EnvTest_def Role_Valid_def roleRank_def role_defs)
qed

text \<open>A requested retry step of 18446744074 seconds, some 584 years, is accepted as 0.29 seconds.\<close>

lemma retry_step_wraps: "secondsToDuration 18446744074 = 290448384"
  by (simp add: secondsToDuration_def wrap64_def second_def)

section \<open>Replay windows\<close>

text \<open>
  A bulk replay whose time window does not parse is a replay without one: the request is the same as if
  the bound had been left out, so it matches the whole history instead of being refused.
\<close>

theorem unreadable_window_ignored:
  assumes "parseTimeParam (ae_adapters E) (br_From req) = None" and "parseTimeParam (ae_adapters E) (br_To req) = None"
  shows "handleBulkReplay E now ctx (Some req) s
       = handleBulkReplay E now ctx (Some (req\<lparr>br_From := [], br_To := []\<rparr>)) s"
proof -
  have "TrimSpace [] = []" by code_simp
  then have "parseTimeParam L [] = None" for L by (simp add: parseTimeParam_def)
  with assms have "bulkRequest (ae_adapters E) req = bulkRequest (ae_adapters E) (req\<lparr>br_From := [], br_To := []\<rparr>)"
    by (simp add: bulkRequest_def timeOr_def)
  moreover have "br_DryRun (req\<lparr>br_From := [], br_To := []\<rparr>) = br_DryRun req" by simp
  ultimately show ?thesis by (simp only: handleBulkReplay_def option.case)
qed

section \<open>Rotating a token\<close>

lemma update_tokens:
  assumes "keys_distinct xs" and "map_of xs k = Some old" and "distinct (map (f \<circ> snd) xs)" and "f v \<notin> f ` snd ` set xs"
  shows "distinct (map (f \<circ> snd) (AList.update k v xs))
     \<and> f ` snd ` set (AList.update k v xs) = insert (f v) (f ` snd ` set xs - {f old})"
  using assms
proof (induction xs)
  case (Cons x xs)
  show ?case
  proof (cases "fst x = k")
    case True
    with Cons.prems have "snd x = old" "f old \<notin> f ` snd ` set xs" by (auto simp: case_prod_unfold image_comp split: if_splits)
    with True Cons.prems show ?thesis by (cases x) (auto simp: image_comp)
  next
    case False
    with Cons.prems have "map_of xs k = Some old" by (cases x) auto
    then have "f (snd x) \<noteq> f old" using Cons.prems(3) by (force simp: image_comp dest: map_of_SomeD)
    with False Cons.prems Cons.IH [OF _ \<open>map_of xs k = Some old\<close>] show ?thesis by (cases x) (auto simp: image_comp)
  qed
qed simp

lemma AppendAudit_slugs [simp]: "mem_tenantBySlug (fst (AppendAudit L now m r)) = mem_tenantBySlug m"
  by (auto simp: AppendAudit_def Let_def split: sum.split)

lemma RotateToken_tables:
  assumes "handleRotateToken E now token (Some i) epID s = (s', Answer 200 v)"
    and "GetEndpoint (api_mem s) (id_TenantID i) epID = Inr old" and "ep_ID old = epID"
  shows "mem_endpoints (api_mem s') = AList.update epID (old\<lparr>ep_ReceiverToken := token, ep_RotatedAt := now\<rparr>) (mem_endpoints (api_mem s))
     \<and> mem_tenantBySlug (api_mem s') = mem_tenantBySlug (api_mem s)"
proof -
  have refusal: "storeRefusal err \<noteq> Answer n v" for err n by (cases err) simp_all
  have same: "old\<lparr>ep_ReceiverToken := token, ep_RotatedAt := now, ep_TenantID := id_TenantID i\<rparr>
      = old\<lparr>ep_ReceiverToken := token, ep_RotatedAt := now\<rparr>"
    using table_ops(4) [OF assms(2)] by (cases old) simp
  show ?thesis
    using assms same refusal
    by (auto simp: handleRotateToken_def asTenant_def Let_def apiAudit_def dest!: table_ops(3) split: option.splits prod.splits)
qed

text \<open>
  After a token is rotated the new URL reaches the endpoint and the old one reaches nothing, as long as
  tokens are distinct: whoever holds the leaked URL is turned away at once.
\<close>

theorem rotated_token_dead:
  assumes "handleRotateToken E now token (Some i) epID s = (s', Answer 200 v)"
    and "GetEndpoint (api_mem s) (id_TenantID i) epID = Inr old" and "table_wf ep_ID (mem_endpoints (api_mem s))"
    and "distinct (map ep_ReceiverToken (map snd (mem_endpoints (api_mem s))))"
    and "token \<notin> ep_ReceiverToken ` snd ` set (mem_endpoints (api_mem s))"
    and "map_of (mem_tenantBySlug (api_mem s)) slug = Some (id_TenantID i)"
  shows "(\<exists>e ten. ResolveReceiver (api_mem s') slug (ep_Provider old) (ep_Environment old) token = Inr (e, ten) \<and> ep_ID e = epID)
     \<and> ResolveReceiver (api_mem s') slug provider env (ep_ReceiverToken old) = Inl StoreNotFound"
proof -
  let ?m = "api_mem s" and ?m' = "api_mem s'" and ?e = "old\<lparr>ep_ReceiverToken := token, ep_RotatedAt := now\<rparr>"
  have old: "map_of (mem_endpoints ?m) epID = Some old" "ep_ID old = epID" "ep_TenantID old = id_TenantID i"
    using assms(2,3) by (auto simp: GetEndpoint_def table_wf_def split: option.splits if_splits)
  note tables = RotateToken_tables [OF assms(1,2) old(2)]
  have tokens: "distinct (map ep_ReceiverToken (map snd (mem_endpoints ?m')))"
    "ep_ReceiverToken ` snd ` set (mem_endpoints ?m') = insert token (ep_ReceiverToken ` snd ` set (mem_endpoints ?m) - {ep_ReceiverToken old})"
    using update_tokens [of "mem_endpoints ?m" epID old ep_ReceiverToken ?e] old assms(3-5) tables
    by (simp_all add: table_wf_def)
  have "?e \<in> snd ` set (mem_endpoints ?m')"
    using tables by (metis map_of_SomeD update_conv' fun_upd_same image_eqI snd_conv)
  then have "ResolveReceiver ?m' slug (ep_Provider old) (ep_Environment old) token = Inr (?e, lookupOr zeroTenant (mem_tenants ?m') (id_TenantID i))"
    using ResolveReceiver_iff [OF tokens(1)] assms(6) tables old by simp
  note fresh = this
  have "ep_ReceiverToken old \<notin> ep_ReceiverToken ` snd ` set (mem_endpoints ?m')"
  proof -
    have "ep_ReceiverToken old \<in> ep_ReceiverToken ` snd ` set (mem_endpoints ?m)"
      using map_of_SomeD [OF old(1)] by (metis image_eqI snd_conv)
    then show ?thesis unfolding tokens(2) using assms(5) by blast
  qed
  then have "ResolveReceiver ?m' slug provider env (ep_ReceiverToken old) \<noteq> Inr (e, ten)" for e ten
    unfolding ResolveReceiver_iff [OF tokens(1)] by (metis imageI)
  moreover have "r = Inl StoreNotFound \<or> (\<exists>e ten. r = Inr (e, ten))"
    if "r = ResolveReceiver ?m' slug provider env (ep_ReceiverToken old)" for r
    using that by (auto simp: ResolveReceiver_def split: option.splits)
  ultimately have "ResolveReceiver ?m' slug provider env (ep_ReceiverToken old) = Inl StoreNotFound" by blast
  with fresh old(2) show ?thesis by (intro conjI exI [of _ ?e] exI) simp_all
qed

definition leakedApi :: Api where
  "leakedApi = (let s = sampleApi RoleEngineer [(''ep_1'', liveEndpoint)]
     in setMem ((api_mem s)\<lparr>mem_tenantBySlug := [(''acme'', ''ten_1'')]\<rparr>) s)"

definition leakedCaller :: Identity where
  "leakedCaller = \<lparr>id_TenantID = ''ten_1'', id_TenantSlug = ''acme'', id_KeyID = ''key_1'', id_Role = RoleEngineer,
     id_Environment = EnvTest, id_IP = []\<rparr>"

theorem rotated_token_dead_witness:
  "let s' = fst (handleRotateToken bareEnv 300 ''tok_2'' (Some leakedCaller) ''ep_1'' leakedApi)
   in (\<exists>e ten. ResolveReceiver (api_mem s') ''acme'' (ep_Provider liveEndpoint) EnvLive ''tok_2'' = Inr (e, ten) \<and> ep_ID e = ''ep_1'')
      \<and> ResolveReceiver (api_mem s') ''acme'' (ep_Provider liveEndpoint) EnvLive ''tok'' = Inl StoreNotFound"
proof -
  have es: "mem_endpoints (api_mem leakedApi) = [(''ep_1'', liveEndpoint)]"
    and slug: "map_of (mem_tenantBySlug (api_mem leakedApi)) ''acme'' = Some (id_TenantID leakedCaller)"
    by (simp_all add: leakedApi_def sampleApi_def leakedCaller_def Let_def)
  have fields: "ep_ID liveEndpoint = ''ep_1''" "ep_TenantID liveEndpoint = ''ten_1''" "ep_Environment liveEndpoint = EnvLive"
    "ep_ReceiverToken liveEndpoint = ''tok''" by (simp_all add: liveEndpoint_def sampleEndpoint_def)
  have get: "GetEndpoint (api_mem leakedApi) (id_TenantID leakedCaller) ''ep_1'' = Inr liveEndpoint"
    by (simp add: GetEndpoint_def es fields leakedCaller_def)
  have "\<exists>m. UpdateEndpoint (api_mem leakedApi) ''ten_1'' (liveEndpoint\<lparr>ep_ReceiverToken := ''tok_2'', ep_RotatedAt := 300\<rparr>) = (m, None)"
    by (simp add: UpdateEndpoint_def es fields)
  then obtain v where "snd (handleRotateToken bareEnv 300 ''tok_2'' (Some leakedCaller) ''ep_1'' leakedApi) = Answer 200 v"
    using get by (auto simp: handleRotateToken_def asTenant_def FromContext_def Let_def leakedCaller_def)
  then have run: "handleRotateToken bareEnv 300 ''tok_2'' (Some leakedCaller) ''ep_1'' leakedApi
      = (fst (handleRotateToken bareEnv 300 ''tok_2'' (Some leakedCaller) ''ep_1'' leakedApi), Answer 200 v)" by (metis prod.collapse)
  have "table_wf ep_ID (mem_endpoints (api_mem leakedApi))"
    "distinct (map ep_ReceiverToken (map snd (mem_endpoints (api_mem leakedApi))))"
    "''tok_2'' \<notin> ep_ReceiverToken ` snd ` set (mem_endpoints (api_mem leakedApi))"
    by (simp_all add: table_wf_def es fields)
  from rotated_token_dead [OF run get this slug] show ?thesis by (simp add: Let_def fields)
qed

end
