(* ===== verification/Assoc.thy ===== *)
theory Assoc
  imports Go_Prelude
begin

text \<open>More about maps as association lists: an update changes one entry where it stands or appends one.\<close>

lemma update_in_place:
  "map_of ss sid = Some s \<Longrightarrow>
   \<exists>as bs. ss = as @ (sid, s) # bs \<and> (\<forall>s'. AList.update sid s' ss = as @ (sid, s') # bs)"
proof (induction ss)
  case (Cons x ss)
  show ?case
  proof (cases "fst x = sid")
    case True
    with Cons.prems have "x # ss = [] @ (sid, s) # ss \<and> (\<forall>s'. AList.update sid s' (x # ss) = [] @ (sid, s') # ss)"
      by (cases x) auto
    then show ?thesis by blast
  next
    case False
    with Cons obtain as bs where "ss = as @ (sid, s) # bs" "\<And>s'. AList.update sid s' ss = as @ (sid, s') # bs"
      by (cases x) (auto split: if_splits)
    with False have "x # ss = (x # as) @ (sid, s) # bs \<and> (\<forall>s'. AList.update sid s' (x # ss) = (x # as) @ (sid, s') # bs)"
      by (cases x) auto
    then show ?thesis by blast
  qed
qed simp

lemma update_nonmem: "k \<notin> fst ` set m \<Longrightarrow> AList.update k v m = m @ [(k, v)]"
  by (induction m) auto

lemma set_update:
  "keys_distinct ss \<Longrightarrow> (x, y) \<in> set (AList.update sid s' ss) \<longleftrightarrow> (if x = sid then y = s' else (x, y) \<in> set ss)"
  by (simp only: in_set_map_of keys_distinct_update map_of_update fun_upd_apply) auto

lemma keys_distinct_filter: "keys_distinct m \<Longrightarrow> keys_distinct (filter P m)"
  by (induction m) auto

lemma sum_update:
  fixes f :: "'v \<Rightarrow> 'n::ab_group_add"
  assumes "keys_distinct m"
  shows "sum_list (map (f \<circ> snd) (AList.update k v m))
    = sum_list (map (f \<circ> snd) m) + f v - (case map_of m k of Some u \<Rightarrow> f u | None \<Rightarrow> 0)"
proof (cases "map_of m k")
  case None
  then have "k \<notin> fst ` set m" by (simp add: map_of_eq_None_iff)
  with None show ?thesis by (simp add: update_nonmem)
next
  case (Some u)
  then show ?thesis using update_in_place [OF Some] by auto
qed

lemma length_update: "length (AList.update k v m) = (if k \<in> fst ` set m then length m else length m + 1)"
  by (induction m) auto

end
