(* ===== verification/Tunnel.thy ===== *)
theory Tunnel
  imports Dispatch "HOL-Library.Sublist"
begin

text \<open>
  Local listening (\<^verbatim>\<open>internal/tunnel/tunnel.go\<close>): a hub of sessions, each with a bounded queue and the channels its
  blocked polls wait on. Every method holds the mutex; a poll that finds nothing releases it, waits, and takes it
  again when its channel is closed, so it is two operations here. Channels are numbers in the order they are made;
  closing one twice panics, which is the value \<open>None\<close>.
\<close>

section \<open>Data\<close>

definition MaxWait :: duration where "MaxWait = 25 * second"
definition MaxSessionAge :: duration where "MaxSessionAge = 10 * minute"

record Offered =
  of_EventID :: string
  of_Provider :: string
  of_EventType :: string
  of_Payload :: string
  of_Signature :: string
  of_Event :: CanonicalEvent
  of_QueuedAt :: instant

record Outcome =
  out_EventID :: string
  out_StatusCode :: int
  out_Duration :: duration
  out_Error :: string

record Session =
  ls_ID :: string
  ls_TenantID :: string
  ls_Filter :: Filter
  ls_Forward :: string
  ls_StartedAt :: instant
  ls_LastSeen :: instant
  ls_Delivered :: int
  ls_Failed :: int
  ls_queue :: "Offered list"
  ls_waiters :: "nat list"

text \<open>\<open>th_made\<close> and \<open>th_closed\<close> are the runtime's: how many channels exist and which are closed.\<close>

record Hub =
  th_sessions :: "(string \<times> Session) list"
  th_maxQueue :: int
  th_maxWait :: duration
  th_made :: nat
  th_closed :: "nat list"

definition NewHub :: "int \<Rightarrow> duration \<Rightarrow> Hub" where
  "NewHub maxQueue maxWait =
     \<lparr>th_sessions = [], th_maxQueue = (if maxQueue \<le> 0 then 100 else maxQueue),
      th_maxWait = (if maxWait \<le> 0 then MaxWait else maxWait), th_made = 0, th_closed = []\<rparr>"

text \<open>\<open>for _, w := range s.waiters { close(w) }\<close>\<close>

fun closeAll :: "nat list \<Rightarrow> nat list \<Rightarrow> nat list option" where
  "closeAll [] shut = Some shut"
| "closeAll (w # ws) shut = (if w \<in> set shut then None else closeAll ws (w # shut))"

section \<open>Operations\<close>

definition Start :: "instant \<Rightarrow> string \<Rightarrow> string \<Rightarrow> string \<Rightarrow> Filter \<Rightarrow> Hub \<Rightarrow> Hub \<times> Session" where
  "Start now sid tenantID forward flt h =
     (let s = \<lparr>ls_ID = sid, ls_TenantID = tenantID, ls_Filter = flt, ls_Forward = forward,
               ls_StartedAt = now, ls_LastSeen = now, ls_Delivered = 0, ls_Failed = 0,
               ls_queue = [], ls_waiters = []\<rparr>
      in (h\<lparr>th_sessions := AList.update sid s (th_sessions h)\<rparr>, s))"

definition Stop :: "string \<Rightarrow> string \<Rightarrow> Hub \<Rightarrow> Hub option" where
  "Stop tenantID sid h =
     (case map_of (th_sessions h) sid of
        Some s \<Rightarrow>
          if ls_TenantID s = tenantID then
            (case closeAll (ls_waiters s) (th_closed h) of
               None \<Rightarrow> None
             | Some shut \<Rightarrow> Some (h\<lparr>th_sessions := AList.delete sid (th_sessions h), th_closed := shut\<rparr>))
          else Some h
      | None \<Rightarrow> Some h)"

text \<open>The test of \<open>Publish\<close>, the entry it queues, and what it does to one session.\<close>

definition listens :: "instant \<Rightarrow> CanonicalEvent \<Rightarrow> Session \<Rightarrow> bool" where
  "listens now e s \<longleftrightarrow>
     \<not> (ls_TenantID s \<noteq> ev_TenantID e \<or> \<not> Matches (ls_Filter s) e) \<and> \<not> time_sub now (ls_LastSeen s) > MaxSessionAge"

definition offeredEvent :: "instant \<Rightarrow> CanonicalEvent \<Rightarrow> string \<Rightarrow> string \<Rightarrow> Offered" where
  "offeredEvent now e payload signature =
     \<lparr>of_EventID = ev_ID e, of_Provider = ev_Provider e, of_EventType = ev_EventType e,
      of_Payload = payload, of_Signature = signature, of_Event = e, of_QueuedAt = now\<rparr>"

definition offer :: "int \<Rightarrow> Offered \<Rightarrow> Session \<Rightarrow> Session" where
  "offer maxQueue d s =
     s\<lparr>ls_queue := (if int (length (ls_queue s)) \<ge> maxQueue then drop 1 (ls_queue s) else ls_queue s) @ [d],
       ls_waiters := []\<rparr>"

fun publishAll ::
    "instant \<Rightarrow> int \<Rightarrow> CanonicalEvent \<Rightarrow> Offered \<Rightarrow> (string \<times> Session) list \<Rightarrow> nat list
     \<Rightarrow> ((string \<times> Session) list \<times> nat list \<times> int) option" where
  "publishAll now maxQueue e d [] shut = Some ([], shut, 0)"
| "publishAll now maxQueue e d ((sid, s) # rest) shut =
     (if listens now e s then
        (case closeAll (ls_waiters s) shut of
           None \<Rightarrow> None
         | Some shut \<Rightarrow>
             (case publishAll now maxQueue e d rest shut of
                None \<Rightarrow> None
              | Some (rest, shut, taken) \<Rightarrow> Some ((sid, offer maxQueue d s) # rest, shut, taken + 1)))
      else
        (case publishAll now maxQueue e d rest shut of
           None \<Rightarrow> None
         | Some (rest, shut, taken) \<Rightarrow> Some ((sid, s) # rest, shut, taken)))"

definition Publish :: "instant \<Rightarrow> CanonicalEvent \<Rightarrow> string \<Rightarrow> string \<Rightarrow> Hub \<Rightarrow> (Hub \<times> int) option" where
  "Publish now e payload signature h =
     (case publishAll now (th_maxQueue h) e (offeredEvent now e payload signature) (th_sessions h) (th_closed h) of
        None \<Rightarrow> None
      | Some (sessions, shut, taken) \<Rightarrow> Some (h\<lparr>th_sessions := sessions, th_closed := shut\<rparr>, taken))"

definition takeQueued :: "int \<Rightarrow> Session \<Rightarrow> Session \<times> Offered list" where
  "takeQueued n s =
     (let k = if int (length (ls_queue s)) < n then length (ls_queue s) else nat n
      in (s\<lparr>ls_queue := drop k (ls_queue s)\<rparr>, take k (ls_queue s)))"

definition pollMax :: "int \<Rightarrow> int" where
  "pollMax n = (if n \<le> 0 \<or> n > 50 then 20 else n)"

text \<open>A poll until it answers or blocks; what it does when its channel has been closed.\<close>

datatype PollAnswer = PollNoSession | PollHands "Offered list" | PollBlocks nat

definition PollStart :: "instant \<Rightarrow> string \<Rightarrow> string \<Rightarrow> int \<Rightarrow> Hub \<Rightarrow> Hub \<times> PollAnswer" where
  "PollStart now tenantID sid n h =
     (case map_of (th_sessions h) sid of
        None \<Rightarrow> (h, PollNoSession)
      | Some s \<Rightarrow>
          if ls_TenantID s \<noteq> tenantID then (h, PollNoSession)
          else
            (let s = s\<lparr>ls_LastSeen := now\<rparr> in
             if ls_queue s \<noteq> [] then
               (let (s, out) = takeQueued (pollMax n) s
                in (h\<lparr>th_sessions := AList.update sid s (th_sessions h)\<rparr>, PollHands out))
             else
               (let wake = th_made h; s = s\<lparr>ls_waiters := ls_waiters s @ [wake]\<rparr>
                in (h\<lparr>th_sessions := AList.update sid s (th_sessions h), th_made := wake + 1\<rparr>, PollBlocks wake))))"

definition PollWoken :: "string \<Rightarrow> int \<Rightarrow> Hub \<Rightarrow> Hub \<times> PollAnswer" where
  "PollWoken sid n h =
     (case map_of (th_sessions h) sid of
        None \<Rightarrow> (h, PollNoSession)
      | Some s \<Rightarrow>
          (let (s, out) = takeQueued (pollMax n) s
           in (h\<lparr>th_sessions := AList.update sid s (th_sessions h)\<rparr>, PollHands out)))"

fun tally :: "Outcome list \<Rightarrow> Session \<Rightarrow> Session" where
  "tally [] s = s"
| "tally (r # rs) s =
     tally rs (if out_Error r = [] \<and> out_StatusCode r \<ge> 200 \<and> out_StatusCode r < 300
               then s\<lparr>ls_Delivered := wrap64 (ls_Delivered s + 1)\<rparr>
               else s\<lparr>ls_Failed := wrap64 (ls_Failed s + 1)\<rparr>)"

definition Report :: "instant \<Rightarrow> string \<Rightarrow> string \<Rightarrow> Outcome list \<Rightarrow> Hub \<Rightarrow> Hub \<times> bool" where
  "Report now tenantID sid outcomes h =
     (case map_of (th_sessions h) sid of
        None \<Rightarrow> (h, False)
      | Some s \<Rightarrow>
          if ls_TenantID s \<noteq> tenantID then (h, False)
          else (h\<lparr>th_sessions := AList.update sid (tally outcomes (s\<lparr>ls_LastSeen := now\<rparr>)) (th_sessions h)\<rparr>, True))"

text \<open>\<open>Sessions\<close>: copies without queue and channels, by start time.\<close>

definition Sessions :: "instant \<Rightarrow> string \<Rightarrow> Hub \<Rightarrow> Session list" where
  "Sessions now tenantID h =
     sort_key ls_StartedAt
       (map (\<lambda>s. s\<lparr>ls_queue := [], ls_waiters := []\<rparr>)
         (filter (\<lambda>s. \<not> (ls_TenantID s \<noteq> tenantID \<or> time_sub now (ls_LastSeen s) > MaxSessionAge))
           (map snd (th_sessions h))))"

fun sweepSessions ::
    "instant \<Rightarrow> (string \<times> Session) list \<Rightarrow> nat list \<Rightarrow> ((string \<times> Session) list \<times> nat list \<times> int) option" where
  "sweepSessions cutoff [] shut = Some ([], shut, 0)"
| "sweepSessions cutoff ((sid, s) # rest) shut =
     (if ls_LastSeen s < cutoff then
        (case closeAll (ls_waiters s) shut of
           None \<Rightarrow> None
         | Some shut \<Rightarrow>
             (case sweepSessions cutoff rest shut of
                None \<Rightarrow> None
              | Some (rest, shut, removed) \<Rightarrow> Some (rest, shut, removed + 1)))
      else
        (case sweepSessions cutoff rest shut of
           None \<Rightarrow> None
         | Some (rest, shut, removed) \<Rightarrow> Some ((sid, s) # rest, shut, removed)))"

definition SweepHub :: "instant \<Rightarrow> Hub \<Rightarrow> (Hub \<times> int) option" where
  "SweepHub now h =
     (case sweepSessions (now - MaxSessionAge) (th_sessions h) (th_closed h) of
        None \<Rightarrow> None
      | Some (sessions, shut, removed) \<Rightarrow> Some (h\<lparr>th_sessions := sessions, th_closed := shut\<rparr>, removed))"

definition Queued :: "string \<Rightarrow> string \<Rightarrow> Hub \<Rightarrow> int option" where
  "Queued tenantID sid h =
     (case map_of (th_sessions h) sid of
        None \<Rightarrow> None
      | Some s \<Rightarrow> if ls_TenantID s \<noteq> tenantID then None else Some (int (length (ls_queue s))))"

section \<open>With the dispatcher\<close>

text \<open>
  \<open>DeliverOnce\<close> offers what it is about to send to the hub: the same bytes and the same signature. The dispatcher
  does not read what \<open>Publish\<close> returns; a panic there would be its own.
\<close>

definition deliverListening ::
    "DispatchEnv \<Rightarrow> instant \<Rightarrow> instant \<Rightarrow> Delivery \<Rightarrow> Dispatcher \<Rightarrow> Hub
     \<Rightarrow> (((Dispatcher \<times> store_error option) \<times> Request option) \<times> Hub) option" where
  "deliverListening E start now del s h =
     (let r = DeliverOnce E start now del s in
      case snd r of
        None \<Rightarrow> Some (r, h)
      | Some req \<Rightarrow>
          (case GetCanonicalEvent (ds_store s) (del_TenantID del) (del_EventID del) of
             Inl _ \<Rightarrow> Some (r, h)
           | Inr event \<Rightarrow>
               (case Publish start event (rq_Body req) (rq_Signature req) h of
                  None \<Rightarrow> None
                | Some (h, _) \<Rightarrow> Some (r, h))))"

end
