(* ===== verification/Tunnel_Spec.thy ===== *)
theory Tunnel_Spec
  imports Tunnel Dispatch_Spec Assoc
begin

text \<open>
  What a listening developer is promised. The world is the hub, the polls that are blocked, and three histories
  nothing in the code reads: which sessions were started, what each was offered, and what each caller was handed.
  The operations are the methods of the hub and the three ways a blocked poll goes on; any interleaving of them is
  a list.
\<close>

section \<open>The world\<close>

record blockedPoll =
  bp_chan :: nat
  bp_tenant :: string
  bp_session :: string
  bp_max :: int

record world =
  lw_hub :: Hub
  lw_blocked :: "blockedPoll list"
  lw_started :: "(string \<times> string \<times> Filter) list"
  lw_offered :: "(string \<times> Offered) list"
  lw_handed :: "(string \<times> string \<times> Offered) list"
  lw_panicked :: bool

definition newWorld :: "Hub \<Rightarrow> world" where
  "newWorld h = \<lparr>lw_hub = h, lw_blocked = [], lw_started = [], lw_offered = [], lw_handed = [], lw_panicked = False\<rparr>"

datatype tunnel_op =
    TStart instant string string string Filter
  | TStop string string
  | TPublish instant CanonicalEvent string string
  | TPoll instant string string int
  | TWoken nat
  | TGiveUp nat
  | TReport instant string string "Outcome list"
  | TSweep instant

definition crash :: "world \<Rightarrow> world" where "crash w = w\<lparr>lw_panicked := True\<rparr>"

definition hand :: "string \<Rightarrow> string \<Rightarrow> PollAnswer \<Rightarrow> world \<Rightarrow> world" where
  "hand tenantID sid a w =
     (case a of PollHands ds \<Rightarrow> w\<lparr>lw_handed := lw_handed w @ map (\<lambda>d. (tenantID, sid, d)) ds\<rparr> | _ \<Rightarrow> w)"

text \<open>Who takes an event, in the order of the sessions.\<close>

definition takers :: "instant \<Rightarrow> CanonicalEvent \<Rightarrow> (string \<times> Session) list \<Rightarrow> string list" where
  "takers now e ss = map fst (filter (\<lambda>(_, s). listens now e s) ss)"

definition release :: "nat \<Rightarrow> world \<Rightarrow> world" where
  "release ch w = w\<lparr>lw_blocked := filter (\<lambda>b. bp_chan b \<noteq> ch) (lw_blocked w)\<rparr>"

fun tunnel_step :: "world \<Rightarrow> tunnel_op \<Rightarrow> world" where
  "tunnel_step w (TStart now sid t fwd flt) =
     w\<lparr>lw_hub := fst (Start now sid t fwd flt (lw_hub w)), lw_started := (sid, t, flt) # lw_started w\<rparr>"
| "tunnel_step w (TStop t sid) =
     (case Stop t sid (lw_hub w) of None \<Rightarrow> crash w | Some h \<Rightarrow> w\<lparr>lw_hub := h\<rparr>)"
| "tunnel_step w (TPublish now e payload sig) =
     (case Publish now e payload sig (lw_hub w) of
        None \<Rightarrow> crash w
      | Some (h, _) \<Rightarrow>
          w\<lparr>lw_hub := h,
            lw_offered := lw_offered w @ map (\<lambda>sid. (sid, offeredEvent now e payload sig)) (takers now e (th_sessions (lw_hub w)))\<rparr>)"
| "tunnel_step w (TPoll now t sid n) =
     (let (h, a) = PollStart now t sid n (lw_hub w); w = hand t sid a (w\<lparr>lw_hub := h\<rparr>) in
      case a of
        PollBlocks ch \<Rightarrow> w\<lparr>lw_blocked := \<lparr>bp_chan = ch, bp_tenant = t, bp_session = sid, bp_max = n\<rparr> # lw_blocked w\<rparr>
      | _ \<Rightarrow> w)"
| "tunnel_step w (TWoken ch) =
     (case find (\<lambda>b. bp_chan b = ch) (lw_blocked w) of
        None \<Rightarrow> w
      | Some b \<Rightarrow>
          (let (h, a) = PollWoken (bp_session b) (bp_max b) (lw_hub w)
           in release ch (hand (bp_tenant b) (bp_session b) a (w\<lparr>lw_hub := h\<rparr>))))"
| "tunnel_step w (TGiveUp ch) = release ch w"
| "tunnel_step w (TReport now t sid os) = w\<lparr>lw_hub := fst (Report now t sid os (lw_hub w))\<rparr>"
| "tunnel_step w (TSweep now) =
     (case SweepHub now (lw_hub w) of None \<Rightarrow> crash w | Some (h, _) \<Rightarrow> w\<lparr>lw_hub := h\<rparr>)"

text \<open>Session identifiers are drawn fresh, and a poll wakes only when its channel is closed.\<close>

fun tunnel_ok :: "world \<Rightarrow> tunnel_op \<Rightarrow> bool" where
  "tunnel_ok w (TStart now sid t fwd flt) = (sid \<notin> fst ` set (lw_started w))"
| "tunnel_ok w (TWoken ch) = (ch \<in> set (th_closed (lw_hub w)))"
| "tunnel_ok w _ = True"

section \<open>Invariant\<close>

definition pendingChans :: "(string \<times> Session) list \<Rightarrow> nat list" where
  "pendingChans ss = concat (map (\<lambda>(_, s). ls_waiters s) ss)"

definition chans_wf :: "Hub \<Rightarrow> bool" where
  "chans_wf h \<longleftrightarrow> distinct (pendingChans (th_sessions h) @ th_closed h)
     \<and> (\<forall>ch \<in> set (pendingChans (th_sessions h) @ th_closed h). ch < th_made h)"

definition handedTo :: "world \<Rightarrow> string \<Rightarrow> Offered list" where
  "handedTo w sid = map (snd \<circ> snd) (filter (\<lambda>x. fst (snd x) = sid) (lw_handed w))"

definition offeredTo :: "world \<Rightarrow> string \<Rightarrow> Offered list" where
  "offeredTo w sid = map snd (filter (\<lambda>x. fst x = sid) (lw_offered w))"

definition session_wf :: "world \<Rightarrow> string \<Rightarrow> Session \<Rightarrow> bool" where
  "session_wf w sid s \<longleftrightarrow>
     map_of (lw_started w) sid = Some (ls_TenantID s, ls_Filter s)
     \<and> (ls_waiters s \<noteq> [] \<longrightarrow> ls_queue s = [])
     \<and> int (length (ls_queue s)) \<le> th_maxQueue (lw_hub w)
     \<and> subseq (handedTo w sid @ ls_queue s) (offeredTo w sid)"

definition meant_for :: "world \<Rightarrow> string \<Rightarrow> string \<Rightarrow> Offered \<Rightarrow> bool" where
  "meant_for w tenantID sid d \<longleftrightarrow>
     (\<exists>flt. map_of (lw_started w) sid = Some (tenantID, flt) \<and> ev_TenantID (of_Event d) = tenantID \<and> Matches flt (of_Event d))"

definition tunnel_inv :: "int \<Rightarrow> world \<Rightarrow> bool" where
  "tunnel_inv mx w \<longleftrightarrow>
     \<not> lw_panicked w \<and> th_maxQueue (lw_hub w) = mx \<and> 0 < mx \<and> keys_distinct (th_sessions (lw_hub w)) \<and> chans_wf (lw_hub w)
     \<and> (\<forall>sid s. (sid, s) \<in> set (th_sessions (lw_hub w)) \<longrightarrow> session_wf w sid s)
     \<and> (\<forall>sid. subseq (handedTo w sid) (offeredTo w sid))
     \<and> (\<forall>sid d. (sid, d) \<in> set (lw_offered w) \<longrightarrow> (\<exists>t. meant_for w t sid d))
     \<and> (\<forall>t sid d. (t, sid, d) \<in> set (lw_handed w) \<longrightarrow> meant_for w t sid d)
     \<and> (\<forall>b \<in> set (lw_blocked w). bp_chan b < th_made (lw_hub w)
          \<and> (\<exists>flt. map_of (lw_started w) (bp_session b) = Some (bp_tenant b, flt))
          \<and> (bp_chan b \<in> set (th_closed (lw_hub w))
             \<or> (\<exists>s. (bp_session b, s) \<in> set (th_sessions (lw_hub w)) \<and> bp_chan b \<in> set (ls_waiters s))))"

section \<open>Channels\<close>

lemma closeAll_ok: "distinct (ws @ shut) \<Longrightarrow> closeAll ws shut = Some (rev ws @ shut)"
  by (induction ws arbitrary: shut) auto

lemma pendingChans_simps [simp]:
  "pendingChans [] = []" "pendingChans ((sid, s) # ss) = ls_waiters s @ pendingChans ss"
  "pendingChans (ss @ ss') = pendingChans ss @ pendingChans ss'"
  by (simp_all add: pendingChans_def)

lemma set_pendingChans: "ch \<in> set (pendingChans ss) \<longleftrightarrow> (\<exists>sid s. (sid, s) \<in> set ss \<and> ch \<in> set (ls_waiters s))"
  unfolding pendingChans_def by force

lemma pendingChans_filter:
  "mset (pendingChans (filter P ss)) + mset (pendingChans (filter (\<lambda>x. \<not> P x) ss)) = mset (pendingChans ss)"
proof (induction ss)
  case (Cons x ss)
  then show ?case by (cases x) (auto simp: ac_simps)
qed simp

lemma chans_wf_moved:
  "mset (pendingChans (th_sessions h') @ th_closed h') = mset (pendingChans (th_sessions h) @ th_closed h)
   \<Longrightarrow> th_made h' = th_made h \<Longrightarrow> chans_wf h' \<longleftrightarrow> chans_wf h"
  unfolding chans_wf_def by (metis mset_eq_imp_distinct_iff mset_eq_setD)

lemma publishAll_ok:
  "distinct (pendingChans ss @ shut) \<Longrightarrow>
   publishAll now mx e d ss shut =
     Some (map (\<lambda>(sid, s). (sid, if listens now e s then offer mx d s else s)) ss,
           rev (pendingChans (filter (\<lambda>(_, s). listens now e s) ss)) @ shut, int (length (takers now e ss)))"
proof (induction ss arbitrary: shut)
  case Nil
  then show ?case by (simp add: takers_def)
next
  case (Cons x ss)
  obtain sid s where x: "x = (sid, s)" by fastforce
  have d: "distinct (ls_waiters s @ shut)" "distinct (pendingChans ss @ rev (ls_waiters s) @ shut)"
    "distinct (pendingChans ss @ shut)" using Cons.prems by (auto simp: x)
  show ?case using Cons.IH [OF d(2)] Cons.IH [OF d(3)] by (simp add: x closeAll_ok [OF d(1)] takers_def)
qed

lemma sweepSessions_ok:
  "distinct (pendingChans ss @ shut) \<Longrightarrow>
   sweepSessions cutoff ss shut =
     Some (filter (\<lambda>(_, s). \<not> ls_LastSeen s < cutoff) ss,
           rev (pendingChans (filter (\<lambda>x. \<not> (\<lambda>(_, s). \<not> ls_LastSeen s < cutoff) x) ss)) @ shut,
           int (length (filter (\<lambda>(_, s). ls_LastSeen s < cutoff) ss)))"
proof (induction ss arbitrary: shut)
  case (Cons x ss)
  obtain sid s where x: "x = (sid, s)" by fastforce
  have d: "distinct (ls_waiters s @ shut)" "distinct (pendingChans ss @ rev (ls_waiters s) @ shut)"
    "distinct (pendingChans ss @ shut)" using Cons.prems by (auto simp: x)
  show ?case using Cons.IH [OF d(2)] Cons.IH [OF d(3)] by (simp add: x closeAll_ok [OF d(1)])
qed simp

lemma chans_distinct: "chans_wf h \<Longrightarrow> distinct (pendingChans (th_sessions h) @ th_closed h)"
  by (simp add: chans_wf_def)

lemma waiters_distinct: "chans_wf h \<Longrightarrow> (sid, s) \<in> set (th_sessions h) \<Longrightarrow> distinct (ls_waiters s @ th_closed h)"
  using chans_distinct [of h] by (auto dest!: split_list)

text \<open>Removing sessions and closing their channels moves channels from the sessions to the closed ones.\<close>

definition dropSessions :: "(string \<times> Session \<Rightarrow> bool) \<Rightarrow> Hub \<Rightarrow> Hub" where
  "dropSessions keep h =
     h\<lparr>th_sessions := filter keep (th_sessions h),
       th_closed := rev (pendingChans (filter (\<lambda>x. \<not> keep x) (th_sessions h))) @ th_closed h\<rparr>"

lemma filter_key:
  "keys_distinct ss \<Longrightarrow> map_of ss sid = Some s \<Longrightarrow> filter (\<lambda>x. sid = fst x) ss = [(sid, s)]"
proof (induction ss)
  case (Cons x ss)
  show ?case
  proof (cases "fst x = sid")
    case True
    with Cons.prems show ?thesis by (cases x) (auto simp: filter_empty_conv)
  next
    case False
    with Cons show ?thesis by (cases x) (auto split: if_splits)
  qed
qed simp

lemma Stop_drop:
  assumes "chans_wf h" "keys_distinct (th_sessions h)"
  shows "\<exists>keep. Stop t sid h = Some (dropSessions keep h)"
proof (cases "\<exists>s. map_of (th_sessions h) sid = Some s \<and> ls_TenantID s = t")
  case True
  then obtain s where s: "map_of (th_sessions h) sid = Some s" "ls_TenantID s = t" by auto
  have "distinct (ls_waiters s @ th_closed h)" by (rule waiters_distinct [OF assms(1) map_of_SomeD [OF s(1)]])
  then have "Stop t sid h = Some (dropSessions (\<lambda>x. sid \<noteq> fst x) h)"
    using s filter_key [OF assms(2) s(1)]
    by (simp add: Stop_def dropSessions_def closeAll_ok AList.delete_eq split_def)
  then show ?thesis by blast
next
  case False
  then have "Stop t sid h = Some (dropSessions (\<lambda>_. True) h)"
    by (auto simp: Stop_def dropSessions_def split: option.splits)
  then show ?thesis by blast
qed

lemma SweepHub_drop:
  "chans_wf h \<Longrightarrow> \<exists>keep n. SweepHub now h = Some (dropSessions keep h, n)"
  by (intro exI [of _ "\<lambda>(_, s). \<not> ls_LastSeen s < now - MaxSessionAge"])
    (simp add: SweepHub_def dropSessions_def sweepSessions_ok [OF chans_distinct])

section \<open>Every operation keeps the invariant\<close>

lemma tunnel_invI:
  assumes "\<not> lw_panicked w" "th_maxQueue (lw_hub w) = mx" "0 < mx" "keys_distinct (th_sessions (lw_hub w))"
    and "chans_wf (lw_hub w)" "\<And>sid s. (sid, s) \<in> set (th_sessions (lw_hub w)) \<Longrightarrow> session_wf w sid s"
    and "\<And>sid. subseq (handedTo w sid) (offeredTo w sid)"
    and "\<And>sid d. (sid, d) \<in> set (lw_offered w) \<Longrightarrow> \<exists>t. meant_for w t sid d"
    and "\<And>t sid d. (t, sid, d) \<in> set (lw_handed w) \<Longrightarrow> meant_for w t sid d"
    and "\<And>b. b \<in> set (lw_blocked w) \<Longrightarrow> bp_chan b < th_made (lw_hub w)"
    and "\<And>b. b \<in> set (lw_blocked w) \<Longrightarrow> \<exists>flt. map_of (lw_started w) (bp_session b) = Some (bp_tenant b, flt)"
    and "\<And>b. b \<in> set (lw_blocked w) \<Longrightarrow> bp_chan b \<in> set (th_closed (lw_hub w))
           \<or> (\<exists>s. (bp_session b, s) \<in> set (th_sessions (lw_hub w)) \<and> bp_chan b \<in> set (ls_waiters s))"
  shows "tunnel_inv mx w"
  using assms unfolding tunnel_inv_def by blast

lemma tunnel_invD:
  assumes "tunnel_inv mx w"
  shows "\<not> lw_panicked w" "th_maxQueue (lw_hub w) = mx" "0 < mx" "keys_distinct (th_sessions (lw_hub w))"
    and "chans_wf (lw_hub w)" "\<And>sid s. (sid, s) \<in> set (th_sessions (lw_hub w)) \<Longrightarrow> session_wf w sid s"
    and "\<And>sid. subseq (handedTo w sid) (offeredTo w sid)"
    and "\<And>sid d. (sid, d) \<in> set (lw_offered w) \<Longrightarrow> \<exists>t. meant_for w t sid d"
    and "\<And>t sid d. (t, sid, d) \<in> set (lw_handed w) \<Longrightarrow> meant_for w t sid d"
    and "\<And>b. b \<in> set (lw_blocked w) \<Longrightarrow> bp_chan b < th_made (lw_hub w)"
    and "\<And>b. b \<in> set (lw_blocked w) \<Longrightarrow> \<exists>flt. map_of (lw_started w) (bp_session b) = Some (bp_tenant b, flt)"
    and "\<And>b. b \<in> set (lw_blocked w) \<Longrightarrow> bp_chan b \<in> set (th_closed (lw_hub w))
           \<or> (\<exists>s. (bp_session b, s) \<in> set (th_sessions (lw_hub w)) \<and> bp_chan b \<in> set (ls_waiters s))"
  using assms unfolding tunnel_inv_def by blast+

lemma histories [simp]:
  "handedTo (w\<lparr>lw_hub := h\<rparr>) sid = handedTo w sid" "offeredTo (w\<lparr>lw_hub := h\<rparr>) sid = offeredTo w sid"
  "handedTo (w\<lparr>lw_blocked := b\<rparr>) sid = handedTo w sid" "offeredTo (w\<lparr>lw_blocked := b\<rparr>) sid = offeredTo w sid"
  "handedTo (w\<lparr>lw_started := b'\<rparr>) sid = handedTo w sid" "offeredTo (w\<lparr>lw_started := b'\<rparr>) sid = offeredTo w sid"
  "meant_for (w\<lparr>lw_hub := h\<rparr>) t sid d = meant_for w t sid d"
  "meant_for (w\<lparr>lw_blocked := b\<rparr>) t sid d = meant_for w t sid d"
  by (simp_all add: handedTo_def offeredTo_def meant_for_def)

lemma session_wf_hub [simp]:
  "th_maxQueue h = th_maxQueue (lw_hub w) \<Longrightarrow> session_wf (w\<lparr>lw_hub := h\<rparr>) sid s = session_wf w sid s"
  "session_wf (w\<lparr>lw_blocked := b\<rparr>) sid s = session_wf w sid s"
  by (simp_all add: session_wf_def)

lemma dropSessions_simps [simp]:
  "th_maxQueue (dropSessions keep h) = th_maxQueue h" "th_made (dropSessions keep h) = th_made h"
  "th_sessions (dropSessions keep h) = filter keep (th_sessions h)"
  by (simp_all add: dropSessions_def)

lemma dropSessions_chans: "chans_wf h \<Longrightarrow> chans_wf (dropSessions keep h)"
  using pendingChans_filter [of keep "th_sessions h"] chans_wf_moved [of "dropSessions keep h" h]
  by (simp add: dropSessions_def ac_simps)

lemma inv_drop:
  assumes "tunnel_inv mx w"
  shows "tunnel_inv mx (w\<lparr>lw_hub := dropSessions keep (lw_hub w)\<rparr>)"
proof -
  have "bp_chan b \<in> set (th_closed (dropSessions keep (lw_hub w)))
      \<or> (\<exists>s. (bp_session b, s) \<in> set (filter keep (th_sessions (lw_hub w))) \<and> bp_chan b \<in> set (ls_waiters s))"
    if "b \<in> set (lw_blocked w)" for b
  proof -
    from assms that consider "bp_chan b \<in> set (th_closed (lw_hub w))"
      | s where "(bp_session b, s) \<in> set (th_sessions (lw_hub w))" "bp_chan b \<in> set (ls_waiters s)"
      unfolding tunnel_inv_def by blast
    then show ?thesis
    proof cases
      case 2
      then show ?thesis
        by (cases "keep (bp_session b, s)") (auto simp: dropSessions_def set_pendingChans)
    qed (simp add: dropSessions_def)
  qed
  with assms show ?thesis
    unfolding tunnel_inv_def by (simp add: dropSessions_chans keys_distinct_filter)
qed

lemma inv_release: "tunnel_inv mx w \<Longrightarrow> tunnel_inv mx (release ch w)"
  unfolding tunnel_inv_def release_def by simp

lemma handedTo_hand [simp]:
  "handedTo (hand t sid (PollHands ds) w) sid' = handedTo w sid' @ (if sid' = sid then ds else [])"
  by (simp add: handedTo_def hand_def filter_map comp_def)

lemma hand_simps [simp]:
  "lw_hub (hand t sid a w) = lw_hub w" "lw_blocked (hand t sid a w) = lw_blocked w"
  "lw_started (hand t sid a w) = lw_started w" "lw_offered (hand t sid a w) = lw_offered w"
  "lw_panicked (hand t sid a w) = lw_panicked w"
  "lw_handed (hand t sid (PollHands ds) w) = lw_handed w @ map (\<lambda>d. (t, sid, d)) ds"
  by (simp_all add: hand_def split: PollAnswer.split)

lemma update_chans:
  assumes "map_of (th_sessions h) sid = Some s" "ls_waiters s' = ls_waiters s"
  shows "chans_wf (h\<lparr>th_sessions := AList.update sid s' (th_sessions h)\<rparr>) = chans_wf h"
  using update_in_place [OF assms(1)] assms(2) by (auto simp: chans_wf_def)

lemma subseq_members: "subseq xs ys \<Longrightarrow> x \<in> set xs \<Longrightarrow> x \<in> set ys"
  by (auto elim: list_emb_set)

lemma queued_meant:
  assumes "tunnel_inv mx w" "(sid, s) \<in> set (th_sessions (lw_hub w))" "d \<in> set (ls_queue s)"
  shows "meant_for w (ls_TenantID s) sid d"
proof -
  have wf: "session_wf w sid s" using assms(1,2) unfolding tunnel_inv_def by blast
  then have "d \<in> set (offeredTo w sid)"
    using assms(3) by (auto simp: session_wf_def dest: subseq_members)
  then have "(sid, d) \<in> set (lw_offered w)" by (auto simp: offeredTo_def)
  then obtain t where "meant_for w t sid d" using assms(1) unfolding tunnel_inv_def by blast
  then show ?thesis using wf by (auto simp: meant_for_def session_wf_def)
qed

lemma meant_hand [simp]: "meant_for (hand t' sid' a w) t sid d = meant_for w t sid d"
  by (simp add: meant_for_def)

lemma offeredTo_hand [simp]: "offeredTo (hand t sid a w) sid' = offeredTo w sid'"
  by (simp add: offeredTo_def)

lemma inv_hand:
  assumes "tunnel_inv mx w" and s: "map_of (th_sessions (lw_hub w)) sid = Some s"
    and s': "ls_TenantID s' = ls_TenantID s" "ls_Filter s' = ls_Filter s" "ls_waiters s' = ls_waiters s"
      "ls_queue s' = drop k (ls_queue s)"
  shows "tunnel_inv mx (hand (ls_TenantID s) sid (PollHands (take k (ls_queue s)))
           (w\<lparr>lw_hub := (lw_hub w)\<lparr>th_sessions := AList.update sid s' (th_sessions (lw_hub w))\<rparr>\<rparr>))"
    (is "tunnel_inv mx ?w")
proof (rule tunnel_invI)
  note D = tunnel_invD [OF assms(1)]
  note wf = D(6) [OF map_of_SomeD [OF s]]
  show "session_wf ?w x y" if "(x, y) \<in> set (th_sessions (lw_hub ?w))" for x y
    using that D(6) [of x y] wf s' by (auto simp: set_update [OF D(4)] session_wf_def split: if_splits)
  show "subseq (handedTo ?w x) (offeredTo ?w x)" for x
  proof (cases "x = sid")
    case True
    have "subseq (handedTo w sid @ take k (ls_queue s)) (handedTo w sid @ ls_queue s)"
      by (rule prefix_imp_subseq) (simp add: take_is_prefix)
    moreover have "subseq (handedTo w sid @ ls_queue s) (offeredTo w sid)" using wf by (simp add: session_wf_def)
    ultimately show ?thesis using True by (simp add: subseq_order.trans)
  qed (simp add: D(7))
  show "meant_for ?w t x d" if "(t, x, d) \<in> set (lw_handed ?w)" for t x d
    using that queued_meant [OF assms(1) map_of_SomeD [OF s], of d] by (auto dest: in_set_takeD D(9))
  show "bp_chan b \<in> set (th_closed (lw_hub ?w))
      \<or> (\<exists>y. (bp_session b, y) \<in> set (th_sessions (lw_hub ?w)) \<and> bp_chan b \<in> set (ls_waiters y))"
    if "b \<in> set (lw_blocked ?w)" for b
    using D(12) [of b] that s s'(3)
    by (cases "bp_session b = sid") (auto simp: set_update [OF D(4)] in_set_map_of [OF D(4)])
qed (use tunnel_invD [OF assms(1)] in \<open>simp_all add: update_chans [OF s s'(3)]\<close>)

definition published :: "instant \<Rightarrow> CanonicalEvent \<Rightarrow> Offered \<Rightarrow> Hub \<Rightarrow> Hub" where
  "published now e d h =
     h\<lparr>th_sessions := map (\<lambda>(sid, s). (sid, if listens now e s then offer (th_maxQueue h) d s else s)) (th_sessions h),
       th_closed := rev (pendingChans (filter (\<lambda>(_, s). listens now e s) (th_sessions h))) @ th_closed h\<rparr>"

lemma Publish_ok:
  "chans_wf h \<Longrightarrow> Publish now e payload sig h =
     Some (published now e (offeredEvent now e payload sig) h, int (length (takers now e (th_sessions h))))"
  by (simp add: Publish_def published_def publishAll_ok [OF chans_distinct])

lemma published_pending:
  "pendingChans (map (\<lambda>(sid, s). (sid, if listens now e s then offer mx d s else s)) ss)
   = pendingChans (filter (\<lambda>x. \<not> (\<lambda>(_, s). listens now e s) x) ss)"
  by (induction ss) (auto simp: offer_def)

lemma published_chans: "chans_wf h \<Longrightarrow> chans_wf (published now e d h)"
  using pendingChans_filter [of "\<lambda>(_, s). listens now e s" "th_sessions h"] chans_wf_moved [of "published now e d h" h]
  by (simp add: published_def published_pending ac_simps)

lemma published_keys [simp]:
  "map fst (th_sessions (published now e d h)) = map fst (th_sessions h)"
  "th_maxQueue (published now e d h) = th_maxQueue h" "th_made (published now e d h) = th_made h"
  by (simp_all add: published_def split_def comp_def)

lemma takers_member:
  "keys_distinct ss \<Longrightarrow> (sid, s) \<in> set ss \<Longrightarrow> sid \<in> set (takers now e ss) \<longleftrightarrow> listens now e s"
  by (auto simp: takers_def dest: eq_key_imp_eq_value intro: rev_image_eqI [of "(sid, s)"])

lemma takers_distinct: "keys_distinct ss \<Longrightarrow> distinct (takers now e ss)"
  unfolding takers_def by (rule keys_distinct_filter)

lemma offered_one:
  "distinct ts \<Longrightarrow> map snd (filter (\<lambda>x. fst x = sid) (map (\<lambda>sid. (sid, d)) ts)) = (if sid \<in> set ts then [d] else [])"
  by (induction ts) auto

lemma subseq_offer:
  "subseq (hs @ q) os \<Longrightarrow> subseq (hs @ drop k q @ [d]) (os @ [d])"
proof -
  assume "subseq (hs @ q) os"
  moreover have "subseq (hs @ drop k q) (hs @ q)" 
    by (rule list_emb_append_mono [OF subseq_order.order_refl suffix_imp_subseq [OF suffix_drop]])
  ultimately have "subseq (hs @ drop k q) os" by (rule subseq_order.trans [rotated])
  from list_emb_append_mono [OF this, of "[d]" "[d]"] show ?thesis by simp
qed

lemma inv_publish:
  fixes w now e payload sig
  defines "d \<equiv> offeredEvent now e payload sig"
  defines "w' \<equiv> w\<lparr>lw_hub := published now e d (lw_hub w),
                  lw_offered := lw_offered w @ map (\<lambda>sid. (sid, d)) (takers now e (th_sessions (lw_hub w)))\<rparr>"
  assumes "tunnel_inv mx w"
  shows "tunnel_inv mx w'"
proof (rule tunnel_invI)
  note D = tunnel_invD [OF assms(3)]
  let ?ss = "th_sessions (lw_hub w)"
  have offered: "offeredTo w' sid = offeredTo w sid @ (if sid \<in> set (takers now e ?ss) then [d] else [])" for sid
  proof -
    have "lw_offered w' = lw_offered w @ map (\<lambda>sid. (sid, d)) (takers now e ?ss)" by (simp add: w'_def)
    then show ?thesis
      by (simp only: offeredTo_def filter_append map_append offered_one [OF takers_distinct [OF D(4)]])
  qed
  have hub: "lw_hub w' = published now e d (lw_hub w)" "lw_started w' = lw_started w" by (simp_all add: w'_def)
  have handed: "handedTo w' sid = handedTo w sid" for sid by (simp add: w'_def handedTo_def)
  have meant: "meant_for w' t sid x = meant_for w t sid x" for t sid x by (simp add: w'_def meant_for_def)
  show "session_wf w' sid s'" if "(sid, s') \<in> set (th_sessions (lw_hub w'))" for sid s'
  proof -
    from that obtain s where s: "(sid, s) \<in> set ?ss" "s' = (if listens now e s then offer mx d s else s)"
      using D(2) by (auto simp: w'_def published_def)
    have wf: "session_wf w sid s" by (rule D(6) [OF s(1)])
    have taken: "sid \<in> set (takers now e ?ss) \<longleftrightarrow> listens now e s" by (rule takers_member [OF D(4) s(1)])
    show ?thesis
    proof (cases "listens now e s")
      case True
      then have "offeredTo w' sid = offeredTo w sid @ [d]" by (simp add: offered taken)
      moreover have "subseq (handedTo w sid @ drop k (ls_queue s) @ [d]) (offeredTo w sid @ [d])" for k
        by (rule subseq_offer) (use wf in \<open>simp add: session_wf_def\<close>)
      from this [of 0] this [of 1]
      have "subseq (handedTo w sid @ ls_queue (offer mx d s)) (offeredTo w sid @ [d])" by (simp add: offer_def)
      moreover have "int (length (ls_queue (offer mx d s))) \<le> mx"
        using wf D(2,3) by (auto simp: session_wf_def offer_def)
      ultimately show ?thesis
        using True wf D(2) s(2) by (simp add: session_wf_def handed hub) (simp add: offer_def)
    next
      case False
      with wf D(2) s(2) show ?thesis by (simp add: session_wf_def handed offered taken hub)
    qed
  qed
  show "subseq (handedTo w' sid) (offeredTo w' sid)" for sid
    using D(7) [of sid] by (simp add: handed offered list_emb_prefix)
  show "\<exists>t. meant_for w' t sid x" if "(sid, x) \<in> set (lw_offered w')" for sid x
  proof (cases "(sid, x) \<in> set (lw_offered w)")
    case True
    then show ?thesis using D(8) by (simp add: meant)
  next
    case False
    with that obtain s where s: "(sid, s) \<in> set ?ss" "listens now e s" "x = d"
      by (auto simp: w'_def takers_def)
    then have "meant_for w (ls_TenantID s) sid d"
      using D(6) [OF s(1)] by (auto simp: meant_for_def session_wf_def listens_def d_def offeredEvent_def)
    then show ?thesis using s(3) by (auto simp: meant)
  qed
  show "bp_chan b \<in> set (th_closed (lw_hub w'))
      \<or> (\<exists>y. (bp_session b, y) \<in> set (th_sessions (lw_hub w')) \<and> bp_chan b \<in> set (ls_waiters y))"
    if "b \<in> set (lw_blocked w')" for b
  proof -
    from that D(12) consider "bp_chan b \<in> set (th_closed (lw_hub w))"
      | s where "(bp_session b, s) \<in> set ?ss" "bp_chan b \<in> set (ls_waiters s)" by (auto simp: w'_def)
    then show ?thesis
    proof cases
      case 2
      then show ?thesis
        by (cases "listens now e s") (force simp: w'_def published_def set_pendingChans)+
    qed (simp add: w'_def published_def)
  qed
qed (use tunnel_invD [OF assms(3)] in \<open>simp_all add: w'_def published_chans meant_for_def\<close>)

lemma inv_block:
  fixes w sid s now t n
  defines "s' \<equiv> s\<lparr>ls_LastSeen := now, ls_waiters := ls_waiters s @ [th_made (lw_hub w)]\<rparr>"
  defines "h' \<equiv> (lw_hub w)\<lparr>th_sessions := AList.update sid s' (th_sessions (lw_hub w)), th_made := th_made (lw_hub w) + 1\<rparr>"
  defines "b \<equiv> \<lparr>bp_chan = th_made (lw_hub w), bp_tenant = ls_TenantID s, bp_session = sid, bp_max = n\<rparr>"
  assumes "tunnel_inv mx w" and s: "map_of (th_sessions (lw_hub w)) sid = Some s" "ls_queue s = []"
  shows "tunnel_inv mx (w\<lparr>lw_hub := h', lw_blocked := b # lw_blocked w\<rparr>)" (is "tunnel_inv mx ?w")
proof (rule tunnel_invI)
  note D = tunnel_invD [OF assms(4)]
  note wf = D(6) [OF map_of_SomeD [OF s(1)]]
  show "session_wf ?w x y" if "(x, y) \<in> set (th_sessions (lw_hub ?w))" for x y
    using that D(6) [of x y] wf s(2)
    by (auto simp: h'_def s'_def set_update [OF D(4)] session_wf_def split: if_splits)
  obtain as bs where ss: "th_sessions (lw_hub w) = as @ (sid, s) # bs"
    "\<And>s'. AList.update sid s' (th_sessions (lw_hub w)) = as @ (sid, s') # bs"
    using update_in_place [OF s(1)] by blast
  have h': "th_sessions h' = as @ (sid, s') # bs" "th_closed h' = th_closed (lw_hub w)" "th_made h' = th_made (lw_hub w) + 1"
    by (simp_all add: h'_def ss(2))
  have "lw_hub ?w = h'" by simp
  then show "chans_wf (lw_hub ?w)"
    using D(5) unfolding chans_wf_def by (simp add: h' ss(1)) (auto simp: s'_def intro: less_SucI)
  show "bp_chan c \<in> set (th_closed (lw_hub ?w))
      \<or> (\<exists>y. (bp_session c, y) \<in> set (th_sessions (lw_hub ?w)) \<and> bp_chan c \<in> set (ls_waiters y))"
    if "c \<in> set (lw_blocked ?w)" for c
  proof (cases "c = b")
    case True
    then show ?thesis by (simp add: b_def h'_def set_update [OF D(4)]) (simp add: s'_def)
  next
    case False
    with that D(12) [of c] s(1) show ?thesis
      by (cases "bp_session c = sid") (auto simp: h'_def s'_def set_update [OF D(4)] in_set_map_of [OF D(4)])
  qed
  show "bp_chan c < th_made (lw_hub ?w)" if "c \<in> set (lw_blocked ?w)" for c
    using that D(10) [of c] by (auto simp: b_def h'_def)
  show "\<exists>flt. map_of (lw_started ?w) (bp_session c) = Some (bp_tenant c, flt)" if "c \<in> set (lw_blocked ?w)" for c
    using that D(11) [of c] wf by (auto simp: b_def session_wf_def)
qed (use tunnel_invD [OF assms(4)] in \<open>simp_all add: h'_def\<close>)

lemma inv_start:
  assumes "tunnel_inv mx w" and fresh: "sid \<notin> fst ` set (lw_started w)"
  shows "tunnel_inv mx (w\<lparr>lw_hub := fst (Start now sid t fwd flt (lw_hub w)), lw_started := (sid, t, flt) # lw_started w\<rparr>)"
    (is "tunnel_inv mx ?w")
proof (rule tunnel_invI)
  note D = tunnel_invD [OF assms(1)]
  have new: "map_of (lw_started w) sid = None" using fresh by (simp add: map_of_eq_None_iff)
  have unknown: "(sid, s) \<notin> set (th_sessions (lw_hub w))" for s
    using D(6) [of sid s] new by (auto simp: session_wf_def)
  have meant: "meant_for w t' x d \<Longrightarrow> meant_for ?w t' x d" for t' x d
    using new by (auto simp: meant_for_def)
  have offered: "offeredTo w sid = []"
    using D(8) [of sid] new by (auto simp: offeredTo_def meant_for_def filter_empty_conv)
  have handed: "handedTo w sid = []" using D(7) [of sid] by (simp add: offered)
  note none = offered handed
  have keys: "AList.update sid s (th_sessions (lw_hub w)) = th_sessions (lw_hub w) @ [(sid, s)]" for s
    using unknown by (intro update_nonmem) force
  show "session_wf ?w x y" if "(x, y) \<in> set (th_sessions (lw_hub ?w))" for x y
    using that D(3) D(6) [of x y] D(2) unknown [of y] none by (auto simp: Start_def Let_def keys session_wf_def)
  show "keys_distinct (th_sessions (lw_hub ?w))" using D(4) by (simp add: Start_def Let_def)
  show "chans_wf (lw_hub ?w)" using D(5) by (simp add: Start_def Let_def keys chans_wf_def)
  show "\<exists>t. meant_for ?w t x d" if "(x, d) \<in> set (lw_offered ?w)" for x d
    using that D(8) [of x d] meant by auto
  show "meant_for ?w t' x d" if "(t', x, d) \<in> set (lw_handed ?w)" for t' x d
    using that D(9) [of t' x d] meant by auto
  show "bp_chan b \<in> set (th_closed (lw_hub ?w))
      \<or> (\<exists>y. (bp_session b, y) \<in> set (th_sessions (lw_hub ?w)) \<and> bp_chan b \<in> set (ls_waiters y))"
    if "b \<in> set (lw_blocked ?w)" for b
    using that D(12) [of b] by (auto simp: Start_def Let_def keys)
  show "\<exists>flt. map_of (lw_started ?w) (bp_session b) = Some (bp_tenant b, flt)" if "b \<in> set (lw_blocked ?w)" for b
    using that D(11) [of b] new by auto
qed (use tunnel_invD [OF assms(1)] in \<open>simp_all add: Start_def Let_def\<close>)

lemma tally_fields [simp]:
  "ls_TenantID (tally os s) = ls_TenantID s" "ls_Filter (tally os s) = ls_Filter s"
  "ls_waiters (tally os s) = ls_waiters s" "ls_queue (tally os s) = ls_queue s"
  by (induction os arbitrary: s) auto

lemma takeQueued_cases:
  obtains k where "takeQueued n s = (s\<lparr>ls_queue := drop k (ls_queue s)\<rparr>, take k (ls_queue s))"
  by (auto simp: takeQueued_def Let_def)

lemma hand_none [simp]: "hand t sid PollNoSession w = w" "hand t sid (PollBlocks ch) w = w"
  by (simp_all add: hand_def)

lemma hand_nil [simp]: "hand t sid (PollHands []) w = w"
  by (simp add: hand_def)

lemma inv_poll:
  assumes "tunnel_inv mx w"
  shows "tunnel_inv mx (tunnel_step w (TPoll now t sid n))"
proof (cases "\<exists>s. map_of (th_sessions (lw_hub w)) sid = Some s \<and> ls_TenantID s = t")
  case True
  then obtain s where s: "map_of (th_sessions (lw_hub w)) sid = Some s" "ls_TenantID s = t" by auto
  show ?thesis
  proof (cases "ls_queue s = []")
    case True
    with s inv_block [OF assms s(1) True, where now = now and n = n] show ?thesis by (simp add: PollStart_def Let_def)
  next
    case False
    obtain k where k: "takeQueued (pollMax n) (s\<lparr>ls_LastSeen := now\<rparr>)
        = (s\<lparr>ls_LastSeen := now, ls_queue := drop k (ls_queue s)\<rparr>, take k (ls_queue s))"
      by (rule takeQueued_cases [of "pollMax n" "s\<lparr>ls_LastSeen := now\<rparr>"]) simp
    show ?thesis
      using s False inv_hand [OF assms s(1), of "s\<lparr>ls_LastSeen := now, ls_queue := drop k (ls_queue s)\<rparr>" k]
      by (simp add: PollStart_def k)
  qed
next
  case False
  then show ?thesis using assms by (auto simp: PollStart_def split: option.split)
qed

lemma inv_woken:
  assumes "tunnel_inv mx w"
  shows "tunnel_inv mx (tunnel_step w (TWoken ch))"
proof (cases "find (\<lambda>b. bp_chan b = ch) (lw_blocked w)")
  case None
  then show ?thesis using assms by simp
next
  case (Some b)
  then have b: "b \<in> set (lw_blocked w)" by (auto simp: find_Some_iff)
  show ?thesis
  proof (cases "map_of (th_sessions (lw_hub w)) (bp_session b)")
    case None
    with Some assms show ?thesis by (simp add: PollWoken_def inv_release)
  next
    case s: (Some s)
    obtain k where k: "takeQueued (pollMax (bp_max b)) s = (s\<lparr>ls_queue := drop k (ls_queue s)\<rparr>, take k (ls_queue s))"
      by (rule takeQueued_cases)
    have "bp_tenant b = ls_TenantID s"
      using tunnel_invD(11) [OF assms b] tunnel_invD(6) [OF assms map_of_SomeD [OF s]] by (auto simp: session_wf_def)
    with inv_release [OF inv_hand [OF assms s, of "s\<lparr>ls_queue := drop k (ls_queue s)\<rparr>" k]] Some s k
    show ?thesis by (simp add: PollWoken_def)
  qed
qed

lemma inv_report:
  assumes "tunnel_inv mx w"
  shows "tunnel_inv mx (tunnel_step w (TReport now t sid os))"
proof (cases "map_of (th_sessions (lw_hub w)) sid")
  case (Some s)
  then show ?thesis
    using inv_hand [OF assms Some, of "tally os (s\<lparr>ls_LastSeen := now\<rparr>)" 0] assms by (simp add: Report_def)
qed (use assms in \<open>simp add: Report_def\<close>)

lemma tunnel_step_inv:
  assumes "tunnel_inv mx w" and "tunnel_ok w x"
  shows "tunnel_inv mx (tunnel_step w x)"
proof (cases x)
  case (TStart now sid t fwd flt)
  then show ?thesis using inv_start [OF assms(1)] assms(2) by simp
next
  case (TStop t sid)
  obtain keep where "Stop t sid (lw_hub w) = Some (dropSessions keep (lw_hub w))"
    using Stop_drop tunnel_invD(4,5) [OF assms(1)] by blast
  then show ?thesis using TStop inv_drop [OF assms(1)] by simp
next
  case (TPublish now e payload sig)
  then show ?thesis using inv_publish [OF assms(1)] Publish_ok [OF tunnel_invD(5) [OF assms(1)]] by simp
next
  case (TSweep now)
  obtain keep n where "SweepHub now (lw_hub w) = Some (dropSessions keep (lw_hub w), n)"
    using SweepHub_drop [OF tunnel_invD(5) [OF assms(1)]] by blast
  then show ?thesis using TSweep inv_drop [OF assms(1)] by simp
qed (use inv_poll inv_woken inv_report inv_release assms in auto)

interpretation listening: machine tunnel_step tunnel_ok "tunnel_inv mx" for mx
  by unfold_locales (rule tunnel_step_inv)

lemma new_inv: "tunnel_inv (th_maxQueue (NewHub mx wait)) (newWorld (NewHub mx wait))"
  by (rule tunnel_invI)
    (simp_all add: newWorld_def NewHub_def chans_wf_def handedTo_def offeredTo_def)

section \<open>What listeners are promised\<close>

text \<open>
  C26: A listening session sees only its own tenant's events that pass its filter, each offer at most once and in
  the order they were published; the only events it misses are the oldest ones of a full queue, and the queue never
  exceeds its bound. No interleaving of calls closes a channel twice, which would crash the process.
\<close>

theorem listener_sees_own_events:
  assumes "legal tunnel_ok tunnel_step (newWorld (NewHub mx wait)) xs"
    and "w = foldl tunnel_step (newWorld (NewHub mx wait)) xs"
  shows "\<not> lw_panicked w \<and> subseq (handedTo w sid) (offeredTo w sid)
    \<and> (\<forall>(caller, sid, d) \<in> set (lw_handed w). \<exists>flt.
         (sid, caller, flt) \<in> set (lw_started w) \<and> ev_TenantID (of_Event d) = caller \<and> Matches flt (of_Event d))
    \<and> (\<forall>(sid, s) \<in> set (th_sessions (lw_hub w)).
         subseq (handedTo w sid @ ls_queue s) (offeredTo w sid)
         \<and> int (length (ls_queue s)) \<le> (if mx \<le> 0 then 100 else mx))"
proof -
  have "tunnel_inv (th_maxQueue (NewHub mx wait)) w"
    unfolding assms(2) by (rule listening.run_inv [OF new_inv assms(1)])
  note D = tunnel_invD [OF this]
  show ?thesis
    using D(1,2,7) D(6,9) by (fastforce simp: session_wf_def meant_for_def NewHub_def dest: map_of_SomeD)
qed

text \<open>
  C25: No wake-up is lost. A poll that is still blocked on an open channel belongs to a session that is still there
  and has nothing to hand out: whenever there is something to read, or the session is gone, the channel is closed.
\<close>

theorem no_lost_wakeup:
  assumes "legal tunnel_ok tunnel_step (newWorld (NewHub mx wait)) xs"
    and "w = foldl tunnel_step (newWorld (NewHub mx wait)) xs"
    and "b \<in> set (lw_blocked w)" and "bp_chan b \<notin> set (th_closed (lw_hub w))"
  shows "\<exists>s. map_of (th_sessions (lw_hub w)) (bp_session b) = Some s \<and> ls_queue s = [] \<and> bp_chan b \<in> set (ls_waiters s)"
proof -
  have "tunnel_inv (th_maxQueue (NewHub mx wait)) w"
    unfolding assms(2) by (rule listening.run_inv [OF new_inv assms(1)])
  note D = tunnel_invD [OF this]
  obtain s where s: "(bp_session b, s) \<in> set (th_sessions (lw_hub w))" "bp_chan b \<in> set (ls_waiters s)"
    using D(12) [OF assms(3)] assms(4) by blast
  with D(6) [OF s(1)] show ?thesis
    by (auto simp: session_wf_def in_set_map_of [OF D(4)])
qed

text \<open>
  Listening copies what is sent and diverts nothing. With any sessions open an attempt does to the store, the
  breaker and the wire exactly what it does with none; and whatever it adds to a queue is the event of the
  request just sent, with the same bytes and the same signature.
\<close>

theorem listening_copies_what_is_sent:
  assumes "legal tunnel_ok tunnel_step (newWorld (NewHub mx wait)) xs"
    and "h = lw_hub (foldl tunnel_step (newWorld (NewHub mx wait)) xs)"
  shows "\<exists>h'. deliverListening E start now del s h = Some (DeliverOnce E start now del s, h')
    \<and> (\<forall>(sid, q') \<in> set (th_sessions h'). \<exists>q. (sid, q) \<in> set (th_sessions h) \<and>
         (\<forall>d \<in> set (ls_queue q') - set (ls_queue q). \<exists>req.
            snd (DeliverOnce E start now del s) = Some req
            \<and> of_Payload d = rq_Body req \<and> of_Signature d = rq_Signature req \<and> of_EventID d = ev_ID (of_Event d)
            \<and> GetCanonicalEvent (ds_store s) (del_TenantID del) (del_EventID del) = Inr (of_Event d)))"
proof -
  have "tunnel_inv (th_maxQueue (NewHub mx wait)) (foldl tunnel_step (newWorld (NewHub mx wait)) xs)"
    by (rule listening.run_inv [OF new_inv assms(1)])
  then have wf: "chans_wf h" unfolding assms(2) by (rule tunnel_invD(5))
  show ?thesis
  proof (cases "snd (DeliverOnce E start now del s)")
    case None
    then show ?thesis by (auto simp: deliverListening_def)
  next
    case req: (Some req)
    show ?thesis
    proof (cases "GetCanonicalEvent (ds_store s) (del_TenantID del) (del_EventID del)")
      case (Inl e)
      with req show ?thesis by (auto simp: deliverListening_def)
    next
      case (Inr event)
      let ?d = "offeredEvent start event (rq_Body req) (rq_Signature req)"
      have "deliverListening E start now del s h = Some (DeliverOnce E start now del s, published start event ?d h)"
        using req Inr Publish_ok [OF wf] by (simp add: deliverListening_def)
      moreover have "\<exists>q. (sid, q) \<in> set (th_sessions h) \<and> set (ls_queue q') - set (ls_queue q) \<subseteq> {?d}"
        if "(sid, q') \<in> set (th_sessions (published start event ?d h))" for sid q'
      proof -
        from that obtain q where q: "(sid, q) \<in> set (th_sessions h)"
          "q' = (if listens start event q then offer (th_maxQueue h) ?d q else q)"
          by (auto simp: published_def)
        then have "set (ls_queue q') - set (ls_queue q) \<subseteq> {?d}" by (auto simp: offer_def dest: in_set_dropD)
        with q(1) show ?thesis by blast
      qed
      ultimately show ?thesis using req Inr
        by (fastforce simp: offeredEvent_def)
    qed
  qed
qed

section \<open>A sample session\<close>

definition anyFilter :: Filter where
  "anyFilter = \<lparr>fil_Providers = [], fil_EventTypes = [], fil_Statuses = [], fil_MinAmountMinor = 0\<rparr>"

definition sampleListening :: "tunnel_op list" where
  "sampleListening = [TStart 5 ''lsn_1'' ''tnt_1'' ''http://localhost'' anyFilter, TPoll 10 ''tnt_1'' ''lsn_1'' 20]"

definition sampleWoken :: "tunnel_op list" where
  "sampleWoken = sampleListening @ [TPublish 15 storedEvent ''{}'' ''v1'', TWoken 0]"

lemma anyFilter_matches [simp]: "Matches anyFilter e"
  by (simp add: Matches_def anyFilter_def)

lemmas sample_simps = sampleListening_def newWorld_def NewHub_def Start_def PollStart_def Publish_def offer_def
  listens_def MaxSessionAge_def minute_def second_def time_sub_def max_int64_def min_int64_def hand_def release_def PollWoken_def
  takeQueued_def pollMax_def takers_def storedEvent_def

lemma sampleListening_blocked:
  "lw_blocked (foldl tunnel_step (newWorld (NewHub 0 0)) sampleListening)
     = [\<lparr>bp_chan = 0, bp_tenant = ''tnt_1'', bp_session = ''lsn_1'', bp_max = 20\<rparr>]"
  "th_closed (lw_hub (foldl tunnel_step (newWorld (NewHub 0 0)) sampleListening)) = []"
  by (simp_all add: sample_simps Let_def)

lemma sampleListening_legal: "legal tunnel_ok tunnel_step (newWorld (NewHub 0 0)) sampleListening"
  by (simp add: sample_simps Let_def)

lemma sampleWoken_legal: "legal tunnel_ok tunnel_step (newWorld (NewHub 0 0)) sampleWoken"
  by (simp add: sampleWoken_def sample_simps Let_def)

theorem listener_sees_own_events_witness:
  "let w = foldl tunnel_step (newWorld (NewHub 0 0)) sampleWoken in
     handedTo w ''lsn_1'' = [offeredEvent 15 storedEvent ''{}'' ''v1''] \<and> subseq (handedTo w ''lsn_1'') (offeredTo w ''lsn_1'')"
proof -
  have "handedTo (foldl tunnel_step (newWorld (NewHub 0 0)) sampleWoken) ''lsn_1'' = [offeredEvent 15 storedEvent ''{}'' ''v1'']"
    by (simp add: sampleWoken_def sample_simps Let_def handedTo_def)
  then show ?thesis
    unfolding Let_def by (rule conjI [OF _ conjunct1 [OF conjunct2 [OF listener_sees_own_events [OF sampleWoken_legal refl]]]])
qed

theorem no_lost_wakeup_witness:
  "\<exists>s. map_of (th_sessions (lw_hub (foldl tunnel_step (newWorld (NewHub 0 0)) sampleListening))) ''lsn_1'' = Some s
     \<and> ls_queue s = [] \<and> 0 \<in> set (ls_waiters s)"
  using no_lost_wakeup [OF sampleListening_legal refl] by (simp add: sampleListening_blocked)

theorem listening_copies_what_is_sent_witness:
  "\<exists>h'. deliverListening (sampleEnv (Response 200 [])) 20 21 sampleClaim (sampleState (NewBreaker 0 0 0))
      (lw_hub (foldl tunnel_step (newWorld (NewHub 0 0)) sampleListening))
    = Some (DeliverOnce (sampleEnv (Response 200 [])) 20 21 sampleClaim (sampleState (NewBreaker 0 0 0)), h')"
  using listening_copies_what_is_sent [OF sampleListening_legal refl] by blast

text \<open>
  A poll that times out leaves its channel with the session: on a quiet endpoint every further poll adds one, and
  nothing but an event or the end of the session removes them.
\<close>

definition timedOutPoll :: "string \<Rightarrow> string \<Rightarrow> world \<Rightarrow> instant \<Rightarrow> world" where
  "timedOutPoll t sid w now =
     tunnel_step (tunnel_step w (TPoll now t sid 20)) (TGiveUp (th_made (lw_hub w)))"

theorem waiters_accumulate:
  assumes "map_of (th_sessions (lw_hub w)) sid = Some s" and "ls_TenantID s = t" and "ls_queue s = []"
  shows "\<exists>s'. map_of (th_sessions (lw_hub (foldl (timedOutPoll t sid) w nows))) sid = Some s'
     \<and> ls_TenantID s' = t \<and> ls_queue s' = [] \<and> length (ls_waiters s') = length (ls_waiters s) + length nows"
  using assms
proof (induction nows arbitrary: w s)
  case (Cons now nows)
  let ?s = "s\<lparr>ls_LastSeen := now, ls_waiters := ls_waiters s @ [th_made (lw_hub w)]\<rparr>"
  have "map_of (th_sessions (lw_hub (timedOutPoll t sid w now))) sid = Some ?s"
    using Cons.prems by (simp add: timedOutPoll_def PollStart_def release_def Let_def)
  from Cons.IH [OF this] Cons.prems show ?case by simp
qed simp

end
