(* ===== verification/Secrets.thy ===== *)
theory Secrets
  imports Go_Prelude
begin

text \<open>
  Secret references (\<^verbatim>\<open>internal/secret/secret.go\<close>, \<^verbatim>\<open>tenantsalt.go\<close>): the environment and static resolvers, salts
  derived per tenant, dispatch on the scheme, and the cache in front of them. A resolver is a function from
  references to secrets, newest first; what it reads (the process environment, the map of a static resolver) is
  an argument, so that it can change between calls. HKDF and base64 are parameters.
\<close>

section \<open>Resolvers\<close>

datatype secret_error = BadReference | NoSuchSecret | DerivationFailed | BadMaster | ShortMaster nat

type_synonym resolver = "string \<Rightarrow> secret_error + string list"

definition containsSpace :: "string \<Rightarrow> bool" where
  "containsSpace s \<longleftrightarrow> list_ex (\<lambda>c. ord c = 32 \<or> ord c = 9 \<or> ord c = 13 \<or> ord c = 10) s"

definition EnvResolveAll :: "(string \<times> string) list \<Rightarrow> resolver" where
  "EnvResolveAll env ref =
     (if \<not> starts_with ''env://'' ref then Inl BadReference
      else
        let name = drop 6 ref in
        if name = [] \<or> containsSpace name then Inl BadReference
        else case map_of env name of
          None \<Rightarrow> Inl NoSuchSecret
        | Some v \<Rightarrow>
            if v = [] then Inl NoSuchSecret
            else
              let prev = (case map_of env (name @ ''_PREVIOUS'') of Some p \<Rightarrow> p | None \<Rightarrow> [])
              in Inr (if prev \<noteq> [] \<and> prev \<noteq> v then [v, prev] else [v]))"

definition SetStatic :: "string \<Rightarrow> string list \<Rightarrow> (string \<times> string list) list \<Rightarrow> (string \<times> string list) list" where
  "SetStatic ref values s = AList.update ref values s"

definition StaticResolveAll :: "(string \<times> string list) list \<Rightarrow> resolver" where
  "StaticResolveAll s ref =
     (case map_of s ref of
        None \<Rightarrow> Inl NoSuchSecret
      | Some v \<Rightarrow> if length v = 0 then Inl NoSuchSecret else Inr v)"

text \<open>\<open>Resolve\<close> of every resolver: the newest, \<open>all[0]\<close>, which panics on an empty list (\<open>None\<close>).\<close>

definition ResolveFirst :: "resolver \<Rightarrow> string \<Rightarrow> (secret_error + string) option" where
  "ResolveFirst r ref =
     (case r ref of Inl e \<Rightarrow> Some (Inl e) | Inr [] \<Rightarrow> None | Inr (v # _) \<Rightarrow> Some (Inr v))"

record SaltLib =
  sl_decode :: "string \<Rightarrow> string option"
  sl_encode :: "string \<Rightarrow> string"
  sl_hkdf :: "string \<Rightarrow> string \<Rightarrow> nat \<Rightarrow> string option"

definition NewTenantSalt :: "SaltLib \<Rightarrow> string \<Rightarrow> secret_error + string" where
  "NewTenantSalt L masterB64 =
     (case sl_decode L (TrimSpace masterB64) of
        None \<Rightarrow> Inl BadMaster
      | Some master \<Rightarrow> if length master < 32 then Inl (ShortMaster (length master)) else Inr master)"

definition saltInfo :: "string \<Rightarrow> string" where
  "saltInfo tenantID = ''statushub/pseudonymisation-salt/v1/'' @ tenantID"

definition TenantSaltResolve :: "SaltLib \<Rightarrow> string \<Rightarrow> string \<Rightarrow> secret_error + string" where
  "TenantSaltResolve L master ref =
     (if \<not> starts_with ''tenant-salt://'' ref \<or> drop 14 ref = [] then Inl BadReference
      else case sl_hkdf L master (saltInfo (drop 14 ref)) 32 of
        None \<Rightarrow> Inl DerivationFailed
      | Some salt \<Rightarrow> Inr (sl_encode L salt))"

definition TenantSaltResolveAll :: "SaltLib \<Rightarrow> string \<Rightarrow> resolver" where
  "TenantSaltResolveAll L master ref =
     (case TenantSaltResolve L master ref of Inl e \<Rightarrow> Inl e | Inr v \<Rightarrow> Inr [v])"

text \<open>\<open>Multi.pick\<close>: the resolver of the reference's scheme, what stands before the first \<open>://\<close>.\<close>

fun cutScheme :: "string \<Rightarrow> string option" where
  "cutScheme [] = None"
| "cutScheme (c # cs) = (if starts_with ''://'' (c # cs) then Some [] else map_option ((#) c) (cutScheme cs))"

definition pickResolver :: "(string \<times> resolver) list \<Rightarrow> string \<Rightarrow> secret_error + resolver" where
  "pickResolver byScheme ref =
     (case cutScheme ref of
        None \<Rightarrow> Inl BadReference
      | Some scheme \<Rightarrow> (case map_of byScheme scheme of None \<Rightarrow> Inl BadReference | Some r \<Rightarrow> Inr r))"

definition MultiResolveAll :: "(string \<times> resolver) list \<Rightarrow> resolver" where
  "MultiResolveAll byScheme ref =
     (case pickResolver byScheme ref of Inl e \<Rightarrow> Inl e | Inr r \<Rightarrow> r ref)"

text \<open>The resolver of a running server (\<open>openSecrets\<close>), without its cache.\<close>

definition openSecrets :: "SaltLib \<Rightarrow> (string \<times> string) list \<Rightarrow> string \<Rightarrow> secret_error + resolver" where
  "openSecrets L env saltMaster =
     (let byScheme = [(''env'', EnvResolveAll env), (''static'', StaticResolveAll [])] in
      if saltMaster \<noteq> [] then
        (case NewTenantSalt L saltMaster of
           Inl e \<Rightarrow> Inl e
         | Inr master \<Rightarrow> Inr (MultiResolveAll (AList.update ''tenant-salt'' (TenantSaltResolveAll L master) byScheme)))
      else Inr (MultiResolveAll byScheme))"

section \<open>The cache\<close>

record cacheEntry =
  ce_values :: "string list"
  ce_expires :: instant

type_synonym cache = "(string \<times> cacheEntry) list"

definition cacheTTL :: "duration \<Rightarrow> duration" where
  "cacheTTL ttl = (if ttl \<le> 0 then 30 * second else ttl)"

text \<open>
  \<open>Cached.ResolveAll\<close> holds its lock for the look-up and again for the store, and nothing while it asks the inner
  resolver: these are separate operations. \<open>cacheLookup\<close> is what a call finds, \<open>cacheStore\<close> what it leaves.
\<close>

definition cacheLookup :: "instant \<Rightarrow> string \<Rightarrow> cache \<Rightarrow> string list option" where
  "cacheLookup now ref c =
     (case map_of c ref of
        Some e \<Rightarrow> if ce_expires e > now then Some (ce_values e) else None
      | None \<Rightarrow> None)"

definition cacheStore :: "duration \<Rightarrow> instant \<Rightarrow> string \<Rightarrow> string list \<Rightarrow> cache \<Rightarrow> cache" where
  "cacheStore ttl now ref values c = AList.update ref \<lparr>ce_values = values, ce_expires = now + ttl\<rparr> c"

definition CachedResolveAll ::
    "duration \<Rightarrow> resolver \<Rightarrow> instant \<Rightarrow> string \<Rightarrow> cache \<Rightarrow> cache \<times> (secret_error + string list)" where
  "CachedResolveAll ttl inner now ref c =
     (case cacheLookup now ref c of
        Some values \<Rightarrow> (c, Inr values)
      | None \<Rightarrow>
          (case inner ref of
             Inl e \<Rightarrow> (c, Inl e)
           | Inr values \<Rightarrow> (cacheStore ttl now ref values c, Inr values)))"

definition Invalidate :: "string \<Rightarrow> cache \<Rightarrow> cache" where
  "Invalidate ref c = AList.delete ref c"

section \<open>What resolvers promise\<close>

lemma containsSpace_append: "containsSpace (s @ t) \<longleftrightarrow> containsSpace s \<or> containsSpace t"
  by (simp add: containsSpace_def)

lemma EnvResolveAll_nonempty: "EnvResolveAll env ref = Inr vs \<Longrightarrow> vs \<noteq> [] \<and> length vs \<le> 2 \<and> distinct vs \<and> [] \<notin> set vs"
  by (auto simp: EnvResolveAll_def Let_def split: if_splits option.splits)

lemma cutScheme_found: "CHR '':'' \<notin> set s \<Longrightarrow> cutScheme (s @ ''://'' @ t) = Some s"
  by (induction s) auto

lemma cutScheme_Some: "cutScheme ref = Some s \<Longrightarrow> \<exists>t. ref = s @ ''://'' @ t"
proof (induction ref arbitrary: s)
  case (Cons c cs)
  then show ?case by (auto simp: starts_with_iff split: if_splits)
qed simp

text \<open>No resolver of a running server answers with an empty list, so \<open>Resolve\<close> never indexes one.\<close>

lemma openSecrets_no_panic:
  assumes "openSecrets L env master = Inr r"
  shows "ResolveFirst r ref \<noteq> None"
proof -
  have "vs \<noteq> []" if "r ref = Inr vs" for vs
    using assms that EnvResolveAll_nonempty [of env ref vs]
    by (auto simp: openSecrets_def Let_def MultiResolveAll_def pickResolver_def StaticResolveAll_def
        TenantSaltResolveAll_def split: if_splits sum.splits option.splits)
  then show ?thesis by (auto simp: ResolveFirst_def split: sum.split list.split)
qed

text \<open>Tenants have salts of their own: the derivation is asked for different purposes, and no tenant's reference
  reads another's.\<close>

lemma TenantSalt_reference: "tenantID \<noteq> [] \<Longrightarrow> TenantSaltResolve L master (''tenant-salt://'' @ tenantID) =
    (case sl_hkdf L master (saltInfo tenantID) 32 of None \<Rightarrow> Inl DerivationFailed | Some salt \<Rightarrow> Inr (sl_encode L salt))"
  by (simp add: TenantSaltResolve_def)

lemma tenant_salts_separate:
  assumes "\<And>i j. sl_hkdf L master i 32 = sl_hkdf L master j 32 \<Longrightarrow> i = j" and "inj (sl_encode L)"
    and "t \<noteq> []" "u \<noteq> []" "t \<noteq> u" and "TenantSaltResolve L master (''tenant-salt://'' @ t) = Inr s"
  shows "TenantSaltResolve L master (''tenant-salt://'' @ u) \<noteq> Inr s"
proof
  assume "TenantSaltResolve L master (''tenant-salt://'' @ u) = Inr s"
  then have "sl_hkdf L master (saltInfo t) 32 = sl_hkdf L master (saltInfo u) 32"
    using assms(2,6) unfolding TenantSalt_reference [OF assms(3)] TenantSalt_reference [OF assms(4)]
    by (auto simp: inj_eq split: option.splits)
  then show False using assms(1,5) by (auto simp: saltInfo_def)
qed

end
