(* ===== verification/Secrets_Spec.thy ===== *)
theory Secrets_Spec
  imports Secrets
begin

text \<open>
  How long a revoked secret is believed. Calls to the cache interleave: one looks up, asks the inner resolver without
  holding the lock, and stores what it got; meanwhile others do the same, references are invalidated and the secret
  manager changes its mind. \<open>cw_served\<close> records what was answered to which call, with the time the call began.
\<close>

section \<open>Interleaved calls\<close>

record cachedWorld =
  cw_cache :: cache
  cw_backend :: resolver
  cw_clock :: instant
  cw_calls :: "(nat \<times> string \<times> instant \<times> string list option) list"
  cw_served :: "(string \<times> instant \<times> string list) list"

datatype cache_op =
    CacheBegin nat string
  | CacheFetch nat
  | CacheFinish nat
  | CacheDrop string
  | BackendSet resolver

fun cache_act :: "duration \<Rightarrow> instant \<Rightarrow> cache_op \<Rightarrow> cachedWorld \<Rightarrow> cachedWorld" where
  "cache_act ttl now (CacheBegin i ref) w =
     (case cacheLookup now ref (cw_cache w) of
        Some values \<Rightarrow> w\<lparr>cw_served := (ref, now, values) # cw_served w\<rparr>
      | None \<Rightarrow> w\<lparr>cw_calls := AList.update i (ref, now, None) (cw_calls w)\<rparr>)"
| "cache_act ttl now (CacheFetch i) w =
     (case map_of (cw_calls w) i of
        Some (ref, begun, None) \<Rightarrow>
          (case cw_backend w ref of
             Inl e \<Rightarrow> w\<lparr>cw_calls := AList.delete i (cw_calls w)\<rparr>
           | Inr values \<Rightarrow> w\<lparr>cw_calls := AList.update i (ref, begun, Some values) (cw_calls w)\<rparr>)
      | _ \<Rightarrow> w)"
| "cache_act ttl now (CacheFinish i) w =
     (case map_of (cw_calls w) i of
        Some (ref, begun, Some values) \<Rightarrow>
          w\<lparr>cw_cache := cacheStore ttl begun ref values (cw_cache w), cw_calls := AList.delete i (cw_calls w),
            cw_served := (ref, begun, values) # cw_served w\<rparr>
      | _ \<Rightarrow> w)"
| "cache_act ttl now (CacheDrop ref) w = w\<lparr>cw_cache := Invalidate ref (cw_cache w)\<rparr>"
| "cache_act ttl now (BackendSet r) w = w\<lparr>cw_backend := r\<rparr>"

definition cache_step :: "duration \<Rightarrow> cachedWorld \<Rightarrow> instant \<times> cache_op \<Rightarrow> cachedWorld" where
  "cache_step ttl w x = (cache_act ttl (fst x) (snd x) w)\<lparr>cw_clock := fst x\<rparr>"

text \<open>Time does not run backwards, and a call has an identifier of its own.\<close>

definition cache_ok :: "cachedWorld \<Rightarrow> instant \<times> cache_op \<Rightarrow> bool" where
  "cache_ok w x \<longleftrightarrow> cw_clock w \<le> fst x
     \<and> (case snd x of CacheBegin i ref \<Rightarrow> map_of (cw_calls w) i = None | _ \<Rightarrow> True)"

definition cold :: "resolver \<Rightarrow> instant \<Rightarrow> cachedWorld" where
  "cold r now = \<lparr>cw_cache = [], cw_backend = r, cw_clock = now, cw_calls = [], cw_served = []\<rparr>"

text \<open>A call nothing interferes with is \<open>CachedResolveAll\<close>.\<close>

lemma lone_call:
  assumes "map_of (cw_calls w) i = None"
  shows "cw_cache (foldl (cache_step ttl) w [(now, CacheBegin i ref), (now, CacheFetch i), (now, CacheFinish i)])
    = fst (CachedResolveAll ttl (cw_backend w) now ref (cw_cache w))"
  using assms
  by (auto simp: cache_step_def CachedResolveAll_def split: option.splits sum.splits)

section \<open>Bounded staleness\<close>

text \<open>
  \<open>fresh_by\<close>: nothing in the world is newer than the clock. \<open>revoked\<close>: the secret manager no longer gives \<open>v\<close> for the
  reference, and every trace of \<open>v\<close> belongs to a call that began by time \<open>r\<close>.
\<close>

definition fresh_by :: "duration \<Rightarrow> cachedWorld \<Rightarrow> bool" where
  "fresh_by ttl w \<longleftrightarrow>
     (\<forall>ref e. map_of (cw_cache w) ref = Some e \<longrightarrow> ce_expires e \<le> cw_clock w + ttl)
     \<and> (\<forall>i c. map_of (cw_calls w) i = Some c \<longrightarrow> fst (snd c) \<le> cw_clock w)
     \<and> (\<forall>x \<in> set (cw_served w). fst (snd x) \<le> cw_clock w)"

definition revoked :: "duration \<Rightarrow> string \<Rightarrow> string \<Rightarrow> instant \<Rightarrow> cachedWorld \<Rightarrow> bool" where
  "revoked ttl ref v r w \<longleftrightarrow>
     (\<forall>vs. cw_backend w ref = Inr vs \<longrightarrow> v \<notin> set vs)
     \<and> (\<forall>e. map_of (cw_cache w) ref = Some e \<longrightarrow> v \<in> set (ce_values e) \<longrightarrow> ce_expires e \<le> r + ttl)
     \<and> (\<forall>i begun vs. map_of (cw_calls w) i = Some (ref, begun, Some vs) \<longrightarrow> v \<in> set vs \<longrightarrow> begun \<le> r)
     \<and> (\<forall>begun vs. (ref, begun, vs) \<in> set (cw_served w) \<longrightarrow> v \<in> set vs \<longrightarrow> begun < r + ttl)"

definition withholds :: "string \<Rightarrow> string \<Rightarrow> cachedWorld \<Rightarrow> instant \<times> cache_op \<Rightarrow> bool" where
  "withholds ref v w x \<longleftrightarrow> cache_ok w x
     \<and> (case snd x of BackendSet b \<Rightarrow> (\<forall>vs. b ref = Inr vs \<longrightarrow> v \<notin> set vs) | _ \<Rightarrow> True)"

lemma fresh_step: "fresh_by ttl w \<Longrightarrow> cache_ok w x \<Longrightarrow> fresh_by ttl (cache_step ttl w x)"
proof (cases "snd x")
  case (CacheFinish i)
  assume "fresh_by ttl w" "cache_ok w x"
  with CacheFinish show ?thesis
    unfolding fresh_by_def cache_step_def cache_ok_def
    by (auto simp: cacheStore_def split: option.splits prod.splits) fastforce+
qed (auto simp: fresh_by_def cache_step_def cache_ok_def Invalidate_def cacheLookup_def
      split: option.splits sum.splits if_splits; fastforce)+

lemma revoked_step:
  assumes "0 < ttl" and "revoked ttl ref v r w" and "withholds ref v w x"
  shows "revoked ttl ref v r (cache_step ttl w x)"
proof (cases "snd x")
  case (CacheBegin i ref')
  show ?thesis
  proof (cases "cacheLookup (fst x) ref' (cw_cache w)")
    case None
    then show ?thesis using assms CacheBegin by (auto simp: revoked_def cache_step_def)
  next
    case (Some vs)
    then obtain e where e: "map_of (cw_cache w) ref' = Some e" "fst x < ce_expires e" "vs = ce_values e"
      by (auto simp: cacheLookup_def split: option.splits if_splits)
    with Some show ?thesis using assms CacheBegin
      by (cases "ref' = ref") (fastforce simp: revoked_def cache_step_def)+
  qed
next
  case (CacheFetch i)
  then show ?thesis using assms
    by (cases "map_of (cw_calls w) i") (auto simp: revoked_def cache_step_def withholds_def split: option.splits sum.splits if_splits)
next
  case (CacheFinish i)
  then show ?thesis using assms
    by (cases "map_of (cw_calls w) i") (fastforce simp: revoked_def cache_step_def cacheStore_def split: option.splits)+
qed (use assms in \<open>auto simp: revoked_def cache_step_def withholds_def Invalidate_def\<close>)

lemma revoked_start:
  assumes "0 < ttl" and "fresh_by ttl w" and "cw_clock w \<le> r" and "\<And>vs. b ref = Inr vs \<Longrightarrow> v \<notin> set vs"
  shows "revoked ttl ref v r (cache_step ttl w (r, BackendSet b))"
  using assms unfolding revoked_def fresh_by_def cache_step_def by fastforce

lemma cold_fresh: "fresh_by ttl (cold r now)"
  by (simp add: fresh_by_def cold_def)

interpretation cached: machine "cache_step ttl" cache_ok "fresh_by ttl" for ttl
  by unfold_locales (rule fresh_step)

interpretation revoking: machine "cache_step ttl" "withholds ref v" "\<lambda>w. 0 < ttl \<and> revoked ttl ref v r w" for ttl ref v r
  by unfold_locales (auto intro: revoked_step)

section \<open>What the cache promises\<close>

text \<open>
  C27: A revoked secret is not believed for longer than the lifetime of a cache entry. After the secret manager stops
  giving a value for a reference, no call that begins a lifetime later or after is answered with that value,
  whatever calls were under way, and however calls, invalidations and further changes interleave.
\<close>

theorem revoked_secret_expires:
  assumes "0 < ttl" and "legal cache_ok (cache_step ttl) (cold b0 t0) xs"
    and "w = foldl (cache_step ttl) (cold b0 t0) xs" and "cw_clock w \<le> r" and "\<And>vs. b ref = Inr vs \<Longrightarrow> v \<notin> set vs"
    and "legal (withholds ref v) (cache_step ttl) (cache_step ttl w (r, BackendSet b)) ys"
    and "(ref, begun, vs) \<in> set (cw_served (foldl (cache_step ttl) (cache_step ttl w (r, BackendSet b)) ys))"
    and "r + ttl \<le> begun"
  shows "v \<notin> set vs"
proof -
  have "fresh_by ttl w" unfolding assms(3) by (rule cached.run_inv [OF cold_fresh assms(2)])
  then have "0 < ttl \<and> revoked ttl ref v r (cache_step ttl w (r, BackendSet b))"
    using revoked_start [OF assms(1) _ assms(4,5)] assms(1) by blast
  from revoking.run_inv [OF this assms(6)] show ?thesis
    using assms(7,8) unfolding revoked_def by fastforce
qed

definition oneSecret :: "string \<Rightarrow> resolver" where
  "oneSecret v ref = (if ref = ''env://K'' then Inr [v] else Inl NoSuchSecret)"

definition lookups :: "nat \<Rightarrow> instant \<Rightarrow> (instant \<times> cache_op) list" where
  "lookups i now = [(now, CacheBegin i ''env://K''), (now, CacheFetch i), (now, CacheFinish i)]"

theorem revoked_secret_expires_witness:
  "let w = foldl (cache_step 30) (cold (oneSecret ''old'') 0) (lookups 1 5);
       w' = foldl (cache_step 30) (cache_step 30 w (10, BackendSet (oneSecret ''new''))) (lookups 2 20 @ lookups 3 41)
   in (''env://K'', 20, [''old'']) \<in> set (cw_served w') \<and> (''env://K'', 41, [''new'']) \<in> set (cw_served w')
      \<and> (''env://K'', 41, [''old'']) \<notin> set (cw_served w')"
proof -
  let ?w = "foldl (cache_step 30) (cold (oneSecret ''old'') 0) (lookups 1 5)"
  let ?w' = "foldl (cache_step 30) (cache_step 30 ?w (10, BackendSet (oneSecret ''new''))) (lookups 2 20 @ lookups 3 41)"
  note defs = lookups_def cache_step_def cold_def oneSecret_def cacheLookup_def cacheStore_def cache_ok_def withholds_def
  have before: "legal cache_ok (cache_step 30) (cold (oneSecret ''old'') 0) (lookups 1 5)" "cw_clock ?w \<le> 10"
    by (simp_all add: defs)
  have gone: "oneSecret ''new'' ''env://K'' = Inr vs \<Longrightarrow> ''old'' \<notin> set vs" for vs by (auto simp: oneSecret_def)
  have after: "legal (withholds ''env://K'' ''old'') (cache_step 30) (cache_step 30 ?w (10, BackendSet (oneSecret ''new'')))
      (lookups 2 20 @ lookups 3 41)" by (simp add: defs)
  have served: "(''env://K'', 20, [''old'']) \<in> set (cw_served ?w')" "(''env://K'', 41, [''new'']) \<in> set (cw_served ?w')"
    by (simp_all add: defs)
  have "(''env://K'', 41, [''old'']) \<notin> set (cw_served ?w')"
    using revoked_secret_expires [OF _ before(1) refl before(2) gone after, of 41 "[''old'']"] by auto
  with served show ?thesis unfolding Let_def by (intro conjI)
qed

text \<open>
  \<open>Invalidate\<close> does not make a rotation take effect at once. A call that had asked for the secret before the
  rotation stores it after the invalidation, and calls that begin later are answered with the rotated secret until
  the entry runs out.
\<close>

theorem invalidate_outrun:
  "let w = foldl (cache_step 30) (cold (oneSecret ''old'') 0)
        [(5, CacheBegin 1 ''env://K''), (6, CacheFetch 1), (7, BackendSet (oneSecret ''new'')),
         (8, CacheDrop ''env://K''), (9, CacheFinish 1), (34, CacheBegin 2 ''env://K'')]
   in (''env://K'', 34, [''old'']) \<in> set (cw_served w)"
  by (simp add: cache_step_def cold_def oneSecret_def cacheLookup_def cacheStore_def Invalidate_def)

end
