(* ===== verification/Metrics.thy ===== *)
theory Metrics
  imports Assoc Complex_Main "HOL-Library.List_Lexorder" "HOL-Library.Char_ord"
begin

text \<open>
  The metrics registry (\<^verbatim>\<open>internal/metrics/metrics.go\<close>): declared counters, gauges and histograms, each a bounded
  set of series keyed by its labels, and the text they are rendered to. \<open>float64\<close> values are rationals, so what holds of a total holds in the
  program while it is below \<open>2 ^ 53\<close> and counted in whole numbers; \<open>%g\<close>, the
  shortest form of a bucket bound and \<open>%q\<close> are parameters. Labels are association lists with distinct names, in any
  order.
\<close>

section \<open>Labels\<close>

type_synonym labels = "(string \<times> string) list"

definition labelKey :: "labels \<Rightarrow> string" where
  "labelKey l =
     (if length l = 0 then []
      else concat (map (\<lambda>k. k @ ''='' @ (case map_of l k of Some v \<Rightarrow> v | None \<Rightarrow> []) @ '','') (sort (map fst l))))"

definition maxSeriesPerMetric :: nat where "maxSeriesPerMetric = 2000"

definition overflowKey :: string where "overflowKey = CHR 0x00 # ''overflow''"

record TextLib =
  tl_number :: "rat \<Rightarrow> string"
  tl_bound :: "rat \<Rightarrow> string"
  tl_quote :: "string \<Rightarrow> string"

text \<open>\<open>escape\<close> and \<open>renderLabels\<close>; \<open>extra\<close> is at most one further pair.\<close>

definition escapeLabel :: "string \<Rightarrow> string" where
  "escapeLabel v = (if length v > 128 then take 128 v else v)"

definition renderPair :: "TextLib \<Rightarrow> string \<times> string \<Rightarrow> string" where
  "renderPair T p = fst p @ ''='' @ tl_quote T (escapeLabel (snd p))"

fun commaJoin :: "string list \<Rightarrow> string" where
  "commaJoin [] = []"
| "commaJoin [s] = s"
| "commaJoin (s # ss) = s @ '','' @ commaJoin ss"

definition renderLabels :: "TextLib \<Rightarrow> labels \<Rightarrow> labels \<Rightarrow> string" where
  "renderLabels T l extra =
     (if length l = 0 \<and> length extra = 0 then []
      else ''{'' @ commaJoin (map (renderPair T)
             (map (\<lambda>k. (k, case map_of l k of Some v \<Rightarrow> v | None \<Rightarrow> [])) (sort (map fst l)) @ extra)) @ ''}'')"

section \<open>Series\<close>

record seriesValue =
  sv_labels :: labels
  sv_value :: rat

record counterVec =
  cv_help :: string
  cv_values :: "(string \<times> seriesValue) list"

record gaugeVec =
  gv_help :: string
  gv_values :: "(string \<times> seriesValue) list"

record histogramValue =
  hs_labels :: labels
  hs_counts :: "nat list"
  hs_sum :: rat
  hs_count :: nat

record histogramVec =
  hv_help :: string
  hv_buckets :: "rat list"
  hv_values :: "(string \<times> histogramValue) list"

definition counterAdd :: "labels \<Rightarrow> rat \<Rightarrow> counterVec \<Rightarrow> counterVec" where
  "counterAdd l v c =
     (let key = labelKey l;
          full = map_of (cv_values c) key = None \<and> length (cv_values c) \<ge> maxSeriesPerMetric;
          key = (if full then overflowKey else key);
          l = (if full then [(''overflow'', ''true'')] else l);
          s = (case map_of (cv_values c) key of Some s \<Rightarrow> s | None \<Rightarrow> \<lparr>sv_labels = l, sv_value = 0\<rparr>)
      in c\<lparr>cv_values := AList.update key (s\<lparr>sv_value := sv_value s + v\<rparr>) (cv_values c)\<rparr>)"

definition gaugeSet :: "labels \<Rightarrow> rat \<Rightarrow> gaugeVec \<Rightarrow> gaugeVec" where
  "gaugeSet l v g =
     (let key = labelKey l in
      if map_of (gv_values g) key = None \<and> length (gv_values g) \<ge> maxSeriesPerMetric then g
      else g\<lparr>gv_values := AList.update key \<lparr>sv_labels = l, sv_value = v\<rparr> (gv_values g)\<rparr>)"

text \<open>Counts are \<open>uint64\<close>.\<close>

definition inc64 :: "nat \<Rightarrow> nat" where "inc64 n = (n + 1) mod 2 ^ 64"

fun countBuckets :: "rat \<Rightarrow> rat list \<Rightarrow> nat list \<Rightarrow> nat list" where
  "countBuckets v (b # bs) (n # ns) = (if v \<le> b then inc64 n else n) # countBuckets v bs ns"
| "countBuckets v bs ns = ns"

definition histogramObserve :: "labels \<Rightarrow> rat \<Rightarrow> histogramVec \<Rightarrow> histogramVec" where
  "histogramObserve l v h =
     (let key = labelKey l in
      if map_of (hv_values h) key = None \<and> length (hv_values h) \<ge> maxSeriesPerMetric then h
      else
        let hv = (case map_of (hv_values h) key of
                    Some hv \<Rightarrow> hv
                  | None \<Rightarrow> \<lparr>hs_labels = l, hs_counts = replicate (length (hv_buckets h)) 0, hs_sum = 0, hs_count = 0\<rparr>);
            hv = hv\<lparr>hs_counts := countBuckets v (hv_buckets h) (hs_counts hv), hs_sum := hs_sum hv + v,
                    hs_count := inc64 (hs_count hv)\<rparr>
        in h\<lparr>hv_values := AList.update key hv (hv_values h)\<rparr>)"

section \<open>The registry\<close>

record Metrics =
  mt_counters :: "(string \<times> counterVec) list"
  mt_gauges :: "(string \<times> gaugeVec) list"
  mt_histograms :: "(string \<times> histogramVec) list"
  mt_order :: "string list"

definition counter :: "string \<Rightarrow> string \<Rightarrow> Metrics \<Rightarrow> Metrics" where
  "counter name help r =
     r\<lparr>mt_counters := AList.update name \<lparr>cv_help = help, cv_values = []\<rparr> (mt_counters r), mt_order := mt_order r @ [name]\<rparr>"

definition gauge :: "string \<Rightarrow> string \<Rightarrow> Metrics \<Rightarrow> Metrics" where
  "gauge name help r =
     r\<lparr>mt_gauges := AList.update name \<lparr>gv_help = help, gv_values = []\<rparr> (mt_gauges r), mt_order := mt_order r @ [name]\<rparr>"

definition histogram :: "string \<Rightarrow> string \<Rightarrow> rat list \<Rightarrow> Metrics \<Rightarrow> Metrics" where
  "histogram name help buckets r =
     r\<lparr>mt_histograms := AList.update name \<lparr>hv_help = help, hv_buckets = buckets, hv_values = []\<rparr> (mt_histograms r),
       mt_order := mt_order r @ [name]\<rparr>"

datatype metricDecl =
    DeclareCounter string string
  | DeclareGauge string string
  | DeclareHistogram string string "rat list"

fun declareMetric :: "Metrics \<Rightarrow> metricDecl \<Rightarrow> Metrics" where
  "declareMetric r (DeclareCounter name help) = counter name help r"
| "declareMetric r (DeclareGauge name help) = gauge name help r"
| "declareMetric r (DeclareHistogram name help buckets) = histogram name help buckets r"

definition declaredMetrics :: "metricDecl list" where
  "declaredMetrics =
    [DeclareCounter ''statushub_webhooks_received_total''
       ''Provider webhooks received, before normalisation.'',
     DeclareCounter ''statushub_signature_failures_total''
       ''Requests whose signature did not verify. A spike is a forgery attempt or an unannounced secret rotation.'',
     DeclareCounter ''statushub_normalisation_failures_total''
       ''Raw events an adapter could not parse. The raw bytes are safe; the adapter needs a fix.'',
     DeclareCounter ''statushub_mapping_incomplete_total''
       ''Events normalised with a field the adapter could not fill.'',
     DeclareCounter ''statushub_status_unknown_total''
       ''Provider status values with no mapping. This is the to-do list.'',
     DeclareCounter ''statushub_deliveries_total''
       ''Delivery attempts by outcome.'',
     DeclareCounter ''statushub_dead_letter_total''
       ''Deliveries that exhausted their retry budget.'',
     DeclareCounter ''statushub_replay_total''
       ''Events replayed on request.'',
     DeclareCounter ''statushub_duplicates_rejected_total''
       ''Provider redeliveries recognised and answered without creating a second event.'',
     DeclareCounter ''statushub_payload_rejected_total''
       ''Requests refused before storage: oversized, or carrying data we will not hold.'',
     DeclareHistogram ''statushub_receive_duration_seconds''
       ''Time from request arrival to the 200 being written.''
       [1 / 1000, 1 / 400, 1 / 200, 1 / 100, 1 / 40, 1 / 20, 1 / 10, 1 / 4, 1 / 2, 1, 5 / 2],
     DeclareHistogram ''statushub_store_write_duration_seconds''
       ''Time for the receiver's single durable write.''
       [1 / 1000, 1 / 200, 1 / 100, 1 / 40, 1 / 20, 1 / 10, 3 / 20, 1 / 4, 1 / 2, 1],
     DeclareCounter ''statushub_store_write_over_budget_total''
       ''Durable writes that exceeded the region's write budget. Providers are about to start retrying.'',
     DeclareHistogram ''statushub_normalisation_duration_seconds''
       ''Time to map a raw event onto the canonical schema.''
       [1 / 2000, 1 / 1000, 1 / 200, 1 / 100, 1 / 20, 1 / 10, 1 / 2, 1],
     DeclareHistogram ''statushub_delivery_duration_seconds''
       ''Time for one delivery attempt, including the destination's response.''
       [1 / 100, 1 / 20, 1 / 10, 1 / 4, 1 / 2, 1, 5 / 2, 5, 10, 30],
     DeclareGauge ''statushub_endpoint_silent''
       ''1 when an endpoint is receiving far below its historical floor for this hour of the week.'',
     DeclareGauge ''statushub_endpoint_silence_confidence''
       ''Fraction of the week for which an endpoint has enough history to be judged.'',
     DeclareGauge ''statushub_receiver_in_flight''
       ''Requests the receiver is handling right now, against its explicit ceiling.'',
     DeclareGauge ''statushub_delivery_queue_depth''
       ''Deliveries not yet terminal, by shard.'',
     DeclareGauge ''statushub_shard_oldest_pending_seconds''
       ''Age of the oldest pending delivery in a shard. Head-of-line blocking shows up here first.'',
     DeclareGauge ''statushub_destination_breaker_open''
       ''1 when a destination's circuit breaker is not closed. Deliveries to it are parked, not failing.'',
     DeclareGauge ''statushub_build_info''
       ''Always 1. Labels carry the version, commit and region.'',
     DeclareGauge ''statushub_replica_lag_seconds''
       ''How far a replica is behind the primary. Read before promoting, never after.'',
     DeclareGauge ''statushub_audit_chain_intact''
       ''1 when the nightly walk of a tenant's audit chain verified, 0 when it did not.'']"

definition NewMetrics :: Metrics where
  "NewMetrics = foldl declareMetric \<lparr>mt_counters = [], mt_gauges = [], mt_histograms = [], mt_order = []\<rparr> declaredMetrics"

text \<open>An operation on a name that is not declared is dropped.\<close>

definition Add :: "string \<Rightarrow> labels \<Rightarrow> rat \<Rightarrow> Metrics \<Rightarrow> Metrics" where
  "Add name l v r =
     (case map_of (mt_counters r) name of
        None \<Rightarrow> r
      | Some c \<Rightarrow> r\<lparr>mt_counters := AList.update name (counterAdd l v c) (mt_counters r)\<rparr>)"

definition Inc :: "string \<Rightarrow> labels \<Rightarrow> Metrics \<Rightarrow> Metrics" where
  "Inc name l r = Add name l 1 r"

definition SetGauge :: "string \<Rightarrow> labels \<Rightarrow> rat \<Rightarrow> Metrics \<Rightarrow> Metrics" where
  "SetGauge name l v r =
     (case map_of (mt_gauges r) name of
        None \<Rightarrow> r
      | Some g \<Rightarrow> r\<lparr>mt_gauges := AList.update name (gaugeSet l v g) (mt_gauges r)\<rparr>)"

definition Observe :: "string \<Rightarrow> labels \<Rightarrow> duration \<Rightarrow> Metrics \<Rightarrow> Metrics" where
  "Observe name l d r =
     (case map_of (mt_histograms r) name of
        None \<Rightarrow> r
      | Some h \<Rightarrow>
          r\<lparr>mt_histograms :=
              AList.update name (histogramObserve l (rat_of_int d / rat_of_int second) h) (mt_histograms r)\<rparr>)"

section \<open>Exposition\<close>

definition headerText :: "string \<Rightarrow> string \<Rightarrow> string \<Rightarrow> string" where
  "headerText name help kind =
     ''# HELP '' @ name @ '' '' @ help @ [CHR 0x0A] @ ''# TYPE '' @ name @ '' '' @ kind @ [CHR 0x0A]"

definition writeSeries :: "TextLib \<Rightarrow> string \<Rightarrow> string \<Rightarrow> string \<Rightarrow> (string \<times> seriesValue) list \<Rightarrow> string" where
  "writeSeries T name help kind values =
     headerText name help kind @
     (if length values = 0 then name @ '' 0'' @ [CHR 0x0A]
      else concat (map (\<lambda>k. case map_of values k of
              None \<Rightarrow> []
            | Some s \<Rightarrow> name @ renderLabels T (sv_labels s) [] @ '' '' @ tl_number T (sv_value s) @ [CHR 0x0A])
            (sort (map fst values))))"

definition writeHistogram :: "TextLib \<Rightarrow> string \<Rightarrow> histogramVec \<Rightarrow> string" where
  "writeHistogram T name h =
     headerText name (hv_help h) ''histogram'' @
     concat (map (\<lambda>k. case map_of (hv_values h) k of
         None \<Rightarrow> []
       | Some hv \<Rightarrow>
           concat (map (\<lambda>(b, n). name @ ''_bucket'' @ renderLabels T (hs_labels hv) [(''le'', tl_bound T b)] @ '' ''
                          @ show_nat n @ [CHR 0x0A]) (zip (hv_buckets h) (hs_counts hv)))
           @ name @ ''_bucket'' @ renderLabels T (hs_labels hv) [(''le'', ''+Inf'')] @ '' '' @ show_nat (hs_count hv) @ [CHR 0x0A]
           @ name @ ''_sum'' @ renderLabels T (hs_labels hv) [] @ '' '' @ tl_number T (hs_sum hv) @ [CHR 0x0A]
           @ name @ ''_count'' @ renderLabels T (hs_labels hv) [] @ '' '' @ show_nat (hs_count hv) @ [CHR 0x0A])
       (sort (map fst (hv_values h))))"

definition writeMetric :: "TextLib \<Rightarrow> Metrics \<Rightarrow> string \<Rightarrow> string" where
  "writeMetric T r name =
     (case map_of (mt_counters r) name of
        Some c \<Rightarrow> writeSeries T name (cv_help c) ''counter'' (cv_values c)
      | None \<Rightarrow> (case map_of (mt_gauges r) name of
          Some g \<Rightarrow> writeSeries T name (gv_help g) ''gauge'' (gv_values g)
        | None \<Rightarrow> (case map_of (mt_histograms r) name of
            Some h \<Rightarrow> writeHistogram T name h
          | None \<Rightarrow> [])))"

definition WriteMetrics :: "TextLib \<Rightarrow> Metrics \<Rightarrow> string" where
  "WriteMetrics T r = concat (map (writeMetric T r) (sort (mt_order r)))"

end
