(* ===== verification/Metrics_Spec.thy ===== *)
theory Metrics_Spec
  imports Metrics
begin

text \<open>
  What the metrics promise: a bounded number of series whatever the labels, counters that lose nothing to the bound,
  histograms that count exactly; and where the rendering of labels is not one-to-one.
\<close>

section \<open>Bounds and totals\<close>

definition counter_wf :: "counterVec \<Rightarrow> bool" where
  "counter_wf c \<longleftrightarrow> keys_distinct (cv_values c)
     \<and> length (cv_values c) \<le> maxSeriesPerMetric + (if overflowKey \<in> fst ` set (cv_values c) then 1 else 0)"

definition counterTotal :: "counterVec \<Rightarrow> rat" where
  "counterTotal c = sum_list (map (sv_value \<circ> snd) (cv_values c))"

lemma in_keys: "k \<in> fst ` set m \<longleftrightarrow> map_of m k \<noteq> None"
  by (simp add: map_of_eq_None_iff)

lemma counterAdd_wf: "counter_wf c \<Longrightarrow> counter_wf (counterAdd l v c)"
  by (auto simp: counter_wf_def counterAdd_def Let_def length_update in_keys split: if_splits)

lemma counterAdd_total: "counter_wf c \<Longrightarrow> counterTotal (counterAdd l v c) = counterTotal c + v"
  by (simp add: counter_wf_def counterTotal_def counterAdd_def Let_def sum_update split: option.split)

definition gauge_wf :: "gaugeVec \<Rightarrow> bool" where
  "gauge_wf g \<longleftrightarrow> keys_distinct (gv_values g) \<and> length (gv_values g) \<le> maxSeriesPerMetric"

lemma gaugeSet_wf: "gauge_wf g \<Longrightarrow> gauge_wf (gaugeSet l v g)"
  by (auto simp: gauge_wf_def gaugeSet_def Let_def length_update in_keys split: if_splits)

definition histogram_wf :: "histogramVec \<Rightarrow> bool" where
  "histogram_wf h \<longleftrightarrow> keys_distinct (hv_values h) \<and> length (hv_values h) \<le> maxSeriesPerMetric"

lemma histogramObserve_wf: "histogram_wf h \<Longrightarrow> histogram_wf (histogramObserve l v h)"
  by (auto simp: histogram_wf_def histogramObserve_def Let_def length_update in_keys split: if_splits)

datatype metric_op = MAdd string labels rat | MSet string labels rat | MObserve string labels duration

fun metric_step :: "Metrics \<Rightarrow> metric_op \<Rightarrow> Metrics" where
  "metric_step r (MAdd name l v) = Add name l v r"
| "metric_step r (MSet name l v) = SetGauge name l v r"
| "metric_step r (MObserve name l d) = Observe name l d r"

definition metrics_wf :: "Metrics \<Rightarrow> bool" where
  "metrics_wf r \<longleftrightarrow>
     (\<forall>name c. map_of (mt_counters r) name = Some c \<longrightarrow> counter_wf c)
     \<and> (\<forall>name g. map_of (mt_gauges r) name = Some g \<longrightarrow> gauge_wf g)
     \<and> (\<forall>name h. map_of (mt_histograms r) name = Some h \<longrightarrow> histogram_wf h)"

lemma metrics_wf_updates:
  assumes "metrics_wf r"
  shows "counter_wf c \<Longrightarrow> metrics_wf (r\<lparr>mt_counters := AList.update n c (mt_counters r)\<rparr>)"
    and "gauge_wf g \<Longrightarrow> metrics_wf (r\<lparr>mt_gauges := AList.update n g (mt_gauges r)\<rparr>)"
    and "histogram_wf h \<Longrightarrow> metrics_wf (r\<lparr>mt_histograms := AList.update n h (mt_histograms r)\<rparr>)"
    and "metrics_wf (r\<lparr>mt_order := names\<rparr>)"
  using assms by (simp_all add: metrics_wf_def)

lemma metrics_wf_at:
  assumes "metrics_wf r"
  shows "map_of (mt_counters r) n = Some c \<Longrightarrow> counter_wf c" "map_of (mt_gauges r) n = Some g \<Longrightarrow> gauge_wf g"
    "map_of (mt_histograms r) n = Some h \<Longrightarrow> histogram_wf h"
  using assms unfolding metrics_wf_def by blast+

lemma metric_step_wf:
  assumes "metrics_wf r"
  shows "metrics_wf (metric_step r x)"
  using assms
  by (cases x) (simp_all add: Add_def SetGauge_def Observe_def metrics_wf_updates metrics_wf_at [OF assms]
      counterAdd_wf gaugeSet_wf histogramObserve_wf split: option.split)

interpretation metering: machine metric_step "\<lambda>_ _. True" metrics_wf
  by unfold_locales (rule metric_step_wf)

lemma empty_vec_wf [simp]:
  "counter_wf \<lparr>cv_help = help, cv_values = []\<rparr>" "gauge_wf \<lparr>gv_help = help, gv_values = []\<rparr>"
  "histogram_wf \<lparr>hv_help = help, hv_buckets = bs, hv_values = []\<rparr>"
  by (simp_all add: counter_wf_def gauge_wf_def histogram_wf_def)

lemma declareMetric_wf: "metrics_wf r \<Longrightarrow> metrics_wf (declareMetric r d)"
  by (cases d) (simp_all add: counter_def gauge_def histogram_def metrics_wf_updates
      metrics_wf_updates(4) [OF metrics_wf_updates(1)] metrics_wf_updates(4) [OF metrics_wf_updates(2)]
      metrics_wf_updates(4) [OF metrics_wf_updates(3)])

lemma NewMetrics_wf: "metrics_wf NewMetrics"
proof -
  have run: "metrics_wf r \<Longrightarrow> metrics_wf (foldl declareMetric r ds)" for r ds
    by (induction ds arbitrary: r) (simp_all add: declareMetric_wf)
  show ?thesis unfolding NewMetrics_def by (rule run) (simp add: metrics_wf_def)
qed

text \<open>What was added to a counter by a sequence of operations.\<close>

fun addedTo :: "string \<Rightarrow> metric_op list \<Rightarrow> rat" where
  "addedTo name [] = 0"
| "addedTo name (MAdd n l v # xs) = (if n = name then v else 0) + addedTo name xs"
| "addedTo name (x # xs) = addedTo name xs"

lemma metric_step_counter:
  assumes "metrics_wf r" and "map_of (mt_counters r) name = Some c"
  shows "\<exists>c'. map_of (mt_counters (metric_step r x)) name = Some c' \<and> counterTotal c' = counterTotal c + addedTo name [x]"
  using assms
  by (cases x) (auto simp: Add_def SetGauge_def Observe_def counterAdd_total metrics_wf_def split: option.split)

lemma addedTo_Cons: "addedTo name (x # xs) = addedTo name [x] + addedTo name xs"
  by (cases x) auto

lemma run_counter:
  "metrics_wf r \<Longrightarrow> map_of (mt_counters r) name = Some c \<Longrightarrow>
   \<exists>c'. map_of (mt_counters (foldl metric_step r xs)) name = Some c' \<and> counterTotal c' = counterTotal c + addedTo name xs"
proof (induction xs arbitrary: r c)
  case (Cons x xs)
  obtain c' where c': "map_of (mt_counters (metric_step r x)) name = Some c'"
    "counterTotal c' = counterTotal c + addedTo name [x]"
    using metric_step_counter [OF Cons.prems] by blast
  from Cons.IH [OF metric_step_wf [OF Cons.prems(1)] c'(1)] c'(2) show ?case
    by (auto simp: addedTo_Cons [of name x xs])
qed simp

text \<open>A declared counter starts empty.\<close>

lemma declared_counter:
  "map_of (mt_counters (foldl declareMetric r ds)) name = Some c \<Longrightarrow>
   map_of (mt_counters r) name = Some c \<or> cv_values c = []"
proof (induction ds arbitrary: r)
  case (Cons d ds)
  from Cons.IH [of "declareMetric r d"] Cons.prems show ?case
    by (cases d) (auto simp: counter_def gauge_def histogram_def split: if_splits)
qed simp

text \<open>
  C28: Provider-controlled labels cannot make the registry grow without bound, and the bound costs no counts. After
  any additions, settings and observations a counter has at most 2001 series and a gauge or histogram at most 2000,
  and the series of a counter still add up to everything that was added to it.
\<close>

theorem series_bounded_counters_exact:
  assumes "r = foldl metric_step NewMetrics xs" and "map_of (mt_counters NewMetrics) name = Some c0"
  shows "(\<exists>c. map_of (mt_counters r) name = Some c \<and> length (cv_values c) \<le> 2001
            \<and> sum_list (map (sv_value \<circ> snd) (cv_values c)) = addedTo name xs)
       \<and> (\<forall>n g. map_of (mt_gauges r) n = Some g \<longrightarrow> length (gv_values g) \<le> 2000)
       \<and> (\<forall>n h. map_of (mt_histograms r) n = Some h \<longrightarrow> length (hv_values h) \<le> 2000)"
proof (intro conjI)
  have wf: "metrics_wf r" unfolding assms(1) by (rule metering.run_inv [OF NewMetrics_wf]) (simp add: legal_always)
  have "cv_values c0 = []" using declared_counter [OF assms(2) [unfolded NewMetrics_def]] by simp
  then have zero: "counterTotal c0 = 0" by (simp add: counterTotal_def)
  obtain c where c: "map_of (mt_counters r) name = Some c" "counterTotal c = addedTo name xs"
    using run_counter [OF NewMetrics_wf assms(2), of xs] zero assms(1) by auto
  have "counter_wf c" using wf c(1) unfolding metrics_wf_def by blast
  then have "length (cv_values c) \<le> 2001" by (auto simp: counter_wf_def maxSeriesPerMetric_def split: if_splits)
  with c show "\<exists>c. map_of (mt_counters r) name = Some c \<and> length (cv_values c) \<le> 2001
      \<and> sum_list (map (sv_value \<circ> snd) (cv_values c)) = addedTo name xs" by (auto simp: counterTotal_def)
qed (use metering.run_inv [OF NewMetrics_wf legal_always, of xs] in
      \<open>auto simp: assms(1) metrics_wf_def gauge_wf_def histogram_wf_def maxSeriesPerMetric_def\<close>)

lemma replay_declared:
  "map_of (mt_counters NewMetrics) ''statushub_replay_total''
     = Some \<lparr>cv_help = ''Events replayed on request.'', cv_values = []\<rparr>"
  by (simp add: NewMetrics_def declaredMetrics_def counter_def gauge_def histogram_def)

theorem series_bounded_counters_exact_witness:
  "\<exists>c. map_of (mt_counters (foldl metric_step NewMetrics
          [MAdd ''statushub_replay_total'' [] 2, MSet ''statushub_build_info'' [] 1, MAdd ''statushub_replay_total'' [] 1]))
        ''statushub_replay_total'' = Some c \<and> length (cv_values c) \<le> 2001
     \<and> sum_list (map (sv_value \<circ> snd) (cv_values c)) = 3"
  using series_bounded_counters_exact [OF refl replay_declared,
      of "[MAdd ''statushub_replay_total'' [] 2, MSet ''statushub_build_info'' [] 1, MAdd ''statushub_replay_total'' [] 1]"]
  by simp

section \<open>Histograms\<close>

definition observedFor :: "string \<Rightarrow> (labels \<times> rat) list \<Rightarrow> rat list" where
  "observedFor key xs = map snd (filter (\<lambda>x. labelKey (fst x) = key) xs)"

definition summarises :: "rat list \<Rightarrow> rat list \<Rightarrow> histogramValue \<Rightarrow> bool" where
  "summarises buckets vs hv \<longleftrightarrow>
     hs_counts hv = map (\<lambda>b. length (filter (\<lambda>v. v \<le> b) vs)) buckets
     \<and> hs_sum hv = sum_list vs \<and> hs_count hv = length vs"

lemma inc64_exact: "n < 2 ^ 64 - 1 \<Longrightarrow> inc64 n = n + 1"
  by (simp add: inc64_def)

lemma countBuckets_exact:
  "length vs < 2 ^ 64 - 1 \<Longrightarrow>
   countBuckets v bs (map (\<lambda>b. length (filter (\<lambda>v. v \<le> b) vs)) bs)
   = map (\<lambda>b. length (filter (\<lambda>v. v \<le> b) (vs @ [v]))) bs"
proof (induction bs)
  case (Cons b bs)
  have "length (filter (\<lambda>v. v \<le> b) vs) < 2 ^ 64 - 1" using Cons.prems le_less_trans length_filter_le by blast
  with Cons show ?case by (simp add: inc64_exact)
qed simp

abbreviation observeAll :: "histogramVec \<Rightarrow> (labels \<times> rat) list \<Rightarrow> histogramVec" where
  "observeAll h xs \<equiv> foldl (\<lambda>h x. histogramObserve (fst x) (snd x) h) h xs"

lemma observeAll_buckets [simp]: "hv_buckets (observeAll h xs) = hv_buckets h"
  by (induction xs arbitrary: h) (auto simp: histogramObserve_def Let_def)

lemma observedFor_snoc:
  "observedFor key (xs @ [x]) = observedFor key xs @ (if labelKey (fst x) = key then [snd x] else [])"
  by (simp add: observedFor_def)

definition observed_ok :: "rat list \<Rightarrow> (labels \<times> rat) list \<Rightarrow> histogramVec \<Rightarrow> string \<Rightarrow> bool" where
  "observed_ok bs xs h key \<longleftrightarrow>
     (case map_of (hv_values h) key of
        None \<Rightarrow> length (hv_values h) < maxSeriesPerMetric \<longrightarrow> observedFor key xs = []
      | Some hv \<Rightarrow> summarises bs (observedFor key xs) hv)"

lemma observed_step:
  assumes ok: "\<And>key. observed_ok (hv_buckets h) xs h key" and "length xs < 2 ^ 64 - 1"
  shows "observed_ok (hv_buckets h) (xs @ [x]) (histogramObserve (fst x) (snd x) h) key"
proof (cases "map_of (hv_values h) (labelKey (fst x)) = None \<and> length (hv_values h) \<ge> maxSeriesPerMetric")
  case True
  then have "histogramObserve (fst x) (snd x) h = h" by (simp add: histogramObserve_def)
  with True ok [of key] show ?thesis by (auto simp: observed_ok_def observedFor_snoc split: option.splits)
next
  case False
  let ?k = "labelKey (fst x)" and ?bs = "hv_buckets h"
  define hv where "hv = (case map_of (hv_values h) ?k of Some hv \<Rightarrow> hv
      | None \<Rightarrow> \<lparr>hs_labels = fst x, hs_counts = replicate (length ?bs) 0, hs_sum = 0, hs_count = 0\<rparr>)"
  define hv' where "hv' = hv\<lparr>hs_counts := countBuckets (snd x) ?bs (hs_counts hv), hs_sum := hs_sum hv + snd x,
      hs_count := inc64 (hs_count hv)\<rparr>"
  have vals: "hv_values (histogramObserve (fst x) (snd x) h) = AList.update ?k hv' (hv_values h)"
    using False by (auto simp: histogramObserve_def Let_def hv'_def hv_def)
  have known: "summarises ?bs (observedFor ?k xs) hv"
  proof (cases "map_of (hv_values h) ?k")
    case None
    then have "observedFor ?k xs = []" using False ok [of ?k] by (simp add: observed_ok_def)
    with None show ?thesis by (simp add: hv_def summarises_def map_replicate_const)
  next
    case (Some hv0)
    then show ?thesis using ok [of ?k] by (simp add: observed_ok_def hv_def)
  qed
  have len: "length (observedFor ?k xs) < 2 ^ 64 - 1"
    using assms(2) le_less_trans [OF length_filter_le] by (simp add: observedFor_def)
  have sum: "summarises ?bs (observedFor ?k xs @ [snd x]) hv'"
    using known countBuckets_exact [OF len, of "snd x" ?bs] inc64_exact [OF len]
    by (simp add: summarises_def hv'_def)
  have "length (hv_values h) \<le> length (AList.update ?k hv' (hv_values h))" by (simp add: length_update)
  with sum ok [of key] show ?thesis
    by (auto simp: observed_ok_def vals observedFor_snoc split: option.splits)
qed

lemma observeAll_ok:
  "hv_values h = [] \<Longrightarrow> length xs < 2 ^ 64 \<Longrightarrow> \<forall>key. observed_ok (hv_buckets h) xs (observeAll h xs) key"
proof (induction xs rule: rev_induct)
  case Nil
  then show ?case by (simp add: observed_ok_def observedFor_def)
next
  case (snoc x xs)
  then have "observed_ok (hv_buckets (observeAll h xs)) xs (observeAll h xs) k" for k by simp
  then have "observed_ok (hv_buckets (observeAll h xs)) (xs @ [x]) (histogramObserve (fst x) (snd x) (observeAll h xs)) key" for key
    by (rule observed_step) (use snoc.prems in simp)
  then show ?case by simp
qed

text \<open>
  A histogram counts exactly. Each series it shows has, per bucket, the number of observations under that label
  key that are at most the bound, with their sum and their number; the counts are cumulative, so they never decrease
  along increasing bounds and never exceed the number of observations.
\<close>

theorem histogram_exact:
  assumes "hv_values h = []" and "length xs < 2 ^ 64" and "sorted (hv_buckets h)"
    and "map_of (hv_values (observeAll h xs)) key = Some hv"
  shows "hs_counts hv = map (\<lambda>b. length (filter (\<lambda>v. v \<le> b) (observedFor key xs))) (hv_buckets h)
    \<and> hs_sum hv = sum_list (observedFor key xs) \<and> hs_count hv = length (observedFor key xs)
    \<and> sorted (hs_counts hv) \<and> (\<forall>n \<in> set (hs_counts hv). n \<le> hs_count hv)"
proof -
  have s: "summarises (hv_buckets h) (observedFor key xs) hv"
    using spec [OF observeAll_ok [OF assms(1,2)], of key] assms(4) by (simp add: observed_ok_def)
  have mono: "length (filter (\<lambda>v. v \<le> a) vs) \<le> length (filter (\<lambda>v. v \<le> b) vs)" if "a \<le> b" for a b :: rat and vs
    using that by (induction vs) auto
  have "sorted (map (\<lambda>b. length (filter (\<lambda>v. v \<le> b) (observedFor key xs))) bs)" if "sorted bs" for bs
    using that by (induction bs) (auto intro: mono)
  with s assms(3) show ?thesis by (auto simp: summarises_def)
qed

theorem histogram_exact_witness:
  "let h = observeAll \<lparr>hv_help = [], hv_buckets = [1, 5], hv_values = []\<rparr> [([], 3), ([], 1)]
   in \<exists>hv. map_of (hv_values h) [] = Some hv \<and> hs_counts hv = [1, 2] \<and> hs_sum hv = 4 \<and> hs_count hv = 2"
proof -
  let ?h = "\<lparr>hv_help = [], hv_buckets = [1, 5], hv_values = []\<rparr> :: histogramVec" and ?xs = "[([], 3), ([], 1)] :: (labels \<times> rat) list"
  have "map_of (hv_values (observeAll ?h ?xs)) [] \<noteq> None"
    by (simp add: histogramObserve_def labelKey_def Let_def maxSeriesPerMetric_def)
  then obtain hv where hv: "map_of (hv_values (observeAll ?h ?xs)) [] = Some hv" by blast
  have "observedFor [] ?xs = [3, 1]" by (simp add: observedFor_def labelKey_def)
  with histogram_exact [OF _ _ _ hv] hv show ?thesis by (auto simp: Let_def)
qed

section \<open>Where rendering is not one-to-one\<close>

text \<open>
  Two label values that differ only after their first 128 bytes are two series and are written as the same one
  twice, whatever the quoting: an exposition with a repeated series is malformed, so one such pair of provider
  statuses spoils every scrape.
\<close>

definition longStatus :: "char \<Rightarrow> labels" where
  "longStatus c = [(''raw_value'', replicate 128 CHR ''a'' @ [c])]"

theorem truncated_labels_collide:
  "labelKey (longStatus CHR ''x'') \<noteq> labelKey (longStatus CHR ''y'')
   \<and> renderLabels T (longStatus CHR ''x'') [] = renderLabels T (longStatus CHR ''y'') []"
  by (simp add: longStatus_def labelKey_def renderLabels_def renderPair_def escapeLabel_def)

text \<open>Label sets that differ are one series when a value contains the separators of the key.\<close>

theorem label_keys_collide:
  "labelKey [(''provider'', ''p''), (''raw_value'', ''x'')] = labelKey [(''provider'', ''p,raw_value=x'')]"
  by (simp add: labelKey_def)

end
