(* ===== verification/Alerting.thy ===== *)
theory Alerting
  imports JsonPath Assoc "HOL-Library.List_Lexorder" "HOL-Library.Char_ord" "HOL-Library.Product_Lexorder"
begin

text \<open>
  Alert routing (\<^verbatim>\<open>internal/alert/alert.go\<close>): fixed severities, pages that go out at once, warnings kept for a digest,
  and conditions that do not notify again while they last. A sink is its name and what it answers to a batch, an
  error or nothing; the router hands every batch to every sink. The mutex is held to decide and released to
  deliver, so an operation is its decision together with the batch it hands out.
\<close>

section \<open>Conditions\<close>

type_synonym Severity = string
type_synonym Condition = string

definition SeverityPage :: Severity where "SeverityPage = ''page''"
definition SeverityWarn :: Severity where "SeverityWarn = ''warn''"

definition ConditionReceiverLatency :: Condition where "ConditionReceiverLatency = ''receiver_latency''"
definition ConditionSignatureFailures :: Condition where "ConditionSignatureFailures = ''signature_failure_spike''"
definition ConditionNormalisation :: Condition where "ConditionNormalisation = ''normalisation_failures''"
definition ConditionUnknownStatus :: Condition where "ConditionUnknownStatus = ''new_unknown_status''"
definition ConditionDeadLetters :: Condition where "ConditionDeadLetters = ''dead_letters_growing''"
definition ConditionShardStalled :: Condition where "ConditionShardStalled = ''shard_stalled''"
definition ConditionQueueDepth :: Condition where "ConditionQueueDepth = ''queue_depth''"
definition ConditionAuditChain :: Condition where "ConditionAuditChain = ''audit_chain_broken''"
definition ConditionEndpointSilent :: Condition where "ConditionEndpointSilent = ''endpoint_silent''"
definition ConditionBreakerOpen :: Condition where "ConditionBreakerOpen = ''destination_unreachable''"

definition severities :: "(Condition \<times> Severity) list" where
  "severities =
    [(ConditionReceiverLatency, SeverityPage), (ConditionSignatureFailures, SeverityPage),
     (ConditionDeadLetters, SeverityPage), (ConditionShardStalled, SeverityPage), (ConditionAuditChain, SeverityPage),
     (ConditionEndpointSilent, SeverityPage), (ConditionNormalisation, SeverityWarn),
     (ConditionUnknownStatus, SeverityWarn), (ConditionQueueDepth, SeverityWarn), (ConditionBreakerOpen, SeverityWarn)]"

definition SeverityOf :: "Condition \<Rightarrow> Severity" where
  "SeverityOf c = (case map_of severities c of Some s \<Rightarrow> s | None \<Rightarrow> SeverityWarn)"

record Alert =
  al_Condition :: Condition
  al_Severity :: Severity
  al_TenantID :: string
  al_Subject :: string
  al_Summary :: string
  al_FirstAction :: string
  al_Detail :: "(string \<times> json) list"
  al_FiredAt :: instant

definition alertKey :: "Condition \<Rightarrow> string \<Rightarrow> string \<Rightarrow> string" where
  "alertKey c tenantID sub = c @ ''|'' @ tenantID @ ''|'' @ sub"

definition AlertKey :: "Alert \<Rightarrow> string" where
  "AlertKey a = alertKey (al_Condition a) (al_TenantID a) (al_Subject a)"

definition firstActions :: "(Condition \<times> string) list" where
  "firstActions =
    [(ConditionReceiverLatency,
       ''Providers will begin retrying. Check store write latency.''),
     (ConditionSignatureFailures,
       ''Possible forgery attempt, or a provider rotated a secret without notice. Check the endpoint's signature-failure view for the source.''),
     (ConditionNormalisation,
       ''The provider changed their payload. Runbook 11.5: the raw bytes are safe, correct the adapter and replay the window.''),
     (ConditionUnknownStatus,
       ''Map it before it becomes a support ticket. GET /v1/unknown-statuses shows the value and a sample event.''),
     (ConditionDeadLetters,
       ''The customer's endpoint is down and this is customer-impacting. Check the dead-letter view for the response body.''),
     (ConditionShardStalled,
       ''Head-of-line blocking. Runbook 11.6: find the blocking transaction reference and decide whether the destination is failing for that event or generally.''),
     (ConditionQueueDepth,
       ''Scale the dispatcher.''),
     (ConditionAuditChain,
       ''Security incident. Do not restart anything; preserve state and escalate.''),
     (ConditionEndpointSilent,
       ''Check that the receiver URL is still set in the provider's dashboard. Nothing has arrived where traffic is normally expected.''),
     (ConditionBreakerOpen,
       ''Deliveries are parked, not failing, and will resume when the destination answers. Confirm the customer knows their endpoint is down.'')]"

definition NewAlert ::
    "Condition \<Rightarrow> string \<Rightarrow> string \<Rightarrow> string \<Rightarrow> (string \<times> json) list \<Rightarrow> instant \<Rightarrow> Alert" where
  "NewAlert c tenantID sub summary detail at =
     \<lparr>al_Condition = c, al_Severity = SeverityOf c, al_TenantID = tenantID, al_Subject = sub, al_Summary = summary,
      al_FirstAction = (case map_of firstActions c of Some a \<Rightarrow> a | None \<Rightarrow> []), al_Detail = detail, al_FiredAt = at\<rparr>"

section \<open>The router\<close>

type_synonym sink = "string \<times> (Alert list \<Rightarrow> string option)"

record Router =
  ar_sinks :: "sink list"
  ar_firing :: "(string \<times> instant) list"
  ar_pending :: "Alert list"
  ar_renotifyAfter :: duration
  ar_digestEvery :: duration
  ar_lastDigestAt :: instant

definition NewRouter :: "sink list \<Rightarrow> duration \<Rightarrow> duration \<Rightarrow> Router" where
  "NewRouter sinks renotify digest =
     \<lparr>ar_sinks = sinks, ar_firing = [], ar_pending = [],
      ar_renotifyAfter = (if renotify \<le> 0 then 4 * hour else renotify),
      ar_digestEvery = (if digest \<le> 0 then hour else digest), ar_lastDigestAt = zero_time\<rparr>"

text \<open>\<open>deliver\<close>: the failures of the sinks, an error when there are sinks and all of them failed.\<close>

fun sinkFailures :: "sink list \<Rightarrow> Alert list \<Rightarrow> string list" where
  "sinkFailures [] alerts = []"
| "sinkFailures ((name, f) # ss) alerts =
     (case f alerts of
        None \<Rightarrow> sinkFailures ss alerts
      | Some err \<Rightarrow> (name @ '': '' @ err) # sinkFailures ss alerts)"

definition deliverAlerts :: "Router \<Rightarrow> Alert list \<Rightarrow> string list option" where
  "deliverAlerts r alerts =
     (let failures = sinkFailures (ar_sinks r) alerts in
      if length failures = length (ar_sinks r) \<and> length (ar_sinks r) > 0 then Some failures else None)"

text \<open>What \<open>Fire\<close> and \<open>FlushDigest\<close> return: the new state, the batch handed to the sinks if any, the error if any.\<close>

definition Fire :: "instant \<Rightarrow> Alert \<Rightarrow> Router \<Rightarrow> Router \<times> Alert list \<times> string list option" where
  "Fire now a r =
     (let a = (if is_zero_time (al_FiredAt a) then a\<lparr>al_FiredAt := now\<rparr> else a); key = AlertKey a in
      if (case map_of (ar_firing r) key of Some since \<Rightarrow> time_sub now since < ar_renotifyAfter r | None \<Rightarrow> False)
      then (r, [], None)
      else
        let r = r\<lparr>ar_firing := AList.update key now (ar_firing r)\<rparr> in
        if al_Severity a = SeverityWarn then (r\<lparr>ar_pending := ar_pending r @ [a]\<rparr>, [], None)
        else (r, [a], deliverAlerts r [a]))"

definition ClearAlert :: "Condition \<Rightarrow> string \<Rightarrow> string \<Rightarrow> Router \<Rightarrow> Router" where
  "ClearAlert c tenantID sub r = r\<lparr>ar_firing := AList.delete (alertKey c tenantID sub) (ar_firing r)\<rparr>"

definition FlushDigest :: "instant \<Rightarrow> Router \<Rightarrow> Router \<times> Alert list \<times> string list option" where
  "FlushDigest now r =
     (if length (ar_pending r) = 0 then (r\<lparr>ar_lastDigestAt := now\<rparr>, [], None)
      else if \<not> is_zero_time (ar_lastDigestAt r) \<and> time_sub now (ar_lastDigestAt r) < ar_digestEvery r then (r, [], None)
      else
        let batch = sort_key (\<lambda>a. (al_Condition a, al_Subject a)) (ar_pending r);
            r = r\<lparr>ar_pending := [], ar_lastDigestAt := now\<rparr>
        in (r, batch, deliverAlerts r batch))"

definition PendingAlerts :: "Router \<Rightarrow> int" where
  "PendingAlerts r = int (length (ar_pending r))"

section \<open>Text and sinks\<close>

definition newline :: string where "newline = [CHR 0x0A]"

text \<open>The bytes of the dash and of the middle dot.\<close>

definition dashBytes :: string where "dashBytes = [CHR 0xE2, CHR 0x80, CHR 0x94]"
definition dotBytes :: string where "dotBytes = [CHR 0xC2, CHR 0xB7]"

fun digestLines :: "Condition \<Rightarrow> Alert list \<Rightarrow> string" where
  "digestLines current [] = []"
| "digestLines current (a # as) =
     (if al_Condition a \<noteq> current then al_Condition a @ newline @ ''  '' @ al_FirstAction a @ newline else [])
     @ ''    '' @ dotBytes @ '' '' @ al_Summary a @ newline @ digestLines (al_Condition a) as"

definition FormatAlerts :: "Alert list \<Rightarrow> string" where
  "FormatAlerts alerts =
     (case alerts of
        [a] \<Rightarrow>
          ''['' @ ToUpper (al_Severity a) @ ''] '' @ al_Condition a @ newline @ newline @ al_Summary a @ newline @ newline
          @ ''First action: '' @ al_FirstAction a @ newline
          @ (if al_Subject a \<noteq> [] then ''Affected: '' @ al_Subject a @ newline else [])
      | _ \<Rightarrow>
          ''StatusHub digest '' @ dashBytes @ '' '' @ FormatInt (int (length alerts)) @ '' conditions'' @ newline @ newline
          @ digestLines [] alerts)"

text \<open>\<open>LogSink\<close> writes with the severity of the most severe alert; without a writer it does nothing.\<close>

definition logSeverity :: "Alert list \<Rightarrow> Severity" where
  "logSeverity alerts = (if list_ex (\<lambda>a. al_Severity a = SeverityPage) alerts then SeverityPage else SeverityWarn)"

definition logWrites :: "bool \<Rightarrow> Alert list \<Rightarrow> (Severity \<times> string) option" where
  "logWrites hasWriter alerts = (if \<not> hasWriter then None else Some (logSeverity alerts, FormatAlerts alerts))"

definition logSink :: sink where "logSink = (''log'', \<lambda>_. None)"

text \<open>\<open>WebhookSink\<close> over a JSON encoder and a poster that answers a status or an error.\<close>

definition webhookSink :: "bool \<Rightarrow> (Alert list option \<Rightarrow> string \<Rightarrow> string + string) \<Rightarrow> (string \<Rightarrow> string + int) \<Rightarrow> sink" where
  "webhookSink slack marshal post =
     (''webhook'', \<lambda>alerts.
        case marshal (if slack then None else Some alerts) (FormatAlerts alerts) of
          Inl err \<Rightarrow> Some err
        | Inr body \<Rightarrow>
            (case post body of
               Inl err \<Rightarrow> Some err
             | Inr status \<Rightarrow>
                 if status < 200 \<or> status \<ge> 300 then Some (''alert webhook returned '' @ FormatInt status) else None))"

section \<open>The life of a router\<close>

text \<open>A router with what was handed to its sinks so far, and two histories: pages and digests.\<close>

record alerting =
  ag_router :: Router
  ag_paged :: "(instant \<times> Alert) list"
  ag_digested :: "Alert list"
  ag_clock :: instant

datatype alert_op = AFire instant Alert | AClear instant Condition string string | AFlush instant

fun alert_time :: "alert_op \<Rightarrow> instant" where
  "alert_time (AFire now a) = now" | "alert_time (AClear now c t sub) = now" | "alert_time (AFlush now) = now"

fun alert_act :: "alerting \<Rightarrow> alert_op \<Rightarrow> alerting" where
  "alert_act g (AFire now a) =
     (let (r, batch, _) = Fire now a (ag_router g) in
      g\<lparr>ag_router := r, ag_paged := ag_paged g @ map (\<lambda>x. (now, x)) batch\<rparr>)"
| "alert_act g (AClear now c t sub) = g\<lparr>ag_router := ClearAlert c t sub (ag_router g)\<rparr>"
| "alert_act g (AFlush now) =
     (let (r, batch, _) = FlushDigest now (ag_router g) in g\<lparr>ag_router := r, ag_digested := ag_digested g @ batch\<rparr>)"

definition alert_step :: "alerting \<Rightarrow> alert_op \<Rightarrow> alerting" where
  "alert_step g x = (alert_act g x)\<lparr>ag_clock := alert_time x\<rparr>"

definition quietRouter :: "Router \<Rightarrow> instant \<Rightarrow> alerting" where
  "quietRouter r now = \<lparr>ag_router = r, ag_paged = [], ag_digested = [], ag_clock = now\<rparr>"

end
