(* ===== verification/Alerting_Spec.thy ===== *)
theory Alerting_Spec
  imports Alerting "HOL-Library.Multiset"
begin

text \<open>What the router promises: no warning disappears before its digest, no page repeats too soon; and what a failed
  delivery costs.\<close>

section \<open>Warnings\<close>

lemma Fire_cases:
  obtains "Fire now a r = (r, [], None)"
      "\<exists>since. map_of (ar_firing r) (AlertKey a) = Some since \<and> time_sub now since < ar_renotifyAfter r"
  | r' x where "x = (if is_zero_time (al_FiredAt a) then a\<lparr>al_FiredAt := now\<rparr> else a)"
      "r' = r\<lparr>ar_firing := AList.update (AlertKey a) now (ar_firing r)\<rparr>"
      "\<nexists>since. map_of (ar_firing r) (AlertKey a) = Some since \<and> time_sub now since < ar_renotifyAfter r"
      "Fire now a r = (if al_Severity a = SeverityWarn then (r'\<lparr>ar_pending := ar_pending r @ [x]\<rparr>, [], None)
                       else (r', [x], deliverAlerts r' [x]))"
proof -
  let ?x = "if is_zero_time (al_FiredAt a) then a\<lparr>al_FiredAt := now\<rparr> else a"
  have key: "AlertKey ?x = AlertKey a" "al_Severity ?x = al_Severity a" by (simp_all add: AlertKey_def)
  show thesis
  proof (cases "\<exists>since. map_of (ar_firing r) (AlertKey a) = Some since \<and> time_sub now since < ar_renotifyAfter r")
    case True
    with that(1) key show ?thesis by (auto simp: Fire_def Let_def)
  next
    case False
    then have "\<not> (case map_of (ar_firing r) (AlertKey a) of Some since \<Rightarrow> time_sub now since < ar_renotifyAfter r | None \<Rightarrow> False)"
      by (auto split: option.splits)
    then have "Fire now a r = (let r' = r\<lparr>ar_firing := AList.update (AlertKey a) now (ar_firing r)\<rparr> in
        if al_Severity a = SeverityWarn then (r'\<lparr>ar_pending := ar_pending r @ [?x]\<rparr>, [], None)
        else (r', [?x], deliverAlerts r' [?x]))"
      by (simp add: Fire_def key Let_def)
    with that(2) [OF refl refl False] show ?thesis by (simp add: Let_def)
  qed
qed

text \<open>
  Which warnings the router has to take, from the history of what it was asked alone: a fire counts unless one of
  the same condition, tenant and subject counted less than \<open>d\<close> ago and was not cleared since; of those that count,
  the warnings. \<open>seen\<close> is when each key last counted.
\<close>

fun warningsDue :: "duration \<Rightarrow> (string \<rightharpoonup> instant) \<Rightarrow> alert_op list \<Rightarrow> Alert list" where
  "warningsDue d seen [] = []"
| "warningsDue d seen (AFire now a # xs) =
     (if (case seen (AlertKey a) of Some t \<Rightarrow> time_sub now t < d | None \<Rightarrow> False) then warningsDue d seen xs
      else (if al_Severity a = SeverityWarn then [if is_zero_time (al_FiredAt a) then a\<lparr>al_FiredAt := now\<rparr> else a] else [])
           @ warningsDue d (seen(AlertKey a \<mapsto> now)) xs)"
| "warningsDue d seen (AClear now c t sub # xs) = warningsDue d (seen(alertKey c t sub := None)) xs"
| "warningsDue d seen (AFlush now # xs) = warningsDue d seen xs"

definition heldOrSent :: "alerting \<Rightarrow> Alert multiset" where
  "heldOrSent g = mset (ar_pending (ag_router g)) + mset (ag_digested g)"

lemma heldOrSent_Fire:
  assumes "ar_renotifyAfter (ag_router g) = d" and "map_of (ar_firing (ag_router g)) = seen"
  shows "let due = \<not> (case seen (AlertKey a) of Some t \<Rightarrow> time_sub now t < d | None \<Rightarrow> False);
           g' = alert_step g (AFire now a)
         in heldOrSent g' = heldOrSent g
              + (if due \<and> al_Severity a = SeverityWarn
                 then {#if is_zero_time (al_FiredAt a) then a\<lparr>al_FiredAt := now\<rparr> else a#} else {#})
          \<and> map_of (ar_firing (ag_router g')) = (if due then seen(AlertKey a \<mapsto> now) else seen)
          \<and> ar_renotifyAfter (ag_router g') = d"
proof (cases rule: Fire_cases [of now a "ag_router g"])
  case 1
  then show ?thesis using assms by (auto simp: alert_step_def heldOrSent_def Let_def)
next
  case (2 r' x)
  then have "\<not> (case seen (AlertKey a) of Some t \<Rightarrow> time_sub now t < d | None \<Rightarrow> False)"
    using assms by (auto split: option.splits)
  then show ?thesis using 2 assms by (auto simp: alert_step_def heldOrSent_def Let_def)
qed

lemma heldOrSent_Flush:
  "heldOrSent (alert_step g (AFlush now)) = heldOrSent g
   \<and> ar_firing (ag_router (alert_step g (AFlush now))) = ar_firing (ag_router g)
   \<and> ar_renotifyAfter (ag_router (alert_step g (AFlush now))) = ar_renotifyAfter (ag_router g)"
  by (simp add: alert_step_def heldOrSent_def FlushDigest_def Let_def)

lemma heldOrSent_run:
  "ar_renotifyAfter (ag_router g) = d \<Longrightarrow> map_of (ar_firing (ag_router g)) = seen \<Longrightarrow>
   heldOrSent (foldl alert_step g xs) = heldOrSent g + mset (warningsDue d seen xs)"
proof (induction d seen xs arbitrary: g rule: warningsDue.induct)
  case (2 d seen now a xs)
  then show ?case using heldOrSent_Fire [OF 2(3,4), where a = a and now = now] by (auto simp: Let_def fun_upd_def split: if_splits)
next
  case (3 d seen now c t sub xs)
  then show ?case by (simp add: alert_step_def ClearAlert_def heldOrSent_def fun_upd_def delete_conv')
next
  case (4 d seen now xs)
  then show ?case using heldOrSent_Flush [of g now] by simp
qed simp

text \<open>
  C29: No warning disappears on its way to the digest. Whatever fires, clears and flushes, in any order, the warnings
  the history makes due are, one for one, those still pending and those handed to the sinks in a digest. Due is every
  warning fired, stamped with the time when it had none, but for repeats of a condition, tenant and subject that
  counted within the renotification interval and was not cleared since. A flush at least the digest interval after
  the last, or the first, hands out all that is pending, grouped by condition and subject.
\<close>

theorem warnings_not_lost:
  assumes "g = foldl alert_step (quietRouter (NewRouter sinks renotify digest) t0) xs"
    and "FlushDigest now (ag_router g) = (r', batch, err)"
  shows "mset (warningsDue (if renotify \<le> 0 then 4 * hour else renotify) Map.empty xs)
      = mset (ar_pending (ag_router g)) + mset (ag_digested g)
    \<and> sorted (map (\<lambda>a. (al_Condition a, al_Subject a)) batch)
    \<and> (is_zero_time (ar_lastDigestAt (ag_router g)) \<or> ar_digestEvery (ag_router g) \<le> time_sub now (ar_lastDigestAt (ag_router g))
       \<longrightarrow> ar_pending r' = [] \<and> mset batch = mset (ar_pending (ag_router g)))"
proof (intro conjI impI)
  let ?g0 = "quietRouter (NewRouter sinks renotify digest) t0"
  have "heldOrSent g = heldOrSent ?g0 + mset (warningsDue (if renotify \<le> 0 then 4 * hour else renotify) Map.empty xs)"
    unfolding assms(1) by (rule heldOrSent_run) (simp_all add: quietRouter_def NewRouter_def)
  then show "mset (warningsDue (if renotify \<le> 0 then 4 * hour else renotify) Map.empty xs)
      = mset (ar_pending (ag_router g)) + mset (ag_digested g)"
    by (simp add: heldOrSent_def quietRouter_def NewRouter_def)
  show "sorted (map (\<lambda>a. (al_Condition a, al_Subject a)) batch)"
    using assms(2) by (auto simp: FlushDigest_def Let_def split: if_splits)
  assume "is_zero_time (ar_lastDigestAt (ag_router g)) \<or>
    ar_digestEvery (ag_router g) \<le> time_sub now (ar_lastDigestAt (ag_router g))"
  then show "ar_pending r' = []" and "mset batch = mset (ar_pending (ag_router g))"
    using assms(2) by (auto simp: FlushDigest_def Let_def split: if_splits)
qed

section \<open>Pages\<close>

definition pagesFor :: "string \<Rightarrow> alerting \<Rightarrow> instant list" where
  "pagesFor key g = map fst (filter (\<lambda>x. AlertKey (snd x) = key) (ag_paged g))"

definition spaced :: "duration \<Rightarrow> instant list \<Rightarrow> bool" where
  "spaced d ts \<longleftrightarrow> sorted_wrt (\<lambda>s t. s + d \<le> t) ts"

definition paging_inv :: "duration \<Rightarrow> string \<Rightarrow> alerting \<Rightarrow> bool" where
  "paging_inv d key g \<longleftrightarrow>
     0 < d \<and> d \<le> max_int64 \<and> ar_renotifyAfter (ag_router g) = d \<and> spaced d (pagesFor key g)
     \<and> (\<forall>t \<in> set (pagesFor key g). \<exists>since. map_of (ar_firing (ag_router g)) key = Some since \<and> t \<le> since)"

fun uncleared :: "string \<Rightarrow> alerting \<Rightarrow> alert_op \<Rightarrow> bool" where
  "uncleared key g (AClear now c t sub) = (alertKey c t sub \<noteq> key)"
| "uncleared key g _ = True"

lemma time_sub_later: "\<not> time_sub now since < d \<Longrightarrow> 0 < d \<Longrightarrow> d \<le> max_int64 \<Longrightarrow> since + d \<le> now"
  by (auto simp: time_sub_def min_int64_def)

lemma spaced_snoc: "spaced d (ts @ [t]) \<longleftrightarrow> spaced d ts \<and> (\<forall>s \<in> set ts. s + d \<le> t)"
  by (auto simp: spaced_def sorted_wrt_append)

lemma paging_step:
  assumes inv: "paging_inv d key g" and "uncleared key g x"
  shows "paging_inv d key (alert_step g x)"
proof (cases x)
  case (AFire now a)
  show ?thesis
  proof (cases rule: Fire_cases [of now a "ag_router g"])
    case 1
    with inv show ?thesis by (simp add: AFire alert_step_def paging_inv_def pagesFor_def)
  next
    case (2 r' y)
    have y: "AlertKey y = AlertKey a" using 2(1) by (simp add: AlertKey_def)
    have old: "ar_renotifyAfter (ag_router g) = d" "spaced d (pagesFor key g)" "0 < d" "d \<le> max_int64"
      "\<forall>t \<in> set (pagesFor key g). \<exists>since. map_of (ar_firing (ag_router g)) key = Some since \<and> t \<le> since"
      using inv by (auto simp: paging_inv_def)
    have later: "t + d \<le> now" if "t \<in> set (pagesFor key g)" "AlertKey a = key" for t
    proof -
      from that(1) old(5) obtain since where s: "map_of (ar_firing (ag_router g)) key = Some since" "t \<le> since" by blast
      with 2(3) that(2) old(1) have "\<not> time_sub now since < d" by auto
      from time_sub_later [OF this old(3,4)] s(2) show ?thesis by simp
    qed
    let ?g = "alert_step g x"
    have pages: "pagesFor key ?g = pagesFor key g @ (if al_Severity a \<noteq> SeverityWarn \<and> AlertKey a = key then [now] else [])"
      using 2(2,4) y by (simp add: AFire alert_step_def pagesFor_def Let_def)
    have router: "ar_renotifyAfter (ag_router ?g) = d"
      "map_of (ar_firing (ag_router ?g)) key = (if AlertKey a = key then Some now else map_of (ar_firing (ag_router g)) key)"
      using 2(2,4) old(1) by (simp_all add: AFire alert_step_def Let_def)
    have "spaced d (pagesFor key ?g)" using old(2) later by (simp add: pages spaced_snoc)
    moreover have "\<exists>since. map_of (ar_firing (ag_router ?g)) key = Some since \<and> t \<le> since"
      if "t \<in> set (pagesFor key ?g)" for t
      using that old(3,5) later [of t] by (force simp: pages router split: if_splits)
    ultimately show ?thesis using old(3,4) router(1) by (simp add: paging_inv_def)
  qed
next
  case (AClear now c t sub)
  with assms show ?thesis by (simp add: alert_step_def paging_inv_def ClearAlert_def pagesFor_def)
next
  case (AFlush now)
  with assms show ?thesis by (simp add: alert_step_def paging_inv_def FlushDigest_def pagesFor_def Let_def)
qed

interpretation paging: machine alert_step "uncleared key" "paging_inv d key" for d key
  by unfold_locales (rule paging_step)

text \<open>
  C30: A condition that lasts does not page again too soon. As long as it is not cleared, two pages for the same
  condition, tenant and subject are at least the renotification interval apart, whatever else the router is asked.
\<close>

theorem pages_spaced:
  assumes "renotify \<le> max_int64"
    and "legal (uncleared key) alert_step (quietRouter (NewRouter sinks renotify digest) t0) xs"
    and "g = foldl alert_step (quietRouter (NewRouter sinks renotify digest) t0) xs" and "i < j"
    and "filter (\<lambda>x. AlertKey (snd x) = key) (ag_paged g) = ps" and "j < length ps"
  shows "fst (ps ! i) + (if renotify \<le> 0 then 4 * hour else renotify) \<le> fst (ps ! j)"
proof -
  let ?d = "if renotify \<le> 0 then 4 * hour else renotify"
  have "paging_inv ?d key (quietRouter (NewRouter sinks renotify digest) t0)"
    using assms(1) by (auto simp: paging_inv_def quietRouter_def NewRouter_def pagesFor_def spaced_def hour_def minute_def
        second_def max_int64_def)
  from paging.run_inv [OF this assms(2)] have "spaced ?d (map fst ps)"
    unfolding assms(3) [symmetric] by (simp add: paging_inv_def pagesFor_def assms(5))
  then show ?thesis using assms(4,6) by (simp add: spaced_def sorted_wrt_iff_nth_less)
qed

section \<open>Failed deliveries\<close>

text \<open>
  A page that reached nobody counts as sent. When every sink fails, \<open>Fire\<close> reports it but leaves the condition
  marked, so firing it again within the interval is suppressed without an attempt and without an error.
\<close>

theorem failed_page_suppressed:
  assumes "Fire now a r = (r', [x], Some failures)" and "0 < ar_renotifyAfter r"
    and "now \<le> later" "later < now + ar_renotifyAfter r"
  shows "Fire later a r' = (r', [], None)"
proof (cases rule: Fire_cases [of now a r])
  case 1
  with assms(1) show ?thesis by simp
next
  case (2 r'' y)
  have r': "map_of (ar_firing r') (AlertKey a) = Some now" "ar_renotifyAfter r' = ar_renotifyAfter r"
    using 2 assms(1) by (auto split: if_splits)
  have "time_sub later now < ar_renotifyAfter r" using assms(2-4) by (auto simp: time_sub_def min_int64_def)
  with r' show ?thesis
    by (cases rule: Fire_cases [of later a r']) auto
qed

text \<open>A digest that reached nobody is gone as well: the warnings are no longer pending.\<close>

theorem failed_digest_lost:
  assumes "FlushDigest now r = (r', batch, Some failures)"
  shows "FlushDigest later r' = (r'\<lparr>ar_lastDigestAt := later\<rparr>, [], None) \<and> batch \<noteq> []"
  using assms by (auto simp: FlushDigest_def Let_def split: if_splits dest: arg_cong [where f = length])

section \<open>A sample router\<close>

definition deadSinks :: "sink list" where
  "deadSinks = [(''webhook'', \<lambda>_. Some ''connection refused'')]"

definition deadLetters :: "instant \<Rightarrow> Alert" where
  "deadLetters at = NewAlert ConditionDeadLetters ''tnt_1'' ''dst_1'' ''12 dead letters'' [] at"

lemma deadLetters_fields [simp]:
  "al_Severity (deadLetters at) = SeverityPage" "AlertKey (deadLetters at) = ''dead_letters_growing|tnt_1|dst_1''"
  "al_FiredAt (deadLetters at) = at"
  by (simp_all add: deadLetters_def NewAlert_def AlertKey_def alertKey_def SeverityOf_def severities_def
      ConditionDeadLetters_def ConditionReceiverLatency_def ConditionSignatureFailures_def SeverityPage_def)

lemma deadRouter:
  "Fire 1 (deadLetters 1) (NewRouter deadSinks 0 0) =
     ((NewRouter deadSinks 0 0)\<lparr>ar_firing := [(''dead_letters_growing|tnt_1|dst_1'', 1)]\<rparr>, [deadLetters 1],
      Some [''webhook: connection refused''])"
  by (simp add: Fire_def NewRouter_def deadSinks_def deliverAlerts_def Let_def is_zero_time_def zero_time_def second_def
      SeverityPage_def SeverityWarn_def)

theorem failed_page_suppressed_witness:
  "let r' = fst (Fire 1 (deadLetters 1) (NewRouter deadSinks 0 0))
   in snd (snd (Fire 1 (deadLetters 1) (NewRouter deadSinks 0 0))) \<noteq> None \<and> Fire (3 * hour) (deadLetters 1) r' = (r', [], None)"
  using failed_page_suppressed [OF deadRouter, of "3 * hour"]
  by (simp add: deadRouter Let_def) (simp add: NewRouter_def hour_def minute_def second_def)

definition queueDeep :: Alert where
  "queueDeep = NewAlert ConditionQueueDepth ''tnt_1'' [] ''deep'' [] 1"

definition newStatus :: "string \<Rightarrow> Alert" where
  "newStatus sub = NewAlert ConditionUnknownStatus ''tnt_1'' sub ''new'' [] zero_time"

text \<open>The second \<open>queueDeep\<close> is a repeat, the third comes after a clear, and the last one is still pending.\<close>

definition warningRun :: "alert_op list" where
  "warningRun = [AFire 1 queueDeep, AFire 2 (newStatus ''b''), AFire 3 queueDeep, AFlush 4,
     AClear 5 ConditionQueueDepth ''tnt_1'' [], AFire 6 queueDeep, AFlush 7]"

theorem warnings_not_lost_witness:
  "let g = foldl alert_step (quietRouter (NewRouter [] 0 0) 0) warningRun
   in ag_digested g = [(newStatus ''b'')\<lparr>al_FiredAt := 2\<rparr>, queueDeep] \<and> ar_pending (ag_router g) = [queueDeep]
    \<and> mset (ar_pending (ag_router g)) + mset (ag_digested g)
        = {#queueDeep, (newStatus ''b'')\<lparr>al_FiredAt := 2\<rparr>, queueDeep#}
    \<and> ar_pending (fst (FlushDigest (2 * hour) (ag_router g))) = []"
proof -
  let ?g = "foldl alert_step (quietRouter (NewRouter [] 0 0) 0) warningRun"
  obtain r' batch err where f: "FlushDigest (2 * hour) (ag_router ?g) = (r', batch, err)" by (metis prod_cases3)
  have run: "ag_digested ?g = [(newStatus ''b'')\<lparr>al_FiredAt := 2\<rparr>, queueDeep] \<and> ar_pending (ag_router ?g) = [queueDeep]
      \<and> ar_lastDigestAt (ag_router ?g) = 4 \<and> ar_digestEvery (ag_router ?g) = hour"
    by code_simp
  have due: "warningsDue (4 * hour) Map.empty warningRun = [queueDeep, (newStatus ''b'')\<lparr>al_FiredAt := 2\<rparr>, queueDeep]"
    by code_simp
  have late: "hour \<le> time_sub (2 * hour) 4" by code_simp
  have m: "mset (ar_pending (ag_router ?g)) + mset (ag_digested ?g) = mset (warningsDue (4 * hour) Map.empty warningRun)"
    and p: "ar_pending r' = []"
    using warnings_not_lost [OF refl f] run late by simp_all
  show ?thesis
    unfolding Let_def using run m [unfolded due] p f by simp
qed

theorem pages_spaced_witness:
  "let g = foldl alert_step (quietRouter (NewRouter deadSinks 0 0) 0)
        [AFire 1 (deadLetters 1), AFire (3 * hour) (deadLetters 1), AFire (5 * hour) (deadLetters 1)]
   in map fst (ag_paged g) = [1, 5 * hour] \<and> 1 + 4 * hour \<le> 5 * hour"
proof -
  let ?xs = "[AFire 1 (deadLetters 1), AFire (3 * hour) (deadLetters 1), AFire (5 * hour) (deadLetters 1)]"
  let ?g = "foldl alert_step (quietRouter (NewRouter deadSinks 0 0) 0) ?xs"
  have paged: "ag_paged ?g = [(1, deadLetters 1), (5 * hour, deadLetters 1)]"
    by (simp add: quietRouter_def alert_step_def Fire_def NewRouter_def deadSinks_def deliverAlerts_def Let_def is_zero_time_def
        zero_time_def second_def minute_def hour_def SeverityPage_def SeverityWarn_def time_sub_def max_int64_def min_int64_def)
  have "legal (uncleared ''dead_letters_growing|tnt_1|dst_1'') alert_step (quietRouter (NewRouter deadSinks 0 0) 0) ?xs" by simp
  from pages_spaced [OF _ this refl, of 0 1] paged show ?thesis by (simp add: Let_def max_int64_def)
qed

end
