(* ===== verification/Silence.thy ===== *)
theory Silence
  imports Assoc Complex_Main "HOL-Library.List_Lexorder" "HOL-Library.Char_ord"
begin

text \<open>
  Silence detection (\<^verbatim>\<open>internal/silence/silence.go\<close>): per endpoint a baseline of hourly counts for each hour of the
  week, at most eight weeks of them, and the judgement of the current hour against the quietest of them. \<open>float64\<close>
  values are rationals; the text of a reason is a constructor with what it mentions.
\<close>

section \<open>Baselines\<close>

definition Buckets :: nat where "Buckets = 7 * 24"
definition MinObservations :: nat where "MinObservations = 3"

record Baseline =
  bl_EndpointID :: string
  bl_Provider :: string
  bl_TenantID :: string
  bl_counts :: "(nat \<times> rat list) list"
  bl_lastSeen :: instant
  bl_total :: int

record Detector =
  sd_baselines :: "(string \<times> Baseline) list"
  sd_sensitivity :: rat
  sd_grace :: duration

definition NewDetector :: "rat \<Rightarrow> duration \<Rightarrow> Detector" where
  "NewDetector sensitivity grace =
     \<lparr>sd_baselines = [], sd_sensitivity = (if sensitivity \<le> 0 then 1 / 4 else sensitivity),
      sd_grace = (if grace \<le> 0 then 7 * 24 * hour else grace)\<rparr>"

text \<open>The hour of the week; 1 January 1970 was a Thursday, and weeks begin on Sunday.\<close>

definition bucketOf :: "instant \<Rightarrow> nat" where
  "bucketOf t =
     (let s = t div second; day = s div 86400 in nat ((day + 4) mod 7) * 24 + nat (s mod 86400 div 3600))"

definition samplesOf :: "nat \<Rightarrow> Baseline \<Rightarrow> rat list" where
  "samplesOf bucket b = (case map_of (bl_counts b) bucket of Some xs \<Rightarrow> xs | None \<Rightarrow> [])"

definition keepEight :: "rat list \<Rightarrow> rat list" where
  "keepEight xs = (if length xs > 8 then drop 1 xs else xs)"

definition recordCount :: "instant \<Rightarrow> int \<Rightarrow> Baseline \<Rightarrow> Baseline" where
  "recordCount hr n b =
     (let bucket = bucketOf hr;
          b = b\<lparr>bl_counts := AList.update bucket (keepEight (samplesOf bucket b @ [rat_of_int n])) (bl_counts b)\<rparr>
      in if n > 0 then b\<lparr>bl_lastSeen := hr, bl_total := wrap64 (bl_total b + n)\<rparr> else b)"

definition Observe :: "string \<Rightarrow> string \<Rightarrow> string \<Rightarrow> instant \<Rightarrow> int \<Rightarrow> Detector \<Rightarrow> Detector" where
  "Observe endpointID tenantID provider hr n d =
     (let b = (case map_of (sd_baselines d) endpointID of
                 Some b \<Rightarrow> b
               | None \<Rightarrow> \<lparr>bl_EndpointID = endpointID, bl_Provider = provider, bl_TenantID = tenantID, bl_counts = [],
                          bl_lastSeen = zero_time, bl_total = 0\<rparr>)
      in d\<lparr>sd_baselines := AList.update endpointID (recordCount hr n b) (sd_baselines d)\<rparr>)"

section \<open>Judgements\<close>

definition quietFloor :: "rat list \<Rightarrow> rat" where
  "quietFloor samples =
     (if length samples = 0 then 0
      else let s = sort samples in if length s \<ge> 5 then s ! 1 else s ! 0)"

datatype silence_reason =
    NoHistory
  | TooYoung duration
  | TooFewObservations nat
  | NormallyQuiet
  | WithinRange
  | GoneQuiet int nat rat

record Verdict =
  vd_EndpointID :: string
  vd_TenantID :: string
  vd_Provider :: string
  vd_Silent :: bool
  vd_Learning :: bool
  vd_Observed :: int
  vd_Expected :: rat
  vd_LastSeen :: instant
  vd_QuietFor :: "duration option"
  vd_Reason :: silence_reason

text \<open>\<open>Duration.Round(time.Minute)\<close>, half away from zero.\<close>

definition roundMinute :: "duration \<Rightarrow> duration" where
  "roundMinute d = sgn d * ((\<bar>d\<bar> + 30 * second) div minute) * minute"

definition Check :: "instant \<Rightarrow> string \<Rightarrow> int \<Rightarrow> instant \<Rightarrow> Detector \<Rightarrow> Verdict" where
  "Check now endpointID observed createdAt d =
     (let v = \<lparr>vd_EndpointID = endpointID, vd_TenantID = [], vd_Provider = [], vd_Silent = False, vd_Learning = False,
               vd_Observed = observed, vd_Expected = 0, vd_LastSeen = zero_time, vd_QuietFor = None, vd_Reason = NoHistory\<rparr>
      in case map_of (sd_baselines d) endpointID of
           None \<Rightarrow> v\<lparr>vd_Learning := True\<rparr>
         | Some b \<Rightarrow>
             let v = v\<lparr>vd_TenantID := bl_TenantID b, vd_Provider := bl_Provider b, vd_LastSeen := bl_lastSeen b\<rparr> in
             if time_sub now createdAt < sd_grace d then v\<lparr>vd_Learning := True, vd_Reason := TooYoung (sd_grace d)\<rparr>
             else
               let samples = samplesOf (bucketOf now) b in
               if length samples < MinObservations
               then v\<lparr>vd_Learning := True, vd_Reason := TooFewObservations (length samples)\<rparr>
               else
                 let quietest = quietFloor samples * sd_sensitivity d; v = v\<lparr>vd_Expected := quietest\<rparr> in
                 if quietest \<le> 0 then v\<lparr>vd_Reason := NormallyQuiet\<rparr>
                 else if rat_of_int observed \<ge> quietest then v\<lparr>vd_Reason := WithinRange\<rparr>
                 else v\<lparr>vd_Silent := True,
                        vd_QuietFor := (if is_zero_time (bl_lastSeen b) then None
                                        else Some (roundMinute (time_sub now (bl_lastSeen b)))),
                        vd_Reason := GoneQuiet observed (length samples) (quietFloor samples)\<rparr>)"

definition CheckAll :: "instant \<Rightarrow> (string \<times> int) list \<Rightarrow> (string \<times> instant) list \<Rightarrow> Detector \<Rightarrow> Verdict list" where
  "CheckAll now observed createdAt d =
     map (\<lambda>i. Check now i (case map_of observed i of Some n \<Rightarrow> n | None \<Rightarrow> 0)
                (case map_of createdAt i of Some t \<Rightarrow> t | None \<Rightarrow> zero_time) d)
       (sort (map fst (sd_baselines d)))"

definition Forget :: "string \<Rightarrow> Detector \<Rightarrow> Detector" where
  "Forget endpointID d = d\<lparr>sd_baselines := AList.delete endpointID (sd_baselines d)\<rparr>"

definition Tracked :: "Detector \<Rightarrow> int" where
  "Tracked d = int (length (sd_baselines d))"

text \<open>\<open>math.Round\<close>, half away from zero; the fraction is not negative.\<close>

definition Confidence :: "string \<Rightarrow> Detector \<Rightarrow> rat" where
  "Confidence endpointID d =
     (case map_of (sd_baselines d) endpointID of
        None \<Rightarrow> 0
      | Some b \<Rightarrow>
          let ready = length (filter (\<lambda>(_, samples). length samples \<ge> MinObservations) (bl_counts b))
          in rat_of_int \<lfloor>rat_of_nat ready / rat_of_nat Buckets * 100 + 1 / 2\<rfloor> / 100)"

section \<open>What is learned\<close>

lemma bucketOf_less: "bucketOf t < Buckets"
proof -
  have "nat ((t div second div 86400 + 4) mod 7) \<le> 6" "nat (t div second mod 86400 div 3600) \<le> 23" by auto
  then show ?thesis unfolding bucketOf_def Buckets_def Let_def by linarith
qed

text \<open>A baseline is the last eight counts of each hour of the week.\<close>

definition lastEight :: "'a list \<Rightarrow> 'a list" where
  "lastEight xs = drop (length xs - 8) xs"

type_synonym observation = "string \<times> instant \<times> int"

definition countsFor :: "string \<Rightarrow> nat \<Rightarrow> observation list \<Rightarrow> rat list" where
  "countsFor endpointID bucket obs =
     map (\<lambda>x. rat_of_int (snd (snd x))) (filter (\<lambda>x. fst x = endpointID \<and> bucketOf (fst (snd x)) = bucket) obs)"

definition observeEach :: "Detector \<Rightarrow> observation list \<Rightarrow> Detector" where
  "observeEach d obs = foldl (\<lambda>d (i, hr, n). Observe i [] [] hr n d) d obs"

definition learned :: "string \<Rightarrow> nat \<Rightarrow> Detector \<Rightarrow> rat list" where
  "learned endpointID bucket d =
     (case map_of (sd_baselines d) endpointID of Some b \<Rightarrow> samplesOf bucket b | None \<Rightarrow> [])"

lemma keepEight_last: "keepEight (lastEight xs @ [x]) = lastEight (xs @ [x])"
proof (cases "length xs \<ge> 8")
  case True
  then have "length xs - 7 = Suc (length xs - 8)" by simp
  with True show ?thesis by (simp add: keepEight_def lastEight_def drop_Suc tl_drop)
qed (simp add: keepEight_def lastEight_def)

lemma samplesOf_record:
  "samplesOf bucket (recordCount hr n b) =
     (if bucketOf hr = bucket then keepEight (samplesOf bucket b @ [rat_of_int n]) else samplesOf bucket b)"
  by (auto simp: samplesOf_def recordCount_def Let_def)

lemma learned_Observe:
  "learned i bucket (Observe j t p hr n d) =
     (if j = i \<and> bucketOf hr = bucket then keepEight (learned i bucket d @ [rat_of_int n]) else learned i bucket d)"
  by (auto simp: learned_def Observe_def Let_def samplesOf_record split: option.splits)
    (simp_all add: samplesOf_def)

lemma Observe_settings [simp]:
  "sd_sensitivity (Observe j t p hr n d) = sd_sensitivity d" "sd_grace (Observe j t p hr n d) = sd_grace d"
  by (simp_all add: Observe_def Let_def)

lemma learned_lastEight: "learned i bucket (observeEach (NewDetector s g) obs) = lastEight (countsFor i bucket obs)"
proof (induction obs rule: rev_induct)
  case Nil
  show ?case by (simp add: learned_def observeEach_def NewDetector_def lastEight_def countsFor_def)
next
  case (snoc x obs)
  obtain j hr n where x: "x = (j, hr, n)" by (cases x)
  have "observeEach (NewDetector s g) (obs @ [x]) = Observe j [] [] hr n (observeEach (NewDetector s g) obs)"
    by (simp add: observeEach_def x)
  moreover have "countsFor i bucket (obs @ [x])
      = countsFor i bucket obs @ (if j = i \<and> bucketOf hr = bucket then [rat_of_int n] else [])"
    by (simp add: countsFor_def x)
  ultimately show ?case using snoc.IH by (simp add: learned_Observe keepEight_last)
qed

lemma countsFor_outside: "\<not> bucket < Buckets \<Longrightarrow> countsFor i bucket obs = []"
  using bucketOf_less by (auto simp: countsFor_def filter_empty_conv)

text \<open>
  C31: The baseline of an endpoint is the last eight counts reported for each hour of the week, in order, and nothing
  else: counts of other endpoints and other hours do not mix in, and at most 168 times 8 numbers are kept.
\<close>

theorem baseline_is_last_eight:
  "learned i bucket (observeEach (NewDetector s g) obs) = lastEight (countsFor i bucket obs)
   \<and> length (learned i bucket (observeEach (NewDetector s g) obs)) \<le> 8
   \<and> {b. learned i b (observeEach (NewDetector s g) obs) \<noteq> []} \<subseteq> {..<Buckets}"
proof -
  have "learned i b (observeEach (NewDetector s g) obs) = []" if "\<not> b < Buckets" for b
    by (simp add: learned_lastEight countsFor_outside [OF that] lastEight_def)
  then have "{b. learned i b (observeEach (NewDetector s g) obs) \<noteq> []} \<subseteq> {..<Buckets}" by blast
  then show ?thesis by (simp add: learned_lastEight lastEight_def)
qed

section \<open>When an endpoint is called silent\<close>

lemma sorted_take_le:
  fixes x :: rat
  assumes "sorted s" "k < length s" "x < s ! k"
  shows "length (filter (\<lambda>y. y \<le> x) s) \<le> k"
proof -
  have "x < y" if "y \<in> set (drop k s)" for y
  proof -
    from that obtain i where "i < length s - k" "y = s ! (k + i)" by (auto simp: in_set_conv_nth)
    then have "s ! k \<le> y" using sorted_nth_mono [OF assms(1), of k "k + i"] by simp
    with assms(3) show ?thesis by simp
  qed
  then have "filter (\<lambda>y. y \<le> x) (drop k s) = []" by (auto simp: filter_empty_conv not_le)
  moreover have "filter (\<lambda>y. y \<le> x) s = filter (\<lambda>y. y \<le> x) (take k s) @ filter (\<lambda>y. y \<le> x) (drop k s)"
    by (metis append_take_drop_id filter_append)
  ultimately show ?thesis using length_filter_le [of "\<lambda>y. y \<le> x" "take k s"] by simp
qed

lemma filter_sort_length: "length (filter P (sort xs)) = length (filter P (xs :: rat list))"
  by (metis filter_sort length_sort)

lemma quietFloor_beats:
  assumes "samples \<noteq> []" "x < quietFloor samples"
  shows "length (filter (\<lambda>y. y \<le> x) samples) \<le> (if length samples \<ge> 5 then 1 else 0)"
proof -
  define k :: nat where "k = (if length samples \<ge> 5 then 1 else 0)"
  have "k < length (sort samples)" "x < sort samples ! k"
    using assms by (auto simp: k_def quietFloor_def Let_def split: if_splits)
  from sorted_take_le [OF sorted_sort this] show ?thesis unfolding filter_sort_length k_def .
qed

text \<open>
  An endpoint is called silent only when it is. The verdict needs a baseline of at least three weeks for this hour
  and an endpoint past its grace period, and the hour is then quieter than every week on record, or than all but one
  of them when there are five or more.
\<close>

theorem silent_is_quietest:
  assumes "vd_Silent (Check now i observed created d)" and "0 \<le> sd_sensitivity d" "sd_sensitivity d \<le> 1"
  shows "MinObservations \<le> length (learned i (bucketOf now) d) \<and> \<not> time_sub now created < sd_grace d
    \<and> length (filter (\<lambda>n. n \<le> rat_of_int observed) (learned i (bucketOf now) d))
        \<le> (if length (learned i (bucketOf now) d) \<ge> 5 then 1 else 0)"
proof -
  obtain b where b: "map_of (sd_baselines d) i = Some b"
    using assms(1) by (auto simp: Check_def Let_def split: option.splits)
  let ?s = "samplesOf (bucketOf now) b"
  have s: "learned i (bucketOf now) d = ?s" by (simp add: learned_def b)
  have c: "MinObservations \<le> length ?s" "\<not> time_sub now created < sd_grace d" "0 < quietFloor ?s * sd_sensitivity d"
    "rat_of_int observed < quietFloor ?s * sd_sensitivity d"
    using assms(1) by (auto simp: Check_def Let_def b split: if_splits)
  have "0 < quietFloor ?s" using c(3) assms(2) by (metis mult_nonpos_nonneg not_le)
  then have "quietFloor ?s * sd_sensitivity d \<le> quietFloor ?s" using assms(3) by simp
  with c(4) have "rat_of_int observed < quietFloor ?s" by simp
  moreover have "?s \<noteq> []" using c(1) by (auto simp: MinObservations_def)
  ultimately show ?thesis using quietFloor_beats [of ?s "rat_of_int observed"] c(1,2) by (simp add: s)
qed

text \<open>
  An outage that lasts becomes normal. Once two weeks of an hour are recorded without events the hour is never
  again called silent while they are kept, however busy the other weeks were: a provider that stays away is
  reported for two weeks at most.
\<close>

theorem outage_becomes_normal:
  assumes "length (filter (\<lambda>n. n \<le> 0) (learned i (bucketOf now) d)) \<ge> 2" and "0 \<le> sd_sensitivity d"
  shows "\<not> vd_Silent (Check now i observed created d)"
proof (cases "map_of (sd_baselines d) i")
  case None
  then show ?thesis by (simp add: Check_def)
next
  case (Some b)
  let ?s = "samplesOf (bucketOf now) b"
  have two: "length (filter (\<lambda>n. n \<le> 0) ?s) \<ge> 2" using assms(1) by (simp add: learned_def Some)
  then have "?s \<noteq> []" by auto
  with two have "\<not> 0 < quietFloor ?s" using quietFloor_beats [of ?s 0] by (auto split: if_splits)
  then have "quietFloor ?s * sd_sensitivity d \<le> 0" using assms(2) by (simp add: mult_nonpos_nonneg)
  then show ?thesis by (simp add: Check_def Some Let_def)
qed

section \<open>A sample endpoint\<close>

definition busyWeeks :: "observation list" where
  "busyWeeks = [(''ep_1'', 0, 400), (''ep_1'', 168 * hour, 380), (''ep_1'', 336 * hour, 410)]"

definition watched :: Detector where
  "watched = observeEach (NewDetector 0 0) busyWeeks"

lemma watched_learned:
  "learned ''ep_1'' (bucketOf (504 * hour)) watched = [400, 380, 410]" "sd_sensitivity watched = 1 / 4"
  by (simp_all add: watched_def busyWeeks_def learned_lastEight observeEach_def NewDetector_def Observe_def learned_def samplesOf_def
      recordCount_def keepEight_def bucketOf_def hour_def minute_def second_def Let_def)

lemma watched_silent: "vd_Silent (Check (504 * hour) ''ep_1'' 3 0 watched)"
  by (simp add: Check_def watched_def busyWeeks_def observeEach_def NewDetector_def Observe_def samplesOf_def recordCount_def
      keepEight_def bucketOf_def hour_def minute_def second_def Let_def time_sub_def max_int64_def min_int64_def
      MinObservations_def quietFloor_def)

theorem silent_is_quietest_witness:
  "vd_Silent (Check (504 * hour) ''ep_1'' 3 0 watched)
   \<and> length (filter (\<lambda>n. n \<le> 3) (learned ''ep_1'' (bucketOf (504 * hour)) watched)) = 0"
  using silent_is_quietest [OF watched_silent] watched_silent by (simp add: watched_learned)

theorem outage_becomes_normal_witness:
  "let d = observeEach (NewDetector 0 0) (busyWeeks @ [(''ep_1'', 504 * hour, 0), (''ep_1'', 672 * hour, 0)])
   in \<not> vd_Silent (Check (840 * hour) ''ep_1'' 0 0 d)"
  unfolding Let_def
  by (rule outage_becomes_normal)
    (simp_all add: busyWeeks_def observeEach_def NewDetector_def Observe_def learned_def samplesOf_def
      recordCount_def keepEight_def bucketOf_def hour_def minute_def second_def Let_def)

end
