(* ===== verification/Server_Config.thy ===== *)
theory Server_Config
  imports JsonPath Complex_Main
begin

text \<open>
  Regions (\<^verbatim>\<open>internal/region/region.go\<close>) and the configuration of a process (\<^verbatim>\<open>internal/server/config.go\<close>, with the
  flags of \<^verbatim>\<open>cmd/statushub/main.go\<close>). The process environment is an association list; \<open>time.ParseDuration\<close> and
  \<open>strconv.ParseFloat\<close> are parameters, \<open>float64\<close> values are rationals, and an error is a constructor in place of its
  sentence.
\<close>

definition millisecond :: duration where "millisecond = 1000000"

section \<open>Regions\<close>

type_synonym RegionRole = string

definition Primary :: RegionRole where "Primary = ''primary''"
definition Edge :: RegionRole where "Edge = ''edge''"

definition RoleValid :: "RegionRole \<Rightarrow> bool" where
  "RoleValid r \<longleftrightarrow> r = Primary \<or> r = Edge"

definition RoleRunsDispatcher :: "RegionRole \<Rightarrow> bool" where
  "RoleRunsDispatcher r \<longleftrightarrow> r = Primary"

record RegionConfig =
  rg_Name :: string
  rg_Role :: RegionRole
  rg_WriteBudget :: duration

definition DefaultWriteBudget :: duration where "DefaultWriteBudget = 25 * millisecond"
definition DefaultEdgeWriteBudget :: duration where "DefaultEdgeWriteBudget = 120 * millisecond"

datatype settings_error =
    RegionNameMissing
  | RegionRoleUnknown RegionRole
  | RegionMustNotDispatch string RegionRole
  | ModeUnknown string
  | DatabaseURLMissing
  | MemoryStoreLive
  | StoreUnknown string
  | PrivateDestinationsLive
  | BaseURLPlaintext
  | SaltMasterMissing
  | ShardsOutOfRange int
  | ShutdownGraceNotPositive

definition RegionValidate :: "RegionConfig \<Rightarrow> settings_error option" where
  "RegionValidate c =
     (if TrimSpace (rg_Name c) = [] then Some RegionNameMissing
      else if \<not> RoleValid (rg_Role c) then Some (RegionRoleUnknown (rg_Role c))
      else None)"

definition Budget :: "RegionConfig \<Rightarrow> duration" where
  "Budget c =
     (if rg_WriteBudget c > 0 then rg_WriteBudget c
      else if rg_Role c = Edge then DefaultEdgeWriteBudget
      else DefaultWriteBudget)"

definition GuardDispatcher :: "RegionConfig \<Rightarrow> settings_error option" where
  "GuardDispatcher c =
     (if RoleRunsDispatcher (rg_Role c) then None else Some (RegionMustNotDispatch (rg_Name c) (rg_Role c)))"

text \<open>
  What an operator reads before a promotion. \<open>ReplicaOf\<close> is \<open>CheckReplica\<close> on the values its queries return; the lag
  arrives in seconds, a clock skew counts as none, and the conversion truncates.
\<close>

record ReplicaState =
  rs_IsReplica :: bool
  rs_Lag :: duration
  rs_LastReplayed :: instant
  rs_Receiving :: bool

definition ReplicaOf :: "bool \<Rightarrow> rat \<Rightarrow> instant \<Rightarrow> bool \<Rightarrow> ReplicaState" where
  "ReplicaOf isReplica lagSeconds lastReplayed receiving =
     (if \<not> isReplica then \<lparr>rs_IsReplica = False, rs_Lag = 0, rs_LastReplayed = zero_time, rs_Receiving = False\<rparr>
      else \<lparr>rs_IsReplica = True, rs_Lag = \<lfloor>(if lagSeconds < 0 then 0 else lagSeconds) * rat_of_int second\<rfloor>,
            rs_LastReplayed = lastReplayed, rs_Receiving = receiving\<rparr>)"

text \<open>\<open>Duration.Round\<close>, half away from zero, for lags that a rounding does not push past 64 bits.\<close>

definition roundTo :: "duration \<Rightarrow> duration \<Rightarrow> duration" where
  "roundTo m d = sgn d * ((2 * \<bar>d\<bar> + m) div (2 * m)) * m"

datatype assessment =
    NotAReplica
  | StreamDisconnected
  | EventsLost duration
  | WindowLost duration
  | SafeIfGone duration

definition Assessment :: "ReplicaState \<Rightarrow> assessment" where
  "Assessment s =
     (if \<not> rs_IsReplica s then NotAReplica
      else if \<not> rs_Receiving s then StreamDisconnected
      else if rs_Lag s > 5 * minute then EventsLost (roundTo second (rs_Lag s))
      else if rs_Lag s > 30 * second then WindowLost (roundTo second (rs_Lag s))
      else SafeIfGone (roundTo millisecond (rs_Lag s)))"

section \<open>Modes\<close>

type_synonym Mode = string

definition ModeReceiver :: Mode where "ModeReceiver = ''receiver''"
definition ModeDispatcher :: Mode where "ModeDispatcher = ''dispatcher''"
definition ModeAPI :: Mode where "ModeAPI = ''api''"
definition ModeAll :: Mode where "ModeAll = ''all''"

definition ModeValid :: "Mode \<Rightarrow> bool" where
  "ModeValid m \<longleftrightarrow> m \<in> {ModeReceiver, ModeDispatcher, ModeAPI, ModeAll}"

definition RunsReceiver :: "Mode \<Rightarrow> bool" where
  "RunsReceiver m \<longleftrightarrow> m = ModeReceiver \<or> m = ModeAll"

definition RunsDispatcher :: "Mode \<Rightarrow> bool" where
  "RunsDispatcher m \<longleftrightarrow> m = ModeDispatcher \<or> m = ModeAll"

definition RunsAPI :: "Mode \<Rightarrow> bool" where
  "RunsAPI m \<longleftrightarrow> m = ModeAPI \<or> m = ModeAll"

definition RunsNormaliser :: "Mode \<Rightarrow> bool" where
  "RunsNormaliser m \<longleftrightarrow> RunsDispatcher m"

section \<open>The configuration\<close>

record ServerConfig =
  sc_Mode :: Mode
  sc_DatabaseURL :: string
  sc_StoreKind :: string
  sc_Environment :: string
  sc_Region :: string
  sc_RegionRole :: string
  sc_DBWriteBudget :: duration
  sc_ListenAddr :: string
  sc_APIListenAddr :: string
  sc_BaseURL :: string
  sc_Shards :: int
  sc_TrustProxyHeaders :: bool
  sc_ReceivePerSecond :: rat
  sc_ReceiveBurst :: rat
  sc_SecretBackend :: string
  sc_TenantSaltMaster :: string
  sc_BlockedCIDRs :: "string list"
  sc_AllowPrivateDestinations :: bool
  sc_NormaliseInterval :: duration
  sc_DispatchInterval :: duration
  sc_DeliveryLease :: duration
  sc_ShutdownGrace :: duration
  sc_LogFormat :: string
  sc_LogLevel :: string

definition Defaults :: ServerConfig where
  "Defaults =
     \<lparr>sc_Mode = ModeAll, sc_DatabaseURL = [], sc_StoreKind = ''postgres'', sc_Environment = ''test'', sc_Region = [],
      sc_RegionRole = Primary, sc_DBWriteBudget = 0, sc_ListenAddr = '':8080'', sc_APIListenAddr = '':8081'',
      sc_BaseURL = ''http://localhost:8080'', sc_Shards = 64, sc_TrustProxyHeaders = False, sc_ReceivePerSecond = 0,
      sc_ReceiveBurst = 0, sc_SecretBackend = ''env'', sc_TenantSaltMaster = [], sc_BlockedCIDRs = [],
      sc_AllowPrivateDestinations = False, sc_NormaliseInterval = 2 * second, sc_DispatchInterval = second,
      sc_DeliveryLease = 2 * minute, sc_ShutdownGrace = 30 * second, sc_LogFormat = ''json'', sc_LogLevel = ''info''\<rparr>"

record EnvLib =
  vl_duration :: "string \<Rightarrow> duration option"
  vl_float :: "string \<Rightarrow> rat option"

type_synonym environ = "(string \<times> string) list"

definition lookupVar :: "environ \<Rightarrow> string \<Rightarrow> string option" where
  "lookupVar env name = map_of env (''STATUSHUB_'' @ name)"

definition envString :: "environ \<Rightarrow> string \<Rightarrow> string \<Rightarrow> string" where
  "envString env name dst =
     (case lookupVar env name of Some v \<Rightarrow> if v \<noteq> [] then v else dst | None \<Rightarrow> dst)"

definition envBool :: "environ \<Rightarrow> string \<Rightarrow> bool \<Rightarrow> bool" where
  "envBool env name dst =
     (case lookupVar env name of
        Some v \<Rightarrow> (case ParseBool v of Some b \<Rightarrow> b | None \<Rightarrow> dst)
      | None \<Rightarrow> dst)"

definition envDuration :: "EnvLib \<Rightarrow> environ \<Rightarrow> string \<Rightarrow> duration \<Rightarrow> duration" where
  "envDuration V env name dst =
     (case lookupVar env name of
        Some v \<Rightarrow> (case vl_duration V v of Some d \<Rightarrow> d | None \<Rightarrow> dst)
      | None \<Rightarrow> dst)"

definition envRate :: "EnvLib \<Rightarrow> environ \<Rightarrow> string \<Rightarrow> rat \<Rightarrow> rat" where
  "envRate V env name dst =
     (case lookupVar env name of
        None \<Rightarrow> dst
      | Some v \<Rightarrow>
          if v = [] then dst
          else (case vl_float V v of Some f \<Rightarrow> if f > 0 then f else dst | None \<Rightarrow> dst))"

definition envShards :: "environ \<Rightarrow> int \<Rightarrow> int" where
  "envShards env dst =
     (case lookupVar env ''SHARDS'' of
        None \<Rightarrow> dst
      | Some v \<Rightarrow>
          if v = [] then dst
          else (case ParseInt v of Some n \<Rightarrow> if n > 0 then n else dst | None \<Rightarrow> dst))"

definition envCIDRs :: "environ \<Rightarrow> string list" where
  "envCIDRs env =
     (case lookupVar env ''BLOCKED_CIDRS'' of
        None \<Rightarrow> []
      | Some v \<Rightarrow> if v = [] then [] else filter (\<lambda>p. p \<noteq> []) (map TrimSpace (Split v CHR '','')))"

definition FromEnv :: "EnvLib \<Rightarrow> environ \<Rightarrow> ServerConfig" where
  "FromEnv V env =
     (let c = Defaults; mode = envString env ''MODE'' [] in
      c\<lparr>sc_Mode := (if mode \<noteq> [] then mode else sc_Mode c),
        sc_DatabaseURL := envString env ''DATABASE_URL'' (sc_DatabaseURL c),
        sc_StoreKind := envString env ''STORE'' (sc_StoreKind c),
        sc_Environment := envString env ''ENVIRONMENT'' (sc_Environment c),
        sc_Region := envString env ''REGION'' (sc_Region c),
        sc_RegionRole := envString env ''REGION_ROLE'' (sc_RegionRole c),
        sc_ListenAddr := envString env ''LISTEN_ADDR'' (sc_ListenAddr c),
        sc_APIListenAddr := envString env ''API_LISTEN_ADDR'' (sc_APIListenAddr c),
        sc_BaseURL := envString env ''BASE_URL'' (sc_BaseURL c),
        sc_SecretBackend := envString env ''SECRET_BACKEND'' (sc_SecretBackend c),
        sc_TenantSaltMaster := envString env ''TENANT_SALT_MASTER'' (sc_TenantSaltMaster c),
        sc_LogFormat := envString env ''LOG_FORMAT'' (sc_LogFormat c),
        sc_LogLevel := envString env ''LOG_LEVEL'' (sc_LogLevel c),
        sc_TrustProxyHeaders := envBool env ''TRUST_PROXY_HEADERS'' (sc_TrustProxyHeaders c),
        sc_AllowPrivateDestinations := envBool env ''ALLOW_PRIVATE_DESTINATIONS'' (sc_AllowPrivateDestinations c),
        sc_NormaliseInterval := envDuration V env ''NORMALISE_INTERVAL'' (sc_NormaliseInterval c),
        sc_DispatchInterval := envDuration V env ''DISPATCH_INTERVAL'' (sc_DispatchInterval c),
        sc_DeliveryLease := envDuration V env ''DELIVERY_LEASE'' (sc_DeliveryLease c),
        sc_ShutdownGrace := envDuration V env ''SHUTDOWN_GRACE'' (sc_ShutdownGrace c),
        sc_DBWriteBudget := envDuration V env ''DB_WRITE_BUDGET'' (sc_DBWriteBudget c),
        sc_ReceivePerSecond := envRate V env ''RECEIVE_PER_SECOND'' (sc_ReceivePerSecond c),
        sc_ReceiveBurst := envRate V env ''RECEIVE_BURST'' (sc_ReceiveBurst c),
        sc_Shards := envShards env (sc_Shards c),
        sc_BlockedCIDRs := sc_BlockedCIDRs c @ envCIDRs env\<rparr>)"

text \<open>The flags of \<open>statushub serve\<close>; an absent flag keeps what the environment says.\<close>

record ServeFlags =
  fl_mode :: "string option"
  fl_listen :: "string option"
  fl_apiListen :: "string option"
  fl_store :: "string option"
  fl_baseURL :: "string option"

definition serveConfig :: "EnvLib \<Rightarrow> environ \<Rightarrow> ServeFlags \<Rightarrow> ServerConfig" where
  "serveConfig V env fl =
     (let cfg = FromEnv V env; flag = \<lambda>f d. (case f of Some v \<Rightarrow> v | None \<Rightarrow> d) in
      cfg\<lparr>sc_Mode := flag (fl_mode fl) (sc_Mode cfg),
          sc_ListenAddr := flag (fl_listen fl) (sc_ListenAddr cfg),
          sc_APIListenAddr := flag (fl_apiListen fl) (sc_APIListenAddr cfg),
          sc_StoreKind := flag (fl_store fl) (sc_StoreKind cfg),
          sc_BaseURL := flag (fl_baseURL fl) (sc_BaseURL cfg)\<rparr>)"

definition RegionConfigOf :: "ServerConfig \<Rightarrow> RegionConfig" where
  "RegionConfigOf c =
     \<lparr>rg_Name = (if sc_Region c = [] then ''default'' else sc_Region c),
      rg_Role = sc_RegionRole c,
      rg_WriteBudget = sc_DBWriteBudget c\<rparr>"

definition liveConfig :: "ServerConfig \<Rightarrow> bool" where
  "liveConfig c \<longleftrightarrow> sc_Environment c = ''live'' \<or> sc_Environment c = ''production''"

definition storeCheck :: "ServerConfig \<Rightarrow> settings_error option" where
  "storeCheck c =
     (if sc_StoreKind c = ''postgres'' then (if sc_DatabaseURL c = [] then Some DatabaseURLMissing else None)
      else if sc_StoreKind c = ''memory'' then (if liveConfig c then Some MemoryStoreLive else None)
      else Some (StoreUnknown (sc_StoreKind c)))"

definition regionCheck :: "ServerConfig \<Rightarrow> settings_error option" where
  "regionCheck c =
     (let rc = RegionConfigOf c in
      case (if sc_Region c \<noteq> [] then RegionValidate rc else None) of
        Some err \<Rightarrow> Some err
      | None \<Rightarrow> if RunsDispatcher (sc_Mode c) then GuardDispatcher rc else None)"

definition ConfigValidate :: "ServerConfig \<Rightarrow> settings_error option" where
  "ConfigValidate c =
     (if \<not> ModeValid (sc_Mode c) then Some (ModeUnknown (sc_Mode c))
      else case storeCheck c of
        Some err \<Rightarrow> Some err
      | None \<Rightarrow>
          if sc_AllowPrivateDestinations c \<and> liveConfig c then Some PrivateDestinationsLive
          else if liveConfig c \<and> starts_with ''http://'' (sc_BaseURL c) then Some BaseURLPlaintext
          else if liveConfig c \<and> sc_TenantSaltMaster c = [] then Some SaltMasterMissing
          else (case regionCheck c of
            Some err \<Rightarrow> Some err
          | None \<Rightarrow>
              if sc_Shards c \<le> 0 \<or> sc_Shards c > 4096 then Some (ShardsOutOfRange (sc_Shards c))
              else if sc_ShutdownGrace c \<le> 0 then Some ShutdownGraceNotPositive
              else None))"

end
