(* ===== verification/Server.thy ===== *)
theory Server
  imports Server_Config Secrets Guard Receive Manage_Config Tunnel
begin

text \<open>
  What a process is made of (\<^verbatim>\<open>internal/server/server.go\<close>): \<open>ServerNew\<close> builds the components the mode asks for,
  sharing one store, one registry, one resolver and one guard, and \<open>RunThreads\<close> is what \<open>Run\<close> starts. The database
  is a parameter: whether it can be reached, the migrations it lacks, and the content it has kept, which is a value of
  the in-memory store, whose contract the Postgres store implements.
\<close>

section \<open>The store and the parts\<close>

datatype server_error =
    ServerConfigBad settings_error
  | ServerStore string
  | ServerMigrations "string list"
  | ServerSecrets secret_error
  | ServerGuard guard_error
  | ServerAdapters string

record Backend =
  bk_connect :: "string \<Rightarrow> string option"
  bk_pending :: "string + string list"
  bk_tenants :: "string option"
  bk_mem :: Memory
  bk_keys :: KeyStore

record Opened =
  op_postgres :: bool
  op_mem :: Memory
  op_keys :: KeyStore

definition openStore :: "Backend \<Rightarrow> ServerConfig \<Rightarrow> server_error + Opened" where
  "openStore B cfg =
     (if sc_StoreKind cfg = ''memory'' then Inr \<lparr>op_postgres = False, op_mem = NewMemory, op_keys = NewKeyStore\<rparr>
      else case bk_connect B (sc_DatabaseURL cfg) of
        Some err \<Rightarrow> Inl (ServerStore err)
      | None \<Rightarrow>
          (case bk_pending B of
             Inl err \<Rightarrow> Inl (ServerStore err)
           | Inr missing \<Rightarrow>
               if length missing > 0 then Inl (ServerMigrations missing)
               else Inr \<lparr>op_postgres = True, op_mem = bk_mem B, op_keys = bk_keys B\<rparr>))"

record DispatchPart =
  dp_dispatcher :: Dispatcher
  dp_shards :: int
  dp_interval :: duration
  dp_lease :: duration

record NormalisePart =
  np_enqueuer :: bool
  np_interval :: duration

record ReceivePart =
  rp_addr :: string
  rp_receiver :: Receiver
  rp_trustProxy :: bool
  rp_region :: string
  rp_budget :: duration

record ApiPart =
  ap_addr :: string
  ap_api :: Api
  ap_dispatcher :: bool
  ap_baseURL :: string

record Server =
  sv_cfg :: ServerConfig
  sv_postgres :: bool
  sv_store :: Memory
  sv_keys :: KeyStore
  sv_registry :: Registry
  sv_secrets :: resolver
  sv_secretTTL :: duration
  sv_tunnel :: Tunnel.Hub
  sv_guard :: Guard
  sv_dispatcher :: "DispatchPart option"
  sv_normaliser :: "NormalisePart option"
  sv_receiver :: "ReceivePart option"
  sv_api :: "ApiPart option"

text \<open>\<open>dispatch.New\<close> (with the guard it is given, so that it cannot fail) and the two \<open>NewWorker\<close>.\<close>

definition newDispatchPart :: "ServerConfig \<Rightarrow> Memory \<Rightarrow> DispatchPart" where
  "newDispatchPart cfg m =
     \<lparr>dp_dispatcher = \<lparr>ds_store = m, ds_breaker = NewBreaker 0 0 0\<rparr>,
      dp_shards = (if sc_Shards cfg \<le> 0 then DefaultShards else sc_Shards cfg),
      dp_interval = (if sc_DispatchInterval cfg \<le> 0 then second else sc_DispatchInterval cfg),
      dp_lease = (if sc_DeliveryLease cfg \<le> 0 then 2 * minute else sc_DeliveryLease cfg)\<rparr>"

definition newNormalisePart :: "ServerConfig \<Rightarrow> DispatchPart option \<Rightarrow> NormalisePart" where
  "newNormalisePart cfg d =
     \<lparr>np_enqueuer = (d \<noteq> None),
      np_interval = (if sc_NormaliseInterval cfg \<le> 0 then 2 * second else sc_NormaliseInterval cfg)\<rparr>"

definition newReceivePart :: "ServerConfig \<Rightarrow> Memory \<Rightarrow> NormalisePart option \<Rightarrow> ReceivePart" where
  "newReceivePart cfg m n =
     (let rc = RegionConfigOf cfg in
      \<lparr>rp_addr = sc_ListenAddr cfg,
       rp_receiver = NewReceiver m (case n of None \<Rightarrow> None | Some _ \<Rightarrow> Some (NewNormWorker 0))
                       (sc_ReceivePerSecond cfg) (sc_ReceiveBurst cfg) 0,
       rp_trustProxy = sc_TrustProxyHeaders cfg, rp_region = rg_Name rc, rp_budget = Budget rc\<rparr>)"

text \<open>\<open>api.New\<close> is given no adapter store, so it makes an empty one.\<close>

definition newApiPart ::
    "AdapterLib \<Rightarrow> ServerConfig \<Rightarrow> Memory \<Rightarrow> KeyStore \<Rightarrow> Registry \<Rightarrow> DispatchPart option \<Rightarrow> ApiPart" where
  "newApiPart L cfg m keys reg d =
     \<lparr>ap_addr = (if sc_Mode cfg = ModeAPI then sc_ListenAddr cfg else sc_APIListenAddr cfg),
      ap_api = \<lparr>api_disp = (case d of None \<Rightarrow> \<lparr>ds_store = m, ds_breaker = NewBreaker 0 0 0\<rparr> | Some p \<Rightarrow> dp_dispatcher p),
                api_keys = keys, api_adapters = [],
                api_registry = LoadTenantAdapters L m [] reg\<rparr>,
      ap_dispatcher = (d \<noteq> None), ap_baseURL = sc_BaseURL cfg\<rparr>"

section \<open>Building and running a process\<close>

definition buildServer ::
    "AdapterLib \<Rightarrow> ServerConfig \<Rightarrow> Opened \<Rightarrow> resolver \<Rightarrow> Guard \<Rightarrow> Server" where
  "buildServer L cfg st secrets guard =
     (let m = op_mem st; mode = sc_Mode cfg;
          d = (if RunsDispatcher mode then Some (newDispatchPart cfg m) else None);
          n = (if RunsNormaliser mode then Some (newNormalisePart cfg d) else None);
          r = (if RunsReceiver mode then Some (newReceivePart cfg m n) else None);
          a = (if RunsAPI mode then Some (newApiPart L cfg m (op_keys st) (NewRegistry L) d) else None)
      in \<lparr>sv_cfg = cfg, sv_postgres = op_postgres st, sv_store = m, sv_keys = op_keys st,
          sv_registry = (case a of None \<Rightarrow> NewRegistry L | Some p \<Rightarrow> api_registry (ap_api p)),
          sv_secrets = secrets, sv_secretTTL = cacheTTL (30 * second), sv_tunnel = NewHub 0 0, sv_guard = guard,
          sv_dispatcher = d, sv_normaliser = n, sv_receiver = r, sv_api = a\<rparr>)"

definition ServerNew ::
    "AdapterLib \<Rightarrow> SaltLib \<Rightarrow> NetLib \<Rightarrow> environ \<Rightarrow> Backend \<Rightarrow> ServerConfig \<Rightarrow> server_error + Server" where
  "ServerNew L S N env B cfg =
     (case ConfigValidate cfg of
        Some err \<Rightarrow> Inl (ServerConfigBad err)
      | None \<Rightarrow>
      (case openStore B cfg of
        Inl err \<Rightarrow> Inl err
      | Inr st \<Rightarrow>
      (case openSecrets S env (sc_TenantSaltMaster cfg) of
        Inl err \<Rightarrow> Inl (ServerSecrets err)
      | Inr secrets \<Rightarrow>
      (case NewGuard N (sc_BlockedCIDRs cfg) (sc_AllowPrivateDestinations cfg) of
        Inl err \<Rightarrow> Inl (ServerGuard err)
      | Inr guard \<Rightarrow>
          if RunsAPI (sc_Mode cfg) \<and> op_postgres st \<and> bk_tenants B \<noteq> None
          then Inl (ServerAdapters (the (bk_tenants B)))
          else Inr (buildServer L cfg st secrets guard)))))"

datatype thread =
    ReceiverLoop string
  | ApiLoop string
  | NormaliserLoop duration
  | DispatcherLoop duration int
  | ReclaimLoop duration

text \<open>
  \<open>reclaimLoop\<close> works on a Postgres store only; its ticker panics on an interval that is not positive (\<open>None\<close>), and a
  panic in a goroutine ends the process.
\<close>

definition reclaimThread :: "Server \<Rightarrow> thread list option" where
  "reclaimThread s =
     (if sv_dispatcher s = None \<or> \<not> sv_postgres s then Some []
      else let interval = go_quot (sc_DeliveryLease (sv_cfg s)) 2 in
        if interval \<le> 0 then None else Some [ReclaimLoop interval])"

definition RunThreads :: "Server \<Rightarrow> thread list option" where
  "RunThreads s =
     map_option (\<lambda>reclaim.
       (case sv_receiver s of None \<Rightarrow> [] | Some r \<Rightarrow> [ReceiverLoop (rp_addr r)])
       @ (case sv_api s of None \<Rightarrow> [] | Some a \<Rightarrow> [ApiLoop (ap_addr a)])
       @ (case sv_normaliser s of None \<Rightarrow> [] | Some n \<Rightarrow> [NormaliserLoop (np_interval n)])
       @ (case sv_dispatcher s of None \<Rightarrow> [] | Some d \<Rightarrow> [DispatcherLoop (dp_interval d) (dp_shards d)])
       @ reclaim) (reclaimThread s)"

text \<open>\<open>Run\<close> after its context is cancelled: servers first, then the workers, then the store.\<close>

datatype shutdown_step = ShutReceiver | ShutAPI | StopNormaliser | StopDispatcher | CloseStore

definition ShutdownSteps :: "Server \<Rightarrow> shutdown_step list" where
  "ShutdownSteps s =
     (if sv_receiver s \<noteq> None then [ShutReceiver] else [])
     @ (if sv_api s \<noteq> None then [ShutAPI] else [])
     @ (if sv_normaliser s \<noteq> None then [StopNormaliser] else [])
     @ (if sv_dispatcher s \<noteq> None then [StopDispatcher] else [])
     @ [CloseStore]"

end
