(* ===== verification/Server_Spec.thy ===== *)
theory Server_Spec
  imports Server Receive_Spec Manage_Adapters Guard
begin

text \<open>
  What a configuration that starts guarantees, and what it does not: a live process keeps the outbound guard shut, its
  events durable and its customers pseudonymous; dispatchers stay in one region; the adapters tenants uploaded are gone
  after a restart; and a lease that passes validation can end the process.
\<close>

section \<open>A process that started\<close>

lemma ServerNew_Inr:
  assumes "ServerNew L S N env B cfg = Inr s"
  obtains st secrets guard where "ConfigValidate cfg = None" "openStore B cfg = Inr st"
    "openSecrets S env (sc_TenantSaltMaster cfg) = Inr secrets"
    "NewGuard N (sc_BlockedCIDRs cfg) (sc_AllowPrivateDestinations cfg) = Inr guard"
    "s = buildServer L cfg st secrets guard"
  using assms by (auto simp: ServerNew_def split: option.splits sum.splits if_splits)

lemma buildServer_fields:
  "sv_cfg (buildServer L cfg st sec g) = cfg" "sv_postgres (buildServer L cfg st sec g) = op_postgres st"
  "sv_guard (buildServer L cfg st sec g) = g" "sv_secrets (buildServer L cfg st sec g) = sec"
  "sv_store (buildServer L cfg st sec g) = op_mem st"
  "sv_dispatcher (buildServer L cfg st sec g) = None \<longleftrightarrow> \<not> RunsDispatcher (sc_Mode cfg)"
  by (simp_all add: buildServer_def Let_def)

lemma ConfigValidate_None:
  assumes "ConfigValidate cfg = None"
  shows "ModeValid (sc_Mode cfg)" "storeCheck cfg = None" "regionCheck cfg = None"
    "liveConfig cfg \<Longrightarrow> \<not> sc_AllowPrivateDestinations cfg"
    "liveConfig cfg \<Longrightarrow> \<not> starts_with ''http://'' (sc_BaseURL cfg)"
    "liveConfig cfg \<Longrightarrow> sc_TenantSaltMaster cfg \<noteq> []"
  using assms unfolding ConfigValidate_def by (auto split: option.splits if_splits)

lemma live_store:
  assumes "storeCheck cfg = None" "liveConfig cfg"
  shows "sc_StoreKind cfg = ''postgres''"
  using assms by (simp add: storeCheck_def split: if_splits)

lemma openStore_postgres:
  assumes "openStore B cfg = Inr st" "sc_StoreKind cfg = ''postgres''"
  shows "op_postgres st" "op_mem st = bk_mem B" "op_keys st = bk_keys B"
  using assms by (auto simp: openStore_def split: option.splits sum.splits if_splits)

lemma NewGuard_Inr:
  assumes "NewGuard N cidrs private = Inr g"
  shows "gd_allowPrivate g = private" "parseCIDRs N cidrs = Inr (gd_extraBlocked g)"
  using assms by (auto simp: NewGuard_def split: sum.splits)

lemma cutScheme_salt: "cutScheme (''tenant-salt://'' @ t) = Some ''tenant-salt''"
  by simp

lemma openSecrets_salt:
  assumes "openSecrets S env master = Inr r" "master \<noteq> []" "tenant \<noteq> []"
    and "\<And>key info. sl_hkdf S key info 32 \<noteq> None"
  shows "\<exists>salt. r (saltRef tenant) = Inr [salt]"
proof -
  from assms(1,2) obtain key where r: "r = MultiResolveAll (AList.update ''tenant-salt'' (TenantSaltResolveAll S key)
      [(''env'', EnvResolveAll env), (''static'', StaticResolveAll [])])"
    by (auto simp: openSecrets_def Let_def split: sum.splits)
  obtain salt where "sl_hkdf S key (saltInfo tenant) 32 = Some salt" using assms(4) by blast
  with assms(3) have "TenantSaltResolveAll S key (saltRef tenant) = Inr [sl_encode S salt]"
    by (simp add: TenantSaltResolveAll_def TenantSaltResolve_def saltRef_def)
  then show ?thesis
    by (simp add: r MultiResolveAll_def pickResolver_def saltRef_def)
qed

text \<open>
  C33: A live process that started is safe to expose. Its store survives a restart, its receiver addresses are not
  plaintext, it can never be made to connect to a reserved or blocked address whatever its configuration says and
  whatever a resolver answers, and it has a pseudonymisation salt for every tenant, so no customer reference is dropped
  for want of one.
\<close>

theorem live_process_is_safe:
  assumes "ServerNew L S N env B cfg = Inr s" and "liveConfig cfg"
    and "\<And>key info. sl_hkdf S key info 32 \<noteq> None"
    and "\<And>host as b. gn_lookup G host = Inr as \<Longrightarrow> b \<in> set as \<Longrightarrow> zoneOf b = []"
    and "DialContext G (sv_guard s) address = Inr a" and "tenant \<noteq> []"
  shows "sv_postgres s \<and> sv_store s = bk_mem B \<and> \<not> starts_with ''http://'' (sc_BaseURL (sv_cfg s))
    \<and> \<not> reserved (Unmap a) \<and> (\<exists>salt. sv_secrets s (saltRef tenant) = Inr [salt])"
proof -
  from assms(1) obtain st secrets guard where v: "ConfigValidate cfg = None" and st: "openStore B cfg = Inr st"
    and sec: "openSecrets S env (sc_TenantSaltMaster cfg) = Inr secrets"
    and g: "NewGuard N (sc_BlockedCIDRs cfg) (sc_AllowPrivateDestinations cfg) = Inr guard"
    and s: "s = buildServer L cfg st secrets guard" by (rule ServerNew_Inr)
  note live = ConfigValidate_None [OF v]
  have "sc_StoreKind cfg = ''postgres''" using live_store [OF live(2) assms(2)] .
  note opened = openStore_postgres [OF st this]
  have "\<not> gd_allowPrivate guard" using NewGuard_Inr(1) [OF g] live(4) [OF assms(2)] by simp
  moreover have "DialContext G guard address = Inr a" using assms(5) by (simp add: s buildServer_fields)
  ultimately have "\<not> reserved (Unmap a)" using DialContext_safe assms(4) by blast
  moreover have "\<exists>salt. secrets (saltRef tenant) = Inr [salt]"
    using openSecrets_salt [OF sec live(6) [OF assms(2)] assms(6)] assms(3) by blast
  ultimately show ?thesis using opened live(5) [OF assms(2)] by (simp add: s buildServer_fields)
qed

text \<open>
  Dispatchers stay in one region. If no two regions of a deployment are configured as primary, then any two of its
  processes that started and dispatch or normalise are in the same region, and that region is the primary one, so the
  claims that keep deliveries in order are all made against the same rows.
\<close>

theorem one_dispatching_region:
  assumes "\<forall>c\<in>set fleet. \<forall>d\<in>set fleet. sc_RegionRole c = Primary \<and> sc_RegionRole d = Primary \<longrightarrow> sc_Region c = sc_Region d"
    and "c \<in> set fleet" "d \<in> set fleet"
    and "ServerNew L S N env B c = Inr s" "ServerNew L' S' N' env' B' d = Inr t"
    and "sv_dispatcher s \<noteq> None \<or> sv_normaliser s \<noteq> None" "sv_dispatcher t \<noteq> None \<or> sv_normaliser t \<noteq> None"
  shows "sc_Region c = sc_Region d \<and> rg_Role (RegionConfigOf c) = Primary"
proof -
  have primary: "sc_RegionRole cfg = Primary"
    if "ServerNew L S N env B cfg = Inr s" "sv_dispatcher s \<noteq> None \<or> sv_normaliser s \<noteq> None" for L S N env B cfg s
    using that(1)
  proof (rule ServerNew_Inr)
    fix st secrets guard
    assume v: "ConfigValidate cfg = None" and s: "s = buildServer L cfg st secrets guard"
    have "RunsDispatcher (sc_Mode cfg)"
      using that(2) by (auto simp: s buildServer_def RunsNormaliser_def Let_def split: if_splits)
    with ConfigValidate_None(3) [OF v] show ?thesis
      by (auto simp: regionCheck_def GuardDispatcher_def RoleRunsDispatcher_def RegionConfigOf_def Let_def
          split: option.splits if_splits)
  qed
  from primary [OF assms(4,6)] primary [OF assms(5,7)] assms(1-3) have "sc_Region c = sc_Region d" by blast
  with primary [OF assms(4,6)] show ?thesis by (simp only: RegionConfigOf_def RegionConfig.simps)
qed

section \<open>After a restart\<close>

lemma ListAdapters_empty: "ListAdapters [] t = []"
  by (simp add: ListAdapters_def tenantConfigs_def lookupOr_def)

lemma loadTenants_empty: "loadTenants L [] ts r = r"
  by (induction ts arbitrary: r) (simp_all add: ListAdapters_empty)

lemma restarted_registry:
  assumes "ServerNew L S N env B cfg = Inr s"
  shows "sv_registry s = NewRegistry L"
  using assms
  by (rule ServerNew_Inr) (simp add: buildServer_def newApiPart_def LoadTenantAdapters_def loadTenants_empty Let_def)

text \<open>
  C34: A restart forgets the adapters tenants uploaded. Whatever the management API did before, an endpoint whose
  adapter is an uploaded one was served by the registry then, is still in the database after the restart, and is
  never answered with an acceptance again: the process makes an empty adapter store and loads that.
\<close>

theorem restart_forgets_adapters:
  assumes "adapters_inv L (reg_builtin (NewRegistry L)) api" and "bk_mem B = api_mem api"
    and "e \<in> snd ` set (mem_endpoints (api_mem api))" and "\<not> IsBuiltIn (api_registry api) (ep_AdapterName e)"
    and "ServerNew L S N env B cfg = Inr s" and "sc_StoreKind cfg = ''postgres''"
    and "re_registry E = sv_registry s" and "admitted req r e tenant body"
    and "handleWebhook E ck i req r = (r', answer)"
  shows "GetAdapter (api_registry api) (ep_TenantID e) (ep_AdapterName e) \<noteq> None
    \<and> e \<in> snd ` set (mem_endpoints (sv_store s)) \<and> an_status answer \<noteq> 200"
proof -
  from assms(1) have served: "GetAdapter (api_registry api) (ep_TenantID e) (ep_AdapterName e) \<noteq> None"
    and b: "reg_builtin (api_registry api) = reg_builtin (NewRegistry L)"
    using assms(3) unfolding adapters_inv_def by blast+
  have kept: "sv_store s = api_mem api" using assms(5)
  proof (rule ServerNew_Inr)
    fix st secrets guard
    assume "openStore B cfg = Inr st" "s = buildServer L cfg st secrets guard"
    with openStore_postgres [of B cfg st] assms(2,6) show ?thesis by (simp add: buildServer_fields)
  qed
  have "GetAdapter (sv_registry s) t (ep_AdapterName e) = None" for t
    using assms(4) b unfolding restarted_registry [OF assms(5)]
    by (simp add: IsBuiltIn_def GetAdapter_def) (simp add: NewRegistry_def declaredFor_def)
  then have none: "GetAdapter (re_registry E) (ep_TenantID e) (ep_AdapterName e) = None" using assms(7) by simp
  have "an_status answer \<noteq> 200"
  proof
    assume "an_status answer = 200"
    with handleWebhook_outcome [OF assms(9)] have "received E ck i req r r' True" by auto
    then obtain ep tenant body where "admitted req r ep tenant body"
      and v: "raw_SignatureValid (rawEvent E ck i tenant ep req body)" by (auto simp: received_def)
    with assms(8) have "ep = e" by (simp add: admitted_def)
    with v none show False by (auto simp: rawEvent_def verifyRequest_def Let_def)
  qed
  with served kept assms(3) show ?thesis by simp
qed

section \<open>A lease that ends the process\<close>

text \<open>
  A configuration that passes validation can end the process as soon as it runs. Every process that dispatches
  from Postgres panics in its reclaiming loop exactly when the configured lease is below two nanoseconds, which
  \<open>ConfigValidate\<close> does not look at, although the dispatcher's own worker falls back to two minutes; in every other
  case all its loops start.
\<close>

theorem short_lease_panics:
  assumes "ServerNew L S N env B cfg = Inr s"
  shows "RunThreads s = None \<longleftrightarrow> RunsDispatcher (sc_Mode cfg) \<and> sc_StoreKind cfg = ''postgres'' \<and> sc_DeliveryLease cfg < 2"
  using assms
proof (rule ServerNew_Inr)
  fix st secrets guard
  assume v: "ConfigValidate cfg = None" and st: "openStore B cfg = Inr st" and s: "s = buildServer L cfg st secrets guard"
  have "sc_StoreKind cfg = ''postgres'' \<or> sc_StoreKind cfg = ''memory''"
    using ConfigValidate_None(2) [OF v] by (simp add: storeCheck_def split: if_splits)
  then have "op_postgres st \<longleftrightarrow> sc_StoreKind cfg = ''postgres''"
    using openStore_postgres(1) [OF st] st by (auto simp: openStore_def)
  moreover have "go_quot lease 2 \<le> 0 \<longleftrightarrow> lease < 2" for lease :: int
    by (auto simp: go_quot_def sgn_if)
  ultimately show ?thesis by (auto simp: RunThreads_def reclaimThread_def s buildServer_fields Let_def)
qed

section \<open>Sample processes\<close>

definition sampleSalts :: SaltLib where
  "sampleSalts = \<lparr>sl_decode = (\<lambda>_. Some (replicate 32 CHR ''k'')), sl_encode = id, sl_hkdf = (\<lambda>_ info _. Some info)\<rparr>"

definition sampleBackend :: "Memory \<Rightarrow> Backend" where
  "sampleBackend m = \<lparr>bk_connect = (\<lambda>_. None), bk_pending = Inr [], bk_tenants = None, bk_mem = m, bk_keys = NewKeyStore\<rparr>"

definition sampleConfig :: ServerConfig where
  "sampleConfig = Defaults\<lparr>sc_DatabaseURL := ''db'', sc_Environment := ''live'', sc_BaseURL := ''https://h'', sc_TenantSaltMaster := ''m''\<rparr>"

definition sampleServer :: "Memory \<Rightarrow> ServerConfig \<Rightarrow> Server" where
  "sampleServer m cfg = projr (ServerNew (docLib []) sampleSalts noNet [] (sampleBackend m) cfg)"

lemma sampleConfig_valid:
  "ConfigValidate (sampleConfig\<lparr>sc_DeliveryLease := lease\<rparr>) = None" "ConfigValidate sampleConfig = None"
  by (simp_all add: ConfigValidate_def sampleConfig_def Defaults_def ModeValid_def storeCheck_def regionCheck_def
      RegionConfigOf_def GuardDispatcher_def RoleRunsDispatcher_def liveConfig_def second_def)

lemma sampleServer_started:
  assumes "ConfigValidate cfg = None" "sc_StoreKind cfg = ''postgres''" "sc_BlockedCIDRs cfg = []"
  shows "ServerNew (docLib []) sampleSalts noNet [] (sampleBackend m) cfg = Inr (sampleServer m cfg)"
  using assms
  by (simp add: sampleServer_def ServerNew_def openStore_def sampleBackend_def openSecrets_def NewTenantSalt_def
      sampleSalts_def NewGuard_def Let_def)

lemma sampleConfig_simps:
  "sc_StoreKind sampleConfig = ''postgres''" "sc_BlockedCIDRs sampleConfig = []" "sc_Mode sampleConfig = ModeAll"
  "sc_RegionRole sampleConfig = Primary" "liveConfig sampleConfig" "sc_AllowPrivateDestinations sampleConfig = False"
  by (simp_all add: sampleConfig_def Defaults_def liveConfig_def)

lemma sample_started: "ServerNew (docLib []) sampleSalts noNet [] (sampleBackend m) sampleConfig = Inr (sampleServer m sampleConfig)"
  by (rule sampleServer_started) (simp_all add: sampleConfig_valid sampleConfig_simps)

lemma sample_guard: "sv_guard (sampleServer m sampleConfig) = \<lparr>gd_extraBlocked = [], gd_allowPrivate = False\<rparr>"
  using sample_started
proof (rule ServerNew_Inr)
  fix st secrets guard
  assume "NewGuard noNet (sc_BlockedCIDRs sampleConfig) (sc_AllowPrivateDestinations sampleConfig) = Inr guard"
    "sampleServer m sampleConfig = buildServer (docLib []) sampleConfig st secrets guard"
  then show ?thesis by (simp add: NewGuard_def sampleConfig_simps buildServer_fields)
qed

lemma sample_dispatches: "sv_dispatcher (sampleServer m sampleConfig) \<noteq> None"
  using sample_started [of m]
proof (rule ServerNew_Inr)
  fix st secrets guard
  assume s: "sampleServer m sampleConfig = buildServer (docLib []) sampleConfig st secrets guard"
  show ?thesis unfolding s buildServer_fields by (simp add: sampleConfig_simps RunsDispatcher_def)
qed

theorem live_process_is_safe_witness:
  "sv_postgres (sampleServer NewMemory sampleConfig) \<and> \<not> reserved (Unmap (Addr4 0x08080808))
   \<and> (\<exists>salt. sv_secrets (sampleServer NewMemory sampleConfig) (saltRef ''t'') = Inr [salt])"
proof -
  let ?G = "sampleGuardNet [Addr4 0x08080808]"
  have "DialContext ?G (sv_guard (sampleServer NewMemory sampleConfig)) ''h'' = Inr (Addr4 0x08080808)"
    unfolding sample_guard
    using CheckAddr_reserved [of "\<lparr>gd_extraBlocked = [], gd_allowPrivate = False\<rparr>" "Addr4 0x08080808" "gn_net ?G"]
    by (simp add: DialContext_def sampleGuardNet_def noNet_def within_def reserved4_def quad_def)
  moreover have "gn_lookup ?G host = Inr as \<Longrightarrow> b \<in> set as \<Longrightarrow> zoneOf b = []" for host as b
    by (auto simp: sampleGuardNet_def)
  moreover have "sl_hkdf sampleSalts key info 32 \<noteq> None" for key info by (simp add: sampleSalts_def)
  ultimately show ?thesis
    using live_process_is_safe [OF sample_started [of NewMemory] sampleConfig_simps(5), of ?G "''h''" _ "''t''"] by blast
qed

theorem one_dispatching_region_witness:
  "sc_Region sampleConfig = sc_Region sampleConfig \<and> rg_Role (RegionConfigOf sampleConfig) = Primary"
  by (rule one_dispatching_region [where fleet = "[sampleConfig, sampleConfig\<lparr>sc_Region := ''eu'', sc_RegionRole := Edge\<rparr>]",
        OF _ _ _ sample_started sample_started])
    (auto simp: Primary_def Edge_def sample_dispatches)

theorem short_lease_panics_witness:
  "RunThreads (sampleServer NewMemory (sampleConfig\<lparr>sc_DeliveryLease := 0\<rparr>)) = None
   \<and> RunThreads (sampleServer NewMemory sampleConfig) \<noteq> None"
proof -
  have "ServerNew (docLib []) sampleSalts noNet [] (sampleBackend NewMemory) (sampleConfig\<lparr>sc_DeliveryLease := 0\<rparr>)
      = Inr (sampleServer NewMemory (sampleConfig\<lparr>sc_DeliveryLease := 0\<rparr>))"
    by (rule sampleServer_started) (simp_all add: sampleConfig_valid sampleConfig_simps)
  from short_lease_panics [OF this] short_lease_panics [OF sample_started [of NewMemory]] show ?thesis
    by (simp add: sampleConfig_simps RunsDispatcher_def) (simp add: sampleConfig_def Defaults_def minute_def second_def)
qed

definition acmeEndpoint :: Endpoint where
  "acmeEndpoint = sampleEndpoint\<lparr>ep_TenantID := ''ten_1'', ep_AdapterName := ''acme-pay''\<rparr>"

definition acmeReceiver :: Receiver where
  "acmeReceiver = NewReceiver (NewMemory\<lparr>mem_tenantBySlug := [(''acme'', ''ten_1'')], mem_endpoints := [(''ep_1'', acmeEndpoint)]\<rparr>)
     None 0 0 0"

lemma acme_admitted: "admitted (sampleWebhook []) acmeReceiver acmeEndpoint zeroTenant ''b''"
  by (simp add: admitted_def acmeReceiver_def acmeEndpoint_def NewReceiver_def sampleWebhook_def readBody_def MaxBodyBytes_def
      ResolveReceiver_def lookupOr_def sampleEndpoint_def EnvLive_def NewMemory_def)

theorem restart_forgets_adapters_witness:
  "GetAdapter (api_registry acmeAPI) ''ten_1'' ''acme-pay'' \<noteq> None
   \<and> an_status (snd (handleWebhook (sampleReceive\<lparr>re_registry := sv_registry (sampleServer (api_mem acmeAPI) sampleConfig)\<rparr>)
       sampleClock ''sh_1'' (sampleWebhook []) acmeReceiver)) \<noteq> 200"
proof -
  let ?E = "sampleReceive\<lparr>re_registry := sv_registry (sampleServer (api_mem acmeAPI) sampleConfig)\<rparr>"
  let ?run = "handleWebhook ?E sampleClock ''sh_1'' (sampleWebhook []) acmeReceiver"
  have inv: "adapters_inv (docLib []) (reg_builtin (NewRegistry (docLib []))) acmeAPI"
    using acme_inv by (simp add: bareEnv_def)
  have mem: "acmeEndpoint \<in> snd ` set (mem_endpoints (api_mem acmeAPI))"
    by (simp add: acmeAPI_def sampleApi_def acmeEndpoint_def)
  have "reg_builtin (api_registry acmeAPI) = reg_builtin (NewRegistry (docLib []))"
    using inv by (simp add: adapters_inv_def)
  then have own: "\<not> IsBuiltIn (api_registry acmeAPI) (ep_AdapterName acmeEndpoint)"
    by (simp add: IsBuiltIn_def acmeEndpoint_def NewRegistry_def builtins_def paystack_def flutterwave_def nibss_def
        monnify_def interswitch_def stripe_def)
  have run: "?run = (fst ?run, snd ?run)" by simp
  have "bk_mem (sampleBackend (api_mem acmeAPI)) = api_mem acmeAPI" by (simp add: sampleBackend_def)
  from restart_forgets_adapters [OF inv this mem own sample_started sampleConfig_simps(1) _ acme_admitted run]
  show ?thesis by (simp add: acmeEndpoint_def)
qed

end
