(* ===== verification/Simulate.thy ===== *)
theory Simulate
  imports Adapter_Spec "HOL-Library.List_Lexorder" "HOL-Library.Char_ord"
begin

text \<open>
  The simulator (\<^verbatim>\<open>internal/simulate/simulate.go\<close>): the sample corpus, making a sample's timestamps current, signing it
  the way each provider does, sending it, and explaining the answer. The embedded files, the JSON encoder and decoder of
  package json (whose numbers are \<open>float64\<close>), the time formatter and the HTTP client are parameters.
\<close>

section \<open>The corpus\<close>

record Sample =
  sm_Provider :: string
  sm_Name :: string
  sm_Body :: string

type_synonym corpus = "(string \<times> (string \<times> string) list) list"

datatype simulate_error =
    NoSamples string
  | NoSuchSample string string "string list"
  | NoScheme string
  | SampleNotJSON
  | SampleLacks string
  | SendFailed string

definition trimJSON :: "string \<Rightarrow> string" where
  "trimJSON name = (if HasSuffix name ''.json'' then take (length name - 5) name else name)"

definition sampleLess :: "Sample list \<Rightarrow> Sample list" where
  "sampleLess ss = sort_key sm_Provider (sort_key sm_Name ss)"

definition ListSamples :: "corpus \<Rightarrow> string \<Rightarrow> simulate_error + Sample list" where
  "ListSamples c provider =
     (let found = concat (map (\<lambda>(dir, files).
                    if provider \<noteq> [] \<and> dir \<noteq> provider then []
                    else map (\<lambda>(f, body). \<lparr>sm_Provider = dir, sm_Name = trimJSON f, sm_Body = body\<rparr>) files) c)
      in if length found = 0 then Inl (NoSamples provider) else Inr (sampleLess found))"

definition GetSample :: "corpus \<Rightarrow> string \<Rightarrow> string \<Rightarrow> simulate_error + Sample" where
  "GetSample c provider name =
     (case ListSamples c provider of
        Inl err \<Rightarrow> Inl err
      | Inr ss \<Rightarrow>
          (case filter (\<lambda>s. sm_Name s = name) ss of
             s # _ \<Rightarrow> Inr s
           | [] \<Rightarrow> Inl (NoSuchSample name provider (map sm_Name ss))))"

section \<open>Freshening\<close>

record FreshLib =
  fr_unmarshal :: "string \<Rightarrow> json option"
  fr_marshal :: "json \<Rightarrow> string option"
  fr_float :: "int \<Rightarrow> string"
  fr_format :: "string \<Rightarrow> instant \<Rightarrow> string"

definition timeFields :: "string list" where
  "timeFields = [''paid_at'', ''paidat'', ''created_at'', ''createdat'', ''updated_at'', ''transactiondatetime'',
     ''transactiondate'', ''paidon'', ''created'', ''timestamp'', ''date'']"

fun rewriteOne :: "FreshLib \<Rightarrow> instant \<Rightarrow> json \<Rightarrow> json" where
  "rewriteOne F now (JNumber _) = JNumber (fr_float F (Unix now))"
| "rewriteOne F now (JString t) =
     (if CHR ''T'' \<in> set t \<and> HasSuffix t ''Z'' then JString (fr_format F ''2006-01-02T15:04:05.000Z'' now)
      else if CHR ''T'' \<in> set t then JString (fr_format F ''2006-01-02T15:04:05'' now)
      else if CHR ''.'' \<in> set t then JString (fr_format F ''2006-01-02 15:04:05.000'' now)
      else if CHR '':'' \<in> set t then JString (fr_format F ''2006-01-02 15:04:05'' now)
      else JString t)"
| "rewriteOne F now v = v"

fun rewriteTimes :: "FreshLib \<Rightarrow> instant \<Rightarrow> nat \<Rightarrow> json \<Rightarrow> json"
  and rewriteFields :: "FreshLib \<Rightarrow> instant \<Rightarrow> nat \<Rightarrow> (string \<times> json) list \<Rightarrow> (string \<times> json) list"
  and rewriteItems :: "FreshLib \<Rightarrow> instant \<Rightarrow> nat \<Rightarrow> json list \<Rightarrow> json list" where
  "rewriteTimes F now depth (JObject t) = (if depth > 8 then JObject t else JObject (rewriteFields F now depth t))"
| "rewriteTimes F now depth (JArray t) = (if depth > 8 then JArray t else JArray (rewriteItems F now depth t))"
| "rewriteTimes F now depth v = v"
| "rewriteFields F now depth [] = []"
| "rewriteFields F now depth ((k, child) # t) =
     (k, if ToLower k \<in> set timeFields then rewriteOne F now child else rewriteTimes F now (Suc depth) child)
     # rewriteFields F now depth t"
| "rewriteItems F now depth [] = []"
| "rewriteItems F now depth (child # t) = rewriteTimes F now (Suc depth) child # rewriteItems F now depth t"

definition Freshen :: "FreshLib \<Rightarrow> Sample \<Rightarrow> instant \<Rightarrow> string" where
  "Freshen F s now =
     (case fr_unmarshal F (sm_Body s) of
        None \<Rightarrow> sm_Body s
      | Some doc \<Rightarrow> (case fr_marshal F (rewriteTimes F now 0 doc) of None \<Rightarrow> sm_Body s | Some out \<Rightarrow> out))"

section \<open>Signing and sending\<close>

fun concatPaths :: "json \<Rightarrow> string list \<Rightarrow> simulate_error + string" where
  "concatPaths doc [] = Inr []"
| "concatPaths doc (p # paths) =
     (case strAt doc p of
        Inl _ \<Rightarrow> Inl (SampleLacks p)
      | Inr s \<Rightarrow> (case concatPaths doc paths of Inl err \<Rightarrow> Inl err | Inr rest \<Rightarrow> Inr (s @ rest)))"

definition concatSigned :: "AdapterLib \<Rightarrow> string \<Rightarrow> string list \<Rightarrow> simulate_error + string" where
  "concatSigned L body paths =
     (case al_decode L body of Inl _ \<Rightarrow> Inl SampleNotJSON | Inr doc \<Rightarrow> concatPaths doc paths)"

definition SimulateSign ::
    "AdapterLib \<Rightarrow> string \<Rightarrow> string \<Rightarrow> string \<Rightarrow> instant \<Rightarrow> simulate_error + (string \<times> string) list" where
  "SimulateSign L provider body secret now =
     (if provider = ''paystack'' then Inr [(''x-paystack-signature'', ProviderSign L SHA512 Hex secret body)]
      else if provider = ''flutterwave'' then Inr [(''verif-hash'', secret)]
      else if provider = ''monnify'' then Inr [(''monnify-signature'', ProviderSign L SHA512 Hex secret body)]
      else if provider = ''nibss'' then
        (case concatSigned L body [''$.sessionId'', ''$.paymentReference'', ''$.amount''] of
           Inl err \<Rightarrow> Inl err
         | Inr payload \<Rightarrow> Inr [(''x-nibss-signature'', ProviderSign L SHA256 Hex secret payload)])
      else if provider = ''interswitch'' then
        (case concatSigned L body [''$.transaction.transactionRef'', ''$.transaction.amount'', ''$.transaction.responseCode''] of
           Inl err \<Rightarrow> Inl err
         | Inr payload \<Rightarrow> Inr [(''x-interswitch-signature'', ProviderSign L SHA256 Base64 secret payload)])
      else if provider = ''stripe'' then
        (let ts = Unix now; signed = FormatInt ts @ ''.'' @ body
         in Inr [(''stripe-signature'', ''t='' @ FormatInt ts @ '',v1='' @ ProviderSign L SHA256 Hex secret signed)])
      else Inl (NoScheme provider))"

datatype explanation =
    AcceptedAndStored
  | VerificationFailed
  | NoEndpointMatched
  | PayloadTooLarge
  | NotStored
  | UnexpectedResponse

definition Explain :: "int \<Rightarrow> explanation" where
  "Explain status =
     (if status \<ge> 200 \<and> status < 300 then AcceptedAndStored
      else if status = 401 then VerificationFailed
      else if status = 404 then NoEndpointMatched
      else if status = 413 then PayloadTooLarge
      else if status \<ge> 500 then NotStored
      else UnexpectedResponse)"

record SimResult =
  sr_Provider :: string
  sr_Sample :: string
  sr_URL :: string
  sr_StatusCode :: int
  sr_Body :: string

definition simulatedHeaders :: "(string \<times> string) list \<Rightarrow> headers" where
  "simulatedHeaders hs =
     (''Content-Type'', [''application/json'']) # (''User-Agent'', [''StatusHub-Simulator/1.0''])
     # map (\<lambda>(k, v). (k, [v])) hs"

definition SendSample ::
    "AdapterLib \<Rightarrow> FreshLib \<Rightarrow> (string \<Rightarrow> headers \<Rightarrow> string \<Rightarrow> string + int \<times> string) \<Rightarrow> string \<Rightarrow> Sample \<Rightarrow> string \<Rightarrow> instant
     \<Rightarrow> simulate_error + SimResult" where
  "SendSample L F client url s secret now =
     (let body = Freshen F s now in
      case SimulateSign L (sm_Provider s) body secret now of
        Inl err \<Rightarrow> Inl err
      | Inr hs \<Rightarrow>
          (case client url (simulatedHeaders hs) body of
             Inl err \<Rightarrow> Inl (SendFailed err)
           | Inr (status, text) \<Rightarrow>
               Inr \<lparr>sr_Provider = sm_Provider s, sr_Sample = sm_Name s, sr_URL = url, sr_StatusCode = status,
                    sr_Body = TrimSpace (take 4096 text)\<rparr>))"

section \<open>What the simulator signs, the adapters accept\<close>

lemma concatPaths_signed:
  assumes "concatPaths doc (map fst fs) = Inr payload"
  shows "signedFields doc fs = Inr payload"
  using assms
  by (induction fs arbitrary: payload) (auto split: sum.splits)

lemma concatSigned_Inr:
  assumes "concatSigned L body (map fst fs) = Inr payload"
  obtains doc where "al_decode L body = Inr doc" "signedFields doc fs = Inr payload"
  using assms concatPaths_signed by (auto simp: concatSigned_def split: sum.splits)

lemma hexEncode_empty: "hexEncode s = [] \<longleftrightarrow> s = []"
  by (cases s) (simp_all add: hexEncode_def hexByte_def)

lemma VerifyHMAC_own_hex:
  assumes "al_hmac L alg secret payload \<noteq> []"
  shows "VerifyHMAC L alg Hex secret payload (ProviderSign L alg Hex secret payload) = None"
  using assms by (simp add: VerifyHMAC_hex ProviderSign_def hexEncode_empty)

lemma VerifyHMAC_own_base64:
  assumes "ProviderSign L alg Base64 secret payload \<noteq> []"
  shows "VerifyHMAC L alg Base64 secret payload (ProviderSign L alg Base64 secret payload) = None"
  using assms by (simp add: VerifyHMAC_def Equal_def split: option.splits)

definition signatureHeaders :: "string list" where
  "signatureHeaders = [''x-paystack-signature'', ''verif-hash'', ''monnify-signature'', ''x-nibss-signature'',
     ''x-interswitch-signature'', ''stripe-signature'']"

lemma signatureHeaders_own:
  assumes "k \<in> set signatureHeaders"
  shows "\<not> EqualFold ''Content-Type'' k" "\<not> EqualFold ''User-Agent'' k"
proof -
  have "list_all (\<lambda>k. \<not> EqualFold ''Content-Type'' k \<and> \<not> EqualFold ''User-Agent'' k) signatureHeaders" by code_simp
  then show "\<not> EqualFold ''Content-Type'' k" "\<not> EqualFold ''User-Agent'' k"
    using assms unfolding list_all_iff by blast+
qed

lemma FirstHeader_simulated:
  assumes "TrimSpace v = v" "v \<noteq> []" "k \<in> set signatureHeaders"
  shows "FirstHeader (simulatedHeaders [(k, v)]) (k # ks) = v"
  using assms(1,2) signatureHeaders_own [OF assms(3)] by (simp add: simulatedHeaders_def EqualFold_def)

lemma stripe_elements:
  assumes "int64_range n" "sig \<noteq> []" "TrimSpace sig = sig" "CHR '','' \<notin> set sig" "visible (hd sig)" "visible (last sig)"
  shows "stripeElements L (Split (''t='' @ FormatInt n @ '',v1='' @ sig) CHR '','') ts sigs = Inr (fromUnix n, sigs @ [sig])"
proof -
  have comma: "CHR '','' \<notin> set (''t='' @ FormatInt n)" using FormatInt_chars [of "CHR '',''" n] by (auto simp: is_digit_def)
  have split: "Split ((''t='' @ FormatInt n) @ CHR '','' # (''v1='' @ sig)) CHR '','' = [''t='' @ FormatInt n, ''v1='' @ sig]"
    unfolding Split_found [OF comma] using assms(4) by (simp add: Split_absent)
  have digit: "visible (last (FormatInt n))"
    using FormatInt_chars [of "last (FormatInt n)" n] visible_digit by (auto simp: visible_def [of "CHR ''-''"])
  have t: "TrimSpace (''t='' @ FormatInt n) = ''t='' @ FormatInt n"
    by (rule TrimSpace_visible) (simp add: digit, simp add: visible_def)
  have v: "TrimSpace (''v1='' @ sig) = ''v1='' @ sig"
    by (rule TrimSpace_visible) (simp add: assms(2,6), simp add: visible_def)
  have "Cut (''t='' @ FormatInt n) CHR ''='' = (''t'', FormatInt n, True)"
    "Cut (''v1='' @ sig) CHR ''='' = (''v1'', sig, True)" by simp_all
  with split t v assms(1,2) show ?thesis by simp
qed

lemma hex_sig:
  assumes "mac \<noteq> []"
  shows "hexEncode mac \<noteq> []" "TrimSpace (hexEncode mac) = hexEncode mac" "CHR '','' \<notin> set (hexEncode mac)"
    "visible (hd (hexEncode mac))" "visible (last (hexEncode mac))"
proof -
  show ne: "hexEncode mac \<noteq> []" using assms by (simp add: hexEncode_empty)
  show "TrimSpace (hexEncode mac) = hexEncode mac" by (rule TrimSpace_hex)
  show "CHR '','' \<notin> set (hexEncode mac)" using hexEncode_chars by fastforce
  show "visible (hd (hexEncode mac))" "visible (last (hexEncode mac))"
    using ne hexEncode_chars hex_visible by (meson hd_in_set last_in_set)+
qed

lemma simulated_stripe:
  assumes "\<And>alg p. al_hmac L alg secret p \<noteq> []" and "0 \<le> sent" "sent \<le> now" "now - sent \<le> 4 * minute" "now < 2 ^ 63"
    and "v = ''t='' @ FormatInt (Unix sent) @ '',v1='' @ ProviderSign L SHA256 Hex secret (FormatInt (Unix sent) @ ''.'' @ body)"
  shows "stripeVerify L now (simulatedHeaders [(''stripe-signature'', v)]) body secret = None"
proof -
  let ?ts = "Unix sent" and ?mac = "al_hmac L SHA256 secret (FormatInt (Unix sent) @ ''.'' @ body)"
  have v: "v = ''t='' @ FormatInt ?ts @ '',v1='' @ hexEncode ?mac" by (simp add: assms(6) ProviderSign_def)
  note sig = hex_sig [OF assms(1), of SHA256 "FormatInt ?ts @ ''.'' @ body"]
  have ts: "0 \<le> ?ts" "?ts * second \<le> sent" "sent < ?ts * second + second" "?ts < 2 ^ 34"
    using assms(2-5) by (auto simp: Unix_def second_def)
  then have range: "int64_range ?ts" by (simp add: int64_range_def min_int64_def max_int64_def)
  have at: "fromUnix ?ts = ?ts * second"
    using ts by (simp add: fromUnix_def wrap64_id int64_range_def min_int64_def max_int64_def)
  have "TrimSpace v = v"
    unfolding v using sig(1,5) by (intro TrimSpace_visible) (simp add: visible_def)
  then have first: "FirstHeader (simulatedHeaders [(''stripe-signature'', v)]) [''stripe-signature''] = v"
    by (rule FirstHeader_simulated) (simp_all add: v signatureHeaders_def)
  have "stripeElements L (Split v CHR '','') zero_time [] = Inr (fromUnix ?ts, [hexEncode ?mac])"
    unfolding v using stripe_elements [OF range sig, of L zero_time "[]"] by simp
  moreover have "\<not> is_zero_time (?ts * second)" using ts(1) by (simp add: is_zero_time_def zero_time_def second_def)
  ultimately have header: "stripeHeader L v = Inr (?ts * second, [hexEncode ?mac])" by (simp add: stripeHeader_def at)
  have "time_sub now (?ts * second) = now - ?ts * second"
    using ts assms(3-5) by (intro time_sub_exact) (simp add: int64_range_def min_int64_def max_int64_def second_def)
  then have window: "CheckTimestamp L (?ts * second) now DefaultTimestampTolerance = None"
    using ts assms(3-4) by (simp add: CheckTimestamp_def DefaultTimestampTolerance_def minute_def second_def)
  have "Unix (?ts * second) = ?ts" by (simp add: Unix_def second_def)
  moreover have "Equal L (hexEncode ?mac) (hexEncode ?mac) Hex" by (simp add: Equal_hex)
  ultimately show ?thesis
    using first header window by (simp add: stripeVerify_def ProviderSign_def signedBytes_def v)
qed

lemma simulated_fields:
  assumes "concatSigned L body (map fst fs) = Inr payload"
  shows "\<exists>doc. al_decode L body = Inr doc \<and> signedFields doc fs = Inr payload"
  using concatSigned_Inr [OF assms] by metis

text \<open>
  C40: What the simulator signs, the adapter of that provider accepts: for every provider and body the simulator can
  sign, the request it sends verifies under the same secret, at once and for the next four minutes. Only the
  echoed secret of Flutterwave has to be free of surrounding space, which a header cannot carry.
\<close>

theorem simulated_webhook_verifies:
  assumes "SimulateSign L provider body secret sent = Inr hs" and "a \<in> set (builtins L)" "ad_Name a = provider"
    and "\<And>alg p. al_hmac L alg secret p \<noteq> []"
    and "\<And>m. TrimSpace (al_b64encode L m) = al_b64encode L m" "\<And>m. m \<noteq> [] \<Longrightarrow> al_b64encode L m \<noteq> []"
    and "secret \<noteq> []" "provider = ''flutterwave'' \<Longrightarrow> TrimSpace secret = secret"
    and "0 \<le> sent" "sent \<le> now" "now - sent \<le> 4 * minute" "now < 2 ^ 63"
  shows "ad_Verify a now (simulatedHeaders hs) body secret = None"
proof -
  have hex: "FirstHeader (simulatedHeaders [(k, ProviderSign L alg Hex secret p)]) (k # ks) = ProviderSign L alg Hex secret p"
    if "k \<in> {''x-paystack-signature'', ''monnify-signature'', ''x-nibss-signature''}" for k ks alg p
    using that hex_sig(1,2) [OF assms(4)]
    by (intro FirstHeader_simulated) (auto simp: ProviderSign_def signatureHeaders_def)
  have b64: "FirstHeader (simulatedHeaders [(''x-interswitch-signature'', ProviderSign L alg Base64 secret p)])
      (''x-interswitch-signature'' # ks) = ProviderSign L alg Base64 secret p" for ks alg p
    using assms(4-6) by (intro FirstHeader_simulated) (simp_all add: ProviderSign_def signatureHeaders_def)
  have ne: "ProviderSign L alg enc secret p \<noteq> []" for alg enc p
    using assms(4) assms(6) [OF assms(4)] by (simp add: ProviderSign_def hexEncode_empty Let_def)
  note own = VerifyHMAC_own_hex [OF assms(4)] VerifyHMAC_own_base64 [OF ne]
  consider "a = paystack L" | "a = flutterwave L" | "a = nibss L" | "a = monnify L" | "a = interswitch L" | "a = stripe L"
    using assms(2) by (auto simp: builtins_def)
  then show ?thesis
  proof cases
    case 1
    with assms(1,3) show ?thesis
      by (auto simp: paystack_def SimulateSign_def paystackVerify_def hex ne own simp del: FirstHeader.simps)
  next
    case 2
    have "FirstHeader (simulatedHeaders [(''verif-hash'', secret)]) [''verif-hash'', ''verify-hash''] = secret"
      using assms(3,7,8) 2 by (intro FirstHeader_simulated) (simp_all add: flutterwave_def signatureHeaders_def)
    with 2 assms(1,3,7) show ?thesis
      by (auto simp: flutterwave_def SimulateSign_def flutterwaveVerify_def Equal_def simp del: FirstHeader.simps split: option.splits)
  next
    case 3
    with assms(1,3) obtain payload where p: "concatSigned L body (map fst nibssSigned) = Inr payload"
      and hs: "hs = [(''x-nibss-signature'', ProviderSign L SHA256 Hex secret payload)]"
      by (auto simp: nibss_def SimulateSign_def nibssSigned_def split: sum.splits)
    from simulated_fields [OF p] 3 show ?thesis by (auto simp: nibss_def nibssVerify_def hs hex ne own simp del: FirstHeader.simps)
  next
    case 4
    with assms(1,3) show ?thesis
      by (auto simp: monnify_def SimulateSign_def monnifyVerify_def hex ne own simp del: FirstHeader.simps)
  next
    case 5
    with assms(1,3) obtain payload where p: "concatSigned L body (map fst interswitchSigned) = Inr payload"
      and hs: "hs = [(''x-interswitch-signature'', ProviderSign L SHA256 Base64 secret payload)]"
      by (auto simp: interswitch_def SimulateSign_def interswitchSigned_def split: sum.splits)
    from simulated_fields [OF p] 5 show ?thesis by (auto simp: interswitch_def interswitchVerify_def hs b64 ne own simp del: FirstHeader.simps)
  next
    case 6
    with assms(1,3) have "hs = [(''stripe-signature'', ''t='' @ FormatInt (Unix sent) @ '',v1=''
        @ ProviderSign L SHA256 Hex secret (FormatInt (Unix sent) @ ''.'' @ body))]"
      by (auto simp: stripe_def SimulateSign_def Let_def)
    with simulated_stripe [OF assms(4,9-12) refl] 6 show ?thesis by (simp add: stripe_def)
  qed
qed

definition hexLib :: "(string \<times> json) list \<Rightarrow> AdapterLib" where
  "hexLib docs = (docLib docs)\<lparr>al_b64encode := hexEncode, al_b64decode := hexDecode\<rparr>"

theorem simulated_webhook_verifies_witness:
  "stripeVerify (hexLib []) (minute + 5) (simulatedHeaders [(''stripe-signature'', ''t=0,v1='' @ hexEncode (''key'' @ ''0.b''))]) ''b'' ''key'' = None
   \<and> paystackVerify (hexLib []) (simulatedHeaders [(''x-paystack-signature'', hexEncode (''key'' @ ''b''))]) ''b'' ''key'' = None"
proof -
  have mac: "al_hmac (hexLib []) alg ''key'' p = ''key'' @ p" for alg p by (simp add: hexLib_def docLib_def)
  have b64: "al_b64encode (hexLib []) = hexEncode" by (simp add: hexLib_def)
  have zero: "FormatInt 0 = ''0''" by code_simp
  have 1: "SimulateSign (hexLib []) ''stripe'' ''b'' ''key'' 5 = Inr [(''stripe-signature'', ''t=0,v1='' @ hexEncode (''key'' @ ''0.b''))]"
    by (simp add: SimulateSign_def ProviderSign_def mac Unix_def second_def zero Let_def)
  have 2: "SimulateSign (hexLib []) ''paystack'' ''b'' ''key'' 5 = Inr [(''x-paystack-signature'', hexEncode (''key'' @ ''b''))]"
    by (simp add: SimulateSign_def ProviderSign_def mac)
  note verifies = simulated_webhook_verifies [where L = "hexLib []" and secret = "''key''" and now = "minute + 5" and sent = 5]
  have "ad_Verify (stripe (hexLib [])) (minute + 5) (simulatedHeaders [(''stripe-signature'', ''t=0,v1='' @ hexEncode (''key'' @ ''0.b''))]) ''b'' ''key'' = None"
    by (rule verifies [OF 1]) (simp_all add: builtins_def stripe_def mac b64 TrimSpace_hex hexEncode_empty minute_def second_def)
  moreover have "ad_Verify (paystack (hexLib [])) (minute + 5) (simulatedHeaders [(''x-paystack-signature'', hexEncode (''key'' @ ''b''))]) ''b'' ''key'' = None"
    by (rule verifies [OF 2]) (simp_all add: builtins_def paystack_def mac b64 TrimSpace_hex hexEncode_empty minute_def second_def)
  ultimately show ?thesis by (simp add: stripe_def paystack_def)
qed

section \<open>Freshening changes times only\<close>

fun timeless :: "step \<Rightarrow> bool" where
  "timeless (Key k) \<longleftrightarrow> ToLower k \<notin> set timeFields"
| "timeless (Index n) \<longleftrightarrow> True"

fun scalar :: "json \<Rightarrow> bool" where
  "scalar (JObject t) \<longleftrightarrow> False" | "scalar (JArray t) \<longleftrightarrow> False" | "scalar v \<longleftrightarrow> True"

lemma rewriteFields_at:
  "map_of (rewriteFields F now d t) k = map_option (\<lambda>v. if ToLower k \<in> set timeFields then rewriteOne F now v
     else rewriteTimes F now (Suc d) v) (map_of t k)"
  by (induction t) auto

lemma rewriteItems_map: "rewriteItems F now d t = map (rewriteTimes F now (Suc d)) t"
  by (induction t) auto

lemma rewriteTimes_scalar: "scalar v \<Longrightarrow> rewriteTimes F now d v = v"
  by (cases v) simp_all

lemma evalStep_rewrite:
  assumes "evalStep st u = Inr v" "timeless st" "\<not> 8 < d"
  shows "evalStep st (rewriteTimes F now d u) = Inr (rewriteTimes F now (Suc d) v)"
  using assms
  by (cases "(st, u)" rule: evalStep.cases)
    (auto simp: rewriteFields_at rewriteItems_map Let_def split: option.splits if_splits)

lemma rewriteTimes_deep: "8 < d \<Longrightarrow> rewriteTimes F now d v = v"
  by (cases v) simp_all

lemma evalSteps_rewrite:
  assumes "evalSteps sts u = Inr w" "scalar w" "list_all timeless sts"
  shows "evalSteps sts (rewriteTimes F now d u) = Inr w"
  using assms
proof (induction sts arbitrary: u d)
  case Nil
  then show ?case by (simp add: rewriteTimes_scalar)
next
  case (Cons st sts)
  show ?case
  proof (cases "8 < d")
    case True
    with Cons.prems(1) show ?thesis by (simp add: rewriteTimes_deep)
  next
    case False
    obtain v where v: "evalStep st u = Inr v" "evalSteps sts v = Inr w"
      using Cons.prems(1) by (auto split: sum.splits)
    have "evalStep st (rewriteTimes F now d u) = Inr (rewriteTimes F now (Suc d) v)"
      using evalStep_rewrite [OF v(1) _ False] Cons.prems(3) by simp
    moreover have "evalSteps sts (rewriteTimes F now (Suc d) v) = Inr w"
      using Cons.IH [OF v(2) Cons.prems(2)] Cons.prems(3) by simp
    ultimately show ?thesis by simp
  qed
qed

text \<open>
  Freshening a sample changes its times and nothing else: every path of the document that does not go through a
  time field and ends in a number, a text, a truth value or null reads the same afterwards, so the references, amounts
  and codes that the signatures are made over are still there.
\<close>

theorem freshening_keeps_fields:
  assumes "Eval p doc = Inr w" and "scalar w" and "list_all timeless (path_steps p)"
  shows "Eval p (rewriteTimes F now 0 doc) = Inr w"
  using evalSteps_rewrite [OF _ assms(2,3)] assms(1) by (simp add: Eval_def)

definition sampleDoc :: json where
  "sampleDoc = JObject [(''date'', JString ''2020-01-01T00:00:00Z''),
     (''data'', JArray [JObject [(''amount'', JNumber ''5''), (''paid_at'', JNumber ''1'')]])]"

definition sampleFresh :: FreshLib where
  "sampleFresh = \<lparr>fr_unmarshal = (\<lambda>_. Some sampleDoc), fr_marshal = (\<lambda>_. None), fr_float = FormatInt, fr_format = (\<lambda>_ _. ''now'')\<rparr>"

theorem freshening_keeps_fields_witness:
  "Eval \<lparr>path_raw = [], path_steps = [Key ''data'', Index 0, Key ''amount'']\<rparr> (rewriteTimes sampleFresh (7 * second) 0 sampleDoc) = Inr (JNumber ''5'')
   \<and> rewriteTimes sampleFresh (7 * second) 0 sampleDoc = JObject [(''date'', JString ''now''),
     (''data'', JArray [JObject [(''amount'', JNumber ''5''), (''paid_at'', JNumber ''7'')]])]"
proof -
  have "list_all timeless [Key ''data'', Index 0, Key ''amount'']" by code_simp
  then have "Eval \<lparr>path_raw = [], path_steps = [Key ''data'', Index 0, Key ''amount'']\<rparr> (rewriteTimes sampleFresh (7 * second) 0 sampleDoc) = Inr (JNumber ''5'')"
    by (intro freshening_keeps_fields) (simp_all add: Eval_def sampleDoc_def)
  moreover have "rewriteTimes sampleFresh (7 * second) 0 sampleDoc = JObject [(''date'', JString ''now''),
     (''data'', JArray [JObject [(''amount'', JNumber ''5''), (''paid_at'', JNumber ''7'')]])]" by code_simp
  ultimately show ?thesis by blast
qed

end
