(* ===== verification/Data_Subject.thy ===== *)
theory Data_Subject
  imports Normaliser Audit_Chain Store_Spec
begin

text \<open>
  Export and erasure of a data subject (\<^verbatim>\<open>internal/subject/subject.go\<close>). The SQL statements are read as what they do to
  the rows of \<open>canonical_events\<close>, \<open>raw_events\<close> and the audit trail, which are the tables of the in-memory store; an
  erasure is one transaction, so it happens entirely or not at all. Failures of the database are not modelled, only the
  error the audit record can raise.
\<close>

section \<open>References\<close>

record Ref =
  rf_TenantID :: string
  rf_Hash :: string

definition ResolveRef :: "(string \<Rightarrow> string \<Rightarrow> string) \<Rightarrow> string \<Rightarrow> string \<Rightarrow> string \<Rightarrow> Ref" where
  "ResolveRef hmac tenantID salt identifier =
     \<lparr>rf_TenantID = tenantID, rf_Hash = ''sha256:'' @ hexEncode (hmac salt identifier)\<rparr>"

definition carries :: "Ref \<Rightarrow> CanonicalEvent \<Rightarrow> bool" where
  "carries ref e \<longleftrightarrow> ev_TenantID e = rf_TenantID ref \<and> ev_CustomerRefHash e = rf_Hash ref"

definition eventRows :: "Memory \<Rightarrow> CanonicalEvent list" where
  "eventRows m = map snd (mem_events m)"

definition rawRows :: "Memory \<Rightarrow> RawEvent list" where
  "rawRows m = map snd (mem_rawEvents m)"

text \<open>The raw rows of the subject: those a canonical event that carries the hash was made from.\<close>

definition rawOfSubject :: "Ref \<Rightarrow> Memory \<Rightarrow> RawEvent \<Rightarrow> bool" where
  "rawOfSubject ref m r \<longleftrightarrow>
     raw_TenantID r = rf_TenantID ref
     \<and> list_ex (\<lambda>e. ev_RawEventID e = raw_ID r \<and> ev_CustomerRefHash e = rf_Hash ref) (eventRows m)"

section \<open>Export\<close>

record ExportedEvent =
  xe_EventID :: string
  xe_Provider :: string
  xe_EventType :: string
  xe_TransactionRef :: string
  xe_Status :: string
  xe_AmountMinor :: int
  xe_Currency :: string
  xe_OccurredAt :: gotime
  xe_ReceivedAt :: gotime
  xe_ProviderExtra :: "(string \<times> json) list option"

record Export =
  xp_TenantID :: string
  xp_SubjectHash :: string
  xp_GeneratedAt :: instant
  xp_Events :: "ExportedEvent list"

definition exported :: "CanonicalEvent \<Rightarrow> ExportedEvent" where
  "exported e =
     \<lparr>xe_EventID = ev_ID e, xe_Provider = ev_Provider e, xe_EventType = ev_EventType e,
      xe_TransactionRef = ev_TransactionRef e, xe_Status = ev_Status e, xe_AmountMinor = ev_AmountMinor e,
      xe_Currency = ev_Currency e, xe_OccurredAt = ev_OccurredAt e, xe_ReceivedAt = ev_ReceivedAt e,
      xe_ProviderExtra = ev_ProviderExtra e\<rparr>"

definition ExportSubject :: "instant \<Rightarrow> Ref \<Rightarrow> Memory \<Rightarrow> Export" where
  "ExportSubject now ref m =
     \<lparr>xp_TenantID = rf_TenantID ref, xp_SubjectHash = rf_Hash ref, xp_GeneratedAt = now,
      xp_Events = map exported (sort_key (\<lambda>e. gt_instant (ev_OccurredAt e)) (filter (carries ref) (eventRows m)))\<rparr>"

section \<open>Erasure\<close>

definition erasedNote :: string where "erasedNote = ''erased on data subject request''"

record ErasureResult =
  er_TenantID :: string
  er_SubjectHash :: string
  er_ErasedAt :: instant
  er_DryRun :: bool
  er_EventsAffected :: int
  er_RawBodiesWiped :: int
  er_ExtraKeysWiped :: int

definition extraKeys :: "CanonicalEvent \<Rightarrow> nat" where
  "extraKeys e = (case ev_ProviderExtra e of None \<Rightarrow> 0 | Some kvs \<Rightarrow> length kvs)"

definition wipeRaw :: "RawEvent \<Rightarrow> RawEvent" where
  "wipeRaw r = r\<lparr>raw_Body := [], raw_Headers := [], raw_RedactionNote := erasedNote\<rparr>"

definition delink :: "CanonicalEvent \<Rightarrow> CanonicalEvent" where
  "delink e = e\<lparr>ev_ProviderExtra := Some [(''statushub_erased'', JBool True)], ev_CustomerRefHash := []\<rparr>"

definition wipeSubject :: "Ref \<Rightarrow> Memory \<Rightarrow> Memory" where
  "wipeSubject ref m =
     (let m = m\<lparr>mem_rawEvents := map (\<lambda>(i, r). (i, if rawOfSubject ref m r then wipeRaw r else r)) (mem_rawEvents m)\<rparr>
      in m\<lparr>mem_events := map (\<lambda>(i, e). (i, if carries ref e then delink e else e)) (mem_events m)\<rparr>)"

text \<open>The audit record of the transaction, chained to the last one of the tenant.\<close>

definition appendAuditTx ::
    "AuditLib \<Rightarrow> gotime \<Rightarrow> string \<Rightarrow> AuditRecord \<Rightarrow> Memory \<Rightarrow> string + Memory" where
  "appendAuditTx L now newID r m =
     (let rs = auditOf m (aud_TenantID r);
          prev = (if rs = [] then GenesisHash else aud_Hash (last rs));
          r = (if aud_ID r = [] then r\<lparr>aud_ID := newID\<rparr> else r)
      in case Seal L now prev r of
           Inl err \<Rightarrow> Inl err
         | Inr r \<Rightarrow>
             Inr (m\<lparr>mem_audit := AList.update (aud_TenantID r) (rs @ [r]) (mem_audit m),
                    mem_auditHead := AList.update (aud_TenantID r) (aud_Hash r) (mem_auditHead m)\<rparr>))"

definition erasureRecord :: "Ref \<Rightarrow> ErasureResult \<Rightarrow> AuditRecord" where
  "erasureRecord ref r =
     \<lparr>aud_ID = [], aud_TenantID = rf_TenantID ref, aud_EventType = ''subject.erased'', aud_OccurredAt = zeroTime,
      aud_RecordedAt = zeroTime, aud_Actor = \<lparr>act_Type = ''user'', act_ID = [], act_IP = []\<rparr>,
      aud_Subject = \<lparr>sub_Type = ''data_subject'', sub_ID = rf_Hash ref\<rparr>,
      aud_Payload = [(''events_affected'', JNumber (FormatInt (er_EventsAffected r))),
                     (''raw_bodies_wiped'', JNumber (FormatInt (er_RawBodiesWiped r))),
                     (''extra_keys_wiped'', JNumber (FormatInt (er_ExtraKeysWiped r)))],
      aud_Corrects = [], aud_PrevHash = [], aud_Hash = []\<rparr>"

definition erasureReport :: "instant \<Rightarrow> Ref \<Rightarrow> bool \<Rightarrow> Memory \<Rightarrow> ErasureResult" where
  "erasureReport now ref dryRun m =
     (let affected = filter (carries ref) (eventRows m);
          r = \<lparr>er_TenantID = rf_TenantID ref, er_SubjectHash = rf_Hash ref, er_ErasedAt = now, er_DryRun = dryRun,
               er_EventsAffected = int (length affected), er_RawBodiesWiped = 0, er_ExtraKeysWiped = 0\<rparr>
      in if length affected = 0 then r
         else r\<lparr>er_RawBodiesWiped := int (length (filter (rawOfSubject ref m) (rawRows m))),
                er_ExtraKeysWiped := int (sum_list (map extraKeys affected))\<rparr>)"

definition Erase ::
    "AuditLib \<Rightarrow> gotime \<Rightarrow> string \<Rightarrow> instant \<Rightarrow> Ref \<Rightarrow> bool \<Rightarrow> Memory \<Rightarrow> Memory \<times> (string + ErasureResult)" where
  "Erase L auditNow newID now ref dryRun m =
     (let r = erasureReport now ref dryRun m in
      if er_EventsAffected r = 0 \<or> dryRun then (m, Inr r)
      else case appendAuditTx L auditNow newID (erasureRecord ref r) (wipeSubject ref m) of
             Inl err \<Rightarrow> (m, Inl err)
           | Inr m' \<Rightarrow> (m', Inr r))"

datatype verification = StillLinked int | BodiesLeft int | VerifiedErased

definition VerifyErased :: "Ref \<Rightarrow> Memory \<Rightarrow> verification" where
  "VerifyErased ref m =
     (let remaining = int (length (filter (carries ref) (eventRows m)));
          bodies = int (length (filter (\<lambda>r. raw_TenantID r = rf_TenantID ref \<and> length (raw_Body r) > 0
                                      \<and> raw_RedactionNote r = erasedNote) (rawRows m)))
      in if remaining > 0 then StillLinked remaining
         else if bodies > 0 then BodiesLeft bodies
         else VerifiedErased)"

section \<open>What an erasure does\<close>

text \<open>The hash of a request is the hash the normaliser stored.\<close>

lemma ResolveRef_normaliser:
  "ne_resolve E (saltRef t) = Inr salt \<Longrightarrow> pseudonymise E t v = Inr (rf_Hash (ResolveRef (ne_hmac256 E) t salt v))"
  by (simp add: pseudonymise_def ResolveRef_def)

lemma wipeSubject_audit [simp]: "auditOf (wipeSubject ref m) t = auditOf m t" "LastAuditHash (wipeSubject ref m) t = LastAuditHash m t"
  by (simp_all add: wipeSubject_def auditOf_def LastAuditHash_def Let_def)

lemma audit_inv_wipe: "audit_inv L m \<Longrightarrow> audit_inv L (wipeSubject ref m)"
  by (simp add: audit_inv_def)

text \<open>On a store whose chains are sound the transaction appends what \<open>AppendAudit\<close> appends.\<close>

lemma appendAuditTx_refines:
  assumes "audit_inv L m" "aud_ID r \<noteq> []"
  shows "appendAuditTx L now i r m = (case AppendAudit L now m r of (m', None) \<Rightarrow> Inr m' | (_, Some err) \<Rightarrow> Inl err)"
proof -
  have "(if auditOf m (aud_TenantID r) = [] then GenesisHash else aud_Hash (last (auditOf m (aud_TenantID r))))
      = LastAuditHash m (aud_TenantID r)"
    using assms(1) by (cases "auditOf m (aud_TenantID r)" rule: rev_cases) (auto simp: audit_inv_def)
  then show ?thesis
    using assms(2) Seal_Inr
    by (auto simp: appendAuditTx_def AppendAudit_def LastAuditHash_def Let_def split: sum.splits)
qed

lemma appendAuditTx_tables:
  assumes "appendAuditTx L now i r m = Inr m'"
  shows "mem_events m' = mem_events m" "mem_rawEvents m' = mem_rawEvents m"
    "\<exists>a. auditOf m' (aud_TenantID r) = auditOf m (aud_TenantID r) @ [a] \<and> aud_TenantID a = aud_TenantID r"
proof -
  let ?q = "if aud_ID r = [] then r\<lparr>aud_ID := i\<rparr> else r"
  obtain prev a where a: "Seal L now prev ?q = Inr a"
    and m': "m' = m\<lparr>mem_audit := AList.update (aud_TenantID a) (auditOf m (aud_TenantID r) @ [a]) (mem_audit m),
        mem_auditHead := AList.update (aud_TenantID a) (aud_Hash a) (mem_auditHead m)\<rparr>"
    using assms by (auto simp: appendAuditTx_def Let_def split: sum.splits if_splits)
  have "aud_TenantID a = aud_TenantID r" using Seal_Inr [OF a] by (simp split: if_splits)
  then show "mem_events m' = mem_events m" "mem_rawEvents m' = mem_rawEvents m"
    "\<exists>a. auditOf m' (aud_TenantID r) = auditOf m (aud_TenantID r) @ [a] \<and> aud_TenantID a = aud_TenantID r"
    by (simp_all add: m' auditOf_def)
qed

lemma wipeSubject_rows:
  "eventRows (wipeSubject ref m) = map (\<lambda>e. if carries ref e then delink e else e) (eventRows m)"
  "rawRows (wipeSubject ref m) = map (\<lambda>r. if rawOfSubject ref m r then wipeRaw r else r) (rawRows m)"
  by (simp_all add: wipeSubject_def eventRows_def rawRows_def Let_def case_prod_beta)

lemma rows_cong:
  assumes "mem_events m' = mem_events m" "mem_rawEvents m' = mem_rawEvents m"
  shows "eventRows m' = eventRows m" "rawRows m' = rawRows m"
  using assms by (simp_all add: eventRows_def rawRows_def)

lemma Erase_cases:
  assumes "Erase L auditNow i now ref dryRun m = (m', Inr res)"
  obtains (kept) "m' = m" "filter (carries ref) (eventRows m) = [] \<or> dryRun" "er_EventsAffected res = 0 \<or> dryRun"
  | (erased) "\<not> dryRun" "eventRows m' = eventRows (wipeSubject ref m)" "rawRows m' = rawRows (wipeSubject ref m)"
      "0 < er_EventsAffected res" "length (auditOf m' (rf_TenantID ref)) = Suc (length (auditOf m (rf_TenantID ref)))"
proof -
  let ?r = "erasureReport now ref dryRun m"
  have n: "er_EventsAffected ?r = int (length (filter (carries ref) (eventRows m)))"
    by (simp add: erasureReport_def Let_def)
  show thesis
  proof (cases "er_EventsAffected ?r = 0 \<or> dryRun")
    case True
    then have "Erase L auditNow i now ref dryRun m = (m, Inr ?r)" by (simp add: Erase_def Let_def)
    then have "m' = m" "res = ?r" using assms by simp_all
    with True n show thesis by (intro kept) (auto simp: filter_empty_conv)
  next
    case False
    then obtain m'' where tx: "appendAuditTx L auditNow i (erasureRecord ref ?r) (wipeSubject ref m) = Inr m''"
      and res: "m' = m''" "res = ?r" using assms by (auto simp: Erase_def Let_def split: sum.splits)
    note tables = appendAuditTx_tables [OF tx]
    from tables(3) have "length (auditOf m' (rf_TenantID ref)) = Suc (length (auditOf m (rf_TenantID ref)))"
      by (auto simp: res erasureRecord_def)
    with False n rows_cong [OF tables(1,2)] show thesis by (intro erased) (auto simp: res)
  qed
qed

lemma delink_uncarried: "rf_Hash ref \<noteq> [] \<Longrightarrow> \<not> carries ref (delink e)"
  by (simp add: carries_def delink_def)

lemma not_carried_after:
  assumes "rf_Hash ref \<noteq> []"
  shows "filter (carries ref) (eventRows (wipeSubject ref m)) = []"
  using delink_uncarried [OF assms] by (auto simp: wipeSubject_rows filter_empty_conv)

definition erasuresComplete :: "string \<Rightarrow> Memory \<Rightarrow> bool" where
  "erasuresComplete t m \<longleftrightarrow> (\<forall>r\<in>set (rawRows m). raw_TenantID r = t \<longrightarrow> raw_RedactionNote r = erasedNote \<longrightarrow> raw_Body r = [])"

lemma erasuresComplete_wipe: "erasuresComplete t m \<Longrightarrow> erasuresComplete t (wipeSubject ref m)"
  by (auto simp: erasuresComplete_def wipeSubject_rows wipeRaw_def)

lemma VerifyErased_complete:
  assumes "filter (carries ref) (eventRows m) = []" "erasuresComplete (rf_TenantID ref) m"
  shows "VerifyErased ref m = VerifiedErased"
proof -
  have "filter (\<lambda>r. raw_TenantID r = rf_TenantID ref \<and> length (raw_Body r) > 0 \<and> raw_RedactionNote r = erasedNote) (rawRows m) = []"
    using assms(2) by (auto simp: erasuresComplete_def filter_empty_conv)
  with assms(1) show ?thesis by (simp only: VerifyErased_def Let_def) simp
qed

lemma Erase_frame:
  assumes "Erase L auditNow i now ref dryRun m = (m', Inr res)"
  shows "eventRows m' = eventRows m \<and> rawRows m' = rawRows m
    \<or> eventRows m' = eventRows (wipeSubject ref m) \<and> rawRows m' = rawRows (wipeSubject ref m)"
  using assms by (rule Erase_cases) auto

definition transactionOf :: "CanonicalEvent \<Rightarrow> string \<times> string \<times> Status \<times> int \<times> string \<times> gotime" where
  "transactionOf e = (ev_ID e, ev_TransactionRef e, ev_Status e, ev_AmountMinor e, ev_Currency e, ev_OccurredAt e)"

lemma wipeSubject_keeps:
  "map transactionOf (eventRows (wipeSubject ref m)) = map transactionOf (eventRows m)"
  "list_all2 (\<lambda>e e'. carries ref e \<or> e' = e) (eventRows m) (eventRows (wipeSubject ref m))"
  "list_all2 (\<lambda>r r'. rawOfSubject ref m r \<or> r' = r) (rawRows m) (rawRows (wipeSubject ref m))"
  by (auto simp: wipeSubject_rows transactionOf_def delink_def list_all2_conv_all_nth)

lemma wipeSubject_raws:
  assumes "e \<in> set (eventRows m)" "carries ref e" "r \<in> set (rawRows (wipeSubject ref m))"
    "raw_ID r = ev_RawEventID e" "raw_TenantID r = rf_TenantID ref"
  shows "raw_Body r = [] \<and> raw_Headers r = []"
proof -
  obtain q where q: "r = (if rawOfSubject ref m q then wipeRaw q else q)" 
    using assms(3) unfolding wipeSubject_rows set_map by blast
  then have "raw_ID q = raw_ID r" "raw_TenantID q = raw_TenantID r" by (simp_all add: wipeRaw_def)
  with assms have "rawOfSubject ref m q" by (auto simp: rawOfSubject_def list_ex_iff carries_def)
  then show ?thesis by (simp add: q wipeRaw_def)
qed

text \<open>
  C35: What an erasure removes is gone, and only that. After it the export of the subject is empty and the
  verification passes; every raw event one of the subject's events was made from has lost its body and headers; the
  transactions are kept with their references, statuses, amounts and times; events and raw events of everybody else are
  as they were; and when anything was erased the tenant's audit trail has exactly one record more.
\<close>

theorem erased_is_gone:
  assumes "Erase L auditNow i now ref False m = (m', Inr res)" and "rf_Hash ref \<noteq> []"
    and "erasuresComplete (rf_TenantID ref) m"
  shows "xp_Events (ExportSubject later ref m') = [] \<and> VerifyErased ref m' = VerifiedErased
    \<and> (\<forall>e\<in>set (eventRows m). \<forall>r\<in>set (rawRows m'). carries ref e \<and> raw_ID r = ev_RawEventID e \<and> raw_TenantID r = rf_TenantID ref
          \<longrightarrow> raw_Body r = [] \<and> raw_Headers r = [])
    \<and> map transactionOf (eventRows m') = map transactionOf (eventRows m)
    \<and> list_all2 (\<lambda>e e'. carries ref e \<or> e' = e) (eventRows m) (eventRows m')
    \<and> list_all2 (\<lambda>r r'. rawOfSubject ref m r \<or> r' = r) (rawRows m) (rawRows m')
    \<and> (er_EventsAffected res = 0 \<or> length (auditOf m' (rf_TenantID ref)) = Suc (length (auditOf m (rf_TenantID ref))))"
  using assms(1)
proof (rule Erase_cases)
  assume kept: "m' = m" "filter (carries ref) (eventRows m) = [] \<or> False" "er_EventsAffected res = 0 \<or> False"
  then have "filter (carries ref) (eventRows m) = []" by simp
  with VerifyErased_complete [OF this assms(3)] kept show ?thesis
    by (auto simp: ExportSubject_def filter_empty_conv list.rel_refl)
next
  assume rows: "eventRows m' = eventRows (wipeSubject ref m)" "rawRows m' = rawRows (wipeSubject ref m)"
    and n: "0 < er_EventsAffected res" and audit: "length (auditOf m' (rf_TenantID ref)) = Suc (length (auditOf m (rf_TenantID ref)))"
  have none: "filter (carries ref) (eventRows m') = []" using not_carried_after [OF assms(2)] by (simp add: rows)
  have "erasuresComplete (rf_TenantID ref) m'"
    using erasuresComplete_wipe [OF assms(3), of ref] by (simp add: erasuresComplete_def rows)
  note verified = VerifyErased_complete [OF none this]
  have "xp_Events (ExportSubject later ref m') = []" using none by (simp add: ExportSubject_def)
  with verified audit wipeSubject_keeps [of ref m] wipeSubject_raws [of _ m ref] show ?thesis
    unfolding rows by blast
qed

text \<open>
  A dry run tells exactly what the erasure will do and does nothing: its report is the report of the erasure that
  follows it, and the store is untouched.
\<close>

theorem dry_run_exact:
  assumes "Erase L auditNow i now ref False m = (m', Inr res)"
  shows "Erase L auditNow i now ref True m = (m, Inr (res\<lparr>er_DryRun := True\<rparr>))"
proof -
  have res: "res = erasureReport now ref False m"
    using assms by (auto simp: Erase_def Let_def split: if_splits sum.splits)
  have "erasureReport now ref True m = (erasureReport now ref False m)\<lparr>er_DryRun := True\<rparr>"
    by (simp add: erasureReport_def Let_def)
  then show ?thesis by (simp add: Erase_def res Let_def)
qed

text \<open>
  C36: An erasure misses what was received twice. A raw event no canonical event was made from, which is what a
  provider's redelivery leaves (its event is dropped as a duplicate) and what an unreadable payload leaves, keeps its body
  through the erasure, whoever it names, and the verification reports success.
\<close>

theorem redelivered_body_survives:
  assumes "Erase L auditNow i now ref False m = (m', Inr res)" and "rf_Hash ref \<noteq> []"
    and "erasuresComplete (rf_TenantID ref) m"
    and "r \<in> set (rawRows m)" and "\<forall>e\<in>set (eventRows m). ev_RawEventID e \<noteq> raw_ID r"
  shows "r \<in> set (rawRows m') \<and> VerifyErased ref m' = VerifiedErased"
proof -
  have "\<not> rawOfSubject ref m r" using assms(5) by (auto simp: rawOfSubject_def list_ex_iff)
  then have "r \<in> set (rawRows (wipeSubject ref m))" using assms(4) by (auto simp: wipeSubject_rows image_iff)
  then have kept: "r \<in> set (rawRows m')" using Erase_frame [OF assms(1)] assms(4) by auto
  have "filter (carries ref) (eventRows m') = []"
    using assms(1) by (rule Erase_cases) (use not_carried_after [OF assms(2)] in auto)
  moreover have "erasuresComplete (rf_TenantID ref) m'"
    using Erase_frame [OF assms(1)] assms(3) erasuresComplete_wipe [OF assms(3), of ref] by (auto simp: erasuresComplete_def)
  ultimately show ?thesis using kept VerifyErased_complete by blast
qed

section \<open>A sample subject\<close>

definition sampleRef :: Ref where
  "sampleRef = ResolveRef (\<lambda>salt v. salt @ v) ''tnt_1'' ''s'' ''ada''"

definition subjectRaw :: "string \<Rightarrow> RawEvent" where
  "subjectRaw i = \<lparr>raw_ID = i, raw_TenantID = ''tnt_1'', raw_EndpointID = ''ep_1'', raw_Provider = ''paystack'', raw_Headers = [],
     raw_Body = ''ada'', raw_BodySHA256 = [], raw_Redacted = False, raw_RedactionNote = [], raw_SourceIP = None,
     raw_SignatureValid = True, raw_SignatureError = [], raw_ReceivedAt = sampleNow\<rparr>"

definition subjectStore :: Memory where
  "subjectStore = NewMemory\<lparr>mem_rawEvents := [(''sh_raw_1'', subjectRaw ''sh_raw_1''), (''sh_raw_2'', subjectRaw ''sh_raw_2'')],
     mem_events := [(''sh_evt_1'', sampleEvent\<lparr>ev_CustomerRefHash := rf_Hash sampleRef\<rparr>)]\<rparr>"

lemma subjectStore_rows:
  "eventRows subjectStore = [sampleEvent\<lparr>ev_CustomerRefHash := rf_Hash sampleRef\<rparr>]"
  "rawRows subjectStore = [subjectRaw ''sh_raw_1'', subjectRaw ''sh_raw_2'']"
  by (simp_all add: subjectStore_def eventRows_def rawRows_def)

lemma sampleRef_simps: "rf_TenantID sampleRef = ''tnt_1''" "rf_Hash sampleRef \<noteq> []"
  by (simp_all add: sampleRef_def ResolveRef_def)

lemma subject_carried: "carries sampleRef (sampleEvent\<lparr>ev_CustomerRefHash := rf_Hash sampleRef\<rparr>)"
  by (simp add: carries_def sampleRef_simps sampleEvent_def)

lemma subject_complete: "erasuresComplete (rf_TenantID sampleRef) subjectStore"
  by (simp add: erasuresComplete_def subjectStore_rows subjectRaw_def erasedNote_def)

lemma Seal_plain: "\<exists>a. Seal plainLib now prev r = Inr a"
  by (auto simp: Seal_def ComputeHash_def canonicalJSON_def plainLib_def Let_def split: sum.splits)

lemma appendAuditTx_plain: "\<exists>m'. appendAuditTx plainLib now i r m = Inr m'"
proof -
  let ?rs = "auditOf m (aud_TenantID r)"
  obtain a where "Seal plainLib now (if ?rs = [] then GenesisHash else aud_Hash (last ?rs))
      (if aud_ID r = [] then r\<lparr>aud_ID := i\<rparr> else r) = Inr a" using Seal_plain by metis
  then show ?thesis by (simp add: appendAuditTx_def Let_def)
qed

lemma subject_erasable: "\<exists>m' res. Erase plainLib sampleNow ''aud_1'' 0 sampleRef False subjectStore = (m', Inr res) \<and> er_EventsAffected res = 1"
proof -
  let ?r = "erasureReport 0 sampleRef False subjectStore"
  have n: "er_EventsAffected ?r = 1"
    using subject_carried by (simp add: erasureReport_def subjectStore_rows Let_def)
  obtain m' where "appendAuditTx plainLib sampleNow ''aud_1'' (erasureRecord sampleRef ?r) (wipeSubject sampleRef subjectStore) = Inr m'"
    using appendAuditTx_plain by metis
  then have "Erase plainLib sampleNow ''aud_1'' 0 sampleRef False subjectStore = (m', Inr ?r)"
    using n by (simp add: Erase_def Let_def)
  with n show ?thesis by blast
qed

theorem erased_is_gone_witness:
  "\<exists>m' res. Erase plainLib sampleNow ''aud_1'' 0 sampleRef False subjectStore = (m', Inr res)
     \<and> er_EventsAffected res = 1 \<and> xp_Events (ExportSubject 9 sampleRef m') = [] \<and> VerifyErased sampleRef m' = VerifiedErased"
  using subject_erasable erased_is_gone [OF _ sampleRef_simps(2) subject_complete] by blast

theorem dry_run_exact_witness:
  "\<exists>res. Erase plainLib sampleNow ''aud_1'' 0 sampleRef True subjectStore = (subjectStore, Inr res) \<and> er_EventsAffected res = 1"
proof -
  obtain m' res where "Erase plainLib sampleNow ''aud_1'' 0 sampleRef False subjectStore = (m', Inr res)" "er_EventsAffected res = 1"
    using subject_erasable by blast
  from dry_run_exact [OF this(1)] this(2) show ?thesis by simp
qed

theorem redelivered_body_survives_witness:
  "\<exists>m' res. Erase plainLib sampleNow ''aud_1'' 0 sampleRef False subjectStore = (m', Inr res)
     \<and> subjectRaw ''sh_raw_2'' \<in> set (rawRows m') \<and> VerifyErased sampleRef m' = VerifiedErased \<and> raw_Body (subjectRaw ''sh_raw_2'') = ''ada''"
proof -
  obtain m' res where run: "Erase plainLib sampleNow ''aud_1'' 0 sampleRef False subjectStore = (m', Inr res)"
    using subject_erasable by blast
  have "subjectRaw ''sh_raw_2'' \<in> set (rawRows subjectStore)" by (simp add: subjectStore_rows)
  moreover have "\<forall>e\<in>set (eventRows subjectStore). ev_RawEventID e \<noteq> raw_ID (subjectRaw ''sh_raw_2'')"
    by (simp add: subjectStore_rows sampleEvent_def subjectRaw_def)
  ultimately show ?thesis
    using redelivered_body_survives [OF run sampleRef_simps(2) subject_complete] run by (auto simp: subjectRaw_def)
qed

end
