(* ===== verification/Retention.thy ===== *)
theory Retention
  imports Go_Prelude "HOL-Library.Multiset" "HOL-Library.List_Lexorder" "HOL-Library.Char_ord"
begin

text \<open>
  The daily job on the partitions of \<open>raw_events\<close> (\<^verbatim>\<open>internal/retention/partitions.go\<close>). The database is the table of
  named monthly ranges with their rows and the default partition; the statements the job sends are read as Postgres
  executes them: creating a partition does nothing when the name is taken and fails when its range meets another
  partition or rows of the default one. The calendar of package time, its layout parser, and the text Postgres prints for
  a range are parameters.
\<close>

section \<open>Months\<close>

definition AheadMonths :: nat where "AheadMonths = 3"

text \<open>A month is its number counted from year 0; \<open>cal_start\<close> is \<open>time.Date\<close> of its first day, \<open>cal_month\<close> the month of
  an instant in UTC.\<close>

record Calendar =
  cal_month :: "instant \<Rightarrow> nat"
  cal_start :: "nat \<Rightarrow> instant"

definition padTo :: "nat \<Rightarrow> string \<Rightarrow> string" where
  "padTo w s = replicate (w - length s) CHR ''0'' @ s"

definition partitionName :: "nat \<Rightarrow> string" where
  "partitionName month =
     ''raw_events_'' @ padTo 4 (show_nat (month div 12)) @ ''_'' @ padTo 2 (show_nat (month mod 12 + 1))"

definition monthStart :: "Calendar \<Rightarrow> instant \<Rightarrow> nat" where
  "monthStart C t = cal_month C t"

section \<open>The partitioned table\<close>

type_synonym rows = "(string \<times> instant) list"

record PartitionTable =
  pt_parts :: "(string \<times> (instant \<times> instant) \<times> rows) list"
  pt_default :: rows

datatype pg_error = DefaultOverlap | RangeOverlap

definition inRange :: "instant \<times> instant \<Rightarrow> instant \<Rightarrow> bool" where
  "inRange r t \<longleftrightarrow> fst r \<le> t \<and> t < snd r"

definition existsPartition :: "string \<Rightarrow> PartitionTable \<Rightarrow> bool" where
  "existsPartition name db \<longleftrightarrow> name \<in> fst ` set (pt_parts db)"

definition execCreate :: "string \<Rightarrow> instant \<times> instant \<Rightarrow> PartitionTable \<Rightarrow> pg_error + PartitionTable" where
  "execCreate name r db =
     (if existsPartition name db then Inr db
      else if list_ex (\<lambda>(_, q, _). fst r < snd q \<and> fst q < snd r) (pt_parts db) then Inl RangeOverlap
      else if list_ex (\<lambda>(_, t). inRange r t) (pt_default db) then Inl DefaultOverlap
      else Inr (db\<lparr>pt_parts := pt_parts db @ [(name, r, [])]\<rparr>))"

definition insertInto :: "string \<Rightarrow> rows \<Rightarrow> PartitionTable \<Rightarrow> PartitionTable" where
  "insertInto name moved db =
     db\<lparr>pt_parts := map (\<lambda>(n, q, rs). (n, q, if n = name then rs @ moved else rs)) (pt_parts db)\<rparr>"

text \<open>\<open>createPartition\<close>: the plain statement, and when rows of the default partition are in the way, one transaction
  that detaches the default, creates the month, moves its rows in and attaches the default again.\<close>

definition createPartition :: "string \<Rightarrow> instant \<times> instant \<Rightarrow> PartitionTable \<Rightarrow> pg_error + PartitionTable" where
  "createPartition name r db =
     (case execCreate name r db of
        Inr db \<Rightarrow> Inr db
      | Inl RangeOverlap \<Rightarrow> Inl RangeOverlap
      | Inl DefaultOverlap \<Rightarrow>
          let detached = pt_default db; alone = db\<lparr>pt_default := []\<rparr> in
          case execCreate name r alone of
            Inl err \<Rightarrow> Inl err
          | Inr created \<Rightarrow>
              let moved = filter (\<lambda>(_, t). inRange r t) detached; left = filter (\<lambda>(_, t). \<not> inRange r t) detached
              in Inr ((insertInto name moved created)\<lparr>pt_default := left\<rparr>))"

fun provisionMonths :: "Calendar \<Rightarrow> nat list \<Rightarrow> string list \<Rightarrow> PartitionTable \<Rightarrow> (pg_error + string list) \<times> PartitionTable" where
  "provisionMonths C [] created db = (Inr created, db)"
| "provisionMonths C (i # is) created db =
     (let name = partitionName i in
      if existsPartition name db then provisionMonths C is created db
      else case createPartition name (cal_start C i, cal_start C (i + 1)) db of
        Inl err \<Rightarrow> (Inl err, db)
      | Inr db \<Rightarrow> provisionMonths C is (created @ [name]) db)"

definition Provision :: "Calendar \<Rightarrow> instant \<Rightarrow> PartitionTable \<Rightarrow> (pg_error + string list) \<times> PartitionTable" where
  "Provision C now db = provisionMonths C (map (\<lambda>i. monthStart C now + i) [0..<AheadMonths + 1]) [] db"

section \<open>Reading ranges back\<close>

text \<open>The quoted parts of a bound; an unclosed quote is dropped.\<close>

fun quotedParts :: "bool \<Rightarrow> string \<Rightarrow> string \<Rightarrow> string list" where
  "quotedParts inQuote current [] = []"
| "quotedParts inQuote current (c # cs) =
     (if c = CHR 0x27 then (if inQuote then current # quotedParts False [] cs else quotedParts True current cs)
      else if inQuote then quotedParts True (current @ [c]) cs
      else quotedParts False current cs)"

record PgLib =
  pg_parse :: "string \<Rightarrow> string \<Rightarrow> instant option"
  pg_bound :: "instant \<times> instant \<Rightarrow> string"
  pg_bytes :: "rows \<Rightarrow> int"

fun boundLayout :: "PgLib \<Rightarrow> string list \<Rightarrow> string \<Rightarrow> string \<Rightarrow> (instant \<times> instant) option" where
  "boundLayout P [] a b = None"
| "boundLayout P (l # ls) a b =
     (case (pg_parse P l a, pg_parse P l b) of (Some f, Some t) \<Rightarrow> Some (f, t) | _ \<Rightarrow> boundLayout P ls a b)"

definition parseBound :: "PgLib \<Rightarrow> string \<Rightarrow> (instant \<times> instant) option" where
  "parseBound P bound =
     (case quotedParts False [] bound of
        [a, b] \<Rightarrow> boundLayout P [''2006-01-02 15:04:05-07'', ''2006-01-02 15:04:05'', ''2006-01-02''] a b
      | _ \<Rightarrow> None)"

record Partition =
  pa_Name :: string
  pa_From :: instant
  pa_To :: instant
  pa_Rows :: int
  pa_Bytes :: int

definition listed :: "PgLib \<Rightarrow> string \<Rightarrow> string \<Rightarrow> rows \<Rightarrow> Partition" where
  "listed P name bound rs =
     (let r = (case parseBound P bound of Some r \<Rightarrow> r | None \<Rightarrow> (zero_time, zero_time))
      in \<lparr>pa_Name = name, pa_From = fst r, pa_To = snd r, pa_Rows = int (length rs), pa_Bytes = pg_bytes P rs\<rparr>)"

definition defaultName :: string where "defaultName = ''raw_events_default''"

text \<open>The catalogue query gives the default partition a bound too, the text \<open>DEFAULT\<close>, and lists by name, the last
  name first.\<close>

definition ListPartitions :: "PgLib \<Rightarrow> PartitionTable \<Rightarrow> Partition list" where
  "ListPartitions P db =
     rev (sort_key pa_Name
       (map (\<lambda>(n, r, rs). listed P n (pg_bound P r) rs) (pt_parts db) @ [listed P defaultName ''DEFAULT'' (pt_default db)]))"

section \<open>Pruning and the job\<close>

datatype prune_error = RetentionTooShort duration

definition expired :: "instant \<Rightarrow> Partition \<Rightarrow> bool" where
  "expired cutoff p \<longleftrightarrow> \<not> (is_zero_time (pa_From p) \<or> is_zero_time (pa_To p)) \<and> pa_To p < cutoff"

definition dropTable :: "string \<Rightarrow> PartitionTable \<Rightarrow> PartitionTable" where
  "dropTable name db =
     db\<lparr>pt_parts := filter (\<lambda>(n, _). n \<noteq> name) (pt_parts db),
        pt_default := (if name = defaultName then [] else pt_default db)\<rparr>"

fun pruneLoop :: "instant \<Rightarrow> bool \<Rightarrow> Partition list \<Rightarrow> PartitionTable \<Rightarrow> Partition list \<times> PartitionTable" where
  "pruneLoop cutoff dryRun [] db = ([], db)"
| "pruneLoop cutoff dryRun (p # ps) db =
     (if \<not> expired cutoff p then pruneLoop cutoff dryRun ps db
      else let (dropped, db) = pruneLoop cutoff dryRun ps (if dryRun then db else dropTable (pa_Name p) db)
           in (p # dropped, db))"

definition Prune ::
    "PgLib \<Rightarrow> instant \<Rightarrow> duration \<Rightarrow> bool \<Rightarrow> PartitionTable \<Rightarrow> (prune_error + Partition list) \<times> PartitionTable" where
  "Prune P now retain dryRun db =
     (if retain < 24 * hour then (Inl (RetentionTooShort retain), db)
      else let (dropped, db) = pruneLoop (now - retain) dryRun (ListPartitions P db) db in (Inr dropped, db))"

definition DefaultPartitionRows :: "PartitionTable \<Rightarrow> int" where
  "DefaultPartitionRows db = int (length (pt_default db))"

datatype job_error = JobProvision pg_error | JobPrune prune_error

record JobReport =
  jr_Created :: "string list"
  jr_Dropped :: "Partition list"
  jr_Partitions :: "Partition list"
  jr_DefaultPartitionRows :: int
  jr_TotalBytes :: int
  jr_Warning :: bool

definition RunJob ::
    "Calendar \<Rightarrow> PgLib \<Rightarrow> instant \<Rightarrow> instant \<Rightarrow> duration \<Rightarrow> bool \<Rightarrow> PartitionTable \<Rightarrow> (job_error + JobReport) \<times> PartitionTable" where
  "RunJob C P at now retain dryRun db =
     (case Provision C at db of
        (Inl err, db) \<Rightarrow> (Inl (JobProvision err), db)
      | (Inr created, db) \<Rightarrow>
          (case Prune P now retain dryRun db of
             (Inl err, db) \<Rightarrow> (Inl (JobPrune err), db)
           | (Inr dropped, db) \<Rightarrow>
               (Inr \<lparr>jr_Created = created, jr_Dropped = dropped, jr_Partitions = ListPartitions P db,
                     jr_DefaultPartitionRows = DefaultPartitionRows db,
                     jr_TotalBytes = foldl (\<lambda>n p. wrap64 (n + pa_Bytes p)) 0 (ListPartitions P db),
                     jr_Warning = DefaultPartitionRows db > 0\<rparr>, db)))"

text \<open>\<open>statushubctl partitions run\<close> turns days into a duration in 64 bits.\<close>

definition retainDuration :: "int \<Rightarrow> duration" where
  "retainDuration days = wrap64 (wrap64 (days * 24) * hour)"

section \<open>The job keeps what it must\<close>

definition calendar :: "Calendar \<Rightarrow> bool" where
  "calendar C \<longleftrightarrow> (\<forall>i j. i < j \<longrightarrow> cal_start C i < cal_start C j)"

definition monthRange :: "Calendar \<Rightarrow> nat \<Rightarrow> instant \<times> instant" where
  "monthRange C i = (cal_start C i, cal_start C (i + 1))"

definition rowsOf :: "PartitionTable \<Rightarrow> (string \<times> instant) multiset" where
  "rowsOf db = mset (concat (map (\<lambda>(_, _, rs). rs) (pt_parts db))) + mset (pt_default db)"

definition part_ok :: "Calendar \<Rightarrow> string \<Rightarrow> instant \<times> instant \<Rightarrow> rows \<Rightarrow> bool" where
  "part_ok C n r rs \<longleftrightarrow> (\<exists>i. n = partitionName i \<and> r = monthRange C i) \<and> list_all (\<lambda>(_, t). inRange r t) rs"

definition table_ok :: "Calendar \<Rightarrow> PartitionTable \<Rightarrow> bool" where
  "table_ok C db \<longleftrightarrow>
     distinct (map fst (pt_parts db))
     \<and> (\<forall>n r rs. (n, r, rs) \<in> set (pt_parts db) \<longrightarrow> part_ok C n r rs \<and> list_all (\<lambda>(_, t). \<not> inRange r t) (pt_default db))"

lemma next_month:
  assumes "calendar C" "i < j"
  shows "cal_start C (i + 1) \<le> cal_start C j"
proof (cases "i + 1 = j")
  case False
  with assms(2) have "i + 1 < j" by simp
  with assms(1) show ?thesis unfolding calendar_def by (intro less_imp_le) blast
qed simp

lemma months_disjoint:
  assumes "calendar C" "i \<noteq> j"
  shows "\<not> (fst (monthRange C i) < snd (monthRange C j) \<and> fst (monthRange C j) < snd (monthRange C i))"
proof (cases "i < j")
  case True
  then show ?thesis using next_month [OF assms(1) True] by (simp add: monthRange_def)
next
  case False
  then have "j < i" using assms(2) by simp
  then show ?thesis using next_month [OF assms(1), of j i] by (simp add: monthRange_def)
qed

lemma defaultName_eleventh: "defaultName ! 11 = CHR ''d''"
  by (simp add: defaultName_def)

lemma part_ok_default: "part_ok C n r rs \<Longrightarrow> n \<noteq> defaultName"
proof -
  have "partitionName i ! 11 \<noteq> CHR ''d''" for i
  proof -
    have digits: "list_all is_digit (padTo 4 (show_nat (i div 12)))" 
      using show_nat_digits [of "i div 12"] by (auto simp: padTo_def list_all_iff)
    have ne: "padTo 4 (show_nat (i div 12)) \<noteq> []" using show_nat_nonempty by (simp add: padTo_def)
    then obtain c cs where c: "padTo 4 (show_nat (i div 12)) = c # cs" by (cases "padTo 4 (show_nat (i div 12))") auto
    with digits have "c \<noteq> CHR ''d''" by (auto simp: is_digit_def)
    then show ?thesis by (simp add: partitionName_def c)
  qed
  then have "partitionName i \<noteq> defaultName" for i by (metis defaultName_eleventh)
  moreover assume "part_ok C n r rs"
  ultimately show ?thesis by (auto simp: part_ok_def)
qed

lemma execCreate_month:
  assumes "calendar C" "table_ok C db" "\<not> existsPartition (partitionName i) db"
  shows "execCreate (partitionName i) (monthRange C i) db =
    (if list_ex (\<lambda>(_, t). inRange (monthRange C i) t) (pt_default db) then Inl DefaultOverlap
     else Inr (db\<lparr>pt_parts := pt_parts db @ [(partitionName i, monthRange C i, [])]\<rparr>))"
proof -
  have "\<not> (fst (monthRange C i) < snd r \<and> fst r < snd (monthRange C i))" if "(n, r, rs) \<in> set (pt_parts db)" for n r rs
  proof -
    from assms(2) that obtain j where j: "n = partitionName j" "r = monthRange C j"
      unfolding table_ok_def part_ok_def by blast
    with that assms(3) have "i \<noteq> j" by (force simp: existsPartition_def)
    then show ?thesis using months_disjoint [OF assms(1)] j by blast
  qed
  then have "\<not> list_ex (\<lambda>(_, q, _). fst (monthRange C i) < snd q \<and> fst q < snd (monthRange C i)) (pt_parts db)"
    by (auto simp: list_ex_iff)
  with assms(3) show ?thesis by (simp only: execCreate_def if_False)
qed

definition provisioned :: "Calendar \<Rightarrow> nat \<Rightarrow> PartitionTable \<Rightarrow> PartitionTable" where
  "provisioned C i db =
     (if existsPartition (partitionName i) db then db
      else \<lparr>pt_parts = pt_parts db @ [(partitionName i, monthRange C i, filter (\<lambda>(_, t). inRange (monthRange C i) t) (pt_default db))],
            pt_default = filter (\<lambda>(_, t). \<not> inRange (monthRange C i) t) (pt_default db)\<rparr>)"

lemma insertInto_last:
  assumes "name \<notin> fst ` set ps"
  shows "map (\<lambda>(n, q, rs). (n, q, if n = name then rs @ moved else rs)) (ps @ [(name, r, [])]) = ps @ [(name, r, moved)]"
  using assms by (induction ps) auto

lemma createPartition_month:
  assumes "calendar C" "table_ok C db" "\<not> existsPartition (partitionName i) db"
  shows "createPartition (partitionName i) (monthRange C i) db = Inr (provisioned C i db)"
proof (cases "list_ex (\<lambda>(_, t). inRange (monthRange C i) t) (pt_default db)")
  case True
  have alone: "table_ok C (db\<lparr>pt_default := []\<rparr>)" "\<not> existsPartition (partitionName i) (db\<lparr>pt_default := []\<rparr>)"
    using assms(2,3) by (auto simp: table_ok_def existsPartition_def)
  have "partitionName i \<notin> fst ` set (pt_parts db)" using assms(3) by (simp add: existsPartition_def)
  note ins = insertInto_last [OF this]
  show ?thesis
    using True assms(3) execCreate_month [OF assms] execCreate_month [OF assms(1) alone]
    by (simp add: createPartition_def insertInto_def ins provisioned_def Let_def del: map_append)
next
  case False
  then have "filter (\<lambda>(_, t). inRange (monthRange C i) t) (pt_default db) = []"
    "filter (\<lambda>(_, t). \<not> inRange (monthRange C i) t) (pt_default db) = pt_default db"
    by (auto simp: list_ex_iff filter_empty_conv filter_id_conv)
  then show ?thesis
    using False assms(3) execCreate_month [OF assms] by (simp add: createPartition_def provisioned_def)
qed

lemma provisioned_ok:
  assumes "calendar C" "table_ok C db"
  shows "table_ok C (provisioned C i db)" "rowsOf (provisioned C i db) = rowsOf db"
    "existsPartition n (provisioned C i db) \<longleftrightarrow> n = partitionName i \<or> existsPartition n db"
proof -
  let ?new = "(partitionName i, monthRange C i, filter (\<lambda>(_, t). inRange (monthRange C i) t) (pt_default db))"
  show "table_ok C (provisioned C i db)"
  proof (cases "existsPartition (partitionName i) db")
    case False
    have "part_ok C n r rs \<and> list_all (\<lambda>(_, t). \<not> inRange r t) (filter (\<lambda>(_, t). \<not> inRange (monthRange C i) t) (pt_default db))"
      if "(n, r, rs) \<in> set (pt_parts db @ [?new])" for n r rs
    proof (cases "(n, r, rs) \<in> set (pt_parts db)")
      case True
      then have "part_ok C n r rs" "list_all (\<lambda>(_, t). \<not> inRange r t) (pt_default db)"
        using assms(2) unfolding table_ok_def by blast+
      then show ?thesis by (simp add: list_all_iff)
    next
      case False
      with that have "n = partitionName i" "r = monthRange C i" "rs = filter (\<lambda>(_, t). inRange (monthRange C i) t) (pt_default db)"
        by simp_all
      then show ?thesis by (auto simp: part_ok_def list_all_iff)
    qed
    moreover have "distinct (map fst (pt_parts db @ [?new]))"
      using False assms(2) by (auto simp: table_ok_def existsPartition_def)
    ultimately show ?thesis using False by (simp add: provisioned_def table_ok_def)
  qed (use assms(2) in \<open>simp add: provisioned_def\<close>)
  have "mset (filter P xs) + mset (filter (\<lambda>x. \<not> P x) xs) = mset xs" for P and xs :: rows
    by (induction xs) auto
  from this [of "\<lambda>(_, t). inRange (monthRange C i) t" "pt_default db"]
  show "rowsOf (provisioned C i db) = rowsOf db"
    by (simp add: provisioned_def rowsOf_def case_prod_unfold)
  show "existsPartition n (provisioned C i db) \<longleftrightarrow> n = partitionName i \<or> existsPartition n db"
    by (auto simp: provisioned_def existsPartition_def)
qed

lemma provisionMonths_ok:
  assumes "calendar C" "table_ok C db"
  shows "\<exists>names. provisionMonths C is created db = (Inr (created @ names), foldl (\<lambda>db i. provisioned C i db) db is)
    \<and> table_ok C (foldl (\<lambda>db i. provisioned C i db) db is) \<and> rowsOf (foldl (\<lambda>db i. provisioned C i db) db is) = rowsOf db
    \<and> (\<forall>i\<in>set is. existsPartition (partitionName i) (foldl (\<lambda>db i. provisioned C i db) db is))
    \<and> (\<forall>n. existsPartition n db \<longrightarrow> existsPartition n (foldl (\<lambda>db i. provisioned C i db) db is))"
  using assms(2)
proof (induction "is" arbitrary: created db)
  case (Cons i "is")
  note ok = provisioned_ok [OF assms(1) Cons.prems, where i = i]
  let ?c = "if existsPartition (partitionName i) db then created else created @ [partitionName i]"
  have step: "provisionMonths C (i # is) created db = provisionMonths C is ?c (provisioned C i db)"
    using createPartition_month [OF assms(1) Cons.prems, of i] by (simp add: Let_def monthRange_def provisioned_def)
  from Cons.IH [OF ok(1), of ?c] obtain names where
    "provisionMonths C is ?c (provisioned C i db) = (Inr (?c @ names), foldl (\<lambda>db i. provisioned C i db) (provisioned C i db) is)"
    and rest: "table_ok C (foldl (\<lambda>db i. provisioned C i db) (provisioned C i db) is)"
      "rowsOf (foldl (\<lambda>db i. provisioned C i db) (provisioned C i db) is) = rowsOf (provisioned C i db)"
      "\<forall>j\<in>set is. existsPartition (partitionName j) (foldl (\<lambda>db i. provisioned C i db) (provisioned C i db) is)"
      "\<forall>n. existsPartition n (provisioned C i db) \<longrightarrow> existsPartition n (foldl (\<lambda>db i. provisioned C i db) (provisioned C i db) is)"
    by blast
  with step have "\<exists>names. provisionMonths C (i # is) created db
      = (Inr (created @ names), foldl (\<lambda>db i. provisioned C i db) db (i # is))" by (auto split: if_splits)
  with rest ok show ?case by auto
qed simp

lemma padTo_value: "nat_of_digits (padTo w (show_nat n)) = n"
  by (simp add: padTo_def nat_of_digits_append)

lemma partitionName_inject: "partitionName i = partitionName j \<longleftrightarrow> i = j"
proof
  let ?y = "\<lambda>i. padTo 4 (show_nat (i div 12))" and ?m = "\<lambda>i. padTo 2 (show_nat (i mod 12 + 1))"
  have two: "length (?m k) = 2" for k
  proof -
    have "length (show_nat (k mod 12 + 1)) \<le> 2" by (rule length_show_nat_le) (simp_all add: less_Suc_eq_le)
    then show ?thesis by (simp add: padTo_def)
  qed
  assume "partitionName i = partitionName j"
  then have "(?y i @ ''_'') @ ?m i = (?y j @ ''_'') @ ?m j" by (simp add: partitionName_def)
  then have "?y i = ?y j" "?m i = ?m j" using two [of i] two [of j] by (simp_all add: append_eq_append_conv)
  then have "i div 12 = j div 12" "i mod 12 = j mod 12" by (metis padTo_value, metis padTo_value add_right_cancel)
  then show "i = j" by (metis div_mult_mod_eq)
qed simp

lemma month_clear:
  assumes "table_ok C db" "existsPartition (partitionName i) db"
  shows "list_all (\<lambda>(_, t). \<not> inRange (monthRange C i) t) (pt_default db)"
proof -
  obtain r rs where p: "(partitionName i, r, rs) \<in> set (pt_parts db)" using assms(2) by (auto simp: existsPartition_def)
  with assms(1) have "part_ok C (partitionName i) r rs" "list_all (\<lambda>(_, t). \<not> inRange r t) (pt_default db)"
    unfolding table_ok_def by blast+
  then show ?thesis by (auto simp: part_ok_def partitionName_inject)
qed

text \<open>
  C37: Provisioning recovers from any number of missed runs. Whatever rows have piled up in the default partition, it
  succeeds, loses no row, leaves this month and the next three with a partition each and no row of theirs in the default
  partition, and running it again creates nothing.
\<close>

theorem provisioning_recovers:
  assumes "calendar C" and "table_ok C db"
  shows "\<exists>created db'. Provision C now db = (Inr created, db') \<and> table_ok C db' \<and> rowsOf db' = rowsOf db
    \<and> list_all (\<lambda>k. existsPartition (partitionName (cal_month C now + k)) db'
          \<and> list_all (\<lambda>(_, t). \<not> inRange (monthRange C (cal_month C now + k)) t) (pt_default db')) [0, 1, 2, 3]
    \<and> Provision C now db' = (Inr [], db')"
proof -
  let ?is = "map (\<lambda>i. monthStart C now + i) [0..<AheadMonths + 1]"
  let ?db = "foldl (\<lambda>db i. provisioned C i db) db ?is"
  from provisionMonths_ok [OF assms, of ?is "[]"] obtain created where run: "Provision C now db = (Inr created, ?db)"
    and ok: "table_ok C ?db" "rowsOf ?db = rowsOf db" "\<forall>i\<in>set ?is. existsPartition (partitionName i) ?db"
    by (auto simp: Provision_def)
  have again: "provisionMonths C js cs ?db = (Inr cs, ?db)" if "\<forall>i\<in>set js. existsPartition (partitionName i) ?db" for js cs
    using that by (induction js) (simp_all add: Let_def)
  have "[0, 1, 2, 3] = [0..<AheadMonths + 1]" by (simp add: AheadMonths_def upt_rec)
  then have "list_all (\<lambda>k. existsPartition (partitionName (cal_month C now + k)) ?db) [0, 1, 2, 3]"
    using ok(3) by (simp add: list_all_iff monthStart_def)
  then show ?thesis
    using run ok(1,2) again [OF ok(3), of "[]"] month_clear [OF ok(1)] by (auto simp: Provision_def)
qed

lemma parts_of_dropTable:
  fixes ps :: "(string \<times> (instant \<times> instant) \<times> rows) list"
  assumes "\<forall>r rs. (name, r, rs) \<in> set ps \<longrightarrow> list_all (\<lambda>(_, t). t < cutoff) rs"
  shows "filter_mset (\<lambda>(_, t). cutoff \<le> t) (mset (concat (map (\<lambda>(_, _, rs). rs) (filter (\<lambda>(n, _). n \<noteq> name) ps))))
    = filter_mset (\<lambda>(_, t). cutoff \<le> t) (mset (concat (map (\<lambda>(_, _, rs). rs) ps)))"
  using assms
proof (induction ps)
  case (Cons p ps)
  obtain n r rs where p: "p = (n, r, rs)" by (cases p)
  have "filter_mset (\<lambda>(_, t). cutoff \<le> t) (mset rs) = {#}" if "n = name"
  proof -
    have "(name, r, rs) \<in> set ((n, r, rs) # ps)" using that by simp
    with Cons.prems have "list_all (\<lambda>(_, t). t < cutoff) rs" unfolding p by blast
    then have "filter (\<lambda>(_, t). cutoff \<le> t) rs = []" by (induction rs) auto
    then have "mset (filter (\<lambda>(_, t). cutoff \<le> t) rs) = {#}" by simp
    then show ?thesis by (simp only: mset_filter)
  qed
  with Cons show ?case by (auto simp: p)
qed simp

lemma pruneLoop_keeps:
  assumes "\<forall>p\<in>set ps. expired cutoff p \<longrightarrow> pa_Name p \<noteq> defaultName
      \<and> (\<forall>r rs. (pa_Name p, r, rs) \<in> set (pt_parts db) \<longrightarrow> list_all (\<lambda>(_, t). t < cutoff) rs)"
  shows "filter_mset (\<lambda>(_, t). cutoff \<le> t) (rowsOf (snd (pruneLoop cutoff dry ps db))) = filter_mset (\<lambda>(_, t). cutoff \<le> t) (rowsOf db)
    \<and> pt_default (snd (pruneLoop cutoff dry ps db)) = pt_default db"
  using assms
proof (induction ps arbitrary: db)
  case (Cons p ps)
  let ?db = "if expired cutoff p \<and> \<not> dry then dropTable (pa_Name p) db else db"
  have run: "snd (pruneLoop cutoff dry (p # ps) db) = snd (pruneLoop cutoff dry ps ?db)" by (simp add: case_prod_beta)
  have "\<forall>q\<in>set ps. expired cutoff q \<longrightarrow> pa_Name q \<noteq> defaultName
      \<and> (\<forall>r rs. (pa_Name q, r, rs) \<in> set (pt_parts ?db) \<longrightarrow> list_all (\<lambda>(_, t). t < cutoff) rs)"
    using Cons.prems by (auto simp: dropTable_def)
  note IH = Cons.IH [OF this]
  have "filter_mset (\<lambda>(_, t). cutoff \<le> t) (rowsOf ?db) = filter_mset (\<lambda>(_, t). cutoff \<le> t) (rowsOf db) \<and> pt_default ?db = pt_default db"
  proof (cases "expired cutoff p \<and> \<not> dry")
    case True
    then have "pa_Name p \<noteq> defaultName" "\<forall>r rs. (pa_Name p, r, rs) \<in> set (pt_parts db) \<longrightarrow> list_all (\<lambda>(_, t). t < cutoff) rs"
      using Cons.prems by auto
    with True parts_of_dropTable [OF this(2)] show ?thesis by (simp add: dropTable_def rowsOf_def)
  next
    case False
    then show ?thesis by (simp only: if_False)
  qed
  with IH run show ?case by simp
qed simp

lemma listed_expired:
  assumes "expired cutoff (listed P n bound rs)"
  obtains r where "parseBound P bound = Some r" "snd r < cutoff"
  using assms by (cases "parseBound P bound") (auto simp: expired_def listed_def is_zero_time_def Let_def)

lemma ListPartitions_expired:
  assumes "table_ok C db" "\<forall>r q. parseBound P (pg_bound P r) = Some q \<longrightarrow> q = r"
    and "p \<in> set (ListPartitions P db)" "expired cutoff p"
  shows "pa_Name p \<noteq> defaultName \<and> (\<forall>r rs. (pa_Name p, r, rs) \<in> set (pt_parts db) \<longrightarrow> list_all (\<lambda>(_, t). t < cutoff) rs)"
proof -
  have "parseBound P ''DEFAULT'' = None" by (simp add: parseBound_def)
  then have "\<not> expired cutoff (listed P defaultName ''DEFAULT'' (pt_default db))"
    using listed_expired by (metis option.distinct(1))
  with assms(3,4) obtain n r rs where p: "(n, r, rs) \<in> set (pt_parts db)" "p = listed P n (pg_bound P r) rs"
    by (auto simp: ListPartitions_def)
  obtain q where "parseBound P (pg_bound P r) = Some q" "snd q < cutoff" using assms(4) p(2) listed_expired by metis
  then have late: "snd r < cutoff" using assms(2) by metis
  from p(1) assms(1) have ok: "part_ok C n r rs" and d: "distinct (map fst (pt_parts db))" unfolding table_ok_def by blast+
  have name: "pa_Name p = n" by (simp add: p(2) listed_def Let_def)
  have "r' = r \<and> rs' = rs" if "(n, r', rs') \<in> set (pt_parts db)" for r' rs'
    using that p(1) d by (auto dest: eq_key_imp_eq_value)
  moreover have "list_all (\<lambda>(_, t). t < cutoff) rs"
    using ok late by (auto simp: part_ok_def list_all_iff inRange_def)
  ultimately show ?thesis using part_ok_default [OF ok] name by auto
qed

lemma pruneLoop_exact:
  assumes "\<forall>p\<in>set ps. expired cutoff p \<longrightarrow> pa_Name p \<noteq> defaultName"
  shows "snd (pruneLoop cutoff dry ps db) =
    (if dry then db
     else db\<lparr>pt_parts := filter (\<lambda>x. \<forall>p\<in>set ps. expired cutoff p \<longrightarrow> pa_Name p \<noteq> fst x) (pt_parts db)\<rparr>)"
  using assms
proof (induction ps arbitrary: db)
  case Nil
  then show ?case by (simp add: case_prod_beta)
next
  case (Cons p ps)
  then show ?case
    by (auto simp: case_prod_beta dropTable_def intro!: arg_cong [where f = "\<lambda>x. db\<lparr>pt_parts := x\<rparr>"] filter_cong)
qed

text \<open>A month expires when its range reads back from the catalogue and ends before the cutoff.\<close>

definition expires :: "PgLib \<Rightarrow> instant \<Rightarrow> instant \<times> instant \<Rightarrow> bool" where
  "expires P cutoff r \<longleftrightarrow>
     parseBound P (pg_bound P r) = Some r \<and> \<not> is_zero_time (fst r) \<and> \<not> is_zero_time (snd r) \<and> snd r < cutoff"

lemma Prune_exact:
  assumes "table_ok C db" "\<forall>r q. parseBound P (pg_bound P r) = Some q \<longrightarrow> q = r"
  shows "snd (pruneLoop cutoff dry (ListPartitions P db) db) =
    (if dry then db else db\<lparr>pt_parts := filter (\<lambda>(_, r, _). \<not> expires P cutoff r) (pt_parts db)\<rparr>)"
proof -
  let ?ps = "ListPartitions P db"
  have own: "(\<forall>p\<in>set ?ps. expired cutoff p \<longrightarrow> pa_Name p \<noteq> n) \<longleftrightarrow> \<not> expires P cutoff r"
    if m: "(n, r, rs) \<in> set (pt_parts db)" for n r rs
  proof -
    have d: "distinct (map fst (pt_parts db))" and "n \<noteq> defaultName"
      using m assms(1) part_ok_default unfolding table_ok_def by blast+
    have e: "expired cutoff (listed P n (pg_bound P r') rs') \<longleftrightarrow> expires P cutoff r'" for r' rs'
    proof (cases "parseBound P (pg_bound P r')")
      case None
      then show ?thesis by (simp add: expired_def expires_def listed_def Let_def is_zero_time_def)
    next
      case (Some q)
      then have "q = r'" using assms(2) by blast
      with Some show ?thesis by (simp add: expired_def expires_def listed_def Let_def)
    qed
    have "p = listed P n (pg_bound P r) rs" if p: "p \<in> set ?ps" "pa_Name p = n" for p
    proof -
      from p \<open>n \<noteq> defaultName\<close> obtain r' rs' where q: "(n, r', rs') \<in> set (pt_parts db)" "p = listed P n (pg_bound P r') rs'"
        by (auto simp: ListPartitions_def listed_def Let_def)
      from eq_key_imp_eq_value [OF d q(1) m] have "(r', rs') = (r, rs)" .
      with q(2) show ?thesis by simp
    qed
    moreover have "listed P n (pg_bound P r) rs \<in> set ?ps" using m by (force simp: ListPartitions_def)
    moreover have "pa_Name (listed P n (pg_bound P r) rs) = n" by (simp add: listed_def Let_def)
    ultimately show ?thesis using e by metis
  qed
  have "filter (\<lambda>x. \<forall>p\<in>set ?ps. expired cutoff p \<longrightarrow> pa_Name p \<noteq> fst x) (pt_parts db)
      = filter (\<lambda>(_, r, _). \<not> expires P cutoff r) (pt_parts db)"
  proof (intro filter_cong refl)
    fix x
    assume "x \<in> set (pt_parts db)"
    then show "(\<forall>p\<in>set ?ps. expired cutoff p \<longrightarrow> pa_Name p \<noteq> fst x) = (case x of (_, r, _) \<Rightarrow> \<not> expires P cutoff r)"
      using own [of "fst x" "fst (snd x)" "snd (snd x)"] by (simp add: case_prod_beta)
  qed
  moreover have "\<forall>p\<in>set ?ps. expired cutoff p \<longrightarrow> pa_Name p \<noteq> defaultName"
    using ListPartitions_expired [OF assms] by blast
  ultimately show ?thesis by (simp add: pruneLoop_exact)
qed

text \<open>
  C38: The daily job deletes what has expired and nothing a tenant is entitled to. A retention under a day is refused
  and deletes nothing. Otherwise the job succeeds; after provisioning, which loses no row, exactly the partitions whose
  month ended before the retention are dropped, none in a dry run; so every row received within the retention, wherever it
  is, the default partition included, is there afterwards exactly as often as before. The ranges Postgres prints have to
  read back as themselves or not at all, and a month whose range does not read back is kept.
\<close>

theorem daily_job_keeps_window:
  assumes "calendar C" and "table_ok C db"
    and "\<forall>r q. parseBound P (pg_bound P r) = Some q \<longrightarrow> q = r"
  shows "\<exists>created db1. Provision C at db = (Inr created, db1) \<and> rowsOf db1 = rowsOf db \<and>
    (if retain < 24 * hour then RunJob C P at now retain dryRun db = (Inl (JobPrune (RetentionTooShort retain)), db1)
     else \<exists>report db'. RunJob C P at now retain dryRun db = (Inr report, db')
       \<and> db' = (if dryRun then db1
                else db1\<lparr>pt_parts := filter (\<lambda>(_, r, _). \<not> expires P (now - retain) r) (pt_parts db1)\<rparr>)
       \<and> filter_mset (\<lambda>(_, t). now - retain \<le> t) (rowsOf db') = filter_mset (\<lambda>(_, t). now - retain \<le> t) (rowsOf db)
       \<and> jr_DefaultPartitionRows report = int (length (pt_default db')) \<and> (jr_Warning report \<longleftrightarrow> pt_default db' \<noteq> []))"
proof -
  let ?is = "map (\<lambda>i. monthStart C at + i) [0..<AheadMonths + 1]"
  from provisionMonths_ok [OF assms(1,2), of ?is "[]"] obtain created db1 where run: "Provision C at db = (Inr created, db1)"
    and ok: "table_ok C db1" "rowsOf db1 = rowsOf db" by (auto simp: Provision_def)
  let ?ps = "ListPartitions P db1"
  have "\<forall>p\<in>set ?ps. expired (now - retain) p \<longrightarrow> pa_Name p \<noteq> defaultName
      \<and> (\<forall>r rs. (pa_Name p, r, rs) \<in> set (pt_parts db1) \<longrightarrow> list_all (\<lambda>(_, t). t < now - retain) rs)"
    using ListPartitions_expired [OF ok(1) assms(3)] by blast
  from pruneLoop_keeps [OF this, of dryRun]
  have kept: "filter_mset (\<lambda>(_, t). now - retain \<le> t) (rowsOf (snd (pruneLoop (now - retain) dryRun ?ps db1)))
      = filter_mset (\<lambda>(_, t). now - retain \<le> t) (rowsOf db)" using ok(2) by simp
  show ?thesis
  proof (cases "retain < 24 * hour")
    case True
    then have "RunJob C P at now retain dryRun db = (Inl (JobPrune (RetentionTooShort retain)), db1)"
      by (simp add: RunJob_def Prune_def run)
    with True run ok(2) show ?thesis by (intro exI [of _ created] exI [of _ db1]) simp
  next
    case False
    obtain dropped db' where p: "pruneLoop (now - retain) dryRun ?ps db1 = (dropped, db')" by fastforce
    obtain report where j: "RunJob C P at now retain dryRun db = (Inr report, db')"
        "jr_DefaultPartitionRows report = int (length (pt_default db'))" "jr_Warning report \<longleftrightarrow> pt_default db' \<noteq> []"
      using False by (simp add: RunJob_def Prune_def run p DefaultPartitionRows_def)
    have "db' = (if dryRun then db1
        else db1\<lparr>pt_parts := filter (\<lambda>(_, r, _). \<not> expires P (now - retain) r) (pt_parts db1)\<rparr>)"
      using Prune_exact [OF ok(1) assms(3), of "now - retain" dryRun] p by simp
    with False run ok(2) j kept p show ?thesis
      by (intro exI [of _ created] exI [of _ db1]) simp
  qed
qed

text \<open>
  A number of days that overflows the duration is not always refused: 213505 days, asked for to keep everything, wrap
  to a day and twenty-five minutes, and the job drops every month that ended before that.
\<close>

lemma retention_days_wrap:
  "24 * hour \<le> retainDuration 213505 \<and> retainDuration 213505 < 25 * hour"
  by (simp add: retainDuration_def wrap64_def hour_def minute_def second_def)

section \<open>A sample table\<close>

definition plainCalendar :: Calendar where
  "plainCalendar = \<lparr>cal_month = (\<lambda>t. nat t div 100), cal_start = (\<lambda>i. 100 * int i)\<rparr>"

definition plainPg :: PgLib where
  "plainPg = \<lparr>pg_parse = (\<lambda>_ _. None), pg_bound = (\<lambda>_. []), pg_bytes = (\<lambda>rs. int (length rs))\<rparr>"

definition stranded :: PartitionTable where
  "stranded = \<lparr>pt_parts = [(partitionName 7, monthRange plainCalendar 7, [(''a'', 720)])], pt_default = [(''b'', 850), (''c'', 10)]\<rparr>"

lemma stranded_ok: "calendar plainCalendar" "table_ok plainCalendar stranded"
  by (auto simp: calendar_def plainCalendar_def table_ok_def part_ok_def stranded_def monthRange_def inRange_def)

theorem provisioning_recovers_witness:
  "\<exists>created db'. Provision plainCalendar 800 stranded = (Inr created, db') \<and> rowsOf db' = rowsOf stranded
     \<and> existsPartition (partitionName 8) db' \<and> Provision plainCalendar 800 db' = (Inr [], db')"
proof -
  have "cal_month plainCalendar 800 = 8" by (simp add: plainCalendar_def)
  with provisioning_recovers [OF stranded_ok, of 800] show ?thesis by fastforce
qed

text \<open>
  A database that prints a range as two quoted numbers, read back by the first layout, and months of thirty days. The
  job runs when the tenth month begins, with the shortest retention: the seventh month is dropped, the ninth kept, and
  the row of the default partition that belongs to the tenth month moved into it.
\<close>

definition longCalendar :: Calendar where
  "longCalendar = \<lparr>cal_month = (\<lambda>t. nat (t div (720 * hour))), cal_start = (\<lambda>i. 720 * hour * int i)\<rparr>"

definition quotingPg :: PgLib where
  "quotingPg =
     \<lparr>pg_parse = (\<lambda>layout s. if s \<noteq> [] \<and> list_all is_digit s then Some (int (nat_of_digits s)) else None),
      pg_bound = (\<lambda>(a, b). if 0 \<le> a \<and> 0 \<le> b
        then ''FROM ('' @ CHR 0x27 # show_nat (nat a) @ CHR 0x27 # '') TO ('' @ CHR 0x27 # show_nat (nat b) @ CHR 0x27 # '')''
        else []),
      pg_bytes = (\<lambda>rs. int (length rs))\<rparr>"

lemma quotedParts_inside:
  "list_all (\<lambda>c. c \<noteq> CHR 0x27) ds \<Longrightarrow> quotedParts True cur (ds @ CHR 0x27 # cs) = (cur @ ds) # quotedParts False [] cs"
  by (induction ds arbitrary: cur) auto

lemma show_nat_unquoted: "list_all (\<lambda>c. c \<noteq> CHR 0x27) (show_nat n)"
proof -
  have "is_digit c \<Longrightarrow> c \<noteq> CHR 0x27" for c by (auto simp: is_digit_def)
  then show ?thesis using show_nat_digits [of n] by (auto simp: list_all_iff)
qed

lemma quotingPg_reads: "parseBound quotingPg (pg_bound quotingPg r) = (if 0 \<le> fst r \<and> 0 \<le> snd r then Some r else None)"
proof (cases "0 \<le> fst r \<and> 0 \<le> snd r")
  case True
  obtain a b where r: "r = (a, b)" by (cases r)
  have "quotedParts False [] (pg_bound quotingPg r) = [show_nat (nat a), show_nat (nat b)]"
    using True by (simp add: r quotingPg_def quotedParts_inside show_nat_unquoted)
  with True show ?thesis by (simp add: r parseBound_def) (simp add: quotingPg_def)
next
  case False
  then have "pg_bound quotingPg r = []" by (cases r) (auto simp: quotingPg_def)
  with False show ?thesis by (auto simp: parseBound_def)
qed

definition agedTable :: PartitionTable where
  "agedTable =
     \<lparr>pt_parts = [(partitionName 7, monthRange longCalendar 7, [(''old'', 7 * 720 * hour + 5)]),
                  (partitionName 9, monthRange longCalendar 9, [(''recent'', 9 * 720 * hour + 5)])],
      pt_default = [(''early'', 20), (''late'', 10 * 720 * hour + 1)]\<rparr>"

lemma agedTable_ok: "calendar longCalendar" "table_ok longCalendar agedTable"
  by (auto simp: calendar_def longCalendar_def table_ok_def part_ok_def agedTable_def monthRange_def inRange_def partitionName_inject
      hour_def minute_def second_def)

definition agedProvisioned :: PartitionTable where
  "agedProvisioned =
     \<lparr>pt_parts = pt_parts agedTable
        @ [(partitionName 10, monthRange longCalendar 10, [(''late'', 10 * 720 * hour + 1)]),
           (partitionName 11, monthRange longCalendar 11, []), (partitionName 12, monthRange longCalendar 12, []),
           (partitionName 13, monthRange longCalendar 13, [])],
      pt_default = [(''early'', 20)]\<rparr>"

lemma agedTable_provisioned:
  "Provision longCalendar (10 * 720 * hour) agedTable =
     (Inr [partitionName 10, partitionName 11, partitionName 12, partitionName 13], agedProvisioned)"
  by code_simp

theorem daily_job_keeps_window_witness:
  "\<exists>report db'. RunJob longCalendar quotingPg (10 * 720 * hour) (10 * 720 * hour) (24 * hour) False agedTable = (Inr report, db')
     \<and> mset (map fst (concat (map (\<lambda>(_, _, rs). rs) (pt_parts db')) @ pt_default db')) = {#''recent'', ''late'', ''early''#}
     \<and> RunJob longCalendar quotingPg (10 * 720 * hour) (10 * 720 * hour) (23 * hour) False agedTable
         = (Inl (JobPrune (RetentionTooShort (23 * hour))), agedProvisioned)"
proof -
  let ?now = "10 * 720 * hour"
  have reads: "\<forall>r q. parseBound quotingPg (pg_bound quotingPg r) = Some q \<longrightarrow> q = r" by (simp add: quotingPg_reads)
  note job = daily_job_keeps_window [OF agedTable_ok reads, of ?now _ ?now False]
  have "RunJob longCalendar quotingPg ?now ?now (23 * hour) False agedTable
      = (Inl (JobPrune (RetentionTooShort (23 * hour))), agedProvisioned)"
    using job [of "23 * hour"] unfolding agedTable_provisioned by (auto simp: hour_def minute_def second_def)
  moreover obtain report where "RunJob longCalendar quotingPg ?now ?now (24 * hour) False agedTable = (Inr report,
      agedProvisioned\<lparr>pt_parts := filter (\<lambda>(_, r, _). \<not> expires quotingPg (?now - 24 * hour) r) (pt_parts agedProvisioned)\<rparr>)"
    using job [of "24 * hour"] unfolding agedTable_provisioned by auto
  moreover have "map (\<lambda>(_, _, rs). rs) (filter (\<lambda>(_, r, _). \<not> expires quotingPg (?now - 24 * hour) r) (pt_parts agedProvisioned))
      = [[(''recent'', 9 * 720 * hour + 5)], [(''late'', 10 * 720 * hour + 1)], [], [], []]"
    unfolding expires_def quotingPg_reads
    by (simp add: agedProvisioned_def agedTable_def monthRange_def longCalendar_def is_zero_time_def zero_time_def
        hour_def minute_def second_def)
  ultimately show ?thesis by (auto simp: agedProvisioned_def)
qed

end
