(* ===== verification/Usage.thy ===== *)
theory Usage
  imports Data_Subject "HOL-Library.List_Lexorder" "HOL-Library.Char_ord"
begin

text \<open>
  The billing metric (\<^verbatim>\<open>internal/usage/usage.go\<close>). The queries are read as what they select from \<open>raw_events\<close>,
  \<open>deliveries\<close> and \<open>canonical_events\<close>, the tables of the in-memory store; the text of a day (\<open>to_char\<close> of the UTC day of an
  instant) and RFC 3339 formatting are parameters, and the sentences of the reconciliation are its numbers.
\<close>

section \<open>Reports\<close>

record Day =
  ud_Date :: string
  ud_Provider :: string
  ud_Received :: int
  ud_Rejected :: int
  ud_Normalised :: int
  ud_Delivered :: int
  ud_Bytes :: int

record UsageReport =
  ur_TenantID :: string
  ur_From :: string
  ur_To :: string
  ur_Days :: "Day list"
  ur_Total :: Day
  ur_GeneratedAt :: instant

record UsageLib =
  ul_day :: "instant \<Rightarrow> string"
  ul_rfc3339 :: "instant \<Rightarrow> string"

definition receivedIn :: "string \<Rightarrow> instant \<Rightarrow> instant \<Rightarrow> RawEvent \<Rightarrow> bool" where
  "receivedIn tenantID since until r \<longleftrightarrow>
     raw_TenantID r = tenantID \<and> gt_instant (raw_ReceivedAt r) \<ge> since \<and> gt_instant (raw_ReceivedAt r) < until"

definition dayKey :: "UsageLib \<Rightarrow> RawEvent \<Rightarrow> string \<times> string" where
  "dayKey U r = (ul_day U (gt_instant (raw_ReceivedAt r)), raw_Provider r)"

definition isNormalised :: "Memory \<Rightarrow> RawEvent \<Rightarrow> bool" where
  "isNormalised m r \<longleftrightarrow> map_of (mem_normalised m) (raw_ID r) \<noteq> None"

definition countDay :: "Memory \<Rightarrow> string \<times> string \<Rightarrow> RawEvent list \<Rightarrow> Day" where
  "countDay m k rs =
     \<lparr>ud_Date = fst k, ud_Provider = snd k, ud_Received = int (length rs),
      ud_Rejected = int (length (filter (\<lambda>r. \<not> raw_SignatureValid r) rs)),
      ud_Normalised = int (length (filter (isNormalised m) rs)), ud_Delivered = 0,
      ud_Bytes = int (sum_list (map (\<lambda>r. length (raw_Body r)) rs))\<rparr>"

definition groupKeys :: "(string \<times> string) list \<Rightarrow> (string \<times> string) list" where
  "groupKeys ks = sort_key fst (sort_key snd (remdups ks))"

definition usageDays :: "UsageLib \<Rightarrow> Memory \<Rightarrow> string \<Rightarrow> instant \<Rightarrow> instant \<Rightarrow> Day list" where
  "usageDays U m tenantID since until =
     (let rs = filter (receivedIn tenantID since until) (rawRows m)
      in map (\<lambda>k. countDay m k (filter (\<lambda>r. dayKey U r = k) rs)) (groupKeys (map (dayKey U) rs)))"

definition deliveredKeys :: "UsageLib \<Rightarrow> Memory \<Rightarrow> string \<Rightarrow> instant \<Rightarrow> instant \<Rightarrow> (string \<times> string) list" where
  "deliveredKeys U m tenantID since until =
     concat (map (\<lambda>d. if del_TenantID d = tenantID \<and> del_CreatedAt d \<ge> since \<and> del_CreatedAt d < until
                        \<and> del_Status d = DeliverySucceeded
                      then map (\<lambda>e. (ul_day U (del_CreatedAt d), ev_Provider e))
                             (filter (\<lambda>e. ev_ID e = del_EventID d) (eventRows m))
                      else []) (map snd (mem_deliveries m)))"

definition deliveredByDay :: "UsageLib \<Rightarrow> Memory \<Rightarrow> string \<Rightarrow> instant \<Rightarrow> instant \<Rightarrow> (string \<times> int) list" where
  "deliveredByDay U m tenantID since until =
     (let ks = deliveredKeys U m tenantID since until in
      foldl (\<lambda>out k. AList.update (fst k @ ''|'' @ snd k) (int (length (filter (\<lambda>j. j = k) ks))) out) [] (remdups ks))"

definition addDay :: "Day \<Rightarrow> Day \<Rightarrow> Day" where
  "addDay t d =
     t\<lparr>ud_Received := wrap64 (ud_Received t + ud_Received d), ud_Rejected := wrap64 (ud_Rejected t + ud_Rejected d),
       ud_Normalised := wrap64 (ud_Normalised t + ud_Normalised d), ud_Delivered := wrap64 (ud_Delivered t + ud_Delivered d),
       ud_Bytes := wrap64 (ud_Bytes t + ud_Bytes d)\<rparr>"

definition zeroDay :: "string \<Rightarrow> string \<Rightarrow> Day" where
  "zeroDay date provider =
     \<lparr>ud_Date = date, ud_Provider = provider, ud_Received = 0, ud_Rejected = 0, ud_Normalised = 0, ud_Delivered = 0, ud_Bytes = 0\<rparr>"

definition totalDays :: "Day list \<Rightarrow> Day" where
  "totalDays days = foldl addDay (zeroDay ''total'' ''all'') days"

definition fillDelivered :: "(string \<times> int) list \<Rightarrow> Day \<Rightarrow> Day" where
  "fillDelivered delivered d =
     d\<lparr>ud_Delivered := (case map_of delivered (ud_Date d @ ''|'' @ ud_Provider d) of Some n \<Rightarrow> n | None \<Rightarrow> 0)\<rparr>"

text \<open>The error is a period that does not end after it starts.\<close>

definition UsageOf ::
    "UsageLib \<Rightarrow> instant \<Rightarrow> Memory \<Rightarrow> string \<Rightarrow> instant \<Rightarrow> instant \<Rightarrow> UsageReport option" where
  "UsageOf U now m tenantID since until =
     (if \<not> until > since then None
      else
        let days = map (fillDelivered (deliveredByDay U m tenantID since until)) (usageDays U m tenantID since until)
        in Some \<lparr>ur_TenantID = tenantID, ur_From = ul_rfc3339 U since, ur_To = ul_rfc3339 U until, ur_Days = days,
                 ur_Total = totalDays days, ur_GeneratedAt = now\<rparr>)"

definition periodText :: "UsageReport \<Rightarrow> string" where
  "periodText r = take 10 (ur_From r) @ '' to '' @ take 10 (ur_To r)"

definition ByProvider :: "UsageReport \<Rightarrow> Day list" where
  "ByProvider r =
     (let agg = foldl (\<lambda>agg d. AList.update (ud_Provider d)
                  (addDay (case map_of agg (ud_Provider d) of Some p \<Rightarrow> p | None \<Rightarrow> zeroDay (periodText r) (ud_Provider d)) d) agg)
                [] (ur_Days r)
      in sort_key ud_Provider (map snd agg))"

section \<open>Export\<close>

definition defuse :: "string \<Rightarrow> string" where
  "defuse s =
     (if s = [] then s
      else if hd s \<in> {CHR ''='', CHR ''+'', CHR ''-'', CHR ''@'', CHR 0x09, CHR 0x0D} then CHR 0x27 # s
      else s)"

definition csvHeader :: "string list" where
  "csvHeader = [''date'', ''provider'', ''events_received'', ''signature_failures'', ''normalised'', ''delivered'', ''bytes_received'']"

definition csvRow :: "Day \<Rightarrow> string list" where
  "csvRow d = [defuse (ud_Date d), defuse (ud_Provider d), FormatInt (ud_Received d), FormatInt (ud_Rejected d),
     FormatInt (ud_Normalised d), FormatInt (ud_Delivered d), FormatInt (ud_Bytes d)]"

definition csvRows :: "UsageReport \<Rightarrow> string list list" where
  "csvRows r = csvHeader # map csvRow (ur_Days r @ [ur_Total r])"

text \<open>What the sentence says: the events, the failures when there are any, and the gap when it is positive.\<close>

definition Reconciliation :: "UsageReport \<Rightarrow> int \<times> int option \<times> int option" where
  "Reconciliation r =
     (ud_Received (ur_Total r),
      if ud_Rejected (ur_Total r) > 0 then Some (ud_Rejected (ur_Total r)) else None,
      let gap = wrap64 (ud_Received (ur_Total r) - ud_Normalised (ur_Total r)) in if gap > 0 then Some gap else None)"

section \<open>What the bill counts\<close>

lemma wrap64_add: "wrap64 (wrap64 x + y) = wrap64 (x + y)"
  by (simp add: wrap64_def mod_simps algebra_simps)

lemma group_sum:
  fixes g :: "'a \<Rightarrow> int"
  assumes "distinct ks" "f ` set rs \<subseteq> set ks"
  shows "(\<Sum>k\<leftarrow>ks. \<Sum>r\<leftarrow>filter (\<lambda>r. f r = k) rs. g r) = (\<Sum>r\<leftarrow>rs. g r)"
  using assms(2)
proof (induction rs)
  case (Cons r rs)
  have one: "(\<Sum>k\<leftarrow>ks. if f r = k then g r else 0) = g r"
    using assms(1) Cons.prems by (simp add: sum_list_distinct_conv_sum_set)
  have "(\<Sum>k\<leftarrow>ks. \<Sum>r\<leftarrow>filter (\<lambda>r. f r = k) (r # rs). g r)
      = (\<Sum>k\<leftarrow>ks. (if f r = k then g r else 0) + (\<Sum>r\<leftarrow>filter (\<lambda>r. f r = k) rs. g r))"
    by (intro arg_cong [where f = sum_list] map_cong) simp_all
  with one Cons show ?case by (simp add: sum_list_addf)
qed (simp add: sum_list_0)

lemma groupKeys_set [simp]: "set (groupKeys ks) = set ks" "distinct (groupKeys ks)"
  by (simp_all add: groupKeys_def)

text \<open>The quantities a total adds up, as functions of a day and of one raw event.\<close>

definition quantities :: "Memory \<Rightarrow> ((Day \<Rightarrow> int) \<times> (RawEvent \<Rightarrow> int)) list" where
  "quantities m = [(ud_Received, \<lambda>r. 1), (ud_Rejected, \<lambda>r. if raw_SignatureValid r then 0 else 1),
     (ud_Normalised, \<lambda>r. if isNormalised m r then 1 else 0), (ud_Bytes, \<lambda>r. int (length (raw_Body r)))]"

lemma length_filter_sum: "int (length (filter P xs)) = (\<Sum>x\<leftarrow>xs. if P x then 1 else 0)"
  by (induction xs) auto

lemma countDay_quantity:
  assumes "(q, g) \<in> set (quantities m)"
  shows "q (fillDelivered dl (countDay m k rs)) = (\<Sum>r\<leftarrow>rs. g r)"
proof -
  have "(\<Sum>r\<leftarrow>rs. if raw_SignatureValid r then 0 else 1) = (\<Sum>r\<leftarrow>rs. if \<not> raw_SignatureValid r then 1 else (0::int))"
    by (intro arg_cong [where f = sum_list] map_cong) simp_all
  moreover have "(\<Sum>r\<leftarrow>rs. (1::int)) = int (length rs)" by (simp add: sum_list_triv)
  moreover have "int (\<Sum>r\<leftarrow>rs. length (raw_Body r)) = (\<Sum>r\<leftarrow>rs. int (length (raw_Body r)))" by (induction rs) simp_all
  ultimately show ?thesis
    using assms by (auto simp: quantities_def fillDelivered_def countDay_def length_filter_sum)
qed

lemma totalDays_sum:
  assumes "q \<in> set [ud_Received, ud_Rejected, ud_Normalised, ud_Delivered, ud_Bytes]"
  shows "q (totalDays ds) = wrap64 (\<Sum>d\<leftarrow>ds. q d)"
proof -
  have step: "q (addDay t d) = wrap64 (q t + q d)" for t d
    using assms by (auto simp: addDay_def)
  have "q (foldl addDay t ds) = wrap64 (q t + (\<Sum>d\<leftarrow>ds. q d))" if "q t = wrap64 (q t)" for t
    using that
  proof (induction ds arbitrary: t)
    case (Cons d ds)
    have "q (addDay t d) = wrap64 (q (addDay t d))" unfolding step using wrap64_add [of _ 0] by simp
    from Cons.IH [OF this] show ?case by (simp add: step wrap64_add add.assoc)
  qed simp
  moreover have "q (zeroDay x y) = 0" for x y using assms by (auto simp: zeroDay_def)
  moreover have "wrap64 0 = 0" by (simp add: wrap64_def)
  ultimately show ?thesis by (simp add: totalDays_def)
qed

lemma totalDays_quantity: "(q, g) \<in> set (quantities m) \<Longrightarrow> q (totalDays ds) = wrap64 (\<Sum>d\<leftarrow>ds. q d)"
  by (rule totalDays_sum) (auto simp: quantities_def)

lemma usage_total:
  assumes "UsageOf U now m t since until = Some r" "(q, g) \<in> set (quantities m)"
  shows "q (ur_Total r) = wrap64 (\<Sum>x\<leftarrow>filter (receivedIn t since until) (rawRows m). g x)"
proof -
  let ?rs = "filter (receivedIn t since until) (rawRows m)" and ?ks = "groupKeys (map (dayKey U) (filter (receivedIn t since until) (rawRows m)))"
  obtain dl where r: "ur_Total r = totalDays (map (fillDelivered dl) (usageDays U m t since until))"
    using assms(1) by (auto simp: UsageOf_def Let_def split: if_splits)
  have "q (ur_Total r) = wrap64 (\<Sum>d\<leftarrow>map (fillDelivered dl) (usageDays U m t since until). q d)"
    unfolding r by (rule totalDays_quantity [OF assms(2)])
  also have "(\<Sum>d\<leftarrow>map (fillDelivered dl) (usageDays U m t since until). q d)
      = (\<Sum>k\<leftarrow>?ks. \<Sum>x\<leftarrow>filter (\<lambda>x. dayKey U x = k) ?rs. g x)"
    by (simp add: usageDays_def Let_def comp_def countDay_quantity [OF assms(2)])
  also have "\<dots> = (\<Sum>x\<leftarrow>?rs. g x)" by (rule group_sum) simp_all
  finally show ?thesis .
qed

lemma adjacent_periods:
  fixes g :: "RawEvent \<Rightarrow> int"
  assumes "since \<le> mid" "mid \<le> until"
  shows "(\<Sum>x\<leftarrow>filter (receivedIn t since until) rs. g x)
    = (\<Sum>x\<leftarrow>filter (receivedIn t since mid) rs. g x) + (\<Sum>x\<leftarrow>filter (receivedIn t mid until) rs. g x)"
  using assms by (induction rs) (auto simp: receivedIn_def)

text \<open>The delivered column: one lookup per day and provider that has raw events.\<close>

lemma bar_split: "CHR ''|'' \<notin> set a \<Longrightarrow> CHR ''|'' \<notin> set c \<Longrightarrow> a @ ''|'' @ b = c @ ''|'' @ d \<longleftrightarrow> a = c \<and> b = d"
proof (induction a arbitrary: c)
  case Nil
  then show ?case by (cases c) auto
next
  case (Cons x a)
  then show ?case by (cases c) auto
qed

lemma map_of_counts:
  assumes "distinct ks" and "\<forall>k\<in>insert k0 (set ks). CHR ''|'' \<notin> set (fst k)"
  shows "map_of (foldl (\<lambda>out k. AList.update (fst k @ ''|'' @ snd k) (h k) out) acc ks) (fst k0 @ ''|'' @ snd k0)
    = (if k0 \<in> set ks then Some (h k0) else map_of acc (fst k0 @ ''|'' @ snd k0))"
  using assms
proof (induction ks arbitrary: acc)
  case (Cons k ks)
  have "fst k0 @ ''|'' @ snd k0 = fst k @ ''|'' @ snd k \<longleftrightarrow> k0 = k"
    using Cons.prems(2) by (simp only: bar_split prod_eq_iff list.set insert_iff ball_simps simp_thms)
  with Cons show ?case by (auto simp: update_conv')
qed simp

lemma deliveredByDay_lookup:
  assumes "\<forall>x. CHR ''|'' \<notin> set (ul_day U x)" and "CHR ''|'' \<notin> set (fst k)"
  shows "(case map_of (deliveredByDay U m t since until) (fst k @ ''|'' @ snd k) of Some n \<Rightarrow> n | None \<Rightarrow> 0)
    = int (length (filter (\<lambda>j. j = k) (deliveredKeys U m t since until)))"
proof -
  let ?ks = "deliveredKeys U m t since until"
  have "\<forall>j\<in>insert k (set (remdups ?ks)). CHR ''|'' \<notin> set (fst j)"
    using assms by (auto simp: deliveredKeys_def split: if_splits)
  from map_of_counts [OF distinct_remdups this, of "\<lambda>k. int (length (filter (\<lambda>j. j = k) ?ks))" "[]"]
  have look: "map_of (deliveredByDay U m t since until) (fst k @ ''|'' @ snd k) =
      (if k \<in> set ?ks then Some (int (length (filter (\<lambda>j. j = k) ?ks))) else None)"
    by (simp add: deliveredByDay_def Let_def)
  show ?thesis
  proof (cases "k \<in> set ?ks")
    case False
    then have "filter (\<lambda>j. j = k) ?ks = []" by (auto simp: filter_empty_conv)
    with False show ?thesis unfolding look by simp
  next
    case True
    then show ?thesis unfolding look by simp
  qed
qed

lemma count_groups:
  assumes "distinct ks"
  shows "(\<Sum>k\<leftarrow>ks. int (length (filter (\<lambda>j. j = k) js))) = int (length (filter (\<lambda>j. j \<in> set ks) js))"
proof (induction js)
  case (Cons j js)
  have "(\<Sum>k\<leftarrow>ks. int (length (filter (\<lambda>i. i = k) (j # js))))
      = (\<Sum>k\<leftarrow>ks. (if j = k then 1 else 0) + int (length (filter (\<lambda>i. i = k) js)))"
    by (intro arg_cong [where f = sum_list] map_cong) simp_all
  also have "\<dots> = (\<Sum>k\<leftarrow>ks. if j = k then 1 else 0) + (\<Sum>k\<leftarrow>ks. int (length (filter (\<lambda>i. i = k) js)))"
    by (rule sum_list_addf)
  also have "(\<Sum>k\<leftarrow>ks. if j = k then (1::int) else 0) = (if j \<in> set ks then 1 else 0)"
    using assms by (simp add: sum_list_distinct_conv_sum_set)
  finally show ?case using Cons.IH by simp
qed (simp add: sum_list_0)

lemma usage_delivered:
  assumes "UsageOf U now m t since until = Some r" and "\<forall>x. CHR ''|'' \<notin> set (ul_day U x)"
  shows "ud_Delivered (ur_Total r) = wrap64 (int (length (filter
      (\<lambda>k. k \<in> dayKey U ` set (filter (receivedIn t since until) (rawRows m))) (deliveredKeys U m t since until))))"
proof -
  let ?rs = "filter (receivedIn t since until) (rawRows m)" and ?js = "deliveredKeys U m t since until"
  let ?ks = "groupKeys (map (dayKey U) ?rs)" and ?dl = "deliveredByDay U m t since until"
  have r: "ur_Total r = totalDays (map (fillDelivered ?dl) (usageDays U m t since until))"
    using assms(1) by (auto simp: UsageOf_def Let_def split: if_splits)
  have "ud_Delivered (ur_Total r) = wrap64 (\<Sum>d\<leftarrow>map (fillDelivered ?dl) (usageDays U m t since until). ud_Delivered d)"
    unfolding r by (rule totalDays_sum) simp
  also have "(\<Sum>d\<leftarrow>map (fillDelivered ?dl) (usageDays U m t since until). ud_Delivered d)
      = (\<Sum>k\<leftarrow>?ks. case map_of ?dl (fst k @ ''|'' @ snd k) of Some n \<Rightarrow> n | None \<Rightarrow> 0)"
    by (simp add: usageDays_def Let_def comp_def fillDelivered_def countDay_def)
  also have "\<dots> = (\<Sum>k\<leftarrow>?ks. int (length (filter (\<lambda>j. j = k) ?js)))"
  proof (intro arg_cong [where f = sum_list] map_cong refl deliveredByDay_lookup assms(2))
    fix k
    assume "k \<in> set ?ks"
    then show "CHR ''|'' \<notin> set (fst k)" using assms(2) by (auto simp: dayKey_def)
  qed
  also have "\<dots> = int (length (filter (\<lambda>j. j \<in> set ?ks) ?js))" by (rule count_groups) simp
  finally show ?thesis by simp
qed

text \<open>
  C39: What a report's totals count. However a report groups its rows by day and provider, its totals of events,
  failures, normalised events and bytes are those of the raw events of the tenant received in the period, each once;
  and these four totals of two periods that meet add up to those of the whole, so no raw event is counted twice or
  missed at the boundary. The delivered total is another matter: it is the number of successful deliveries
  queued in the period on a day on which their provider also sent a raw event within the period, so it misses late
  deliveries and need not add up. Totals are 64-bit, and a date has no vertical bar.
\<close>

theorem usage_reconciles:
  assumes "UsageOf U n1 m t since until = Some whole" "UsageOf U n2 m t since mid = Some first" "UsageOf U n3 m t mid until = Some rest"
    and "(q, g) \<in> set (quantities m)" and "\<forall>x. CHR ''|'' \<notin> set (ul_day U x)"
  shows "q (ur_Total whole) = wrap64 (\<Sum>x\<leftarrow>filter (receivedIn t since until) (rawRows m). g x)
    \<and> q (ur_Total whole) = wrap64 (q (ur_Total first) + q (ur_Total rest))
    \<and> ud_Delivered (ur_Total whole) = wrap64 (int (length (filter
        (\<lambda>k. k \<in> dayKey U ` set (filter (receivedIn t since until) (rawRows m))) (deliveredKeys U m t since until))))"
proof -
  have "since \<le> mid" "mid \<le> until" using assms(2,3) by (auto simp: UsageOf_def split: if_splits)
  from adjacent_periods [OF this, of g t "rawRows m"] show ?thesis
    using usage_total [OF assms(1,4)] usage_total [OF assms(2,4)] usage_total [OF assms(3,4)] wrap64_add
      usage_delivered [OF assms(1,5)]
    by (simp add: add.commute)
qed

lemma defuse_inert: "defuse s = [] \<or> hd (defuse s) \<notin> {CHR ''='', CHR ''+'', CHR ''-'', CHR ''@'', CHR 0x09, CHR 0x0D}"
  by (simp add: defuse_def)

section \<open>A sample period\<close>

definition twoDays :: UsageLib where
  "twoDays = \<lparr>ul_day = (\<lambda>t. if t < 5100 then ''2026-08-01'' else ''2026-08-02''), ul_rfc3339 = (\<lambda>_. ''2026-08-01T00:00:00Z'')\<rparr>"

definition billedStore :: Memory where
  "billedStore = subjectStore\<lparr>mem_normalised := [(''sh_raw_1'', ''sh_evt_1'')],
     mem_deliveries := [(1, \<lparr>del_ID = 1, del_TenantID = ''tnt_1'', del_EventID = ''sh_evt_1'', del_DestinationID = ''dst_1'',
       del_TransactionRef = ''ref-1'', del_Shard = 0, del_Sequence = 1, del_Attempt = 1, del_Status = DeliverySucceeded,
       del_ResponseCode = 200, del_ResponseBody = [], del_Error = [], del_DurationMS = 1, del_IsReplay = False,
       del_NextRetryAt = 0, del_CreatedAt = 5200, del_UpdatedAt = 5200\<rparr>)]\<rparr>"

lemma billed_periods:
  "\<exists>r. UsageOf twoDays 9 billedStore ''tnt_1'' 4000 6000 = Some r" "\<exists>r. UsageOf twoDays 9 billedStore ''tnt_1'' 4000 5000 = Some r"
  "\<exists>r. UsageOf twoDays 9 billedStore ''tnt_1'' 5000 6000 = Some r"
  by (simp_all add: UsageOf_def Let_def)

theorem usage_reconciles_witness:
  "\<exists>r. UsageOf twoDays 9 billedStore ''tnt_1'' 4000 6000 = Some r \<and> ud_Received (ur_Total r) = 2 \<and> ud_Normalised (ur_Total r) = 1
     \<and> ud_Delivered (ur_Total r) = 0 \<and> deliveredKeys twoDays billedStore ''tnt_1'' 4000 6000 = [(''2026-08-02'', ''paystack'')]"
proof -
  obtain whole first rest where p: "UsageOf twoDays 9 billedStore ''tnt_1'' 4000 6000 = Some whole"
    "UsageOf twoDays 9 billedStore ''tnt_1'' 4000 5000 = Some first" "UsageOf twoDays 9 billedStore ''tnt_1'' 5000 6000 = Some rest"
    using billed_periods by blast
  have rows: "filter (receivedIn ''tnt_1'' 4000 6000) (rawRows billedStore) = [subjectRaw ''sh_raw_1'', subjectRaw ''sh_raw_2'']"
    by (simp add: billedStore_def rawRows_def subjectStore_def subjectRaw_def receivedIn_def sampleNow_def)
  have norm: "isNormalised billedStore (subjectRaw ''sh_raw_1'')" "\<not> isNormalised billedStore (subjectRaw ''sh_raw_2'')"
    by (simp_all add: isNormalised_def billedStore_def subjectRaw_def)
  have bar: "\<forall>x. CHR ''|'' \<notin> set (ul_day twoDays x)" by (simp add: twoDays_def)
  have del: "deliveredKeys twoDays billedStore ''tnt_1'' 4000 6000 = [(''2026-08-02'', ''paystack'')]"
    by (simp add: deliveredKeys_def billedStore_def twoDays_def eventRows_def subjectStore_def sampleEvent_def)
  have days: "dayKey twoDays (subjectRaw i) = (''2026-08-01'', ''paystack'')" for i
    by (simp add: dayKey_def twoDays_def subjectRaw_def sampleNow_def)
  have "ud_Received (ur_Total whole) = wrap64 2 \<and> ud_Delivered (ur_Total whole) = wrap64 0"
    using usage_reconciles [OF p _ bar, of ud_Received "\<lambda>r. 1"] by (simp add: rows quantities_def del days)
  moreover have "ud_Normalised (ur_Total whole) = wrap64 1"
    using usage_reconciles [OF p _ bar, of ud_Normalised "\<lambda>r. if isNormalised billedStore r then 1 else 0"]
    by (simp add: rows quantities_def norm)
  ultimately show ?thesis using p(1) del by (simp add: wrap64_def)
qed

text \<open>
  A delivery is left out of the report when its provider sent nothing on the day it was queued: the event of the first
  day is delivered on the second, inside the period, and the report says that nothing was delivered.
\<close>

theorem late_delivery_not_counted:
  "map_option (\<lambda>r. (ud_Received (ur_Total r), ud_Delivered (ur_Total r))) (UsageOf twoDays 9 billedStore ''tnt_1'' 4000 6000) = Some (2, 0)
   \<and> map_of (deliveredByDay twoDays billedStore ''tnt_1'' 4000 6000) ''2026-08-02|paystack'' = Some 1"
proof -
  have rows: "filter (receivedIn ''tnt_1'' 4000 6000) (rawRows billedStore) = [subjectRaw ''sh_raw_1'', subjectRaw ''sh_raw_2'']"
    by (simp add: billedStore_def rawRows_def subjectStore_def subjectRaw_def receivedIn_def sampleNow_def)
  have del: "deliveredByDay twoDays billedStore ''tnt_1'' 4000 6000 = [(''2026-08-02|paystack'', 1)]"
    by (simp add: deliveredByDay_def deliveredKeys_def billedStore_def twoDays_def eventRows_def subjectStore_def sampleEvent_def)
  have days: "usageDays twoDays billedStore ''tnt_1'' 4000 6000
      = [countDay billedStore (''2026-08-01'', ''paystack'') [subjectRaw ''sh_raw_1'', subjectRaw ''sh_raw_2'']]"
    unfolding usageDays_def rows by (simp add: groupKeys_def dayKey_def subjectRaw_def twoDays_def sampleNow_def)
  show ?thesis
    by (simp add: UsageOf_def days del fillDelivered_def countDay_def totalDays_def zeroDay_def addDay_def wrap64_def Let_def)
qed

end
