(* ===== verification/Listen.thy ===== *)
theory Listen
  imports Tunnel Manage_Limits Assoc
begin

text \<open>
  The listen handlers of the management API (\<^verbatim>\<open>internal/api/listen.go\<close>) over the hub. The hub is optional, as the
  handlers' test for it says; a decoded body is an argument (\<open>None\<close> when it does not decode), and a poll that waits is
  the part before the wait and the part after it.
\<close>

section \<open>Handlers\<close>

datatype listen_refusal =
    ListenUnauthorised
  | ListenUnavailable
  | ListenBody
  | ListenFilter filter_error
  | ListenExpired

datatype 'a listen_reply =
    ListenRefuse nat listen_refusal
  | ListenAnswer nat 'a
  | ListenWaits nat
  | ListenHungUp

record startedSession =
  lv_SessionID :: string
  lv_PollSeconds :: int
  lv_IdleTimeoutS :: int

definition startRequest :: "bool \<Rightarrow> (string \<times> Filter) option \<Rightarrow> (string \<times> Filter) option" where
  "startRequest hasBody body =
     (if hasBody then body
      else Some ([], \<lparr>fil_Providers = [], fil_EventTypes = [], fil_Statuses = [], fil_MinAmountMinor = 0\<rparr>))"

definition handleStartListen ::
    "ApiEnv \<Rightarrow> instant \<Rightarrow> string \<Rightarrow> Identity option \<Rightarrow> bool \<Rightarrow> (string \<times> Filter) option \<Rightarrow> Api \<Rightarrow> Hub option
     \<Rightarrow> (Api \<times> Hub option) \<times> startedSession listen_reply" where
  "handleStartListen E now newID ctx hasBody body s hub =
     (case FromContext ctx of
        None \<Rightarrow> ((s, hub), ListenRefuse 401 ListenUnauthorised)
      | Some i \<Rightarrow>
          (case hub of
             None \<Rightarrow> ((s, hub), ListenRefuse 503 ListenUnavailable)
           | Some h \<Rightarrow>
               (case startRequest hasBody body of
                  None \<Rightarrow> ((s, hub), ListenRefuse 400 ListenBody)
                | Some (forward, flt) \<Rightarrow>
                    (case Filter_Validate flt of
                       Some err \<Rightarrow> ((s, hub), ListenRefuse 400 (ListenFilter err))
                     | None \<Rightarrow>
                         let (h, session) = Start now newID (id_TenantID i) forward flt h;
                             s = apiAudit E now i ''listen.started'' (subject ''listen_session'' (ls_ID session))
                                   [(''forward'', JString forward)] s
                         in ((s, Some h),
                             ListenAnswer 201 \<lparr>lv_SessionID = ls_ID session, lv_PollSeconds = MaxWait div second,
                                               lv_IdleTimeoutS = MaxSessionAge div second\<rparr>)))))"

definition pollLimit :: "string \<Rightarrow> int" where
  "pollLimit v = (if v = [] then 20 else case ParseInt v of Some n \<Rightarrow> n | None \<Rightarrow> 20)"

definition pollReply :: "string \<Rightarrow> string \<Rightarrow> Hub \<Rightarrow> PollAnswer \<Rightarrow> (Offered list \<times> int) listen_reply" where
  "pollReply tenantID sid h a =
     (case a of
        PollNoSession \<Rightarrow> ListenRefuse 410 ListenExpired
      | PollHands out \<Rightarrow> ListenAnswer 200 (out, case Queued tenantID sid h of Some n \<Rightarrow> n | None \<Rightarrow> 0)
      | PollBlocks w \<Rightarrow> ListenWaits w)"

definition handlePollListen ::
    "instant \<Rightarrow> Identity option \<Rightarrow> string \<Rightarrow> string \<Rightarrow> Hub option \<Rightarrow> Hub option \<times> (Offered list \<times> int) listen_reply" where
  "handlePollListen now ctx sid maxParam hub =
     (case FromContext ctx of
        None \<Rightarrow> (hub, ListenRefuse 401 ListenUnauthorised)
      | Some i \<Rightarrow>
          (case hub of
             None \<Rightarrow> (hub, ListenRefuse 503 ListenUnavailable)
           | Some h \<Rightarrow>
               let (h, a) = PollStart now (id_TenantID i) sid (pollLimit maxParam) h
               in (Some h, pollReply (id_TenantID i) sid h a)))"

text \<open>How a waiting poll ends: woken, timed out, or given up by its client.\<close>

datatype wait_end = Woken | TimedOut | ClientGone

definition resumePollListen ::
    "Identity \<Rightarrow> string \<Rightarrow> string \<Rightarrow> wait_end \<Rightarrow> Hub \<Rightarrow> Hub \<times> (Offered list \<times> int) listen_reply" where
  "resumePollListen i sid maxParam w h =
     (case w of
        Woken \<Rightarrow> let (h, a) = PollWoken sid (pollLimit maxParam) h in (h, pollReply (id_TenantID i) sid h a)
      | TimedOut \<Rightarrow> (h, pollReply (id_TenantID i) sid h (PollHands []))
      | ClientGone \<Rightarrow> (h, ListenHungUp))"

definition handleReportListen ::
    "instant \<Rightarrow> Identity option \<Rightarrow> string \<Rightarrow> Outcome list option \<Rightarrow> Hub option \<Rightarrow> Hub option \<times> unit listen_reply" where
  "handleReportListen now ctx sid body hub =
     (case FromContext ctx of
        None \<Rightarrow> (hub, ListenRefuse 401 ListenUnauthorised)
      | Some i \<Rightarrow>
          (case hub of
             None \<Rightarrow> (hub, ListenRefuse 503 ListenUnavailable)
           | Some h \<Rightarrow>
               (case body of
                  None \<Rightarrow> (hub, ListenRefuse 400 ListenBody)
                | Some outcomes \<Rightarrow>
                    let (h, ok) = Report now (id_TenantID i) sid outcomes h
                    in (Some h, if ok then ListenAnswer 204 () else ListenRefuse 410 ListenExpired))))"

text \<open>A stop that panics (a channel closed twice) is \<open>None\<close>.\<close>

definition handleStopListen :: "Identity option \<Rightarrow> string \<Rightarrow> Hub option \<Rightarrow> (Hub option \<times> unit listen_reply) option" where
  "handleStopListen ctx sid hub =
     (case FromContext ctx of
        None \<Rightarrow> Some (hub, ListenRefuse 401 ListenUnauthorised)
      | Some i \<Rightarrow>
          (case hub of
             None \<Rightarrow> Some (hub, ListenAnswer 204 ())
           | Some h \<Rightarrow> map_option (\<lambda>h. (Some h, ListenAnswer 204 ())) (Stop (id_TenantID i) sid h)))"

record sessionView =
  vw_ID :: string
  vw_Forward :: string
  vw_StartedAt :: instant
  vw_LastSeen :: instant
  vw_Delivered :: int
  vw_Failed :: int

definition viewSession :: "Session \<Rightarrow> sessionView" where
  "viewSession s =
     \<lparr>vw_ID = ls_ID s, vw_Forward = ls_Forward s, vw_StartedAt = ls_StartedAt s, vw_LastSeen = ls_LastSeen s,
      vw_Delivered = ls_Delivered s, vw_Failed = ls_Failed s\<rparr>"

definition handleListListen :: "instant \<Rightarrow> Identity option \<Rightarrow> Hub option \<Rightarrow> sessionView list listen_reply" where
  "handleListListen now ctx hub =
     (case FromContext ctx of
        None \<Rightarrow> ListenRefuse 401 ListenUnauthorised
      | Some i \<Rightarrow>
          (case hub of
             None \<Rightarrow> ListenAnswer 200 []
           | Some h \<Rightarrow> ListenAnswer 200 (map viewSession (Sessions now (id_TenantID i) h))))"

section \<open>Tenants do not reach each other's sessions\<close>

datatype listen_op =
    OpStart string bool "(string \<times> Filter) option"
  | OpPoll string string
  | OpResume string string wait_end
  | OpReport string "Outcome list option"
  | OpStop string

text \<open>A call of an identity whose key has been checked; a resumed poll is one that this identity began.\<close>

fun listenCall :: "ApiEnv \<Rightarrow> instant \<Rightarrow> Identity \<Rightarrow> listen_op \<Rightarrow> Api \<times> Hub \<Rightarrow> (Api \<times> Hub) option" where
  "listenCall E now i (OpStart sid b body) (s, h) =
     (case handleStartListen E now sid (Some i) b body s (Some h) of ((s, Some h), _) \<Rightarrow> Some (s, h) | _ \<Rightarrow> None)"
| "listenCall E now i (OpPoll sid n) (s, h) =
     (case handlePollListen now (Some i) sid n (Some h) of (Some h, _) \<Rightarrow> Some (s, h) | _ \<Rightarrow> None)"
| "listenCall E now i (OpResume sid n w) (s, h) = Some (s, fst (resumePollListen i sid n w h))"
| "listenCall E now i (OpReport sid body) (s, h) =
     (case handleReportListen now (Some i) sid body (Some h) of (Some h, _) \<Rightarrow> Some (s, h) | _ \<Rightarrow> None)"
| "listenCall E now i (OpStop sid) (s, h) =
     (case handleStopListen (Some i) sid (Some h) of Some (Some h, _) \<Rightarrow> Some (s, h) | _ \<Rightarrow> None)"

fun listen_legal :: "Identity \<Rightarrow> listen_op \<Rightarrow> Hub \<Rightarrow> bool" where
  "listen_legal i (OpStart sid b body) h \<longleftrightarrow> map_of (th_sessions h) sid = None"
| "listen_legal i (OpResume sid n w) h \<longleftrightarrow> (\<forall>s. map_of (th_sessions h) sid = Some s \<longrightarrow> ls_TenantID s = id_TenantID i)"
| "listen_legal i _ h \<longleftrightarrow> True"

definition sessionsOf :: "string \<Rightarrow> Hub \<Rightarrow> (string \<times> Session) list" where
  "sessionsOf t h = filter (\<lambda>(_, s). ls_TenantID s = t) (th_sessions h)"

lemma sessionsOf_update:
  assumes "map_of xs sid = Some s" "ls_TenantID s \<noteq> t" "ls_TenantID s' \<noteq> t" "keys_distinct xs"
  shows "filter (\<lambda>(_, s). ls_TenantID s = t) (AList.update sid s' xs) = filter (\<lambda>(_, s). ls_TenantID s = t) xs"
  using assms
proof (induction xs)
  case (Cons x xs)
  obtain k v where x: "x = (k, v)" by (cases x)
  show ?case
  proof (cases "k = sid")
    case True
    with Cons.prems show ?thesis by (auto simp: x)
  next
    case False
    with Cons show ?thesis by (simp add: x)
  qed
qed simp

lemma tally_tenant: "ls_TenantID (tally rs s) = ls_TenantID s"
  by (induction rs arbitrary: s) simp_all

lemma takeQueued_tenant: "ls_TenantID (fst (takeQueued n s)) = ls_TenantID s"
  by (simp add: takeQueued_def Let_def)

lemma others_Start:
  assumes "map_of (th_sessions h) sid = None" "tenant \<noteq> t" "keys_distinct (th_sessions h)"
  shows "sessionsOf t (fst (Start now sid tenant f flt h)) = sessionsOf t h
    \<and> keys_distinct (th_sessions (fst (Start now sid tenant f flt h)))"
proof -
  have "sid \<notin> fst ` set (th_sessions h)" using assms(1) by (simp add: map_of_eq_None_iff)
  with assms(2,3) show ?thesis by (simp add: Start_def sessionsOf_def update_nonmem Let_def)
qed

lemma others_PollStart:
  assumes "tenant \<noteq> t" "keys_distinct (th_sessions h)"
  shows "sessionsOf t (fst (PollStart now tenant sid n h)) = sessionsOf t h
    \<and> keys_distinct (th_sessions (fst (PollStart now tenant sid n h)))"
proof (cases "map_of (th_sessions h) sid")
  case (Some s)
  show ?thesis
  proof (cases "ls_TenantID s = tenant")
    case True
    then have "ls_TenantID s \<noteq> t" using assms(1) by simp
    then show ?thesis using Some True assms(2)
      by (auto simp: PollStart_def Let_def case_prod_beta sessionsOf_def takeQueued_tenant sessionsOf_update [OF Some])
  qed (use Some assms(2) in \<open>simp add: PollStart_def\<close>)
qed (use assms(2) in \<open>simp add: PollStart_def\<close>)

lemma others_PollWoken:
  assumes "\<forall>s. map_of (th_sessions h) sid = Some s \<longrightarrow> ls_TenantID s \<noteq> t" "keys_distinct (th_sessions h)"
  shows "sessionsOf t (fst (PollWoken sid n h)) = sessionsOf t h \<and> keys_distinct (th_sessions (fst (PollWoken sid n h)))"
proof (cases "map_of (th_sessions h) sid")
  case (Some s)
  then have "ls_TenantID s \<noteq> t" using assms(1) by simp
  then show ?thesis using Some assms(2)
    by (auto simp: PollWoken_def Let_def case_prod_beta sessionsOf_def takeQueued_tenant sessionsOf_update [OF Some])
qed (use assms(2) in \<open>simp add: PollWoken_def\<close>)

lemma others_Report:
  assumes "tenant \<noteq> t" "keys_distinct (th_sessions h)"
  shows "sessionsOf t (fst (Report now tenant sid rs h)) = sessionsOf t h
    \<and> keys_distinct (th_sessions (fst (Report now tenant sid rs h)))"
proof (cases "map_of (th_sessions h) sid")
  case (Some s)
  show ?thesis
  proof (cases "ls_TenantID s = tenant")
    case True
    then have "ls_TenantID s \<noteq> t" using assms(1) by simp
    then show ?thesis using Some True assms(2) by (auto simp: Report_def tally_tenant sessionsOf_def sessionsOf_update [OF Some])
  qed (use Some assms(2) in \<open>simp add: Report_def\<close>)
qed (use assms(2) in \<open>simp add: Report_def\<close>)

lemma others_Stop:
  assumes "Stop tenant sid h = Some h'" "tenant \<noteq> t" "keys_distinct (th_sessions h)"
  shows "sessionsOf t h' = sessionsOf t h \<and> keys_distinct (th_sessions h')"
proof (cases "map_of (th_sessions h) sid")
  case (Some s)
  have "filter (\<lambda>(_, s). ls_TenantID s = t) (AList.delete sid xs) = filter (\<lambda>(_, s). ls_TenantID s = t) xs"
    if "keys_distinct xs" "map_of xs sid = Some s" "ls_TenantID s \<noteq> t" for xs
    using that by (induction xs) (auto split: if_splits)
  with assms Some show ?thesis
    by (auto simp: Stop_def sessionsOf_def keys_distinct_delete split: option.splits if_splits)
qed (use assms in \<open>simp add: Stop_def\<close>)

lemma FromContext_known: "FromContext (Some i) = (if id_TenantID i = [] then None else Some i)"
  by (simp add: FromContext_def)

lemma listenCall_others:
  assumes "listenCall E now i op (s, h) = Some (s', h')" "listen_legal i op h" "keys_distinct (th_sessions h)" "id_TenantID i \<noteq> t"
  shows "sessionsOf t h' = sessionsOf t h \<and> keys_distinct (th_sessions h')"
proof (cases op)
  case (OpStart sid b body)
  have "h' = h \<or> (\<exists>f flt. h' = fst (Start now sid (id_TenantID i) f flt h))"
    using assms(1) by (auto simp: OpStart handleStartListen_def FromContext_known case_prod_beta Let_def split: option.splits if_splits)
  with others_Start [of h sid "id_TenantID i" t] assms(2-4) show ?thesis by (auto simp: OpStart)
next
  case (OpPoll sid n)
  have "h' = h \<or> (\<exists>m. h' = fst (PollStart now (id_TenantID i) sid m h))"
    using assms(1) by (auto simp: OpPoll handlePollListen_def FromContext_known case_prod_beta Let_def split: option.splits if_splits)
  with others_PollStart [of "id_TenantID i" t h] assms(3,4) show ?thesis by auto
next
  case (OpResume sid n w)
  have "h' = h \<or> (\<exists>m. h' = fst (PollWoken sid m h))"
    using assms(1) by (cases w) (auto simp: OpResume resumePollListen_def case_prod_beta Let_def)
  moreover have "\<forall>s. map_of (th_sessions h) sid = Some s \<longrightarrow> ls_TenantID s \<noteq> t" using assms(2,4) by (simp add: OpResume)
  ultimately show ?thesis using others_PollWoken assms(3) by auto
next
  case (OpReport sid body)
  have "h' = h \<or> (\<exists>rs. h' = fst (Report now (id_TenantID i) sid rs h))"
    using assms(1) by (auto simp: OpReport handleReportListen_def FromContext_known case_prod_beta Let_def split: option.splits if_splits)
  with others_Report [of "id_TenantID i" t h] assms(3,4) show ?thesis by auto
next
  case (OpStop sid)
  have "h' = h \<or> Stop (id_TenantID i) sid h = Some h'"
    using assms(1) by (auto simp: OpStop handleStopListen_def FromContext_known split: option.splits if_splits)
  with others_Stop [of "id_TenantID i" sid h h' t] assms(3,4) show ?thesis by auto
qed

text \<open>Calls one after another; a call that panics ends the history.\<close>

fun listenCalls :: "ApiEnv \<Rightarrow> (instant \<times> Identity \<times> listen_op) list \<Rightarrow> Api \<times> Hub \<Rightarrow> (Api \<times> Hub) option" where
  "listenCalls E [] w = Some w"
| "listenCalls E ((now, i, op) # cs) w =
     (if listen_legal i op (snd w) then case listenCall E now i op w of None \<Rightarrow> None | Some w \<Rightarrow> listenCalls E cs w else None)"

text \<open>
  C32: Tenants do not reach each other's listen sessions. Whatever other tenants start, poll, resume, report or stop, with
  whatever session identifiers they guess, the sessions of a tenant are afterwards exactly what they were: nothing was taken from their
  queues, nothing counted, no one woken, none stopped.
\<close>

theorem listen_sessions_isolated:
  assumes "listenCalls E cs (s, h) = Some (s', h')" and "keys_distinct (th_sessions h)"
    and "list_all (\<lambda>(_, i, _). id_TenantID i \<noteq> t) cs"
  shows "sessionsOf t h' = sessionsOf t h"
  using assms
proof (induction cs arbitrary: s h)
  case (Cons c cs)
  obtain now i op where c: "c = (now, i, op)" by (cases c)
  from Cons.prems(1) obtain w where step: "listenCall E now i op (s, h) = Some w" "listen_legal i op h"
    and rest: "listenCalls E cs w = Some (s', h')" by (auto simp: c split: if_splits option.splits)
  obtain s1 h1 where w: "w = (s1, h1)" by (cases w)
  have "sessionsOf t h1 = sessionsOf t h \<and> keys_distinct (th_sessions h1)"
    using listenCall_others [where t = t, OF step(1) [unfolded w] step(2) Cons.prems(2)] Cons.prems(3) by (simp add: c)
  with Cons.IH rest Cons.prems(3) show ?case by (simp add: w)
qed simp

definition sharedHub :: Hub where
  "sharedHub =
     (let s = \<lparr>ls_ID = ''ls_1'', ls_TenantID = ''ten_1'',
          ls_Filter = \<lparr>fil_Providers = [], fil_EventTypes = [], fil_Statuses = [], fil_MinAmountMinor = 0\<rparr>,
          ls_Forward = [], ls_StartedAt = 0, ls_LastSeen = 0, ls_Delivered = 0, ls_Failed = 0, ls_queue = [], ls_waiters = [0]\<rparr>
      in \<lparr>th_sessions = [(''ls_1'', s), (''ls_2'', s\<lparr>ls_ID := ''ls_2'', ls_TenantID := ''ten_2'', ls_waiters := []\<rparr>)],
          th_maxQueue = 10, th_maxWait = 5, th_made = 1, th_closed = []\<rparr>)"

definition intruder :: Identity where
  "intruder = \<lparr>id_TenantID = ''ten_2'', id_TenantSlug = ''other'', id_KeyID = ''key_9'', id_Role = RoleOwner,
     id_Environment = EnvTest, id_IP = []\<rparr>"

definition intrusions :: "(instant \<times> Identity \<times> listen_op) list" where
  "intrusions =
     [(1, intruder, OpPoll ''ls_1'' []), (2, intruder, OpReport ''ls_1'' (Some [])), (3, intruder, OpStop ''ls_1''),
      (4, intruder, OpPoll ''ls_2'' []), (5, intruder, OpStop ''ls_2'')]"

theorem listen_sessions_isolated_witness:
  "\<exists>h'. listenCalls bareEnv intrusions (sampleApi RoleOwner [], sharedHub) = Some (sampleApi RoleOwner [], h')
     \<and> sessionsOf ''ten_1'' h' = sessionsOf ''ten_1'' sharedHub \<and> length (th_sessions h') = 1"
proof -
  have "\<exists>h'. listenCalls bareEnv intrusions (sampleApi RoleOwner [], sharedHub) = Some (sampleApi RoleOwner [], h')
      \<and> length (th_sessions h') = 1"
    by (simp add: intrusions_def intruder_def handlePollListen_def handleReportListen_def handleStopListen_def FromContext_known
      PollStart_def Report_def Stop_def sharedHub_def Let_def)
  then obtain h' where run: "listenCalls bareEnv intrusions (sampleApi RoleOwner [], sharedHub) = Some (sampleApi RoleOwner [], h')"
    and one: "length (th_sessions h') = 1" by blast
  have "sessionsOf ''ten_1'' h' = sessionsOf ''ten_1'' sharedHub"
    by (rule listen_sessions_isolated [OF run]) (simp_all add: sharedHub_def Let_def intrusions_def intruder_def)
  with run one show ?thesis by blast
qed

end
