(* ===== verification/Postgres_Store.thy ===== *)
theory Postgres_Store
  imports Store Auth Adapter_Core
begin

text \<open>
  The store on Postgres: \<^verbatim>\<open>internal/store/postgres.go\<close>, \<^verbatim>\<open>internal/store/postgres_events.go\<close> and
  \<^verbatim>\<open>internal/store/postgres_keys.go\<close>, with the keys and checks of \<^verbatim>\<open>internal/migrate/sql\<close>. Its tables are the ones of a
  \<open>Memory\<close> and a \<open>KeyStore\<close>; what those keep beside them to find a row (\<open>mem_tenantBySlug\<close>, \<open>mem_eventKeys\<close>, the two
  lists of identifiers, \<open>st_byPrefix\<close>) is not used. The columns \<^verbatim>\<open>normalised_at\<close> and \<^verbatim>\<open>canonical_id\<close> of a raw event are its entry
  in \<open>mem_normalised\<close>, \<^verbatim>\<open>failure_reason\<close> is the one in \<open>mem_failures\<close>, absent for \<^verbatim>\<open>NULL\<close>. A statement is one operation on
  rows: \<^verbatim>\<open>WHERE\<close> filters, \<^verbatim>\<open>ORDER BY\<close> sorts by bytes, rows it does not tell apart keep the order of the table; a transaction
  returns the new tables or the old. A failing connection is not modelled. JSON columns are the fields of \<open>PgLib\<close>: what
  a value reads back as, \<open>None\<close> if \<^verbatim>\<open>jsonb\<close> refuses it.
\<close>

section \<open>Errors and columns\<close>

datatype sql_error =
    NoRows
  | UniqueViolation string
  | ForeignKeyViolation string
  | SerializationFailure string
  | DeadlockDetected string
  | OtherFailure

datatype pg_fault = PgNotFound | PgDuplicate string | PgConflict string | PgDatabase

fun mapError :: "sql_error \<Rightarrow> pg_fault" where
  "mapError NoRows = PgNotFound"
| "mapError (UniqueViolation c) = PgDuplicate c"
| "mapError (ForeignKeyViolation c) = PgNotFound"
| "mapError (SerializationFailure m) = PgConflict m"
| "mapError (DeadlockDetected m) = PgConflict m"
| "mapError OtherFailure = PgDatabase"

text \<open>What a text column or parameter can hold: UTF-8 without a zero byte.\<close>

definition pgText :: "string \<Rightarrow> bool" where
  "pgText s \<longleftrightarrow> ToValidUTF8 s = s \<and> CHR 0x00 \<notin> set s"

text \<open>A statement is refused, before it looks at a row, when one of its text parameters is not text.\<close>

definition bound :: "string list \<Rightarrow> pg_fault + 'a \<Rightarrow> pg_fault + 'a" where
  "bound params r = (if list_all pgText params then r else Inl (mapError OtherFailure))"

fun firstRow :: "'a list \<Rightarrow> pg_fault + 'a" where
  "firstRow [] = Inl (mapError NoRows)"
| "firstRow (r # rs) = Inr r"

definition orNow :: "instant \<Rightarrow> instant \<Rightarrow> instant" where
  "orNow now t = (if is_zero_time t then now else t)"

definition orNowUTC :: "instant \<Rightarrow> gotime \<Rightarrow> gotime" where
  "orNowUTC now t = (if IsZero t then utcTime now else to_UTC t)"

fun nilBytes :: "string option \<Rightarrow> string option" where
  "nilBytes None = None"
| "nilBytes (Some b) = (if b = [] then None else Some b)"

record PgLib =
  col_json :: "string \<Rightarrow> bool"
  col_filter :: "Filter \<Rightarrow> Filter option"
  col_headers :: "(string \<times> string) list \<Rightarrow> (string \<times> string) list option"
  col_extra :: "(string \<times> json) list \<Rightarrow> (string \<times> json) list option"

definition tableRows :: "('k \<times> 'v) list \<Rightarrow> 'v list" where
  "tableRows table = map snd table"

definition updateRows :: "('v \<Rightarrow> bool) \<Rightarrow> ('v \<Rightarrow> 'v) \<Rightarrow> ('k \<times> 'v) list \<Rightarrow> ('k \<times> 'v) list" where
  "updateRows hit f = map (\<lambda>(k, r). (k, if hit r then f r else r))"

definition deleteRows :: "('v \<Rightarrow> bool) \<Rightarrow> ('k \<times> 'v) list \<Rightarrow> ('k \<times> 'v) list" where
  "deleteRows hit = filter (\<lambda>(k, r). \<not> hit r)"

section \<open>Tenants\<close>

text \<open>\<^verbatim>\<open>^[a-z0-9][a-z0-9-]{1,62}[a-z0-9]$\<close>\<close>

definition slugChar :: "char \<Rightarrow> bool" where
  "slugChar c \<longleftrightarrow> (97 \<le> ord c \<and> ord c \<le> 122) \<or> is_digit c"

definition slugShape :: "string \<Rightarrow> bool" where
  "slugShape s \<longleftrightarrow> 3 \<le> length s \<and> length s \<le> 64 \<and> slugChar (hd s) \<and> slugChar (last s)
     \<and> list_all (\<lambda>c. slugChar c \<or> c = CHR ''-'') s"

definition PgCreateTenant :: "instant \<Rightarrow> Memory \<Rightarrow> Tenant \<Rightarrow> Memory \<times> pg_fault option" where
  "PgCreateTenant now m t =
     (if \<not> list_all pgText [ten_ID t, ten_Slug t, ten_Name t] \<or> \<not> slugShape (ten_Slug t)
      then (m, Some (mapError OtherFailure))
      else if list_ex (\<lambda>r. ten_ID r = ten_ID t) (tableRows (mem_tenants m))
      then (m, Some (mapError (UniqueViolation ''tenants_pkey'')))
      else if list_ex (\<lambda>r. ten_Slug r = ten_Slug t) (tableRows (mem_tenants m))
      then (m, Some (mapError (UniqueViolation ''tenants_slug_key'')))
      else (m\<lparr>mem_tenants := mem_tenants m @ [(ten_ID t, t\<lparr>ten_CreatedAt := orNow now (ten_CreatedAt t)\<rparr>)]\<rparr>, None))"

definition PgGetTenant :: "Memory \<Rightarrow> string \<Rightarrow> pg_fault + Tenant" where
  "PgGetTenant m tenantID = bound [tenantID] (firstRow (filter (\<lambda>t. ten_ID t = tenantID) (tableRows (mem_tenants m))))"

definition PgGetTenantBySlug :: "Memory \<Rightarrow> string \<Rightarrow> pg_fault + Tenant" where
  "PgGetTenantBySlug m slug = bound [slug] (firstRow (filter (\<lambda>t. ten_Slug t = slug) (tableRows (mem_tenants m))))"

definition PgListTenants :: "Memory \<Rightarrow> Tenant list" where
  "PgListTenants m = sort_key ten_Slug (tableRows (mem_tenants m))"

section \<open>Endpoints\<close>

definition endpointParams :: "PgLib \<Rightarrow> Endpoint \<Rightarrow> bool" where
  "endpointParams P e \<longleftrightarrow>
     list_all pgText ([ep_ID e, ep_TenantID e, ep_Provider e, ep_Environment e, ep_ReceiverToken e, ep_SecretRef e,
       ep_AdapterName e] @ ep_AllowedSourceCIDRs e)
   \<and> (case nilBytes (ep_AdapterConfig e) of None \<Rightarrow> True | Some c \<Rightarrow> col_json P c)"

definition knownEnvironment :: "Environment \<Rightarrow> bool" where
  "knownEnvironment env \<longleftrightarrow> env = ''test'' \<or> env = ''live''"

definition sameSlot :: "Endpoint \<Rightarrow> Endpoint \<Rightarrow> bool" where
  "sameSlot e r \<longleftrightarrow> ep_TenantID r = ep_TenantID e \<and> ep_Provider r = ep_Provider e \<and> ep_Environment r = ep_Environment e"

definition PgCreateEndpoint :: "PgLib \<Rightarrow> instant \<Rightarrow> Memory \<Rightarrow> Endpoint \<Rightarrow> Memory \<times> pg_fault option" where
  "PgCreateEndpoint P now m e =
     (if \<not> endpointParams P e \<or> \<not> knownEnvironment (ep_Environment e) then (m, Some (mapError OtherFailure))
      else if list_ex (\<lambda>r. ep_ID r = ep_ID e) (tableRows (mem_endpoints m))
      then (m, Some (mapError (UniqueViolation ''endpoints_pkey'')))
      else if list_ex (\<lambda>r. ep_ReceiverToken r = ep_ReceiverToken e) (tableRows (mem_endpoints m))
      then (m, Some (mapError (UniqueViolation ''endpoints_receiver_token_key'')))
      else if list_ex (sameSlot e) (tableRows (mem_endpoints m))
      then (m, Some (mapError (UniqueViolation ''idx_endpoints_tenant_provider_env'')))
      else if \<not> list_ex (\<lambda>t. ten_ID t = ep_TenantID e) (tableRows (mem_tenants m))
      then (m, Some (mapError (ForeignKeyViolation ''endpoints_tenant_id_fkey'')))
      else (m\<lparr>mem_endpoints := mem_endpoints m @
                [(ep_ID e, e\<lparr>ep_AdapterConfig := nilBytes (ep_AdapterConfig e), ep_CreatedAt := orNow now (ep_CreatedAt e)\<rparr>)]\<rparr>,
            None))"

definition PgGetEndpoint :: "Memory \<Rightarrow> string \<Rightarrow> string \<Rightarrow> pg_fault + Endpoint" where
  "PgGetEndpoint m tenantID endpointID =
     bound [tenantID, endpointID]
       (firstRow (filter (\<lambda>e. ep_TenantID e = tenantID \<and> ep_ID e = endpointID) (tableRows (mem_endpoints m))))"

definition PgListEndpoints :: "Memory \<Rightarrow> string \<Rightarrow> pg_fault + Endpoint list" where
  "PgListEndpoints m tenantID =
     bound [tenantID] (Inr (sort_key (\<lambda>e. - ep_CreatedAt e) (filter (\<lambda>e. ep_TenantID e = tenantID) (tableRows (mem_endpoints m)))))"

text \<open>The statement leaves the tenant and the creation time alone. Constraints are checked on the rows it writes.\<close>

definition PgUpdateEndpoint :: "PgLib \<Rightarrow> Memory \<Rightarrow> string \<Rightarrow> Endpoint \<Rightarrow> Memory \<times> pg_fault option" where
  "PgUpdateEndpoint P m tenantID e =
     (let hit = (\<lambda>r. ep_TenantID r = tenantID \<and> ep_ID r = ep_ID e);
          others = filter (\<lambda>r. \<not> hit r) (tableRows (mem_endpoints m));
          e' = e\<lparr>ep_TenantID := tenantID, ep_AdapterConfig := nilBytes (ep_AdapterConfig e)\<rparr>
      in if \<not> endpointParams P e' then (m, Some (mapError OtherFailure))
         else if \<not> list_ex hit (tableRows (mem_endpoints m)) then (m, Some PgNotFound)
         else if \<not> knownEnvironment (ep_Environment e) then (m, Some (mapError OtherFailure))
         else if list_ex (\<lambda>r. ep_ReceiverToken r = ep_ReceiverToken e) others
         then (m, Some (mapError (UniqueViolation ''endpoints_receiver_token_key'')))
         else if list_ex (sameSlot e') others
         then (m, Some (mapError (UniqueViolation ''idx_endpoints_tenant_provider_env'')))
         else (m\<lparr>mem_endpoints := updateRows hit (\<lambda>r. e'\<lparr>ep_CreatedAt := ep_CreatedAt r\<rparr>) (mem_endpoints m)\<rparr>, None))"

definition PgDeleteEndpoint :: "Memory \<Rightarrow> string \<Rightarrow> string \<Rightarrow> Memory \<times> pg_fault option" where
  "PgDeleteEndpoint m tenantID endpointID =
     (let hit = (\<lambda>r. ep_TenantID r = tenantID \<and> ep_ID r = endpointID)
      in if \<not> list_all pgText [tenantID, endpointID] then (m, Some (mapError OtherFailure))
         else if \<not> list_ex hit (tableRows (mem_endpoints m)) then (m, Some PgNotFound)
         else (m\<lparr>mem_endpoints := deleteRows hit (mem_endpoints m)\<rparr>, None))"

definition PgResolveReceiver ::
    "Memory \<Rightarrow> string \<Rightarrow> string \<Rightarrow> string \<Rightarrow> string \<Rightarrow> pg_fault + Endpoint \<times> Tenant" where
  "PgResolveReceiver m tenantSlug provider env token =
     bound [token, tenantSlug, provider, env]
       (firstRow (filter (\<lambda>(e, t). ten_ID t = ep_TenantID e \<and> ep_ReceiverToken e = token \<and> ten_Slug t = tenantSlug
            \<and> ep_Provider e = provider \<and> ep_Environment e = env)
          (List.product (tableRows (mem_endpoints m)) (tableRows (mem_tenants m)))))"

section \<open>Destinations\<close>

record retryPolicyJSON =
  rp_BackoffSeconds :: "rat list"
  rp_JitterFraction :: rat
  rp_TimeoutSeconds :: rat

text \<open>\<open>Duration.Seconds\<close>, and the conversion of a float back to a duration, which truncates toward zero.\<close>

definition seconds :: "duration \<Rightarrow> rat" where
  "seconds d = of_int d / of_int second"

definition fromSeconds :: "rat \<Rightarrow> duration" where
  "fromSeconds s = (let x = s * of_int second in if x < 0 then \<lceil>x\<rceil> else \<lfloor>x\<rfloor>)"

definition encodeRetryPolicy :: "RetryPolicy \<Rightarrow> retryPolicyJSON" where
  "encodeRetryPolicy p =
     \<lparr>rp_BackoffSeconds = map seconds (pol_Backoff p), rp_JitterFraction = pol_JitterFraction p,
      rp_TimeoutSeconds = seconds (pol_Timeout p)\<rparr>"

text \<open>\<open>None\<close> for an empty column or one that does not decode.\<close>

definition decodeRetryPolicy :: "retryPolicyJSON option \<Rightarrow> RetryPolicy" where
  "decodeRetryPolicy b =
     (case b of
        None \<Rightarrow> DefaultRetryPolicy
      | Some j \<Rightarrow>
          if rp_BackoffSeconds j = [] then DefaultRetryPolicy
          else let p = \<lparr>pol_Backoff = map fromSeconds (rp_BackoffSeconds j), pol_JitterFraction = rp_JitterFraction j,
                        pol_Timeout = fromSeconds (rp_TimeoutSeconds j)\<rparr>
               in if pol_Timeout p \<le> 0 then p\<lparr>pol_Timeout := 10 * second\<rparr> else p)"

text \<open>A destination as it reads back, or \<open>None\<close> if its columns refuse it. A table holds rows as they read back.\<close>

definition destinationRow :: "PgLib \<Rightarrow> Destination \<Rightarrow> Destination option" where
  "destinationRow P d =
     (if \<not> list_all pgText [dst_ID d, dst_TenantID d, dst_Name d, dst_URL d, dst_SigningSecretRef d, dst_SchemaVersion d]
      then None
      else case col_filter P (dst_Filter d) of
             None \<Rightarrow> None
           | Some f \<Rightarrow> Some (d\<lparr>dst_Filter := f,
                              dst_RetryPolicy := decodeRetryPolicy (Some (encodeRetryPolicy (dst_RetryPolicy d)))\<rparr>))"

definition httpsOnly :: "string \<Rightarrow> bool" where
  "httpsOnly url \<longleftrightarrow> take 8 url = ''https://''"

definition PgCreateDestination :: "PgLib \<Rightarrow> instant \<Rightarrow> Memory \<Rightarrow> Destination \<Rightarrow> Memory \<times> pg_fault option" where
  "PgCreateDestination P now m d =
     (case destinationRow P d of
        None \<Rightarrow> (m, Some (mapError OtherFailure))
      | Some r \<Rightarrow>
          if \<not> httpsOnly (dst_URL d) then (m, Some (mapError OtherFailure))
          else if list_ex (\<lambda>r. dst_ID r = dst_ID d) (tableRows (mem_destinations m))
          then (m, Some (mapError (UniqueViolation ''destinations_pkey'')))
          else if \<not> list_ex (\<lambda>t. ten_ID t = dst_TenantID d) (tableRows (mem_tenants m))
          then (m, Some (mapError (ForeignKeyViolation ''destinations_tenant_id_fkey'')))
          else (m\<lparr>mem_destinations := mem_destinations m @ [(dst_ID d, r\<lparr>dst_CreatedAt := orNow now (dst_CreatedAt d)\<rparr>)]\<rparr>,
                None))"

definition PgGetDestination :: "Memory \<Rightarrow> string \<Rightarrow> string \<Rightarrow> pg_fault + Destination" where
  "PgGetDestination m tenantID i =
     bound [tenantID, i] (firstRow (filter (\<lambda>d. dst_TenantID d = tenantID \<and> dst_ID d = i) (tableRows (mem_destinations m))))"

definition PgListDestinations :: "Memory \<Rightarrow> string \<Rightarrow> pg_fault + Destination list" where
  "PgListDestinations m tenantID =
     bound [tenantID] (Inr (sort_key dst_CreatedAt (filter (\<lambda>d. dst_TenantID d = tenantID) (tableRows (mem_destinations m)))))"

definition PgUpdateDestination :: "PgLib \<Rightarrow> Memory \<Rightarrow> string \<Rightarrow> Destination \<Rightarrow> Memory \<times> pg_fault option" where
  "PgUpdateDestination P m tenantID d =
     (let hit = (\<lambda>r. dst_TenantID r = tenantID \<and> dst_ID r = dst_ID d)
      in case destinationRow P (d\<lparr>dst_TenantID := tenantID\<rparr>) of
           None \<Rightarrow> (m, Some (mapError OtherFailure))
         | Some d' \<Rightarrow>
             if \<not> list_ex hit (tableRows (mem_destinations m)) then (m, Some PgNotFound)
             else if \<not> httpsOnly (dst_URL d) then (m, Some (mapError OtherFailure))
             else (m\<lparr>mem_destinations :=
                      updateRows hit (\<lambda>r. d'\<lparr>dst_CreatedAt := dst_CreatedAt r\<rparr>) (mem_destinations m)\<rparr>, None))"

text \<open>The deliveries of a destination refer to it with \<^verbatim>\<open>ON DELETE CASCADE\<close>.\<close>

definition PgDeleteDestination :: "Memory \<Rightarrow> string \<Rightarrow> string \<Rightarrow> Memory \<times> pg_fault option" where
  "PgDeleteDestination m tenantID i =
     (let hit = (\<lambda>r. dst_TenantID r = tenantID \<and> dst_ID r = i);
          gone = map del_ID (filter (\<lambda>d. del_DestinationID d = i) (tableRows (mem_deliveries m)))
      in if \<not> list_all pgText [tenantID, i] then (m, Some (mapError OtherFailure))
         else if \<not> list_ex hit (tableRows (mem_destinations m)) then (m, Some PgNotFound)
         else (m\<lparr>mem_destinations := deleteRows hit (mem_destinations m),
                 mem_deliveries := deleteRows (\<lambda>d. del_DestinationID d = i) (mem_deliveries m),
                 mem_leases := filter (\<lambda>(k, _). k \<notin> set gone) (mem_leases m)\<rparr>, None))"

section \<open>Raw events\<close>

text \<open>The primary key is the identifier with the time of receipt, the key of the partitions.\<close>

definition PgPutRawEvent :: "PgLib \<Rightarrow> instant \<Rightarrow> Memory \<Rightarrow> RawEvent \<Rightarrow> Memory \<times> pg_fault option" where
  "PgPutRawEvent P now m e =
     (let received = orNowUTC now (raw_ReceivedAt e)
      in case (if list_all pgText [raw_ID e, raw_TenantID e, raw_EndpointID e, raw_Provider e, raw_BodySHA256 e,
                 raw_SignatureError e, raw_RedactionNote e] then col_headers P (raw_Headers e) else None) of
           None \<Rightarrow> (m, Some (mapError OtherFailure))
         | Some hs \<Rightarrow>
             if list_ex (\<lambda>r. raw_ID r = raw_ID e \<and> gt_instant (raw_ReceivedAt r) = gt_instant received) (tableRows (mem_rawEvents m))
             then (m, Some (mapError (UniqueViolation ''raw_events_pkey'')))
             else (m\<lparr>mem_rawEvents := mem_rawEvents m @ [(raw_ID e, e\<lparr>raw_Headers := hs, raw_ReceivedAt := received\<rparr>)]\<rparr>,
                   None))"

definition PgGetRawEvent :: "Memory \<Rightarrow> string \<Rightarrow> string \<Rightarrow> pg_fault + RawEvent" where
  "PgGetRawEvent m tenantID i =
     bound [tenantID, i] (firstRow (filter (\<lambda>r. raw_TenantID r = tenantID \<and> raw_ID r = i) (tableRows (mem_rawEvents m))))"

definition pendingRow :: "Memory \<Rightarrow> RawEvent \<Rightarrow> bool" where
  "pendingRow m r \<longleftrightarrow>
     raw_SignatureValid r \<and> map_of (mem_normalised m) (raw_ID r) = None \<and> map_of (mem_failures m) (raw_ID r) = None"

definition PgListUnnormalised :: "Memory \<Rightarrow> int \<Rightarrow> RawEvent list" where
  "PgListUnnormalised m limit =
     take (nat (if limit \<le> 0 \<or> limit > 1000 then 100 else limit))
       (sort_key (\<lambda>r. gt_instant (raw_ReceivedAt r)) (filter (pendingRow m) (tableRows (mem_rawEvents m))))"

definition PgListSignatureFailures ::
    "Memory \<Rightarrow> string \<Rightarrow> string \<Rightarrow> gotime \<Rightarrow> int \<Rightarrow> pg_fault + RawEvent list" where
  "PgListSignatureFailures m tenantID endpointID since limit =
     bound [tenantID, endpointID]
       (Inr (take (nat (if limit \<le> 0 \<or> limit > 500 then 100 else limit))
          (sort_key (\<lambda>r. - gt_instant (raw_ReceivedAt r))
             (filter (\<lambda>r. raw_TenantID r = tenantID \<and> \<not> raw_SignatureValid r
                \<and> gt_instant (raw_ReceivedAt r) \<ge> gt_instant since
                \<and> (endpointID = [] \<or> raw_EndpointID r = endpointID)) (tableRows (mem_rawEvents m))))))"

section \<open>Canonical events\<close>

text \<open>
  An event as it reads back. There is no column for \<open>Redacted\<close>; a missing map of extra fields reads back empty. A
  currency is empty or three bytes long, which \<open>Validate\<close> makes sure of; \<^verbatim>\<open>CHAR(3)\<close> pads shorter ones.
\<close>

definition eventRow :: "PgLib \<Rightarrow> instant \<Rightarrow> CanonicalEvent \<Rightarrow> CanonicalEvent option" where
  "eventRow P now e =
     (if \<not> list_all pgText [ev_ID e, ev_TenantID e, ev_RawEventID e, ev_Provider e, ev_ProviderEventID e, ev_EventType e,
            ev_TransactionRef e, ev_Status e, ev_Currency e, ev_CustomerRefHash e, ev_UnmappedStatus e]
         \<or> ev_Status e \<notin> {''pending'', ''success'', ''failed'', ''reversed'', ''abandoned'', ''unknown''}
         \<or> ev_Currency e \<noteq> [] \<and> length (ev_Currency e) \<noteq> 3
      then None
      else case (case ev_ProviderExtra e of None \<Rightarrow> Some [] | Some x \<Rightarrow> col_extra P x) of
             None \<Rightarrow> None
           | Some x \<Rightarrow> Some (e\<lparr>ev_ProviderExtra := Some x, ev_OccurredAt := orNowUTC now (ev_OccurredAt e),
                              ev_ReceivedAt := orNowUTC now (ev_ReceivedAt e),
                              ev_NormalisedAt := orNowUTC now (ev_NormalisedAt e), ev_Redacted := False\<rparr>))"

definition sameProviderEvent :: "CanonicalEvent \<Rightarrow> CanonicalEvent \<Rightarrow> bool" where
  "sameProviderEvent e r \<longleftrightarrow> ev_ProviderEventID e \<noteq> [] \<and> ev_TenantID r = ev_TenantID e
     \<and> ev_Provider r = ev_Provider e \<and> ev_ProviderEventID r = ev_ProviderEventID e"

definition rawRow :: "Memory \<Rightarrow> string \<Rightarrow> string \<Rightarrow> bool" where
  "rawRow m tenantID i \<longleftrightarrow> list_ex (\<lambda>r. raw_TenantID r = tenantID \<and> raw_ID r = i) (tableRows (mem_rawEvents m))"

definition PgPutCanonicalEvent :: "PgLib \<Rightarrow> instant \<Rightarrow> Memory \<Rightarrow> CanonicalEvent \<Rightarrow> Memory \<times> pg_fault option" where
  "PgPutCanonicalEvent P now m e =
     (case eventRow P now e of
        None \<Rightarrow> (m, Some (mapError OtherFailure))
      | Some r \<Rightarrow>
          if list_ex (\<lambda>r. ev_ID r = ev_ID e) (tableRows (mem_events m))
          then (m, Some (mapError (UniqueViolation ''canonical_events_pkey'')))
          else if list_ex (sameProviderEvent e) (tableRows (mem_events m))
          then (m, Some (mapError (UniqueViolation ''idx_canon_provider_event'')))
          else (m\<lparr>mem_events := mem_events m @ [(ev_ID e, r)],
                  mem_normalised := (if ev_RawEventID e \<noteq> [] \<and> rawRow m (ev_TenantID e) (ev_RawEventID e)
                                     then AList.update (ev_RawEventID e) (ev_ID e) (mem_normalised m)
                                     else mem_normalised m)\<rparr>, None))"

definition PgGetCanonicalEvent :: "Memory \<Rightarrow> string \<Rightarrow> string \<Rightarrow> pg_fault + CanonicalEvent" where
  "PgGetCanonicalEvent m tenantID i =
     bound [tenantID, i] (firstRow (filter (\<lambda>e. ev_TenantID e = tenantID \<and> ev_ID e = i) (tableRows (mem_events m))))"

text \<open>An event without an identifier of its provider has \<^verbatim>\<open>NULL\<close> there, which equals nothing.\<close>

definition PgGetCanonicalEventByDedupeKey ::
    "Memory \<Rightarrow> string \<Rightarrow> string \<Rightarrow> string \<Rightarrow> pg_fault + CanonicalEvent" where
  "PgGetCanonicalEventByDedupeKey m tenantID provider providerEventID =
     bound [tenantID, provider, providerEventID]
       (firstRow (filter (\<lambda>e. ev_TenantID e = tenantID \<and> ev_Provider e = provider \<and> ev_ProviderEventID e \<noteq> []
          \<and> ev_ProviderEventID e = providerEventID) (tableRows (mem_events m))))"

definition PgQueryEvents :: "Memory \<Rightarrow> string \<Rightarrow> EventQuery \<Rightarrow> pg_fault + CanonicalEvent list" where
  "PgQueryEvents m tenantID q =
     bound [tenantID, ToLower (q_Provider q), q_Status q, q_EventType q, q_TransactionRef q, q_Cursor q]
       (Inr (take (nat (if q_Limit q \<le> 0 \<or> q_Limit q > 500 then 100 else q_Limit q))
          (rev (sort_key ev_ID (filter (\<lambda>e. ev_TenantID e = tenantID
             \<and> (q_Provider q = [] \<or> ev_Provider e = ToLower (q_Provider q))
             \<and> (q_Status q = [] \<or> ev_Status e = q_Status q)
             \<and> (q_EventType q = [] \<or> ev_EventType e = q_EventType q)
             \<and> (q_TransactionRef q = [] \<or> ev_TransactionRef e = q_TransactionRef q)
             \<and> (case q_MappingComplete q of None \<Rightarrow> True | Some b \<Rightarrow> ev_MappingComplete e = b)
             \<and> (IsZero (q_From q) \<or> gt_instant (ev_OccurredAt e) \<ge> gt_instant (q_From q))
             \<and> (IsZero (q_To q) \<or> gt_instant (ev_OccurredAt e) \<le> gt_instant (q_To q))
             \<and> (q_Cursor q = [] \<or> ev_ID e < q_Cursor q)) (tableRows (mem_events m)))))))"

definition PgMarkNormalisationFailure ::
    "Memory \<Rightarrow> string \<Rightarrow> string \<Rightarrow> string \<Rightarrow> Memory \<times> pg_fault option" where
  "PgMarkNormalisationFailure m tenantID rawEventID reason =
     (let reason = (if length reason > 2000 then take 2000 reason else reason)
      in if \<not> list_all pgText [tenantID, rawEventID, reason] then (m, Some (mapError OtherFailure))
         else if \<not> rawRow m tenantID rawEventID then (m, Some PgNotFound)
         else (m\<lparr>mem_failures := AList.update rawEventID reason (mem_failures m)\<rparr>, None))"

text \<open>One row per group; the sample is the event normalised last.\<close>

definition unknownGroup :: "CanonicalEvent list \<Rightarrow> string \<times> string \<Rightarrow> UnknownStatus" where
  "unknownGroup es key =
     (let g = filter (\<lambda>e. (ev_Provider e, ev_UnmappedStatus e) = key) es;
          times = map (\<lambda>e. gt_instant (ev_NormalisedAt e)) g
      in \<lparr>us_Provider = fst key, us_RawValue = snd key, us_Count = int (length g),
          us_FirstSeen = utcTime (Min (set times)), us_LastSeen = utcTime (Max (set times)),
          us_SampleEvent = ev_ID (hd (sort_key (\<lambda>e. - gt_instant (ev_NormalisedAt e)) g))\<rparr>)"

definition PgUnknownStatuses :: "Memory \<Rightarrow> string \<Rightarrow> gotime \<Rightarrow> pg_fault + UnknownStatus list" where
  "PgUnknownStatuses m tenantID since =
     (let es = filter (\<lambda>e. ev_TenantID e = tenantID \<and> ev_UnmappedStatus e \<noteq> []
                 \<and> gt_instant (ev_NormalisedAt e) \<ge> gt_instant since) (tableRows (mem_events m))
      in bound [tenantID]
           (Inr (sort_key (\<lambda>u. (- us_Count u, us_RawValue u))
              (map (unknownGroup es) (remdups (map (\<lambda>e. (ev_Provider e, ev_UnmappedStatus e)) es))))))"

section \<open>Keys\<close>

datatype pg_key_error = PgKeyNotFound | PgKeyOther pg_fault

definition PgPutKey :: "instant \<Rightarrow> Memory \<Rightarrow> KeyStore \<Rightarrow> Key \<Rightarrow> KeyStore \<times> pg_fault option" where
  "PgPutKey now m s k =
     (if \<not> list_all pgText [key_ID k, key_TenantID k, key_Prefix k, key_Hash k, key_Environment k, key_Role k, key_Name k]
         \<or> \<not> knownEnvironment (key_Environment k) \<or> \<not> Role_Valid (key_Role k)
      then (s, Some (mapError OtherFailure))
      else if list_ex (\<lambda>r. key_ID r = key_ID k) (tableRows (st_byID s))
      then (s, Some (mapError (UniqueViolation ''api_keys_pkey'')))
      else if list_ex (\<lambda>r. key_Prefix r = key_Prefix k) (tableRows (st_byID s))
      then (s, Some (mapError (UniqueViolation ''api_keys_prefix_key'')))
      else if \<not> list_ex (\<lambda>t. ten_ID t = key_TenantID k) (tableRows (mem_tenants m))
      then (s, Some (mapError (ForeignKeyViolation ''api_keys_tenant_id_fkey'')))
      else (s\<lparr>st_byID := st_byID s @ [(key_ID k, k\<lparr>key_CreatedAt := orNow now (key_CreatedAt k)\<rparr>)]\<rparr>, None))"

definition PgGetKeyByPrefix :: "KeyStore \<Rightarrow> string \<Rightarrow> pg_key_error + Key" where
  "PgGetKeyByPrefix s prefix =
     (case bound [prefix] (firstRow (filter (\<lambda>k. key_Prefix k = prefix) (tableRows (st_byID s)))) of
        Inl err \<Rightarrow> Inl (if err = PgNotFound then PgKeyNotFound else PgKeyOther err)
      | Inr k \<Rightarrow> Inr k)"

definition PgListKeys :: "KeyStore \<Rightarrow> string \<Rightarrow> pg_fault + Key list" where
  "PgListKeys s tenantID =
     bound [tenantID] (Inr (sort_key (\<lambda>k. - key_CreatedAt k) (filter (\<lambda>k. key_TenantID k = tenantID) (tableRows (st_byID s)))))"

definition PgRevokeKey :: "string \<Rightarrow> string \<Rightarrow> instant \<Rightarrow> KeyStore \<Rightarrow> KeyStore \<times> pg_key_error option" where
  "PgRevokeKey tenantID keyID when s =
     (let hit = (\<lambda>k. key_TenantID k = tenantID \<and> key_ID k = keyID \<and> is_zero_time (key_RevokedAt k))
      in if \<not> list_all pgText [tenantID, keyID] then (s, Some (PgKeyOther (mapError OtherFailure)))
         else if \<not> list_ex hit (tableRows (st_byID s)) then (s, Some PgKeyNotFound)
         else (s\<lparr>st_byID := updateRows hit (\<lambda>k. k\<lparr>key_RevokedAt := when\<rparr>) (st_byID s)\<rparr>, None))"

definition PgTouchKey :: "string \<Rightarrow> instant \<Rightarrow> KeyStore \<Rightarrow> KeyStore \<times> pg_fault option" where
  "PgTouchKey keyID when s =
     (let hit = (\<lambda>k. key_ID k = keyID \<and> (is_zero_time (key_LastUsed k) \<or> key_LastUsed k < when - minute))
      in if \<not> pgText keyID then (s, Some (mapError OtherFailure))
         else (s\<lparr>st_byID := updateRows hit (\<lambda>k. k\<lparr>key_LastUsed := when\<rparr>) (st_byID s)\<rparr>, None))"

end
