(* ===== verification/Postgres_Queue.thy ===== *)
theory Postgres_Queue
  imports Postgres_Store Delivery_Queue Assoc "HOL-Library.List_Lexorder" "HOL-Library.Char_ord" "HOL-Library.Product_Lexorder"
begin

text \<open>
  The delivery queue on Postgres: \<^verbatim>\<open>internal/store/postgres_delivery.go\<close>, with the keys of
  \<^verbatim>\<open>internal/migrate/sql/0001_init.up.sql\<close>. The tables are the ones of a \<open>Memory\<close>, a row a delivery, and the
  column \<^verbatim>\<open>leased_until\<close> the entry of \<open>mem_leases\<close>, absent for \<^verbatim>\<open>NULL\<close>; other \<^verbatim>\<open>NULL\<close> columns are the zero values
  they are scanned to. A statement runs alone, so that \<^verbatim>\<open>SKIP LOCKED\<close> skips nothing; the order of rows that a
  statement does not sort is the order of the table. \<open>ClaimDue\<close> of \<open>Delivery_Queue\<close> is the reference.
\<close>

section \<open>Statements\<close>

definition deliveryRows :: "Memory \<Rightarrow> Delivery list" where
  "deliveryRows m = map snd (mem_deliveries m)"

definition referencesMet :: "Memory \<Rightarrow> Delivery \<Rightarrow> bool" where
  "referencesMet m d \<longleftrightarrow> map_of (mem_events m) (del_EventID d) \<noteq> None \<and> map_of (mem_destinations m) (del_DestinationID d) \<noteq> None"

definition enqueueRef :: "Memory \<Rightarrow> Delivery \<Rightarrow> pg_fault + string" where
  "enqueueRef m d =
     (if del_TransactionRef d \<noteq> [] then Inr (del_TransactionRef d)
      else bound [del_TenantID d, del_EventID d]
        (case map_of (mem_events m) (del_EventID d) of
           Some e \<Rightarrow> if ev_TenantID e = del_TenantID d then Inr (ev_TransactionRef e) else Inl (mapError NoRows)
         | None \<Rightarrow> Inl (mapError NoRows)))"

definition newRow :: "instant \<Rightarrow> int \<Rightarrow> string \<Rightarrow> Delivery \<Rightarrow> Delivery" where
  "newRow now i ref d =
     (let created = (if is_zero_time (del_CreatedAt d) then now else del_CreatedAt d)
      in d\<lparr>del_ID := i, del_TransactionRef := ref, del_Status := DeliveryPending, del_ResponseCode := 0,
           del_ResponseBody := [], del_Error := [], del_DurationMS := 0, del_CreatedAt := created, del_UpdatedAt := created\<rparr>)"

text \<open>A row whose references are missing is refused after its identifier has been drawn.\<close>

definition PgEnqueueDelivery :: "instant \<Rightarrow> Memory \<Rightarrow> Delivery \<Rightarrow> Memory \<times> (pg_fault + int)" where
  "PgEnqueueDelivery now m d =
     (case enqueueRef m d of
        Inl err \<Rightarrow> (m, Inl err)
      | Inr ref \<Rightarrow>
          if \<not> list_all pgText [del_TenantID d, del_EventID d, del_DestinationID d, ref] then (m, Inl (mapError OtherFailure))
          else let i = mem_deliveryIDs m + 1; m' = m\<lparr>mem_deliveryIDs := i\<rparr>
               in if \<not> referencesMet m d then (m', Inl (mapError (ForeignKeyViolation ''deliveries'')))
                  else (m'\<lparr>mem_deliveries := mem_deliveries m @ [(i, newRow now i ref d)]\<rparr>, Inr i))"

text \<open>The sequences are keyed by the pair, not by a joined text.\<close>

definition PgNextSequence ::
    "((string \<times> string) \<times> int) list \<Rightarrow> string \<Rightarrow> string \<Rightarrow> ((string \<times> string) \<times> int) list \<times> (pg_fault + int)" where
  "PgNextSequence table tenantID transactionRef =
     (if \<not> list_all pgText [tenantID, transactionRef] then (table, Inl (mapError OtherFailure))
      else let n = (case map_of table (tenantID, transactionRef) of None \<Rightarrow> 1 | Some n \<Rightarrow> n + 1)
           in (AList.update (tenantID, transactionRef) n table, Inr n))"

definition pairOf :: "Delivery \<Rightarrow> string \<times> string" where
  "pairOf d = (del_DestinationID d, del_TransactionRef d)"

definition busyRow :: "Memory \<Rightarrow> instant \<Rightarrow> Delivery \<Rightarrow> bool" where
  "busyRow m now d \<longleftrightarrow>
     del_Status d = DeliveryInFlight \<and> (case map_of (mem_leases m) (del_ID d) of Some u \<Rightarrow> u > now | None \<Rightarrow> False)"

definition dueRow :: "Memory \<Rightarrow> int \<Rightarrow> instant \<Rightarrow> Delivery \<Rightarrow> bool" where
  "dueRow m shard now d \<longleftrightarrow>
     del_Shard d = shard \<and> (del_Status d = DeliveryPending \<or> del_Status d = DeliveryFailed)
   \<and> (is_zero_time (del_NextRetryAt d) \<or> del_NextRetryAt d \<le> now)
   \<and> \<not> list_ex (\<lambda>busy. pairOf busy = pairOf d \<and> busyRow m now busy) (deliveryRows m)"

text \<open>\<^verbatim>\<open>DISTINCT ON\<close>: the first row of each key.\<close>

fun distinctOn :: "('d \<Rightarrow> 'k) \<Rightarrow> 'd list \<Rightarrow> 'd list" where
  "distinctOn key [] = []"
| "distinctOn key (d # ds) = d # distinctOn key (filter (\<lambda>e. key e \<noteq> key d) ds)"

definition claimable :: "Memory \<Rightarrow> int \<Rightarrow> instant \<Rightarrow> int list" where
  "claimable m shard now =
     map del_ID (distinctOn pairOf (sort_key (\<lambda>d. (pairOf d, claimOrder d)) (filter (dueRow m shard now) (deliveryRows m))))"

definition picked :: "Memory \<Rightarrow> int \<Rightarrow> instant \<Rightarrow> int \<Rightarrow> int list" where
  "picked m shard now limit =
     map del_ID (take (nat limit)
       (sort_key claimOrder (filter (\<lambda>d. del_ID d \<in> set (claimable m shard now)) (deliveryRows m))))"

definition leaseRows :: "instant \<Rightarrow> instant \<Rightarrow> int list \<Rightarrow> Memory \<Rightarrow> Memory" where
  "leaseRows now until is m =
     m\<lparr>mem_deliveries := map (\<lambda>(i, d). (i, if del_ID d \<in> set is then bump now d else d)) (mem_deliveries m),
       mem_leases := fold (\<lambda>i. AList.update i until) is (mem_leases m)\<rparr>"

definition PgClaimDue :: "Memory \<Rightarrow> int \<Rightarrow> instant \<Rightarrow> int \<Rightarrow> duration \<Rightarrow> Memory \<times> Delivery list" where
  "PgClaimDue m shard now limit lease =
     (let limit = (if limit \<le> 0 \<or> limit > 200 then 32 else limit);
          lease = (if lease \<le> 0 then 2 * minute else lease);
          is = picked m shard now limit;
          m' = leaseRows now (now + lease) is m
      in (m', filter (\<lambda>d. del_ID d \<in> set is) (deliveryRows m')))"

definition lapsed :: "Memory \<Rightarrow> instant \<Rightarrow> Delivery \<Rightarrow> bool" where
  "lapsed m now d \<longleftrightarrow>
     del_Status d = DeliveryInFlight \<and> (case map_of (mem_leases m) (del_ID d) of Some u \<Rightarrow> u \<le> now | None \<Rightarrow> False)"

definition reclaimRow :: "instant \<Rightarrow> Delivery \<Rightarrow> Delivery" where
  "reclaimRow now d =
     d\<lparr>del_Status := DeliveryFailed, del_UpdatedAt := now, del_Error := ''dispatcher lease expired; reclaimed for retry''\<rparr>"

definition ReclaimExpiredLeases :: "Memory \<Rightarrow> instant \<Rightarrow> Memory \<times> int" where
  "ReclaimExpiredLeases m now =
     (let gone = filter (lapsed m now) (deliveryRows m)
      in (m\<lparr>mem_deliveries := map (\<lambda>(i, d). (i, if lapsed m now d then reclaimRow now d else d)) (mem_deliveries m),
            mem_leases := fold (\<lambda>d. AList.delete (del_ID d)) gone (mem_leases m)\<rparr>, int (length gone)))"

definition completeRow :: "instant \<Rightarrow> Delivery \<Rightarrow> Delivery \<Rightarrow> Delivery" where
  "completeRow now d row =
     row\<lparr>del_Status := del_Status d, del_ResponseCode := del_ResponseCode d, del_ResponseBody := del_ResponseBody d,
         del_Error := del_Error d, del_DurationMS := del_DurationMS d, del_NextRetryAt := del_NextRetryAt d,
         del_UpdatedAt := now\<rparr>"

definition PgCompleteDelivery :: "instant \<Rightarrow> Memory \<Rightarrow> Delivery \<Rightarrow> Memory \<times> pg_fault option" where
  "PgCompleteDelivery now m d =
     (let hit = (\<lambda>row. del_TenantID row = del_TenantID d \<and> del_ID row = del_ID d) in
      if \<not> list_all pgText [del_TenantID d, del_ResponseBody d, del_Error d] then (m, Some (mapError OtherFailure))
      else if \<not> list_ex hit (deliveryRows m) then (m, Some PgNotFound)
      else (m\<lparr>mem_deliveries := map (\<lambda>(i, row). (i, if hit row then completeRow now d row else row)) (mem_deliveries m),
              mem_leases := AList.delete (del_ID d) (mem_leases m)\<rparr>, None))"

definition PgGetDelivery :: "Memory \<Rightarrow> string \<Rightarrow> int \<Rightarrow> pg_fault + Delivery" where
  "PgGetDelivery m tenantID i =
     bound [tenantID] (firstRow (filter (\<lambda>d. del_TenantID d = tenantID \<and> del_ID d = i) (deliveryRows m)))"

definition PgListDeliveriesForEvent :: "Memory \<Rightarrow> string \<Rightarrow> string \<Rightarrow> pg_fault + Delivery list" where
  "PgListDeliveriesForEvent m tenantID eventID =
     bound [tenantID, eventID]
       (Inr (sort_key del_ID (filter (\<lambda>d. del_TenantID d = tenantID \<and> del_EventID d = eventID) (deliveryRows m))))"

definition PgQueryDeliveries :: "Memory \<Rightarrow> string \<Rightarrow> DeliveryQuery \<Rightarrow> pg_fault + Delivery list" where
  "PgQueryDeliveries m tenantID q =
     bound [tenantID, dq_DestinationID q, dq_EventID q]
       (Inr (take (nat (if dq_Limit q \<le> 0 \<or> dq_Limit q > 500 then 100 else dq_Limit q))
         (rev (sort_key del_ID (filter (\<lambda>d. del_TenantID d = tenantID
            \<and> (dq_DestinationID q = [] \<or> del_DestinationID d = dq_DestinationID q)
            \<and> (dq_Status q = None \<or> dq_Status q = Some (del_Status d))
            \<and> (dq_EventID q = [] \<or> del_EventID d = dq_EventID q)
            \<and> (is_zero_time (dq_From q) \<or> del_CreatedAt d \<ge> dq_From q)
            \<and> (is_zero_time (dq_To q) \<or> del_CreatedAt d \<le> dq_To q)
            \<and> (dq_Cursor q = 0 \<or> del_ID d < dq_Cursor q)) (deliveryRows m))))))"

definition waiting :: "Delivery \<Rightarrow> bool" where
  "waiting d \<longleftrightarrow> del_Status d = DeliveryPending \<or> del_Status d = DeliveryFailed \<or> del_Status d = DeliveryInFlight"

definition PgQueueDepth :: "Memory \<Rightarrow> (int \<times> int) list" where
  "PgQueueDepth m =
     (let ws = filter waiting (deliveryRows m)
      in map (\<lambda>s. (s, int (length (filter (\<lambda>d. del_Shard d = s) ws)))) (remdups (map del_Shard ws)))"

definition PgOldestPending :: "Memory \<Rightarrow> (int \<times> instant) list" where
  "PgOldestPending m =
     (let ws = filter waiting (deliveryRows m)
      in map (\<lambda>s. (s, Min (set (map del_CreatedAt (filter (\<lambda>d. del_Shard d = s) ws))))) (remdups (map del_Shard ws)))"

end
