(* ===== verification/Postgres_Queue_Spec.thy ===== *)
theory Postgres_Queue_Spec
  imports Postgres_Queue Dispatch
begin

text \<open>
  What the queue on Postgres promises: at most one delivery of a transaction is in flight, it hands out what the
  in-memory queue hands out once lapsed leases are reclaimed, a crash costs one lease, and the budget a parked delivery
  should get back is not given back.
\<close>

section \<open>The selection\<close>

lemma distinctOn_sub: "set (distinctOn k xs) \<subseteq> set xs"
  by (induction k xs rule: distinctOn.induct) auto

lemma distinctOn_sorted: "sorted_wrt R xs \<Longrightarrow> sorted_wrt R (distinctOn k xs)"
proof (induction k xs rule: distinctOn.induct)
  case (2 k d ds)
  then have "sorted_wrt R (distinctOn k (filter (\<lambda>e. k e \<noteq> k d) ds))" by (simp add: sorted_wrt_filter)
  with 2 distinctOn_sub show ?case by fastforce
qed simp

lemma distinctOn_keys: "distinct (map k (distinctOn k xs))"
proof (induction k xs rule: distinctOn.induct)
  case (2 k d ds)
  then show ?case using distinctOn_sub [of k "filter (\<lambda>e. k e \<noteq> k d) ds"] by auto
qed simp

lemma distinctOn_hit: "x \<in> set xs \<Longrightarrow> \<exists>y\<in>set (distinctOn k xs). k y = k x"
proof (induction k xs rule: distinctOn.induct)
  case (2 k d ds)
  then show ?case by (cases "k x = k d") auto
qed simp

lemma distinctOn_first:
  "sorted_wrt R xs \<Longrightarrow> y \<in> set (distinctOn k xs) \<Longrightarrow> x \<in> set xs \<Longrightarrow> k x = k y \<Longrightarrow> x = y \<or> R y x"
proof (induction k xs rule: distinctOn.induct)
  case (2 k d ds)
  show ?case
  proof (cases "y = d")
    case True
    with 2 show ?thesis by auto
  next
    case False
    with 2 have y: "y \<in> set (distinctOn k (filter (\<lambda>e. k e \<noteq> k d) ds))" by simp
    then have "k y \<noteq> k d" using distinctOn_sub [of k "filter (\<lambda>e. k e \<noteq> k d) ds"] by auto
    with 2 y show ?thesis by (auto simp: sorted_wrt_filter)
  qed
qed simp

lemma distinctOn_map: "distinctOn k (map f xs) = map f (distinctOn (k \<circ> f) xs)"
  by (induction "k \<circ> f" xs rule: distinctOn.induct) (simp_all add: filter_map comp_def)

lemma distinctOn_cong:
  assumes "\<And>x y. x \<in> set xs \<Longrightarrow> y \<in> set xs \<Longrightarrow> k x = k y \<longleftrightarrow> k' x = k' y"
  shows "distinctOn k xs = distinctOn k' xs"
  using assms
proof (induction k xs rule: distinctOn.induct)
  case (2 k d ds)
  have f: "filter (\<lambda>e. k e \<noteq> k d) ds = filter (\<lambda>e. k' e \<noteq> k' d) ds" using "2.prems" by (intro filter_cong) auto
  have "distinctOn k (filter (\<lambda>e. k e \<noteq> k d) ds) = distinctOn k' (filter (\<lambda>e. k e \<noteq> k d) ds)"
    using "2.prems" by (intro "2.IH") auto
  then show ?case by (simp add: f)
qed simp

lemma selectDue_distinctOn: "selectDue k n b ds = take n (distinctOn k (filter (\<lambda>d. k d \<notin> b) ds))"
proof (induction k n b ds rule: selectDue.induct)
  case (2 k n b d ds)
  have "filter (\<lambda>e. k e \<noteq> k d) (filter (\<lambda>e. k e \<notin> b) ds) = filter (\<lambda>e. k e \<notin> insert (k d) b) ds"
    by (simp add: conj_commute)
  with 2 show ?case by (cases n) auto
qed simp

lemma sort_key_map_eq: "(\<And>x. f (g x) = f x) \<Longrightarrow> sort_key f (map g xs) = map g (sort_key f xs)"
proof (induction xs)
  case (Cons x xs)
  have "insort_key f (g x) (map g ys) = map g (insort_key f x ys)" for ys
    using Cons.prems by (induction ys) auto
  with Cons show ?case by simp
qed simp

definition leader :: "Memory \<Rightarrow> int \<Rightarrow> instant \<Rightarrow> Delivery \<Rightarrow> bool" where
  "leader m shard now d \<longleftrightarrow>
     dueRow m shard now d \<and> (\<forall>e\<in>set (deliveryRows m). dueRow m shard now e \<and> pairOf e = pairOf d \<longrightarrow> claimOrder d \<le> claimOrder e)"

lemma row_stored: "queue_wf m \<Longrightarrow> d \<in> set (deliveryRows m) \<longleftrightarrow> map_of (mem_deliveries m) (del_ID d) = Some d"
  by (simp add: deliveryRows_def queue_wf_stored)

lemma claimOrder_eq: "queue_wf m \<Longrightarrow> d \<in> set (deliveryRows m) \<Longrightarrow> e \<in> set (deliveryRows m) \<Longrightarrow> claimOrder d = claimOrder e \<Longrightarrow> d = e"
  using claimOrder_inj [of m] by (auto simp: deliveryRows_def dest: inj_onD)

lemma distinctOn_leader:
  assumes "queue_wf m" and xs: "set xs = set (filter (dueRow m shard now) (deliveryRows m))" and "sorted_wrt R xs"
    and R: "\<And>x y. R y x \<Longrightarrow> pairOf x = pairOf y \<Longrightarrow> claimOrder y \<le> claimOrder x"
  shows "d \<in> set (distinctOn pairOf xs) \<longleftrightarrow> d \<in> set (deliveryRows m) \<and> leader m shard now d"
proof -
  have ord: "claimOrder y \<le> claimOrder x" if "y \<in> set (distinctOn pairOf xs)" "x \<in> set xs" "pairOf x = pairOf y" for x y
    using distinctOn_first [OF assms(3) that] R that(3) by blast
  show ?thesis
  proof
    assume d: "d \<in> set (distinctOn pairOf xs)"
    then have "d \<in> set xs" using distinctOn_sub by fast
    moreover have "claimOrder d \<le> claimOrder e" if "e \<in> set (deliveryRows m)" "dueRow m shard now e \<and> pairOf e = pairOf d" for e
      using ord [OF d, of e] that xs by simp
    ultimately show "d \<in> set (deliveryRows m) \<and> leader m shard now d" unfolding leader_def using xs by simp
  next
    assume l: "d \<in> set (deliveryRows m) \<and> leader m shard now d"
    then have x: "d \<in> set xs" using xs by (simp add: leader_def)
    then obtain y where y: "y \<in> set (distinctOn pairOf xs)" "pairOf y = pairOf d" using distinctOn_hit by metis
    then have "y \<in> set xs" using distinctOn_sub by fast
    then have row: "y \<in> set (deliveryRows m)" "dueRow m shard now y" using xs by simp_all
    have "claimOrder y \<le> claimOrder d" using ord [OF y(1) x] y(2) by simp
    moreover have "claimOrder d \<le> claimOrder y" using l row y(2) unfolding leader_def by blast
    ultimately have "y = d" using claimOrder_eq [OF assms(1) row(1), of d] l by simp
    with y(1) show "d \<in> set (distinctOn pairOf xs)" by simp
  qed
qed

lemma claimable_iff:
  assumes "queue_wf m" and "d \<in> set (deliveryRows m)"
  shows "del_ID d \<in> set (claimable m shard now) \<longleftrightarrow> leader m shard now d"
proof -
  let ?xs = "sort_key (\<lambda>d. (pairOf d, claimOrder d)) (filter (dueRow m shard now) (deliveryRows m))"
  have srt: "sorted_wrt (\<lambda>x y. (pairOf x, claimOrder x) \<le> (pairOf y, claimOrder y)) ?xs"
    using sorted_sort_key [of "\<lambda>d. (pairOf d, claimOrder d)"] by (simp add: sorted_map)
  have lead: "e \<in> set (distinctOn pairOf ?xs) \<longleftrightarrow> e \<in> set (deliveryRows m) \<and> leader m shard now e" for e
    by (rule distinctOn_leader [OF assms(1) _ srt]) auto
  have id: "d = e" if "e \<in> set (deliveryRows m)" "del_ID d = del_ID e" for e
  proof -
    have "Some d = map_of (mem_deliveries m) (del_ID d)" using assms(2) by (simp add: row_stored [OF assms(1)])
    also have "\<dots> = map_of (mem_deliveries m) (del_ID e)" by (simp only: that(2))
    also have "\<dots> = Some e" using that(1) by (simp add: row_stored [OF assms(1)])
    finally show ?thesis by (rule option.inject [THEN iffD1])
  qed
  show ?thesis
  proof
    assume "del_ID d \<in> set (claimable m shard now)"
    then obtain e where e: "e \<in> set (distinctOn pairOf ?xs)" "del_ID d = del_ID e" by (auto simp: claimable_def)
    then have "d = e" using id lead by blast
    with e(1) lead show "leader m shard now d" by blast
  next
    assume "leader m shard now d"
    then have "d \<in> set (distinctOn pairOf ?xs)" using lead assms(2) by blast
    then show "del_ID d \<in> set (claimable m shard now)" by (simp add: claimable_def)
  qed
qed

text \<open>The rows picked, in order: the first of each pair among the rows that are due, as many as fit.\<close>

lemma picked_eq:
  assumes "queue_wf m"
  shows "picked m shard now limit =
    map del_ID (take (nat limit) (distinctOn pairOf (sort_key claimOrder (filter (dueRow m shard now) (deliveryRows m)))))"
proof -
  let ?due = "filter (dueRow m shard now) (deliveryRows m)"
  let ?a = "sort_key claimOrder (filter (\<lambda>d. del_ID d \<in> set (claimable m shard now)) (deliveryRows m))"
    and ?b = "distinctOn pairOf (sort_key claimOrder ?due)"
  have inj: "inj_on claimOrder (set (deliveryRows m))" using claimOrder_eq [OF assms] by (intro inj_onI) blast
  have rows: "distinct (deliveryRows m)"
  proof -
    have "del_ID (snd x) = fst x" if "x \<in> set (mem_deliveries m)" for x
    proof -
      have "keys_distinct (mem_deliveries m)" using assms by (simp add: queue_wf_def)
      then have "map_of (mem_deliveries m) (fst x) = Some (snd x)" using that by (metis in_set_map_of prod.collapse)
      then show ?thesis by (rule queue_wf_ID [OF assms])
    qed
    then have "map del_ID (deliveryRows m) = map fst (mem_deliveries m)" by (simp add: deliveryRows_def)
    moreover have "keys_distinct (mem_deliveries m)" using assms by (simp add: queue_wf_def)
    ultimately have "distinct (map del_ID (deliveryRows m))" by (simp only:)
    then show ?thesis unfolding distinct_map [of del_ID] by (rule conjunct1)
  qed
  have sub: "distinct (map claimOrder xs)" if "distinct xs" "set xs \<subseteq> set (deliveryRows m)" for xs
    using that inj_on_subset [OF inj that(2)] unfolding distinct_map by blast
  have srt: "sorted (map claimOrder ?a)" "sorted (map claimOrder (sort_key claimOrder ?due))" by simp_all
  have sb: "sorted (map claimOrder ?b)" using distinctOn_sorted srt(2) unfolding sorted_map by blast
  have da: "distinct (map claimOrder ?a)" using rows by (intro sub) auto
  have db: "distinct (map claimOrder ?b)"
  proof (rule sub)
    show "set ?b \<subseteq> set (deliveryRows m)" using distinctOn_sub [of pairOf "sort_key claimOrder ?due"] by auto
    show "distinct ?b" using distinctOn_keys distinct_map by blast
  qed
  have "set ?a = set ?b"
  proof (rule set_eqI)
    fix d
    have "sorted_wrt (\<lambda>x y. claimOrder x \<le> claimOrder y) (sort_key claimOrder ?due)" using srt(2) by (simp add: sorted_map)
    from distinctOn_leader [OF assms _ this] have "d \<in> set ?b \<longleftrightarrow> d \<in> set (deliveryRows m) \<and> leader m shard now d" by auto
    then show "d \<in> set ?a \<longleftrightarrow> d \<in> set ?b" using claimable_iff [OF assms, of d] by auto
  qed
  note same = this
  have "?a = ?b"
  proof (rule map_sorted_distinct_set_unique [where f = claimOrder, OF _ srt(1) da sb db same])
    have "set ?a \<subseteq> set (deliveryRows m)" by auto
    then show "inj_on claimOrder (set ?a \<union> set ?b)" unfolding same [symmetric] Un_absorb by (rule inj_on_subset [OF inj])
  qed
  then show ?thesis by (simp add: picked_def)
qed

section \<open>The in-memory queue as specification\<close>

text \<open>What a table of the schema holds, with identifiers as \<open>NewID\<close> draws them, at a moment no lease ends.\<close>

definition pg_rows :: "instant \<Rightarrow> Memory \<Rightarrow> bool" where
  "pg_rows now m \<longleftrightarrow> queue_wf m \<and>
     (\<forall>d\<in>set (deliveryRows m). del_TransactionRef d \<noteq> [] \<and> CHR ''|'' \<notin> set (del_DestinationID d)
        \<and> (del_Status d = DeliveryInFlight \<longrightarrow> (\<exists>u. map_of (mem_leases m) (del_ID d) = Some u \<and> u \<noteq> now)))"

lemma pg_rowsD:
  assumes "pg_rows now m" "d \<in> set (deliveryRows m)"
  shows "del_TransactionRef d \<noteq> []" "CHR ''|'' \<notin> set (del_DestinationID d)"
    and "del_Status d = DeliveryInFlight \<Longrightarrow> \<exists>u. map_of (mem_leases m) (del_ID d) = Some u \<and> u \<noteq> now"
  using assms unfolding pg_rows_def by blast+

lemma joined_eq: "x \<notin> set a \<Longrightarrow> x \<notin> set b \<Longrightarrow> a @ x # s = b @ x # t \<longleftrightarrow> a = b \<and> s = t"
proof (induction a arbitrary: b)
  case Nil
  then show ?case by (cases b) auto
next
  case (Cons y a)
  then show ?case by (cases b) auto
qed

lemma deliveryKey_pair:
  assumes "pg_rows now m" "d \<in> set (deliveryRows m)" "e \<in> set (deliveryRows m)"
  shows "deliveryKey m d = deliveryKey m e \<longleftrightarrow> pairOf d = pairOf e"
  using pg_rowsD(1,2) [OF assms(1,2)] pg_rowsD(1,2) [OF assms(1,3)]
  by (simp add: deliveryKey_def refFor_def pairOf_def joined_eq)

abbreviation afterReclaim :: "instant \<Rightarrow> Memory \<Rightarrow> Memory" where
  "afterReclaim now m \<equiv> fst (ReclaimExpiredLeases m now)"

definition reclaimed :: "Memory \<Rightarrow> instant \<Rightarrow> Delivery \<Rightarrow> Delivery" where
  "reclaimed m now d = (if lapsed m now d then reclaimRow now d else d)"

lemma reclaimed_fields [simp]:
  "del_ID (reclaimed m now d) = del_ID d" "pairOf (reclaimed m now d) = pairOf d" "claimOrder (reclaimed m now d) = claimOrder d"
  "del_Shard (reclaimed m now d) = del_Shard d" "del_NextRetryAt (reclaimed m now d) = del_NextRetryAt d"
  "del_Attempt (reclaimed m now d) = del_Attempt d"
  by (simp_all add: reclaimed_def reclaimRow_def pairOf_def claimOrder_def)

lemma reclaim_deliveries: "mem_deliveries (afterReclaim now m) = map (\<lambda>(i, d). (i, reclaimed m now d)) (mem_deliveries m)"
  by (simp add: ReclaimExpiredLeases_def reclaimed_def Let_def)

lemma reclaim_rows: "deliveryRows (afterReclaim now m) = map (reclaimed m now) (deliveryRows m)"
  by (simp add: deliveryRows_def reclaim_deliveries case_prod_beta comp_def)

lemma reclaim_map_of: "map_of (mem_deliveries (afterReclaim now m)) i = map_option (reclaimed m now) (map_of (mem_deliveries m) i)"
  by (simp add: reclaim_deliveries map_of_map)

lemma reclaim_wf: "queue_wf m \<Longrightarrow> queue_wf (afterReclaim now m)"
  unfolding queue_wf_def reclaim_map_of
  by (auto simp: ReclaimExpiredLeases_def Let_def case_prod_beta comp_def)

lemma fold_delete_lookup:
  "map_of (fold (\<lambda>d. AList.delete (f d)) ds L) i = (if i \<in> f ` set ds then None else map_of L i)"
  by (induction ds arbitrary: L) (auto simp: delete_conv)

lemma row_ID:
  assumes "queue_wf m" "d \<in> set (deliveryRows m)" "e \<in> set (deliveryRows m)" "del_ID d = del_ID e"
  shows "d = e"
  using assms row_stored [OF assms(1)] by (metis option.inject)

lemma reclaim_lease:
  assumes "queue_wf m" "d \<in> set (deliveryRows m)"
  shows "map_of (mem_leases (afterReclaim now m)) (del_ID d) = (if lapsed m now d then None else map_of (mem_leases m) (del_ID d))"
proof -
  have "del_ID d \<in> del_ID ` set (filter (lapsed m now) (deliveryRows m)) \<longleftrightarrow> lapsed m now d"
    using row_ID [OF assms] assms(2) by auto
  then show ?thesis by (simp add: ReclaimExpiredLeases_def Let_def fold_delete_lookup)
qed

lemma busy_reclaimed:
  assumes "queue_wf m" "d \<in> set (deliveryRows m)"
  shows "busyRow (afterReclaim now m) now (reclaimed m now d) \<longleftrightarrow> busyRow m now d"
proof (cases "lapsed m now d")
  case True
  then have "\<not> busyRow m now d" by (auto simp: lapsed_def busyRow_def split: option.splits)
  with True show ?thesis by (simp add: reclaimed_def reclaimRow_def busyRow_def)
next
  case False
  then show ?thesis using reclaim_lease [OF assms, of now] by (simp add: reclaimed_def busyRow_def)
qed

lemma blocked_busy:
  assumes "pg_rows now m" "d \<in> set (deliveryRows m)"
  shows "deliveryKey m d \<in> set (blockedKeys m now)
    \<longleftrightarrow> list_ex (\<lambda>b. pairOf b = pairOf d \<and> busyRow m now b) (deliveryRows m)"
proof -
  have "liveClaim m now b \<longleftrightarrow> busyRow m now b" if "b \<in> set (deliveryRows m)" for b
    using pg_rowsD(3) [OF assms(1) that] by (auto simp: liveClaim_def busyRow_def)
  then have "(\<exists>b\<in>set (deliveryRows m). liveClaim m now b \<and> deliveryKey m b = deliveryKey m d)
      \<longleftrightarrow> (\<exists>b\<in>set (deliveryRows m). pairOf b = pairOf d \<and> busyRow m now b)"
    using deliveryKey_pair [OF assms(1) _ assms(2)] by blast
  moreover have "deliveryKey m d \<in> set (blockedKeys m now)
      \<longleftrightarrow> (\<exists>b\<in>set (deliveryRows m). liveClaim m now b \<and> deliveryKey m b = deliveryKey m d)"
    unfolding blockedKeys_def deliveryRows_def [symmetric] by (force simp: image_iff)
  ultimately show ?thesis by (simp add: list_ex_iff)
qed

lemma due_reclaimed:
  assumes "pg_rows now m" "d \<in> set (deliveryRows m)"
  shows "dueRow (afterReclaim now m) shard now (reclaimed m now d)
    \<longleftrightarrow> candidate m shard now d \<and> deliveryKey m d \<notin> set (blockedKeys m now)"
proof -
  have wf: "queue_wf m" using assms(1) by (simp add: pg_rows_def)
  have "list_ex (\<lambda>b. pairOf b = pairOf (reclaimed m now d) \<and> busyRow (afterReclaim now m) now b) (deliveryRows (afterReclaim now m))
      \<longleftrightarrow> list_ex (\<lambda>b. pairOf b = pairOf d \<and> busyRow m now b) (deliveryRows m)"
    unfolding reclaim_rows list_ex_iff using busy_reclaimed [OF wf] by auto
  moreover have "(del_Status (reclaimed m now d) = DeliveryPending \<or> del_Status (reclaimed m now d) = DeliveryFailed)
      \<longleftrightarrow> \<not> DeliveryStatus_IsTerminal (del_Status d)
        \<and> \<not> (del_Status d = DeliveryInFlight
            \<and> (case map_of (mem_leases m) (del_ID d) of Some expiry \<Rightarrow> expiry > now | None \<Rightarrow> False))"
    using pg_rowsD(3) [OF assms]
    by (cases "del_Status d") (auto simp: reclaimed_def lapsed_def reclaimRow_def DeliveryStatus_IsTerminal_def)
  ultimately show ?thesis
    using blocked_busy [OF assms] by (auto simp: dueRow_def candidate_def)
qed

lemma filter_map_eq: "filter P (map f xs) = map f (filter (\<lambda>x. P (f x)) xs)"
  by (simp add: filter_map comp_def)

lemma picked_reclaimed:
  assumes "pg_rows now m" and "0 < limit"
  shows "picked (afterReclaim now m) shard now limit = map del_ID (claimed m shard now limit)"
proof -
  let ?ds = "deliveryRows m" and ?rc = "reclaimed m now"
  have wf: "queue_wf m" using assms(1) by (simp add: pg_rows_def)
  have due: "filter (dueRow (afterReclaim now m) shard now) (deliveryRows (afterReclaim now m))
      = map ?rc (filter (\<lambda>d. candidate m shard now d \<and> deliveryKey m d \<notin> set (blockedKeys m now)) ?ds)"
    unfolding reclaim_rows filter_map_eq
    by (rule arg_cong [where f = "map ?rc"], rule filter_cong) (use due_reclaimed [OF assms(1)] in blast)+
  let ?xs = "sort_key claimOrder (filter (\<lambda>d. candidate m shard now d \<and> deliveryKey m d \<notin> set (blockedKeys m now)) ?ds)"
  have "sort_key claimOrder (filter (dueRow (afterReclaim now m) shard now) (deliveryRows (afterReclaim now m))) = map ?rc ?xs"
    unfolding due by (rule sort_key_map_eq) simp
  then have "picked (afterReclaim now m) shard now limit = map del_ID (take (nat limit) (distinctOn pairOf ?xs))"
    by (simp add: picked_eq [OF reclaim_wf [OF wf]] distinctOn_map comp_def take_map)
  also have "distinctOn pairOf ?xs = distinctOn (deliveryKey m) ?xs"
    by (rule distinctOn_cong) (use deliveryKey_pair [OF assms(1)] in auto)
  also have "?xs = filter (\<lambda>d. deliveryKey m d \<notin> set (blockedKeys m now)) (candidates m shard now)"
    unfolding candidates_def deliveryRows_def [symmetric] filter_sort filter_filter by (simp add: conj_commute)
  also have "take (nat limit) (distinctOn (deliveryKey m) \<dots>) = claimed m shard now limit"
    using assms(2) by (simp add: claimed_def selectDue_distinctOn)
  finally show ?thesis .
qed

lemma PgClaimDue_rows:
  assumes "0 < limit" "limit \<le> 200" "0 < lease"
  shows "snd (PgClaimDue m shard now limit lease) = map (bump now) (filter (\<lambda>d. del_ID d \<in> set (picked m shard now limit)) (deliveryRows m))"
proof -
  have "deliveryRows (leaseRows now u is m) = map (\<lambda>d. if del_ID d \<in> set is then bump now d else d) (deliveryRows m)" for u "is"
    by (simp add: deliveryRows_def leaseRows_def case_prod_beta comp_def)
  then show ?thesis
    using assms by (auto simp: PgClaimDue_def Let_def filter_map_eq intro!: filter_cong)
qed

text \<open>
  Once lapsed leases have been reclaimed, Postgres hands out exactly what the in-memory queue hands out of the same
  rows: the same deliveries with the same attempt numbers, for every shard, moment, lease and limit up to 200.
\<close>

theorem pg_claims_like_memory:
  assumes "pg_rows now m" and "0 < limit" "limit \<le> 200" and "0 < lease"
  shows "(\<lambda>c. (del_ID c, del_Attempt c)) ` set (snd (PgClaimDue (fst (ReclaimExpiredLeases m now)) shard now limit lease))
    = (\<lambda>c. (del_ID c, del_Attempt c)) ` set (snd (ClaimDue m shard now limit lease))"
proof -
  let ?rc = "reclaimed m now" and ?sel = "claimed m shard now limit"
  have wf: "queue_wf m" using assms(1) by (simp add: pg_rows_def)
  have sel: "d \<in> set ?sel \<Longrightarrow> d \<in> set (deliveryRows m)" for d
    using claimed_candidate candidates_iff [OF wf] row_stored [OF wf] by blast
  have bump: "del_Attempt (bump now d) = del_Attempt d + 1" for d by (simp add: bump_def)
  have "set (snd (PgClaimDue (afterReclaim now m) shard now limit lease))
      = (\<lambda>d. bump now (?rc d)) ` {d \<in> set (deliveryRows m). del_ID d \<in> del_ID ` set ?sel}"
    unfolding PgClaimDue_rows [OF assms(2-4)] picked_reclaimed [OF assms(1,2)] reclaim_rows filter_map_eq by (auto simp: image_image)
  moreover have "{d \<in> set (deliveryRows m). del_ID d \<in> del_ID ` set ?sel} = set ?sel"
  proof (rule set_eqI)
    fix d
    show "d \<in> {d \<in> set (deliveryRows m). del_ID d \<in> del_ID ` set ?sel} \<longleftrightarrow> d \<in> set ?sel"
      using row_ID [OF wf, of d] sel by blast
  qed
  ultimately show ?thesis by (simp add: ClaimDue_eq image_image bump)
qed

section \<open>One in flight\<close>

definition pg_flight :: "instant \<Rightarrow> Memory \<Rightarrow> bool" where
  "pg_flight clock m \<longleftrightarrow>
     (\<forall>now. clock \<le> now \<longrightarrow> (\<forall>d\<in>set (deliveryRows m). \<forall>e\<in>set (deliveryRows m).
        busyRow m now d \<longrightarrow> busyRow m now e \<longrightarrow> pairOf d = pairOf e \<longrightarrow> d = e))"

lemma pg_flightD:
  "pg_flight clock m \<Longrightarrow> clock \<le> now \<Longrightarrow> d \<in> set (deliveryRows m) \<Longrightarrow> e \<in> set (deliveryRows m) \<Longrightarrow>
   busyRow m now d \<Longrightarrow> busyRow m now e \<Longrightarrow> pairOf d = pairOf e \<Longrightarrow> d = e"
  unfolding pg_flight_def by blast

lemma busy_earlier: "busyRow m now d \<Longrightarrow> t \<le> now \<Longrightarrow> busyRow m t d"
  by (auto simp: busyRow_def split: option.splits)

text \<open>A statement that puts nothing in flight keeps the rule.\<close>

lemma pg_flight_mono:
  assumes "pg_flight clock m" "clock \<le> t"
    and "\<And>now d. d \<in> set (deliveryRows m') \<Longrightarrow> busyRow m' now d \<Longrightarrow> d \<in> set (deliveryRows m) \<and> busyRow m now d"
  shows "pg_flight t m'"
  unfolding pg_flight_def using pg_flightD [OF assms(1)] assms(2,3) order_trans by metis

lemma fold_update_lookup: "map_of (fold (\<lambda>i. AList.update i u) is L) i = (if i \<in> set is then Some u else map_of L i)"
  by (induction "is" arbitrary: L) auto

lemma leaseRows_rows: "deliveryRows (leaseRows now u is m) = map (\<lambda>d. if del_ID d \<in> set is then bump now d else d) (deliveryRows m)"
  by (simp add: deliveryRows_def leaseRows_def case_prod_beta comp_def)

lemma leaseRows_wf: "queue_wf m \<Longrightarrow> queue_wf (leaseRows now u is m)"
  by (auto simp: queue_wf_def leaseRows_def map_of_map case_prod_beta comp_def)

lemma picked_leader:
  assumes "queue_wf m" "d \<in> set (deliveryRows m)" "del_ID d \<in> set (picked m shard now limit)"
  shows "leader m shard now d"
proof -
  have "set (picked m shard now limit) \<subseteq> set (claimable m shard now)"
    unfolding picked_def by (auto dest!: in_set_takeD)
  with assms claimable_iff show ?thesis by blast
qed

lemma claim_keeps_flight:
  assumes wf: "queue_wf m" and flight: "pg_flight clock m" and t: "clock \<le> t"
  shows "pg_flight t (leaseRows t u (picked m shard t limit) m)"
  unfolding pg_flight_def leaseRows_rows
proof (intro allI impI ballI)
  let ?is = "set (picked m shard t limit)" and ?m = "leaseRows t u (picked m shard t limit) m"
  let ?f = "\<lambda>d. if del_ID d \<in> ?is then bump t d else d"
  fix now d' e'
  assume now: "t \<le> now" and de: "d' \<in> set (map ?f (deliveryRows m))" "e' \<in> set (map ?f (deliveryRows m))"
    and busy: "busyRow ?m now d'" "busyRow ?m now e'" and pair: "pairOf d' = pairOf e'"
  obtain d e where d: "d \<in> set (deliveryRows m)" "d' = ?f d" and e: "e \<in> set (deliveryRows m)" "e' = ?f e"
    using de by auto
  have key: "pairOf d = pairOf e" using pair d(2) e(2) by (auto simp: pairOf_def bump_def split: if_splits)
  have old: "busyRow m t x \<and> busyRow m now x" if "busyRow ?m now (?f x)" "del_ID x \<notin> ?is" for x
  proof -
    have "busyRow m now x" using that by (simp add: busyRow_def leaseRows_def fold_update_lookup)
    with busy_earlier [OF _ now] show ?thesis by blast
  qed
  have new: "leader m shard t x" if "x \<in> set (deliveryRows m)" "del_ID x \<in> ?is" for x
    using picked_leader [OF wf that] .
  have clash: False if "x \<in> set (deliveryRows m)" "del_ID x \<in> ?is" "y \<in> set (deliveryRows m)" "busyRow m t y" "pairOf y = pairOf x" for x y
    using new [OF that(1,2)] that(3-5) unfolding leader_def dueRow_def list_ex_iff by blast
  consider "del_ID d \<in> ?is" "del_ID e \<in> ?is" | "del_ID d \<in> ?is" "del_ID e \<notin> ?is" | "del_ID d \<notin> ?is" "del_ID e \<in> ?is"
    | "del_ID d \<notin> ?is" "del_ID e \<notin> ?is" by blast
  then have "d = e"
  proof cases
    case 1
    from new [OF d(1) 1(1)] new [OF e(1) 1(2)] have "claimOrder d = claimOrder e"
      using d(1) e(1) key unfolding leader_def by (intro antisym) auto
    then show ?thesis by (rule claimOrder_eq [OF wf d(1) e(1)])
  next
    case 2
    with old [of e] busy(2) e clash [OF d(1) 2(1) e(1)] key show ?thesis by simp
  next
    case 3
    with old [of d] busy(1) d clash [OF e(1) 3(2) d(1)] key show ?thesis by simp
  next
    case 4
    have "clock \<le> now" using t now by simp
    with old [of d] old [of e] busy d e 4 show ?thesis using pg_flightD [OF flight _ d(1) e(1) _ _ key] by simp
  qed
  then show "d' = e'" by (simp add: d(2) e(2))
qed

datatype pg_op =
    PgEnqueue instant Delivery
  | PgClaim int instant int duration
  | PgReclaim instant
  | PgComplete instant Delivery

fun pgTime :: "pg_op \<Rightarrow> instant" where
  "pgTime (PgEnqueue t _) = t"
| "pgTime (PgClaim _ t _ _) = t"
| "pgTime (PgReclaim t) = t"
| "pgTime (PgComplete t _) = t"

fun pgOp :: "Memory \<Rightarrow> pg_op \<Rightarrow> Memory" where
  "pgOp m (PgEnqueue t d) = fst (PgEnqueueDelivery t m d)"
| "pgOp m (PgClaim shard t limit lease) = fst (PgClaimDue m shard t limit lease)"
| "pgOp m (PgReclaim t) = fst (ReclaimExpiredLeases m t)"
| "pgOp m (PgComplete t d) = fst (PgCompleteDelivery t m d)"

definition pg_step :: "instant \<times> Memory \<Rightarrow> pg_op \<Rightarrow> instant \<times> Memory" where
  "pg_step s x = (pgTime x, pgOp (snd s) x)"

fun pg_ok :: "instant \<times> Memory \<Rightarrow> pg_op \<Rightarrow> bool" where
  "pg_ok s (PgComplete t d) = (fst s \<le> t \<and> del_Status d \<noteq> DeliveryInFlight)"
| "pg_ok s x = (fst s \<le> pgTime x)"

definition pg_inv :: "instant \<times> Memory \<Rightarrow> bool" where
  "pg_inv s \<longleftrightarrow> queue_wf (snd s) \<and> pg_flight (fst s) (snd s)"

lemma enqueue_keeps:
  assumes "queue_wf m" "pg_flight clock m" "clock \<le> t"
  shows "queue_wf (fst (PgEnqueueDelivery t m d)) \<and> pg_flight t (fst (PgEnqueueDelivery t m d))"
proof -
  let ?i = "mem_deliveryIDs m + 1"
  have new: "map_of (mem_deliveries m) ?i = None"
  proof (rule ccontr)
    assume "map_of (mem_deliveries m) ?i \<noteq> None"
    then have "?i \<le> mem_deliveryIDs m" using assms(1) unfolding queue_wf_def by blast
    then show False by simp
  qed
  consider "fst (PgEnqueueDelivery t m d) = m" | "fst (PgEnqueueDelivery t m d) = m\<lparr>mem_deliveryIDs := ?i\<rparr>"
    | row where "fst (PgEnqueueDelivery t m d) = m\<lparr>mem_deliveryIDs := ?i, mem_deliveries := mem_deliveries m @ [(?i, row)]\<rparr>"
        "del_ID row = ?i" "del_Status row = DeliveryPending"
  proof (cases "enqueueRef m d")
    case (Inl err)
    then have "fst (PgEnqueueDelivery t m d) = m" by (simp add: PgEnqueueDelivery_def)
    then show ?thesis using that(1) by blast
  next
    case (Inr ref)
    let ?r = "PgEnqueueDelivery t m d" and ?n = "newRow t ?i ref d"
    have "fst ?r = m \<or> fst ?r = m\<lparr>mem_deliveryIDs := ?i\<rparr>
        \<or> fst ?r = m\<lparr>mem_deliveryIDs := ?i, mem_deliveries := mem_deliveries m @ [(?i, ?n)]\<rparr>"
      by (cases "list_all pgText [del_TenantID d, del_EventID d, del_DestinationID d, ref]"; cases "referencesMet m d")
         (simp_all only: PgEnqueueDelivery_def Inr Let_def sum.case if_True if_False not_True_eq_False not_False_eq_True fst_conv, simp_all)
    moreover have "del_ID ?n = ?i" "del_Status ?n = DeliveryPending" by (simp_all add: newRow_def Let_def)
    ultimately show ?thesis using that(1) that(2) that(3) [of ?n] by (elim disjE) (simp only:)+
  qed
  then show ?thesis
  proof cases
    case 1
    then show ?thesis using assms(1) pg_flight_mono [OF assms(2,3), of m] by simp
  next
    case 2
    have "pg_flight t (m\<lparr>mem_deliveryIDs := ?i\<rparr>)"
      by (rule pg_flight_mono [OF assms(2,3)]) (simp_all add: deliveryRows_def busyRow_def)
    moreover have "queue_wf (m\<lparr>mem_deliveryIDs := ?i\<rparr>)" using assms(1) by (fastforce simp: queue_wf_def)
    ultimately show ?thesis by (simp add: 2)
  next
    case 3
    let ?m = "m\<lparr>mem_deliveryIDs := ?i, mem_deliveries := mem_deliveries m @ [(?i, row)]\<rparr>"
    have "pg_flight t ?m"
      by (rule pg_flight_mono [OF assms(2,3)]) (use 3 in \<open>auto simp: deliveryRows_def busyRow_def\<close>)
    moreover have "queue_wf ?m"
    proof -
      have "?i \<notin> fst ` set (mem_deliveries m)" using new by (simp add: map_of_eq_None_iff)
      then have "keys_distinct (mem_deliveries m @ [(?i, row)])" using assms(1) by (simp add: queue_wf_def)
      moreover have "map_of (mem_deliveries ?m) j = ((map_of (mem_deliveries m))(?i \<mapsto> row)) j" for j
        using new by (simp add: map_add_def split: option.split)
      ultimately show ?thesis using assms(1) 3 by (fastforce simp: queue_wf_def split: if_splits)
    qed
    ultimately show ?thesis by (simp add: 3)
  qed
qed

lemma complete_keeps:
  assumes "queue_wf m" "pg_flight clock m" "clock \<le> t" "del_Status d \<noteq> DeliveryInFlight"
  shows "queue_wf (fst (PgCompleteDelivery t m d)) \<and> pg_flight t (fst (PgCompleteDelivery t m d))"
proof -
  let ?m = "fst (PgCompleteDelivery t m d)"
  have "pg_flight t ?m"
  proof (rule pg_flight_mono [OF assms(2,3)])
    fix now e
    assume "e \<in> set (deliveryRows ?m)" "busyRow ?m now e"
    then show "e \<in> set (deliveryRows m) \<and> busyRow m now e"
      using assms(4)
      by (auto simp: PgCompleteDelivery_def deliveryRows_def busyRow_def completeRow_def Let_def delete_conv'
          split: if_splits option.splits)
  qed
  moreover have "queue_wf ?m"
    using assms(1)
    by (auto simp: PgCompleteDelivery_def queue_wf_def completeRow_def map_of_map Let_def case_prod_beta comp_def)
  ultimately show ?thesis by blast
qed

lemma reclaim_keeps:
  assumes "queue_wf m" "pg_flight clock m" "clock \<le> t"
  shows "queue_wf (afterReclaim t m) \<and> pg_flight t (afterReclaim t m)"
proof -
  have "pg_flight t (afterReclaim t m)"
  proof (rule pg_flight_mono [OF assms(2,3)])
    fix now e
    assume e: "e \<in> set (deliveryRows (afterReclaim t m))" "busyRow (afterReclaim t m) now e"
    then obtain d where d: "d \<in> set (deliveryRows m)" "e = reclaimed m t d" unfolding reclaim_rows by auto
    have "\<not> lapsed m t d" using e(2) d(2) by (auto simp: reclaimed_def reclaimRow_def busyRow_def)
    with e(2) d reclaim_lease [OF assms(1) d(1), of t] show "e \<in> set (deliveryRows m) \<and> busyRow m now e"
      by (simp add: reclaimed_def busyRow_def)
  qed
  then show ?thesis using reclaim_wf [OF assms(1)] by blast
qed

interpretation pg_queue: machine pg_step pg_ok pg_inv
proof
  fix s x
  assume inv: "pg_inv s" and ok: "pg_ok s x"
  then have wf: "queue_wf (snd s)" and flight: "pg_flight (fst s) (snd s)" by (simp_all add: pg_inv_def)
  show "pg_inv (pg_step s x)"
  proof (cases x)
    case (PgEnqueue t d)
    with enqueue_keeps [OF wf flight] ok show ?thesis by (simp add: pg_inv_def pg_step_def)
  next
    case (PgClaim shard t limit lease)
    with leaseRows_wf [OF wf] claim_keeps_flight [OF wf flight] ok show ?thesis
      by (simp add: pg_inv_def pg_step_def PgClaimDue_def Let_def)
  next
    case (PgReclaim t)
    with reclaim_keeps [OF wf flight] ok show ?thesis by (simp add: pg_inv_def pg_step_def)
  next
    case (PgComplete t d)
    with complete_keeps [OF wf flight] ok show ?thesis by (simp add: pg_inv_def pg_step_def)
  qed
qed

text \<open>
  On Postgres, too, two events about one transaction are never in flight to one destination at once. In every
  state that any interleaving of enqueues, claims by any number of dispatchers, reclaims and completions, each one
  statement, reaches from an empty table with a clock that does not go backwards, at most one delivery of a
  destination and transaction reference is in flight under a lease that still runs.
\<close>

theorem pg_one_in_flight:
  assumes "legal pg_ok pg_step (t0, m0) xs" and "mem_deliveries m0 = []"
    and "(clock, m) = foldl pg_step (t0, m0) xs" and "clock \<le> now"
    and "d \<in> set (deliveryRows m)" "busyRow m now d" and "e \<in> set (deliveryRows m)" "busyRow m now e"
    and "del_DestinationID d = del_DestinationID e" "del_TransactionRef d = del_TransactionRef e"
  shows "d = e"
proof -
  have "pg_inv (clock, m)"
    unfolding assms(3)
    by (rule pg_queue.run_inv [OF _ assms(1)]) (simp add: pg_inv_def queue_wf_def pg_flight_def deliveryRows_def assms(2))
  then have "pg_flight clock m" by (simp add: pg_inv_def)
  from pg_flightD [OF this assms(4,5,7,6,8)] assms(9,10) show ?thesis by (simp add: pairOf_def)
qed

section \<open>A crash costs one lease\<close>

lemma picked_distinct: "queue_wf m \<Longrightarrow> distinct (picked m shard now limit)"
proof -
  assume wf: "queue_wf m"
  let ?ds = "take (nat limit) (distinctOn pairOf (sort_key claimOrder (filter (dueRow m shard now) (deliveryRows m))))"
  have "set ?ds \<subseteq> set (deliveryRows m)"
    using distinctOn_sub [of pairOf "sort_key claimOrder (filter (dueRow m shard now) (deliveryRows m))"]
    by (auto dest!: in_set_takeD)
  then have "inj_on del_ID (set ?ds)" using row_ID [OF wf] by (intro inj_onI) blast
  moreover have "distinct ?ds" using distinctOn_keys distinct_map distinct_take by blast
  ultimately show ?thesis unfolding picked_eq [OF wf] by (simp add: distinct_map)
qed

lemma picked_rows: "i \<in> set (picked m shard now limit) \<Longrightarrow> \<exists>d\<in>set (deliveryRows m). del_ID d = i"
  unfolding picked_def by (auto dest!: in_set_takeD)

text \<open>
  A dispatcher that dies costs a delivery at most its lease. Once the lease has run out, one reclaim and one claim
  of its shard hand the delivery out again, or an earlier one of the same pair, unless the claim was full or another
  delivery of the pair is in flight.
\<close>

theorem pg_crash_recovers:
  assumes "queue_wf m" and "d \<in> set (deliveryRows m)" and "lapsed m now d"
    and "is_zero_time (del_NextRetryAt d) \<or> del_NextRetryAt d \<le> now"
    and "\<not> list_ex (\<lambda>b. pairOf b = pairOf d \<and> busyRow m now b) (deliveryRows m)"
    and "0 < limit" "limit \<le> 200" "0 < lease"
    and "PgClaimDue (fst (ReclaimExpiredLeases m now)) (del_Shard d) now limit lease = (m', cs)" and "length cs < nat limit"
  shows "\<exists>c\<in>set cs. del_DestinationID c = del_DestinationID d \<and> del_TransactionRef c = del_TransactionRef d
    \<and> claimOrder c \<le> claimOrder d \<and> del_Status c = DeliveryInFlight"
proof -
  let ?m = "afterReclaim now m" and ?d = "reclaimed m now d"
  let ?due = "sort_key claimOrder (filter (dueRow ?m (del_Shard d) now) (deliveryRows ?m))"
  let ?ds = "distinctOn pairOf ?due" and ?is = "picked ?m (del_Shard d) now limit"
  have wf: "queue_wf ?m" using reclaim_wf [OF assms(1)] .
  have "\<not> (pairOf b = pairOf ?d \<and> busyRow ?m now b)" if "b \<in> set (deliveryRows ?m)" for b
    using that assms(5) busy_reclaimed [OF assms(1)] unfolding reclaim_rows list_ex_iff by auto
  then have "dueRow ?m (del_Shard d) now ?d"
    using assms(3,4) by (auto simp: dueRow_def list_ex_iff reclaimed_def reclaimRow_def)
  then have due: "?d \<in> set ?due" using assms(2) by (simp add: reclaim_rows)
  then obtain y where y: "y \<in> set ?ds" "pairOf y = pairOf ?d" using distinctOn_hit by metis
  have "sorted_wrt (\<lambda>x y. claimOrder x \<le> claimOrder y) ?due" using sorted_sort_key [of claimOrder] by (simp add: sorted_map)
  from distinctOn_first [OF this y(1) due] y(2) have before: "claimOrder y \<le> claimOrder d" by auto
  have "y \<in> set ?due" using distinctOn_sub y(1) by fast
  then have rows: "y \<in> set (deliveryRows ?m)" by simp
  have cs: "cs = map (bump now) (filter (\<lambda>d. del_ID d \<in> set ?is) (deliveryRows ?m))"
    using PgClaimDue_rows [OF assms(6-8)] assms(9) by (metis snd_conv)
  have "set ?is \<subseteq> set (map del_ID cs)"
  proof
    fix i assume i: "i \<in> set ?is"
    then obtain e where "e \<in> set (deliveryRows ?m)" "del_ID e = i" using picked_rows by blast
    with i show "i \<in> set (map del_ID cs)" by (auto simp: cs image_iff)
  qed
  then have "card (set ?is) \<le> card (set (map del_ID cs))" by (intro card_mono) simp_all
  also have "\<dots> \<le> length cs" using card_length [of "map del_ID cs"] by simp
  finally have "card (set ?is) \<le> length cs" .
  then have "length ?is < nat limit" using assms(10) distinct_card [OF picked_distinct [OF wf]] by simp
  then have "?is = map del_ID ?ds" unfolding picked_eq [OF wf] by simp
  then have "bump now y \<in> set cs" using y(1) rows by (simp add: cs)
  moreover have "pairOf y = pairOf d" using y(2) by simp
  ultimately show ?thesis using before by (intro bexI [of _ "bump now y"]) (simp_all add: bump_def pairOf_def claimOrder_def)
qed

section \<open>Settling an attempt\<close>

definition parkRow :: "instant \<Rightarrow> duration \<Rightarrow> string \<Rightarrow> Delivery \<Rightarrow> Delivery" where
  "parkRow now delay why d =
     d\<lparr>del_Attempt := (if del_Attempt d > 0 then del_Attempt d - 1 else del_Attempt d), del_Status := DeliveryFailed,
       del_Error := truncateUTF8 (''parked: '' @ why), del_NextRetryAt := now + delay\<rparr>"

lemma park_writes: "park E now d dest why s = complete now (parkRow now (breakerRetryDelay dest) why d) s"
  by (simp add: park_def parkRow_def)

definition answeredRow :: "instant \<Rightarrow> instant \<Rightarrow> int \<Rightarrow> string \<Rightarrow> Delivery \<Rightarrow> Delivery" where
  "answeredRow start now code body d =
     d\<lparr>del_Status := DeliverySucceeded, del_ResponseCode := code, del_ResponseBody := truncateUTF8 body,
       del_DurationMS := durationMS start now, del_NextRetryAt := zero_time\<rparr>"

lemma succeed_writes:
  "\<exists>rec. succeed E start now d code body s = complete now (answeredRow start now code body d) (audit E now rec s)"
  by (auto simp: succeed_def answeredRow_def Let_def)

text \<open>A worker's turn on Postgres: lapsed leases are reclaimed, then its shard is claimed.\<close>

definition pgTurn :: "Memory \<Rightarrow> int \<Rightarrow> instant \<Rightarrow> int \<Rightarrow> duration \<Rightarrow> Memory \<times> Delivery list" where
  "pgTurn m shard now limit lease = PgClaimDue (fst (ReclaimExpiredLeases m now)) shard now limit lease"

text \<open>One attempt at delivery \<open>i\<close>: it is claimed at time \<open>t\<close> and written back as \<open>settle\<close> says; \<open>None\<close> when it is not
  claimed. Then a row of such attempts.\<close>

definition attempt ::
    "(Memory \<Rightarrow> int \<Rightarrow> instant \<Rightarrow> int \<Rightarrow> duration \<Rightarrow> Memory \<times> Delivery list)
     \<Rightarrow> (instant \<Rightarrow> Memory \<Rightarrow> Delivery \<Rightarrow> Memory \<times> 'e option) \<Rightarrow> (instant \<Rightarrow> Delivery \<Rightarrow> Delivery)
     \<Rightarrow> int \<Rightarrow> duration \<Rightarrow> int \<Rightarrow> instant \<Rightarrow> Memory \<Rightarrow> Memory option" where
  "attempt claim finish settle shard lease i t m =
     (case filter (\<lambda>c. del_ID c = i) (snd (claim m shard t 32 lease)) of
        [] \<Rightarrow> None
      | c # _ \<Rightarrow> Some (fst (finish t (fst (claim m shard t 32 lease)) (settle t c))))"

fun attempts :: "(instant \<Rightarrow> Memory \<Rightarrow> Memory option) \<Rightarrow> instant list \<Rightarrow> Memory \<Rightarrow> Memory option" where
  "attempts step [] m = Some m"
| "attempts step (t # ts) m = (case step t m of None \<Rightarrow> None | Some m \<Rightarrow> attempts step ts m)"

abbreviation pgAttempts :: "(instant \<Rightarrow> Delivery \<Rightarrow> Delivery) \<Rightarrow> int \<Rightarrow> duration \<Rightarrow> int \<Rightarrow> instant list \<Rightarrow> Memory \<Rightarrow> Memory option" where
  "pgAttempts settle shard lease i \<equiv> attempts (attempt pgTurn PgCompleteDelivery settle shard lease i)"

abbreviation memAttempts :: "(instant \<Rightarrow> Delivery \<Rightarrow> Delivery) \<Rightarrow> int \<Rightarrow> duration \<Rightarrow> int \<Rightarrow> instant list \<Rightarrow> Memory \<Rightarrow> Memory option" where
  "memAttempts settle shard lease i \<equiv> attempts (attempt ClaimDue CompleteDelivery settle shard lease i)"

lemma first_with_ID:
  assumes "(case filter (\<lambda>c. del_ID c = i) cs of [] \<Rightarrow> None | c # _ \<Rightarrow> Some (f c)) = Some m'"
  obtains c where "c \<in> set cs" "del_ID c = i" "m' = f c"
proof (cases "filter (\<lambda>c. del_ID c = i) cs")
  case (Cons c rest)
  have "c \<in> set (filter (\<lambda>c. del_ID c = i) cs)" unfolding Cons by simp
  then have "c \<in> set cs" "del_ID c = i" by simp_all
  with that [of c] assms Cons show ?thesis by simp
qed (use assms in simp)

lemma PgCompleteDelivery_stores:
  assumes "map_of (mem_deliveries m) i = Some c" "del_ID c = i" "del_ID r = i" "del_TenantID r = del_TenantID c"
  shows "map_of (mem_deliveries (fst (PgCompleteDelivery t m r))) i
    = Some (if list_all pgText [del_TenantID r, del_ResponseBody r, del_Error r] then completeRow t r c else c)"
proof -
  have "c \<in> set (deliveryRows m)" using map_of_SomeD [OF assms(1)] by (force simp: deliveryRows_def)
  then have "list_ex (\<lambda>row. del_TenantID row = del_TenantID r \<and> del_ID row = del_ID r) (deliveryRows m)"
    using assms(2-4) by (auto simp: list_ex_iff)
  then show ?thesis using assms by (simp add: PgCompleteDelivery_def Let_def map_of_map)
qed

lemma PgCompleteDelivery_wf: "queue_wf m \<Longrightarrow> queue_wf (fst (PgCompleteDelivery t m r))"
  by (auto simp: PgCompleteDelivery_def queue_wf_def completeRow_def map_of_map Let_def case_prod_beta comp_def)

lemma pg_attempt:
  assumes "queue_wf m" "map_of (mem_deliveries m) i = Some d"
    and "attempt pgTurn PgCompleteDelivery settle shard lease i t m = Some m'"
    and settle: "\<And>c. del_ID (settle t c) = del_ID c \<and> del_TenantID (settle t c) = del_TenantID c"
  shows "queue_wf m' \<and> (\<exists>c d'. map_of (mem_deliveries m') i = Some d' \<and> del_Attempt d' = del_Attempt d + 1
    \<and> (\<not> list_all pgText [del_ResponseBody (settle t c), del_Error (settle t c)] \<longrightarrow> del_Status d' = DeliveryInFlight))"
proof -
  let ?r = "afterReclaim t m" and ?m = "fst (pgTurn m shard t 32 lease)"
  from assms(3) obtain c where c: "c \<in> set (snd (pgTurn m shard t 32 lease))" "del_ID c = i"
    and m': "m' = fst (PgCompleteDelivery t ?m (settle t c))"
    unfolding attempt_def by (rule first_with_ID)
  obtain u "is" where lease: "?m = leaseRows t u is ?r" "c \<in> set (deliveryRows ?m)" "del_ID c \<in> set is"
    using c(1) by (auto simp: pgTurn_def PgClaimDue_def Let_def)
  have rwf: "queue_wf ?r" by (rule reclaim_wf [OF assms(1)])
  then have wf: "queue_wf ?m" unfolding lease(1) by (rule leaseRows_wf)
  have stored: "map_of (mem_deliveries ?m) i = Some c" using lease(2) c(2) row_stored [OF wf] by simp
  moreover have "map_of (mem_deliveries ?r) i = Some (reclaimed m t d)" using assms(2) by (simp add: reclaim_map_of)
  then have "map_of (mem_deliveries ?m) i = Some (bump t (reclaimed m t d))"
    using lease(3) c(2) queue_wf_ID [OF assms(1,2)] by (simp add: lease(1) leaseRows_def map_of_map)
  ultimately have cd: "c = bump t (reclaimed m t d)" by simp
  have new: "map_of (mem_deliveries m') i = Some (if list_all pgText [del_TenantID (settle t c), del_ResponseBody (settle t c),
      del_Error (settle t c)] then completeRow t (settle t c) c else c)"
    using PgCompleteDelivery_stores [OF stored c(2), of "settle t c" t] settle [of c] c(2) by (simp add: m')
  let ?d = "if list_all pgText [del_TenantID (settle t c), del_ResponseBody (settle t c), del_Error (settle t c)]
    then completeRow t (settle t c) c else c"
  have "del_Attempt ?d = del_Attempt d + 1" by (simp add: completeRow_def cd bump_def)
  moreover have "\<not> list_all pgText [del_ResponseBody (settle t c), del_Error (settle t c)] \<longrightarrow> del_Status ?d = DeliveryInFlight"
    by (simp add: cd bump_def)
  ultimately show ?thesis using new PgCompleteDelivery_wf [OF wf] m' by blast
qed

lemma mem_attempt:
  assumes "queue_wf m" "map_of (mem_deliveries m) i = Some d"
    and "attempt ClaimDue CompleteDelivery settle shard lease i t m = Some m'"
    and settle: "\<And>c. del_ID (settle t c) = del_ID c \<and> del_TenantID (settle t c) = del_TenantID c"
  shows "queue_wf m' \<and> \<not> DeliveryStatus_IsTerminal (del_Status d)
    \<and> (\<exists>d'. map_of (mem_deliveries m') i = Some d' \<and> del_Attempt d' = del_Attempt (settle t (bump t d))
        \<and> del_Status d' = del_Status (settle t (bump t d)))"
proof -
  let ?m = "fst (ClaimDue m shard t 32 lease)"
  from assms(3) obtain c where c: "c \<in> set (snd (ClaimDue m shard t 32 lease))" "del_ID c = i"
    and m': "m' = fst (CompleteDelivery t ?m (settle t c))"
    unfolding attempt_def by (rule first_with_ID)
  from ClaimDue_facts(4) [OF assms(1) prod.collapse [symmetric], of shard t 32 lease] c assms(2)
  have cd: "c = bump t d" and stored: "map_of (mem_deliveries ?m) i = Some c" and cand: "candidate m shard t d" by fastforce+
  let ?row = "(settle t c)\<lparr>del_CreatedAt := del_CreatedAt c, del_UpdatedAt := t\<rparr>"
  have now: "m' = ?m\<lparr>mem_deliveries := AList.update i ?row (mem_deliveries ?m), mem_leases := AList.delete i (mem_leases ?m)\<rparr>"
    using stored c(2) settle [of c] by (simp add: m' CompleteDelivery_def)
  have "queue_wf m'"
    using ClaimDue_wf [OF assms(1), of shard t 32 lease] stored c(2) settle [of c] unfolding now by (auto simp: queue_wf_def)
  moreover have "\<not> DeliveryStatus_IsTerminal (del_Status d)" using cand by (simp add: candidate_def)
  moreover have "map_of (mem_deliveries m') i = Some ?row" unfolding now by simp
  ultimately show ?thesis using cd by auto
qed

lemma pg_attempts_grow:
  assumes "queue_wf m" "map_of (mem_deliveries m) i = Some d" "pgAttempts settle shard lease i ts m = Some m'"
    and settle: "\<And>t c. del_ID (settle t c) = del_ID c \<and> del_TenantID (settle t c) = del_TenantID c"
  shows "\<exists>p. map_of (mem_deliveries m') i = Some p \<and> del_Attempt p = del_Attempt d + int (length ts)
    \<and> ((\<forall>t c. \<not> list_all pgText [del_ResponseBody (settle t c), del_Error (settle t c)])
        \<longrightarrow> del_Status p = (if ts = [] then del_Status d else DeliveryInFlight))"
  using assms(1-3)
proof (induction ts arbitrary: m d)
  case (Cons t ts)
  from Cons.prems(3) obtain m1 where r: "attempt pgTurn PgCompleteDelivery settle shard lease i t m = Some m1"
    and rest: "pgAttempts settle shard lease i ts m1 = Some m'" by (auto split: option.splits)
  from pg_attempt [OF Cons.prems(1,2) r settle] obtain c d1 where wf: "queue_wf m1"
    and d1: "map_of (mem_deliveries m1) i = Some d1" "del_Attempt d1 = del_Attempt d + 1"
      "\<not> list_all pgText [del_ResponseBody (settle t c), del_Error (settle t c)] \<longrightarrow> del_Status d1 = DeliveryInFlight" by blast
  from Cons.IH [OF wf d1(1) rest] d1(2,3) show ?case by (auto simp: algebra_simps)
qed simp

text \<open>
  On Postgres an outage spends the retry budget it is meant to spare. Whatever the breaker's reason, however often a
  delivery is claimed and parked: in the in-memory queue its attempt counter is afterwards what it was, while on Postgres it
  has grown by one each time, because completing a delivery does not write the counter back.
\<close>

theorem pg_parking_spends_budget:
  assumes "queue_wf m" "map_of (mem_deliveries m) i = Some d" "0 \<le> del_Attempt d"
    and "pgAttempts (\<lambda>t. parkRow t delay why) shard lease i ts m = Some pg"
    and "memAttempts (\<lambda>t. parkRow t delay why) shard lease i us m = Some mem"
  shows "\<exists>p q. map_of (mem_deliveries pg) i = Some p \<and> del_Attempt p = del_Attempt d + int (length ts)
    \<and> map_of (mem_deliveries mem) i = Some q \<and> del_Attempt q = del_Attempt d"
proof -
  have keeps: "del_ID (parkRow t delay why c) = del_ID c \<and> del_TenantID (parkRow t delay why c) = del_TenantID c" for t c
    by (simp add: parkRow_def)
  have "\<exists>q. map_of (mem_deliveries mem) i = Some q \<and> del_Attempt q = del_Attempt d"
    using assms(1-3,5)
  proof (induction us arbitrary: m d)
    case (Cons t us)
    from Cons.prems(4) obtain m1 where r: "attempt ClaimDue CompleteDelivery (\<lambda>t. parkRow t delay why) shard lease i t m = Some m1"
      and rest: "memAttempts (\<lambda>t. parkRow t delay why) shard lease i us m1 = Some mem" by (auto split: option.splits)
    from mem_attempt [OF Cons.prems(1,2) r keeps] obtain d1 where wf: "queue_wf m1"
      and d1: "map_of (mem_deliveries m1) i = Some d1" "del_Attempt d1 = del_Attempt (parkRow t delay why (bump t d))" by blast
    have "del_Attempt d1 = del_Attempt d" using d1(2) Cons.prems(3) by (simp add: parkRow_def bump_def)
    with Cons.IH [OF wf d1(1) _ rest] Cons.prems(3) show ?case by simp
  qed simp
  moreover have "\<exists>p. map_of (mem_deliveries pg) i = Some p \<and> del_Attempt p = del_Attempt d + int (length ts)"
    using pg_attempts_grow [OF assms(1,2,4) keeps] by blast
  ultimately show ?thesis by blast
qed

text \<open>
  A destination whose answer holds a zero byte is sent the same event for ever on Postgres. It accepts the event, the
  kept part of its answer is written to a text column that refuses it, so the outcome is lost and the delivery stays in
  flight until its lease lapses; then it is claimed and sent again, however often that is and whatever the retry policy. The
  in-memory queue never claims the delivery a second time.
\<close>

theorem pg_zero_byte_redelivers:
  assumes "queue_wf m" "map_of (mem_deliveries m) i = Some d" and "CHR 0x00 \<in> set (truncateUTF8 body)"
    and "pgAttempts (\<lambda>t. answeredRow t t code body) shard lease i ts m = Some pg"
    and "memAttempts (\<lambda>t. answeredRow t t code body) shard lease i us m = Some mem"
  shows "length us \<le> 1
    \<and> (\<exists>p. map_of (mem_deliveries pg) i = Some p \<and> del_Attempt p = del_Attempt d + int (length ts)
        \<and> del_Status p = (if ts = [] then del_Status d else DeliveryInFlight))"
proof -
  have keeps: "del_ID (answeredRow t t code body c) = del_ID c \<and> del_TenantID (answeredRow t t code body c) = del_TenantID c"
    for t c by (simp add: answeredRow_def)
  have "length us \<le> 1"
  proof (cases us)
    case (Cons t vs)
    with assms(5) obtain m1 where r: "attempt ClaimDue CompleteDelivery (\<lambda>t. answeredRow t t code body) shard lease i t m = Some m1"
      and rest: "memAttempts (\<lambda>t. answeredRow t t code body) shard lease i vs m1 = Some mem" by (auto split: option.splits)
    from mem_attempt [OF assms(1,2) r keeps] obtain d1 where wf: "queue_wf m1"
      and d1: "map_of (mem_deliveries m1) i = Some d1" "del_Status d1 = DeliverySucceeded" by (auto simp: answeredRow_def)
    show ?thesis
    proof (cases vs)
      case (Cons t' ws)
      with rest obtain m2 where "attempt ClaimDue CompleteDelivery (\<lambda>t. answeredRow t t code body) shard lease i t' m1 = Some m2"
        by (auto split: option.splits)
      from mem_attempt [OF wf d1(1) this keeps] d1(2) show ?thesis by (simp add: DeliveryStatus_IsTerminal_def)
    qed (simp add: \<open>us = t # vs\<close>)
  qed simp
  moreover have "\<not> list_all pgText [del_ResponseBody (answeredRow t t code body c), del_Error (answeredRow t t code body c)]" for t c
    using assms(3) by (simp add: answeredRow_def pgText_def)
  ultimately show ?thesis using pg_attempts_grow [OF assms(1,2,4) keeps] by blast
qed

section \<open>Sample tables\<close>

lemma sampleQueue_first: "map_of (mem_deliveries (sampleQueue st 0)) 1 = Some (sampleDelivery 1 1 st 0)"
  by (simp add: sampleQueue_def)

theorem pg_claims_like_memory_witness:
  "(\<lambda>c. (del_ID c, del_Attempt c)) `
     set (snd (PgClaimDue (fst (ReclaimExpiredLeases (sampleQueue DeliveryPending 0) 100)) 7 100 10 minute)) = {(1, 1)}"
proof -
  have "pg_rows 100 (sampleQueue DeliveryPending 0)"
    using sampleQueue_wf by (auto simp: pg_rows_def deliveryRows_def sampleQueue_def sampleDelivery_def)
  from pg_claims_like_memory [OF this, of 10 minute 7]
  show ?thesis by (simp add: minute_def second_def) (simp add: sampleQueue_simps Let_def)
qed

definition queueTables :: Memory where
  "queueTables = NewMemory\<lparr>mem_events := [(''sh_evt_1'', zeroEvent)], mem_destinations := [(''dst_1'', sampleDestination)]\<rparr>"

definition pgRun :: "pg_op list" where
  "pgRun = [PgEnqueue 10 (sampleDelivery 0 1 DeliveryPending 0), PgEnqueue 11 (sampleDelivery 0 2 DeliveryPending 0),
     PgClaim 7 20 10 0]"

lemma pgRun_state:
  "list_ex (\<lambda>d. d = bump 20 (sampleDelivery 1 1 DeliveryPending 0) \<and> busyRow (snd (foldl pg_step (0, queueTables) pgRun)) 30 d)
     (deliveryRows (snd (foldl pg_step (0, queueTables) pgRun)))"
  "list_ex (\<lambda>d. d = sampleDelivery 2 2 DeliveryPending 0) (deliveryRows (snd (foldl pg_step (0, queueTables) pgRun)))"
  "fst (foldl pg_step (0, queueTables) pgRun) = 20"
  by code_simp+

theorem pg_one_in_flight_witness:
  "\<not> busyRow (snd (foldl pg_step (0, queueTables) pgRun)) 30 (sampleDelivery 2 2 DeliveryPending 0)"
proof
  let ?s = "foldl pg_step (0, queueTables) pgRun"
  let ?d = "bump 20 (sampleDelivery 1 1 DeliveryPending 0)" and ?e = "sampleDelivery 2 2 DeliveryPending 0"
  assume busy: "busyRow (snd ?s) 30 ?e"
  have rows: "?d \<in> set (deliveryRows (snd ?s))" "busyRow (snd ?s) 30 ?d" "?e \<in> set (deliveryRows (snd ?s))"
    using pgRun_state(1,2) unfolding list_ex_iff by blast+
  have legal: "legal pg_ok pg_step (0, queueTables) pgRun" by (simp add: pgRun_def pg_step_def)
  have "mem_deliveries queueTables = []" by (simp add: queueTables_def NewMemory_def)
  from pg_one_in_flight [OF legal this prod.collapse _ rows(1,2,3) busy] have "?d = ?e"
    by (simp add: pgRun_state(3)) (simp add: bump_def sampleDelivery_def)
  then show False by (simp add: bump_def sampleDelivery_def)
qed

text \<open>A delivery whose dispatcher died at time 50.\<close>

definition orphan :: Memory where
  "orphan = (sampleQueue DeliveryInFlight 0)\<lparr>mem_leases := [(1, 50)]\<rparr>"

lemma orphan_rows: "deliveryRows orphan = [sampleDelivery 1 1 DeliveryInFlight 0, sampleDelivery 2 2 DeliveryPending 0]"
  by (simp add: orphan_def sampleQueue_def deliveryRows_def)

theorem pg_crash_recovers_witness:
  "list_ex (\<lambda>c. claimOrder c \<le> claimOrder (sampleDelivery 1 1 DeliveryInFlight 0) \<and> del_Status c = DeliveryInFlight)
     (snd (PgClaimDue (fst (ReclaimExpiredLeases orphan 100)) 7 100 10 minute))"
proof -
  let ?d = "sampleDelivery 1 1 DeliveryInFlight 0" and ?claim = "PgClaimDue (fst (ReclaimExpiredLeases orphan 100)) 7 100 10 minute"
  have wf: "queue_wf orphan" using sampleQueue_wf by (simp add: orphan_def queue_wf_def)
  have row: "?d \<in> set (deliveryRows orphan)" by (simp add: orphan_rows)
  have lapsed: "lapsed orphan 100 ?d" and due: "is_zero_time (del_NextRetryAt ?d) \<or> del_NextRetryAt ?d \<le> 100"
    by (simp_all add: lapsed_def orphan_def sampleDelivery_def)
  have free: "\<not> list_ex (\<lambda>b. pairOf b = pairOf ?d \<and> busyRow orphan 100 b) (deliveryRows orphan)"
    unfolding orphan_rows by (simp add: busyRow_def orphan_def sampleDelivery_def)
  have "length (snd ?claim) < nat 10" by code_simp
  moreover have "del_Shard ?d = 7" "(0::int) < 10" "(10::int) \<le> 200" "0 < minute" by (simp_all add: sampleDelivery_def minute_def second_def)
  moreover have "?claim = (fst ?claim, snd ?claim)" by simp
  ultimately show ?thesis
    using pg_crash_recovers [OF wf row lapsed due free, of 10 minute] unfolding list_ex_iff by metis
qed

lemma parked_twice:
  "pgAttempts (\<lambda>t. parkRow t 100 []) 7 minute 1 [100, 300] (sampleQueue DeliveryPending 0) \<noteq> None"
  "memAttempts (\<lambda>t. parkRow t 100 []) 7 minute 1 [100, 300] (sampleQueue DeliveryPending 0) \<noteq> None"
  by code_simp+

theorem pg_parking_spends_budget_witness:
  "\<exists>pg p. pgAttempts (\<lambda>t. parkRow t 100 []) 7 minute 1 [100, 300] (sampleQueue DeliveryPending 0) = Some pg
     \<and> map_of (mem_deliveries pg) 1 = Some p \<and> del_Attempt p = 2"
proof -
  obtain pg mem where runs: "pgAttempts (\<lambda>t. parkRow t 100 []) 7 minute 1 [100, 300] (sampleQueue DeliveryPending 0) = Some pg"
    "memAttempts (\<lambda>t. parkRow t 100 []) 7 minute 1 [100, 300] (sampleQueue DeliveryPending 0) = Some mem"
    using parked_twice by blast
  from pg_parking_spends_budget [OF sampleQueue_wf sampleQueue_first _ runs] obtain p where
    "map_of (mem_deliveries pg) 1 = Some p" "del_Attempt p = 2" by (auto simp: sampleDelivery_def)
  with runs(1) show ?thesis by blast
qed

text \<open>Four turns, each after the lease of the one before, of a delivery that is answered with a zero byte.\<close>

lemma sent_four_times:
  "pgAttempts (\<lambda>t. answeredRow t t 200 [CHR 0x00]) 7 50 1 [100, 200, 300, 400] (sampleQueue DeliveryPending 0) \<noteq> None"
  "memAttempts (\<lambda>t. answeredRow t t 200 [CHR 0x00]) 7 50 1 [100] (sampleQueue DeliveryPending 0) \<noteq> None"
  by code_simp+

theorem pg_zero_byte_redelivers_witness:
  "\<exists>pg p. pgAttempts (\<lambda>t. answeredRow t t 200 [CHR 0x00]) 7 50 1 [100, 200, 300, 400] (sampleQueue DeliveryPending 0) = Some pg
     \<and> map_of (mem_deliveries pg) 1 = Some p \<and> del_Attempt p = 4 \<and> del_Status p = DeliveryInFlight"
proof -
  obtain pg mem where runs:
    "pgAttempts (\<lambda>t. answeredRow t t 200 [CHR 0x00]) 7 50 1 [100, 200, 300, 400] (sampleQueue DeliveryPending 0) = Some pg"
    "memAttempts (\<lambda>t. answeredRow t t 200 [CHR 0x00]) 7 50 1 [100] (sampleQueue DeliveryPending 0) = Some mem"
    using sent_four_times by blast
  have "CHR 0x00 \<in> set (truncateUTF8 [CHR 0x00])" by code_simp
  from pg_zero_byte_redelivers [OF sampleQueue_wf sampleQueue_first this runs] obtain p where
    "map_of (mem_deliveries pg) 1 = Some p" "del_Attempt p = 4" "del_Status p = DeliveryInFlight" by (auto simp: sampleDelivery_def)
  with runs(1) show ?thesis by blast
qed

end
