(* ===== verification/Postgres_Events.thy ===== *)
theory Postgres_Events
  imports Postgres_Store Normaliser_Spec
begin

text \<open>
  Events on Postgres. \<open>pgProcess\<close> and \<open>pgSweep\<close> are what the normaliser (\<^verbatim>\<open>internal/normalise/normalise.go\<close>,
  \<^verbatim>\<open>worker.go\<close>) does to the tables, with the statements of \<open>Postgres_Store\<close> in place of the in-memory operations; audit
  records and deliveries are left to \<open>Normaliser\<close>. What is proved: an event is stored once and a raw event is only
  marked done together with it, one payload that \<^verbatim>\<open>jsonb\<close> refuses stays at the head of the queue for ever, and what reads
  back of an event.
\<close>

section \<open>Normalising\<close>

datatype pg_decision = PgSkip | PgPanics | PgUnreadable string | PgEvent CanonicalEvent

definition pgDecide :: "NormaliseEnv \<Rightarrow> instant \<Rightarrow> string \<Rightarrow> string \<Rightarrow> string \<Rightarrow> Memory \<Rightarrow> pg_decision" where
  "pgDecide E now newID rawEventID tenantID m =
     (case PgGetRawEvent m tenantID rawEventID of
        Inl _ \<Rightarrow> PgSkip
      | Inr raw \<Rightarrow>
     if \<not> raw_SignatureValid raw then PgSkip
     else case PgGetEndpoint m tenantID (raw_EndpointID raw) of
        Inl _ \<Rightarrow> PgSkip
      | Inr endpoint \<Rightarrow>
     (case GetAdapter (ne_registry E) tenantID (ep_AdapterName endpoint) of
        None \<Rightarrow> PgSkip
      | Some a \<Rightarrow>
     (case ad_Parse a (raw_Body raw) of
        Inl err \<Rightarrow> PgUnreadable (parseText err)
      | Inr ev \<Rightarrow>
     (case noteRedaction raw (hashCustomer E tenantID (stamp now newID tenantID raw endpoint ev)) of
        None \<Rightarrow> PgPanics
      | Some ev \<Rightarrow>
          let ev = Normalise ev
          in case Validate ev of
               Some err \<Rightarrow> PgUnreadable (validationText (ne_quote E) ev err)
             | None \<Rightarrow> PgEvent ev))))"

definition pgProcess :: "PgLib \<Rightarrow> NormaliseEnv \<Rightarrow> instant \<Rightarrow> string \<Rightarrow> string \<Rightarrow> string \<Rightarrow> Memory \<Rightarrow> Memory" where
  "pgProcess P E now newID rawEventID tenantID m =
     (case pgDecide E now newID rawEventID tenantID m of
        PgSkip \<Rightarrow> m
      | PgPanics \<Rightarrow> m
      | PgUnreadable reason \<Rightarrow> fst (PgMarkNormalisationFailure m tenantID rawEventID reason)
      | PgEvent ev \<Rightarrow>
          (case PgPutCanonicalEvent P now m ev of
             (m', None) \<Rightarrow> m'
           | (m', Some (PgDuplicate _)) \<Rightarrow>
               fst (PgMarkNormalisationFailure m tenantID rawEventID ''duplicate of an event already normalised'')
           | (m', Some err) \<Rightarrow> m))"

definition pgSweep :: "PgLib \<Rightarrow> NormaliseEnv \<Rightarrow> instant \<Rightarrow> (string \<Rightarrow> string) \<Rightarrow> int \<Rightarrow> Memory \<Rightarrow> Memory" where
  "pgSweep P E now draw batch m =
     fold (\<lambda>raw. pgProcess P E now (draw (raw_ID raw)) (raw_ID raw) (raw_TenantID raw))
       (PgListUnnormalised m (if batch \<le> 0 then 100 else batch)) m"

section \<open>Rows\<close>

lemma tableRows_simps [simp]:
  "tableRows [] = []" "tableRows (x # t) = snd x # tableRows t" "tableRows (s @ t) = tableRows s @ tableRows t"
  by (simp_all add: tableRows_def)

lemma PgPutRawEvent_cases:
  obtains "fst (PgPutRawEvent P now m e) = m"
  | r where "fst (PgPutRawEvent P now m e) = m\<lparr>mem_rawEvents := mem_rawEvents m @ [(raw_ID e, r)]\<rparr>"
      "raw_ID r = raw_ID e" "raw_TenantID r = raw_TenantID e" "raw_ReceivedAt r = orNowUTC now (raw_ReceivedAt e)"
proof -
  let ?e = "\<lambda>hs. e\<lparr>raw_Headers := hs, raw_ReceivedAt := orNowUTC now (raw_ReceivedAt e)\<rparr>"
  have "fst (PgPutRawEvent P now m e) = m
      \<or> (\<exists>hs. fst (PgPutRawEvent P now m e) = m\<lparr>mem_rawEvents := mem_rawEvents m @ [(raw_ID e, ?e hs)]\<rparr>)"
    by (auto simp: PgPutRawEvent_def Let_def split: option.splits)
  with that(1) that(2) show thesis by fastforce
qed

lemma PgPutCanonicalEvent_cases:
  obtains (refused) err where "PgPutCanonicalEvent P now m e = (m, Some err)"
  | (stored) r m' where "PgPutCanonicalEvent P now m e = (m', None)" "eventRow P now e = Some r"
      "m' = m\<lparr>mem_events := mem_events m @ [(ev_ID e, r)],
              mem_normalised := (if ev_RawEventID e \<noteq> [] \<and> rawRow m (ev_TenantID e) (ev_RawEventID e)
                                 then AList.update (ev_RawEventID e) (ev_ID e) (mem_normalised m) else mem_normalised m)\<rparr>"
      "\<not> list_ex (\<lambda>r. ev_ID r = ev_ID e) (tableRows (mem_events m))"
      "\<not> list_ex (sameProviderEvent e) (tableRows (mem_events m))"
proof (cases "eventRow P now e")
  case None
  then show ?thesis by (intro refused) (simp add: PgPutCanonicalEvent_def)
next
  case (Some r)
  show ?thesis
  proof (cases "list_ex (\<lambda>r. ev_ID r = ev_ID e) (tableRows (mem_events m)) \<or> list_ex (sameProviderEvent e) (tableRows (mem_events m))")
    case True
    then have "\<exists>err. PgPutCanonicalEvent P now m e = (m, Some err)" using Some by (auto simp: PgPutCanonicalEvent_def)
    then show ?thesis using refused by blast
  next
    case False
    with Some show ?thesis by (intro stored [OF _ Some refl]) (simp_all add: PgPutCanonicalEvent_def)
  qed
qed

lemma eventRow_fields:
  assumes "eventRow P now e = Some r"
  shows "ev_ID r = ev_ID e" "ev_TenantID r = ev_TenantID e" "ev_RawEventID r = ev_RawEventID e" "ev_Provider r = ev_Provider e"
    and "ev_ProviderEventID r = ev_ProviderEventID e"
  using assms by (auto simp: eventRow_def split: if_splits option.splits)

lemma PgMark_cases:
  obtains "fst (PgMarkNormalisationFailure m t i reason) = m"
  | reason' where "fst (PgMarkNormalisationFailure m t i reason) = m\<lparr>mem_failures := AList.update i reason' (mem_failures m)\<rparr>"
      "rawRow m t i"
proof (cases "fst (PgMarkNormalisationFailure m t i reason) = m")
  case False
  with that(2) show ?thesis by (auto simp: PgMarkNormalisationFailure_def Let_def split: if_splits)
qed (rule that(1))

section \<open>Stored once, and done together\<close>

datatype pg_event_op =
    OpRaw instant RawEvent
  | OpEvent instant CanonicalEvent
  | OpFailure string string string

fun pg_event_step :: "PgLib \<Rightarrow> Memory \<Rightarrow> pg_event_op \<Rightarrow> Memory" where
  "pg_event_step P m (OpRaw now e) = fst (PgPutRawEvent P now m e)"
| "pg_event_step P m (OpEvent now e) = fst (PgPutCanonicalEvent P now m e)"
| "pg_event_step P m (OpFailure tenantID i reason) = fst (PgMarkNormalisationFailure m tenantID i reason)"

definition pg_event_inv :: "Memory \<Rightarrow> bool" where
  "pg_event_inv m \<longleftrightarrow>
     distinct (map ev_ID (tableRows (mem_events m)))
   \<and> (\<forall>e\<in>set (tableRows (mem_events m)). \<forall>f\<in>set (tableRows (mem_events m)). sameProviderEvent e f \<longrightarrow> e = f)
   \<and> (\<forall>i c. map_of (mem_normalised m) i = Some c \<longrightarrow>
        (\<exists>e\<in>set (tableRows (mem_events m)). ev_ID e = c \<and> ev_RawEventID e = i))"

lemma sameProviderEvent_sym: "sameProviderEvent e f \<Longrightarrow> sameProviderEvent f e"
  by (simp add: sameProviderEvent_def)

interpretation pg_events: machine "pg_event_step P" "\<lambda>_ _. True" pg_event_inv for P
proof
  fix m x
  assume inv: "pg_event_inv m"
  show "pg_event_inv (pg_event_step P m x)"
  proof (cases x)
    case (OpRaw now e)
    show ?thesis by (rule PgPutRawEvent_cases [of P now m e]) (use inv OpRaw in \<open>simp_all add: pg_event_inv_def\<close>)
  next
    case (OpFailure t i reason)
    show ?thesis by (rule PgMark_cases [of m t i reason]) (use inv OpFailure in \<open>simp_all add: pg_event_inv_def\<close>)
  next
    case (OpEvent now e)
    show ?thesis
    proof (cases rule: PgPutCanonicalEvent_cases [of P now m e])
      case (refused err)
      with inv OpEvent show ?thesis by simp
    next
      case (stored r m')
      note f = eventRow_fields [OF stored(2)]
      have rows: "tableRows (mem_events m') = tableRows (mem_events m) @ [r]" by (simp add: stored(3))
      have new: "ev_ID x \<noteq> ev_ID r" "\<not> sameProviderEvent r x" if "x \<in> set (tableRows (mem_events m))" for x
        using stored(4,5) that f by (auto simp: list_ex_iff sameProviderEvent_def)
      have "distinct (map ev_ID (tableRows (mem_events m')))" using inv new(1) by (force simp: rows pg_event_inv_def)
      moreover have "\<forall>e\<in>set (tableRows (mem_events m')). \<forall>f\<in>set (tableRows (mem_events m')). sameProviderEvent e f \<longrightarrow> e = f"
        using inv new(2) sameProviderEvent_sym unfolding rows pg_event_inv_def by auto
      moreover have "\<exists>e\<in>set (tableRows (mem_events m')). ev_ID e = c \<and> ev_RawEventID e = i"
        if "map_of (mem_normalised m') i = Some c" for i c
        using that inv f unfolding rows pg_event_inv_def by (auto simp: stored(3) split: if_splits)
      ultimately show ?thesis using stored(1) OpEvent by (simp add: pg_event_inv_def)
    qed
  qed
qed

text \<open>
  On Postgres, whatever the receivers and normalisers of any number of processes write, each write one transaction:
  a provider's event is stored at most once per tenant, and a raw event is marked as normalised only with an event made
  from it, so none is counted as done and never forwarded. A write that is refused changes nothing; one that is accepted
  takes its raw event off the queue.
\<close>

theorem pg_event_stored_once:
  assumes "mem_events m0 = []" and "mem_normalised m0 = []" and "m = foldl (pg_event_step P) m0 xs"
  shows "(\<forall>e\<in>set (tableRows (mem_events m)). \<forall>f\<in>set (tableRows (mem_events m)).
      ev_ProviderEventID e \<noteq> [] \<and> ev_TenantID f = ev_TenantID e \<and> ev_Provider f = ev_Provider e
      \<and> ev_ProviderEventID f = ev_ProviderEventID e \<longrightarrow> e = f)
    \<and> (\<forall>i c. map_of (mem_normalised m) i = Some c \<longrightarrow>
      (\<exists>e\<in>set (tableRows (mem_events m)). ev_ID e = c \<and> ev_RawEventID e = i))
    \<and> (case PgPutCanonicalEvent P now m e of
         (m', Some err) \<Rightarrow> m' = m
       | (m', None) \<Rightarrow> rawRow m (ev_TenantID e) (ev_RawEventID e) \<and> ev_RawEventID e \<noteq> [] \<longrightarrow>
           (\<forall>r. raw_ID r = ev_RawEventID e \<longrightarrow> \<not> pendingRow m' r))"
proof -
  have "pg_event_inv m"
    unfolding assms(3) by (rule pg_events.run_inv) (simp_all add: pg_event_inv_def assms(1,2) legal_always)
  moreover have "case PgPutCanonicalEvent P now m e of
      (m', Some err) \<Rightarrow> m' = m
    | (m', None) \<Rightarrow> rawRow m (ev_TenantID e) (ev_RawEventID e) \<and> ev_RawEventID e \<noteq> [] \<longrightarrow>
        (\<forall>r. raw_ID r = ev_RawEventID e \<longrightarrow> \<not> pendingRow m' r)"
    by (rule PgPutCanonicalEvent_cases [of P now m e]) (simp_all add: pendingRow_def)
  ultimately show ?thesis unfolding pg_event_inv_def sameProviderEvent_def by blast
qed

section \<open>A payload the columns refuse\<close>

lemma sort_key_snoc:
  fixes f :: "'a \<Rightarrow> 'k :: linorder"
  assumes s: "sort_key f ys = A @ B" and A: "\<forall>y\<in>set A. f y \<le> f x" and B: "\<forall>y\<in>set B. f x < f y"
  shows "sort_key f (ys @ [x]) = A @ x # B"
proof (rule properties_for_sort_key)
  have "mset (A @ B) = mset ys" unfolding s [symmetric] by simp
  then show "mset (A @ x # B) = mset (ys @ [x])" by simp
  have "sorted (map f (A @ B))" unfolding s [symmetric] by simp
  then show "sorted (map f (A @ x # B))" using A B by (auto simp: sorted_append less_imp_le)
  fix z
  have "filter (\<lambda>y. f z = f y) (A @ B) = filter (\<lambda>y. f z = f y) ys"
    unfolding s [symmetric] using sort_key_stable [of f "f z" ys] by (simp add: eq_commute)
  moreover have "filter (\<lambda>y. f z = f y) B = []" if "f z = f x" using B that by (auto simp: filter_empty_conv)
  ultimately show "filter (\<lambda>y. f z = f y) (A @ x # B) = filter (\<lambda>y. f z = f y) (ys @ [x])"
    by (cases "f z = f x") simp_all
qed

lemma split_at_key:
  fixes f :: "'a \<Rightarrow> 'k :: linorder"
  shows "sorted (map f s) \<Longrightarrow> \<exists>A B. s = A @ B \<and> (\<forall>y\<in>set A. f y \<le> k) \<and> (\<forall>y\<in>set B. k < f y)"
proof (induction s)
  case (Cons a s)
  then obtain A B where ab: "s = A @ B" "\<forall>y\<in>set A. f y \<le> k" "\<forall>y\<in>set B. k < f y" by auto
  show ?case
  proof (cases "f a \<le> k")
    case True
    with ab show ?thesis by (intro exI [of _ "a # A"] exI [of _ B]) simp
  next
    case False
    with Cons.prems have "\<forall>y\<in>set (a # s). k < f y" by fastforce
    then show ?thesis by (intro exI [of _ "[]"] exI [of _ "a # s"]) simp
  qed
qed simp

lemma take_sort_snoc:
  fixes f :: "'a \<Rightarrow> 'k :: linorder"
  assumes "n \<le> length ys" and "\<forall>y\<in>set (take n (sort_key f ys)). f y \<le> f x"
  shows "take n (sort_key f (ys @ [x])) = take n (sort_key f ys)"
proof -
  obtain A B where s: "sort_key f ys = A @ B" and ab: "\<forall>y\<in>set A. f y \<le> f x" "\<forall>y\<in>set B. f x < f y"
    using split_at_key [of f "sort_key f ys" "f x"] by auto
  have "n \<le> length A"
  proof (rule ccontr)
    assume short: "\<not> n \<le> length A"
    have "length A + length B = length ys" using arg_cong [OF s, of length] by simp
    with short assms(1) obtain b bs where "B = b # bs" by (cases B) simp_all
    moreover from this short have "b \<in> set (take n (A @ B))" by (simp add: take_Cons')
    then have "f b \<le> f x" using assms(2) unfolding s by blast
    ultimately show False using ab(2) by auto
  qed
  then show ?thesis unfolding sort_key_snoc [OF s ab] s by simp
qed

text \<open>A raw event that is read and valid, and whose event the columns refuse.\<close>

definition poisoned :: "PgLib \<Rightarrow> NormaliseEnv \<Rightarrow> Memory \<Rightarrow> RawEvent \<Rightarrow> bool" where
  "poisoned P E m r \<longleftrightarrow>
     PgGetRawEvent m (raw_TenantID r) (raw_ID r) = Inr r
   \<and> (case pgDecide E 0 [] (raw_ID r) (raw_TenantID r) m of PgEvent ev \<Rightarrow> eventRow P 0 ev = None | _ \<Rightarrow> False)"

datatype pg_norm_op = PgArrives instant RawEvent | PgSweeps instant "string \<Rightarrow> string"

fun pg_norm_step :: "PgLib \<Rightarrow> NormaliseEnv \<Rightarrow> int \<Rightarrow> Memory \<Rightarrow> pg_norm_op \<Rightarrow> Memory" where
  "pg_norm_step P E batch m (PgArrives now e) = fst (PgPutRawEvent P now m e)"
| "pg_norm_step P E batch m (PgSweeps now draw) = pgSweep P E now draw batch m"

text \<open>Webhooks that come in are received after the ones that wait.\<close>

fun receivedAfter :: "RawEvent list \<Rightarrow> pg_norm_op \<Rightarrow> bool" where
  "receivedAfter rs (PgArrives now e) =
     list_all (\<lambda>r. gt_instant (raw_ReceivedAt r) \<le> gt_instant (orNowUTC now (raw_ReceivedAt e))) rs"
| "receivedAfter rs (PgSweeps now draw) = True"

lemma pgText_Nil: "pgText []"
  by (simp add: pgText_def ToValidUTF8.simps)

text \<open>The time of the attempt and the identifier it draws do not matter for the refusal.\<close>

lemma restamped:
  "stamp now i t raw ep ev = (stamp 0 [] t raw ep ev)\<lparr>ev_ID := i, ev_NormalisedAt := utcTime now\<rparr>"
  "hashCustomer E t (e\<lparr>ev_ID := i, ev_NormalisedAt := n\<rparr>) = (hashCustomer E t e)\<lparr>ev_ID := i, ev_NormalisedAt := n\<rparr>"
  "noteRedaction raw (e\<lparr>ev_ID := i, ev_NormalisedAt := n\<rparr>) = map_option (\<lambda>e. e\<lparr>ev_ID := i, ev_NormalisedAt := n\<rparr>) (noteRedaction raw e)"
  "Validate (e\<lparr>ev_ID := i, ev_NormalisedAt := n\<rparr>) = Validate e"
  "Normalise (e\<lparr>ev_ID := i, ev_NormalisedAt := n\<rparr>) = (Normalise e)\<lparr>ev_ID := i, ev_NormalisedAt := to_UTC n\<rparr>"
  "validationText q (e\<lparr>ev_ID := i, ev_NormalisedAt := n\<rparr>) err = validationText q e err"
  by (simp_all add: stamp_def hashCustomer_def noteRedaction_def Validate_def Normalise_def validationText_def Let_def
      split: sum.split option.split validation_error.split)

lemma pgDecide_again:
  assumes "pgDecide E 0 [] i t m = PgEvent ev"
  shows "pgDecide E now newID i t m = PgEvent (ev\<lparr>ev_ID := newID, ev_NormalisedAt := to_UTC (utcTime now)\<rparr>)"
  using assms
  by (auto simp: pgDecide_def Let_def restamped(1) [of now newID] restamped(2-6) split: sum.splits option.splits if_splits)

lemma eventRow_refused:
  "ev_ID ev = [] \<Longrightarrow> eventRow P 0 ev = None \<Longrightarrow> eventRow P now (ev\<lparr>ev_ID := i, ev_NormalisedAt := n\<rparr>) = None"
  by (auto simp: eventRow_def pgText_Nil split: option.splits if_splits)

lemma pgDecide_ID: "pgDecide E now newID i t m = PgEvent ev \<Longrightarrow> ev_ID ev = newID"
  by (auto simp: pgDecide_def Let_def stamp_def hashCustomer_def noteRedaction_def Normalise_def
      split: sum.splits option.splits if_splits)

lemma poisoned_stuck: "poisoned P E m r \<Longrightarrow> pgProcess P E now newID (raw_ID r) (raw_TenantID r) m = m"
proof -
  assume "poisoned P E m r"
  then obtain ev where ev: "pgDecide E 0 [] (raw_ID r) (raw_TenantID r) m = PgEvent ev" "eventRow P 0 ev = None"
    by (auto simp: poisoned_def split: pg_decision.splits)
  from eventRow_refused [OF pgDecide_ID [OF ev(1)] ev(2)] pgDecide_again [OF ev(1), of now newID]
  show ?thesis by (simp add: pgProcess_def PgPutCanonicalEvent_def)
qed

lemma stuck_batch:
  "\<forall>r\<in>set rs. poisoned P E m r \<Longrightarrow>
   fold (\<lambda>raw. pgProcess P E now (draw (raw_ID raw)) (raw_ID raw) (raw_TenantID raw)) rs m = m"
  by (induction rs) (simp_all add: poisoned_stuck)

lemma firstRow_append: "firstRow xs = Inr r \<Longrightarrow> firstRow (xs @ ys) = Inr r"
  by (cases xs) simp_all

lemma PgGetRawEvent_appended:
  "PgGetRawEvent m t i = Inr r \<Longrightarrow> PgGetRawEvent (m\<lparr>mem_rawEvents := mem_rawEvents m @ [x]\<rparr>) t i = Inr r"
  by (auto simp: PgGetRawEvent_def bound_def firstRow_append split: if_splits)

lemma poisoned_appended:
  assumes "poisoned P E m r"
  shows "poisoned P E (m\<lparr>mem_rawEvents := mem_rawEvents m @ [x]\<rparr>) r"
proof -
  have raw: "PgGetRawEvent m (raw_TenantID r) (raw_ID r) = Inr r" using assms by (simp add: poisoned_def)
  have "pgDecide E 0 [] (raw_ID r) (raw_TenantID r) (m\<lparr>mem_rawEvents := mem_rawEvents m @ [x]\<rparr>)
      = pgDecide E 0 [] (raw_ID r) (raw_TenantID r) m"
    by (simp add: pgDecide_def raw PgGetRawEvent_appended [OF raw] PgGetEndpoint_def)
  with assms PgGetRawEvent_appended [OF raw] show ?thesis by (simp add: poisoned_def)
qed

lemma appended_behind:
  assumes "PgListUnnormalised m batch = rs" "length rs = nat batch" "0 < batch" "batch \<le> 1000"
    and "\<forall>r\<in>set rs. gt_instant (raw_ReceivedAt r) \<le> gt_instant (raw_ReceivedAt (snd x))"
  shows "PgListUnnormalised (m\<lparr>mem_rawEvents := mem_rawEvents m @ [x]\<rparr>) batch = rs"
proof -
  let ?k = "\<lambda>r. gt_instant (raw_ReceivedAt r)" and ?ws = "filter (pendingRow m) (tableRows (mem_rawEvents m))"
  have rs: "rs = take (nat batch) (sort_key ?k ?ws)" using assms(1,3,4) by (simp add: PgListUnnormalised_def)
  have same: "pendingRow (m\<lparr>mem_rawEvents := mem_rawEvents m @ [x]\<rparr>) = pendingRow m" by (simp add: pendingRow_def fun_eq_iff)
  have "nat batch \<le> length ?ws" using assms(2) by (simp add: rs)
  from take_sort_snoc [OF this, of ?k "snd x"] assms(5) show ?thesis
    using assms(3,4) by (simp add: PgListUnnormalised_def same rs)
qed

text \<open>
  On Postgres, webhooks whose events a column refuses hold up every tenant. A zero byte in any text of a payload is
  valid JSON and reaches the event, and no text or \<^verbatim>\<open>jsonb\<close> column takes it; the refusal counts as passing, so the raw event
  is left waiting. Once such raw events fill the normaliser's batch, then however many sweeps follow and whatever arrives
  meanwhile, nothing is normalised any more: no event is stored and the same batch is listed again.
\<close>

theorem pg_poison_starves:
  assumes "PgListUnnormalised m batch = rs" "length rs = nat batch" "0 < batch" "batch \<le> 1000"
    and "\<forall>r\<in>set rs. poisoned P E m r" and "list_all (receivedAfter rs) xs"
  shows "mem_events (foldl (pg_norm_step P E batch) m xs) = mem_events m
    \<and> mem_normalised (foldl (pg_norm_step P E batch) m xs) = mem_normalised m
    \<and> PgListUnnormalised (foldl (pg_norm_step P E batch) m xs) batch = rs"
  using assms(1,5,6)
proof (induction xs arbitrary: m)
  case (Cons x xs)
  let ?m = "pg_norm_step P E batch m x"
  have "PgListUnnormalised ?m batch = rs \<and> (\<forall>r\<in>set rs. poisoned P E ?m r)
      \<and> mem_events ?m = mem_events m \<and> mem_normalised ?m = mem_normalised m"
  proof (cases x)
    case (PgSweeps now draw)
    have "?m = m" using stuck_batch [OF Cons.prems(2)] assms(3) Cons.prems(1) PgSweeps by (simp add: pgSweep_def)
    with Cons.prems show ?thesis by simp
  next
    case (PgArrives now e)
    show ?thesis
    proof (rule PgPutRawEvent_cases [of P now m e])
      assume "fst (PgPutRawEvent P now m e) = m"
      with Cons.prems PgArrives show ?thesis by simp
    next
      fix r assume put: "fst (PgPutRawEvent P now m e) = m\<lparr>mem_rawEvents := mem_rawEvents m @ [(raw_ID e, r)]\<rparr>"
        and r: "raw_ReceivedAt r = orNowUTC now (raw_ReceivedAt e)"
      have "\<forall>w\<in>set rs. gt_instant (raw_ReceivedAt w) \<le> gt_instant (raw_ReceivedAt (snd (raw_ID e, r)))"
        using Cons.prems(3) PgArrives r by (simp add: list_all_iff)
      from appended_behind [OF Cons.prems(1) assms(2-4) this] show ?thesis
        using Cons.prems(2) poisoned_appended PgArrives by (simp add: put)
    qed
  qed
  with Cons.IH [of ?m] Cons.prems(3) show ?case by simp
qed simp

section \<open>Reading back\<close>

text \<open>
  An event read back from Postgres is the event that was stored, but for one field. There is no column for the note
  that card data was removed, so what the dispatcher sends from it says that nothing was, whatever the event said; the
  in-memory store keeps the field.
\<close>

theorem pg_event_reads_back:
  assumes "PgPutCanonicalEvent P now m e = (m', None)"
    and "ev_ProviderExtra e = Some x" "col_extra P x = Some x"
    and "\<not> IsZero (ev_OccurredAt e)" "\<not> IsZero (ev_ReceivedAt e)" "\<not> IsZero (ev_NormalisedAt e)"
    and "gt_zone (ev_OccurredAt e) = UTC" "gt_zone (ev_ReceivedAt e) = UTC" "gt_zone (ev_NormalisedAt e) = UTC"
  shows "\<exists>r. PgGetCanonicalEvent m' (ev_TenantID e) (ev_ID e) = Inr r \<and> r = e\<lparr>ev_Redacted := False\<rparr>
    \<and> BuildPayload E r raw = (BuildPayload E e raw)\<lparr>pl_Redacted := False\<rparr>"
proof (cases rule: PgPutCanonicalEvent_cases [of P now m e])
  case (refused err)
  with assms(1) show ?thesis by simp
next
  case (stored r m'')
  have utc: "to_UTC t = t" if "gt_zone t = UTC" for t :: gotime using that by (cases t) (simp add: to_UTC_def)
  have r: "r = e\<lparr>ev_Redacted := False\<rparr>"
    using stored(2) assms(2-9) by (auto simp: eventRow_def orNowUTC_def utc split: if_splits)
  have params: "list_all pgText [ev_TenantID e, ev_ID e]" using stored(2) by (simp add: eventRow_def split: if_splits)
  have "filter (\<lambda>f. ev_TenantID f = ev_TenantID e \<and> ev_ID f = ev_ID e) (tableRows (mem_events m)) = []"
    using stored(4) by (auto simp: filter_empty_conv list_ex_iff)
  then have "PgGetCanonicalEvent m' (ev_TenantID e) (ev_ID e) = Inr r"
    using stored(1,3) assms(1) params by (simp add: PgGetCanonicalEvent_def bound_def r)
  then show ?thesis by (simp add: r BuildPayload_def)
qed

section \<open>Samples\<close>

definition sampleColumns :: PgLib where
  "sampleColumns = \<lparr>col_json = (\<lambda>_. True), col_filter = Some, col_headers = Some,
     col_extra = (\<lambda>x. if list_all (\<lambda>(k, v). case v of JString s \<Rightarrow> pgText s | _ \<Rightarrow> True) x then Some x else None)\<rparr>"

definition sampleEvent :: "string \<Rightarrow> CanonicalEvent" where
  "sampleEvent i = zeroEvent\<lparr>ev_ID := i, ev_TenantID := ''t'', ev_RawEventID := ''w'', ev_Provider := ''p'', ev_ProviderEventID := ''x'',
     ev_Status := ''success'', ev_ProviderExtra := Some [], ev_OccurredAt := utcTime 1, ev_ReceivedAt := utcTime 1,
     ev_NormalisedAt := utcTime 1, ev_Redacted := True\<rparr>"

definition eventTables :: Memory where
  "eventTables = NewMemory\<lparr>mem_rawEvents := [(''w'', zeroRaw\<lparr>raw_ID := ''w'', raw_TenantID := ''t'', raw_SignatureValid := True\<rparr>)]\<rparr>"

lemma sampleEvent_stored:
  "snd (PgPutCanonicalEvent sampleColumns 5 eventTables (sampleEvent ''a'')) = None"
  by code_simp

lemma sampleEvent_again:
  "map ev_ID (tableRows (mem_events (foldl (pg_event_step sampleColumns) eventTables
     [OpEvent 5 (sampleEvent ''a''), OpEvent 6 (sampleEvent ''b'')]))) = [''a'']"
  by code_simp

theorem pg_event_stored_once_witness:
  "map ev_ID (tableRows (mem_events (foldl (pg_event_step sampleColumns) eventTables
      [OpEvent 5 (sampleEvent ''a''), OpEvent 6 (sampleEvent ''b'')]))) = [''a'']
   \<and> (\<forall>i c. map_of (mem_normalised (foldl (pg_event_step sampleColumns) eventTables
      [OpEvent 5 (sampleEvent ''a''), OpEvent 6 (sampleEvent ''b'')])) i = Some c \<longrightarrow> c = ''a'' \<and> i = ''w'')"
proof -
  let ?m = "foldl (pg_event_step sampleColumns) eventTables [OpEvent 5 (sampleEvent ''a''), OpEvent 6 (sampleEvent ''b'')]"
  have "mem_events eventTables = []" "mem_normalised eventTables = []" by (simp_all add: eventTables_def NewMemory_def)
  from pg_event_stored_once [OF this refl, of sampleColumns "[OpEvent 5 (sampleEvent ''a''), OpEvent 6 (sampleEvent ''b'')]"]
  have marked: "\<forall>i c. map_of (mem_normalised ?m) i = Some c \<longrightarrow>
      (\<exists>e\<in>set (tableRows (mem_events ?m)). ev_ID e = c \<and> ev_RawEventID e = i)" by blast
  have all: "list_all (\<lambda>e. ev_ID e = ''a'' \<and> ev_RawEventID e = ''w'') (tableRows (mem_events ?m))" by code_simp
  show ?thesis using marked all sampleEvent_again unfolding list_all_iff by blast
qed

theorem pg_event_reads_back_witness:
  "\<exists>r. PgGetCanonicalEvent (fst (PgPutCanonicalEvent sampleColumns 5 eventTables (sampleEvent ''a''))) ''t'' ''a'' = Inr r
     \<and> \<not> pl_Redacted (BuildPayload (sampleEnv (Response 200 [])) r []) \<and> ev_Redacted (sampleEvent ''a'')"
proof -
  have put: "PgPutCanonicalEvent sampleColumns 5 eventTables (sampleEvent ''a'')
      = (fst (PgPutCanonicalEvent sampleColumns 5 eventTables (sampleEvent ''a'')), None)"
    using sampleEvent_stored by (simp add: prod_eq_iff)
  have fields: "ev_ProviderExtra (sampleEvent ''a'') = Some []" "col_extra sampleColumns [] = Some []"
    "\<not> IsZero (ev_OccurredAt (sampleEvent ''a''))" "\<not> IsZero (ev_ReceivedAt (sampleEvent ''a''))"
    "\<not> IsZero (ev_NormalisedAt (sampleEvent ''a''))" "gt_zone (ev_OccurredAt (sampleEvent ''a'')) = UTC"
    "gt_zone (ev_ReceivedAt (sampleEvent ''a'')) = UTC" "gt_zone (ev_NormalisedAt (sampleEvent ''a'')) = UTC"
    by code_simp+
  have names: "ev_TenantID (sampleEvent ''a'') = ''t''" "ev_ID (sampleEvent ''a'') = ''a''" "ev_Redacted (sampleEvent ''a'')"
    by (simp_all add: sampleEvent_def)
  from pg_event_reads_back [OF put fields, of "sampleEnv (Response 200 [])" "[]"] names show ?thesis by auto
qed

text \<open>A payload with a zero byte in its reference, ahead of one without.\<close>

definition zeroDoc :: json where
  "zeroDoc = JObject [(''data'', JObject [(''reference'', JString [CHR 0x00]), (''status'', JString ''success'')])]"

definition zeroTables :: Memory where
  "zeroTables = ds_store (sampleIntake ''paystack'' [(''z'', ''z''), (''b'', ''b'')])"

theorem pg_poison_starves_witness:
  "mem_events (foldl (pg_norm_step sampleColumns (sampleNorm [(''z'', zeroDoc), (''b'', paidDoc)]) 1) zeroTables
     [PgSweeps 5 id, PgArrives 6 (sampleRaw ''c'' ''b''), PgSweeps 7 id]) = []"
proof -
  let ?E = "sampleNorm [(''z'', zeroDoc), (''b'', paidDoc)]" and ?rs = "[sampleRaw ''z'' ''z'']"
  have listed: "PgListUnnormalised zeroTables 1 = ?rs"
    by (simp add: zeroTables_def sampleIntake_def NewMemory_def PgListUnnormalised_def pendingRow_def) (simp add: sampleRaw_def)
  have "poisoned sampleColumns ?E zeroTables (sampleRaw ''z'' ''z'')" by code_simp
  then have bad: "\<forall>r\<in>set ?rs. poisoned sampleColumns ?E zeroTables r" by simp
  have later: "list_all (receivedAfter ?rs) [PgSweeps 5 id, PgArrives 6 (sampleRaw ''c'' ''b''), PgSweeps 7 id]" by code_simp
  have none: "mem_events zeroTables = []" by (simp add: zeroTables_def sampleIntake_def NewMemory_def)
  have full: "length ?rs = nat 1" "(0::int) < 1" "(1::int) \<le> 1000" by simp_all
  from pg_poison_starves [OF listed full bad later] show ?thesis unfolding none by blast
qed

end
