(* ===== verification/Spec2Isabelle.thy ===== *)
theory Spec2Isabelle
  imports Amount JsonPath Domain_Model Redact RateLimit Circuit_Breaker Audit_Records Audit_Chain Store Store_Spec
    Delivery_Queue Checkpoint Sign Dispatch Dispatch_Spec Replay
    Adapter_Core Provider_Adapters Adapter_Spec Normaliser Normaliser_Spec Net_Addr Guard Receive Receive_Spec Shadow Pipeline
    Declarative Declarative_Spec Declarative_Limits Infer Infer_Spec Idempotency Idempotency_Spec
    Auth Auth_Spec Manage Manage_Config Manage_Events Manage_Spec Manage_Adapters Manage_Limits
    Assoc Tunnel Tunnel_Spec Secrets Secrets_Spec Metrics Metrics_Spec Alerting Alerting_Spec Silence
    Server_Config Server Server_Spec Simulate Data_Subject Retention Usage Listen
    Postgres_Store Postgres_Queue Postgres_Queue_Spec Postgres_Events
begin

text \<open>
  A verification library for StatusHub, a relay that receives payment webhooks from providers, normalises them
  into one vocabulary and forwards them, signed, to its tenants' destinations.

  The program and its parts. A webhook enters at \<^verbatim>\<open>internal/receive\<close>, which resolves the URL to an endpoint,
  applies backpressure (\<^verbatim>\<open>internal/ratelimit\<close>), verifies the signature with the endpoint's adapter
  (\<^verbatim>\<open>internal/adapter\<close>, \<^verbatim>\<open>internal/adapters\<close>), removes card numbers (\<^verbatim>\<open>internal/redact\<close>) and stores the raw event
  (\<^verbatim>\<open>internal/store\<close>) before it answers. The normaliser (\<^verbatim>\<open>internal/normalise\<close>) parses pending raw events into
  canonical events (\<^verbatim>\<open>internal/domain\<close>, reading payloads through \<^verbatim>\<open>internal/jsonpath\<close>), stores each once and
  queues a delivery per matching destination. The dispatcher (\<^verbatim>\<open>internal/dispatch\<close>) claims due deliveries under a
  lease, asks the circuit breaker, signs and sends, and settles the outcome; replay, dead letters and the recovery
  sweep go through the same queue. Every step appends to the tenant's hash-chained audit trail, which
  \<^verbatim>\<open>internal/audit\<close> checkpoints. Customers verify deliveries with \<^verbatim>\<open>pkg/statushub\<close>. Around this path: secrets are
  resolved through a cache (\<^verbatim>\<open>internal/secret\<close>), developers listen to what is sent (\<^verbatim>\<open>internal/tunnel\<close>), operators watch
  (\<^verbatim>\<open>internal/metrics\<close>, \<^verbatim>\<open>internal/alert\<close>, \<^verbatim>\<open>internal/silence\<close>), bill (\<^verbatim>\<open>internal/usage\<close>), prune
  (\<^verbatim>\<open>internal/retention\<close>), export and erase (\<^verbatim>\<open>internal/subject\<close>) and simulate (\<^verbatim>\<open>internal/simulate\<close>), and
  \<^verbatim>\<open>internal/server\<close> builds a process of what its mode and region (\<^verbatim>\<open>internal/region\<close>) ask for.

  Theories and what they model.
  \<^item> \<open>Go_Prelude\<close>: the fragment of Go's semantics and library the rest shares (int64 wrap-around, saturating time
    subtraction, strings as bytes with trimming, cutting, case folding and hexadecimal, maps as association lists)
    and the locale \<open>machine\<close>, a step function with an invariant, which the mutex-protected components interpret.
  \<^item> \<open>Domain_Model\<close>: statuses, event types, raw and canonical events, configuration, filters, deliveries
    (\<^verbatim>\<open>internal/domain\<close>); \<open>Amount\<close>: money (\<^verbatim>\<open>amount.go\<close>); \<open>JsonPath\<close>: paths and value readers; \<open>Redact\<close>: card numbers;
    \<open>RateLimit\<close>: token buckets and bounded slots; \<open>Circuit_Breaker\<close>: the breaker.
  \<^item> \<open>Audit_Records\<close>, \<open>Audit_Chain\<close>, \<open>Checkpoint\<close>: records, the chains and their checkpoints.
  \<^item> \<open>Store\<close>, \<open>Store_Spec\<close>: the in-memory store and its isolation and deduplication contracts; \<open>Delivery_Queue\<close>: the
    queue with leases.
  \<^item> \<open>Sign\<close>: server and client signatures; \<open>Dispatch\<close>, \<open>Dispatch_Spec\<close>: one delivery attempt and what it guarantees;
    \<open>Replay\<close>: replay, dead letters, recovery; \<open>Net_Addr\<close>, \<open>Guard\<close>: addresses and the outbound guard; \<open>Shadow\<close>: shadow
    comparison.
  \<^item> \<open>Adapter_Core\<close>, \<open>Provider_Adapters\<close>, \<open>Adapter_Spec\<close>: the adapter interface as a record of methods, the six
    built-in adapters, and what they promise; \<open>Normaliser\<close>, \<open>Normaliser_Spec\<close>; \<open>Receive\<close>, \<open>Receive_Spec\<close>.
  \<^item> \<open>Declarative\<close>: adapters customers upload (\<^verbatim>\<open>internal/adapters/declarative\<close>): configuration, validation,
    compilation, signature check, parsing, test runs; \<open>Declarative_Spec\<close>, \<open>Declarative_Limits\<close>: what they report and
    where they fall short; \<open>Infer\<close>, \<open>Infer_Spec\<close>: drafting a configuration from samples.
  \<^item> \<open>Auth\<close>, \<open>Auth_Spec\<close>: API keys and authentication (\<^verbatim>\<open>internal/auth\<close>); \<open>Idempotency\<close>, \<open>Idempotency_Spec\<close>: the
    idempotency middleware as a machine of arrivals and completions.
  \<^item> \<open>Manage\<close>, \<open>Manage_Config\<close>, \<open>Manage_Events\<close>: the management API (\<^verbatim>\<open>internal/api\<close>): its state, every handler, the
    route table and the dispatch \<open>serveCall\<close>; \<open>Manage_Spec\<close>: keys and environments under any calls;
    \<open>Manage_Adapters\<close>: uploaded adapters, endpoints and the restart; \<open>Manage_Limits\<close>: lifetimes, rotation, windows.
  \<^item> \<open>Assoc\<close>: updates of association lists in place; \<open>Tunnel\<close>, \<open>Tunnel_Spec\<close>: the hub of listening sessions, its
    waiting polls as two steps each; \<open>Listen\<close>: its API handlers and the separation of tenants.
  \<^item> \<open>Secrets\<close>, \<open>Secrets_Spec\<close>: resolvers, tenant salts and the cache; \<open>Metrics\<close>, \<open>Metrics_Spec\<close>: series, histograms and
    the exposition text; \<open>Alerting\<close>, \<open>Alerting_Spec\<close>: pages, digests and suppression; \<open>Silence\<close>: the detector.
  \<^item> \<open>Data_Subject\<close>: export, erasure and its verification; \<open>Usage\<close>: the report that is billed; \<open>Retention\<close>: monthly
    partitions, the daily job; \<open>Simulate\<close>: sample webhooks and their signatures.
  \<^item> \<open>Server_Config\<close>: regions, modes, the environment and its validation; \<open>Server\<close>, \<open>Server_Spec\<close>: what a process is
    built of, what it starts, and what follows for the guard, the salts and uploaded adapters.
  \<^item> \<open>Postgres_Store\<close>, \<open>Postgres_Queue\<close>: the statements of the store on Postgres as operations on the rows of the same
    tables; \<open>Postgres_Queue_Spec\<close>: its queue against the in-memory one, single flight, recovery from a crash, and two ways
    in which an attempt is not accounted for; \<open>Postgres_Events\<close>: events stored once, read back, and payloads it refuses.
  \<^item> \<open>Pipeline\<close>: the shared state of all of them, histories of interleaved operations, and the end-to-end theorem.

  How state and operations correspond. A Go struct is a record with a field prefix, a method is a function that
  returns the new state, an error is a constructor of a sum or an option, an early return a branch. A handler runs as
  one step, since every shared structure it touches is guarded by its mutex; the interleavings that matter are
  sequences of such steps. Where a handler reads the clock more than once, each reading is an argument, so time may
  pass inside it. Identifiers drawn at random are arguments too. Go maps are association lists; theorems hold for
  every order, and where an order could show (the claiming loop) this is proved.

  What is a parameter. SHA-256, HMAC, Ed25519, base64, the JSON encoder and decoder, the layout parser of package time,
  URL and address text, the resolver, the HTTP transport and the secret resolver are fields of environment records,
  so every theorem holds for all of them; where a property needs more (a MAC of 32 bytes) it says so. So are the
  calendar, the text Postgres prints for a range, HKDF, the parsers of durations and floats in the environment, and
  what a database holds when a process connects to it. Queries of the subject, usage and retention packages are read
  as operations on rows: a \<^verbatim>\<open>SELECT\<close> filters, an \<^verbatim>\<open>UPDATE\<close> maps, a transaction either returns the new store or the old.
  Calls that only record a metric or a log line are left out of the components that make them: nothing reads them
  back. \<open>float64\<close> values are rationals: counters are exact up to \<open>2 ^ 53\<close>, token counts up to rounding. Upper and lower
  case are those of ASCII. A delivery attempt is one step with two readings of the clock, so what happens to the store
  during the HTTP exchange falls before or after it; the overflow of a retry jitter beyond a century is not modelled.

  What the lemmas show. Per component: an invariant of its state under every operation, the functional behaviour of
  each operation, round trips (amounts, paths, signatures), bounds (the sustained rate of the limiter, attempts, replay size), equivalence with a
  reference (server and client verification, the address test and its intervals) and refinement (path evaluation
  as a walk). Across components: settlement and single flight of deliveries, at most one event per provider
  identifier for the providers that send one, a normalising sweep that finishes unless events without an endpoint or an
  adapter fill its batch, durable receipt, and the authenticity of whatever is sent, traced back to the stored event, its
  raw event and the webhook it arrived in. Around them: no listening poll is lost and none reaches another tenant's session, revoked secrets and series
  are bounded, warnings are kept and pages spaced, an erasure is complete for what it can see, the daily job drops
  exactly what has left the retention, the raw-event totals of a bill add up over periods, simulated webhooks verify, and a live process cannot reach a
  reserved address. For the management API: separation of environments, an owner key that is never lost, adapters that can be
  reloaded from what is stored of them and cannot crash the normaliser, and writes that run once per idempotency key
  and window within one process, when they succeed. Some theorems state where the code falls short of its own comments: a half-open breaker that never closes, a
  later status of a transaction dropped as a duplicate, a limiter whose idle buckets refill early, a late handler that
  frees another request's key, signatures over fields run together, stored signature
  headers, a payload that Postgres refuses, batches blocked by deleted endpoints.

  Bounds and termination. No definition uses fuel: loops recurse over the bytes, rows or secrets they consume, with a
  measure where the recursion is not structural (trimming, scanning, paging). Bounds are those of the source: bodies
  of at most \<^verbatim>\<open>1 << 20\<close> bytes, replays of at most 10000 events, header values of 1024 bytes, batches of 100.

  Not modelled. Of the Postgres store, the audit statements, connections and their failures, and statements that run at the
  same time; the migrations but for the constraints they declare. The components above the store are modelled on the
  in-memory one, which keeps the attempt counter that \<open>pg_parking_spends_budget\<close> shows Postgres does not write. The
  commands of \<^verbatim>\<open>statushubctl\<close> parse flags, call what is modelled and print. HTTP serving, its time limits, the timers
  that call the loops, the dashboard, and the health, metrics and schema pages of the API are input and output. The
  in-memory store of adapters is what \<open>adapters_survive_restart\<close> reloads from; that a process makes an empty one is
  \<open>restart_forgets_adapters\<close>.
\<close>

end
